(* ===== verification/Iot_Prelude.thy ===== *)
theory Iot_Prelude
  imports Main "HOL-Library.Word" "HOL-Library.Monad_Syntax" "HOL-Library.Signed_Division"
begin

unbundle bit_operations_syntax

text \<open>
  Shared vocabulary of the development: the machine types of the C sources, C buffers with
  bounds-checked loads and stores, output cursors with the calculus of what a sequence of
  writes leaves in a buffer, the return codes of \<open>src/infra/infra_defs.h\<close>, and the generic
  locale of systems that keep an invariant.

  A C buffer is a list of bytes of its allocated size. An access outside it is undefined in C;
  in the model it has the value \<^term>\<open>None\<close>, so that a result \<^term>\<open>Some x\<close> also says that the
  operation stayed inside its buffers.
\<close>

subsection \<open>Machine types\<close>

type_synonym u8 = "8 word"
type_synonym u16 = "16 word"
type_synonym u32 = "32 word"
type_synonym u64 = "64 word"
type_synonym byte = u8

text \<open>A C string is given by its characters before the terminating zero byte.\<close>

type_synonym cstr = "byte list"

named_theorems emits_intro \<open>what the output operations write\<close>
named_theorems inv_intro \<open>operations that keep the invariant of their component\<close>

subsection \<open>Return codes\<close>

definition SUCCESS_RETURN :: int where "SUCCESS_RETURN = 0"
definition FAIL_RETURN :: int where "FAIL_RETURN = -1"
definition NULL_VALUE_ERROR :: int where "NULL_VALUE_ERROR = -2"

lemmas return_code_defs = SUCCESS_RETURN_def FAIL_RETURN_def NULL_VALUE_ERROR_def

lemma SUCCESS_RETURN_nonneg [simp]: "\<not> SUCCESS_RETURN < 0"
  by (simp add: SUCCESS_RETURN_def)

subsection \<open>C buffers\<close>

definition load :: "byte list \<Rightarrow> nat \<Rightarrow> byte option" where
  "load buf p = (if p < length buf then Some (buf ! p) else None)"

definition store :: "byte list \<Rightarrow> nat \<Rightarrow> byte \<Rightarrow> byte list option" where
  "store buf p b = (if p < length buf then Some (buf[p := b]) else None)"

text \<open>The buffer after the bytes \<open>bs\<close> were copied to offset \<open>p\<close>.\<close>

definition blit :: "byte list \<Rightarrow> nat \<Rightarrow> byte list \<Rightarrow> byte list" where
  "blit buf p bs = take p buf @ bs @ drop (p + length bs) buf"

text \<open>\<open>memcpy\<close> into a buffer, and \<open>memcpy\<close> out of one.\<close>

definition store_bytes :: "byte list \<Rightarrow> nat \<Rightarrow> byte list \<Rightarrow> byte list option" where
  "store_bytes buf p bs = (if p + length bs \<le> length buf then Some (blit buf p bs) else None)"

definition load_bytes :: "byte list \<Rightarrow> nat \<Rightarrow> nat \<Rightarrow> byte list option" where
  "load_bytes buf p n = (if p + n \<le> length buf then Some (take n (drop p buf)) else None)"

lemma load_bytes_length: "load_bytes buf p n = Some bs \<Longrightarrow> length bs = n"
  by (auto simp: load_bytes_def split: if_splits)

lemma length_blit [simp]: "p + length bs \<le> length buf \<Longrightarrow> length (blit buf p bs) = length buf"
  by (simp add: blit_def)

lemma blit_Nil [simp]: "blit buf p [] = buf"
  by (simp add: blit_def)

lemma blit_blit:
  assumes "p + length a \<le> length buf"
  shows "blit (blit buf p a) (p + length a) b = blit buf p (a @ b)"
  using assms by (simp add: blit_def add.commute add.left_commute)

lemma take_blit: "p + length bs \<le> length buf \<Longrightarrow> take (p + length bs) (blit buf p bs) = take p buf @ bs"
  by (simp add: blit_def)

lemma drop_blit: "p + length bs \<le> length buf \<Longrightarrow> drop (p + length bs) (blit buf p bs) = drop (p + length bs) buf"
  by (simp add: blit_def)

lemma store_eq_store_bytes: "store buf p b = store_bytes buf p [b]"
  by (simp add: store_def store_bytes_def blit_def upd_conv_take_nth_drop)

lemma load_append_right [simp]: "load (xs @ ys) (length xs) = load ys 0"
  by (simp add: load_def nth_append)

lemma load_Cons_0 [simp]: "load (b # bs) 0 = Some b"
  by (simp add: load_def)

lemma load_Cons_Suc [simp]: "load (b # bs) (Suc p) = load bs p"
  by (simp add: load_def)

lemma load_append: "load (xs @ ys) p = (if p < length xs then Some (xs ! p) else load ys (p - length xs))"
  by (auto simp: load_def nth_append)

lemma load_append_shift [simp]: "load (xs @ ys) (length xs + p) = load ys p"
  by (simp add: load_append load_def)

lemma load_Some_iff: "load buf p = Some b \<longleftrightarrow> p < length buf \<and> b = buf ! p"
  by (auto simp: load_def)

lemma take_drop_suffix: "xs = pre @ ys \<Longrightarrow> take (length ys) (drop (length xs - length ys) (xs @ rest)) = ys"
  by simp

subsection \<open>Output cursors\<close>

text \<open>
  The packet writers of the C sources take \<open>unsigned char **pptr\<close>, store at \<open>*pptr\<close> and
  advance it. A cursor is the buffer together with that position.
\<close>

type_synonym cursor = "byte list \<times> nat"

text \<open>
  A writer emits \<open>out\<close> when, wherever there is room, it copies exactly \<open>out\<close> to the
  position of the cursor, changes nothing else, and moves the cursor behind it.
\<close>

definition emits :: "(cursor \<Rightarrow> cursor option) \<Rightarrow> byte list \<Rightarrow> bool" where
  "emits w out \<longleftrightarrow>
     (\<forall>buf p. p + length out \<le> length buf \<longrightarrow> w (buf, p) = Some (blit buf p out, p + length out))"

lemma emitsD: "emits w out \<Longrightarrow> p + length out \<le> length buf \<Longrightarrow> w (buf, p) = Some (blit buf p out, p + length out)"
  by (simp add: emits_def)

lemma emits_Some [emits_intro]: "emits Some []"
  by (simp add: emits_def)

lemma emits_bind [emits_intro]:
  assumes "emits w a" and "emits v b"
  shows "emits (\<lambda>s. w s \<bind> v) (a @ b)"
  unfolding emits_def
proof (intro allI impI)
  fix buf :: "byte list" and p :: nat
  assume room: "p + length (a @ b) \<le> length buf"
  then have "w (buf, p) = Some (blit buf p a, p + length a)"
    by (intro emitsD [OF assms(1)]) simp
  moreover have "v (blit buf p a, p + length a) = Some (blit (blit buf p a) (p + length a) b, p + length a + length b)"
    using room by (intro emitsD [OF assms(2)]) simp
  ultimately show "w (buf, p) \<bind> v = Some (blit buf p (a @ b), p + length (a @ b))"
    using room by (simp add: blit_blit)
qed

lemma emits_if [emits_intro]:
  assumes "b \<Longrightarrow> emits w x" and "\<not> b \<Longrightarrow> emits v y"
  shows "emits (\<lambda>s. if b then w s else v s) (if b then x else y)"
  using assms by (cases b) (simp_all add: emits_def)

text \<open>
  A serializer ends with \<open>rc = ptr - buf\<close>: its result is the number of bytes written and
  the buffer. It serializes \<open>out\<close> when it emits \<open>out\<close> and counts it.
\<close>

definition ptr_diff :: "cursor \<Rightarrow> (int \<times> byte list) option" where
  "ptr_diff = (\<lambda>(buf, ptr). Some (int ptr, buf))"

definition serializes :: "(cursor \<Rightarrow> (int \<times> byte list) option) \<Rightarrow> byte list \<Rightarrow> bool" where
  "serializes f out \<longleftrightarrow>
     (\<forall>buf p. p + length out \<le> length buf \<longrightarrow> f (buf, p) = Some (int (p + length out), blit buf p out))"

lemma serializesD:
  "serializes f out \<Longrightarrow> length out \<le> length buf \<Longrightarrow> f (buf, 0) = Some (int (length out), blit buf 0 out)"
  by (simp add: serializes_def)

lemma serializes_ptr_diff [emits_intro]: "serializes ptr_diff []"
  by (simp add: serializes_def ptr_diff_def)

lemma serializes_bind [emits_intro]:
  assumes "emits w a" and "serializes f b"
  shows "serializes (\<lambda>s. w s \<bind> f) (a @ b)"
  unfolding serializes_def
proof (intro allI impI)
  fix buf :: "byte list" and p :: nat
  assume room: "p + length (a @ b) \<le> length buf"
  then have "w (buf, p) = Some (blit buf p a, p + length a)"
    by (intro emitsD [OF assms(1)]) simp
  moreover have "f (blit buf p a, p + length a) =
      Some (int (p + length a + length b), blit (blit buf p a) (p + length a) b)"
    using room assms(2) by (simp add: serializes_def)
  ultimately show "w (buf, p) \<bind> f = Some (int (p + length (a @ b)), blit buf p (a @ b))"
    using room by (simp add: blit_blit)
qed

subsection \<open>Words and integers\<close>

lemma word_of_int_of_nat [simp]: "word_of_int (int n) = of_nat n"
  by simp

lemma unat_of_nat_8: "n < 256 \<Longrightarrow> unat (of_nat n :: u8) = n"
  by (simp add: unat_of_nat)

lemma unat_u16_lt: "unat (w :: u16) < 65536"
  using unsigned_less [of w, where ?'a = nat] by simp

lemma unat_u8_lt: "unat (w :: u8) < 256"
  using unsigned_less [of w, where ?'a = nat] by simp

lemma unat_u32_lt: "unat (w :: u32) < 4294967296"
  using unsigned_less [of w, where ?'a = nat] by simp

lemma sdiv_int_nat [simp]: "int m sdiv int n = int (m div n)"
  by (simp add: signed_divide_int_def of_nat_div sgn_if)

lemma smod_int_nat [simp]: "int m smod int n = int (m mod n)"
  unfolding signed_modulo_int_def sdiv_int_nat
  by (cases "m = 0") (simp_all add: of_nat_div of_nat_mod minus_div_mult_eq_mod)


lemma sdiv_int_nat_numeral [simp]: "int m sdiv numeral k = int (m div numeral k)"
  using sdiv_int_nat [of m "numeral k"] by (simp del: sdiv_int_nat)

lemma smod_int_nat_numeral [simp]: "int m smod numeral k = int (m mod numeral k)"
  using smod_int_nat [of m "numeral k"] by (simp del: smod_int_nat)

subsection \<open>Postconditions of operations that may be undefined\<close>

text \<open>\<open>post r P\<close>: if the operation has a result at all, the result satisfies \<open>P\<close>.\<close>

definition post :: "'a option \<Rightarrow> ('a \<Rightarrow> bool) \<Rightarrow> bool" where
  "post r P \<longleftrightarrow> (\<forall>x. r = Some x \<longrightarrow> P x)"

lemma postI: "(\<And>x. r = Some x \<Longrightarrow> P x) \<Longrightarrow> post r P"
  by (simp add: post_def)

lemma postD: "post r P \<Longrightarrow> r = Some x \<Longrightarrow> P x"
  by (simp add: post_def)

lemma post_None [simp, intro]: "post None P"
  by (simp add: post_def)

lemma post_Some [simp]: "post (Some x) P \<longleftrightarrow> P x"
  by (simp add: post_def)

lemma post_bind: "post m (\<lambda>x. post (f x) P) \<Longrightarrow> post (m \<bind> f) P"
  by (auto simp: post_def bind_eq_Some_conv)

lemma post_bind_eq: "(\<And>x. m = Some x \<Longrightarrow> post (f x) P) \<Longrightarrow> post (m \<bind> f) P"
  by (auto simp: post_def bind_eq_Some_conv)

lemma post_if: "(b \<Longrightarrow> post x P) \<Longrightarrow> (\<not> b \<Longrightarrow> post y P) \<Longrightarrow> post (if b then x else y) P"
  by simp

lemma post_case_prod: "(\<And>a b. p = (a, b) \<Longrightarrow> post (f a b) P) \<Longrightarrow> post (case p of (a, b) \<Rightarrow> f a b) P"
  by (cases p) simp

lemma post_conj: "post r P \<Longrightarrow> post r Q \<Longrightarrow> post r (\<lambda>x. P x \<and> Q x)"
  by (simp add: post_def)

lemma post_conseq: "post r P \<Longrightarrow> (\<And>x. P x \<Longrightarrow> Q x) \<Longrightarrow> post r Q"
  by (simp add: post_def)

lemma post_conseq_prod: "post r (\<lambda>(a, b). P a b) \<Longrightarrow> (\<And>a b. P a b \<Longrightarrow> Q (a, b)) \<Longrightarrow> post r Q"
  by (auto simp: post_def)

text \<open>\<open>returns r P\<close>: the operation has a result, and the result satisfies \<open>P\<close>.\<close>

definition returns :: "'a option \<Rightarrow> ('a \<Rightarrow> bool) \<Rightarrow> bool" where
  "returns r P \<longleftrightarrow> (\<exists>x. r = Some x \<and> P x)"

lemma returns_Some [simp]: "returns (Some x) P \<longleftrightarrow> P x"
  by (simp add: returns_def)

lemma returns_None [simp]: "\<not> returns None P"
  by (simp add: returns_def)

lemma returns_bind: "returns m (\<lambda>x. returns (f x) P) \<Longrightarrow> returns (m \<bind> f) P"
  by (auto simp: returns_def)

lemma returns_if: "(b \<Longrightarrow> returns x P) \<Longrightarrow> (\<not> b \<Longrightarrow> returns y P) \<Longrightarrow> returns (if b then x else y) P"
  by simp

lemma returns_conseq: "returns r P \<Longrightarrow> (\<And>x. P x \<Longrightarrow> Q x) \<Longrightarrow> returns r Q"
  by (auto simp: returns_def)

lemma returns_exists: "returns r P \<Longrightarrow> \<exists>x. r = Some x \<and> P x"
  by (simp add: returns_def)

lemma returns_post: "returns r P \<Longrightarrow> post r P"
  by (auto simp: returns_def)

subsection \<open>Systems that keep an invariant\<close>

text \<open>
  A component with an initial condition and a step relation. Its reachable states are the
  least set closed under steps; an invariant that holds initially and is kept by every step
  holds in all of them.
\<close>

inductive reachable :: "('s \<Rightarrow> bool) \<Rightarrow> ('s \<Rightarrow> 's \<Rightarrow> bool) \<Rightarrow> 's \<Rightarrow> bool" for init step where
  reach_init: "init s \<Longrightarrow> reachable init step s"
| reach_step: "reachable init step s \<Longrightarrow> step s t \<Longrightarrow> reachable init step t"

locale invariant_system =
  fixes init :: "'s \<Rightarrow> bool"
    and step :: "'s \<Rightarrow> 's \<Rightarrow> bool"
    and inv :: "'s \<Rightarrow> bool"
  assumes inv_init: "init s \<Longrightarrow> inv s"
    and inv_step: "inv s \<Longrightarrow> step s t \<Longrightarrow> inv t"
begin

lemma reachable_inv: "reachable init step s \<Longrightarrow> inv s"
  by (induction rule: reachable.induct) (auto intro: inv_init inv_step)

lemma step_star_inv: "step\<^sup>*\<^sup>* s t \<Longrightarrow> inv s \<Longrightarrow> inv t"
  by (induction rule: rtranclp_induct) (auto intro: inv_step)

end

end
