(* ===== verification/Infra_String.thy ===== *)
theory Infra_String
  imports Iot_Prelude
begin

text \<open>
  The string helpers of \<open>src/infra/infra_string.c\<close>: hexadecimal conversions, decimal numbers
  and the tokenizer \<open>infra_strtok\<close>, which works in place on a zero-terminated array and keeps
  its position between calls. Output arrays are byte lists of their allocated size.
\<close>

unbundle bit_operations_syntax

subsection \<open>Hexadecimal\<close>

definition infra_hex2char :: "u8 \<Rightarrow> byte" where
  "infra_hex2char hex = (let hex = hex AND 0xF in if hex < 10 then 0x30 + hex else hex - 10 + 0x61)"

text \<open>The tables \<open>"0123456789abcdef"\<close> and \<open>"0123456789ABCDEF"\<close>.\<close>

definition zEncode_lower :: "byte list" where
  "zEncode_lower = [0x30, 0x31, 0x32, 0x33, 0x34, 0x35, 0x36, 0x37, 0x38, 0x39, 0x61, 0x62, 0x63, 0x64, 0x65, 0x66]"
definition zEncode_upper :: "byte list" where
  "zEncode_upper = [0x30, 0x31, 0x32, 0x33, 0x34, 0x35, 0x36, 0x37, 0x38, 0x39, 0x41, 0x42, 0x43, 0x44, 0x45, 0x46]"

fun hexbuf_loop :: "byte list \<Rightarrow> byte list \<Rightarrow> nat \<Rightarrow> nat \<Rightarrow> byte list \<Rightarrow> byte list option" where
  "hexbuf_loop z digest i 0 out = Some out"
| "hexbuf_loop z digest i (Suc k) out = do {
     a \<leftarrow> load digest i;
     hi \<leftarrow> load z (unat (drop_bit 4 a AND 0xF));
     out \<leftarrow> store out (2 * i) hi;
     lo \<leftarrow> load z (unat (a AND 0xF));
     out \<leftarrow> store out (2 * i + 1) lo;
     hexbuf_loop z digest (i + 1) k out
   }"

definition infra_hex2str :: "byte list \<Rightarrow> u16 \<Rightarrow> byte list \<Rightarrow> byte list option" where
  "infra_hex2str input input_len output = hexbuf_loop zEncode_upper input 0 (unat input_len) output"

definition LITE_hexbuf_convert :: "byte list \<Rightarrow> byte list \<Rightarrow> nat \<Rightarrow> bool \<Rightarrow> byte list option" where
  "LITE_hexbuf_convert digest out in_len uppercase =
     hexbuf_loop (if uppercase then zEncode_upper else zEncode_lower) digest 0 in_len out"

definition hexval_of_char :: "byte \<Rightarrow> u8" where
  "hexval_of_char hex =
     (if hex \<le> 0x39 \<and> hex \<ge> 0x30 then hex - 0x30
      else if hex \<ge> 0x61 \<and> hex \<le> 0x66 then hex - 0x61 + 10
      else if hex \<ge> 0x41 \<and> hex \<le> 0x46 then hex - 0x41 + 10
      else 0)"

function hexstr_loop :: "byte list \<Rightarrow> nat \<Rightarrow> nat \<Rightarrow> nat \<Rightarrow> byte list \<Rightarrow> byte list option" where
  "hexstr_loop input input_len output_len i output =
     (if i < input_len div 2 \<and> i < output_len then do {
        c0 \<leftarrow> load input (2 * i);
        c1 \<leftarrow> load input (2 * i + 1);
        output \<leftarrow> store output i (push_bit 4 (hexval_of_char c0) OR hexval_of_char c1);
        hexstr_loop input input_len output_len (i + 1) output
      } else Some output)"
  by pat_completeness auto
termination
  by (relation "measure (\<lambda>(input, input_len, output_len, i, output). input_len - i)") auto

declare hexstr_loop.simps [simp del]

definition LITE_hexstr_convert :: "byte list \<Rightarrow> nat \<Rightarrow> byte list \<Rightarrow> nat \<Rightarrow> byte list option" where
  "LITE_hexstr_convert input input_len output output_len =
     (if input_len mod 2 \<noteq> 0 then Some output else hexstr_loop input input_len output_len 0 output)"

subsection \<open>Decimal numbers\<close>

text \<open>The first loop of \<open>infra_int2str\<close> collects the digits, the second reverses them.\<close>

function int2str_digits :: "u32 \<Rightarrow> byte list \<Rightarrow> nat \<Rightarrow> (byte list \<times> nat) option" where
  "int2str_digits input tmp i = do {
     tmp \<leftarrow> store tmp i (ucast (input mod 10) + 0x30);
     if input div 10 > 0 then int2str_digits (input div 10) tmp (i + 1) else Some (tmp, i + 1)
   }"
  by pat_completeness auto
termination
proof (relation "measure (\<lambda>(input, tmp, i). unat input)", goal_cases)
  case (2 input tmp i x)
  then have "0 < unat input div 10" by (simp add: word_less_nat_alt unat_div)
  then show ?case by (simp add: unat_div)
qed simp

declare int2str_digits.simps [simp del]

fun int2str_copy :: "byte list \<Rightarrow> nat \<Rightarrow> nat \<Rightarrow> byte list \<Rightarrow> byte list option" where
  "int2str_copy tmp 0 j output = Some output"
| "int2str_copy tmp (Suc i) j output = do {
     c \<leftarrow> load tmp j;
     output \<leftarrow> store output i c;
     int2str_copy tmp i (j + 1) output
   }"

definition infra_int2str :: "u32 \<Rightarrow> byte list \<Rightarrow> byte list option" where
  "infra_int2str input output = do {
     (tmp, i) \<leftarrow> int2str_digits input (replicate 10 0) 0;
     int2str_copy tmp i 0 output
   }"

text \<open>
  \<open>infra_str2int\<close> on the characters of its input. Arithmetic on \<open>int\<close> that leaves its 32-bit
  range is undefined and has the value \<^term>\<open>None\<close>.
\<close>

definition c_int :: "int \<Rightarrow> int option" where
  "c_int v = (if -2147483648 \<le> v \<and> v \<le> 2147483647 then Some v else None)"

fun str2int_digits :: "cstr \<Rightarrow> int \<Rightarrow> int option" where
  "str2int_digits [] temp = Some temp"
| "str2int_digits (c # cs) temp =
     (if c < 0x30 \<or> c > 0x39 then Some temp
      else do { temp \<leftarrow> c_int (temp * 10 + (uint c - 0x30)); str2int_digits cs temp })"

definition infra_str2int :: "cstr option \<Rightarrow> (int \<times> int option) option" where
  "infra_str2int input =
     (case input of
        None \<Rightarrow> Some (-1, None)
      | Some s \<Rightarrow>
          (let s = dropWhile (\<lambda>c. c = 0x20) s;
               (sign, s) = (case s of
                    [] \<Rightarrow> (0 :: int, s)
                  | c # cs \<Rightarrow> if c = 0x2B then (0, cs) else if c = 0x2D then (-1, cs) else (0, s))
           in do {
             temp \<leftarrow> str2int_digits s 0;
             Some (0, Some (if sign = -1 then - temp else temp))
           }))"

subsection \<open>The tokenizer\<close>

text \<open>\<open>strlen\<close> of the string at offset \<open>p\<close> of a zero-terminated array.\<close>

definition str_at :: "byte list \<Rightarrow> nat \<Rightarrow> cstr" where
  "str_at mem p = takeWhile (\<lambda>c. c \<noteq> 0) (drop p mem)"

definition strlen_at :: "byte list \<Rightarrow> nat \<Rightarrow> nat" where
  "strlen_at mem p = length (str_at mem p)"

text \<open>
  The loop of \<open>infra_strtok\<close>. The result is the returned pointer, the array and the static
  \<open>pos\<close>. With an empty \<open>delim\<close> the loop does not end on a non-empty string; the function
  below does not call it then.
\<close>

function strtok_loop ::
  "cstr \<Rightarrow> byte list \<Rightarrow> nat \<Rightarrow> nat \<Rightarrow> bool \<Rightarrow> nat option \<times> byte list \<times> nat" where
  "strtok_loop delim mem pos target only_delim =
     (if delim \<noteq> [] \<and> strlen_at mem pos \<ge> length delim then
        (if take (length delim) (drop pos mem) \<noteq> delim
         then strtok_loop delim mem (pos + 1) target False
         else if strlen_at mem pos = length delim
         then (let mem = blit mem pos (replicate (length delim) 0)
               in (if only_delim then None else Some target, mem, pos))
         else if target = pos
         then strtok_loop delim mem (pos + length delim) (pos + length delim) only_delim
         else (let mem = blit mem pos (replicate (length delim) 0)
               in (Some target, mem, pos + length delim)))
      else (Some target, mem, pos))"
  by pat_completeness auto
termination
proof (relation "measure (\<lambda>(delim, mem, pos, target, only). length mem - pos)", goal_cases)
  case (2 delim mem pos target only)
  then have "drop pos mem \<noteq> []" by (auto simp: strlen_at_def str_at_def)
  then show ?case by (simp add: diff_less_mono2)
next
  case (3 delim mem pos target only)
  then have "drop pos mem \<noteq> []" by (auto simp: strlen_at_def str_at_def)
  with 3 show ?case by (simp add: diff_less_mono2)
qed simp

declare strtok_loop.simps [simp del]

text \<open>
  \<open>infra_strtok(str, delim)\<close> on the array \<open>mem\<close> that \<open>pos\<close> points into; \<open>str\<close> is the
  offset passed by the caller or \<^term>\<open>None\<close> to continue. The outer \<^term>\<open>None\<close> is the
  endless loop on an empty delimiter.
\<close>

definition infra_strtok ::
  "nat option \<Rightarrow> cstr \<Rightarrow> byte list \<Rightarrow> nat option \<Rightarrow> (nat option \<times> byte list \<times> nat option) option" where
  "infra_strtok str delim mem pos =
     (let pos = (case str of None \<Rightarrow> pos | Some p \<Rightarrow> Some p) in
      case pos of
        None \<Rightarrow> Some (None, mem, pos)
      | Some p \<Rightarrow>
          if strlen_at mem p \<le> length delim then Some (None, mem, pos)
          else if delim = [] then None
          else (case strtok_loop delim mem p p True of (r, mem, p) \<Rightarrow> Some (r, mem, Some p)))"

subsection \<open>Hexadecimal round trip\<close>

definition hex_digits :: "byte list \<Rightarrow> byte \<Rightarrow> byte list" where
  "hex_digits z a = [z ! unat (drop_bit 4 a AND 0xF), z ! unat (a AND 0xF)]"

lemma and_15_lt: "unat ((a :: byte) AND 0xF) < 16"
  using word_and_le1 [of a "0xF"] by (simp add: word_le_nat_alt)

lemma hexbuf_loop_eq:
  assumes z: "length z = 16"
  shows "i + k \<le> length digest \<Longrightarrow> 2 * (i + k) \<le> length out \<Longrightarrow>
    hexbuf_loop z digest i k out = Some (blit out (2 * i) (concat (map (hex_digits z) (take k (drop i digest)))))"
proof (induction k arbitrary: i out)
  case (Suc k)
  let ?a = "digest ! i" and ?rest = "concat (map (hex_digits z) (take k (drop (i + 1) digest)))"
  have len: "length ?rest = 2 * k"
    using Suc.prems by (simp add: length_concat hex_digits_def comp_def sum_list_triv)
  have "take (Suc k) (drop i digest) = ?a # take k (drop (i + 1) digest)"
    using Suc.prems by (simp add: Cons_nth_drop_Suc [symmetric])
  moreover have "hexbuf_loop z digest i (Suc k) out =
      hexbuf_loop z digest (i + 1) k (blit out (2 * i) (hex_digits z ?a))"
    using Suc.prems z and_15_lt [of ?a] and_15_lt [of "drop_bit 4 ?a"] blit_blit [of "2 * i" "[x]" out "[y]" for x y]
    by (simp add: load_def store_eq_store_bytes store_bytes_def hex_digits_def)
  moreover have "\<dots> = Some (blit (blit out (2 * i) (hex_digits z ?a)) (2 * (i + 1)) ?rest)"
    using Suc.prems by (intro Suc.IH) (simp_all add: hex_digits_def)
  moreover have "blit (blit out (2 * i) (hex_digits z ?a)) (2 * (i + 1)) ?rest = blit out (2 * i) (hex_digits z ?a @ ?rest)"
    using Suc.prems blit_blit [of "2 * i" "hex_digits z ?a" out ?rest] by (simp add: hex_digits_def)
  ultimately show ?case by simp
qed simp

lemma hexval_lower: "n < 16 \<Longrightarrow> hexval_of_char (zEncode_lower ! n) = of_nat n"
proof -
  have "\<forall>n \<in> set [0..<16]. hexval_of_char (zEncode_lower ! n) = of_nat n"
    by code_simp
  then show "n < 16 \<Longrightarrow> ?thesis" by simp
qed

lemma hexval_upper: "n < 16 \<Longrightarrow> hexval_of_char (zEncode_upper ! n) = of_nat n"
proof -
  have "\<forall>n \<in> set [0..<16]. hexval_of_char (zEncode_upper ! n) = of_nat n"
    by code_simp
  then show "n < 16 \<Longrightarrow> ?thesis" by simp
qed

lemma and_15_take_bit: "(a :: byte) AND 0xF = take_bit 4 a"
proof -
  have "mask 4 = (0xF :: byte)" by (simp add: mask_eq_exp_minus_1)
  then show ?thesis by (metis take_bit_eq_mask)
qed

lemma nibbles: "push_bit 4 (drop_bit 4 (a :: byte) AND 0xF) OR (a AND 0xF) = a"
  unfolding and_15_take_bit by (rule bit_word_eqI) (auto simp: bit_simps)

lemma hexstr_loop_eq:
  assumes z: "z \<in> {zEncode_lower, zEncode_upper}"
    and input: "input = concat (map (hex_digits z) ds)" and n: "input_len = 2 * length ds"
    and room: "length ds \<le> output_len" "length ds \<le> length output"
  shows "i \<le> length ds \<Longrightarrow>
    hexstr_loop input input_len output_len i (blit output 0 (take i ds)) = Some (blit output 0 ds)"
proof (induction "length ds - i" arbitrary: i)
  case 0
  then show ?case by (simp add: hexstr_loop.simps [of _ _ _ i] n)
next
  case (Suc k)
  then have i: "i < length ds" by simp
  have nth: "input ! (2 * i) = hex_digits z (ds ! i) ! 0" "input ! (2 * i + 1) = hex_digits z (ds ! i) ! 1"
    "2 * i + 1 < length input"
  proof -
    have split: "input = concat (map (hex_digits z) (take i ds)) @ hex_digits z (ds ! i) @ concat (map (hex_digits z) (drop (Suc i) ds))"
      unfolding input using arg_cong [OF id_take_nth_drop [OF i], of "\<lambda>l. concat (map (hex_digits z) l)"] by simp
    have "length (concat (map (hex_digits z) (take i ds))) = 2 * i"
      using i by (simp add: length_concat hex_digits_def comp_def sum_list_triv)
    with split show "input ! (2 * i) = hex_digits z (ds ! i) ! 0" "input ! (2 * i + 1) = hex_digits z (ds ! i) ! 1"
      "2 * i + 1 < length input"
      by (simp_all add: nth_append hex_digits_def)
  qed
  have val: "push_bit 4 (hexval_of_char (input ! (2 * i))) OR hexval_of_char (input ! (2 * i + 1)) = ds ! i"
    using z and_15_lt [of "ds ! i"] and_15_lt [of "drop_bit 4 (ds ! i)"] nibbles [of "ds ! i"]
    by (auto simp: nth nth(2) [simplified] hex_digits_def hexval_lower hexval_upper)
  have "blit (blit output 0 (take i ds)) (0 + length (take i ds)) [ds ! i] = blit output 0 (take i ds @ [ds ! i])"
    using room i by (intro blit_blit) simp
  then have st: "store (blit output 0 (take i ds)) i (ds ! i) = Some (blit output 0 (take (i + 1) ds))"
    using i room by (simp add: store_eq_store_bytes store_bytes_def take_Suc_conv_app_nth)
  show ?case
    using i room nth(3) val st Suc
    by (simp add: hexstr_loop.simps [of _ _ _ i] n load_def)
qed

lemma LITE_hex_roundtrip:
  assumes out: "2 * length ds \<le> length out" and dst: "length ds \<le> length dst"
  shows "LITE_hexbuf_convert ds out (length ds) up = Some (blit out 0 (concat (map (hex_digits (if up then zEncode_upper else zEncode_lower)) ds)))"
    and "LITE_hexstr_convert (concat (map (hex_digits (if up then zEncode_upper else zEncode_lower)) ds)) (2 * length ds) dst (length ds) = Some (blit dst 0 ds)"
proof -
  show "LITE_hexbuf_convert ds out (length ds) up = Some (blit out 0 (concat (map (hex_digits (if up then zEncode_upper else zEncode_lower)) ds)))"
    unfolding LITE_hexbuf_convert_def
    using out hexbuf_loop_eq [of "if up then zEncode_upper else zEncode_lower" 0 "length ds" ds out]
    by (simp add: zEncode_upper_def zEncode_lower_def)
  show "LITE_hexstr_convert (concat (map (hex_digits (if up then zEncode_upper else zEncode_lower)) ds)) (2 * length ds) dst (length ds) = Some (blit dst 0 ds)"
    using hexstr_loop_eq [OF _ refl refl order_refl dst, of "if up then zEncode_upper else zEncode_lower" 0]
    by (simp add: LITE_hexstr_convert_def)
qed

subsection \<open>Decimal round trip\<close>

text \<open>The decimal representation, most significant digit first.\<close>

fun dec_digits :: "nat \<Rightarrow> byte list" where
  "dec_digits n = (if n < 10 then [of_nat n + 0x30] else dec_digits (n div 10) @ [of_nat (n mod 10) + 0x30])"

declare dec_digits.simps [simp del]

lemma length_dec_digits: "n < 10 ^ k \<Longrightarrow> 0 < k \<Longrightarrow> length (dec_digits n) \<le> k"
proof (induction k arbitrary: n)
  case (Suc k)
  show ?case
  proof (cases "n < 10")
    case False
    with Suc.prems have "k \<noteq> 0" and "n div 10 < 10 ^ k" by (auto intro!: Nat.gr0I)
    with Suc.IH [of "n div 10"] False show ?thesis by (subst dec_digits.simps) simp
  qed (simp add: dec_digits.simps [of n])
qed simp

lemma dec_digits_length_u32: "length (dec_digits (unat (w :: u32))) \<le> 10"
  using unat_u32_lt [of w] by (intro length_dec_digits) simp_all

lemma int2str_digits_eq:
  "i + length (dec_digits (unat w)) \<le> length tmp \<Longrightarrow>
   int2str_digits w tmp i =
     Some (blit tmp i (rev (dec_digits (unat w))), i + length (dec_digits (unat w)))"
proof (induction w tmp i rule: int2str_digits.induct)
  case (1 w tmp i)
  let ?d = "ucast (w mod 10) + 0x30 :: byte"
  have d: "?d = of_nat (unat w mod 10) + 0x30"
  proof -
    have "of_nat (unat w mod 10) = (of_nat (unat (w mod 10)) :: byte)"
      by (simp add: unat_mod del: of_nat_unat)
    then show ?thesis by simp
  qed
  have rec: "unat (w div 10) = unat w div 10" and pos: "w div 10 > 0 \<longleftrightarrow> unat w \<ge> 10"
    by (simp_all add: unat_div word_less_nat_alt) linarith
  have st: "store tmp i ?d = Some (blit tmp i [?d])"
    using 1(2) by (simp add: store_eq_store_bytes store_bytes_def dec_digits.simps [of "unat w"] split: if_splits)
  show ?case
  proof (cases "unat w \<ge> 10")
    case True
    have dd: "dec_digits (unat w) = dec_digits (unat w div 10) @ [?d]"
      using True d by (subst dec_digits.simps) simp
    have "int2str_digits (w div 10) (blit tmp i [?d]) (i + 1) =
      Some (blit (blit tmp i [?d]) (i + 1) (rev (dec_digits (unat w div 10))), i + 1 + length (dec_digits (unat w div 10)))"
      using 1(1) [OF st] 1(2) True rec pos dd by simp
    moreover have "blit (blit tmp i [?d]) (i + length [?d]) (rev (dec_digits (unat w div 10))) =
      blit tmp i ([?d] @ rev (dec_digits (unat w div 10)))"
      using 1(2) dd by (intro blit_blit) simp
    ultimately show ?thesis
      using True st pos dd by (simp add: int2str_digits.simps [of w])
  next
    case False
    then have dd: "dec_digits (unat w) = [?d]"
      using d by (subst dec_digits.simps) simp
    show ?thesis
      using False st pos dd by (simp add: int2str_digits.simps [of w])
  qed
qed

lemma blit_snoc: "length xs = k \<Longrightarrow> k < length out \<Longrightarrow> blit (blit out k [c]) 0 xs = blit out 0 (xs @ [c])"
  by (simp add: blit_def)

lemma int2str_copy_eq:
  "j + k \<le> length tmp \<Longrightarrow> k \<le> length out \<Longrightarrow>
   int2str_copy tmp k j out = Some (blit out 0 (rev (take k (drop j tmp))))"
proof (induction k arbitrary: j out)
  case (Suc k)
  have t: "take (Suc k) (drop j tmp) = tmp ! j # take k (drop (j + 1) tmp)"
    using Suc.prems by (simp add: Cons_nth_drop_Suc [symmetric])
  have "blit (blit out k [c]) 0 (rev (take k (drop (j + 1) tmp))) = blit out 0 (rev (take k (drop (j + 1) tmp)) @ [c])" for c
    using blit_snoc [of "rev (take k (drop (j + 1) tmp))" k] Suc.prems by simp
  with Suc t show ?case
    by (simp add: load_def store_eq_store_bytes store_bytes_def)
qed simp

lemma infra_int2str_eq:
  "length (dec_digits (unat w)) \<le> length out \<Longrightarrow> infra_int2str w out = Some (blit out 0 (dec_digits (unat w)))"
  using dec_digits_length_u32 [of w]
  by (simp add: infra_int2str_def int2str_digits_eq int2str_copy_eq) (simp add: blit_def)

lemma str2int_dec_digits:
  "n \<le> 2147483647 \<Longrightarrow> str2int_digits (dec_digits n @ cs) 0 = str2int_digits cs (int n)"
proof (induction n arbitrary: cs rule: dec_digits.induct)
  case (1 n)
  have dig: "m < 10 \<Longrightarrow> uint (of_nat m + 0x30 :: byte) = int m + 48" for m
    by (simp add: uint_word_ariths unsigned_of_nat take_bit_nat_eq_self)
  have range: "m < 10 \<Longrightarrow> \<not> (of_nat m + 0x30 :: byte) < 0x30 \<and> \<not> (of_nat m + 0x30 :: byte) > 0x39" for m
    using dig [of m] by (simp add: word_less_def)
  show ?case
  proof (cases "n < 10")
    case True
    then show ?thesis using dig [of n] range [of n]
      by (simp add: dec_digits.simps [of n] c_int_def)
  next
    case False
    have "int (n div 10) * 10 + int (n mod 10) = int n"
      by (metis div_mult_mod_eq of_nat_add of_nat_mult of_nat_numeral)
    then show ?thesis using 1 False dig [of "n mod 10"] range [of "n mod 10"]
      by (simp add: dec_digits.simps [of n] c_int_def)
  qed
qed

lemma dec_digits_head: "\<exists>m cs. m < 10 \<and> dec_digits n = (of_nat m + 0x30) # cs"
proof (induction n rule: dec_digits.induct)
  case (1 n)
  then show ?case by (cases "n < 10") (auto simp: dec_digits.simps [of n])
qed

lemma digit_not_blank: "m < 10 \<Longrightarrow> (of_nat m + 0x30 :: byte) \<noteq> 0x20 \<and> (of_nat m + 0x30 :: byte) \<noteq> 0x2B \<and> (of_nat m + 0x30 :: byte) \<noteq> 0x2D"
proof -
  have "\<forall>m \<in> set [0..<10]. (of_nat m + 0x30 :: byte) \<noteq> 0x20 \<and> (of_nat m + 0x30 :: byte) \<noteq> 0x2B \<and> (of_nat m + 0x30 :: byte) \<noteq> 0x2D"
    by code_simp
  then show "m < 10 \<Longrightarrow> ?thesis" by simp
qed

lemma infra_str2int_dec_digits:
  assumes "n \<le> 2147483647"
  shows "infra_str2int (Some (dec_digits n)) = Some (0, Some (int n))"
    and "infra_str2int (Some (0x2D # dec_digits n)) = Some (0, Some (- int n))"
proof -
  obtain m cs where "m < 10" "dec_digits n = (of_nat m + 0x30) # cs" using dec_digits_head by blast
  then show "infra_str2int (Some (dec_digits n)) = Some (0, Some (int n))"
    using str2int_dec_digits [OF assms, of "[]"] digit_not_blank [of m]
    by (simp add: infra_str2int_def Let_def)
  show "infra_str2int (Some (0x2D # dec_digits n)) = Some (0, Some (- int n))"
    using str2int_dec_digits [OF assms, of "[]"] by (simp add: infra_str2int_def Let_def)
qed

subsection \<open>What the tokenizer returns\<close>

text \<open>
  The tokens of a string for a one-character delimiter, as \<open>infra_strtok\<close> yields them: it
  skips leading delimiters, and a string of at most one character has no token.
\<close>

definition tok :: "byte \<Rightarrow> cstr \<Rightarrow> (cstr \<times> cstr) option" where
  "tok d s = (if length s \<le> 1 then None
     else let r = dropWhile (\<lambda>c. c = d) s
          in if r = [] then None
             else Some (takeWhile (\<lambda>c. c \<noteq> d) r, drop 1 (dropWhile (\<lambda>c. c \<noteq> d) r)))"

lemma str_at_Cons:
  assumes "str_at mem p = c # cs"
  shows "p < length mem \<and> mem ! p = c \<and> c \<noteq> 0 \<and> str_at mem (Suc p) = cs"
proof -
  have "p < length mem" using assms by (cases "p < length mem") (auto simp: str_at_def)
  then have "drop p mem = mem ! p # drop (Suc p) mem" by (rule Cons_nth_drop_Suc [symmetric])
  with assms \<open>p < length mem\<close> show ?thesis by (auto simp: str_at_def split: if_splits)
qed

lemma str_at_add: "k \<le> length (str_at mem p) \<Longrightarrow> str_at mem (p + k) = drop k (str_at mem p)"
proof (induction k arbitrary: p)
  case (Suc k)
  then obtain c cs where "str_at mem p = c # cs" by (cases "str_at mem p") auto
  with Suc.IH [of "Suc p"] str_at_Cons [OF this] Suc.prems show ?case by simp
qed simp

lemma str_at_after [simp]: "q < p \<Longrightarrow> str_at (mem[q := v]) p = str_at mem p"
  by (simp add: str_at_def)

lemma str_at_cut:
  "k < length (str_at mem p) \<Longrightarrow> str_at (mem[p + k := 0]) p = take k (str_at mem p)"
proof (induction k arbitrary: p)
  case 0
  then obtain c cs where "str_at mem p = c # cs" by (cases "str_at mem p") auto
  then have "p < length mem" using str_at_Cons by blast
  then show ?case
    using Cons_nth_drop_Suc [of p "mem[p := 0]"] by (simp add: str_at_def flip: Cons_nth_drop_Suc)
next
  case (Suc k)
  then obtain c cs where s: "str_at mem p = c # cs" by (cases "str_at mem p") auto
  note c = str_at_Cons [OF s]
  have "str_at (mem[p + Suc k := 0]) p = c # str_at (mem[Suc p + k := 0]) (Suc p)"
    using c by (simp add: str_at_def flip: Cons_nth_drop_Suc [of p "mem[Suc (p + k) := 0]"])
  with Suc.IH [of "Suc p"] Suc.prems s c show ?case by simp
qed

lemma strtok_loop_token:
  assumes "target < pos" "d \<noteq> 0"
  shows "strtok_loop [d] mem pos target False =
    (let s = str_at mem pos; n = length (takeWhile (\<lambda>c. c \<noteq> d) s)
     in if n = length s then (Some target, mem, pos + n)
        else (Some target, mem[pos + n := 0], if n + 1 = length s then pos + n else pos + n + 1))"
  using assms(1)
proof (induction "str_at mem pos" arbitrary: pos)
  case Nil
  then show ?case by (simp add: strtok_loop.simps [of _ _ pos] strlen_at_def)
next
  case (Cons c cs)
  note c = str_at_Cons [OF Cons.hyps(2) [symmetric]]
  have tk: "take 1 (drop pos mem) = [c]" using c by (simp flip: Cons_nth_drop_Suc)
  show ?case
  proof (cases "c = d")
    case False
    then have "strtok_loop [d] mem pos target False = strtok_loop [d] mem (Suc pos) target False"
      using Cons.hyps(2) [symmetric] tk by (simp add: strtok_loop.simps [of _ _ pos] strlen_at_def)
    with Cons.hyps(1) [of "Suc pos"] c Cons.prems False Cons.hyps(2) [symmetric] show ?thesis
      by (simp add: Let_def)
  next
    case True
    with Cons.hyps(2) [symmetric] tk Cons.prems c show ?thesis
      by (cases cs) (simp_all add: strtok_loop.simps [of _ _ pos] strlen_at_def blit_def upd_conv_take_nth_drop)
  qed
qed

lemma strtok_loop_skip:
  assumes "d \<noteq> 0"
  shows "str_at mem pos \<noteq> [] \<Longrightarrow> strtok_loop [d] mem pos pos True =
    (let s = str_at mem pos; k = length (takeWhile (\<lambda>c. c = d) s)
     in if k = length s then (None, mem[pos + k - 1 := 0], pos + k - 1)
        else strtok_loop [d] mem (pos + k + 1) (pos + k) False)"
proof (induction "str_at mem pos" arbitrary: pos)
  case (Cons c cs)
  note c = str_at_Cons [OF Cons.hyps(2) [symmetric]]
  have tk: "take 1 (drop pos mem) = [c]" using c by (simp flip: Cons_nth_drop_Suc)
  show ?case
  proof (cases "c = d")
    case False
    with Cons.hyps(2) [symmetric] tk show ?thesis
      by (simp add: strtok_loop.simps [of _ _ pos] strlen_at_def)
  next
    case True
    show ?thesis
    proof (cases cs)
      case Nil
      with True Cons.hyps(2) [symmetric] tk c show ?thesis
        by (simp add: strtok_loop.simps [of _ _ pos] strlen_at_def blit_def upd_conv_take_nth_drop)
    next
      case (Cons c' cs')
      with True Cons.hyps(2) [symmetric] tk
      have "strtok_loop [d] mem pos pos True = strtok_loop [d] mem (Suc pos) (Suc pos) True"
        by (simp add: strtok_loop.simps [of _ _ pos] strlen_at_def)
      with Cons.hyps(1) [of "Suc pos"] c True Cons \<open>c # cs = str_at mem pos\<close> [symmetric] show ?thesis
        by (simp add: Let_def)
    qed
  qed
qed simp

text \<open>
  One call of \<open>infra_strtok\<close> returns the next token: the string at the returned pointer is the
  token and the string at the new position is what remains.
\<close>

definition strtok_ret :: "byte list \<Rightarrow> nat \<Rightarrow> nat option \<Rightarrow> byte list \<Rightarrow> nat \<Rightarrow> (cstr \<times> cstr) option \<Rightarrow> bool" where
  "strtok_ret mem p r mem' p' t \<longleftrightarrow> length mem' = length mem \<and>
     (case t of None \<Rightarrow> r = None
      | Some (w, rest) \<Rightarrow> p < p' \<and> p' \<le> length mem \<and> (\<exists>q. r = Some q \<and> str_at mem' q = w) \<and> str_at mem' p' = rest)"

lemma infra_strtok_tok:
  assumes d: "d \<noteq> 0"
  obtains r mem' p' where
    "infra_strtok (Some p) [d] mem pos = Some (r, mem', Some p')"
    "infra_strtok None [d] mem (Some p) = Some (r, mem', Some p')"
    "strtok_ret mem p r mem' p' (tok d (str_at mem p))"
proof (cases "length (str_at mem p) \<le> 1")
  case True
  then show ?thesis
    by (intro that [of None mem p]) (simp_all add: infra_strtok_def strlen_at_def tok_def strtok_ret_def)
next
  case False
  define s where "s = str_at mem p"
  define k where "k = length (takeWhile (\<lambda>c. c = d) s)"
  have k: "k \<le> length s" unfolding k_def by (rule length_takeWhile_le)
  have dk: "dropWhile (\<lambda>c. c = d) s = drop k s" unfolding k_def by (rule dropWhile_eq_drop)
  have ne: "s \<noteq> []" "\<not> length s \<le> 1" using False by (auto simp: s_def)
  obtain r mem' p' where L: "strtok_loop [d] mem p p True = (r, mem', p')" by (cases "strtok_loop [d] mem p p True")
  have "strtok_ret mem p r mem' p' (tok d s)"
  proof (cases "k = length s")
    case True
    with strtok_loop_skip [OF d, of mem p] ne L dk show ?thesis
      by (auto simp: s_def [symmetric] k_def [symmetric] Let_def strtok_ret_def tok_def)
  next
    case False
    define u where "u = drop k s"
    have sk: "str_at mem (p + k) = u" unfolding u_def s_def using k s_def by (intro str_at_add) simp
    have "u \<noteq> []" using False k by (simp add: u_def)
    then obtain c cs where u: "u = c # cs" by (cases u) auto
    have "c \<noteq> d" using u dk hd_dropWhile [of "\<lambda>c. c = d" s] \<open>u \<noteq> []\<close> by (simp add: u_def)
    have cs: "str_at mem (p + k + 1) = cs" using str_at_Cons [OF sk [unfolded u]] by simp
    define n where "n = length (takeWhile (\<lambda>c. c \<noteq> d) cs)"
    have n: "n \<le> length cs" unfolding n_def by (rule length_takeWhile_le)
    have tok: "tok d s = Some (c # take n cs, drop (n + 1) cs)"
      using ne dk u \<open>c \<noteq> d\<close> takeWhile_eq_take [of "\<lambda>c. c \<noteq> d" cs] dropWhile_eq_drop [of "\<lambda>c. c \<noteq> d" cs]
      by (simp add: tok_def u_def n_def Let_def)
    have len: "p + k + 1 + length cs \<le> length mem"
    proof -
      have "length (str_at mem (p + k)) \<le> length (drop (p + k) mem)"
        unfolding str_at_def by (rule length_takeWhile_le)
      then show ?thesis using sk u by simp
    qed
    have loop: "(r, mem', p') = (if n = length cs then (Some (p + k), mem, p + k + 1 + n)
        else (Some (p + k), mem[p + k + 1 + n := 0], if n + 1 = length cs then p + k + 1 + n else p + k + 1 + n + 1))"
      using L strtok_loop_skip [OF d, of mem p] strtok_loop_token [OF _ d, of "p + k" "p + k + 1" mem] ne False cs
      by (simp add: s_def [symmetric] k_def [symmetric] n_def [symmetric] Let_def)
    show ?thesis
    proof (cases "n = length cs")
      case True
      have "str_at mem (p + k + 1 + n) = []"
        using str_at_add [of n mem "p + k + 1"] cs True by simp
      with True loop tok sk u len show ?thesis
        by (simp add: strtok_ret_def)
    next
      case False
      have cut: "str_at (mem[p + k + (n + 1) := 0]) (p + k) = c # take n cs"
        using str_at_cut [of "n + 1" mem "p + k"] sk u n False by simp
      have "str_at (mem[p + k + 1 + n := 0]) (p + k + 1 + n) = []" if "n + 1 = length cs"
        using str_at_cut [of 0 mem "p + k + 1 + n"] str_at_add [of n mem "p + k + 1"] cs that by simp
      moreover have "str_at mem (p + k + 1 + n + 1) = drop (n + 1) cs"
        using str_at_add [of "n + 1" mem "p + k + 1"] cs n False by simp
      ultimately show ?thesis using False loop tok cut len n
        by (auto simp: strtok_ret_def split: if_splits)
    qed
  qed
  with False L d show ?thesis
    by (intro that [of r mem' p']) (simp_all add: infra_strtok_def strlen_at_def s_def)
qed

subsection \<open>Properties\<close>

text \<open>
  Hexadecimal text is a faithful encoding: converting a byte buffer to hexadecimal digits and
  back, in lower or upper case, restores the bytes, and both conversions stay in their buffers.
\<close>

lemma hex_convert_roundtrip:
  assumes "2 * length ds \<le> length out" "length ds \<le> length dst"
  shows "\<exists>digits. LITE_hexbuf_convert ds out (length ds) uppercase = Some (blit out 0 digits) \<and>
     length digits = 2 * length ds \<and>
     LITE_hexstr_convert digits (length digits) dst (length ds) = Some (blit dst 0 ds)"
proof -
  let ?digits = "concat (map (hex_digits (if uppercase then zEncode_upper else zEncode_lower)) ds)"
  have "length ?digits = 2 * length ds" by (induction ds) (simp_all add: hex_digits_def)
  with LITE_hex_roundtrip [OF assms, of uppercase] show ?thesis by (intro exI [of _ ?digits]) simp
qed

text \<open>
  Printing a 32-bit number with \<open>infra_int2str\<close> and reading the digits with
  \<open>infra_str2int\<close> gives the number back, when it is in the range of \<open>int\<close> and the output has
  room for ten characters.
\<close>

lemma int2str_str2int_roundtrip:
  assumes "unat w \<le> 2147483647" "10 \<le> length out"
  shows "\<exists>digits. infra_int2str w out = Some (blit out 0 digits) \<and> length digits \<le> 10 \<and>
     infra_str2int (Some digits) = Some (0, Some (int (unat w)))"
  using infra_int2str_eq [of w out] infra_str2int_dec_digits(1) [OF assms(1)] dec_digits_length_u32 [of w] assms(2)
  by (intro exI [of _ "dec_digits (unat w)"]) simp

text \<open>
  \<open>infra_strtok\<close> implements the abstract tokenizer \<^const>\<open>tok\<close>: wherever it starts in the
  array, with the string given or with its saved position, it returns the next token and leaves
  the rest of the string at the saved position.
\<close>

lemma infra_strtok_refines:
  assumes "d \<noteq> 0"
  shows "\<exists>r mem' p'. infra_strtok (Some p) [d] mem pos = Some (r, mem', Some p') \<and>
     infra_strtok None [d] mem (Some p) = Some (r, mem', Some p') \<and>
     strtok_ret mem p r mem' p' (tok d (str_at mem p))"
  by (rule infra_strtok_tok [OF assms, of p mem pos]) blast

end
