(* ===== verification/C_Strings.thy ===== *)
theory C_Strings
  imports Infra_String
begin

text \<open>
  C strings in arrays, as the code builds them: an array is cleared with \<open>memset\<close>, and each part is
  copied behind what is there already, \<open>memcpy(a + strlen(a), s, strlen(s))\<close>. An array is a byte list;
  \<open>strlen\<close> of an array without a terminator, which reads behind it, is \<^term>\<open>None\<close>.
  The arrays of the form \<open>holding n s\<close> (size \<open>n\<close>, the text \<open>s\<close>, zeros behind it) are closed under
  appending as long as the text is shorter than the array.
\<close>

subsection \<open>Operations\<close>

text \<open>The bytes of a string literal.\<close>

definition ascii :: "string \<Rightarrow> cstr" where
  "ascii s = map of_char s"

definition strlen :: "byte list \<Rightarrow> nat option" where
  "strlen a = (if 0 \<in> set a then Some (length (takeWhile (\<lambda>b. b \<noteq> 0) a)) else None)"

text \<open>The text in an array.\<close>

definition str_of :: "byte list \<Rightarrow> cstr option" where
  "str_of a = do { n \<leftarrow> strlen a; load_bytes a 0 n }"

text \<open>\<open>memset(a, 0, n)\<close>\<close>

definition memset0 :: "byte list \<Rightarrow> nat \<Rightarrow> byte list option" where
  "memset0 a n = store_bytes a 0 (replicate n 0)"

text \<open>\<open>memcpy(a + strlen(a), s, strlen(s))\<close>\<close>

definition append_str :: "byte list \<Rightarrow> cstr \<Rightarrow> byte list option" where
  "append_str a s = do { n \<leftarrow> strlen a; store_bytes a n s }"

text \<open>\<open>HAL_Snprintf(a, n, ...)\<close> with the formatted text \<open>s\<close>: what is left of it in the array, and the result.\<close>

definition snprintf :: "nat \<Rightarrow> cstr \<Rightarrow> int \<times> cstr" where
  "snprintf n s = (int (length s), take (n - 1) s)"

text \<open>A length kept in a \<open>uint16_t\<close>.\<close>

definition u16_len :: "nat \<Rightarrow> nat" where
  "u16_len n = unat (of_nat n :: u16)"

text \<open>Decimal text of an \<open>int\<close>, the conversion \<open>%d\<close>.\<close>

definition print_int :: "int \<Rightarrow> cstr" where
  "print_int n = (if n < 0 then 0x2D # dec_digits (nat (- n)) else dec_digits (nat n))"

text \<open>\<open>atoi\<close>: white space, a sign, digits. The value of a number that does not fit is that of the digits.\<close>

definition space_char :: "byte \<Rightarrow> bool" where
  "space_char b \<longleftrightarrow> b = 0x20 \<or> 9 \<le> b \<and> b \<le> 13"

definition digit_char :: "byte \<Rightarrow> bool" where
  "digit_char b \<longleftrightarrow> 0x30 \<le> b \<and> b \<le> 0x39"

fun digits_value :: "int \<Rightarrow> cstr \<Rightarrow> int" where
  "digits_value acc [] = acc"
| "digits_value acc (b # s) = (if digit_char b then digits_value (acc * 10 + (uint b - 48)) s else acc)"

definition atoi :: "cstr \<Rightarrow> int" where
  "atoi s =
     (case dropWhile space_char s of
        [] \<Rightarrow> 0
      | b # s' \<Rightarrow> if b = 0x2D then - digits_value 0 s' else if b = 0x2B then digits_value 0 s' else digits_value 0 (b # s'))"

subsection \<open>Arrays that hold a text\<close>

definition holding :: "nat \<Rightarrow> cstr \<Rightarrow> byte list" where
  "holding n s = s @ replicate (n - length s) 0"

text \<open>Bytes of a C string: none of them is the terminator.\<close>

definition text_ok :: "cstr \<Rightarrow> bool" where
  "text_ok s \<longleftrightarrow> 0 \<notin> set s"

lemma length_ascii [simp]: "length (ascii s) = length s"
  by (simp add: ascii_def)

lemma text_ok_simps [simp]: "text_ok []" "text_ok (b # s) \<longleftrightarrow> b \<noteq> 0 \<and> text_ok s" "text_ok (s @ t) \<longleftrightarrow> text_ok s \<and> text_ok t"
  by (auto simp: text_ok_def)

lemma of_char_eq_0: "(of_char c :: byte) = 0 \<longleftrightarrow> c = CHR 0x00"
proof
  assume "(of_char c :: byte) = 0"
  then have "unat (of_nat (of_char c) :: byte) = 0" by (simp only: of_nat_of_char unat_0)
  then have "(of_char c :: nat) = 0"
    using nat_of_char_less_256 [of c] by (simp only: unat_of_nat) simp
  also have "\<dots> = of_char (CHR 0x00)" by simp
  finally show "c = CHR 0x00" by (simp only: of_char_eq_iff)
qed simp

lemma text_ok_ascii: "text_ok (ascii s) \<longleftrightarrow> CHR 0x00 \<notin> set s"
  by (auto simp: text_ok_def ascii_def of_char_eq_0 image_iff)

lemma length_holding [simp]: "length s \<le> n \<Longrightarrow> length (holding n s) = n"
  by (simp add: holding_def)

lemma holding_Nil: "holding n [] = replicate n 0"
  by (simp add: holding_def)

lemma takeWhile_text: "text_ok s \<Longrightarrow> takeWhile (\<lambda>b. b \<noteq> 0) (s @ replicate k 0) = s"
  by (induction s) (auto simp: takeWhile_replicate)

lemma strlen_holding: "text_ok s \<Longrightarrow> strlen (holding n s) = (if length s < n then Some (length s) else None)"
  by (auto simp: strlen_def holding_def takeWhile_text text_ok_def)

lemma str_of_holding [simp]: "text_ok s \<Longrightarrow> str_of (holding n s) = (if length s < n then Some s else None)"
  by (simp add: str_of_def strlen_holding load_bytes_def) (simp add: holding_def)

lemma store_holding_0: "length s \<le> n \<Longrightarrow> store_bytes (holding n []) 0 s = Some (holding n s)"
  by (simp add: store_bytes_def blit_def holding_def)

lemma append_holding:
  "text_ok s \<Longrightarrow> append_str (holding n s) t =
     (if length s < n \<and> length s + length t \<le> n then Some (holding n (s @ t)) else None)"
  by (auto simp: append_str_def strlen_holding store_bytes_def blit_def) (auto simp: holding_def)

lemma memset0_holding: "length a = n \<Longrightarrow> memset0 a n = Some (holding n [])"
  by (simp add: memset0_def store_bytes_def blit_def holding_def)

lemmas holding_simps = append_holding store_holding_0 memset0_holding strlen_holding

lemma u16_len_small [simp]: "n < 65536 \<Longrightarrow> u16_len n = n"
  by (simp add: u16_len_def unat_of_nat)

lemma unat_of_nat_u32: "k < 4294967296 \<Longrightarrow> unat (of_nat k :: u32) = k"
  by (simp add: unat_of_nat)

text \<open>A fitting text is printed as it is.\<close>

lemma snprintf_fits: "length s < n \<Longrightarrow> snprintf n s = (int (length s), s)"
  by (simp add: snprintf_def)

end
