(* ===== verification/Infra_Digest.thy ===== *)
theory Infra_Digest
  imports Iot_Prelude
begin

text \<open>
  What the digests of \<open>src/src/infra/infra_md5.c\<close>, \<open>infra_sha1.c\<close> and \<open>infra_sha256.c\<close> have in common. The
  three files repeat the same code for buffering, padding and counting the input around their own
  function \<open>utils_*_process\<close> for one block of 64 bytes; here it is written once, with that function
  as an argument. The locale \<open>block_digest\<close> shows that the buffered computation is the iterated hash
  of the padded message.
\<close>

subsection \<open>Contexts and byte order\<close>

record digest_ctx =
  dg_total0 :: u32
  dg_total1 :: u32
  dg_state :: "u32 list"
  dg_buffer :: "byte list"

definition GET_UINT32_BE :: "byte list \<Rightarrow> nat \<Rightarrow> u32" where
  "GET_UINT32_BE b i = push_bit 24 (ucast (b ! i)) OR push_bit 16 (ucast (b ! (i + 1))) OR push_bit 8 (ucast (b ! (i + 2))) OR ucast (b ! (i + 3))"

definition PUT_UINT32_BE :: "u32 \<Rightarrow> byte list" where
  "PUT_UINT32_BE n = [ucast (drop_bit 24 n), ucast (drop_bit 16 n), ucast (drop_bit 8 n), ucast n]"

definition GET_UINT32_LE :: "byte list \<Rightarrow> nat \<Rightarrow> u32" where
  "GET_UINT32_LE b i = ucast (b ! i) OR push_bit 8 (ucast (b ! (i + 1))) OR push_bit 16 (ucast (b ! (i + 2))) OR push_bit 24 (ucast (b ! (i + 3)))"

definition PUT_UINT32_LE :: "u32 \<Rightarrow> byte list" where
  "PUT_UINT32_LE n = [ucast (n AND 0xFF), ucast (drop_bit 8 n AND 0xFF), ucast (drop_bit 16 n AND 0xFF), ucast (drop_bit 24 n AND 0xFF)]"

lemma length_PUT [simp]: "length (PUT_UINT32_BE n) = 4" "length (PUT_UINT32_LE n) = 4"
  by (simp_all add: PUT_UINT32_BE_def PUT_UINT32_LE_def)

lemma length_concat_BE: "length (concat (map PUT_UINT32_BE ws)) = 4 * length ws"
  by (induction ws) simp_all

lemma length_concat_LE: "length (concat (map PUT_UINT32_LE ws)) = 4 * length ws"
  by (induction ws) simp_all

text \<open>The macro \<open>S\<close> of \<open>infra_md5.c\<close> and \<open>infra_sha1.c\<close> rotates to the left.\<close>

definition ROTL :: "u32 \<Rightarrow> nat \<Rightarrow> u32" where
  "ROTL x n = push_bit n x OR drop_bit (32 - n) (x AND 0xFFFFFFFF)"

lemma and_mask_32: "x AND 0xFFFFFFFF = (x :: u32)"
proof -
  have "(0xFFFFFFFF :: u32) = -1" by simp
  then show ?thesis by (simp only: bit.conj_one_right)
qed

lemma ROTL_eq:
  assumes "0 < n" "n < 32"
  shows "ROTL x n = word_rotl n x"
proof (rule bit_word_eqI)
  fix i assume i: "i < LENGTH(32)"
  show "bit (ROTL x n) i = bit (word_rotl n x) i"
  proof (cases "i < n")
    case True
    then have "(i + (32 - n)) mod 32 = 32 - n + i" using assms by simp
    then show ?thesis
      using True assms i unfolding ROTL_def and_mask_32
      by (simp add: bit_or_iff bit_drop_bit_eq bit_push_bit_iff bit_word_rotl_iff word_size)
  next
    case False
    then have "(i + (32 - n)) mod 32 = i - n" "\<not> bit x (32 - n + i)" using assms i by (auto simp: mod_if dest: bit_imp_le_length)
    then show ?thesis
      using False assms i unfolding ROTL_def and_mask_32
      by (simp add: bit_or_iff bit_drop_bit_eq bit_push_bit_iff bit_word_rotl_iff word_size)
  qed
qed

text \<open>The common form of the hexadecimal digit of \<open>utils_hb2hex\<close>.\<close>

definition utils_hb2hex :: "u8 \<Rightarrow> byte" where
  "utils_hb2hex hb = (let hb = hb AND 0xF in if hb < 10 then 0x30 + hb else hb - 10 + 0x61)"

definition digest_hex :: "byte list \<Rightarrow> byte list" where
  "digest_hex out = concat (map (\<lambda>b. [utils_hb2hex (drop_bit 4 b), utils_hb2hex b]) out)"

lemma length_digest_hex: "length (digest_hex out) = 2 * length out"
  by (induction out) (simp_all add: digest_hex_def)

subsection \<open>Buffering\<close>

type_synonym 'a process = "'a digest_ctx_scheme \<Rightarrow> byte list \<Rightarrow> 'a digest_ctx_scheme option"

text \<open>The loop \<open>while (ilen >= 64)\<close>: the context, and what is left of the input.\<close>

fun digest_blocks :: "'a process \<Rightarrow> 'a digest_ctx_scheme \<Rightarrow> byte list \<Rightarrow> nat \<Rightarrow> nat \<Rightarrow> ('a digest_ctx_scheme \<times> nat \<times> nat) option" where
  "digest_blocks process ctx input p n =
     (if n \<ge> 64 then do {
        data \<leftarrow> load_bytes input p 64;
        ctx \<leftarrow> process ctx data;
        digest_blocks process ctx input (p + 64) (n - 64)
      } else Some (ctx, p, n))"

declare digest_blocks.simps [simp del]

definition digest_update :: "'a process \<Rightarrow> 'a digest_ctx_scheme \<Rightarrow> byte list \<Rightarrow> u32 \<Rightarrow> 'a digest_ctx_scheme option" where
  "digest_update process ctx input ilen =
     (if ilen = 0 then Some ctx
      else do {
        let left = unat (dg_total0 ctx AND 0x3F);
        let fill = 64 - left;
        let total0 = dg_total0 ctx + ilen;
        let ctx = ctx\<lparr>dg_total0 := total0, dg_total1 := (if total0 < ilen then dg_total1 ctx + 1 else dg_total1 ctx)\<rparr>;
        (ctx, p, n, left) \<leftarrow>
          (if left \<noteq> 0 \<and> unat ilen \<ge> fill then do {
             bs \<leftarrow> load_bytes input 0 fill;
             buf \<leftarrow> store_bytes (dg_buffer ctx) left bs;
             ctx \<leftarrow> process (ctx\<lparr>dg_buffer := buf\<rparr>) buf;
             Some (ctx, fill, unat ilen - fill, 0)
           } else Some (ctx, 0, unat ilen, left));
        (ctx, p, n) \<leftarrow> digest_blocks process ctx input p n;
        if n > 0 then do {
          bs \<leftarrow> load_bytes input p n;
          buf \<leftarrow> store_bytes (dg_buffer ctx) left bs;
          Some (ctx\<lparr>dg_buffer := buf\<rparr>)
        } else Some ctx
      })"

definition digest_padding :: "byte list" where
  "digest_padding = 0x80 # replicate 63 0"

text \<open>The part of \<open>utils_*_finish\<close> before the output: \<open>lenbytes\<close> lays out the two words of the length.\<close>

definition digest_finish :: "'a process \<Rightarrow> (u32 \<Rightarrow> u32 \<Rightarrow> byte list) \<Rightarrow> 'a digest_ctx_scheme \<Rightarrow> 'a digest_ctx_scheme option" where
  "digest_finish process lenbytes ctx =
     (let high = drop_bit 29 (dg_total0 ctx) OR push_bit 3 (dg_total1 ctx);
          low = push_bit 3 (dg_total0 ctx);
          msglen = lenbytes high low;
          last = dg_total0 ctx AND 0x3F;
          padn = (if last < 56 then 56 - last else 120 - last)
      in do {
        ctx \<leftarrow> digest_update process ctx digest_padding padn;
        digest_update process ctx msglen 8
      })"

text \<open>The copy at the end of \<open>utils_*_update\<close>.\<close>

definition store_tail :: "'a digest_ctx_scheme \<Rightarrow> byte list \<Rightarrow> nat \<Rightarrow> nat \<Rightarrow> nat \<Rightarrow> 'a digest_ctx_scheme option" where
  "store_tail ctx input p k left =
     (if k > 0 then do {
        bs \<leftarrow> load_bytes input p k;
        buf \<leftarrow> store_bytes (dg_buffer ctx) left bs;
        Some (ctx\<lparr>dg_buffer := buf\<rparr>)
      } else Some ctx)"

subsection \<open>The specification\<close>

text \<open>The complete blocks of a message, and what is left behind them.\<close>

fun blocks :: "byte list \<Rightarrow> byte list list" where
  "blocks xs = (if length xs < 64 then [] else take 64 xs # blocks (drop 64 xs))"

declare blocks.simps [simp del]

definition block_rest :: "byte list \<Rightarrow> byte list" where
  "block_rest xs = drop (64 * (length xs div 64)) xs"

definition md_pad :: "byte list \<Rightarrow> byte list \<Rightarrow> byte list" where
  "md_pad lenfield msg = 0x80 # replicate ((if length msg mod 64 < 56 then 55 else 119) - length msg mod 64) 0 @ lenfield"

text \<open>The iterated hash: \<open>lenbytes\<close> lays out the length in bits, modulo \<open>2 ^ 64\<close>.\<close>

definition md_state :: "(u32 list \<Rightarrow> byte list \<Rightarrow> u32 list) \<Rightarrow> u32 list \<Rightarrow> (u32 \<Rightarrow> u32 \<Rightarrow> byte list) \<Rightarrow> byte list \<Rightarrow> u32 list" where
  "md_state compress iv lenbytes msg =
     foldl compress iv (blocks (msg @ md_pad (lenbytes (of_nat (8 * length msg div 4294967296)) (of_nat (8 * length msg))) msg))"

definition hmac :: "(byte list \<Rightarrow> byte list) \<Rightarrow> byte list \<Rightarrow> byte list \<Rightarrow> byte list" where
  "hmac H key msg =
     (let k = key @ replicate (64 - length key) 0
      in H (map (\<lambda>b. b XOR 0x5C) k @ H (map (\<lambda>b. b XOR 0x36) k @ msg)))"

lemma blocks_short [simp]: "length xs < 64 \<Longrightarrow> blocks xs = []"
  by (simp add: blocks.simps)

lemma blocks_append: "length b = 64 \<Longrightarrow> blocks (b @ xs) = b # blocks xs"
  by (subst blocks.simps) simp

lemma length_rest: "length (block_rest xs) = length xs mod 64"
  by (simp add: block_rest_def minus_mult_div_eq_mod)

lemma rest_append: "length b = 64 \<Longrightarrow> block_rest (b @ xs) = block_rest xs"
  by (simp add: block_rest_def div_add_self1)

lemma rest_short [simp]: "length xs < 64 \<Longrightarrow> block_rest xs = xs"
  by (simp add: block_rest_def)

lemma blocks_rest: "blocks (xs @ ys) = blocks xs @ blocks (block_rest xs @ ys) \<and> block_rest (xs @ ys) = block_rest (block_rest xs @ ys)"
proof (induction xs rule: blocks.induct)
  case (1 xs)
  show ?case
  proof (cases "length xs < 64")
    case False
    let ?b = "take 64 xs" and ?t = "drop 64 xs"
    have b: "length ?b = 64" using False by simp
    have "blocks (?b @ ?t @ ys) = ?b # blocks ?t @ blocks (block_rest ?t @ ys)" "block_rest (?b @ ?t @ ys) = block_rest (block_rest ?t @ ys)"
      using 1 False blocks_append [OF b] rest_append [OF b] by (simp_all del: append_take_drop_id)
    moreover have "blocks xs = ?b # blocks ?t" using False by (subst blocks.simps) simp
    moreover have "block_rest ?t = block_rest xs" using rest_append [OF b, of ?t] by simp
    moreover have "?b @ ?t @ ys = xs @ ys" by simp
    ultimately show ?thesis by simp
  qed simp
qed

lemmas blocks_app = blocks_rest [THEN conjunct1] and rest_app = blocks_rest [THEN conjunct2]

lemma in_blocks: "b \<in> set (blocks xs) \<Longrightarrow> length b = 64"
  by (induction xs rule: blocks.induct) (subst (asm) blocks.simps, auto split: if_splits)

subsection \<open>The buffered computation\<close>

text \<open>The context after the message \<open>msg\<close>.\<close>

definition absorbed :: "(u32 list \<Rightarrow> byte list \<Rightarrow> u32 list) \<Rightarrow> u32 list \<Rightarrow> byte list \<Rightarrow> 'a digest_ctx_scheme \<Rightarrow> bool" where
  "absorbed compress iv msg c \<longleftrightarrow>
     dg_state c = foldl compress iv (blocks msg) \<and> length (dg_buffer c) = 64 \<and>
     take (length msg mod 64) (dg_buffer c) = block_rest msg \<and>
     dg_total0 c = of_nat (length msg) \<and> dg_total1 c = of_nat (length msg div 4294967296)"

lemma unat_and_3F: "unat (w AND 0x3F :: u32) = unat w mod 64"
proof -
  have "w AND 0x3F = take_bit 6 w" by (simp add: take_bit_eq_mask mask_eq_exp_minus_1)
  then show ?thesis by (simp add: take_bit_eq_mod unat_mod)
qed

lemma total_left: "dg_total0 c = of_nat k \<Longrightarrow> unat (dg_total0 c AND 0x3F) = k mod 64"
  by (simp add: unat_and_3F unat_of_nat mod_mod_cancel)

lemma wrap_add: "a < m \<Longrightarrow> b < m \<Longrightarrow> ((a + b) mod m < b) = (m \<le> a + (b :: nat))"
proof (cases "m \<le> a + b")
  case True
  assume lt: "a < m" "b < m"
  then have "(a + b) mod m = a + b - m" using True by (simp add: mod_if)
  then show ?thesis using True lt by simp
qed simp

lemma total_carry:
  fixes n :: u32
  shows "((of_nat k :: u32) + n < n) = (4294967296 \<le> k mod 4294967296 + unat n)"
proof -
  have u: "unat ((of_nat k :: u32) + n) = (k mod 4294967296 + unat n) mod 4294967296" by (simp add: unat_word_ariths unat_of_nat)
  show ?thesis unfolding word_less_nat_alt u by (rule wrap_add) (simp_all add: unat_u32_lt)
qed

lemma total_high:
  fixes n :: u32
  shows "(if (of_nat k :: u32) + n < n then of_nat (k div 4294967296) + 1 else of_nat (k div 4294967296) :: u32) =
     of_nat ((k + unat n) div 4294967296)"
proof -
  let ?a = "k mod 4294967296"
  have lt: "?a < 4294967296" "unat n < 4294967296" using unat_u32_lt [of n] by simp_all
  have "k + unat n = ?a + unat n + k div 4294967296 * 4294967296" by simp
  then have "(k + unat n) div 4294967296 = k div 4294967296 + (?a + unat n) div 4294967296" by (metis div_mult_self1 zero_neq_numeral)
  moreover have "(?a + unat n) div 4294967296 = (if 4294967296 \<le> ?a + unat n then 1 else 0)"
  proof (cases "4294967296 \<le> ?a + unat n")
    case True
    with lt have "(?a + unat n - 4294967296) div 4294967296 = 0" by simp
    with True show ?thesis using le_div_geq [of 4294967296 "?a + unat n"] by simp
  qed simp
  ultimately show ?thesis unfolding total_carry by simp
qed

lemma length_words:
  "drop_bit 29 (of_nat k :: u32) OR push_bit 3 (of_nat (k div 4294967296)) = of_nat (8 * k div 4294967296)"
  "push_bit 3 (of_nat k :: u32) = of_nat (8 * k)"
proof -
  have "8 * k div 4294967296 = drop_bit 32 (push_bit 3 k)" by (simp add: drop_bit_eq_div push_bit_eq_mult mult.commute)
  moreover have "k div 4294967296 = drop_bit 32 k" by (simp add: drop_bit_eq_div)
  ultimately show "drop_bit 29 (of_nat k :: u32) OR push_bit 3 (of_nat (k div 4294967296)) = of_nat (8 * k div 4294967296)"
    by (auto simp: bit_eq_iff bit_or_iff bit_drop_bit_eq bit_push_bit_iff bit_of_nat_iff add.commute)
  show "push_bit 3 (of_nat k :: u32) = of_nat (8 * k)" by (simp add: push_bit_eq_mult)
qed

text \<open>A context whose arrays have their declared lengths, whatever they hold.\<close>

definition ctx_shape :: "nat \<Rightarrow> 'a digest_ctx_scheme \<Rightarrow> bool" where
  "ctx_shape k c \<longleftrightarrow> length (dg_state c) = k \<and> length (dg_buffer c) = 64"

locale block_digest =
  fixes process :: "'a process"
    and compress :: "u32 list \<Rightarrow> byte list \<Rightarrow> u32 list"
    and n :: nat
  assumes process_eq: "length (dg_state c) = n \<Longrightarrow> length data = 64 \<Longrightarrow> process c data = Some (c\<lparr>dg_state := compress (dg_state c) data\<rparr>)"
    and length_compress: "length st = n \<Longrightarrow> length data = 64 \<Longrightarrow> length (compress st data) = n"
begin

lemma length_fold: "length st = n \<Longrightarrow> \<forall>b \<in> set bs. length b = 64 \<Longrightarrow> length (foldl compress st bs) = n"
  by (induction bs arbitrary: st) (simp_all add: length_compress)

lemma digest_blocks_eq:
  assumes "length (dg_state c) = n" "p + k \<le> length input"
  shows "digest_blocks process c input p k =
     Some (c\<lparr>dg_state := foldl compress (dg_state c) (blocks (take k (drop p input)))\<rparr>, p + 64 * (k div 64), k mod 64)"
  using assms
proof (induction k arbitrary: c p rule: less_induct)
  case (less k)
  show ?case
  proof (cases "k \<ge> 64")
    case True
    let ?b = "take 64 (drop p input)"
    let ?c = "c\<lparr>dg_state := compress (dg_state c) ?b\<rparr>"
    have b: "length ?b = 64" using True less.prems(2) by simp
    have split: "take k (drop p input) = ?b @ take (k - 64) (drop (p + 64) input)"
      using True take_add [of 64 "k - 64" "drop p input"] by (simp add: add.commute)
    have "digest_blocks process ?c input (p + 64) (k - 64) =
        Some (?c\<lparr>dg_state := foldl compress (dg_state ?c) (blocks (take (k - 64) (drop (p + 64) input)))\<rparr>,
          p + 64 + 64 * ((k - 64) div 64), (k - 64) mod 64)"
      by (rule less.IH) (use True less.prems b length_compress in simp_all)
    moreover have "64 * ((k - 64) div 64) + 64 = 64 * (k div 64)" "(k - 64) mod 64 = k mod 64"
      using True le_div_geq [of 64 k] le_mod_geq [of 64 k] by simp_all
    ultimately show ?thesis
      using True less.prems process_eq [of c ?b] b
      by (subst digest_blocks.simps) (simp add: load_bytes_def split blocks_append)
  next
    case False
    then show ?thesis by (subst digest_blocks.simps) simp
  qed
qed

lemma tail_absorbs:
  assumes st: "length (dg_state c) = n" and len: "p + k \<le> length input" and buf: "length (dg_buffer c) = 64"
  shows "(do { (ctx, p, k) \<leftarrow> digest_blocks process c input p k; store_tail ctx input p k 0 }) =
     Some (c\<lparr>dg_state := foldl compress (dg_state c) (blocks (take k (drop p input))),
             dg_buffer := block_rest (take k (drop p input)) @ drop (k mod 64) (dg_buffer c)\<rparr>)"
proof -
  let ?t = "take k (drop p input)"
  have le: "p + 64 * (k div 64) + k mod 64 \<le> length input" using len mult_div_mod_eq [of 64 k] by linarith
  have r: "take (k mod 64) (drop (p + 64 * (k div 64)) input) = block_rest ?t"
    using len by (simp add: block_rest_def drop_take minus_mult_div_eq_mod add.commute)
  have lr: "length (block_rest ?t) = k mod 64" using len by (simp add: length_rest min_absorb2)
  show ?thesis
  proof (cases "k mod 64 = 0")
    case True
    then show ?thesis using lr by (simp add: digest_blocks_eq [OF st len] store_tail_def)
  next
    case False
    have "load_bytes input (p + 64 * (k div 64)) (k mod 64) = Some (block_rest ?t)" using le r by (simp add: load_bytes_def)
    moreover have "store_bytes (dg_buffer c) 0 (block_rest ?t) = Some (block_rest ?t @ drop (k mod 64) (dg_buffer c))"
      using buf lr by (simp add: store_bytes_def blit_def)
    ultimately show ?thesis using False by (simp add: digest_blocks_eq [OF st len] store_tail_def)
  qed
qed

lemma update_absorbs:
  assumes abs: "absorbed compress iv msg c" and iv: "length iv = n" and len: "unat ilen \<le> length input"
  shows "\<exists>c'. digest_update process c input ilen = Some c' \<and> absorbed compress iv (msg @ take (unat ilen) input) c' \<and>
     digest_ctx.more c' = digest_ctx.more c"
proof (cases "ilen = 0")
  case True
  then show ?thesis using abs by (simp add: digest_update_def)
next
  case False
  let ?in = "take (unat ilen) input" and ?l = "length msg mod 64"
  define c1 where "c1 = c\<lparr>dg_total0 := dg_total0 c + ilen, dg_total1 := (if dg_total0 c + ilen < ilen then dg_total1 c + 1 else dg_total1 c)\<rparr>"
  have st: "length (dg_state c1) = n" using abs iv length_fold in_blocks by (auto simp: c1_def absorbed_def)
  have left: "unat (dg_total0 c AND 0x3F) = ?l" using abs by (intro total_left) (simp add: absorbed_def)
  have il: "length ?in = unat ilen" using len by simp
  have buf: "length (dg_buffer c1) = 64" "take ?l (dg_buffer c1) = block_rest msg" "dg_state c1 = foldl compress iv (blocks msg)"
    using abs by (simp_all add: c1_def absorbed_def)
  have tot: "dg_total0 c1 = of_nat (length (msg @ ?in))" "dg_total1 c1 = of_nat (length (msg @ ?in) div 4294967296)"
  proof -
    show "dg_total0 c1 = of_nat (length (msg @ ?in))" using abs il by (simp add: c1_def absorbed_def)
    have "dg_total1 c1 = (if of_nat (length msg) + ilen < ilen then of_nat (length msg div 4294967296) + 1 else of_nat (length msg div 4294967296))"
      using abs by (simp add: c1_def absorbed_def)
    also have "\<dots> = of_nat (length (msg @ ?in) div 4294967296)" unfolding total_high length_append il ..
    finally show "dg_total1 c1 = of_nat (length (msg @ ?in) div 4294967296)" .
  qed
  have goal: "absorbed compress iv (msg @ ?in) c'"
    if "dg_state c' = foldl compress (dg_state c1) (blocks (block_rest msg @ ?in))" "length (dg_buffer c') = 64"
       "take (length (msg @ ?in) mod 64) (dg_buffer c') = block_rest (block_rest msg @ ?in)" "dg_total0 c' = dg_total0 c1" "dg_total1 c' = dg_total1 c1" for c'
    using that tot buf(3) by (simp add: absorbed_def blocks_app [of msg ?in] rest_app [of msg ?in])
  have lr: "length (block_rest msg) = ?l" by (rule length_rest)
  have unf: "digest_update process c input ilen = do {
        (ctx, p, k, left) \<leftarrow>
          (if ?l \<noteq> 0 \<and> unat ilen \<ge> 64 - ?l then do {
             bs \<leftarrow> load_bytes input 0 (64 - ?l);
             buf \<leftarrow> store_bytes (dg_buffer c1) ?l bs;
             ctx \<leftarrow> process (c1\<lparr>dg_buffer := buf\<rparr>) buf;
             Some (ctx, 64 - ?l, unat ilen - (64 - ?l), 0)
           } else Some (c1, 0, unat ilen, ?l));
        (ctx, p, k) \<leftarrow> digest_blocks process ctx input p k;
        if k > 0 then do {
          bs \<leftarrow> load_bytes input p k;
          buf \<leftarrow> store_bytes (dg_buffer ctx) left bs;
          Some (ctx\<lparr>dg_buffer := buf\<rparr>)
        } else Some ctx
      }"
    using False by (simp only: digest_update_def left Let_def c1_def if_False)
  have fin: ?thesis
    if "digest_update process c input ilen = Some (c1\<lparr>dg_state := st', dg_buffer := buf'\<rparr>)"
       "st' = foldl compress (dg_state c1) (blocks (block_rest msg @ ?in))" "length buf' = 64"
       "take (length (msg @ ?in) mod 64) buf' = block_rest (block_rest msg @ ?in)" for st' buf'
    using that goal [of "c1\<lparr>dg_state := st', dg_buffer := buf'\<rparr>"] by (simp add: c1_def)
  consider (fill) "?l \<noteq> 0" "64 - ?l \<le> unat ilen" | (start) "?l = 0" | (short) "?l \<noteq> 0" "?l + unat ilen < 64"
    by linarith
  then show ?thesis
  proof cases
    case fill
    define f where "f = 64 - ?l"
    define b where "b = block_rest msg @ take f input"
    define t where "t = take (unat ilen - f) (drop f input)"
    have f: "f \<le> unat ilen" "?l + f = 64" using fill by (simp_all add: f_def)
    have b: "length b = 64" using f len lr by (simp add: b_def)
    have app: "block_rest msg @ ?in = b @ t" using f take_add [of f "unat ilen - f" input] by (simp add: b_def t_def)
    let ?c2 = "c1\<lparr>dg_buffer := b, dg_state := compress (dg_state c1) b\<rparr>"
    have st2: "length (dg_state ?c2) = n" using length_compress [OF st b] by simp
    have sb: "load_bytes input 0 f = Some (take f input)" "store_bytes (dg_buffer c1) ?l (take f input) = Some b"
      using buf f len by (simp_all add: load_bytes_def store_bytes_def blit_def b_def)
    have pr: "process (c1\<lparr>dg_buffer := b\<rparr>) b = Some ?c2" using process_eq [of "c1\<lparr>dg_buffer := b\<rparr>" b] st b by simp
    have lt: "length (block_rest t) = (unat ilen - f) mod 64" using f len by (simp add: length_rest t_def)
    have "length (msg @ ?in) mod 64 = (?l + unat ilen) mod 64" using il by (simp add: mod_add_left_eq)
    moreover have "?l + unat ilen = unat ilen - f + 64" using f by simp
    ultimately have k: "length (msg @ ?in) mod 64 = (unat ilen - f) mod 64" by simp
    have "digest_update process c input ilen = do {
        (ctx, p, k) \<leftarrow> digest_blocks process ?c2 input f (unat ilen - f);
        store_tail ctx input p k 0
      }"
      using fill unfolding unf f_def [symmetric] by (simp add: sb pr store_tail_def)
    also have "\<dots> = Some (?c2\<lparr>dg_state := foldl compress (dg_state ?c2) (blocks t), dg_buffer := block_rest t @ drop ((unat ilen - f) mod 64) b\<rparr>)"
      using tail_absorbs [OF st2, of f "unat ilen - f" input] b f len by (simp add: t_def)
    finally have "digest_update process c input ilen =
        Some (c1\<lparr>dg_state := foldl compress (compress (dg_state c1) b) (blocks t), dg_buffer := block_rest t @ drop ((unat ilen - f) mod 64) b\<rparr>)"
      by simp
    then show ?thesis
      by (rule fin) (use b lt len k [unfolded length_append il] in \<open>simp_all add: app blocks_append [OF b] rest_append [OF b] min_absorb2\<close>)
  next
    case start
    have k: "length (msg @ ?in) mod 64 = unat ilen mod 64"
      using start il mod_add_left_eq [of "length msg" 64 "unat ilen"] by simp
    have lt: "length (block_rest ?in) = unat ilen mod 64" using len by (simp add: length_rest min_absorb2)
    have r: "block_rest msg = []" using lr start by simp
    have "digest_update process c input ilen = do {
        (ctx, p, k) \<leftarrow> digest_blocks process c1 input 0 (unat ilen);
        store_tail ctx input p k 0
      }"
      using start by (simp add: unf store_tail_def)
    then have "digest_update process c input ilen =
        Some (c1\<lparr>dg_state := foldl compress (dg_state c1) (blocks ?in), dg_buffer := block_rest ?in @ drop (unat ilen mod 64) (dg_buffer c1)\<rparr>)"
      using tail_absorbs [OF st, of 0 "unat ilen" input] buf len by simp
    then show ?thesis by (rule fin) (use buf lt len k [unfolded length_append il] in \<open>simp_all add: r min_absorb2\<close>)
  next
    case short
    have k: "length (msg @ ?in) mod 64 = ?l + unat ilen"
      using short il mod_add_left_eq [of "length msg" 64 "unat ilen"] by simp
    have "digest_update process c input ilen = store_tail c1 input 0 (unat ilen) ?l"
    proof -
      have "\<not> (?l \<noteq> 0 \<and> unat ilen \<ge> 64 - ?l)" "unat ilen < 64" using short by linarith+
      then show ?thesis unfolding unf by (simp only: if_False) (simp add: store_tail_def digest_blocks_eq [OF st] len)
    qed
    also have "\<dots> = Some (c1\<lparr>dg_buffer := block_rest msg @ ?in @ drop (?l + unat ilen) (dg_buffer c1)\<rparr>)"
      using short buf len False by (simp add: store_tail_def load_bytes_def store_bytes_def blit_def unat_gt_0)
    finally have "digest_update process c input ilen =
        Some (c1\<lparr>dg_state := dg_state c1, dg_buffer := block_rest msg @ ?in @ drop (?l + unat ilen) (dg_buffer c1)\<rparr>)"
      by simp
    then show ?thesis by (rule fin) (use short buf lr k il in simp_all)
  qed
qed

lemma pad_eq:
  assumes "m < 64" "length len = 8"
  shows "msg @ 0x80 # replicate ((if m < 56 then 55 else 119) - m) 0 @ len =
     (msg @ take (if m < 56 then 56 - m else 120 - m) (0x80 # replicate 63 0)) @ take (unat (8 :: u32)) len"
proof (cases "m < 56")
  case True
  then have "min (55 - m) 63 = 55 - m" by simp
  with True assms show ?thesis by (simp add: take_Cons')
next
  case False
  with assms(1) have "min (119 - m) 63 = 119 - m" by simp
  with False assms show ?thesis by (simp add: take_Cons')
qed

lemma finish_state:
  assumes abs: "absorbed compress iv msg c" and iv: "length iv = n" and lb: "\<And>h l. length (lenbytes h l) = 8"
  shows "\<exists>c'. digest_finish process lenbytes c = Some c' \<and> dg_state c' = md_state compress iv lenbytes msg \<and>
     digest_ctx.more c' = digest_ctx.more c"
proof -
  let ?k = "length msg" and ?w = "dg_total0 c AND 0x3F"
  let ?padn = "if ?w < 56 then 56 - ?w else 120 - ?w"
  let ?len = "lenbytes (of_nat (8 * ?k div 4294967296)) (of_nat (8 * ?k))"
  have w: "unat ?w = ?k mod 64" using abs by (intro total_left) (simp add: absorbed_def)
  have w56: "?w < 56 \<longleftrightarrow> ?k mod 64 < 56" by (simp add: word_less_nat_alt w)
  have padn: "unat ?padn = (if ?k mod 64 < 56 then 56 - ?k mod 64 else 120 - ?k mod 64)"
  proof -
    have "?k mod 64 < 64" by simp
    then show ?thesis by (auto simp: w56 unat_sub word_le_nat_alt w)
  qed
  have "unat ?padn \<le> length digest_padding" unfolding padn by (auto simp: digest_padding_def)
  from update_absorbs [OF abs iv this] obtain c1 where
    c1: "digest_update process c digest_padding ?padn = Some c1" "absorbed compress iv (msg @ take (unat ?padn) digest_padding) c1"
      "digest_ctx.more c1 = digest_ctx.more c" by blast
  have "unat (8 :: u32) \<le> length ?len" by (simp add: lb)
  from update_absorbs [OF c1(2) iv this] obtain c2 where
    c2: "digest_update process c1 ?len 8 = Some c2" "absorbed compress iv ((msg @ take (unat ?padn) digest_padding) @ take (unat (8 :: u32)) ?len) c2"
      "digest_ctx.more c2 = digest_ctx.more c1" by blast
  have "msg @ md_pad ?len msg = (msg @ take (unat ?padn) digest_padding) @ take (unat (8 :: u32)) ?len"
    unfolding padn md_pad_def digest_padding_def by (rule pad_eq) (simp_all add: lb)
  then have "dg_state c2 = md_state compress iv lenbytes msg" using c2(2) by (simp add: absorbed_def md_state_def)
  moreover have "digest_finish process lenbytes c = Some c2"
  proof -
    have t: "drop_bit 29 (dg_total0 c) OR push_bit 3 (dg_total1 c) = of_nat (8 * ?k div 4294967296)" "push_bit 3 (dg_total0 c) = of_nat (8 * ?k)"
      using abs length_words [of ?k] by (simp_all only: absorbed_def)
    show ?thesis unfolding digest_finish_def Let_def t c1(1) bind.bind_lunit by (rule c2(1))
  qed
  ultimately show ?thesis using c1(3) c2(3) by auto
qed

text \<open>Updating and finishing return on every context, also on one that was finished before.\<close>

lemma blocks_shape:
  assumes "ctx_shape n c" "p + k \<le> length input"
  shows "\<exists>c' p' k'. digest_blocks process c input p k = Some (c', p', k') \<and> ctx_shape n c' \<and> p' + k' \<le> length input \<and> k' < 64 \<and> k' \<le> k"
proof -
  have b: "\<forall>b \<in> set (blocks (take k (drop p input))). length b = 64" using in_blocks by blast
  have "p + 64 * (k div 64) + k mod 64 \<le> length input" using assms(2) mult_div_mod_eq [of 64 k] by linarith
  then show ?thesis
    using assms digest_blocks_eq [of c p k input] length_fold [OF _ b, of "dg_state c"] by (simp add: ctx_shape_def)
qed

lemma tail_shape:
  assumes "ctx_shape n c" "p + k \<le> length input" "l = 0 \<or> l + k < 64"
  shows "returns (digest_blocks process c input p k \<bind> (\<lambda>(c, p, k). if k > 0 then do {
      bs \<leftarrow> load_bytes input p k; buf \<leftarrow> store_bytes (dg_buffer c) l bs; Some (c\<lparr>dg_buffer := buf\<rparr>) } else Some c)) (ctx_shape n)"
proof -
  obtain c' p' k' where b: "digest_blocks process c input p k = Some (c', p', k')" "ctx_shape n c'" "p' + k' \<le> length input" "k' < 64" "k' \<le> k"
    using blocks_shape [OF assms(1,2)] by blast
  then show ?thesis using assms(3) by (auto simp: load_bytes_def store_bytes_def ctx_shape_def)
qed

lemma update_shape:
  assumes c: "ctx_shape n c" and len: "unat ilen \<le> length input"
  shows "returns (digest_update process c input ilen) (ctx_shape n)"
proof (cases "ilen = 0")
  case True
  then show ?thesis using c by (simp add: digest_update_def)
next
  case False
  define l where "l = unat (dg_total0 c AND 0x3F)"
  define c1 where "c1 = c\<lparr>dg_total0 := dg_total0 c + ilen, dg_total1 := (if dg_total0 c + ilen < ilen then dg_total1 c + 1 else dg_total1 c)\<rparr>"
  have l: "l < 64" by (simp add: l_def unat_and_3F)
  have c1: "ctx_shape n c1" using c by (simp add: c1_def ctx_shape_def)
  show ?thesis
  proof (cases "l \<noteq> 0 \<and> unat ilen \<ge> 64 - l")
    case True
    let ?buf = "blit (dg_buffer c1) l (take (64 - l) input)"
    have b: "length ?buf = 64" "store_bytes (dg_buffer c1) l (take (64 - l) input) = Some ?buf" "load_bytes input 0 (64 - l) = Some (take (64 - l) input)"
      using c1 l True len by (simp_all add: ctx_shape_def store_bytes_def load_bytes_def)
    have p: "process (c1\<lparr>dg_buffer := ?buf\<rparr>) ?buf = Some (c1\<lparr>dg_buffer := ?buf, dg_state := compress (dg_state c1) ?buf\<rparr>)"
      using process_eq [of "c1\<lparr>dg_buffer := ?buf\<rparr>" ?buf] b(1) c1 by (simp add: ctx_shape_def)
    have s: "ctx_shape n (c1\<lparr>dg_buffer := ?buf, dg_state := compress (dg_state c1) ?buf\<rparr>)"
      using length_compress [of "dg_state c1" ?buf] b(1) c1 by (simp add: ctx_shape_def)
    show ?thesis
      using tail_shape [OF s, of "64 - l" "unat ilen - (64 - l)" input 0] True False len b(2,3) p
      unfolding digest_update_def Let_def l_def [symmetric] c1_def [symmetric] by simp
  next
    case F: False
    have "l = 0 \<or> l + unat ilen < 64" using F l by auto
    then show ?thesis
      using tail_shape [OF c1, of 0 "unat ilen" input l] F False len
      unfolding digest_update_def Let_def l_def [symmetric] c1_def [symmetric] by auto
  qed
qed

lemma finish_shape:
  assumes c: "ctx_shape n c" and lb: "\<And>h l. length (lenbytes h l) = 8"
  shows "returns (digest_finish process lenbytes c) (ctx_shape n)"
proof -
  let ?w = "dg_total0 c AND 0x3F"
  have "unat ?w < 64" by (simp add: unat_and_3F)
  then have "unat (if ?w < 56 then 56 - ?w else 120 - ?w) \<le> 64" by (auto simp: unat_sub word_le_nat_alt word_less_nat_alt)
  then have len: "unat (if ?w < 56 then 56 - ?w else 120 - ?w) \<le> length digest_padding" by (simp add: digest_padding_def)
  show ?thesis
    unfolding digest_finish_def Let_def
    by (rule returns_bind, rule returns_conseq [OF update_shape [OF c len]], rule update_shape) (simp_all add: lb)
qed

end

subsection \<open>Streams and HMAC\<close>

text \<open>Several updates in a row, and the two passes of an HMAC, the same in all three files.\<close>

fun digest_updates :: "('c \<Rightarrow> byte list \<Rightarrow> u32 \<Rightarrow> 'c option) \<Rightarrow> 'c \<Rightarrow> byte list list \<Rightarrow> 'c option" where
  "digest_updates update ctx [] = Some ctx"
| "digest_updates update ctx (x # xs) = do { ctx \<leftarrow> update ctx x (of_nat (length x)); digest_updates update ctx xs }"

definition digest_hmac ::
  "'c \<Rightarrow> ('c \<Rightarrow> byte list \<Rightarrow> u32 \<Rightarrow> 'c option) \<Rightarrow> ('c \<Rightarrow> (byte list \<times> 'c) option) \<Rightarrow> u32 \<Rightarrow> byte list \<Rightarrow> u32 \<Rightarrow> byte list \<Rightarrow> nat \<Rightarrow> byte list option" where
  "digest_hmac start update finish digest_size msg msg_len key key_len = do {
     k \<leftarrow> load_bytes key 0 key_len;
     k_pad \<leftarrow> store_bytes (replicate 64 0) 0 k;
     let k_ipad = map (\<lambda>b. b XOR 0x36) k_pad;
     let k_opad = map (\<lambda>b. b XOR 0x5C) k_pad;
     context \<leftarrow> update start k_ipad 64;
     context \<leftarrow> update context msg msg_len;
     (out, _) \<leftarrow> finish context;
     context \<leftarrow> update start k_opad 64;
     context \<leftarrow> update context out digest_size;
     (out, _) \<leftarrow> finish context;
     Some out
   }"

text \<open>
  What the users of a digest rely on: \<open>absorbs msg c\<close> describes the contexts after the input \<open>msg\<close>,
  however it was split, and \<open>H\<close> is the hash function.
\<close>

locale digest_algorithm =
  fixes start :: 'c
    and update :: "'c \<Rightarrow> byte list \<Rightarrow> u32 \<Rightarrow> 'c option"
    and finish :: "'c \<Rightarrow> (byte list \<times> 'c) option"
    and absorbs :: "byte list \<Rightarrow> 'c \<Rightarrow> bool"
    and H :: "byte list \<Rightarrow> byte list"
    and digest_size :: u32
  assumes start_absorbs: "absorbs [] start"
    and update_absorbs: "absorbs msg c \<Longrightarrow> unat ilen \<le> length input \<Longrightarrow> \<exists>c'. update c input ilen = Some c' \<and> absorbs (msg @ take (unat ilen) input) c'"
    and finish_digest: "absorbs msg c \<Longrightarrow> \<exists>c'. finish c = Some (H msg, c')"
    and length_H: "length (H msg) = unat digest_size"
begin

lemma updates_absorb:
  "absorbs msg c \<Longrightarrow> \<forall>x \<in> set xs. length x < 4294967296 \<Longrightarrow> \<exists>c'. digest_updates update c xs = Some c' \<and> absorbs (msg @ concat xs) c'"
proof (induction xs arbitrary: c msg)
  case (Cons x xs)
  then have x: "unat (of_nat (length x) :: u32) = length x" by (simp add: unat_of_nat)
  from update_absorbs [OF Cons.prems(1), of "of_nat (length x)" x] obtain c1 where
    "update c x (of_nat (length x)) = Some c1" "absorbs (msg @ x) c1" by (auto simp: x)
  with Cons.IH [of "msg @ x" c1] Cons.prems(2) show ?case by auto
qed simp

lemma stream:
  assumes "\<forall>x \<in> set xs. length x < 4294967296"
  shows "\<exists>c c'. digest_updates update start xs = Some c \<and> finish c = Some (H (concat xs), c')"
  using updates_absorb [OF start_absorbs assms] finish_digest by fastforce

lemma two_updates:
  assumes "length a = unat alen" "unat blen \<le> length b"
  shows "\<exists>c1 c2 c3. update start a alen = Some c1 \<and> update c1 b blen = Some c2 \<and> finish c2 = Some (H (a @ take (unat blen) b), c3)"
proof -
  from update_absorbs [OF start_absorbs, of alen a] assms(1) obtain c1 where c1: "update start a alen = Some c1" "absorbs a c1" by auto
  from update_absorbs [OF c1(2) assms(2)] obtain c2 where c2: "update c1 b blen = Some c2" "absorbs (a @ take (unat blen) b) c2" by auto
  with c1(1) finish_digest [OF c2(2)] show ?thesis by blast
qed

lemma hmac_correct:
  assumes "unat msg_len \<le> length msg" "key_len \<le> length key" "key_len \<le> 64"
  shows "digest_hmac start update finish digest_size msg msg_len key key_len = Some (hmac H (take key_len key) (take (unat msg_len) msg))"
proof -
  let ?k = "take key_len key" let ?p = "?k @ replicate (64 - length ?k) 0"
  have len: "length (map f ?p) = unat (64 :: u32)" for f :: "byte \<Rightarrow> byte" using assms(2,3) by simp
  have st: "load_bytes key 0 key_len = Some ?k" "store_bytes (replicate 64 0) 0 ?k = Some ?p"
    using assms(2,3) by (simp_all add: load_bytes_def store_bytes_def blit_def)
  let ?i = "map (\<lambda>b. b XOR 0x36) ?p" and ?o = "map (\<lambda>b. b XOR 0x5C) ?p" let ?in = "H (?i @ take (unat msg_len) msg)"
  obtain c1 c2 c3 where i: "update start ?i 64 = Some c1" "update c1 msg msg_len = Some c2" "finish c2 = Some (?in, c3)"
    using two_updates [OF len [of "\<lambda>b. b XOR 0x36"] assms(1)] by blast
  have "take (unat digest_size) ?in = ?in" "unat digest_size \<le> length ?in" by (simp_all add: length_H)
  then obtain c4 c5 c6 where o: "update start ?o 64 = Some c4" "update c4 ?in digest_size = Some c5" "finish c5 = Some (H (?o @ ?in), c6)"
    using two_updates [OF len [of "\<lambda>b. b XOR 0x5C"], of digest_size ?in] by auto
  show ?thesis
    unfolding digest_hmac_def Let_def by (simp only: st i o bind.bind_lunit prod.case hmac_def Let_def)
qed

end

end
