(* ===== verification/Infra_SHA256.thy ===== *)
theory Infra_SHA256
  imports Infra_Digest
begin

text \<open>
  SHA-256 and its HMAC, \<open>src/src/infra/infra_sha256.c\<close> (built with \<open>INFRA_SHA256_SMALLER\<close>, as the file
  defines it), against the functions and the message schedule of FIPS 180-4.
\<close>

subsection \<open>The code\<close>

record sha256_ctx = digest_ctx +
  dg_is224 :: int

definition utils_sha256_init :: sha256_ctx where
  "utils_sha256_init = \<lparr>dg_total0 = 0, dg_total1 = 0, dg_state = replicate 8 0, dg_buffer = replicate 64 0, dg_is224 = 0\<rparr>"

definition sha256_iv :: "u32 list" where
  "sha256_iv = [0x6A09E667, 0xBB67AE85, 0x3C6EF372, 0xA54FF53A, 0x510E527F, 0x9B05688C, 0x1F83D9AB, 0x5BE0CD19]"

definition utils_sha256_starts :: "sha256_ctx \<Rightarrow> sha256_ctx" where
  "utils_sha256_starts ctx = ctx\<lparr>dg_total0 := 0, dg_total1 := 0, dg_state := sha256_iv, dg_is224 := 0\<rparr>"

definition utils_sha256_free :: "sha256_ctx \<Rightarrow> sha256_ctx" where
  "utils_sha256_free ctx = utils_sha256_init"

definition sha256_K :: "u32 list" where
  "sha256_K = [
    0x428A2F98, 0x71374491, 0xB5C0FBCF, 0xE9B5DBA5, 0x3956C25B, 0x59F111F1, 0x923F82A4, 0xAB1C5ED5,
    0xD807AA98, 0x12835B01, 0x243185BE, 0x550C7DC3, 0x72BE5D74, 0x80DEB1FE, 0x9BDC06A7, 0xC19BF174,
    0xE49B69C1, 0xEFBE4786, 0x0FC19DC6, 0x240CA1CC, 0x2DE92C6F, 0x4A7484AA, 0x5CB0A9DC, 0x76F988DA,
    0x983E5152, 0xA831C66D, 0xB00327C8, 0xBF597FC7, 0xC6E00BF3, 0xD5A79147, 0x06CA6351, 0x14292967,
    0x27B70A85, 0x2E1B2138, 0x4D2C6DFC, 0x53380D13, 0x650A7354, 0x766A0ABB, 0x81C2C92E, 0x92722C85,
    0xA2BFE8A1, 0xA81A664B, 0xC24B8B70, 0xC76C51A3, 0xD192E819, 0xD6990624, 0xF40E3585, 0x106AA070,
    0x19A4C116, 0x1E376C08, 0x2748774C, 0x34B0BCB5, 0x391C0CB3, 0x4ED8AA4A, 0x5B9CCA4F, 0x682E6FF3,
    0x748F82EE, 0x78A5636F, 0x84C87814, 0x8CC70208, 0x90BEFFFA, 0xA4506CEB, 0xBEF9A3F7, 0xC67178F2]"

definition SHR :: "u32 \<Rightarrow> nat \<Rightarrow> u32" where "SHR x n = drop_bit n (x AND 0xFFFFFFFF)"
definition ROTR :: "u32 \<Rightarrow> nat \<Rightarrow> u32" where "ROTR x n = SHR x n OR push_bit (32 - n) x"

definition sha256_S0 :: "u32 \<Rightarrow> u32" where "sha256_S0 x = ROTR x 7 XOR ROTR x 18 XOR SHR x 3"
definition sha256_S1 :: "u32 \<Rightarrow> u32" where "sha256_S1 x = ROTR x 17 XOR ROTR x 19 XOR SHR x 10"
definition sha256_S2 :: "u32 \<Rightarrow> u32" where "sha256_S2 x = ROTR x 2 XOR ROTR x 13 XOR ROTR x 22"
definition sha256_S3 :: "u32 \<Rightarrow> u32" where "sha256_S3 x = ROTR x 6 XOR ROTR x 11 XOR ROTR x 25"
definition sha256_F0 :: "u32 \<Rightarrow> u32 \<Rightarrow> u32 \<Rightarrow> u32" where "sha256_F0 x y z = (x AND y) OR (z AND (x OR y))"
definition sha256_F1 :: "u32 \<Rightarrow> u32 \<Rightarrow> u32 \<Rightarrow> u32" where "sha256_F1 x y z = z XOR (x AND (y XOR z))"

type_synonym sha256_regs = "u32 \<times> u32 \<times> u32 \<times> u32 \<times> u32 \<times> u32 \<times> u32 \<times> u32"

text \<open>One turn of the loop over \<open>i\<close>: the words \<open>W[0..i]\<close> computed so far and the registers \<open>A[0..7]\<close>.\<close>

definition sha256_round :: "byte list \<Rightarrow> nat \<Rightarrow> u32 list \<times> sha256_regs \<Rightarrow> u32 list \<times> sha256_regs" where
  "sha256_round data i = (\<lambda>(W, a, b, c, d, e, f, g, h).
     let w = (if i < 16 then GET_UINT32_BE data (4 * i)
              else sha256_S1 (W ! (i - 2)) + W ! (i - 7) + sha256_S0 (W ! (i - 15)) + W ! (i - 16));
         temp1 = h + sha256_S3 e + sha256_F1 e f g + sha256_K ! i + w;
         temp2 = sha256_S2 a + sha256_F0 a b c;
         d = d + temp1;
         h = temp1 + temp2
     in (W @ [w], h, a, b, c, d, e, f, g))"

definition utils_sha256_process :: "'a digest_ctx_scheme \<Rightarrow> byte list \<Rightarrow> 'a digest_ctx_scheme option" where
  "utils_sha256_process ctx data =
     (case dg_state ctx of
        [s0, s1, s2, s3, s4, s5, s6, s7] \<Rightarrow>
          if length data < 64 then None
          else (case fold (sha256_round data) [0..<64] ([], s0, s1, s2, s3, s4, s5, s6, s7) of
                  (W, a, b, c, d, e, f, g, h) \<Rightarrow>
                    Some (ctx\<lparr>dg_state := [s0 + a, s1 + b, s2 + c, s3 + d, s4 + e, s5 + f, s6 + g, s7 + h]\<rparr>))
      | _ \<Rightarrow> None)"

definition utils_sha256_update :: "sha256_ctx \<Rightarrow> byte list \<Rightarrow> u32 \<Rightarrow> sha256_ctx option" where
  "utils_sha256_update = digest_update utils_sha256_process"

text \<open>The result: the digest, and the context with the length and the padding absorbed.\<close>

definition utils_sha256_finish :: "sha256_ctx \<Rightarrow> (byte list \<times> sha256_ctx) option" where
  "utils_sha256_finish ctx = do {
     ctx \<leftarrow> digest_finish utils_sha256_process (\<lambda>high low. PUT_UINT32_BE high @ PUT_UINT32_BE low) ctx;
     Some (concat (map PUT_UINT32_BE (if dg_is224 ctx = 0 then dg_state ctx else take 7 (dg_state ctx))), ctx)
   }"

definition utils_sha256 :: "byte list \<Rightarrow> u32 \<Rightarrow> byte list option" where
  "utils_sha256 input ilen = do {
     ctx \<leftarrow> utils_sha256_update (utils_sha256_starts utils_sha256_init) input ilen;
     (output, _) \<leftarrow> utils_sha256_finish ctx;
     Some output
   }"

definition SHA256_KEY_IOPAD_SIZE :: nat where "SHA256_KEY_IOPAD_SIZE = 64"
definition SHA256_DIGEST_SIZE :: u32 where "SHA256_DIGEST_SIZE = 32"

text \<open>
  \<open>output\<close> is the buffer of the caller before the call; the early returns leave it as it is.
\<close>

definition utils_hmac_sha256 :: "byte list option \<Rightarrow> u32 \<Rightarrow> byte list option \<Rightarrow> u32 \<Rightarrow> byte list \<Rightarrow> byte list option" where
  "utils_hmac_sha256 msg msg_len key key_len output =
     (case (msg, key) of
        (Some msg, Some key) \<Rightarrow>
          if unat key_len > SHA256_KEY_IOPAD_SIZE then Some output
          else digest_hmac (utils_sha256_starts utils_sha256_init) utils_sha256_update utils_sha256_finish SHA256_DIGEST_SIZE
                 msg msg_len key (unat key_len)
      | _ \<Rightarrow> Some output)"

subsection \<open>FIPS 180-4\<close>

definition Ch :: "u32 \<Rightarrow> u32 \<Rightarrow> u32 \<Rightarrow> u32" where "Ch x y z = (x AND y) XOR (NOT x AND z)"
definition Maj :: "u32 \<Rightarrow> u32 \<Rightarrow> u32 \<Rightarrow> u32" where "Maj x y z = (x AND y) XOR (x AND z) XOR (y AND z)"
definition Sigma0 :: "u32 \<Rightarrow> u32" where "Sigma0 x = word_rotr 2 x XOR word_rotr 13 x XOR word_rotr 22 x"
definition Sigma1 :: "u32 \<Rightarrow> u32" where "Sigma1 x = word_rotr 6 x XOR word_rotr 11 x XOR word_rotr 25 x"
definition sigma0 :: "u32 \<Rightarrow> u32" where "sigma0 x = word_rotr 7 x XOR word_rotr 18 x XOR drop_bit 3 x"
definition sigma1 :: "u32 \<Rightarrow> u32" where "sigma1 x = word_rotr 17 x XOR word_rotr 19 x XOR drop_bit 10 x"

fun sha256_W :: "byte list \<Rightarrow> nat \<Rightarrow> u32" where
  "sha256_W data t =
     (if t < 16 then GET_UINT32_BE data (4 * t)
      else sigma1 (sha256_W data (t - 2)) + sha256_W data (t - 7) + sigma0 (sha256_W data (t - 15)) + sha256_W data (t - 16))"

declare sha256_W.simps [simp del]

definition fips_round :: "byte list \<Rightarrow> nat \<Rightarrow> sha256_regs \<Rightarrow> sha256_regs" where
  "fips_round data t = (\<lambda>(a, b, c, d, e, f, g, h).
     let T1 = h + Sigma1 e + Ch e f g + sha256_K ! t + sha256_W data t;
         T2 = Sigma0 a + Maj a b c
     in (T1 + T2, a, b, c, d + T1, e, f, g))"

definition sha256_compress :: "u32 list \<Rightarrow> byte list \<Rightarrow> u32 list" where
  "sha256_compress st data =
     (case fold (fips_round data) [0..<64] (st ! 0, st ! 1, st ! 2, st ! 3, st ! 4, st ! 5, st ! 6, st ! 7) of
        (a, b, c, d, e, f, g, h) \<Rightarrow> map2 (+) st [a, b, c, d, e, f, g, h])"

definition sha256 :: "byte list \<Rightarrow> byte list" where
  "sha256 msg = concat (map PUT_UINT32_BE (md_state sha256_compress sha256_iv (\<lambda>high low. PUT_UINT32_BE high @ PUT_UINT32_BE low) msg))"

subsection \<open>One block\<close>

lemma ROTR_eq:
  assumes "0 < n" "n < 32"
  shows "ROTR x n = word_rotr n x"
proof (rule bit_word_eqI)
  fix i assume i: "i < LENGTH(32)"
  show "bit (ROTR x n) i = bit (word_rotr n x) i"
  proof (cases "i + n < 32")
    case True
    then have "\<not> 32 - n \<le> i" by simp
    with True show ?thesis
      using assms i unfolding ROTR_def SHR_def and_mask_32
      by (simp add: bit_or_iff bit_drop_bit_eq bit_push_bit_iff bit_word_rotr_iff word_size add.commute)
  next
    case False
    then have "(i + n) mod 32 = i + n - 32" "\<not> bit x (n + i)" using assms i by (auto simp: mod_if dest: bit_imp_le_length)
    then show ?thesis
      using False assms i unfolding ROTR_def SHR_def and_mask_32
      by (simp add: bit_or_iff bit_drop_bit_eq bit_push_bit_iff bit_word_rotr_iff word_size add.commute) linarith
  qed
qed

lemma sha256_functions:
  "sha256_S0 x = sigma0 x" "sha256_S1 x = sigma1 x" "sha256_S2 x = Sigma0 x" "sha256_S3 x = Sigma1 x"
  "sha256_F0 x y z = Maj x y z" "sha256_F1 x y z = Ch x y z"
proof -
  show "sha256_F0 x y z = Maj x y z" unfolding sha256_F0_def Maj_def
    by (rule bit_word_eqI) (auto simp: bit_simps)
  show "sha256_F1 x y z = Ch x y z" unfolding sha256_F1_def Ch_def
    by (rule bit_word_eqI) (auto simp: bit_simps)
qed (simp_all add: sha256_S0_def sha256_S1_def sha256_S2_def sha256_S3_def sigma0_def sigma1_def Sigma0_def Sigma1_def ROTR_eq SHR_def and_mask_32)

lemma sha256_rounds:
  "n \<le> 64 \<Longrightarrow> fold (sha256_round data) [0..<n] ([], regs) = (map (sha256_W data) [0..<n], fold (fips_round data) [0..<n] regs)"
proof (induction n)
  case (Suc n)
  have w: "(if n < 16 then GET_UINT32_BE data (4 * n)
      else sha256_S1 (map (sha256_W data) [0..<n] ! (n - 2)) + map (sha256_W data) [0..<n] ! (n - 7) +
        sha256_S0 (map (sha256_W data) [0..<n] ! (n - 15)) + map (sha256_W data) [0..<n] ! (n - 16)) = sha256_W data n"
    by (simp add: sha256_functions sha256_W.simps [of data n])
  show ?case
    using Suc by (simp add: sha256_round_def fips_round_def w sha256_functions Let_def split: prod.splits)
qed simp

interpretation sha256_digest: block_digest utils_sha256_process sha256_compress 8
proof unfold_locales
  fix c :: "'a digest_ctx_scheme" and data :: "byte list"
  assume "length (dg_state c) = 8" "length data = 64"
  moreover from this obtain s0 s1 s2 s3 s4 s5 s6 s7 where "dg_state c = [s0, s1, s2, s3, s4, s5, s6, s7]"
    by (auto simp: length_Suc_conv numeral_eq_Suc)
  ultimately show "utils_sha256_process c data = Some (c\<lparr>dg_state := sha256_compress (dg_state c) data\<rparr>)"
    by (simp add: utils_sha256_process_def sha256_compress_def sha256_rounds split: prod.split)
next
  fix st :: "u32 list" and data :: "byte list"
  assume "length st = 8"
  then show "length (sha256_compress st data) = 8" by (simp add: sha256_compress_def split: prod.split)
qed

subsection \<open>The digest and the HMAC\<close>

lemma sha256_start: "absorbed sha256_compress sha256_iv [] (utils_sha256_starts utils_sha256_init)"
  by (simp add: absorbed_def utils_sha256_starts_def utils_sha256_init_def)

lemma length_sha256_iv [simp]: "length sha256_iv = 8"
  by (simp add: sha256_iv_def)

interpretation sha256_alg: digest_algorithm "utils_sha256_starts utils_sha256_init" utils_sha256_update utils_sha256_finish
  "\<lambda>msg c. absorbed sha256_compress sha256_iv msg c \<and> dg_is224 c = 0" sha256 SHA256_DIGEST_SIZE
proof unfold_locales
  show "absorbed sha256_compress sha256_iv [] (utils_sha256_starts utils_sha256_init) \<and> dg_is224 (utils_sha256_starts utils_sha256_init) = 0"
    using sha256_start by (simp add: utils_sha256_starts_def)
next
  fix msg input :: "byte list" and c :: sha256_ctx and ilen :: u32
  assume a: "absorbed sha256_compress sha256_iv msg c \<and> dg_is224 c = 0" and len: "unat ilen \<le> length input"
  obtain c' where c': "digest_update utils_sha256_process c input ilen = Some c'"
    "absorbed sha256_compress sha256_iv (msg @ take (unat ilen) input) c'" "digest_ctx.more c' = digest_ctx.more c"
    using sha256_digest.update_absorbs [OF conjunct1 [OF a] length_sha256_iv len] by blast
  moreover have "dg_is224 c' = 0" using c'(3) a by (cases c; cases c') simp
  ultimately show "\<exists>c'. utils_sha256_update c input ilen = Some c' \<and> absorbed sha256_compress sha256_iv (msg @ take (unat ilen) input) c' \<and> dg_is224 c' = 0"
    by (simp add: utils_sha256_update_def)
next
  fix msg :: "byte list" and c :: sha256_ctx
  assume a: "absorbed sha256_compress sha256_iv msg c \<and> dg_is224 c = 0"
  obtain c' where c': "digest_finish utils_sha256_process (\<lambda>high low. PUT_UINT32_BE high @ PUT_UINT32_BE low) c = Some c'"
    "dg_state c' = md_state sha256_compress sha256_iv (\<lambda>high low. PUT_UINT32_BE high @ PUT_UINT32_BE low) msg" "digest_ctx.more c' = digest_ctx.more c"
    using sha256_digest.finish_state [OF conjunct1 [OF a] length_sha256_iv, of "\<lambda>high low. PUT_UINT32_BE high @ PUT_UINT32_BE low"] by auto
  moreover have "dg_is224 c' = 0" using c'(3) a by (cases c; cases c') simp
  ultimately show "\<exists>c'. utils_sha256_finish c = Some (sha256 msg, c')" by (simp add: utils_sha256_finish_def sha256_def)
next
  show "length (sha256 msg) = unat SHA256_DIGEST_SIZE" for msg
    unfolding sha256_def length_concat_BE md_state_def SHA256_DIGEST_SIZE_def
    using sha256_digest.length_fold [OF length_sha256_iv] in_blocks by simp
qed

subsection \<open>Properties\<close>

text \<open>
  C35: SHA-256 as FIPS 180-4 defines it: however a message is split over calls of
  \<open>utils_sha256_update\<close>, \<open>utils_sha256_finish\<close> gives the hash of the whole message, computed by the
  message schedule and the round functions of the standard over the padded message. The buffered
  code with its shared loop and its rewritten functions agrees with this for every message.
\<close>

theorem sha256_correct:
  assumes "\<forall>x \<in> set xs. length x < 4294967296"
  shows "\<exists>c c'. digest_updates utils_sha256_update (utils_sha256_starts utils_sha256_init) xs = Some c \<and>
     utils_sha256_finish c = Some (sha256 (concat xs), c')"
  by (rule sha256_alg.stream [OF assms])

theorem sha256_correct_witness:
  "\<exists>c c'. digest_updates utils_sha256_update (utils_sha256_starts utils_sha256_init) [[1, 2], replicate 200 3] = Some c \<and>
     utils_sha256_finish c = Some (sha256 (concat [[1, 2], replicate 200 3]), c')"
  by (rule sha256_correct) simp

text \<open>
  \<open>utils_hmac_sha256\<close> computes the HMAC of RFC 2104 over SHA-256 for keys of up to 64 bytes; with a
  longer key it returns without writing its output.
\<close>

lemma hmac_sha256_correct:
  assumes "unat msg_len \<le> length msg" "unat key_len \<le> length key"
  shows "utils_hmac_sha256 (Some msg) msg_len (Some key) key_len output =
     Some (if unat key_len \<le> 64 then hmac sha256 (take (unat key_len) key) (take (unat msg_len) msg) else output)"
  using sha256_alg.hmac_correct [OF assms] by (simp add: utils_hmac_sha256_def SHA256_KEY_IOPAD_SIZE_def)

end
