(* ===== verification/Dev_Sign.thy ===== *)
theory Dev_Sign
  imports C_Strings Infra_SHA256
begin

text \<open>
  The credentials a device connects with, \<open>src/dev_sign/dev_sign_mqtt.c\<close>: client id, user name, host name
  and the password, an HMAC-SHA256 of the identity under the device secret, all built in fixed
  arrays. The build has neither TLS nor pre-authentication. Shown is what the arrays hold after
  \<open>IOT_Sign_MQTT\<close>, for every identity that fits, and that the longest identity does not.
\<close>

subsection \<open>Configuration and data\<close>

definition IOTX_PRODUCT_KEY_LEN :: nat where "IOTX_PRODUCT_KEY_LEN = 20"
definition IOTX_DEVICE_NAME_LEN :: nat where "IOTX_DEVICE_NAME_LEN = 32"
definition IOTX_DEVICE_SECRET_LEN :: nat where "IOTX_DEVICE_SECRET_LEN = 64"
definition DEV_SIGN_SOURCE_MAXLEN :: nat where "DEV_SIGN_SOURCE_MAXLEN = 200"
definition DEV_SIGN_HOSTNAME_MAXLEN :: nat where "DEV_SIGN_HOSTNAME_MAXLEN = 256"
definition DEV_SIGN_CLIENT_ID_MAXLEN :: nat where "DEV_SIGN_CLIENT_ID_MAXLEN = 200"
definition DEV_SIGN_USERNAME_MAXLEN :: nat where "DEV_SIGN_USERNAME_MAXLEN = 64"
definition DEV_SIGN_PASSWORD_MAXLEN :: nat where "DEV_SIGN_PASSWORD_MAXLEN = 65"
definition IOTX_MQTT_DOMAIN_NUMBER :: u32 where "IOTX_MQTT_DOMAIN_NUMBER = 6"
definition IOTX_CLOUD_REGION_CUSTOM :: u32 where "IOTX_CLOUD_REGION_CUSTOM = 5"

definition ERROR_DEV_SIGN_CUSTOM_DOMAIN_IS_NULL :: int where "ERROR_DEV_SIGN_CUSTOM_DOMAIN_IS_NULL = -1105"
definition ERROR_DEV_SIGN_SOURCE_TOO_SHORT :: int where "ERROR_DEV_SIGN_SOURCE_TOO_SHORT = -1104"
definition ERROR_DEV_SIGN_USERNAME_TOO_SHORT :: int where "ERROR_DEV_SIGN_USERNAME_TOO_SHORT = -1102"
definition ERROR_DEV_SIGN_CLIENT_ID_TOO_SHORT :: int where "ERROR_DEV_SIGN_CLIENT_ID_TOO_SHORT = -1101"
definition ERROR_DEV_SIGN_HOST_NAME_TOO_SHORT :: int where "ERROR_DEV_SIGN_HOST_NAME_TOO_SHORT = -1100"

lemmas sign_config_defs = IOTX_PRODUCT_KEY_LEN_def IOTX_DEVICE_NAME_LEN_def IOTX_DEVICE_SECRET_LEN_def DEV_SIGN_SOURCE_MAXLEN_def
  DEV_SIGN_HOSTNAME_MAXLEN_def DEV_SIGN_CLIENT_ID_MAXLEN_def DEV_SIGN_USERNAME_MAXLEN_def DEV_SIGN_PASSWORD_MAXLEN_def
  IOTX_MQTT_DOMAIN_NUMBER_def IOTX_CLOUD_REGION_CUSTOM_def

lemmas sign_error_defs = ERROR_DEV_SIGN_CUSTOM_DOMAIN_IS_NULL_def ERROR_DEV_SIGN_SOURCE_TOO_SHORT_def ERROR_DEV_SIGN_USERNAME_TOO_SHORT_def
  ERROR_DEV_SIGN_CLIENT_ID_TOO_SHORT_def ERROR_DEV_SIGN_HOST_NAME_TOO_SHORT_def

text \<open>The fields of the structures are arrays.\<close>

record iotx_dev_meta_info_t =
  product_key :: "byte list"
  product_secret :: "byte list"
  device_name :: "byte list"
  device_secret :: "byte list"

record iotx_sign_mqtt_t =
  sg_hostname :: "byte list"
  sg_port :: u16
  sg_clientid :: "byte list"
  sg_username :: "byte list"
  sg_password :: "byte list"

definition zero_sign :: iotx_sign_mqtt_t where
  "zero_sign = \<lparr>sg_hostname = replicate DEV_SIGN_HOSTNAME_MAXLEN 0, sg_port = 0, sg_clientid = replicate DEV_SIGN_CLIENT_ID_MAXLEN 0,
     sg_username = replicate DEV_SIGN_USERNAME_MAXLEN 0, sg_password = replicate DEV_SIGN_PASSWORD_MAXLEN 0\<rparr>"

definition TIMESTAMP_VALUE :: cstr where "TIMESTAMP_VALUE = ascii ''2524608000000''"
definition MODE_TCP_DIRECT_PLAIN :: cstr where "MODE_TCP_DIRECT_PLAIN = ascii ''3''"
definition MODE_ITLS_DNS_ID2 :: cstr where "MODE_ITLS_DNS_ID2 = ascii ''8''"
definition IOTX_SDK_VERSION :: cstr where "IOTX_SDK_VERSION = ascii ''3.0.1''"

text \<open>\<open>clientid_kv\<close>, whose entry for \<open>securemode\<close> every call sets before it reads the table.\<close>

definition clientid_kv :: "cstr \<Rightarrow> (cstr \<times> cstr) list" where
  "clientid_kv mode =
     [(ascii ''timestamp'', TIMESTAMP_VALUE), (ascii ''_v'', ascii ''sdk-c-'' @ IOTX_SDK_VERSION), (ascii ''securemode'', mode),
      (ascii ''signmethod'', ascii ''hmacsha256''), (ascii ''lan'', ascii ''C''), (ascii ''gw'', ascii ''0''), (ascii ''ext'', ascii ''0'')]"

subsection \<open>Operations\<close>

definition hex2str :: "byte list \<Rightarrow> u16 \<Rightarrow> byte list \<Rightarrow> byte list option" where
  "hex2str input input_len output = hexbuf_loop zEncode_upper input 0 (unat input_len) output"

text \<open>The array and the device id are never \<open>NULL\<close> in a call.\<close>

fun clientid_loop :: "(cstr \<times> cstr) list \<Rightarrow> byte list \<Rightarrow> (int \<times> byte list) option" where
  "clientid_loop [] clientid_string = Some (SUCCESS_RETURN, clientid_string)"
| "clientid_loop ((k, v) # kvs) clientid_string = do {
     n \<leftarrow> strlen clientid_string;
     if n + length k + length v + 2 \<ge> DEV_SIGN_CLIENT_ID_MAXLEN then Some (FAIL_RETURN, clientid_string)
     else do {
       clientid_string \<leftarrow> append_str clientid_string k;
       clientid_string \<leftarrow> append_str clientid_string (ascii ''='');
       clientid_string \<leftarrow> append_str clientid_string v;
       clientid_string \<leftarrow> append_str clientid_string (ascii '','');
       clientid_loop kvs clientid_string
     }
   }"

definition sign_get_clientid :: "byte list \<Rightarrow> byte list \<Rightarrow> cstr option \<Rightarrow> u8 \<Rightarrow> (int \<times> byte list) option" where
  "sign_get_clientid clientid_string device_id custom_kv enable_itls = do {
     clientid_string \<leftarrow> memset0 clientid_string DEV_SIGN_CLIENT_ID_MAXLEN;
     did \<leftarrow> str_of device_id;
     clientid_string \<leftarrow> store_bytes clientid_string 0 did;
     clientid_string \<leftarrow> append_str clientid_string (ascii ''|'');
     let mode = (if enable_itls > 0 then MODE_ITLS_DNS_ID2 else MODE_TCP_DIRECT_PLAIN);
     (rc, clientid_string) \<leftarrow> clientid_loop (clientid_kv mode) clientid_string;
     if rc \<noteq> SUCCESS_RETURN then Some (FAIL_RETURN, clientid_string)
     else do {
       n \<leftarrow> strlen clientid_string;
       let fits = (case custom_kv of Some kv \<Rightarrow> n + length kv + 1 < DEV_SIGN_CLIENT_ID_MAXLEN | None \<Rightarrow> True);
       if \<not> fits then Some (FAIL_RETURN, clientid_string)
       else do {
         clientid_string \<leftarrow> (case custom_kv of
             Some kv \<Rightarrow> do { clientid_string \<leftarrow> append_str clientid_string kv; append_str clientid_string (ascii '','') }
           | None \<Rightarrow> Some clientid_string);
         n \<leftarrow> strlen clientid_string;
         clientid_string \<leftarrow> (if n = 0 then None else store_bytes clientid_string (n - 1) (ascii ''|''));
         Some (SUCCESS_RETURN, clientid_string)
       }
     }
   }"

definition iotx_generate_sign_string ::
  "byte list \<Rightarrow> byte list \<Rightarrow> byte list \<Rightarrow> byte list \<Rightarrow> byte list \<Rightarrow> (int \<times> byte list) option" where
  "iotx_generate_sign_string device_id name key secret sign_string = do {
     did \<leftarrow> str_of device_id;
     dn \<leftarrow> str_of name;
     pk \<leftarrow> str_of key;
     let signsource_len = u16_len (length ''clientId%sdeviceName%sproductKey%stimestamp%s'' + 1 + length did + length dn + length pk +
           length TIMESTAMP_VALUE);
     if signsource_len \<ge> DEV_SIGN_SOURCE_MAXLEN then Some (ERROR_DEV_SIGN_SOURCE_TOO_SHORT, sign_string)
     else do {
       signsource \<leftarrow> store_bytes (replicate DEV_SIGN_SOURCE_MAXLEN 0) 0 (ascii ''clientId'');
       signsource \<leftarrow> append_str signsource did;
       signsource \<leftarrow> append_str signsource (ascii ''deviceName'');
       signsource \<leftarrow> append_str signsource dn;
       signsource \<leftarrow> append_str signsource (ascii ''productKey'');
       signsource \<leftarrow> append_str signsource pk;
       signsource \<leftarrow> append_str signsource (ascii ''timestamp'');
       signsource \<leftarrow> append_str signsource TIMESTAMP_VALUE;
       n \<leftarrow> strlen signsource;
       k \<leftarrow> strlen secret;
       sign_hex \<leftarrow> utils_hmac_sha256 (Some signsource) (of_nat n) (Some secret) (of_nat k) (replicate 32 0);
       sign_string \<leftarrow> hex2str sign_hex 32 sign_string;
       Some (SUCCESS_RETURN, sign_string)
     }
   }"

text \<open>\<open><product key>.<device name>\<close> in an array of \<open>IOTX_PRODUCT_KEY_LEN + IOTX_DEVICE_NAME_LEN + 1\<close> bytes.\<close>

definition make_device_id :: "iotx_dev_meta_info_t \<Rightarrow> byte list option" where
  "make_device_id meta = do {
     pk \<leftarrow> str_of (product_key meta);
     device_id \<leftarrow> store_bytes (replicate (IOTX_PRODUCT_KEY_LEN + IOTX_DEVICE_NAME_LEN + 1) 0) 0 pk;
     device_id \<leftarrow> append_str device_id (ascii ''.'');
     dn \<leftarrow> str_of (device_name meta);
     append_str device_id dn
   }"

text \<open>The host name of a region; \<open>domains\<close> is \<open>g_infra_mqtt_domain\<close>, whose last entry the user sets.\<close>

definition sign_hostname :: "cstr option list \<Rightarrow> u32 \<Rightarrow> cstr \<Rightarrow> byte list \<Rightarrow> (int \<times> byte list) option" where
  "sign_hostname domains region pk hostname =
     (if unat region \<ge> length domains then None
      else if region = IOTX_CLOUD_REGION_CUSTOM then
        (case domains ! unat region of
           None \<Rightarrow> Some (ERROR_DEV_SIGN_CUSTOM_DOMAIN_IS_NULL, hostname)
         | Some domain \<Rightarrow>
             if u16_len (length domain + 1) \<ge> DEV_SIGN_HOSTNAME_MAXLEN then Some (ERROR_DEV_SIGN_HOST_NAME_TOO_SHORT, hostname)
             else do {
               hostname \<leftarrow> memset0 hostname DEV_SIGN_HOSTNAME_MAXLEN;
               hostname \<leftarrow> store_bytes hostname 0 domain;
               Some (SUCCESS_RETURN, hostname)
             })
      else do {
        domain \<leftarrow> domains ! unat region;
        if u16_len (length pk + length domain + 2) \<ge> DEV_SIGN_HOSTNAME_MAXLEN then Some (ERROR_DEV_SIGN_HOST_NAME_TOO_SHORT, hostname)
        else do {
          hostname \<leftarrow> memset0 hostname DEV_SIGN_HOSTNAME_MAXLEN;
          hostname \<leftarrow> store_bytes hostname 0 pk;
          hostname \<leftarrow> append_str hostname (ascii ''.'');
          hostname \<leftarrow> append_str hostname domain;
          Some (SUCCESS_RETURN, hostname)
        }
      })"

definition IOT_Sign_MQTT ::
  "cstr option list \<Rightarrow> u32 \<Rightarrow> iotx_dev_meta_info_t option \<Rightarrow> iotx_sign_mqtt_t \<Rightarrow> (int \<times> iotx_sign_mqtt_t) option" where
  "IOT_Sign_MQTT domains region meta signout =
     (case meta of
        None \<Rightarrow> Some (-1, signout)
      | Some meta \<Rightarrow>
          if region \<ge> IOTX_MQTT_DOMAIN_NUMBER then Some (-1, signout)
          else do {
            let signout = zero_sign;
            device_id \<leftarrow> make_device_id meta;
            (rc, clientid) \<leftarrow> sign_get_clientid (sg_clientid signout) device_id None 0;
            let signout = signout\<lparr>sg_clientid := clientid\<rparr>;
            if rc \<noteq> SUCCESS_RETURN then Some (ERROR_DEV_SIGN_CLIENT_ID_TOO_SHORT, signout)
            else do {
              (res, password) \<leftarrow> iotx_generate_sign_string device_id (device_name meta) (product_key meta) (device_secret meta) (sg_password signout);
              let signout = signout\<lparr>sg_password := password\<rparr>;
              if res < SUCCESS_RETURN then Some (res, signout)
              else do {
                pk \<leftarrow> str_of (product_key meta);
                (res, hostname) \<leftarrow> sign_hostname domains region pk (sg_hostname signout);
                let signout = signout\<lparr>sg_hostname := hostname\<rparr>;
                if res \<noteq> SUCCESS_RETURN then Some (res, signout)
                else do {
                  dn \<leftarrow> str_of (device_name meta);
                  if u16_len (length dn + length pk + 2) \<ge> DEV_SIGN_USERNAME_MAXLEN then Some (ERROR_DEV_SIGN_USERNAME_TOO_SHORT, signout)
                  else do {
                    username \<leftarrow> memset0 (sg_username signout) DEV_SIGN_USERNAME_MAXLEN;
                    username \<leftarrow> store_bytes username 0 dn;
                    username \<leftarrow> append_str username (ascii ''&'');
                    username \<leftarrow> append_str username pk;
                    Some (SUCCESS_RETURN, signout\<lparr>sg_username := username, sg_port := 1883\<rparr>)
                  }
                }
              }
            }
          })"

subsection \<open>The client id\<close>

definition client_id_text :: "cstr \<Rightarrow> cstr \<Rightarrow> cstr option \<Rightarrow> cstr" where
  "client_id_text did mode custom =
     did @ ascii ''|timestamp=2524608000000,_v=sdk-c-3.0.1,securemode='' @ mode @ ascii '',signmethod=hmacsha256,lan=C,gw=0,ext=0'' @
     (case custom of None \<Rightarrow> [] | Some kv \<Rightarrow> ascii '','' @ kv) @ ascii ''|''"

definition kv_text :: "(cstr \<times> cstr) list \<Rightarrow> cstr" where
  "kv_text kvs = concat (map (\<lambda>(k, v). k @ ascii ''='' @ v @ ascii '','') kvs)"

definition kvs_ok :: "(cstr \<times> cstr) list \<Rightarrow> bool" where
  "kvs_ok kvs \<longleftrightarrow> list_all (\<lambda>(k, v). text_ok k \<and> text_ok v) kvs"

lemma text_ok_kv_text: "kvs_ok kvs \<Longrightarrow> text_ok (kv_text kvs)"
  by (induction kvs) (auto simp: kvs_ok_def kv_text_def text_ok_ascii)

text \<open>The table is appended when it fits, and otherwise the loop gives up.\<close>

lemma clientid_loop_text:
  assumes "kvs_ok kvs" "text_ok s" "length s < 200"
  shows "if length (s @ kv_text kvs) < 200 then clientid_loop kvs (holding 200 s) = Some (SUCCESS_RETURN, holding 200 (s @ kv_text kvs))
         else \<exists>a. clientid_loop kvs (holding 200 s) = Some (FAIL_RETURN, a)"
  using assms
proof (induction kvs arbitrary: s)
  case (Cons kv kvs)
  obtain k v where kv: "kv = (k, v)" by (cases kv)
  let ?s = "s @ k @ ascii ''='' @ v @ ascii '',''"
  have ok: "text_ok k" "text_ok v" "text_ok ?s" "kvs_ok kvs" using Cons.prems kv by (auto simp: kvs_ok_def text_ok_ascii)
  have whole: "s @ kv_text (kv # kvs) = ?s @ kv_text kvs" by (simp add: kv_text_def kv)
  have step: "clientid_loop (kv # kvs) (holding 200 s) =
      (if length ?s < 200 then clientid_loop kvs (holding 200 ?s) else Some (FAIL_RETURN, holding 200 s))"
    using Cons.prems ok by (simp add: kv holding_simps DEV_SIGN_CLIENT_ID_MAXLEN_def text_ok_ascii)
  show ?case
  proof (cases "length ?s < 200")
    case True
    then show ?thesis using Cons.IH [OF ok(4,3) True] step whole by (simp only: if_True)
  next
    case False
    then show ?thesis using step whole by auto
  qed
qed (simp add: kv_text_def)

lemma clientid_kv_text:
  "kv_text (clientid_kv mode) =
     ascii ''timestamp=2524608000000,_v=sdk-c-3.0.1,securemode='' @ mode @ ascii '',signmethod=hmacsha256,lan=C,gw=0,ext=0'' @ ascii '',''"
  by (simp add: kv_text_def clientid_kv_def ascii_def TIMESTAMP_VALUE_def IOTX_SDK_VERSION_def del: of_char_Char)

lemma clientid_kv_ok: "text_ok mode \<Longrightarrow> kvs_ok (clientid_kv mode)"
  by (simp add: kvs_ok_def clientid_kv_def text_ok_ascii TIMESTAMP_VALUE_def IOTX_SDK_VERSION_def)

lemma store_holding_last: "length t < n \<Longrightarrow> store_bytes (holding n (t @ [c])) (length t) [d] = Some (holding n (t @ [d]))"
  by (simp add: store_bytes_def blit_def holding_def)

lemma sign_get_clientid_text:
  assumes did: "text_ok did" "length did + 92 + (case custom of None \<Rightarrow> 0 | Some kv \<Rightarrow> length kv + 1) < 200" "length did < n"
    and kv: "\<forall>kv. custom = Some kv \<longrightarrow> text_ok kv" and a: "length a = 200"
  shows "sign_get_clientid a (holding n did) custom itls =
     Some (SUCCESS_RETURN, holding 200 (client_id_text did (if itls > 0 then MODE_ITLS_DNS_ID2 else MODE_TCP_DIRECT_PLAIN) custom))"
proof -
  define mode where "mode = (if itls > 0 then MODE_ITLS_DNS_ID2 else MODE_TCP_DIRECT_PLAIN)"
  have mode: "text_ok mode" "length mode = 1"
    by (simp_all add: mode_def MODE_ITLS_DNS_ID2_def MODE_TCP_DIRECT_PLAIN_def text_ok_ascii)
  let ?s = "did @ ascii ''|''"
  let ?t = "?s @ kv_text (clientid_kv mode)"
  have s: "text_ok ?s" "length ?s < 200" using did by (simp_all add: text_ok_ascii split: option.splits)
  have t: "text_ok ?t" "length ?t = length did + 92" "length ?t < 200"
    using s mode did by (simp_all add: clientid_kv_text text_ok_ascii split: option.splits)
  have loop: "clientid_loop (clientid_kv mode) (holding 200 ?s) = Some (SUCCESS_RETURN, holding 200 ?t)"
    using clientid_loop_text [OF clientid_kv_ok [OF mode(1)] s] t(3) by (simp only: if_True)
  define u where "u = did @ ascii ''|timestamp=2524608000000,_v=sdk-c-3.0.1,securemode='' @ mode @ ascii '',signmethod=hmacsha256,lan=C,gw=0,ext=0''"
  have tu: "?t = u @ ascii '',''"
    unfolding u_def clientid_kv_text by (simp add: ascii_def del: of_char_Char)
  have cid: "client_id_text did mode custom = u @ (case custom of None \<Rightarrow> [] | Some kv \<Rightarrow> ascii '','' @ kv) @ ascii ''|''"
    by (simp add: client_id_text_def u_def)
  have "sign_get_clientid a (holding n did) custom itls = do {
      b \<leftarrow> (case custom of Some kv \<Rightarrow> do { b \<leftarrow> append_str (holding 200 ?t) kv; append_str b (ascii '','') } | None \<Rightarrow> Some (holding 200 ?t));
      k \<leftarrow> strlen b;
      b \<leftarrow> (if k = 0 then None else store_bytes b (k - 1) (ascii ''|''));
      Some (SUCCESS_RETURN, b) }"
    using did a s t loop unfolding sign_get_clientid_def mode_def [symmetric]
    by (cases custom) (simp_all add: holding_simps DEV_SIGN_CLIENT_ID_MAXLEN_def)
  also have "\<dots> = Some (SUCCESS_RETURN, holding 200 (client_id_text did mode custom))"
  proof (cases custom)
    case None
    have "strlen (holding 200 (u @ ascii '','')) = Some (length u + 1)" using t unfolding tu by (simp add: strlen_holding)
    moreover have "store_bytes (holding 200 (u @ ascii '','')) (length u) (ascii ''|'') = Some (holding 200 (u @ ascii ''|''))"
      using store_holding_last [of u 200] t(3) unfolding tu by (simp add: ascii_def)
    ultimately show ?thesis using None unfolding cid tu by simp
  next
    case (Some kv)
    let ?v = "u @ ascii '','' @ kv"
    have v: "text_ok ?v" "length ?v < 199" using t did kv Some unfolding tu by (auto simp: text_ok_ascii)
    have "append_str (holding 200 ?t) kv = Some (holding 200 ?v)" "append_str (holding 200 ?v) (ascii '','') = Some (holding 200 (?v @ ascii '',''))"
      using t v unfolding tu by (simp_all add: append_holding)
    moreover have "strlen (holding 200 (?v @ ascii '','')) = Some (length ?v + 1)" using v by (simp add: strlen_holding text_ok_ascii)
    moreover have "store_bytes (holding 200 (?v @ ascii '','')) (length ?v) (ascii ''|'') = Some (holding 200 (?v @ ascii ''|''))"
      using store_holding_last [of ?v 200] v(2) by (simp add: ascii_def)
    ultimately show ?thesis using Some unfolding cid tu by simp
  qed
  finally show ?thesis by (simp add: mode_def)
qed

text \<open>An addition that does not fit.\<close>

lemma sign_get_clientid_long:
  assumes did: "text_ok did" "length did + 92 < 200" "200 \<le> length did + 92 + length kv + 1" "length did < n" and a: "length a = 200"
  shows "\<exists>b. sign_get_clientid a (holding n did) (Some kv) itls = Some (FAIL_RETURN, b)"
proof -
  define mode where "mode = (if itls > 0 then MODE_ITLS_DNS_ID2 else MODE_TCP_DIRECT_PLAIN)"
  have mode: "text_ok mode" "length mode = 1"
    by (simp_all add: mode_def MODE_ITLS_DNS_ID2_def MODE_TCP_DIRECT_PLAIN_def text_ok_ascii)
  let ?s = "did @ ascii ''|''"
  let ?t = "?s @ kv_text (clientid_kv mode)"
  have s: "text_ok ?s" "length ?s < 200" using did by (simp_all add: text_ok_ascii)
  have t: "text_ok ?t" "length ?t = length did + 92" "length ?t < 200"
    using s mode did by (simp_all add: clientid_kv_text text_ok_ascii)
  have "clientid_loop (clientid_kv mode) (holding 200 ?s) = Some (SUCCESS_RETURN, holding 200 ?t)"
    using clientid_loop_text [OF clientid_kv_ok [OF mode(1)] s] t(3) by (simp only: if_True)
  then show ?thesis
    using did a s t unfolding sign_get_clientid_def mode_def [symmetric]
    by (simp add: holding_simps DEV_SIGN_CLIENT_ID_MAXLEN_def)
qed

subsection \<open>The signature\<close>

text \<open>Upper case hexadecimal.\<close>

definition hex_upper :: "byte list \<Rightarrow> cstr" where
  "hex_upper bs = concat (map (hex_digits zEncode_upper) bs)"

definition sign_source :: "cstr \<Rightarrow> cstr \<Rightarrow> cstr \<Rightarrow> cstr" where
  "sign_source did dn pk = ascii ''clientId'' @ did @ ascii ''deviceName'' @ dn @ ascii ''productKey'' @ pk @ ascii ''timestamp2524608000000''"

lemma length_hex_upper [simp]: "length (hex_upper bs) = 2 * length bs"
  by (induction bs) (simp_all add: hex_upper_def hex_digits_def)

lemma hex2str_upper:
  assumes "length bs = 32" "64 \<le> n"
  shows "hex2str bs 32 (holding n []) = Some (holding n (hex_upper bs))"
proof -
  have "length zEncode_upper = 16" by (simp add: zEncode_upper_def)
  then have "hex2str bs 32 (holding n []) = Some (blit (holding n []) 0 (hex_upper bs))"
    using assms by (simp add: hex2str_def hexbuf_loop_eq hex_upper_def)
  then show ?thesis using assms store_holding_0 [of "hex_upper bs" n] by (simp add: store_bytes_def)
qed

lemma generate_sign_string:
  assumes "text_ok did" "text_ok dn" "text_ok pk" "text_ok ds"
    and "length did < n1" "length dn < n2" "length pk < n3" "length ds < n4" "length ds \<le> 64"
    and "length did + length dn + length pk < 141" "64 \<le> n"
  shows "iotx_generate_sign_string (holding n1 did) (holding n2 dn) (holding n3 pk) (holding n4 ds) (holding n []) =
     Some (SUCCESS_RETURN, holding n (hex_upper (hmac sha256 ds (sign_source did dn pk))))"
proof -
  let ?src = "sign_source did dn pk"
  have stamp: "text_ok TIMESTAMP_VALUE" "length TIMESTAMP_VALUE = 13" "ascii ''timestamp'' @ TIMESTAMP_VALUE = ascii ''timestamp2524608000000''"
    by (simp_all add: TIMESTAMP_VALUE_def text_ok_ascii ascii_def)
  have src: "?src = ascii ''clientId'' @ did @ ascii ''deviceName'' @ dn @ ascii ''productKey'' @ pk @ ascii ''timestamp'' @ TIMESTAMP_VALUE"
    "length ?src = length did + length dn + length pk + 50" "text_ok ?src"
    using assms stamp by (simp_all add: sign_source_def text_ok_ascii)
  have u16: "u16_len (length ''clientId%sdeviceName%sproductKey%stimestamp%s'' + 1 + length did + length dn + length pk + length TIMESTAMP_VALUE) =
      length did + length dn + length pk + 59"
    using assms(10) stamp(2) by simp
  have hm: "utils_hmac_sha256 (Some (holding 200 ?src)) (of_nat (length ?src)) (Some (holding n4 ds)) (of_nat (length ds)) (replicate 32 0) =
      Some (hmac sha256 ds ?src)"
  proof -
    have "unat (of_nat (length ?src) :: u32) = length ?src" "unat (of_nat (length ds) :: u32) = length ds"
      by (rule unat_of_nat_u32, use assms(9,10) src(2) in simp)+
    then show ?thesis
      using assms src(2) sha256_alg.hmac_correct [of "of_nat (length ?src)" "holding 200 ?src" "length ds" "holding n4 ds"]
      by (simp add: utils_hmac_sha256_def SHA256_KEY_IOPAD_SIZE_def) (simp add: holding_def)
  qed
  have len: "length (hmac sha256 ds ?src) = 32"
    using sha256_alg.length_H by (simp add: hmac_def SHA256_DIGEST_SIZE_def)
  have chain: "do {
      a \<leftarrow> store_bytes (replicate 200 0) 0 (ascii ''clientId'');
      a \<leftarrow> append_str a did; a \<leftarrow> append_str a (ascii ''deviceName''); a \<leftarrow> append_str a dn; a \<leftarrow> append_str a (ascii ''productKey'');
      a \<leftarrow> append_str a pk; a \<leftarrow> append_str a (ascii ''timestamp''); a \<leftarrow> append_str a TIMESTAMP_VALUE; f a } = f (holding 200 ?src)"
    for f :: "byte list \<Rightarrow> (int \<times> byte list) option"
    using assms stamp src(1) by (simp add: holding_simps holding_Nil [symmetric] text_ok_ascii)
  have lens: "strlen (holding 200 ?src) = Some (length ?src)" "strlen (holding n4 ds) = Some (length ds)"
    "\<not> length did + length dn + length pk + 59 \<ge> 200" "hex2str (hmac sha256 ds ?src) 32 (holding n []) = Some (holding n (hex_upper (hmac sha256 ds ?src)))"
    using assms src len by (simp_all add: strlen_holding hex2str_upper)
  have "str_of (holding n1 did) = Some did" "str_of (holding n2 dn) = Some dn" "str_of (holding n3 pk) = Some pk" using assms by simp_all
  then show ?thesis
    unfolding iotx_generate_sign_string_def DEV_SIGN_SOURCE_MAXLEN_def Let_def by (simp only: bind.bind_lunit u16 chain lens hm if_False)
qed

subsection \<open>Signing\<close>

text \<open>Identities as the platform supplies them: texts within the lengths of the arrays, zeros behind them.\<close>

definition meta_of :: "cstr \<Rightarrow> cstr \<Rightarrow> cstr \<Rightarrow> iotx_dev_meta_info_t" where
  "meta_of pk dn ds = \<lparr>product_key = holding 21 pk, product_secret = holding 65 [], device_name = holding 33 dn, device_secret = holding 65 ds\<rparr>"

definition identity_ok :: "cstr \<Rightarrow> cstr \<Rightarrow> cstr \<Rightarrow> bool" where
  "identity_ok pk dn ds \<longleftrightarrow> text_ok pk \<and> text_ok dn \<and> text_ok ds \<and>
     length pk \<le> IOTX_PRODUCT_KEY_LEN \<and> length dn \<le> IOTX_DEVICE_NAME_LEN \<and> length ds \<le> IOTX_DEVICE_SECRET_LEN"

lemma make_device_id_text:
  assumes "identity_ok pk dn ds"
  shows "make_device_id (meta_of pk dn ds) = Some (holding 53 (pk @ ascii ''.'' @ dn))"
  using assms by (simp add: make_device_id_def meta_of_def identity_ok_def sign_config_defs holding_Nil [symmetric] holding_simps text_ok_ascii)

lemma sign_hostname_text:
  assumes "region < 6" "length domains = 6" "domains ! unat region = Some domain" "length domain \<le> 200" "text_ok pk" "length pk \<le> 20"
  shows "sign_hostname domains region pk (holding 256 []) =
     Some (SUCCESS_RETURN, holding 256 (if region = 5 then domain else pk @ ascii ''.'' @ domain))"
  using assms unfolding sign_hostname_def
  by (auto simp: sign_config_defs holding_simps text_ok_ascii word_less_nat_alt)

definition signed_as :: "u32 \<Rightarrow> cstr \<Rightarrow> cstr \<Rightarrow> cstr \<Rightarrow> cstr \<Rightarrow> iotx_sign_mqtt_t" where
  "signed_as region domain pk dn ds =
     \<lparr>sg_hostname = holding 256 (if region = 5 then domain else pk @ ascii ''.'' @ domain),
      sg_port = 1883,
      sg_clientid = holding 200 (client_id_text (pk @ ascii ''.'' @ dn) (ascii ''3'') None),
      sg_username = holding 64 (dn @ ascii ''&'' @ pk),
      sg_password = holding 65 (hex_upper (hmac sha256 ds (sign_source (pk @ ascii ''.'' @ dn) dn pk)))\<rparr>"

lemma sign_parts:
  assumes "identity_ok pk dn ds" "length pk + length dn < 52"
  shows "sign_get_clientid (holding 200 []) (holding 53 (pk @ ascii ''.'' @ dn)) None 0 =
      Some (SUCCESS_RETURN, holding 200 (client_id_text (pk @ ascii ''.'' @ dn) (ascii ''3'') None))"
    and "iotx_generate_sign_string (holding 53 (pk @ ascii ''.'' @ dn)) (holding 33 dn) (holding 21 pk) (holding 65 ds) (holding 65 []) =
      Some (SUCCESS_RETURN, holding 65 (hex_upper (hmac sha256 ds (sign_source (pk @ ascii ''.'' @ dn) dn pk))))"
    and "str_of (holding 21 pk) = Some pk" "str_of (holding 33 dn) = Some dn"
proof -
  let ?did = "pk @ ascii ''.'' @ dn"
  have ok: "text_ok pk" "text_ok dn" "text_ok ds" "text_ok ?did" "length pk \<le> 20" "length dn \<le> 32" "length ds \<le> 64" "length ?did < 53"
    using assms by (simp_all add: identity_ok_def sign_config_defs text_ok_ascii)
  show "sign_get_clientid (holding 200 []) (holding 53 ?did) None 0 = Some (SUCCESS_RETURN, holding 200 (client_id_text ?did (ascii ''3'') None))"
    using sign_get_clientid_text [of ?did None 53 "holding 200 []" 0] ok by (simp add: MODE_TCP_DIRECT_PLAIN_def)
  show "iotx_generate_sign_string (holding 53 ?did) (holding 33 dn) (holding 21 pk) (holding 65 ds) (holding 65 []) =
      Some (SUCCESS_RETURN, holding 65 (hex_upper (hmac sha256 ds (sign_source ?did dn pk))))"
    by (rule generate_sign_string) (use ok in simp_all)
  show "str_of (holding 21 pk) = Some pk" "str_of (holding 33 dn) = Some dn" using ok by simp_all
qed

lemma Sign_MQTT_signed:
  assumes ident: "identity_ok pk dn ds" "length pk + length dn < 52"
    and region: "region < 6" "length domains = 6" "domains ! unat region = Some domain" "length domain \<le> 200"
  shows "IOT_Sign_MQTT domains region (Some (meta_of pk dn ds)) signout = Some (SUCCESS_RETURN, signed_as region domain pk dn ds)"
proof -
  have ok: "text_ok pk" "text_ok dn" "length pk \<le> 20" "length dn \<le> 32"
    using ident by (simp_all add: identity_ok_def sign_config_defs)
  have user: "store_bytes (holding 64 []) 0 dn = Some (holding 64 dn)" "append_str (holding 64 dn) (ascii ''&'') = Some (holding 64 (dn @ ascii ''&''))"
    "append_str (holding 64 (dn @ ascii ''&'')) pk = Some (holding 64 (dn @ ascii ''&'' @ pk))" "memset0 (holding 64 []) 64 = Some (holding 64 [])"
    using ok by (simp_all add: holding_simps text_ok_ascii)
  have "\<not> 6 \<le> region" using region(1) by (simp add: not_le)
  then show ?thesis
    using region ok user sign_hostname_text [OF region ok(1,3)] make_device_id_text [OF ident(1)] sign_parts [OF ident]
    by (simp add: IOT_Sign_MQTT_def zero_sign_def sign_config_defs holding_Nil meta_of_def signed_as_def)
qed

text \<open>The longest identity leaves no room for the terminator of the device id, which \<open>strlen\<close> then misses.\<close>

lemma Sign_MQTT_overread:
  assumes "identity_ok pk dn ds" "length pk + length dn = 52" "region < 6"
  shows "IOT_Sign_MQTT domains region (Some (meta_of pk dn ds)) signout = None"
proof -
  have "text_ok (pk @ ascii ''.'' @ dn)" "length (pk @ ascii ''.'' @ dn) = 53" using assms by (simp_all add: identity_ok_def text_ok_ascii)
  then have "str_of (holding 53 (pk @ ascii ''.'' @ dn)) = None" by simp
  moreover have "\<not> 6 \<le> region" using assms(3) by (simp add: not_le)
  ultimately show ?thesis
    using make_device_id_text [OF assms(1)]
    by (simp add: IOT_Sign_MQTT_def sign_get_clientid_def zero_sign_def sign_config_defs memset0_def store_bytes_def)
qed

subsection \<open>Properties\<close>

text \<open>
  C20: \<open>IOT_Sign_MQTT\<close> succeeds for every identity within the documented lengths but the longest ones: the client id
  has the fixed parameters, the user name is device name and product key, and the password is the
  HMAC-SHA256, in upper case hexadecimal, of client id, device name, product key and time stamp under
  the device secret. When product key and device name together have their full 52 characters, the
  array for the device id has no room for its terminator and the function reads behind it.
\<close>

theorem dev_sign_correct:
  assumes "identity_ok pk dn ds" "region < 6" "length domains = 6" "domains ! unat region = Some domain" "length domain \<le> 200"
  shows "IOT_Sign_MQTT domains region (Some (meta_of pk dn ds)) signout =
     (if length pk + length dn < 52 then Some (SUCCESS_RETURN, signed_as region domain pk dn ds) else None)"
proof (cases "length pk + length dn < 52")
  case True
  then show ?thesis using Sign_MQTT_signed [OF assms(1) True assms(2-5)] by simp
next
  case False
  then have "length pk + length dn = 52" using assms(1) by (simp add: identity_ok_def sign_config_defs)
  then show ?thesis using Sign_MQTT_overread [OF assms(1) _ assms(2)] False by simp
qed

theorem dev_sign_correct_witness:
  "IOT_Sign_MQTT (replicate 6 (Some (ascii ''iot.example''))) 0 (Some (meta_of (ascii ''a1X'') (ascii ''lamp'') (ascii ''s3cret''))) zero_sign =
     Some (SUCCESS_RETURN, signed_as 0 (ascii ''iot.example'') (ascii ''a1X'') (ascii ''lamp'') (ascii ''s3cret''))"
  using dev_sign_correct [of "ascii ''a1X''" "ascii ''lamp''" "ascii ''s3cret''" 0 "replicate 6 (Some (ascii ''iot.example''))" "ascii ''iot.example''"]
  by (simp add: identity_ok_def sign_config_defs text_ok_ascii)

end
