(* ===== verification/Infra_Compat.thy ===== *)
theory Infra_Compat
  imports Dev_Sign
begin

text \<open>
  The options of the SDK, \<open>src/infra/infra_compat.c\<close> and the domain tables of \<open>infra_defs.c\<close>, and the callbacks
  of the application, in a build without the device model. \<open>IOT_Ioctl\<close> gets a pointer whose target depends
  on the option: an integer or a string. A target of the other kind is undefined behaviour.
\<close>

subsection \<open>Options\<close>

datatype ioctl_data = IoInt u32 | IoStr cstr

record sdk_impl_ctx_t =
  domain_type :: u32
  dynamic_register :: u32
  cloud_custom_domain :: "byte list"
  http_custom_domain :: "byte list"
  mqtt_customzie_info :: "byte list"
  g_infra_mqtt_domain :: "cstr option list"
  g_infra_http_domain :: "cstr option list"

definition IOTX_DOMAIN_MAX_LEN :: nat where "IOTX_DOMAIN_MAX_LEN = 64"
definition IOTX_CUSTOMIZE_INFO_LEN :: nat where "IOTX_CUSTOMIZE_INFO_LEN = 80"

definition IOTX_IOCTL_SET_REGION :: int where "IOTX_IOCTL_SET_REGION = 0"
definition IOTX_IOCTL_GET_REGION :: int where "IOTX_IOCTL_GET_REGION = 1"
definition IOTX_IOCTL_SET_MQTT_DOMAIN :: int where "IOTX_IOCTL_SET_MQTT_DOMAIN = 2"
definition IOTX_IOCTL_SET_HTTP_DOMAIN :: int where "IOTX_IOCTL_SET_HTTP_DOMAIN = 3"
definition IOTX_IOCTL_SET_DYNAMIC_REGISTER :: int where "IOTX_IOCTL_SET_DYNAMIC_REGISTER = 4"
definition IOTX_IOCTL_GET_DYNAMIC_REGISTER :: int where "IOTX_IOCTL_GET_DYNAMIC_REGISTER = 5"
definition IOTX_IOCTL_RECV_PROP_REPLY :: int where "IOTX_IOCTL_RECV_PROP_REPLY = 6"
definition IOTX_IOCTL_RECV_EVENT_REPLY :: int where "IOTX_IOCTL_RECV_EVENT_REPLY = 7"
definition IOTX_IOCTL_SEND_PROP_SET_REPLY :: int where "IOTX_IOCTL_SEND_PROP_SET_REPLY = 8"
definition IOTX_IOCTL_GET_SUBDEV_LOGIN :: int where "IOTX_IOCTL_GET_SUBDEV_LOGIN = 10"
definition IOTX_IOCTL_SET_CUSTOMIZE_INFO :: int where "IOTX_IOCTL_SET_CUSTOMIZE_INFO = 13"

lemmas ioctl_defs = IOTX_IOCTL_SET_REGION_def IOTX_IOCTL_GET_REGION_def IOTX_IOCTL_SET_MQTT_DOMAIN_def IOTX_IOCTL_SET_HTTP_DOMAIN_def
  IOTX_IOCTL_SET_DYNAMIC_REGISTER_def IOTX_IOCTL_GET_DYNAMIC_REGISTER_def IOTX_IOCTL_RECV_PROP_REPLY_def IOTX_IOCTL_RECV_EVENT_REPLY_def
  IOTX_IOCTL_SEND_PROP_SET_REPLY_def IOTX_IOCTL_GET_SUBDEV_LOGIN_def IOTX_IOCTL_SET_CUSTOMIZE_INFO_def

definition infra_mqtt_domains :: "cstr option list" where
  "infra_mqtt_domains =
     [Some (ascii ''iot-as-mqtt.cn-shanghai.aliyuncs.com''), Some (ascii ''iot-as-mqtt.ap-southeast-1.aliyuncs.com''),
      Some (ascii ''iot-as-mqtt.ap-northeast-1.aliyuncs.com''), Some (ascii ''iot-as-mqtt.us-west-1.aliyuncs.com''),
      Some (ascii ''iot-as-mqtt.eu-central-1.aliyuncs.com''), None]"

definition infra_http_domains :: "cstr option list" where
  "infra_http_domains =
     [Some (ascii ''iot-auth.cn-shanghai.aliyuncs.com''), Some (ascii ''iot-auth.ap-southeast-1.aliyuncs.com''),
      Some (ascii ''iot-auth.ap-northeast-1.aliyuncs.com''), Some (ascii ''iot-auth.us-west-1.aliyuncs.com''),
      Some (ascii ''iot-auth.eu-central-1.aliyuncs.com''), None]"

definition g_sdk_impl_ctx :: sdk_impl_ctx_t where
  "g_sdk_impl_ctx = \<lparr>domain_type = 0, dynamic_register = 0, cloud_custom_domain = replicate (IOTX_DOMAIN_MAX_LEN + 1) 0,
     http_custom_domain = replicate (IOTX_DOMAIN_MAX_LEN + 1) 0, mqtt_customzie_info = replicate (IOTX_CUSTOMIZE_INFO_LEN + 1) 0,
     g_infra_mqtt_domain = infra_mqtt_domains, g_infra_http_domain = infra_http_domains\<rparr>"

text \<open>\<open>memset(a, 0, strlen(s) + 1); memcpy(a, s, strlen(s))\<close>\<close>

definition set_text :: "byte list \<Rightarrow> cstr \<Rightarrow> byte list option" where
  "set_text a s = do { a \<leftarrow> memset0 a (length s + 1); store_bytes a 0 s }"

text \<open>The custom entry of a domain table points to the array of the context.\<close>

definition IOT_Ioctl :: "int \<Rightarrow> ioctl_data option \<Rightarrow> sdk_impl_ctx_t \<Rightarrow> (int \<times> ioctl_data option \<times> sdk_impl_ctx_t) option" where
  "IOT_Ioctl option data ctx =
     (case data of
        None \<Rightarrow> Some (FAIL_RETURN, data, ctx)
      | Some d \<Rightarrow>
          if option < 0 then Some (FAIL_RETURN, data, ctx)
          else if option = IOTX_IOCTL_SET_REGION then
            (case d of IoInt n \<Rightarrow> Some (SUCCESS_RETURN, data, ctx\<lparr>domain_type := n\<rparr>) | _ \<Rightarrow> None)
          else if option = IOTX_IOCTL_GET_REGION then
            (case d of IoInt _ \<Rightarrow> Some (SUCCESS_RETURN, Some (IoInt (domain_type ctx)), ctx) | _ \<Rightarrow> None)
          else if option = IOTX_IOCTL_SET_MQTT_DOMAIN then
            (case d of
               IoStr s \<Rightarrow> do {
                 let ctx = ctx\<lparr>domain_type := IOTX_CLOUD_REGION_CUSTOM\<rparr>;
                 if length s > IOTX_DOMAIN_MAX_LEN then Some (FAIL_RETURN, data, ctx)
                 else do {
                   a \<leftarrow> set_text (cloud_custom_domain ctx) s;
                   t \<leftarrow> str_of a;
                   Some (SUCCESS_RETURN, data, ctx\<lparr>cloud_custom_domain := a, g_infra_mqtt_domain := (g_infra_mqtt_domain ctx)[5 := Some t]\<rparr>)
                 }
               }
             | _ \<Rightarrow> None)
          else if option = IOTX_IOCTL_SET_HTTP_DOMAIN then
            (case d of
               IoStr s \<Rightarrow> do {
                 let ctx = ctx\<lparr>domain_type := IOTX_CLOUD_REGION_CUSTOM\<rparr>;
                 if length s > IOTX_DOMAIN_MAX_LEN then Some (FAIL_RETURN, data, ctx)
                 else do {
                   a \<leftarrow> set_text (http_custom_domain ctx) s;
                   t \<leftarrow> str_of a;
                   Some (SUCCESS_RETURN, data, ctx\<lparr>http_custom_domain := a, g_infra_http_domain := (g_infra_http_domain ctx)[5 := Some t]\<rparr>)
                 }
               }
             | _ \<Rightarrow> None)
          else if option = IOTX_IOCTL_SET_DYNAMIC_REGISTER then
            (case d of IoInt n \<Rightarrow> Some (SUCCESS_RETURN, data, ctx\<lparr>dynamic_register := n\<rparr>) | _ \<Rightarrow> None)
          else if option = IOTX_IOCTL_GET_DYNAMIC_REGISTER then
            (case d of IoInt _ \<Rightarrow> Some (SUCCESS_RETURN, Some (IoInt (dynamic_register ctx)), ctx) | _ \<Rightarrow> None)
          else if option \<in> {IOTX_IOCTL_RECV_EVENT_REPLY, IOTX_IOCTL_RECV_PROP_REPLY, IOTX_IOCTL_SEND_PROP_SET_REPLY, IOTX_IOCTL_GET_SUBDEV_LOGIN} then
            Some (SUCCESS_RETURN, data, ctx)
          else if option = IOTX_IOCTL_SET_CUSTOMIZE_INFO then
            (case d of
               IoStr s \<Rightarrow>
                 if length s > IOTX_CUSTOMIZE_INFO_LEN then Some (FAIL_RETURN, data, ctx)
                 else do { a \<leftarrow> set_text (mqtt_customzie_info ctx) s; Some (SUCCESS_RETURN, data, ctx\<lparr>mqtt_customzie_info := a\<rparr>) }
             | _ \<Rightarrow> None)
          else Some (FAIL_RETURN, data, ctx))"

subsection \<open>Callbacks\<close>

text \<open>\<open>g_impl_event_map\<close>: one function pointer for each event, \<open>ITE_AWSS_STATUS\<close> to \<open>ITE_MQTT_CONNECT_SUCC\<close>.\<close>

type_synonym impl_event_map_t = "nat option list"

definition g_impl_event_map :: impl_event_map_t where
  "g_impl_event_map = replicate 17 None"

definition ITE_MQTT_CONNECT_SUCC :: int where "ITE_MQTT_CONNECT_SUCC = 16"

definition iotx_event_callback :: "int \<Rightarrow> impl_event_map_t \<Rightarrow> nat option" where
  "iotx_event_callback evt m = (if evt < 0 \<or> evt \<ge> int (length m) then None else m ! nat evt)"

definition iotx_register_for :: "int \<Rightarrow> nat option \<Rightarrow> impl_event_map_t \<Rightarrow> int \<times> impl_event_map_t" where
  "iotx_register_for evt callback m = (if evt < 0 \<or> evt \<ge> int (length m) then (-1, m) else (0, m[nat evt := callback]))"

subsection \<open>What the options keep\<close>

text \<open>The arrays keep their sizes and the tables their length and their entries; the region is one of the table.\<close>

definition sdk_inv :: "sdk_impl_ctx_t \<Rightarrow> bool" where
  "sdk_inv ctx \<longleftrightarrow> length (cloud_custom_domain ctx) = 65 \<and> length (http_custom_domain ctx) = 65 \<and> length (mqtt_customzie_info ctx) = 81 \<and>
     length (g_infra_mqtt_domain ctx) = 6 \<and> length (g_infra_http_domain ctx) = 6 \<and>
     (\<forall>i < 5. \<exists>d. g_infra_mqtt_domain ctx ! i = Some d \<and> text_ok d \<and> length d \<le> 64) \<and>
     (\<forall>d. g_infra_mqtt_domain ctx ! 5 = Some d \<longrightarrow> text_ok d \<and> length d \<le> 64)"

lemma set_text_fits:
  assumes "length s < length a" "text_ok s"
  shows "\<exists>b. set_text a s = Some b \<and> length b = length a \<and> str_of b = Some s"
proof -
  let ?b = "s @ [0] @ drop (length s + 1) a"
  have z: "replicate (length s + 1) (0 :: byte) = replicate (length s) 0 @ [0]" by (simp add: replicate_append_same)
  have "set_text a s = Some ?b"
    using assms(1) unfolding set_text_def memset0_def z by (simp add: store_bytes_def blit_def)
  moreover have "takeWhile (\<lambda>b. b \<noteq> 0) ?b = s" using takeWhile_text [OF assms(2), of 0] assms(2) by (induction s) auto
  moreover have "length ?b = length a" using assms(1) by simp
  ultimately show ?thesis using assms by (auto simp: str_of_def strlen_def load_bytes_def)
qed

lemma Ioctl_inv:
  assumes "sdk_inv ctx" "IOT_Ioctl option data ctx = Some (rc, data', ctx')" "\<And>s. data = Some (IoStr s) \<Longrightarrow> text_ok s"
  shows "sdk_inv ctx'"
proof (cases data)
  case (Some d)
  show ?thesis
  proof (cases d)
    case (IoInt n)
    then show ?thesis using assms Some by (auto simp: IOT_Ioctl_def sdk_inv_def ioctl_defs split: if_splits)
  next
    case (IoStr s)
    have ok: "text_ok s" using assms(3) Some IoStr by simp
    note fits = set_text_fits [OF _ ok] and sizes = IOTX_DOMAIN_MAX_LEN_def IOTX_CUSTOMIZE_INFO_LEN_def
    have len: "length (cloud_custom_domain ctx) = 65" "length (http_custom_domain ctx) = 65" "length (mqtt_customzie_info ctx) = 81"
      using assms(1) by (simp_all add: sdk_inv_def)
    show ?thesis
    proof (cases "length s \<le> 64")
      case True
      then obtain b1 b2 b3 where "set_text (cloud_custom_domain ctx) s = Some b1" "length b1 = 65" "str_of b1 = Some s"
        "set_text (http_custom_domain ctx) s = Some b2" "length b2 = 65" "str_of b2 = Some s" "set_text (mqtt_customzie_info ctx) s = Some b3" "length b3 = 81"
        using fits [of "cloud_custom_domain ctx"] fits [of "http_custom_domain ctx"] fits [of "mqtt_customzie_info ctx"] len by auto
      then show ?thesis
        using assms(1,2) Some IoStr ok True by (auto simp: IOT_Ioctl_def sdk_inv_def sizes ioctl_defs Let_def split: if_splits)
    next
      case False
      have "\<exists>b. set_text (mqtt_customzie_info ctx) s = Some b \<and> length b = 81" if "length s \<le> 80"
        using fits [of "mqtt_customzie_info ctx"] len that by auto
      then show ?thesis
        using assms(1,2) Some IoStr False
        by (cases "length s \<le> 80") (auto simp: IOT_Ioctl_def sdk_inv_def sizes ioctl_defs Let_def split: if_splits)
    qed
  qed
qed (use assms in \<open>simp add: IOT_Ioctl_def\<close>)

end
