(* ===== verification/MQTT_Packet.thy ===== *)
theory MQTT_Packet
  imports Iot_Prelude
begin

text \<open>
  The primitive encodings of MQTT packets: \<open>src/mqtt/impl/MQTTPacket.h\<close> and
  \<open>src/mqtt/impl/MQTTPacket.c\<close>. Fixed header byte, remaining length, two-byte integers and
  length-prefixed strings, each writer with the bytes it emits and each reader with the value
  it returns. The remaining-length codec is offered to the packet theories through the locale
  of self-delimiting length codes.
\<close>

unbundle bit_operations_syntax

subsection \<open>Constants and structures\<close>

definition MQTTPACKET_BUFFER_TOO_SHORT :: int where "MQTTPACKET_BUFFER_TOO_SHORT = -2"
definition MQTTPACKET_READ_ERROR :: int where "MQTTPACKET_READ_ERROR = -1"

text \<open>\<open>enum msgTypes\<close>, the control packet types, with their values.\<close>

datatype msgTypes = MQTT_CPT_RESERVED | CONNECT | CONNACK | PUBLISH | PUBACK | PUBREC | PUBREL
  | PUBCOMP | SUBSCRIBE | SUBACK | UNSUBSCRIBE | UNSUBACK | PINGREQ | PINGRESP | DISCONNECT

fun cpt :: "msgTypes \<Rightarrow> byte" where
  "cpt MQTT_CPT_RESERVED = 0"
| "cpt CONNECT = 1"
| "cpt CONNACK = 2"
| "cpt PUBLISH = 3"
| "cpt PUBACK = 4"
| "cpt PUBREC = 5"
| "cpt PUBREL = 6"
| "cpt PUBCOMP = 7"
| "cpt SUBSCRIBE = 8"
| "cpt SUBACK = 9"
| "cpt UNSUBSCRIBE = 10"
| "cpt UNSUBACK = 11"
| "cpt PINGREQ = 12"
| "cpt PINGRESP = 13"
| "cpt DISCONNECT = 14"

text \<open>The \<open>MQTT_HEADER_GET_*\<close> and \<open>MQTT_HEADER_SET_*\<close> macros on the fixed header byte.\<close>

definition MQTT_HEADER_GET_TYPE :: "byte \<Rightarrow> byte" where
  "MQTT_HEADER_GET_TYPE head = drop_bit 4 (head AND 0xF0)"
definition MQTT_HEADER_GET_DUP :: "byte \<Rightarrow> byte" where
  "MQTT_HEADER_GET_DUP head = drop_bit 3 (head AND 0x08)"
definition MQTT_HEADER_GET_QOS :: "byte \<Rightarrow> byte" where
  "MQTT_HEADER_GET_QOS head = drop_bit 1 (head AND 0x06)"
definition MQTT_HEADER_GET_RETAIN :: "byte \<Rightarrow> byte" where
  "MQTT_HEADER_GET_RETAIN head = head AND 0x01"

definition MQTT_HEADER_SET_TYPE :: "byte \<Rightarrow> byte \<Rightarrow> byte" where
  "MQTT_HEADER_SET_TYPE head type = head OR (push_bit 4 type AND 0xF0)"
definition MQTT_HEADER_SET_DUP :: "byte \<Rightarrow> byte \<Rightarrow> byte" where
  "MQTT_HEADER_SET_DUP head dup = head OR (push_bit 3 dup AND 0x08)"
definition MQTT_HEADER_SET_QOS :: "byte \<Rightarrow> byte \<Rightarrow> byte" where
  "MQTT_HEADER_SET_QOS head qos = head OR (push_bit 1 qos AND 0x06)"
definition MQTT_HEADER_SET_RETAIN :: "byte \<Rightarrow> byte \<Rightarrow> byte" where
  "MQTT_HEADER_SET_RETAIN head retain = head OR (retain AND 0x01)"

text \<open>
  \<open>MQTTString\<close>: a C string or a length-delimited one. A pointer is given by the bytes it
  points to, \<^term>\<open>None\<close> for \<open>NULL\<close>.
\<close>

record MQTTLenString =
  ls_len :: int
  ls_data :: "byte list option"

record MQTTString =
  cstring :: "cstr option"
  lenstring :: MQTTLenString

definition MQTTString_initializer :: MQTTString where
  "MQTTString_initializer = \<lparr>cstring = None, lenstring = \<lparr>ls_len = 0, ls_data = None\<rparr>\<rparr>"

subsection \<open>Remaining length\<close>

text \<open>
  \<open>MQTTPacket_encode\<close> writes the digits of \<open>length\<close> to the base 128, least significant
  first. \<open>base\<close> is the address \<open>buf\<close> of the C function, \<open>rc\<close> its counter.
\<close>

function MQTTPacket_encode_loop :: "nat \<Rightarrow> nat \<Rightarrow> byte list \<Rightarrow> int \<Rightarrow> (byte list \<times> nat) option" where
  "MQTTPacket_encode_loop base rc buf len =
     (let d = word_of_int (len smod 128);
          len' = len sdiv 128;
          d' = (if len' > 0 then d OR 0x80 else d)
      in do {
        buf' \<leftarrow> store buf (base + rc) d';
        if len' > 0 then MQTTPacket_encode_loop base (rc + 1) buf' len'
        else Some (buf', rc + 1)
      })"
  by pat_completeness auto
termination
proof (relation "measure (\<lambda>(base, rc, buf, len). nat len)", goal_cases)
  case (2 base rc buf len d len' d' buf')
  then have "0 < len sdiv 128" by simp
  then have "0 < len" "len sdiv 128 = len div 128"
    by (auto simp: signed_divide_int_def sgn_if split: if_splits)
  then show ?case using 2 by simp
qed simp

declare MQTTPacket_encode_loop.simps [simp del]

definition MQTTPacket_encode :: "byte list \<Rightarrow> nat \<Rightarrow> int \<Rightarrow> (byte list \<times> nat) option" where
  "MQTTPacket_encode buf base len = MQTTPacket_encode_loop base 0 buf len"

text \<open>\<open>ptr += MQTTPacket_encode(ptr, len)\<close>\<close>

definition writeRemLen :: "int \<Rightarrow> cursor \<Rightarrow> cursor option" where
  "writeRemLen len = (\<lambda>(buf, ptr). do {
     (buf', rc) \<leftarrow> MQTTPacket_encode buf ptr len;
     Some (buf', ptr + rc)
   })"

text \<open>
  \<open>MQTTPacket_decode\<close> reads through \<open>getcharfn\<close>, which returns its result code, the
  character and the state of the data source. The result is the number of bytes counted, the
  decoded value and the state of the source.
\<close>

definition MAX_NO_OF_REMAINING_LENGTH_BYTES :: nat where
  "MAX_NO_OF_REMAINING_LENGTH_BYTES = 4"

function MQTTPacket_decode_loop ::
  "('s \<Rightarrow> (int \<times> byte \<times> 's) option) \<Rightarrow> nat \<Rightarrow> int \<Rightarrow> int \<Rightarrow> 's \<Rightarrow> (nat \<times> int \<times> 's) option" where
  "MQTTPacket_decode_loop getcharfn len multiplier val s =
     (let len' = len + 1 in
      if len' > MAX_NO_OF_REMAINING_LENGTH_BYTES then Some (len', val, s)
      else do {
        (rc, c, s') \<leftarrow> getcharfn s;
        if rc \<noteq> 1 then Some (len', val, s')
        else let val' = val + uint (c AND 127) * multiplier in
          if c AND 128 \<noteq> 0
          then MQTTPacket_decode_loop getcharfn len' (multiplier * 128) val' s'
          else Some (len', val', s')
      })"
  by pat_completeness auto
termination
  by (relation "measure (\<lambda>(g, len, m, v, s). 5 - len)") (auto simp: MAX_NO_OF_REMAINING_LENGTH_BYTES_def)

declare MQTTPacket_decode_loop.simps [simp del]

definition MQTTPacket_decode ::
  "('s \<Rightarrow> (int \<times> byte \<times> 's) option) \<Rightarrow> 's \<Rightarrow> (nat \<times> int \<times> 's) option" where
  "MQTTPacket_decode getcharfn s = MQTTPacket_decode_loop getcharfn 0 1 0 s"

text \<open>\<open>bufchar\<close> on the static \<open>bufptr\<close> into \<open>buf\<close>, called with \<open>count = 1\<close>.\<close>

definition bufchar :: "byte list \<Rightarrow> nat \<Rightarrow> (int \<times> byte \<times> nat) option" where
  "bufchar buf bufptr = do { c \<leftarrow> load buf bufptr; Some (1, c, bufptr + 1) }"

definition MQTTPacket_decodeBuf :: "byte list \<Rightarrow> nat \<Rightarrow> (nat \<times> int) option" where
  "MQTTPacket_decodeBuf buf ptr = do {
     (len, val, bufptr) \<leftarrow> MQTTPacket_decode (bufchar buf) ptr;
     Some (len, val)
   }"

definition MQTTPacket_len :: "int \<Rightarrow> int" where
  "MQTTPacket_len rem_len =
     (let rem_len = rem_len + 1 in
      if rem_len < 128 then rem_len + 1
      else if rem_len < 16384 then rem_len + 2
      else if rem_len < 2097151 then rem_len + 3
      else rem_len + 4)"

subsection \<open>Integers, characters and strings\<close>

definition readInt :: "byte list \<Rightarrow> nat \<Rightarrow> (int \<times> nat) option" where
  "readInt buf ptr = do {
     hi \<leftarrow> load buf ptr;
     lo \<leftarrow> load buf (ptr + 1);
     Some (256 * uint hi + uint lo, ptr + 2)
   }"

definition readChar :: "byte list \<Rightarrow> nat \<Rightarrow> (byte \<times> nat) option" where
  "readChar buf ptr = do { c \<leftarrow> load buf ptr; Some (c, ptr + 1) }"

definition writeChar :: "byte \<Rightarrow> cursor \<Rightarrow> cursor option" where
  "writeChar c = (\<lambda>(buf, ptr). do { buf' \<leftarrow> store buf ptr c; Some (buf', ptr + 1) })"

definition writeInt :: "int \<Rightarrow> cursor \<Rightarrow> cursor option" where
  "writeInt anInt = (\<lambda>(buf, ptr). do {
     buf1 \<leftarrow> store buf ptr (word_of_int (anInt sdiv 256));
     buf2 \<leftarrow> store buf1 (ptr + 1) (word_of_int (anInt smod 256));
     Some (buf2, ptr + 2)
   })"

text \<open>\<open>memcpy(*pptr, src, len); *pptr += len\<close>; \<open>src\<close> must hold \<open>len\<close> bytes.\<close>

definition writeBytes :: "byte list \<Rightarrow> int \<Rightarrow> cursor \<Rightarrow> cursor option" where
  "writeBytes src len = (\<lambda>(buf, ptr).
     if 0 \<le> len \<and> nat len \<le> length src
     then do { buf' \<leftarrow> store_bytes buf ptr (take (nat len) src); Some (buf', ptr + nat len) }
     else None)"

definition writeCString :: "cstr \<Rightarrow> cursor \<Rightarrow> cursor option" where
  "writeCString string = (\<lambda>s. do {
     s1 \<leftarrow> writeInt (int (length string)) s;
     writeBytes string (int (length string)) s1
   })"

definition getLenStringLen :: "byte list \<Rightarrow> nat \<Rightarrow> int option" where
  "getLenStringLen buf ptr = do {
     hi \<leftarrow> load buf ptr;
     lo \<leftarrow> load buf (ptr + 1);
     Some (256 * uint hi + uint lo)
   }"

definition writeMQTTString :: "MQTTString \<Rightarrow> cursor \<Rightarrow> cursor option" where
  "writeMQTTString mqttstring = (\<lambda>s.
     if ls_len (lenstring mqttstring) > 0 then do {
       s1 \<leftarrow> writeInt (ls_len (lenstring mqttstring)) s;
       (case ls_data (lenstring mqttstring) of
          None \<Rightarrow> None
        | Some data \<Rightarrow> writeBytes data (ls_len (lenstring mqttstring)) s1)
     } else (case cstring mqttstring of
         Some str \<Rightarrow> writeCString str s
       | None \<Rightarrow> writeInt 0 s))"

text \<open>
  \<open>readMQTTLenString\<close> returns its result code, the string and the position behind it. The C
  function leaves \<open>lenstring.data\<close> alone when the declared length runs past \<open>enddata\<close>.
\<close>

definition readMQTTLenString ::
  "MQTTString \<Rightarrow> byte list \<Rightarrow> nat \<Rightarrow> int \<Rightarrow> (int \<times> MQTTString \<times> nat) option" where
  "readMQTTLenString mqttstring buf ptr enddata =
     (if enddata - int ptr > 1 then do {
        (len, ptr') \<leftarrow> readInt buf ptr;
        if int ptr' + len \<le> enddata then do {
          data \<leftarrow> load_bytes buf ptr' (nat len);
          Some (1, \<lparr>cstring = None, lenstring = \<lparr>ls_len = len, ls_data = Some data\<rparr>\<rparr>, ptr' + nat len)
        } else Some (0, \<lparr>cstring = None, lenstring = (lenstring mqttstring)\<lparr>ls_len := len\<rparr>\<rparr>, ptr')
      } else Some (0, mqttstring\<lparr>cstring := None\<rparr>, ptr))"

definition MQTTstrlen :: "MQTTString \<Rightarrow> int" where
  "MQTTstrlen mqttstring =
     (case cstring mqttstring of
        Some str \<Rightarrow> int (length str)
      | None \<Rightarrow> ls_len (lenstring mqttstring))"

text \<open>\<open>MQTTPacket_equals\<close>, without \<open>WITH_MQTT_ZIP_TOPIC\<close>.\<close>

definition MQTTPacket_equals :: "MQTTString \<Rightarrow> cstr \<Rightarrow> bool" where
  "MQTTPacket_equals a bptr =
     (case cstring a of
        Some str \<Rightarrow> length str = length bptr \<and> str = bptr
      | None \<Rightarrow> ls_len (lenstring a) = int (length bptr) \<and>
          (case ls_data (lenstring a) of
             None \<Rightarrow> bptr = []
           | Some data \<Rightarrow> take (length bptr) data = bptr))"

subsection \<open>What the writers emit\<close>

text \<open>The reference encodings of MQTT: remaining length, two-byte integer, prefixed string.\<close>

fun remlen_bytes :: "nat \<Rightarrow> byte list" where
  "remlen_bytes n =
     (if n < 128 then [of_nat n] else (of_nat (n mod 128) OR 0x80) # remlen_bytes (n div 128))"

declare remlen_bytes.simps [simp del]

definition int_bytes :: "nat \<Rightarrow> byte list" where
  "int_bytes n = [of_nat (n div 256), of_nat (n mod 256)]"

definition str_bytes :: "byte list \<Rightarrow> byte list" where
  "str_bytes s = int_bytes (length s) @ s"

text \<open>The bytes an \<open>MQTTString\<close> stands for, and when its two forms agree.\<close>

definition mqttstr :: "MQTTString \<Rightarrow> byte list" where
  "mqttstr m =
     (if ls_len (lenstring m) > 0 then take (nat (ls_len (lenstring m))) (the (ls_data (lenstring m)))
      else (case cstring m of Some s \<Rightarrow> s | None \<Rightarrow> []))"

definition mqttstr_ok :: "MQTTString \<Rightarrow> bool" where
  "mqttstr_ok m \<longleftrightarrow>
     0 \<le> ls_len (lenstring m) \<and>
     (cstring m \<noteq> None \<longrightarrow> ls_len (lenstring m) = 0) \<and>
     (ls_len (lenstring m) > 0 \<longrightarrow>
        (\<exists>d. ls_data (lenstring m) = Some d \<and> ls_len (lenstring m) \<le> int (length d)))"

lemma length_int_bytes [simp]: "length (int_bytes n) = 2"
  by (simp add: int_bytes_def)

lemma length_str_bytes [simp]: "length (str_bytes s) = 2 + length s"
  by (simp add: str_bytes_def)

lemma remlen_bytes_nonempty [simp]: "remlen_bytes n \<noteq> []"
  by (subst remlen_bytes.simps) simp

lemma length_remlen_bytes:
  "length (remlen_bytes n) =
     (if n < 128 then 1 else if n < 16384 then 2 else if n < 2097152 then 3
      else 3 + length (remlen_bytes (n div 2097152)))"
proof -
  have "n div 128 div 128 = n div 16384" "n div 128 div 128 div 128 = n div 2097152"
    by (simp_all add: div_mult2_eq [symmetric])
  then show ?thesis
    by (simp add: remlen_bytes.simps [of n] remlen_bytes.simps [of "n div 128"]
        remlen_bytes.simps [of "n div 16384"] div_less_iff_less_mult)
qed

lemma MQTTstrlen_mqttstr: "mqttstr_ok m \<Longrightarrow> MQTTstrlen m = int (length (mqttstr m))"
  by (auto simp: mqttstr_ok_def MQTTstrlen_def mqttstr_def split: option.splits)

lemma MQTTPacket_encode_loop_eq:
  "base + rc + length (remlen_bytes n) \<le> length buf \<Longrightarrow>
   MQTTPacket_encode_loop base rc buf (int n) =
     Some (blit buf (base + rc) (remlen_bytes n), rc + length (remlen_bytes n))"
proof (induction n arbitrary: rc buf rule: remlen_bytes.induct)
  case (1 n)
  show ?case
  proof (cases "n < 128")
    case True
    with 1(2) show ?thesis
      by (simp add: MQTTPacket_encode_loop.simps [of base rc buf "int n"] store_eq_store_bytes
          store_bytes_def remlen_bytes.simps [of n])
  next
    case False
    define b where "b = (of_nat (n mod 128) OR 0x80 :: byte)"
    have "1 \<le> n div 128" using False by simp
    moreover have rb: "remlen_bytes n = b # remlen_bytes (n div 128)"
      using False by (simp add: remlen_bytes.simps [of n] b_def)
    ultimately have "MQTTPacket_encode_loop base rc buf (int n) =
        MQTTPacket_encode_loop base (rc + 1) (blit buf (base + rc) [b]) (int (n div 128))"
      using 1(2) by (simp add: MQTTPacket_encode_loop.simps [of base rc buf "int n"]
          store_eq_store_bytes store_bytes_def b_def Let_def)
    also have "\<dots> = Some (blit (blit buf (base + rc) [b]) (base + (rc + 1)) (remlen_bytes (n div 128)),
        rc + 1 + length (remlen_bytes (n div 128)))"
      using 1(2) rb by (intro "1.IH") (simp_all add: False)
    finally show ?thesis
      using rb 1(2) blit_blit [of "base + rc" "[b]" buf "remlen_bytes (n div 128)"] by simp
  qed
qed

lemma emits_writeRemLen [emits_intro]: "emits (writeRemLen (int n)) (remlen_bytes n)"
  by (simp add: emits_def writeRemLen_def MQTTPacket_encode_def MQTTPacket_encode_loop_eq)

lemma emits_writeChar [emits_intro]: "emits (writeChar c) [c]"
  by (simp add: emits_def writeChar_def store_eq_store_bytes store_bytes_def)

lemma emits_writeInt [emits_intro]: "emits (writeInt (int n)) (int_bytes n)"
  by (auto simp: emits_def writeInt_def store_eq_store_bytes store_bytes_def int_bytes_def
      blit_blit [where a = "[x]" for x, simplified])

lemma emits_writeBytes [emits_intro]: "n = int (length src) \<Longrightarrow> emits (writeBytes src n) src"
  by (simp add: emits_def writeBytes_def store_bytes_def)

lemma emits_writeCString [emits_intro]: "emits (writeCString s) (str_bytes s)"
  unfolding writeCString_def str_bytes_def by (intro emits_intro refl)

lemma emits_writeMQTTString [emits_intro]:
  assumes "mqttstr_ok m"
  shows "emits (writeMQTTString m) (str_bytes (mqttstr m))"
proof (cases "ls_len (lenstring m) > 0")
  case True
  define n where "n = nat (ls_len (lenstring m))"
  have n: "ls_len (lenstring m) = int n" using True by (simp add: n_def)
  obtain d where d: "ls_data (lenstring m) = Some d" "n \<le> length d"
    using assms True by (auto simp: mqttstr_ok_def n)
  have "emits (\<lambda>s. writeInt (int n) s \<bind> writeBytes d (int n)) (int_bytes n @ take n d)"
    using d(2) by (intro emits_bind emits_writeInt) (simp add: emits_def writeBytes_def store_bytes_def)
  then show ?thesis
    using True d unfolding writeMQTTString_def by (simp add: n str_bytes_def mqttstr_def)
next
  case False
  then show ?thesis
    using emits_writeCString emits_writeInt [of 0]
    by (auto simp: writeMQTTString_def mqttstr_def str_bytes_def split: option.split)
qed

subsection \<open>What the readers return\<close>

lemma uint_and_127: "uint ((x :: byte) AND 127) = uint x mod 128"
proof -
  have eq: "x AND 127 = take_bit 7 x" by (simp add: take_bit_eq_mask mask_eq_exp_minus_1)
  show ?thesis unfolding eq unsigned_take_bit_eq by (simp add: take_bit_eq_mod)
qed

lemma and_128_eq_0: "(x :: byte) AND 128 = 0 \<longleftrightarrow> uint x < 128"
proof -
  have "x AND 128 = 0 \<longleftrightarrow> \<not> bit x 7" using and_exp_eq_0_iff_not_bit [of x 7] by simp
  also have "\<dots> \<longleftrightarrow> \<not> bit (uint x) 7" by (simp add: bit_uint_iff)
  also have "\<dots> \<longleftrightarrow> even (uint x div 128)" by (simp add: bit_iff_odd)
  also have "uint x div 128 = (if uint x < 128 then 0 else 1)"
  proof -
    have "0 \<le> uint x" "uint x < 256" using uint_bounded [of x] by simp_all
    then show ?thesis by (cases "uint x < 128") (linarith | simp)+
  qed
  finally show ?thesis by simp
qed

lemma or_128_and_127: "((x :: byte) OR 128) AND 127 = x AND 127"
  by (simp add: bit.conj_disj_distrib2)

lemma or_128_and_128: "((x :: byte) OR 128) AND 128 \<noteq> 0"
  by (simp add: bit.conj_disj_distrib2)

lemma bufchar_append [simp]: "bufchar (pre @ b # rest) (length pre) = Some (1, b, length pre + 1)"
  by (simp add: bufchar_def)

lemma MQTTPacket_decode_loop_eq:
  assumes "len + length (remlen_bytes n) \<le> 4"
  shows "MQTTPacket_decode_loop (bufchar (pre @ remlen_bytes n @ rest)) len mul val (length pre) =
     Some (len + length (remlen_bytes n), val + mul * int n, length pre + length (remlen_bytes n))"
  using assms
proof (induction n arbitrary: len mul val pre rule: remlen_bytes.induct)
  case (1 n)
  show ?case
  proof (cases "n < 128")
    case True
    then have "uint (of_nat n :: byte) = int n" by (simp add: unsigned_of_nat take_bit_eq_mod)
    with True 1(2) show ?thesis
      by (simp add: MQTTPacket_decode_loop.simps [of _ len] remlen_bytes.simps [of n]
          MAX_NO_OF_REMAINING_LENGTH_BYTES_def and_128_eq_0 uint_and_127 algebra_simps)
  next
    case False
    define b where "b = (of_nat (n mod 128) OR 0x80 :: byte)"
    have rb: "remlen_bytes n = b # remlen_bytes (n div 128)"
      using False by (simp add: remlen_bytes.simps [of n] b_def)
    have b: "b AND 128 \<noteq> 0" "uint (b AND 127) = int (n mod 128)"
      by (simp_all add: b_def or_128_and_128 or_128_and_127 uint_and_127 unsigned_of_nat take_bit_eq_mod)
    have IH: "MQTTPacket_decode_loop (bufchar ((pre @ [b]) @ remlen_bytes (n div 128) @ rest)) (len + 1)
        (mul * 128) (val + int (n mod 128) * mul) (length (pre @ [b])) =
      Some (len + 1 + length (remlen_bytes (n div 128)), val + int (n mod 128) * mul + mul * 128 * int (n div 128),
        length (pre @ [b]) + length (remlen_bytes (n div 128)))"
      using 1(2) rb by (intro "1.IH") (simp_all add: False)
    have "int (n mod 128) * mul + mul * 128 * int (n div 128) = mul * int n"
      by (metis (no_types, lifting) mod_mult_div_eq mult.commute distrib_left of_nat_add of_nat_mult
          of_nat_numeral mult.assoc)
    with IH b 1(2) rb show ?thesis
      by (simp add: MQTTPacket_decode_loop.simps [of _ len] MAX_NO_OF_REMAINING_LENGTH_BYTES_def)
  qed
qed

lemma length_remlen_le_4: "n < 268435456 \<Longrightarrow> length (remlen_bytes n) \<le> 4"
  by (simp add: length_remlen_bytes [of n] remlen_bytes.simps [of "n div 2097152"] div_less_iff_less_mult)

lemma MQTTPacket_decodeBuf_remlen:
  "n < 268435456 \<Longrightarrow>
   MQTTPacket_decodeBuf (pre @ remlen_bytes n @ rest) (length pre) = Some (length (remlen_bytes n), int n)"
  using MQTTPacket_decode_loop_eq [of 0 n pre rest 1 0] length_remlen_le_4 [of n]
  by (simp add: MQTTPacket_decodeBuf_def MQTTPacket_decode_def)

lemma readChar_append [simp]: "readChar (pre @ b # rest) (length pre) = Some (b, length pre + 1)"
  by (simp add: readChar_def)

lemma readInt_int_bytes:
  "n < 65536 \<Longrightarrow> readInt (pre @ int_bytes n @ rest) (length pre) = Some (int n, length pre + 2)"
proof -
  assume n: "n < 65536"
  then have "uint (of_nat (n div 256) :: byte) = int (n div 256)"
    "uint (of_nat (n mod 256) :: byte) = int (n mod 256)"
    by (simp_all add: unsigned_of_nat take_bit_eq_mod div_less_iff_less_mult)
  moreover have "256 * int (n div 256) + int (n mod 256) = int n"
    by (metis mult_div_mod_eq of_nat_add of_nat_mult of_nat_numeral)
  ultimately show ?thesis
    using load_append_shift [of pre _ 1] by (simp add: readInt_def int_bytes_def del: load_append_shift)
qed

lemma readMQTTLenString_str_bytes:
  assumes "length s < 65536" and "int (length pre + 2 + length s) \<le> enddata"
  shows "readMQTTLenString m (pre @ str_bytes s @ rest) (length pre) enddata =
     Some (1, \<lparr>cstring = None, lenstring = \<lparr>ls_len = int (length s), ls_data = Some s\<rparr>\<rparr>, length pre + 2 + length s)"
  using assms readInt_int_bytes [of "length s" pre "s @ rest"]
  by (simp add: readMQTTLenString_def str_bytes_def load_bytes_def)

subsection \<open>Self-delimiting length codes\<close>

text \<open>
  What the packet theories rely on: a code for lengths whose decoder, started anywhere in a
  buffer, recovers the encoded length and the number of bytes it took.
\<close>

locale length_code =
  fixes enc :: "nat \<Rightarrow> byte list"
    and dec :: "byte list \<Rightarrow> nat \<Rightarrow> (nat \<times> int) option"
    and bound :: nat
  assumes dec_enc: "n < bound \<Longrightarrow> dec (pre @ enc n @ rest) (length pre) = Some (length (enc n), int n)"
begin

lemma enc_prefix_free:
  assumes "n < bound" and "m < bound" and eq: "enc n @ x = enc m @ y"
  shows "n = m \<and> x = y"
proof -
  have "dec ([] @ enc n @ x) (length ([] :: byte list)) = dec ([] @ enc m @ y) (length ([] :: byte list))"
    using eq by simp
  then have "int n = int m" using dec_enc [OF assms(1), of "[]" x] dec_enc [OF assms(2), of "[]" y] by simp
  with eq show ?thesis by simp
qed

lemma frame_unique:
  assumes "length b < bound" and "length b' < bound"
    and eq: "h # enc (length b) @ b @ r = h' # enc (length b') @ b' @ r'"
  shows "h = h' \<and> b = b' \<and> r = r'"
proof -
  have "h = h'" and tail: "enc (length b) @ (b @ r) = enc (length b') @ (b' @ r')" using eq by simp_all
  from enc_prefix_free [OF assms(1,2) tail] have "length b = length b'" "b @ r = b' @ r'" by auto
  with \<open>h = h'\<close> show ?thesis by simp
qed

lemma frames_unique:
  "\<lbrakk>\<forall>(h, b) \<in> set ps. length b < bound; \<forall>(h, b) \<in> set qs. length b < bound;
    concat (map (\<lambda>(h, b). h # enc (length b) @ b) ps) = concat (map (\<lambda>(h, b). h # enc (length b) @ b) qs)\<rbrakk>
   \<Longrightarrow> ps = qs"
proof (induction ps arbitrary: qs)
  case Nil
  then show ?case by (cases qs) auto
next
  case (Cons p ps)
  obtain h b where p: "p = (h, b)" by (cases p)
  from Cons.prems(3) p obtain h' b' qs' where qs: "qs = (h', b') # qs'" by (cases qs) auto
  let ?cat = "\<lambda>ps. concat (map (\<lambda>(h, b). h # enc (length b) @ b) ps)"
  have "h # enc (length b) @ b @ ?cat ps = h' # enc (length b') @ b' @ ?cat qs'"
    using Cons.prems(3) by (simp add: p qs)
  from frame_unique [OF _ _ this] Cons.prems(1,2) have "h = h'" "b = b'" "?cat ps = ?cat qs'"
    by (auto simp: p qs)
  with Cons.IH [of qs'] Cons.prems(1,2) show ?case by (simp add: p qs)
qed

end

interpretation remlen: length_code remlen_bytes MQTTPacket_decodeBuf 268435456
  by unfold_locales (rule MQTTPacket_decodeBuf_remlen)

subsection \<open>Length of a packet\<close>

lemma MQTTPacket_len_covers:
  "n < 268435456 \<Longrightarrow> int (1 + length (remlen_bytes n) + n) \<le> MQTTPacket_len (int n)"
  by (simp add: MQTTPacket_len_def Let_def length_remlen_bytes [of n] remlen_bytes.simps [of "n div 2097152"] div_less_iff_less_mult)

subsection \<open>Properties\<close>

text \<open>
  C9: Encoding a remaining length below \<open>2^28\<close> anywhere in a buffer takes one to four bytes,
  changes nothing else in the buffer, and \<open>MQTTPacket_decodeBuf\<close> reads it back.
\<close>

theorem remaining_length_roundtrip:
  assumes "n < 268435456" "base + 4 \<le> length buf"
  shows "\<exists>buf' k. MQTTPacket_encode buf base (int n) = Some (buf', k) \<and> 1 \<le> k \<and> k \<le> 4 \<and>
     MQTTPacket_decodeBuf buf' base = Some (k, int n) \<and>
     take base buf' = take base buf \<and> drop (base + k) buf' = drop (base + k) buf"
proof -
  let ?r = "remlen_bytes n"
  have r: "length ?r \<le> 4" "1 \<le> length ?r"
    using length_remlen_le_4 [OF assms(1)] remlen_bytes_nonempty [of n] by (simp_all add: Suc_le_eq del: remlen_bytes_nonempty)
  have b: "blit buf base ?r = take base buf @ ?r @ drop (base + length ?r) buf" by (simp add: blit_def)
  have "MQTTPacket_encode buf base (int n) = Some (blit buf base ?r, length ?r)"
    using MQTTPacket_encode_loop_eq [of base 0 n buf] assms(2) r by (simp add: MQTTPacket_encode_def)
  moreover have "MQTTPacket_decodeBuf (blit buf base ?r) base = Some (length ?r, int n)"
    using MQTTPacket_decodeBuf_remlen [OF assms(1), of "take base buf" "drop (base + length ?r) buf"] assms(2) by (simp add: b)
  moreover have "take base (blit buf base ?r) = take base buf" "drop (base + length ?r) (blit buf base ?r) = drop (base + length ?r) buf"
    using assms(2) r by (simp_all add: b)
  ultimately show ?thesis using r by blast
qed

theorem remaining_length_roundtrip_witness:
  "\<exists>buf' k. MQTTPacket_encode (replicate 6 0) 1 (int 321) = Some (buf', k) \<and> 1 \<le> k \<and> k \<le> 4 \<and>
     MQTTPacket_decodeBuf buf' 1 = Some (k, int 321) \<and>
     take 1 buf' = take 1 (replicate 6 0) \<and> drop (1 + k) buf' = drop (1 + k) (replicate 6 0)"
  by (rule remaining_length_roundtrip) simp_all

lemma MQTTPacket_encode_loop_count:
  "MQTTPacket_encode_loop base rc buf (int n) = Some (buf', k) \<Longrightarrow> k = rc + length (remlen_bytes n)"
proof (induction n arbitrary: rc buf rule: remlen_bytes.induct)
  case (1 n)
  show ?case
  proof (cases "n < 128")
    case True
    with 1(2) show ?thesis
      by (auto simp: MQTTPacket_encode_loop.simps [of base rc buf "int n"] bind_eq_Some_conv remlen_bytes.simps [of n])
  next
    case False
    have "1 \<le> n div 128" using False by simp
    then obtain b where "MQTTPacket_encode_loop base (rc + 1) b (int (n div 128)) = Some (buf', k)"
      using 1(2) by (auto simp: MQTTPacket_encode_loop.simps [of base rc buf "int n"] bind_eq_Some_conv Let_def)
    from "1.IH" [OF False this] show ?thesis using False by (simp add: remlen_bytes.simps [of n])
  qed
qed

text \<open>
  \<open>MQTTPacket_len\<close> is never less than the bytes of a packet (header byte, the \<open>k\<close> bytes of
  the encoded remaining length, and the rest), and at most one more.
\<close>

lemma packet_len_bounds:
  assumes "n < 268435456" "MQTTPacket_encode buf base (int n) = Some (buf', k)"
  shows "int (1 + k + n) \<le> MQTTPacket_len (int n) \<and> MQTTPacket_len (int n) \<le> int (1 + k + n) + 1"
proof -
  have "k = length (remlen_bytes n)" using MQTTPacket_encode_loop_count assms(2) by (fastforce simp: MQTTPacket_encode_def)
  moreover have "MQTTPacket_len (int n) \<le> int (1 + length (remlen_bytes n) + n) + 1"
    using assms(1) by (simp add: MQTTPacket_len_def Let_def length_remlen_bytes [of n] remlen_bytes.simps [of "n div 2097152"] div_less_iff_less_mult)
  ultimately show ?thesis using MQTTPacket_len_covers [OF assms(1)] by simp
qed

end
