(* ===== verification/MQTT_Serialize.thy ===== *)
theory MQTT_Serialize
  imports MQTT_Packet
begin

text \<open>
  The packet serializers and deserializers of \<open>src/mqtt/impl\<close>: \<open>MQTTConnectClient.c\<close>,
  \<open>MQTTSerializePublish.c\<close>, \<open>MQTTDeserializePublish.c\<close>, \<open>MQTTSubscribeClient.c\<close> and
  \<open>MQTTUnsubscribeClient.c\<close>. A serializer takes the output buffer and its size and returns the
  result code and the buffer; a deserializer returns its result code and the values it wrote
  through its pointer arguments, which keep what the caller put there on the paths that do not
  assign them. The lemmas give, for every serializer, the packet it writes, and for every
  deserializer its inverse on those packets.
\<close>

unbundle bit_operations_syntax

subsection \<open>Connect options\<close>

definition MQTT_CONN_FLAG_USER_NAME :: byte where "MQTT_CONN_FLAG_USER_NAME = 0x80"
definition MQTT_CONN_FLAG_PASSWORD :: byte where "MQTT_CONN_FLAG_PASSWORD = 0x40"
definition MQTT_CONN_FLAG_WILL_RETAIN :: byte where "MQTT_CONN_FLAG_WILL_RETAIN = 0x20"
definition MQTT_CONN_FLAG_WILL_FLAG :: byte where "MQTT_CONN_FLAG_WILL_FLAG = 0x04"
definition MQTT_CONN_FLAG_CLEAN_SESSION :: byte where "MQTT_CONN_FLAG_CLEAN_SESSION = 0x02"

lemmas conn_flag_defs = MQTT_CONN_FLAG_USER_NAME_def MQTT_CONN_FLAG_PASSWORD_def
  MQTT_CONN_FLAG_WILL_RETAIN_def MQTT_CONN_FLAG_WILL_FLAG_def MQTT_CONN_FLAG_CLEAN_SESSION_def

record MQTTPacket_willOptions =
  will_struct_id :: "byte list"
  will_struct_version :: int
  will_topicName :: MQTTString
  will_message :: MQTTString
  will_retained :: byte
  will_qos :: byte

record MQTTPacket_connectData =
  struct_id :: "byte list"
  struct_version :: int
  MQTTVersion :: byte
  clientID :: MQTTString
  keepAliveInterval :: u16
  cleansession :: byte
  willFlag :: byte
  will :: MQTTPacket_willOptions
  username :: MQTTString
  password :: MQTTString

text \<open>\<open>str.cstring || str.lenstring.data\<close>\<close>

definition mqttstr_given :: "MQTTString \<Rightarrow> bool" where
  "mqttstr_given m \<longleftrightarrow> cstring m \<noteq> None \<or> ls_data (lenstring m) \<noteq> None"

definition MQTTSerialize_connectLength :: "MQTTPacket_connectData \<Rightarrow> int" where
  "MQTTSerialize_connectLength options =
     (let len = (if MQTTVersion options = 3 then 12 else if MQTTVersion options = 4 then 10 else 0);
          len = len + (MQTTstrlen (clientID options) + 2);
          len = (if willFlag options \<noteq> 0
                 then len + (MQTTstrlen (will_topicName (will options)) + 2 + MQTTstrlen (will_message (will options)) + 2)
                 else len);
          len = (if mqttstr_given (username options) then len + (MQTTstrlen (username options) + 2) else len)
      in if mqttstr_given (password options) then len + (MQTTstrlen (password options) + 2) else len)"

definition connect_flags :: "MQTTPacket_connectData \<Rightarrow> byte" where
  "connect_flags options =
     (let all = 0;
          all = all OR (if cleansession options \<noteq> 0 then MQTT_CONN_FLAG_CLEAN_SESSION else 0);
          all = all OR (if willFlag options \<noteq> 0 then MQTT_CONN_FLAG_WILL_FLAG else 0);
          all = (if all AND MQTT_CONN_FLAG_WILL_FLAG \<noteq> 0
                 then (all OR push_bit 3 (will_qos (will options) AND 0x03))
                        OR (if will_retained (will options) \<noteq> 0 then MQTT_CONN_FLAG_WILL_RETAIN else 0)
                 else all);
          all = (if mqttstr_given (username options) then all OR MQTT_CONN_FLAG_USER_NAME else all)
      in if mqttstr_given (password options) then all OR MQTT_CONN_FLAG_PASSWORD else all)"

text \<open>The protocol names \<open>"MQTT"\<close> and \<open>"MQIsdp"\<close>.\<close>

definition str_MQTT :: cstr where "str_MQTT = [0x4D, 0x51, 0x54, 0x54]"
definition str_MQIsdp :: cstr where "str_MQIsdp = [0x4D, 0x51, 0x49, 0x73, 0x64, 0x70]"

definition MQTTSerialize_connect ::
  "byte list \<Rightarrow> int \<Rightarrow> MQTTPacket_connectData \<Rightarrow> (int \<times> byte list) option" where
  "MQTTSerialize_connect buf buflen options =
     (let len = MQTTSerialize_connectLength options in
      if MQTTPacket_len len > buflen then Some (MQTTPACKET_BUFFER_TOO_SHORT, buf)
      else let flags = connect_flags options in do {
        s \<leftarrow> writeChar (MQTT_HEADER_SET_TYPE 0 (cpt CONNECT)) (buf, 0);
        s \<leftarrow> writeRemLen len s;
        s \<leftarrow> (if MQTTVersion options = 4
              then do { s \<leftarrow> writeCString str_MQTT s; writeChar 4 s }
              else do { s \<leftarrow> writeCString str_MQIsdp s; writeChar 3 s });
        s \<leftarrow> writeChar flags s;
        s \<leftarrow> writeInt (uint (keepAliveInterval options)) s;
        s \<leftarrow> writeMQTTString (clientID options) s;
        s \<leftarrow> (if willFlag options \<noteq> 0
              then do { s \<leftarrow> writeMQTTString (will_topicName (will options)) s;
                        writeMQTTString (will_message (will options)) s }
              else Some s);
        s \<leftarrow> (if flags AND MQTT_CONN_FLAG_USER_NAME \<noteq> 0 then writeMQTTString (username options) s else Some s);
        s \<leftarrow> (if flags AND MQTT_CONN_FLAG_PASSWORD \<noteq> 0 then writeMQTTString (password options) s else Some s);
        ptr_diff s
      })"

text \<open>
  \<open>MQTTDeserialize_connack\<close>. On a little-endian target the bit field \<open>sessionpresent\<close> of
  \<open>MQTTConnackFlags\<close> is the most significant bit of the byte.
\<close>

definition sessionpresent :: "byte \<Rightarrow> byte" where
  "sessionpresent all = drop_bit 7 all"

definition MQTTDeserialize_connack :: "byte \<Rightarrow> byte \<Rightarrow> byte list \<Rightarrow> (int \<times> byte \<times> byte) option" where
  "MQTTDeserialize_connack sessionPresent connack_rc buf = do {
     (header, curdata) \<leftarrow> readChar buf 0;
     if MQTT_HEADER_GET_TYPE header \<noteq> cpt CONNACK then Some (0, sessionPresent, connack_rc)
     else do {
       (rc, mylen) \<leftarrow> MQTTPacket_decodeBuf buf curdata;
       let curdata = curdata + rc;
       if mylen < 2 then Some (int rc, sessionPresent, connack_rc)
       else do {
         (flags, curdata) \<leftarrow> readChar buf curdata;
         (ack, curdata) \<leftarrow> readChar buf curdata;
         Some (1, sessionpresent flags, ack)
       }
     }
   }"

definition MQTTSerialize_zero :: "byte list \<Rightarrow> int \<Rightarrow> byte \<Rightarrow> (int \<times> byte list) option" where
  "MQTTSerialize_zero buf buflen packettype =
     (if buflen < 2 then Some (MQTTPACKET_BUFFER_TOO_SHORT, buf)
      else do {
        s \<leftarrow> writeChar (MQTT_HEADER_SET_TYPE 0 packettype) (buf, 0);
        s \<leftarrow> writeRemLen 0 s;
        ptr_diff s
      })"

definition MQTTSerialize_disconnect :: "byte list \<Rightarrow> int \<Rightarrow> (int \<times> byte list) option" where
  "MQTTSerialize_disconnect buf buflen = MQTTSerialize_zero buf buflen (cpt DISCONNECT)"

definition MQTTSerialize_pingreq :: "byte list \<Rightarrow> int \<Rightarrow> (int \<times> byte list) option" where
  "MQTTSerialize_pingreq buf buflen = MQTTSerialize_zero buf buflen (cpt PINGREQ)"

subsection \<open>Publish and acknowledgements\<close>

definition MQTTSerialize_publishLength :: "int \<Rightarrow> MQTTString \<Rightarrow> int \<Rightarrow> int" where
  "MQTTSerialize_publishLength qos topicName payloadlen =
     (let len = 2 + MQTTstrlen topicName + payloadlen in if qos > 0 then len + 2 else len)"

definition publish_header :: "byte \<Rightarrow> int \<Rightarrow> byte \<Rightarrow> byte" where
  "publish_header dup qos retained =
     (let h = MQTT_HEADER_SET_TYPE 0 (cpt PUBLISH);
          h = MQTT_HEADER_SET_DUP h dup;
          h = MQTT_HEADER_SET_QOS h (word_of_int qos)
      in MQTT_HEADER_SET_RETAIN h retained)"

definition MQTTSerialize_publish ::
  "byte list \<Rightarrow> int \<Rightarrow> byte \<Rightarrow> int \<Rightarrow> byte \<Rightarrow> u16 \<Rightarrow> MQTTString \<Rightarrow> byte list \<Rightarrow> int \<Rightarrow> (int \<times> byte list) option" where
  "MQTTSerialize_publish buf buflen dup qos retained packetid topicName payload payloadlen =
     (let rem_len = MQTTSerialize_publishLength qos topicName payloadlen in
      if MQTTPacket_len rem_len > buflen then Some (MQTTPACKET_BUFFER_TOO_SHORT, buf)
      else do {
        s \<leftarrow> writeChar (publish_header dup qos retained) (buf, 0);
        s \<leftarrow> writeRemLen rem_len s;
        s \<leftarrow> writeMQTTString topicName s;
        s \<leftarrow> (if qos > 0 then writeInt (uint packetid) s else Some s);
        s \<leftarrow> writeBytes payload payloadlen s;
        ptr_diff s
      })"

definition ack_header :: "byte \<Rightarrow> byte \<Rightarrow> byte" where
  "ack_header packettype dup =
     (let h = MQTT_HEADER_SET_TYPE 0 packettype;
          h = MQTT_HEADER_SET_DUP h dup
      in MQTT_HEADER_SET_QOS h (if packettype = cpt PUBREL then 1 else 0))"

definition MQTTSerialize_ack :: "byte list \<Rightarrow> int \<Rightarrow> byte \<Rightarrow> byte \<Rightarrow> u16 \<Rightarrow> (int \<times> byte list) option" where
  "MQTTSerialize_ack buf buflen packettype dup packetid =
     (if buflen < 4 then Some (MQTTPACKET_BUFFER_TOO_SHORT, buf)
      else do {
        s \<leftarrow> writeChar (ack_header packettype dup) (buf, 0);
        s \<leftarrow> writeRemLen 2 s;
        s \<leftarrow> writeInt (uint packetid) s;
        ptr_diff s
      })"

text \<open>
  What \<open>MQTTDeserialize_publish\<close> writes through its arguments; \<open>payload\<close> is the offset of
  the payload in the buffer.
\<close>

record publish_out =
  po_dup :: byte
  po_qos :: int
  po_retained :: byte
  po_packetid :: u16
  po_topicName :: MQTTString
  po_payload :: "nat option"
  po_payloadlen :: int

definition MQTTDeserialize_publish :: "publish_out \<Rightarrow> byte list \<Rightarrow> (int \<times> publish_out) option" where
  "MQTTDeserialize_publish out buf = do {
     (header, curdata) \<leftarrow> readChar buf 0;
     if MQTT_HEADER_GET_TYPE header \<noteq> cpt PUBLISH then Some (0, out)
     else do {
       let out = out\<lparr>po_dup := MQTT_HEADER_GET_DUP header, po_qos := uint (MQTT_HEADER_GET_QOS header),
                     po_retained := MQTT_HEADER_GET_RETAIN header\<rparr>;
       (rc, mylen) \<leftarrow> MQTTPacket_decodeBuf buf curdata;
       let curdata = curdata + rc;
       let enddata = int curdata + mylen;
       (ok, topic, curdata) \<leftarrow> readMQTTLenString (po_topicName out) buf curdata enddata;
       let out = out\<lparr>po_topicName := topic\<rparr>;
       if ok = 0 \<or> enddata - int curdata < 0 then Some (int rc, out)
       else do {
         (out, curdata) \<leftarrow> (if po_qos out > 0
            then do { (i, p) \<leftarrow> readInt buf curdata; Some (out\<lparr>po_packetid := word_of_int i\<rparr>, p) }
            else Some (out, curdata));
         Some (1, out\<lparr>po_payloadlen := enddata - int curdata, po_payload := Some curdata\<rparr>)
       }
     }
   }"

text \<open>\<open>MQTTDeserialize_ack\<close>: result code, packet type, dup flag and packet id.\<close>

definition MQTTDeserialize_ack :: "u16 \<Rightarrow> byte list \<Rightarrow> (int \<times> byte \<times> byte \<times> u16) option" where
  "MQTTDeserialize_ack packetid buf = do {
     (header, curdata) \<leftarrow> readChar buf 0;
     let dup = MQTT_HEADER_GET_DUP header;
     let packettype = MQTT_HEADER_GET_TYPE header;
     (rc, mylen) \<leftarrow> MQTTPacket_decodeBuf buf curdata;
     let curdata = curdata + rc;
     if mylen < 2 then Some (int rc, packettype, dup, packetid)
     else do {
       (i, curdata) \<leftarrow> readInt buf curdata;
       Some (1, packettype, dup, word_of_int i)
     }
   }"

subsection \<open>Subscribe and unsubscribe\<close>

text \<open>The loops over the \<open>count\<close> topic filters; \<open>i\<close> is the loop index.\<close>

fun subscribeLength_loop :: "nat \<Rightarrow> nat \<Rightarrow> MQTTString list \<Rightarrow> int \<Rightarrow> int option" where
  "subscribeLength_loop i 0 topicFilters len = Some len"
| "subscribeLength_loop i (Suc k) topicFilters len =
     (if i < length topicFilters
      then subscribeLength_loop (i + 1) k topicFilters (len + (2 + MQTTstrlen (topicFilters ! i) + 1))
      else None)"

definition MQTTSerialize_subscribeLength :: "nat \<Rightarrow> MQTTString list \<Rightarrow> int option" where
  "MQTTSerialize_subscribeLength count topicFilters = subscribeLength_loop 0 count topicFilters 2"

fun subscribe_loop :: "nat \<Rightarrow> nat \<Rightarrow> MQTTString list \<Rightarrow> int list \<Rightarrow> cursor \<Rightarrow> cursor option" where
  "subscribe_loop i 0 topicFilters requestedQoSs s = Some s"
| "subscribe_loop i (Suc k) topicFilters requestedQoSs s =
     (if i < length topicFilters \<and> i < length requestedQoSs
      then do {
        s \<leftarrow> writeMQTTString (topicFilters ! i) s;
        s \<leftarrow> writeChar (word_of_int (requestedQoSs ! i)) s;
        subscribe_loop (i + 1) k topicFilters requestedQoSs s
      } else None)"

definition sub_header :: "msgTypes \<Rightarrow> byte \<Rightarrow> byte" where
  "sub_header type dup =
     (let h = MQTT_HEADER_SET_TYPE 0 (cpt type);
          h = MQTT_HEADER_SET_DUP h dup
      in MQTT_HEADER_SET_QOS h 1)"

definition MQTTSerialize_subscribe ::
  "byte list \<Rightarrow> int \<Rightarrow> byte \<Rightarrow> u16 \<Rightarrow> nat \<Rightarrow> MQTTString list \<Rightarrow> int list \<Rightarrow> (int \<times> byte list) option" where
  "MQTTSerialize_subscribe buf buflen dup packetid count topicFilters requestedQoSs = do {
     rem_len \<leftarrow> MQTTSerialize_subscribeLength count topicFilters;
     if MQTTPacket_len rem_len > buflen then Some (MQTTPACKET_BUFFER_TOO_SHORT, buf)
     else do {
       s \<leftarrow> writeChar (sub_header SUBSCRIBE dup) (buf, 0);
       s \<leftarrow> writeRemLen rem_len s;
       s \<leftarrow> writeInt (uint packetid) s;
       s \<leftarrow> subscribe_loop 0 count topicFilters requestedQoSs s;
       ptr_diff s
     }
   }"

text \<open>
  \<open>MQTTDeserialize_suback\<close>: result code, packet id and granted QoS values, a \<open>char\<close> each
  (sign extended when it is stored in the \<open>int\<close> array).
\<close>

function suback_loop :: "byte list \<Rightarrow> nat \<Rightarrow> int \<Rightarrow> nat \<Rightarrow> int list \<Rightarrow> (int \<times> int list) option" where
  "suback_loop buf curdata enddata maxcount grantedQoSs =
     (if int curdata < enddata then
        (if length grantedQoSs \<ge> maxcount then Some (-1, grantedQoSs)
         else do {
           (c, curdata') \<leftarrow> readChar buf curdata;
           suback_loop buf (curdata + 1) enddata maxcount (grantedQoSs @ [sint c])
         })
      else Some (1, grantedQoSs))"
  by pat_completeness auto
termination
  by (relation "measure (\<lambda>(buf, curdata, enddata, maxcount, g). nat (enddata - int curdata))") auto

declare suback_loop.simps [simp del]

definition MQTTDeserialize_suback ::
  "u16 \<Rightarrow> nat \<Rightarrow> int list \<Rightarrow> byte list \<Rightarrow> (int \<times> u16 \<times> int list) option" where
  "MQTTDeserialize_suback packetid maxcount granted0 buf = do {
     (header, curdata) \<leftarrow> readChar buf 0;
     if MQTT_HEADER_GET_TYPE header \<noteq> cpt SUBACK then Some (0, packetid, granted0)
     else do {
       (rc, mylen) \<leftarrow> MQTTPacket_decodeBuf buf curdata;
       let curdata = curdata + rc;
       let enddata = int curdata + mylen;
       if mylen < 2 then Some (int rc, packetid, granted0)
       else do {
         (i, curdata) \<leftarrow> readInt buf curdata;
         (rc, granted) \<leftarrow> suback_loop buf curdata enddata maxcount [];
         Some (rc, word_of_int i, granted)
       }
     }
   }"

fun unsubscribeLength_loop :: "nat \<Rightarrow> nat \<Rightarrow> MQTTString list \<Rightarrow> int \<Rightarrow> int option" where
  "unsubscribeLength_loop i 0 topicFilters len = Some len"
| "unsubscribeLength_loop i (Suc k) topicFilters len =
     (if i < length topicFilters
      then unsubscribeLength_loop (i + 1) k topicFilters (len + (2 + MQTTstrlen (topicFilters ! i)))
      else None)"

definition MQTTSerialize_unsubscribeLength :: "nat \<Rightarrow> MQTTString list \<Rightarrow> int option" where
  "MQTTSerialize_unsubscribeLength count topicFilters = unsubscribeLength_loop 0 count topicFilters 2"

fun unsubscribe_loop :: "nat \<Rightarrow> nat \<Rightarrow> MQTTString list \<Rightarrow> cursor \<Rightarrow> cursor option" where
  "unsubscribe_loop i 0 topicFilters s = Some s"
| "unsubscribe_loop i (Suc k) topicFilters s =
     (if i < length topicFilters
      then do {
        s \<leftarrow> writeMQTTString (topicFilters ! i) s;
        unsubscribe_loop (i + 1) k topicFilters s
      } else None)"

definition MQTTSerialize_unsubscribe ::
  "byte list \<Rightarrow> int \<Rightarrow> byte \<Rightarrow> u16 \<Rightarrow> nat \<Rightarrow> MQTTString list \<Rightarrow> (int \<times> byte list) option" where
  "MQTTSerialize_unsubscribe buf buflen dup packetid count topicFilters = do {
     rem_len \<leftarrow> MQTTSerialize_unsubscribeLength count topicFilters;
     if MQTTPacket_len rem_len > buflen then Some (MQTTPACKET_BUFFER_TOO_SHORT, buf)
     else do {
       s \<leftarrow> writeChar (sub_header UNSUBSCRIBE dup) (buf, 0);
       s \<leftarrow> writeRemLen rem_len s;
       s \<leftarrow> writeInt (uint packetid) s;
       s \<leftarrow> unsubscribe_loop 0 count topicFilters s;
       ptr_diff s
     }
   }"

definition MQTTDeserialize_unsuback :: "u16 \<Rightarrow> byte list \<Rightarrow> (int \<times> u16) option" where
  "MQTTDeserialize_unsuback packetid buf = do {
     (rc, type, dup, packetid') \<leftarrow> MQTTDeserialize_ack packetid buf;
     Some (if type = cpt UNSUBACK then 1 else rc, packetid')
   }"

subsection \<open>The packets of MQTT\<close>

text \<open>Reference encodings: a fixed header byte, the remaining length and the body.\<close>

definition fixed_packet :: "byte \<Rightarrow> byte list \<Rightarrow> byte list" where
  "fixed_packet h body = h # remlen_bytes (length body) @ body"

definition connect_body :: "MQTTPacket_connectData \<Rightarrow> byte list" where
  "connect_body cd =
     (if MQTTVersion cd = 4 then str_bytes str_MQTT @ [4] else str_bytes str_MQIsdp @ [3]) @
     [connect_flags cd] @ int_bytes (unat (keepAliveInterval cd)) @ str_bytes (mqttstr (clientID cd)) @
     (if willFlag cd \<noteq> 0 then str_bytes (mqttstr (will_topicName (will cd))) @ str_bytes (mqttstr (will_message (will cd)))
      else []) @
     (if mqttstr_given (username cd) then str_bytes (mqttstr (username cd)) else []) @
     (if mqttstr_given (password cd) then str_bytes (mqttstr (password cd)) else [])"

definition publish_body :: "int \<Rightarrow> byte list \<Rightarrow> u16 \<Rightarrow> byte list \<Rightarrow> byte list" where
  "publish_body qos topic packetid payload =
     str_bytes topic @ (if qos > 0 then int_bytes (unat packetid) else []) @ payload"

definition subscribe_body :: "u16 \<Rightarrow> (MQTTString \<times> int) list \<Rightarrow> byte list" where
  "subscribe_body packetid ts =
     int_bytes (unat packetid) @ concat (map (\<lambda>(t, q). str_bytes (mqttstr t) @ [word_of_int q]) ts)"

definition unsubscribe_body :: "u16 \<Rightarrow> MQTTString list \<Rightarrow> byte list" where
  "unsubscribe_body packetid ts = int_bytes (unat packetid) @ concat (map (\<lambda>t. str_bytes (mqttstr t)) ts)"

text \<open>The outcome every serializer promises for the packet \<open>h, body\<close>.\<close>

definition serialize_outcome :: "byte list \<Rightarrow> int \<Rightarrow> byte \<Rightarrow> byte list \<Rightarrow> (int \<times> byte list) option" where
  "serialize_outcome buf buflen h body =
     (if MQTTPacket_len (int (length body)) > buflen then Some (MQTTPACKET_BUFFER_TOO_SHORT, buf)
      else Some (int (length (fixed_packet h body)), blit buf 0 (fixed_packet h body)))"

lemma length_fixed_packet [simp]:
  "length (fixed_packet h body) = 1 + length (remlen_bytes (length body)) + length body"
  by (simp add: fixed_packet_def)

lemma emits_writeInt_uint [emits_intro]: "emits (writeInt (uint w)) (int_bytes (unat w))"
  using emits_writeInt [of "unat w"] by simp

text \<open>
  The common shape of the serializers: when the writer of the body emits it, writing header,
  remaining length and body within \<open>buflen\<close> gives the promised outcome.
\<close>

lemma serialize_outcomeI:
  assumes body: "serializes f body"
    and small: "length body < 268435456" and room: "buflen \<le> int (length buf)"
    and len: "len = int (length body)"
  shows "(if MQTTPacket_len len > buflen then Some (MQTTPACKET_BUFFER_TOO_SHORT, buf)
          else writeChar h (buf, 0) \<bind> (\<lambda>s. writeRemLen len s \<bind> f))
         = serialize_outcome buf buflen h body"
proof (cases "MQTTPacket_len len > buflen")
  case True
  then show ?thesis by (simp add: serialize_outcome_def len)
next
  case False
  have "serializes (\<lambda>s. writeChar h s \<bind> (\<lambda>s. writeRemLen len s \<bind> f)) ([h] @ remlen_bytes (length body) @ body)"
    unfolding len by (intro emits_intro body)
  then have "serializes (\<lambda>s. writeChar h s \<bind> (\<lambda>s. writeRemLen len s \<bind> f)) (fixed_packet h body)"
    by (simp add: fixed_packet_def)
  moreover have "length (fixed_packet h body) \<le> length buf"
    using False room MQTTPacket_len_covers [OF small] by (simp add: len)
  ultimately have "writeChar h (buf, 0) \<bind> (\<lambda>s. writeRemLen len s \<bind> f) =
      Some (int (length (fixed_packet h body)), blit buf 0 (fixed_packet h body))"
    by (rule serializesD)
  with False show ?thesis by (simp add: serialize_outcome_def len)
qed

subsubsection \<open>Connect\<close>

definition connectData_ok :: "MQTTPacket_connectData \<Rightarrow> bool" where
  "connectData_ok cd \<longleftrightarrow>
     MQTTVersion cd \<in> {3, 4} \<and> mqttstr_ok (clientID cd) \<and> mqttstr_ok (username cd) \<and> mqttstr_ok (password cd) \<and>
     (willFlag cd \<noteq> 0 \<longrightarrow> mqttstr_ok (will_topicName (will cd)) \<and> mqttstr_ok (will_message (will cd)))"

lemma connect_flags_username: "connect_flags cd AND MQTT_CONN_FLAG_USER_NAME \<noteq> 0 \<longleftrightarrow> mqttstr_given (username cd)"
  by (simp add: connect_flags_def conn_flag_defs Let_def bit.conj_disj_distrib2 and.assoc)

lemma connect_flags_password: "connect_flags cd AND MQTT_CONN_FLAG_PASSWORD \<noteq> 0 \<longleftrightarrow> mqttstr_given (password cd)"
  by (simp add: connect_flags_def conn_flag_defs Let_def bit.conj_disj_distrib2 and.assoc)

lemma connectLength_body:
  "connectData_ok cd \<Longrightarrow> MQTTSerialize_connectLength cd = int (length (connect_body cd))"
  by (auto simp: MQTTSerialize_connectLength_def connect_body_def connectData_ok_def MQTTstrlen_mqttstr
      str_MQTT_def str_MQIsdp_def)

lemma connect_serializes:
  assumes ok: "connectData_ok cd" and small: "length (connect_body cd) < 268435456" and room: "buflen \<le> int (length buf)"
  shows "MQTTSerialize_connect buf buflen cd = serialize_outcome buf buflen (MQTT_HEADER_SET_TYPE 0 (cpt CONNECT)) (connect_body cd)"
proof -
  have "emits (\<lambda>s. if mqttstr_given (password cd) then writeMQTTString (password cd) s else Some s)
      (if mqttstr_given (password cd) then str_bytes (mqttstr (password cd)) else [])"
    using ok by (intro emits_intro) (simp_all add: connectData_ok_def emits_Some)
  then have pw: "serializes (\<lambda>s. (if mqttstr_given (password cd) then writeMQTTString (password cd) s else Some s) \<bind> ptr_diff)
      (if mqttstr_given (password cd) then str_bytes (mqttstr (password cd)) else [])"
    using serializes_bind [OF _ serializes_ptr_diff] by fastforce
  show ?thesis
    unfolding MQTTSerialize_connect_def Let_def connect_flags_username connect_flags_password
    by (rule serialize_outcomeI [OF _ small room connectLength_body [OF ok]], unfold connect_body_def)
       (intro emits_intro pw | use ok in \<open>simp add: connectData_ok_def emits_Some\<close>)+
qed

subsubsection \<open>Publish\<close>

lemma publish_serializes:
  assumes ok: "mqttstr_ok t" and room: "buflen \<le> int (length buf)"
    and small: "length (publish_body qos (mqttstr t) packetid payload) < 268435456"
  shows "MQTTSerialize_publish buf buflen dup qos retain packetid t payload (int (length payload)) =
     serialize_outcome buf buflen (publish_header dup qos retain) (publish_body qos (mqttstr t) packetid payload)"
proof -
  have len: "MQTTSerialize_publishLength qos t (int (length payload)) = int (length (publish_body qos (mqttstr t) packetid payload))"
    using ok by (simp add: MQTTSerialize_publishLength_def publish_body_def MQTTstrlen_mqttstr)
  have pl: "serializes (\<lambda>s. writeBytes payload (int (length payload)) s \<bind> ptr_diff) payload"
    using serializes_bind [OF emits_writeBytes serializes_ptr_diff] by fastforce
  show ?thesis
    unfolding MQTTSerialize_publish_def Let_def
    by (rule serialize_outcomeI [OF _ small room len], unfold publish_body_def)
       (intro emits_intro pl | use ok in \<open>simp add: emits_Some\<close>)+
qed

subsubsection \<open>Acknowledgements and empty packets\<close>

lemma remlen_small [simp]: "n < 128 \<Longrightarrow> remlen_bytes n = [of_nat n]"
  by (simp add: remlen_bytes.simps)

lemma ack_serializes:
  assumes "buflen \<le> int (length buf)"
  shows "MQTTSerialize_ack buf buflen packettype dup packetid =
     serialize_outcome buf buflen (ack_header packettype dup) (int_bytes (unat packetid))"
proof -
  have f: "serializes (\<lambda>s. writeInt (uint packetid) s \<bind> ptr_diff) (int_bytes (unat packetid))"
    using serializes_bind [OF emits_writeInt_uint serializes_ptr_diff] by fastforce
  have "buflen < 4 \<longleftrightarrow> MQTTPacket_len 2 > buflen" by (simp add: MQTTPacket_len_def)
  then show ?thesis
    unfolding MQTTSerialize_ack_def by (simp only:) (rule serialize_outcomeI [OF f _ assms], simp_all)
qed

lemma zero_serializes:
  assumes "buflen \<le> int (length buf)"
  shows "MQTTSerialize_zero buf buflen packettype = serialize_outcome buf buflen (MQTT_HEADER_SET_TYPE 0 packettype) []"
proof -
  have "buflen < 2 \<longleftrightarrow> MQTTPacket_len 0 > buflen" by (simp add: MQTTPacket_len_def)
  then show ?thesis
    unfolding MQTTSerialize_zero_def
    by (simp only:) (rule serialize_outcomeI [OF serializes_ptr_diff _ assms], simp_all)
qed

subsubsection \<open>Subscribe and unsubscribe\<close>

lemma subscribeLength_loop_eq:
  "\<forall>t \<in> set (drop i ts). mqttstr_ok t \<Longrightarrow> i + k = length ts \<Longrightarrow>
   subscribeLength_loop i k ts len =
     Some (len + (\<Sum>t\<leftarrow>drop i ts. 3 + int (length (mqttstr t))))"
proof (induction k arbitrary: i len)
  case (Suc k)
  then have "i < length ts" and "drop i ts = ts ! i # drop (Suc i) ts" by (simp_all add: Cons_nth_drop_Suc)
  with Suc show ?case by (simp add: MQTTstrlen_mqttstr)
qed simp

lemma emits_subscribe_loop:
  "\<forall>t \<in> set (drop i ts). mqttstr_ok t \<Longrightarrow> i + k = length ts \<Longrightarrow> length qs = length ts \<Longrightarrow>
   emits (subscribe_loop i k ts qs)
     (concat (map (\<lambda>(t, q). str_bytes (mqttstr t) @ [word_of_int q]) (drop i (zip ts qs))))"
proof (induction k arbitrary: i)
  case 0
  then show ?case by (simp add: emits_def)
next
  case (Suc k)
  then have i: "i < length ts" and d: "drop i ts = ts ! i # drop (Suc i) ts"
    and dz: "drop i (zip ts qs) = (ts ! i, qs ! i) # drop (Suc i) (zip ts qs)"
    by (simp_all add: Cons_nth_drop_Suc [symmetric])
  have "emits (\<lambda>s. writeMQTTString (ts ! i) s \<bind> (\<lambda>s. writeChar (word_of_int (qs ! i)) s \<bind> subscribe_loop (i + 1) k ts qs))
     (str_bytes (mqttstr (ts ! i)) @ [word_of_int (qs ! i)] @
      concat (map (\<lambda>(t, q). str_bytes (mqttstr t) @ [word_of_int q]) (drop (i + 1) (zip ts qs))))"
    using Suc.prems d by (intro emits_bind emits_writeMQTTString emits_writeChar Suc.IH) simp_all
  moreover have "subscribe_loop i (Suc k) ts qs =
      (\<lambda>s. writeMQTTString (ts ! i) s \<bind> (\<lambda>s. writeChar (word_of_int (qs ! i)) s \<bind> subscribe_loop (i + 1) k ts qs))"
    using i Suc.prems by (auto simp: fun_eq_iff)
  ultimately show ?case by (simp add: dz)
qed

lemma sum_list_subscribe:
  "length qs = length ts \<Longrightarrow>
   int (length (concat (map (\<lambda>(t, q). str_bytes (mqttstr t) @ [word_of_int q :: byte]) (zip ts qs)))) =
     (\<Sum>t\<leftarrow>ts. 3 + int (length (mqttstr t)))"
  by (induction ts qs rule: list_induct2') auto

lemma subscribe_serializes:
  assumes ok: "\<forall>t \<in> set ts. mqttstr_ok t" and lq: "length qs = length ts" and room: "buflen \<le> int (length buf)"
    and small: "length (subscribe_body packetid (zip ts qs)) < 268435456"
  shows "MQTTSerialize_subscribe buf buflen dup packetid (length ts) ts qs =
     serialize_outcome buf buflen (sub_header SUBSCRIBE dup) (subscribe_body packetid (zip ts qs))"
proof -
  have len: "MQTTSerialize_subscribeLength (length ts) ts = Some (int (length (subscribe_body packetid (zip ts qs))))"
    using subscribeLength_loop_eq [of 0 ts "length ts" 2] ok sum_list_subscribe [OF lq]
    by (simp add: MQTTSerialize_subscribeLength_def subscribe_body_def)
  have f: "serializes (\<lambda>s. writeInt (uint packetid) s \<bind> (\<lambda>s. subscribe_loop 0 (length ts) ts qs s \<bind> ptr_diff))
     (subscribe_body packetid (zip ts qs))"
    unfolding subscribe_body_def
    using emits_subscribe_loop [of 0 ts "length ts" qs] ok lq
      serializes_bind [OF emits_writeInt_uint serializes_bind [OF _ serializes_ptr_diff]] by fastforce
  show ?thesis
    unfolding MQTTSerialize_subscribe_def len Option.bind.bind_lunit
    by (rule serialize_outcomeI [OF f small room refl])
qed

lemma unsubscribeLength_loop_eq:
  "\<forall>t \<in> set (drop i ts). mqttstr_ok t \<Longrightarrow> i + k = length ts \<Longrightarrow>
   unsubscribeLength_loop i k ts len =
     Some (len + (\<Sum>t\<leftarrow>drop i ts. 2 + int (length (mqttstr t))))"
proof (induction k arbitrary: i len)
  case (Suc k)
  then have "i < length ts" and "drop i ts = ts ! i # drop (Suc i) ts" by (simp_all add: Cons_nth_drop_Suc)
  with Suc show ?case by (simp add: MQTTstrlen_mqttstr)
qed simp

lemma emits_unsubscribe_loop:
  "\<forall>t \<in> set (drop i ts). mqttstr_ok t \<Longrightarrow> i + k = length ts \<Longrightarrow>
   emits (unsubscribe_loop i k ts) (concat (map (\<lambda>t. str_bytes (mqttstr t)) (drop i ts)))"
proof (induction k arbitrary: i)
  case 0
  then show ?case by (simp add: emits_def)
next
  case (Suc k)
  then have i: "i < length ts" and d: "drop i ts = ts ! i # drop (Suc i) ts"
    by (simp_all add: Cons_nth_drop_Suc)
  have "emits (\<lambda>s. writeMQTTString (ts ! i) s \<bind> unsubscribe_loop (i + 1) k ts)
     (str_bytes (mqttstr (ts ! i)) @ concat (map (\<lambda>t. str_bytes (mqttstr t)) (drop (i + 1) ts)))"
    using Suc.prems d by (intro emits_bind emits_writeMQTTString Suc.IH) simp_all
  moreover have "unsubscribe_loop i (Suc k) ts = (\<lambda>s. writeMQTTString (ts ! i) s \<bind> unsubscribe_loop (i + 1) k ts)"
    using i by (auto simp: fun_eq_iff)
  ultimately show ?case by (simp add: d)
qed

lemma unsubscribe_serializes:
  assumes ok: "\<forall>t \<in> set ts. mqttstr_ok t" and room: "buflen \<le> int (length buf)"
    and small: "length (unsubscribe_body packetid ts) < 268435456"
  shows "MQTTSerialize_unsubscribe buf buflen dup packetid (length ts) ts =
     serialize_outcome buf buflen (sub_header UNSUBSCRIBE dup) (unsubscribe_body packetid ts)"
proof -
  have "int (length (concat (map (\<lambda>t. str_bytes (mqttstr t)) ts))) = (\<Sum>t\<leftarrow>ts. 2 + int (length (mqttstr t)))"
    by (induction ts) auto
  then have len: "MQTTSerialize_unsubscribeLength (length ts) ts = Some (int (length (unsubscribe_body packetid ts)))"
    using unsubscribeLength_loop_eq [of 0 ts "length ts" 2] ok
    by (simp add: MQTTSerialize_unsubscribeLength_def unsubscribe_body_def)
  have f: "serializes (\<lambda>s. writeInt (uint packetid) s \<bind> (\<lambda>s. unsubscribe_loop 0 (length ts) ts s \<bind> ptr_diff))
     (unsubscribe_body packetid ts)"
    unfolding unsubscribe_body_def
    using emits_unsubscribe_loop [of 0 ts "length ts"] ok
      serializes_bind [OF emits_writeInt_uint serializes_bind [OF _ serializes_ptr_diff]] by fastforce
  show ?thesis
    unfolding MQTTSerialize_unsubscribe_def len Option.bind.bind_lunit
    by (rule serialize_outcomeI [OF f small room refl])
qed

subsection \<open>Reading the packets back\<close>

lemma byte_lt_2: "(x :: byte) < 2 \<Longrightarrow> x = 0 \<or> x = 1"
  by (auto simp: word_less_nat_alt less_2_cases_iff word_unat_eq_iff)

lemma int_qos_cases: "0 \<le> (q :: int) \<Longrightarrow> q \<le> 3 \<Longrightarrow> q = 0 \<or> q = 1 \<or> q = 2 \<or> q = 3"
  by linarith

lemmas header_defs = MQTT_HEADER_GET_TYPE_def MQTT_HEADER_GET_DUP_def MQTT_HEADER_GET_QOS_def
  MQTT_HEADER_GET_RETAIN_def MQTT_HEADER_SET_TYPE_def MQTT_HEADER_SET_DUP_def MQTT_HEADER_SET_QOS_def
  MQTT_HEADER_SET_RETAIN_def publish_header_def ack_header_def sub_header_def

lemma publish_header_fields:
  assumes "dup < 2" and "retain < 2" and "0 \<le> qos" and "qos \<le> 3"
  shows "MQTT_HEADER_GET_TYPE (publish_header dup qos retain) = cpt PUBLISH"
    and "MQTT_HEADER_GET_DUP (publish_header dup qos retain) = dup"
    and "uint (MQTT_HEADER_GET_QOS (publish_header dup qos retain)) = qos"
    and "MQTT_HEADER_GET_RETAIN (publish_header dup qos retain) = retain"
  using byte_lt_2 [OF assms(1)] byte_lt_2 [OF assms(2)] int_qos_cases [OF assms(3,4)]
  by (auto simp: header_defs Let_def)

lemma ack_header_fields:
  assumes "dup < 2"
  shows "MQTT_HEADER_GET_TYPE (ack_header (cpt t) dup) = cpt t"
    and "MQTT_HEADER_GET_DUP (ack_header (cpt t) dup) = dup"
  using byte_lt_2 [OF assms] by (cases t; auto simp: header_defs Let_def)+

text \<open>Opening the fixed header and the remaining length of a packet.\<close>

lemma readChar_fixed_packet: "readChar (fixed_packet h body @ rest) 0 = Some (h, 1)"
  by (simp add: readChar_def fixed_packet_def)

lemma decodeBuf_fixed_packet:
  "length body < 268435456 \<Longrightarrow>
   MQTTPacket_decodeBuf (fixed_packet h body @ rest) (Suc 0) = Some (length (remlen_bytes (length body)), int (length body))"
  using remlen.dec_enc [of "length body" "[h]" "body @ rest"] by (simp add: fixed_packet_def)

lemma fixed_packet_split:
  "fixed_packet h (a @ b) @ rest = (h # remlen_bytes (length (a @ b))) @ a @ b @ rest"
  by (simp add: fixed_packet_def)

lemma publish_deserializes:
  assumes hdr: "dup < 2" "retain < 2" "0 \<le> qos" "qos \<le> 3"
    and topic: "length topic < 65536"
    and small: "length (publish_body qos topic packetid payload) < 268435456"
  shows "MQTTDeserialize_publish out (fixed_packet (publish_header dup qos retain) (publish_body qos topic packetid payload) @ rest)
     = Some (1, out\<lparr>po_dup := dup, po_qos := qos, po_retained := retain,
         po_packetid := (if qos > 0 then packetid else po_packetid out),
         po_topicName := \<lparr>cstring = None, lenstring = \<lparr>ls_len = int (length topic), ls_data = Some topic\<rparr>\<rparr>,
         po_payload := Some (length (fixed_packet (publish_header dup qos retain) (publish_body qos topic packetid payload)) - length payload),
         po_payloadlen := int (length payload)\<rparr>)"
proof -
  let ?h = "publish_header dup qos retain" and ?id = "if qos > 0 then int_bytes (unat packetid) else []"
  let ?body = "publish_body qos topic packetid payload"
  let ?pre = "?h # remlen_bytes (length ?body)"
  have buf: "fixed_packet ?h ?body @ rest = ?pre @ str_bytes topic @ ?id @ payload @ rest"
    by (simp add: publish_body_def fixed_packet_def)
  have topicR: "readMQTTLenString m (fixed_packet ?h ?body @ rest) (Suc (length (remlen_bytes (length ?body)))) enddata =
      Some (1, \<lparr>cstring = None, lenstring = \<lparr>ls_len = int (length topic), ls_data = Some topic\<rparr>\<rparr>,
            Suc (length (remlen_bytes (length ?body))) + 2 + length topic)"
    if "int (length ?pre + 2 + length topic) \<le> enddata" for m enddata
    using readMQTTLenString_str_bytes [OF topic that, of m] unfolding buf by simp
  have idR: "readInt (fixed_packet ?h ?body @ rest) (Suc (Suc (Suc (length (remlen_bytes (length ?body)) + length topic)))) =
      Some (uint packetid, Suc (Suc (Suc (length (remlen_bytes (length ?body)) + length topic))) + 2)"
    if "qos > 0"
    using readInt_int_bytes [of "unat packetid" "?pre @ str_bytes topic" "payload @ rest"] that unat_u16_lt [of packetid]
    unfolding buf by simp
  have lb: "length ?body = 2 + length topic + length ?id + length payload"
    by (simp add: publish_body_def)
  show ?thesis
    unfolding MQTTDeserialize_publish_def readChar_fixed_packet
    using publish_header_fields [OF hdr] small topicR idR lb
    by (simp add: decodeBuf_fixed_packet)
qed

lemma ack_deserializes:
  assumes "dup < 2"
  shows "MQTTDeserialize_ack pid0 (fixed_packet (ack_header (cpt t) dup) (int_bytes (unat packetid)) @ rest)
     = Some (1, cpt t, dup, packetid)"
proof -
  let ?h = "ack_header (cpt t) dup"
  have "readInt (fixed_packet ?h (int_bytes (unat packetid)) @ rest) (Suc (Suc 0)) = Some (uint packetid, 4)"
    using readInt_int_bytes [of "unat packetid" "[?h, 2]" rest] unat_u16_lt [of packetid]
    by (simp add: fixed_packet_def)
  then show ?thesis
    unfolding MQTTDeserialize_ack_def readChar_fixed_packet
    using ack_header_fields [OF assms, of t] by (simp add: decodeBuf_fixed_packet)
qed

lemma suback_loop_eq:
  "length g + length qs \<le> maxcount \<Longrightarrow>
   suback_loop (pre @ qs @ rest) (length pre) (int (length pre + length qs)) maxcount g = Some (1, g @ map sint qs)"
proof (induction qs arbitrary: pre g)
  case Nil
  then show ?case by (simp add: suback_loop.simps)
next
  case (Cons q qs)
  from Cons.IH [of "g @ [sint q]" "pre @ [q]"] Cons.prems show ?case
    by (simp add: suback_loop.simps [of _ "length pre"])
qed

subsection \<open>Properties\<close>

text \<open>
  \<open>MQTTSerialize_connect\<close> writes exactly the CONNECT packet of MQTT 3.1 or 3.1.1 (protocol
  name and level, flags, keep-alive, client id, will, user name and password, each when given),
  or reports that the buffer is too short and leaves it alone.
\<close>

lemma connect_wire_format:
  assumes "connectData_ok cd" "length (connect_body cd) < 268435456" "buflen \<le> int (length buf)"
  shows "MQTTSerialize_connect buf buflen cd =
     (if MQTTPacket_len (int (length (connect_body cd))) > buflen then Some (MQTTPACKET_BUFFER_TOO_SHORT, buf)
      else let packet = 0x10 # remlen_bytes (length (connect_body cd)) @ connect_body cd
           in Some (int (length packet), blit buf 0 packet))"
  using connect_serializes [OF assms]
  by (simp add: serialize_outcome_def fixed_packet_def MQTT_HEADER_SET_TYPE_def Let_def)

definition sample_connectData :: MQTTPacket_connectData where
  "sample_connectData =
     \<lparr>struct_id = [0x4D, 0x51, 0x54, 0x43], struct_version = 0, MQTTVersion = 4,
      clientID = MQTTString_initializer\<lparr>cstring := Some [0x64]\<rparr>, keepAliveInterval = 60, cleansession = 1, willFlag = 0,
      will = \<lparr>will_struct_id = [], will_struct_version = 0, will_topicName = MQTTString_initializer,
        will_message = MQTTString_initializer, will_retained = 0, will_qos = 0\<rparr>,
      username = MQTTString_initializer\<lparr>cstring := Some [0x75]\<rparr>, password = MQTTString_initializer\<rparr>"

lemma sample_connectData_ok: "connectData_ok sample_connectData" "length (connect_body sample_connectData) = 16"
  by (simp_all add: sample_connectData_def connectData_ok_def mqttstr_ok_def MQTTString_initializer_def connect_body_def
      mqttstr_given_def mqttstr_def str_MQTT_def)

text \<open>
  C10: What \<open>MQTTSerialize_publish\<close> writes, \<open>MQTTDeserialize_publish\<close> reads back: flags, QoS,
  packet id (with a QoS above 0), topic and payload, whatever follows the packet in the buffer.
\<close>

theorem publish_roundtrip:
  assumes "mqttstr_ok t" "length (mqttstr t) < 65536" "dup < 2" "retained < 2" "0 \<le> qos" "qos \<le> 3"
    and small: "2 + length (mqttstr t) + 2 + length payload < 268435456"
    and room: "MQTTPacket_len (MQTTSerialize_publishLength qos t (int (length payload))) \<le> int (length buf)"
  shows "\<exists>buf' n. MQTTSerialize_publish buf (int (length buf)) dup qos retained packetid t payload (int (length payload)) = Some (int n, buf') \<and>
     length buf' = length buf \<and> n \<le> length buf \<and>
     MQTTDeserialize_publish out buf' = Some (1, out\<lparr>po_dup := dup, po_qos := qos, po_retained := retained,
         po_packetid := (if qos > 0 then packetid else po_packetid out),
         po_topicName := \<lparr>cstring = None, lenstring = \<lparr>ls_len = int (length (mqttstr t)), ls_data = Some (mqttstr t)\<rparr>\<rparr>,
         po_payload := Some (n - length payload), po_payloadlen := int (length payload)\<rparr>) \<and>
     take (length payload) (drop (n - length payload) buf') = payload"
proof -
  let ?body = "publish_body qos (mqttstr t) packetid payload"
  let ?packet = "fixed_packet (publish_header dup qos retained) ?body"
  let ?pre = "publish_header dup qos retained # remlen_bytes (length ?body) @ str_bytes (mqttstr t) @
    (if qos > 0 then int_bytes (unat packetid) else [])"
  have lb: "length ?body < 268435456" using small by (simp add: publish_body_def)
  have len: "MQTTSerialize_publishLength qos t (int (length payload)) = int (length ?body)"
    using assms(1) by (simp add: MQTTSerialize_publishLength_def publish_body_def MQTTstrlen_mqttstr)
  have fit: "length ?packet \<le> length buf" using MQTTPacket_len_covers [OF lb] room by (simp add: len)
  have ser: "MQTTSerialize_publish buf (int (length buf)) dup qos retained packetid t payload (int (length payload)) =
      Some (int (length ?packet), blit buf 0 ?packet)"
    using publish_serializes [OF assms(1) order_refl lb, of buf dup retained] room
    by (simp add: serialize_outcome_def len del: length_fixed_packet)
  have b: "blit buf 0 ?packet = ?packet @ drop (length ?packet) buf" by (simp add: blit_def)
  have "?packet = ?pre @ payload" by (simp add: fixed_packet_def publish_body_def)
  then have pay: "take (length payload) (drop (length ?packet - length payload) (blit buf 0 ?packet)) = payload"
    unfolding b by (rule take_drop_suffix)
  show ?thesis
    using ser pay fit publish_deserializes [OF assms(3-6) assms(2) lb, of out "drop (length ?packet) buf"]
    by (intro exI [of _ "blit buf 0 ?packet"] exI [of _ "length ?packet"]) (simp add: b del: length_fixed_packet)
qed

theorem publish_roundtrip_witness:
  "\<exists>buf' n. MQTTSerialize_publish (replicate 9 0) (int (length (replicate 9 (0 :: byte)))) 0 1 0 7
       (MQTTString_initializer\<lparr>cstring := Some [0x61]\<rparr>) [0x62, 0x63] (int (length [0x62, 0x63 :: byte])) = Some (int n, buf') \<and>
     length buf' = length (replicate 9 (0 :: byte)) \<and> n \<le> length (replicate 9 (0 :: byte)) \<and>
     MQTTDeserialize_publish \<lparr>po_dup = 0, po_qos = 0, po_retained = 0, po_packetid = 0, po_topicName = MQTTString_initializer,
         po_payload = None, po_payloadlen = 0\<rparr> buf' =
       Some (1, \<lparr>po_dup = 0, po_qos = 0, po_retained = 0, po_packetid = 0, po_topicName = MQTTString_initializer,
         po_payload = None, po_payloadlen = 0\<rparr>\<lparr>po_dup := 0, po_qos := 1, po_retained := 0,
         po_packetid := (if (1 :: int) > 0 then 7 else po_packetid \<lparr>po_dup = 0, po_qos = 0, po_retained = 0, po_packetid = 0,
           po_topicName = MQTTString_initializer, po_payload = None, po_payloadlen = 0\<rparr>),
         po_topicName := \<lparr>cstring = None, lenstring = \<lparr>ls_len = int (length (mqttstr (MQTTString_initializer\<lparr>cstring := Some [0x61]\<rparr>))),
           ls_data = Some (mqttstr (MQTTString_initializer\<lparr>cstring := Some [0x61]\<rparr>))\<rparr>\<rparr>,
         po_payload := Some (n - length [0x62, 0x63 :: byte]), po_payloadlen := int (length [0x62, 0x63 :: byte])\<rparr>) \<and>
     take (length [0x62, 0x63 :: byte]) (drop (n - length [0x62, 0x63 :: byte]) buf') = [0x62, 0x63]"
  by (rule publish_roundtrip)
     (simp_all add: mqttstr_ok_def mqttstr_def MQTTString_initializer_def MQTTPacket_len_def MQTTSerialize_publishLength_def MQTTstrlen_def Let_def)

text \<open>
  \<open>MQTTSerialize_subscribe\<close> and \<open>MQTTSerialize_unsubscribe\<close> write exactly the packets of
  the protocol for any number of topic filters, or report that the buffer is too short.
\<close>

lemma subscribe_wire_format:
  assumes "\<forall>t \<in> set ts. mqttstr_ok t" "length qs = length ts" "buflen \<le> int (length buf)"
    and "length (subscribe_body packetid (zip ts qs)) < 268435456"
  shows "MQTTSerialize_subscribe buf buflen dup packetid (length ts) ts qs =
       serialize_outcome buf buflen (sub_header SUBSCRIBE dup) (subscribe_body packetid (zip ts qs)) \<and>
     MQTTSerialize_unsubscribe buf buflen dup packetid (length ts) ts =
       serialize_outcome buf buflen (sub_header UNSUBSCRIBE dup) (unsubscribe_body packetid ts)"
proof -
  have "length (concat (map (\<lambda>t. str_bytes (mqttstr t)) ts)) \<le>
      length (concat (map (\<lambda>(t, q). str_bytes (mqttstr t) @ [word_of_int q :: byte]) (zip ts qs)))"
    using assms(2) by (induction ts qs rule: list_induct2') auto
  then have "length (unsubscribe_body packetid ts) < 268435456"
    using assms(4) by (simp add: subscribe_body_def unsubscribe_body_def)
  then show ?thesis
    using subscribe_serializes [OF assms] unsubscribe_serializes [OF assms(1,3)] by simp
qed

text \<open>
  An acknowledgement that \<open>MQTTSerialize_ack\<close> writes is read back by \<open>MQTTDeserialize_ack\<close>
  with its type, dup flag and packet id.
\<close>

lemma ack_roundtrip:
  assumes "dup < 2" "4 \<le> length buf"
  shows "\<exists>buf'. MQTTSerialize_ack buf (int (length buf)) (cpt t) dup packetid = Some (4, buf') \<and> length buf' = length buf \<and>
     MQTTDeserialize_ack pid0 buf' = Some (1, cpt t, dup, packetid)"
proof -
  let ?packet = "fixed_packet (ack_header (cpt t) dup) (int_bytes (unat packetid))"
  have "MQTTSerialize_ack buf (int (length buf)) (cpt t) dup packetid = Some (4, blit buf 0 ?packet)"
    using ack_serializes [of "int (length buf)" buf "cpt t" dup packetid] assms(2)
    by (simp add: serialize_outcome_def MQTTPacket_len_def)
  moreover have "blit buf 0 ?packet = ?packet @ drop 4 buf" by (simp add: blit_def eval_nat_numeral)
  ultimately show ?thesis using ack_deserializes [OF assms(1), of pid0 t packetid] assms(2) by simp
qed

text \<open>
  \<open>MQTTDeserialize_suback\<close> returns the packet id and all granted QoS values of a SUBACK packet
  that has room in the caller's array, each sign extended from \<open>char\<close>.
\<close>

lemma suback_deserializes:
  assumes "length qs \<le> maxcount" and "maxcount < 65536" and hdr: "MQTT_HEADER_GET_TYPE h = cpt SUBACK"
  shows "MQTTDeserialize_suback pid0 maxcount g0 (fixed_packet h (int_bytes (unat packetid) @ qs) @ rest)
     = Some (1, packetid, map sint qs)"
proof -
  let ?pre = "h # remlen_bytes (length (int_bytes (unat packetid) @ qs))"
  have small: "length (int_bytes (unat packetid) @ qs) < 268435456" using assms(1,2) by simp
  have "readInt (fixed_packet h (int_bytes (unat packetid) @ qs) @ rest) (length ?pre) = Some (uint packetid, length ?pre + 2)"
    using readInt_int_bytes [of "unat packetid" ?pre "qs @ rest"] unat_u16_lt [of packetid]
    by (simp add: fixed_packet_def)
  moreover have "suback_loop (fixed_packet h (int_bytes (unat packetid) @ qs) @ rest) (length ?pre + 2)
      (int (length ?pre + 2 + length qs)) maxcount [] = Some (1, map sint qs)"
    using suback_loop_eq [of "[]" qs maxcount "?pre @ int_bytes (unat packetid)" rest] assms(1)
    by (simp add: fixed_packet_def)
  ultimately show ?thesis
    unfolding MQTTDeserialize_suback_def readChar_fixed_packet
    using hdr by (simp add: decodeBuf_fixed_packet [OF small] del: length_append) (simp add: algebra_simps)
qed

text \<open>
  Malformed packets are accepted. An acknowledgement without a packet id is reported as read,
  with the packet id that the caller's variable held before; so is a PUBLISH whose topic runs past
  the end of the packet.
\<close>

lemma malformed_accepted:
  "MQTTDeserialize_ack pid0 (0x40 # 0 # rest) = Some (1, cpt PUBACK, 0, pid0) \<and>
   MQTTDeserialize_publish out (0x30 # 1 # rest) = Some (1, out\<lparr>po_dup := 0, po_qos := 0, po_retained := 0,
     po_topicName := (po_topicName out)\<lparr>cstring := None\<rparr>\<rparr>)"
  by (simp_all add: MQTTDeserialize_ack_def MQTTDeserialize_publish_def readChar_def header_defs MQTTPacket_decodeBuf_def MQTTPacket_decode_def
      MQTTPacket_decode_loop.simps [of _ 0] MAX_NO_OF_REMAINING_LENGTH_BYTES_def bufchar_def readMQTTLenString_def)

text \<open>
  A PUBLISH with a QoS above 0 whose remaining length ends behind the topic: the packet id is
  read from behind the packet (outside the buffer when that ends there), and the payload
  length is negative.
\<close>

lemma publish_overread:
  "MQTTDeserialize_publish out [0x32, 3, 0, 1, 0x61] = None \<and>
   (\<exists>out'. MQTTDeserialize_publish out [0x32, 3, 0, 1, 0x61, x, y] = Some (1, out') \<and> po_payloadlen out' = -2)"
  by (simp_all add: MQTTDeserialize_publish_def readChar_def header_defs MQTTPacket_decodeBuf_def MQTTPacket_decode_def
      MQTTPacket_decode_loop.simps [of _ 0] MAX_NO_OF_REMAINING_LENGTH_BYTES_def bufchar_def readMQTTLenString_def readInt_def load_def load_bytes_def)

end
