(* ===== verification/MQTT_Topic.thy ===== *)
theory MQTT_Topic
  imports Infra_String
begin

text \<open>
  Topic names and topic filters of \<open>src/mqtt/impl/iotx_mqtt_client.c\<close>: the matcher that
  dispatches an incoming message (\<open>iotx_mc_is_topic_matched\<close>) and the validation done before a
  publish or a subscribe (\<open>iotx_mc_check_rule\<close>, \<open>iotx_mc_check_topic\<close>), related to
  the matching that MQTT 3.1.1 defines on the levels of a topic.
\<close>

abbreviation SLASH :: byte where "SLASH \<equiv> 0x2F"
abbreviation PLUS :: byte where "PLUS \<equiv> 0x2B"
abbreviation HASH :: byte where "HASH \<equiv> 0x23"

subsection \<open>Matching\<close>

text \<open>
  The loop of the matcher. The first list is the rest of the filter at \<open>curf\<close>, the second the
  bytes from \<open>curn\<close> to \<open>curn_end\<close>.
\<close>

fun topic_match_loop :: "cstr \<Rightarrow> byte list \<Rightarrow> cstr \<times> byte list" where
  "topic_match_loop [] curn = ([], curn)"
| "topic_match_loop curf [] = (curf, [])"
| "topic_match_loop (f # fs) (n # ns) =
     (if n = SLASH \<and> f \<noteq> SLASH then (f # fs, n # ns)
      else if f \<noteq> PLUS \<and> f \<noteq> HASH \<and> f \<noteq> n then (f # fs, n # ns)
      else if f = PLUS then topic_match_loop fs (dropWhile (\<lambda>c. c \<noteq> SLASH) ns)
      else if f = HASH then topic_match_loop fs []
      else topic_match_loop fs ns)"

definition iotx_mc_is_topic_matched :: "cstr option \<Rightarrow> byte list option \<Rightarrow> bool" where
  "iotx_mc_is_topic_matched topicFilter topicName =
     (case (topicFilter, topicName) of
        (Some flt, Some name) \<Rightarrow> (case topic_match_loop flt name of (curf, curn) \<Rightarrow> curn = [] \<and> curf = [])
      | _ \<Rightarrow> False)"

subsection \<open>Validation\<close>

datatype iotx_mc_topic_type_t = TOPIC_NAME_TYPE | TOPIC_FILTER_TYPE

definition CONFIG_MQTT_TOPIC_MAXLEN :: nat where "CONFIG_MQTT_TOPIC_MAXLEN = 128"

fun check_rule_loop :: "nat \<Rightarrow> iotx_mc_topic_type_t \<Rightarrow> cstr \<Rightarrow> int" where
  "check_rule_loop len type [] = SUCCESS_RETURN"
| "check_rule_loop len type (c # cs) =
     (if type = TOPIC_FILTER_TYPE \<and> (c = PLUS \<or> c = HASH) \<and> len \<noteq> 1 then FAIL_RETURN
      else if type \<noteq> TOPIC_FILTER_TYPE \<and> (c = PLUS \<or> c = HASH) then FAIL_RETURN
      else if c < 32 \<or> c \<ge> 127 then FAIL_RETURN
      else check_rule_loop len type cs)"

definition iotx_mc_check_rule :: "cstr option \<Rightarrow> iotx_mc_topic_type_t \<Rightarrow> int" where
  "iotx_mc_check_rule iterm type =
     (case iterm of None \<Rightarrow> FAIL_RETURN | Some s \<Rightarrow> check_rule_loop (length s) type s)"

text \<open>
  The \<open>for\<close> loop of \<open>iotx_mc_check_topic\<close>, on the array \<open>topicString\<close> and the position
  that \<open>infra_strtok\<close> keeps.
\<close>

function check_topic_loop :: "byte list \<Rightarrow> nat option \<Rightarrow> int \<Rightarrow> iotx_mc_topic_type_t \<Rightarrow> int option" where
  "check_topic_loop mem pos hmask type =
     (case infra_strtok None [SLASH] mem pos of
        None \<Rightarrow> None
      | Some (iterm, mem', pos') \<Rightarrow>
          (case iterm of
             None \<Rightarrow> Some SUCCESS_RETURN
           | Some q \<Rightarrow>
               if hmask = 1 then Some FAIL_RETURN
               else if iotx_mc_check_rule (Some (str_at mem' q)) type \<noteq> SUCCESS_RETURN then Some FAIL_RETURN
               else check_topic_loop mem' pos'
                      (if str_at mem' q \<noteq> [] \<and> hd (str_at mem' q) = HASH then 1 else hmask) type))"
  by pat_completeness auto
termination
proof (relation "measure (\<lambda>(mem, pos, hmask, type). case pos of None \<Rightarrow> 0 | Some p \<Rightarrow> length mem - p)", goal_cases)
  case (2 mem pos hmask type x iterm y mem' pos' q)
  then obtain p where p: "pos = Some p"
    by (cases pos) (auto simp: infra_strtok_def)
  obtain r m p' where "infra_strtok None [SLASH] mem (Some p) = Some (r, m, Some p')"
    and ret: "strtok_ret mem p r m p' (tok SLASH (str_at mem p))"
    by (rule infra_strtok_tok [of SLASH p mem None]) (simp, blast)
  with 2 p have eqs: "mem' = m" "pos' = Some p'" "r = Some q" by auto
  with ret have "p < p' \<and> p' \<le> length mem \<and> length m = length mem"
    by (auto simp: strtok_ret_def split: option.splits)
  then show ?case using eqs p by (auto intro: diff_less_mono2)
qed simp

declare check_topic_loop.simps [simp del]

definition iotx_mc_check_topic :: "cstr option \<Rightarrow> iotx_mc_topic_type_t \<Rightarrow> int option" where
  "iotx_mc_check_topic topicName type =
     (case topicName of
        None \<Rightarrow> Some FAIL_RETURN
      | Some name \<Rightarrow>
          if name = [] \<or> hd name \<noteq> SLASH then Some FAIL_RETURN
          else if length name > CONFIG_MQTT_TOPIC_MAXLEN then Some FAIL_RETURN
          else do {
            let topicString = blit (replicate CONFIG_MQTT_TOPIC_MAXLEN 0) 0 (take (CONFIG_MQTT_TOPIC_MAXLEN - 1) name);
            (iterm, mem, pos) \<leftarrow> infra_strtok (Some 0) [SLASH] topicString None;
            if iotx_mc_check_rule (map_option (str_at mem) iterm) type \<noteq> SUCCESS_RETURN then Some FAIL_RETURN
            else check_topic_loop mem pos 0 type
          })"

subsection \<open>Levels of a topic\<close>

fun topic_levels :: "byte list \<Rightarrow> byte list list" where
  "topic_levels [] = [[]]"
| "topic_levels (c # cs) =
     (if c = SLASH then [] # topic_levels cs
      else case topic_levels cs of l # ls \<Rightarrow> (c # l) # ls | [] \<Rightarrow> [[c]])"

text \<open>A filter whose wildcards occupy whole levels and whose \<open>#\<close> is the last level.\<close>

definition level_ok :: "byte list \<Rightarrow> bool" where
  "level_ok l \<longleftrightarrow> l = [PLUS] \<or> l = [HASH] \<or> PLUS \<notin> set l \<and> HASH \<notin> set l"

definition filter_ok :: "byte list \<Rightarrow> bool" where
  "filter_ok flt \<longleftrightarrow> list_all level_ok (topic_levels flt) \<and> [HASH] \<notin> set (butlast (topic_levels flt))"

text \<open>
  Matching as MQTT 3.1.1 defines it (section 4.7.1), on the levels of the filter and of the name:
  \<open>+\<close> stands for one level, which may be empty, and \<open>#\<close> as the last level for any number of
  further levels, none included, so that it also matches the parent level. (The rule of section
  4.7.2 on names that start with a dollar sign is one for the server and not part of this.)
\<close>

fun mqtt_match :: "byte list list \<Rightarrow> byte list list \<Rightarrow> bool" where
  "mqtt_match [] ns \<longleftrightarrow> ns = []"
| "mqtt_match (f # fs) ns \<longleftrightarrow>
     (if f = [HASH] then fs = []
      else case ns of [] \<Rightarrow> False | n # ns' \<Rightarrow> (f = [PLUS] \<or> f = n) \<and> mqtt_match fs ns')"

text \<open>Under every wildcard of the filter the name has a level, and that level is not empty.\<close>

definition wildcards_filled :: "byte list list \<Rightarrow> byte list list \<Rightarrow> bool" where
  "wildcards_filled fs ns \<longleftrightarrow> (\<forall>i<length fs. fs ! i \<in> {[PLUS], [HASH]} \<longrightarrow> i < length ns \<and> ns ! i \<noteq> [])"

text \<open>
  The comparison that the character loop makes, level by level. It is narrower than
  \<^const>\<open>mqtt_match\<close>: \<open>+\<close> takes a non-empty level only, and \<open>#\<close> the rest of the name only if
  that starts with a non-empty level.
\<close>

fun levels_match :: "byte list list \<Rightarrow> byte list list \<Rightarrow> bool" where
  "levels_match [] ns \<longleftrightarrow> ns = []"
| "levels_match (f # fs) ns \<longleftrightarrow>
     (case ns of
        [] \<Rightarrow> False
      | n # ns' \<Rightarrow>
          if f = [HASH] then n \<noteq> [] \<and> fs = []
          else if f = [PLUS] then n \<noteq> [] \<and> levels_match fs ns'
          else f = n \<and> levels_match fs ns')"

lemma wildcards_filled_Nil [simp]: "wildcards_filled [] ns"
  by (simp add: wildcards_filled_def)

lemma wildcards_filled_Cons [simp]:
  "wildcards_filled (f # fs) ns \<longleftrightarrow> (f \<in> {[PLUS], [HASH]} \<longrightarrow> ns \<noteq> [] \<and> hd ns \<noteq> []) \<and> wildcards_filled fs (tl ns)"
  by (cases ns) (auto simp: wildcards_filled_def All_less_Suc2)

lemma levels_match_mqtt: "levels_match fs ns \<longleftrightarrow> mqtt_match fs ns \<and> wildcards_filled fs ns"
  by (induction fs ns rule: levels_match.induct) (auto split: list.splits)

declare dropWhile_eq_Nil_conv [simp del]

lemma topic_levels_ne [simp]: "topic_levels s \<noteq> []"
  by (induction s) (auto split: list.splits)

lemma topic_levels_unfold:
  "topic_levels s = takeWhile (\<lambda>c. c \<noteq> SLASH) s #
     (case dropWhile (\<lambda>c. c \<noteq> SLASH) s of [] \<Rightarrow> [] | c # r \<Rightarrow> topic_levels r)"
  by (induction s) (auto split: list.splits)

definition matched :: "cstr \<Rightarrow> byte list \<Rightarrow> bool" where
  "matched flt name \<longleftrightarrow> topic_match_loop flt name = ([], [])"

lemma is_topic_matched_iff: "iotx_mc_is_topic_matched (Some flt) (Some name) \<longleftrightarrow> matched flt name"
  by (auto simp: iotx_mc_is_topic_matched_def matched_def split: prod.splits)

lemma matched_Nil [simp]: "matched [] n \<longleftrightarrow> n = []"
  by (simp add: matched_def)

lemma matched_end [simp]: "matched f [] \<longleftrightarrow> f = []"
  by (cases f) (simp_all add: matched_def)

lemma matched_plus: "matched (PLUS # fs) (n # ns) \<longleftrightarrow> n \<noteq> SLASH \<and> matched fs (dropWhile (\<lambda>c. c \<noteq> SLASH) ns)"
  by (simp add: matched_def)

lemma matched_hash: "matched [HASH] n \<longleftrightarrow> n \<noteq> [] \<and> hd n \<noteq> SLASH"
  by (cases n) (simp_all add: matched_def)

lemma matched_char:
  "f \<noteq> PLUS \<Longrightarrow> f \<noteq> HASH \<Longrightarrow> matched (f # fs) n \<longleftrightarrow> (\<exists>ns. n = f # ns \<and> matched fs ns)"
  by (cases n) (auto simp: matched_def)

lemma matched_literal:
  "PLUS \<notin> set f \<Longrightarrow> HASH \<notin> set f \<Longrightarrow> matched (f @ r) n \<longleftrightarrow> (\<exists>m. n = f @ m \<and> matched r m)"
proof (induction f arbitrary: n)
  case (Cons c f)
  have "matched ((c # f) @ r) n \<longleftrightarrow> (\<exists>ns. n = c # ns \<and> matched (f @ r) ns)"
    using Cons.prems matched_char [of c "f @ r" n] by auto
  also have "\<dots> \<longleftrightarrow> (\<exists>m. n = (c # f) @ m \<and> matched r m)"
    using Cons.IH Cons.prems by auto
  finally show ?case .
qed simp

lemma takeWhile_slash_append:
  "SLASH \<notin> set f \<Longrightarrow> takeWhile (\<lambda>c. c \<noteq> SLASH) (f @ SLASH # m) = f \<and> dropWhile (\<lambda>c. c \<noteq> SLASH) (f @ SLASH # m) = SLASH # m"
  by (induction f) auto

lemma takeWhile_slash_all:
  "SLASH \<notin> set f \<Longrightarrow> takeWhile (\<lambda>c. c \<noteq> SLASH) f = f \<and> dropWhile (\<lambda>c. c \<noteq> SLASH) f = []"
  by (induction f) auto

lemma dropWhile_slash_Cons: "dropWhile (\<lambda>c. c \<noteq> SLASH) s = c # r \<Longrightarrow> c = SLASH"
  by (induction s) (auto split: if_splits)

text \<open>
  One level of a filter: what the matcher accepts is decided by the first level of the name
  and then by the rest of both.
\<close>

definition level_accepts :: "byte list \<Rightarrow> byte list \<Rightarrow> bool" where
  "level_accepts f n \<longleftrightarrow> (if f = [PLUS] then n \<noteq> [] else f = n)"

lemma matched_level_last:
  assumes "level_ok f" "f \<noteq> [HASH]" "SLASH \<notin> set f"
  shows "matched f n \<longleftrightarrow> level_accepts f (takeWhile (\<lambda>c. c \<noteq> SLASH) n) \<and> dropWhile (\<lambda>c. c \<noteq> SLASH) n = []"
proof (cases "f = [PLUS]")
  case True
  then show ?thesis by (cases n) (simp_all add: matched_plus level_accepts_def)
next
  case False
  with assms have "matched f n \<longleftrightarrow> n = f" using matched_literal [of f "[]" n] by (simp add: level_ok_def)
  moreover have "n = f \<longleftrightarrow> takeWhile (\<lambda>c. c \<noteq> SLASH) n = f \<and> dropWhile (\<lambda>c. c \<noteq> SLASH) n = []"
    using takeWhile_slash_all [OF assms(3)] takeWhile_dropWhile_id [of "\<lambda>c. c \<noteq> SLASH" n] by (metis append_Nil2)
  ultimately show ?thesis using False by (auto simp: level_accepts_def)
qed

lemma matched_level_more:
  assumes "level_ok f" "f \<noteq> [HASH]" "SLASH \<notin> set f"
  shows "matched (f @ SLASH # r) n \<longleftrightarrow>
    level_accepts f (takeWhile (\<lambda>c. c \<noteq> SLASH) n) \<and> (\<exists>m. dropWhile (\<lambda>c. c \<noteq> SLASH) n = SLASH # m \<and> matched r m)"
proof (cases "f = [PLUS]")
  case True
  then show ?thesis
    using matched_char [of SLASH r] by (cases n) (auto simp: matched_plus level_accepts_def)
next
  case False
  have "matched (f @ SLASH # r) n \<longleftrightarrow> (\<exists>m. n = f @ SLASH # m \<and> matched r m)"
    using assms False matched_literal [of f "SLASH # r" n] matched_char [of SLASH r] by (auto simp: level_ok_def)
  moreover have "n = f @ SLASH # m \<longleftrightarrow> takeWhile (\<lambda>c. c \<noteq> SLASH) n = f \<and> dropWhile (\<lambda>c. c \<noteq> SLASH) n = SLASH # m" for m
    using takeWhile_slash_append [OF assms(3), of m] takeWhile_dropWhile_id [of "\<lambda>c. c \<noteq> SLASH" n] by metis
  ultimately show ?thesis using False by (auto simp: level_accepts_def)
qed

lemma filter_ok_unfold:
  "filter_ok s \<longleftrightarrow> level_ok (takeWhile (\<lambda>c. c \<noteq> SLASH) s) \<and>
     (case dropWhile (\<lambda>c. c \<noteq> SLASH) s of [] \<Rightarrow> True | c # r \<Rightarrow> takeWhile (\<lambda>c. c \<noteq> SLASH) s \<noteq> [HASH] \<and> filter_ok r)"
  using topic_levels_unfold [of s]
  by (cases "dropWhile (\<lambda>c. c \<noteq> SLASH) s") (auto simp: filter_ok_def simp del: dropWhile_eq_Nil_conv)

lemma takeWhile_no_slash: "SLASH \<notin> set (takeWhile (\<lambda>c. c \<noteq> SLASH) s)"
  by (auto dest: set_takeWhileD)

lemma matched_levels:
  "filter_ok flt \<Longrightarrow> matched flt name \<longleftrightarrow> levels_match (topic_levels flt) (topic_levels name)"
proof (induction "length flt" arbitrary: flt name rule: less_induct)
  case less
  define f where "f = takeWhile (\<lambda>c. c \<noteq> SLASH) flt"
  define n where "n = takeWhile (\<lambda>c. c \<noteq> SLASH) name"
  have f: "SLASH \<notin> set f" "level_ok f"
    using less.prems filter_ok_unfold [of flt] by (simp_all add: f_def takeWhile_no_slash)
  have nhd: "n \<noteq> [] \<longleftrightarrow> name \<noteq> [] \<and> hd name \<noteq> SLASH" by (cases name) (auto simp: n_def)
  show ?case
  proof (cases "dropWhile (\<lambda>c. c \<noteq> SLASH) flt")
    case Nil
    then have "flt = f"
      using takeWhile_dropWhile_id [of "\<lambda>c. c \<noteq> SLASH" flt] unfolding f_def by (metis append_Nil2)
    have lv: "topic_levels flt = [f]"
      using topic_levels_unfold [of flt] Nil by (simp add: f_def del: dropWhile_eq_Nil_conv)
    show ?thesis
    proof (cases "f = [HASH]")
      case True
      with \<open>flt = f\<close> lv nhd show ?thesis
        by (subst topic_levels_unfold [of name]) (simp add: matched_hash n_def)
    next
      case False
      with \<open>flt = f\<close> lv f matched_level_last [OF f(2) False f(1), of name] show ?thesis
        by (subst topic_levels_unfold [of name]) (auto simp: level_accepts_def split: list.splits)
    qed
  next
    case (Cons c r)
    then have c: "c = SLASH" by (rule dropWhile_slash_Cons)
    have flt: "flt = f @ SLASH # r" and lv: "topic_levels flt = f # topic_levels r"
      using Cons c takeWhile_dropWhile_id [of "\<lambda>c. c \<noteq> SLASH" flt] topic_levels_unfold [of flt] by (simp_all add: f_def)
    have r: "f \<noteq> [HASH]" "filter_ok r" using less.prems filter_ok_unfold [of flt] Cons by (simp_all add: f_def)
    have IH: "matched r m \<longleftrightarrow> levels_match (topic_levels r) (topic_levels m)" for m
      using less.hyps [of r m] r(2) flt by simp
    have "matched flt name \<longleftrightarrow> level_accepts f n \<and> (\<exists>m. dropWhile (\<lambda>c. c \<noteq> SLASH) name = SLASH # m \<and> matched r m)"
      unfolding flt n_def by (rule matched_level_more [OF f(2) r(1) f(1)])
    also have "\<dots> \<longleftrightarrow> levels_match (f # topic_levels r) (topic_levels name)"
    proof (cases "dropWhile (\<lambda>c. c \<noteq> SLASH) name")
      case Nil
      with topic_levels_unfold [of name] topic_levels_ne [of r] show ?thesis
        by (cases "topic_levels r") (auto simp: n_def)
    next
      case (Cons c m)
      with dropWhile_slash_Cons [OF Cons] topic_levels_unfold [of name] r(1) show ?thesis
        by (simp add: IH level_accepts_def n_def)
    qed
    finally show ?thesis unfolding lv .
  qed
qed

subsection \<open>What the validation accepts\<close>

text \<open>The tokens that \<open>infra_strtok\<close> yields, one call after the other.\<close>

lemma tok_shorter: "tok d s = Some (w, rest) \<Longrightarrow> length rest < length s"
proof -
  assume "tok d s = Some (w, rest)"
  then have "rest = drop 1 (dropWhile (\<lambda>c. c \<noteq> d) (dropWhile (\<lambda>c. c = d) s))" "s \<noteq> []"
    by (auto simp: tok_def Let_def split: if_splits)
  moreover have "length (dropWhile (\<lambda>c. c \<noteq> d) (dropWhile (\<lambda>c. c = d) s)) \<le> length s"
    by (meson length_dropWhile_le order_trans)
  ultimately obtain u where "rest = drop 1 u" "length u \<le> length s" "s \<noteq> []" by blast
  then show ?thesis by (cases u) auto
qed

function tokens :: "byte \<Rightarrow> cstr \<Rightarrow> cstr list" where
  "tokens d s = (case tok d s of None \<Rightarrow> [] | Some (w, rest) \<Rightarrow> w # tokens d rest)"
  by pat_completeness auto
termination
  by (relation "measure (\<lambda>(d, s). length s)") (auto dest: tok_shorter)

declare tokens.simps [simp del]

definition char_ok :: "byte \<Rightarrow> bool" where "char_ok c \<longleftrightarrow> 32 \<le> c \<and> c < 127"

definition rule_ok :: "iotx_mc_topic_type_t \<Rightarrow> cstr \<Rightarrow> bool" where
  "rule_ok type l \<longleftrightarrow> list_all char_ok l \<and>
     (case type of TOPIC_FILTER_TYPE \<Rightarrow> level_ok l | TOPIC_NAME_TYPE \<Rightarrow> PLUS \<notin> set l \<and> HASH \<notin> set l)"

lemma check_rule_loop_name:
  "check_rule_loop n TOPIC_NAME_TYPE l = SUCCESS_RETURN \<longleftrightarrow> list_all char_ok l \<and> PLUS \<notin> set l \<and> HASH \<notin> set l"
  by (induction l) (auto simp: return_code_defs char_ok_def not_le not_less)

lemma check_rule_loop_filter:
  "check_rule_loop n TOPIC_FILTER_TYPE l = SUCCESS_RETURN \<longleftrightarrow>
     list_all char_ok l \<and> (n \<noteq> 1 \<longrightarrow> PLUS \<notin> set l \<and> HASH \<notin> set l)"
  by (induction l) (auto simp: return_code_defs char_ok_def not_le not_less)

lemma check_rule_iff: "iotx_mc_check_rule (Some l) type = SUCCESS_RETURN \<longleftrightarrow> rule_ok type l"
proof (cases type)
  case TOPIC_NAME_TYPE
  then show ?thesis by (simp add: iotx_mc_check_rule_def rule_ok_def check_rule_loop_name)
next
  case TOPIC_FILTER_TYPE
  have "(length l \<noteq> 1 \<longrightarrow> PLUS \<notin> set l \<and> HASH \<notin> set l) \<longleftrightarrow> level_ok l"
    by (cases l rule: list.exhaust; cases "tl l") (auto simp: level_ok_def)
  with TOPIC_FILTER_TYPE show ?thesis
    by (simp add: iotx_mc_check_rule_def rule_ok_def check_rule_loop_filter)
qed

lemma check_rule_range: "iotx_mc_check_rule l type \<in> {SUCCESS_RETURN, FAIL_RETURN}"
proof -
  have "check_rule_loop n type s \<in> {SUCCESS_RETURN, FAIL_RETURN}" for n s
    by (induction s) auto
  then show ?thesis by (auto simp: iotx_mc_check_rule_def split: option.splits)
qed

text \<open>The loop on tokens: every token obeys the rule, and none follows one that starts with \<open>#\<close>.\<close>

fun tokens_ok :: "iotx_mc_topic_type_t \<Rightarrow> bool \<Rightarrow> cstr list \<Rightarrow> bool" where
  "tokens_ok type hashed [] \<longleftrightarrow> True"
| "tokens_ok type hashed (w # ws) \<longleftrightarrow>
     \<not> hashed \<and> rule_ok type w \<and> tokens_ok type (w \<noteq> [] \<and> hd w = HASH) ws"

lemma check_topic_loop_tokens:
  "check_topic_loop mem (Some p) (if hashed then 1 else 0) type =
     Some (if tokens_ok type hashed (tokens SLASH (str_at mem p)) then SUCCESS_RETURN else FAIL_RETURN)"
proof (induction "length (str_at mem p)" arbitrary: mem p hashed rule: less_induct)
  case less
  obtain r mem' p' where st: "infra_strtok None [SLASH] mem (Some p) = Some (r, mem', Some p')"
    and ret: "strtok_ret mem p r mem' p' (tok SLASH (str_at mem p))"
    by (rule infra_strtok_tok [of SLASH p mem None]) (simp, blast)
  show ?case
  proof (cases "tok SLASH (str_at mem p)")
    case None
    with ret st show ?thesis
      by (simp add: strtok_ret_def check_topic_loop.simps [of mem] tokens.simps [of _ "str_at mem p"])
  next
    case (Some wr)
    obtain w rest where wr: "wr = (w, rest)" by (cases wr)
    with Some ret obtain q where q: "r = Some q" "str_at mem' q = w" "str_at mem' p' = rest"
      by (auto simp: strtok_ret_def)
    have "check_topic_loop mem' (Some p') (if h then 1 else 0) type =
        Some (if tokens_ok type h (tokens SLASH rest) then SUCCESS_RETURN else FAIL_RETURN)" for h
      using less.hyps [of mem' p' h] tok_shorter [of SLASH "str_at mem p" w rest] Some wr q by simp
    from this [of True] this [of False] st q Some wr show ?thesis
      by (simp add: check_topic_loop.simps [of mem] tokens.simps [of _ "str_at mem p"] check_rule_iff)
  qed
qed

text \<open>The strings that the validation accepts.\<close>

definition topic_accepted :: "iotx_mc_topic_type_t \<Rightarrow> cstr \<Rightarrow> bool" where
  "topic_accepted type name \<longleftrightarrow> name \<noteq> [] \<and> hd name = SLASH \<and> length name \<le> 128 \<and>
     (case tokens SLASH (take 127 name) of
        [] \<Rightarrow> False
      | w # ws \<Rightarrow> rule_ok type w \<and> tokens_ok type False ws)"

lemma str_at_topicString:
  assumes "0 \<notin> set s" "length s < n"
  shows "str_at (blit (replicate n 0) 0 s) 0 = s"
proof -
  have "\<forall>c \<in> set s. c \<noteq> 0" using assms by metis
  with assms show ?thesis by (simp add: str_at_def blit_def takeWhile_append2 takeWhile_replicate)
qed

lemma iotx_mc_check_topic_iff:
  assumes "0 \<notin> set name"
  shows "iotx_mc_check_topic (Some name) type =
    Some (if topic_accepted type name then SUCCESS_RETURN else FAIL_RETURN)"
proof (cases "name = [] \<or> hd name \<noteq> SLASH \<or> length name > 128")
  case True
  then show ?thesis
    by (auto simp: iotx_mc_check_topic_def topic_accepted_def CONFIG_MQTT_TOPIC_MAXLEN_def)
next
  case False
  define mem where "mem = blit (replicate 128 0) 0 (take 127 name)"
  have mem: "str_at mem 0 = take 127 name"
    unfolding mem_def using assms by (intro str_at_topicString) (auto dest: in_set_takeD)
  obtain r mem' p' where st: "infra_strtok (Some 0) [SLASH] mem None = Some (r, mem', Some p')"
    and ret: "strtok_ret mem 0 r mem' p' (tok SLASH (take 127 name))"
    by (rule infra_strtok_tok [of SLASH 0 mem None]) (simp, metis mem)
  have def_eq: "iotx_mc_check_topic (Some name) type =
      (if iotx_mc_check_rule (map_option (str_at mem') r) type \<noteq> SUCCESS_RETURN then Some FAIL_RETURN
       else check_topic_loop mem' (Some p') 0 type)"
    using False st by (simp add: iotx_mc_check_topic_def CONFIG_MQTT_TOPIC_MAXLEN_def mem_def)
  show ?thesis
  proof (cases "tok SLASH (take 127 name)")
    case None
    with False ret show ?thesis
      by (simp add: def_eq strtok_ret_def topic_accepted_def tokens.simps [of _ "take 127 name"]
                    iotx_mc_check_rule_def return_code_defs)
  next
    case (Some wr)
    obtain w rest where wr: "wr = (w, rest)" by (cases wr)
    with Some ret obtain q where q: "r = Some q" "str_at mem' q = w" "str_at mem' p' = rest"
      by (auto simp: strtok_ret_def)
    with False Some wr check_topic_loop_tokens [of mem' p' False type] show ?thesis
      by (simp add: def_eq topic_accepted_def tokens.simps [of _ "take 127 name"] check_rule_iff)
  qed
qed

subsection \<open>Validation and levels\<close>

text \<open>A topic name or filter as MQTT wants it.\<close>

definition topic_ok :: "iotx_mc_topic_type_t \<Rightarrow> cstr \<Rightarrow> bool" where
  "topic_ok type s \<longleftrightarrow> list_all char_ok s \<and>
     (case type of TOPIC_FILTER_TYPE \<Rightarrow> filter_ok s | TOPIC_NAME_TYPE \<Rightarrow> PLUS \<notin> set s \<and> HASH \<notin> set s)"

lemma topic_levels_slashes:
  "topic_levels s = replicate (length (takeWhile (\<lambda>c. c = SLASH) s)) [] @ topic_levels (dropWhile (\<lambda>c. c = SLASH) s)"
  by (induction s) auto

lemma tok_cases:
  assumes "1 < length s" "dropWhile (\<lambda>c. c = SLASH) s = r" "r \<noteq> []"
  obtains (last) "tok SLASH s = Some (r, [])" "topic_levels r = [r]" "SLASH \<notin> set r"
  | (more) w rest where "tok SLASH s = Some (w, rest)" "r = w @ SLASH # rest" "w \<noteq> []" "SLASH \<notin> set w"
      "topic_levels r = w # topic_levels rest"
proof (cases "dropWhile (\<lambda>c. c \<noteq> SLASH) r")
  case Nil
  then have "takeWhile (\<lambda>c. c \<noteq> SLASH) r = r"
    by (metis append_Nil2 takeWhile_dropWhile_id)
  with Nil assms show ?thesis
    using takeWhile_no_slash [of r] topic_levels_unfold [of r] by (intro last) (auto simp: tok_def Let_def)
next
  case (Cons c rest)
  then have c: "c = SLASH" by (rule dropWhile_slash_Cons)
  have "hd r \<noteq> SLASH" using assms(2,3) hd_dropWhile [of "\<lambda>c. c = SLASH" s] by auto
  then have "takeWhile (\<lambda>c. c \<noteq> SLASH) r \<noteq> []" using assms(3) by (cases r) auto
  moreover have "r = takeWhile (\<lambda>c. c \<noteq> SLASH) r @ SLASH # rest"
    using takeWhile_dropWhile_id [of "\<lambda>c. c \<noteq> SLASH" r] Cons c by simp
  ultimately show ?thesis
    using Cons c assms takeWhile_no_slash [of r] topic_levels_unfold [of r]
    by (intro more [of "takeWhile (\<lambda>c. c \<noteq> SLASH) r" rest]) (simp_all add: tok_def Let_def)
qed

lemma dropWhile_slash_set: "set (dropWhile (\<lambda>c. c = SLASH) s) \<subseteq> set s"
  by (auto dest: set_dropWhileD)

lemma tokens_cover_levels:
  "l \<in> set (butlast (topic_levels s)) \<or> l = last (topic_levels s) \<and> 1 < length l \<Longrightarrow> l \<noteq> [] \<Longrightarrow>
   l \<in> set (tokens SLASH s)"
proof (induction "length s" arbitrary: s rule: less_induct)
  case less
  define r where "r = dropWhile (\<lambda>c. c = SLASH) s"
  have lv: "topic_levels s = replicate (length (takeWhile (\<lambda>c. c = SLASH) s)) [] @ topic_levels r"
    unfolding r_def by (rule topic_levels_slashes)
  from less.prems have inr: "l \<in> set (butlast (topic_levels r)) \<or> l = last (topic_levels r) \<and> 1 < length l"
    by (auto simp: lv butlast_append)
  then have ne: "r \<noteq> []" using less.prems by auto
  have "1 < length s"
  proof (rule ccontr)
    assume "\<not> 1 < length s"
    then have "length r \<le> 1" using length_dropWhile_le [of "\<lambda>c. c = SLASH" s] by (simp add: r_def)
    with ne obtain c where "r = [c]" by (cases r) auto
    with inr less.prems show False by (auto split: if_splits)
  qed
  then show ?case
  proof (cases rule: tok_cases [OF _ r_def [symmetric] ne, consumes 1, case_names last more])
    case last
    with inr show ?thesis by (subst tokens.simps) auto
  next
    case (more w rest)
    have "length rest < length s" using more(1) by (rule tok_shorter)
    moreover have "l = w \<or> l \<in> set (butlast (topic_levels rest)) \<or> l = last (topic_levels rest) \<and> 1 < length l"
      using inr more(5) by (auto split: if_splits)
    ultimately have "l = w \<or> l \<in> set (tokens SLASH rest)" using less.hyps less.prems(2) by blast
    with more(1) show ?thesis by (subst tokens.simps) auto
  qed
qed

lemma tokens_ok_rules: "tokens_ok type h ws \<Longrightarrow> w \<in> set ws \<Longrightarrow> rule_ok type w"
  by (induction ws arbitrary: h) auto

lemma topic_accepted_levels:
  assumes "topic_accepted type name" "length name < 128" "l \<in> set (topic_levels name)"
    and "l = last (topic_levels name) \<Longrightarrow> length l \<noteq> 1"
  shows "rule_ok type l"
proof (cases "l = []")
  case True
  then show ?thesis by (simp add: rule_ok_def level_ok_def split: iotx_mc_topic_type_t.splits)
next
  case False
  have "set (topic_levels name) = set (butlast (topic_levels name)) \<union> {last (topic_levels name)}"
    by (subst append_butlast_last_id [OF topic_levels_ne, symmetric]) (simp del: append_butlast_last_id)
  with assms(3,4) False have "l \<in> set (butlast (topic_levels name)) \<or> l = last (topic_levels name) \<and> 1 < length l"
    by (cases l) (auto simp: Suc_lessI)
  then have "l \<in> set (tokens SLASH (take 127 name))"
    using tokens_cover_levels [of l name] False assms(2) by simp
  with assms(1) show ?thesis
    by (auto simp: topic_accepted_def tokens_ok_rules split: list.splits)
qed

lemma topic_ok_tokens:
  "topic_ok type s \<Longrightarrow> tokens_ok type False (tokens SLASH s)"
proof (induction "length s" arbitrary: s rule: less_induct)
  case less
  define r where "r = dropWhile (\<lambda>c. c = SLASH) s"
  show ?case
  proof (cases "1 < length s \<and> r \<noteq> []")
    case False
    then show ?thesis by (subst tokens.simps) (auto simp: tok_def r_def)
  next
    case True
    have "butlast (topic_levels s) = replicate (length (takeWhile (\<lambda>c. c = SLASH) s)) [] @ butlast (topic_levels r)"
      using topic_levels_slashes [of s] by (simp add: r_def butlast_append)
    then have okr: "topic_ok type r"
      using less.prems dropWhile_slash_set [of s] topic_levels_slashes [of s]
      by (auto simp: topic_ok_def filter_ok_def r_def list_all_iff split: iotx_mc_topic_type_t.splits)
    from True have "1 < length s" "r \<noteq> []" by auto
    then show ?thesis
    proof (cases rule: tok_cases [OF _ r_def [symmetric], consumes 2, case_names last more])
      case last
      with okr show ?thesis
        by (subst tokens.simps)
           (auto simp: topic_ok_def rule_ok_def filter_ok_def tokens.simps [of _ "[]"] tok_def split: iotx_mc_topic_type_t.splits)
    next
      case (more w rest)
      have "topic_ok type rest" and w: "rule_ok type w" and "w \<noteq> [HASH]"
        using okr more(2,5) by (auto simp: topic_ok_def rule_ok_def filter_ok_def split: iotx_mc_topic_type_t.splits)
      with less.hyps more(1) have "tokens_ok type False (tokens SLASH rest)" by (simp add: tok_shorter)
      moreover have "hd w \<noteq> HASH"
        using w \<open>w \<noteq> [HASH]\<close> more(3)
        by (cases w) (auto simp: rule_ok_def level_ok_def split: iotx_mc_topic_type_t.splits)
      ultimately show ?thesis using more(1) w by (subst tokens.simps) simp
    qed
  qed
qed

lemma topic_ok_accepted:
  assumes "topic_ok type name" "length name < 128" "hd name = SLASH" "\<exists>c \<in> set name. c \<noteq> SLASH"
  shows "topic_accepted type name"
proof -
  have "1 < length name" using assms(3,4) by (cases name; cases "tl name") auto
  moreover have "dropWhile (\<lambda>c. c = SLASH) name \<noteq> []" using assms(4) by (simp add: dropWhile_eq_Nil_conv)
  ultimately obtain w rest where "tok SLASH name = Some (w, rest)" by (auto simp: tok_def Let_def)
  then have "tokens SLASH name = w # tokens SLASH rest" by (subst tokens.simps) simp
  moreover have "tokens_ok type h ws \<Longrightarrow> tokens_ok type False ws" for h ws by (cases ws) auto
  ultimately show ?thesis
    using topic_ok_tokens [OF assms(1)] assms by (auto simp: topic_accepted_def)
qed

subsection \<open>Properties\<close>

text \<open>
  C5: For every filter whose wildcards stand for whole levels with \<open>#\<close> last, the character loop of
  \<open>iotx_mc_is_topic_matched\<close> accepts a topic name exactly when the name matches the filter in the
  sense of MQTT 3.1.1 (section 4.7.1) and the name has a non-empty level under every wildcard. So
  the loop never delivers a message that MQTT would not deliver, and it fails to deliver exactly
  those where \<open>+\<close> or \<open>#\<close> stands over an empty level or \<open>#\<close> over no level.
\<close>

theorem topic_match_levels:
  assumes "filter_ok flt"
  shows "iotx_mc_is_topic_matched (Some flt) (Some name) \<longleftrightarrow>
    mqtt_match (topic_levels flt) (topic_levels name) \<and> wildcards_filled (topic_levels flt) (topic_levels name)"
  unfolding is_topic_matched_iff matched_levels [OF assms] by (rule levels_match_mqtt)

theorem topic_match_levels_witness:
  "iotx_mc_is_topic_matched (Some [SLASH, PLUS, SLASH, HASH]) (Some [SLASH, 0x61, SLASH, 0x62, SLASH]) \<and>
   \<not> iotx_mc_is_topic_matched (Some [SLASH, 0x61, SLASH, PLUS]) (Some [SLASH, 0x61, SLASH])"
  using topic_match_levels [of "[SLASH, PLUS, SLASH, HASH]" "[SLASH, 0x61, SLASH, 0x62, SLASH]"]
    topic_match_levels [of "[SLASH, 0x61, SLASH, PLUS]" "[SLASH, 0x61, SLASH]"]
  by (simp add: filter_ok_def level_ok_def)

text \<open>
  Three matches of MQTT 3.1.1 that the loop misses: \<open>/a/#\<close> against the parent level \<open>/a\<close>, \<open>/a/#\<close>
  against \<open>/a/\<close>, and \<open>/a/+\<close> against \<open>/a/\<close>.
\<close>

lemma topic_match_misses:
  assumes "(flt, name) \<in> {([SLASH, 0x61, SLASH, HASH], [SLASH, 0x61]), ([SLASH, 0x61, SLASH, HASH], [SLASH, 0x61, SLASH]),
      ([SLASH, 0x61, SLASH, PLUS], [SLASH, 0x61, SLASH])}"
  shows "filter_ok flt \<and> mqtt_match (topic_levels flt) (topic_levels name) \<and>
    \<not> iotx_mc_is_topic_matched (Some flt) (Some name)"
  using assms by (auto simp: filter_ok_def level_ok_def is_topic_matched_iff matched_def)

text \<open>
  \<open>iotx_mc_check_topic\<close> always returns, and decides \<^const>\<open>topic_accepted\<close>: the topic starts
  with a slash, has at most 128 characters, and the tokens of its first 127 characters obey the
  rules for their type.
\<close>

lemma check_topic_decides:
  assumes "0 \<notin> set name"
  shows "iotx_mc_check_topic (Some name) type = Some (if topic_accepted type name then SUCCESS_RETURN else FAIL_RETURN)"
  by (rule iotx_mc_check_topic_iff [OF assms])

text \<open>
  Every well-formed topic below 128 characters is accepted: printable characters, wildcards
  only as whole levels of a filter with \<open>#\<close> last, and not only slashes.
\<close>

lemma check_topic_complete:
  assumes "topic_ok type name" "length name < 128" "hd name = SLASH" "\<exists>c \<in> set name. c \<noteq> SLASH"
  shows "iotx_mc_check_topic (Some name) type = Some SUCCESS_RETURN"
proof -
  have "\<not> char_ok 0" by (simp add: char_ok_def)
  then have "0 \<notin> set name" using assms(1) by (auto simp: topic_ok_def list_all_iff)
  from iotx_mc_check_topic_iff [OF this] topic_ok_accepted [OF assms] show ?thesis by simp
qed

text \<open>
  Every level of an accepted topic obeys the rules of its type: printable characters, no
  wildcard in a topic name, a wildcard of a filter only as a whole level. The one level that the
  check does not look at is a last level of one character.
\<close>

lemma check_topic_sound:
  assumes "iotx_mc_check_topic (Some name) type = Some SUCCESS_RETURN" "0 \<notin> set name" "length name < 128"
    and "l \<in> set (topic_levels name)" "l = last (topic_levels name) \<Longrightarrow> length l \<noteq> 1"
  shows "rule_ok type l"
proof -
  have "topic_accepted type name"
    using iotx_mc_check_topic_iff [OF assms(2), of type] assms(1) by (simp add: return_code_defs split: if_splits)
  then show ?thesis using assms(3-5) by (rule topic_accepted_levels)
qed

text \<open>
  The gaps of \<open>iotx_mc_check_topic\<close>: it accepts the wildcard \<open>#\<close> as the last level of a
  topic name to publish to, and \<open>#\<close> before other levels in a filter.
\<close>

lemma check_topic_gaps:
  "iotx_mc_check_topic (Some [SLASH, 0x61, 0x62, SLASH, HASH]) TOPIC_NAME_TYPE = Some SUCCESS_RETURN \<and>
   iotx_mc_check_topic (Some [SLASH, HASH, SLASH, 0x61, 0x62]) TOPIC_FILTER_TYPE = Some SUCCESS_RETURN"
  by code_simp

end
