(* ===== verification/Infra_Timer.thy ===== *)
theory Infra_Timer
  imports Iot_Prelude
begin

text \<open>
  The hardware abstraction layer as an environment, and the timers of
  \<open>src/infra/infra_timer.c\<close> on top of its clock.

  The platform functions (\<open>HAL_UptimeMs\<close>, \<open>HAL_Malloc\<close> and the \<open>connect\<close>, \<open>read\<close>,
  \<open>write\<close> and \<open>disconnect\<close> operations of the network stack) are not determined by the
  sources: their answers are functions of the environment, indexed by the number of platform
  calls made so far, so that no assumption is made on how two answers are related. What the
  program hands to the network is recorded in \<open>net_sent\<close>, and \<open>junk\<close> is the value of a
  variable that the C code reads without having set it.
\<close>

record hal =
  tick :: nat
  clock :: "nat \<Rightarrow> u64"
  malloc_ok :: "nat \<Rightarrow> nat \<Rightarrow> bool"
  net_connect :: "nat \<Rightarrow> int"
  net_read :: "nat \<Rightarrow> nat \<Rightarrow> u32 \<Rightarrow> int \<times> (nat \<Rightarrow> byte)"
  net_write :: "nat \<Rightarrow> byte list \<Rightarrow> u32 \<Rightarrow> int"
  net_sent :: "byte list"
  net_closes :: nat
  junk :: "nat \<Rightarrow> u16"

definition next_tick :: "hal \<Rightarrow> hal" where
  "next_tick h = h\<lparr>tick := tick h + 1\<rparr>"

definition HAL_UptimeMs :: "hal \<Rightarrow> u64 \<times> hal" where
  "HAL_UptimeMs h = (clock h (tick h), next_tick h)"

text \<open>An allocation of \<open>n\<close> bytes, cleared by \<open>memset\<close>; \<^term>\<open>None\<close> is \<open>NULL\<close>.\<close>

definition HAL_Malloc :: "nat \<Rightarrow> hal \<Rightarrow> byte list option \<times> hal" where
  "HAL_Malloc n h = (if malloc_ok h (tick h) n then Some (replicate n 0) else None, next_tick h)"

definition ipstack_connect :: "hal \<Rightarrow> int \<times> hal" where
  "ipstack_connect h = (net_connect h (tick h), next_tick h)"

definition ipstack_disconnect :: "hal \<Rightarrow> hal" where
  "ipstack_disconnect h = (next_tick h)\<lparr>net_closes := net_closes h + 1\<rparr>"

text \<open>A read of at most \<open>len\<close> bytes returns a code and, when that is positive, so many bytes.\<close>

definition ipstack_read :: "nat \<Rightarrow> u32 \<Rightarrow> hal \<Rightarrow> int \<times> byte list \<times> hal" where
  "ipstack_read len timeout h = 
     (case net_read h (tick h) len timeout of (rc, f) \<Rightarrow> (rc, map f [0..<min len (nat rc)], next_tick h))"

definition HAL_SleepMs :: "u32 \<Rightarrow> hal \<Rightarrow> hal" where
  "HAL_SleepMs ms h = next_tick h"

definition ipstack_write :: "byte list \<Rightarrow> u32 \<Rightarrow> hal \<Rightarrow> int \<times> hal" where
  "ipstack_write data timeout h =
     (let rc = net_write h (tick h) data timeout
      in (rc, (next_tick h)\<lparr>net_sent := net_sent h @ take (nat rc) data\<rparr>))"

subsection \<open>Timers\<close>

text \<open>\<open>iotx_time_t\<close> is its only field \<open>time\<close>, 32 bits of milliseconds.\<close>

type_synonym iotx_time_t = u32

definition iotx_time_start :: "hal \<Rightarrow> iotx_time_t \<times> hal" where
  "iotx_time_start h = (let (now, h) = HAL_UptimeMs h in (ucast now, h))"

definition utils_time_spend :: "iotx_time_t \<Rightarrow> hal \<Rightarrow> u32 \<times> hal" where
  "utils_time_spend start h = (let (now, h) = HAL_UptimeMs h in (ucast now - start, h))"

text \<open>\<open>(cur_time - timer->time) < (UINT32_MAX / 2)\<close>\<close>

definition utils_time_is_expired :: "iotx_time_t \<Rightarrow> hal \<Rightarrow> bool \<times> hal" where
  "utils_time_is_expired timer h =
     (let (cur_time, h) = HAL_UptimeMs h in ((ucast cur_time - timer) < (2147483647 :: u32), h))"

definition iotx_time_left :: "iotx_time_t \<Rightarrow> hal \<Rightarrow> u32 \<times> hal" where
  "iotx_time_left end_time h =
     (case utils_time_is_expired end_time h of (expired, h) \<Rightarrow>
        if expired then (0, h)
        else let (now, h) = HAL_UptimeMs h in (end_time - ucast now, h))"

definition iotx_time_init :: iotx_time_t where
  "iotx_time_init = 0"

definition utils_time_countdown_ms :: "u32 \<Rightarrow> hal \<Rightarrow> iotx_time_t \<times> hal" where
  "utils_time_countdown_ms millisecond h = (let (now, h) = HAL_UptimeMs h in (ucast now + millisecond, h))"

definition utils_time_get_ms :: "hal \<Rightarrow> u32 \<times> hal" where
  "utils_time_get_ms h = (let (now, h) = HAL_UptimeMs h in (ucast now, h))"

text \<open>\<open>left_t = iotx_time_left(timer); left_t = (left_t == 0) ? 1 : left_t\<close>\<close>

definition time_left_nz :: "iotx_time_t \<Rightarrow> hal \<Rightarrow> u32 \<times> hal" where
  "time_left_nz timer h = (let (left_t, h) = iotx_time_left timer h in (if left_t = 0 then 1 else left_t, h))"

subsection \<open>Properties of the timers\<close>

lemma unat_ucast_u64: "unat (ucast (w :: u64) :: u32) = unat w mod 4294967296"
  by (simp add: unsigned_ucast_eq take_bit_eq_mod)

text \<open>The difference of two 32-bit clock readings, read as a number.\<close>

lemma unat_diff_u32: "unat ((a :: u32) - b) = (if unat b \<le> unat a then unat a - unat b else 4294967296 + unat a - unat b)"
proof (cases "b \<le> a")
  case True
  then show ?thesis by (simp add: unat_sub word_le_nat_alt)
next
  case False
  then have "unat a < unat b" by (simp add: word_le_nat_alt)
  then show ?thesis using unat_u32_lt [of b] by (simp add: unat_sub_if')
qed

lemma timer_expired_iff:
  fixes t0 :: u64
  assumes later: "unat (clock h (tick h)) = unat t0 + elapsed"
    and ms: "unat ms \<le> 2147483648" and bound: "elapsed < unat ms + 2147483647"
  shows "fst (utils_time_is_expired (ucast t0 + ms) h) \<longleftrightarrow> unat ms \<le> elapsed"
proof -
  let ?now = "ucast (clock h (tick h)) :: u32"
  have "?now = ucast t0 + of_nat elapsed"
    by (simp add: word_unat_eq_iff unat_ucast_u64 later unat_word_ariths unsigned_of_nat take_bit_eq_mod mod_simps)
  then have d: "?now - (ucast t0 + ms) = of_nat elapsed - ms" by simp
  have e: "unat (of_nat elapsed :: u32) = elapsed" using ms bound by (simp add: unat_of_nat)
  have "of_nat elapsed - ms < (2147483647 :: u32) \<longleftrightarrow> unat ms \<le> elapsed"
    using ms bound unat_u32_lt [of ms] by (auto simp: word_less_nat_alt unat_diff_u32 e)
  moreover have "fst (utils_time_is_expired (ucast t0 + ms) h) \<longleftrightarrow> ?now - (ucast t0 + ms) < 2147483647"
    by (simp add: utils_time_is_expired_def HAL_UptimeMs_def)
  ultimately show ?thesis by (simp only: d)
qed

lemma time_left_le:
  fixes t0 :: u64
  assumes "unat ms \<le> 2147483648"
    and r1: "unat (clock h (tick h)) = unat t0 + e1" and r2: "unat (clock h (tick h + 1)) = unat t0 + e2"
    and mono: "e1 \<le> e2" and in_time: "e2 \<le> unat ms"
  shows "unat (fst (iotx_time_left (ucast t0 + ms) h)) = (if unat ms \<le> e1 then 0 else unat ms - e2)"
proof -
  have exp: "fst (utils_time_is_expired (ucast t0 + ms) h) \<longleftrightarrow> unat ms \<le> e1"
    using timer_expired_iff [OF r1 assms(1)] mono in_time by simp
  have "ucast (clock h (tick h + 1)) = (ucast t0 + of_nat e2 :: u32)"
    using r2 by (simp add: word_unat_eq_iff unat_ucast_u64 unat_word_ariths unsigned_of_nat take_bit_eq_mod mod_simps)
  then have d: "ucast t0 + ms - ucast (clock h (tick h + 1)) = ms - (of_nat e2 :: u32)" by simp
  have val: "fst (iotx_time_left (ucast t0 + ms) h) =
      (if unat ms \<le> e1 then 0 else ucast t0 + ms - ucast (clock h (tick h + 1)))"
    unfolding exp [symmetric]
    by (simp add: iotx_time_left_def utils_time_is_expired_def HAL_UptimeMs_def next_tick_def)
  moreover have "unat (ms - (of_nat e2 :: u32)) = unat ms - e2"
    using in_time unat_u32_lt [of ms] by (simp add: unat_diff_u32 unat_of_nat)
  ultimately show ?thesis unfolding val d by simp
qed

lemma HAL_frame [simp]:
  "snd (HAL_UptimeMs h) = next_tick h" "snd (utils_time_is_expired t h) = next_tick h"
  "snd (utils_time_spend t h) = next_tick h" "snd (utils_time_countdown_ms m h) = next_tick h"
  "snd (iotx_time_start h) = next_tick h"
  by (simp_all add: HAL_UptimeMs_def utils_time_is_expired_def utils_time_spend_def
      utils_time_countdown_ms_def iotx_time_start_def)

subsection \<open>Properties\<close>

text \<open>
  A timer set with \<open>utils_time_countdown_ms\<close> expires exactly when its milliseconds have
  passed, across a wrap-around of the 32-bit clock, for timeouts of up to \<open>2^31\<close> ms that are
  looked at before another \<open>2^31 - 1\<close> ms are over.
\<close>

lemma countdown_expires:
  assumes "unat (clock h' (tick h')) = unat (clock h (tick h)) + elapsed"
    and "unat ms \<le> 2147483648" "elapsed < unat ms + 2147483647"
  shows "fst (utils_time_is_expired (fst (utils_time_countdown_ms ms h)) h') \<longleftrightarrow> unat ms \<le> elapsed"
  using timer_expired_iff [OF assms] by (simp add: utils_time_countdown_ms_def HAL_UptimeMs_def)

definition hal_at :: "(nat \<Rightarrow> u64) \<Rightarrow> hal" where
  "hal_at f = \<lparr>tick = 0, clock = f, malloc_ok = \<lambda>_ _. True, net_connect = \<lambda>_. 0, net_read = \<lambda>_ _ _. (0, \<lambda>_. 0),
     net_write = \<lambda>_ d _. int (length d), net_sent = [], net_closes = 0, junk = \<lambda>_. 0\<rparr>"

text \<open>
  \<open>iotx_time_left\<close> of such a timer is the time that is left at its second look at the clock,
  and zero when the timer had expired at the first, provided the deadline does not pass between
  the two.
\<close>

lemma countdown_left:
  fixes h h' :: hal
  assumes "unat ms \<le> 2147483648"
    and "unat (clock h' (tick h')) = unat (clock h (tick h)) + e1"
    and "unat (clock h' (tick h' + 1)) = unat (clock h (tick h)) + e2" "e1 \<le> e2" "e2 \<le> unat ms"
  shows "unat (fst (iotx_time_left (fst (utils_time_countdown_ms ms h)) h')) = (if unat ms \<le> e1 then 0 else unat ms - e2)"
  using time_left_le [OF assms] by (simp add: utils_time_countdown_ms_def HAL_UptimeMs_def)

text \<open>
  When the deadline passes between the two looks at the clock, \<open>iotx_time_left\<close> wraps: it
  returns a value above \<open>2^31\<close> ms for a timer of 10 ms.
\<close>

lemma time_left_wraps:
  "fst (iotx_time_left (fst (utils_time_countdown_ms 10 (hal_at (\<lambda>_. 0)))) (hal_at (\<lambda>t. if t = 0 then 9 else 11))) = 4294967295"
  by (simp add: hal_at_def iotx_time_left_def utils_time_countdown_ms_def utils_time_is_expired_def HAL_UptimeMs_def next_tick_def)

end
