(* ===== verification/MQTT_Client.thy ===== *)
theory MQTT_Client
  imports MQTT_Serialize MQTT_Topic Infra_Timer
begin

text \<open>
  The MQTT client of \<open>src/mqtt/impl/iotx_mqtt_client.c\<close>, first part: its state, the buffers,
  sending and receiving one packet, and the connection handshake. The build modelled has
  \<open>PLATFORM_HAS_DYNMEM\<close>, \<open>WITH_MQTT_DYN_BUF\<close> and neither \<open>WITH_MQTT_ONLY_QOS0\<close> nor
  \<open>ASYNC_PROTOCOL_STACK\<close>. The client argument is an existing client, so the tests for a null
  client pointer at the head of the functions do not appear; mutexes are created by the
  platform and protect sections that run here one after the other.

  Every operation returns its result code and the new client, or \<^term>\<open>None\<close> when a C access
  would leave a buffer or a loop would not end.
\<close>

subsection \<open>Constants\<close>

definition ERROR_MALLOC :: int where "ERROR_MALLOC = -1014"
definition MQTT_NETWORK_ERROR :: int where "MQTT_NETWORK_ERROR = -14"
definition MQTT_PUBLISH_ACK_TYPE_ERROR :: int where "MQTT_PUBLISH_ACK_TYPE_ERROR = -13"
definition MQTT_UNSUBSCRIBE_ACK_PACKET_ERROR :: int where "MQTT_UNSUBSCRIBE_ACK_PACKET_ERROR = -15"
definition MQTT_PUBLISH_ACK_PACKET_ERROR :: int where "MQTT_PUBLISH_ACK_PACKET_ERROR = -19"
definition MQTT_PUBLISH_QOS_ERROR :: int where "MQTT_PUBLISH_QOS_ERROR = -20"
definition MQTT_PUBLISH_PACKET_ERROR :: int where "MQTT_PUBLISH_PACKET_ERROR = -21"
definition MQTT_UNSUBSCRIBE_PACKET_ERROR :: int where "MQTT_UNSUBSCRIBE_PACKET_ERROR = -22"
definition MQTT_SUBSCRIBE_ACK_PACKET_ERROR :: int where "MQTT_SUBSCRIBE_ACK_PACKET_ERROR = -25"
definition MQTT_SUBSCRIBE_PACKET_ERROR :: int where "MQTT_SUBSCRIBE_PACKET_ERROR = -26"
definition MQTT_STATE_ERROR :: int where "MQTT_STATE_ERROR = -27"
definition MQTT_CONNECT_ACK_PACKET_ERROR :: int where "MQTT_CONNECT_ACK_PACKET_ERROR = -29"
definition MQTT_CONNECT_PACKET_ERROR :: int where "MQTT_CONNECT_PACKET_ERROR = -30"
definition MQTT_PING_PACKET_ERROR :: int where "MQTT_PING_PACKET_ERROR = -31"
definition MQTT_CONNECT_ERROR :: int where "MQTT_CONNECT_ERROR = -33"
definition MQTT_CONNACK_NOT_AUTHORIZED_ERROR :: int where "MQTT_CONNACK_NOT_AUTHORIZED_ERROR = -34"
definition MQTT_CONNACK_BAD_USERDATA_ERROR :: int where "MQTT_CONNACK_BAD_USERDATA_ERROR = -35"
definition MQTT_CONNACK_SERVER_UNAVAILABLE_ERROR :: int where "MQTT_CONNACK_SERVER_UNAVAILABLE_ERROR = -36"
definition MQTT_CONNACK_IDENTIFIER_REJECTED_ERROR :: int where "MQTT_CONNACK_IDENTIFIER_REJECTED_ERROR = -37"
definition MQTT_CONANCK_UNACCEPTABLE_PROTOCOL_VERSION_ERROR :: int where
  "MQTT_CONANCK_UNACCEPTABLE_PROTOCOL_VERSION_ERROR = -38"
definition MQTT_CONNACK_UNKNOWN_ERROR :: int where "MQTT_CONNACK_UNKNOWN_ERROR = -39"
definition MQTT_TOPIC_FORMAT_ERROR :: int where "MQTT_TOPIC_FORMAT_ERROR = -41"
definition MQTT_PUSH_TO_LIST_ERROR :: int where "MQTT_PUSH_TO_LIST_ERROR = -42"
definition MQTT_CONNECT_BLOCK :: int where "MQTT_CONNECT_BLOCK = -44"

lemmas mqtt_error_defs = return_code_defs ERROR_MALLOC_def MQTT_NETWORK_ERROR_def MQTT_PUBLISH_ACK_TYPE_ERROR_def
  MQTT_UNSUBSCRIBE_ACK_PACKET_ERROR_def MQTT_PUBLISH_ACK_PACKET_ERROR_def MQTT_PUBLISH_QOS_ERROR_def
  MQTT_PUBLISH_PACKET_ERROR_def MQTT_UNSUBSCRIBE_PACKET_ERROR_def MQTT_SUBSCRIBE_ACK_PACKET_ERROR_def
  MQTT_SUBSCRIBE_PACKET_ERROR_def MQTT_STATE_ERROR_def MQTT_CONNECT_ACK_PACKET_ERROR_def
  MQTT_CONNECT_PACKET_ERROR_def MQTT_PING_PACKET_ERROR_def MQTT_CONNECT_ERROR_def
  MQTT_CONNACK_NOT_AUTHORIZED_ERROR_def MQTT_CONNACK_BAD_USERDATA_ERROR_def
  MQTT_CONNACK_SERVER_UNAVAILABLE_ERROR_def MQTT_CONNACK_IDENTIFIER_REJECTED_ERROR_def
  MQTT_CONANCK_UNACCEPTABLE_PROTOCOL_VERSION_ERROR_def MQTT_CONNACK_UNKNOWN_ERROR_def
  MQTT_TOPIC_FORMAT_ERROR_def MQTT_PUSH_TO_LIST_ERROR_def MQTT_CONNECT_BLOCK_def

definition CONFIG_MQTT_KEEPALIVE_INTERVAL :: u16 where "CONFIG_MQTT_KEEPALIVE_INTERVAL = 60"
definition CONFIG_MQTT_KEEPALIVE_INTERVAL_MIN :: u16 where "CONFIG_MQTT_KEEPALIVE_INTERVAL_MIN = 30"
definition CONFIG_MQTT_KEEPALIVE_INTERVAL_MAX :: u16 where "CONFIG_MQTT_KEEPALIVE_INTERVAL_MAX = 1200"
definition CONFIG_MQTT_REQUEST_TIMEOUT :: u32 where "CONFIG_MQTT_REQUEST_TIMEOUT = 2000"
definition CONFIG_MQTT_REQ_TIMEOUT_MIN :: u32 where "CONFIG_MQTT_REQ_TIMEOUT_MIN = 500"
definition CONFIG_MQTT_REQ_TIMEOUT_MAX :: u32 where "CONFIG_MQTT_REQ_TIMEOUT_MAX = 5000"
definition IOTX_MC_REPUB_NUM_MAX :: nat where "IOTX_MC_REPUB_NUM_MAX = 20"
definition IOTX_MC_PACKET_ID_MAX :: u32 where "IOTX_MC_PACKET_ID_MAX = 65535"
definition IOTX_MC_RECONNECT_INTERVAL_MIN_MS :: u32 where "IOTX_MC_RECONNECT_INTERVAL_MIN_MS = 1000"
definition IOTX_MC_RECONNECT_INTERVAL_MAX_MS :: u32 where "IOTX_MC_RECONNECT_INTERVAL_MAX_MS = 60000"
definition IOTX_MC_KEEPALIVE_PROBE_MAX :: u8 where "IOTX_MC_KEEPALIVE_PROBE_MAX = 2"
definition MQTT_DYNBUF_SEND_MARGIN :: int where "MQTT_DYNBUF_SEND_MARGIN = 64"
definition MQTT_DYNBUF_RECV_MARGIN :: int where "MQTT_DYNBUF_RECV_MARGIN = 8"
definition MUTLI_SUBSCIRBE_MAX :: nat where "MUTLI_SUBSCIRBE_MAX = 5"

lemmas mqtt_config_defs = CONFIG_MQTT_KEEPALIVE_INTERVAL_def CONFIG_MQTT_KEEPALIVE_INTERVAL_MIN_def
  CONFIG_MQTT_KEEPALIVE_INTERVAL_MAX_def CONFIG_MQTT_REQUEST_TIMEOUT_def CONFIG_MQTT_REQ_TIMEOUT_MIN_def
  CONFIG_MQTT_REQ_TIMEOUT_MAX_def IOTX_MC_REPUB_NUM_MAX_def IOTX_MC_PACKET_ID_MAX_def
  IOTX_MC_RECONNECT_INTERVAL_MIN_MS_def IOTX_MC_RECONNECT_INTERVAL_MAX_MS_def IOTX_MC_KEEPALIVE_PROBE_MAX_def
  MQTT_DYNBUF_SEND_MARGIN_def MQTT_DYNBUF_RECV_MARGIN_def

subsection \<open>State\<close>

datatype iotx_mc_state_t = IOTX_MC_STATE_INVALID | IOTX_MC_STATE_INITIALIZED | IOTX_MC_STATE_CONNECTED
  | IOTX_MC_STATE_DISCONNECTED | IOTX_MC_STATE_DISCONNECTED_RECONNECTING | IOTX_MC_STATE_CONNECT_BLOCK

datatype iotx_mc_node_t = IOTX_MC_NODE_STATE_NORMANL | IOTX_MC_NODE_STATE_INVALID

datatype iotx_mqtt_event_type_t = IOTX_MQTT_EVENT_UNDEF | IOTX_MQTT_EVENT_DISCONNECT | IOTX_MQTT_EVENT_RECONNECT
  | IOTX_MQTT_EVENT_SUBCRIBE_SUCCESS | IOTX_MQTT_EVENT_SUBCRIBE_TIMEOUT | IOTX_MQTT_EVENT_SUBCRIBE_NACK
  | IOTX_MQTT_EVENT_UNSUBCRIBE_SUCCESS | IOTX_MQTT_EVENT_UNSUBCRIBE_TIMEOUT | IOTX_MQTT_EVENT_UNSUBCRIBE_NACK
  | IOTX_MQTT_EVENT_PUBLISH_SUCCESS | IOTX_MQTT_EVENT_PUBLISH_TIMEOUT | IOTX_MQTT_EVENT_PUBLISH_NACK
  | IOTX_MQTT_EVENT_PUBLISH_RECEIVED | IOTX_MQTT_EVENT_BUFFER_OVERFLOW

text \<open>
  The application's callbacks are not part of the sources. A function pointer is a number,
  \<^term>\<open>None\<close> for \<open>NULL\<close>, and a call is recorded with its arguments: the context, the event
  type and what \<open>msg\<close> points to. A received message points into the read buffer, whose content
  at the time of the call is recorded with it.
\<close>

record iotx_mqtt_event_handle_t =
  h_fp :: "nat option"
  pcontext :: nat

record iotx_mqtt_topic_info_t =
  ti_packet_id :: u16
  ti_qos :: u8
  ti_dup :: u8
  ti_retain :: u8
  ti_topic_len :: u16
  ti_payload_len :: u32
  ti_ptopic :: "byte list option"
  ti_payload :: "nat option"

datatype event_msg = MsgNone | MsgId u16 | MsgText | MsgTopic iotx_mqtt_topic_info_t "byte list"

record event =
  ev_handle :: iotx_mqtt_event_handle_t
  ev_type :: iotx_mqtt_event_type_t
  ev_msg :: event_msg

record iotx_mc_topic_handle_t =
  handle :: iotx_mqtt_event_handle_t
  topic_filter :: cstr

record iotx_mc_pub_info_t =
  pub_start_time :: iotx_time_t
  node_state :: iotx_mc_node_t
  msg_id :: u16
  pub_len :: u32
  pub_buf :: "byte list"

record mqtt_sub_sync_node_t =
  sync_packet_id :: int
  ack_type :: iotx_mqtt_event_type_t

record iotx_mc_client_t =
  packet_id :: u32
  request_timeout_ms :: u32
  cycle_timeout_ms :: u32
  buf_size_send :: u32
  buf_size_send_max :: u32
  buf_size_read_max :: u32
  buf_size_read :: u32
  keepalive_probes :: u8
  buf_send :: "byte list option"
  buf_read :: "byte list option"
  list_sub_handle :: "iotx_mc_topic_handle_t list"
  next_ping_time :: iotx_time_t
  client_state :: iotx_mc_state_t
  reconnect_next_time :: iotx_time_t
  reconnect_time_interval_ms :: u32
  connect_data :: MQTTPacket_connectData
  list_pub_wait_ack :: "iotx_mc_pub_info_t list"
  list_sub_sync_ack :: "mqtt_sub_sync_node_t list"
  handle_event :: iotx_mqtt_event_handle_t
  in_yield_cb :: bool
  env :: hal
  events :: "event list"

record iotx_mqtt_param_t =
  host :: "cstr option"
  client_id :: "cstr option"
  user :: "cstr option"
  passwd :: "cstr option"
  clean_session :: byte
  req_timeout_ms :: u32
  keepalive_interval_ms :: u32
  write_buf_size :: u32
  read_buf_size :: u32
  init_handle_event :: iotx_mqtt_event_handle_t

text \<open>A platform call made by the client.\<close>

definition hal_run :: "(hal \<Rightarrow> 'a \<times> hal) \<Rightarrow> iotx_mc_client_t \<Rightarrow> 'a \<times> iotx_mc_client_t" where
  "hal_run f c = (case f (env c) of (x, h) \<Rightarrow> (x, c\<lparr>env := h\<rparr>))"

definition hal_exec :: "(hal \<Rightarrow> hal) \<Rightarrow> iotx_mc_client_t \<Rightarrow> iotx_mc_client_t" where
  "hal_exec f c = c\<lparr>env := f (env c)\<rparr>"

subsection \<open>Parameters and initialization\<close>

definition iotx_mc_set_connect_params :: "iotx_mc_client_t \<Rightarrow> MQTTPacket_connectData \<Rightarrow> int \<times> iotx_mc_client_t" where
  "iotx_mc_set_connect_params pClient pConnectParams =
     (let interval =
        (if keepAliveInterval pConnectParams < CONFIG_MQTT_KEEPALIVE_INTERVAL_MIN then CONFIG_MQTT_KEEPALIVE_INTERVAL
         else if keepAliveInterval pConnectParams > CONFIG_MQTT_KEEPALIVE_INTERVAL_MAX then CONFIG_MQTT_KEEPALIVE_INTERVAL
         else keepAliveInterval pConnectParams)
      in (SUCCESS_RETURN, pClient\<lparr>connect_data := pConnectParams\<lparr>keepAliveInterval := interval\<rparr>\<rparr>))"

definition iotx_mc_set_client_state :: "iotx_mc_client_t \<Rightarrow> iotx_mc_state_t \<Rightarrow> iotx_mc_client_t" where
  "iotx_mc_set_client_state pClient newState = pClient\<lparr>client_state := newState\<rparr>"

definition iotx_mc_get_client_state :: "iotx_mc_client_t \<Rightarrow> iotx_mc_state_t" where
  "iotx_mc_get_client_state pClient = client_state pClient"

definition MQTTPacket_willOptions_initializer :: MQTTPacket_willOptions where
  "MQTTPacket_willOptions_initializer =
     \<lparr>will_struct_id = [0x4D, 0x51, 0x54, 0x57], will_struct_version = 0, will_topicName = MQTTString_initializer,
      will_message = MQTTString_initializer, will_retained = 0, will_qos = 0\<rparr>"

definition MQTTPacket_connectData_initializer :: MQTTPacket_connectData where
  "MQTTPacket_connectData_initializer =
     \<lparr>struct_id = [0x4D, 0x51, 0x54, 0x43], struct_version = 0, MQTTVersion = 4, clientID = MQTTString_initializer,
      keepAliveInterval = CONFIG_MQTT_KEEPALIVE_INTERVAL_MIN, cleansession = 1, willFlag = 0, will = MQTTPacket_willOptions_initializer,
      username = MQTTString_initializer, password = MQTTString_initializer\<rparr>"

text \<open>
  \<open>iotx_net_init\<close> records the address of the broker; its result depends on the host only.
  \<open>iotx_mc_init\<close> is modelled from the point where the mutexes have been created.
\<close>

definition iotx_net_init :: "cstr option \<Rightarrow> int" where
  "iotx_net_init host_name = (if host_name = None then -1 else 0)"

definition iotx_mc_init :: "iotx_mc_client_t \<Rightarrow> iotx_mqtt_param_t option \<Rightarrow> int \<times> iotx_mc_client_t" where
  "iotx_mc_init pClient pInitParams =
     (case pInitParams of
        None \<Rightarrow> (NULL_VALUE_ERROR, pClient)
      | Some p \<Rightarrow>
          if write_buf_size p = 0 \<or> read_buf_size p = 0 then (NULL_VALUE_ERROR, pClient)
          else let
            connectdata = MQTTPacket_connectData_initializer
              \<lparr>MQTTVersion := 4,
               keepAliveInterval := ucast (keepalive_interval_ms p div 1000),
               clientID := MQTTString_initializer\<lparr>cstring := client_id p\<rparr>,
               username := MQTTString_initializer\<lparr>cstring := user p\<rparr>,
               password := MQTTString_initializer\<lparr>cstring := passwd p\<rparr>,
               cleansession := clean_session p\<rparr>;
            c = pClient
              \<lparr>request_timeout_ms :=
                 (if req_timeout_ms p < CONFIG_MQTT_REQ_TIMEOUT_MIN \<or> req_timeout_ms p > CONFIG_MQTT_REQ_TIMEOUT_MAX
                  then CONFIG_MQTT_REQUEST_TIMEOUT else req_timeout_ms p),
               buf_size_send_max := write_buf_size p,
               buf_size_read_max := read_buf_size p,
               keepalive_probes := 0,
               handle_event := init_handle_event p,
               reconnect_time_interval_ms := IOTX_MC_RECONNECT_INTERVAL_MIN_MS,
               list_pub_wait_ack := [],
               list_sub_handle := [],
               list_sub_sync_ack := []\<rparr>;
            (rc, c) = iotx_mc_set_connect_params c connectdata
          in if rc \<noteq> SUCCESS_RETURN
             then (rc, (iotx_mc_set_client_state c IOTX_MC_STATE_INVALID)\<lparr>buf_send := None, buf_read := None\<rparr>)
             else let c = c\<lparr>next_ping_time := iotx_time_init, reconnect_next_time := iotx_time_init\<rparr>;
                      net_rc = iotx_net_init (host p)
               in if net_rc \<noteq> SUCCESS_RETURN
                  then (net_rc, (iotx_mc_set_client_state c IOTX_MC_STATE_INVALID)\<lparr>buf_send := None, buf_read := None\<rparr>)
                  else (SUCCESS_RETURN, iotx_mc_set_client_state c IOTX_MC_STATE_INITIALIZED))"

subsection \<open>Buffers\<close>

definition get_connect_length :: "MQTTPacket_connectData \<Rightarrow> int" where
  "get_connect_length options = MQTTPacket_len (MQTTSerialize_connectLength options)"

definition reset_send_buffer :: "iotx_mc_client_t \<Rightarrow> iotx_mc_client_t" where
  "reset_send_buffer c = (if buf_send c = None then c else c\<lparr>buf_send := None, buf_size_send := 0\<rparr>)"

definition reset_recv_buffer :: "iotx_mc_client_t \<Rightarrow> iotx_mc_client_t" where
  "reset_recv_buffer c = (if buf_read c = None then c else c\<lparr>buf_read := None, buf_size_read := 0\<rparr>)"

definition alloc_send_buffer :: "iotx_mc_client_t \<Rightarrow> int \<Rightarrow> int \<times> iotx_mc_client_t" where
  "alloc_send_buffer c len =
     (let tmp_len = word_of_int (MQTT_DYNBUF_SEND_MARGIN + len) :: u32;
          tmp_len = (if tmp_len > buf_size_send_max c then buf_size_send_max c else tmp_len);
          (p, c) = hal_run (HAL_Malloc (unat tmp_len)) c
      in case p of
           None \<Rightarrow> (ERROR_MALLOC, c\<lparr>buf_send := None\<rparr>)
         | Some b \<Rightarrow> (SUCCESS_RETURN, c\<lparr>buf_send := Some b, buf_size_send := tmp_len\<rparr>))"

definition alloc_recv_buffer :: "iotx_mc_client_t \<Rightarrow> int \<Rightarrow> int \<times> iotx_mc_client_t" where
  "alloc_recv_buffer c len =
     (let tmp_len = word_of_int (MQTT_DYNBUF_RECV_MARGIN + len) :: u32;
          tmp_len = (if tmp_len > buf_size_read_max c then buf_size_read_max c else tmp_len);
          (p, c) = hal_run (HAL_Malloc (unat tmp_len)) c
      in case p of
           None \<Rightarrow> (ERROR_MALLOC, c)
         | Some temp \<Rightarrow>
             (case buf_read c of
                Some b \<Rightarrow> (SUCCESS_RETURN, c\<lparr>buf_read := Some (blit temp 0 (take (unat (min (buf_size_read c) tmp_len)) b)), buf_size_read := tmp_len\<rparr>)
              | None \<Rightarrow> (SUCCESS_RETURN, c\<lparr>buf_read := Some temp, buf_size_read := tmp_len\<rparr>)))"

text \<open>A serializer called with \<open>c->buf_send\<close> and \<open>c->buf_size_send\<close>.\<close>

definition serialize_into ::
  "iotx_mc_client_t \<Rightarrow> (byte list \<Rightarrow> int \<Rightarrow> (int \<times> byte list) option) \<Rightarrow> (int \<times> iotx_mc_client_t) option" where
  "serialize_into c f = do {
     buf \<leftarrow> buf_send c;
     (len, buf') \<leftarrow> f buf (uint (buf_size_send c));
     Some (len, c\<lparr>buf_send := Some buf'\<rparr>)
   }"

subsection \<open>Sending\<close>

partial_function (option) send_loop :: "byte list \<Rightarrow> int \<Rightarrow> iotx_time_t \<Rightarrow> int \<Rightarrow> hal \<Rightarrow> (int \<times> hal) option" where
  "send_loop buf len timer sent h =
     (if sent < len then
        (case utils_time_is_expired timer h of (expired, h) \<Rightarrow>
         if expired then Some (sent, h)
         else (case time_left_nz timer h of (left_t, h) \<Rightarrow> do {
           data \<leftarrow> load_bytes buf (nat sent) (nat (len - sent));
           (case ipstack_write data left_t h of (rc, h) \<Rightarrow>
            if rc < 0 then Some (sent, h) else send_loop buf len timer (sent + rc) h)
         }))
      else Some (sent, h))"

declare send_loop.simps [code]

definition iotx_mc_send_packet ::
  "iotx_mc_client_t \<Rightarrow> byte list option \<Rightarrow> int \<Rightarrow> iotx_time_t \<Rightarrow> (int \<times> iotx_mc_client_t) option" where
  "iotx_mc_send_packet c buf len timer =
     (case buf of
        None \<Rightarrow> Some (FAIL_RETURN, c)
      | Some b \<Rightarrow> do {
          (sent, h) \<leftarrow> send_loop b len timer 0 (env c);
          Some (if sent = len then SUCCESS_RETURN else MQTT_NETWORK_ERROR, c\<lparr>env := h\<rparr>)
        })"

definition MQTTConnect :: "iotx_mc_client_t \<Rightarrow> (int \<times> iotx_mc_client_t) option" where
  "MQTTConnect pClient =
     (let pConnectParams = connect_data pClient;
          len = get_connect_length pConnectParams;
          (rc, c) = alloc_send_buffer pClient len
      in if rc \<noteq> SUCCESS_RETURN then Some (FAIL_RETURN, c)
         else do {
           (len, c) \<leftarrow> serialize_into c (\<lambda>buf size. MQTTSerialize_connect buf size pConnectParams);
           if len \<le> 0 then Some (MQTT_CONNECT_PACKET_ERROR, reset_send_buffer c)
           else do {
             let (connectTimer, c) = hal_run (utils_time_countdown_ms (request_timeout_ms c)) c;
             (rc, c) \<leftarrow> iotx_mc_send_packet c (buf_send c) len connectTimer;
             Some (if rc \<noteq> SUCCESS_RETURN then MQTT_NETWORK_ERROR else SUCCESS_RETURN, reset_send_buffer c)
           }
         })"

subsection \<open>Receiving\<close>

text \<open>\<open>c->ipstack.read(&c->ipstack, c->buf_read + off, len, timeout)\<close>\<close>

definition read_into :: "iotx_mc_client_t \<Rightarrow> nat \<Rightarrow> int \<Rightarrow> u32 \<Rightarrow> (int \<times> iotx_mc_client_t) option" where
  "read_into c off len timeout = do {
     buf \<leftarrow> buf_read c;
     if 0 \<le> len \<and> off + nat len \<le> length buf
     then (case ipstack_read (nat len) timeout (env c) of (rc, data, h) \<Rightarrow>
             Some (rc, c\<lparr>env := h, buf_read := Some (blit buf off data)\<rparr>))
     else None
   }"

text \<open>The result is the code of the C function, the value and the client.\<close>

function decode_packet_loop ::
  "iotx_mc_client_t \<Rightarrow> nat \<Rightarrow> int \<Rightarrow> int \<Rightarrow> u32 \<Rightarrow> int \<times> int \<times> iotx_mc_client_t" where
  "decode_packet_loop c len multiplier val timeout =
     (if len + 1 > MAX_NO_OF_REMAINING_LENGTH_BYTES then (MQTTPACKET_READ_ERROR, val, c)
      else (case ipstack_read 1 (if timeout = 0 then 1 else timeout) (env c) of (rc, data, h) \<Rightarrow>
        let c = c\<lparr>env := h\<rparr> in
        if rc = 0 then (FAIL_RETURN, val, c)
        else if rc \<noteq> 1 then (MQTT_NETWORK_ERROR, val, c)
        else let i = hd data; val = val + uint (i AND 127) * multiplier in
          if i AND 128 \<noteq> 0 then decode_packet_loop c (len + 1) (multiplier * 128) val timeout
          else (int (len + 1), val, c)))"
  by pat_completeness auto
termination
  by (relation "measure (\<lambda>(c, len, m, v, t). 4 - len)") (auto simp: MAX_NO_OF_REMAINING_LENGTH_BYTES_def)

declare decode_packet_loop.simps [simp del]

definition iotx_mc_decode_packet :: "iotx_mc_client_t \<Rightarrow> u32 \<Rightarrow> int \<times> int \<times> iotx_mc_client_t" where
  "iotx_mc_decode_packet c timeout = decode_packet_loop c 0 1 0 timeout"

definition call_handle :: "iotx_mc_client_t \<Rightarrow> iotx_mqtt_event_handle_t \<Rightarrow> iotx_mqtt_event_type_t \<Rightarrow> event_msg \<Rightarrow> iotx_mc_client_t" where
  "call_handle c hdl type msg = c\<lparr>events := events c @ [\<lparr>ev_handle = hdl, ev_type = type, ev_msg = msg\<rparr>]\<rparr>"

text \<open>\<open>_handle_event\<close>\<close>

definition handle_event_cb ::
  "iotx_mqtt_event_handle_t \<Rightarrow> iotx_mc_client_t \<Rightarrow> iotx_mqtt_event_type_t \<Rightarrow> event_msg \<Rightarrow> int \<times> iotx_mc_client_t" where
  "handle_event_cb hdl c type msg =
     (if h_fp hdl = None then (FAIL_RETURN, c)
      else (0, (call_handle (c\<lparr>in_yield_cb := True\<rparr>) hdl type msg)\<lparr>in_yield_cb := False\<rparr>))"

text \<open>The branch of \<open>iotx_mc_read_packet\<close> for a packet longer than the read buffer.\<close>

definition read_overlong ::
  "iotx_mc_client_t \<Rightarrow> iotx_time_t \<Rightarrow> byte \<Rightarrow> int \<Rightarrow> int \<Rightarrow> (int \<times> byte \<times> iotx_mc_client_t) option" where
  "read_overlong c timer packet_type len rem_len = do {
     let needReadLen = uint (buf_size_read c) - len;
     let (left_t, c) = hal_run (time_left_nz timer) c;
     (rc, c) \<leftarrow> read_into c (nat len) needReadLen left_t;
     if rc < 0 then Some (MQTT_NETWORK_ERROR, packet_type, c)
     else if rc \<noteq> needReadLen then Some (FAIL_RETURN, packet_type, c)
     else do {
       let remainDataLen = rem_len - needReadLen;
       let (remainDataBuf, c) = hal_run (HAL_Malloc (nat (remainDataLen + 1))) c;
       if remainDataBuf = None then Some (FAIL_RETURN, packet_type, c)
       else do {
         let (left_t, c) = hal_run (time_left_nz timer) c;
         (case ipstack_read (nat remainDataLen) left_t (env c) of (rc, data, h) \<Rightarrow>
            let c = c\<lparr>env := h\<rparr> in
            if rc < 0 then Some (MQTT_NETWORK_ERROR, packet_type, c)
            else if rc \<noteq> remainDataLen then Some (FAIL_RETURN, packet_type, c)
            else Some (SUCCESS_RETURN, cpt MQTT_CPT_RESERVED,
                   (if h_fp (handle_event c) \<noteq> None
                    then snd (handle_event_cb (handle_event c) c IOTX_MQTT_EVENT_BUFFER_OVERFLOW MsgText) else c)))
       }
     }
   }"

text \<open>Its last part, where the rest of the packet fits into the buffer.\<close>

definition read_remaining ::
  "iotx_mc_client_t \<Rightarrow> iotx_time_t \<Rightarrow> byte \<Rightarrow> int \<Rightarrow> int \<Rightarrow> (int \<times> byte \<times> iotx_mc_client_t) option" where
  "read_remaining c timer packet_type len rem_len = do {
     let (left_t, c) = hal_run (time_left_nz timer) c;
     (rc, c) \<leftarrow> read_into c (nat len) rem_len left_t;
     if rem_len > 0 \<and> rc < 0 then Some (MQTT_NETWORK_ERROR, packet_type, c)
     else if rem_len > 0 \<and> rc \<noteq> rem_len then Some (FAIL_RETURN, packet_type, c)
     else do {
       buf \<leftarrow> buf_read c;
       header \<leftarrow> load buf 0;
       buf \<leftarrow> (if len + rem_len < uint (buf_size_read c) then store buf (nat (len + rem_len)) 0 else Some buf);
       Some (SUCCESS_RETURN, MQTT_HEADER_GET_TYPE header, c\<lparr>buf_read := Some buf\<rparr>)
     }
   }"

text \<open>From the point where the remaining length is known.\<close>

definition read_body ::
  "iotx_mc_client_t \<Rightarrow> iotx_time_t \<Rightarrow> byte \<Rightarrow> int \<Rightarrow> (int \<times> byte \<times> iotx_mc_client_t) option" where
  "read_body c timer packet_type rem_len = do {
     buf \<leftarrow> buf_read c;
     (buf, n) \<leftarrow> MQTTPacket_encode buf 1 rem_len;
     let c = c\<lparr>buf_read := Some buf\<rparr>;
     let len = 1 + int n;
     let (rc, c) = alloc_recv_buffer c (rem_len + len);
     if rc < 0 then Some (FAIL_RETURN, packet_type, c)
     else if rem_len > 0 \<and> rem_len + len > uint (buf_size_read c)
     then read_overlong c timer packet_type len rem_len
     else read_remaining c timer packet_type len rem_len
   }"

definition iotx_mc_read_packet ::
  "iotx_mc_client_t \<Rightarrow> iotx_time_t \<Rightarrow> byte \<Rightarrow> (int \<times> byte \<times> iotx_mc_client_t) option" where
  "iotx_mc_read_packet c timer packet_type =
     (let (rc, c) = alloc_recv_buffer c 0 in
      if rc < 0 then Some (FAIL_RETURN, packet_type, c)
      else do {
        let (left_t, c) = hal_run (time_left_nz timer) c;
        (rc, c) \<leftarrow> read_into c 0 1 left_t;
        if rc = 0 then Some (SUCCESS_RETURN, cpt MQTT_CPT_RESERVED, c)
        else if rc \<noteq> 1 then Some (MQTT_NETWORK_ERROR, packet_type, c)
        else do {
          let (left_t, c) = hal_run (time_left_nz timer) c;
          let (rc, rem_len, c) = iotx_mc_decode_packet c left_t;
          if rc < 0 then Some (rc, packet_type, c)
          else read_body c timer packet_type rem_len
        }
      })"

subsection \<open>The handshake\<close>

definition iotx_mc_handle_recv_CONNACK :: "iotx_mc_client_t \<Rightarrow> int option" where
  "iotx_mc_handle_recv_CONNACK c = do {
     buf \<leftarrow> buf_read c;
     (r, sessionPresent, connack_rc) \<leftarrow> MQTTDeserialize_connack 0 255 buf;
     Some (if r \<noteq> 1 then MQTT_CONNECT_ACK_PACKET_ERROR
           else if connack_rc = 0 then SUCCESS_RETURN
           else if connack_rc = 1 then MQTT_CONANCK_UNACCEPTABLE_PROTOCOL_VERSION_ERROR
           else if connack_rc = 2 then MQTT_CONNACK_IDENTIFIER_REJECTED_ERROR
           else if connack_rc = 3 then MQTT_CONNACK_SERVER_UNAVAILABLE_ERROR
           else if connack_rc = 4 then MQTT_CONNACK_BAD_USERDATA_ERROR
           else if connack_rc = 5 then MQTT_CONNACK_NOT_AUTHORIZED_ERROR
           else MQTT_CONNACK_UNKNOWN_ERROR)
   }"

definition WAIT_CONNACK_MAX :: nat where "WAIT_CONNACK_MAX = 10"

function wait_CONNACK_loop ::
  "iotx_mc_client_t \<Rightarrow> iotx_time_t \<Rightarrow> nat \<Rightarrow> byte \<Rightarrow> (int \<times> iotx_mc_client_t) option" where
  "wait_CONNACK_loop c timer wait_connack packetType = do {
     (rc, packetType, c) \<leftarrow> iotx_mc_read_packet c timer packetType;
     if rc \<noteq> SUCCESS_RETURN then Some (rc, reset_recv_buffer c)
     else if wait_connack + 1 > WAIT_CONNACK_MAX then Some (MQTT_NETWORK_ERROR, reset_recv_buffer c)
     else if packetType \<noteq> cpt CONNACK then wait_CONNACK_loop c timer (wait_connack + 1) packetType
     else do {
       rc \<leftarrow> iotx_mc_handle_recv_CONNACK c;
       Some (rc, reset_recv_buffer c)
     }
   }"
  by pat_completeness auto
termination
  by (relation "measure (\<lambda>(c, t, w, p). 11 - w)") (auto simp: WAIT_CONNACK_MAX_def)

declare wait_CONNACK_loop.simps [simp del]

definition iotx_mc_wait_CONNACK :: "iotx_mc_client_t \<Rightarrow> (int \<times> iotx_mc_client_t) option" where
  "iotx_mc_wait_CONNACK c =
     (let (timer, c) = hal_run (utils_time_countdown_ms (request_timeout_ms c)) c
      in wait_CONNACK_loop c timer 0 0)"

definition RETRY_TIME_LIMIT :: nat where "RETRY_TIME_LIMIT = 9"
definition RETRY_INTV_PERIOD :: u32 where "RETRY_INTV_PERIOD = 2000"

text \<open>
  The retry loop of \<open>_mqtt_connect\<close>. The result is \<open>Inl rc\<close> for a return inside the loop
  and \<open>Inr try_count\<close> when the loop is left.
\<close>

function mqtt_connect_loop ::
  "iotx_mc_client_t \<Rightarrow> u16 \<Rightarrow> nat \<Rightarrow> ((int + nat) \<times> iotx_mc_client_t) option" where
  "mqtt_connect_loop c userKeepAliveInterval try_count = do {
     (rc, c) \<leftarrow> MQTTConnect c;
     let c = c\<lparr>connect_data := (connect_data c)\<lparr>keepAliveInterval := userKeepAliveInterval\<rparr>\<rparr>;
     if rc \<noteq> SUCCESS_RETURN then Some (Inl rc, hal_exec ipstack_disconnect c)
     else do {
       (rc, c) \<leftarrow> iotx_mc_wait_CONNACK c;
       if rc \<le> MQTT_CONNACK_NOT_AUTHORIZED_ERROR \<and> rc \<ge> MQTT_CONANCK_UNACCEPTABLE_PROTOCOL_VERSION_ERROR
       then Some (Inl MQTT_CONNECT_ERROR, hal_exec ipstack_disconnect c)
       else if rc \<noteq> SUCCESS_RETURN then do {
         let c = hal_exec (HAL_SleepMs RETRY_INTV_PERIOD) c;
         let c = hal_exec ipstack_disconnect c;
         let (_, c) = hal_run ipstack_connect c;
         if try_count + 1 < RETRY_TIME_LIMIT then mqtt_connect_loop c userKeepAliveInterval (try_count + 1)
         else Some (Inr (try_count + 1), c)
       }
       else Some (Inr try_count, c)
     }
   }"
  by pat_completeness auto
termination
  by (relation "measure (\<lambda>(c, k, t). 9 - t)") (auto simp: RETRY_TIME_LIMIT_def)

declare mqtt_connect_loop.simps [simp del]

definition mqtt_connect :: "iotx_mc_client_t \<Rightarrow> (int \<times> iotx_mc_client_t) option" where
  "mqtt_connect pClient = do {
     let userKeepAliveInterval = keepAliveInterval (connect_data pClient);
     let doubled = userKeepAliveInterval * 2;
     let interval = (if doubled > CONFIG_MQTT_KEEPALIVE_INTERVAL_MAX then CONFIG_MQTT_KEEPALIVE_INTERVAL_MAX else doubled);
     let c = pClient\<lparr>connect_data := (connect_data pClient)\<lparr>keepAliveInterval := interval\<rparr>\<rparr>;
     (r, c) \<leftarrow> mqtt_connect_loop c userKeepAliveInterval 1;
     (case r of
        Inl rc \<Rightarrow> Some (rc, c)
      | Inr try_count \<Rightarrow>
          if try_count = RETRY_TIME_LIMIT then Some (MQTT_CONNECT_ERROR, c)
          else let c = c\<lparr>keepalive_probes := 0\<rparr>;
                   c = iotx_mc_set_client_state c IOTX_MC_STATE_CONNECTED;
                   (t, c) = hal_run (utils_time_countdown_ms (ucast (keepAliveInterval (connect_data c)) * 1000)) c
               in Some (SUCCESS_RETURN, c\<lparr>next_ping_time := t\<rparr>))
   }"

definition connect_retry_max :: nat where "connect_retry_max = 3"

function tcp_connect_loop :: "iotx_mc_client_t \<Rightarrow> nat \<Rightarrow> iotx_mc_client_t" where
  "tcp_connect_loop c retry_cnt =
     (let (rc, c) = hal_run ipstack_connect c in
      if rc \<noteq> SUCCESS_RETURN then
        (let c = hal_exec ipstack_disconnect c;
             c = hal_exec (HAL_SleepMs 1000) c
         in if retry_cnt + 1 \<le> connect_retry_max then tcp_connect_loop c (retry_cnt + 1) else c)
      else c)"
  by pat_completeness auto
termination
  by (relation "measure (\<lambda>(c, n). 3 - n)") (auto simp: connect_retry_max_def)

declare tcp_connect_loop.simps [simp del]

definition wrapper_mqtt_connect :: "iotx_mc_client_t \<Rightarrow> (int \<times> iotx_mc_client_t) option" where
  "wrapper_mqtt_connect pClient = mqtt_connect (tcp_connect_loop pClient 1)"

end
