(* ===== verification/MQTT_Session.thy ===== *)
theory MQTT_Session
  imports MQTT_Client
begin

text \<open>
  The MQTT client of \<open>src/mqtt/impl/iotx_mqtt_client.c\<close>, second part: publications waiting for
  their acknowledgement, the handlers of received packets, the receive cycle, keep-alive and
  reconnection, and the operations of the application (\<open>wrapper_mqtt_*\<close>).
\<close>

subsection \<open>Publications waiting for an acknowledgement\<close>

text \<open>Sizes of the structures on a 64-bit target, the arguments of \<open>HAL_Malloc\<close>.\<close>

definition sizeof_pub_info :: nat where "sizeof_pub_info = 40"
definition sizeof_topic_handle :: nat where "sizeof_topic_handle = 48"
definition sizeof_sub_sync_node :: nat where "sizeof_sub_sync_node = 40"
definition sizeof_client :: nat where "sizeof_client = 480"

definition iotx_mc_push_pubInfo_to :: "iotx_mc_client_t \<Rightarrow> int \<Rightarrow> u16 \<Rightarrow> (int \<times> iotx_mc_client_t) option" where
  "iotx_mc_push_pubInfo_to c len msgId =
     (if len < 0 \<or> len > uint (buf_size_send c) then Some (FAIL_RETURN, c)
      else if length (list_pub_wait_ack c) \<ge> IOTX_MC_REPUB_NUM_MAX then Some (FAIL_RETURN, c)
      else do {
        let (p, c) = hal_run (HAL_Malloc (sizeof_pub_info + nat len)) c;
        if p = None then Some (FAIL_RETURN, c)
        else do {
          let (start, c) = hal_run iotx_time_start c;
          buf \<leftarrow> buf_send c;
          data \<leftarrow> load_bytes buf 0 (nat len);
          let repubInfo = \<lparr>pub_start_time = start, node_state = IOTX_MC_NODE_STATE_NORMANL, msg_id = msgId,
                           pub_len = word_of_int len, pub_buf = data\<rparr>;
          Some (SUCCESS_RETURN, c\<lparr>list_pub_wait_ack := list_pub_wait_ack c @ [repubInfo]\<rparr>)
        }
      })"

definition iotx_mc_mask_pubInfo_from :: "iotx_mc_client_t \<Rightarrow> u16 \<Rightarrow> int \<times> iotx_mc_client_t" where
  "iotx_mc_mask_pubInfo_from c msgId =
     (SUCCESS_RETURN, c\<lparr>list_pub_wait_ack :=
        map (\<lambda>node. if msg_id node = msgId then node\<lparr>node_state := IOTX_MC_NODE_STATE_INVALID\<rparr> else node)
          (list_pub_wait_ack c)\<rparr>)"

definition MQTTRePublish :: "iotx_mc_client_t \<Rightarrow> byte list \<Rightarrow> int \<Rightarrow> (int \<times> iotx_mc_client_t) option" where
  "MQTTRePublish c buf len = do {
     let (timer, c) = hal_run (utils_time_countdown_ms (request_timeout_ms c)) c;
     (rc, c) \<leftarrow> iotx_mc_send_packet c (Some buf) len timer;
     Some (if rc \<noteq> SUCCESS_RETURN then MQTT_NETWORK_ERROR else SUCCESS_RETURN, c)
   }"

text \<open>The loop over the waiting list; its result is the new list and the client.\<close>

fun pub_info_loop ::
  "iotx_mc_client_t \<Rightarrow> iotx_mc_pub_info_t list \<Rightarrow> (iotx_mc_pub_info_t list \<times> iotx_mc_client_t) option" where
  "pub_info_loop c [] = Some ([], c)"
| "pub_info_loop c (node # rest) =
     (if node_state node = IOTX_MC_NODE_STATE_INVALID then pub_info_loop c rest
      else if iotx_mc_get_client_state c \<noteq> IOTX_MC_STATE_CONNECTED
      then do { (ns, c) \<leftarrow> pub_info_loop c rest; Some (node # ns, c) }
      else (case hal_run (utils_time_spend (pub_start_time node)) c of (spend, c) \<Rightarrow>
        if spend \<le> request_timeout_ms c * 2
        then do { (ns, c) \<leftarrow> pub_info_loop c rest; Some (node # ns, c) }
        else do {
          (rc, c) \<leftarrow> MQTTRePublish c (pub_buf node) (uint (pub_len node));
          let (start, c) = hal_run iotx_time_start c;
          let node = node\<lparr>pub_start_time := start\<rparr>;
          if rc = MQTT_NETWORK_ERROR
          then Some (node # rest, iotx_mc_set_client_state c IOTX_MC_STATE_DISCONNECTED)
          else do { (ns, c) \<leftarrow> pub_info_loop c rest; Some (node # ns, c) }
        }))"

definition MQTTPubInfoProc :: "iotx_mc_client_t \<Rightarrow> (int \<times> iotx_mc_client_t) option" where
  "MQTTPubInfoProc pClient = do {
     (ns, c) \<leftarrow> pub_info_loop pClient (list_pub_wait_ack pClient);
     Some (SUCCESS_RETURN, c\<lparr>list_pub_wait_ack := ns\<rparr>)
   }"

subsection \<open>Received packets\<close>

text \<open>\<open>if (NULL != c->handle_event.h_fp) _handle_event(&c->handle_event, c, &msg)\<close>\<close>

definition notify :: "iotx_mc_client_t \<Rightarrow> iotx_mqtt_event_type_t \<Rightarrow> event_msg \<Rightarrow> iotx_mc_client_t" where
  "notify c type msg =
     (if h_fp (handle_event c) \<noteq> None then snd (handle_event_cb (handle_event c) c type msg) else c)"

definition iotx_mc_handle_recv_PUBACK :: "iotx_mc_client_t \<Rightarrow> (int \<times> iotx_mc_client_t) option" where
  "iotx_mc_handle_recv_PUBACK c = do {
     buf \<leftarrow> buf_read c;
     (r, type, dup, mypacketid) \<leftarrow> MQTTDeserialize_ack (junk (env c) (tick (env c))) buf;
     if r \<noteq> 1 then Some (MQTT_PUBLISH_ACK_PACKET_ERROR, c)
     else let (_, c) = iotx_mc_mask_pubInfo_from c mypacketid
          in Some (SUCCESS_RETURN, notify c IOTX_MQTT_EVENT_PUBLISH_SUCCESS (MsgId mypacketid))
   }"

definition iotx_mqtt_event_handle_sub :: "iotx_mc_client_t \<Rightarrow> u16 \<Rightarrow> iotx_mqtt_event_type_t \<Rightarrow> iotx_mc_client_t" where
  "iotx_mqtt_event_handle_sub client pid type =
     client\<lparr>list_sub_sync_ack :=
       map (\<lambda>node. if sync_packet_id node = uint pid then node\<lparr>ack_type := type\<rparr> else node) (list_sub_sync_ack client)\<rparr>"

text \<open>\<open>fail_flag\<close> after the loop over the granted QoS values.\<close>

definition suback_fail_flag :: "int list \<Rightarrow> int" where
  "suback_fail_flag grantedQoS =
     foldl (\<lambda>fail_flag q. if (word_of_int q :: u8) = 0x80 then 1 else 0) (-1) grantedQoS"

definition iotx_mc_handle_recv_SUBACK :: "iotx_mc_client_t \<Rightarrow> (int \<times> iotx_mc_client_t) option" where
  "iotx_mc_handle_recv_SUBACK c = do {
     buf \<leftarrow> buf_read c;
     (rc, mypacketid, grantedQoS) \<leftarrow> MQTTDeserialize_suback (junk (env c) (tick (env c))) MUTLI_SUBSCIRBE_MAX [] buf;
     if rc < 0 then Some (MQTT_SUBSCRIBE_ACK_PACKET_ERROR, c)
     else let type = (if suback_fail_flag grantedQoS = 1 then IOTX_MQTT_EVENT_SUBCRIBE_NACK
                      else IOTX_MQTT_EVENT_SUBCRIBE_SUCCESS);
              c = iotx_mqtt_event_handle_sub c mypacketid type
          in Some (SUCCESS_RETURN, notify c type (MsgId mypacketid))
   }"

text \<open>The test of one subscription against the name of a received message.\<close>

definition handle_matches :: "MQTTString \<Rightarrow> iotx_mc_topic_handle_t \<Rightarrow> bool" where
  "handle_matches topicName node \<longleftrightarrow>
     MQTTPacket_equals topicName (topic_filter node) \<or>
     iotx_mc_is_topic_matched (Some (topic_filter node)) (ls_data (lenstring topicName))"

fun deliver_loop ::
  "iotx_mc_client_t \<Rightarrow> MQTTString \<Rightarrow> event_msg \<Rightarrow> iotx_mc_topic_handle_t list \<Rightarrow> bool \<Rightarrow> bool \<times> iotx_mc_client_t" where
  "deliver_loop c topicName msg [] flag_matched = (flag_matched, c)"
| "deliver_loop c topicName msg (node # nodes) flag_matched =
     (if handle_matches topicName node \<and> h_fp (handle node) \<noteq> None
      then deliver_loop (snd (handle_event_cb (handle node) c IOTX_MQTT_EVENT_PUBLISH_RECEIVED msg)) topicName msg nodes True
      else deliver_loop c topicName msg nodes flag_matched)"

definition iotx_mc_deliver_message ::
  "iotx_mc_client_t \<Rightarrow> MQTTString \<Rightarrow> iotx_mqtt_topic_info_t \<Rightarrow> byte list \<Rightarrow> iotx_mc_client_t" where
  "iotx_mc_deliver_message c topicName topic_msg buf =
     (let topic_msg = topic_msg\<lparr>ti_ptopic := ls_data (lenstring topicName),
                                ti_topic_len := word_of_int (ls_len (lenstring topicName))\<rparr>;
          msg = MsgTopic topic_msg buf;
          (flag_matched, c) = deliver_loop c topicName msg (list_sub_handle c) False
      in if \<not> flag_matched then notify c IOTX_MQTT_EVENT_PUBLISH_RECEIVED msg else c)"

definition MQTTPuback :: "iotx_mc_client_t \<Rightarrow> u16 \<Rightarrow> msgTypes \<Rightarrow> (int \<times> iotx_mc_client_t) option" where
  "MQTTPuback c msgId type = do {
     let (timer, c) = hal_run (utils_time_countdown_ms (request_timeout_ms c)) c;
     if type = PUBACK then do {
       let (rc, c) = alloc_send_buffer c 0;
       if rc < 0 then Some (FAIL_RETURN, c)
       else do {
         (len, c) \<leftarrow> serialize_into c (\<lambda>buf size. MQTTSerialize_ack buf size (cpt PUBACK) 0 msgId);
         if len \<le> 0 then Some (MQTT_PUBLISH_ACK_PACKET_ERROR, reset_send_buffer c)
         else do {
           (rc, c) \<leftarrow> iotx_mc_send_packet c (buf_send c) len timer;
           Some (if rc \<noteq> SUCCESS_RETURN then MQTT_NETWORK_ERROR else SUCCESS_RETURN, reset_send_buffer c)
         }
       }
     } else Some (MQTT_PUBLISH_ACK_TYPE_ERROR, c)
   }"

definition zero_publish_out :: publish_out where
  "zero_publish_out = \<lparr>po_dup = 0, po_qos = 0, po_retained = 0, po_packetid = 0,
     po_topicName = MQTTString_initializer, po_payload = None, po_payloadlen = 0\<rparr>"

definition iotx_mc_handle_recv_PUBLISH :: "iotx_mc_client_t \<Rightarrow> (int \<times> iotx_mc_client_t) option" where
  "iotx_mc_handle_recv_PUBLISH c = do {
     buf \<leftarrow> buf_read c;
     (r, out) \<leftarrow> MQTTDeserialize_publish zero_publish_out buf;
     if r \<noteq> 1 then Some (MQTT_PUBLISH_PACKET_ERROR, c)
     else do {
       let topicName = po_topicName out;
       let topic_msg = \<lparr>ti_packet_id = po_packetid out, ti_qos = word_of_int (po_qos out), ti_dup = po_dup out,
                        ti_retain = po_retained out, ti_topic_len = 0, ti_payload_len = word_of_int (po_payloadlen out),
                        ti_ptopic = None, ti_payload = po_payload out\<rparr>;
       if ls_len (lenstring topicName) = 0 \<or> ls_data (lenstring topicName) = None
       then Some (MQTT_PUBLISH_PACKET_ERROR, c)
       else let c = iotx_mc_deliver_message c topicName topic_msg buf in
         if ti_qos topic_msg = 0 then Some (SUCCESS_RETURN, c)
         else if ti_qos topic_msg = 1 then MQTTPuback c (ti_packet_id topic_msg) PUBACK
         else if ti_qos topic_msg = 2 then MQTTPuback c (ti_packet_id topic_msg) PUBREC
         else Some (MQTT_PUBLISH_QOS_ERROR, c)
     }
   }"

definition iotx_mc_handle_recv_UNSUBACK :: "iotx_mc_client_t \<Rightarrow> (int \<times> iotx_mc_client_t) option" where
  "iotx_mc_handle_recv_UNSUBACK c = do {
     buf \<leftarrow> buf_read c;
     (r, mypacketid) \<leftarrow> MQTTDeserialize_unsuback 0 buf;
     if r \<noteq> 1 then Some (MQTT_UNSUBSCRIBE_ACK_PACKET_ERROR, c)
     else Some (SUCCESS_RETURN, notify c IOTX_MQTT_EVENT_UNSUBCRIBE_SUCCESS (MsgId mypacketid))
   }"

text \<open>The \<open>switch\<close> of \<open>iotx_mc_cycle\<close> on the type of a received packet.\<close>

definition dispatch_packet :: "iotx_mc_client_t \<Rightarrow> byte \<Rightarrow> (int \<times> iotx_mc_client_t) option" where
  "dispatch_packet c packetType =
     (if packetType = cpt CONNACK then Some (SUCCESS_RETURN, c)
      else if packetType = cpt PUBACK then iotx_mc_handle_recv_PUBACK c
      else if packetType = cpt SUBACK then iotx_mc_handle_recv_SUBACK c
      else if packetType = cpt PUBLISH then iotx_mc_handle_recv_PUBLISH c
      else if packetType = cpt UNSUBACK then iotx_mc_handle_recv_UNSUBACK c
      else if packetType = cpt PINGRESP then Some (SUCCESS_RETURN, c)
      else Some (FAIL_RETURN, c))"

definition iotx_mc_cycle :: "iotx_mc_client_t \<Rightarrow> iotx_time_t \<Rightarrow> (int \<times> iotx_mc_client_t) option" where
  "iotx_mc_cycle c timer =
     (if iotx_mc_get_client_state c \<noteq> IOTX_MC_STATE_CONNECTED then Some (MQTT_STATE_ERROR, c)
      else do {
        let c = (if IOTX_MC_KEEPALIVE_PROBE_MAX < keepalive_probes c
                 then (iotx_mc_set_client_state c IOTX_MC_STATE_DISCONNECTED)\<lparr>keepalive_probes := 0\<rparr> else c);
        (rc, packetType, c) \<leftarrow> iotx_mc_read_packet c timer 0;
        if rc \<noteq> SUCCESS_RETURN then do {
          let c = reset_recv_buffer c;
          Some (MQTT_NETWORK_ERROR,
            if rc = MQTT_NETWORK_ERROR then iotx_mc_set_client_state c IOTX_MC_STATE_DISCONNECTED else c)
        }
        else if packetType = cpt MQTT_CPT_RESERVED then Some (SUCCESS_RETURN, reset_recv_buffer c)
        else do {
          let c = c\<lparr>keepalive_probes := 0\<rparr>;
          (rc, c) \<leftarrow> dispatch_packet c packetType;
          Some (rc, reset_recv_buffer c)
        }
      })"

partial_function (option) mqtt_cycle_loop :: "iotx_mc_client_t \<Rightarrow> iotx_time_t \<Rightarrow> iotx_mc_client_t option" where
  "mqtt_cycle_loop c time = do {
     (rc, c) \<leftarrow> iotx_mc_cycle c time;
     (_, c) \<leftarrow> (if rc = SUCCESS_RETURN then MQTTPubInfoProc c else Some (rc, c));
     (case hal_run (iotx_time_left time) c of (left_t, c) \<Rightarrow>
      (case hal_run (utils_time_is_expired time) (hal_exec (HAL_SleepMs (if left_t < 10 then left_t else 10)) c) of
         (expired, c) \<Rightarrow> if expired then Some c else mqtt_cycle_loop c time))
   }"

declare mqtt_cycle_loop.simps [code]

definition mqtt_cycle :: "iotx_mc_client_t \<Rightarrow> iotx_mc_client_t option" where
  "mqtt_cycle pClient =
     (let (time, c) = hal_run (utils_time_countdown_ms (cycle_timeout_ms pClient)) pClient in mqtt_cycle_loop c time)"

subsection \<open>Keep-alive and reconnection\<close>

definition wrapper_mqtt_check_state :: "iotx_mc_client_t \<Rightarrow> bool" where
  "wrapper_mqtt_check_state client \<longleftrightarrow> iotx_mc_get_client_state client = IOTX_MC_STATE_CONNECTED"

definition MQTTKeepalive :: "iotx_mc_client_t \<Rightarrow> (int \<times> iotx_mc_client_t) option" where
  "MQTTKeepalive pClient = do {
     let (timer, c) = hal_run (utils_time_countdown_ms 1000) pClient;
     let (rc, c) = alloc_send_buffer c 0;
     if rc < 0 then Some (FAIL_RETURN, c)
     else do {
       (len, c) \<leftarrow> serialize_into c MQTTSerialize_pingreq;
       if len \<le> 0 then Some (MQTT_PING_PACKET_ERROR, reset_send_buffer c)
       else do {
         (rc, c) \<leftarrow> iotx_mc_send_packet c (buf_send c) len timer;
         Some (if rc \<noteq> SUCCESS_RETURN then MQTT_NETWORK_ERROR else SUCCESS_RETURN, reset_send_buffer c)
       }
     }
   }"

definition iotx_mc_keepalive_sub :: "iotx_mc_client_t \<Rightarrow> (int \<times> iotx_mc_client_t) option" where
  "iotx_mc_keepalive_sub pClient =
     (if \<not> wrapper_mqtt_check_state pClient then Some (SUCCESS_RETURN, pClient)
      else do {
        let (expired, c) = hal_run (utils_time_is_expired (next_ping_time pClient)) pClient;
        if \<not> expired then Some (SUCCESS_RETURN, c)
        else do {
          let (t, c) = hal_run (utils_time_countdown_ms (ucast (keepAliveInterval (connect_data c)) * 1000)) c;
          let c = c\<lparr>next_ping_time := t\<rparr>;
          (rc, c) \<leftarrow> MQTTKeepalive c;
          if rc \<noteq> SUCCESS_RETURN
          then Some (rc, if rc = MQTT_NETWORK_ERROR then iotx_mc_set_client_state c IOTX_MC_STATE_DISCONNECTED else c)
          else Some (SUCCESS_RETURN, c\<lparr>keepalive_probes := keepalive_probes c + 1\<rparr>)
        }
      })"

definition iotx_mc_attempt_reconnect :: "iotx_mc_client_t \<Rightarrow> (int \<times> iotx_mc_client_t) option" where
  "iotx_mc_attempt_reconnect pClient = wrapper_mqtt_connect (hal_exec ipstack_disconnect pClient)"

definition iotx_mc_handle_reconnect :: "iotx_mc_client_t \<Rightarrow> (int \<times> iotx_mc_client_t) option" where
  "iotx_mc_handle_reconnect pClient = do {
     let (expired, c) = hal_run (utils_time_is_expired (reconnect_next_time pClient)) pClient;
     if \<not> expired then Some (FAIL_RETURN, hal_exec (HAL_SleepMs 100) c)
     else do {
       (rc, c) \<leftarrow> iotx_mc_attempt_reconnect c;
       if rc = SUCCESS_RETURN then Some (SUCCESS_RETURN, iotx_mc_set_client_state c IOTX_MC_STATE_CONNECTED)
       else if rc = MQTT_CONNECT_BLOCK then Some (rc, c)
       else do {
         let c = c\<lparr>reconnect_time_interval_ms :=
                     (if IOTX_MC_RECONNECT_INTERVAL_MAX_MS > reconnect_time_interval_ms c
                      then reconnect_time_interval_ms c * 2 else IOTX_MC_RECONNECT_INTERVAL_MAX_MS)\<rparr>;
         let interval_ms = (if IOTX_MC_RECONNECT_INTERVAL_MAX_MS < reconnect_time_interval_ms c
                            then IOTX_MC_RECONNECT_INTERVAL_MAX_MS else reconnect_time_interval_ms c);
         let (t, c) = hal_run (utils_time_countdown_ms interval_ms) c;
         Some (rc, c\<lparr>reconnect_next_time := t\<rparr>)
       }
     }
   }"

text \<open>These two call \<open>h_fp\<close> directly, without \<open>_in_yield_cb\<close>.\<close>

definition iotx_mc_reconnect_callback :: "iotx_mc_client_t \<Rightarrow> iotx_mc_client_t" where
  "iotx_mc_reconnect_callback pClient =
     (if h_fp (handle_event pClient) \<noteq> None
      then call_handle pClient (handle_event pClient) IOTX_MQTT_EVENT_RECONNECT MsgNone else pClient)"

definition iotx_mc_disconnect_callback :: "iotx_mc_client_t \<Rightarrow> iotx_mc_client_t" where
  "iotx_mc_disconnect_callback pClient =
     (if h_fp (handle_event pClient) \<noteq> None
      then call_handle pClient (handle_event pClient) IOTX_MQTT_EVENT_DISCONNECT MsgNone else pClient)"

definition iotx_mc_keepalive :: "iotx_mc_client_t \<Rightarrow> iotx_mc_client_t option" where
  "iotx_mc_keepalive pClient = do {
     (_, c) \<leftarrow> iotx_mc_keepalive_sub pClient;
     let currentState = iotx_mc_get_client_state c;
     if currentState = IOTX_MC_STATE_DISCONNECTED_RECONNECTING \<or> currentState = IOTX_MC_STATE_CONNECT_BLOCK
     then do {
       (rc, c) \<leftarrow> iotx_mc_handle_reconnect c;
       if rc \<noteq> SUCCESS_RETURN then Some c
       else if rc = MQTT_CONNECT_BLOCK then Some c
       else Some ((iotx_mc_reconnect_callback c)\<lparr>reconnect_time_interval_ms := IOTX_MC_RECONNECT_INTERVAL_MIN_MS\<rparr>)
     }
     else if currentState = IOTX_MC_STATE_DISCONNECTED then do {
       let c = iotx_mc_disconnect_callback c;
       let c = c\<lparr>reconnect_time_interval_ms := IOTX_MC_RECONNECT_INTERVAL_MIN_MS\<rparr>;
       let (t, c) = hal_run (utils_time_countdown_ms (reconnect_time_interval_ms c)) c;
       let c = c\<lparr>reconnect_next_time := t\<rparr>;
       let c = hal_exec ipstack_disconnect c;
       Some (iotx_mc_set_client_state c IOTX_MC_STATE_DISCONNECTED_RECONNECTING)
     }
     else Some c
   }"

subsection \<open>Subscribing\<close>

definition iotx_mc_check_handle_is_identical_ex :: "iotx_mc_topic_handle_t \<Rightarrow> iotx_mc_topic_handle_t \<Rightarrow> int" where
  "iotx_mc_check_handle_is_identical_ex messageHandlers1 messageHandler2 =
     (let topicNameLen = length (topic_filter messageHandlers1) in
      if topicNameLen \<noteq> length (topic_filter messageHandler2) then 1
      else if take topicNameLen (topic_filter messageHandlers1) \<noteq> take topicNameLen (topic_filter messageHandler2) then 1
      else 0)"

definition iotx_mc_check_handle_is_identical :: "iotx_mc_topic_handle_t \<Rightarrow> iotx_mc_topic_handle_t \<Rightarrow> int" where
  "iotx_mc_check_handle_is_identical messageHandlers1 messageHandler2 =
     (if iotx_mc_check_handle_is_identical_ex messageHandlers1 messageHandler2 \<noteq> 0 then 1
      else if h_fp (handle messageHandlers1) \<noteq> h_fp (handle messageHandler2) then 1
      else if pcontext (handle messageHandlers1) \<noteq> pcontext (handle messageHandler2) then 1
      else 0)"

text \<open>The list after \<open>MQTTSubscribe\<close> registered \<open>handler\<close>.\<close>

definition add_sub_handle :: "iotx_mc_topic_handle_t \<Rightarrow> iotx_mc_client_t \<Rightarrow> iotx_mc_client_t" where
  "add_sub_handle handler c =
     (let dup = list_ex (\<lambda>node. iotx_mc_check_handle_is_identical node handler = 0) (list_sub_handle c)
      in if \<not> dup then c\<lparr>list_sub_handle := list_sub_handle c @ [handler]\<rparr> else c)"

definition MQTTSubscribe ::
  "iotx_mc_client_t \<Rightarrow> cstr \<Rightarrow> int \<Rightarrow> u32 \<Rightarrow> nat \<Rightarrow> nat \<Rightarrow> (int \<times> iotx_mc_client_t) option" where
  "MQTTSubscribe c topicFilter qos msgId messageHandler context = do {
     let topic = MQTTString_initializer\<lparr>cstring := Some topicFilter\<rparr>;
     let (timer, c) = hal_run (utils_time_countdown_ms (request_timeout_ms c)) c;
     let (p, c) = hal_run (HAL_Malloc sizeof_topic_handle) c;
     if p = None then Some (FAIL_RETURN, c)
     else do {
       let (p, c) = hal_run (HAL_Malloc (length topicFilter + 1)) c;
       if p = None then Some (FAIL_RETURN, c)
       else do {
         let handler = \<lparr>handle = \<lparr>h_fp = Some messageHandler, pcontext = context\<rparr>, topic_filter = topicFilter\<rparr>;
         let (rc, c) = alloc_send_buffer c (int (length topicFilter));
         if rc < 0 then Some (FAIL_RETURN, c)
         else do {
           (len, c) \<leftarrow> serialize_into c (\<lambda>buf size. MQTTSerialize_subscribe buf size 0 (ucast msgId) 1 [topic] [qos]);
           if len \<le> 0 then Some (MQTT_SUBSCRIBE_PACKET_ERROR, reset_send_buffer c)
           else do {
             (rc, c) \<leftarrow> iotx_mc_send_packet c (buf_send c) len timer;
             if rc \<noteq> SUCCESS_RETURN then Some (MQTT_NETWORK_ERROR, reset_send_buffer c)
             else Some (SUCCESS_RETURN, add_sub_handle handler (reset_send_buffer c))
           }
         }
       }
     }
   }"

definition iotx_mc_get_next_packetid :: "iotx_mc_client_t \<Rightarrow> u32 \<times> iotx_mc_client_t" where
  "iotx_mc_get_next_packetid c =
     (let pid = (if packet_id c = IOTX_MC_PACKET_ID_MAX then 1 else packet_id c + 1) in (pid, c\<lparr>packet_id := pid\<rparr>))"

text \<open>
  The string that \<open>MQTTUnsubscribe\<close> compares the handlers with: its length counts the
  terminating zero of the topic filter.
\<close>

definition unsub_cur_topic :: "cstr \<Rightarrow> MQTTString" where
  "unsub_cur_topic topicFilter =
     \<lparr>cstring = None, lenstring = \<lparr>ls_len = int (length topicFilter) + 1, ls_data = Some (topicFilter @ [0])\<rparr>\<rparr>"

definition MQTTUnsubscribe :: "iotx_mc_client_t \<Rightarrow> cstr \<Rightarrow> u32 \<Rightarrow> (int \<times> iotx_mc_client_t) option" where
  "MQTTUnsubscribe c topicFilter msgId = do {
     let topic = MQTTString_initializer\<lparr>cstring := Some topicFilter\<rparr>;
     let (timer, c) = hal_run (utils_time_countdown_ms (request_timeout_ms c)) c;
     let (p, c) = hal_run (HAL_Malloc sizeof_topic_handle) c;
     if p = None then Some (FAIL_RETURN, c)
     else do {
       let (p, c) = hal_run (HAL_Malloc (length topicFilter + 1)) c;
       if p = None then Some (FAIL_RETURN, c)
       else do {
         let (rc, c) = alloc_send_buffer c (int (length topicFilter));
         if rc < 0 then Some (FAIL_RETURN, c)
         else do {
           (len, c) \<leftarrow> serialize_into c (\<lambda>buf size. MQTTSerialize_unsubscribe buf size 0 (ucast msgId) 1 [topic]);
           if len \<le> 0 then Some (MQTT_UNSUBSCRIBE_PACKET_ERROR, reset_send_buffer c)
           else do {
             (rc, c) \<leftarrow> iotx_mc_send_packet c (buf_send c) len timer;
             if rc \<noteq> SUCCESS_RETURN then Some (MQTT_NETWORK_ERROR, reset_send_buffer c)
             else let cur_topic = unsub_cur_topic topicFilter;
                      c = c\<lparr>list_sub_handle := filter (\<lambda>node. \<not> handle_matches cur_topic node) (list_sub_handle c)\<rparr>
                  in Some (SUCCESS_RETURN, reset_send_buffer c)
           }
         }
       }
     }
   }"

subsection \<open>Publishing and disconnecting\<close>

text \<open>\<open>topic_msg\<close> gives QoS, retain flag, packet id and payload length, \<open>payload\<close> the bytes.\<close>

definition MQTTPublish ::
  "iotx_mc_client_t \<Rightarrow> cstr \<Rightarrow> iotx_mqtt_topic_info_t \<Rightarrow> byte list \<Rightarrow> (int \<times> iotx_mc_client_t) option" where
  "MQTTPublish c topicName topic_msg payload = do {
     let topic = MQTTString_initializer\<lparr>cstring := Some topicName\<rparr>;
     let (timer, c) = hal_run (utils_time_countdown_ms (request_timeout_ms c)) c;
     let (rc, c) = alloc_send_buffer c (int (length topicName) + uint (ti_payload_len topic_msg));
     if rc < 0 then Some (FAIL_RETURN, c)
     else do {
       (len, c) \<leftarrow> serialize_into c (\<lambda>buf size. MQTTSerialize_publish buf size 0 (uint (ti_qos topic_msg))
                     (ti_retain topic_msg) (ti_packet_id topic_msg) topic payload (sint (ti_payload_len topic_msg)));
       if len \<le> 0 then Some (MQTT_PUBLISH_PACKET_ERROR, reset_send_buffer c)
       else do {
         (rc, c) \<leftarrow> (if ti_qos topic_msg > 0 then iotx_mc_push_pubInfo_to c len (ti_packet_id topic_msg)
                     else Some (SUCCESS_RETURN, c));
         if rc \<noteq> SUCCESS_RETURN then Some (MQTT_PUSH_TO_LIST_ERROR, reset_send_buffer c)
         else do {
           (rc, c) \<leftarrow> iotx_mc_send_packet c (buf_send c) len timer;
           if rc \<noteq> SUCCESS_RETURN
           then let c = (if ti_qos topic_msg > 0 then c\<lparr>list_pub_wait_ack := butlast (list_pub_wait_ack c)\<rparr> else c)
                in Some (MQTT_NETWORK_ERROR, reset_send_buffer c)
           else Some (SUCCESS_RETURN, reset_send_buffer c)
         }
       }
     }
   }"

definition MQTTDisconnect :: "iotx_mc_client_t \<Rightarrow> (int \<times> iotx_mc_client_t) option" where
  "MQTTDisconnect c = do {
     let (rc, c) = alloc_send_buffer c 0;
     if rc < 0 then Some (FAIL_RETURN, c)
     else do {
       (len, c) \<leftarrow> serialize_into c MQTTSerialize_disconnect;
       let (timer, c) = hal_run (utils_time_countdown_ms (request_timeout_ms c)) c;
       (rc, c) \<leftarrow> (if len > 0 then iotx_mc_send_packet c (buf_send c) len timer else Some (FAIL_RETURN, c));
       Some (rc, reset_send_buffer c)
     }
   }"

definition iotx_mc_disconnect :: "iotx_mc_client_t \<Rightarrow> (int \<times> iotx_mc_client_t) option" where
  "iotx_mc_disconnect pClient = do {
     (_, c) \<leftarrow> (if wrapper_mqtt_check_state pClient then MQTTDisconnect pClient else Some (-1, pClient));
     let c = hal_exec ipstack_disconnect c;
     Some (SUCCESS_RETURN, iotx_mc_set_client_state c IOTX_MC_STATE_INITIALIZED)
   }"

subsection \<open>The interface of the client\<close>

text \<open>The client that \<open>memset\<close> cleared, on the platform \<open>h\<close>.\<close>

definition zero_client :: "hal \<Rightarrow> iotx_mc_client_t" where
  "zero_client h =
     \<lparr>packet_id = 0, request_timeout_ms = 0, cycle_timeout_ms = 0, buf_size_send = 0, buf_size_send_max = 0,
      buf_size_read_max = 0, buf_size_read = 0, keepalive_probes = 0, buf_send = None, buf_read = None,
      list_sub_handle = [], next_ping_time = 0, client_state = IOTX_MC_STATE_INVALID, reconnect_next_time = 0,
      reconnect_time_interval_ms = 0, connect_data = MQTTPacket_connectData_initializer, list_pub_wait_ack = [],
      list_sub_sync_ack = [], handle_event = \<lparr>h_fp = None, pcontext = 0\<rparr>, in_yield_cb = False, env = h, events = []\<rparr>"

definition wrapper_mqtt_init :: "iotx_mqtt_param_t option \<Rightarrow> hal \<Rightarrow> iotx_mc_client_t option \<times> hal" where
  "wrapper_mqtt_init mqtt_params h =
     (let (p, h) = HAL_Malloc sizeof_client h in
      if p = None then (None, h)
      else let (err, c) = iotx_mc_init (zero_client h) mqtt_params
           in if err \<noteq> SUCCESS_RETURN then (None, env c) else (Some c, env c))"

text \<open>The released client's platform state and call record remain.\<close>

definition wrapper_mqtt_release :: "iotx_mc_client_t option \<Rightarrow> (int \<times> (hal \<times> event list) option) option" where
  "wrapper_mqtt_release c =
     (case c of
        None \<Rightarrow> Some (NULL_VALUE_ERROR, None)
      | Some pClient \<Rightarrow> do {
          (_, c) \<leftarrow> iotx_mc_disconnect (hal_exec (HAL_SleepMs 100) pClient);
          let c = hal_exec (HAL_SleepMs 100) (iotx_mc_set_client_state c IOTX_MC_STATE_INVALID);
          Some (SUCCESS_RETURN, Some (env c, events c))
        })"

definition wrapper_mqtt_yield :: "iotx_mc_client_t \<Rightarrow> int \<Rightarrow> (int \<times> iotx_mc_client_t) option" where
  "wrapper_mqtt_yield pClient timeout_ms =
     (if timeout_ms < 0 then Some (-1, pClient)
      else do {
        let timeout_ms = (if timeout_ms = 0 then 10 else timeout_ms);
        c \<leftarrow> iotx_mc_keepalive (pClient\<lparr>cycle_timeout_ms := word_of_int timeout_ms\<rparr>);
        c \<leftarrow> mqtt_cycle c;
        Some (0, c)
      })"

definition wrapper_mqtt_subscribe ::
  "iotx_mc_client_t \<Rightarrow> cstr option \<Rightarrow> int \<Rightarrow> nat option \<Rightarrow> nat \<Rightarrow> (int \<times> iotx_mc_client_t) option" where
  "wrapper_mqtt_subscribe c topicFilter qos topic_handle_func context =
     (case (topicFilter, topic_handle_func) of
        (Some flt, Some fp) \<Rightarrow>
          if length flt = 0 then Some (NULL_VALUE_ERROR, c)
          else do {
            let (msgId, c) = iotx_mc_get_next_packetid c;
            if \<not> wrapper_mqtt_check_state c then Some (MQTT_STATE_ERROR, c)
            else do {
              ok \<leftarrow> iotx_mc_check_topic (Some flt) TOPIC_FILTER_TYPE;
              if ok \<noteq> 0 then Some (MQTT_TOPIC_FORMAT_ERROR, c)
              else do {
                (rc, c) \<leftarrow> MQTTSubscribe c flt qos msgId fp context;
                if rc \<noteq> SUCCESS_RETURN
                then Some (rc, if rc = MQTT_NETWORK_ERROR then iotx_mc_set_client_state c IOTX_MC_STATE_DISCONNECTED else c)
                else Some (uint msgId, c)
              }
            }
          }
      | _ \<Rightarrow> Some (NULL_VALUE_ERROR, c))"

definition wrapper_mqtt_unsubscribe :: "iotx_mc_client_t \<Rightarrow> cstr option \<Rightarrow> (int \<times> iotx_mc_client_t) option" where
  "wrapper_mqtt_unsubscribe c topicFilter =
     (case topicFilter of
        None \<Rightarrow> Some (NULL_VALUE_ERROR, c)
      | Some flt \<Rightarrow> do {
          let (msgId, c) = iotx_mc_get_next_packetid c;
          ok \<leftarrow> iotx_mc_check_topic (Some flt) TOPIC_FILTER_TYPE;
          if ok \<noteq> 0 then Some (MQTT_TOPIC_FORMAT_ERROR, c)
          else if \<not> wrapper_mqtt_check_state c then Some (MQTT_STATE_ERROR, c)
          else do {
            (rc, c) \<leftarrow> MQTTUnsubscribe c flt msgId;
            if rc \<noteq> SUCCESS_RETURN
            then Some (rc, if rc = MQTT_NETWORK_ERROR then iotx_mc_set_client_state c IOTX_MC_STATE_DISCONNECTED else c)
            else Some (uint msgId, c)
          }
        })"

definition wrapper_mqtt_publish ::
  "iotx_mc_client_t \<Rightarrow> cstr option \<Rightarrow> iotx_mqtt_topic_info_t \<Rightarrow> byte list option \<Rightarrow> (int \<times> iotx_mc_client_t) option" where
  "wrapper_mqtt_publish c topicName topic_msg payload =
     (case (topicName, payload) of
        (Some name, Some data) \<Rightarrow> do {
          ok \<leftarrow> iotx_mc_check_topic (Some name) TOPIC_NAME_TYPE;
          if ok \<noteq> 0 then Some (MQTT_TOPIC_FORMAT_ERROR, c)
          else if \<not> wrapper_mqtt_check_state c then Some (MQTT_STATE_ERROR, c)
          else do {
            let (msgid, topic_msg, c) =
              (if ti_qos topic_msg = 1 \<or> ti_qos topic_msg = 2
               then let (pid, c) = iotx_mc_get_next_packetid c
                    in (ucast pid, topic_msg\<lparr>ti_packet_id := ucast pid\<rparr>, c)
               else (0 :: u16, topic_msg, c));
            if ti_qos topic_msg = 2 then Some (MQTT_PUBLISH_QOS_ERROR, c)
            else do {
              (rc, c) \<leftarrow> MQTTPublish c name topic_msg data;
              if rc \<noteq> SUCCESS_RETURN
              then Some (rc, if rc = MQTT_NETWORK_ERROR then iotx_mc_set_client_state c IOTX_MC_STATE_DISCONNECTED else c)
              else Some (uint msgid, c)
            }
          }
        }
      | _ \<Rightarrow> Some (NULL_VALUE_ERROR, c))"

text \<open>
  The loop of \<open>wrapper_mqtt_subscribe_sync\<close>: one look at the first node of the list of
  subscriptions waiting for their acknowledgement. The result is \<open>Inl\<close> for a return from the
  loop and \<open>Inr (ret, subed)\<close> otherwise.
\<close>

definition sync_check_head :: "iotx_mc_client_t \<Rightarrow> int \<Rightarrow> bool \<Rightarrow> (int + int \<times> bool) \<times> iotx_mc_client_t" where
  "sync_check_head c ret subed =
     (case list_sub_sync_ack c of
        [] \<Rightarrow> (Inr (ret, subed), c)
      | node # rest \<Rightarrow>
          if sync_packet_id node = ret then
            (if ack_type node = IOTX_MQTT_EVENT_SUBCRIBE_SUCCESS then (Inl ret, c\<lparr>list_sub_sync_ack := rest\<rparr>)
             else if ack_type node = IOTX_MQTT_EVENT_SUBCRIBE_NACK then (Inr (-1, False), c\<lparr>list_sub_sync_ack := rest\<rparr>)
             else if ack_type node = IOTX_MQTT_EVENT_SUBCRIBE_TIMEOUT then (Inr (-1, False), c\<lparr>list_sub_sync_ack := rest\<rparr>)
             else (Inr (ret, subed), c))
          else (Inr (ret, subed), c))"

definition sync_register :: "iotx_mc_client_t \<Rightarrow> int \<Rightarrow> bool \<Rightarrow> bool \<times> iotx_mc_client_t" where
  "sync_register c ret subed =
     (if \<not> subed \<and> ret \<ge> 0 then
        (let (p, c) = hal_run (HAL_Malloc sizeof_sub_sync_node) c in
         if p \<noteq> None
         then (True, c\<lparr>list_sub_sync_ack := list_sub_sync_ack c @ [\<lparr>sync_packet_id = ret, ack_type = IOTX_MQTT_EVENT_UNDEF\<rparr>]\<rparr>)
         else (subed, c))
      else (subed, c))"

definition IOTX_MQTT_QOS3_SUB_LOCAL :: int where "IOTX_MQTT_QOS3_SUB_LOCAL = 3"

text \<open>The head of the loop body: subscribe again when the last attempt failed. The flag says to return.\<close>

definition sync_subscribe ::
  "iotx_mc_client_t \<Rightarrow> int \<Rightarrow> cstr option \<Rightarrow> int \<Rightarrow> nat option \<Rightarrow> nat \<Rightarrow> (bool \<times> int \<times> iotx_mc_client_t) option" where
  "sync_subscribe c ret flt qos fp context =
     (if ret < 0 then do {
        (ret, c) \<leftarrow> wrapper_mqtt_subscribe c flt qos fp context;
        Some (in_yield_cb c \<or> qos = IOTX_MQTT_QOS3_SUB_LOCAL, ret, c)
      } else Some (False, ret, c))"

partial_function (option) subscribe_sync_loop ::
  "iotx_mc_client_t \<Rightarrow> iotx_time_t \<Rightarrow> cstr option \<Rightarrow> int \<Rightarrow> nat option \<Rightarrow> nat \<Rightarrow> int \<Rightarrow> bool \<Rightarrow> (int \<times> iotx_mc_client_t) option" where
  "subscribe_sync_loop c timer flt qos fp context ret subed = do {
     (stop, ret, c) \<leftarrow> sync_subscribe c ret flt qos fp context;
     if stop then Some (ret, c)
     else (case sync_register c ret subed of (subed, c) \<Rightarrow> do {
       (_, c) \<leftarrow> wrapper_mqtt_yield c 100;
       (case sync_check_head c ret subed of (r, c) \<Rightarrow>
        (case r of
           Inl v \<Rightarrow> Some (v, c)
         | Inr (ret, subed) \<Rightarrow>
             (case hal_run (utils_time_is_expired timer) c of (expired, c) \<Rightarrow>
              if \<not> expired then subscribe_sync_loop c timer flt qos fp context ret subed
              else Some (-1, c\<lparr>list_sub_sync_ack := filter (\<lambda>node. sync_packet_id node \<noteq> ret) (list_sub_sync_ack c)\<rparr>))))
     })
   }"

declare subscribe_sync_loop.simps [code]

definition wrapper_mqtt_subscribe_sync ::
  "iotx_mc_client_t \<Rightarrow> cstr option \<Rightarrow> int \<Rightarrow> nat option \<Rightarrow> nat \<Rightarrow> int \<Rightarrow> (int \<times> iotx_mc_client_t) option" where
  "wrapper_mqtt_subscribe_sync c flt qos fp context timeout_ms =
     (let qos = (if qos > 2 then 0 else qos);
          (timer, c) = hal_run (utils_time_countdown_ms (word_of_int timeout_ms)) c
      in subscribe_sync_loop c timer flt qos fp context (-1) False)"

end
