(* ===== verification/MQTT_Invariant.thy ===== *)
theory MQTT_Invariant
  imports MQTT_Session
begin

text \<open>
  The invariant of the MQTT client: the ranges of its parameters and counters, the bound on
  the publications waiting for an acknowledgement, the shape of the subscription list, and
  that no packet buffer stays allocated between two operations. Every operation of the
  interface keeps it, whatever the network, the clock and the allocator do.
\<close>

subsection \<open>Frames\<close>

text \<open>Two clients that differ at most in buffers, platform and recorded calls.\<close>

definition same_session :: "iotx_mc_client_t \<Rightarrow> iotx_mc_client_t \<Rightarrow> bool" where
  "same_session c c' \<longleftrightarrow>
     packet_id c' = packet_id c \<and> request_timeout_ms c' = request_timeout_ms c \<and>
     cycle_timeout_ms c' = cycle_timeout_ms c \<and> buf_size_send_max c' = buf_size_send_max c \<and>
     buf_size_read_max c' = buf_size_read_max c \<and> keepalive_probes c' = keepalive_probes c \<and>
     list_sub_handle c' = list_sub_handle c \<and> next_ping_time c' = next_ping_time c \<and>
     client_state c' = client_state c \<and> reconnect_next_time c' = reconnect_next_time c \<and>
     reconnect_time_interval_ms c' = reconnect_time_interval_ms c \<and> connect_data c' = connect_data c \<and>
     list_pub_wait_ack c' = list_pub_wait_ack c \<and> list_sub_sync_ack c' = list_sub_sync_ack c \<and>
     handle_event c' = handle_event c"

lemma same_session_refl [simp]: "same_session c c"
  by (simp add: same_session_def)

lemma same_session_trans: "same_session a b \<Longrightarrow> same_session b c \<Longrightarrow> same_session a c"
  by (simp add: same_session_def)

lemma same_session_upd [simp]:
  "same_session c (c'\<lparr>env := h\<rparr>) = same_session c c'" "same_session c (c'\<lparr>events := e\<rparr>) = same_session c c'"
  "same_session c (c'\<lparr>in_yield_cb := y\<rparr>) = same_session c c'" "same_session c (c'\<lparr>buf_send := b\<rparr>) = same_session c c'"
  "same_session c (c'\<lparr>buf_size_send := n\<rparr>) = same_session c c'" "same_session c (c'\<lparr>buf_read := b\<rparr>) = same_session c c'"
  "same_session c (c'\<lparr>buf_size_read := n\<rparr>) = same_session c c'"
  by (simp_all add: same_session_def)

lemma hal_run_frame: "hal_run f c = (x, c') \<Longrightarrow> c' = c\<lparr>env := env c'\<rparr>"
  by (auto simp: hal_run_def split: prod.splits)

lemma wp_run: "(\<And>x h. post (f x (c\<lparr>env := h\<rparr>)) Q) \<Longrightarrow> post (case hal_run g c of (x, c') \<Rightarrow> f x c') Q"
  by (cases "g (env c)") (simp add: hal_run_def)

lemma hal_exec_frame: "hal_exec f c = c\<lparr>env := f (env c)\<rparr>"
  by (simp add: hal_exec_def)

lemma send_packet_frame: "post (iotx_mc_send_packet c b n t) (\<lambda>(rc, c'). c' = c\<lparr>env := env c'\<rparr>)"
proof (cases b)
  case (Some buf)
  then show ?thesis by (cases "send_loop buf n t 0 (env c)") (simp_all add: iotx_mc_send_packet_def split: prod.split)
qed (simp add: iotx_mc_send_packet_def)

text \<open>An operation that only sends: the session is untouched and the send buffer is freed.\<close>

definition sends_only :: "iotx_mc_client_t \<Rightarrow> iotx_mc_client_t \<Rightarrow> bool" where
  "sends_only c c' \<longleftrightarrow> same_session c c' \<and> buf_send c' = None \<and> buf_read c' = buf_read c \<and>
     events c' = events c \<and> in_yield_cb c' = in_yield_cb c"

definition holds_buffer :: "iotx_mc_client_t \<Rightarrow> iotx_mc_client_t \<Rightarrow> bool" where
  "holds_buffer c c' \<longleftrightarrow> same_session c c' \<and> buf_read c' = buf_read c \<and> events c' = events c \<and>
     in_yield_cb c' = in_yield_cb c"

lemma holds_buffer_env: "holds_buffer c (c'\<lparr>env := h\<rparr>) = holds_buffer c c'"
  by (simp add: holds_buffer_def)

lemma holds_buffer_refl [simp]: "holds_buffer c c"
  by (simp add: holds_buffer_def)

lemma alloc_send_buffer_frame:
  assumes "alloc_send_buffer c n = (rc, c')" "holds_buffer c0 c"
  shows "holds_buffer c0 c'" and "rc < 0 \<longleftrightarrow> rc \<noteq> SUCCESS_RETURN"
    and "rc \<noteq> SUCCESS_RETURN \<Longrightarrow> sends_only c0 c'"
  using assms
  by (auto simp: alloc_send_buffer_def holds_buffer_def sends_only_def mqtt_error_defs hal_run_def Let_def
           split: prod.splits option.splits)

lemma serialize_into_frame:
  "holds_buffer c0 c \<Longrightarrow> post (serialize_into c f) (\<lambda>(n, c'). holds_buffer c0 c')"
  by (auto simp: serialize_into_def post_def bind_eq_Some_conv holds_buffer_def)

lemma send_packet_holds:
  "holds_buffer c0 c \<Longrightarrow> post (iotx_mc_send_packet c b n t) (\<lambda>(rc, c'). holds_buffer c0 c')"
  by (rule post_conseq_prod [OF send_packet_frame]) (metis case_prodI holds_buffer_env)

lemma reset_send_buffer_frame: "holds_buffer c0 c \<Longrightarrow> sends_only c0 (reset_send_buffer c)"
  by (auto simp: reset_send_buffer_def holds_buffer_def sends_only_def)

lemma hal_run_holds: "hal_run f c = (x, c') \<Longrightarrow> holds_buffer c0 c \<Longrightarrow> holds_buffer c0 c'"
  by (metis hal_run_frame holds_buffer_env)

lemma hal_run_buf_send: "hal_run f c = (x, c') \<Longrightarrow> buf_send c' = buf_send c"
  by (auto simp: hal_run_def split: prod.splits)

text \<open>The same facts as rules for the postcondition of a composed operation.\<close>

lemma wp_serialize:
  "holds_buffer c0 c \<Longrightarrow> (\<And>n c'. holds_buffer c0 c' \<Longrightarrow> Q (n, c')) \<Longrightarrow> post (serialize_into c f) Q"
  by (rule post_conseq_prod [OF serialize_into_frame])

lemma wp_send:
  assumes "holds_buffer c0 c"
    and "\<And>rc c'. holds_buffer c0 c' \<Longrightarrow> buf_send c' = buf_send c \<Longrightarrow> Q (rc, c')"
  shows "post (iotx_mc_send_packet c b n t) Q"
proof (rule post_conseq_prod [OF send_packet_frame])
  fix rc c' assume c': "c' = c\<lparr>env := env c'\<rparr>"
  have "buf_send c' = buf_send c" by (subst c') simp
  moreover have "holds_buffer c0 c'" by (subst c') (simp add: holds_buffer_env assms(1))
  ultimately show "Q (rc, c')" by (rule assms(2) [rotated])
qed

lemma wp_hal_run:
  assumes "holds_buffer c0 c"
    and "\<And>x c'. holds_buffer c0 c' \<Longrightarrow> buf_send c' = buf_send c \<Longrightarrow> post (f x c') Q"
  shows "post (case hal_run g c of (x, c') \<Rightarrow> f x c') Q"
proof (rule post_case_prod)
  fix x c' assume "hal_run g c = (x, c')"
  then show "post (f x c') Q"
    by (intro assms(2) hal_run_holds [OF _ assms(1)] hal_run_buf_send)
qed

lemma wp_alloc_send:
  assumes "holds_buffer c0 c"
    and "\<And>rc c'. rc \<noteq> SUCCESS_RETURN \<Longrightarrow> rc < 0 \<Longrightarrow> sends_only c0 c' \<Longrightarrow> post (f rc c') Q"
    and "\<And>c'. holds_buffer c0 c' \<Longrightarrow> post (f SUCCESS_RETURN c') Q"
  shows "post (case alloc_send_buffer c n of (rc, c') \<Rightarrow> f rc c') Q"
proof (rule post_case_prod)
  fix rc c' assume *: "alloc_send_buffer c n = (rc, c')"
  show "post (f rc c') Q"
    using alloc_send_buffer_frame [OF * assms(1)] assms(2,3) by (cases "rc = SUCCESS_RETURN") auto
qed

lemmas wp_send_rules = wp_hal_run wp_alloc_send post_bind wp_serialize wp_send reset_send_buffer_frame

subsection \<open>Operations that only send\<close>

lemma sends_only_holds: "buf_send c' = None \<Longrightarrow> holds_buffer c0 c' \<Longrightarrow> sends_only c0 c'"
  by (simp add: sends_only_def holds_buffer_def)

lemma MQTTConnect_frame: "post (MQTTConnect c) (\<lambda>(rc, c'). sends_only c c')"
  unfolding MQTTConnect_def Let_def by (auto intro!: wp_send_rules post_if)

lemma MQTTPuback_frame: "buf_send c = None \<Longrightarrow> post (MQTTPuback c i t) (\<lambda>(rc, c'). sends_only c c')"
  unfolding MQTTPuback_def Let_def by (auto intro!: wp_send_rules post_if intro: sends_only_holds)

lemma MQTTKeepalive_frame: "post (MQTTKeepalive c) (\<lambda>(rc, c'). sends_only c c')"
  unfolding MQTTKeepalive_def Let_def by (auto intro!: wp_send_rules post_if)

lemma MQTTDisconnect_frame: "post (MQTTDisconnect c) (\<lambda>(rc, c'). sends_only c c')"
  unfolding MQTTDisconnect_def Let_def by (auto intro!: wp_send_rules post_if)

lemma MQTTRePublish_frame: "buf_send c = None \<Longrightarrow> post (MQTTRePublish c b n) (\<lambda>(rc, c'). sends_only c c')"
  unfolding MQTTRePublish_def Let_def
  by (auto intro!: wp_hal_run post_bind wp_send intro: sends_only_holds)

text \<open>Subscribing adds at most one handler, which has a callback.\<close>

definition registers :: "iotx_mc_client_t \<Rightarrow> iotx_mc_client_t \<Rightarrow> bool" where
  "registers c c' \<longleftrightarrow> (\<exists>c1. sends_only c c1 \<and>
     (c' = c1 \<or> (\<exists>hdl. h_fp (handle hdl) \<noteq> None \<and> c' = add_sub_handle hdl c1)))"

lemma registers_none: "sends_only c c' \<Longrightarrow> registers c c'"
  by (auto simp: registers_def)

lemma registers_add: "sends_only c c1 \<Longrightarrow> registers c (add_sub_handle \<lparr>handle = \<lparr>h_fp = Some fp, pcontext = x\<rparr>, topic_filter = t\<rparr> c1)"
  unfolding registers_def
  by (intro exI [of _ c1] conjI disjI2 exI [of _ "\<lparr>handle = \<lparr>h_fp = Some fp, pcontext = x\<rparr>, topic_filter = t\<rparr>"]) simp_all

lemma MQTTSubscribe_frame:
  "buf_send c = None \<Longrightarrow> post (MQTTSubscribe c flt q i fp x) (\<lambda>(rc, c'). registers c c')"
  unfolding MQTTSubscribe_def Let_def
  by (auto intro!: wp_send_rules post_if registers_add intro: registers_none registers_none [OF sends_only_holds])

text \<open>Unsubscribing removes handlers.\<close>

definition unregisters :: "iotx_mc_client_t \<Rightarrow> iotx_mc_client_t \<Rightarrow> bool" where
  "unregisters c c' \<longleftrightarrow> (\<exists>P. sends_only (c\<lparr>list_sub_handle := filter P (list_sub_handle c)\<rparr>) c')"

lemma unregisters_none: "sends_only c c' \<Longrightarrow> unregisters c c'"
  unfolding unregisters_def by (rule exI [of _ "\<lambda>_. True"]) simp

lemma unregisters_filter:
  "holds_buffer c c' \<Longrightarrow>
   unregisters c (reset_send_buffer (c'\<lparr>list_sub_handle := filter P (list_sub_handle c')\<rparr>))"
  unfolding unregisters_def
  by (rule exI [of _ P], rule reset_send_buffer_frame) (simp add: holds_buffer_def same_session_def)

lemma MQTTUnsubscribe_frame:
  "buf_send c = None \<Longrightarrow> post (MQTTUnsubscribe c flt i) (\<lambda>(rc, c'). unregisters c c')"
  unfolding MQTTUnsubscribe_def Let_def
  by (auto intro!: wp_send_rules post_if unregisters_filter
           intro: unregisters_none unregisters_none [OF sends_only_holds])

text \<open>Publishing adds at most one publication, and only when there is room for it.\<close>

definition pub_info_ok :: "iotx_mc_pub_info_t \<Rightarrow> bool" where
  "pub_info_ok node \<longleftrightarrow> length (pub_buf node) = unat (pub_len node)"

definition queues :: "iotx_mc_client_t \<Rightarrow> iotx_mc_client_t \<Rightarrow> bool" where
  "queues c c' \<longleftrightarrow> sends_only c c' \<or>
     (\<exists>node. pub_info_ok node \<and> length (list_pub_wait_ack c) < 20 \<and>
        sends_only (c\<lparr>list_pub_wait_ack := list_pub_wait_ack c @ [node]\<rparr>) c')"

definition queued :: "iotx_mc_client_t \<Rightarrow> iotx_mc_client_t \<Rightarrow> bool" where
  "queued c c' \<longleftrightarrow>
     (\<exists>node. pub_info_ok node \<and> length (list_pub_wait_ack c) < 20 \<and>
        holds_buffer (c\<lparr>list_pub_wait_ack := list_pub_wait_ack c @ [node]\<rparr>) c')"

lemma queues_none: "sends_only c c' \<Longrightarrow> queues c c'"
  by (simp add: queues_def)

lemma queued_queues: "queued c c' \<Longrightarrow> queues c (reset_send_buffer c')"
  unfolding queued_def queues_def using reset_send_buffer_frame by blast

lemma queued_undo:
  "queued c c' \<Longrightarrow> queues c (reset_send_buffer (c'\<lparr>list_pub_wait_ack := butlast (list_pub_wait_ack c')\<rparr>))"
  unfolding queued_def
  by (intro queues_none reset_send_buffer_frame) (auto simp: holds_buffer_def same_session_def)

lemma wp_send_queued:
  assumes "queued c0 c" and "\<And>rc c'. queued c0 c' \<Longrightarrow> Q (rc, c')"
  shows "post (iotx_mc_send_packet c b n t) Q"
proof -
  from assms(1) obtain node where node: "pub_info_ok node" "length (list_pub_wait_ack c0) < 20"
    and hb: "holds_buffer (c0\<lparr>list_pub_wait_ack := list_pub_wait_ack c0 @ [node]\<rparr>) c" by (auto simp: queued_def)
  show ?thesis
    using node by (intro wp_send [OF hb] assms(2)) (auto simp: queued_def)
qed

lemma wp_push:
  assumes "holds_buffer c0 c" and "\<And>rc c'. rc \<noteq> SUCCESS_RETURN \<Longrightarrow> holds_buffer c0 c' \<Longrightarrow> Q (rc, c')"
    and "\<And>c'. queued c0 c' \<Longrightarrow> Q (SUCCESS_RETURN, c')"
  shows "post (iotx_mc_push_pubInfo_to c len i) Q"
proof -
  have fail: "FAIL_RETURN \<noteq> SUCCESS_RETURN" by (simp add: return_code_defs)
  have q: "queued c0 (c'\<lparr>list_pub_wait_ack := list_pub_wait_ack c' @ [node]\<rparr>)"
    if "holds_buffer c0 c'" "pub_info_ok node" "length (list_pub_wait_ack c) < 20" for c' node
    using that assms(1) unfolding queued_def
    by (intro exI [of _ node]) (simp add: holds_buffer_def same_session_def)
  have small: "nat len = unat (word_of_int len :: u32)" if "\<not> (len < 0 \<or> uint (buf_size_send c) < len)"
  proof -
    have "len < 4294967296" using that uint_lt2p [of "buf_size_send c"] by simp
    then have "uint (word_of_int len :: u32) = len" using that by (simp add: uint_word_of_int)
    then show ?thesis by (simp add: unat_eq_nat_uint)
  qed
  show ?thesis
    unfolding iotx_mc_push_pubInfo_to_def Let_def
    by (auto intro!: post_if wp_hal_run post_bind_eq assms q
        simp: fail small assms(1) pub_info_ok_def IOTX_MC_REPUB_NUM_MAX_def load_bytes_length)
qed

lemma MQTTPublish_frame: "post (MQTTPublish c name m d) (\<lambda>(rc, c'). queues c c')"
proof (cases "ti_qos m > 0")
  case True
  then show ?thesis
    unfolding MQTTPublish_def Let_def
    by (auto intro!: wp_hal_run wp_alloc_send post_bind wp_serialize wp_push wp_send_queued post_if queued_undo
             intro: queued_queues queues_none queues_none [OF reset_send_buffer_frame])
next
  case False
  then show ?thesis
    unfolding MQTTPublish_def Let_def
    by (auto intro!: wp_hal_run wp_alloc_send post_bind wp_serialize wp_send post_if
                     queues_none [OF reset_send_buffer_frame] intro: queues_none)
qed

subsection \<open>Receiving a packet\<close>

definition reads_only :: "iotx_mc_client_t \<Rightarrow> iotx_mc_client_t \<Rightarrow> bool" where
  "reads_only c c' \<longleftrightarrow> same_session c c' \<and> buf_send c' = buf_send c \<and> (\<not> in_yield_cb c \<longrightarrow> \<not> in_yield_cb c')"

lemma reads_only_refl [simp]: "reads_only c c"
  by (simp add: reads_only_def)

lemma reads_only_upd [simp]:
  "reads_only c (c'\<lparr>env := h\<rparr>) = reads_only c c'" "reads_only c (c'\<lparr>events := e\<rparr>) = reads_only c c'"
  "reads_only c (c'\<lparr>buf_read := b\<rparr>) = reads_only c c'"
  "reads_only c (c'\<lparr>buf_size_read := n\<rparr>) = reads_only c c'"
  by (simp_all add: reads_only_def)

lemma reads_only_trans: "reads_only a b \<Longrightarrow> reads_only b c \<Longrightarrow> reads_only a c"
  by (auto simp: reads_only_def intro: same_session_trans)

lemma wp_r_hal_run:
  assumes "reads_only c0 c" and "\<And>x c'. reads_only c0 c' \<Longrightarrow> post (f x c') Q"
  shows "post (case hal_run g c of (x, c') \<Rightarrow> f x c') Q"
proof (rule post_case_prod)
  fix x c' assume "hal_run g c = (x, c')"
  then have "reads_only c0 c'" using assms(1) by (auto simp: hal_run_def split: prod.splits)
  then show "post (f x c') Q" by (rule assms(2))
qed

lemma wp_r_alloc:
  assumes "reads_only c0 c" and "\<And>rc c'. reads_only c0 c' \<Longrightarrow> post (f rc c') Q"
  shows "post (case alloc_recv_buffer c n of (rc, c') \<Rightarrow> f rc c') Q"
proof (rule post_case_prod)
  fix x c' assume "alloc_recv_buffer c n = (x, c')"
  then have "reads_only c0 c'"
    using assms(1) by (auto simp: alloc_recv_buffer_def hal_run_def Let_def split: prod.splits option.splits)
  then show "post (f x c') Q" by (rule assms(2))
qed

lemma wp_r_read_into:
  assumes "reads_only c0 c" and "\<And>rc c'. reads_only c0 c' \<Longrightarrow> Q (rc, c')"
  shows "post (read_into c off n t) Q"
  unfolding read_into_def using assms(1)
  by (auto intro!: post_bind_eq post_if post_case_prod assms(2))

lemma decode_packet_loop_frame:
  "reads_only c0 c \<Longrightarrow> reads_only c0 (snd (snd (decode_packet_loop c len mult v t)))"
proof (induction "4 - len" arbitrary: c len mult v rule: less_induct)
  case less
  obtain rc data h where r: "ipstack_read 1 (if t = 0 then 1 else t) (env c) = (rc, data, h)"
    by (cases "ipstack_read 1 (if t = 0 then 1 else t) (env c)") auto
  show ?case
  proof (cases "len < 4")
    case True
    have "reads_only c0 (snd (snd (decode_packet_loop (c\<lparr>env := h\<rparr>) (len + 1) m w t)))" for m w
      using True less.prems by (intro less.hyps) simp_all
    then show ?thesis
      using less.prems r by (subst decode_packet_loop.simps) (simp add: Let_def)
  next
    case False
    then show ?thesis
      using less.prems by (subst decode_packet_loop.simps) (simp add: MAX_NO_OF_REMAINING_LENGTH_BYTES_def)
  qed
qed

lemma wp_r_decode:
  assumes "reads_only c0 c" and "\<And>rc v c'. reads_only c0 c' \<Longrightarrow> post (f rc v c') Q"
  shows "post (case iotx_mc_decode_packet c t of (rc, v, c') \<Rightarrow> f rc v c') Q"
proof -
  obtain rc v c' where d: "decode_packet_loop c 0 1 0 t = (rc, v, c')" by (cases "decode_packet_loop c 0 1 0 t") auto
  then have "reads_only c0 c'" using decode_packet_loop_frame [OF assms(1), of 0 1 0 t] by simp
  then show ?thesis by (simp add: iotx_mc_decode_packet_def d assms(2))
qed

lemma handle_event_cb_frame: "reads_only c0 c \<Longrightarrow> reads_only c0 (snd (handle_event_cb hdl c type msg))"
  by (simp add: handle_event_cb_def call_handle_def reads_only_def)

lemma wp_r_ipstack_read:
  "(\<And>rc d h. post (f rc d h) Q) \<Longrightarrow> post (case ipstack_read n t e of (rc, d, h) \<Rightarrow> f rc d h) Q"
  by (cases "ipstack_read n t e") auto

lemmas wp_read_rules = wp_r_hal_run wp_r_alloc wp_r_decode wp_r_read_into [THEN post_bind] handle_event_cb_frame
  post_bind_eq [where m = "load b p" for b p] post_bind_eq [where m = "buf_read c" for c]
  post_bind_eq [where m = "MQTTPacket_encode b p n" for b p n] post_bind_eq [where m = "if x then store b p n else y" for x b p n y]
  post_if

lemma wp_read_overlong:
  assumes "reads_only c0 c" and "\<And>rc t c'. reads_only c0 c' \<Longrightarrow> Q (rc, t, c')"
  shows "post (read_overlong c timer pt n r) Q"
  unfolding read_overlong_def Let_def
  by (auto intro!: wp_read_rules wp_r_ipstack_read assms)

lemma wp_read_packet:
  assumes "reads_only c0 c" and "\<And>rc t c'. reads_only c0 c' \<Longrightarrow> Q (rc, t, c')"
  shows "post (iotx_mc_read_packet c timer pt) Q"
  unfolding iotx_mc_read_packet_def read_body_def read_remaining_def Let_def
  by (auto intro!: wp_read_rules wp_read_overlong assms)

lemma reset_recv_buffer_frame:
  "reads_only c0 c \<Longrightarrow> reads_only c0 (reset_recv_buffer c)" "buf_read (reset_recv_buffer c) = None"
  by (simp_all add: reset_recv_buffer_def)

lemma wait_CONNACK_loop_frame:
  "reads_only c0 c \<Longrightarrow> post (wait_CONNACK_loop c t w p) (\<lambda>(rc, c'). reads_only c0 c' \<and> buf_read c' = None)"
proof (induction "11 - w" arbitrary: c w p rule: less_induct)
  case less
  have IH: "post (wait_CONNACK_loop c' t (w + 1) p') (\<lambda>(rc, c'). reads_only c0 c' \<and> buf_read c' = None)"
    if "reads_only c0 c'" "\<not> w + 1 > WAIT_CONNACK_MAX" for c' p'
    using that by (intro less.hyps) (auto simp: WAIT_CONNACK_MAX_def)
  show ?case
    by (subst wait_CONNACK_loop.simps)
       (auto intro!: post_bind wp_read_packet [OF less.prems] post_if post_bind_eq [where m = "iotx_mc_handle_recv_CONNACK c" for c]
             intro: IH [simplified] reset_recv_buffer_frame simp: reset_recv_buffer_frame(2))
qed

lemma wp_wait_CONNACK:
  assumes "reads_only c0 c" and "\<And>rc c'. reads_only c0 c' \<Longrightarrow> buf_read c' = None \<Longrightarrow> Q (rc, c')"
  shows "post (iotx_mc_wait_CONNACK c) Q"
  unfolding iotx_mc_wait_CONNACK_def Let_def
  by (auto intro!: wp_r_hal_run [OF assms(1)] post_conseq_prod [OF wait_CONNACK_loop_frame] assms(2))

subsection \<open>The invariant\<close>

definition base_inv :: "iotx_mc_client_t \<Rightarrow> bool" where
  "base_inv c \<longleftrightarrow>
     packet_id c \<le> 65535 \<and>
     500 \<le> request_timeout_ms c \<and> request_timeout_ms c \<le> 5000 \<and>
     30 \<le> keepAliveInterval (connect_data c) \<and> keepAliveInterval (connect_data c) \<le> 1200 \<and>
     reconnect_time_interval_ms c \<in> {1000, 2000, 4000, 8000, 16000, 32000, 64000, 60000} \<and>
     length (list_pub_wait_ack c) \<le> 20 \<and> list_all pub_info_ok (list_pub_wait_ack c) \<and>
     distinct (list_sub_handle c) \<and> list_all (\<lambda>h. h_fp (handle h) \<noteq> None) (list_sub_handle c)"

text \<open>No operation in progress holds a packet buffer or runs a callback.\<close>

definition idle :: "iotx_mc_client_t \<Rightarrow> bool" where
  "idle c \<longleftrightarrow> buf_send c = None \<and> buf_read c = None \<and> \<not> in_yield_cb c"

definition client_inv :: "iotx_mc_client_t \<Rightarrow> bool" where
  "client_inv c \<longleftrightarrow> base_inv c \<and> idle c \<and> keepalive_probes c \<le> 2"

text \<open>Between keep-alive and receive cycle one more unanswered ping may be counted.\<close>

definition cycle_pre :: "iotx_mc_client_t \<Rightarrow> bool" where
  "cycle_pre c \<longleftrightarrow> base_inv c \<and> idle c \<and>
     (keepalive_probes c \<le> 2 \<or> keepalive_probes c \<le> 3 \<and> client_state c = IOTX_MC_STATE_CONNECTED)"

lemma base_inv_session: "same_session c c' \<Longrightarrow> base_inv c' = base_inv c"
  by (simp add: base_inv_def same_session_def)

lemma base_inv_reads: "reads_only c c' \<Longrightarrow> base_inv c' = base_inv c"
  by (simp add: reads_only_def base_inv_session)

lemma base_inv_sends: "sends_only c c' \<Longrightarrow> base_inv c' = base_inv c"
  by (simp add: sends_only_def base_inv_session)

lemma idle_sends: "idle c \<Longrightarrow> sends_only c c' \<Longrightarrow> idle c'"
  by (simp add: idle_def sends_only_def)

lemma idle_reads: "idle c \<Longrightarrow> reads_only c c' \<Longrightarrow> buf_read c' = None \<Longrightarrow> idle c'"
  by (simp add: idle_def reads_only_def)

subsection \<open>Connecting\<close>

definition with_keepalive :: "u16 \<Rightarrow> iotx_mc_client_t \<Rightarrow> iotx_mc_client_t" where
  "with_keepalive u c = c\<lparr>connect_data := (connect_data c)\<lparr>keepAliveInterval := u\<rparr>\<rparr>"

text \<open>A client that is \<open>c0\<close> again once the keep-alive interval \<open>u\<close> is put back.\<close>

definition connecting :: "iotx_mc_client_t \<Rightarrow> u16 \<Rightarrow> iotx_mc_client_t \<Rightarrow> bool" where
  "connecting c0 u c \<longleftrightarrow> same_session c0 (with_keepalive u c) \<and> idle c"

definition connected_to :: "iotx_mc_client_t \<Rightarrow> iotx_mc_client_t \<Rightarrow> bool" where
  "connected_to c0 c \<longleftrightarrow> same_session c0 c \<and> idle c"

lemma connecting_sends:
  "connecting c0 u c \<Longrightarrow> sends_only c c' \<Longrightarrow> connected_to c0 (with_keepalive u c')"
  by (simp add: connecting_def connected_to_def sends_only_def same_session_def with_keepalive_def idle_def)

lemma connected_to_reads:
  "connected_to c0 c \<Longrightarrow> reads_only c c' \<Longrightarrow> buf_read c' = None \<Longrightarrow> connected_to c0 c'"
  by (auto simp: connected_to_def reads_only_def idle_def intro: same_session_trans)

lemma connected_to_env [simp]: "connected_to c0 (c\<lparr>env := h\<rparr>) = connected_to c0 c"
  by (simp add: connected_to_def idle_def)

lemma connected_to_connecting:
  "connected_to c0 c \<Longrightarrow> u = keepAliveInterval (connect_data c0) \<Longrightarrow> connecting c0 u c"
  by (simp add: connecting_def connected_to_def same_session_def with_keepalive_def)

lemma mqtt_connect_loop_frame:
  assumes u: "u = keepAliveInterval (connect_data c0)"
  shows "connecting c0 u c \<Longrightarrow>
    post (mqtt_connect_loop c u t) (\<lambda>(r, c'). connected_to c0 c' \<and> r \<noteq> Inl SUCCESS_RETURN)"
proof (induction "9 - t" arbitrary: c t rule: less_induct)
  case less
  let ?Q = "\<lambda>(r, c'). connected_to c0 c' \<and> r \<noteq> Inl SUCCESS_RETURN"
  have IH: "post (mqtt_connect_loop c' u (t + 1)) ?Q"
    if "connected_to c0 c'" "t + 1 < RETRY_TIME_LIMIT" for c'
    using that connected_to_connecting [OF that(1) u] by (intro less.hyps) (auto simp: RETRY_TIME_LIMIT_def)
  have step: "post (case hal_run ipstack_connect c' of (uu, c') \<Rightarrow>
      if t + 1 < RETRY_TIME_LIMIT then mqtt_connect_loop c' u (t + 1) else Some (Inr (t + 1), c')) ?Q"
    if "connected_to c0 c'" for c'
    using that by (auto intro!: wp_run IH [simplified])
  have after: "post (iotx_mc_wait_CONNACK c1) (\<lambda>(rc, c). connected_to c0 c)" if "connected_to c0 c1" for c1
    using that by (intro wp_wait_CONNACK [of c1]) (auto intro: connected_to_reads)
  have err: "MQTT_CONNECT_ERROR \<noteq> SUCCESS_RETURN" by (simp add: mqtt_error_defs)
  show ?case
    unfolding mqtt_connect_loop.simps [of c] Let_def hal_exec_def with_keepalive_def [symmetric]
    by (rule post_bind, rule post_conseq_prod [OF MQTTConnect_frame])
       (auto intro!: post_if post_bind post_conseq_prod [OF after] step simp: err dest: connecting_sends [OF less.prems])
qed

lemma mqtt_connect_inv:
  assumes "base_inv c" "idle c"
  shows "post (mqtt_connect c) (\<lambda>(rc, c'). base_inv c' \<and> idle c' \<and>
    (rc = SUCCESS_RETURN \<longrightarrow> client_state c' = IOTX_MC_STATE_CONNECTED \<and> keepalive_probes c' = 0) \<and>
    (rc \<noteq> SUCCESS_RETURN \<longrightarrow> client_state c' = client_state c \<and> keepalive_probes c' = keepalive_probes c))"
proof -
  let ?u = "keepAliveInterval (connect_data c)"
  have pre: "connecting c ?u (c\<lparr>connect_data := (connect_data c)\<lparr>keepAliveInterval := i\<rparr>\<rparr>)" for i
    using assms(2) by (simp add: connecting_def with_keepalive_def idle_def same_session_def)
  have conn: "base_inv (c'\<lparr>keepalive_probes := k, client_state := s, env := h, next_ping_time := n\<rparr>)"
      "idle (c'\<lparr>keepalive_probes := k, client_state := s, env := h, next_ping_time := n\<rparr>)"
      "base_inv c'" "idle c'" "client_state c' = client_state c" "keepalive_probes c' = keepalive_probes c"
    if "connected_to c c'" for c' k s h n
    using that assms by (simp_all add: connected_to_def idle_def base_inv_def same_session_def)
  have err: "MQTT_CONNECT_ERROR \<noteq> SUCCESS_RETURN" by (simp add: mqtt_error_defs)
  show ?thesis
    unfolding mqtt_connect_def Let_def iotx_mc_set_client_state_def
    by (rule post_bind, rule post_conseq_prod [OF mqtt_connect_loop_frame [OF refl pre]])
       (auto intro!: wp_run post_if simp: conn err split: sum.split)
qed

end
