(* ===== verification/MQTT_Reachable.thy ===== *)
theory MQTT_Reachable
  imports MQTT_Invariant
begin

text \<open>
  Every operation of the client's interface keeps \<^const>\<open>client_inv\<close>; the invariant therefore
  holds in every state that a sequence of operations can reach from an initialized client.
\<close>

subsection \<open>Handlers of received packets\<close>

text \<open>What holds while a packet is processed, and what its handlers keep.\<close>

definition serving :: "iotx_mc_client_t \<Rightarrow> bool" where
  "serving c \<longleftrightarrow> base_inv c \<and> buf_send c = None \<and> \<not> in_yield_cb c"

definition serves :: "iotx_mc_client_t \<Rightarrow> iotx_mc_client_t \<Rightarrow> bool" where
  "serves c c' \<longleftrightarrow> (serving c \<longrightarrow> serving c') \<and> keepalive_probes c' = keepalive_probes c \<and>
     client_state c' = client_state c"

lemma serves_refl [simp]: "serves c c"
  by (simp add: serves_def)

lemma serves_trans: "serves a b \<Longrightarrow> serves b c \<Longrightarrow> serves a c"
  by (simp add: serves_def)

lemma serves_reads: "reads_only c c' \<Longrightarrow> serves c c'"
  using base_inv_reads [of c c'] by (auto simp: serves_def serving_def reads_only_def same_session_def)

lemma serves_sends: "sends_only c c' \<Longrightarrow> serves c c'"
  using base_inv_sends [of c c'] by (auto simp: serves_def serving_def sends_only_def same_session_def)

lemma notify_reads: "reads_only c (notify c type msg)"
  by (simp add: notify_def handle_event_cb_frame)

lemma serves_notify: "serves c0 c \<Longrightarrow> serves c0 (notify c type msg)"
  by (rule serves_trans [OF _ serves_reads [OF notify_reads]])

lemma deliver_loop_reads: "reads_only c0 c \<Longrightarrow> reads_only c0 (snd (deliver_loop c name msg nodes flag))"
  by (induction c name msg nodes flag rule: deliver_loop.induct) (auto intro: handle_event_cb_frame)

lemma deliver_message_reads: "reads_only c (iotx_mc_deliver_message c name m buf)"
proof -
  obtain flag c' where d: "deliver_loop c name (MsgTopic (m\<lparr>ti_ptopic := ls_data (lenstring name),
      ti_topic_len := word_of_int (ls_len (lenstring name))\<rparr>) buf) (list_sub_handle c) False = (flag, c')"
    by (meson surj_pair)
  then have "reads_only c c'" using deliver_loop_reads [OF reads_only_refl] by (metis snd_conv)
  then show ?thesis
    using notify_reads [of c'] by (auto simp: iotx_mc_deliver_message_def d intro: reads_only_trans)
qed

lemma PUBACK_serves: "post (iotx_mc_handle_recv_PUBACK c) (\<lambda>(rc, c'). serves c c')"
proof -
  have "serves c (snd (iotx_mc_mask_pubInfo_from c i))" for i
    by (auto simp: serves_def serving_def base_inv_def iotx_mc_mask_pubInfo_from_def list_all_iff pub_info_ok_def)
  then show ?thesis
    unfolding iotx_mc_handle_recv_PUBACK_def
    by (auto intro!: post_bind_eq post_if serves_notify simp: iotx_mc_mask_pubInfo_from_def)
qed

lemma SUBACK_serves: "post (iotx_mc_handle_recv_SUBACK c) (\<lambda>(rc, c'). serves c c')"
proof -
  have "serves c (iotx_mqtt_event_handle_sub c i t)" for i t
    by (simp add: serves_def serving_def base_inv_def iotx_mqtt_event_handle_sub_def)
  then show ?thesis
    unfolding iotx_mc_handle_recv_SUBACK_def Let_def
    by (auto intro!: post_bind_eq post_if serves_notify)
qed

lemma UNSUBACK_serves: "post (iotx_mc_handle_recv_UNSUBACK c) (\<lambda>(rc, c'). serves c c')"
  unfolding iotx_mc_handle_recv_UNSUBACK_def
  by (auto intro!: post_bind_eq post_if intro: serves_reads [OF notify_reads])

lemma PUBLISH_serves: "buf_send c = None \<Longrightarrow> post (iotx_mc_handle_recv_PUBLISH c) (\<lambda>(rc, c'). serves c c')"
proof -
  assume c: "buf_send c = None"
  have ack: "post (MQTTPuback (iotx_mc_deliver_message c n m b) i t) (\<lambda>(rc, c'). serves c c')" for n m b i t
  proof -
    have d: "reads_only c (iotx_mc_deliver_message c n m b)" by (rule deliver_message_reads)
    then have "buf_send (iotx_mc_deliver_message c n m b) = None" using c by (simp add: reads_only_def)
    from MQTTPuback_frame [OF this] show ?thesis
      by (rule post_conseq_prod) (auto intro: serves_trans [OF serves_reads [OF d] serves_sends])
  qed
  show ?thesis
    unfolding iotx_mc_handle_recv_PUBLISH_def Let_def
    by (auto intro!: post_bind_eq post_if ack serves_reads deliver_message_reads)
qed

lemma dispatch_serves: "buf_send c = None \<Longrightarrow> post (dispatch_packet c t) (\<lambda>(rc, c'). serves c c')"
  unfolding dispatch_packet_def
  by (intro post_if) (auto intro: PUBACK_serves SUBACK_serves PUBLISH_serves UNSUBACK_serves)

subsection \<open>Pending publications\<close>

lemma pub_info_loop_inv:
  "serving c \<Longrightarrow> list_all pub_info_ok nodes \<Longrightarrow>
   post (pub_info_loop c nodes) (\<lambda>(ns, c'). serving c' \<and> keepalive_probes c' = keepalive_probes c \<and>
     buf_read c' = buf_read c \<and> list_all pub_info_ok ns \<and> length ns \<le> length nodes)"
proof (induction nodes arbitrary: c)
  case (Cons node nodes)
  let ?Q = "\<lambda>c (ns, c'). serving c' \<and> keepalive_probes c' = keepalive_probes c \<and>
     buf_read c' = buf_read c \<and> list_all pub_info_ok ns \<and> length ns \<le> length nodes"
  have ok: "pub_info_ok node" "list_all pub_info_ok nodes"
    and ok_start: "\<And>t. pub_info_ok (node\<lparr>pub_start_time := t\<rparr>)"
    using Cons.prems by (simp_all add: pub_info_ok_def [of node] pub_info_ok_def [of "node\<lparr>pub_start_time := t\<rparr>" for t])
  have keep: "post (pub_info_loop c' nodes) (\<lambda>x. post (case x of (ns, c) \<Rightarrow> Some (n # ns, c))
      (\<lambda>(ns, c''). serving c'' \<and> keepalive_probes c'' = keepalive_probes c \<and> buf_read c'' = buf_read c \<and>
         list_all pub_info_ok ns \<and> length ns \<le> Suc (length nodes)))"
    if "serving c'" "pub_info_ok n" "keepalive_probes c' = keepalive_probes c" "buf_read c' = buf_read c" for c' n
    by (rule post_conseq_prod [OF Cons.IH [OF that(1) ok(2)]]) (use that in auto)
  have env: "serving (c'\<lparr>env := h\<rparr>) = serving c'" "serving (c'\<lparr>client_state := s\<rparr>) = serving c'" for c' h s
    by (simp_all add: serving_def base_inv_def)
  have snd: "post (MQTTRePublish c' b n) (\<lambda>(rc, c''). serving c'' \<and> keepalive_probes c'' = keepalive_probes c' \<and> buf_read c'' = buf_read c')"
    if "serving c'" for c' b n
    using that base_inv_sends [of c']
    by (intro post_conseq_prod [OF MQTTRePublish_frame]) (auto simp: serving_def sends_only_def same_session_def)
  have invalid: "post (pub_info_loop c nodes) (\<lambda>(ns, c'). serving c' \<and> keepalive_probes c' = keepalive_probes c \<and>
      buf_read c' = buf_read c \<and> list_all pub_info_ok ns \<and> length ns \<le> Suc (length nodes))"
    by (rule post_conseq_prod [OF Cons.IH [OF Cons.prems(1) ok(2)]]) auto
  show ?case
    using Cons.prems invalid
    by (auto intro!: post_if wp_run post_bind post_conseq_prod [OF snd] keep
        simp: Let_def env ok ok_start iotx_mc_set_client_state_def)
qed simp

lemma PubInfoProc_inv:
  assumes "client_inv c"
  shows "post (MQTTPubInfoProc c) (\<lambda>(rc, c'). client_inv c')"
proof -
  from assms have c: "serving c" "list_all pub_info_ok (list_pub_wait_ack c)" "buf_read c = None"
      "keepalive_probes c \<le> 2" "length (list_pub_wait_ack c) \<le> 20"
    by (auto simp: client_inv_def serving_def base_inv_def idle_def)
  show ?thesis
    unfolding MQTTPubInfoProc_def
    by (rule post_bind, rule post_conseq_prod [OF pub_info_loop_inv [OF c(1,2)]])
       (use c(3-) in \<open>auto simp: client_inv_def serving_def base_inv_def idle_def\<close>)
qed

subsection \<open>The receive cycle\<close>

lemma client_inv_reset:
  "serving c \<Longrightarrow> keepalive_probes c \<le> 2 \<Longrightarrow> client_inv (reset_recv_buffer c)"
  by (auto simp: client_inv_def serving_def idle_def reset_recv_buffer_def base_inv_def)

lemma client_inv_state: "client_inv (iotx_mc_set_client_state c s) = client_inv c"
  by (simp add: client_inv_def idle_def base_inv_def iotx_mc_set_client_state_def)

lemma cycle_inv:
  assumes "cycle_pre c"
  shows "post (iotx_mc_cycle c timer) (\<lambda>(rc, c'). client_inv c')"
proof (cases "client_state c = IOTX_MC_STATE_CONNECTED")
  case False
  then show ?thesis
    using assms by (auto simp: iotx_mc_cycle_def iotx_mc_get_client_state_def cycle_pre_def client_inv_def)
next
  case True
  define c1 where "c1 = (if IOTX_MC_KEEPALIVE_PROBE_MAX < keepalive_probes c
    then (iotx_mc_set_client_state c IOTX_MC_STATE_DISCONNECTED)\<lparr>keepalive_probes := 0\<rparr> else c)"
  have c1: "serving c1" "keepalive_probes c1 \<le> 2"
    using assms by (auto simp: c1_def cycle_pre_def serving_def idle_def base_inv_def iotx_mc_set_client_state_def
        IOTX_MC_KEEPALIVE_PROBE_MAX_def not_less)
  have rd: "serving c2" "keepalive_probes c2 \<le> 2" "buf_send c2 = None" if "reads_only c1 c2" for c2
    using serves_reads [OF that] c1 by (auto simp: serves_def serving_def)
  have probes: "serving (c2\<lparr>keepalive_probes := 0\<rparr>)" if "serving c2" for c2
    using that by (simp add: serving_def base_inv_def)
  have disp: "post (dispatch_packet (c2\<lparr>keepalive_probes := 0\<rparr>) t \<bind> (\<lambda>(rc, c). Some (rc, reset_recv_buffer c)))
      (\<lambda>(rc, c'). client_inv c')" if "reads_only c1 c2" for c2 t
    using rd [OF that] probes [of c2]
    by (intro post_bind post_conseq_prod [OF dispatch_serves]) (auto simp: serves_def intro!: client_inv_reset)
  show ?thesis
    using True unfolding iotx_mc_cycle_def Let_def c1_def [symmetric]
    by (auto intro!: post_if post_bind wp_read_packet [OF reads_only_refl] disp client_inv_reset
        simp: rd client_inv_state iotx_mc_get_client_state_def)
qed

lemma client_inv_cycle_pre: "client_inv c \<Longrightarrow> cycle_pre c"
  by (simp add: client_inv_def cycle_pre_def)

lemma client_inv_env [simp]: "client_inv (c\<lparr>env := h\<rparr>) = client_inv c"
  by (simp add: client_inv_def idle_def base_inv_def)

lemma cycle_pre_env [simp]: "cycle_pre (c\<lparr>env := h\<rparr>) = cycle_pre c"
  by (simp add: cycle_pre_def idle_def base_inv_def)

lemma mqtt_cycle_loop_inv: "mqtt_cycle_loop c t = Some c' \<Longrightarrow> cycle_pre c \<longrightarrow> client_inv c'"
proof (induction rule: mqtt_cycle_loop.raw_induct [rotated, consumes 1, case_names step])
  case (step loop c t c')
  have "post (iotx_mc_cycle c t \<bind> (\<lambda>(rc, c). (if rc = SUCCESS_RETURN then MQTTPubInfoProc c else Some (rc, c)) \<bind>
      (\<lambda>(_, c). case hal_run (iotx_time_left t) c of (left_t, c) \<Rightarrow>
        (case hal_run (utils_time_is_expired t) (hal_exec (HAL_SleepMs (if left_t < 10 then left_t else 10)) c) of
           (expired, c) \<Rightarrow> if expired then Some c else loop c t)))) client_inv" if "cycle_pre c"
  proof -
    have loop: "post (loop c2 t) client_inv" if "client_inv c2" for c2
      using step(1) client_inv_cycle_pre [OF that] by (auto intro: postI)
    show ?thesis
      unfolding hal_exec_def
      by (auto intro!: post_bind post_conseq_prod [OF cycle_inv [OF that]] post_conseq_prod [OF PubInfoProc_inv]
          post_if wp_run loop)
  qed
  from postD [OF this step(2)] show ?case by simp
qed

lemma mqtt_cycle_inv: "cycle_pre c \<Longrightarrow> post (mqtt_cycle c) client_inv"
  unfolding mqtt_cycle_def Let_def by (rule wp_run) (auto intro!: postI dest: mqtt_cycle_loop_inv)

subsection \<open>Keep-alive and reconnection\<close>

lemma probe_incr: "(k :: u8) \<le> 2 \<Longrightarrow> k + 1 \<le> 3"
  by (auto simp: word_le_nat_alt unat_word_ariths)

lemma cycle_pre_upd:
  "client_inv c \<Longrightarrow> cycle_pre (c\<lparr>next_ping_time := t\<rparr>)" "client_inv c \<Longrightarrow> client_inv (c\<lparr>next_ping_time := t\<rparr>)"
  "client_inv c \<Longrightarrow> client_state c = IOTX_MC_STATE_CONNECTED \<Longrightarrow> cycle_pre (c\<lparr>keepalive_probes := keepalive_probes c + 1\<rparr>)"
  using probe_incr [of "keepalive_probes c"] by (auto simp: client_inv_def cycle_pre_def idle_def base_inv_def)

lemma client_inv_sends: "client_inv c \<Longrightarrow> sends_only c c' \<Longrightarrow> client_inv c' \<and> client_state c' = client_state c"
  using base_inv_sends [of c c'] idle_sends [of c c']
  by (auto simp: client_inv_def sends_only_def same_session_def)

lemma keepalive_sub_inv:
  assumes "client_inv c"
  shows "post (iotx_mc_keepalive_sub c) (\<lambda>(rc, c'). cycle_pre c')"
proof (cases "client_state c = IOTX_MC_STATE_CONNECTED")
  case False
  then show ?thesis
    using client_inv_cycle_pre [OF assms]
    by (simp add: iotx_mc_keepalive_sub_def wrapper_mqtt_check_state_def iotx_mc_get_client_state_def)
next
  case True
  have ping: "post (MQTTKeepalive (c\<lparr>env := h, next_ping_time := t\<rparr>))
      (\<lambda>(rc, c'). client_inv c' \<and> client_state c' = IOTX_MC_STATE_CONNECTED)" for h t
  proof (rule post_conseq_prod [OF MQTTKeepalive_frame])
    fix rc c' assume "sends_only (c\<lparr>env := h, next_ping_time := t\<rparr>) c'"
    from client_inv_sends [OF _ this] show "case (rc, c') of (rc, c') \<Rightarrow> client_inv c' \<and> client_state c' = IOTX_MC_STATE_CONNECTED"
      using assms True by (simp add: cycle_pre_upd)
  qed
  have disc: "cycle_pre (iotx_mc_set_client_state c' s)" if "client_inv c'" for c' s
    using that client_inv_state client_inv_cycle_pre by blast
  show ?thesis
    unfolding iotx_mc_keepalive_sub_def Let_def
    using assms True
    by (auto intro!: post_if wp_run post_bind post_conseq_prod [OF ping] cycle_pre_upd(3) disc
        simp: client_inv_cycle_pre wrapper_mqtt_check_state_def iotx_mc_get_client_state_def)
qed

lemma tcp_connect_loop_frame: "\<exists>h. tcp_connect_loop c n = c\<lparr>env := h\<rparr>"
proof (induction "3 - n" arbitrary: c n rule: less_induct)
  case less
  obtain rc h where r: "ipstack_connect (env c) = (rc, h)" by fastforce
  define h' where "h' = HAL_SleepMs 1000 (ipstack_disconnect h)"
  show ?case
  proof (cases "rc \<noteq> SUCCESS_RETURN \<and> n + 1 \<le> 3")
    case True
    then have "3 - (n + 1) < 3 - n" by linarith
    from less.hyps [OF this, of "c\<lparr>env := h'\<rparr>"]
    obtain h'' where "tcp_connect_loop (c\<lparr>env := h'\<rparr>) (n + 1) = c\<lparr>env := h'\<rparr>\<lparr>env := h''\<rparr>" by blast
    then show ?thesis
      using True by (subst tcp_connect_loop.simps) (auto simp: hal_run_def r hal_exec_def connect_retry_max_def h'_def Let_def)
  next
    case False
    then have "tcp_connect_loop c n = c\<lparr>env := if rc = SUCCESS_RETURN then h else h'\<rparr>"
      by (subst tcp_connect_loop.simps) (auto simp: hal_run_def r hal_exec_def connect_retry_max_def h'_def Let_def)
    then show ?thesis by blast
  qed
qed

lemma wrapper_mqtt_connect_inv:
  assumes "base_inv c" "idle c"
  shows "post (wrapper_mqtt_connect c) (\<lambda>(rc, c'). base_inv c' \<and> idle c' \<and>
    (rc = SUCCESS_RETURN \<longrightarrow> client_state c' = IOTX_MC_STATE_CONNECTED \<and> keepalive_probes c' = 0) \<and>
    (rc \<noteq> SUCCESS_RETURN \<longrightarrow> client_state c' = client_state c \<and> keepalive_probes c' = keepalive_probes c))"
proof -
  obtain h where h: "tcp_connect_loop c 1 = c\<lparr>env := h\<rparr>" using tcp_connect_loop_frame by blast
  have "base_inv (c\<lparr>env := h\<rparr>)" "idle (c\<lparr>env := h\<rparr>)" using assms by (simp_all add: base_inv_def idle_def)
  from mqtt_connect_inv [OF this] show ?thesis unfolding wrapper_mqtt_connect_def h by simp
qed

lemma reconnect_interval_closed:
  "(v :: u32) \<in> {1000, 2000, 4000, 8000, 16000, 32000, 64000, 60000} \<Longrightarrow>
   (if IOTX_MC_RECONNECT_INTERVAL_MAX_MS > v then v * 2 else IOTX_MC_RECONNECT_INTERVAL_MAX_MS)
     \<in> {1000, 2000, 4000, 8000, 16000, 32000, 64000, 60000}"
  by (auto simp: IOTX_MC_RECONNECT_INTERVAL_MAX_MS_def)

lemma handle_reconnect_inv:
  assumes c: "client_inv c"
  shows "post (iotx_mc_handle_reconnect c) (\<lambda>(rc, c'). client_inv c')"
proof -
  have b: "base_inv c" "idle c" "keepalive_probes c \<le> 2" using c by (simp_all add: client_inv_def)
  have attempt: "post (iotx_mc_attempt_reconnect (c\<lparr>env := h\<rparr>)) (\<lambda>(rc, c'). client_inv c')" for h
    unfolding iotx_mc_attempt_reconnect_def hal_exec_def
    by (rule post_conseq_prod [OF wrapper_mqtt_connect_inv])
       (use b in \<open>auto simp: client_inv_def base_inv_def idle_def\<close>)
  have upd: "client_inv (c'\<lparr>reconnect_time_interval_ms := (if IOTX_MC_RECONNECT_INTERVAL_MAX_MS > reconnect_time_interval_ms c'
      then reconnect_time_interval_ms c' * 2 else IOTX_MC_RECONNECT_INTERVAL_MAX_MS), env := h, reconnect_next_time := t\<rparr>)"
    if "client_inv c'" for c' h t
    using that reconnect_interval_closed [of "reconnect_time_interval_ms c'"]
    by (simp add: client_inv_def base_inv_def idle_def del: insert_iff)
  show ?thesis
    unfolding iotx_mc_handle_reconnect_def Let_def hal_exec_def
    by (rule wp_run, rule post_if, simp add: c, rule post_bind, rule post_conseq_prod [OF attempt])
       (simp only: prod.case, intro post_if wp_run; simp add: client_inv_state upd split del: if_split)
qed

lemma keepalive_inv:
  assumes "client_inv c"
  shows "post (iotx_mc_keepalive c) cycle_pre"
proof -
  have cb: "client_inv (c'\<lparr>reconnect_time_interval_ms := IOTX_MC_RECONNECT_INTERVAL_MIN_MS\<rparr>)" if "client_inv c'" for c'
    using that by (simp add: client_inv_def base_inv_def idle_def mqtt_config_defs)
  have rc: "client_inv (iotx_mc_reconnect_callback c')" if "client_inv c'" for c'
    using that by (simp add: iotx_mc_reconnect_callback_def call_handle_def client_inv_def base_inv_def idle_def)
  have dc: "client_inv ((iotx_mc_disconnect_callback c')\<lparr>reconnect_time_interval_ms := IOTX_MC_RECONNECT_INTERVAL_MIN_MS, reconnect_next_time := t\<rparr>)"
    if "client_inv c'" for c' t
    using that by (simp add: iotx_mc_disconnect_callback_def call_handle_def client_inv_def base_inv_def idle_def mqtt_config_defs)
  have pre: "client_inv c'" if "cycle_pre c'" "client_state c' \<noteq> IOTX_MC_STATE_CONNECTED" for c'
    using that by (simp add: cycle_pre_def client_inv_def)
  have reconn: "post (iotx_mc_handle_reconnect c' \<bind> (\<lambda>(rc, c).
      if rc \<noteq> SUCCESS_RETURN then Some c else if rc = MQTT_CONNECT_BLOCK then Some c
      else Some ((iotx_mc_reconnect_callback c)\<lparr>reconnect_time_interval_ms := IOTX_MC_RECONNECT_INTERVAL_MIN_MS\<rparr>))) cycle_pre"
    if "client_inv c'" for c'
    by (rule post_bind, rule post_conseq_prod [OF handle_reconnect_inv [OF that]])
       (simp add: client_inv_cycle_pre cb rc)
  have disc: "cycle_pre (iotx_mc_set_client_state ((iotx_mc_disconnect_callback c')
      \<lparr>reconnect_time_interval_ms := IOTX_MC_RECONNECT_INTERVAL_MIN_MS, reconnect_next_time := t, env := h\<rparr>) s)"
    if "client_inv c'" for c' h t s
    using dc [OF that] client_inv_cycle_pre client_inv_state client_inv_env by blast
  show ?thesis
    unfolding iotx_mc_keepalive_def Let_def hal_exec_def
    by (rule post_bind, rule post_conseq_prod [OF keepalive_sub_inv [OF assms]])
       (auto intro!: post_if wp_run reconn disc pre simp: iotx_mc_get_client_state_def)
qed

subsection \<open>The operations of the application\<close>

lemma client_inv_frames:
  "client_inv c \<Longrightarrow> sends_only c c' \<Longrightarrow> client_inv c'"
  "client_inv c \<Longrightarrow> queues c c' \<Longrightarrow> client_inv c'"
  "client_inv c \<Longrightarrow> unregisters c c' \<Longrightarrow> client_inv c'"
proof -
  show s: "client_inv c \<Longrightarrow> sends_only c c' \<Longrightarrow> client_inv c'" for c c' using client_inv_sends by blast
  show "client_inv c'" if "client_inv c" "queues c c'"
  proof -
    have "client_inv (c\<lparr>list_pub_wait_ack := list_pub_wait_ack c @ [node]\<rparr>)"
      if "pub_info_ok node" "length (list_pub_wait_ack c) < 20" for node
      using that \<open>client_inv c\<close> by (simp add: client_inv_def base_inv_def idle_def)
    with that s show ?thesis unfolding queues_def by blast
  qed
  show "client_inv c'" if "client_inv c" "unregisters c c'"
  proof -
    have "client_inv (c\<lparr>list_sub_handle := filter P (list_sub_handle c)\<rparr>)" for P
      using \<open>client_inv c\<close> by (simp add: client_inv_def base_inv_def idle_def list_all_iff)
    with that s show ?thesis unfolding unregisters_def by blast
  qed
qed

lemma check_identical_iff: "iotx_mc_check_handle_is_identical a b = 0 \<longleftrightarrow> a = b"
  by (auto simp: iotx_mc_check_handle_is_identical_def iotx_mc_check_handle_is_identical_ex_def Let_def
      intro: iotx_mc_topic_handle_t.equality iotx_mqtt_event_handle_t.equality)

lemma client_inv_registers: "client_inv c \<Longrightarrow> registers c c' \<Longrightarrow> client_inv c'"
proof -
  assume "client_inv c" "registers c c'"
  then obtain c1 where c1: "client_inv c1"
    and c': "c' = c1 \<or> (\<exists>hdl. h_fp (handle hdl) \<noteq> None \<and> c' = add_sub_handle hdl c1)"
    unfolding registers_def using client_inv_frames(1) by blast
  have "client_inv (add_sub_handle hdl c1)" if "h_fp (handle hdl) \<noteq> None" for hdl
  proof (cases "hdl \<in> set (list_sub_handle c1)")
    case True
    with c1 show ?thesis by (auto simp: add_sub_handle_def check_identical_iff list_ex_iff)
  next
    case False
    then have "add_sub_handle hdl c1 = c1\<lparr>list_sub_handle := list_sub_handle c1 @ [hdl]\<rparr>"
      by (auto simp: add_sub_handle_def check_identical_iff list_ex_iff)
    with c1 False that show ?thesis by (simp add: client_inv_def base_inv_def idle_def del: insert_iff)
  qed
  with c1 c' show "client_inv c'" by blast
qed

lemma next_packetid_inv:
  assumes "client_inv c"
  shows "client_inv (snd (iotx_mc_get_next_packetid c))" and "fst (iotx_mc_get_next_packetid c) \<in> {1..65535}"
proof -
  have "packet_id c \<le> 65535" using assms by (simp add: client_inv_def base_inv_def)
  then have r: "fst (iotx_mc_get_next_packetid c) \<in> {1..65535}"
    by (auto simp: iotx_mc_get_next_packetid_def Let_def IOTX_MC_PACKET_ID_MAX_def word_le_nat_alt unat_word_ariths
        word_unat_eq_iff)
  then show "client_inv (snd (iotx_mc_get_next_packetid c))" "fst (iotx_mc_get_next_packetid c) \<in> {1..65535}"
    using assms by (auto simp: iotx_mc_get_next_packetid_def Let_def client_inv_def base_inv_def idle_def)
qed

lemma wp_packetid:
  assumes "client_inv c" "\<And>i c'. client_inv c' \<Longrightarrow> post (f i c') Q"
  shows "post (case iotx_mc_get_next_packetid c of (i, c') \<Rightarrow> f i c') Q"
  by (rule post_case_prod) (metis next_packetid_inv(1) [OF assms(1)] assms(2) snd_conv)

lemma idle_buf: "client_inv c \<Longrightarrow> buf_send c = None"
  by (simp add: client_inv_def idle_def)

lemma subscribe_inv: "client_inv c \<Longrightarrow> post (wrapper_mqtt_subscribe c flt q fp x) (\<lambda>(rc, c'). client_inv c')"
  unfolding wrapper_mqtt_subscribe_def Let_def
  by (auto intro!: wp_packetid post_if post_bind_eq [where m = "iotx_mc_check_topic n t" for n t]
      post_bind [OF post_conseq_prod [OF MQTTSubscribe_frame]]
      simp: client_inv_state idle_buf intro: client_inv_registers split: option.split)

lemma unsubscribe_inv: "client_inv c \<Longrightarrow> post (wrapper_mqtt_unsubscribe c flt) (\<lambda>(rc, c'). client_inv c')"
  unfolding wrapper_mqtt_unsubscribe_def Let_def
  by (auto intro!: wp_packetid post_if post_bind_eq [where m = "iotx_mc_check_topic n t" for n t]
      post_bind [OF post_conseq_prod [OF MQTTUnsubscribe_frame]]
      simp: client_inv_state idle_buf intro: client_inv_frames split: option.split)

lemma publish_inv: "client_inv c \<Longrightarrow> post (wrapper_mqtt_publish c name m d) (\<lambda>(rc, c'). client_inv c')"
proof -
  assume c: "client_inv c"
  have pub: "post (MQTTPublish c' n m' dat \<bind> (\<lambda>(rc, c). if rc \<noteq> SUCCESS_RETURN
      then Some (rc, if rc = MQTT_NETWORK_ERROR then iotx_mc_set_client_state c IOTX_MC_STATE_DISCONNECTED else c)
      else Some (uint i, c))) (\<lambda>(rc, c'). client_inv c')"
    if "client_inv c'" for c' n m' dat and i :: u16
    using client_inv_frames(2) [OF that]
    by (auto intro!: post_bind post_conseq_prod [OF MQTTPublish_frame] simp: client_inv_state)
  show ?thesis
    unfolding wrapper_mqtt_publish_def Let_def
    using c next_packetid_inv(1) [OF c]
    by (auto intro!: post_if post_bind_eq [where m = "iotx_mc_check_topic n t" for n t] pub
        split: option.split prod.split)
qed

lemma yield_inv: "client_inv c \<Longrightarrow> post (wrapper_mqtt_yield c t) (\<lambda>(rc, c'). client_inv c')"
proof -
  assume c: "client_inv c"
  have "client_inv (c\<lparr>cycle_timeout_ms := w\<rparr>)" for w
    using c by (simp add: client_inv_def base_inv_def idle_def)
  then show ?thesis
    unfolding wrapper_mqtt_yield_def Let_def using c
    by (auto intro!: post_if post_bind post_conseq [OF keepalive_inv] post_conseq [OF mqtt_cycle_inv])
qed

subsection \<open>Blocking subscription\<close>

text \<open>
  What the loop of \<open>wrapper_mqtt_subscribe_sync\<close> relies on: a property of the client that
  subscribing and yielding keep and that does not look at the platform or at the list of
  subscriptions waiting for an acknowledgement.
\<close>

locale sync_client =
  fixes P :: "iotx_mc_client_t \<Rightarrow> bool"
  assumes P_subscribe: "P c \<Longrightarrow> post (wrapper_mqtt_subscribe c flt q fp x) (\<lambda>(rc, c'). P c')"
    and P_yield: "P c \<Longrightarrow> post (wrapper_mqtt_yield c t) (\<lambda>(rc, c'). P c')"
    and P_env: "P c \<Longrightarrow> P (c\<lparr>env := h\<rparr>)"
    and P_sync: "P c \<Longrightarrow> P (c\<lparr>list_sub_sync_ack := l\<rparr>)"
begin

lemma sync_register_keeps: "P c \<Longrightarrow> P (snd (sync_register c ret subed))"
  by (cases "HAL_Malloc sizeof_sub_sync_node (env c)") (simp add: sync_register_def hal_run_def P_env P_sync)

lemma wp_sync_register:
  assumes "P c" "\<And>s c'. P c' \<Longrightarrow> post (f s c') Q"
  shows "post (case sync_register c ret subed of (s, c') \<Rightarrow> f s c') Q"
  by (rule post_case_prod) (metis sync_register_keeps [OF assms(1)] assms(2) snd_conv)

lemma sync_check_head_keeps: "P c \<Longrightarrow> P (snd (sync_check_head c ret subed))"
  by (simp add: sync_check_head_def P_sync split: list.split)

lemma sync_subscribe_keeps: "P c \<Longrightarrow> post (sync_subscribe c ret flt q fp x) (\<lambda>(stop, ret, c'). P c')"
  unfolding sync_subscribe_def by (auto intro!: post_if post_bind [OF post_conseq_prod [OF P_subscribe]])

lemma subscribe_sync_loop_keeps: "subscribe_sync_loop c t flt q fp x ret subed = Some r \<Longrightarrow> P c \<longrightarrow> P (snd r)"
proof (induction rule: subscribe_sync_loop.raw_induct [rotated, consumes 1, case_names step])
  case (step loop c t flt q fp x ret subed r)
  have check: "post (case sync_check_head c1 ret subed of (r, c) \<Rightarrow> (case r of Inl v \<Rightarrow> Some (v, c)
      | Inr (ret, subed) \<Rightarrow> (case hal_run (utils_time_is_expired t) c of (expired, c) \<Rightarrow>
          if \<not> expired then loop c t flt q fp x ret subed
          else Some (-1, c\<lparr>list_sub_sync_ack := filter (\<lambda>node. sync_packet_id node \<noteq> ret) (list_sub_sync_ack c)\<rparr>))))
      (\<lambda>r. P (snd r))" if "P c1" for c1 ret subed
  proof -
    obtain v c2 where s: "sync_check_head c1 ret subed = (v, c2)" by fastforce
    then have c2: "P c2" using sync_check_head_keeps [OF that, of ret subed] by simp
    have loop: "post (loop c' t flt q fp x ret' subed') (\<lambda>r. P (snd r))" if "P c'" for c' ret' subed'
      using step(1) that by (auto intro!: postI)
    show ?thesis
      using c2 by (cases v) (auto intro!: wp_run post_if loop P_sync P_env simp: s)
  qed
  have "post (sync_subscribe c ret flt q fp x \<bind> (\<lambda>(stop, ret, c). if stop then Some (ret, c)
     else (case sync_register c ret subed of (subed, c) \<Rightarrow> wrapper_mqtt_yield c 100 \<bind> (\<lambda>(_, c).
       (case sync_check_head c ret subed of (r, c) \<Rightarrow> (case r of Inl v \<Rightarrow> Some (v, c)
         | Inr (ret, subed) \<Rightarrow> (case hal_run (utils_time_is_expired t) c of (expired, c) \<Rightarrow>
             if \<not> expired then loop c t flt q fp x ret subed
             else Some (-1, c\<lparr>list_sub_sync_ack := filter (\<lambda>node. sync_packet_id node \<noteq> ret) (list_sub_sync_ack c)\<rparr>)))))))) (\<lambda>r. P (snd r))"
    if "P c"
    using that
    by (auto intro!: post_bind [OF post_conseq [OF sync_subscribe_keeps]] post_if post_bind [OF post_conseq_prod [OF P_yield]] check
        wp_sync_register)
  from postD [OF this step(2)] show ?case by blast
qed

lemma subscribe_sync_keeps:
  "P c \<Longrightarrow> post (wrapper_mqtt_subscribe_sync c flt q fp x t) (\<lambda>(rc, c'). P c')"
  unfolding wrapper_mqtt_subscribe_sync_def Let_def
  by (rule wp_run) (auto intro!: postI dest: subscribe_sync_loop_keeps intro: P_env)

end

interpretation sync_inv: sync_client client_inv
proof unfold_locales
  show "client_inv (c\<lparr>list_sub_sync_ack := l\<rparr>)" if "client_inv c" for c l
    using that by (simp add: client_inv_def base_inv_def idle_def)
qed (simp_all add: subscribe_inv yield_inv)

lemma connect_inv: "client_inv c \<Longrightarrow> post (wrapper_mqtt_connect c) (\<lambda>(rc, c'). client_inv c')"
  by (rule post_conseq_prod [OF wrapper_mqtt_connect_inv]) (auto simp: client_inv_def)

lemma init_inv:
  assumes "wrapper_mqtt_init p h = (Some c, h')"
  shows "client_inv c" and "client_state c = IOTX_MC_STATE_INITIALIZED"
proof -
  obtain q h1 where m: "HAL_Malloc sizeof_client h = (q, h1)" by fastforce
  obtain err c1 where i: "iotx_mc_init (zero_client h1) p = (err, c1)" by fastforce
  have c: "err = SUCCESS_RETURN" "c1 = c" using assms m i by (auto simp: wrapper_mqtt_init_def split: if_splits)
  obtain par where p: "p = Some par" "write_buf_size par \<noteq> 0" "read_buf_size par \<noteq> 0" "iotx_net_init (host par) = SUCCESS_RETURN"
    using i c(1) by (auto simp: iotx_mc_init_def iotx_mc_set_connect_params_def mqtt_error_defs Let_def split: option.splits if_splits)
  have "500 \<le> request_timeout_ms c" "request_timeout_ms c \<le> 5000" "30 \<le> keepAliveInterval (connect_data c)"
      "keepAliveInterval (connect_data c) \<le> 1200" and st: "client_state c = IOTX_MC_STATE_INITIALIZED"
    using i c p by (auto simp: iotx_mc_init_def iotx_mc_set_connect_params_def iotx_mc_set_client_state_def Let_def mqtt_config_defs not_less)
  moreover have "packet_id c = 0" "reconnect_time_interval_ms c = 1000" "list_pub_wait_ack c = []" "list_sub_handle c = []"
      "buf_send c = None" "buf_read c = None" "\<not> in_yield_cb c" "keepalive_probes c = 0"
    using i c p by (auto simp: iotx_mc_init_def iotx_mc_set_connect_params_def iotx_mc_set_client_state_def Let_def zero_client_def mqtt_config_defs)
  ultimately show "client_inv c" "client_state c = IOTX_MC_STATE_INITIALIZED"
    by (simp_all add: client_inv_def base_inv_def idle_def)
qed

subsection \<open>Reachable clients\<close>

definition mc_init :: "iotx_mc_client_t \<Rightarrow> bool" where
  "mc_init c \<longleftrightarrow> (\<exists>p h h'. wrapper_mqtt_init p h = (Some c, h'))"

inductive mc_step :: "iotx_mc_client_t \<Rightarrow> iotx_mc_client_t \<Rightarrow> bool" where
  connect: "wrapper_mqtt_connect c = Some (rc, c') \<Longrightarrow> mc_step c c'"
| yield: "wrapper_mqtt_yield c timeout_ms = Some (rc, c') \<Longrightarrow> mc_step c c'"
| subscribe: "wrapper_mqtt_subscribe c flt qos fp context = Some (rc, c') \<Longrightarrow> mc_step c c'"
| subscribe_sync: "wrapper_mqtt_subscribe_sync c flt qos fp context timeout_ms = Some (rc, c') \<Longrightarrow> mc_step c c'"
| unsubscribe: "wrapper_mqtt_unsubscribe c flt = Some (rc, c') \<Longrightarrow> mc_step c c'"
| publish: "wrapper_mqtt_publish c name topic_msg payload = Some (rc, c') \<Longrightarrow> mc_step c c'"

inductive_cases mc_stepE: "mc_step c c'"

lemma mc_step_inv: "client_inv c \<Longrightarrow> mc_step c c' \<Longrightarrow> client_inv c'"
  by (erule mc_stepE) (auto dest: postD [OF connect_inv] postD [OF yield_inv] postD [OF subscribe_inv]
      postD [OF sync_inv.subscribe_sync_keeps] postD [OF unsubscribe_inv] postD [OF publish_inv])

interpretation mqtt: invariant_system mc_init mc_step client_inv
  by unfold_locales (auto simp: mc_init_def dest: init_inv mc_step_inv)

end
