(* ===== verification/MQTT_Behaviour.thy ===== *)
theory MQTT_Behaviour
  imports MQTT_Reachable
begin

text \<open>
  What the operations of the MQTT client do: which bytes they hand to the network, when they
  return, which publications wait for an acknowledgement, which handlers are called, and that
  receiving stays inside the read buffer whatever the network delivers.
\<close>

subsection \<open>Sending a packet\<close>

text \<open>The network stack writes no more than it was given.\<close>

definition write_bounded :: "(nat \<Rightarrow> byte list \<Rightarrow> u32 \<Rightarrow> int) \<Rightarrow> bool" where
  "write_bounded w \<longleftrightarrow> (\<forall>t d timeout. w t d timeout \<le> int (length d))"

text \<open>The clock shows the deadline \<open>timer\<close> as passed at the platform call number \<open>t\<close>.\<close>

definition expired_at :: "hal \<Rightarrow> iotx_time_t \<Rightarrow> nat \<Rightarrow> bool" where
  "expired_at h timer t \<longleftrightarrow> ucast (clock h t) - timer < (2147483647 :: u32)"

text \<open>
  At some point the clock shows the deadline as passed for four platform calls in a row, the
  number of calls in one round of the send loop.
\<close>

definition deadline_seen :: "hal \<Rightarrow> iotx_time_t \<Rightarrow> bool" where
  "deadline_seen h timer \<longleftrightarrow> (\<exists>n \<ge> tick h. \<forall>t \<in> {n .. n + 3}. expired_at h timer t)"

lemma is_expired_eq: "utils_time_is_expired timer h = (expired_at h timer (tick h), next_tick h)"
  by (simp add: utils_time_is_expired_def HAL_UptimeMs_def expired_at_def)

lemma next_tick_sel [simp]:
  "tick (next_tick h) = tick h + 1" "clock (next_tick h) = clock h" "net_write (next_tick h) = net_write h"
  "net_sent (next_tick h) = net_sent h" "net_read (next_tick h) = net_read h"
  by (simp_all add: next_tick_def)

lemma expired_at_next [simp]: "expired_at (next_tick h) timer t = expired_at h timer t"
  by (simp add: expired_at_def)

lemma time_left_nz_eq:
  "\<exists>w. time_left_nz timer h =
     (w, if expired_at h timer (tick h) then next_tick h else next_tick (next_tick h))"
  by (auto simp: time_left_nz_def iotx_time_left_def is_expired_eq HAL_UptimeMs_def)

lemma ipstack_write_eq:
  "ipstack_write d w h = (net_write h (tick h) d w, (next_tick h)\<lparr>net_sent := net_sent h @ take (nat (net_write h (tick h) d w)) d\<rparr>)"
  by (simp add: ipstack_write_def Let_def)

text \<open>One round of the send loop, with the platform state made explicit.\<close>

lemma send_loop_step:
  assumes "sent < len" "\<not> expired_at h timer (tick h)" "0 \<le> sent" "len \<le> int (length buf)"
  obtains rc h' where "net_sent h' = net_sent h @ take (nat rc) (take (nat (len - sent)) (drop (nat sent) buf))"
    "net_write h' = net_write h" "clock h' = clock h" "tick h + 3 \<le> tick h'" "tick h' \<le> tick h + 4"
    "\<exists>t w. rc = net_write h t (take (nat (len - sent)) (drop (nat sent) buf)) w"
    "send_loop buf len timer sent h = (if rc < 0 then Some (sent, h') else send_loop buf len timer (sent + rc) h')"
proof -
  let ?d = "take (nat (len - sent)) (drop (nat sent) buf)"
  have ld: "load_bytes buf (nat sent) (nat (len - sent)) = Some ?d"
    using assms by (simp add: load_bytes_def nat_diff_distrib)
  obtain w h1 where tl: "time_left_nz timer (next_tick h) = (w, h1)"
    and h1: "h1 = next_tick (next_tick h) \<or> h1 = next_tick (next_tick (next_tick h))"
    using time_left_nz_eq [of timer "next_tick h"] by (metis (full_types))
  let ?rc = "net_write h1 (tick h1) ?d w"
  let ?h' = "(next_tick h1)\<lparr>net_sent := net_sent h1 @ take (nat ?rc) ?d\<rparr>"
  have eq: "send_loop buf len timer sent h = (if ?rc < 0 then Some (sent, ?h') else send_loop buf len timer (sent + ?rc) ?h')"
    using assms by (subst send_loop.simps) (simp add: is_expired_eq tl ld ipstack_write_eq)
  have f: "net_sent h1 = net_sent h" "net_write h1 = net_write h" "clock h1 = clock h" "tick h1 = tick h + 2 \<or> tick h1 = tick h + 3"
    using h1 by auto
  show ?thesis
    by (rule that [OF _ _ _ _ _ _ eq]) (use f in auto)
qed

lemma send_loop_returns:
  assumes "write_bounded (net_write h)" "len \<le> int (length buf)" "0 \<le> sent" "sent \<le> len"
    and n: "tick h \<le> n + 3" "\<forall>t \<in> {n .. n + 3}. expired_at h timer t"
  shows "\<exists>r. send_loop buf len timer sent h = Some r"
  using assms
proof (induction "n + 4 - tick h" arbitrary: sent h rule: less_induct)
  case less
  show ?case
  proof (cases "sent < len \<and> \<not> expired_at h timer (tick h)")
    case False
    then show ?thesis by (subst send_loop.simps) (auto simp: is_expired_eq)
  next
    case True
    then have "tick h < n" using less.prems(5,6) by (meson atLeastAtMost_iff leI)
    let ?d = "take (nat (len - sent)) (drop (nat sent) buf)"
    obtain rc h' where s: "net_write h' = net_write h" "clock h' = clock h" "tick h + 3 \<le> tick h'" "tick h' \<le> tick h + 4"
      and rc: "\<exists>t w. rc = net_write h t ?d w"
      and eq: "send_loop buf len timer sent h = (if rc < 0 then Some (sent, h') else send_loop buf len timer (sent + rc) h')"
      using True send_loop_step [of sent len h timer buf] less.prems(2,3) by metis
    have "rc \<le> int (length ?d)" using rc less.prems(1) unfolding write_bounded_def by blast
    also have "\<dots> \<le> len - sent" using True by (auto simp: min_def)
    finally have le: "sent + rc \<le> len" by simp
    have "\<exists>r. send_loop buf len timer (sent + rc) h' = Some r" if "\<not> rc < 0"
      using that le less.prems s \<open>tick h < n\<close>
      by (intro less.hyps) (auto simp: expired_at_def)
    with eq show ?thesis by auto
  qed
qed

text \<open>What was handed to the network is the part of the packet counted in \<open>sent\<close>.\<close>

lemma take_split: "i \<le> j \<Longrightarrow> take i xs @ take (j - i) (drop i xs) = take j xs"
  using take_add [of i "j - i" xs] by simp

lemma send_loop_bytes:
  "send_loop buf len timer sent h = Some r \<Longrightarrow>
   write_bounded (net_write h) \<and> len \<le> int (length buf) \<and> 0 \<le> sent \<and> sent \<le> len \<longrightarrow>
   sent \<le> fst r \<and> fst r \<le> len \<and> net_sent (snd r) = net_sent h @ take (nat (fst r - sent)) (drop (nat sent) buf)"
proof (induction rule: send_loop.raw_induct [rotated, consumes 1, case_names step])
  case (step loop buf len timer sent h r)
  let ?C = "sent \<le> fst r \<and> fst r \<le> len \<and> net_sent (snd r) = net_sent h @ take (nat (fst r - sent)) (drop (nat sent) buf)"
  have ?C if w: "write_bounded (net_write h)" and buf: "len \<le> int (length buf)" and sent: "0 \<le> sent" "sent \<le> len"
  proof (cases "sent < len \<and> \<not> expired_at h timer (tick h)")
    case False
    then have "r = (sent, if sent < len then next_tick h else h)"
      using step(2) by (auto simp: is_expired_eq split: if_splits)
    then show ?thesis using sent by simp
  next
    case True
    let ?d = "take (nat (len - sent)) (drop (nat sent) buf)"
    have ld: "load_bytes buf (nat sent) (nat (len - sent)) = Some ?d"
      using buf sent by (simp add: load_bytes_def nat_diff_distrib)
    obtain t h1 where tl: "time_left_nz timer (next_tick h) = (t, h1)"
      and h1: "h1 = next_tick (next_tick h) \<or> h1 = next_tick (next_tick (next_tick h))"
      using time_left_nz_eq [of timer "next_tick h"] by (metis (full_types))
    have f: "net_sent h1 = net_sent h" "net_write h1 = net_write h" using h1 by auto
    define rc where "rc = net_write h1 (tick h1) ?d t"
    define h' where "h' = (next_tick h1)\<lparr>net_sent := net_sent h1 @ take (nat rc) ?d\<rparr>"
    have r: "(if rc < 0 then Some (sent, h') else loop buf len timer (sent + rc) h') = Some r"
    proof -
      have "ipstack_write ?d t h1 = (rc, h')" by (simp only: ipstack_write_eq rc_def h'_def)
      then show ?thesis using step(2) True by (simp add: is_expired_eq tl ld)
    qed
    have "rc \<le> int (length ?d)" unfolding rc_def f using w by (simp add: write_bounded_def del: length_take)
    also have "\<dots> \<le> len - sent" using True by (auto simp: min_def)
    finally have le: "sent + rc \<le> len" by simp
    show ?thesis
    proof (cases "rc < 0")
      case True
      then show ?thesis using r sent by (auto simp: h'_def f)
    next
      case False
      then have "loop buf len timer (sent + rc) h' = Some r" using r by simp
      have mn: "min (nat rc) (nat (len - sent)) = nat rc" using le by (intro min_absorb1) simp
      from step(1) [OF \<open>loop buf len timer (sent + rc) h' = Some r\<close>] have IH: "sent + rc \<le> fst r" "fst r \<le> len"
          "net_sent (snd r) = net_sent h @ take (nat rc) (drop (nat sent) buf) @
             take (nat (fst r - (sent + rc))) (drop (nat (sent + rc)) buf)"
        using w buf le sent False mn by (simp_all add: h'_def f)
      have "nat (fst r - (sent + rc)) = nat (fst r - sent) - nat rc" using False IH(1) by linarith
      moreover have "drop (nat (sent + rc)) buf = drop (nat rc) (drop (nat sent) buf)"
        using False sent by (simp add: nat_add_distrib add.commute)
      moreover have "nat rc \<le> nat (fst r - sent)" using IH(1) by simp
      ultimately have "net_sent (snd r) = net_sent h @ take (nat (fst r - sent)) (drop (nat sent) buf)"
        unfolding IH(3) by (metis take_split)
      with IH False show ?thesis by simp
    qed
  qed
  then show ?case by blast
qed

lemma send_packet_bytes:
  assumes "write_bounded (net_write (env c))" "0 \<le> len" "len \<le> int (length buf)"
    and "iotx_mc_send_packet c (Some buf) len timer = Some (rc, c')"
  shows "\<exists>n \<le> nat len. net_sent (env c') = net_sent (env c) @ take n buf \<and>
     (if n = nat len then rc = SUCCESS_RETURN else rc = MQTT_NETWORK_ERROR)"
proof -
  from assms(4) obtain sent h where s: "send_loop buf len timer 0 (env c) = Some (sent, h)"
    and rc: "rc = (if sent = len then SUCCESS_RETURN else MQTT_NETWORK_ERROR)" and c': "c' = c\<lparr>env := h\<rparr>"
    by (auto simp: iotx_mc_send_packet_def bind_eq_Some_conv)
  have "0 \<le> sent" "sent \<le> len" "net_sent h = net_sent (env c) @ take (nat sent) buf"
    using send_loop_bytes [OF s] assms(1-3) by simp_all
  then show ?thesis
    using rc c' by (intro exI [of _ "nat sent"]) (auto simp: nat_eq_iff2)
qed

lemma send_packet_returns:
  assumes "write_bounded (net_write (env c))" "0 \<le> len" "len \<le> int (length buf)" "deadline_seen (env c) timer"
  shows "\<exists>rc c'. iotx_mc_send_packet c (Some buf) len timer = Some (rc, c')"
proof -
  obtain n where "tick (env c) \<le> n + 3" "\<forall>t \<in> {n .. n + 3}. expired_at (env c) timer t"
    using assms(4) unfolding deadline_seen_def by (meson le_add1 order_trans)
  then obtain r where "send_loop buf len timer 0 (env c) = Some r"
    using send_loop_returns [OF assms(1,3) order_refl assms(2)] by blast
  then show ?thesis by (cases r) (simp add: iotx_mc_send_packet_def)
qed

subsection \<open>Publishing\<close>

text \<open>The client after platform calls that neither send nor change the network.\<close>

definition quiet :: "hal \<Rightarrow> hal \<Rightarrow> bool" where
  "quiet h h' \<longleftrightarrow> net_sent h' = net_sent h \<and> net_write h' = net_write h"

lemma quiet_next_tick [simp]: "quiet h (next_tick h') = quiet h h'"
  by (simp add: quiet_def)

lemma quiet_refl [simp]: "quiet h h"
  by (simp add: quiet_def)

lemma countdown_quiet: "hal_run (utils_time_countdown_ms ms) c = (t, c') \<Longrightarrow> \<exists>h. c' = c\<lparr>env := h\<rparr> \<and> quiet (env c) h"
  by (auto simp: hal_run_def utils_time_countdown_ms_def HAL_UptimeMs_def)

lemma alloc_send_cases:
  assumes "alloc_send_buffer c n = (rc, c')"
  obtains (fail) h where "rc = ERROR_MALLOC" "c' = c\<lparr>env := h, buf_send := None\<rparr>" "quiet (env c) h"
  | (ok) h b w where "rc = SUCCESS_RETURN" "c' = c\<lparr>env := h, buf_send := Some b, buf_size_send := w\<rparr>"
      "quiet (env c) h" "length b = unat w"
  using assms
  by (auto simp: alloc_send_buffer_def hal_run_def HAL_Malloc_def Let_def split: if_splits option.splits)

lemma push_cases:
  assumes "iotx_mc_push_pubInfo_to c len i = Some (rc, c')" "buf_send c = Some b" "nat len \<le> length b" "0 \<le> len"
  obtains (fail) h where "rc = FAIL_RETURN" "c' = c\<lparr>env := h\<rparr>" "quiet (env c) h"
  | (ok) h t where "rc = SUCCESS_RETURN" "quiet (env c) h"
      "c' = c\<lparr>env := h, list_pub_wait_ack := list_pub_wait_ack c @
         [\<lparr>pub_start_time = t, node_state = IOTX_MC_NODE_STATE_NORMANL, msg_id = i, pub_len = word_of_int len, pub_buf = take (nat len) b\<rparr>]\<rparr>"
proof (cases "len < 0 \<or> len > uint (buf_size_send c) \<or> length (list_pub_wait_ack c) \<ge> IOTX_MC_REPUB_NUM_MAX")
  case True
  then have "iotx_mc_push_pubInfo_to c len i = Some (FAIL_RETURN, c)" by (auto simp: iotx_mc_push_pubInfo_to_def)
  then show ?thesis using assms(1) by (intro fail [of "env c"]) simp_all
next
  case False
  show ?thesis
  proof (cases "malloc_ok (env c) (tick (env c)) (sizeof_pub_info + nat len)")
    case mal: False
    then have "iotx_mc_push_pubInfo_to c len i = Some (FAIL_RETURN, c\<lparr>env := next_tick (env c)\<rparr>)"
      using False by (simp add: iotx_mc_push_pubInfo_to_def hal_run_def HAL_Malloc_def)
    then show ?thesis using assms(1) by (intro fail [of "next_tick (env c)"]) simp_all
  next
    case True
    have "iotx_mc_push_pubInfo_to c len i = Some (SUCCESS_RETURN, c\<lparr>env := next_tick (next_tick (env c)),
        list_pub_wait_ack := list_pub_wait_ack c @ [\<lparr>pub_start_time = ucast (clock (env c) (tick (env c) + 1)),
          node_state = IOTX_MC_NODE_STATE_NORMANL, msg_id = i, pub_len = word_of_int len, pub_buf = take (nat len) b\<rparr>]\<rparr>)"
      using assms False True
      by (simp add: iotx_mc_push_pubInfo_to_def hal_run_def HAL_Malloc_def iotx_time_start_def HAL_UptimeMs_def load_bytes_def)
    then show ?thesis
      using assms(1) by (intro ok [of "next_tick (next_tick (env c))" "ucast (clock (env c) (tick (env c) + 1))"]) simp_all
  qed
qed

text \<open>Sending a packet that stands at the front of the send buffer.\<close>

lemma send_front:
  assumes "write_bounded (net_write (env c))" "length pkt \<le> length b"
    and "iotx_mc_send_packet c (Some (blit b 0 pkt)) (int (length pkt)) timer = Some (rc, c')"
  obtains h n where "c' = c\<lparr>env := h\<rparr>" "net_sent h = net_sent (env c) @ take n pkt"
    "if n = length pkt then rc = SUCCESS_RETURN else rc = MQTT_NETWORK_ERROR" "n \<le> length pkt"
proof -
  have "take n (blit b 0 pkt) = take n pkt" if "n \<le> length pkt" for n using that by (simp add: blit_def)
  then obtain n where n: "n \<le> length pkt" "net_sent (env c') = net_sent (env c) @ take n pkt"
      "if n = length pkt then rc = SUCCESS_RETURN else rc = MQTT_NETWORK_ERROR"
    using send_packet_bytes [OF assms(1) _ _ assms(3)] assms(2) by auto
  moreover have "c' = c\<lparr>env := env c'\<rparr>" using postD [OF send_packet_frame assms(3)] by simp
  ultimately show ?thesis using that by blast
qed

definition pub_node :: "u16 \<Rightarrow> byte list \<Rightarrow> iotx_time_t \<Rightarrow> iotx_mc_pub_info_t" where
  "pub_node i pkt t = \<lparr>pub_start_time = t, node_state = IOTX_MC_NODE_STATE_NORMANL, msg_id = i,
     pub_len = word_of_int (int (length pkt)), pub_buf = pkt\<rparr>"

text \<open>What a call of \<open>MQTTPublish\<close> that ends with \<open>rc\<close> did, for the packet \<open>pkt\<close>.\<close>

definition publish_did :: "bool \<Rightarrow> u16 \<Rightarrow> byte list \<Rightarrow> iotx_mc_client_t \<Rightarrow> int \<Rightarrow> iotx_mc_client_t \<Rightarrow> bool" where
  "publish_did queue i pkt c rc c' \<longleftrightarrow>
     (if rc = SUCCESS_RETURN
      then net_sent (env c') = net_sent (env c) @ pkt \<and>
           (\<exists>t. list_pub_wait_ack c' = list_pub_wait_ack c @ (if queue then [pub_node i pkt t] else []))
      else (\<exists>n. net_sent (env c') = net_sent (env c) @ take n pkt) \<and> list_pub_wait_ack c' = list_pub_wait_ack c)"

lemma publish_did_nothing:
  "rc \<noteq> SUCCESS_RETURN \<Longrightarrow> net_sent (env c') = net_sent (env c) \<Longrightarrow> list_pub_wait_ack c' = list_pub_wait_ack c \<Longrightarrow>
   publish_did queue i pkt c rc c'"
  by (auto simp: publish_did_def intro: exI [of _ 0])

lemma reset_send_buffer_sel [simp]:
  "env (reset_send_buffer c) = env c" "list_pub_wait_ack (reset_send_buffer c) = list_pub_wait_ack c"
  by (simp_all add: reset_send_buffer_def)

text \<open>The last step of \<open>MQTTPublish\<close>: send, and forget the publication when that fails.\<close>

lemma publish_send_stage:
  assumes wb: "write_bounded (net_write (env c1))" and fit: "length pkt \<le> length b"
    and c1: "buf_send c1 = Some (blit b 0 pkt)" "net_sent (env c1) = net_sent (env c)"
      "list_pub_wait_ack c1 = list_pub_wait_ack c @ (if queue then [pub_node i pkt t] else [])"
    and run: "iotx_mc_send_packet c1 (buf_send c1) (int (length pkt)) timer \<bind> (\<lambda>(rc, c).
        if rc \<noteq> SUCCESS_RETURN
        then Some (MQTT_NETWORK_ERROR,
          reset_send_buffer (if queue then c\<lparr>list_pub_wait_ack := butlast (list_pub_wait_ack c)\<rparr> else c))
        else Some (SUCCESS_RETURN, reset_send_buffer c)) = Some (rc, c')"
  shows "publish_did queue i pkt c rc c'"
proof -
  obtain rc2 c2 where s: "iotx_mc_send_packet c1 (Some (blit b 0 pkt)) (int (length pkt)) timer = Some (rc2, c2)"
    and r: "(rc, c') = (if rc2 \<noteq> SUCCESS_RETURN
        then (MQTT_NETWORK_ERROR, reset_send_buffer (if queue then c2\<lparr>list_pub_wait_ack := butlast (list_pub_wait_ack c2)\<rparr> else c2))
        else (SUCCESS_RETURN, reset_send_buffer c2))"
    using run by (auto simp: c1(1) bind_eq_Some_conv Let_def split: if_splits)
  obtain h n where "c2 = c1\<lparr>env := h\<rparr>" "net_sent h = net_sent (env c) @ take n pkt"
      "if n = length pkt then rc2 = SUCCESS_RETURN else rc2 = MQTT_NETWORK_ERROR"
    using send_front [OF wb fit s] c1(2) by metis
  moreover have "MQTT_NETWORK_ERROR \<noteq> SUCCESS_RETURN" by (simp add: mqtt_error_defs)
  ultimately show ?thesis
    using r c1(3) by (auto simp: publish_did_def split: if_splits)
qed

lemma sint_small: "unat (w :: u32) < 2147483648 \<Longrightarrow> sint w = int (unat w)"
proof -
  assume "unat w < 2147483648"
  then have "int (unat w) < 2147483648" by linarith
  then have "uint w < 2147483648" by simp
  moreover have "- (2 ^ 31) \<le> uint w" by (rule order_trans [OF _ unsigned_greater_eq]) simp
  ultimately have "sint w = uint w" by (simp add: sint_uint signed_take_bit_int_eq_self)
  then show ?thesis by simp
qed

lemma publish_effect:
  assumes call: "MQTTPublish c name m payload = Some (rc, c')"
    and wb: "write_bounded (net_write (env c))"
    and pl: "unat (ti_payload_len m) = length payload" and small: "length name + length payload < 268435000"
  shows "publish_did (ti_qos m > 0) (ti_packet_id m)
     (fixed_packet (publish_header 0 (uint (ti_qos m)) (ti_retain m))
        (publish_body (uint (ti_qos m)) name (ti_packet_id m) payload)) c rc c'"
proof -
  let ?h = "publish_header 0 (uint (ti_qos m)) (ti_retain m)"
  let ?body = "publish_body (uint (ti_qos m)) name (ti_packet_id m) payload"
  let ?pkt = "fixed_packet ?h ?body" and ?q = "ti_qos m > 0"
  let ?topic = "MQTTString_initializer\<lparr>cstring := Some name\<rparr>"
  have errs: "FAIL_RETURN \<noteq> SUCCESS_RETURN" "MQTT_PUBLISH_PACKET_ERROR \<noteq> SUCCESS_RETURN"
    "MQTT_PUSH_TO_LIST_ERROR \<noteq> SUCCESS_RETURN" "ERROR_MALLOC < 0" by (simp_all add: mqtt_error_defs)
  have topic: "mqttstr_ok ?topic" "mqttstr ?topic = name"
    by (simp_all add: mqttstr_ok_def mqttstr_def MQTTString_initializer_def)
  have lb: "length ?body < 268435456" using small by (simp add: publish_body_def)
  have sp: "sint (ti_payload_len m) = int (length payload)"
    using sint_small [of "ti_payload_len m"] pl small by simp
  obtain timer c1 where c1: "hal_run (utils_time_countdown_ms (request_timeout_ms c)) c = (timer, c1)" by fastforce
  obtain h1 where h1: "c1 = c\<lparr>env := h1\<rparr>" "quiet (env c) h1" using countdown_quiet [OF c1] by blast
  obtain rc2 c2 where c2: "alloc_send_buffer c1 (int (length name) + uint (ti_payload_len m)) = (rc2, c2)" by fastforce
  show ?thesis
  proof (cases rule: alloc_send_cases [OF c2])
    case (1 h)
    then have "rc = FAIL_RETURN" "c' = c2" using call c1 c2 errs by (simp_all add: MQTTPublish_def)
    with 1 h1 errs show ?thesis by (intro publish_did_nothing) (simp_all add: quiet_def)
  next
    case (2 h b w)
    have q: "quiet (env c) h" using 2 h1 by (simp add: quiet_def)
    have bl: "buf_send c2 = Some b" "uint (buf_size_send c2) = int (length b)" using 2 by simp_all
    have ser: "serialize_into c2 (\<lambda>buf size. MQTTSerialize_publish buf size 0 (uint (ti_qos m)) (ti_retain m)
        (ti_packet_id m) ?topic payload (sint (ti_payload_len m))) =
      (serialize_outcome b (int (length b)) ?h ?body \<bind> (\<lambda>(len, buf'). Some (len, c2\<lparr>buf_send := Some buf'\<rparr>)))"
      using publish_serializes [OF topic(1) order_refl, of "uint (ti_qos m)" "ti_packet_id m" payload b 0 "ti_retain m"] lb
      by (simp add: serialize_into_def bl sp topic(2))
    note run = call [unfolded MQTTPublish_def Let_def c1 c2 prod.case 2(1) ser serialize_outcome_def]
    show ?thesis
    proof (cases "MQTTPacket_len (int (length ?body)) > int (length b)")
      case True
      then have "rc = MQTT_PUBLISH_PACKET_ERROR" "c' = reset_send_buffer (c2\<lparr>buf_send := Some b\<rparr>)"
        using run by (simp_all add: MQTTPACKET_BUFFER_TOO_SHORT_def)
      with 2 h1 errs q show ?thesis by (intro publish_did_nothing) (simp_all add: quiet_def)
    next
      case False
      define c3 where "c3 = c2\<lparr>buf_send := Some (blit b 0 ?pkt)\<rparr>"
      have fit: "length ?pkt \<le> length b" using MQTTPacket_len_covers [OF lb] False by simp
      have c3: "buf_send c3 = Some (blit b 0 ?pkt)" "quiet (env c) (env c3)" "list_pub_wait_ack c3 = list_pub_wait_ack c"
        "length (blit b 0 ?pkt) = length b"
        using 2 h1 q fit by (simp_all add: c3_def)
      let ?push = "if ?q then iotx_mc_push_pubInfo_to c3 (int (length ?pkt)) (ti_packet_id m) else Some (SUCCESS_RETURN, c3)"
      have run3: "?push \<bind> (\<lambda>(rc, c). if rc \<noteq> SUCCESS_RETURN then Some (MQTT_PUSH_TO_LIST_ERROR, reset_send_buffer c)
          else iotx_mc_send_packet c (buf_send c) (int (length ?pkt)) timer \<bind> (\<lambda>(rc, c). if rc \<noteq> SUCCESS_RETURN
            then Some (MQTT_NETWORK_ERROR,
              reset_send_buffer (if ?q then c\<lparr>list_pub_wait_ack := butlast (list_pub_wait_ack c)\<rparr> else c))
            else Some (SUCCESS_RETURN, reset_send_buffer c))) = Some (rc, c')"
      proof -
        have "?pkt \<noteq> []" by (simp add: fixed_packet_def)
        then show ?thesis
          unfolding c3_def using run False by (simp add: Let_def del: length_fixed_packet split del: if_split)
      qed
      have wb3: "write_bounded (net_write (env c4))" if "quiet (env c) (env c4)" for c4
        using that wb by (simp add: quiet_def)
      show ?thesis
      proof (cases ?q)
        case False
        then show ?thesis
          using run3 c3 by (intro publish_send_stage [OF wb3 fit c3(1)]) (simp_all add: quiet_def Let_def del: length_fixed_packet)
      next
        case True
        then obtain rc4 c4 where p: "iotx_mc_push_pubInfo_to c3 (int (length ?pkt)) (ti_packet_id m) = Some (rc4, c4)"
          using run3 by (auto simp: bind_eq_Some_conv simp del: length_fixed_packet)
        have fit3: "nat (int (length ?pkt)) \<le> length (blit b 0 ?pkt)" using c3(4) fit by simp
        show ?thesis
        proof (cases rule: push_cases [OF p c3(1) fit3 of_nat_0_le_iff])
          case (1 h)
          then have "rc = MQTT_PUSH_TO_LIST_ERROR" "c' = reset_send_buffer c4"
            using run3 p True errs by (simp_all del: length_fixed_packet)
          with 1 c3 errs show ?thesis by (intro publish_did_nothing) (simp_all add: quiet_def)
        next
          case (2 h t)
          have front: "take (length ?pkt) (blit b 0 ?pkt) = ?pkt" using fit by (simp add: blit_def)
          have c4: "buf_send c4 = Some (blit b 0 ?pkt)" "quiet (env c) (env c4)"
            "list_pub_wait_ack c4 = list_pub_wait_ack c @ [pub_node (ti_packet_id m) ?pkt t]"
            using 2 c3 front by (simp_all add: quiet_def pub_node_def del: length_fixed_packet)
          with True 2(1) show ?thesis
            using run3 p by (intro publish_send_stage [OF wb3 fit c4(1), where t = t])
              (simp_all add: quiet_def Let_def del: length_fixed_packet)
        qed
      qed
    qed
  qed
qed

end
