(* ===== verification/MQTT_Effects.thy ===== *)
theory MQTT_Effects
  imports MQTT_Behaviour
begin

text \<open>
  What the sending operations of the client other than publishing put on the wire: exactly the
  packet that the protocol prescribes, or a prefix of it when the network fails. The three
  stages of every such operation, allocation of the send buffer, serialization and sending, are
  covered by one rule each.
\<close>

lemma error_codes [simp]:
  "FAIL_RETURN \<noteq> SUCCESS_RETURN" "MQTT_NETWORK_ERROR \<noteq> SUCCESS_RETURN" "MQTT_PUBLISH_ACK_PACKET_ERROR \<noteq> SUCCESS_RETURN"
  "MQTT_PING_PACKET_ERROR \<noteq> SUCCESS_RETURN" "MQTT_CONNECT_PACKET_ERROR \<noteq> SUCCESS_RETURN"
  "MQTT_PUBLISH_PACKET_ERROR \<noteq> SUCCESS_RETURN" "MQTT_PUBLISH_QOS_ERROR \<noteq> SUCCESS_RETURN"
  by (simp_all add: mqtt_error_defs)

subsection \<open>The stages of sending\<close>

text \<open>The network was not touched yet, and the send buffer is allocated.\<close>

definition ready :: "iotx_mc_client_t \<Rightarrow> iotx_mc_client_t \<Rightarrow> bool" where
  "ready c0 c \<longleftrightarrow> quiet (env c0) (env c) \<and> (\<exists>b. buf_send c = Some b \<and> length b = unat (buf_size_send c))"

text \<open>The packet \<open>pkt\<close> stands at the front of the send buffer.\<close>

definition loaded :: "iotx_mc_client_t \<Rightarrow> byte list \<Rightarrow> iotx_mc_client_t \<Rightarrow> bool" where
  "loaded c0 pkt c \<longleftrightarrow> quiet (env c0) (env c) \<and> (\<exists>b. buf_send c = Some (blit b 0 pkt) \<and> length pkt \<le> length b)"

text \<open>An operation with result \<open>rc\<close> sent \<open>pkt\<close>, or a part of it when it failed.\<close>

definition sent_packet :: "iotx_mc_client_t \<Rightarrow> byte list \<Rightarrow> int \<Rightarrow> iotx_mc_client_t \<Rightarrow> bool" where
  "sent_packet c0 pkt rc c \<longleftrightarrow>
     (if rc = SUCCESS_RETURN then net_sent (env c) = net_sent (env c0) @ pkt
      else \<exists>n \<le> length pkt. net_sent (env c) = net_sent (env c0) @ take n pkt)"

lemma sent_nothing: "quiet (env c0) (env c) \<Longrightarrow> rc \<noteq> SUCCESS_RETURN \<Longrightarrow> sent_packet c0 pkt rc c"
  by (auto simp: sent_packet_def quiet_def intro!: exI [of _ 0])

lemma quiet_trans: "quiet a b \<Longrightarrow> quiet b c \<Longrightarrow> quiet a c"
  by (simp add: quiet_def)

lemma post_countdown:
  assumes "quiet (env c0) (env c)" "\<And>x h. quiet (env c0) h \<Longrightarrow> post (f x (c\<lparr>env := h\<rparr>)) Q"
  shows "post (case hal_run (utils_time_countdown_ms ms) c of (x, c') \<Rightarrow> f x c') Q"
  using assms by (simp add: hal_run_def utils_time_countdown_ms_def HAL_UptimeMs_def)

lemma post_malloc:
  assumes "quiet (env c0) (env c)" "\<And>x h. quiet (env c0) h \<Longrightarrow> post (f x (c\<lparr>env := h\<rparr>)) Q"
  shows "post (case hal_run (HAL_Malloc n) c of (x, c') \<Rightarrow> f x c') Q"
  using assms by (simp add: hal_run_def HAL_Malloc_def)

lemma post_alloc_send:
  assumes "quiet (env c0) (env c)"
    and "\<And>rc c'. rc < 0 \<Longrightarrow> rc \<noteq> SUCCESS_RETURN \<Longrightarrow> quiet (env c0) (env c') \<Longrightarrow> post (f rc c') Q"
    and "\<And>c'. ready c0 c' \<Longrightarrow> connect_data c' = connect_data c \<Longrightarrow> post (f SUCCESS_RETURN c') Q"
  shows "post (case alloc_send_buffer c n of (rc, c') \<Rightarrow> f rc c') Q"
proof -
  obtain rc c' where a: "alloc_send_buffer c n = (rc, c')" by fastforce
  have "post (f rc c') Q"
  proof (cases rule: alloc_send_cases [OF a])
    case (1 h)
    then show ?thesis using assms(1) quiet_trans by (intro assms(2)) (auto simp: mqtt_error_defs)
  next
    case (2 h b w)
    have "ready c0 c'" unfolding ready_def using 2 assms(1) quiet_trans by auto
    then show ?thesis using 2(1,2) assms(3) by simp
  qed
  then show ?thesis by (simp add: a)
qed

text \<open>What the client relies on from a serializer, proved for each of them in \<open>MQTT_Serialize\<close>.\<close>

definition serializer :: "(byte list \<Rightarrow> int \<Rightarrow> (int \<times> byte list) option) \<Rightarrow> byte \<Rightarrow> byte list \<Rightarrow> bool" where
  "serializer f h body \<longleftrightarrow> length body < 268435456 \<and>
     (\<forall>buf. f buf (int (length buf)) = serialize_outcome buf (int (length buf)) h body)"

lemma post_serialize:
  assumes c: "ready c0 c" and ser: "serializer f h body"
    and "\<And>len c'. len \<le> 0 \<Longrightarrow> quiet (env c0) (env c') \<Longrightarrow> Q (len, c')"
    and "\<And>c'. loaded c0 (fixed_packet h body) c' \<Longrightarrow> Q (int (length (fixed_packet h body)), c')"
  shows "post (serialize_into c f) Q"
proof -
  have f: "f buf (int (length buf)) = serialize_outcome buf (int (length buf)) h body" and small: "length body < 268435456" for buf
    using ser by (simp_all add: serializer_def)
  obtain b where b: "buf_send c = Some b" "length b = unat (buf_size_send c)" and q: "quiet (env c0) (env c)"
    using c by (auto simp: ready_def)
  have u: "uint (buf_size_send c) = int (length b)" unfolding b(2) by (rule uint_nat)
  show ?thesis
  proof (cases "MQTTPacket_len (int (length body)) > int (length b)")
    case True
    then have "serialize_into c f = Some (MQTTPACKET_BUFFER_TOO_SHORT, c\<lparr>buf_send := Some b\<rparr>)"
      unfolding serialize_into_def b(1) u f by (simp add: f serialize_outcome_def)
    then show ?thesis using assms(3) [of MQTTPACKET_BUFFER_TOO_SHORT] q by (simp add: MQTTPACKET_BUFFER_TOO_SHORT_def)
  next
    case False
    then have s: "serialize_into c f = Some (int (length (fixed_packet h body)), c\<lparr>buf_send := Some (blit b 0 (fixed_packet h body))\<rparr>)"
      unfolding serialize_into_def b(1) u by (simp add: f serialize_outcome_def del: length_fixed_packet)
    have "length (fixed_packet h body) \<le> length b" using MQTTPacket_len_covers [OF small] False by simp
    then have "loaded c0 (fixed_packet h body) (c\<lparr>buf_send := Some (blit b 0 (fixed_packet h body))\<rparr>)"
      using q by (auto simp: loaded_def)
    then show ?thesis using s assms(4) by (simp del: length_fixed_packet)
  qed
qed

lemma post_send:
  assumes c: "loaded c0 pkt c" and wb: "write_bounded (net_write (env c0))"
    and "\<And>rc h. (rc = SUCCESS_RETURN \<and> net_sent h = net_sent (env c0) @ pkt) \<or>
        (rc = MQTT_NETWORK_ERROR \<and> (\<exists>n \<le> length pkt. net_sent h = net_sent (env c0) @ take n pkt)) \<Longrightarrow> Q (rc, c\<lparr>env := h\<rparr>)"
  shows "post (iotx_mc_send_packet c (buf_send c) (int (length pkt)) timer) Q"
proof (rule postI)
  fix r assume r: "iotx_mc_send_packet c (buf_send c) (int (length pkt)) timer = Some r"
  obtain rc c' where rc: "r = (rc, c')" by fastforce
  obtain b where b: "buf_send c = Some (blit b 0 pkt)" "length pkt \<le> length b" and q: "quiet (env c0) (env c)"
    using c by (auto simp: loaded_def)
  have wb': "write_bounded (net_write (env c))" using wb q by (simp add: quiet_def)
  from send_front [OF wb' b(2)] r rc b(1) obtain h n where "c' = c\<lparr>env := h\<rparr>" "net_sent h = net_sent (env c) @ take n pkt"
    "if n = length pkt then rc = SUCCESS_RETURN else rc = MQTT_NETWORK_ERROR" "n \<le> length pkt" by metis
  then show "Q r" using q rc assms(3) [of rc h] by (auto simp: quiet_def split: if_splits)
qed

lemma loaded_env: "loaded c0 pkt c \<Longrightarrow> quiet (env c0) h \<Longrightarrow> loaded c0 pkt (c\<lparr>env := h\<rparr>)"
  by (simp add: loaded_def)

lemma loaded_quiet: "loaded c0 pkt c \<Longrightarrow> quiet (env c0) (env c)"
  by (simp add: loaded_def)

lemma reset_send_buffer_env [simp]: "sent_packet c0 pkt rc (reset_send_buffer c) = sent_packet c0 pkt rc c"
  by (simp add: sent_packet_def)

subsection \<open>The operations\<close>

text \<open>The result of \<open>iotx_mc_send_packet\<close>.\<close>

definition send_outcome :: "iotx_mc_client_t \<Rightarrow> byte list \<Rightarrow> int \<Rightarrow> iotx_mc_client_t \<Rightarrow> bool" where
  "send_outcome c0 pkt rc c \<longleftrightarrow> rc = SUCCESS_RETURN \<and> net_sent (env c) = net_sent (env c0) @ pkt \<or>
     rc = MQTT_NETWORK_ERROR \<and> (\<exists>n \<le> length pkt. net_sent (env c) = net_sent (env c0) @ take n pkt)"

lemma send_outcome_sent: "send_outcome c0 pkt rc c \<Longrightarrow> sent_packet c0 pkt rc c"
  by (auto simp: send_outcome_def sent_packet_def mqtt_error_defs)

lemma send_outcome_cases:
  "send_outcome c0 pkt rc c \<Longrightarrow> sent_packet c0 pkt (if rc \<noteq> SUCCESS_RETURN then MQTT_NETWORK_ERROR else SUCCESS_RETURN) c"
  by (auto simp: send_outcome_def sent_packet_def mqtt_error_defs)

text \<open>The shape shared by acknowledging, pinging, subscribing and unsubscribing.\<close>

lemma alloc_serialize_send:
  assumes q: "quiet (env c0) (env c)" and wb: "write_bounded (net_write (env c0))"
    and ser: "serializer f h body"
    and err: "\<And>c'. quiet (env c0) (env c') \<Longrightarrow> Q (FAIL_RETURN, c')"
      "\<And>c'. quiet (env c0) (env c') \<Longrightarrow> Q (code, reset_send_buffer c')"
    and ok: "\<And>rc c'. send_outcome c0 (fixed_packet h body) rc c' \<Longrightarrow> post (k rc c') Q"
  shows "post (case alloc_send_buffer c n of (rc, c) \<Rightarrow>
     if rc < 0 then Some (FAIL_RETURN, c)
     else serialize_into c f \<bind> (\<lambda>(len, c).
       if len \<le> 0 then Some (code, reset_send_buffer c)
       else iotx_mc_send_packet c (buf_send c) len timer \<bind> (\<lambda>(rc, c). k rc c))) Q"
proof (rule post_alloc_send [OF q], goal_cases)
  case (1 rc c')
  then show ?case by (simp add: err)
next
  case (2 c')
  have pos: "\<not> int (length (fixed_packet h body)) \<le> 0" by simp
  have send: "post (iotx_mc_send_packet c2 (buf_send c2) (int (length (fixed_packet h body))) timer \<bind> (\<lambda>(rc, c). k rc c)) Q"
    if "loaded c0 (fixed_packet h body) c2" for c2
    by (rule post_bind, rule post_send [OF that wb]) (auto intro!: ok simp: send_outcome_def)
  have "post (serialize_into c' f) (\<lambda>x. post (case x of (len, c) \<Rightarrow>
      if len \<le> 0 then Some (code, reset_send_buffer c)
      else iotx_mc_send_packet c (buf_send c) len timer \<bind> (\<lambda>(rc, c). k rc c)) Q)"
    by (rule post_serialize [OF 2(1) ser]) (simp_all only: prod.case if_True if_False post_Some err pos send)
  from post_bind [OF this] show ?case by simp
qed

lemma Puback_sends:
  assumes wb: "write_bounded (net_write (env c))"
  shows "post (MQTTPuback c i PUBACK) (\<lambda>(rc, c'). sent_packet c (fixed_packet (ack_header (cpt PUBACK) 0) (int_bytes (unat i))) rc c')"
proof -
  have ser: "serializer (\<lambda>buf size. MQTTSerialize_ack buf size (cpt PUBACK) 0 i) (ack_header (cpt PUBACK) 0) (int_bytes (unat i))"
    unfolding serializer_def by (intro conjI allI ack_serializes) simp_all
  show ?thesis
    unfolding MQTTPuback_def Let_def if_P [OF refl]
    by (rule post_countdown [where ?c0.0 = c], simp, rule alloc_serialize_send [OF _ wb ser])
       (simp_all add: sent_nothing send_outcome_cases split del: if_split)
qed

lemma Keepalive_sends:
  assumes wb: "write_bounded (net_write (env c))"
  shows "post (MQTTKeepalive c) (\<lambda>(rc, c'). sent_packet c (fixed_packet (MQTT_HEADER_SET_TYPE 0 (cpt PINGREQ)) []) rc c')"
proof -
  have ser: "serializer MQTTSerialize_pingreq (MQTT_HEADER_SET_TYPE 0 (cpt PINGREQ)) []"
    unfolding serializer_def MQTTSerialize_pingreq_def by (intro conjI allI zero_serializes) simp_all
  show ?thesis
    unfolding MQTTKeepalive_def Let_def
    by (rule post_countdown [where ?c0.0 = c], simp, rule alloc_serialize_send [OF _ wb ser])
       (simp_all add: sent_nothing send_outcome_cases split del: if_split)
qed

text \<open>The topic string of a subscription.\<close>

abbreviation topic_string :: "cstr \<Rightarrow> MQTTString" where
  "topic_string t \<equiv> MQTTString_initializer\<lparr>cstring := Some t\<rparr>"

lemma topic_string_ok: "mqttstr_ok (topic_string t)" "mqttstr (topic_string t) = t"
  by (simp_all add: mqttstr_ok_def mqttstr_def MQTTString_initializer_def)

lemma Subscribe_sends:
  assumes wb: "write_bounded (net_write (env c))" and small: "length flt < 65536"
  shows "post (MQTTSubscribe c flt q i fp x) (\<lambda>(rc, c').
     sent_packet c (fixed_packet (sub_header SUBSCRIBE 0) (subscribe_body (ucast i) [(topic_string flt, q)])) rc c' \<and>
     (rc = SUCCESS_RETURN \<longrightarrow> \<lparr>handle = \<lparr>h_fp = Some fp, pcontext = x\<rparr>, topic_filter = flt\<rparr> \<in> set (list_sub_handle c')))"
proof -
  let ?h = "\<lparr>handle = \<lparr>h_fp = Some fp, pcontext = x\<rparr>, topic_filter = flt\<rparr>"
  let ?body = "subscribe_body (ucast i) [(topic_string flt, q)]"
  have lb: "length ?body < 268435456" using small by (simp add: subscribe_body_def topic_string_ok)
  then have ser: "serializer (\<lambda>buf size. MQTTSerialize_subscribe buf size 0 (ucast i) 1 [topic_string flt] [q]) (sub_header SUBSCRIBE 0) ?body"
    using subscribe_serializes [of "[topic_string flt]" "[q]" "int (length buf)" buf "ucast i" 0 for buf]
    by (simp add: serializer_def topic_string_ok)
  have add: "env (add_sub_handle ?h c') = env c'" "?h \<in> set (list_sub_handle (add_sub_handle ?h c'))" for c'
    by (auto simp: add_sub_handle_def check_identical_iff list_ex_iff)
  have fail: "sent_packet c pkt FAIL_RETURN c'" if "quiet (env c) (env c')" for c' pkt
    using that by (intro sent_nothing) (simp_all add: mqtt_error_defs)
  have fin: "post (if rc \<noteq> SUCCESS_RETURN then Some (MQTT_NETWORK_ERROR, reset_send_buffer c')
      else Some (SUCCESS_RETURN, add_sub_handle ?h (reset_send_buffer c'))) (\<lambda>(rc, c').
     sent_packet c (fixed_packet (sub_header SUBSCRIBE 0) ?body) rc c' \<and> (rc = SUCCESS_RETURN \<longrightarrow> ?h \<in> set (list_sub_handle c')))"
    if "send_outcome c (fixed_packet (sub_header SUBSCRIBE 0) ?body) rc c'" for rc c'
    using that add(1) by (auto simp: add(2) send_outcome_def sent_packet_def mqtt_error_defs)
  show ?thesis
    unfolding MQTTSubscribe_def Let_def
    by (intro post_countdown [where ?c0.0 = c] post_malloc [where ?c0.0 = c] post_if alloc_serialize_send [OF _ wb ser] fin)
       (auto simp: fail return_code_defs intro: sent_nothing simp: mqtt_error_defs)
qed

lemma Unsubscribe_sends:
  assumes wb: "write_bounded (net_write (env c))" and small: "length flt < 65536"
  shows "post (MQTTUnsubscribe c flt i) (\<lambda>(rc, c').
     sent_packet c (fixed_packet (sub_header UNSUBSCRIBE 0) (unsubscribe_body (ucast i) [topic_string flt])) rc c')"
proof -
  let ?body = "unsubscribe_body (ucast i) [topic_string flt]"
  have lb: "length ?body < 268435456" using small by (simp add: unsubscribe_body_def topic_string_ok)
  then have ser: "serializer (\<lambda>buf size. MQTTSerialize_unsubscribe buf size 0 (ucast i) 1 [topic_string flt]) (sub_header UNSUBSCRIBE 0) ?body"
    using unsubscribe_serializes [of "[topic_string flt]" "int (length buf)" buf "ucast i" 0 for buf]
    by (simp add: serializer_def topic_string_ok)
  have fail: "sent_packet c pkt FAIL_RETURN c'" if "quiet (env c) (env c')" for c' pkt
    using that by (intro sent_nothing) (simp_all add: mqtt_error_defs)
  have fin: "post (if rc \<noteq> SUCCESS_RETURN then Some (MQTT_NETWORK_ERROR, reset_send_buffer c')
      else Some (SUCCESS_RETURN, reset_send_buffer (c'\<lparr>list_sub_handle := f c'\<rparr>))) (\<lambda>(rc, c').
     sent_packet c (fixed_packet (sub_header UNSUBSCRIBE 0) ?body) rc c')"
    if "send_outcome c (fixed_packet (sub_header UNSUBSCRIBE 0) ?body) rc c'" for rc c' f
    using that by (auto simp: send_outcome_def sent_packet_def mqtt_error_defs)
  show ?thesis
    unfolding MQTTUnsubscribe_def Let_def
    by (intro post_countdown [where ?c0.0 = c] post_malloc [where ?c0.0 = c] post_if alloc_serialize_send [OF _ wb ser] fin)
       (auto simp: fail intro: sent_nothing simp: mqtt_error_defs)
qed


lemma Connect_sends:
  assumes wb: "write_bounded (net_write (env c))" and cd: "connectData_ok (connect_data c)"
    and small: "length (connect_body (connect_data c)) < 268435456"
  shows "post (MQTTConnect c) (\<lambda>(rc, c').
     sent_packet c (fixed_packet (MQTT_HEADER_SET_TYPE 0 (cpt CONNECT)) (connect_body (connect_data c))) rc c')"
proof -
  let ?pkt = "fixed_packet (MQTT_HEADER_SET_TYPE 0 (cpt CONNECT)) (connect_body (connect_data c))"
  have ser: "serializer (\<lambda>buf size. MQTTSerialize_connect buf size (connect_data c)) (MQTT_HEADER_SET_TYPE 0 (cpt CONNECT)) (connect_body (connect_data c))"
    using small connect_serializes [OF cd small] by (simp add: serializer_def)
  have pos: "\<not> int (length ?pkt) \<le> 0" by simp
  have send: "post (iotx_mc_send_packet c2 (buf_send c2) (int (length ?pkt)) timer \<bind> (\<lambda>(rc, c).
      Some (if rc \<noteq> SUCCESS_RETURN then MQTT_NETWORK_ERROR else SUCCESS_RETURN, reset_send_buffer c)))
      (\<lambda>(rc, c'). sent_packet c ?pkt rc c')" if "loaded c ?pkt c2" for c2 timer
    by (rule post_bind, rule post_send [OF that wb])
       (simp add: send_outcome_cases send_outcome_def split del: if_split)
  have timed: "post (case hal_run (utils_time_countdown_ms ms) c2 of (connectTimer, c) \<Rightarrow>
      iotx_mc_send_packet c (buf_send c) (int (length ?pkt)) connectTimer \<bind> (\<lambda>(rc, c).
      Some (if rc \<noteq> SUCCESS_RETURN then MQTT_NETWORK_ERROR else SUCCESS_RETURN, reset_send_buffer c)))
      (\<lambda>(rc, c'). sent_packet c ?pkt rc c')" if "loaded c ?pkt c2" for c2 ms
    by (rule post_countdown [OF loaded_quiet [OF that]], rule send, rule loaded_env [OF that])
  show ?thesis
    unfolding MQTTConnect_def Let_def
  proof (rule post_alloc_send [where ?c0.0 = c], goal_cases)
    case (3 c1)
    have "post (serialize_into c1 (\<lambda>buf size. MQTTSerialize_connect buf size (connect_data c))) (\<lambda>x. post (case x of (len, c) \<Rightarrow>
        if len \<le> 0 then Some (MQTT_CONNECT_PACKET_ERROR, reset_send_buffer c)
        else case hal_run (utils_time_countdown_ms (request_timeout_ms c)) c of (connectTimer, c) \<Rightarrow>
          iotx_mc_send_packet c (buf_send c) len connectTimer \<bind> (\<lambda>(rc, c).
          Some (if rc \<noteq> SUCCESS_RETURN then MQTT_NETWORK_ERROR else SUCCESS_RETURN, reset_send_buffer c)))
        (\<lambda>(rc, c'). sent_packet c ?pkt rc c'))"
      by (rule post_serialize [OF 3(1) ser])
         (simp_all only: prod.case if_True if_False post_Some pos timed sent_nothing error_codes not_False_eq_True reset_send_buffer_env)
    from post_bind [OF this] show ?case by simp
  qed (simp_all add: sent_nothing)
qed

end
