(* ===== verification/MQTT_Read.thy ===== *)
theory MQTT_Read
  imports MQTT_Invariant
begin

text \<open>
  Reading one packet: whatever the network delivers, \<open>iotx_mc_read_packet\<close> stays inside the
  read buffer, returns, and leaves a complete packet in the buffer when it reports one.
\<close>

subsection \<open>Reading a packet stays inside the read buffer\<close>

lemma returns_hal_run:
  "(\<And>x h. returns (f x (c\<lparr>env := h\<rparr>)) Q) \<Longrightarrow> returns (case hal_run g c of (x, c') \<Rightarrow> f x c') Q"
  by (cases "g (env c)") (simp add: hal_run_def)

lemma ipstack_read_length: "ipstack_read n t h = (rc, d, h') \<Longrightarrow> length d = min n (nat rc)"
  by (auto simp: ipstack_read_def split: prod.splits)

lemma returns_read_into:
  assumes "buf_read c = Some b" "0 \<le> n" "off + nat n \<le> length b"
    and "\<And>rc d h. length d = min (nat n) (nat rc) \<Longrightarrow> Q (rc, c\<lparr>env := h, buf_read := Some (blit b off d)\<rparr>)"
  shows "returns (read_into c off n t) Q"
proof -
  obtain rc d h where r: "ipstack_read (nat n) t (env c) = (rc, d, h)" by (cases "ipstack_read (nat n) t (env c)") auto
  then show ?thesis
    using assms(1-3) assms(4) [OF ipstack_read_length [OF r]] by (simp add: read_into_def)
qed

lemma returns_alloc_recv:
  assumes "\<And>h. returns (f ERROR_MALLOC (c\<lparr>env := h\<rparr>)) Q"
    and "\<And>h b w. w = min (word_of_int (8 + n)) (buf_size_read_max c) \<Longrightarrow> length b = unat w \<Longrightarrow>
       (\<And>b0. buf_read c = Some b0 \<Longrightarrow> length b0 = unat (buf_size_read c) \<Longrightarrow>
          take (min (length b0) (unat w)) b = take (unat w) b0) \<Longrightarrow>
       returns (f SUCCESS_RETURN (c\<lparr>env := h, buf_read := Some b, buf_size_read := w\<rparr>)) Q"
  shows "returns (case alloc_recv_buffer c n of (rc, c') \<Rightarrow> f rc c') Q"
proof -
  let ?w = "min (word_of_int (8 + n)) (buf_size_read_max c) :: u32"
  let ?h = "next_tick (env c)"
  let ?b = "case buf_read c of Some b \<Rightarrow> blit (replicate (unat ?w) 0) 0 (take (unat (min (buf_size_read c) ?w)) b)
    | None \<Rightarrow> replicate (unat ?w) 0"
  have w: "(if word_of_int (MQTT_DYNBUF_RECV_MARGIN + n) > buf_size_read_max c then buf_size_read_max c
      else word_of_int (MQTT_DYNBUF_RECV_MARGIN + n)) = ?w"
    by (auto simp: MQTT_DYNBUF_RECV_MARGIN_def min_def not_le)
  have umin: "unat (min a b) = min (unat a) (unat b)" for a b :: u32 by (simp add: min_def word_le_nat_alt)
  have eq: "alloc_recv_buffer c n = (if malloc_ok (env c) (tick (env c)) (unat ?w)
      then (SUCCESS_RETURN, c\<lparr>env := ?h, buf_read := Some ?b, buf_size_read := ?w\<rparr>) else (ERROR_MALLOC, c\<lparr>env := ?h\<rparr>))"
    unfolding alloc_recv_buffer_def Let_def w by (simp add: hal_run_def HAL_Malloc_def split: option.split)
  have len: "length (blit (replicate (unat ?w) 0) 0 (take k b0)) = unat ?w" if "k \<le> unat ?w" for k b0
    using that by (intro trans [OF length_blit]) simp_all
  have "unat (min (buf_size_read c) ?w) \<le> unat ?w" unfolding umin by (rule min.cobounded2)
  from len [OF this] have "length ?b = unat ?w" by (cases "buf_read c") simp_all
  moreover have "take (min (length b0) (unat ?w)) ?b = take (unat ?w) b0"
    if "buf_read c = Some b0" "length b0 = unat (buf_size_read c)" for b0
  proof -
    have "take (min (length b0) k) b0 = take k b0" for k by (simp add: min_def)
    from this [of "unat ?w"] show ?thesis using that by (simp add: umin blit_def)
  qed
  ultimately have "returns (f SUCCESS_RETURN (c\<lparr>env := ?h, buf_read := Some ?b, buf_size_read := ?w\<rparr>)) Q"
    by (rule assms(2) [OF refl])
  with assms(1) [of ?h] show ?thesis unfolding eq by simp
qed

lemma decode_packet_loop_range:
  assumes "0 \<le> v" "v < 128 ^ len" "m = 128 ^ len"
  shows "\<exists>rc v' h. decode_packet_loop c len m v t = (rc, v', c\<lparr>env := h\<rparr>) \<and> (0 \<le> rc \<longrightarrow> 0 \<le> v' \<and> v' < 268435456)"
  using assms
proof (induction "4 - len" arbitrary: c len m v rule: less_induct)
  case less
  obtain rc data h where r: "ipstack_read 1 (if t = 0 then 1 else t) (env c) = (rc, data, h)"
    by (cases "ipstack_read 1 (if t = 0 then 1 else t) (env c)") auto
  show ?case
  proof (cases "len < 4")
    case True
    define v' where "v' = v + uint (hd data AND 127) * m"
    have "0 \<le> uint (hd data AND 127)" "uint (hd data AND 127) \<le> 127" by (simp_all add: uint_and_127)
    then have "0 \<le> uint (hd data AND 127) * m" "uint (hd data AND 127) * m \<le> 127 * 128 ^ len"
      unfolding less.prems(3) by (simp_all add: mult_right_mono)
    moreover have "(128 :: int) ^ (len + 1) = 128 ^ len + 127 * 128 ^ len" by simp
    ultimately have v': "0 \<le> v'" "v' < 128 ^ (len + 1)" using less.prems(1,2) unfolding v'_def by linarith+
    have "(128 :: int) ^ (len + 1) \<le> 128 ^ 4" using True by (intro power_increasing) simp_all
    then have small: "v' < 268435456" using v'(2) by simp
    have IH: "\<exists>rc v'' h'. decode_packet_loop (c\<lparr>env := h\<rparr>) (len + 1) (m * 128) v' t = (rc, v'', c\<lparr>env := h'\<rparr>) \<and>
        (0 \<le> rc \<longrightarrow> 0 \<le> v'' \<and> v'' < 268435456)"
      using less.hyps [of "len + 1" v' "m * 128" "c\<lparr>env := h\<rparr>"] True v' less.prems(3) by simp
    show ?thesis
      using IH r v' small True
      by (subst decode_packet_loop.simps)
         (auto simp: Let_def v'_def [symmetric] mqtt_error_defs MAX_NO_OF_REMAINING_LENGTH_BYTES_def intro: exI [of _ h])
  next
    case False
    then show ?thesis
      by (subst decode_packet_loop.simps)
         (auto simp: MAX_NO_OF_REMAINING_LENGTH_BYTES_def MQTTPACKET_READ_ERROR_def intro!: exI [of _ "env c"])
  qed
qed


lemma decode_packet_range:
  obtains rc v h where "iotx_mc_decode_packet c t = (rc, v, c\<lparr>env := h\<rparr>)" "0 \<le> rc \<Longrightarrow> 0 \<le> v \<and> v < 268435456"
  using decode_packet_loop_range [of 0 0 1 c t] unfolding iotx_mc_decode_packet_def by auto

lemma returns_decode:
  assumes "\<And>rc v h. (0 \<le> rc \<Longrightarrow> 0 \<le> v \<and> v < 268435456) \<Longrightarrow> returns (f rc v (c\<lparr>env := h\<rparr>)) Q"
  shows "returns (case iotx_mc_decode_packet c t of (rc, v, c') \<Rightarrow> f rc v c') Q"
  by (rule decode_packet_range [of c t]) (simp add: assms)

lemma returns_encode:
  assumes "0 \<le> n" "n < 268435456" "p + 4 \<le> length b"
    and "length (remlen_bytes (nat n)) \<le> 4 \<Longrightarrow> returns (f (blit b p (remlen_bytes (nat n)), length (remlen_bytes (nat n)))) Q"
  shows "returns (MQTTPacket_encode b p n \<bind> f) Q"
proof -
  have "length (remlen_bytes (nat n)) \<le> 4" using assms(1,2) by (intro length_remlen_le_4) simp
  moreover from this have "MQTTPacket_encode b p n = Some (blit b p (remlen_bytes (nat n)), length (remlen_bytes (nat n)))"
    using MQTTPacket_encode_loop_eq [of p 0 "nat n" b] assms(1,3) by (simp add: MQTTPacket_encode_def)
  ultimately show ?thesis using assms(4) by simp
qed

text \<open>
  What \<open>iotx_mc_read_packet\<close> promises: a successful result with a packet type other than the
  reserved one means that the buffer starts with a complete packet of that type.
\<close>

definition frame_in :: "iotx_mc_client_t \<Rightarrow> byte \<Rightarrow> bool" where
  "frame_in c type \<longleftrightarrow> (\<exists>h body rest. buf_read c = Some (fixed_packet h body @ rest) \<and>
     MQTT_HEADER_GET_TYPE h = type \<and> length body < 268435456 \<and>
     length (fixed_packet h body @ rest) = unat (buf_size_read c) \<and> (rest = [] \<or> hd rest = 0))"

definition read_result :: "byte \<Rightarrow> int \<times> byte \<times> iotx_mc_client_t \<Rightarrow> bool" where
  "read_result pt = (\<lambda>(rc, type, c').
     (rc = SUCCESS_RETURN \<longrightarrow> type = cpt MQTT_CPT_RESERVED \<or> frame_in c' type) \<and> (rc \<noteq> SUCCESS_RETURN \<longrightarrow> type = pt))"

lemma returns_overlong:
  assumes "buf_read c = Some b" "length b = unat (buf_size_read c)" "0 \<le> len" "len \<le> uint (buf_size_read c)"
  shows "returns (read_overlong c timer pt len rem_len) (read_result pt)"
proof -
  have room: "nat len + nat (uint (buf_size_read c) - len) \<le> length b"
    using assms(2-4) unfolding unat_eq_nat_uint by linarith
  have tail: "returns (case ipstack_read n t e of (rc, data, h) \<Rightarrow>
      if rc < 0 then Some (MQTT_NETWORK_ERROR, pt, c1\<lparr>env := h\<rparr>)
      else if rc \<noteq> k then Some (FAIL_RETURN, pt, c1\<lparr>env := h\<rparr>)
      else Some (SUCCESS_RETURN, cpt MQTT_CPT_RESERVED, g h)) (read_result pt)" for n t e c1 k g
    by (cases "ipstack_read n t e") (simp add: read_result_def mqtt_error_defs)
  have err: "read_result pt (MQTT_NETWORK_ERROR, pt, c')" "read_result pt (FAIL_RETURN, pt, c')" for c'
    by (simp_all add: read_result_def mqtt_error_defs)
  show ?thesis
    unfolding read_overlong_def Let_def
    by (rule returns_hal_run, rule returns_bind, rule returns_read_into [where b = b])
       (use assms(1,4) room in \<open>auto intro!: returns_if returns_hal_run tail simp: err\<close>)
qed

text \<open>The last part of \<open>iotx_mc_read_packet\<close>: header and remaining length are in the buffer.\<close>

lemma frame_inI:
  assumes b: "length b = unat (buf_size_read c)" "take len b = h # remlen_bytes n" "len + n \<le> length b" "length d = n" "n < 268435456"
    and len: "len = 1 + length (remlen_bytes n)"
    and st: "(if int len + int n < uint (buf_size_read c) then store (blit b len d) (nat (int len + int n)) 0 else Some (blit b len d)) = Some b'"
  shows "frame_in (c\<lparr>buf_read := Some b'\<rparr>) (MQTT_HEADER_GET_TYPE h)"
proof -
  define r where "r = drop (len + n) b"
  have bl: "blit b len d = fixed_packet h d @ r" using b by (simp add: blit_def fixed_packet_def r_def)
  have lf: "length (fixed_packet h d) = len + n" using b(4) len by (simp add: fixed_packet_def)
  have lr: "len + n + length r = unat (buf_size_read c)" using b by (simp add: r_def)
  have u: "uint (buf_size_read c) = int (len + n + length r)" unfolding lr by (rule uint_nat)
  have "b' = fixed_packet h d @ (if r = [] then [] else r[0 := 0])"
  proof (cases r)
    case Nil
    then have "\<not> int len + int n < uint (buf_size_read c)" using u by simp
    then show ?thesis using st Nil bl by simp
  next
    case (Cons x xs)
    then have "int len + int n < uint (buf_size_read c)" using u by simp
    then show ?thesis
      using st Cons bl lf by (auto simp: store_def list_update_append nat_int_add split: if_splits)
  qed
  then show ?thesis
    unfolding frame_in_def
    by (intro exI [of _ h] exI [of _ d] exI [of _ "if r = [] then [] else r[0 := 0]"])
       (use lf lr b in \<open>auto simp: neq_Nil_conv simp del: length_fixed_packet\<close>)
qed


lemma read_errors: "read_result pt (MQTT_NETWORK_ERROR, pt, c)" "read_result pt (FAIL_RETURN, pt, c)"
  by (simp_all add: read_result_def mqtt_error_defs)

lemma returns_remaining:
  assumes b: "buf_read c = Some b" "length b = unat (buf_size_read c)" "take len b = h # remlen_bytes n"
      "len + n \<le> length b" "n < 268435456" "len = 1 + length (remlen_bytes n)"
  shows "returns (read_remaining c timer pt (int len) (int n)) (read_result pt)"
  unfolding read_remaining_def Let_def
proof (rule returns_hal_run, rule returns_bind, rule returns_read_into [where b = b], goal_cases)
  case (1 x e) show ?case using b(1) by simp
next
  case (2 x e) show ?case by simp
next
  case (3 x e) show ?case using b(4) by simp
next
  case (4 x e rc d e')
  let ?c = "c\<lparr>env := e, env := e', buf_read := Some (blit b (nat (int len)) d)\<rparr>"
  have fin: "returns ((if int len + int n < uint (buf_size_read c) then store (blit b len d) (nat (int len + int n)) 0
        else Some (blit b len d)) \<bind> (\<lambda>buf.
          Some (SUCCESS_RETURN, MQTT_HEADER_GET_TYPE h, ?c\<lparr>buf_read := Some buf\<rparr>))) (read_result pt)"
      (is "returns (?st \<bind> _) _") if "length d = n"
  proof -
    have "length (blit b len d) = length b" using b(4) that by simp
    moreover have "nat (int len + int n) < length b" if "int len + int n < uint (buf_size_read c)"
      using that unfolding b(2) unat_eq_nat_uint by linarith
    ultimately have "\<exists>b'. ?st = Some b'" by (simp add: store_def)
    then obtain b' where b': "?st = Some b'" by blast
    from frame_inI [OF b(2,3,4) that b(5,6) b'] have "frame_in (c\<lparr>buf_read := Some b'\<rparr>) (MQTT_HEADER_GET_TYPE h)" .
    then have "frame_in (?c\<lparr>buf_read := Some b'\<rparr>) (MQTT_HEADER_GET_TYPE h)" by (simp add: frame_in_def)
    then show ?thesis unfolding b' by (simp add: read_result_def)
  qed
  have "take len (blit b len d) = h # remlen_bytes n" using b(3,4,6) by (simp add: blit_def)
  then have "load (blit b len d) 0 = Some h" using b(6) by (cases "blit b len d") (auto simp: load_def)
  then show ?case using fin 4 by (cases "n = 0") (simp_all add: read_errors cong: if_cong)
qed

lemma take_shorter:
  assumes "take m xs = take k ys" "l \<le> m" "l \<le> k"
  shows "take l xs = take l ys"
proof -
  have "take l (take m xs) = take l (take k ys)" using assms(1) by simp
  then show ?thesis using assms(2,3) by (simp add: min_def)
qed

lemma returns_body:
  assumes max: "5 \<le> buf_size_read_max c" and b: "buf_read c = Some b" "length b = unat (buf_size_read c)" "5 \<le> length b"
    and n: "n < 268435456"
  shows "returns (read_body c timer pt (int n)) (read_result pt)"
  unfolding read_body_def Let_def b(1) Option.bind.bind_lunit
proof (rule returns_encode, goal_cases)
  case 4
  let ?r = "remlen_bytes (nat (int n))"
  let ?b2 = "blit b 1 ?r"
  let ?len = "1 + length (remlen_bytes n)"
  have b2: "length ?b2 = length b" "take ?len ?b2 = hd b # remlen_bytes n"
    using 4 b(3) by (cases b; simp add: blit_def)+
  show ?case
    unfolding prod.case
  proof (rule returns_alloc_recv, goal_cases)
    case (1 e)
    then show ?case by (simp add: read_result_def mqtt_error_defs)
  next
    case (2 e b3 w)
    let ?c = "c\<lparr>buf_read := Some ?b2, env := e, buf_read := Some b3, buf_size_read := w\<rparr>"
    have w: "unat w = min (8 + n + ?len) (unat (buf_size_read_max c))"
    proof -
      have "8 + (int n + (1 + int (length ?r))) = int (8 + n + ?len)" by simp
      moreover have "unat (word_of_int (int (8 + n + ?len)) :: u32) = 8 + n + ?len"
        using n 4 unfolding word_of_int_of_nat by (subst unat_of_nat) simp
      ultimately show ?thesis using 2(1) by (simp only: min_def word_le_nat_alt) (simp add: min_def)
    qed
    have "5 \<le> unat (buf_size_read_max c)" using max by (simp add: word_le_nat_alt)
    then have len: "?len \<le> unat w" "?len \<le> length b" using 4 b(3) unfolding w by simp_all
    have "take (min (length b) (unat w)) b3 = take (unat w) ?b2" using 2(3) [of ?b2] b2(1) b(2) by simp
    then have "take ?len b3 = take ?len ?b2"
      by (rule take_shorter) (use len in simp_all)
    then have t: "take ?len b3 = hd b # remlen_bytes n" using b2(2) by simp
    have u: "uint w = int (unat w)" by (rule uint_nat)
    have "int ?len \<le> uint w" using len(1) u by linarith
    then have "returns (read_overlong ?c timer pt (int ?len) (int n)) (read_result pt)"
      using 2(2) by (intro returns_overlong) simp_all
    moreover have "returns (read_remaining ?c timer pt (int ?len) (int n)) (read_result pt)"
      if "\<not> (int n > 0 \<and> int n + int ?len > uint w)"
    proof -
      have "?len + n \<le> length b3" using that 2(2) len(1) u by linarith
      from returns_remaining [OF _ _ t this n refl, of ?c] show ?thesis using 2(2) by simp
    qed
    ultimately show ?case by simp
  qed
qed (use n b(3) in simp_all)

lemma returns_read_packet:
  assumes max: "5 \<le> buf_size_read_max c"
  shows "returns (iotx_mc_read_packet c timer pt) (read_result pt)"
  unfolding iotx_mc_read_packet_def Let_def
proof (rule returns_alloc_recv, goal_cases)
  case (1 h)
  then show ?case by (simp add: read_result_def mqtt_error_defs)
next
  case (2 e b w)
  let ?c = "c\<lparr>env := e, buf_read := Some b, buf_size_read := w\<rparr>"
  have "5 \<le> unat (buf_size_read_max c)" using max by (simp add: word_le_nat_alt)
  then have b: "5 \<le> length b" using 2 by (simp add: min_def word_le_nat_alt)
  have body: "returns (read_body (?c\<lparr>buf_read := Some (blit b 0 d), env := e2\<rparr>) timer pt v) (read_result pt)"
    if "length d \<le> 1" "0 \<le> v" "v < 268435456" for d v e2
    using that b 2(2) max returns_body [of "?c\<lparr>buf_read := Some (blit b 0 d), env := e2\<rparr>" "blit b 0 d" "nat v"]
    by simp
  have "returns (case hal_run (time_left_nz timer) ?c of (left_t, c) \<Rightarrow> read_into c 0 1 left_t \<bind> (\<lambda>(rc, c).
      if rc = 0 then Some (SUCCESS_RETURN, cpt MQTT_CPT_RESERVED, c)
      else if rc \<noteq> 1 then Some (MQTT_NETWORK_ERROR, pt, c)
      else case hal_run (time_left_nz timer) c of (left_t, c) \<Rightarrow> case iotx_mc_decode_packet c left_t of (rc, rem_len, c) \<Rightarrow>
        if rc < 0 then Some (rc, pt, c) else read_body c timer pt rem_len)) (read_result pt)"
  proof (rule returns_hal_run, rule returns_bind, rule returns_read_into [where b = b], goal_cases)
    case (4 x e1 rc d e2)
    have dec: "returns (case hal_run (time_left_nz timer) c' of (left_t, c) \<Rightarrow> case iotx_mc_decode_packet c left_t of (rc, rem_len, c) \<Rightarrow>
        if rc < 0 then Some (rc, pt, c) else read_body c timer pt rem_len) (read_result pt)"
      if c': "c' = ?c\<lparr>env := e1, env := e2, buf_read := Some (blit b 0 d)\<rparr>" for c'
    proof (rule returns_hal_run, rule returns_decode, goal_cases)
      case (1 left_t e3 rc v e4)
      then show ?case
        using 4 body [of d v e4] unfolding c' by (auto simp: read_result_def mqtt_error_defs)
    qed
    have res: "read_result pt (SUCCESS_RETURN, cpt MQTT_CPT_RESERVED, c')" for c' by (simp add: read_result_def mqtt_error_defs)
    show ?case using dec [OF refl] by (simp add: read_errors res del: cpt.simps)
  qed (use b in simp_all)
  then show ?case by simp
qed

end
