(* ===== verification/MQTT_Receive.thy ===== *)
theory MQTT_Receive
  imports MQTT_Effects MQTT_Read
begin

text \<open>
  The receiving side of the MQTT client: packet identifiers, delivery of messages to the
  subscribed handlers, and the effect of an acknowledgement.
\<close>

subsection \<open>Packet identifiers\<close>

text \<open>The identifiers that successive calls hand out.\<close>

fun packet_ids :: "nat \<Rightarrow> iotx_mc_client_t \<Rightarrow> u32 list" where
  "packet_ids 0 c = []"
| "packet_ids (Suc n) c = (case iotx_mc_get_next_packetid c of (i, c') \<Rightarrow> i # packet_ids n c')"

lemma next_packetid_nat:
  assumes "packet_id c \<le> 65535"
  shows "iotx_mc_get_next_packetid c = (of_nat (unat (packet_id c) mod 65535 + 1), c\<lparr>packet_id := of_nat (unat (packet_id c) mod 65535 + 1)\<rparr>)"
proof -
  have le: "unat (packet_id c) \<le> 65535" using assms by (simp add: word_le_nat_alt)
  show ?thesis
  proof (cases "packet_id c = 65535")
    case True
    then show ?thesis by (simp add: iotx_mc_get_next_packetid_def IOTX_MC_PACKET_ID_MAX_def)
  next
    case False
    then have "unat (packet_id c) \<noteq> 65535" by (auto simp: word_unat_eq_iff)
    with le have "unat (packet_id c) < 65535" by simp
    with False show ?thesis by (simp add: iotx_mc_get_next_packetid_def IOTX_MC_PACKET_ID_MAX_def Let_def add.commute)
  qed
qed

lemma packet_ids_eq:
  "packet_id c \<le> 65535 \<Longrightarrow> packet_ids n c = map (\<lambda>k. of_nat ((unat (packet_id c) + k) mod 65535 + 1)) [0..<n]"
proof (induction n arbitrary: c)
  case (Suc n)
  let ?i = "unat (packet_id c) mod 65535 + 1"
  have lt: "?i \<le> 65535" using mod_less_divisor [of 65535 "unat (packet_id c)"] by linarith
  have of_nat_small: "i \<le> 65535 \<Longrightarrow> unat (of_nat i :: u32) = i" for i by (simp add: unat_of_nat)
  note u = of_nat_small [OF lt]
  have "packet_ids n (c\<lparr>packet_id := of_nat ?i\<rparr>) = map (\<lambda>k. of_nat ((?i + k) mod 65535 + 1)) [0..<n]"
    using Suc.IH [of "c\<lparr>packet_id := of_nat ?i\<rparr>"] lt u by (simp add: word_le_nat_alt)
  moreover have "(?i + k) mod 65535 = (unat (packet_id c) + Suc k) mod 65535" for k
    by (metis add.assoc add.commute mod_add_left_eq plus_1_eq_Suc)
  ultimately show ?case
    using next_packetid_nat [OF Suc.prems] by (simp add: upt_conv_Cons map_Suc_upt [symmetric] del: upt_Suc)
qed simp

lemma packet_ids_distinct:
  assumes "packet_id c \<le> 65535" "n \<le> 65535"
  shows "distinct (packet_ids n c)" and "set (packet_ids n c) \<subseteq> {1..65535}"
proof -
  let ?f = "\<lambda>k. (unat (packet_id c) + k) mod 65535 + 1"
  have le: "?f k \<le> 65535" for k using mod_less_divisor [of 65535 "unat (packet_id c) + k"] by linarith
  have u: "unat (of_nat (?f k) :: u32) = ?f k" for k
    using le [of k] unat_of_nat [of "?f k", where ?'a = 32] by simp
  have "inj_on (\<lambda>k. of_nat (?f k) :: u32) (set [0..<n])"
  proof (rule inj_onI)
    fix i j assume ij: "i \<in> set [0..<n]" "j \<in> set [0..<n]" and eq: "(of_nat (?f i) :: u32) = of_nat (?f j)"
    have "(unat (packet_id c) + i) mod 65535 = (unat (packet_id c) + j) mod 65535"
      using arg_cong [OF eq, of unat] unfolding u by simp
    then have "i mod 65535 = j mod 65535" by (simp add: nat_mod_eq_iff)
    then show "i = j" using ij assms(2) by simp
  qed
  then show "distinct (packet_ids n c)"
    unfolding packet_ids_eq [OF assms(1)] by (simp add: distinct_map)
  show "set (packet_ids n c) \<subseteq> {1..65535}"
    unfolding packet_ids_eq [OF assms(1)] using u le by (auto simp: word_le_nat_alt simp del: of_nat_add)
qed

subsection \<open>Delivery\<close>

definition received :: "iotx_mqtt_event_handle_t \<Rightarrow> event_msg \<Rightarrow> event" where
  "received hdl msg = \<lparr>ev_handle = hdl, ev_type = IOTX_MQTT_EVENT_PUBLISH_RECEIVED, ev_msg = msg\<rparr>"

lemma handle_event_cb_events:
  "h_fp hdl \<noteq> None \<Longrightarrow> events (snd (handle_event_cb hdl c IOTX_MQTT_EVENT_PUBLISH_RECEIVED msg)) = events c @ [received hdl msg]"
  by (simp add: handle_event_cb_def call_handle_def received_def)

lemma deliver_loop_events:
  "events (snd (deliver_loop c name msg nodes flag)) =
     events c @ map (\<lambda>n. received (handle n) msg) (filter (\<lambda>n. handle_matches name n \<and> h_fp (handle n) \<noteq> None) nodes) \<and>
   fst (deliver_loop c name msg nodes flag) =
     (flag \<or> (\<exists>n \<in> set nodes. handle_matches name n \<and> h_fp (handle n) \<noteq> None)) \<and>
   handle_event (snd (deliver_loop c name msg nodes flag)) = handle_event c"
proof (induction c name msg nodes flag rule: deliver_loop.induct)
  case (2 c name msg node nodes flag)
  have "handle_event (snd (handle_event_cb hdl c type m)) = handle_event c" for hdl type m
    by (simp add: handle_event_cb_def call_handle_def)
  with 2 show ?case by (auto simp: handle_event_cb_events)
qed simp

lemma deliver_events:
  defines "hs \<equiv> \<lambda>c name. filter (\<lambda>n. handle_matches name n \<and> h_fp (handle n) \<noteq> None) (list_sub_handle c)"
  defines "m' \<equiv> \<lambda>m name. m\<lparr>ti_ptopic := ls_data (lenstring name), ti_topic_len := word_of_int (ls_len (lenstring name))\<rparr>"
  shows "events (iotx_mc_deliver_message c name m buf) = events c @
    (if hs c name \<noteq> [] then map (\<lambda>n. received (handle n) (MsgTopic (m' m name) buf)) (hs c name)
     else if h_fp (handle_event c) \<noteq> None then [received (handle_event c) (MsgTopic (m' m name) buf)] else [])"
proof -
  obtain flag c' where d: "deliver_loop c name (MsgTopic (m' m name) buf) (list_sub_handle c) False = (flag, c')" by fastforce
  have "events c' = events c @ map (\<lambda>n. received (handle n) (MsgTopic (m' m name) buf)) (hs c name)"
      "flag \<longleftrightarrow> hs c name \<noteq> []" "handle_event c' = handle_event c"
    using deliver_loop_events [of c name "MsgTopic (m' m name) buf" "list_sub_handle c" False] d
    by (auto simp: hs_def filter_empty_conv)
  then show ?thesis
    using d by (auto simp: iotx_mc_deliver_message_def m'_def notify_def handle_event_cb_events)
qed

text \<open>The bytes of a received topic name as the matcher sees them.\<close>

definition name_string :: "byte list \<Rightarrow> MQTTString" where
  "name_string t = \<lparr>cstring = None, lenstring = \<lparr>ls_len = int (length t), ls_data = Some t\<rparr>\<rparr>"

lemma handle_matches_levels:
  assumes "filter_ok (topic_filter n)"
  shows "handle_matches (name_string t) n \<longleftrightarrow>
    topic_filter n = t \<or> mqtt_match (topic_levels (topic_filter n)) (topic_levels t) \<and>
      wildcards_filled (topic_levels (topic_filter n)) (topic_levels t)"
  using matched_levels [OF assms, of t]
  by (auto simp: levels_match_mqtt handle_matches_def name_string_def MQTTPacket_equals_def is_topic_matched_iff)

text \<open>Unsubscribing from a topic without wildcards compares it with a string that is one character longer.\<close>

lemma unsub_misses_exact:
  assumes "PLUS \<notin> set (topic_filter n)" "HASH \<notin> set (topic_filter n)"
  shows "\<not> handle_matches (unsub_cur_topic (topic_filter n)) n"
  using matched_literal [OF assms, of "[]" "topic_filter n @ [0]"]
  by (simp add: handle_matches_def unsub_cur_topic_def MQTTPacket_equals_def is_topic_matched_iff)

subsection \<open>Acknowledgements\<close>

text \<open>The publications that still wait, without their timers.\<close>

definition waiting :: "iotx_mc_pub_info_t list \<Rightarrow> (u16 \<times> byte list) list" where
  "waiting ns = map (\<lambda>n. (msg_id n, pub_buf n)) (filter (\<lambda>n. node_state n = IOTX_MC_NODE_STATE_NORMANL) ns)"

lemma node_state_cases: "node_state n = IOTX_MC_NODE_STATE_NORMANL \<longleftrightarrow> node_state n \<noteq> IOTX_MC_NODE_STATE_INVALID"
  by (cases "node_state n") auto

lemma mask_waiting:
  "waiting (list_pub_wait_ack (snd (iotx_mc_mask_pubInfo_from c i))) =
     filter (\<lambda>(j, b). j \<noteq> i) (waiting (list_pub_wait_ack c))"
  by (induction "list_pub_wait_ack c" arbitrary: c)
     (auto simp: waiting_def iotx_mc_mask_pubInfo_from_def filter_map comp_def
        intro!: map_cong filter_cong)

lemma pub_info_loop_waiting:
  "post (pub_info_loop c nodes) (\<lambda>(ns, c'). waiting ns = waiting nodes)"
proof (induction nodes arbitrary: c)
  case (Cons node nodes)
  have keep: "post (pub_info_loop c' nodes) (\<lambda>x. post (case x of (ns, c) \<Rightarrow> Some (n # ns, c))
      (\<lambda>(ns, c''). waiting ns = waiting (node # nodes)))"
    if "node_state n = IOTX_MC_NODE_STATE_NORMANL" "msg_id n = msg_id node" "pub_buf n = pub_buf node"
      "node_state node = IOTX_MC_NODE_STATE_NORMANL" for c' n
    by (rule post_conseq_prod [OF Cons.IH]) (use that in \<open>auto simp: waiting_def\<close>)
  show ?case
    by (auto intro!: post_if wp_run post_bind_eq [where m = "MQTTRePublish c b n" for c b n]
        post_bind [where m = "pub_info_loop c ns" for c ns] keep post_conseq [OF Cons.IH]
        simp: Let_def node_state_cases) (auto simp: waiting_def node_state_cases)
qed simp


lemma PubInfoProc_waiting:
  "post (MQTTPubInfoProc c) (\<lambda>(rc, c'). waiting (list_pub_wait_ack c') = waiting (list_pub_wait_ack c))"
  unfolding MQTTPubInfoProc_def
  by (rule post_bind, rule post_conseq_prod [OF pub_info_loop_waiting]) simp

text \<open>The acknowledgement of a publication: exactly that publication stops waiting.\<close>

lemma notify_waiting: "list_pub_wait_ack (notify c type msg) = list_pub_wait_ack c"
  using notify_reads [of c type msg] by (simp add: reads_only_def same_session_def)

lemma notify_events:
  "events (notify c type msg) = events c @
     (if h_fp (handle_event c) \<noteq> None then [\<lparr>ev_handle = handle_event c, ev_type = type, ev_msg = msg\<rparr>] else [])"
  by (simp add: notify_def handle_event_cb_def call_handle_def)

lemma PUBACK_waiting:
  assumes "buf_read c = Some (fixed_packet (ack_header (cpt PUBACK) 0) (int_bytes (unat i)) @ rest)"
  shows "\<exists>c'. iotx_mc_handle_recv_PUBACK c = Some (SUCCESS_RETURN, c') \<and>
     waiting (list_pub_wait_ack c') = filter (\<lambda>(j, b). j \<noteq> i) (waiting (list_pub_wait_ack c)) \<and>
     events c' = events c @ (if h_fp (handle_event c) \<noteq> None
        then [\<lparr>ev_handle = handle_event c, ev_type = IOTX_MQTT_EVENT_PUBLISH_SUCCESS, ev_msg = MsgId i\<rparr>] else [])"
proof -
  obtain rc c1 where m: "iotx_mc_mask_pubInfo_from c i = (rc, c1)" by fastforce
  have c1: "handle_event c1 = handle_event c" "events c1 = events c" using m by (auto simp: iotx_mc_mask_pubInfo_from_def)
  have "iotx_mc_handle_recv_PUBACK c = Some (SUCCESS_RETURN, notify c1 IOTX_MQTT_EVENT_PUBLISH_SUCCESS (MsgId i))"
    using ack_deserializes [of 0 _ PUBACK i rest] unfolding iotx_mc_handle_recv_PUBACK_def assms
    by (simp add: m)
  then show ?thesis
    using mask_waiting [of c i] m by (simp add: notify_waiting notify_events c1)
qed

subsection \<open>A received publication\<close>

lemma handle_event_cb_env [simp]: "env (snd (handle_event_cb hdl c type msg)) = env c"
  by (simp add: handle_event_cb_def call_handle_def)

lemma deliver_loop_env: "env (snd (deliver_loop c name msg nodes flag)) = env c"
  by (induction c name msg nodes flag rule: deliver_loop.induct) simp_all

lemma deliver_message_env: "env (iotx_mc_deliver_message c name m buf) = env c"
proof -
  obtain flag c' where d: "deliver_loop c name (MsgTopic (m\<lparr>ti_ptopic := ls_data (lenstring name),
      ti_topic_len := word_of_int (ls_len (lenstring name))\<rparr>) buf) (list_sub_handle c) False = (flag, c')" by fastforce
  then have "env c' = env c" by (metis deliver_loop_env snd_conv)
  then show ?thesis by (simp add: iotx_mc_deliver_message_def d notify_def)
qed

definition publish_packet :: "byte \<Rightarrow> int \<Rightarrow> byte \<Rightarrow> byte list \<Rightarrow> u16 \<Rightarrow> byte list \<Rightarrow> byte list" where
  "publish_packet dup qos retain topic packetid payload =
     fixed_packet (publish_header dup qos retain) (publish_body qos topic packetid payload)"

text \<open>The message that the handlers of a received publication get.\<close>

definition received_msg :: "byte \<Rightarrow> int \<Rightarrow> byte \<Rightarrow> byte list \<Rightarrow> u16 \<Rightarrow> byte list \<Rightarrow> iotx_mqtt_topic_info_t" where
  "received_msg dup qos retain topic packetid payload =
     \<lparr>ti_packet_id = (if qos > 0 then packetid else 0), ti_qos = word_of_int qos, ti_dup = dup, ti_retain = retain,
      ti_topic_len = of_nat (length topic), ti_payload_len = of_nat (length payload), ti_ptopic = Some topic,
      ti_payload = Some (length (publish_packet dup qos retain topic packetid payload) - length payload)\<rparr>"

lemma received_payload:
  "ti_payload (received_msg dup qos retain topic packetid payload) = Some p \<Longrightarrow>
   take (length payload) (drop p (publish_packet dup qos retain topic packetid payload @ rest)) = payload"
proof -
  assume "ti_payload (received_msg dup qos retain topic packetid payload) = Some p"
  then have p: "p = length (publish_packet dup qos retain topic packetid payload) - length payload" by (simp add: received_msg_def)
  show ?thesis
    unfolding p
    by (rule take_drop_suffix [where pre = "publish_header dup qos retain # remlen_bytes (length (publish_body qos topic packetid payload)) @
          str_bytes topic @ (if qos > 0 then int_bytes (unat packetid) else [])"])
       (simp add: publish_packet_def fixed_packet_def publish_body_def)
qed

text \<open>The handlers a message goes to: all that match, or the client's own when none does.\<close>

definition receivers :: "iotx_mc_client_t \<Rightarrow> byte list \<Rightarrow> iotx_mqtt_event_handle_t list" where
  "receivers c topic =
     (let hs = filter (\<lambda>n. handle_matches (name_string topic) n \<and> h_fp (handle n) \<noteq> None) (list_sub_handle c)
      in if hs \<noteq> [] then map handle hs else if h_fp (handle_event c) \<noteq> None then [handle_event c] else [])"

lemma PUBLISH_received:
  assumes buf: "buf_read c = Some (publish_packet dup qos retain topic packetid payload @ rest)"
    and hdr: "dup < 2" "retain < 2" "qos \<in> {0, 1}" and topic: "topic \<noteq> []" "length topic < 65536"
    and small: "length (publish_body qos topic packetid payload) < 268435456"
    and wb: "write_bounded (net_write (env c))" and idle: "buf_send c = None"
  shows "post (iotx_mc_handle_recv_PUBLISH c) (\<lambda>(rc, c').
     events c' = events c @ map (\<lambda>h. received h (MsgTopic (received_msg dup qos retain topic packetid payload)
         (publish_packet dup qos retain topic packetid payload @ rest))) (receivers c topic) \<and>
     (if qos = 0 then rc = SUCCESS_RETURN \<and> net_sent (env c') = net_sent (env c)
      else sent_packet c (fixed_packet (ack_header (cpt PUBACK) 0) (int_bytes (unat packetid))) rc c'))"
proof -
  let ?buf = "publish_packet dup qos retain topic packetid payload @ rest"
  let ?m = "received_msg dup qos retain topic packetid payload"
  have q: "0 \<le> qos" "qos \<le> 3" using hdr(3) by auto
  let ?out = "zero_publish_out\<lparr>po_dup := dup, po_qos := qos, po_retained := retain,
      po_packetid := (if qos > 0 then packetid else po_packetid zero_publish_out), po_topicName := name_string topic,
      po_payload := ti_payload ?m, po_payloadlen := int (length payload)\<rparr>"
  have "MQTTDeserialize_publish zero_publish_out ?buf = Some (1, ?out)"
    using publish_deserializes [OF hdr(1,2) q topic(2) small, of zero_publish_out rest]
    by (simp add: publish_packet_def name_string_def received_msg_def)
  then obtain out where d: "MQTTDeserialize_publish zero_publish_out ?buf = Some (1, out)"
    and out: "po_dup out = dup" "po_qos out = qos" "po_retained out = retain"
      "po_packetid out = (if qos > 0 then packetid else 0)" "po_topicName out = name_string topic"
      "po_payload out = ti_payload ?m" "po_payloadlen out = int (length payload)"
    by (rule that) (simp_all add: zero_publish_out_def)
  define c1 where "c1 = iotx_mc_deliver_message c (name_string topic) (?m\<lparr>ti_topic_len := 0, ti_ptopic := None\<rparr>) ?buf"
  have msg: "(?m\<lparr>ti_topic_len := 0, ti_ptopic := None\<rparr>)\<lparr>ti_ptopic := ls_data (lenstring (name_string topic)),
      ti_topic_len := word_of_int (ls_len (lenstring (name_string topic)))\<rparr> = ?m"
    by (simp add: received_msg_def name_string_def)
  have ev: "events c1 = events c @ map (\<lambda>h. received h (MsgTopic ?m ?buf)) (receivers c topic)"
    unfolding c1_def deliver_events msg by (simp add: receivers_def Let_def comp_def)
  have rd: "reads_only c c1" unfolding c1_def by (rule deliver_message_reads)
  have env: "env c1 = env c" unfolding c1_def by (rule deliver_message_env)
  have b1: "buf_send c1 = None" using rd idle by (simp add: reads_only_def)
  have run: "iotx_mc_handle_recv_PUBLISH c = (if qos = 0 then Some (SUCCESS_RETURN, c1) else MQTTPuback c1 packetid PUBACK)"
  proof -
    have "\<lparr>ti_packet_id = po_packetid out, ti_qos = word_of_int (po_qos out), ti_dup = po_dup out,
        ti_retain = po_retained out, ti_topic_len = 0, ti_payload_len = word_of_int (po_payloadlen out),
        ti_ptopic = None, ti_payload = po_payload out\<rparr> = ?m\<lparr>ti_topic_len := 0, ti_ptopic := None\<rparr>"
      by (simp add: out received_msg_def)
    moreover have "ls_len (lenstring (name_string topic)) \<noteq> 0" "ls_data (lenstring (name_string topic)) = Some topic"
      using topic(1) by (simp_all add: name_string_def)
    ultimately show ?thesis
      using hdr(3) unfolding iotx_mc_handle_recv_PUBLISH_def buf
      by (auto simp: d out(5) Let_def c1_def [symmetric]) (auto simp: received_msg_def)
  qed
  show ?thesis
  proof (cases "qos = 0")
    case True
    then show ?thesis by (simp add: run ev env)
  next
    case False
    have "post (MQTTPuback c1 packetid PUBACK) (\<lambda>(rc, c'). events c' = events c1 \<and>
        sent_packet c (fixed_packet (ack_header (cpt PUBACK) 0) (int_bytes (unat packetid))) rc c')"
    proof (rule post_conseq [OF post_conj [OF MQTTPuback_frame [OF b1] Puback_sends]])
      show "write_bounded (net_write (env c1))" using wb by (simp add: env)
    qed (auto simp: sends_only_def sent_packet_def env)
    then show ?thesis using False by (simp add: run ev)
  qed
qed

end
