(* ===== verification/MQTT_States.thy ===== *)
theory MQTT_States
  imports MQTT_Reachable
begin

text \<open>
  The connection states of the MQTT client as a state machine: which changes of
  \<open>client_state\<close> the operations of the client can make, and what happens on the way: an
  operation on a client that is not connected leaves the network alone, three unanswered pings
  disconnect, and a disconnected client closes its connection before it reconnects.
\<close>

subsection \<open>Losing the connection\<close>

text \<open>While connected, an operation may notice that the connection is lost; it changes no other state.\<close>

definition may_lose :: "iotx_mc_state_t \<Rightarrow> iotx_mc_state_t \<Rightarrow> bool" where
  "may_lose s s' \<longleftrightarrow> s' = s \<or> s = IOTX_MC_STATE_CONNECTED \<and> s' = IOTX_MC_STATE_DISCONNECTED"

lemma may_lose_refl [simp]: "may_lose s s"
  by (simp add: may_lose_def)

lemma may_lose_disc [simp]: "may_lose IOTX_MC_STATE_CONNECTED IOTX_MC_STATE_DISCONNECTED"
  by (simp add: may_lose_def)

lemma may_lose_trans: "may_lose a b \<Longrightarrow> may_lose b c \<Longrightarrow> may_lose a c"
  by (auto simp: may_lose_def)

lemma set_client_state_sel [simp]: "client_state (iotx_mc_set_client_state c s) = s"
  by (simp add: iotx_mc_set_client_state_def)

lemma reset_recv_buffer_state [simp]: "client_state (reset_recv_buffer c) = client_state c"
  by (simp add: reset_recv_buffer_def)

lemma cycle_state:
  assumes "buf_send c = None"
  shows "post (iotx_mc_cycle c timer) (\<lambda>(rc, c'). may_lose (client_state c) (client_state c') \<and>
    (client_state c = IOTX_MC_STATE_CONNECTED \<and> 2 < keepalive_probes c \<longrightarrow> client_state c' = IOTX_MC_STATE_DISCONNECTED))"
proof (cases "client_state c = IOTX_MC_STATE_CONNECTED")
  case False
  then show ?thesis by (simp add: iotx_mc_cycle_def iotx_mc_get_client_state_def)
next
  case True
  define c1 where "c1 = (if IOTX_MC_KEEPALIVE_PROBE_MAX < keepalive_probes c
    then (iotx_mc_set_client_state c IOTX_MC_STATE_DISCONNECTED)\<lparr>keepalive_probes := 0\<rparr> else c)"
  have c1: "client_state c1 = (if 2 < keepalive_probes c then IOTX_MC_STATE_DISCONNECTED else IOTX_MC_STATE_CONNECTED)"
    "buf_send c1 = None"
    using True assms by (simp_all add: c1_def IOTX_MC_KEEPALIVE_PROBE_MAX_def iotx_mc_set_client_state_def)
  have disp: "post (dispatch_packet (c2\<lparr>keepalive_probes := 0\<rparr>) t) (\<lambda>(rc, c'). client_state c' = client_state c1)"
    if "reads_only c1 c2" for c2 t
    by (rule post_conseq_prod [OF dispatch_serves])
       (use that c1 in \<open>auto simp: reads_only_def same_session_def serves_def\<close>)
  have st: "client_state c2 = client_state c1" if "reads_only c1 c2" for c2
    using that by (simp add: reads_only_def same_session_def)
  show ?thesis
    using True unfolding iotx_mc_cycle_def Let_def c1_def [symmetric]
    by (auto intro!: post_if post_bind wp_read_packet [OF reads_only_refl] post_conseq_prod [OF disp]
        simp: st c1(1) iotx_mc_get_client_state_def may_lose_def)
qed

lemma RePublish_state:
  "buf_send c = None \<Longrightarrow> post (MQTTRePublish c b n) (\<lambda>(rc, c'). client_state c' = client_state c \<and> buf_send c' = None)"
  by (rule post_conseq_prod [OF MQTTRePublish_frame]) (auto simp: sends_only_def same_session_def)

lemma pub_info_loop_state:
  "buf_send c = None \<Longrightarrow> post (pub_info_loop c nodes) (\<lambda>(ns, c'). may_lose (client_state c) (client_state c'))"
proof (induction nodes arbitrary: c)
  case (Cons node nodes)
  have keep: "post (pub_info_loop c' nodes) (\<lambda>x. post (case x of (ns, c) \<Rightarrow> Some (n # ns, c))
      (\<lambda>(ns, c''). may_lose s (client_state c'')))"
    if "client_state c' = s" "buf_send c' = None" for c' n s
    by (rule post_conseq_prod [OF Cons.IH [OF that(2)]]) (simp add: that)
  show ?case
    using Cons.prems Cons.IH [OF Cons.prems]
    by (auto intro!: post_if wp_run post_bind post_conseq_prod [OF RePublish_state] keep
        simp: Let_def iotx_mc_get_client_state_def)
qed simp

lemma PubInfoProc_state:
  "buf_send c = None \<Longrightarrow> post (MQTTPubInfoProc c) (\<lambda>(rc, c'). may_lose (client_state c) (client_state c'))"
  unfolding MQTTPubInfoProc_def by (rule post_bind, rule post_conseq_prod [OF pub_info_loop_state]) simp_all

lemma cycle_loop_state: "mqtt_cycle_loop c t = Some c' \<Longrightarrow> cycle_pre c \<longrightarrow> may_lose (client_state c) (client_state c')"
proof (induction rule: mqtt_cycle_loop.raw_induct [rotated, consumes 1, case_names step])
  case (step loop c t c')
  have "post (iotx_mc_cycle c t \<bind> (\<lambda>(rc, c). (if rc = SUCCESS_RETURN then MQTTPubInfoProc c else Some (rc, c)) \<bind>
      (\<lambda>(_, c). case hal_run (iotx_time_left t) c of (left_t, c) \<Rightarrow>
        (case hal_run (utils_time_is_expired t) (hal_exec (HAL_SleepMs (if left_t < 10 then left_t else 10)) c) of
           (expired, c) \<Rightarrow> if expired then Some c else loop c t)))) (\<lambda>c'. may_lose (client_state c) (client_state c'))"
    if pre: "cycle_pre c"
  proof -
    have b: "buf_send c = None" using pre by (simp add: cycle_pre_def idle_def)
    have cyc: "post (iotx_mc_cycle c t) (\<lambda>(rc, c'). client_inv c' \<and> may_lose (client_state c) (client_state c'))"
      by (rule post_conseq [OF post_conj [OF cycle_inv [OF pre] cycle_state [OF b]]]) auto
    have proc: "post (MQTTPubInfoProc c1) (\<lambda>(rc, c'). client_inv c' \<and> may_lose (client_state c1) (client_state c'))"
      if "client_inv c1" for c1
      by (rule post_conseq [OF post_conj [OF PubInfoProc_inv [OF that] PubInfoProc_state [OF idle_buf [OF that]]]]) auto
    have loop: "post (loop c2 t) (\<lambda>c'. may_lose s (client_state c'))" if "client_inv c2" "may_lose s (client_state c2)" for c2 s
    proof (rule postI)
      fix r assume "loop c2 t = Some r"
      from step(1) [OF this] client_inv_cycle_pre [OF that(1)] show "may_lose s (client_state r)"
        using that(2) may_lose_trans by blast
    qed
    show ?thesis
      unfolding hal_exec_def
      by (auto intro!: post_bind post_conseq_prod [OF cyc] post_conseq_prod [OF proc] post_if wp_run loop
          intro: may_lose_trans)
  qed
  from postD [OF this step(2)] show ?case by simp
qed

lemma mqtt_cycle_state: "cycle_pre c \<Longrightarrow> post (mqtt_cycle c) (\<lambda>c'. may_lose (client_state c) (client_state c'))"
  unfolding mqtt_cycle_def Let_def
proof (rule wp_run, rule postI)
  fix x h r assume "cycle_pre c" "mqtt_cycle_loop (c\<lparr>env := h\<rparr>) x = Some r"
  then show "may_lose (client_state c) (client_state r)" using cycle_loop_state [of "c\<lparr>env := h\<rparr>"] by simp
qed


subsection \<open>Keep-alive and reconnection\<close>

lemma keepalive_sub_state:
  "post (iotx_mc_keepalive_sub c) (\<lambda>(rc, c'). may_lose (client_state c) (client_state c'))"
proof (cases "client_state c = IOTX_MC_STATE_CONNECTED")
  case False
  then show ?thesis by (simp add: iotx_mc_keepalive_sub_def wrapper_mqtt_check_state_def iotx_mc_get_client_state_def)
next
  case True
  have ping: "post (MQTTKeepalive (c\<lparr>env := h, next_ping_time := t\<rparr>)) (\<lambda>(rc, c'). client_state c' = IOTX_MC_STATE_CONNECTED)" for h t
    by (rule post_conseq_prod [OF MQTTKeepalive_frame]) (use True in \<open>simp add: sends_only_def same_session_def\<close>)
  show ?thesis
    unfolding iotx_mc_keepalive_sub_def Let_def
    using True
    by (auto intro!: post_if wp_run post_bind post_conseq_prod [OF ping]
        simp: wrapper_mqtt_check_state_def iotx_mc_get_client_state_def)
qed

lemma handle_reconnect_state:
  assumes c: "client_inv c"
  shows "post (iotx_mc_handle_reconnect c) (\<lambda>(rc, c'). client_state c' \<in> {client_state c, IOTX_MC_STATE_CONNECTED} \<and>
    (rc = SUCCESS_RETURN \<longrightarrow> client_state c' = IOTX_MC_STATE_CONNECTED))"
proof -
  have b: "base_inv c" "idle c" using c by (simp_all add: client_inv_def)
  have attempt: "post (iotx_mc_attempt_reconnect (c\<lparr>env := h\<rparr>)) (\<lambda>(rc, c'). client_state c' \<in> {client_state c, IOTX_MC_STATE_CONNECTED})" for h
    unfolding iotx_mc_attempt_reconnect_def hal_exec_def
    by (rule post_conseq_prod [OF wrapper_mqtt_connect_inv])
       (use b in \<open>auto simp: base_inv_def idle_def\<close>)
  show ?thesis
    unfolding iotx_mc_handle_reconnect_def Let_def hal_exec_def
    by (auto intro!: wp_run post_if post_bind post_conseq_prod [OF attempt] simp: return_code_defs)
qed

lemma callbacks_state [simp]:
  "client_state (iotx_mc_reconnect_callback c) = client_state c"
  "client_state (iotx_mc_disconnect_callback c) = client_state c"
  by (simp_all add: iotx_mc_reconnect_callback_def iotx_mc_disconnect_callback_def call_handle_def)

definition keepalive_may :: "iotx_mc_state_t \<Rightarrow> iotx_mc_state_t \<Rightarrow> bool" where
  "keepalive_may s s' \<longleftrightarrow>
     (case s of
        IOTX_MC_STATE_CONNECTED \<Rightarrow> s' \<in> {IOTX_MC_STATE_CONNECTED, IOTX_MC_STATE_DISCONNECTED_RECONNECTING}
      | IOTX_MC_STATE_DISCONNECTED \<Rightarrow> s' = IOTX_MC_STATE_DISCONNECTED_RECONNECTING
      | IOTX_MC_STATE_DISCONNECTED_RECONNECTING \<Rightarrow> s' \<in> {IOTX_MC_STATE_DISCONNECTED_RECONNECTING, IOTX_MC_STATE_CONNECTED}
      | IOTX_MC_STATE_CONNECT_BLOCK \<Rightarrow> s' \<in> {IOTX_MC_STATE_CONNECT_BLOCK, IOTX_MC_STATE_CONNECTED}
      | _ \<Rightarrow> s' = s)"

lemma keepalive_state:
  assumes "client_inv c"
  shows "post (iotx_mc_keepalive c) (\<lambda>c'. keepalive_may (client_state c) (client_state c'))"
proof -
  have sub: "post (iotx_mc_keepalive_sub c) (\<lambda>(rc, c'). cycle_pre c' \<and> may_lose (client_state c) (client_state c'))"
    by (rule post_conseq [OF post_conj [OF keepalive_sub_inv [OF assms] keepalive_sub_state]]) auto
  have pre: "client_inv c'" if "cycle_pre c'" "client_state c' \<noteq> IOTX_MC_STATE_CONNECTED" for c'
    using that by (simp add: cycle_pre_def client_inv_def)
  have reconn: "post (iotx_mc_handle_reconnect c' \<bind> (\<lambda>(rc, c).
      if rc \<noteq> SUCCESS_RETURN then Some c else if rc = MQTT_CONNECT_BLOCK then Some c
      else Some ((iotx_mc_reconnect_callback c)\<lparr>reconnect_time_interval_ms := IOTX_MC_RECONNECT_INTERVAL_MIN_MS\<rparr>)))
      (\<lambda>c''. client_state c'' \<in> {client_state c', IOTX_MC_STATE_CONNECTED})"
    if "client_inv c'" for c'
    by (rule post_bind, rule post_conseq_prod [OF handle_reconnect_state [OF that]]) auto
  show ?thesis
    unfolding iotx_mc_keepalive_def Let_def hal_exec_def
    by (rule post_bind, rule post_conseq_prod [OF sub])
       (auto intro!: post_if wp_run post_conseq [OF reconn] pre
         simp: iotx_mc_get_client_state_def may_lose_def keepalive_may_def split: iotx_mc_state_t.splits)
qed

definition yield_may :: "iotx_mc_state_t \<Rightarrow> iotx_mc_state_t \<Rightarrow> bool" where
  "yield_may s s' \<longleftrightarrow> s' = s \<or>
     (s, s') \<in> {(IOTX_MC_STATE_CONNECTED, IOTX_MC_STATE_DISCONNECTED),
        (IOTX_MC_STATE_CONNECTED, IOTX_MC_STATE_DISCONNECTED_RECONNECTING),
        (IOTX_MC_STATE_DISCONNECTED, IOTX_MC_STATE_DISCONNECTED_RECONNECTING),
        (IOTX_MC_STATE_DISCONNECTED_RECONNECTING, IOTX_MC_STATE_CONNECTED),
        (IOTX_MC_STATE_DISCONNECTED_RECONNECTING, IOTX_MC_STATE_DISCONNECTED),
        (IOTX_MC_STATE_CONNECT_BLOCK, IOTX_MC_STATE_CONNECTED), (IOTX_MC_STATE_CONNECT_BLOCK, IOTX_MC_STATE_DISCONNECTED)}"

lemma yield_state:
  assumes "client_inv c"
  shows "post (wrapper_mqtt_yield c t) (\<lambda>(rc, c'). yield_may (client_state c) (client_state c') \<and>
    (0 \<le> t \<and> client_state c = IOTX_MC_STATE_DISCONNECTED \<longrightarrow> client_state c' = IOTX_MC_STATE_DISCONNECTED_RECONNECTING))"
proof -
  have c: "client_inv (c\<lparr>cycle_timeout_ms := w\<rparr>)" for w
    using assms by (simp add: client_inv_def base_inv_def idle_def)
  have ka: "post (iotx_mc_keepalive (c\<lparr>cycle_timeout_ms := w\<rparr>)) (\<lambda>c'. cycle_pre c' \<and> keepalive_may (client_state c) (client_state c'))" for w
    using post_conj [OF keepalive_inv [OF c] keepalive_state [OF c], of w] by simp
  have yc: "post (mqtt_cycle c1 \<bind> (\<lambda>c. Some (0, c))) (\<lambda>(rc, c'). may_lose (client_state c1) (client_state c'))"
    if "cycle_pre c1" for c1
    by (rule post_bind, rule post_conseq [OF mqtt_cycle_state [OF that]]) simp
  have comb: "yield_may (client_state c) s \<and> (client_state c = IOTX_MC_STATE_DISCONNECTED \<longrightarrow> s = IOTX_MC_STATE_DISCONNECTED_RECONNECTING)"
    if "keepalive_may (client_state c) s1" "may_lose s1 s" for s1 s
    using that by (cases "client_state c") (auto simp: yield_may_def keepalive_may_def may_lose_def)
  show ?thesis
    unfolding wrapper_mqtt_yield_def Let_def
    by (rule post_if, simp add: yield_may_def, rule post_bind, rule post_conseq [OF ka], rule post_conseq_prod [OF yc])
       (auto dest: comb)
qed


subsection \<open>Operations of the application\<close>

lemma sends_only_state: "sends_only c c' \<Longrightarrow> client_state c' = client_state c"
  by (simp add: sends_only_def same_session_def)

lemma registers_state: "registers c c' \<Longrightarrow> client_state c' = client_state c"
  by (auto simp: registers_def add_sub_handle_def dest: sends_only_state)

lemma unregisters_state: "unregisters c c' \<Longrightarrow> client_state c' = client_state c"
  by (auto simp: unregisters_def dest: sends_only_state)

lemma queues_state: "queues c c' \<Longrightarrow> client_state c' = client_state c"
  by (auto simp: queues_def dest: sends_only_state)

lemma packetid_frame: "iotx_mc_get_next_packetid c = (i, c') \<Longrightarrow> c' = c\<lparr>packet_id := i\<rparr>"
  by (auto simp: iotx_mc_get_next_packetid_def Let_def)

text \<open>An operation that needs a connection: without one it fails and leaves platform, lists and state alone.\<close>

definition needs_connection :: "iotx_mc_client_t \<Rightarrow> int \<Rightarrow> iotx_mc_client_t \<Rightarrow> bool" where
  "needs_connection c rc c' \<longleftrightarrow> may_lose (client_state c) (client_state c') \<and>
     (client_state c \<noteq> IOTX_MC_STATE_CONNECTED \<longrightarrow> rc < 0 \<and> c' = c\<lparr>packet_id := packet_id c'\<rparr>)"

lemma needs_connection_fail: "rc < 0 \<Longrightarrow> needs_connection c rc (c\<lparr>packet_id := i\<rparr>)" "rc < 0 \<Longrightarrow> needs_connection c rc c"
  by (simp_all add: needs_connection_def)

lemma needs_connection_connected:
  "client_state c = IOTX_MC_STATE_CONNECTED \<Longrightarrow> client_state c' \<in> {IOTX_MC_STATE_CONNECTED, IOTX_MC_STATE_DISCONNECTED} \<Longrightarrow>
   needs_connection c rc c'"
  by (auto simp: needs_connection_def)

lemma post_packetid:
  "(\<And>i. post (f i (c\<lparr>packet_id := i\<rparr>)) Q) \<Longrightarrow> post (case iotx_mc_get_next_packetid c of (i, c') \<Rightarrow> f i c') Q"
  by (simp add: iotx_mc_get_next_packetid_def Let_def)

lemma subscribe_state:
  assumes "buf_send c = None"
  shows "post (wrapper_mqtt_subscribe c flt q fp x) (\<lambda>(rc, c'). needs_connection c rc c')"
proof -
  have sub: "post (MQTTSubscribe (c\<lparr>packet_id := i\<rparr>) f q j fp' x) (\<lambda>(rc, c'). client_state c' = client_state c)" for i f j fp'
    by (rule post_conseq_prod [OF MQTTSubscribe_frame]) (use assms in \<open>auto dest: registers_state\<close>)
  show ?thesis
    unfolding wrapper_mqtt_subscribe_def Let_def
    by (auto intro!: post_packetid post_if post_bind_eq [where m = "iotx_mc_check_topic n t" for n t] post_bind [OF post_conseq_prod [OF sub]]
        needs_connection_connected simp: needs_connection_fail mqtt_error_defs wrapper_mqtt_check_state_def iotx_mc_get_client_state_def
        split: option.split)
qed

lemma unsubscribe_state:
  assumes "buf_send c = None"
  shows "post (wrapper_mqtt_unsubscribe c flt) (\<lambda>(rc, c'). needs_connection c rc c')"
proof -
  have sub: "post (MQTTUnsubscribe (c\<lparr>packet_id := i\<rparr>) f j) (\<lambda>(rc, c'). client_state c' = client_state c)" for i f j
    by (rule post_conseq_prod [OF MQTTUnsubscribe_frame]) (use assms in \<open>auto dest: unregisters_state\<close>)
  show ?thesis
    unfolding wrapper_mqtt_unsubscribe_def Let_def
    by (auto intro!: post_packetid post_if post_bind_eq [where m = "iotx_mc_check_topic n t" for n t] post_bind [OF post_conseq_prod [OF sub]]
        needs_connection_connected simp: needs_connection_fail mqtt_error_defs wrapper_mqtt_check_state_def iotx_mc_get_client_state_def
        split: option.split)
qed

lemma publish_state: "post (wrapper_mqtt_publish c name m d) (\<lambda>(rc, c'). needs_connection c rc c')"
proof (cases "client_state c = IOTX_MC_STATE_CONNECTED")
  case False
  then show ?thesis
    unfolding wrapper_mqtt_publish_def Let_def
    by (auto intro!: post_if post_bind_eq [where m = "iotx_mc_check_topic n t" for n t]
        simp: needs_connection_fail mqtt_error_defs wrapper_mqtt_check_state_def iotx_mc_get_client_state_def split: option.split)
next
  case True
  have pub: "post (MQTTPublish c' n m' dat \<bind> (\<lambda>(rc, c). if rc \<noteq> SUCCESS_RETURN
      then Some (rc, if rc = MQTT_NETWORK_ERROR then iotx_mc_set_client_state c IOTX_MC_STATE_DISCONNECTED else c)
      else Some (uint i, c))) (\<lambda>(rc, c'). needs_connection c rc c')"
    if "client_state c' = IOTX_MC_STATE_CONNECTED" for c' n m' dat and i :: u16
    using that True
    by (auto intro!: post_bind post_conseq_prod [OF MQTTPublish_frame] needs_connection_connected)
       (auto dest: queues_state)
  have id: "client_state (snd (iotx_mc_get_next_packetid c)) = IOTX_MC_STATE_CONNECTED"
    using True by (simp add: iotx_mc_get_next_packetid_def Let_def)
  show ?thesis
    unfolding wrapper_mqtt_publish_def Let_def
    using True id
    by (auto intro!: post_if post_bind_eq [where m = "iotx_mc_check_topic n t" for n t] pub needs_connection_connected
        split: option.split prod.split)
qed

subsection \<open>Reachable states\<close>

text \<open>A client in use: initialized, and in none of the states that only the teardown or a blocked broker would set.\<close>

definition live :: "iotx_mc_client_t \<Rightarrow> bool" where
  "live c \<longleftrightarrow> client_inv c \<and> client_state c \<in> {IOTX_MC_STATE_INITIALIZED, IOTX_MC_STATE_CONNECTED,
     IOTX_MC_STATE_DISCONNECTED, IOTX_MC_STATE_DISCONNECTED_RECONNECTING}"

lemma live_may_lose: "live c \<Longrightarrow> client_inv c' \<Longrightarrow> may_lose (client_state c) (client_state c') \<Longrightarrow> live c'"
  by (auto simp: live_def may_lose_def)

lemma live_inv: "live c \<Longrightarrow> client_inv c"
  by (simp add: live_def)

lemma live_needs: "live c \<Longrightarrow> client_inv c' \<Longrightarrow> needs_connection c rc c' \<Longrightarrow> live c'"
  by (auto simp: needs_connection_def intro: live_may_lose)

lemma subscribe_live: "live c \<Longrightarrow> post (wrapper_mqtt_subscribe c flt q fp x) (\<lambda>(rc, c'). live c')"
  by (rule post_conseq [OF post_conj [OF subscribe_inv subscribe_state]]) (auto dest: live_inv idle_buf live_needs)

lemma unsubscribe_live: "live c \<Longrightarrow> post (wrapper_mqtt_unsubscribe c flt) (\<lambda>(rc, c'). live c')"
  by (rule post_conseq [OF post_conj [OF unsubscribe_inv unsubscribe_state]]) (auto dest: live_inv idle_buf live_needs)

lemma publish_live: "live c \<Longrightarrow> post (wrapper_mqtt_publish c name m d) (\<lambda>(rc, c'). live c')"
  by (rule post_conseq [OF post_conj [OF publish_inv publish_state]]) (auto dest: live_inv live_needs)

lemma yield_live: "live c \<Longrightarrow> post (wrapper_mqtt_yield c t) (\<lambda>(rc, c'). live c')"
  by (rule post_conseq [OF post_conj [OF yield_inv yield_state]]) (auto simp: live_def yield_may_def)

lemma connect_live: "live c \<Longrightarrow> post (wrapper_mqtt_connect c) (\<lambda>(rc, c'). live c')"
  by (rule post_conseq [OF post_conj [OF connect_inv wrapper_mqtt_connect_inv]]) (auto simp: live_def client_inv_def)

interpretation sync_live: sync_client live
proof unfold_locales
  show "live (c\<lparr>env := h\<rparr>)" if "live c" for c h
    using that by (simp add: live_def)
  show "live (c\<lparr>list_sub_sync_ack := l\<rparr>)" if "live c" for c l
    using that sync_inv.P_sync by (simp add: live_def)
qed (simp_all add: subscribe_live yield_live)

lemma mc_step_live: "live c \<Longrightarrow> mc_step c c' \<Longrightarrow> live c'"
  by (erule mc_stepE) (auto dest: postD [OF connect_live] postD [OF yield_live] postD [OF subscribe_live]
      postD [OF sync_live.subscribe_sync_keeps] postD [OF unsubscribe_live] postD [OF publish_live])

interpretation mqtt_live: invariant_system mc_init mc_step live
proof unfold_locales
  show "live c" if "mc_init c" for c
    using that by (auto simp: mc_init_def live_def dest: init_inv)
qed (rule mc_step_live)

end
