(* ===== verification/MQTT_Requests.thy ===== *)
theory MQTT_Requests
  imports MQTT_Receive MQTT_States
begin

text \<open>
  The requests of the application end to end: what a call of \<open>wrapper_mqtt_publish\<close>,
  \<open>wrapper_mqtt_subscribe\<close> or \<open>MQTTUnsubscribe\<close> that succeeds has sent and recorded.
\<close>


subsection \<open>Results of the operations\<close>

lemma Publish_rc: "post (MQTTPublish c name m d) (\<lambda>(rc, c'). rc = SUCCESS_RETURN \<or> rc < 0)"
  unfolding MQTTPublish_def Let_def
  by (auto intro!: wp_run post_case_prod post_if post_bind_eq simp: mqtt_error_defs)

lemma Subscribe_rc: "post (MQTTSubscribe c flt q i fp x) (\<lambda>(rc, c'). rc = SUCCESS_RETURN \<or> rc < 0)"
  unfolding MQTTSubscribe_def Let_def
  by (auto intro!: wp_run post_case_prod post_if post_bind_eq simp: mqtt_error_defs)

lemma publish_success:
  assumes call: "wrapper_mqtt_publish c (Some name) m (Some payload) = Some (rc, c')" and ok: "0 \<le> rc"
    and qos: "ti_qos m \<in> {0, 1}"
  obtains m' c1 where "client_state c = IOTX_MC_STATE_CONNECTED" "iotx_mc_check_topic (Some name) TOPIC_NAME_TYPE = Some 0"
    "MQTTPublish c1 name m' payload = Some (SUCCESS_RETURN, c')"
    "env c1 = env c" "list_pub_wait_ack c1 = list_pub_wait_ack c"
    "ti_qos m' = ti_qos m" "ti_retain m' = ti_retain m" "ti_payload_len m' = ti_payload_len m"
    "ti_qos m = 1 \<Longrightarrow> ti_packet_id m' = word_of_int rc"
proof -
  let ?p = "if ti_qos m = 1 \<or> ti_qos m = 2 then let (pid, c) = iotx_mc_get_next_packetid c
        in (ucast pid, m\<lparr>ti_packet_id := ucast pid\<rparr>, c) else (0 :: u16, m, c)"
  obtain i m' c1 where p: "?p = (i, m', c1)" by (cases ?p) auto
  have q: "ti_qos m' = ti_qos m" "ti_retain m' = ti_retain m" "ti_payload_len m' = ti_payload_len m"
      "env c1 = env c" "list_pub_wait_ack c1 = list_pub_wait_ack c" "ti_qos m = 1 \<Longrightarrow> ti_packet_id m' = i"
    using p by (auto simp: iotx_mc_get_next_packetid_def Let_def split: if_splits)
  have run: "iotx_mc_check_topic (Some name) TOPIC_NAME_TYPE \<bind> (\<lambda>ok.
      if ok \<noteq> 0 then Some (MQTT_TOPIC_FORMAT_ERROR, c)
      else if \<not> wrapper_mqtt_check_state c then Some (MQTT_STATE_ERROR, c)
      else MQTTPublish c1 name m' payload \<bind> (\<lambda>(rc, c). if rc \<noteq> SUCCESS_RETURN
          then Some (rc, if rc = MQTT_NETWORK_ERROR then iotx_mc_set_client_state c IOTX_MC_STATE_DISCONNECTED else c)
          else Some (uint i, c))) = Some (rc, c')"
  proof -
    have "ti_qos m' \<noteq> 2" using qos q(1) by auto
    from call show ?thesis
      unfolding wrapper_mqtt_publish_def p unfolding Let_def prod.case option.case if_not_P [OF \<open>ti_qos m' \<noteq> 2\<close>] .
  qed
  then obtain ok where t: "iotx_mc_check_topic (Some name) TOPIC_NAME_TYPE = Some ok" by (auto simp: bind_eq_Some_conv)
  then have "ok = 0" "client_state c = IOTX_MC_STATE_CONNECTED"
    using run assms(2) by (auto simp: mqtt_error_defs wrapper_mqtt_check_state_def iotx_mc_get_client_state_def split: if_splits)
  then obtain rc2 c2 where pub: "MQTTPublish c1 name m' payload = Some (rc2, c2)"
    and r: "(if rc2 \<noteq> SUCCESS_RETURN then Some (rc2, if rc2 = MQTT_NETWORK_ERROR then iotx_mc_set_client_state c2 IOTX_MC_STATE_DISCONNECTED else c2)
          else Some (uint i, c2)) = Some (rc, c')"
    using run t by (auto simp: bind_eq_Some_conv wrapper_mqtt_check_state_def iotx_mc_get_client_state_def)
  have "rc2 = SUCCESS_RETURN \<or> rc2 < 0" using postD [OF Publish_rc pub] by simp
  then have "rc2 = SUCCESS_RETURN" using r ok by (auto split: if_splits)
  then have "c2 = c'" "rc = uint i" using r by simp_all
  then have id: "ti_packet_id m' = word_of_int rc" if "ti_qos m = 1" using q(6) [OF that] by simp
  show ?thesis
    by (rule that [of c1 m']) (use id pub \<open>rc2 = _\<close> \<open>c2 = c'\<close> t \<open>ok = 0\<close> \<open>client_state c = _\<close> q in \<open>auto\<close>)
qed

lemma publish_packet_id_irrelevant: "qos \<le> 0 \<Longrightarrow> publish_packet dup qos retain topic i payload = publish_packet dup qos retain topic j payload"
  by (simp add: publish_packet_def publish_body_def)

lemma publish_success_effect:
  assumes call: "wrapper_mqtt_publish c (Some name) m (Some payload) = Some (rc, c')" and ok: "0 \<le> rc"
    and qos: "ti_qos m \<in> {0, 1}" and wb: "write_bounded (net_write (env c))"
    and pl: "unat (ti_payload_len m) = length payload" and small: "length name + length payload < 268435000"
  defines "pkt \<equiv> publish_packet 0 (uint (ti_qos m)) (ti_retain m) name (word_of_int rc) payload"
  shows "client_state c = IOTX_MC_STATE_CONNECTED \<and> iotx_mc_check_topic (Some name) TOPIC_NAME_TYPE = Some SUCCESS_RETURN \<and>
    net_sent (env c') = net_sent (env c) @ pkt \<and>
    (\<exists>t. list_pub_wait_ack c' = list_pub_wait_ack c @ (if ti_qos m = 1 then [pub_node (word_of_int rc) pkt t] else []))"
proof -
  obtain m' c1 where s: "client_state c = IOTX_MC_STATE_CONNECTED" "iotx_mc_check_topic (Some name) TOPIC_NAME_TYPE = Some 0"
    "MQTTPublish c1 name m' payload = Some (SUCCESS_RETURN, c')"
    and c1: "env c1 = env c" "list_pub_wait_ack c1 = list_pub_wait_ack c"
    and m': "ti_qos m' = ti_qos m" "ti_retain m' = ti_retain m" "ti_payload_len m' = ti_payload_len m"
      "ti_qos m = 1 \<Longrightarrow> ti_packet_id m' = word_of_int rc"
    using publish_success [OF call ok qos] by metis
  have wb1: "write_bounded (net_write (env c1))" "unat (ti_payload_len m') = length payload" using wb pl c1 m' by simp_all
  have pkt: "fixed_packet (publish_header 0 (uint (ti_qos m')) (ti_retain m')) (publish_body (uint (ti_qos m')) name (ti_packet_id m') payload) = pkt"
    unfolding pkt_def publish_packet_def [symmetric] using qos m' publish_packet_id_irrelevant by auto
  from publish_effect [OF s(3) wb1 small, unfolded pkt] have "publish_did (ti_qos m' > 0) (ti_packet_id m') pkt c1 SUCCESS_RETURN c'" .
  then show ?thesis
    using s(1,2) qos by (auto simp: publish_did_def c1 m' return_code_defs)
qed


lemma check_topic_short: "iotx_mc_check_topic (Some flt) type = Some 0 \<Longrightarrow> length flt \<le> 128"
  by (auto simp: iotx_mc_check_topic_def CONFIG_MQTT_TOPIC_MAXLEN_def return_code_defs split: if_splits)

lemma word_of_uint_ucast: "ucast (i :: u32) = (word_of_int (uint i) :: u16)"
  by (rule ucast_eq)

lemma subscribe_success_effect:
  assumes call: "wrapper_mqtt_subscribe c (Some flt) q (Some fp) x = Some (rc, c')" and ok: "0 \<le> rc"
    and wb: "write_bounded (net_write (env c))"
  shows "client_state c = IOTX_MC_STATE_CONNECTED \<and> iotx_mc_check_topic (Some flt) TOPIC_FILTER_TYPE = Some SUCCESS_RETURN \<and>
    net_sent (env c') = net_sent (env c) @ fixed_packet (sub_header SUBSCRIBE 0) (subscribe_body (word_of_int rc) [(topic_string flt, q)]) \<and>
    \<lparr>handle = \<lparr>h_fp = Some fp, pcontext = x\<rparr>, topic_filter = flt\<rparr> \<in> set (list_sub_handle c')"
proof -
  obtain i c1 where p: "iotx_mc_get_next_packetid c = (i, c1)" by fastforce
  have c1: "c1 = c\<lparr>packet_id := i\<rparr>" using packetid_frame [OF p] .
  have ne: "length flt \<noteq> 0" using call ok by (auto simp: wrapper_mqtt_subscribe_def mqtt_error_defs split: if_splits)
  have run: "(if \<not> wrapper_mqtt_check_state c1 then Some (MQTT_STATE_ERROR, c1)
      else iotx_mc_check_topic (Some flt) TOPIC_FILTER_TYPE \<bind> (\<lambda>ok. if ok \<noteq> 0 then Some (MQTT_TOPIC_FORMAT_ERROR, c1)
        else MQTTSubscribe c1 flt q i fp x \<bind> (\<lambda>(rc, c). if rc \<noteq> SUCCESS_RETURN
          then Some (rc, if rc = MQTT_NETWORK_ERROR then iotx_mc_set_client_state c IOTX_MC_STATE_DISCONNECTED else c)
          else Some (uint i, c)))) = Some (rc, c')"
    using call unfolding wrapper_mqtt_subscribe_def prod.case option.case if_not_P [OF ne] p Let_def .
  then have st: "client_state c = IOTX_MC_STATE_CONNECTED"
    using ok by (auto simp: mqtt_error_defs wrapper_mqtt_check_state_def iotx_mc_get_client_state_def c1 split: if_splits)
  then obtain ok' where t: "iotx_mc_check_topic (Some flt) TOPIC_FILTER_TYPE = Some ok'"
    using run by (auto simp: bind_eq_Some_conv wrapper_mqtt_check_state_def iotx_mc_get_client_state_def c1)
  then have "ok' = 0"
    using run ok st by (auto simp: mqtt_error_defs wrapper_mqtt_check_state_def iotx_mc_get_client_state_def c1 split: if_splits)
  then obtain rc2 c2 where sub: "MQTTSubscribe c1 flt q i fp x = Some (rc2, c2)"
    and r: "(if rc2 \<noteq> SUCCESS_RETURN then Some (rc2, if rc2 = MQTT_NETWORK_ERROR then iotx_mc_set_client_state c2 IOTX_MC_STATE_DISCONNECTED else c2)
          else Some (uint i, c2)) = Some (rc, c')"
    using run t st by (auto simp: bind_eq_Some_conv wrapper_mqtt_check_state_def iotx_mc_get_client_state_def c1)
  have "rc2 = SUCCESS_RETURN \<or> rc2 < 0" using postD [OF Subscribe_rc sub] by simp
  then have "rc2 = SUCCESS_RETURN" using r ok by (auto split: if_splits)
  then have "c2 = c'" "rc = uint i" using r by simp_all
  moreover have "length flt < 65536" "write_bounded (net_write (env c1))"
    using check_topic_short [of flt TOPIC_FILTER_TYPE] t \<open>ok' = 0\<close> wb by (simp_all add: c1)
  ultimately show ?thesis
    using postD [OF Subscribe_sends sub] st t \<open>ok' = 0\<close> \<open>rc2 = _\<close>
    by (simp add: sent_packet_def c1 word_of_uint_ucast [symmetric] return_code_defs)
qed

lemma reset_send_buffer_handles [simp]: "list_sub_handle (reset_send_buffer c) = list_sub_handle c"
  by (simp add: reset_send_buffer_def)

text \<open>Unsubscribing leaves the handlers of a filter without wildcards in the list.\<close>

lemma unsubscribe_keeps_exact:
  assumes "MQTTUnsubscribe c flt i = Some (rc, c')" "PLUS \<notin> set flt" "HASH \<notin> set flt"
    and "n \<in> set (list_sub_handle c)" "topic_filter n = flt"
  shows "n \<in> set (list_sub_handle c')"
proof -
  have miss: "\<not> handle_matches (unsub_cur_topic flt) n" using unsub_misses_exact [of n] assms by simp
  have h: "holds_buffer c c1 \<Longrightarrow> n \<in> set (list_sub_handle c1)" for c1
    using assms(4) by (simp add: holds_buffer_def same_session_def)
  have s: "sends_only c c1 \<Longrightarrow> n \<in> set (list_sub_handle c1)" for c1
    using assms(4) by (simp add: sends_only_def same_session_def)
  have "post (MQTTUnsubscribe c flt i) (\<lambda>(rc, c'). n \<in> set (list_sub_handle c'))"
    unfolding MQTTUnsubscribe_def Let_def
    by (auto intro!: wp_hal_run [where ?c0.0 = c] wp_alloc_send [where ?c0.0 = c] post_bind
        wp_serialize [where ?c0.0 = c] wp_send [where ?c0.0 = c] post_if simp: miss h s)
  from postD [OF this assms(1)] show ?thesis by simp
qed

end
