(* ===== verification/MQTT_Api.thy ===== *)
theory MQTT_Api
  imports Infra_Compat MQTT_Requests
begin

text \<open>
  The interface of the application to MQTT, \<open>src/mqtt/mqtt_api.c\<close>, and the reports the SDK sends after a
  connection, \<open>src/infra/infra_report.c\<close>. The layer keeps one client, the default for calls without a handle,
  and a list of subscriptions made before it exists. A handle is the address of a client; the record
  of a client and its platform exist while it is allocated, and a call with the address of a freed
  client is \<^term>\<open>None\<close>. The build is \<open>PLATFORM_HAS_DYNMEM\<close> without TLS, \<open>DYNAMIC_REGISTER\<close>, \<open>MQTT_PRE_AUTH\<close> and
  \<open>ASYNC_PROTOCOL_STACK\<close>.
\<close>

subsection \<open>State\<close>

text \<open>The identity that the platform supplies: the text each \<open>HAL_Get\<close> function copies to its array, and what
  \<open>HAL_GetFirmwareVersion\<close> returns.\<close>

record device =
  dev_product_key :: cstr
  dev_device_name :: cstr
  dev_device_secret :: cstr
  dev_firmware :: cstr
  dev_firmware_ret :: int

record iotx_mc_offline_subs_t =
  os_topic_filter :: cstr
  os_handle :: "nat option"
  os_user_data :: nat
  os_qos :: int

text \<open>\<open>api_hal\<close> is the platform while no client exists. \<open>info_report_func\<close> is only ever set to \<open>IOT_MQTT_Publish_Simple\<close>.
  \<open>connect_calls\<close> records the calls of the application's callback.\<close>

record mqtt_api =
  g_mqtt_client :: "nat option"
  api_client :: "(nat \<times> iotx_mc_client_t) option"
  next_ptr :: nat
  api_hal :: hal
  offline_init :: bool
  offline_sub_list :: "iotx_mc_offline_subs_t list"
  g_default_sign :: iotx_sign_mqtt_t
  sdk_ctx :: sdk_impl_ctx_t
  event_map :: impl_event_map_t
  info_report_func :: bool
  g_report_id :: u32
  connect_calls :: "nat list"

record mqtt_param = iotx_mqtt_param_t +
  port :: u16
  customize_info :: "cstr option"

definition CONFIG_MQTT_MESSAGE_MAXLEN :: u32 where "CONFIG_MQTT_MESSAGE_MAXLEN = 1024"
definition SUBSCRIBE_SYNC_TIMEOUT_MAX :: int where "SUBSCRIBE_SYNC_TIMEOUT_MAX = 10000"
definition IOTX_URI_MAX_LEN :: nat where "IOTX_URI_MAX_LEN = 135"
definition FIRMWARE_VERSION_MSG_LEN :: nat where "FIRMWARE_VERSION_MSG_LEN = 64"
definition sizeof_offline_subs :: nat where "sizeof_offline_subs = 48"

subsection \<open>Subscriptions before the client exists\<close>

definition offline_subs_list_init :: "mqtt_api \<Rightarrow> mqtt_api" where
  "offline_subs_list_init st = (if offline_init st then st else st\<lparr>offline_init := True, offline_sub_list := []\<rparr>)"

definition offline_subs_list_deinit :: "mqtt_api \<Rightarrow> mqtt_api" where
  "offline_subs_list_deinit st = st\<lparr>offline_init := False, offline_sub_list := []\<rparr>"

text \<open>The first node with the topic is updated; \<^term>\<open>None\<close> when there is none.\<close>

fun update_offline :: "iotx_mc_offline_subs_t \<Rightarrow> iotx_mc_offline_subs_t list \<Rightarrow> iotx_mc_offline_subs_t list option" where
  "update_offline new [] = None"
| "update_offline new (n # ns) =
     (if os_topic_filter n = os_topic_filter new
      then Some (n\<lparr>os_qos := os_qos new, os_handle := os_handle new, os_user_data := os_user_data new\<rparr> # ns)
      else map_option (\<lambda>ns. n # ns) (update_offline new ns))"

definition iotx_mqtt_offline_subscribe :: "cstr option \<Rightarrow> int \<Rightarrow> nat option \<Rightarrow> nat \<Rightarrow> mqtt_api \<Rightarrow> int \<times> mqtt_api" where
  "iotx_mqtt_offline_subscribe flt qos topic_handle_func context st =
     (case (flt, topic_handle_func) of
        (Some topic, Some fp) \<Rightarrow>
          let st = offline_subs_list_init st;
              new = \<lparr>os_topic_filter = topic, os_handle = Some fp, os_user_data = context, os_qos = qos\<rparr>
          in (case update_offline new (offline_sub_list st) of
                Some l \<Rightarrow> (SUCCESS_RETURN, st\<lparr>offline_sub_list := l\<rparr>)
              | None \<Rightarrow>
                  case HAL_Malloc sizeof_offline_subs (api_hal st) of
                    (None, h) \<Rightarrow> (ERROR_MALLOC, st\<lparr>api_hal := h\<rparr>)
                  | (Some _, h) \<Rightarrow>
                      case HAL_Malloc (length topic + 1) h of
                        (None, h) \<Rightarrow> (ERROR_MALLOC, st\<lparr>api_hal := h\<rparr>)
                      | (Some _, h) \<Rightarrow> (SUCCESS_RETURN, st\<lparr>api_hal := h, offline_sub_list := offline_sub_list st @ [new]\<rparr>))
      | _ \<Rightarrow> (NULL_VALUE_ERROR, st))"

fun offline_loop :: "iotx_mc_offline_subs_t list \<Rightarrow> iotx_mc_client_t \<Rightarrow> iotx_mc_client_t option" where
  "offline_loop [] c = Some c"
| "offline_loop (node # ns) c = do {
     (_, c) \<leftarrow> wrapper_mqtt_subscribe c (Some (os_topic_filter node)) (os_qos node) (os_handle node) (os_user_data node);
     offline_loop ns c
   }"

definition iotx_mqtt_deal_offline_subs :: "iotx_mc_client_t \<Rightarrow> mqtt_api \<Rightarrow> (iotx_mc_client_t \<times> mqtt_api) option" where
  "iotx_mqtt_deal_offline_subs c st =
     (if \<not> offline_init st then Some (c, st)
      else do {
        c \<leftarrow> offline_loop (offline_sub_list st) c;
        Some (c, offline_subs_list_deinit st)
      })"

subsection \<open>Publishing a text\<close>

text \<open>\<open>IOT_MQTT_Publish_Simple\<close> once the client is known; \<open>data\<close> is \<^term>\<open>None\<close> for a \<open>NULL\<close> pointer.\<close>

definition publish_simple :: "iotx_mc_client_t \<Rightarrow> cstr option \<Rightarrow> int \<Rightarrow> byte list option \<Rightarrow> int \<Rightarrow> (int \<times> iotx_mc_client_t) option" where
  "publish_simple client topic_name qos data len =
     (case topic_name of
        None \<Rightarrow> Some (NULL_VALUE_ERROR, client)
      | Some topic \<Rightarrow>
          if length topic = 0 then Some (NULL_VALUE_ERROR, client)
          else do {
            let mqtt_msg = \<lparr>ti_packet_id = 0, ti_qos = word_of_int qos, ti_dup = 0, ti_retain = 0, ti_topic_len = 0,
                  ti_payload_len = word_of_int len, ti_ptopic = None, ti_payload = None\<rparr>;
            (rc, client) \<leftarrow> wrapper_mqtt_publish client (Some topic) mqtt_msg data;
            Some (if rc < 0 then -1 else rc, client)
          })"

subsection \<open>Reports\<close>

text \<open>A format string with its converted arguments.\<close>

fun format_args :: "string \<Rightarrow> cstr list \<Rightarrow> cstr" where
  "format_args [] args = []"
| "format_args (c # f) [] = of_char c # format_args f []"
| "format_args (c # f) (a # args) =
     (if c = CHR ''%'' then (case f of [] \<Rightarrow> [] | _ # f' \<Rightarrow> a @ format_args f' args) else of_char c # format_args f (a # args))"

definition iotx_report_id :: "mqtt_api \<Rightarrow> int \<times> mqtt_api" where
  "iotx_report_id st =
     (let n = g_report_id st + 1; n = (if sint n < 0 then 0 else n) in (sint n, st\<lparr>g_report_id := n\<rparr>))"

definition iotx_set_report_func :: "mqtt_api \<Rightarrow> mqtt_api" where
  "iotx_set_report_func st = st\<lparr>info_report_func := True\<rparr>"

definition iotx_report_mid :: int where
  "iotx_report_mid = SUCCESS_RETURN"

definition HAL_Get :: "cstr \<Rightarrow> nat \<Rightarrow> byte list option" where
  "HAL_Get s n = store_bytes (replicate n 0) 0 s"

definition DEVICE_INFO_UPDATE_FMT :: string where
  \<open>DEVICE_INFO_UPDATE_FMT = ''{"id":"%d","version":"1.0","params":['' @
     ''{"attrKey":"SYS_LP_SDK_VERSION","attrValue":"%s","domain":"SYSTEM"},'' @
     ''{"attrKey":"SYS_SDK_LANGUAGE","attrValue":"C","domain":"SYSTEM"}'' @
     ''],"method":"thing.deviceinfo.update"}''\<close>

definition iotx_report_devinfo :: "device \<Rightarrow> iotx_mc_client_t \<Rightarrow> mqtt_api \<Rightarrow> (int \<times> iotx_mc_client_t \<times> mqtt_api) option" where
  "iotx_report_devinfo dev c st =
     (if \<not> info_report_func st then Some (-1, c, st)
      else do {
        key \<leftarrow> HAL_Get (dev_product_key dev) (IOTX_PRODUCT_KEY_LEN + 1);
        name \<leftarrow> HAL_Get (dev_device_name dev) (IOTX_DEVICE_NAME_LEN + 1);
        pk \<leftarrow> str_of key;
        dn \<leftarrow> str_of name;
        let (ret, topic_name) = snprintf IOTX_URI_MAX_LEN (format_args ''/sys/%s/%s/thing/deviceinfo/update'' [pk, dn]);
        if ret \<le> 0 then Some (FAIL_RETURN, c, st)
        else do {
          let msg_len = length DEVICE_INFO_UPDATE_FMT + 10 + length IOTX_SDK_VERSION + 1;
          let (p, c) = hal_run (HAL_Malloc msg_len) c;
          if p = None then Some (FAIL_RETURN, c, st)
          else do {
            let (rid, st) = iotx_report_id st;
            let (ret, msg) = snprintf msg_len (format_args DEVICE_INFO_UPDATE_FMT [print_int rid, IOTX_SDK_VERSION]);
            if ret \<le> 0 then Some (FAIL_RETURN, c, st)
            else do {
              (_, c) \<leftarrow> publish_simple c (Some topic_name) 1 (Some msg) (int (length msg));
              Some (if ret < 0 then FAIL_RETURN else SUCCESS_RETURN, c, st)
            }
          }
        }
      })"

definition FIRMWARE_VERSION_FMT :: string where
  \<open>FIRMWARE_VERSION_FMT = ''{"id":"%d","params":{"version":"%s"}}''\<close>

definition iotx_report_firmware_version :: "device \<Rightarrow> iotx_mc_client_t \<Rightarrow> mqtt_api \<Rightarrow> (int \<times> iotx_mc_client_t \<times> mqtt_api) option" where
  "iotx_report_firmware_version dev c st =
     (if \<not> info_report_func st then Some (-1, c, st)
      else do {
        key \<leftarrow> HAL_Get (dev_product_key dev) (IOTX_PRODUCT_KEY_LEN + 1);
        name \<leftarrow> HAL_Get (dev_device_name dev) (IOTX_DEVICE_NAME_LEN + 1);
        version \<leftarrow> HAL_Get (dev_firmware dev) (64 + 1);
        if dev_firmware_ret dev \<le> 0 then Some (FAIL_RETURN, c, st)
        else do {
          pk \<leftarrow> str_of key;
          dn \<leftarrow> str_of name;
          let (ret, topic_name) = snprintf IOTX_URI_MAX_LEN (format_args ''/ota/device/inform/%s/%s'' [pk, dn]);
          if ret \<le> 0 then Some (FAIL_RETURN, c, st)
          else do {
            let (rid, st) = iotx_report_id st;
            v \<leftarrow> str_of version;
            let (ret, msg) = snprintf FIRMWARE_VERSION_MSG_LEN (format_args FIRMWARE_VERSION_FMT [print_int rid, v]);
            if ret \<le> 0 then Some (FAIL_RETURN, c, st)
            else do {
              (ret, c) \<leftarrow> publish_simple c (Some topic_name) 1 (Some msg) (int (length msg));
              Some (if ret < 0 then ret else SUCCESS_RETURN, c, st)
            }
          }
        }
      })"

definition iotx_mqtt_report_funcs :: "device \<Rightarrow> iotx_mc_client_t \<Rightarrow> mqtt_api \<Rightarrow> (iotx_mc_client_t \<times> mqtt_api) option" where
  "iotx_mqtt_report_funcs dev c st = do {
     (c, st) \<leftarrow> iotx_mqtt_deal_offline_subs c st;
     let st = iotx_set_report_func st;
     (_, c, st) \<leftarrow> iotx_report_devinfo dev c st;
     (_, c, st) \<leftarrow> iotx_report_firmware_version dev c st;
     Some (c, st)
   }"

subsection \<open>Construction\<close>

text \<open>\<open>strstr(s, p) != NULL\<close>\<close>

fun has_substring :: "cstr \<Rightarrow> cstr \<Rightarrow> bool" where
  "has_substring p [] = (p = [])"
| "has_substring p (c # s) = (take (length p) (c # s) = p \<or> has_substring p s)"

text \<open>A text of the parameters when it is given and not empty, and otherwise the signed one.\<close>

definition param_or :: "cstr option \<Rightarrow> byte list \<Rightarrow> cstr option option" where
  "param_or given own = (if given \<noteq> None \<and> given \<noteq> Some [] then Some given else map_option Some (str_of own))"

text \<open>\<open>mqtt_params\<close> of \<open>IOT_MQTT_Construct\<close>: the defaults, and what the application asked for where it is in range.\<close>

definition construct_params :: "mqtt_param option \<Rightarrow> iotx_sign_mqtt_t \<Rightarrow> mqtt_param option" where
  "construct_params given sign =
     (case given of
        None \<Rightarrow> do {
          hostname \<leftarrow> str_of (sg_hostname sign);
          cid \<leftarrow> str_of (sg_clientid sign);
          uname \<leftarrow> str_of (sg_username sign);
          pwd \<leftarrow> str_of (sg_password sign);
          Some \<lparr>host = Some hostname, client_id = Some cid, user = Some uname, passwd = Some pwd, clean_session = 0,
            req_timeout_ms = CONFIG_MQTT_REQUEST_TIMEOUT, keepalive_interval_ms = ucast CONFIG_MQTT_KEEPALIVE_INTERVAL * 1000,
            write_buf_size = CONFIG_MQTT_MESSAGE_MAXLEN, read_buf_size = CONFIG_MQTT_MESSAGE_MAXLEN,
            init_handle_event = \<lparr>h_fp = None, pcontext = 0\<rparr>, port = sg_port sign, customize_info = None\<rparr>
        }
      | Some p \<Rightarrow> do {
          hostname \<leftarrow> param_or (host p) (sg_hostname sign);
          cid \<leftarrow> param_or (client_id p) (sg_clientid sign);
          uname \<leftarrow> param_or (user p) (sg_username sign);
          pwd \<leftarrow> param_or (passwd p) (sg_password sign);
          Some \<lparr>host = hostname, client_id = cid, user = uname, passwd = pwd,
            clean_session = (if clean_session p = 0 \<or> clean_session p = 1 then clean_session p else 0),
            req_timeout_ms =
              (if req_timeout_ms p < CONFIG_MQTT_REQ_TIMEOUT_MIN \<or> req_timeout_ms p > CONFIG_MQTT_REQ_TIMEOUT_MAX
               then CONFIG_MQTT_REQUEST_TIMEOUT else req_timeout_ms p),
            keepalive_interval_ms =
              (if keepalive_interval_ms p < ucast CONFIG_MQTT_KEEPALIVE_INTERVAL_MIN * 1000 \<or>
                  keepalive_interval_ms p > ucast CONFIG_MQTT_KEEPALIVE_INTERVAL_MAX * 1000
               then ucast CONFIG_MQTT_KEEPALIVE_INTERVAL * 1000 else keepalive_interval_ms p),
            write_buf_size = (if write_buf_size p = 0 then CONFIG_MQTT_MESSAGE_MAXLEN else write_buf_size p),
            read_buf_size = (if read_buf_size p = 0 then CONFIG_MQTT_MESSAGE_MAXLEN else read_buf_size p),
            init_handle_event = init_handle_event p,
            port = (if port p \<noteq> 0 then port p else sg_port sign), customize_info = None\<rparr>
        })"

text \<open>
  The arrays of \<open>meta_info\<close>: \<^term>\<open>Some None\<close> when product key, device name or device secret is missing or fills its
  array up to the last byte.
\<close>

definition get_meta_info :: "device \<Rightarrow> iotx_dev_meta_info_t option option" where
  "get_meta_info dev = do {
     key \<leftarrow> HAL_Get (dev_product_key dev) (IOTX_PRODUCT_KEY_LEN + 1);
     name \<leftarrow> HAL_Get (dev_device_name dev) (IOTX_DEVICE_NAME_LEN + 1);
     if key ! 0 = 0 \<or> key ! IOTX_PRODUCT_KEY_LEN \<noteq> 0 then Some None
     else if name ! 0 = 0 \<or> name ! IOTX_DEVICE_NAME_LEN \<noteq> 0 then Some None
     else do {
       secret \<leftarrow> HAL_Get (dev_device_secret dev) (IOTX_DEVICE_SECRET_LEN + 1);
       if secret ! 0 = 0 \<or> secret ! IOTX_DEVICE_SECRET_LEN \<noteq> 0 then Some None
       else Some (Some \<lparr>product_key = key, product_secret = replicate 65 0, device_name = name, device_secret = secret\<rparr>)
     }
   }"

text \<open>\<open>g_default_sign\<close> filled in: \<^term>\<open>Inl\<close> for a return of \<open>NULL\<close>.\<close>

definition construct_sign :: "device \<Rightarrow> mqtt_param option \<Rightarrow> mqtt_api \<Rightarrow> (mqtt_api + mqtt_api) option" where
  "construct_sign dev given st = do {
     meta \<leftarrow> get_meta_info dev;
     case meta of
       None \<Rightarrow> Some (Inl st)
     | Some meta \<Rightarrow> do {
         (ret, sign) \<leftarrow> IOT_Sign_MQTT (g_infra_mqtt_domain (sdk_ctx st)) (domain_type (sdk_ctx st)) (Some meta) (g_default_sign st);
         let st = st\<lparr>g_default_sign := sign\<rparr>;
         if ret < SUCCESS_RETURN then Some (Inl st)
         else do {
           device_id \<leftarrow> make_device_id meta;
           let custom = (case given of None \<Rightarrow> None | Some p \<Rightarrow> customize_info p);
           let enable_itls = (case custom of None \<Rightarrow> 0 | Some kv \<Rightarrow> if has_substring (ascii ''authtype=id2'') kv then 1 else 0);
           (rc, clientid) \<leftarrow> sign_get_clientid (sg_clientid sign) device_id custom enable_itls;
           let st = st\<lparr>g_default_sign := sign\<lparr>sg_clientid := clientid\<rparr>\<rparr>;
           Some (if rc \<noteq> SUCCESS_RETURN then Inl st else Inr st)
         }
       }
   }"

text \<open>The last steps: offline subscriptions and reports, the new default client, the application's callback.\<close>

definition construct_finish :: "device \<Rightarrow> iotx_mc_client_t \<Rightarrow> mqtt_api \<Rightarrow> (nat option \<times> mqtt_api) option" where
  "construct_finish dev c st = do {
     (c, st) \<leftarrow> iotx_mqtt_report_funcs dev c st;
     let p = next_ptr st;
     let st = st\<lparr>g_mqtt_client := Some p, api_client := Some (p, c), next_ptr := p + 1\<rparr>;
     let st = (case iotx_event_callback ITE_MQTT_CONNECT_SUCC (event_map st) of
         None \<Rightarrow> st | Some cb \<Rightarrow> st\<lparr>connect_calls := connect_calls st @ [cb]\<rparr>);
     Some (Some p, st)
   }"

definition construct_connect :: "device \<Rightarrow> iotx_mc_client_t \<Rightarrow> mqtt_api \<Rightarrow> (nat option \<times> mqtt_api) option" where
  "construct_connect dev c st = do {
     (ret, c) \<leftarrow> wrapper_mqtt_connect c;
     if ret \<noteq> SUCCESS_RETURN \<and> ret \<noteq> MQTT_CONNECT_BLOCK then do {
       (_, r) \<leftarrow> wrapper_mqtt_release (Some c);
       Some (None, case r of None \<Rightarrow> st | Some (h, _) \<Rightarrow> st\<lparr>api_hal := h\<rparr>)
     } else construct_finish dev c st
   }"

definition IOT_MQTT_Construct :: "device \<Rightarrow> mqtt_param option \<Rightarrow> mqtt_api \<Rightarrow> (nat option \<times> mqtt_api) option" where
  "IOT_MQTT_Construct dev given st =
     (if g_mqtt_client st \<noteq> None then Some (g_mqtt_client st, st)
      else do {
        r \<leftarrow> construct_sign dev given st;
        case r of
          Inl st \<Rightarrow> Some (None, st)
        | Inr st \<Rightarrow> do {
            params \<leftarrow> construct_params given (g_default_sign st);
            case wrapper_mqtt_init (Some (iotx_mqtt_param_t.truncate params)) (api_hal st) of
              (None, h) \<Rightarrow> Some (None, st\<lparr>api_hal := h\<rparr>)
            | (Some c, h) \<Rightarrow> construct_connect dev c st
          }
      })"

subsection \<open>Calls on a client\<close>

definition pick :: "nat option \<Rightarrow> mqtt_api \<Rightarrow> nat option" where
  "pick hdl st = (if hdl \<noteq> None then hdl else g_mqtt_client st)"

text \<open>A call on the client at an address: undefined when there is none.\<close>

definition on_client :: "nat \<Rightarrow> (iotx_mc_client_t \<Rightarrow> (int \<times> iotx_mc_client_t) option) \<Rightarrow> mqtt_api \<Rightarrow> (int \<times> mqtt_api) option" where
  "on_client p f st =
     (case api_client st of
        None \<Rightarrow> None
      | Some (q, c) \<Rightarrow> if p = q then do { (rc, c) \<leftarrow> f c; Some (rc, st\<lparr>api_client := Some (q, c)\<rparr>) } else None)"

text \<open>\<open>phandler\<close> is a pointer to a handle, and what it points to.\<close>

definition IOT_MQTT_Destroy :: "nat option option \<Rightarrow> mqtt_api \<Rightarrow> (int \<times> nat option option \<times> mqtt_api) option" where
  "IOT_MQTT_Destroy phandler st = do {
     let client = (case phandler of Some hdl \<Rightarrow> hdl | None \<Rightarrow> g_mqtt_client st);
     let phandler = map_option (\<lambda>_. None) phandler;
     case client of
       None \<Rightarrow> Some (NULL_VALUE_ERROR, phandler, st)
     | Some p \<Rightarrow>
         (case api_client st of
            None \<Rightarrow> None
          | Some (q, c) \<Rightarrow>
              if p \<noteq> q then None
              else do {
                (_, r) \<leftarrow> wrapper_mqtt_release (Some c);
                let st = (case r of None \<Rightarrow> st | Some (h, _) \<Rightarrow> st\<lparr>api_client := None, api_hal := h\<rparr>);
                Some (SUCCESS_RETURN, phandler, st\<lparr>g_mqtt_client := None\<rparr>)
              })
   }"

definition IOT_MQTT_Yield :: "nat option \<Rightarrow> int \<Rightarrow> mqtt_api \<Rightarrow> (int \<times> mqtt_api) option" where
  "IOT_MQTT_Yield hdl timeout_ms st =
     (case pick hdl st of
        None \<Rightarrow> Some (NULL_VALUE_ERROR, st)
      | Some p \<Rightarrow> on_client p (\<lambda>c. wrapper_mqtt_yield c timeout_ms) st)"

definition IOT_MQTT_CheckStateNormal :: "nat option \<Rightarrow> mqtt_api \<Rightarrow> (int \<times> mqtt_api) option" where
  "IOT_MQTT_CheckStateNormal hdl st =
     (case pick hdl st of
        None \<Rightarrow> Some (NULL_VALUE_ERROR, st)
      | Some p \<Rightarrow> on_client p (\<lambda>c. Some (if wrapper_mqtt_check_state c then 1 else 0, c)) st)"

definition IOT_MQTT_Subscribe :: "nat option \<Rightarrow> cstr option \<Rightarrow> int \<Rightarrow> nat option \<Rightarrow> nat \<Rightarrow> mqtt_api \<Rightarrow> (int \<times> mqtt_api) option" where
  "IOT_MQTT_Subscribe hdl flt qos topic_handle_func context st =
     (case pick hdl st of
        None \<Rightarrow> Some (iotx_mqtt_offline_subscribe flt qos topic_handle_func context st)
      | Some p \<Rightarrow>
          if flt = None \<or> flt = Some [] \<or> topic_handle_func = None then Some (NULL_VALUE_ERROR, st)
          else let qos = (if qos > 2 then 0 else qos)
               in on_client p (\<lambda>c. wrapper_mqtt_subscribe c flt qos topic_handle_func context) st)"

definition IOT_MQTT_Subscribe_Sync ::
  "nat option \<Rightarrow> cstr option \<Rightarrow> int \<Rightarrow> nat option \<Rightarrow> nat \<Rightarrow> int \<Rightarrow> mqtt_api \<Rightarrow> (int \<times> mqtt_api) option" where
  "IOT_MQTT_Subscribe_Sync hdl flt qos topic_handle_func context timeout_ms st =
     (case pick hdl st of
        None \<Rightarrow> Some (iotx_mqtt_offline_subscribe flt qos topic_handle_func context st)
      | Some p \<Rightarrow>
          let timeout_ms = (if timeout_ms > SUBSCRIBE_SYNC_TIMEOUT_MAX then SUBSCRIBE_SYNC_TIMEOUT_MAX else timeout_ms)
          in if flt = None \<or> flt = Some [] \<or> topic_handle_func = None then Some (NULL_VALUE_ERROR, st)
             else let qos = (if qos > 2 then 0 else qos)
                  in on_client p (\<lambda>c. wrapper_mqtt_subscribe_sync c flt qos topic_handle_func context timeout_ms) st)"

definition IOT_MQTT_Unsubscribe :: "nat option \<Rightarrow> cstr option \<Rightarrow> mqtt_api \<Rightarrow> (int \<times> mqtt_api) option" where
  "IOT_MQTT_Unsubscribe hdl flt st =
     (case pick hdl st of
        None \<Rightarrow> Some (NULL_VALUE_ERROR, st)
      | Some p \<Rightarrow>
          if flt = None \<or> flt = Some [] then Some (NULL_VALUE_ERROR, st)
          else on_client p (\<lambda>c. wrapper_mqtt_unsubscribe c flt) st)"

definition IOT_MQTT_Publish :: "nat option \<Rightarrow> cstr option \<Rightarrow> iotx_mqtt_topic_info_t \<Rightarrow> byte list option \<Rightarrow> mqtt_api \<Rightarrow> (int \<times> mqtt_api) option" where
  "IOT_MQTT_Publish hdl topic_name topic_msg payload st =
     (case pick hdl st of
        None \<Rightarrow> Some (NULL_VALUE_ERROR, st)
      | Some p \<Rightarrow>
          if topic_name = None \<or> topic_name = Some [] then Some (NULL_VALUE_ERROR, st)
          else on_client p (\<lambda>c. wrapper_mqtt_publish c topic_name topic_msg payload) st)"

definition IOT_MQTT_Publish_Simple :: "nat option \<Rightarrow> cstr option \<Rightarrow> int \<Rightarrow> byte list option \<Rightarrow> int \<Rightarrow> mqtt_api \<Rightarrow> (int \<times> mqtt_api) option" where
  "IOT_MQTT_Publish_Simple hdl topic_name qos data len st =
     (case pick hdl st of
        None \<Rightarrow> Some (NULL_VALUE_ERROR, st)
      | Some p \<Rightarrow> on_client p (\<lambda>c. publish_simple c topic_name qos data len) st)"

definition IOT_MQTT_Nwk_Event_Handler :: "mqtt_api \<Rightarrow> int \<times> mqtt_api" where
  "IOT_MQTT_Nwk_Event_Handler st = (-1, st)"

end
