(* ===== verification/MQTT_Api_States.thy ===== *)
theory MQTT_Api_States
  imports MQTT_Api
begin

text \<open>
  The states of the MQTT interface: what every call keeps, the states that calls can reach, the
  subscriptions made before the client exists as a map, and what a successful construction leaves.
\<close>

subsection \<open>Connection data\<close>

text \<open>The requests of a construction leave the connection data alone.\<close>

lemma connect_keeps_data:
  assumes "idle c"
  shows "post (wrapper_mqtt_connect c) (\<lambda>(rc, c'). connect_data c' = connect_data c)"
proof -
  obtain h where h: "tcp_connect_loop c 1 = c\<lparr>env := h\<rparr>" using tcp_connect_loop_frame by blast
  define d where "d = c\<lparr>env := h\<rparr>"
  have d: "idle d" "connect_data d = connect_data c" using assms by (simp_all add: d_def idle_def)
  let ?u = "keepAliveInterval (connect_data d)"
  have pre: "connecting d ?u (d\<lparr>connect_data := (connect_data d)\<lparr>keepAliveInterval := i\<rparr>\<rparr>)" for i
    using d(1) by (simp add: connecting_def with_keepalive_def idle_def same_session_def)
  have conn: "connect_data c' = connect_data d" if "connected_to d c'" for c'
    using that by (simp add: connected_to_def same_session_def)
  have "post (mqtt_connect d) (\<lambda>(rc, c'). connect_data c' = connect_data d)"
    unfolding mqtt_connect_def Let_def iotx_mc_set_client_state_def
    by (rule post_bind, rule post_conseq_prod [OF mqtt_connect_loop_frame [OF refl pre]])
       (auto intro!: wp_run post_if simp: conn split: sum.split)
  then show ?thesis unfolding wrapper_mqtt_connect_def h by (simp add: d_def)
qed

lemma frame_keeps_data:
  "registers c c' \<Longrightarrow> connect_data c' = connect_data c" "queues c c' \<Longrightarrow> connect_data c' = connect_data c"
  "connect_data (snd (iotx_mc_get_next_packetid c)) = connect_data c" "buf_send (snd (iotx_mc_get_next_packetid c)) = buf_send c"
  by (auto simp: registers_def queues_def sends_only_def same_session_def add_sub_handle_def iotx_mc_get_next_packetid_def Let_def)

lemma subscribe_keeps_data:
  assumes "buf_send c = None"
  shows "post (wrapper_mqtt_subscribe c flt q fp x) (\<lambda>(rc, c'). connect_data c' = connect_data c)"
proof -
  obtain i c1 where c1: "iotx_mc_get_next_packetid c = (i, c1)" by fastforce
  have keep: "buf_send c1 = None" "connect_data c1 = connect_data c" using frame_keeps_data(3,4) [of c] c1 assms by simp_all
  show ?thesis
    unfolding wrapper_mqtt_subscribe_def Let_def c1 prod.case
    by (auto intro!: post_if post_bind_eq [where m = "iotx_mc_check_topic n t" for n t] post_bind [OF post_conseq_prod [OF MQTTSubscribe_frame [OF keep(1)]]]
        simp: iotx_mc_set_client_state_def keep dest!: frame_keeps_data(1) split: option.split)
qed

lemma publish_keeps_data: "post (wrapper_mqtt_publish c name m d) (\<lambda>(rc, c'). connect_data c' = connect_data c)"
proof -
  have pub: "post (MQTTPublish c' n m' dat \<bind> (\<lambda>(rc, c). if rc \<noteq> SUCCESS_RETURN
      then Some (rc, if rc = MQTT_NETWORK_ERROR then iotx_mc_set_client_state c IOTX_MC_STATE_DISCONNECTED else c)
      else Some (uint i, c))) (\<lambda>(rc, c'). connect_data c' = connect_data c)"
    if "connect_data c' = connect_data c" for c' n m' dat and i :: u16
    by (auto intro!: post_bind post_conseq_prod [OF MQTTPublish_frame] simp: iotx_mc_set_client_state_def that dest!: frame_keeps_data(2))
  show ?thesis
    unfolding wrapper_mqtt_publish_def Let_def
    using frame_keeps_data(3) [of c]
    by (auto intro!: post_if post_bind_eq [where m = "iotx_mc_check_topic n t" for n t] pub
        split: option.split prod.split)
qed

definition authentic :: "MQTTPacket_connectData \<Rightarrow> iotx_mc_client_t \<Rightarrow> bool" where
  "authentic d c \<longleftrightarrow> live c \<and> connect_data c = d"

lemma live_idle: "live c \<Longrightarrow> idle c" "live c \<Longrightarrow> buf_send c = None"
  by (simp_all add: live_def client_inv_def idle_def)

lemma authentic_env: "authentic d c \<Longrightarrow> authentic d (c\<lparr>env := h\<rparr>)"
  using sync_live.P_env by (simp add: authentic_def)

lemma connect_authentic: "authentic d c \<Longrightarrow> post (wrapper_mqtt_connect c) (\<lambda>(rc, c'). authentic d c')"
  by (rule post_conseq [OF post_conj [OF connect_live connect_keeps_data]]) (auto simp: authentic_def intro: live_idle)

lemma subscribe_authentic: "authentic d c \<Longrightarrow> post (wrapper_mqtt_subscribe c flt q fp x) (\<lambda>(rc, c'). authentic d c')"
  by (rule post_conseq [OF post_conj [OF subscribe_live subscribe_keeps_data]]) (auto simp: authentic_def intro: live_idle)

lemma publish_authentic: "authentic d c \<Longrightarrow> post (wrapper_mqtt_publish c name m x) (\<lambda>(rc, c'). authentic d c')"
  by (rule post_conseq [OF post_conj [OF publish_live publish_keeps_data]]) (auto simp: authentic_def)

lemma publish_simple_authentic: "authentic d c \<Longrightarrow> post (publish_simple c t q x n) (\<lambda>(rc, c'). authentic d c')"
  unfolding publish_simple_def Let_def
  by (auto intro!: post_if post_bind [OF post_conseq_prod [OF publish_authentic]] split: option.split)

lemma offline_loop_authentic: "authentic d c \<Longrightarrow> post (offline_loop ns c) (authentic d)"
  by (induction ns arbitrary: c) (auto intro!: post_bind [OF post_conseq_prod [OF subscribe_authentic]])

subsection \<open>Reports\<close>

text \<open>A report only advances the report id.\<close>

lemma report_id_frame: "\<exists>n. snd (iotx_report_id st) = st\<lparr>g_report_id := n\<rparr>"
  by (auto simp: iotx_report_id_def Let_def)

lemma devinfo_authentic:
  assumes "authentic d c"
  shows "post (iotx_report_devinfo dev c st) (\<lambda>(rc, c', st'). authentic d c' \<and> (\<exists>n. st' = st\<lparr>g_report_id := n\<rparr>))"
proof -
  have same: "\<exists>n. st = st\<lparr>g_report_id := n\<rparr>" by (rule exI [of _ "g_report_id st"]) simp
  obtain rid st' where id: "iotx_report_id st = (rid, st')" by fastforce
  have st': "\<exists>n. st' = st\<lparr>g_report_id := n\<rparr>" using report_id_frame [of st] id by simp
  let ?k = "length DEVICE_INFO_UPDATE_FMT + 10 + length IOTX_SDK_VERSION + 1"
  obtain p h where run: "hal_run (HAL_Malloc ?k) c = (p, c\<lparr>env := h\<rparr>)" by (cases "HAL_Malloc ?k (env c)") (simp add: hal_run_def)
  show ?thesis
    unfolding iotx_report_devinfo_def Let_def id run prod.case
    by (auto intro!: post_if post_bind_eq [where m = "HAL_Get s n" for s n] post_bind_eq [where m = "str_of a" for a]
        post_bind [OF post_conseq_prod [OF publish_simple_authentic [OF authentic_env [OF assms]]]] assms authentic_env same st' simp del: format_args.simps split: prod.split)
qed

lemma firmware_authentic:
  assumes "authentic d c"
  shows "post (iotx_report_firmware_version dev c st) (\<lambda>(rc, c', st'). authentic d c' \<and> (\<exists>n. st' = st\<lparr>g_report_id := n\<rparr>))"
proof -
  have same: "\<exists>n. st = st\<lparr>g_report_id := n\<rparr>" by (rule exI [of _ "g_report_id st"]) simp
  obtain rid st' where id: "iotx_report_id st = (rid, st')" by fastforce
  have st': "\<exists>n. st' = st\<lparr>g_report_id := n\<rparr>" using report_id_frame [of st] id by simp
  show ?thesis
    unfolding iotx_report_firmware_version_def Let_def id
    by (auto intro!: post_if post_bind_eq [where m = "HAL_Get s n" for s n] post_bind_eq [where m = "str_of a" for a]
        post_bind [OF post_conseq_prod [OF publish_simple_authentic [OF assms]]] assms same st' simp del: format_args.simps split: prod.split)
qed

lemma report_funcs_authentic:
  assumes "authentic d c" "offline_init st \<or> offline_sub_list st = []"
  shows "post (iotx_mqtt_report_funcs dev c st) (\<lambda>(c', st'). authentic d c' \<and>
     (\<exists>n. st' = st\<lparr>offline_init := False, offline_sub_list := [], info_report_func := True, g_report_id := n\<rparr>))"
proof -
  have offline: "post (iotx_mqtt_deal_offline_subs c st) (\<lambda>(c', st'). authentic d c' \<and> st' = st\<lparr>offline_init := False, offline_sub_list := []\<rparr>)"
    using assms unfolding iotx_mqtt_deal_offline_subs_def
    by (auto intro!: post_bind post_conseq [OF offline_loop_authentic] simp: offline_subs_list_deinit_def)
  show ?thesis
    unfolding iotx_mqtt_report_funcs_def Let_def iotx_set_report_func_def
    by (rule post_bind, rule post_conseq [OF offline])
       (auto intro!: post_bind post_conseq [OF devinfo_authentic] post_conseq [OF firmware_authentic])
qed

subsection \<open>What every call keeps\<close>

text \<open>
  The default client is the allocated client, which is live; the subscriptions that wait have a
  handler each and different topics.
\<close>

definition offline_ok :: "mqtt_api \<Rightarrow> bool" where
  "offline_ok st \<longleftrightarrow> (offline_init st \<or> offline_sub_list st = []) \<and> distinct (map os_topic_filter (offline_sub_list st)) \<and>
     list_all (\<lambda>n. os_handle n \<noteq> None) (offline_sub_list st)"

definition client_ok :: "mqtt_api \<Rightarrow> bool" where
  "client_ok st \<longleftrightarrow> g_mqtt_client st = map_option fst (api_client st) \<and>
     (\<forall>p c. api_client st = Some (p, c) \<longrightarrow> live c \<and> p < next_ptr st)"

definition api_inv :: "mqtt_api \<Rightarrow> bool" where
  "api_inv st \<longleftrightarrow> client_ok st \<and> offline_ok st \<and> sdk_inv (sdk_ctx st) \<and> length (event_map st) = 17"

lemma api_inv_upd [simp]:
  "api_inv (st\<lparr>g_default_sign := s\<rparr>) = api_inv st" "api_inv (st\<lparr>api_hal := h\<rparr>) = api_inv st"
  "api_inv (st\<lparr>connect_calls := l\<rparr>) = api_inv st"
  by (simp_all add: api_inv_def client_ok_def offline_ok_def)

lemma update_offline_Some:
  "update_offline new l = Some l' \<Longrightarrow>
     map os_topic_filter l' = map os_topic_filter l \<and> (os_handle new \<noteq> None \<longrightarrow> list_all (\<lambda>n. os_handle n \<noteq> None) l \<longrightarrow> list_all (\<lambda>n. os_handle n \<noteq> None) l')"
  by (induction l arbitrary: l') (auto split: if_splits)

lemma update_offline_None: "update_offline new l = None \<longleftrightarrow> os_topic_filter new \<notin> os_topic_filter ` set l"
  by (induction l) auto

lemma offline_subscribe_ok:
  assumes "api_inv st"
  shows "api_inv (snd (iotx_mqtt_offline_subscribe flt q fp x st))"
proof -
  have "offline_ok (offline_subs_list_init st)" "client_ok (offline_subs_list_init st)" "api_inv (offline_subs_list_init st)"
    using assms by (auto simp: offline_subs_list_init_def api_inv_def offline_ok_def client_ok_def)
  moreover have "offline_init (offline_subs_list_init st)" by (simp add: offline_subs_list_init_def)
  ultimately show ?thesis
    using assms
    by (auto simp: iotx_mqtt_offline_subscribe_def Let_def api_inv_def offline_ok_def client_ok_def update_offline_None
        dest!: update_offline_Some split: option.splits prod.splits)
qed

lemma on_client_inv:
  assumes "api_inv st" "\<And>c. live c \<Longrightarrow> post (f c) (\<lambda>(rc, c'). live c')"
  shows "post (on_client p f st) (\<lambda>(rc, st'). api_inv st')"
proof (cases "api_client st")
  case (Some qc)
  then obtain q c where c: "api_client st = Some (q, c)" by (cases qc) auto
  then have "live c" using assms(1) by (auto simp: api_inv_def client_ok_def)
  then show ?thesis
    using assms(1) c unfolding on_client_def
    by (auto intro!: post_bind post_conseq [OF assms(2)] simp: api_inv_def client_ok_def offline_ok_def)
qed (simp add: on_client_def)

lemma publish_simple_live: "live c \<Longrightarrow> post (publish_simple c t q x n) (\<lambda>(rc, c'). live c')"
  by (rule post_conseq [OF publish_simple_authentic [of "connect_data c"]]) (auto simp: authentic_def)

lemma calls_inv:
  assumes "api_inv st"
  shows "post (IOT_MQTT_Yield hdl t st) (\<lambda>(rc, st'). api_inv st')"
    and "post (IOT_MQTT_CheckStateNormal hdl st) (\<lambda>(rc, st'). api_inv st')"
    and "post (IOT_MQTT_Subscribe hdl flt q fp x st) (\<lambda>(rc, st'). api_inv st')"
    and "post (IOT_MQTT_Subscribe_Sync hdl flt q fp x t st) (\<lambda>(rc, st'). api_inv st')"
    and "post (IOT_MQTT_Unsubscribe hdl flt st) (\<lambda>(rc, st'). api_inv st')"
    and "post (IOT_MQTT_Publish hdl name m d st) (\<lambda>(rc, st'). api_inv st')"
    and "post (IOT_MQTT_Publish_Simple hdl name q d n st) (\<lambda>(rc, st'). api_inv st')"
  using assms offline_subscribe_ok [OF assms, of flt q fp x]
  by (auto simp: IOT_MQTT_Yield_def IOT_MQTT_CheckStateNormal_def IOT_MQTT_Subscribe_def IOT_MQTT_Subscribe_Sync_def IOT_MQTT_Unsubscribe_def
      IOT_MQTT_Publish_def IOT_MQTT_Publish_Simple_def Let_def case_prod_unfold split: option.split
      intro!: on_client_inv [THEN post_conseq_prod] yield_live subscribe_live sync_live.subscribe_sync_keeps unsubscribe_live publish_live publish_simple_live)

subsection \<open>Construction\<close>

text \<open>The connection data \<open>iotx_mc_init\<close> makes of the parameters.\<close>

definition connect_data_of :: "'a iotx_mqtt_param_t_scheme \<Rightarrow> MQTTPacket_connectData" where
  "connect_data_of p =
     (let ka = ucast (keepalive_interval_ms p div 1000) :: u16
      in MQTTPacket_connectData_initializer
         \<lparr>keepAliveInterval := (if ka < 30 \<or> ka > 1200 then 60 else ka),
          clientID := MQTTString_initializer\<lparr>cstring := client_id p\<rparr>,
          username := MQTTString_initializer\<lparr>cstring := user p\<rparr>,
          password := MQTTString_initializer\<lparr>cstring := passwd p\<rparr>,
          cleansession := clean_session p\<rparr>)"

lemma init_authentic:
  assumes "wrapper_mqtt_init (Some p) h = (Some c, h')"
  shows "authentic (connect_data_of p) c"
proof -
  have "live c" using init_inv [OF assms] by (simp add: live_def)
  moreover have "connect_data c = connect_data_of p"
    using assms
    by (auto simp: wrapper_mqtt_init_def iotx_mc_init_def iotx_mc_set_connect_params_def iotx_mc_set_client_state_def Let_def mqtt_error_defs mqtt_config_defs
        connect_data_of_def MQTTPacket_connectData_initializer_def iotx_net_init_def split: prod.splits if_splits option.splits)
  ultimately show ?thesis by (simp add: authentic_def)
qed

lemma release_outcome: "post (wrapper_mqtt_release (Some c)) (\<lambda>(rc, r). \<exists>h e. r = Some (h, e))"
  unfolding wrapper_mqtt_release_def Let_def by (auto intro!: post_bind_eq)

text \<open>What a construction leaves when no client existed; \<open>st\<close> is the state with the signed credentials.\<close>

definition constructed :: "mqtt_param option \<Rightarrow> mqtt_api \<Rightarrow> nat option \<Rightarrow> mqtt_api \<Rightarrow> bool" where
  "constructed given st r st' \<longleftrightarrow>
     (case r of
        None \<Rightarrow> g_mqtt_client st' = None \<and> api_client st' = None \<and> offline_sub_list st' = offline_sub_list st
      | Some p \<Rightarrow> p = next_ptr st \<and> g_mqtt_client st' = Some p \<and> offline_sub_list st' = [] \<and>
          (\<exists>c params. api_client st' = Some (p, c) \<and> live c \<and>
             construct_params given (g_default_sign st) = Some params \<and> connect_data c = connect_data_of params))"

lemma constructed_None: "constructed given st None st' \<longleftrightarrow> g_mqtt_client st' = None \<and> api_client st' = None \<and> offline_sub_list st' = offline_sub_list st"
  by (simp add: constructed_def)

definition signed_over :: "mqtt_api \<Rightarrow> mqtt_api \<Rightarrow> bool" where
  "signed_over st st' \<longleftrightarrow> (\<exists>s. st' = st\<lparr>g_default_sign := s\<rparr>)"

lemma signed_overI [simp]: "signed_over st (st\<lparr>g_default_sign := s\<rparr>)" "signed_over st st"
  by (auto simp: signed_over_def intro: exI [of _ "g_default_sign st"])

lemma construct_sign_frame: "post (construct_sign dev given st) (\<lambda>r. signed_over st (case r of Inl st' \<Rightarrow> st' | Inr st' \<Rightarrow> st'))"
  unfolding construct_sign_def Let_def
  by (auto intro!: post_bind_eq post_if split: option.split)

lemma connect_data_of_truncate [simp]: "connect_data_of (iotx_mqtt_param_t.truncate p) = connect_data_of p"
  by (simp add: connect_data_of_def iotx_mqtt_param_t.truncate_def)

text \<open>The steps of a construction once the credentials are signed.\<close>

lemma finish_constructed:
  assumes inv: "api_inv st" "api_client st = None" and c: "authentic (connect_data_of params) c"
    and params: "construct_params given (g_default_sign st) = Some params"
  shows "post (construct_finish dev c st) (\<lambda>(r, st'). api_inv st' \<and> constructed given st r st')"
  unfolding construct_finish_def
proof (rule post_bind, rule post_conseq [OF report_funcs_authentic [OF c]])
  show "offline_init st \<or> offline_sub_list st = []" using inv by (simp add: api_inv_def offline_ok_def)
qed (use inv params in \<open>auto simp: Let_def api_inv_def client_ok_def offline_ok_def constructed_def authentic_def split: option.split\<close>)

lemma connect_constructed:
  assumes inv: "api_inv st" "api_client st = None" and params: "construct_params given (g_default_sign st) = Some params"
    and init: "wrapper_mqtt_init (Some (iotx_mqtt_param_t.truncate params)) (api_hal st) = (Some c, h)"
  shows "post (construct_connect dev c st) (\<lambda>(r, st'). api_inv st' \<and> constructed given st r st')"
  unfolding construct_connect_def
proof (rule post_bind, rule post_conseq_prod [OF connect_authentic])
  show "authentic (connect_data_of params) c" using init_authentic [OF init] by simp
next
  have none: "g_mqtt_client st = None" using inv by (simp add: api_inv_def client_ok_def)
  fix ret c1 assume c1: "authentic (connect_data_of params) c1"
  show "post (case (ret, c1) of (ret, c) \<Rightarrow>
       if ret \<noteq> SUCCESS_RETURN \<and> ret \<noteq> MQTT_CONNECT_BLOCK then do {
         (_, r) \<leftarrow> wrapper_mqtt_release (Some c);
         Some (None, case r of None \<Rightarrow> st | Some (h, _) \<Rightarrow> st\<lparr>api_hal := h\<rparr>)
       } else construct_finish dev c st) (\<lambda>(r, st'). api_inv st' \<and> constructed given st r st')"
    unfolding prod.case
  proof (rule post_if)
    show "post (do { (_, r) \<leftarrow> wrapper_mqtt_release (Some c1); Some (None, case r of None \<Rightarrow> st | Some (h, _) \<Rightarrow> st\<lparr>api_hal := h\<rparr>) })
        (\<lambda>(r, st'). api_inv st' \<and> constructed given st r st')"
      using inv none by (auto intro!: post_bind_eq simp: constructed_def split: option.split)
  qed (rule finish_constructed [OF inv c1 params])
qed

lemma Construct_outcome:
  assumes inv: "api_inv st" "g_mqtt_client st = None"
  shows "post (IOT_MQTT_Construct dev given st) (\<lambda>(r, st'). api_inv st' \<and>
     (\<exists>st1. signed_over st st1 \<and> constructed given st1 r st' \<and> (r \<noteq> None \<longrightarrow> construct_sign dev given st = Some (Inr st1))))"
proof (rule postI, clarify)
  fix r st' assume run: "IOT_MQTT_Construct dev given st = Some (r, st')"
  have none: "api_client st = None" using inv by (simp add: api_inv_def client_ok_def)
  obtain q where q: "construct_sign dev given st = Some q"
    "(case q of Inl st \<Rightarrow> Some (None, st)
      | Inr st \<Rightarrow> do {
          params \<leftarrow> construct_params given (g_default_sign st);
          case wrapper_mqtt_init (Some (iotx_mqtt_param_t.truncate params)) (api_hal st) of
            (None, h) \<Rightarrow> Some (None, st\<lparr>api_hal := h\<rparr>)
          | (Some c, h) \<Rightarrow> construct_connect dev c st }) = Some (r, st')"
    using run inv(2) unfolding IOT_MQTT_Construct_def by (auto simp: bind_eq_Some_conv)
  have over: "signed_over st (case q of Inl st' \<Rightarrow> st' | Inr st' \<Rightarrow> st')" by (rule postD [OF construct_sign_frame q(1)])
  define st1 where "st1 = (case q of Inl st' \<Rightarrow> st' | Inr st' \<Rightarrow> st')"
  have st1: "signed_over st st1" "api_inv st1" "api_client st1 = None" "g_mqtt_client st1 = None"
    using over inv none by (auto simp: st1_def signed_over_def)
  have "api_inv st' \<and> constructed given st1 r st' \<and> (r \<noteq> None \<longrightarrow> q = Inr st1)"
  proof (cases q)
    case (Inl a)
    then show ?thesis using q(2) st1 by (auto simp: st1_def constructed_None)
  next
    case (Inr a)
    then have a: "a = st1" by (simp add: st1_def)
    from Inr obtain params where p: "construct_params given (g_default_sign st1) = Some params"
      and run1: "(case wrapper_mqtt_init (Some (iotx_mqtt_param_t.truncate params)) (api_hal st1) of
          (None, h) \<Rightarrow> Some (None, st1\<lparr>api_hal := h\<rparr>) | (Some c, h) \<Rightarrow> construct_connect dev c st1) = Some (r, st')"
      using q(2) unfolding a by (auto simp: bind_eq_Some_conv)
    show ?thesis
    proof (cases "wrapper_mqtt_init (Some (iotx_mqtt_param_t.truncate params)) (api_hal st1)")
      case (Pair o' h)
      then show ?thesis
        using run1 st1 Inr a postD [OF connect_constructed [OF st1(2,3) p]]
        by (cases o') (auto simp: constructed_None)
    qed
  qed
  then show "api_inv st' \<and> (\<exists>st1. signed_over st st1 \<and> constructed given st1 r st' \<and> (r \<noteq> None \<longrightarrow> construct_sign dev given st = Some (Inr st1)))"
    using st1(1) q(1) by blast
qed

subsection \<open>Reachable states\<close>

lemma Destroy_inv:
  assumes "api_inv st"
  shows "post (IOT_MQTT_Destroy ph st) (\<lambda>(rc, ph', st'). api_inv st')"
proof -
  have "post (do { (_, r) \<leftarrow> wrapper_mqtt_release (Some c);
      let st = (case r of None \<Rightarrow> st | Some (h, _) \<Rightarrow> st\<lparr>api_client := None, api_hal := h\<rparr>);
      Some (SUCCESS_RETURN, ph', st\<lparr>g_mqtt_client := None\<rparr>) }) (\<lambda>(rc, ph', st'). api_inv st')" for c ph'
    using assms by (auto intro!: post_bind post_conseq [OF release_outcome] simp: Let_def api_inv_def client_ok_def offline_ok_def)
  then show ?thesis
    using assms unfolding IOT_MQTT_Destroy_def Let_def by (auto intro!: post_if split: option.split)
qed

text \<open>A program that has just been loaded: only the platform and the report counters are arbitrary.\<close>

definition api_init :: "mqtt_api \<Rightarrow> bool" where
  "api_init st \<longleftrightarrow> g_mqtt_client st = None \<and> api_client st = None \<and> \<not> offline_init st \<and> offline_sub_list st = [] \<and>
     sdk_ctx st = g_sdk_impl_ctx \<and> event_map st = g_impl_event_map"

inductive api_step :: "device \<Rightarrow> mqtt_api \<Rightarrow> mqtt_api \<Rightarrow> bool" for dev where
  api_construct: "IOT_MQTT_Construct dev given st = Some (r, st') \<Longrightarrow> api_step dev st st'"
| api_destroy: "IOT_MQTT_Destroy ph st = Some (rc, ph', st') \<Longrightarrow> api_step dev st st'"
| api_yield: "IOT_MQTT_Yield hdl t st = Some (rc, st') \<Longrightarrow> api_step dev st st'"
| api_check: "IOT_MQTT_CheckStateNormal hdl st = Some (rc, st') \<Longrightarrow> api_step dev st st'"
| api_subscribe: "IOT_MQTT_Subscribe hdl flt q fp x st = Some (rc, st') \<Longrightarrow> api_step dev st st'"
| api_subscribe_sync: "IOT_MQTT_Subscribe_Sync hdl flt q fp x t st = Some (rc, st') \<Longrightarrow> api_step dev st st'"
| api_unsubscribe: "IOT_MQTT_Unsubscribe hdl flt st = Some (rc, st') \<Longrightarrow> api_step dev st st'"
| api_publish: "IOT_MQTT_Publish hdl name m d st = Some (rc, st') \<Longrightarrow> api_step dev st st'"
| api_publish_simple: "IOT_MQTT_Publish_Simple hdl name q d n st = Some (rc, st') \<Longrightarrow> api_step dev st st'"
| api_ioctl: "IOT_Ioctl opt data (sdk_ctx st) = Some (rc, data', ctx) \<Longrightarrow> (\<And>s. data = Some (IoStr s) \<Longrightarrow> text_ok s) \<Longrightarrow>
    api_step dev st (st\<lparr>sdk_ctx := ctx\<rparr>)"
| api_register: "iotx_register_for evt cb (event_map st) = (rc, m) \<Longrightarrow> api_step dev st (st\<lparr>event_map := m\<rparr>)"

lemma Construct_inv: "api_inv st \<Longrightarrow> IOT_MQTT_Construct dev given st = Some (r, st') \<Longrightarrow> api_inv st'"
  using postD [OF Construct_outcome] by (cases "g_mqtt_client st = None") (auto simp: IOT_MQTT_Construct_def)

lemma api_step_inv: "api_step dev st st' \<Longrightarrow> api_inv st \<Longrightarrow> api_inv st'"
proof (induction rule: api_step.induct)
  case (api_ioctl opt data st rc data' ctx)
  then show ?case using Ioctl_inv by (auto simp: api_inv_def client_ok_def offline_ok_def)
next
  case (api_register evt cb st rc m)
  then show ?case by (auto simp: iotx_register_for_def api_inv_def client_ok_def offline_ok_def split: if_splits)
qed (auto dest: Construct_inv postD [OF Destroy_inv] postD [OF calls_inv(1)] postD [OF calls_inv(2)] postD [OF calls_inv(3)] postD [OF calls_inv(4)]
      postD [OF calls_inv(5)] postD [OF calls_inv(6)] postD [OF calls_inv(7)])

lemma sdk_inv_init: "sdk_inv g_sdk_impl_ctx"
proof -
  have "\<exists>d. infra_mqtt_domains ! i = Some d \<and> text_ok d \<and> length d \<le> 64" if "i < 5" for i
  proof -
    consider "i = 0" | "i = 1" | "i = 2" | "i = 3" | "i = 4" using \<open>i < 5\<close> by linarith
    then show ?thesis by cases (simp_all add: infra_mqtt_domains_def text_ok_ascii)
  qed
  then show ?thesis
    by (simp add: sdk_inv_def g_sdk_impl_ctx_def infra_mqtt_domains_def infra_http_domains_def IOTX_DOMAIN_MAX_LEN_def IOTX_CUSTOMIZE_INFO_LEN_def)
qed

interpretation api: invariant_system api_init "api_step dev" api_inv for dev
proof unfold_locales
  show "api_inv st" if "api_init st" for st
    using that sdk_inv_init by (simp add: api_init_def api_inv_def client_ok_def offline_ok_def g_impl_event_map_def)
qed (rule api_step_inv)

subsection \<open>Subscriptions that wait\<close>

definition offline_map :: "mqtt_api \<Rightarrow> cstr \<rightharpoonup> int \<times> nat option \<times> nat" where
  "offline_map st = map_of (map (\<lambda>n. (os_topic_filter n, os_qos n, os_handle n, os_user_data n)) (offline_sub_list st))"

lemma update_offline_map:
  "update_offline new l = Some l' \<Longrightarrow>
     map_of (map (\<lambda>n. (os_topic_filter n, os_qos n, os_handle n, os_user_data n)) l') =
     (map_of (map (\<lambda>n. (os_topic_filter n, os_qos n, os_handle n, os_user_data n)) l))(os_topic_filter new \<mapsto> (os_qos new, os_handle new, os_user_data new))"
  by (induction l arbitrary: l') (auto split: if_splits)

lemma offline_map_snoc:
  assumes "t \<notin> os_topic_filter ` set l"
  shows "map_of (map (\<lambda>n. (os_topic_filter n, os_qos n, os_handle n, os_user_data n)) (l @ [\<lparr>os_topic_filter = t, os_handle = fp, os_user_data = x, os_qos = q\<rparr>])) =
     (map_of (map (\<lambda>n. (os_topic_filter n, os_qos n, os_handle n, os_user_data n)) l))(t \<mapsto> (q, fp, x))"
  using assms by (induction l) auto

lemma offline_subscribe_updates:
  assumes "offline_ok st" "iotx_mqtt_offline_subscribe (Some t) q (Some fp) x st = (rc, st')"
  shows "offline_map st' = (if rc = SUCCESS_RETURN then (offline_map st)(t \<mapsto> (q, Some fp, x)) else offline_map st) \<and>
     map os_topic_filter (offline_sub_list st') =
       map os_topic_filter (offline_sub_list st) @ (if rc = SUCCESS_RETURN \<and> offline_map st t = None then [t] else [])"
proof -
  let ?st = "offline_subs_list_init st" and ?new = "\<lparr>os_topic_filter = t, os_handle = Some fp, os_user_data = x, os_qos = q\<rparr>"
  have same: "offline_map ?st = offline_map st" "offline_sub_list ?st = offline_sub_list st"
    using assms(1) by (auto simp: offline_subs_list_init_def offline_map_def offline_ok_def)
  have dom: "offline_map st t = None \<longleftrightarrow> t \<notin> os_topic_filter ` set (offline_sub_list st)"
    by (auto simp: offline_map_def map_of_eq_None_iff image_iff)
  show ?thesis
  proof (cases "update_offline ?new (offline_sub_list st)")
    case (Some l)
    then have "rc = SUCCESS_RETURN" "offline_sub_list st' = l" using assms(2) same by (auto simp: iotx_mqtt_offline_subscribe_def Let_def)
    moreover have "offline_map st t \<noteq> None" using Some dom update_offline_None [of ?new "offline_sub_list st"] by auto
    ultimately show ?thesis using update_offline_map [OF Some] update_offline_Some [OF Some] by (simp add: offline_map_def)
  next
    case None
    then have new: "t \<notin> os_topic_filter ` set (offline_sub_list st)" by (simp add: update_offline_None)
    have "rc = SUCCESS_RETURN \<and> offline_sub_list st' = offline_sub_list st @ [?new] \<or> rc \<noteq> SUCCESS_RETURN \<and> offline_sub_list st' = offline_sub_list st"
      using assms(2) None same by (auto simp: iotx_mqtt_offline_subscribe_def Let_def ERROR_MALLOC_def SUCCESS_RETURN_def split: option.splits prod.splits)
    then show ?thesis using offline_map_snoc [OF new] dom new by (auto simp: offline_map_def)
  qed
qed

subsection \<open>Credentials\<close>

definition device_of :: "cstr \<Rightarrow> cstr \<Rightarrow> cstr \<Rightarrow> device" where
  "device_of pk dn ds = \<lparr>dev_product_key = pk, dev_device_name = dn, dev_device_secret = ds, dev_firmware = ascii ''1.0'', dev_firmware_ret = 3\<rparr>"

text \<open>An identity that fits: within the lengths, no text empty, and not the longest one.\<close>

definition identity_fits :: "cstr \<Rightarrow> cstr \<Rightarrow> cstr \<Rightarrow> bool" where
  "identity_fits pk dn ds \<longleftrightarrow> identity_ok pk dn ds \<and> pk \<noteq> [] \<and> dn \<noteq> [] \<and> ds \<noteq> [] \<and> length pk + length dn < 52"

lemma HAL_Get_array:
  assumes "text_ok s" "length s < n" "s \<noteq> []"
  shows "HAL_Get s n = Some (holding n s)" "holding n s ! 0 \<noteq> 0" "holding n s ! (n - 1) = 0"
proof -
  show "HAL_Get s n = Some (holding n s)" using assms(2) store_holding_0 [of s n] by (simp add: HAL_Get_def holding_Nil)
  show "holding n s ! 0 \<noteq> 0" using assms(1,3) by (cases s) (auto simp: holding_def)
  have "n - 1 - length s < n - length s" "\<not> n - 1 < length s" using assms(2) by linarith+
  then show "holding n s ! (n - 1) = 0" by (simp add: holding_def nth_append)
qed

lemma get_meta_info_fits:
  assumes "identity_fits (dev_product_key dev) (dev_device_name dev) (dev_device_secret dev)"
  shows "get_meta_info dev = Some (Some (meta_of (dev_product_key dev) (dev_device_name dev) (dev_device_secret dev)))"
proof -
  let ?pk = "dev_product_key dev" let ?dn = "dev_device_name dev" let ?ds = "dev_device_secret dev"
  have ok: "text_ok ?pk" "text_ok ?dn" "text_ok ?ds" "length ?pk < 21" "length ?dn < 33" "length ?ds < 65" "?pk \<noteq> []" "?dn \<noteq> []" "?ds \<noteq> []"
    using assms by (auto simp: identity_fits_def identity_ok_def sign_config_defs)
  show ?thesis
    using HAL_Get_array [OF ok(1,4,7)] HAL_Get_array [OF ok(2,5,8)] HAL_Get_array [OF ok(3,6,9)]
    by (simp add: get_meta_info_def meta_of_def sign_config_defs holding_Nil)
qed

text \<open>
  What the application asks for beside the identity: its addition to the client id, which also
  chooses the security mode that the client id names.
\<close>

definition asked_custom :: "mqtt_param option \<Rightarrow> cstr option" where
  "asked_custom given = (case given of None \<Rightarrow> None | Some p \<Rightarrow> customize_info p)"

definition asked_mode :: "mqtt_param option \<Rightarrow> cstr" where
  "asked_mode given = (case asked_custom given of
     Some kv \<Rightarrow> if has_substring (ascii ''authtype=id2'') kv then MODE_ITLS_DNS_ID2 else MODE_TCP_DIRECT_PLAIN
   | None \<Rightarrow> MODE_TCP_DIRECT_PLAIN)"

lemma construct_sign_signs:
  assumes ident: "identity_fits pk dn ds" and region: "domain_type (sdk_ctx st) < 6" "sdk_inv (sdk_ctx st)"
    "g_infra_mqtt_domain (sdk_ctx st) ! unat (domain_type (sdk_ctx st)) = Some domain"
    and dev: "dev_product_key dev = pk" "dev_device_name dev = dn" "dev_device_secret dev = ds"
    and custom: "\<And>kv. asked_custom given = Some kv \<Longrightarrow> text_ok kv"
  shows "if length pk + length dn + 93 + (case asked_custom given of None \<Rightarrow> 0 | Some kv \<Rightarrow> length kv + 1) < 200
    then construct_sign dev given st = Some (Inr (st\<lparr>g_default_sign := (signed_as (domain_type (sdk_ctx st)) domain pk dn ds)
      \<lparr>sg_clientid := holding 200 (client_id_text (pk @ ascii ''.'' @ dn) (asked_mode given) (asked_custom given))\<rparr>\<rparr>))
    else \<exists>st'. construct_sign dev given st = Some (Inl st')"
proof -
  let ?r = "domain_type (sdk_ctx st)" let ?did = "pk @ ascii ''.'' @ dn"
  define itls :: u8 where "itls = (case asked_custom given of None \<Rightarrow> 0 | Some kv \<Rightarrow> if has_substring (ascii ''authtype=id2'') kv then 1 else 0)"
  have ok: "identity_ok pk dn ds" "length pk + length dn < 52" using ident by (simp_all add: identity_fits_def)
  have did: "text_ok ?did" "length ?did = length pk + length dn + 1" using ok by (simp_all add: identity_ok_def text_ok_ascii)
  have "unat ?r < 6" using region(1) by (simp add: word_less_nat_alt)
  then have "unat ?r < 5 \<or> unat ?r = 5" by linarith
  then have dom: "length domain \<le> 200" using region(2,3) by (auto simp: sdk_inv_def)
  have sign: "IOT_Sign_MQTT (g_infra_mqtt_domain (sdk_ctx st)) ?r (Some (meta_of pk dn ds)) s = Some (SUCCESS_RETURN, signed_as ?r domain pk dn ds)" for s
    using region dom by (intro Sign_MQTT_signed ok) (simp_all add: sdk_inv_def)
  have len: "length (sg_clientid (signed_as ?r domain pk dn ds)) = 200"
    using did ok by (simp add: signed_as_def client_id_text_def)
  have run: "construct_sign dev given st = sign_get_clientid (sg_clientid (signed_as ?r domain pk dn ds)) (holding 53 ?did) (asked_custom given) itls \<bind>
      (\<lambda>(rc, clientid). let st = st\<lparr>g_default_sign := (signed_as ?r domain pk dn ds)\<lparr>sg_clientid := clientid\<rparr>\<rparr>
       in Some (if rc \<noteq> SUCCESS_RETURN then Inl st else Inr st))"
    using sign get_meta_info_fits [of dev] ident make_device_id_text [OF ok(1)] dev
    by (simp add: construct_sign_def Let_def itls_def asked_custom_def split: option.split)
  show ?thesis
  proof (cases "length pk + length dn + 93 + (case asked_custom given of None \<Rightarrow> 0 | Some kv \<Rightarrow> length kv + 1) < 200")
    case True
    have m: "(if itls > 0 then MODE_ITLS_DNS_ID2 else MODE_TCP_DIRECT_PLAIN) = asked_mode given"
      by (simp add: itls_def asked_mode_def split: option.split)
    have "sign_get_clientid (sg_clientid (signed_as ?r domain pk dn ds)) (holding 53 ?did) (asked_custom given) itls =
        Some (SUCCESS_RETURN, holding 200 (client_id_text ?did (asked_mode given) (asked_custom given)))"
      unfolding m [symmetric]
      by (rule sign_get_clientid_text [OF did(1) _ _ _ len]) (use True did(2) ok custom in \<open>auto split: option.splits\<close>)
    with True run show ?thesis by (simp only: if_True) simp
  next
    case False
    then obtain kv where kv: "asked_custom given = Some kv" "200 \<le> length ?did + 92 + length kv + 1"
      using ok(2) did(2) by (cases "asked_custom given") auto
    have "length ?did + 92 < 200" "length ?did < 53" using ok(2) did(2) by simp_all
    from sign_get_clientid_long [OF did(1) this(1) kv(2) this(2) len, of itls] obtain b where
      "sign_get_clientid (sg_clientid (signed_as ?r domain pk dn ds)) (holding 53 ?did) (Some kv) itls = Some (FAIL_RETURN, b)" by blast
    then have "construct_sign dev given st = Some (Inl (st\<lparr>g_default_sign := (signed_as ?r domain pk dn ds)\<lparr>sg_clientid := b\<rparr>\<rparr>))"
      unfolding run kv(1) by (simp add: mqtt_error_defs Let_def)
    then show ?thesis using False by (simp only: if_False) blast
  qed
qed

lemma signed_host:
  assumes "identity_fits pk dn ds" "text_ok domain" "length domain \<le> 64"
  shows "str_of (holding 256 (if region = 5 then domain else pk @ ascii ''.'' @ domain)) =
    Some (if region = (5 :: u32) then domain else pk @ ascii ''.'' @ domain)"
  using assms by (simp add: text_ok_ascii identity_fits_def identity_ok_def sign_config_defs)

lemma signed_strs:
  assumes "identity_fits pk dn ds"
  shows "str_of (holding 64 (dn @ ascii ''&'' @ pk)) = Some (dn @ ascii ''&'' @ pk)"
    "str_of (holding 65 (hex_upper (hmac sha256 ds (sign_source (pk @ ascii ''.'' @ dn) dn pk)))) = Some (hex_upper (hmac sha256 ds (sign_source (pk @ ascii ''.'' @ dn) dn pk)))"
proof -
  have ok: "text_ok pk" "text_ok dn" "length pk \<le> 20" "length dn \<le> 32" "length pk + length dn < 52"
    using assms(1) by (simp_all add: identity_fits_def identity_ok_def sign_config_defs)
  have "zEncode_upper ! i \<noteq> 0" if "i < 16" for i
    using that nth_mem [of i zEncode_upper] by (auto simp: zEncode_upper_def)
  then have "text_ok (hex_upper bs)" for bs using and_15_lt by (auto simp: text_ok_def hex_upper_def hex_digits_def)
  moreover have "length (hmac sha256 k m) = 32" for k m using sha256_alg.length_H by (simp add: hmac_def SHA256_DIGEST_SIZE_def)
  ultimately show "str_of (holding 64 (dn @ ascii ''&'' @ pk)) = Some (dn @ ascii ''&'' @ pk)"
    "str_of (holding 65 (hex_upper (hmac sha256 ds (sign_source (pk @ ascii ''.'' @ dn) dn pk)))) = Some (hex_upper (hmac sha256 ds (sign_source (pk @ ascii ''.'' @ dn) dn pk)))"
    using ok by (simp_all add: text_ok_ascii)
qed

text \<open>A text of the parameters where it is given and not empty, and otherwise the signed one.\<close>

definition asked_or :: "cstr option \<Rightarrow> cstr \<Rightarrow> cstr" where
  "asked_or given own = (case given of None \<Rightarrow> own | Some s \<Rightarrow> if s = [] then own else s)"

definition asked_keepalive :: "mqtt_param option \<Rightarrow> u16" where
  "asked_keepalive given = (case given of None \<Rightarrow> 60
     | Some q \<Rightarrow> if 30000 \<le> keepalive_interval_ms q \<and> keepalive_interval_ms q \<le> 1200000 then ucast (keepalive_interval_ms q div 1000) else 60)"

lemma keepalive_seconds:
  assumes "(30000 :: u32) \<le> w" "w \<le> 1200000"
  shows "(30 :: u16) \<le> ucast (w div 1000)" "ucast (w div 1000) \<le> (1200 :: u16)"
proof -
  have w: "30000 \<le> unat w" "unat w \<le> 1200000" using assms by (simp_all add: word_le_nat_alt)
  then have "30 \<le> unat w div 1000" "unat w div 1000 \<le> 1200" by linarith+
  then have "unat (ucast (w div 1000) :: u16) = unat w div 1000"
    by (simp add: unsigned_ucast_eq take_bit_eq_mod unat_div)
  with \<open>30 \<le> unat w div 1000\<close> \<open>unat w div 1000 \<le> 1200\<close>
  show "(30 :: u16) \<le> ucast (w div 1000)" "ucast (w div 1000) \<le> (1200 :: u16)" by (simp_all add: word_le_nat_alt)
qed

lemma param_or_asked: "str_of own = Some s \<Longrightarrow> param_or given own = Some (Some (asked_or given s))"
  by (auto simp: param_or_def asked_or_def split: option.split)

lemma params_credentials:
  assumes "identity_fits pk dn ds" "text_ok domain" "length domain \<le> 64" "text_ok cid" "length cid < 200"
    and "construct_params given ((signed_as region domain pk dn ds)\<lparr>sg_clientid := holding 200 cid\<rparr>) = Some params"
  shows "client_id params = Some (asked_or (given \<bind> client_id) cid) \<and>
    user params = Some (asked_or (given \<bind> user) (dn @ ascii ''&'' @ pk)) \<and>
    passwd params = Some (asked_or (given \<bind> passwd) (hex_upper (hmac sha256 ds (sign_source (pk @ ascii ''.'' @ dn) dn pk)))) \<and>
    keepAliveInterval (connect_data_of params) = asked_keepalive given"
proof -
  have cid: "str_of (holding 200 cid) = Some cid" using assms(4,5) by simp
  note strs = signed_host [OF assms(1-3), of region] signed_strs [OF assms(1)] cid
  show ?thesis
  proof (cases given)
    case None
    then show ?thesis
      using assms(6) strs
      by (auto simp: construct_params_def signed_as_def asked_or_def asked_keepalive_def connect_data_of_def mqtt_config_defs Let_def)
  next
    case (Some q)
    have fields: "client_id params = Some (asked_or (client_id q) cid) \<and> user params = Some (asked_or (user q) (dn @ ascii ''&'' @ pk)) \<and>
        passwd params = Some (asked_or (passwd q) (hex_upper (hmac sha256 ds (sign_source (pk @ ascii ''.'' @ dn) dn pk))))"
      "keepalive_interval_ms params = (if keepalive_interval_ms q < 30000 \<or> keepalive_interval_ms q > 1200000 then 60000 else keepalive_interval_ms q)"
      using assms(6) Some strs
      by (auto simp: construct_params_def signed_as_def param_or_asked mqtt_config_defs bind_eq_Some_conv)
    then show ?thesis
      using Some keepalive_seconds [of "keepalive_interval_ms q"]
      by (auto simp: asked_keepalive_def connect_data_of_def Let_def not_less MQTTPacket_connectData_initializer_def)
  qed
qed

lemma client_id_ok:
  assumes "identity_fits pk dn ds" "\<And>kv. custom = Some kv \<Longrightarrow> text_ok kv" "mode \<in> {MODE_ITLS_DNS_ID2, MODE_TCP_DIRECT_PLAIN}"
    and "length pk + length dn + 93 + (case custom of None \<Rightarrow> 0 | Some kv \<Rightarrow> length kv + 1) < 200"
  shows "text_ok (client_id_text (pk @ ascii ''.'' @ dn) mode custom)" "length (client_id_text (pk @ ascii ''.'' @ dn) mode custom) < 200"
  using assms by (auto simp: client_id_text_def text_ok_ascii identity_fits_def identity_ok_def MODE_ITLS_DNS_ID2_def MODE_TCP_DIRECT_PLAIN_def split: option.splits)

lemma asked_mode_range: "asked_mode given \<in> {MODE_ITLS_DNS_ID2, MODE_TCP_DIRECT_PLAIN}"
  by (simp add: asked_mode_def split: option.split)

subsection \<open>Properties\<close>

text \<open>For the witnesses: a program that has just been loaded, on a platform where the broker accepts the connection.\<close>

definition accepting_hal :: hal where
  "accepting_hal = (hal_at (\<lambda>_. 0))\<lparr>net_read := \<lambda>t n _. (int n, \<lambda>i. if n = 1 then (if t < 13 then 0x20 else 2) else 0)\<rparr>"

definition loaded_api :: "iotx_sign_mqtt_t \<Rightarrow> mqtt_api" where
  "loaded_api s = \<lparr>g_mqtt_client = None, api_client = None, next_ptr = 1, api_hal = accepting_hal, offline_init = False, offline_sub_list = [],
     g_default_sign = s, sdk_ctx = g_sdk_impl_ctx, event_map = g_impl_event_map, info_report_func = False, g_report_id = 0, connect_calls = []\<rparr>"

definition lamp :: device where
  "lamp = device_of (ascii ''a1X'') (ascii ''lamp'') (ascii ''s3cret'')"

definition lamp_params :: "cstr \<Rightarrow> cstr \<Rightarrow> iotx_mqtt_param_t" where
  "lamp_params hostname pw =
     \<lparr>host = Some hostname, client_id = Some (client_id_text (ascii ''a1X'' @ ascii ''.'' @ ascii ''lamp'') (ascii ''3'') None),
      user = Some (ascii ''lamp'' @ ascii ''&'' @ ascii ''a1X''), passwd = Some pw, clean_session = 0, req_timeout_ms = 2000,
      keepalive_interval_ms = 60000, write_buf_size = 1024, read_buf_size = 1024, init_handle_event = \<lparr>h_fp = None, pcontext = 0\<rparr>\<rparr>"

fun is_constructed :: "(nat option \<times> mqtt_api) option \<Rightarrow> bool" where
  "is_constructed (Some (Some p, st)) = True"
| "is_constructed _ = False"

lemma lamp_connects:
  "case wrapper_mqtt_init (Some (lamp_params hostname (map ((!) pw) [0..<64]))) accepting_hal of
     (None, h) \<Rightarrow> False | (Some c, h) \<Rightarrow> is_constructed (construct_connect lamp c (loaded_api s))"
  by code_simp

lemma lamp_fits: "identity_fits (ascii ''a1X'') (ascii ''lamp'') (ascii ''s3cret'')"
  by (simp add: identity_fits_def identity_ok_def sign_config_defs text_ok_ascii) (simp add: ascii_def)

lemma loaded_inv: "api_init (loaded_api s)" "api_inv (loaded_api s)"
  using api.inv_init by (auto simp: api_init_def loaded_api_def)

lemma lamp_region:
  "domain_type (sdk_ctx (loaded_api s)) = 0" "sdk_inv (sdk_ctx (loaded_api s))"
  "g_infra_mqtt_domain (sdk_ctx (loaded_api s)) ! 0 = Some (ascii ''iot-as-mqtt.cn-shanghai.aliyuncs.com'')" "g_mqtt_client (loaded_api s) = None"
  using sdk_inv_init by (simp_all add: loaded_api_def g_sdk_impl_ctx_def infra_mqtt_domains_def)

text \<open>Parameters that ask for a user name, an addition to the client id and a keep-alive interval of 90 seconds.\<close>

definition lamp_asked :: mqtt_param where
  "lamp_asked = \<lparr>host = None, client_id = None, user = Some (ascii ''me''), passwd = Some [], clean_session = 1, req_timeout_ms = 0,
     keepalive_interval_ms = 90000, write_buf_size = 0, read_buf_size = 0, init_handle_event = \<lparr>h_fp = None, pcontext = 0\<rparr>, port = 0,
     customize_info = Some (ascii ''k=v'')\<rparr>"

definition lamp_asked_params :: "cstr \<Rightarrow> cstr \<Rightarrow> iotx_mqtt_param_t" where
  "lamp_asked_params hostname pw =
     \<lparr>host = Some hostname, client_id = Some (client_id_text (ascii ''a1X'' @ ascii ''.'' @ ascii ''lamp'') (ascii ''3'') (Some (ascii ''k=v''))),
      user = Some (ascii ''me''), passwd = Some pw, clean_session = 1, req_timeout_ms = 2000,
      keepalive_interval_ms = 90000, write_buf_size = 1024, read_buf_size = 1024, init_handle_event = \<lparr>h_fp = None, pcontext = 0\<rparr>\<rparr>"

lemma lamp_asked_connects:
  "case wrapper_mqtt_init (Some (lamp_asked_params hostname (map ((!) pw) [0..<64]))) accepting_hal of
     (None, h) \<Rightarrow> False | (Some c, h) \<Rightarrow> is_constructed (construct_connect lamp c (loaded_api s))"
  by code_simp

definition lamp_domain :: cstr where "lamp_domain = ascii ''iot-as-mqtt.cn-shanghai.aliyuncs.com''"

definition lamp_pw :: cstr where
  "lamp_pw = hex_upper (hmac sha256 (ascii ''s3cret'') (sign_source (ascii ''a1X'' @ ascii ''.'' @ ascii ''lamp'') (ascii ''lamp'') (ascii ''a1X'')))"

definition lamp_sign :: "mqtt_param option \<Rightarrow> iotx_sign_mqtt_t" where
  "lamp_sign given = (signed_as 0 lamp_domain (ascii ''a1X'') (ascii ''lamp'') (ascii ''s3cret''))
     \<lparr>sg_clientid := holding 200 (client_id_text (ascii ''a1X'' @ ascii ''.'' @ ascii ''lamp'') (asked_mode given) (asked_custom given))\<rparr>"

lemma lamp_pw_chars: "map ((!) lamp_pw) [0..<64] = lamp_pw"
proof -
  have "length lamp_pw = 64" using sha256_alg.length_H by (simp add: lamp_pw_def hmac_def SHA256_DIGEST_SIZE_def)
  then show ?thesis using map_nth [of lamp_pw] by simp
qed

lemma lamp_constructs:
  assumes "\<And>kv. asked_custom given = Some kv \<Longrightarrow> text_ok kv \<and> length kv < 99"
    and "\<exists>params. construct_params given (lamp_sign given) = Some params \<and> iotx_mqtt_param_t.truncate params = P"
    and "case wrapper_mqtt_init (Some P) accepting_hal of
      (None, h) \<Rightarrow> False | (Some c, h) \<Rightarrow> is_constructed (construct_connect lamp c (loaded_api (lamp_sign given)))"
  shows "\<exists>p st'. IOT_MQTT_Construct lamp given (loaded_api zero_sign) = Some (Some p, st')"
proof -
  have dev: "dev_product_key lamp = ascii ''a1X''" "dev_device_name lamp = ascii ''lamp''" "dev_device_secret lamp = ascii ''s3cret''"
    by (simp_all add: lamp_def device_of_def)
  have fits: "length (ascii ''a1X'') + length (ascii ''lamp'') + 93 + (case asked_custom given of None \<Rightarrow> 0 | Some kv \<Rightarrow> length kv + 1) < 200"
    using assms(1) by (simp split: option.split)
  have "construct_sign lamp given (loaded_api zero_sign) = Some (Inr (loaded_api (lamp_sign given)))"
    using construct_sign_signs [OF lamp_fits, of "loaded_api zero_sign" lamp_domain lamp given] lamp_region [of zero_sign] dev assms(1) fits
    by (simp only: if_True simp_thms) (simp add: lamp_domain_def lamp_sign_def loaded_api_def)
  moreover have "g_default_sign (loaded_api s) = s" "api_hal (loaded_api s) = accepting_hal" for s by (simp_all add: loaded_api_def)
  ultimately have "IOT_MQTT_Construct lamp given (loaded_api zero_sign) =
      (case wrapper_mqtt_init (Some P) accepting_hal of
         (None, h) \<Rightarrow> Some (None, (loaded_api (lamp_sign given))\<lparr>api_hal := h\<rparr>) | (Some c, h) \<Rightarrow> construct_connect lamp c (loaded_api (lamp_sign given)))"
    using lamp_region(4) assms(2) by (auto simp: IOT_MQTT_Construct_def)
  then show ?thesis
    using assms(3) by (auto split: prod.splits option.splits elim!: is_constructed.elims)
qed

lemma lamp_strs:
  "str_of (sg_hostname (lamp_sign given)) = Some (ascii ''a1X'' @ ascii ''.'' @ lamp_domain)" "str_of (sg_password (lamp_sign given)) = Some lamp_pw"
  "str_of (sg_username (lamp_sign given)) = Some (ascii ''lamp'' @ ascii ''&'' @ ascii ''a1X'')"
  using signed_host [OF lamp_fits, of lamp_domain 0] signed_strs [OF lamp_fits]
  by (simp_all add: lamp_sign_def signed_as_def lamp_pw_def lamp_domain_def text_ok_ascii)

lemma lamp_clientid:
  assumes "\<And>kv. asked_custom given = Some kv \<Longrightarrow> text_ok kv \<and> length kv < 99"
  shows "str_of (sg_clientid (lamp_sign given)) =
    Some (client_id_text (ascii ''a1X'' @ ascii ''.'' @ ascii ''lamp'') (asked_mode given) (asked_custom given))"
proof -
  have "length (ascii ''a1X'') + length (ascii ''lamp'') + 93 + (case asked_custom given of None \<Rightarrow> 0 | Some kv \<Rightarrow> length kv + 1) < 200"
    using assms by (simp split: option.split)
  from client_id_ok [OF lamp_fits _ asked_mode_range this] assms show ?thesis by (simp add: lamp_sign_def)
qed

lemma lamp_constructed: "\<exists>p st'. IOT_MQTT_Construct lamp None (loaded_api zero_sign) = Some (Some p, st')"
proof (rule lamp_constructs [where P = "lamp_params (ascii ''a1X'' @ ascii ''.'' @ lamp_domain) lamp_pw"], goal_cases)
  case 2
  show ?case
    using lamp_strs [of None] lamp_clientid [of None]
    by (simp add: construct_params_def asked_custom_def asked_mode_def MODE_TCP_DIRECT_PLAIN_def mqtt_config_defs
        CONFIG_MQTT_MESSAGE_MAXLEN_def lamp_params_def iotx_mqtt_param_t.truncate_def)
next
  case 3
  show ?case using lamp_connects [where pw = lamp_pw] unfolding lamp_pw_chars .
qed (simp add: asked_custom_def)

lemma lamp_asked_constructed: "\<exists>p st'. IOT_MQTT_Construct lamp (Some lamp_asked) (loaded_api zero_sign) = Some (Some p, st')"
proof (rule lamp_constructs [where P = "lamp_asked_params (ascii ''a1X'' @ ascii ''.'' @ lamp_domain) lamp_pw"], goal_cases)
  case (1 kv)
  then show ?case by (auto simp: asked_custom_def lamp_asked_def text_ok_ascii)
next
  case 2
  have c: "asked_custom (Some lamp_asked) = Some (ascii ''k=v'')" by (simp add: asked_custom_def lamp_asked_def)
  have "\<not> has_substring (ascii ''authtype=id2'') (ascii ''k=v'')" by code_simp
  then have m: "asked_mode (Some lamp_asked) = ascii ''3''" by (simp add: asked_mode_def c MODE_TCP_DIRECT_PLAIN_def)
  have "str_of (sg_clientid (lamp_sign (Some lamp_asked))) =
      Some (client_id_text (ascii ''a1X'' @ ascii ''.'' @ ascii ''lamp'') (ascii ''3'') (Some (ascii ''k=v'')))"
    using lamp_clientid [of "Some lamp_asked"] unfolding c m by (simp add: text_ok_ascii)
  note strs = this lamp_strs [of "Some lamp_asked"]
  define sign where "sign = lamp_sign (Some lamp_asked)"
  have "ascii ''me'' \<noteq> []" by (simp add: ascii_def)
  with strs show ?case
    unfolding sign_def [symmetric]
    by (simp add: construct_params_def param_or_def mqtt_config_defs CONFIG_MQTT_MESSAGE_MAXLEN_def lamp_asked_def
        lamp_asked_params_def iotx_mqtt_param_t.truncate_def)
next
  case 3
  show ?case using lamp_asked_connects [where pw = lamp_pw] unfolding lamp_pw_chars .
qed

text \<open>
  C18: Whatever the application does with the interface (constructing, destroying, yielding, subscribing,
  publishing, setting options and callbacks, with or without a handle), the default client is either
  absent or the one allocated client, which then satisfies the client's own invariant and is in a
  live state; so a call without a handle never touches freed memory. The subscriptions that wait for
  a client have different topics and a handler each.
\<close>

theorem api_reachable:
  assumes "reachable api_init (api_step dev) st"
  shows "(case g_mqtt_client st of None \<Rightarrow> api_client st = None | Some p \<Rightarrow> \<exists>c. api_client st = Some (p, c) \<and> client_inv c \<and>
       client_state c \<in> {IOTX_MC_STATE_INITIALIZED, IOTX_MC_STATE_CONNECTED, IOTX_MC_STATE_DISCONNECTED, IOTX_MC_STATE_DISCONNECTED_RECONNECTING}) \<and>
     distinct (map os_topic_filter (offline_sub_list st)) \<and> list_all (\<lambda>n. os_handle n \<noteq> None) (offline_sub_list st)"
  using api.reachable_inv [OF assms] by (auto simp: api_inv_def client_ok_def offline_ok_def live_def split: option.split)

theorem api_reachable_witness:
  "\<exists>p st c. IOT_MQTT_Construct lamp None (loaded_api zero_sign) = Some (Some p, st) \<and> g_mqtt_client st = Some p \<and> api_client st = Some (p, c) \<and> client_inv c"
proof -
  obtain p st where run: "IOT_MQTT_Construct lamp None (loaded_api zero_sign) = Some (Some p, st)" using lamp_constructed by blast
  have "reachable api_init (api_step lamp) st" by (rule reach_step, rule reach_init, rule loaded_inv(1), rule api_construct, rule run)
  from api_reachable [OF this] have "g_mqtt_client st = Some p' \<Longrightarrow> \<exists>c. api_client st = Some (p', c) \<and> client_inv c" for p' by auto
  moreover have "g_mqtt_client st = Some p"
    using postD [OF Construct_outcome [OF loaded_inv(2) lamp_region(4)] run] by (auto simp: constructed_def)
  ultimately show ?thesis using run by blast
qed

text \<open>
  C19: After a successful \<open>IOT_MQTT_Construct\<close> on a device whose identity fits, with or without parameters, the
  default client is live and its CONNECT data are what the application asked for: each of client
  id, user name and password is the one of the parameters where that is given and not empty, and
  otherwise the signed one: the client id of the device with the security mode and the addition of
  \<open>customize_info\<close>, the user name \<open>name&key\<close>, and as password the HMAC-SHA256 of the identity under the device
  secret. The keep-alive interval is the one asked for where it is from 30 to 1200 seconds, and
  otherwise 60. The subscriptions that waited are handed over: none is left. An addition that
  does not fit into the client id makes the construction fail.
\<close>

theorem construct_credentials:
  assumes st: "api_inv st" "g_mqtt_client st = None" and ident: "identity_fits pk dn ds"
    and dev: "dev_product_key dev = pk" "dev_device_name dev = dn" "dev_device_secret dev = ds"
    and region: "domain_type (sdk_ctx st) < 6" "g_infra_mqtt_domain (sdk_ctx st) ! unat (domain_type (sdk_ctx st)) = Some domain"
    and custom: "\<And>kv. asked_custom given = Some kv \<Longrightarrow> text_ok kv"
    and run: "IOT_MQTT_Construct dev given st = Some (Some p, st')"
  shows "g_mqtt_client st' = Some p \<and> offline_sub_list st' = [] \<and>
     (\<exists>c. api_client st' = Some (p, c) \<and> live c \<and>
        cstring (clientID (connect_data c)) =
          Some (asked_or (given \<bind> client_id) (client_id_text (pk @ ascii ''.'' @ dn) (asked_mode given) (asked_custom given))) \<and>
        cstring (username (connect_data c)) = Some (asked_or (given \<bind> user) (dn @ ascii ''&'' @ pk)) \<and>
        cstring (password (connect_data c)) =
          Some (asked_or (given \<bind> passwd) (hex_upper (hmac sha256 ds (sign_source (pk @ ascii ''.'' @ dn) dn pk)))) \<and>
        keepAliveInterval (connect_data c) = asked_keepalive given) \<and>
     (\<forall>kv. asked_custom given = Some kv \<longrightarrow> length pk + length dn + 94 + length kv < 200)"
proof -
  have sdk: "sdk_inv (sdk_ctx st)" using st by (simp add: api_inv_def)
  have "unat (domain_type (sdk_ctx st)) < 6" using region(1) by (simp add: word_less_nat_alt)
  then have "unat (domain_type (sdk_ctx st)) < 5 \<or> unat (domain_type (sdk_ctx st)) = 5" by linarith
  then have dom: "text_ok domain" "length domain \<le> 64" using sdk region(2) by (auto simp: sdk_inv_def)
  let ?cid = "client_id_text (pk @ ascii ''.'' @ dn) (asked_mode given) (asked_custom given)"
  obtain st1 where st1: "constructed given st1 (Some p) st'" "construct_sign dev given st = Some (Inr st1)"
    using postD [OF Construct_outcome [OF st] run] by auto
  with construct_sign_signs [OF ident region(1) sdk region(2) dev custom, where given = given]
  have fits: "length pk + length dn + 93 + (case asked_custom given of None \<Rightarrow> 0 | Some kv \<Rightarrow> length kv + 1) < 200"
    and sign: "g_default_sign st1 = (signed_as (domain_type (sdk_ctx st)) domain pk dn ds)\<lparr>sg_clientid := holding 200 ?cid\<rparr>"
    by (auto split: if_splits)
  from st1(1) sign obtain c params where c: "g_mqtt_client st' = Some p" "offline_sub_list st' = []" "api_client st' = Some (p, c)" "live c"
    "connect_data c = connect_data_of params"
    and params: "construct_params given ((signed_as (domain_type (sdk_ctx st)) domain pk dn ds)\<lparr>sg_clientid := holding 200 ?cid\<rparr>) = Some params"
    by (auto simp: constructed_def)
  note cred = params_credentials [OF ident dom client_id_ok [OF ident custom asked_mode_range fits] params]
  show ?thesis
    using c cred fits by (auto simp: connect_data_of_def Let_def MQTTPacket_connectData_initializer_def split: option.splits)
qed

theorem construct_credentials_witness:
  "\<exists>p st' c. IOT_MQTT_Construct lamp (Some lamp_asked) (loaded_api zero_sign) = Some (Some p, st') \<and> api_client st' = Some (p, c) \<and>
     cstring (username (connect_data c)) = Some (ascii ''me'') \<and>
     cstring (password (connect_data c)) =
       Some (hex_upper (hmac sha256 (ascii ''s3cret'') (sign_source (ascii ''a1X'' @ ascii ''.'' @ ascii ''lamp'') (ascii ''lamp'') (ascii ''a1X'')))) \<and>
     keepAliveInterval (connect_data c) = 90"
proof -
  obtain p st' where run: "IOT_MQTT_Construct lamp (Some lamp_asked) (loaded_api zero_sign) = Some (Some p, st')" using lamp_asked_constructed by blast
  have "asked_keepalive (Some lamp_asked) = 90" "asked_or (user lamp_asked) t = ascii ''me''" "asked_or (passwd lamp_asked) t = t" for t
    by (simp_all add: asked_keepalive_def asked_or_def lamp_asked_def ascii_def)
  then show ?thesis
    using construct_credentials [OF loaded_inv(2) lamp_region(4) lamp_fits _ _ _ _ _ _ run] run lamp_region [of zero_sign]
    by (auto simp: lamp_def device_of_def asked_custom_def lamp_asked_def text_ok_ascii)
qed

text \<open>
  C21: The subscriptions before a client exists form a map from topics to quality of service, handler
  and context: a successful \<open>iotx_mqtt_offline_subscribe\<close> updates it at its topic, a failed one changes nothing, and
  the topics stay in the order in which they were first asked for.
\<close>

theorem offline_subscriptions:
  assumes "api_inv st" "iotx_mqtt_offline_subscribe (Some t) q (Some fp) x st = (rc, st')"
  shows "offline_map st' = (if rc = SUCCESS_RETURN then (offline_map st)(t \<mapsto> (q, Some fp, x)) else offline_map st) \<and>
     map os_topic_filter (offline_sub_list st') =
       map os_topic_filter (offline_sub_list st) @ (if rc = SUCCESS_RETURN \<and> offline_map st t = None then [t] else [])"
  by (rule offline_subscribe_updates) (use assms in \<open>simp_all add: api_inv_def\<close>)

theorem offline_subscriptions_witness:
  "let st = snd (iotx_mqtt_offline_subscribe (Some [1]) 0 (Some 7) 0 (loaded_api zero_sign))
   in offline_map (snd (iotx_mqtt_offline_subscribe (Some [1]) 1 (Some 8) 0 st)) = (offline_map st)([1] \<mapsto> (1, Some 8, 0))"
proof -
  define st where "st = snd (iotx_mqtt_offline_subscribe (Some [1]) 0 (Some 7) 0 (loaded_api zero_sign))"
  obtain rc st' where r: "iotx_mqtt_offline_subscribe (Some [1]) 1 (Some 8) 0 st = (rc, st')" by fastforce
  have "api_inv st" unfolding st_def by (rule offline_subscribe_ok [OF loaded_inv(2)])
  moreover have "fst (iotx_mqtt_offline_subscribe (Some [1]) 1 (Some 8) 0 st) = SUCCESS_RETURN" unfolding st_def by code_simp
  ultimately show ?thesis using offline_subscriptions [of st "[1]" 1 8 0 rc st'] r by (simp add: st_def [symmetric] Let_def)
qed

text \<open>
  Setting the HTTP domain also makes the custom region the MQTT region, which has no domain yet: the
  next signature fails.
\<close>

lemma http_domain_breaks_mqtt:
  assumes "identity_fits pk dn ds" "text_ok s" "length s \<le> 64"
  shows "\<exists>ctx. IOT_Ioctl IOTX_IOCTL_SET_HTTP_DOMAIN (Some (IoStr s)) g_sdk_impl_ctx = Some (SUCCESS_RETURN, Some (IoStr s), ctx) \<and>
     (\<exists>sign. IOT_Sign_MQTT (g_infra_mqtt_domain ctx) (domain_type ctx) (Some (meta_of pk dn ds)) signout = Some (ERROR_DEV_SIGN_CUSTOM_DOMAIN_IS_NULL, sign))"
proof -
  have len: "length (http_custom_domain g_sdk_impl_ctx) = 65" by (simp add: g_sdk_impl_ctx_def IOTX_DOMAIN_MAX_LEN_def)
  then obtain b where b: "set_text (http_custom_domain g_sdk_impl_ctx) s = Some b" "str_of b = Some s"
    using set_text_fits [of s "http_custom_domain g_sdk_impl_ctx"] assms by auto
  define ctx where "ctx = g_sdk_impl_ctx\<lparr>domain_type := IOTX_CLOUD_REGION_CUSTOM, http_custom_domain := b,
      g_infra_http_domain := (g_infra_http_domain g_sdk_impl_ctx)[5 := Some s]\<rparr>"
  have "IOT_Ioctl IOTX_IOCTL_SET_HTTP_DOMAIN (Some (IoStr s)) g_sdk_impl_ctx = Some (SUCCESS_RETURN, Some (IoStr s), ctx)"
    using b assms(3) by (simp add: IOT_Ioctl_def ioctl_defs Let_def IOTX_DOMAIN_MAX_LEN_def ctx_def)
  moreover have "g_infra_mqtt_domain ctx = infra_mqtt_domains" "domain_type ctx = 5"
    by (simp_all add: ctx_def g_sdk_impl_ctx_def IOTX_CLOUD_REGION_CUSTOM_def)
  moreover have "\<exists>sign. IOT_Sign_MQTT infra_mqtt_domains 5 (Some (meta_of pk dn ds)) signout = Some (ERROR_DEV_SIGN_CUSTOM_DOMAIN_IS_NULL, sign)"
  proof -
    have ok: "identity_ok pk dn ds" "length pk + length dn < 52" using assms(1) by (simp_all add: identity_fits_def)
    have host: "sign_hostname infra_mqtt_domains 5 pk a = Some (ERROR_DEV_SIGN_CUSTOM_DOMAIN_IS_NULL, a)" for a
      by (simp add: sign_hostname_def infra_mqtt_domains_def IOTX_CLOUD_REGION_CUSTOM_def)
    show ?thesis
      using host sign_parts [OF ok] make_device_id_text [OF ok(1)]
      by (simp add: IOT_Sign_MQTT_def Let_def SUCCESS_RETURN_def zero_sign_def sign_config_defs sign_error_defs holding_Nil meta_of_def)
  qed
  ultimately show ?thesis by auto
qed

end
