(* ===== verification/MQTT_Handshake.thy ===== *)
theory MQTT_Handshake
  imports MQTT_Effects MQTT_Read MQTT_Reachable
begin

text \<open>
  The handshake of \<open>wrapper_mqtt_connect\<close> on the wire: which CONNECT packets it sends, which answer
  of the broker ends it, and that only a CONNACK with return code 0 makes it succeed.
\<close>

subsection \<open>Reading does not send\<close>

definition listens :: "iotx_mc_client_t \<Rightarrow> iotx_mc_client_t \<Rightarrow> bool" where
  "listens c c' \<longleftrightarrow> quiet (env c) (env c') \<and> reads_only c c'"

lemma listens_refl [simp]: "listens c c"
  by (simp add: listens_def)

lemma listens_trans: "listens a b \<Longrightarrow> listens b c \<Longrightarrow> listens a c"
  by (auto simp: listens_def intro: quiet_trans reads_only_trans)

lemma listens_upd [simp]:
  "listens c (c'\<lparr>events := e\<rparr>) = listens c c'" "listens c (c'\<lparr>buf_read := b\<rparr>) = listens c c'"
  "listens c (c'\<lparr>buf_size_read := n\<rparr>) = listens c c'"
  by (simp_all add: listens_def)

lemma listens_env: "listens c0 c \<Longrightarrow> quiet (env c0) h \<Longrightarrow> listens c0 (c\<lparr>env := h\<rparr>)"
  by (simp add: listens_def)

lemma time_left_quiet: "time_left_nz t h = (x, h') \<Longrightarrow> quiet h h'"
  by (auto simp: time_left_nz_def iotx_time_left_def utils_time_is_expired_def HAL_UptimeMs_def quiet_def next_tick_def Let_def
      split: if_splits)

lemma read_quiet: "ipstack_read n t h = (rc, d, h') \<Longrightarrow> quiet h h'"
  by (auto simp: ipstack_read_def Let_def split: prod.splits)

lemma listens_read: "listens c0 c \<Longrightarrow> ipstack_read n t (env c) = (rc, d, h) \<Longrightarrow> quiet (env c0) h"
  using read_quiet [of n t "env c" rc d h] by (simp add: listens_def quiet_def)

lemma listens_time_left:
  assumes "listens c0 c" "\<And>x c'. listens c0 c' \<Longrightarrow> post (f x c') Q"
  shows "post (case hal_run (time_left_nz t) c of (x, c') \<Rightarrow> f x c') Q"
proof (rule post_case_prod)
  fix x c' assume "hal_run (time_left_nz t) c = (x, c')"
  then have "listens c0 c'"
    using assms(1) by (auto simp: hal_run_def listens_def split: prod.splits dest!: time_left_quiet elim: quiet_trans)
  then show "post (f x c') Q" by (rule assms(2))
qed

lemma listens_malloc:
  assumes "listens c0 c" "\<And>x c'. listens c0 c' \<Longrightarrow> post (f x c') Q"
  shows "post (case hal_run (HAL_Malloc n) c of (x, c') \<Rightarrow> f x c') Q"
  using assms by (simp add: hal_run_def HAL_Malloc_def listens_def)

lemma listens_alloc:
  assumes "listens c0 c" and "\<And>rc c'. listens c0 c' \<Longrightarrow> post (f rc c') Q"
  shows "post (case alloc_recv_buffer c n of (rc, c') \<Rightarrow> f rc c') Q"
proof (rule post_case_prod)
  fix x c' assume "alloc_recv_buffer c n = (x, c')"
  then have "listens c0 c'"
    using assms(1)
    by (auto simp: listens_def alloc_recv_buffer_def hal_run_def HAL_Malloc_def Let_def split: prod.splits option.splits if_splits)
  then show "post (f x c') Q" by (rule assms(2))
qed

lemma listens_read_into:
  assumes "listens c0 c" and "\<And>rc c'. listens c0 c' \<Longrightarrow> Q (rc, c')"
  shows "post (read_into c off n t) Q"
  unfolding read_into_def using assms(1)
  by (auto intro!: post_bind_eq post_if post_case_prod assms(2) listens_env) (erule (1) listens_read)

lemma listens_decode_loop:
  "listens c0 c \<Longrightarrow> listens c0 (snd (snd (decode_packet_loop c len mult v t)))"
proof (induction "4 - len" arbitrary: c len mult v rule: less_induct)
  case less
  obtain rc data h where r: "ipstack_read 1 (if t = 0 then 1 else t) (env c) = (rc, data, h)"
    by (cases "ipstack_read 1 (if t = 0 then 1 else t) (env c)") auto
  have h: "listens c0 (c\<lparr>env := h\<rparr>)"
    using less.prems listens_read [OF less.prems r] by (rule listens_env)
  show ?case
  proof (cases "len < 4")
    case True
    have "listens c0 (snd (snd (decode_packet_loop (c\<lparr>env := h\<rparr>) (len + 1) m w t)))" for m w
      using True h by (intro less.hyps) simp_all
    then show ?thesis
      using less.prems h r by (subst decode_packet_loop.simps) (simp add: Let_def)
  next
    case False
    then show ?thesis
      using less.prems by (subst decode_packet_loop.simps) (simp add: MAX_NO_OF_REMAINING_LENGTH_BYTES_def)
  qed
qed

lemma listens_decode:
  assumes "listens c0 c" and "\<And>rc v c'. listens c0 c' \<Longrightarrow> post (f rc v c') Q"
  shows "post (case iotx_mc_decode_packet c t of (rc, v, c') \<Rightarrow> f rc v c') Q"
proof -
  obtain rc v c' where d: "decode_packet_loop c 0 1 0 t = (rc, v, c')" by (cases "decode_packet_loop c 0 1 0 t") auto
  then have "listens c0 c'" using listens_decode_loop [OF assms(1), of 0 1 0 t] by simp
  then show ?thesis by (simp add: iotx_mc_decode_packet_def d assms(2))
qed

lemma listens_event: "listens c0 c \<Longrightarrow> listens c0 (snd (handle_event_cb hdl c type msg))"
  by (simp add: listens_def handle_event_cb_frame) (simp add: handle_event_cb_def call_handle_def)

lemma listens_ipstack_read:
  assumes "listens c0 c" "\<And>rc d h. quiet (env c0) h \<Longrightarrow> post (f rc d h) Q"
  shows "post (case ipstack_read n t (env c) of (rc, d, h) \<Rightarrow> f rc d h) Q"
  using assms by (cases "ipstack_read n t (env c)") (auto dest: listens_read)

lemmas listens_rules = listens_time_left listens_malloc listens_alloc listens_decode listens_read_into [THEN post_bind] listens_event
  post_bind_eq [where m = "load b p" for b p] post_bind_eq [where m = "buf_read c" for c]
  post_bind_eq [where m = "MQTTPacket_encode b p n" for b p n] post_bind_eq [where m = "if x then store b p n else y" for x b p n y]
  post_if

lemma overlong_listens: "listens c0 c \<Longrightarrow> post (read_overlong c timer pt n r) (\<lambda>(rc, t, c'). listens c0 c')"
  unfolding read_overlong_def Let_def
  by (auto intro!: listens_rules listens_ipstack_read listens_env simp: if_split [of "listens c0"])

lemma read_packet_listens: "post (iotx_mc_read_packet c timer pt) (\<lambda>(rc, t, c'). listens c c')"
  unfolding iotx_mc_read_packet_def read_body_def read_remaining_def Let_def
  by (auto intro!: listens_rules overlong_listens)

subsection \<open>The answer of the broker\<close>

text \<open>The read buffer starts with a CONNACK packet with return code \<open>k\<close>.\<close>

definition connack :: "iotx_mc_client_t \<Rightarrow> byte \<Rightarrow> bool" where
  "connack c k \<longleftrightarrow> (\<exists>h flags body rest. buf_read c = Some (fixed_packet h (flags # k # body) @ rest) \<and>
     MQTT_HEADER_GET_TYPE h = cpt CONNACK \<and> length body < 268435454)"

lemma connack_deserializes:
  assumes "MQTT_HEADER_GET_TYPE h = cpt CONNACK" "length body < 268435454"
  shows "MQTTDeserialize_connack p q (fixed_packet h (flags # k # body) @ rest) = Some (1, sessionpresent flags, k)"
proof -
  let ?b = "flags # k # body"
  let ?pre = "h # remlen_bytes (length ?b)"
  have pkt: "fixed_packet h ?b @ rest = ?pre @ flags # k # body @ rest" by (simp add: fixed_packet_def)
  have f: "readChar (fixed_packet h ?b @ rest) (length ?pre) = Some (flags, length ?pre + 1)"
    unfolding pkt by (rule readChar_append)
  have k: "readChar (fixed_packet h ?b @ rest) (length ?pre + 1) = Some (k, length ?pre + 2)"
    using readChar_append [of "?pre @ [flags]" k "body @ rest"] unfolding pkt by simp
  show ?thesis
    unfolding MQTTDeserialize_connack_def readChar_fixed_packet
    using f k decodeBuf_fixed_packet [of ?b h rest] assms by simp
qed

lemma recv_CONNACK_code:
  assumes "connack c k"
  shows "k = 0 \<Longrightarrow> iotx_mc_handle_recv_CONNACK c = Some SUCCESS_RETURN"
    and "k \<noteq> 0 \<Longrightarrow> iotx_mc_handle_recv_CONNACK c \<noteq> Some SUCCESS_RETURN"
    and "k \<in> {1, 2, 3, 4, 5} \<Longrightarrow> \<exists>rc \<in> {-38 .. -34}. iotx_mc_handle_recv_CONNACK c = Some rc"
  using assms by (auto simp: connack_def iotx_mc_handle_recv_CONNACK_def connack_deserializes mqtt_error_defs split: if_splits)

lemma recv_CONNACK_success:
  assumes "frame_in c (cpt CONNACK)" "iotx_mc_handle_recv_CONNACK c = Some SUCCESS_RETURN"
  shows "connack c 0"
proof -
  from assms(1) obtain h body rest where b: "buf_read c = Some (fixed_packet h body @ rest)"
    "MQTT_HEADER_GET_TYPE h = cpt CONNACK" "length body < 268435456" by (auto simp: frame_in_def)
  show ?thesis
  proof (cases "length body < 2")
    case True
    then have "remlen_bytes (length body) = [of_nat (length body)]" by (subst remlen_bytes.simps) simp
    then have "MQTTDeserialize_connack 0 255 (fixed_packet h body @ rest) = Some (1, 0, 255)"
      using True b decodeBuf_fixed_packet [OF b(3), of h rest]
      unfolding MQTTDeserialize_connack_def readChar_fixed_packet by simp
    then show ?thesis using assms(2) b(1) by (simp add: iotx_mc_handle_recv_CONNACK_def mqtt_error_defs)
  next
    case False
    then obtain flags k bs where "body = flags # k # bs" by (cases body; cases "tl body") auto
    with b have "connack c k" by (auto simp: connack_def)
    with assms(2) recv_CONNACK_code(2) show ?thesis by blast
  qed
qed

text \<open>The last packet that was read in a run that ends in \<open>c'\<close> is a CONNACK with return code 0, read by \<open>c1\<close>.\<close>

definition accepted :: "iotx_mc_client_t \<Rightarrow> iotx_mc_client_t \<Rightarrow> bool" where
  "accepted c1 c' \<longleftrightarrow> (\<exists>t p c2. iotx_mc_read_packet c1 t p = Some (SUCCESS_RETURN, cpt CONNACK, c2) \<and>
     connack c2 0 \<and> env c' = env c2)"

lemma wait_loop_accepted:
  assumes "5 \<le> buf_size_read_max c"
  shows "post (wait_CONNACK_loop c t w p) (\<lambda>(rc, c'). listens c c' \<and> (rc = SUCCESS_RETURN \<longrightarrow> (\<exists>c1. listens c c1 \<and> accepted c1 c')))"
  using assms
proof (induction "11 - w" arbitrary: c w p rule: less_induct)
  case less
  let ?Q = "\<lambda>c (rc, c'). listens c c' \<and> (rc = SUCCESS_RETURN \<longrightarrow> (\<exists>c1. listens c c1 \<and> accepted c1 c'))"
  show ?case
  proof (subst wait_CONNACK_loop.simps, rule post_bind_eq, goal_cases)
    case (1 x)
    obtain rc type c2 where x: "x = (rc, type, c2)" by (cases x) auto
    have l: "listens c c2" using postD [OF read_packet_listens 1] x by simp
    have max: "5 \<le> buf_size_read_max c2"
      using l less.prems by (simp add: listens_def reads_only_def same_session_def)
    have reset: "listens c (reset_recv_buffer c2)" "env (reset_recv_buffer c2) = env c2"
      using l by (simp_all add: reset_recv_buffer_def)
    have IH: "post (wait_CONNACK_loop c2 t (w + 1) type) (?Q c)" if "\<not> w + 1 > WAIT_CONNACK_MAX"
      by (rule post_conseq [OF less.hyps [OF _ max]])
         (use that l in \<open>auto simp: WAIT_CONNACK_MAX_def intro: listens_trans\<close>)
    have ack: "\<exists>c1. listens c c1 \<and> accepted c1 (reset_recv_buffer c2)"
      if "rc = SUCCESS_RETURN" "type = cpt CONNACK" "iotx_mc_handle_recv_CONNACK c2 = Some SUCCESS_RETURN"
    proof -
      have "read_result p x" using postD [OF returns_post [OF returns_read_packet [OF less.prems]] 1] .
      then have "frame_in c2 (cpt CONNACK)" using that x by (auto simp: read_result_def)
      from recv_CONNACK_success [OF this that(3)] show ?thesis
        using 1 x that(1,2) reset(2) by (intro exI [of _ c]) (auto simp: accepted_def)
    qed
    have net: "MQTT_NETWORK_ERROR \<noteq> SUCCESS_RETURN" by simp
    show ?case
      unfolding x prod.case
      using IH reset(1) ack net
      by (auto intro!: post_if post_bind_eq [where m = "iotx_mc_handle_recv_CONNACK c2"])
  qed
qed

lemma countdown_run:
  "hal_run (utils_time_countdown_ms ms) c = (ucast (clock (env c) (tick (env c))) + ms, c\<lparr>env := next_tick (env c)\<rparr>)"
  by (simp add: hal_run_def utils_time_countdown_ms_def HAL_UptimeMs_def)

lemma wait_CONNACK_accepted:
  assumes "5 \<le> buf_size_read_max c"
  shows "post (iotx_mc_wait_CONNACK c) (\<lambda>(rc, c'). listens c c' \<and> (rc = SUCCESS_RETURN \<longrightarrow> (\<exists>c1. listens c c1 \<and> accepted c1 c')))"
proof -
  let ?c = "c\<lparr>env := next_tick (env c)\<rparr>"
  have l: "listens c ?c" by (simp add: listens_def)
  show ?thesis
    unfolding iotx_mc_wait_CONNACK_def countdown_run Let_def prod.case
    by (rule post_conseq [OF wait_loop_accepted]) (use assms l in \<open>auto intro: listens_trans\<close>)
qed

subsection \<open>The CONNECT packets\<close>

definition connect_packet :: "MQTTPacket_connectData \<Rightarrow> byte list" where
  "connect_packet d = fixed_packet (MQTT_HEADER_SET_TYPE 0 (cpt CONNECT)) (connect_body d)"

lemma connectData_keepalive [simp]:
  "connectData_ok (d\<lparr>keepAliveInterval := k\<rparr>) = connectData_ok d"
  "length (connect_body (d\<lparr>keepAliveInterval := k\<rparr>)) = length (connect_body d)"
  by (simp_all add: connectData_ok_def connect_body_def)

lemma send_loop_net: "send_loop buf len timer sent h = Some r \<Longrightarrow> net_write (snd r) = net_write h"
proof (induction rule: send_loop.raw_induct [rotated, consumes 1, case_names step])
  case (step loop buf len timer sent h r)
  obtain e h1 where e: "utils_time_is_expired timer h = (e, h1)" by fastforce
  obtain t h2 where t: "time_left_nz timer h1 = (t, h2)" by fastforce
  have w: "net_write h1 = net_write h" "net_write h2 = net_write h"
    using e time_left_quiet [OF t] by (auto simp: is_expired_eq quiet_def)
  show ?case
  proof (cases "sent < len \<and> \<not> e")
    case False
    then show ?thesis using step(2) e w by (auto split: if_splits)
  next
    case True
    with step(2) e t obtain d where l: "(case ipstack_write d t h2 of (rc, h') \<Rightarrow>
        if rc < 0 then Some (sent, h') else loop buf len timer (sent + rc) h') = Some r"
      by (auto simp: bind_eq_Some_conv)
    obtain rc h' where d: "ipstack_write d t h2 = (rc, h')" by fastforce
    with l have r: "(if rc < 0 then Some (sent, h') else loop buf len timer (sent + rc) h') = Some r" by simp
    have "net_write h' = net_write h" using d w by (auto simp: ipstack_write_eq)
    then show ?thesis using r step(1) [of buf len timer "sent + rc" h' r] by (auto split: if_splits)
  qed
qed

lemma Connect_net: "post (MQTTConnect c) (\<lambda>(rc, c'). net_write (env c') = net_write (env c))"
proof -
  have alloc: "alloc_send_buffer c n = (rc, c') \<Longrightarrow> net_write (env c') = net_write (env c)" for n rc c'
    by (erule alloc_send_cases) (simp_all add: quiet_def)
  have ser: "serialize_into c1 f = Some (n, c2) \<Longrightarrow> env c2 = env c1" for c1 f n c2
    by (auto simp: serialize_into_def bind_eq_Some_conv)
  have cd: "hal_run (utils_time_countdown_ms ms) c1 = (t, c2) \<Longrightarrow> net_write (env c2) = net_write (env c1)" for ms c1 t c2
    using countdown_quiet by (fastforce simp: quiet_def)
  have send: "iotx_mc_send_packet c1 b n t = Some (rc, c2) \<Longrightarrow> net_write (env c2) = net_write (env c1)" for c1 b n t rc c2
    by (auto simp: iotx_mc_send_packet_def bind_eq_Some_conv split: option.splits dest!: send_loop_net)
  show ?thesis
    unfolding MQTTConnect_def Let_def
    by (auto intro!: post_case_prod post_if post_bind_eq dest!: alloc ser cd send)
qed

text \<open>
  A run that has sent \<open>sent\<close> and read an accepting CONNACK at its end, with nothing sent since the
  answer was awaited.
\<close>

definition handshake :: "byte list \<Rightarrow> iotx_mc_client_t \<Rightarrow> bool" where
  "handshake sent c' \<longleftrightarrow> net_sent (env c') = sent \<and> (\<exists>c1. net_sent (env c1) = sent \<and> accepted c1 c')"

lemma connect_loop_wire:
  assumes d: "connectData_ok d" "length (connect_body d) < 268435456"
  shows "t < 9 \<Longrightarrow> 5 \<le> buf_size_read_max c \<Longrightarrow> write_bounded (net_write (env c)) \<Longrightarrow>
    connect_data c = d\<lparr>keepAliveInterval := k\<rparr> \<Longrightarrow>
    post (mqtt_connect_loop c u t) (\<lambda>(r, c'). \<forall>tc. r = Inr tc \<longrightarrow> tc \<noteq> 9 \<longrightarrow> (\<exists>n < 9 - t.
      handshake (net_sent (env c) @ connect_packet (d\<lparr>keepAliveInterval := k\<rparr>) @
        concat (replicate n (connect_packet (d\<lparr>keepAliveInterval := u\<rparr>)))) c'))"
proof (induction "9 - t" arbitrary: c t k rule: less_induct)
  case less
  let ?P = "\<lambda>k. connect_packet (d\<lparr>keepAliveInterval := k\<rparr>)"
  let ?Q = "\<lambda>(r, c'). \<forall>tc. r = Inr tc \<longrightarrow> tc \<noteq> 9 \<longrightarrow> (\<exists>n < 9 - t.
    handshake (net_sent (env c) @ ?P k @ concat (replicate n (?P u))) c')"
  have attempt: "post (iotx_mc_wait_CONNACK c2 \<bind> (\<lambda>(rc, c).
      if rc \<le> MQTT_CONNACK_NOT_AUTHORIZED_ERROR \<and> rc \<ge> MQTT_CONANCK_UNACCEPTABLE_PROTOCOL_VERSION_ERROR
      then Some (Inl MQTT_CONNECT_ERROR, hal_exec ipstack_disconnect c)
      else if rc \<noteq> SUCCESS_RETURN then
        (case hal_run ipstack_connect (hal_exec ipstack_disconnect (hal_exec (HAL_SleepMs RETRY_INTV_PERIOD) c)) of (_, c) \<Rightarrow>
         if t + 1 < RETRY_TIME_LIMIT then mqtt_connect_loop c u (t + 1) else Some (Inr (t + 1), c))
      else Some (Inr t, c))) ?Q"
    if c2: "net_sent (env c2) = net_sent (env c) @ ?P k" "write_bounded (net_write (env c2))"
      "5 \<le> buf_size_read_max c2" "connect_data c2 = d\<lparr>keepAliveInterval := u\<rparr>" for c2
  proof (rule post_bind, rule post_conseq_prod [OF wait_CONNACK_accepted [OF c2(3)]], goal_cases)
    case (1 rc c3)
    then have l: "listens c2 c3" and acc: "rc = SUCCESS_RETURN \<Longrightarrow> \<exists>c1. listens c2 c1 \<and> accepted c1 c3" by auto
    define c4 where "c4 = snd (hal_run ipstack_connect (hal_exec ipstack_disconnect (hal_exec (HAL_SleepMs RETRY_INTV_PERIOD) c3)))"
    have c4: "net_sent (env c4) = net_sent (env c2)" "net_write (env c4) = net_write (env c2)"
        "buf_size_read_max c4 = buf_size_read_max c2" "connect_data c4 = connect_data c2"
      using l by (auto simp: c4_def listens_def quiet_def reads_only_def same_session_def hal_run_def hal_exec_def
          ipstack_connect_def ipstack_disconnect_def HAL_SleepMs_def)
    have IH: "post (mqtt_connect_loop c4 u (t + 1)) ?Q" if t: "t + 1 < 9"
    proof (rule post_conseq_prod [OF less.hyps [of "t + 1" c4 u]], goal_cases)
      case (6 r c')
      have "\<exists>n < 9 - t. handshake (net_sent (env c) @ ?P k @ concat (replicate n (?P u))) c'" if r: "r = Inr tc" "tc \<noteq> 9" for tc
      proof -
        obtain n where "n < 9 - (t + 1)" "handshake (net_sent (env c4) @ ?P u @ concat (replicate n (?P u))) c'"
          using 6 r by blast
        then show ?thesis using c4(1) c2(1) by (intro exI [of _ "Suc n"]) simp
      qed
      then show ?case by blast
    qed (use t c2 c4 in simp_all)
    have finished: "\<exists>n < 9 - t. handshake (net_sent (env c) @ ?P k @ concat (replicate n (?P u))) c3" if "rc = SUCCESS_RETURN"
      using acc [OF that] l c2(1) less.prems(1) by (intro exI [of _ 0]) (auto simp: handshake_def listens_def quiet_def)
    show ?case
      using IH finished less.prems(1) unfolding prod.case
      by (auto simp: RETRY_TIME_LIMIT_def c4_def case_prod_unfold intro!: post_if)
  qed
  show ?case
  proof (subst mqtt_connect_loop.simps, rule post_bind_eq, goal_cases)
    case (1 x)
    obtain rc c1 where x: "x = (rc, c1)" by (cases x)
    have s: "sends_only c c1" using postD [OF MQTTConnect_frame 1] x by simp
    have p: "sent_packet c (?P k) rc c1"
      using postD [OF Connect_sends 1] x less.prems(3,4) d by (simp add: connect_packet_def)
    have w: "net_write (env c1) = net_write (env c)" using postD [OF Connect_net 1] x by simp
    have c1: "buf_size_read_max c1 = buf_size_read_max c" "connect_data c1 = connect_data c"
      using s by (auto simp: sends_only_def same_session_def)
    show ?case
      unfolding x prod.case Let_def
      by (rule post_if, simp, rule attempt) (use p w c1 less.prems in \<open>simp_all add: sent_packet_def\<close>)
  qed
qed

lemma mqtt_connect_loop_not_success: "post (mqtt_connect_loop c u t) (\<lambda>(r, c'). r \<noteq> Inl SUCCESS_RETURN)"
proof (induction "9 - t" arbitrary: c t rule: less_induct)
  case less
  have IH: "post (mqtt_connect_loop c' u (Suc t)) (\<lambda>(r, c'). r \<noteq> Inl SUCCESS_RETURN)" if "Suc t < RETRY_TIME_LIMIT" for c'
    using that by (intro less.hyps) (simp add: RETRY_TIME_LIMIT_def)
  have "MQTT_CONNECT_ERROR \<noteq> SUCCESS_RETURN" by (simp add: mqtt_error_defs)
  then show ?case
    by (subst mqtt_connect_loop.simps) (auto simp: Let_def intro!: post_bind_eq post_if post_case_prod IH)
qed

lemma tcp_connect_loop_quiet: "quiet (env c) (env (tcp_connect_loop c n))"
proof (induction "3 - n" arbitrary: c n rule: less_induct)
  case less
  let ?c = "c\<lparr>env := HAL_SleepMs 1000 (ipstack_disconnect (next_tick (env c)))\<rparr>"
  have q: "quiet (env c) (env ?c)" by (simp add: quiet_def HAL_SleepMs_def ipstack_disconnect_def)
  have "quiet (env c) (env (tcp_connect_loop ?c (n + 1)))" if "n + 1 \<le> 3"
    using that by (intro quiet_trans [OF q] less.hyps) linarith
  with q show ?case
    by (subst tcp_connect_loop.simps) (simp add: hal_run_def hal_exec_def ipstack_connect_def connect_retry_max_def Let_def)
qed

text \<open>The client with which the first CONNECT is sent: connected by TCP, its keep-alive interval doubled up to the maximum.\<close>

definition connect_interval :: "u16 \<Rightarrow> u16" where
  "connect_interval k = (if k * 2 > 1200 then 1200 else k * 2)"

definition connect_start :: "iotx_mc_client_t \<Rightarrow> iotx_mc_client_t" where
  "connect_start c = with_keepalive (connect_interval (keepAliveInterval (connect_data c))) (tcp_connect_loop c 1)"

lemma connect_start_env:
  "quiet (env c) (env (connect_start c))" "buf_size_read_max (connect_start c) = buf_size_read_max c"
  "connect_data (connect_start c) = (connect_data c)\<lparr>keepAliveInterval := connect_interval (keepAliveInterval (connect_data c))\<rparr>"
  using tcp_connect_loop_quiet [of c 1] tcp_connect_loop_frame [of c 1]
  by (auto simp: connect_start_def with_keepalive_def)

lemma wrapper_connect_unfold:
  "wrapper_mqtt_connect c = mqtt_connect_loop (connect_start c) (keepAliveInterval (connect_data c)) 1 \<bind> (\<lambda>(r, c).
     case r of Inl rc \<Rightarrow> Some (rc, c)
     | Inr tc \<Rightarrow> if tc = 9 then Some (MQTT_CONNECT_ERROR, c)
         else Some (SUCCESS_RETURN, c\<lparr>keepalive_probes := 0, client_state := IOTX_MC_STATE_CONNECTED, env := next_tick (env c),
           next_ping_time := ucast (clock (env c) (tick (env c))) + ucast (keepAliveInterval (connect_data c)) * 1000\<rparr>))"
proof -
  obtain h where h: "tcp_connect_loop c 1 = c\<lparr>env := h\<rparr>" using tcp_connect_loop_frame by blast
  show ?thesis
    unfolding wrapper_mqtt_connect_def mqtt_connect_def Let_def connect_start_def with_keepalive_def h
    by (rule Option.bind_cong)
       (auto simp: connect_interval_def CONFIG_MQTT_KEEPALIVE_INTERVAL_MAX_def RETRY_TIME_LIMIT_def
          iotx_mc_set_client_state_def countdown_run split: sum.splits)
qed

text \<open>
  A successful connection: up to eight CONNECT packets were sent, the first with the doubled
  keep-alive interval, and the last thing that was read is a CONNACK with return code 0.
\<close>

lemma connect_wire:
  assumes "connectData_ok (connect_data c)" "length (connect_body (connect_data c)) < 268435456"
    and "5 \<le> buf_size_read_max c" "write_bounded (net_write (env c))"
    and run: "wrapper_mqtt_connect c = Some (SUCCESS_RETURN, c')"
  shows "\<exists>n < 8. \<exists>c1 t p c2. net_sent (env c1) = net_sent (env c) @
      connect_packet ((connect_data c)\<lparr>keepAliveInterval := connect_interval (keepAliveInterval (connect_data c))\<rparr>) @
      concat (replicate n (connect_packet (connect_data c))) \<and>
    iotx_mc_read_packet c1 t p = Some (SUCCESS_RETURN, cpt CONNACK, c2) \<and> connack c2 0 \<and>
    env c' = next_tick (env c2) \<and> net_sent (env c') = net_sent (env c1)"
proof -
  let ?k = "keepAliveInterval (connect_data c)"
  have d: "(connect_data c)\<lparr>keepAliveInterval := ?k\<rparr> = connect_data c" by simp
  obtain r c3 where r: "mqtt_connect_loop (connect_start c) ?k 1 = Some (r, c3)"
    using run unfolding wrapper_connect_unfold by (cases "mqtt_connect_loop (connect_start c) ?k 1") auto
  have "r \<noteq> Inl SUCCESS_RETURN" using postD [OF mqtt_connect_loop_not_success r] by simp
  then obtain tc where "r = Inr tc" "tc \<noteq> 9" and c': "env c' = next_tick (env c3)"
    using run unfolding wrapper_connect_unfold r by (auto simp: mqtt_error_defs split: sum.splits if_splits)
  with r have loop: "mqtt_connect_loop (connect_start c) ?k 1 = Some (Inr tc, c3)" "tc \<noteq> 9" by simp_all
  have "write_bounded (net_write (env (connect_start c)))"
    using assms(4) connect_start_env(1) [of c] by (simp add: quiet_def)
  from postD [OF connect_loop_wire [OF assms(1,2) _ _ this connect_start_env(3)] loop(1)]
  obtain n where "n < 8" and hs: "handshake (net_sent (env (connect_start c)) @
      connect_packet ((connect_data c)\<lparr>keepAliveInterval := connect_interval ?k\<rparr>) @
      concat (replicate n (connect_packet (connect_data c)))) c3"
    using loop(2) assms(3) by (auto simp: connect_start_env(2))
  then show ?thesis
    using c' connect_start_env(1) [of c] by (fastforce simp: handshake_def accepted_def quiet_def)
qed

text \<open>The first packet that is read after the first CONNECT is a CONNACK with return code \<open>k\<close>.\<close>

definition first_answer :: "iotx_mc_client_t \<Rightarrow> byte \<Rightarrow> bool" where
  "first_answer c k \<longleftrightarrow> (\<exists>c1 t c2 c3. MQTTConnect (connect_start c) = Some (SUCCESS_RETURN, c1) \<and>
     hal_run (utils_time_countdown_ms (request_timeout_ms c1)) (with_keepalive (keepAliveInterval (connect_data c)) c1) = (t, c2) \<and>
     iotx_mc_read_packet c2 t 0 = Some (SUCCESS_RETURN, cpt CONNACK, c3) \<and> connack c3 k)"

text \<open>A test for runs: the packet read is \<open>20 02 flags k\<close>.\<close>

lemma connack_four: "buf_read c = Some b \<Longrightarrow> take 4 b = [0x20, 2, flags, k] \<Longrightarrow> connack c k"
  unfolding connack_def
proof (intro exI conjI)
  assume b: "buf_read c = Some b" "take 4 b = [0x20, 2, flags, k]"
  have "fixed_packet 0x20 [flags, k] = [0x20, 2, flags, k]" by code_simp
  then show "buf_read c = Some (fixed_packet 0x20 (flags # k # []) @ drop 4 b)" using b by (metis append_take_drop_id)
  show "MQTT_HEADER_GET_TYPE 0x20 = cpt CONNACK" by code_simp
qed simp

lemma first_answer_test:
  assumes "case MQTTConnect (connect_start c) of
        None \<Rightarrow> False
      | Some (rc, c1) \<Rightarrow> rc = SUCCESS_RETURN \<and>
          (case hal_run (utils_time_countdown_ms (request_timeout_ms c1)) (with_keepalive (keepAliveInterval (connect_data c)) c1) of
             (t, c2) \<Rightarrow>
               (case iotx_mc_read_packet c2 t 0 of
                  None \<Rightarrow> False
                | Some (rc, type, c3) \<Rightarrow> rc = SUCCESS_RETURN \<and> type = cpt CONNACK \<and> map_option (take 4) (buf_read c3) = Some [0x20, 2, flags, k]))"
  shows "first_answer c k"
  using assms unfolding first_answer_def by (fastforce split: option.splits prod.splits intro: connack_four)

lemma first_answer_decides:
  assumes "first_answer c k"
  shows "k = 0 \<Longrightarrow> \<exists>c'. wrapper_mqtt_connect c = Some (SUCCESS_RETURN, c')"
    and "k \<in> {1, 2, 3, 4, 5} \<Longrightarrow> \<exists>c'. wrapper_mqtt_connect c = Some (MQTT_CONNECT_ERROR, c')"
proof -
  let ?u = "keepAliveInterval (connect_data c)"
  obtain c1 t c2 c3 where c1: "MQTTConnect (connect_start c) = Some (SUCCESS_RETURN, c1)"
    and c2: "hal_run (utils_time_countdown_ms (request_timeout_ms c1)) (with_keepalive ?u c1) = (t, c2)"
    and c3: "iotx_mc_read_packet c2 t 0 = Some (SUCCESS_RETURN, cpt CONNACK, c3)" and k: "connack c3 k"
    using assms by (auto simp: first_answer_def)
  have r: "request_timeout_ms (with_keepalive ?u c1) = request_timeout_ms c1" by (simp add: with_keepalive_def)
  have wait: "iotx_mc_wait_CONNACK (with_keepalive ?u c1) = iotx_mc_handle_recv_CONNACK c3 \<bind> (\<lambda>rc. Some (rc, reset_recv_buffer c3))"
    unfolding iotx_mc_wait_CONNACK_def r c2 Let_def prod.case
    by (subst wait_CONNACK_loop.simps) (simp add: c3 WAIT_CONNACK_MAX_def)
  have step: "mqtt_connect_loop (connect_start c) ?u 1 = iotx_mc_handle_recv_CONNACK c3 \<bind> (\<lambda>rc.
      if rc \<le> -34 \<and> rc \<ge> -38 then Some (Inl MQTT_CONNECT_ERROR, hal_exec ipstack_disconnect (reset_recv_buffer c3))
      else if rc = 0 then Some (Inr 1, reset_recv_buffer c3)
      else (case hal_run ipstack_connect (hal_exec ipstack_disconnect (hal_exec (HAL_SleepMs RETRY_INTV_PERIOD) (reset_recv_buffer c3))) of
        (_, c) \<Rightarrow> mqtt_connect_loop c ?u 2))"
    unfolding mqtt_connect_loop.simps [of "connect_start c"] c1 Let_def
    using wait [unfolded with_keepalive_def]
    by (cases "iotx_mc_handle_recv_CONNACK c3") (auto simp: mqtt_error_defs RETRY_TIME_LIMIT_def numeral_2_eq_2)
  show "\<exists>c'. wrapper_mqtt_connect c = Some (SUCCESS_RETURN, c')" if "k = 0"
    using recv_CONNACK_code(1) [OF k that] unfolding wrapper_connect_unfold step by (simp add: mqtt_error_defs)
  show "\<exists>c'. wrapper_mqtt_connect c = Some (MQTT_CONNECT_ERROR, c')" if "k \<in> {1, 2, 3, 4, 5}"
    using recv_CONNACK_code(3) [OF k that] unfolding wrapper_connect_unfold step by auto
qed

end
