(* ===== verification/CoAP_Packet.thy ===== *)
theory CoAP_Packet
  imports Infra_Timer
begin

text \<open>
  The CoAP messages of \<open>src/src/coap/CoAPPacket\<close>: the message structure with its option array
  (\<open>iotx_coap_internal.h\<close>), the functions that build a message (\<open>CoAPMessage_common.c\<close>), the
  serializer (\<open>CoAPSerialize_common.c\<close>) and the deserializer (\<open>CoAPDeserialize_common.c\<close>).

  Bit fields are words of their width. A pointer into a buffer is the list of the bytes from
  there to the end of the buffer; an array of the structure is a list of its declared length.
\<close>

subsection \<open>Constants and data\<close>

definition COAP_SUCCESS :: int where "COAP_SUCCESS = 0"
definition COAP_ERROR_INVALID_PARAM :: int where "COAP_ERROR_INVALID_PARAM = 257"
definition COAP_ERROR_NULL :: int where "COAP_ERROR_NULL = 258"
definition COAP_ERROR_MALLOC :: int where "COAP_ERROR_MALLOC = 259"
definition COAP_ERROR_INVALID_LENGTH :: int where "COAP_ERROR_INVALID_LENGTH = 260"
definition COAP_ERROR_DATA_SIZE :: int where "COAP_ERROR_DATA_SIZE = 261"
definition COAP_ERROR_NOT_FOUND :: int where "COAP_ERROR_NOT_FOUND = 263"

lemmas coap_error_defs = COAP_SUCCESS_def COAP_ERROR_INVALID_PARAM_def COAP_ERROR_NULL_def COAP_ERROR_MALLOC_def
  COAP_ERROR_INVALID_LENGTH_def COAP_ERROR_DATA_SIZE_def COAP_ERROR_NOT_FOUND_def

definition COAP_MSG_MAX_TOKEN_LEN :: nat where "COAP_MSG_MAX_TOKEN_LEN = 8"
definition COAP_MSG_MAX_OPTION_NUM :: nat where "COAP_MSG_MAX_OPTION_NUM = 12"
definition COAP_MSG_MAX_PDU_LEN :: nat where "COAP_MSG_MAX_PDU_LEN = 1280"

definition COAP_MESSAGE_TYPE_CON :: u8 where "COAP_MESSAGE_TYPE_CON = 0"
definition COAP_MESSAGE_TYPE_NON :: u8 where "COAP_MESSAGE_TYPE_NON = 1"
definition COAP_MESSAGE_TYPE_ACK :: u8 where "COAP_MESSAGE_TYPE_ACK = 2"
definition COAP_MESSAGE_TYPE_RST :: u8 where "COAP_MESSAGE_TYPE_RST = 3"

definition COAP_MSG_CODE_DEF :: "nat \<Rightarrow> u8" where "COAP_MSG_CODE_DEF n = of_nat (n div 100 * 32) OR of_nat (n mod 100)"

definition COAP_CUR_VERSION :: u8 where "COAP_CUR_VERSION = 1"

record CoAPMsgHeader =
  hd_version :: "2 word"
  hd_type :: "2 word"
  hd_tokenlen :: "4 word"
  hd_code :: u8
  hd_msgid :: u16

record CoAPMsgOption =
  opt_num :: u16
  opt_len :: u16
  opt_val :: "byte list option"

record CoAPMessage =
  msg_header :: CoAPMsgHeader
  msg_token :: "byte list"
  msg_options :: "CoAPMsgOption list"
  msg_optcount :: u8
  msg_optdelta :: u8
  msg_payloadlen :: u16
  msg_payload :: "byte list option"
  msg_handler :: "nat option"
  msg_resp :: "nat option"
  msg_user :: "nat option"
  msg_keep :: int

subsection \<open>Building a message\<close>

definition zero_option :: CoAPMsgOption where
  "zero_option = \<lparr>opt_num = 0, opt_len = 0, opt_val = None\<rparr>"

definition CoAPMessage_init :: "CoAPMessage \<Rightarrow> int \<times> CoAPMessage" where
  "CoAPMessage_init message = (COAP_SUCCESS,
     \<lparr>msg_header = \<lparr>hd_version = ucast COAP_CUR_VERSION, hd_type = ucast COAP_MESSAGE_TYPE_ACK, hd_tokenlen = 0,
        hd_code = COAP_MSG_CODE_DEF 0, hd_msgid = 0\<rparr>,
      msg_token = replicate COAP_MSG_MAX_TOKEN_LEN 0, msg_options = replicate COAP_MSG_MAX_OPTION_NUM zero_option,
      msg_optcount = 0, msg_optdelta = 0, msg_payloadlen = 0, msg_payload = None,
      msg_handler = None, msg_resp = None, msg_user = None, msg_keep = 0\<rparr>)"

definition CoAPMessageId_set :: "CoAPMessage \<Rightarrow> u16 \<Rightarrow> int \<times> CoAPMessage" where
  "CoAPMessageId_set message msgid = (COAP_SUCCESS, message\<lparr>msg_header := (msg_header message)\<lparr>hd_msgid := msgid\<rparr>\<rparr>)"

definition CoAPMessageType_set :: "CoAPMessage \<Rightarrow> u8 \<Rightarrow> int \<times> CoAPMessage" where
  "CoAPMessageType_set message t =
     (if t \<noteq> COAP_MESSAGE_TYPE_CON \<and> t \<noteq> COAP_MESSAGE_TYPE_NON \<and> t \<noteq> COAP_MESSAGE_TYPE_ACK \<and> t \<noteq> COAP_MESSAGE_TYPE_RST
      then (COAP_ERROR_INVALID_PARAM, message)
      else (COAP_SUCCESS, message\<lparr>msg_header := (msg_header message)\<lparr>hd_type := ucast t\<rparr>\<rparr>))"

definition CoAPMessageCode_set :: "CoAPMessage \<Rightarrow> u8 \<Rightarrow> int \<times> CoAPMessage" where
  "CoAPMessageCode_set message code = (COAP_SUCCESS, message\<lparr>msg_header := (msg_header message)\<lparr>hd_code := code\<rparr>\<rparr>)"

definition CoAPMessageCode_get :: "CoAPMessage \<Rightarrow> int \<times> u8" where
  "CoAPMessageCode_get message = (COAP_SUCCESS, hd_code (msg_header message))"

definition CoAPMessageToken_set :: "CoAPMessage \<Rightarrow> byte list option \<Rightarrow> u8 \<Rightarrow> (int \<times> CoAPMessage) option" where
  "CoAPMessageToken_set message token tokenlen =
     (case token of
        None \<Rightarrow> Some (COAP_ERROR_NULL, message)
      | Some tok \<Rightarrow>
          if COAP_MSG_MAX_TOKEN_LEN < unat tokenlen then Some (COAP_ERROR_INVALID_LENGTH, message)
          else do {
            bs \<leftarrow> load_bytes tok 0 (unat tokenlen);
            t \<leftarrow> store_bytes (msg_token message) 0 bs;
            Some (COAP_SUCCESS, message\<lparr>msg_token := t, msg_header := (msg_header message)\<lparr>hd_tokenlen := ucast tokenlen\<rparr>\<rparr>)
          })"

definition CoAPMessageUserData_set :: "CoAPMessage \<Rightarrow> nat option \<Rightarrow> int \<times> CoAPMessage" where
  "CoAPMessageUserData_set message userdata =
     (if userdata = None then (COAP_ERROR_NULL, message) else (COAP_SUCCESS, message\<lparr>msg_user := userdata\<rparr>))"

text \<open>The response handler of the client, \<open>src/src/coap/client/CoAPMessage.c\<close>.\<close>

definition Cloud_CoAPMessageHandler_set :: "CoAPMessage \<Rightarrow> nat option \<Rightarrow> int \<times> CoAPMessage" where
  "Cloud_CoAPMessageHandler_set message resp = (COAP_SUCCESS, message\<lparr>msg_resp := resp\<rparr>)"

definition CoAPMessageKeep_Set :: "CoAPMessage \<Rightarrow> int \<Rightarrow> int \<times> CoAPMessage" where
  "CoAPMessageKeep_Set message keep =
     (if keep < 0 then (COAP_ERROR_NULL, message) else (COAP_SUCCESS, message\<lparr>msg_keep := keep\<rparr>))"

definition CoAPMessagePayload_set :: "CoAPMessage \<Rightarrow> byte list option \<Rightarrow> u16 \<Rightarrow> int \<times> CoAPMessage" where
  "CoAPMessagePayload_set message payload payloadlen =
     (if 0 < payloadlen \<and> payload = None then (COAP_ERROR_NULL, message)
      else (COAP_SUCCESS, message\<lparr>msg_payload := payload, msg_payloadlen := payloadlen\<rparr>))"

definition CoAPMessage_destory :: "CoAPMessage \<Rightarrow> int \<times> CoAPMessage" where
  "CoAPMessage_destory message =
     (COAP_SUCCESS, message\<lparr>msg_options := map (\<lambda>opt. opt\<lparr>opt_val := None\<rparr>) (msg_options message)\<rparr>)"

text \<open>The write \<open>message->options[i] = opt\<close>.\<close>

definition set_option :: "CoAPMessage \<Rightarrow> nat \<Rightarrow> CoAPMsgOption \<Rightarrow> CoAPMessage option" where
  "set_option message i opt =
     (if i < length (msg_options message) then Some (message\<lparr>msg_options := (msg_options message)[i := opt]\<rparr>) else None)"

definition get_option :: "CoAPMessage \<Rightarrow> nat \<Rightarrow> CoAPMsgOption option" where
  "get_option message i = (if i < length (msg_options message) then Some (msg_options message ! i) else None)"

definition CoAPStrOption_add ::
  "CoAPMessage \<Rightarrow> u16 \<Rightarrow> byte list \<Rightarrow> u16 \<Rightarrow> hal \<Rightarrow> (int \<times> CoAPMessage \<times> hal) option" where
  "CoAPStrOption_add message optnum data datalen h =
     (let i = unat (msg_optcount message) in
      if COAP_MSG_MAX_OPTION_NUM \<le> i then Some (COAP_ERROR_INVALID_PARAM, message, h)
      else do {
        opt \<leftarrow> get_option message i;
        let opt = opt\<lparr>opt_num := optnum - ucast (msg_optdelta message), opt_len := datalen\<rparr>;
        (case HAL_Malloc (unat datalen) h of
           (None, h) \<Rightarrow> do { m \<leftarrow> set_option message i opt; Some (COAP_ERROR_MALLOC, m, h) }
         | (Some _, h) \<Rightarrow> do {
             bs \<leftarrow> load_bytes data 0 (unat datalen);
             m \<leftarrow> set_option message i (opt\<lparr>opt_val := Some bs\<rparr>);
             Some (COAP_SUCCESS, m\<lparr>msg_optdelta := ucast optnum, msg_optcount := msg_optcount m + 1\<rparr>, h)
           })
      })"

text \<open>The big-endian bytes that \<open>CoAPUintOption_add\<close> stores for a number.\<close>

definition uint_option_bytes :: "u32 \<Rightarrow> byte list" where
  "uint_option_bytes data =
     (if data = 0 then []
      else if data \<le> 255 then [ucast data]
      else if data \<le> 65535 then [ucast (drop_bit 8 (data AND 0xFF00)), ucast (data AND 0x00FF)]
      else [ucast (drop_bit 24 (data AND 0xFF000000)), ucast (drop_bit 16 (data AND 0x00FF0000)),
            ucast (drop_bit 8 (data AND 0x0000FF00)), ucast (data AND 0x000000FF)])"

definition CoAPUintOption_add :: "CoAPMessage \<Rightarrow> u16 \<Rightarrow> u32 \<Rightarrow> hal \<Rightarrow> (int \<times> CoAPMessage \<times> hal) option" where
  "CoAPUintOption_add message optnum data h =
     (let i = unat (msg_optcount message) in
      if COAP_MSG_MAX_OPTION_NUM \<le> i then Some (COAP_ERROR_INVALID_PARAM, message, h)
      else let bs = uint_option_bytes data;
               (p, h) = (if bs = [] then (None, h) else HAL_Malloc (length bs) h)
           in do {
             m \<leftarrow> set_option message i
                   \<lparr>opt_num = optnum - ucast (msg_optdelta message), opt_len = of_nat (length bs),
                    opt_val = (case p of None \<Rightarrow> None | Some _ \<Rightarrow> Some bs)\<rparr>;
             Some (COAP_SUCCESS, m\<lparr>msg_optdelta := ucast optnum, msg_optcount := msg_optcount m + 1\<rparr>, h)
           })"

text \<open>The search that \<open>CoAPStrOption_get\<close>, \<open>CoAPUintOption_get\<close> and \<open>CoAPOption_present\<close> begin with.\<close>

fun find_option :: "CoAPMessage \<Rightarrow> u16 \<Rightarrow> nat \<Rightarrow> nat \<Rightarrow> CoAPMsgOption option option" where
  "find_option message optnum index 0 = Some None"
| "find_option message optnum index (Suc n) = do {
     opt \<leftarrow> get_option message index;
     if opt_num opt = optnum then Some (Some opt) else find_option message optnum (Suc index) n
   }"

text \<open>The result: return code, \<open>data\<close> and \<open>*datalen\<close>.\<close>

definition CoAPStrOption_get ::
  "CoAPMessage \<Rightarrow> u16 \<Rightarrow> byte list \<Rightarrow> u16 \<Rightarrow> (int \<times> byte list \<times> u16) option" where
  "CoAPStrOption_get message optnum data datalen = do {
     found \<leftarrow> find_option message optnum 0 (unat (msg_optcount message));
     (case found of
        None \<Rightarrow> Some (COAP_ERROR_NOT_FOUND, data, datalen)
      | Some opt \<Rightarrow>
          if datalen \<ge> opt_len opt then do {
            bs \<leftarrow> (if opt_len opt = 0 then Some [] else opt_val opt \<bind> (\<lambda>v. load_bytes v 0 (unat (opt_len opt))));
            data \<leftarrow> store_bytes data 0 bs;
            Some (COAP_SUCCESS, data, opt_len opt)
          }
          else Some (COAP_ERROR_INVALID_LENGTH, data, datalen))
   }"

text \<open>\<open>data\<close> is the value of \<open>*data\<close> before the call: the bytes are or-ed into it.\<close>

definition CoAPUintOption_get :: "CoAPMessage \<Rightarrow> u16 \<Rightarrow> u32 \<Rightarrow> (int \<times> u32) option" where
  "CoAPUintOption_get message optnum data = do {
     found \<leftarrow> find_option message optnum 0 (unat (msg_optcount message));
     (case found of
        None \<Rightarrow> Some (COAP_ERROR_NOT_FOUND, data)
      | Some opt \<Rightarrow>
          if 1 \<le> opt_len opt \<and> opt_len opt \<le> 4 then do {
            v \<leftarrow> opt_val opt;
            bs \<leftarrow> load_bytes v 0 (unat (opt_len opt));
            Some (COAP_SUCCESS, data OR foldl (\<lambda>acc b. push_bit 8 acc OR ucast b) 0 bs)
          }
          else Some (COAP_SUCCESS, 0))
   }"

definition CoAPOption_present :: "CoAPMessage \<Rightarrow> u16 \<Rightarrow> int option" where
  "CoAPOption_present message option = do {
     found \<leftarrow> find_option message option 0 (unat (msg_optcount message));
     Some (if found = None then COAP_ERROR_NOT_FOUND else COAP_SUCCESS)
   }"

subsection \<open>Serializing\<close>

text \<open>\<open>*ptr = b; ptr ++\<close>, and \<open>memcpy\<close> to \<open>ptr\<close> with \<open>ptr\<close> moved behind.\<close>

definition put :: "byte \<Rightarrow> cursor \<Rightarrow> cursor option" where
  "put b = (\<lambda>(buf, p). do { buf \<leftarrow> store buf p b; Some (buf, p + 1) })"

definition put_bytes :: "byte list \<Rightarrow> cursor \<Rightarrow> cursor option" where
  "put_bytes bs = (\<lambda>(buf, p). do { buf \<leftarrow> store_bytes buf p bs; Some (buf, p + length bs) })"

text \<open>A serializer of a part returns its number of bytes and the buffer.\<close>

definition CoAPSerialize_Header :: "CoAPMessage \<Rightarrow> cursor \<Rightarrow> u16 \<Rightarrow> (int \<times> byte list) option" where
  "CoAPSerialize_Header msg = (\<lambda>(buf, p) buflen.
     if 4 > buflen then Some (0, buf)
     else do {
       let h = msg_header msg;
       (buf, _) \<leftarrow> put ((push_bit 6 (ucast (hd_version h)) OR push_bit 4 (ucast (hd_type h))) OR ucast (hd_tokenlen h)) (buf, p)
         \<bind> put (hd_code h)
         \<bind> put (ucast (drop_bit 8 (hd_msgid h AND 0xFF00)))
         \<bind> put (ucast (hd_msgid h AND 0x00FF));
       Some (4, buf)
     })"

definition CoAPSerialize_Token :: "CoAPMessage \<Rightarrow> cursor \<Rightarrow> u16 \<Rightarrow> (int \<times> byte list) option" where
  "CoAPSerialize_Token msg = (\<lambda>(buf, p) buflen.
     let n = unat (hd_tokenlen (msg_header msg)) in
     if unat buflen < n then Some (0, buf)
     else do {
       bs \<leftarrow> load_bytes (msg_token msg) 0 n;
       buf \<leftarrow> store_bytes buf p bs;
       Some (int n, buf)
     })"

text \<open>The nibble for an option number or length and the bytes that extend it.\<close>

definition opt_nibble :: "u16 \<Rightarrow> byte" where
  "opt_nibble n = (if 269 \<le> n then 14 else if 13 \<le> n then 13 else ucast n)"

definition opt_extend :: "u16 \<Rightarrow> cursor \<Rightarrow> cursor option" where
  "opt_extend n s =
     (if 269 \<le> n then put (ucast (drop_bit 8 ((n - 269) AND 0xFF00))) s \<bind> put (ucast ((n - 269) AND 0x00FF))
      else if 13 \<le> n then put (ucast (n - 13)) s
      else Some s)"

definition CoAPSerialize_Option :: "CoAPMsgOption \<Rightarrow> cursor \<Rightarrow> (u16 \<times> byte list) option" where
  "CoAPSerialize_Option option s = do {
     let (num, len) = (opt_num option, opt_len option);
     t \<leftarrow> put (push_bit 4 (opt_nibble num) OR opt_nibble len) s \<bind> opt_extend num \<bind> opt_extend len;
     bs \<leftarrow> (if len = 0 then Some [] else opt_val option \<bind> (\<lambda>v. load_bytes v 0 (unat len)));
     (buf, p) \<leftarrow> put_bytes bs t;
     Some (of_nat (p - snd s), buf)
   }"

text \<open>The loop with \<open>n\<close> options left to write, from option \<open>i\<close> on.\<close>

fun serialize_options_loop :: "CoAPMessage \<Rightarrow> nat \<Rightarrow> nat \<Rightarrow> cursor \<Rightarrow> u16 \<Rightarrow> (u16 \<times> byte list) option" where
  "serialize_options_loop msg i 0 s count = Some (count, fst s)"
| "serialize_options_loop msg i (Suc n) s count = do {
     opt \<leftarrow> get_option msg i;
     (len, buf) \<leftarrow> CoAPSerialize_Option opt (fst s, snd s + unat count);
     if 0 < len then serialize_options_loop msg (Suc i) n (buf, snd s) (count + len) else Some (0, buf)
   }"

definition CoAPSerialize_Options :: "CoAPMessage \<Rightarrow> cursor \<Rightarrow> u16 \<Rightarrow> (u16 \<times> byte list) option" where
  "CoAPSerialize_Options msg s buflen = serialize_options_loop msg 0 (unat (msg_optcount msg)) s 0"

definition CoAPSerialize_OptionLen :: "CoAPMsgOption \<Rightarrow> u16" where
  "CoAPSerialize_OptionLen option =
     1 + (if 269 \<le> opt_num option then 2 else if 13 \<le> opt_num option then 1 else 0)
       + (if 269 \<le> opt_len option then 2 else if 13 \<le> opt_len option then 1 else 0) + opt_len option"

fun options_len_loop :: "CoAPMessage \<Rightarrow> nat \<Rightarrow> nat \<Rightarrow> u16 \<Rightarrow> u16 option" where
  "options_len_loop msg i 0 count = Some count"
| "options_len_loop msg i (Suc n) count = do {
     opt \<leftarrow> get_option msg i;
     let len = CoAPSerialize_OptionLen opt;
     if 0 < len then options_len_loop msg (Suc i) n (count + len) else Some 0
   }"

definition CoAPSerialize_OptionsLen :: "CoAPMessage \<Rightarrow> u16 option" where
  "CoAPSerialize_OptionsLen msg = options_len_loop msg 0 (unat (msg_optcount msg)) 0"

definition CoAPSerialize_Payload :: "CoAPMessage \<Rightarrow> cursor \<Rightarrow> int \<Rightarrow> (int \<times> byte list) option" where
  "CoAPSerialize_Payload msg = (\<lambda>(buf, p) buflen.
     if uint (msg_payloadlen msg) + 1 > buflen then Some (0, buf)
     else if msg_payloadlen msg > 0 \<and> msg_payload msg \<noteq> None then do {
       v \<leftarrow> msg_payload msg;
       bs \<leftarrow> load_bytes v 0 (unat (msg_payloadlen msg));
       (buf, _) \<leftarrow> put 0xFF (buf, p) \<bind> put_bytes bs;
       Some (uint (msg_payloadlen msg) + 1, buf)
     }
     else Some (0, buf))"

definition CoAPSerialize_MessageLength :: "CoAPMessage \<Rightarrow> u16 option" where
  "CoAPSerialize_MessageLength msg = do {
     n \<leftarrow> CoAPSerialize_OptionsLen msg;
     Some (4 + ucast (hd_tokenlen (msg_header msg)) + n +
           (if 0 < msg_payloadlen msg then msg_payloadlen msg + 1 else 0))
   }"

definition CoAPSerialize_Message :: "CoAPMessage \<Rightarrow> byte list option \<Rightarrow> u16 \<Rightarrow> (int \<times> byte list option) option" where
  "CoAPSerialize_Message msg buffer buflen =
     (case buffer of
        None \<Rightarrow> Some (COAP_ERROR_INVALID_PARAM, None)
      | Some buf \<Rightarrow> do {
          let (ptr, remlen) = (0, buflen);
          (n, buf) \<leftarrow> CoAPSerialize_Header msg (buf, ptr) remlen;
          let count = (word_of_int n :: u16); let (ptr, remlen) = (ptr + unat count, remlen - count);
          (n, buf) \<leftarrow> CoAPSerialize_Token msg (buf, ptr) remlen;
          let count = (word_of_int n :: u16); let (ptr, remlen) = (ptr + unat count, remlen - count);
          (count, buf) \<leftarrow> CoAPSerialize_Options msg (buf, ptr) remlen;
          let (ptr, remlen) = (ptr + unat count, remlen - count);
          (n, buf) \<leftarrow> CoAPSerialize_Payload msg (buf, ptr) (uint remlen);
          let count = (word_of_int n :: u16); let (ptr, remlen) = (ptr + unat count, remlen - count);
          Some (uint buflen - uint remlen, Some buf)
        })"

subsection \<open>Deserializing\<close>

definition CoAPDeserialize_Header :: "CoAPMessage \<Rightarrow> byte list \<Rightarrow> nat \<Rightarrow> (int \<times> CoAPMessage) option" where
  "CoAPDeserialize_Header msg buf p = do {
     b0 \<leftarrow> load buf p; b1 \<leftarrow> load buf (p + 1); b2 \<leftarrow> load buf (p + 2); b3 \<leftarrow> load buf (p + 3);
     Some (4, msg\<lparr>msg_header :=
       \<lparr>hd_version = ucast (drop_bit 6 b0 AND 0x03), hd_type = ucast (drop_bit 4 b0 AND 0x03),
        hd_tokenlen = ucast (b0 AND 0x0F), hd_code = b1, hd_msgid = push_bit 8 (ucast b2) + ucast b3\<rparr>\<rparr>)
   }"

definition CoAPDeserialize_Token :: "CoAPMessage \<Rightarrow> byte list \<Rightarrow> nat \<Rightarrow> (int \<times> CoAPMessage) option" where
  "CoAPDeserialize_Token msg buf p = do {
     let n = unat (hd_tokenlen (msg_header msg));
     bs \<leftarrow> load_bytes buf p (if n > COAP_MSG_MAX_TOKEN_LEN then COAP_MSG_MAX_TOKEN_LEN else n);
     t \<leftarrow> store_bytes (msg_token msg) 0 bs;
     Some (int n, msg\<lparr>msg_token := t\<rparr>)
   }"

text \<open>
  \<open>COAP_OPT_CHECK(o, e, step)\<close> returns \<open>-1\<close> from its function when \<open>o\<close> cannot be advanced
  or nothing is left behind it.
\<close>

definition opt_past :: "int \<Rightarrow> int \<Rightarrow> bool" where
  "opt_past left step \<longleftrightarrow> left < step \<or> left - step < 1"

text \<open>
  The value of an option number or length with nibble \<open>n\<close> and the number of bytes that extend
  it. All sums are of 16 bits; the test \<open>optlen + 269 < 269\<close> of the source never holds, because
  the sum is an \<open>int\<close>.
\<close>

definition opt_value :: "byte list \<Rightarrow> nat \<Rightarrow> u16 \<Rightarrow> (u16 \<times> nat) option" where
  "opt_value buf p n =
     (if n = 13 then do { b \<leftarrow> load buf p; Some (13 + ucast b, 1) }
      else if n = 14 then do { b0 \<leftarrow> load buf p; b1 \<leftarrow> load buf (p + 1); Some (push_bit 8 (ucast b0) + ucast b1 + 269, 2) }
      else Some (n, 0))"

text \<open>The result: return code, the option and \<open>*predeltas\<close>.\<close>

definition CoAPDeserialize_Option ::
  "CoAPMsgOption \<Rightarrow> byte list \<Rightarrow> nat \<Rightarrow> int \<Rightarrow> u16 \<Rightarrow> (int \<times> CoAPMsgOption \<times> u16) option" where
  "CoAPDeserialize_Option option buf base left predeltas = do {
     b \<leftarrow> load buf base;
     if opt_past left 1 then Some (-1, option, predeltas)
     else do {
       let (ptr, left) = (base + 1, left - 1);
       (d, step) \<leftarrow> opt_value buf ptr (drop_bit 4 (ucast b AND 0xF0));
       if step > 0 \<and> opt_past left (int step) then Some (-1, option, predeltas)
       else do {
         let (ptr, left) = (ptr + step, left - int step);
         let option = option\<lparr>opt_num := predeltas + d\<rparr>;
         (l, step) \<leftarrow> opt_value buf ptr (ucast b AND 0x0F);
         if step > 0 \<and> opt_past left (int step) then Some (-1, option, predeltas)
         else let ptr = ptr + step; option = option\<lparr>opt_len := l, opt_val := Some (drop ptr buf)\<rparr>
              in Some (int (ptr - base) + uint l, option, opt_num option)
       }
     }
   }"

function deserialize_options_loop ::
  "CoAPMessage \<Rightarrow> byte list \<Rightarrow> nat \<Rightarrow> nat \<Rightarrow> int \<Rightarrow> nat \<Rightarrow> u16 \<Rightarrow> (int \<times> CoAPMessage) option" where
  "deserialize_options_loop msg buf base ptr left index optdeltas =
     (if left > 0 then do {
        b \<leftarrow> load buf ptr;
        if b \<noteq> 0xFF \<and> index < COAP_MSG_MAX_OPTION_NUM then do {
          opt \<leftarrow> get_option msg index;
          (len, opt, optdeltas) \<leftarrow> CoAPDeserialize_Option opt buf ptr left optdeltas;
          msg \<leftarrow> set_option msg index opt;
          if len < 0 then Some (len, msg)
          else deserialize_options_loop (msg\<lparr>msg_optcount := msg_optcount msg + 1\<rparr>) buf base (ptr + nat len) (left - len)
                 (index + 1) optdeltas
        }
        else Some (int ptr - int base, msg)
      }
      else Some (int ptr - int base, msg))"
  by pat_completeness auto
termination
  by (relation "measure (\<lambda>(msg, buf, base, ptr, left, index, optdeltas). COAP_MSG_MAX_OPTION_NUM - index)") auto

declare deserialize_options_loop.simps [simp del]

definition CoAPDeserialize_Options :: "CoAPMessage \<Rightarrow> byte list \<Rightarrow> nat \<Rightarrow> int \<Rightarrow> (int \<times> CoAPMessage) option" where
  "CoAPDeserialize_Options msg buf p buflen = deserialize_options_loop (msg\<lparr>msg_optcount := 0\<rparr>) buf p p buflen 0 0"

definition CoAPDeserialize_Payload :: "CoAPMessage \<Rightarrow> byte list \<Rightarrow> nat \<Rightarrow> int \<Rightarrow> (int \<times> CoAPMessage) option" where
  "CoAPDeserialize_Payload msg buf p buflen = do {
     b \<leftarrow> load buf p;
     if b = 0xFF
     then Some (buflen, msg\<lparr>msg_payloadlen := word_of_int (buflen - 1), msg_payload := Some (drop (p + 1) buf)\<rparr>)
     else Some (0, msg)
   }"

definition CoAPDeserialize_Message :: "CoAPMessage \<Rightarrow> byte list option \<Rightarrow> int \<Rightarrow> (int \<times> CoAPMessage) option" where
  "CoAPDeserialize_Message msg buffer buflen =
     (case buffer of
        None \<Rightarrow> Some (COAP_ERROR_INVALID_PARAM, msg)
      | Some buf \<Rightarrow>
          if buflen < 4 then Some (COAP_ERROR_INVALID_LENGTH, msg)
          else do {
            let (ptr, remlen) = (0, buflen);
            (count, msg) \<leftarrow> CoAPDeserialize_Header msg buf ptr;
            if count > remlen then Some (COAP_ERROR_INVALID_LENGTH, msg)
            else do {
              let (ptr, remlen) = (ptr + nat count, remlen - count);
              (count, msg) \<leftarrow> CoAPDeserialize_Token msg buf ptr;
              if count > remlen then Some (COAP_ERROR_INVALID_LENGTH, msg)
              else do {
                let (ptr, remlen) = (ptr + nat count, remlen - count);
                (count, msg) \<leftarrow> CoAPDeserialize_Options msg buf ptr remlen;
                if count > remlen \<or> count < 0 then Some (COAP_ERROR_INVALID_LENGTH, msg)
                else do {
                  let (ptr, remlen) = (ptr + nat count, remlen - count);
                  (_, msg) \<leftarrow> CoAPDeserialize_Payload msg buf ptr remlen;
                  Some (COAP_SUCCESS, msg)
                }
              }
            }
          })"

end
