(* ===== verification/CoAP_Wire.thy ===== *)
theory CoAP_Wire
  imports CoAP_Packet
begin

text \<open>
  The CoAP wire format (RFC 7252) and the proof that the serializer writes it and the
  deserializer reads it back: \<open>option_wire\<close> and \<open>coap_wire\<close> are the format, \<open>msg_ok\<close> says when
  a message structure can be sent.
\<close>

unbundle bit_operations_syntax

subsection \<open>Bytes and nibbles\<close>

lemma hi_byte: "unat (ucast (drop_bit 8 (w AND 0xFF00)) :: u8) = unat (w :: u16) div 256"
proof -
  have "drop_bit 8 (w AND 0xFF00) = take_bit 8 (drop_bit 8 w)"
    by (simp add: drop_bit_and take_bit_eq_mask mask_eq_exp_minus_1) 
  then have "unat (ucast (drop_bit 8 (w AND 0xFF00)) :: u8) = take_bit 8 (unat w div 256)"
    by (simp only: unsigned_ucast_eq unsigned_take_bit_eq unsigned_drop_bit_eq drop_bit_eq_div) (simp add: unat_div)
  then show ?thesis using unat_u16_lt [of w] by (simp add: take_bit_eq_mod)
qed

lemma lo_byte: "unat (ucast (w AND 0x00FF) :: u8) = unat (w :: u16) mod 256"
proof -
  have "w AND 0x00FF = take_bit 8 w" by (simp add: take_bit_eq_mask mask_eq_exp_minus_1)
  then show ?thesis by (simp add: unsigned_ucast_eq unsigned_take_bit_eq take_bit_eq_mod unat_mod)
qed

lemma unat_ucast_8_16: "unat (ucast (b :: u8) :: u16) = unat b"
  using unat_u8_lt [of b] by (simp add: unsigned_ucast_eq take_bit_nat_eq_self)

lemma bytes_u16_unat: "unat (push_bit 8 (ucast (a :: u8)) + ucast (b :: u8) :: u16) = unat a * 256 + unat b"
  using unat_u8_lt [of a] unat_u8_lt [of b]
  by (simp add: unat_word_ariths unat_ucast_8_16 push_bit_eq_mult)

lemma bytes_u16: "push_bit 8 (ucast (ucast (drop_bit 8 (w AND 0xFF00)) :: u8)) + ucast (ucast (w AND 0x00FF) :: u8) = (w :: u16)"
  by (rule word_unat_eq_iff [THEN iffD2]) (simp only: bytes_u16_unat hi_byte lo_byte div_mult_mod_eq)


lemma take_bit_4_nibble: "a < (16 :: u8) \<Longrightarrow> take_bit 4 a = a"
  by (rule word_unat_eq_iff [THEN iffD2]) (simp add: unsigned_take_bit_eq take_bit_nat_eq_self word_less_nat_alt)

lemma nibble_hi:
  assumes "a < (16 :: u8)" "c < 16"
  shows "drop_bit 4 (ucast (push_bit 4 a OR c) AND 0xF0) = (ucast a :: u16)"
proof -
  have a: "a = take_bit 4 a" and c: "c = take_bit 4 c" using assms by (simp_all add: take_bit_4_nibble)
  have m: "(0xF0 :: u16) = push_bit 4 (mask 4)" by (simp add: mask_eq_exp_minus_1)
  show ?thesis unfolding m by (subst a, subst (2) a, subst c, rule bit_eqI) (auto simp: bit_simps)
qed

lemma nibble_lo:
  assumes "a < (16 :: u8)" "c < 16"
  shows "ucast (push_bit 4 a OR c) AND 0x0F = (ucast c :: u16)"
proof -
  have c: "c = take_bit 4 c" using assms by (simp add: take_bit_4_nibble)
  have m: "(0x0F :: u16) = mask 4" by (simp add: mask_eq_exp_minus_1)
  show ?thesis unfolding m by (subst (1 2) c, rule bit_eqI) (auto simp: bit_simps)
qed

lemma header_byte:
  fixes v t :: "2 word" and n :: "4 word"
  defines "b \<equiv> (push_bit 6 (ucast v) OR push_bit 4 (ucast t)) OR ucast n :: u8"
  shows "ucast (drop_bit 6 b AND 0x03) = v" "ucast (drop_bit 4 b AND 0x03) = t" "ucast (b AND 0x0F) = n"
proof -
  have m: "(0x03 :: u8) = mask 2" "(0x0F :: u8) = mask 4" by (simp_all add: mask_eq_exp_minus_1)
  show "ucast (drop_bit 6 b AND 0x03) = v" "ucast (drop_bit 4 b AND 0x03) = t" "ucast (b AND 0x0F) = n"
    unfolding m b_def by (rule bit_eqI; auto simp: bit_simps dest: bit_imp_le_length)+
qed

subsection \<open>The wire format\<close>

definition ext_bytes :: "u16 \<Rightarrow> byte list" where
  "ext_bytes n =
     (if 269 \<le> n then [ucast (drop_bit 8 ((n - 269) AND 0xFF00)), ucast ((n - 269) AND 0x00FF)]
      else if 13 \<le> n then [ucast (n - 13)] else [])"

definition option_wire :: "u16 \<Rightarrow> byte list \<Rightarrow> byte list" where
  "option_wire d v =
     (push_bit 4 (opt_nibble d) OR opt_nibble (of_nat (length v))) # ext_bytes d @ ext_bytes (of_nat (length v)) @ v"

definition header_wire :: "CoAPMsgHeader \<Rightarrow> byte list" where
  "header_wire h =
     [(push_bit 6 (ucast (hd_version h)) OR push_bit 4 (ucast (hd_type h))) OR ucast (hd_tokenlen h), hd_code h,
      ucast (drop_bit 8 (hd_msgid h AND 0xFF00)), ucast (hd_msgid h AND 0x00FF)]"

definition payload_wire :: "byte list \<Rightarrow> byte list" where
  "payload_wire v = (if v = [] then [] else 0xFF # v)"

definition coap_wire :: "CoAPMsgHeader \<Rightarrow> byte list \<Rightarrow> (u16 \<times> byte list) list \<Rightarrow> byte list \<Rightarrow> byte list" where
  "coap_wire h token opts payload =
     header_wire h @ token @ concat (map (\<lambda>(d, v). option_wire d v) opts) @ payload_wire payload"

text \<open>The parts of a message structure, and when they are all there.\<close>

definition opt_data :: "CoAPMsgOption \<Rightarrow> byte list" where
  "opt_data opt = take (unat (opt_len opt)) (case opt_val opt of None \<Rightarrow> [] | Some v \<Rightarrow> v)"

definition msg_opts :: "CoAPMessage \<Rightarrow> (u16 \<times> byte list) list" where
  "msg_opts msg = map (\<lambda>opt. (opt_num opt, opt_data opt)) (take (unat (msg_optcount msg)) (msg_options msg))"

definition msg_tok :: "CoAPMessage \<Rightarrow> byte list" where
  "msg_tok msg = take (unat (hd_tokenlen (msg_header msg))) (msg_token msg)"

definition msg_data :: "CoAPMessage \<Rightarrow> byte list" where
  "msg_data msg = take (unat (msg_payloadlen msg)) (case msg_payload msg of None \<Rightarrow> [] | Some v \<Rightarrow> v)"

definition opt_ok :: "CoAPMsgOption \<Rightarrow> bool" where
  "opt_ok opt \<longleftrightarrow> length (opt_data opt) = unat (opt_len opt)"

definition msg_wire :: "CoAPMessage \<Rightarrow> byte list" where
  "msg_wire msg = coap_wire (msg_header msg) (msg_tok msg) (msg_opts msg) (msg_data msg)"

definition msg_ok :: "CoAPMessage \<Rightarrow> bool" where
  "msg_ok msg \<longleftrightarrow> length (msg_tok msg) = unat (hd_tokenlen (msg_header msg)) \<and>
     unat (msg_optcount msg) \<le> length (msg_options msg) \<and>
     (\<forall>opt \<in> set (take (unat (msg_optcount msg)) (msg_options msg)). opt_ok opt) \<and>
     length (msg_data msg) = unat (msg_payloadlen msg) \<and> length (msg_wire msg) < 65536"

subsection \<open>The serializer writes the format\<close>

lemma emits_put [emits_intro]: "emits (put b) [b]"
  by (simp add: emits_def put_def store_eq_store_bytes store_bytes_def)

lemma emits_put_bytes [emits_intro]: "emits (put_bytes bs) bs"
  by (simp add: emits_def put_bytes_def store_bytes_def)

lemma emits_opt_extend [emits_intro]: "emits (opt_extend n) (ext_bytes n)"
  unfolding opt_extend_def ext_bytes_def
  by (rule emits_if, rule emits_bind [OF emits_put emits_put, simplified], rule emits_if) (rule emits_intro)+

lemma length_opt_data_le: "length (opt_data opt) \<le> unat (opt_len opt)"
  by (simp add: opt_data_def)

lemma opt_okD: "opt_ok opt \<Longrightarrow>
    (if opt_len opt = 0 then Some [] else opt_val opt \<bind> (\<lambda>v. load_bytes v 0 (unat (opt_len opt)))) = Some (opt_data opt)"
  by (cases "opt_val opt") (auto simp: opt_ok_def opt_data_def load_bytes_def unat_eq_0)

lemma of_nat_opt_data: "opt_ok opt \<Longrightarrow> of_nat (length (opt_data opt)) = opt_len opt"
  by (simp add: opt_ok_def)

lemma serialize_option:
  assumes "opt_ok opt" "p + length (option_wire (opt_num opt) (opt_data opt)) \<le> length buf"
  shows "CoAPSerialize_Option opt (buf, p) =
     Some (of_nat (length (option_wire (opt_num opt) (opt_data opt))), blit buf p (option_wire (opt_num opt) (opt_data opt)))"
proof -
  define a where "a = (push_bit 4 (opt_nibble (opt_num opt)) OR opt_nibble (opt_len opt)) # ext_bytes (opt_num opt) @ ext_bytes (opt_len opt)"
  have w: "option_wire (opt_num opt) (opt_data opt) = a @ opt_data opt"
    by (simp add: option_wire_def a_def of_nat_opt_data [OF assms(1)])
  have "emits (\<lambda>s. put (push_bit 4 (opt_nibble (opt_num opt)) OR opt_nibble (opt_len opt)) s \<bind> opt_extend (opt_num opt) \<bind> opt_extend (opt_len opt)) a"
    unfolding a_def
    using emits_bind [OF emits_bind [OF emits_put emits_opt_extend] emits_opt_extend] by simp
  then have "put (push_bit 4 (opt_nibble (opt_num opt)) OR opt_nibble (opt_len opt)) (buf, p) \<bind> opt_extend (opt_num opt) \<bind> opt_extend (opt_len opt) =
      Some (blit buf p a, p + length a)"
    using assms(2) unfolding w by (intro emitsD) simp_all
  moreover have "put_bytes (opt_data opt) (blit buf p a, p + length a) = Some (blit buf p (a @ opt_data opt), p + length (a @ opt_data opt))"
    using emitsD [OF emits_put_bytes, of "p + length a" "opt_data opt" "blit buf p a"] assms(2)
    by (simp add: w blit_blit add.assoc)
  ultimately show ?thesis
    unfolding CoAPSerialize_Option_def w by (simp add: opt_okD [OF assms(1)] del: bind_assoc)
qed

lemma serialize_options_loop:
  assumes "i + n \<le> length (msg_options msg)" "\<forall>opt \<in> set (take n (drop i (msg_options msg))). opt_ok opt"
    and "out = concat (map (\<lambda>opt. option_wire (opt_num opt) (opt_data opt)) (take n (drop i (msg_options msg))))"
    and "p + unat count + length out \<le> length buf" "unat count + length out < 65536"
  shows "serialize_options_loop msg i n (buf, p) count = Some (count + of_nat (length out), blit buf (p + unat count) out)"
  using assms
proof (induction n arbitrary: i buf count out)
  case (Suc n)
  define opt where "opt = msg_options msg ! i"
  define w where "w = option_wire (opt_num opt) (opt_data opt)"
  define out' where "out' = concat (map (\<lambda>opt. option_wire (opt_num opt) (opt_data opt)) (take n (drop (Suc i) (msg_options msg))))"
  have d: "drop i (msg_options msg) = opt # drop (Suc i) (msg_options msg)"
    using Suc.prems(1) by (simp add: Cons_nth_drop_Suc opt_def)
  have ok: "opt_ok opt" and out: "out = w @ out'"
    using Suc.prems(2,3) by (simp_all add: d w_def out'_def)
  have room: "p + unat count + (length w + length out') \<le> length buf" "unat count + (length w + length out') < 65536"
    using Suc.prems(4,5) by (simp_all add: out)
  have pos: "0 < length w" by (simp add: w_def option_wire_def)
  have len: "unat (of_nat (length w) :: u16) = length w" "unat (count + of_nat (length w)) = unat count + length w"
    using room(2) by (simp_all add: unat_of_nat unat_word_ariths)
  have ser: "CoAPSerialize_Option opt (buf, p + unat count) = Some (of_nat (length w), blit buf (p + unat count) w)"
    unfolding w_def using room(1) by (intro serialize_option [OF ok]) (simp add: w_def [symmetric])
  have "serialize_options_loop msg (Suc i) n (blit buf (p + unat count) w, p) (count + of_nat (length w)) =
      Some (count + of_nat (length w) + of_nat (length out'), blit (blit buf (p + unat count) w) (p + unat (count + of_nat (length w))) out')"
    using Suc.prems(1,2) room by (intro Suc.IH [OF _ _ out'_def]) (simp_all add: d len)
  moreover have "(0 :: u16) < of_nat (length w)" using pos len(1) by (simp add: word_less_nat_alt)
  moreover have "get_option msg i = Some opt" using Suc.prems(1) by (simp add: get_option_def opt_def)
  ultimately show ?case
    using room(1) ser by (simp add: len out blit_blit [symmetric] add.assoc)
qed simp


lemma length_ext_bytes: "length (ext_bytes n) = (if 269 \<le> n then 2 else if 13 \<le> n then 1 else 0)"
  by (simp add: ext_bytes_def)

lemma option_len:
  assumes "opt_ok opt"
  shows "CoAPSerialize_OptionLen opt = of_nat (length (option_wire (opt_num opt) (opt_data opt)))"
  using of_nat_opt_data [OF assms] by (auto simp: CoAPSerialize_OptionLen_def option_wire_def length_ext_bytes)

lemma options_len_loop:
  assumes "i + n \<le> length (msg_options msg)" "\<forall>opt \<in> set (take n (drop i (msg_options msg))). opt_ok opt"
    and "out = concat (map (\<lambda>opt. option_wire (opt_num opt) (opt_data opt)) (take n (drop i (msg_options msg))))"
    and "length out < 65536"
  shows "options_len_loop msg i n count = Some (count + of_nat (length out))"
  using assms
proof (induction n arbitrary: i count out)
  case (Suc n)
  define opt where "opt = msg_options msg ! i"
  define w where "w = option_wire (opt_num opt) (opt_data opt)"
  define out' where "out' = concat (map (\<lambda>opt. option_wire (opt_num opt) (opt_data opt)) (take n (drop (Suc i) (msg_options msg))))"
  have d: "drop i (msg_options msg) = opt # drop (Suc i) (msg_options msg)"
    using Suc.prems(1) by (simp add: Cons_nth_drop_Suc opt_def)
  have ok: "opt_ok opt" and out: "out = w @ out'"
    using Suc.prems(2,3) by (simp_all add: d w_def out'_def)
  have len: "CoAPSerialize_OptionLen opt = of_nat (length w)" by (simp add: option_len [OF ok] w_def)
  have "length w < 65536" "0 < length w" using Suc.prems(4) by (simp_all add: out) (simp add: w_def option_wire_def)
  then have "0 < CoAPSerialize_OptionLen opt" by (simp add: len word_less_nat_alt unat_of_nat)
  moreover have "options_len_loop msg (Suc i) n (count + of_nat (length w)) = Some (count + of_nat (length w) + of_nat (length out'))"
    using Suc.prems(1,2,4) by (intro Suc.IH [OF _ _ out'_def]) (simp_all add: d out)
  moreover have "get_option msg i = Some opt" using Suc.prems(1) by (simp add: get_option_def opt_def)
  ultimately show ?case by (simp add: len out add.assoc)
qed simp

lemma concat_msg_opts: "concat (map (\<lambda>(d, v). option_wire d v) (msg_opts msg)) =
    concat (map (\<lambda>opt. option_wire (opt_num opt) (opt_data opt)) (take (unat (msg_optcount msg)) (drop 0 (msg_options msg))))"
  by (simp add: msg_opts_def comp_def)

lemma msg_data_nonempty: "msg_ok msg \<Longrightarrow> 0 < msg_payloadlen msg \<longleftrightarrow> msg_data msg \<noteq> []"
  by (auto simp: msg_ok_def word_less_nat_alt length_greater_0_conv [symmetric] simp del: length_greater_0_conv)

lemma length_payload_wire:
  "msg_ok msg \<Longrightarrow> length (payload_wire (msg_data msg)) = (if 0 < msg_payloadlen msg then unat (msg_payloadlen msg) + 1 else 0)"
  by (simp add: msg_data_nonempty payload_wire_def msg_ok_def)

lemma message_length:
  assumes "msg_ok msg"
  shows "CoAPSerialize_MessageLength msg = Some (of_nat (length (msg_wire msg)))"
proof -
  define out where "out = concat (map (\<lambda>(d, v). option_wire d v) (msg_opts msg))"
  have "length (header_wire (msg_header msg)) = 4" by (simp add: header_wire_def)
  then have len: "length (msg_wire msg) = 4 + unat (hd_tokenlen (msg_header msg)) + length out +
      (if 0 < msg_payloadlen msg then unat (msg_payloadlen msg) + 1 else 0)"
    using assms length_payload_wire [OF assms] by (simp add: msg_wire_def coap_wire_def out_def msg_ok_def)
  then have "length out < 65536" using assms by (simp add: msg_ok_def)
  then have "CoAPSerialize_OptionsLen msg = Some (of_nat (length out))"
    unfolding CoAPSerialize_OptionsLen_def
    using assms by (subst options_len_loop [OF _ _ out_def [unfolded concat_msg_opts]]) (simp_all add: msg_ok_def)
  then show ?thesis by (simp add: CoAPSerialize_MessageLength_def len)
qed

lemma emits_header: "emits (\<lambda>s. put a s \<bind> put b \<bind> put c \<bind> put d) [a, b, c, d]"
  using emits_bind [OF emits_bind [OF emits_bind [OF emits_put emits_put] emits_put] emits_put] by simp

lemma serialize_message:
  assumes ok: "msg_ok msg" and room: "length (msg_wire msg) \<le> unat buflen" "unat buflen \<le> length buf"
  shows "CoAPSerialize_Message msg (Some buf) buflen = Some (int (length (msg_wire msg)), Some (blit buf 0 (msg_wire msg)))"
proof -
  define h t p where "h = header_wire (msg_header msg)" and "t = msg_tok msg" and "p = payload_wire (msg_data msg)"
  define opts where "opts = concat (map (\<lambda>(d, v). option_wire d v) (msg_opts msg))"
  have w: "msg_wire msg = h @ t @ opts @ p" by (simp add: msg_wire_def coap_wire_def h_def t_def p_def opts_def)
  have h4: "length h = 4" by (simp add: h_def header_wire_def)
  have lt: "length t = unat (hd_tokenlen (msg_header msg))" using ok by (simp add: msg_ok_def t_def)
  have total: "4 + length t + length opts + length p \<le> unat buflen" "unat buflen < 65536"
    using room(1) unat_u16_lt [of buflen] by (simp_all add: w h4)
  have r1: "unat (buflen - 4) = unat buflen - 4" using total by (simp add: unat_sub word_le_nat_alt)
  have r2: "unat (buflen - 4 - of_nat (length t)) = unat buflen - 4 - length t"
    using total by (simp add: unat_sub word_le_nat_alt r1 unat_of_nat)
  have r3: "unat (buflen - 4 - of_nat (length t) - of_nat (length opts)) = unat buflen - 4 - length t - length opts"
    using total by (simp add: unat_sub word_le_nat_alt r2 unat_of_nat)
  have r4: "unat (buflen - 4 - of_nat (length t) - of_nat (length opts) - of_nat (length p)) = unat buflen - 4 - length t - length opts - length p"
    using total by (simp add: unat_sub word_le_nat_alt r3 unat_of_nat)
  have "CoAPSerialize_Header msg (buf, 0) buflen = Some (4, blit buf 0 h)"
    using emitsD [OF emits_header, of 0 _ _ _ _ buf] total room(2) h4
    by (auto simp: CoAPSerialize_Header_def Let_def h_def header_wire_def word_less_nat_alt simp del: bind_assoc)
  moreover have "CoAPSerialize_Token msg (blit buf 0 h, 4) (buflen - 4) = Some (int (length t), blit buf 0 (h @ t))"
    using ok total room(2) h4 lt blit_blit [of 0 h buf t]
    by (auto simp: CoAPSerialize_Token_def Let_def r1 load_bytes_def store_bytes_def msg_ok_def t_def msg_tok_def)
  moreover have "CoAPSerialize_Options msg (blit buf 0 (h @ t), 4 + length t) (buflen - 4 - of_nat (length t)) =
      Some (of_nat (length opts), blit buf 0 (h @ t @ opts))"
    unfolding CoAPSerialize_Options_def
    using ok total room(2) h4 blit_blit [of 0 "h @ t" buf opts]
    by (subst serialize_options_loop [OF _ _ opts_def [unfolded concat_msg_opts]]) (simp_all add: msg_ok_def)
  moreover have "CoAPSerialize_Payload msg (blit buf 0 (h @ t @ opts), 4 + length t + length opts)
      (int (unat buflen - 4 - length t - length opts)) = Some (int (length p), blit buf 0 (h @ t @ opts @ p))"
  proof (cases "0 < msg_payloadlen msg")
    case True
    with ok have ne: "msg_data msg \<noteq> []" by (simp add: msg_data_nonempty)
    then obtain v where v: "msg_payload msg = Some v" by (auto simp: msg_data_def split: option.splits)
    with ok have ld: "load_bytes v 0 (unat (msg_payloadlen msg)) = Some (msg_data msg)"
      by (auto simp: msg_ok_def msg_data_def load_bytes_def)
    have p: "p = 0xFF # msg_data msg" "length (msg_data msg) = unat (msg_payloadlen msg)"
      using ne ok by (simp_all add: p_def payload_wire_def msg_ok_def)
    have "put 0xFF (blit buf 0 (h @ t @ opts), 4 + length t + length opts) \<bind> put_bytes (msg_data msg) =
        Some (blit buf 0 (h @ t @ opts @ p), 4 + length t + length opts + length p)"
      using emitsD [OF emits_bind [OF emits_put emits_put_bytes], of "4 + length t + length opts" "0xFF" "msg_data msg" "blit buf 0 (h @ t @ opts)"]
        total room(2) h4 blit_blit [of 0 "h @ t @ opts" buf p] by (simp add: p add.assoc)
    moreover have "4 + length t + length opts + (unat (msg_payloadlen msg) + 1) \<le> unat buflen" using total(1) by (simp add: p)
    then have "\<not> uint (msg_payloadlen msg) + 1 > int (unat buflen - 4 - length t - length opts)"
      unfolding uint_nat by linarith
    moreover have "uint (msg_payloadlen msg) + 1 = int (length p)" unfolding p(1) uint_nat using p(2) by simp
    ultimately show ?thesis
      unfolding CoAPSerialize_Payload_def using True v ld by (simp del: bind_assoc)
  next
    case False
    with ok have "msg_data msg = []" by (simp add: msg_data_nonempty)
    with False show ?thesis by (simp add: CoAPSerialize_Payload_def p_def payload_wire_def)
  qed
  moreover have "unat (of_nat (length t) :: u16) = length t" "unat (of_nat (length opts) :: u16) = length opts"
    "unat (of_nat (length p) :: u16) = length p"
    using total by (simp_all add: unat_of_nat)
  moreover have "uint (buflen - 4 - of_nat (length t) - of_nat (length opts)) = int (unat buflen - 4 - length t - length opts)"
    unfolding uint_nat r3 by (rule refl)
  moreover have "uint buflen - uint (buflen - 4 - of_nat (length t) - of_nat (length opts) - of_nat (length p)) =
      int (4 + length t + length opts + length p)"
    unfolding uint_nat r4 using total(1) by linarith
  ultimately show ?thesis
    unfolding CoAPSerialize_Message_def w by (simp add: Let_def add.assoc h4)
qed

end
