(* ===== verification/CoAP_Decode.thy ===== *)
theory CoAP_Decode
  imports CoAP_Wire
begin

text \<open>
  The deserializer of \<open>CoAPDeserialize_common.c\<close>: it stays inside the receive buffer on every
  input that leaves one byte of it free, and it reads back every message that the serializer writes, with option numbers in
  place of differences. A message built with \<open>CoAPStrOption_add\<close> thus arrives with exactly the
  options that were added.
\<close>

unbundle bit_operations_syntax

subsection \<open>One option\<close>

lemma opt_nibble_less: "opt_nibble n < 16" "opt_nibble n \<noteq> 15"
proof -
  have "unat (opt_nibble n) < 15"
    by (auto simp: opt_nibble_def unsigned_ucast_eq word_le_nat_alt not_le take_bit_nat_eq_self)
  then show "opt_nibble n < 16" "opt_nibble n \<noteq> 15"
    by (auto simp: word_less_nat_alt)
qed

lemma ucast_byte_sub:
  assumes "n < 269" "13 \<le> n"
  shows "13 + ucast (ucast (n - 13) :: u8) = (n :: u16)"
proof -
  have n: "unat n < 269" "13 \<le> unat n" "unat (n - 13) = unat n - 13"
    using assms by (simp_all add: word_le_nat_alt word_less_nat_alt unat_sub)
  then have "unat (ucast (n - 13) :: u8) = unat n - 13"
    by (simp only: unsigned_ucast_eq unsigned_take_bit_eq) (simp add: take_bit_nat_eq_self)
  with n show ?thesis by (simp add: word_unat_eq_iff unat_word_ariths unat_ucast_8_16)
qed

lemma opt_value_ext:
  "opt_value (xs @ ext_bytes n @ ys) (length xs) (ucast (opt_nibble n)) = Some (n, length (ext_bytes n))"
proof -
  consider "269 \<le> n" | "n < 269" "13 \<le> n" | "n < 13" by force
  then show ?thesis
  proof cases
    case 1
    then show ?thesis using bytes_u16 [of "n - 269"] by (simp add: opt_value_def ext_bytes_def opt_nibble_def load_append)
  next
    case 2
    then have "(269 \<le> n) = False" by simp
    with 2 show ?thesis using ucast_byte_sub [of n] by (simp add: opt_value_def ext_bytes_def opt_nibble_def load_append)
  next
    case 3
    then have "\<not> 13 \<le> n" "\<not> 269 \<le> n" "unat n < 13" by (simp_all add: word_le_nat_alt word_less_nat_alt)
    moreover from this have "(ucast (ucast n :: u8) :: u16) = n" "n \<noteq> 13" "n \<noteq> 14"
      by (auto simp: word_unat_eq_iff unat_ucast_8_16 unsigned_ucast_eq unsigned_take_bit_eq take_bit_nat_eq_self)
    ultimately show ?thesis by (simp add: opt_value_def ext_bytes_def opt_nibble_def)
  qed
qed

lemma option_wire_marker: "hd (option_wire d v) \<noteq> 0xFF"
proof
  assume "hd (option_wire d v) = 0xFF"
  then have "drop_bit 4 (ucast (0xFF :: u8) AND 0xF0) = (ucast (opt_nibble d) :: u16)"
    using nibble_hi [OF opt_nibble_less(1) opt_nibble_less(1), of d "of_nat (length v)"] by (simp add: option_wire_def)
  then have "unat (opt_nibble d) = 15" by (simp add: word_unat_eq_iff unat_ucast_8_16)
  then show False using opt_nibble_less(2) [of d] by (simp add: word_unat_eq_iff)
qed

lemma deserialize_option:
  assumes "length v < 65536" "v \<noteq> [] \<or> ys \<noteq> []"
  shows "CoAPDeserialize_Option opt (xs @ option_wire d v @ ys @ zs) (length xs) (int (length (option_wire d v) + length ys)) pre =
    Some (int (length (option_wire d v)), opt\<lparr>opt_num := pre + d, opt_len := of_nat (length v), opt_val := Some (v @ ys @ zs)\<rparr>, pre + d)"
proof -
  define l where "l = (of_nat (length v) :: u16)"
  define b where "b = push_bit 4 (opt_nibble d) OR opt_nibble l"
  let ?e = "ext_bytes d" let ?f = "ext_bytes l"
  let ?buf = "xs @ (b # ?e @ ?f @ v) @ ys @ zs"
  let ?left = "int (length (b # ?e @ ?f @ v) + length ys)"
  have hi: "drop_bit 4 (ucast b AND 0xF0) = (ucast (opt_nibble d) :: u16)" and lo: "ucast b AND 0x0F = (ucast (opt_nibble l) :: u16)"
    unfolding b_def by (rule nibble_hi nibble_lo; rule opt_nibble_less)+
  have ld: "load ?buf (length xs) = Some b" by (simp add: load_append)
  have v1: "opt_value ?buf (length xs + 1) (ucast (opt_nibble d)) = Some (d, length ?e)"
    using opt_value_ext [of "xs @ [b]" d "?f @ v @ ys @ zs"] by simp
  have v2: "opt_value ?buf (length xs + 1 + length ?e) (ucast (opt_nibble l)) = Some (l, length ?f)"
    using opt_value_ext [of "xs @ b # ?e" l "v @ ys @ zs"] by simp
  have "1 \<le> int (length v) + int (length ys)" using assms(2) by (cases v; cases ys) auto
  then have past: "opt_past ?left 1 = False" "(0 < length ?e \<and> opt_past (?left - 1) (int (length ?e))) = False"
    "(0 < length ?f \<and> opt_past (?left - 1 - int (length ?e)) (int (length ?f))) = False"
    by (auto simp: opt_past_def)
  have wire: "option_wire d v = b # ?e @ ?f @ v" by (simp add: option_wire_def b_def l_def)
  have res: "drop (length xs + 1 + length ?e + length ?f) ?buf = v @ ys @ zs" by simp
  have "uint l = int (length v)" using assms(1) by (simp add: l_def unsigned_of_nat take_bit_nat_eq_self)
  then have n: "int (length xs + 1 + length ?e + length ?f - length xs) + uint l = int (length (b # ?e @ ?f @ v))" by simp
  show ?thesis
    unfolding wire l_def [symmetric]
    by (simp only: CoAPDeserialize_Option_def ld bind.bind_lunit Let_def prod.case hi lo v1 v2 past if_False res n) simp
qed


subsection \<open>All options\<close>

text \<open>The option numbers of a sequence of options given with their differences.\<close>

fun abs_opts :: "u16 \<Rightarrow> (u16 \<times> byte list) list \<Rightarrow> (u16 \<times> byte list) list" where
  "abs_opts pre [] = []"
| "abs_opts pre ((d, v) # opts) = (pre + d, v) # abs_opts (pre + d) opts"

abbreviation opts_wire :: "(u16 \<times> byte list) list \<Rightarrow> byte list" where
  "opts_wire opts \<equiv> concat (map (\<lambda>(d, v). option_wire d v) opts)"

text \<open>What the loop leaves in the message: the options from \<open>index\<close> on are those of the wire.\<close>

definition decoded_into :: "CoAPMessage \<Rightarrow> nat \<Rightarrow> u16 \<Rightarrow> (u16 \<times> byte list) list \<Rightarrow> CoAPMessage \<Rightarrow> bool" where
  "decoded_into msg index pre opts msg' \<longleftrightarrow>
     (\<exists>os. map (\<lambda>opt. (opt_num opt, opt_data opt)) os = abs_opts pre opts \<and> (\<forall>opt \<in> set os. opt_ok opt) \<and>
        msg' = msg\<lparr>msg_options := take index (msg_options msg) @ os @ drop (index + length os) (msg_options msg),
                   msg_optcount := msg_optcount msg + of_nat (length opts)\<rparr>)"

lemma length_abs_opts [simp]: "length (abs_opts pre opts) = length opts"
  by (induction pre opts rule: abs_opts.induct) simp_all

lemma decoded_into_Nil: "decoded_into msg index pre [] msg"
  by (simp add: decoded_into_def)

lemma decoded_into_Cons:
  assumes "index < length (msg_options msg)" "opt_num opt = pre + d" "opt_data opt = v" "opt_ok opt"
    and "decoded_into (msg\<lparr>msg_options := (msg_options msg)[index := opt], msg_optcount := msg_optcount msg + 1\<rparr>) (index + 1) (pre + d) opts msg'"
  shows "decoded_into msg index pre ((d, v) # opts) msg'"
proof -
  obtain os where os: "map (\<lambda>opt. (opt_num opt, opt_data opt)) os = abs_opts (pre + d) opts" "\<forall>opt \<in> set os. opt_ok opt"
    "msg' = msg\<lparr>msg_options := take (index + 1) ((msg_options msg)[index := opt]) @ os @ drop (index + 1 + length os) ((msg_options msg)[index := opt]),
                msg_optcount := msg_optcount msg + 1 + of_nat (length opts)\<rparr>"
    using assms(5) by (auto simp: decoded_into_def)
  have "take (index + 1) ((msg_options msg)[index := opt]) = take index (msg_options msg) @ [opt]"
    using assms(1) by (simp add: take_Suc_conv_app_nth)
  then show ?thesis
    unfolding decoded_into_def using os assms(2-4) by (intro exI [of _ "opt # os"]) (simp add: add.assoc)
qed

lemma deserialize_options:
  assumes "index + length opts \<le> COAP_MSG_MAX_OPTION_NUM" "length (msg_options msg) = COAP_MSG_MAX_OPTION_NUM"
    and "\<forall>(d, v) \<in> set opts. length v < 65536" "tail = [] \<and> (opts = [] \<or> snd (last opts) \<noteq> []) \<or> (\<exists>p. tail = 0xFF # p)"
    and "base \<le> length xs"
  shows "\<exists>msg'. deserialize_options_loop msg (xs @ opts_wire opts @ tail @ zs) base (length xs) (int (length (opts_wire opts) + length tail)) index pre =
      Some (int (length xs + length (opts_wire opts)) - int base, msg') \<and> decoded_into msg index pre opts msg'"
  using assms
proof (induction opts arbitrary: msg xs index pre)
  case Nil
  then show ?case
    by (subst deserialize_options_loop.simps) (auto simp: load_append decoded_into_Nil)
next
  case (Cons o1 opts)
  obtain d v where o1: "o1 = (d, v)" by (cases o1)
  let ?w = "option_wire d v" let ?rest = "opts_wire opts @ tail"
  let ?buf = "xs @ ?w @ ?rest @ zs"
  define opt where "opt = msg_options msg ! index"
  define opt' where "opt' = opt\<lparr>opt_num := pre + d, opt_len := of_nat (length v), opt_val := Some (v @ ?rest @ zs)\<rparr>"
  have i: "index < length (msg_options msg)" using Cons.prems(1,2) by simp
  have "v \<noteq> [] \<or> ?rest \<noteq> []" using Cons.prems(4) by (cases opts) (auto simp: o1 option_wire_def)
  then have des: "CoAPDeserialize_Option opt ?buf (length xs) (int (length ?w + length ?rest)) pre = Some (int (length ?w), opt', pre + d)"
    unfolding opt'_def using Cons.prems(3) by (intro deserialize_option) (auto simp: o1)
  have ld: "load ?buf (length xs) = Some (hd ?w)" by (simp add: load_append option_wire_def)
  let ?m = "msg\<lparr>msg_options := (msg_options msg)[index := opt'], msg_optcount := msg_optcount msg + 1\<rparr>"
  have "\<exists>msg'. deserialize_options_loop ?m ((xs @ ?w) @ opts_wire opts @ tail @ zs) base (length (xs @ ?w))
      (int (length (opts_wire opts) + length tail)) (index + 1) (pre + d) =
      Some (int (length (xs @ ?w) + length (opts_wire opts)) - int base, msg') \<and> decoded_into ?m (index + 1) (pre + d) opts msg'"
    using Cons.prems by (intro Cons.IH) (auto simp: last_ConsR split: if_splits)
  then obtain msg' where IH: "deserialize_options_loop ?m ?buf base (length xs + length ?w)
      (int (length (opts_wire opts) + length tail)) (index + 1) (pre + d) =
      Some (int (length xs + length ?w + length (opts_wire opts)) - int base, msg')" "decoded_into ?m (index + 1) (pre + d) opts msg'"
    by auto
  have v16: "length v < 65536" using Cons.prems(3) by (simp add: o1)
  then have "opt_data opt' = v" "opt_ok opt'"
    by (simp_all add: opt'_def opt_data_def opt_ok_def unat_of_nat)
  then have dec: "decoded_into msg index pre ((d, v) # opts) msg'"
    using i IH(2) by (intro decoded_into_Cons [of _ _ opt']) (simp_all add: opt'_def)
  have pos: "0 < int (length ?w) + (int (length (opts_wire opts)) + int (length tail))" by (simp add: option_wire_def)
  have "deserialize_options_loop msg ?buf base (length xs) (int (length ?w + length ?rest)) index pre =
      Some (int (length xs + length ?w + length (opts_wire opts)) - int base, msg')"
    using i Cons.prems(1,2) pos option_wire_marker [of d v] IH(1)
    by (subst deserialize_options_loop.simps)
       (simp add: ld [simplified] des [simplified] get_option_def set_option_def opt_def [symmetric])
  with dec show ?case by (auto simp: o1 add.assoc)
qed


subsection \<open>Whole messages\<close>

text \<open>The structure that receivers start from: \<open>memset\<close> to zero.\<close>

definition zero_message :: CoAPMessage where
  "zero_message =
     \<lparr>msg_header = \<lparr>hd_version = 0, hd_type = 0, hd_tokenlen = 0, hd_code = 0, hd_msgid = 0\<rparr>,
      msg_token = replicate COAP_MSG_MAX_TOKEN_LEN 0, msg_options = replicate COAP_MSG_MAX_OPTION_NUM zero_option,
      msg_optcount = 0, msg_optdelta = 0, msg_payloadlen = 0, msg_payload = None,
      msg_handler = None, msg_resp = None, msg_user = None, msg_keep = 0\<rparr>"

lemma deserialize_header:
  "CoAPDeserialize_Header msg (header_wire h @ ys) 0 = Some (4, msg\<lparr>msg_header := h\<rparr>)"
proof -
  have "\<lparr>hd_version = hd_version h, hd_type = hd_type h, hd_tokenlen = hd_tokenlen h, hd_code = hd_code h, hd_msgid = hd_msgid h\<rparr> = h"
    by simp
  moreover have "load (header_wire h @ ys) 0 = Some (header_wire h ! 0)" "load (header_wire h @ ys) (0 + 1) = Some (header_wire h ! 1)"
    "load (header_wire h @ ys) (0 + 2) = Some (header_wire h ! 2)" "load (header_wire h @ ys) (0 + 3) = Some (header_wire h ! 3)"
    by (simp_all add: load_def header_wire_def)
  ultimately show ?thesis
    unfolding CoAPDeserialize_Header_def
    by (simp only: bind.bind_lunit header_wire_def nth_Cons_0 header_byte bytes_u16 One_nat_def numeral_2_eq_2 numeral_3_eq_3 nth_Cons_Suc)
qed

lemma deserialize_message:
  assumes token: "length token = unat (hd_tokenlen h)" "length token \<le> COAP_MSG_MAX_TOKEN_LEN"
    and opts: "length opts \<le> COAP_MSG_MAX_OPTION_NUM" "\<forall>(d, v) \<in> set opts. length v < 65536"
    and payload: "length payload < 65536"
      "payload = [] \<longrightarrow> (opts = [] \<or> snd (last opts) \<noteq> []) \<and> zs \<noteq> [] \<and> hd zs \<noteq> 0xFF"
    and msg: "length (msg_token msg) = COAP_MSG_MAX_TOKEN_LEN" "length (msg_options msg) = COAP_MSG_MAX_OPTION_NUM"
  shows "\<exists>m. CoAPDeserialize_Message msg (Some (coap_wire h token opts payload @ zs)) (int (length (coap_wire h token opts payload))) =
      Some (COAP_SUCCESS, m) \<and> msg_header m = h \<and> msg_tok m = token \<and> msg_opts m = abs_opts 0 opts \<and>
      (payload \<noteq> [] \<longrightarrow> msg_data m = payload) \<and> (payload = [] \<longrightarrow> msg_data m = msg_data msg)"
proof -
  let ?hw = "header_wire h" let ?tail = "payload_wire payload"
  let ?buf = "coap_wire h token opts payload @ zs"
  have h4: "length ?hw = 4" by (simp add: header_wire_def)
  define m1 where "m1 = msg\<lparr>msg_header := h, msg_token := blit (msg_token msg) 0 token\<rparr>"
  have b1: "?buf = ?hw @ token @ opts_wire opts @ ?tail @ zs" by (simp add: coap_wire_def)
  then have hd: "CoAPDeserialize_Header msg ?buf 0 = Some (4, msg\<lparr>msg_header := h\<rparr>)"
    using deserialize_header [of msg h] by simp
  have tk: "CoAPDeserialize_Token (msg\<lparr>msg_header := h\<rparr>) ?buf 4 = Some (int (length token), m1)"
    using token msg(1) h4 unfolding b1
    by (simp add: CoAPDeserialize_Token_def m1_def load_bytes_def store_bytes_def not_less)
  have "\<exists>m2. deserialize_options_loop (m1\<lparr>msg_optcount := 0\<rparr>) ((?hw @ token) @ opts_wire opts @ ?tail @ zs) (4 + length token) (length (?hw @ token))
      (int (length (opts_wire opts) + length ?tail)) 0 0 =
      Some (int (length (?hw @ token) + length (opts_wire opts)) - int (4 + length token), m2) \<and> decoded_into (m1\<lparr>msg_optcount := 0\<rparr>) 0 0 opts m2"
    using opts payload(2) msg(2) h4
    by (intro deserialize_options) (auto simp: m1_def payload_wire_def)
  then obtain m2 where op: "CoAPDeserialize_Options m1 ?buf (4 + length token) (int (length (opts_wire opts) + length ?tail)) = Some (int (length (opts_wire opts)), m2)"
    and dec: "decoded_into (m1\<lparr>msg_optcount := 0\<rparr>) 0 0 opts m2"
    unfolding b1 CoAPDeserialize_Options_def by (auto simp: h4)
  obtain os where os: "map (\<lambda>opt. (opt_num opt, opt_data opt)) os = abs_opts 0 opts"
    and m2: "m2 = m1\<lparr>msg_options := os @ drop (length os) (msg_options msg), msg_optcount := of_nat (length opts)\<rparr>"
    using dec by (auto simp: decoded_into_def m1_def)
  have "length os = length opts" using arg_cong [OF os, of length] by simp
  moreover have "unat (of_nat (length opts) :: u8) = length opts" using opts(1) by (simp add: COAP_MSG_MAX_OPTION_NUM_def unat_of_nat)
  ultimately have mo: "msg_opts m2 = abs_opts 0 opts" using os by (simp add: msg_opts_def m2)
  have mt: "msg_tok m2 = token" "msg_header m2 = h"
    using token msg(1) by (simp_all add: m2 m1_def msg_tok_def blit_def)
  have ld: "load ?buf (4 + length token + length (opts_wire opts)) = load (?tail @ zs) 0"
    unfolding b1 using h4 by (simp add: load_append add.assoc)
  obtain n m3 where pl: "CoAPDeserialize_Payload m2 ?buf (4 + length token + length (opts_wire opts)) (int (length ?tail)) = Some (n, m3)"
    and m3: "msg_header m3 = msg_header m2" "msg_tok m3 = msg_tok m2" "msg_opts m3 = msg_opts m2"
      "payload \<noteq> [] \<longrightarrow> msg_data m3 = payload" "payload = [] \<longrightarrow> msg_data m3 = msg_data msg"
  proof (cases "payload = []")
    case True
    then have "load ?buf (4 + length token + length (opts_wire opts)) = Some (hd zs)" "hd zs \<noteq> 0xFF"
      using ld payload(2) by (cases zs; simp add: payload_wire_def)+
    then have "CoAPDeserialize_Payload m2 ?buf (4 + length token + length (opts_wire opts)) (int (length ?tail)) = Some (0, m2)"
      by (simp add: CoAPDeserialize_Payload_def)
    moreover have "msg_data m2 = msg_data msg" by (simp add: m2 m1_def msg_data_def)
    ultimately show ?thesis using that True by blast
  next
    case False
    define m3 where "m3 = m2\<lparr>msg_payloadlen := of_nat (length payload), msg_payload := Some (payload @ zs)\<rparr>"
    have "drop (4 + length token + length (opts_wire opts) + 1) ?buf = payload @ zs"
      unfolding b1 using False h4 by (simp add: payload_wire_def)
    then have "CoAPDeserialize_Payload m2 ?buf (4 + length token + length (opts_wire opts)) (int (length ?tail)) = Some (int (length ?tail), m3)"
      using ld False by (simp add: CoAPDeserialize_Payload_def payload_wire_def m3_def)
    moreover have "msg_data m3 = payload" using payload(1) by (simp add: m3_def msg_data_def unat_of_nat)
    moreover have "msg_header m3 = msg_header m2" "msg_tok m3 = msg_tok m2" "msg_opts m3 = msg_opts m2"
      by (simp_all add: m3_def msg_tok_def msg_opts_def)
    ultimately show ?thesis using that False by blast
  qed
  have len: "int (length (coap_wire h token opts payload)) = 4 + int (length token) + int (length (opts_wire opts)) + int (length ?tail)"
    by (simp add: coap_wire_def h4)
  show ?thesis
    using hd tk op pl m3 mo mt
    by (simp add: CoAPDeserialize_Message_def len)
qed


subsection \<open>Safety on arbitrary input\<close>

lemma returns_opt_value: "p + 1 < length buf \<Longrightarrow> returns (opt_value buf p n) (\<lambda>(v, step). step \<le> 2)"
  by (simp add: opt_value_def load_def)

text \<open>The option that starts at \<open>base\<close> has \<open>n\<close> bytes, the last of them its value.\<close>

definition opt_at :: "byte list \<Rightarrow> nat \<Rightarrow> int \<Rightarrow> CoAPMsgOption \<Rightarrow> bool" where
  "opt_at buf base n opt \<longleftrightarrow> 0 < n \<and> (\<exists>p. opt_val opt = Some (drop p buf) \<and> p + unat (opt_len opt) = base + nat n)"

lemma opt_atI:
  assumes "base < q" "opt_val opt = Some (drop q buf)"
  shows "opt_at buf base (int (q - base) + uint (opt_len opt)) opt"
proof -
  have n: "int (q - base) + uint (opt_len opt) = int (q - base + unat (opt_len opt))" unfolding uint_nat by simp
  show ?thesis unfolding opt_at_def n nat_int of_nat_0_less_iff using assms by (intro conjI exI [of _ q]) auto
qed

lemma returns_option:
  assumes "0 < left" "int base + left < int (length buf)"
  shows "returns (CoAPDeserialize_Option opt buf base left pre) (\<lambda>(n, opt', _). n = -1 \<or> opt_at buf base n opt')"
proof -
  have ld: "load buf base = Some (buf ! base)" using assms by (simp add: load_def)
  have fin: "returns (opt_value buf p n) (\<lambda>(l, step). returns
      (if step > 0 \<and> opt_past left' (int step) then Some (-1, opt1, pre)
       else Some (int (p + step - base) + uint l, opt1\<lparr>opt_len := l, opt_val := Some (drop (p + step) buf)\<rparr>,
              opt_num (opt1\<lparr>opt_len := l, opt_val := Some (drop (p + step) buf)\<rparr>)))
      (\<lambda>(n, opt', _). n = -1 \<or> opt_at buf base n opt'))"
    if "p + 1 < length buf" "base < p" for p n left' opt1
    using returns_opt_value [OF that(1), of n]
  proof (rule returns_conseq, clarify)
    fix l step
    show "returns (if step > 0 \<and> opt_past left' (int step) then Some (-1, opt1, pre)
       else Some (int (p + step - base) + uint l, opt1\<lparr>opt_len := l, opt_val := Some (drop (p + step) buf)\<rparr>,
              opt_num (opt1\<lparr>opt_len := l, opt_val := Some (drop (p + step) buf)\<rparr>)))
      (\<lambda>(n, opt', _). n = -1 \<or> opt_at buf base n opt')"
      using opt_atI [of base "p + step" "opt1\<lparr>opt_len := l, opt_val := Some (drop (p + step) buf)\<rparr>" buf] that(2) by simp
  qed
  show ?thesis
    unfolding CoAPDeserialize_Option_def ld bind.bind_lunit Let_def prod.case
  proof (rule returns_if, simp, rule returns_bind, rule returns_conseq [OF returns_opt_value], goal_cases)
    case 1
    then show ?case using assms by (simp add: opt_past_def)
  next
    case (2 ds)
    have "returns (opt_value buf (base + 1 + snd ds) (ucast (buf ! base) AND 0x0F)) (\<lambda>(l, step). returns
      (if step > 0 \<and> opt_past (left - 1 - int (snd ds)) (int step) then Some (-1, opt\<lparr>opt_num := pre + fst ds\<rparr>, pre)
       else Some (int (base + 1 + snd ds + step - base) + uint l,
              opt\<lparr>opt_num := pre + fst ds\<rparr>\<lparr>opt_len := l, opt_val := Some (drop (base + 1 + snd ds + step) buf)\<rparr>,
              opt_num (opt\<lparr>opt_num := pre + fst ds\<rparr>\<lparr>opt_len := l, opt_val := Some (drop (base + 1 + snd ds + step) buf)\<rparr>)))
      (\<lambda>(n, opt', _). n = -1 \<or> opt_at buf base n opt'))"
      if "\<not> (0 < snd ds \<and> opt_past (left - 1) (int (snd ds)))"
      using assms that 2(1) by (intro fin) (auto simp: opt_past_def)
    then show ?case by (auto simp: case_prod_unfold intro!: returns_bind)
  qed
qed


text \<open>The first \<open>k\<close> options point into the buffer and end before \<open>e\<close>.\<close>

definition opts_inside :: "byte list \<Rightarrow> nat \<Rightarrow> nat \<Rightarrow> CoAPMessage \<Rightarrow> bool" where
  "opts_inside buf k e msg \<longleftrightarrow>
     (\<forall>i < k. \<exists>p. opt_val (msg_options msg ! i) = Some (drop p buf) \<and> p + unat (opt_len (msg_options msg ! i)) \<le> e)"

lemma opts_inside_mono: "opts_inside buf k e msg \<Longrightarrow> e \<le> e' \<Longrightarrow> opts_inside buf k e' msg"
  unfolding opts_inside_def by (meson order_trans)

lemma opts_inside_Suc:
  assumes "opts_inside buf k base msg" "opt_at buf base n opt" "k < length (msg_options msg)"
    and "msg_options msg' = (msg_options msg)[k := opt]"
  shows "opts_inside buf (k + 1) (base + nat n) msg'"
  unfolding opts_inside_def
proof (intro allI impI)
  fix i assume "i < k + 1"
  then consider "i = k" | "i < k" by linarith
  then show "\<exists>p. opt_val (msg_options msg' ! i) = Some (drop p buf) \<and> p + unat (opt_len (msg_options msg' ! i)) \<le> base + nat n"
  proof cases
    case 1
    obtain p where "opt_val opt = Some (drop p buf)" "p + unat (opt_len opt) = base + nat n"
      using assms(2) by (auto simp: opt_at_def)
    then show ?thesis using 1 assms(3,4) by (intro exI [of _ p]) simp
  next
    case 2
    then obtain p where "opt_val (msg_options msg ! i) = Some (drop p buf)" "p + unat (opt_len (msg_options msg ! i)) \<le> base"
      using assms(1) by (auto simp: opts_inside_def)
    then show ?thesis using 2 assms(4) by (intro exI [of _ p]) simp
  qed
qed

definition options_result :: "byte list \<Rightarrow> nat \<Rightarrow> int \<times> CoAPMessage \<Rightarrow> bool" where
  "options_result buf base = (\<lambda>(n, m). n < 0 \<or> (\<exists>k \<le> COAP_MSG_MAX_OPTION_NUM. msg_optcount m = of_nat k \<and>
     length (msg_options m) = COAP_MSG_MAX_OPTION_NUM \<and> opts_inside buf k (base + nat n) m))"

lemma returns_options_loop:
  assumes "int ptr + left < int (length buf)" "base \<le> ptr" "index \<le> COAP_MSG_MAX_OPTION_NUM"
    and "length (msg_options msg) = COAP_MSG_MAX_OPTION_NUM" "msg_optcount msg = of_nat index"
    and "opts_inside buf index ptr msg"
  shows "returns (deserialize_options_loop msg buf base ptr left index optdeltas) (options_result buf base)"
  using assms
proof (induction "COAP_MSG_MAX_OPTION_NUM - index" arbitrary: msg ptr left index optdeltas rule: less_induct)
  case less
  have "base + nat (int ptr - int base) = ptr" using less.prems(2) by simp
  then have stop: "options_result buf base (int ptr - int base, msg)"
    using less.prems by (auto simp: options_result_def intro!: exI [of _ index])
  show ?case
  proof (cases "left > 0 \<and> buf ! ptr \<noteq> 0xFF \<and> index < COAP_MSG_MAX_OPTION_NUM")
    case False
    then show ?thesis
      using stop less.prems(1) by (subst deserialize_options_loop.simps) (auto simp: load_def)
  next
    case True
    then have ld: "load buf ptr = Some (buf ! ptr)" using less.prems(1) by (simp add: load_def)
    define opt where "opt = msg_options msg ! index"
    have get: "get_option msg index = Some opt" using True less.prems(4) by (simp add: get_option_def opt_def)
    obtain n opt' d' where des: "CoAPDeserialize_Option opt buf ptr left optdeltas = Some (n, opt', d')"
      and at: "n = -1 \<or> opt_at buf ptr n opt'"
      using returns_exists [OF returns_option, of left ptr buf opt optdeltas] True less.prems(1) by auto
    have set: "set_option msg index opt' = Some (msg\<lparr>msg_options := (msg_options msg)[index := opt']\<rparr>)"
      using True less.prems(4) by (simp add: set_option_def)
    show ?thesis
    proof (cases "n < 0")
      case neg: True
      then show ?thesis
        using True by (subst deserialize_options_loop.simps) (simp add: ld get des set options_result_def)
    next
      case False
      with at have at: "opt_at buf ptr n opt'" and n: "0 < n" by (auto simp: opt_at_def)
      let ?m = "msg\<lparr>msg_options := (msg_options msg)[index := opt'], msg_optcount := msg_optcount msg + 1\<rparr>"
      have "returns (deserialize_options_loop ?m buf base (ptr + nat n) (left - n) (index + 1) d') (options_result buf base)"
        using True n less.prems opts_inside_Suc [OF less.prems(6) at, of ?m] by (intro less.hyps) (auto simp: add.commute)
      then show ?thesis
        using True False by (subst deserialize_options_loop.simps) (simp add: ld get des set)
    qed
  qed
qed

text \<open>
  Whatever the bytes are, decoding stays inside the buffer if that is one byte longer than the
  message and at least twelve bytes; after success every option lies inside the message.
\<close>

lemma returns_message:
  assumes "12 \<le> length buf" "buflen < int (length buf)"
    and "length (msg_token msg) = COAP_MSG_MAX_TOKEN_LEN" "length (msg_options msg) = COAP_MSG_MAX_OPTION_NUM"
  shows "returns (CoAPDeserialize_Message msg (Some buf) buflen) (\<lambda>(rc, m). rc = COAP_SUCCESS \<longrightarrow>
     (\<exists>k \<le> COAP_MSG_MAX_OPTION_NUM. msg_optcount m = of_nat k \<and> opts_inside buf k (nat buflen) m))"
proof (cases "buflen < 4")
  case True
  then show ?thesis by (simp add: CoAPDeserialize_Message_def coap_error_defs)
next
  case False
  have "buf \<noteq> []" using assms(1) by auto
  then obtain h where hd: "CoAPDeserialize_Header msg buf 0 = Some (4, msg\<lparr>msg_header := h\<rparr>)"
    using assms(1) by (simp add: CoAPDeserialize_Header_def load_def)
  define m1 where "m1 = msg\<lparr>msg_header := h\<rparr>"
  define n where "n = unat (hd_tokenlen h)"
  have "\<exists>t. CoAPDeserialize_Token m1 buf 4 = Some (int n, m1\<lparr>msg_token := t\<rparr>)"
    using assms(1,3)
    by (cases "8 < n") (auto simp: CoAPDeserialize_Token_def load_bytes_def store_bytes_def n_def m1_def COAP_MSG_MAX_TOKEN_LEN_def)
  then obtain t where tk: "CoAPDeserialize_Token m1 buf 4 = Some (int n, m1\<lparr>msg_token := t\<rparr>)" by blast
  show ?thesis
  proof (cases "int n > buflen - 4")
    case True
    with False show ?thesis
      by (simp add: CoAPDeserialize_Message_def hd tk m1_def [symmetric] coap_error_defs)
  next
    case fits: False
    let ?p = "4 + n" let ?left = "buflen - 4 - int n"
    have "returns (deserialize_options_loop (m1\<lparr>msg_token := t, msg_optcount := 0\<rparr>) buf ?p ?p ?left 0 0) (options_result buf ?p)"
      using assms(2,4) by (intro returns_options_loop) (simp_all add: m1_def opts_inside_def)
    then obtain k m2 where op: "CoAPDeserialize_Options (m1\<lparr>msg_token := t\<rparr>) buf ?p ?left = Some (k, m2)"
      and m2: "options_result buf ?p (k, m2)"
      by (auto simp: CoAPDeserialize_Options_def returns_def)
    show ?thesis
    proof (cases "k > ?left \<or> k < 0")
      case True
      with False fits show ?thesis
        by (simp add: CoAPDeserialize_Message_def hd tk op [simplified] m1_def [symmetric] coap_error_defs)
    next
      case inside: False
      then obtain c where c: "c \<le> COAP_MSG_MAX_OPTION_NUM" "msg_optcount m2 = of_nat c" "opts_inside buf c (?p + nat k) m2"
        using m2 by (auto simp: options_result_def)
      have e: "?p + nat k \<le> nat buflen" using inside fits by linarith
      have ld: "load buf (?p + nat k) = Some (buf ! (?p + nat k))" using e assms(2) by (simp add: load_def)
      obtain r m3 where pl: "CoAPDeserialize_Payload m2 buf (?p + nat k) (?left - k) = Some (r, m3)"
        and m3: "msg_optcount m3 = msg_optcount m2" "msg_options m3 = msg_options m2"
        by (cases "buf ! (?p + nat k) = 0xFF") (simp_all add: CoAPDeserialize_Payload_def ld)
      have "opts_inside buf c (nat buflen) m3"
        using opts_inside_mono [OF c(3) e] m3(2) by (simp add: opts_inside_def)
      then show ?thesis
        using False fits inside c m3
        by (auto simp: CoAPDeserialize_Message_def hd tk op [simplified] pl [simplified] m1_def [symmetric])
    qed
  qed
qed

text \<open>Where decoding returns at all, the options lie inside the message, whatever the length of the buffer.\<close>

lemma option_inside: "post (CoAPDeserialize_Option opt buf base left pre) (\<lambda>(n, opt', _). n = -1 \<or> opt_at buf base n opt')"
proof -
  have at: "opt_at buf base (int (q - base) + uint l) (opt1\<lparr>opt_len := l, opt_val := Some (drop q buf)\<rparr>)" if "base < q" for q l opt1
    using opt_atI [of base q "opt1\<lparr>opt_len := l, opt_val := Some (drop q buf)\<rparr>" buf] that by simp
  show ?thesis
    unfolding CoAPDeserialize_Option_def Let_def prod.case
    by (intro post_bind_eq post_if post_case_prod; simp only: post_Some prod.case; (rule disjI1, rule refl | rule disjI2, rule at, simp))
qed

lemma options_loop_inside:
  assumes "base \<le> ptr" "index \<le> COAP_MSG_MAX_OPTION_NUM"
    and "length (msg_options msg) = COAP_MSG_MAX_OPTION_NUM" "msg_optcount msg = of_nat index"
    and "opts_inside buf index ptr msg"
  shows "post (deserialize_options_loop msg buf base ptr left index optdeltas) (options_result buf base)"
  using assms
proof (induction "COAP_MSG_MAX_OPTION_NUM - index" arbitrary: msg ptr left index optdeltas rule: less_induct)
  case less
  have "base + nat (int ptr - int base) = ptr" using less.prems(1) by simp
  then have stop: "options_result buf base (int ptr - int base, msg)"
    using less.prems by (auto simp: options_result_def intro!: exI [of _ index])
  have step: "post (set_option msg index opt' \<bind> (\<lambda>msg. if n < 0 then Some (n, msg)
      else deserialize_options_loop (msg\<lparr>msg_optcount := msg_optcount msg + 1\<rparr>) buf base (ptr + nat n) (left - n) (index + 1) d')) (options_result buf base)"
    if "index < COAP_MSG_MAX_OPTION_NUM" "n = -1 \<or> opt_at buf ptr n opt'" for n opt' d'
  proof -
    have set: "set_option msg index opt' = Some (msg\<lparr>msg_options := (msg_options msg)[index := opt']\<rparr>)"
      using that(1) less.prems(3) by (simp add: set_option_def)
    let ?m = "msg\<lparr>msg_options := (msg_options msg)[index := opt'], msg_optcount := msg_optcount msg + 1\<rparr>"
    have "post (deserialize_options_loop ?m buf base (ptr + nat n) (left - n) (index + 1) d') (options_result buf base)" if "0 \<le> n" "opt_at buf ptr n opt'"
      using that less.prems \<open>index < COAP_MSG_MAX_OPTION_NUM\<close> opts_inside_Suc [OF less.prems(5) that(2), of ?m]
      by (intro less.hyps) (auto simp: add.commute)
    then show ?thesis using that(2) by (auto simp: set options_result_def)
  qed
  have opt: "post (CoAPDeserialize_Option o' buf ptr left optdeltas \<bind> (\<lambda>(n, opt', d'). set_option msg index opt' \<bind> (\<lambda>msg. if n < 0 then Some (n, msg)
      else deserialize_options_loop (msg\<lparr>msg_optcount := msg_optcount msg + 1\<rparr>) buf base (ptr + nat n) (left - n) (index + 1) d'))) (options_result buf base)"
    if "index < COAP_MSG_MAX_OPTION_NUM" for o'
    by (rule post_bind, rule post_conseq [OF option_inside]) (use that step in auto)
  show ?case
    by (subst deserialize_options_loop.simps)
       (auto intro!: post_if post_bind_eq [where m = "load b p" for b p] post_bind_eq [where m = "get_option a b" for a b] opt [simplified] stop)
qed

lemma message_inside:
  assumes "length (msg_options msg) = COAP_MSG_MAX_OPTION_NUM"
  shows "post (CoAPDeserialize_Message msg (Some buf) buflen) (\<lambda>(rc, m). rc = COAP_SUCCESS \<longrightarrow>
     (\<exists>k \<le> COAP_MSG_MAX_OPTION_NUM. msg_optcount m = of_nat k \<and> opts_inside buf k (nat buflen) m))"
proof -
  let ?Q = "\<lambda>(rc, m). rc = COAP_SUCCESS \<longrightarrow> (\<exists>k \<le> COAP_MSG_MAX_OPTION_NUM. msg_optcount m = of_nat k \<and> opts_inside buf k (nat buflen) m)"
  have pay: "post (CoAPDeserialize_Payload m2 buf q r \<bind> (\<lambda>(x, msg). Some (COAP_SUCCESS, msg))) ?Q"
    if m2: "options_result buf p (n, m2)" "0 \<le> n" "p + nat n \<le> nat buflen" for m2 q r p n
  proof -
    obtain k where k: "k \<le> COAP_MSG_MAX_OPTION_NUM" "msg_optcount m2 = of_nat k" "opts_inside buf k (nat buflen) m2"
      using m2(1,2) opts_inside_mono [OF _ m2(3)] by (auto simp: options_result_def)
    have "CoAPDeserialize_Payload m2 buf q r = Some (x, m3) \<Longrightarrow> msg_optcount m3 = msg_optcount m2 \<and> msg_options m3 = msg_options m2" for x m3
      by (auto simp: CoAPDeserialize_Payload_def bind_eq_Some_conv split: if_splits)
    then show ?thesis using k by (auto intro!: post_bind_eq exI [of _ k] simp: opts_inside_def)
  qed
  have opts: "post (CoAPDeserialize_Options m1 buf p r \<bind> (\<lambda>(n, msg). if n > r \<or> n < 0 then Some (COAP_ERROR_INVALID_LENGTH, msg)
      else CoAPDeserialize_Payload msg buf (p + nat n) (r - n) \<bind> (\<lambda>(x, msg). Some (COAP_SUCCESS, msg)))) ?Q"
    if "length (msg_options m1) = COAP_MSG_MAX_OPTION_NUM" "int p + r = buflen" for m1 p r
  proof -
    have "post (CoAPDeserialize_Options m1 buf p r) (options_result buf p)"
      unfolding CoAPDeserialize_Options_def using that(1) by (intro options_loop_inside) (simp_all add: opts_inside_def)
    then show ?thesis
      by (rule post_bind [OF post_conseq]) (use that(2) pay [of p] in \<open>auto simp: coap_error_defs\<close>)
  qed
  have hd: "CoAPDeserialize_Header msg buf 0 = Some (n, m1) \<Longrightarrow> n = 4 \<and> msg_options m1 = msg_options msg" for n m1
    by (auto simp: CoAPDeserialize_Header_def bind_eq_Some_conv)
  have tk: "CoAPDeserialize_Token m1 buf 4 = Some (n, m2) \<Longrightarrow> 0 \<le> n \<and> msg_options m2 = msg_options m1" for n m1 m2
    by (auto simp: CoAPDeserialize_Token_def Let_def bind_eq_Some_conv)
  have err: "COAP_ERROR_INVALID_LENGTH \<noteq> COAP_SUCCESS" by (simp add: coap_error_defs)
  have token: "post (CoAPDeserialize_Token m1 buf (0 + nat 4) \<bind> (\<lambda>(n, msg). if n > buflen - 4 then Some (COAP_ERROR_INVALID_LENGTH, msg)
      else CoAPDeserialize_Options msg buf (0 + nat 4 + nat n) (buflen - 4 - n) \<bind> (\<lambda>(k, msg).
        if k > buflen - 4 - n \<or> k < 0 then Some (COAP_ERROR_INVALID_LENGTH, msg)
        else CoAPDeserialize_Payload msg buf (0 + nat 4 + nat n + nat k) (buflen - 4 - n - k) \<bind> (\<lambda>(x, msg). Some (COAP_SUCCESS, msg))))) ?Q"
    if "msg_options m1 = msg_options msg" for m1
  proof (rule post_bind_eq)
    fix x assume x: "CoAPDeserialize_Token m1 buf (0 + nat 4) = Some x"
    obtain n m2 where nm: "x = (n, m2)" by (cases x)
    have "0 \<le> n" "length (msg_options m2) = COAP_MSG_MAX_OPTION_NUM" using tk [of m1 n m2] x nm that assms by simp_all
    then show "post (case x of (n, msg) \<Rightarrow> if n > buflen - 4 then Some (COAP_ERROR_INVALID_LENGTH, msg)
      else CoAPDeserialize_Options msg buf (0 + nat 4 + nat n) (buflen - 4 - n) \<bind> (\<lambda>(k, msg).
        if k > buflen - 4 - n \<or> k < 0 then Some (COAP_ERROR_INVALID_LENGTH, msg)
        else CoAPDeserialize_Payload msg buf (0 + nat 4 + nat n + nat k) (buflen - 4 - n - k) \<bind> (\<lambda>(x, msg). Some (COAP_SUCCESS, msg)))) ?Q"
      unfolding nm prod.case by (intro post_if opts) (simp_all add: err)
  qed
  show ?thesis
    unfolding CoAPDeserialize_Message_def Let_def prod.case option.case
  proof (rule post_if, simp add: err, rule post_bind_eq)
    fix x assume x: "CoAPDeserialize_Header msg buf 0 = Some x"
    obtain n m1 where nm: "x = (n, m1)" by (cases x)
    have "n = 4" "msg_options m1 = msg_options msg" using hd x nm by simp_all
    then show "post (case x of (count, msg) \<Rightarrow> if buflen < count then Some (COAP_ERROR_INVALID_LENGTH, msg)
      else CoAPDeserialize_Token msg buf (0 + nat count) \<bind> (\<lambda>(n, msg). if buflen - count < n then Some (COAP_ERROR_INVALID_LENGTH, msg)
      else CoAPDeserialize_Options msg buf (0 + nat count + nat n) (buflen - count - n) \<bind> (\<lambda>(k, msg).
        if buflen - count - n < k \<or> k < 0 then Some (COAP_ERROR_INVALID_LENGTH, msg)
        else CoAPDeserialize_Payload msg buf (0 + nat count + nat n + nat k) (buflen - count - n - k) \<bind> (\<lambda>(x, msg). Some (COAP_SUCCESS, msg))))) ?Q"
      unfolding nm prod.case using token [of m1] err by (intro post_if) (simp_all only: post_Some prod.case simp_thms)
  qed
qed

end
