(* ===== verification/CoAP_Message.thy ===== *)
theory CoAP_Message
  imports CoAP_Decode
begin

text \<open>
  Messages that were built with the functions of \<open>CoAPMessage_common.c\<close>: their options are the
  ones that were added, they can be sent, and they arrive as they were built.
\<close>

subsection \<open>Messages under construction\<close>

text \<open>
  \<open>msg_built m opts\<close>: the calls so far made the message \<open>m\<close> and added the options \<open>opts\<close>. The
  field \<open>optdelta\<close> has eight bits, so an option can only follow one with a number below 256.
\<close>

definition last_num :: "(u16 \<times> byte list) list \<Rightarrow> u16" where
  "last_num opts = (if opts = [] then 0 else fst (last opts))"

inductive msg_built :: "CoAPMessage \<Rightarrow> (u16 \<times> byte list) list \<Rightarrow> bool" where
  built_init: "CoAPMessage_init m0 = (rc, m) \<Longrightarrow> msg_built m []"
| built_str: "msg_built m opts \<Longrightarrow> CoAPStrOption_add m n data (of_nat (length data)) h = Some (COAP_SUCCESS, m', h') \<Longrightarrow>
     length data < 65536 \<Longrightarrow> last_num opts < 256 \<Longrightarrow> msg_built m' (opts @ [(n, data)])"
| built_uint: "msg_built m opts \<Longrightarrow> CoAPUintOption_add m n x h = Some (COAP_SUCCESS, m', h') \<Longrightarrow>
     fst (HAL_Malloc (length (uint_option_bytes x)) h) \<noteq> None \<Longrightarrow> last_num opts < 256 \<Longrightarrow> msg_built m' (opts @ [(n, uint_option_bytes x)])"
| built_token: "msg_built m opts \<Longrightarrow> CoAPMessageToken_set m tok k = Some (COAP_SUCCESS, m') \<Longrightarrow> msg_built m' opts"
| built_payload: "msg_built m opts \<Longrightarrow> CoAPMessagePayload_set m (Some v) (of_nat (length v)) = (COAP_SUCCESS, m') \<Longrightarrow>
     length v < 65536 \<Longrightarrow> msg_built m' opts"
| built_id: "msg_built m opts \<Longrightarrow> CoAPMessageId_set m i = (rc, m') \<Longrightarrow> msg_built m' opts"
| built_type: "msg_built m opts \<Longrightarrow> CoAPMessageType_set m t = (rc, m') \<Longrightarrow> msg_built m' opts"
| built_code: "msg_built m opts \<Longrightarrow> CoAPMessageCode_set m c = (rc, m') \<Longrightarrow> msg_built m' opts"
| built_user: "msg_built m opts \<Longrightarrow> CoAPMessageUserData_set m d = (rc, m') \<Longrightarrow> msg_built m' opts"
| built_resp: "msg_built m opts \<Longrightarrow> Cloud_CoAPMessageHandler_set m f = (rc, m') \<Longrightarrow> msg_built m' opts"

lemma abs_opts_Nil_iff [simp]: "abs_opts pre opts = [] \<longleftrightarrow> opts = []"
  by (simp flip: length_0_conv)

lemma abs_opts_snoc: "abs_opts pre (opts @ [(d, v)]) =
    abs_opts pre opts @ [((if opts = [] then pre else fst (last (abs_opts pre opts))) + d, v)]"
  by (induction pre opts rule: abs_opts.induct) simp_all

definition built_inv :: "CoAPMessage \<Rightarrow> (u16 \<times> byte list) list \<Rightarrow> bool" where
  "built_inv m opts \<longleftrightarrow>
     length (msg_options m) = COAP_MSG_MAX_OPTION_NUM \<and> length opts \<le> COAP_MSG_MAX_OPTION_NUM \<and>
     msg_optcount m = of_nat (length opts) \<and> abs_opts 0 (msg_opts m) = opts \<and>
     msg_optdelta m = ucast (last_num opts) \<and>
     (\<forall>opt \<in> set (take (length opts) (msg_options m)). opt_ok opt) \<and>
     length (msg_token m) = COAP_MSG_MAX_TOKEN_LEN \<and> unat (hd_tokenlen (msg_header m)) \<le> COAP_MSG_MAX_TOKEN_LEN \<and>
     length (msg_data m) = unat (msg_payloadlen m)"

lemma optcount_less: "n \<le> COAP_MSG_MAX_OPTION_NUM \<Longrightarrow> unat (of_nat n :: u8) = n"
  by (simp add: COAP_MSG_MAX_OPTION_NUM_def unat_of_nat)

text \<open>Adding one option, by either function.\<close>

lemma built_inv_add:
  assumes "built_inv m opts" "length opts < COAP_MSG_MAX_OPTION_NUM" "last_num opts < 256"
    and "opt_num opt = n - ucast (msg_optdelta m)" "opt_ok opt" "opt_data opt = data"
  shows "built_inv (m\<lparr>msg_options := (msg_options m)[length opts := opt], msg_optdelta := ucast n, msg_optcount := msg_optcount m + 1\<rparr>)
     (opts @ [(n, data)])"
proof -
  let ?m = "m\<lparr>msg_options := (msg_options m)[length opts := opt], msg_optdelta := ucast n, msg_optcount := msg_optcount m + 1\<rparr>"
  have i: "length opts < length (msg_options m)" and c: "msg_optcount m = of_nat (length opts)" and abs: "abs_opts 0 (msg_opts m) = opts"
    using assms(1,2) by (simp_all add: built_inv_def)
  have tk: "take (length opts + 1) ((msg_options m)[length opts := opt]) = take (length opts) (msg_options m) @ [opt]"
    using i by (simp add: take_Suc_conv_app_nth)
  have u: "unat (msg_optcount m) = length opts" "unat (msg_optcount m + 1) = length opts + 1"
    using assms(2) optcount_less [of "length opts"] optcount_less [of "length opts + 1"] by (simp_all add: c add.commute)
  have mo: "msg_opts ?m = msg_opts m @ [(opt_num opt, data)]"
    using tk assms(6) by (simp add: msg_opts_def u)
  have len: "msg_opts m = [] \<longleftrightarrow> opts = []" using arg_cong [OF abs, of length] by (simp flip: length_0_conv)
  have "(ucast (msg_optdelta m) :: u16) = last_num opts"
    using assms(1,3) by (simp add: built_inv_def word_unat_eq_iff unat_ucast_8_16 unsigned_ucast_eq unsigned_take_bit_eq take_bit_nat_eq_self word_less_nat_alt)
  then have "abs_opts 0 (msg_opts ?m) = opts @ [(n, data)]"
    using len assms(4) by (simp add: mo abs_opts_snoc abs last_num_def)
  then show ?thesis
    using assms tk by (simp add: built_inv_def c last_num_def msg_data_def)
qed

lemma uint_option_bytes_length: "length (uint_option_bytes x) \<le> 4"
  by (simp add: uint_option_bytes_def)

lemma built_invariant: "msg_built m opts \<Longrightarrow> built_inv m opts"
proof (induction rule: msg_built.induct)
  case (built_init m0 rc m)
  then show ?case
    by (auto simp: CoAPMessage_init_def built_inv_def msg_opts_def last_num_def msg_data_def)
next
  case (built_str m opts n data h m' h')
  define opt where "opt = (msg_options m ! length opts)\<lparr>opt_num := n - ucast (msg_optdelta m), opt_len := of_nat (length data), opt_val := Some data\<rparr>"
  have c: "unat (msg_optcount m) = length opts" "length (msg_options m) = COAP_MSG_MAX_OPTION_NUM"
    using built_str.IH optcount_less by (simp_all add: built_inv_def)
  have "m' = m\<lparr>msg_options := (msg_options m)[length opts := opt], msg_optdelta := ucast n, msg_optcount := msg_optcount m + 1\<rparr> \<and>
      length opts < COAP_MSG_MAX_OPTION_NUM"
    using built_str.hyps(2,3) c
    by (auto simp: CoAPStrOption_add_def get_option_def set_option_def load_bytes_def opt_def unat_of_nat coap_error_defs Let_def
        split: if_splits prod.splits option.splits)
  moreover have "opt_ok opt" "opt_data opt = data"
    using built_str.hyps(3) by (simp_all add: opt_def opt_ok_def opt_data_def unat_of_nat)
  ultimately show ?case
    using built_inv_add [OF built_str.IH, where n = n and opt = opt and data = data] built_str.hyps(4) by (simp add: opt_def)
next
  case (built_uint m opts n x h m' h')
  define bs where "bs = uint_option_bytes x"
  define opt where "opt = \<lparr>opt_num = n - ucast (msg_optdelta m), opt_len = of_nat (length bs), opt_val = (if bs = [] then None else Some bs)\<rparr>"
  have c: "unat (msg_optcount m) = length opts" "length (msg_options m) = COAP_MSG_MAX_OPTION_NUM"
    using built_uint.IH optcount_less by (simp_all add: built_inv_def)
  have "m' = m\<lparr>msg_options := (msg_options m)[length opts := opt], msg_optdelta := ucast n, msg_optcount := msg_optcount m + 1\<rparr> \<and>
      length opts < COAP_MSG_MAX_OPTION_NUM"
    using built_uint.hyps(2,3) c
    by (auto simp: CoAPUintOption_add_def set_option_def opt_def bs_def coap_error_defs Let_def
        split: if_splits prod.splits option.splits)
  moreover have "opt_ok opt" "opt_data opt = bs"
    using uint_option_bytes_length [of x] by (simp_all add: opt_def bs_def opt_ok_def opt_data_def unat_of_nat)
  ultimately show ?case
    using built_inv_add [OF built_uint.IH, where n = n and opt = opt and data = bs] built_uint.hyps(4) by (simp add: opt_def bs_def)
next
  case (built_token m opts tok k m')
  obtain t where m': "unat k \<le> COAP_MSG_MAX_TOKEN_LEN" "unat k \<le> length t"
    "m' = m\<lparr>msg_token := blit (msg_token m) 0 (take (unat k) t), msg_header := (msg_header m)\<lparr>hd_tokenlen := ucast k\<rparr>\<rparr>"
    using built_token.hyps(2)
    by (auto simp: CoAPMessageToken_set_def load_bytes_def store_bytes_def coap_error_defs bind_eq_Some_conv split: option.splits if_splits)
  then have "unat (ucast k :: 4 word) = unat k"
    by (simp add: unsigned_ucast_eq unsigned_take_bit_eq take_bit_nat_eq_self COAP_MSG_MAX_TOKEN_LEN_def)
  then show ?case
    using built_token.IH m' by (auto simp: built_inv_def msg_opts_def msg_data_def)
next
  case (built_payload m opts v m')
  then show ?case
    by (auto simp: CoAPMessagePayload_set_def built_inv_def msg_opts_def msg_data_def unat_of_nat coap_error_defs split: if_splits)
next
  case (built_id m opts i rc m')
  then show ?case
    by (auto simp: CoAPMessageId_set_def built_inv_def msg_opts_def msg_data_def)
next
  case (built_type m opts t rc m')
  then show ?case
    by (auto simp: CoAPMessageType_set_def built_inv_def msg_opts_def msg_data_def split: if_splits)
next
  case (built_code m opts c rc m')
  then show ?case
    by (auto simp: CoAPMessageCode_set_def built_inv_def msg_opts_def msg_data_def)
next
  case (built_user m opts d rc m')
  then show ?case
    by (auto simp: CoAPMessageUserData_set_def built_inv_def msg_opts_def msg_data_def split: if_splits)
next
  case (built_resp m opts f rc m')
  then show ?case
    by (auto simp: Cloud_CoAPMessageHandler_set_def built_inv_def msg_opts_def msg_data_def)
qed


lemma built_msg_ok:
  assumes "msg_built m opts" "length (msg_wire m) < 65536"
  shows "msg_ok m"
  using built_invariant [OF assms(1)] assms(2) optcount_less by (auto simp: built_inv_def msg_ok_def msg_tok_def)

lemma built_option_sizes:
  assumes "built_inv m opts" "(d, v) \<in> set (msg_opts m)"
  shows "length v < 65536"
proof -
  obtain opt where "v = opt_data opt" using assms(2) by (auto simp: msg_opts_def)
  then show ?thesis using length_opt_data_le [of opt] unat_u16_lt [of "opt_len opt"] by simp
qed

lemma last_abs_opts: "opts \<noteq> [] \<Longrightarrow> snd (last (abs_opts pre opts)) = snd (last opts)"
  by (induction pre opts rule: abs_opts.induct) simp_all

lemma built_transfer:
  assumes built: "msg_built m opts" and size: "length (msg_wire m) < 65536"
    and ends: "msg_data m = [] \<longrightarrow> (opts = [] \<or> snd (last opts) \<noteq> []) \<and> zs \<noteq> [] \<and> hd zs \<noteq> 0xFF"
    and room: "length (msg_wire m) \<le> length buf"
  shows "\<exists>n buf' m'. CoAPSerialize_MessageLength m = Some n \<and>
     CoAPSerialize_Message m (Some buf) n = Some (uint n, Some buf') \<and>
     CoAPDeserialize_Message zero_message (Some (take (unat n) buf' @ zs)) (uint n) = Some (COAP_SUCCESS, m') \<and>
     msg_header m' = msg_header m \<and> msg_tok m' = msg_tok m \<and> msg_opts m' = opts \<and> msg_data m' = msg_data m"
proof -
  note ok = built_msg_ok [OF built size] and inv = built_invariant [OF built]
  let ?w = "msg_wire m" let ?n = "of_nat (length ?w) :: u16"
  have n: "unat ?n = length ?w" "uint ?n = int (length ?w)" using size by (simp_all add: unat_of_nat unsigned_of_nat take_bit_nat_eq_self)
  have len: "CoAPSerialize_MessageLength m = Some ?n" by (rule message_length [OF ok])
  have ser: "CoAPSerialize_Message m (Some buf) ?n = Some (uint ?n, Some (blit buf 0 ?w))"
    using serialize_message [OF ok, of ?n buf] room n by simp
  have opts: "abs_opts 0 (msg_opts m) = opts" "length (msg_opts m) \<le> COAP_MSG_MAX_OPTION_NUM"
    using inv arg_cong [of "abs_opts 0 (msg_opts m)" opts length] by (auto simp: built_inv_def)
  have "\<exists>m'. CoAPDeserialize_Message zero_message (Some (?w @ zs)) (int (length ?w)) = Some (COAP_SUCCESS, m') \<and>
     msg_header m' = msg_header m \<and> msg_tok m' = msg_tok m \<and> msg_opts m' = abs_opts 0 (msg_opts m) \<and>
     (msg_data m \<noteq> [] \<longrightarrow> msg_data m' = msg_data m) \<and> (msg_data m = [] \<longrightarrow> msg_data m' = msg_data zero_message)"
    unfolding msg_wire_def
  proof (rule deserialize_message)
    show "length (msg_tok m) = unat (hd_tokenlen (msg_header m))" using ok by (simp add: msg_ok_def)
    then show "length (msg_tok m) \<le> COAP_MSG_MAX_TOKEN_LEN" using inv by (simp add: built_inv_def)
    show "\<forall>(d, v) \<in> set (msg_opts m). length v < 65536" using built_option_sizes [OF inv] by auto
    show "length (msg_data m) < 65536" using ok unat_u16_lt [of "msg_payloadlen m"] by (simp add: msg_ok_def)
    show "msg_data m = [] \<longrightarrow> (msg_opts m = [] \<or> snd (last (msg_opts m)) \<noteq> []) \<and> zs \<noteq> [] \<and> hd zs \<noteq> 0xFF"
      using ends opts(1) last_abs_opts [of "msg_opts m" 0] by auto
  qed (use opts in \<open>simp_all add: zero_message_def\<close>)
  moreover have "take (unat ?n) (blit buf 0 ?w) = ?w" using n room by (simp add: blit_def)
  moreover have "msg_data zero_message = []" by (simp add: zero_message_def msg_data_def)
  ultimately show ?thesis using len ser opts(1) n(2) by (intro exI [of _ ?n] exI [of _ "blit buf 0 ?w"]) auto
qed


subsection \<open>Properties\<close>

text \<open>A request with a path and a content format, for the witnesses.\<close>

definition sample_request :: CoAPMessage where
  "sample_request =
     (let m = snd (CoAPMessage_init zero_message);
          m = snd (CoAPMessageCode_set m (COAP_MSG_CODE_DEF 2));
          m = snd (CoAPMessagePayload_set m (Some [0x7B, 0x7D]) 2);
          m = fst (snd (the (CoAPStrOption_add m 11 [0x61, 0x62] 2 (hal_at (\<lambda>_. 0)))))
      in fst (snd (the (CoAPUintOption_add m 12 50 (hal_at (\<lambda>_. 0))))))"

lemmas sample_request_defs = sample_request_def CoAPMessage_init_def CoAPMessageCode_set_def CoAPMessagePayload_set_def
  CoAPStrOption_add_def CoAPUintOption_add_def get_option_def set_option_def load_bytes_def HAL_Malloc_def hal_at_def
  next_tick_def uint_option_bytes_def coap_error_defs COAP_MSG_MAX_OPTION_NUM_def COAP_MSG_MAX_TOKEN_LEN_def

lemma sample_request_built: "msg_built sample_request [(11, [0x61, 0x62]), (12, [50])]"
proof -
  define m0 where "m0 = snd (CoAPMessage_init zero_message)"
  define m1 where "m1 = snd (CoAPMessageCode_set m0 (COAP_MSG_CODE_DEF 2))"
  define m2 where "m2 = snd (CoAPMessagePayload_set m1 (Some [0x7B, 0x7D]) 2)"
  define m3 where "m3 = fst (snd (the (CoAPStrOption_add m2 11 [0x61, 0x62] 2 (hal_at (\<lambda>_. 0)))))"
  have b0: "msg_built m0 []" by (rule built_init [of zero_message "fst (CoAPMessage_init zero_message)"]) (simp add: m0_def)
  have b1: "msg_built m1 []" by (rule built_code [OF b0, of "COAP_MSG_CODE_DEF 2" "fst (CoAPMessageCode_set m0 (COAP_MSG_CODE_DEF 2))"]) (simp add: m1_def)
  have b2: "msg_built m2 []" by (rule built_payload [OF b1, of "[0x7B, 0x7D]"]) (simp_all add: m2_def CoAPMessagePayload_set_def)
  have b3: "msg_built m3 ([] @ [(11, [0x61, 0x62])])"
  proof (rule built_str [OF b2])
    show "CoAPStrOption_add m2 11 [0x61, 0x62] (of_nat (length [0x61, 0x62 :: byte])) (hal_at (\<lambda>_. 0)) =
        Some (COAP_SUCCESS, m3, snd (snd (the (CoAPStrOption_add m2 11 [0x61, 0x62] 2 (hal_at (\<lambda>_. 0))))))"
      by (simp add: m3_def m2_def m1_def m0_def sample_request_defs)
  qed (simp_all add: last_num_def)
  have "msg_built sample_request ([(11, [0x61, 0x62])] @ [(12, uint_option_bytes 50)])"
  proof (rule built_uint)
    show "msg_built m3 [(11, [0x61, 0x62])]" using b3 by simp
    show "CoAPUintOption_add m3 12 50 (hal_at (\<lambda>_. 0)) = Some (COAP_SUCCESS, sample_request, snd (snd (the (CoAPUintOption_add m3 12 50 (hal_at (\<lambda>_. 0))))))"
      by (simp add: m3_def m2_def m1_def m0_def sample_request_defs)
  qed (simp_all add: HAL_Malloc_def hal_at_def last_num_def)
  then show ?thesis by (simp add: uint_option_bytes_def)
qed

text \<open>
  C27: A CoAP message arrives as it was built. For a message made by the \<open>CoAPMessage_*\<close> and
  \<open>CoAP*Option_add\<close> functions, \<open>CoAPSerialize_Message\<close> fills a buffer of the length that
  \<open>CoAPSerialize_MessageLength\<close> computes, and \<open>CoAPDeserialize_Message\<close> recovers from these bytes the
  header, the token, exactly the options that were added, with their numbers and in their order,
  and the payload. A message without payload needs a last option with a value and a byte other than
  the payload marker behind it in the receive buffer.
\<close>

theorem coap_roundtrip:
  assumes "msg_built m opts" "length (msg_wire m) < 65536" "length (msg_wire m) \<le> length buf"
    and "msg_data m = [] \<longrightarrow> (opts = [] \<or> snd (last opts) \<noteq> []) \<and> zs \<noteq> [] \<and> hd zs \<noteq> 0xFF"
  shows "\<exists>n buf' m'. CoAPSerialize_MessageLength m = Some n \<and>
     CoAPSerialize_Message m (Some buf) n = Some (uint n, Some buf') \<and>
     CoAPDeserialize_Message zero_message (Some (take (unat n) buf' @ zs)) (uint n) = Some (COAP_SUCCESS, m') \<and>
     msg_header m' = msg_header m \<and> msg_tok m' = msg_tok m \<and> msg_opts m' = opts \<and> msg_data m' = msg_data m"
  by (rule built_transfer [OF assms(1,2,4,3)])

theorem coap_roundtrip_witness:
  "\<exists>n buf' m'. CoAPSerialize_MessageLength sample_request = Some n \<and>
     CoAPSerialize_Message sample_request (Some (replicate 100 0)) n = Some (uint n, Some buf') \<and>
     CoAPDeserialize_Message zero_message (Some (take (unat n) buf' @ [0])) (uint n) = Some (COAP_SUCCESS, m') \<and>
     msg_header m' = msg_header sample_request \<and> msg_tok m' = msg_tok sample_request \<and>
     msg_opts m' = [(11, [0x61, 0x62]), (12, [50])] \<and> msg_data m' = msg_data sample_request"
proof (rule coap_roundtrip [OF sample_request_built])
  have "length (msg_wire sample_request) < 100" by code_simp
  then show "length (msg_wire sample_request) < 65536" "length (msg_wire sample_request) \<le> length (replicate 100 (0 :: byte))" by simp_all
qed simp



text \<open>
  The datagrams that leave the buffer: one of 1280 bytes in the client's buffer of 1280 bytes, all
  header and one option without payload. Looking for the payload marker reads the byte behind the buffer.
\<close>

lemma coap_decode_overread:
  assumes "length v = 1273"
  shows "CoAPDeserialize_Message zero_message (Some ([0x40, 1, 0, 7, 0x1E, 0x03, 0xEC] @ v)) 1280 = None"
proof -
  let ?b = "[0x40, 1, 0, 7, 0x1E, 0x03, 0xEC] @ v"
  have l: "length ?b = 1280" using assms by simp
  have hd: "\<exists>m1. CoAPDeserialize_Header zero_message ?b 0 = Some (4, m1) \<and> hd_tokenlen (msg_header m1) = 0 \<and>
      length (msg_token m1) = COAP_MSG_MAX_TOKEN_LEN \<and> length (msg_options m1) = COAP_MSG_MAX_OPTION_NUM"
    by (simp add: CoAPDeserialize_Header_def load_def zero_message_def)
  then obtain m1 where m1: "CoAPDeserialize_Header zero_message ?b 0 = Some (4, m1)" "hd_tokenlen (msg_header m1) = 0"
    "length (msg_options m1) = COAP_MSG_MAX_OPTION_NUM" by blast
  have tk: "CoAPDeserialize_Token m1 ?b 4 = Some (0, m1)"
    using m1(2) l by (simp add: CoAPDeserialize_Token_def load_bytes_def store_bytes_def blit_def)
  have op: "\<exists>m2. CoAPDeserialize_Options m1 ?b 4 1276 = Some (1276, m2)"
    using m1(3) by (simp add: CoAPDeserialize_Options_def deserialize_options_loop.simps load_def get_option_def set_option_def
        CoAPDeserialize_Option_def opt_past_def opt_value_def Let_def COAP_MSG_MAX_OPTION_NUM_def)
  then obtain m2 where m2: "CoAPDeserialize_Options m1 ?b 4 1276 = Some (1276, m2)" by blast
  have pl: "CoAPDeserialize_Payload m2 ?b 1280 0 = None" using l by (simp add: CoAPDeserialize_Payload_def load_def)
  show ?thesis
    unfolding CoAPDeserialize_Message_def Let_def prod.case option.case
    using m1(1) tk m2 pl by (simp del: append_Cons)
qed

text \<open>
  What the decoder gets wrong: it refuses a message that ends with an option without value, and
  when the byte behind a message without payload happens to be the payload marker, it reports a
  payload of 65535 bytes.
\<close>

lemma coap_decode_gaps:
  "map_option fst (CoAPDeserialize_Message zero_message (Some ([0x40, 1, 0, 7, 0x50] @ replicate 20 0)) 5) = Some COAP_ERROR_INVALID_LENGTH \<and>
   map_option (\<lambda>(rc, m). (rc, msg_payloadlen m)) (CoAPDeserialize_Message zero_message (Some ([0x40, 1, 0, 7, 0xFF] @ replicate 20 0)) 4) =
     Some (COAP_SUCCESS, 65535)"
  by code_simp

end
