(* ===== verification/CoAP_Client.thy ===== *)
theory CoAP_Client
  imports CoAP_Message Infra_String
begin

text \<open>
  The CoAP client of \<open>src/src/coap/client\<close>: the context and its list of sent messages
  (\<open>Cloud_CoAPExport.h\<close>, \<open>CoAPExport.c\<close>), sending, receiving and retransmission
  (\<open>CoAPMessage.c\<close>) over a datagram network (\<open>CoAPNetwork.c\<close>), built without \<open>COAP_DTLS_SUPPORT\<close>.

  The socket is the record \<open>udp\<close>: what each read returns and whether each write is accepted, at
  every point of the run, and the datagrams that were written. A response callback is an entry in
  the list \<open>ctx_calls\<close> of the context.
\<close>

subsection \<open>The context\<close>

definition COAP_ERROR_WRITE_FAILED :: int where "COAP_ERROR_WRITE_FAILED = 266"
definition COAP_ERROR_INVALID_URI :: int where "COAP_ERROR_INVALID_URI = 262"
definition COAP_ERROR_NET_INIT_FAILED :: int where "COAP_ERROR_NET_INIT_FAILED = 264"

definition COAP_MAX_MESSAGE_ID :: u16 where "COAP_MAX_MESSAGE_ID = 65535"
definition COAP_MAX_RETRY_COUNT :: u8 where "COAP_MAX_RETRY_COUNT = 4"
definition COAP_ACK_TIMEOUT :: u16 where "COAP_ACK_TIMEOUT = 2"
definition COAP_ACK_RANDOM_FACTOR :: u16 where "COAP_ACK_RANDOM_FACTOR = 1"
definition COAP_MAX_TRANSMISSION_SPAN :: u16 where "COAP_MAX_TRANSMISSION_SPAN = 10"

lemmas coap_client_defs = COAP_MAX_RETRY_COUNT_def COAP_ACK_TIMEOUT_def COAP_ACK_RANDOM_FACTOR_def COAP_MAX_TRANSMISSION_SPAN_def

record udp =
  udp_tick :: nat
  udp_recv :: "nat \<Rightarrow> nat \<Rightarrow> u32 \<Rightarrow> int \<times> byte list"
  udp_accept :: "nat \<Rightarrow> byte list \<Rightarrow> int"
  udp_sent :: "byte list list"

record Cloud_CoAPSendNode =
  sn_user :: "nat option"
  sn_msgid :: u16
  sn_acked :: u8
  sn_tokenlen :: u8
  sn_token :: "byte list"
  sn_retrans_count :: u8
  sn_timeout :: u16
  sn_timeout_val :: u16
  sn_message :: "byte list option"
  sn_msglen :: u32
  sn_resp :: "nat option"

record Cloud_CoAPContext =
  ctx_message_id :: u16
  ctx_sendbuf :: "byte list"
  ctx_recvbuf :: "byte list"
  ctx_count :: u8
  ctx_maxcount :: u8
  ctx_sendlist :: "Cloud_CoAPSendNode list"
  ctx_waittime :: u32
  ctx_udp :: udp
  ctx_hal :: hal
  ctx_calls :: "(nat \<times> nat option \<times> CoAPMessage) list"

subsection \<open>The network\<close>

definition Cloud_CoAPNetwork_write :: "udp \<Rightarrow> byte list \<Rightarrow> u32 \<Rightarrow> (int \<times> udp) option" where
  "Cloud_CoAPNetwork_write u data datalen = do {
     bs \<leftarrow> load_bytes data 0 (unat datalen);
     let rc = udp_accept u (udp_tick u) bs;
     Some (if rc = -1 then COAP_ERROR_WRITE_FAILED else COAP_SUCCESS,
           u\<lparr>udp_tick := udp_tick u + 1, udp_sent := (if rc = -1 then udp_sent u else udp_sent u @ [bs])\<rparr>)
   }"

text \<open>The result: the length read and the receive buffer, cleared before the read.\<close>

definition Cloud_CoAPNetwork_read :: "udp \<Rightarrow> byte list \<Rightarrow> nat \<Rightarrow> u32 \<Rightarrow> (int \<times> byte list \<times> udp) option" where
  "Cloud_CoAPNetwork_read u buf datalen timeout = do {
     let (len, data) = udp_recv u (udp_tick u) COAP_MSG_MAX_PDU_LEN timeout;
     buf \<leftarrow> store_bytes buf 0 (replicate datalen 0);
     buf \<leftarrow> store_bytes buf 0 data;
     Some (len, buf, u\<lparr>udp_tick := udp_tick u + 1\<rparr>)
   }"

subsection \<open>Sending\<close>

definition Cloud_CoAPMessageId_gen :: "Cloud_CoAPContext \<Rightarrow> u16 \<times> Cloud_CoAPContext" where
  "Cloud_CoAPMessageId_gen context =
     (if COAP_MAX_MESSAGE_ID = ctx_message_id context then (1, context)
      else (ctx_message_id context, context\<lparr>ctx_message_id := ctx_message_id context + 1\<rparr>))"

definition sizeof_CoAPSendNode :: nat where "sizeof_CoAPSendNode = 72"

text \<open>
  The test for a full list compares the addresses of \<open>count\<close> and \<open>maxcount\<close>; \<open>count\<close> is declared
  first, so its address is smaller and the test fails. Of \<open>node->token\<close> only the bytes copied are
  kept; more than eight would overrun it.
\<close>

definition Cloud_CoAPMessageList_add :: "Cloud_CoAPContext \<Rightarrow> CoAPMessage \<Rightarrow> nat \<Rightarrow> (int \<times> Cloud_CoAPContext) option" where
  "Cloud_CoAPMessageList_add context message len =
     (case HAL_Malloc sizeof_CoAPSendNode (ctx_hal context) of
        (None, h) \<Rightarrow> Some (-1, context\<lparr>ctx_hal := h\<rparr>)
      | (Some _, h) \<Rightarrow>
          if unat (hd_tokenlen (msg_header message)) > 8 then None
          else do {
            token \<leftarrow> load_bytes (msg_token message) 0 (unat (hd_tokenlen (msg_header message)));
            let timeout_val = COAP_ACK_TIMEOUT * COAP_ACK_RANDOM_FACTOR;
            let con = (ucast (hd_type (msg_header message)) = COAP_MESSAGE_TYPE_CON);
            let (p, h) = HAL_Malloc len h;
            bs \<leftarrow> (if p = None then Some [] else load_bytes (ctx_sendbuf context) 0 len);
            let node = \<lparr>sn_user = msg_user message, sn_msgid = hd_msgid (msg_header message), sn_acked = 0,
                        sn_tokenlen = ucast (hd_tokenlen (msg_header message)), sn_token = token,
                        sn_retrans_count = (if con then 0 else COAP_MAX_RETRY_COUNT),
                        sn_timeout = (if con then timeout_val else COAP_MAX_TRANSMISSION_SPAN),
                        sn_timeout_val = timeout_val, sn_message = (if p = None then None else Some bs),
                        sn_msglen = of_nat len, sn_resp = msg_resp message\<rparr>;
            Some (0, context\<lparr>ctx_sendlist := ctx_sendlist context @ [node], ctx_count := ctx_count context + 1, ctx_hal := h\<rparr>)
          })"

definition Cloud_CoAPReqMsg :: "CoAPMsgHeader \<Rightarrow> bool" where
  "Cloud_CoAPReqMsg header \<longleftrightarrow> 1 \<le> hd_code header \<and> 32 > hd_code header"

definition Cloud_CoAPCONRespMsg :: "CoAPMsgHeader \<Rightarrow> bool" where
  "Cloud_CoAPCONRespMsg header \<longleftrightarrow> hd_code header = COAP_MSG_CODE_DEF 205 \<and> ucast (hd_type header) = COAP_MESSAGE_TYPE_CON"

definition Cloud_CoAPMessage_send :: "Cloud_CoAPContext \<Rightarrow> CoAPMessage \<Rightarrow> (int \<times> Cloud_CoAPContext) option" where
  "Cloud_CoAPMessage_send context message = do {
     msglen \<leftarrow> CoAPSerialize_MessageLength message;
     if COAP_MSG_MAX_PDU_LEN < unat msglen then Some (COAP_ERROR_DATA_SIZE, context)
     else do {
       sendbuf \<leftarrow> store_bytes (ctx_sendbuf context) 0 (replicate COAP_MSG_MAX_PDU_LEN 0);
       (n, sendbuf) \<leftarrow> CoAPSerialize_Message message (Some sendbuf) (of_nat COAP_MSG_MAX_PDU_LEN);
       sendbuf \<leftarrow> sendbuf;
       let msglen = (word_of_int n :: u16);
       (ret, u) \<leftarrow> Cloud_CoAPNetwork_write (ctx_udp context) sendbuf (ucast msglen);
       let context = context\<lparr>ctx_sendbuf := sendbuf, ctx_udp := u\<rparr>;
       if ret = COAP_SUCCESS \<and> (Cloud_CoAPReqMsg (msg_header message) \<or> Cloud_CoAPCONRespMsg (msg_header message)) then do {
         (_, context) \<leftarrow> Cloud_CoAPMessageList_add context message (unat msglen);
         Some (ret, context)
       }
       else Some (ret, context)
     }
   }"

subsection \<open>Receiving\<close>

fun ack_node :: "u16 \<Rightarrow> Cloud_CoAPSendNode list \<Rightarrow> Cloud_CoAPSendNode list" where
  "ack_node msgid [] = []"
| "ack_node msgid (node # rest) =
     (if sn_msgid node = msgid then node\<lparr>sn_acked := 1\<rparr> # rest else node # ack_node msgid rest)"

definition Cloud_CoAPAckMessage_handle :: "Cloud_CoAPContext \<Rightarrow> CoAPMessage \<Rightarrow> int \<times> Cloud_CoAPContext" where
  "Cloud_CoAPAckMessage_handle context message =
     (COAP_SUCCESS, context\<lparr>ctx_sendlist := ack_node (hd_msgid (msg_header message)) (ctx_sendlist context)\<rparr>)"

definition Cloud_CoAPAckMessage_send :: "Cloud_CoAPContext \<Rightarrow> u16 \<Rightarrow> (int \<times> Cloud_CoAPContext) option" where
  "Cloud_CoAPAckMessage_send context msgid =
     Cloud_CoAPMessage_send context (snd (CoAPMessageId_set (snd (CoAPMessage_init zero_message)) msgid))"

text \<open>The test of the loop: same nonzero token length and same token.\<close>

definition token_matches :: "CoAPMessage \<Rightarrow> Cloud_CoAPSendNode \<Rightarrow> bool option" where
  "token_matches message node =
     (if sn_tokenlen node \<noteq> 0 \<and> sn_tokenlen node = ucast (hd_tokenlen (msg_header message)) then do {
        a \<leftarrow> load_bytes (sn_token node) 0 (unat (sn_tokenlen node));
        b \<leftarrow> load_bytes (msg_token message) 0 (unat (sn_tokenlen node));
        Some (a = b)
      } else Some False)"

text \<open>The loop: the node that matches and the list without it.\<close>

fun take_by_token :: "CoAPMessage \<Rightarrow> Cloud_CoAPSendNode list \<Rightarrow> (Cloud_CoAPSendNode option \<times> Cloud_CoAPSendNode list) option" where
  "take_by_token message [] = Some (None, [])"
| "take_by_token message (node # rest) = do {
     hit \<leftarrow> token_matches message node;
     if hit then Some (Some node, rest)
     else do { (found, rest) \<leftarrow> take_by_token message rest; Some (found, node # rest) }
   }"

definition Cloud_CoAPRespMessage_handle :: "Cloud_CoAPContext \<Rightarrow> CoAPMessage \<Rightarrow> (int \<times> Cloud_CoAPContext) option" where
  "Cloud_CoAPRespMessage_handle context message = do {
     (_, context) \<leftarrow> (if ucast (hd_type (msg_header message)) = COAP_MESSAGE_TYPE_CON
                      then Cloud_CoAPAckMessage_send context (hd_msgid (msg_header message)) else Some (0, context));
     (found, rest) \<leftarrow> take_by_token message (ctx_sendlist context);
     (case found of
        None \<Rightarrow> Some (COAP_ERROR_NOT_FOUND, context)
      | Some node \<Rightarrow>
          let calls = (case sn_resp node of None \<Rightarrow> [] | Some resp \<Rightarrow> [(resp, sn_user node, message\<lparr>msg_user := sn_user node\<rparr>)])
          in Some (COAP_SUCCESS, context\<lparr>ctx_calls := ctx_calls context @ calls, ctx_sendlist := rest, ctx_count := ctx_count context - 1\<rparr>))
   }"

definition COAPAckMsg :: "CoAPMsgHeader \<Rightarrow> bool" where
  "COAPAckMsg header \<longleftrightarrow> hd_code header = COAP_MSG_CODE_DEF 0 \<and> ucast (hd_type header) = COAP_MESSAGE_TYPE_ACK"

definition Cloud_CoAPRespMsg :: "CoAPMsgHeader \<Rightarrow> bool" where
  "Cloud_CoAPRespMsg header \<longleftrightarrow> hd_code header \<ge> 0x40 \<and> hd_code header < 0xc0"

definition Cloud_CoAPMessage_handle :: "Cloud_CoAPContext \<Rightarrow> byte list \<Rightarrow> u16 \<Rightarrow> Cloud_CoAPContext option" where
  "Cloud_CoAPMessage_handle context buf datalen = do {
     (ret, message) \<leftarrow> CoAPDeserialize_Message zero_message (Some buf) (uint datalen);
     if COAPAckMsg (msg_header message) then Some (snd (Cloud_CoAPAckMessage_handle context message))
     else if Cloud_CoAPRespMsg (msg_header message) then map_option snd (Cloud_CoAPRespMessage_handle context message)
     else Some context
   }"

text \<open>With \<open>readcount = 0\<close> the loop reads until nothing more is received.\<close>

partial_function (option) recv_loop :: "Cloud_CoAPContext \<Rightarrow> u32 \<Rightarrow> int \<Rightarrow> int \<Rightarrow> (int \<times> Cloud_CoAPContext) option" where
  "recv_loop context timeout readcount count = do {
     (len, buf, u) \<leftarrow> Cloud_CoAPNetwork_read (ctx_udp context) (ctx_recvbuf context) COAP_MSG_MAX_PDU_LEN timeout;
     let context = context\<lparr>ctx_recvbuf := buf, ctx_udp := u\<rparr>;
     if len > 0 then do {
       context \<leftarrow> Cloud_CoAPMessage_handle context buf (word_of_int len);
       if readcount = 0 then recv_loop context timeout readcount count
       else if count - 1 = 0 then Some (len, context) else recv_loop context timeout readcount (count - 1)
     }
     else Some (0, context)
   }"

declare recv_loop.simps [code]

definition Cloud_CoAPMessage_recv :: "Cloud_CoAPContext \<Rightarrow> u32 \<Rightarrow> int \<Rightarrow> (int \<times> Cloud_CoAPContext) option" where
  "Cloud_CoAPMessage_recv context timeout readcount = recv_loop context timeout readcount readcount"

subsection \<open>Retransmission\<close>

text \<open>One node of the list: what becomes of it and of the network; removed nodes become \<^term>\<open>None\<close>.\<close>

definition retransmit :: "Cloud_CoAPSendNode \<Rightarrow> udp \<Rightarrow> (Cloud_CoAPSendNode option \<times> udp) option" where
  "retransmit node u =
     (if sn_timeout node = 0 then do {
        (node, u) \<leftarrow>
          (if sn_retrans_count node < COAP_MAX_RETRY_COUNT \<and> sn_acked node = 0 then do {
             let node = node\<lparr>sn_timeout := sn_timeout_val node * 2, sn_timeout_val := sn_timeout_val node * 2,
                             sn_retrans_count := sn_retrans_count node + 1\<rparr>;
             bs \<leftarrow> sn_message node;
             (_, u) \<leftarrow> Cloud_CoAPNetwork_write u bs (sn_msglen node);
             Some (node, u)
           } else Some (node, u));
        if sn_timeout node > COAP_MAX_TRANSMISSION_SPAN \<or> sn_retrans_count node \<ge> COAP_MAX_RETRY_COUNT
        then Some (None, u) else Some (Some node, u)
      }
      else Some (Some (node\<lparr>sn_timeout := sn_timeout node - 1\<rparr>), u))"

fun cycle_loop :: "Cloud_CoAPSendNode list \<Rightarrow> u8 \<Rightarrow> udp \<Rightarrow> (Cloud_CoAPSendNode list \<times> u8 \<times> udp) option" where
  "cycle_loop [] count u = Some ([], count, u)"
| "cycle_loop (node # rest) count u = do {
     (kept, u) \<leftarrow> retransmit node u;
     (rest, count, u) \<leftarrow> cycle_loop rest (if kept = None then count - 1 else count) u;
     Some ((case kept of None \<Rightarrow> rest | Some node \<Rightarrow> node # rest), count, u)
   }"

definition Cloud_CoAPMessage_cycle :: "Cloud_CoAPContext \<Rightarrow> (int \<times> Cloud_CoAPContext) option" where
  "Cloud_CoAPMessage_cycle context = do {
     (_, context) \<leftarrow> Cloud_CoAPMessage_recv context (ctx_waittime context) 0;
     (nodes, count, u) \<leftarrow> cycle_loop (ctx_sendlist context) (ctx_count context) (ctx_udp context);
     Some (COAP_SUCCESS, context\<lparr>ctx_sendlist := nodes, ctx_count := count, ctx_udp := u\<rparr>)
   }"

subsection \<open>Creating a context\<close>

datatype coap_endpoint_type = COAP_ENDPOINT_NOSEC | COAP_ENDPOINT_DTLS | COAP_ENDPOINT_PSK

definition COAP_DEFAULT_PORT :: u16 where "COAP_DEFAULT_PORT = 5683"
definition COAPS_DEFAULT_PORT :: u16 where "COAPS_DEFAULT_PORT = 5684"
definition COAP_DEFAULT_HOST_LEN :: nat where "COAP_DEFAULT_HOST_LEN = 128"
definition COAP_DEFAULT_WAIT_TIME_MS :: u32 where "COAP_DEFAULT_WAIT_TIME_MS = 2000"

definition str_coap :: cstr where "str_coap = [0x63, 0x6F, 0x61, 0x70]"
definition str_psk :: cstr where "str_psk = [0x70, 0x73, 0x6B]"
definition str_sep :: cstr where "str_sep = [0x3A, 0x2F, 0x2F]"

definition tolower :: "byte \<Rightarrow> byte" where
  "tolower c = (if 0x41 \<le> c \<and> c \<le> 0x5A then c + 0x20 else c)"

text \<open>
  The loop \<open>while (len && *q && tolower(*p) == *q)\<close>, where \<open>len\<close> is the length of the string at
  \<open>p\<close>: what is left at \<open>q\<close> and at \<open>p\<close>.
\<close>

fun match_ci :: "cstr \<Rightarrow> cstr \<Rightarrow> cstr \<times> cstr" where
  "match_ci (c # q) (x # p) = (if tolower x = c then match_ci q p else (c # q, x # p))"
| "match_ci q p = (q, p)"

definition c_isdigit :: "byte \<Rightarrow> bool" where "c_isdigit c \<longleftrightarrow> 0x30 \<le> c \<and> c \<le> 0x39"

text \<open>The part of the scheme behind \<open>coap\<close>: endpoint type, default port and the rest.\<close>

definition uri_scheme :: "cstr \<Rightarrow> (coap_endpoint_type \<times> u16 \<times> cstr) option" where
  "uri_scheme p =
     (case p of
        [] \<Rightarrow> Some (COAP_ENDPOINT_NOSEC, COAP_DEFAULT_PORT, p)
      | c # p' \<Rightarrow>
          if tolower c = 0x73 then Some (COAP_ENDPOINT_DTLS, COAPS_DEFAULT_PORT, p')
          else if c = 0x2D
          then (case match_ci str_psk p' of (q, p) \<Rightarrow> if q \<noteq> [] then None else Some (COAP_ENDPOINT_PSK, COAP_DEFAULT_PORT, p))
          else Some (COAP_ENDPOINT_NOSEC, COAP_DEFAULT_PORT, p))"

text \<open>
  The results of a successful call are the endpoint type, the host and the port. A port number
  that does not fit into an \<open>int\<close> is undefined.
\<close>

definition Cloud_CoAPUri_parse :: "cstr option \<Rightarrow> (int \<times> (coap_endpoint_type \<times> cstr \<times> u16) option) option" where
  "Cloud_CoAPUri_parse p_uri =
     (case p_uri of
        None \<Rightarrow> Some (COAP_ERROR_INVALID_PARAM, None)
      | Some uri \<Rightarrow>
          (case match_ci str_coap uri of (q, p) \<Rightarrow>
           if q \<noteq> [] then Some (COAP_ERROR_INVALID_URI, None)
           else (case uri_scheme p of
             None \<Rightarrow> Some (COAP_ERROR_INVALID_URI, None)
           | Some (ep, port, p) \<Rightarrow>
               (case match_ci str_sep p of (q, p) \<Rightarrow>
                if q \<noteq> [] then Some (COAP_ERROR_INVALID_URI, None)
                else let host = takeWhile (\<lambda>c. c \<noteq> 0x3A) p; rest = dropWhile (\<lambda>c. c \<noteq> 0x3A) p in
                  if host = [] \<or> COAP_DEFAULT_HOST_LEN - 1 < length host then Some (COAP_ERROR_INVALID_URI, None)
                  else let digits = takeWhile c_isdigit (drop 1 rest) in
                    if rest = [] \<or> digits = [] then Some (COAP_SUCCESS, Some (ep, host, port))
                    else do {
                      uri_port \<leftarrow> str2int_digits digits 0;
                      if uri_port > 65535 then Some (COAP_ERROR_INVALID_URI, None)
                      else Some (COAP_SUCCESS, Some (ep, host, word_of_int uri_port))
                    }))))"

text \<open>
  \<open>sock\<close> is the socket that \<open>HAL_UDP_create\<close> gives for a host and a port, \<open>fd0\<close> the one with
  descriptor 0, which a DTLS address leaves in the context, and \<open>rand\<close> the value of \<open>HAL_Random\<close>.
\<close>

definition sizeof_CoAPContext :: nat where "sizeof_CoAPContext = 72"

definition Cloud_CoAPContext_create ::
  "cstr option \<Rightarrow> u8 \<Rightarrow> u32 \<Rightarrow> u32 \<Rightarrow> (cstr \<Rightarrow> u16 \<Rightarrow> udp option) \<Rightarrow> udp \<Rightarrow> hal \<Rightarrow> Cloud_CoAPContext option option" where
  "Cloud_CoAPContext_create url maxcount waittime rand sock fd0 h =
     (case HAL_Malloc sizeof_CoAPContext h of
        (None, h) \<Rightarrow> Some None
      | (Some _, h) \<Rightarrow>
     (case HAL_Malloc COAP_MSG_MAX_PDU_LEN h of
        (None, h) \<Rightarrow> Some None
      | (Some sendbuf, h) \<Rightarrow>
     (case HAL_Malloc COAP_MSG_MAX_PDU_LEN h of
        (None, h) \<Rightarrow> Some None
      | (Some recvbuf, h) \<Rightarrow> do {
          (ret, out) \<leftarrow> (if url = None then Some (COAP_SUCCESS, Some (COAP_ENDPOINT_NOSEC, [], 0)) else Cloud_CoAPUri_parse url);
          (case out of
             None \<Rightarrow> Some None
           | Some (ep, host, port) \<Rightarrow>
               (case (if ep = COAP_ENDPOINT_DTLS then Some fd0 else sock host port) of
                 None \<Rightarrow> Some None
               | Some u \<Rightarrow> Some (Some
                   \<lparr>ctx_message_id = ucast (rand mod 0xFFFF), ctx_sendbuf = sendbuf, ctx_recvbuf = recvbuf, ctx_count = 0,
                    ctx_maxcount = maxcount, ctx_sendlist = [],
                    ctx_waittime = (if waittime = 0 then COAP_DEFAULT_WAIT_TIME_MS else waittime),
                    ctx_udp = u, ctx_hal = h, ctx_calls = []\<rparr>)))
        })))"

end
