(* ===== verification/CoAP_Session.thy ===== *)
theory CoAP_Session
  imports CoAP_Client
begin

text \<open>
  What the CoAP client does: the life of a message in the list of sent messages, what is sent,
  the invariant of the context and its reachable states.
\<close>

subsection \<open>The life of a sent message\<close>

text \<open>
  A confirmable message waits 2, 4 and 8 cycles between transmissions, another one waits 10
  cycles for a response. \<open>node_ok\<close> describes all nodes on the way, \<open>node_life\<close> the number of
  cycles an unacknowledged node has left, \<open>node_sends\<close> how often it will still be sent.
\<close>

definition node_ok :: "Cloud_CoAPSendNode \<Rightarrow> bool" where
  "node_ok node \<longleftrightarrow>
     (sn_retrans_count node = 0 \<and> sn_timeout_val node = 2 \<and> sn_timeout node \<le> 2 \<or>
      sn_retrans_count node = 1 \<and> sn_timeout_val node = 4 \<and> sn_timeout node \<le> 4 \<or>
      sn_retrans_count node = 2 \<and> sn_timeout_val node = 8 \<and> sn_timeout node \<le> 8 \<or>
      sn_retrans_count node = 4 \<and> sn_timeout_val node = 2 \<and> sn_timeout node \<le> 10) \<and>
     (case sn_message node of None \<Rightarrow> True | Some bs \<Rightarrow> length bs = unat (sn_msglen node)) \<and>
     length (sn_token node) = unat (sn_tokenlen node)"

definition node_life :: "Cloud_CoAPSendNode \<Rightarrow> nat" where
  "node_life node = unat (sn_timeout node) + 1 +
     (if sn_retrans_count node = 0 then 14 else if sn_retrans_count node = 1 then 9 else 0)"

definition node_sends :: "Cloud_CoAPSendNode \<Rightarrow> nat" where
  "node_sends node = (if sn_retrans_count node = 4 then 0 else 3 - unat (sn_retrans_count node))"

text \<open>A network that takes every datagram.\<close>

definition udp_open :: "udp \<Rightarrow> bool" where
  "udp_open u \<longleftrightarrow> (\<forall>k bs. udp_accept u k bs \<noteq> -1)"

lemma timeout_dec: "sn_timeout node \<noteq> 0 \<Longrightarrow> unat (sn_timeout node) = Suc (unat (sn_timeout node - 1))"
  using unat_minus_one [of "sn_timeout node"] by (simp add: unat_gt_0 Suc_pred)

lemma udp_write:
  assumes "udp_open u" "length bs = unat n"
  shows "\<exists>u'. Cloud_CoAPNetwork_write u bs n = Some (COAP_SUCCESS, u') \<and> udp_open u' \<and> udp_sent u' = udp_sent u @ [bs]"
  using assms by (auto simp: Cloud_CoAPNetwork_write_def load_bytes_def udp_open_def Let_def)

lemma retransmit_step:
  assumes "node_ok node" "sn_acked node = 0" "sn_message node = Some bs" "udp_open u"
  shows "\<exists>kept u'. retransmit node u = Some (kept, u') \<and> udp_open u' \<and>
     udp_sent u' = udp_sent u @ (if sn_timeout node = 0 \<and> node_sends node > 0 then [bs] else []) \<and>
     (case kept of
        None \<Rightarrow> node_life node = 1 \<and> (node_sends node = 0 \<or> node_sends node = 1 \<and> sn_timeout node = 0)
      | Some node' \<Rightarrow> node_ok node' \<and> sn_acked node' = 0 \<and> sn_message node' = Some bs \<and> node_life node = node_life node' + 1 \<and>
          node_sends node = node_sends node' + (if sn_timeout node = 0 \<and> node_sends node > 0 then 1 else 0))"
proof (cases "sn_timeout node = 0")
  case False
  then show ?thesis
    using assms timeout_dec [OF False]
    by (auto simp: retransmit_def node_ok_def node_life_def node_sends_def word_le_nat_alt unat_eq_0)
next
  case True
  have len: "length bs = unat (sn_msglen node)" using assms(1,3) by (simp add: node_ok_def)
  obtain u' where u': "Cloud_CoAPNetwork_write u bs (sn_msglen node) = Some (COAP_SUCCESS, u')" "udp_open u'" "udp_sent u' = udp_sent u @ [bs]"
    using udp_write [OF assms(4) len] by blast
  consider "sn_retrans_count node = 0" "sn_timeout_val node = 2" | "sn_retrans_count node = 1" "sn_timeout_val node = 4"
    | "sn_retrans_count node = 2" "sn_timeout_val node = 8" | "sn_retrans_count node = 4"
    using assms(1) by (auto simp: node_ok_def)
  then show ?thesis
    by cases (use True assms u' len in \<open>auto simp: retransmit_def node_ok_def node_life_def node_sends_def coap_client_defs word_le_nat_alt\<close>)
qed

fun retransmit_n :: "nat \<Rightarrow> Cloud_CoAPSendNode \<Rightarrow> udp \<Rightarrow> (Cloud_CoAPSendNode option \<times> udp) option" where
  "retransmit_n 0 node u = Some (Some node, u)"
| "retransmit_n (Suc n) node u = do {
     (kept, u) \<leftarrow> retransmit node u;
     (case kept of None \<Rightarrow> Some (None, u) | Some node \<Rightarrow> retransmit_n n node u)
   }"

lemma retransmit_life:
  assumes "node_ok node" "sn_acked node = 0" "sn_message node = Some bs" "udp_open u" "node_life node \<le> n"
  shows "\<exists>u'. retransmit_n n node u = Some (None, u') \<and> udp_sent u' = udp_sent u @ replicate (node_sends node) bs"
  using assms
proof (induction n arbitrary: node u)
  case 0
  then show ?case by (simp add: node_life_def)
next
  case (Suc n)
  obtain kept u' where r: "retransmit node u = Some (kept, u')" "udp_open u'"
    and sent: "udp_sent u' = udp_sent u @ (if sn_timeout node = 0 \<and> node_sends node > 0 then [bs] else [])"
    and k: "case kept of
        None \<Rightarrow> node_life node = 1 \<and> (node_sends node = 0 \<or> node_sends node = 1 \<and> sn_timeout node = 0)
      | Some node' \<Rightarrow> node_ok node' \<and> sn_acked node' = 0 \<and> sn_message node' = Some bs \<and> node_life node = node_life node' + 1 \<and>
          node_sends node = node_sends node' + (if sn_timeout node = 0 \<and> node_sends node > 0 then 1 else 0)"
    using retransmit_step [OF Suc.prems(1-4)] by blast
  show ?case
  proof (cases kept)
    case None
    with r sent k show ?thesis by auto
  next
    case (Some node')
    with k Suc.prems(5) obtain u'' where "retransmit_n n node' u' = Some (None, u'')" "udp_sent u'' = udp_sent u' @ replicate (node_sends node') bs"
      using Suc.IH [of node' u'] r(2) by auto
    with r sent k Some show ?thesis by (auto split: if_splits)
  qed
qed

lemma retransmit_alive:
  assumes "node_ok node" "sn_acked node = 0" "sn_message node = Some bs" "udp_open u" "n < node_life node"
  shows "\<exists>node' u'. retransmit_n n node u = Some (Some node', u')"
  using assms
proof (induction n arbitrary: node u)
  case (Suc n)
  obtain kept u' where r: "retransmit node u = Some (kept, u')" "udp_open u'"
    and k: "case kept of
        None \<Rightarrow> node_life node = 1 \<and> (node_sends node = 0 \<or> node_sends node = 1 \<and> sn_timeout node = 0)
      | Some node' \<Rightarrow> node_ok node' \<and> sn_acked node' = 0 \<and> sn_message node' = Some bs \<and> node_life node = node_life node' + 1 \<and>
          node_sends node = node_sends node' + (if sn_timeout node = 0 \<and> node_sends node > 0 then 1 else 0)"
    using retransmit_step [OF Suc.prems(1-4)] by blast
  then obtain node' where "kept = Some node'" using Suc.prems(5) by (cases kept) auto
  with r k Suc.prems(5) Suc.IH [of node' u'] show ?case by auto
qed simp


subsection \<open>Buffers keep their length\<close>

lemma put_length: "put b s = Some t \<Longrightarrow> length (fst t) = length (fst s)"
  by (cases s) (auto simp: put_def store_def bind_eq_Some_conv split: if_splits)

lemma store_bytes_length: "store_bytes buf p bs = Some buf' \<Longrightarrow> length buf' = length buf"
  by (auto simp: store_bytes_def split: if_splits)

lemma put_bytes_length: "put_bytes bs s = Some t \<Longrightarrow> length (fst t) = length (fst s)"
  by (cases s) (auto simp: put_bytes_def bind_eq_Some_conv dest: store_bytes_length)

lemma opt_extend_length: "opt_extend n s = Some t \<Longrightarrow> length (fst t) = length (fst s)"
  by (auto simp: opt_extend_def bind_eq_Some_conv split: if_splits dest!: put_length)

lemma serialize_option_length: "CoAPSerialize_Option opt s = Some (n, buf') \<Longrightarrow> length buf' = length (fst s)"
  by (auto simp: CoAPSerialize_Option_def bind_eq_Some_conv dest!: put_length opt_extend_length put_bytes_length)

lemma serialize_options_length: "serialize_options_loop msg i n s c = Some (k, buf') \<Longrightarrow> length buf' = length (fst s)"
  by (induction msg i n s c arbitrary: k buf' rule: serialize_options_loop.induct)
     (fastforce simp: bind_eq_Some_conv split: if_splits dest: serialize_option_length)+

lemma serialize_message_length:
  assumes "CoAPSerialize_Message m (Some buf) n = Some (k, out)"
  shows "\<exists>buf'. out = Some buf' \<and> length buf' = length buf"
proof -
  have hd: "CoAPSerialize_Header m (b, p) l = Some (k, b') \<Longrightarrow> length b' = length b" for b p l k b'
    by (auto simp: CoAPSerialize_Header_def Let_def bind_eq_Some_conv split: if_splits dest!: put_length)
  have tk: "CoAPSerialize_Token m (b, p) l = Some (k, b') \<Longrightarrow> length b' = length b" for b p l k b'
    by (auto simp: CoAPSerialize_Token_def Let_def bind_eq_Some_conv split: if_splits dest!: store_bytes_length)
  have op: "CoAPSerialize_Options m (b, p) l = Some (k, b') \<Longrightarrow> length b' = length b" for b p l k b'
    by (auto simp: CoAPSerialize_Options_def dest: serialize_options_length)
  have pl: "CoAPSerialize_Payload m (b, p) l = Some (k, b') \<Longrightarrow> length b' = length b" for b p l k b'
    by (auto simp: CoAPSerialize_Payload_def bind_eq_Some_conv split: if_splits dest!: put_length put_bytes_length)
  show ?thesis
    using assms by (auto simp: CoAPSerialize_Message_def bind_eq_Some_conv Let_def dest!: hd tk op pl)
qed

subsection \<open>The invariant of the context\<close>

definition ctx_inv :: "Cloud_CoAPContext \<Rightarrow> bool" where
  "ctx_inv c \<longleftrightarrow> length (ctx_sendbuf c) = COAP_MSG_MAX_PDU_LEN \<and> length (ctx_recvbuf c) = COAP_MSG_MAX_PDU_LEN \<and>
     ctx_count c = of_nat (length (ctx_sendlist c)) \<and> (\<forall>node \<in> set (ctx_sendlist c). node_ok node)"

lemma fresh_node_ok:
  assumes "len < 65536" "\<And>bs. msg = Some bs \<Longrightarrow> length bs = len" "length d = unat c"
  shows "node_ok \<lparr>sn_user = a, sn_msgid = b, sn_acked = 0, sn_tokenlen = c, sn_token = d, sn_retrans_count = 0,
                  sn_timeout = COAP_ACK_TIMEOUT * COAP_ACK_RANDOM_FACTOR,
                  sn_timeout_val = COAP_ACK_TIMEOUT * COAP_ACK_RANDOM_FACTOR, sn_message = msg, sn_msglen = of_nat len, sn_resp = e\<rparr>"
    and "node_ok \<lparr>sn_user = a, sn_msgid = b, sn_acked = 0, sn_tokenlen = c, sn_token = d, sn_retrans_count = COAP_MAX_RETRY_COUNT,
                  sn_timeout = COAP_MAX_TRANSMISSION_SPAN,
                  sn_timeout_val = COAP_ACK_TIMEOUT * COAP_ACK_RANDOM_FACTOR, sn_message = msg, sn_msglen = of_nat len, sn_resp = e\<rparr>"
  using assms by (cases msg; simp add: node_ok_def coap_client_defs unat_of_nat)+

lemma ctx_inv_snoc:
  "ctx_inv c \<Longrightarrow> node_ok node \<Longrightarrow>
     ctx_inv (c\<lparr>ctx_sendlist := ctx_sendlist c @ [node], ctx_count := ctx_count c + 1, ctx_hal := h\<rparr>)"
  by (simp add: ctx_inv_def)

lemma unat_tokenlen: "unat (ucast (k :: 4 word) :: u8) = unat k"
proof -
  have "unat k < 16" using unsigned_less [of k, where ?'a = nat] by simp
  then show ?thesis by (simp add: unsigned_ucast_eq unsigned_take_bit_eq take_bit_nat_eq_self)
qed

lemma list_add_inv:
  assumes "ctx_inv c" "len < 65536"
  shows "post (Cloud_CoAPMessageList_add c m len) (\<lambda>(rc, c'). ctx_inv c')"
proof -
  obtain p h where mal: "HAL_Malloc sizeof_CoAPSendNode (ctx_hal c) = (p, h)" by fastforce
  obtain q h' where mal': "HAL_Malloc len h = (q, h')" by fastforce
  have "ctx_inv (c\<lparr>ctx_hal := h\<rparr>)" using assms by (simp add: ctx_inv_def)
  then show ?thesis
    using assms(2) unfolding Cloud_CoAPMessageList_add_def mal mal' Let_def prod.case
    by (cases p; cases q)
       (auto intro!: post_bind_eq post_if ctx_inv_snoc assms fresh_node_ok dest!: load_bytes_length
         simp: mal' unat_tokenlen split: if_splits)
qed

lemma send_inv:
  assumes "ctx_inv c"
  shows "post (Cloud_CoAPMessage_send c m) (\<lambda>(rc, c'). ctx_inv c')"
proof -
  have cl: "ctx_inv (c\<lparr>ctx_sendbuf := b, ctx_udp := u\<rparr>)"
    if "store_bytes (ctx_sendbuf c) 0 z = Some y" "CoAPSerialize_Message m (Some y) n = Some (k, Some b)" for y z n k b u
    using that store_bytes_length [OF that(1)] serialize_message_length [OF that(2)] assms by (simp add: ctx_inv_def)
  show ?thesis
    unfolding Cloud_CoAPMessage_send_def Let_def
    by (intro post_bind_eq post_if post_case_prod)
       (use assms in \<open>auto intro: cl dest: postD [OF list_add_inv [OF cl unat_u16_lt]]\<close>)
qed

lemma node_ok_acked [simp]: "node_ok (node\<lparr>sn_acked := x\<rparr>) = node_ok node"
  by (simp add: node_ok_def split: option.split)

lemma ack_node_ok: "\<forall>node \<in> set ns. node_ok node \<Longrightarrow> node \<in> set (ack_node i ns) \<Longrightarrow> node_ok node"
  by (induction i ns rule: ack_node.induct) (auto split: if_splits)

lemma length_ack_node [simp]: "length (ack_node i ns) = length ns"
  by (induction i ns rule: ack_node.induct) auto

lemma take_by_token_found:
  "take_by_token m ns = Some (Some node, rest) \<Longrightarrow> \<exists>pre suf. ns = pre @ node # suf \<and> rest = pre @ suf"
proof (induction ns arbitrary: rest)
  case (Cons n ns)
  show ?case
  proof (cases "token_matches m n = Some True")
    case True
    with Cons.prems have "n # ns = [] @ node # rest" by simp
    then show ?thesis by (metis append_Nil)
  next
    case False
    with Cons.prems obtain rest' where r: "take_by_token m ns = Some (Some node, rest')" "rest = n # rest'"
      by (auto simp: bind_eq_Some_conv split: if_splits)
    from Cons.IH [OF r(1)] obtain pre suf where "n # ns = (n # pre) @ node # suf" "rest = (n # pre) @ suf" using r(2) by auto
    then show ?thesis by metis
  qed
qed simp

lemma resp_inv:
  assumes "ctx_inv c"
  shows "post (Cloud_CoAPRespMessage_handle c m) (\<lambda>(rc, c'). ctx_inv c')"
proof -
  have step: "ctx_inv (c1\<lparr>ctx_calls := x, ctx_sendlist := rest, ctx_count := ctx_count c1 - 1\<rparr>)"
    if c1: "ctx_inv c1" and t: "take_by_token m (ctx_sendlist c1) = Some (Some node, rest)" for c1 node rest x
    using take_by_token_found [OF t] c1 by (auto simp: ctx_inv_def)
  have fin: "post (case found of
        None \<Rightarrow> Some (COAP_ERROR_NOT_FOUND, c1)
      | Some node \<Rightarrow> Some (COAP_SUCCESS, c1\<lparr>ctx_calls := ctx_calls c1 @ f node, ctx_sendlist := rest, ctx_count := ctx_count c1 - 1\<rparr>))
      (\<lambda>(rc, c'). ctx_inv c')"
    if "ctx_inv c1" "take_by_token m (ctx_sendlist c1) = Some (found, rest)" for c1 found rest f
    using that step by (cases found) auto
  have ack: "post (if b then Cloud_CoAPAckMessage_send c i else Some (0, c)) (\<lambda>(rc, c'). ctx_inv c')" for b i
    using send_inv [OF assms] assms by (simp add: Cloud_CoAPAckMessage_send_def)
  show ?thesis
    unfolding Cloud_CoAPRespMessage_handle_def Let_def
    by (rule post_bind, rule post_conseq_prod [OF ack], simp, rule post_bind_eq)
       (auto intro: fin [where f = "\<lambda>node. case sn_resp node of None \<Rightarrow> [] | Some resp \<Rightarrow> [(resp, sn_user node, m\<lparr>msg_user := sn_user node\<rparr>)]"])
qed

lemma handle_inv:
  assumes "ctx_inv c"
  shows "post (Cloud_CoAPMessage_handle c buf n) ctx_inv"
proof -
  have "ctx_inv (snd (Cloud_CoAPAckMessage_handle c m))" for m
    using assms by (auto simp: Cloud_CoAPAckMessage_handle_def ctx_inv_def intro: ack_node_ok)
  moreover have "post (map_option snd (Cloud_CoAPRespMessage_handle c m)) ctx_inv" for m
    using resp_inv [OF assms, of m] by (auto simp: post_def)
  ultimately show ?thesis
    using assms unfolding Cloud_CoAPMessage_handle_def by (intro post_bind_eq) auto
qed

lemma network_read_inv:
  assumes "ctx_inv c" "Cloud_CoAPNetwork_read (ctx_udp c) (ctx_recvbuf c) n t = Some (len, buf, u)"
  shows "ctx_inv (c\<lparr>ctx_recvbuf := buf, ctx_udp := u\<rparr>)"
  using assms by (auto simp: Cloud_CoAPNetwork_read_def ctx_inv_def bind_eq_Some_conv Let_def split: prod.splits dest!: store_bytes_length)

lemma recv_inv: "recv_loop c t r n = Some res \<Longrightarrow> ctx_inv c \<longrightarrow> ctx_inv (snd res)"
proof (induction rule: recv_loop.raw_induct [rotated, consumes 1, case_names step])
  case (step loop c t r n res)
  show ?case
  proof
    assume inv: "ctx_inv c"
    from step(2) obtain len buf u where rd: "Cloud_CoAPNetwork_read (ctx_udp c) (ctx_recvbuf c) COAP_MSG_MAX_PDU_LEN t = Some (len, buf, u)"
      by (auto simp: bind_eq_Some_conv)
    note inv1 = network_read_inv [OF inv rd]
    show "ctx_inv (snd res)"
    proof (cases "len > 0")
      case False
      with step(2) rd inv1 show ?thesis by auto
    next
      case True
      with step(2) rd obtain c2 where h: "Cloud_CoAPMessage_handle (c\<lparr>ctx_recvbuf := buf, ctx_udp := u\<rparr>) buf (word_of_int len) = Some c2"
        by (auto simp: bind_eq_Some_conv)
      with postD [OF handle_inv [OF inv1]] have "ctx_inv c2" by blast
      with step True rd h show ?thesis by (auto split: if_splits)
    qed
  qed
qed

subsection \<open>The cycle\<close>

lemma retransmit_ok:
  assumes "node_ok node" "retransmit node u = Some (Some node', u')"
  shows "node_ok node'"
proof (cases "sn_timeout node = 0")
  case False
  have le: "sn_timeout node - 1 \<le> sn_timeout node"
    using timeout_dec [OF False] by (simp add: word_le_nat_alt)
  have "node' = node\<lparr>sn_timeout := sn_timeout node - 1\<rparr>"
    using False assms(2) by (simp add: retransmit_def)
  moreover have "node_ok (node\<lparr>sn_timeout := sn_timeout node - 1\<rparr>)"
    using assms(1) order_trans [OF le] by (cases "sn_message node") (auto simp: node_ok_def)
  ultimately show ?thesis by simp
next
  case True
  have msg: "(case sn_message node of None \<Rightarrow> True | Some bs \<Rightarrow> length bs = unat (sn_msglen node)) \<and> length (sn_token node) = unat (sn_tokenlen node)"
    using assms(1) by (simp add: node_ok_def)
  let ?again = "node\<lparr>sn_timeout := sn_timeout_val node * 2, sn_timeout_val := sn_timeout_val node * 2, sn_retrans_count := sn_retrans_count node + 1\<rparr>"
  have "node' = node \<or> node' = ?again \<and> sn_retrans_count node < 4 \<and> sn_timeout ?again \<le> 10"
    using assms(2) True by (auto simp: retransmit_def coap_client_defs bind_eq_Some_conv split: if_splits)
  moreover have "node_ok ?again" if "sn_retrans_count node < 4" "sn_timeout ?again \<le> 10"
  proof -
    have "sn_retrans_count node \<noteq> 4" using that(1) by (rule order.strict_implies_not_eq)
    then consider "sn_retrans_count node = 0" "sn_timeout_val node = 2" | "sn_retrans_count node = 1" "sn_timeout_val node = 4"
      | "sn_retrans_count node = 2" "sn_timeout_val node = 8"
      using assms(1) by (auto simp: node_ok_def)
    then show ?thesis
      by cases (use that(2) msg in \<open>simp_all add: node_ok_def split: option.splits\<close>)
  qed
  ultimately show ?thesis using assms(1) by blast
qed

lemma cycle_loop_inv:
  assumes "cycle_loop ns count u = Some (ns', count', u')" "\<forall>node \<in> set ns. node_ok node" "count = of_nat (length ns)"
  shows "(\<forall>node \<in> set ns'. node_ok node) \<and> count' = of_nat (length ns')"
proof -
  have "(\<forall>node \<in> set ns'. node_ok node) \<and> count' + of_nat (length ns) = count + of_nat (length ns')"
    using assms(1,2)
  proof (induction ns arbitrary: count u ns' count' u')
    case (Cons node ns)
    then obtain kept u1 rest where r: "retransmit node u = Some (kept, u1)"
      "cycle_loop ns (if kept = None then count - 1 else count) u1 = Some (rest, count', u')"
      "ns' = (case kept of None \<Rightarrow> rest | Some node \<Rightarrow> node # rest)"
      by (auto simp: bind_eq_Some_conv)
    from Cons.IH [OF r(2)] Cons.prems(2) show ?case
      using r(1,3) Cons.prems(2) retransmit_ok [of node u _ u1] by (cases kept) (auto simp: algebra_simps)
  qed simp
  then show ?thesis using assms(3) by (simp add: add.commute)
qed

lemma ctx_cycle_inv:
  assumes "ctx_inv c" "Cloud_CoAPMessage_cycle c = Some (rc, c')"
  shows "ctx_inv c'"
proof -
  obtain n c1 ns count u where r: "recv_loop c (ctx_waittime c) 0 0 = Some (n, c1)"
    and l: "cycle_loop (ctx_sendlist c1) (ctx_count c1) (ctx_udp c1) = Some (ns, count, u)"
    and c': "c' = c1\<lparr>ctx_sendlist := ns, ctx_count := count, ctx_udp := u\<rparr>"
    using assms(2) by (auto simp: Cloud_CoAPMessage_cycle_def Cloud_CoAPMessage_recv_def bind_eq_Some_conv)
  have "ctx_inv c1" using recv_inv [OF r] assms(1) by simp
  with cycle_loop_inv [OF l] show ?thesis by (simp add: c' ctx_inv_def)
qed

subsection \<open>Reachable contexts\<close>

definition ctx_init :: "Cloud_CoAPContext \<Rightarrow> bool" where
  "ctx_init c \<longleftrightarrow> (\<exists>url maxcount waittime rand sock fd0 h. Cloud_CoAPContext_create url maxcount waittime rand sock fd0 h = Some (Some c))"

inductive ctx_step :: "Cloud_CoAPContext \<Rightarrow> Cloud_CoAPContext \<Rightarrow> bool" where
  step_gen: "Cloud_CoAPMessageId_gen c = (i, c') \<Longrightarrow> ctx_step c c'"
| step_send: "Cloud_CoAPMessage_send c m = Some (rc, c') \<Longrightarrow> ctx_step c c'"
| step_recv: "Cloud_CoAPMessage_recv c t n = Some (rc, c') \<Longrightarrow> ctx_step c c'"
| step_cycle: "Cloud_CoAPMessage_cycle c = Some (rc, c') \<Longrightarrow> ctx_step c c'"

lemma create_inv:
  assumes "ctx_init c"
  shows "ctx_inv c"
proof -
  have "post (Cloud_CoAPContext_create url maxcount waittime rand sock fd0 h) (\<lambda>r. \<forall>c. r = Some c \<longrightarrow> ctx_inv c)"
    for url maxcount waittime rand sock fd0 h
    unfolding Cloud_CoAPContext_create_def
    by (auto intro!: post_bind_eq simp: HAL_Malloc_def ctx_inv_def split: option.split prod.split)
  with assms show ?thesis by (auto simp: ctx_init_def post_def)
qed

lemma step_inv: "ctx_step c c' \<Longrightarrow> ctx_inv c \<Longrightarrow> ctx_inv c'"
proof (induction rule: ctx_step.induct)
  case (step_gen c i c')
  then show ?case by (auto simp: Cloud_CoAPMessageId_gen_def ctx_inv_def split: if_splits)
next
  case (step_send c m rc c')
  then show ?case using postD [OF send_inv] by blast
next
  case (step_recv c t n rc c')
  then show ?case using recv_inv [of c t n n "(rc, c')"] by (simp add: Cloud_CoAPMessage_recv_def)
qed (rule ctx_cycle_inv)

interpretation coap: invariant_system ctx_init ctx_step ctx_inv
  by unfold_locales (auto intro: create_inv step_inv)

end
