(* ===== verification/CoAP_Behaviour.thy ===== *)
theory CoAP_Behaviour
  imports CoAP_Session "HOL-Library.Multiset"
begin

text \<open>
  What an application of the CoAP client sees: what a request sends and queues, how often and how
  long it is retransmitted, how a response finds its request, and which message ids are used.
\<close>

subsection \<open>Sending a request\<close>

lemma send_request:
  assumes inv: "ctx_inv c" and built: "msg_built m opts" and len: "length (msg_wire m) \<le> COAP_MSG_MAX_PDU_LEN"
    and req: "Cloud_CoAPReqMsg (msg_header m)" and net: "udp_accept (ctx_udp c) (udp_tick (ctx_udp c)) (msg_wire m) \<noteq> -1"
    and mem: "\<And>k n. malloc_ok (ctx_hal c) k n"
  shows "\<exists>c' node. Cloud_CoAPMessage_send c m = Some (COAP_SUCCESS, c') \<and>
     ctx_udp c' = (ctx_udp c)\<lparr>udp_tick := udp_tick (ctx_udp c) + 1, udp_sent := udp_sent (ctx_udp c) @ [msg_wire m]\<rparr> \<and>
     ctx_sendlist c' = ctx_sendlist c @ [node] \<and>
     sn_message node = Some (msg_wire m) \<and> sn_msgid node = hd_msgid (msg_header m) \<and> sn_token node = msg_tok m \<and>
     sn_resp node = msg_resp m \<and> sn_user node = msg_user m \<and> sn_acked node = 0 \<and> node_ok node \<and>
     sn_retrans_count node = (if ucast (hd_type (msg_header m)) = COAP_MESSAGE_TYPE_CON then 0 else 4) \<and>
     sn_timeout node = (if ucast (hd_type (msg_header m)) = COAP_MESSAGE_TYPE_CON then 2 else 10)"
proof -
  let ?w = "msg_wire m" and ?n = "of_nat (length (msg_wire m)) :: u16" and ?z = "replicate COAP_MSG_MAX_PDU_LEN 0 :: byte list"
  have small: "length ?w < 65536" using len by (simp add: COAP_MSG_MAX_PDU_LEN_def)
  note ok = built_msg_ok [OF built small] and binv = built_invariant [OF built]
  have n: "unat ?n = length ?w" "unat (ucast ?n :: u32) = length ?w"
    using small by (simp_all add: unat_of_nat unsigned_ucast_eq unsigned_take_bit_eq take_bit_nat_eq_self)
  have pdu: "unat (of_nat COAP_MSG_MAX_PDU_LEN :: u16) = COAP_MSG_MAX_PDU_LEN" by (simp add: COAP_MSG_MAX_PDU_LEN_def)
  have sb: "length (ctx_sendbuf c) = COAP_MSG_MAX_PDU_LEN" using inv by (simp add: ctx_inv_def)
  then have z: "store_bytes (ctx_sendbuf c) 0 ?z = Some ?z" by (simp add: store_bytes_def blit_def)
  have ser: "CoAPSerialize_Message m (Some ?z) (of_nat COAP_MSG_MAX_PDU_LEN) = Some (int (length ?w), Some (blit ?z 0 ?w))"
    by (rule serialize_message [OF ok]) (use len pdu in simp_all)
  have ld: "load_bytes (blit ?z 0 ?w) 0 (length ?w) = Some ?w" using len by (simp add: load_bytes_def blit_def)
  have tok: "unat (hd_tokenlen (msg_header m)) \<le> 8" "load_bytes (msg_token m) 0 (unat (hd_tokenlen (msg_header m))) = Some (msg_tok m)"
    using binv by (simp_all add: built_inv_def load_bytes_def msg_tok_def COAP_MSG_MAX_TOKEN_LEN_def)
  have tl: "length (msg_tok m) = unat (hd_tokenlen (msg_header m))" using ok by (simp add: msg_ok_def)
  show ?thesis
    using message_length [OF ok] n len z ser ld req net mem tok tl small
    by (auto simp: Cloud_CoAPMessage_send_def Cloud_CoAPNetwork_write_def Cloud_CoAPMessageList_add_def HAL_Malloc_def next_tick_def
        Let_def unat_tokenlen node_ok_def coap_client_defs COAP_SUCCESS_def unat_of_nat)
qed

subsection \<open>Retransmission\<close>

text \<open>A network on which nothing arrives any more; the message of a node, and what it will still send.\<close>

definition udp_silent :: "udp \<Rightarrow> bool" where
  "udp_silent u \<longleftrightarrow> (\<forall>k n t. udp_tick u \<le> k \<longrightarrow> udp_recv u k n t = (0, []))"

definition node_pending :: "Cloud_CoAPSendNode \<Rightarrow> byte list multiset" where
  "node_pending node = replicate_mset (node_sends node) (the (sn_message node))"

definition node_waiting :: "Cloud_CoAPSendNode \<Rightarrow> bool" where
  "node_waiting node \<longleftrightarrow> sn_acked node = 0 \<and> sn_message node \<noteq> None"

fun cycle_n :: "nat \<Rightarrow> Cloud_CoAPContext \<Rightarrow> Cloud_CoAPContext option" where
  "cycle_n 0 c = Some c"
| "cycle_n (Suc n) c = do { (_, c) \<leftarrow> Cloud_CoAPMessage_cycle c; cycle_n n c }"

lemma retransmit_keeps_udp: "retransmit node u = Some (kept, u') \<Longrightarrow> udp_recv u' = udp_recv u \<and> udp_tick u \<le> udp_tick u'"
  by (auto simp: retransmit_def Cloud_CoAPNetwork_write_def bind_eq_Some_conv Let_def split: if_splits)

lemma retransmit_pending:
  assumes "node_ok node" "node_waiting node" "udp_open u"
  shows "\<exists>kept u'. retransmit node u = Some (kept, u') \<and> udp_open u' \<and> udp_recv u' = udp_recv u \<and> udp_tick u \<le> udp_tick u' \<and>
     mset (udp_sent u') + (case kept of None \<Rightarrow> {#} | Some node' \<Rightarrow> node_pending node') = mset (udp_sent u) + node_pending node \<and>
     (\<forall>node'. kept = Some node' \<longrightarrow> node_ok node' \<and> node_waiting node' \<and> node_life node = node_life node' + 1)"
proof -
  obtain bs where bs: "sn_message node = Some bs" "sn_acked node = 0" using assms(2) by (auto simp: node_waiting_def)
  from retransmit_step [OF assms(1) bs(2,1) assms(3)] obtain kept u' where r: "retransmit node u = Some (kept, u')" "udp_open u'"
    "udp_sent u' = udp_sent u @ (if sn_timeout node = 0 \<and> node_sends node > 0 then [bs] else [])"
    "case kept of
        None \<Rightarrow> node_life node = 1 \<and> (node_sends node = 0 \<or> node_sends node = 1 \<and> sn_timeout node = 0)
      | Some node' \<Rightarrow> node_ok node' \<and> sn_acked node' = 0 \<and> sn_message node' = Some bs \<and> node_life node = node_life node' + 1 \<and>
          node_sends node = node_sends node' + (if sn_timeout node = 0 \<and> node_sends node > 0 then 1 else 0)"
    by blast
  show ?thesis
    using r bs retransmit_keeps_udp [OF r(1)] by (auto simp: node_pending_def node_waiting_def split: option.splits if_splits)
qed

lemma account_swap:
  fixes a b c d e f g :: "'a multiset"
  assumes "a + b = c + d" "e + f = a + g"
  shows "e + (b + f) = c + (d + g)"
proof -
  have "e + (b + f) = (e + f) + b" by (simp add: ac_simps)
  also have "\<dots> = (a + b) + g" unfolding assms(2) by (simp add: ac_simps)
  finally show ?thesis unfolding assms(1) by (simp add: ac_simps)
qed

lemma cycle_loop_pending:
  assumes "\<forall>node \<in> set ns. node_ok node \<and> node_waiting node \<and> node_life node \<le> Suc k" "udp_open u"
  shows "\<exists>ns' count' u'. cycle_loop ns cnt u = Some (ns', count', u') \<and> udp_open u' \<and> udp_recv u' = udp_recv u \<and> udp_tick u \<le> udp_tick u' \<and>
     (\<forall>node \<in> set ns'. node_ok node \<and> node_waiting node \<and> node_life node \<le> k) \<and>
     mset (udp_sent u') + \<Sum>\<^sub># (mset (map node_pending ns')) = mset (udp_sent u) + \<Sum>\<^sub># (mset (map node_pending ns))"
  using assms
proof (induction ns arbitrary: cnt u)
  case (Cons node ns)
  obtain kept u1 where r: "retransmit node u = Some (kept, u1)" "udp_open u1" "udp_recv u1 = udp_recv u \<and> udp_tick u \<le> udp_tick u1"
    "mset (udp_sent u1) + (case kept of None \<Rightarrow> {#} | Some node' \<Rightarrow> node_pending node') = mset (udp_sent u) + node_pending node"
    "\<forall>node'. kept = Some node' \<longrightarrow> node_ok node' \<and> node_waiting node' \<and> node_life node = node_life node' + 1"
    using retransmit_pending [of node u] Cons.prems by auto
  obtain ns' count' u' where l: "cycle_loop ns (if kept = None then cnt - 1 else cnt) u1 = Some (ns', count', u')"
    "udp_open u'" "udp_recv u' = udp_recv u1 \<and> udp_tick u1 \<le> udp_tick u'" "\<forall>node \<in> set ns'. node_ok node \<and> node_waiting node \<and> node_life node \<le> k"
    "mset (udp_sent u') + \<Sum>\<^sub># (mset (map node_pending ns')) = mset (udp_sent u1) + \<Sum>\<^sub># (mset (map node_pending ns))"
    using Cons.IH [of u1 "if kept = None then cnt - 1 else cnt"] Cons.prems r(2) by auto
  let ?out = "case kept of None \<Rightarrow> ns' | Some node \<Rightarrow> node # ns'"
  have "\<Sum>\<^sub># (mset (map node_pending ?out)) = (case kept of None \<Rightarrow> {#} | Some node' \<Rightarrow> node_pending node') + \<Sum>\<^sub># (mset (map node_pending ns'))"
    by (cases kept) simp_all
  then have "mset (udp_sent u') + \<Sum>\<^sub># (mset (map node_pending ?out)) = mset (udp_sent u) + \<Sum>\<^sub># (mset (map node_pending (node # ns)))"
    using account_swap [OF r(4) l(5)] by simp
  moreover have "\<forall>node \<in> set ?out. node_ok node \<and> node_waiting node \<and> node_life node \<le> k"
    using l(4) r(5) Cons.prems(1) by (cases kept) auto
  ultimately show ?case using r(1,3) l by auto
qed simp

lemma silent_recv:
  assumes "ctx_inv c" "udp_silent (ctx_udp c)"
  shows "Cloud_CoAPMessage_recv c t 0 =
    Some (0, c\<lparr>ctx_recvbuf := replicate COAP_MSG_MAX_PDU_LEN 0, ctx_udp := (ctx_udp c)\<lparr>udp_tick := udp_tick (ctx_udp c) + 1\<rparr>\<rparr>)"
  using assms by (simp add: Cloud_CoAPMessage_recv_def recv_loop.simps Cloud_CoAPNetwork_read_def udp_silent_def ctx_inv_def store_bytes_def
      blit_def Let_def)

lemma cycle_pending:
  assumes inv: "ctx_inv c" and quiet: "udp_silent (ctx_udp c)" "udp_open (ctx_udp c)"
    and nodes: "\<forall>node \<in> set (ctx_sendlist c). node_waiting node \<and> node_life node \<le> Suc k"
  shows "\<exists>c'. Cloud_CoAPMessage_cycle c = Some (COAP_SUCCESS, c') \<and> ctx_inv c' \<and> udp_silent (ctx_udp c') \<and> udp_open (ctx_udp c') \<and>
     (\<forall>node \<in> set (ctx_sendlist c'). node_waiting node \<and> node_life node \<le> k) \<and>
     mset (udp_sent (ctx_udp c')) + \<Sum>\<^sub># (mset (map node_pending (ctx_sendlist c'))) =
     mset (udp_sent (ctx_udp c)) + \<Sum>\<^sub># (mset (map node_pending (ctx_sendlist c)))"
proof -
  let ?u = "(ctx_udp c)\<lparr>udp_tick := udp_tick (ctx_udp c) + 1\<rparr>"
  have "udp_open ?u" using quiet by (simp add: udp_open_def)
  from cycle_loop_pending [OF _ this, of "ctx_sendlist c" k "ctx_count c"] inv nodes
  obtain ns' count' u' where l: "cycle_loop (ctx_sendlist c) (ctx_count c) ?u = Some (ns', count', u')"
    "udp_open u'" "udp_recv u' = udp_recv (ctx_udp c) \<and> udp_tick (ctx_udp c) \<le> udp_tick u'" "\<forall>node \<in> set ns'. node_waiting node \<and> node_life node \<le> k"
    "mset (udp_sent u') + \<Sum>\<^sub># (mset (map node_pending ns')) = mset (udp_sent (ctx_udp c)) + \<Sum>\<^sub># (mset (map node_pending (ctx_sendlist c)))"
    by (auto simp: ctx_inv_def)
  have c': "Cloud_CoAPMessage_cycle c = Some (COAP_SUCCESS,
      c\<lparr>ctx_recvbuf := replicate COAP_MSG_MAX_PDU_LEN 0, ctx_sendlist := ns', ctx_count := count', ctx_udp := u'\<rparr>)" (is "_ = Some (_, ?c)")
    using l(1) by (simp add: Cloud_CoAPMessage_cycle_def silent_recv [OF inv quiet(1)])
  have "ctx_inv ?c" by (rule ctx_cycle_inv [OF inv c'])
  with c' l quiet(1) show ?thesis by (simp add: udp_silent_def)
qed

lemma cycles_drain:
  assumes "ctx_inv c" "udp_silent (ctx_udp c)" "udp_open (ctx_udp c)"
    and "\<forall>node \<in> set (ctx_sendlist c). node_waiting node \<and> node_life node \<le> k"
  shows "\<exists>c'. cycle_n k c = Some c' \<and> ctx_inv c' \<and> ctx_sendlist c' = [] \<and>
     mset (udp_sent (ctx_udp c')) = mset (udp_sent (ctx_udp c)) + \<Sum>\<^sub># (mset (map node_pending (ctx_sendlist c)))"
  using assms
proof (induction k arbitrary: c)
  case 0
  then have "ctx_sendlist c = []" by (cases "ctx_sendlist c") (auto simp: node_life_def)
  with 0 show ?case by simp
next
  case (Suc k)
  from cycle_pending [OF Suc.prems] obtain c1 where "Cloud_CoAPMessage_cycle c = Some (COAP_SUCCESS, c1)" "ctx_inv c1"
    "udp_silent (ctx_udp c1)" "udp_open (ctx_udp c1)" "\<forall>node \<in> set (ctx_sendlist c1). node_waiting node \<and> node_life node \<le> k"
    "mset (udp_sent (ctx_udp c1)) + \<Sum>\<^sub># (mset (map node_pending (ctx_sendlist c1))) =
     mset (udp_sent (ctx_udp c)) + \<Sum>\<^sub># (mset (map node_pending (ctx_sendlist c)))"
    by blast
  with Suc.IH [of c1] show ?case by auto
qed

lemma node_life_le: "node_ok node \<Longrightarrow> node_life node \<le> 17"
  by (auto simp: node_ok_def node_life_def word_le_nat_alt)

subsection \<open>Receiving a response\<close>

lemma built_received:
  assumes built: "msg_built m opts" and small: "length (msg_wire m) < 65536"
    and ends: "msg_data m = [] \<longrightarrow> (opts = [] \<or> snd (last opts) \<noteq> []) \<and> zs \<noteq> [] \<and> hd zs \<noteq> 0xFF"
  shows "\<exists>m'. CoAPDeserialize_Message zero_message (Some (msg_wire m @ zs)) (int (length (msg_wire m))) = Some (COAP_SUCCESS, m') \<and>
     msg_header m' = msg_header m \<and> msg_tok m' = msg_tok m \<and> msg_opts m' = opts \<and> msg_data m' = msg_data m"
proof -
  let ?w = "msg_wire m" let ?b = "replicate (length ?w) 0 :: byte list"
  from built_transfer [OF built small ends, of ?b] obtain n buf' m' where t: "CoAPSerialize_MessageLength m = Some n"
    "CoAPSerialize_Message m (Some ?b) n = Some (uint n, Some buf')"
    "CoAPDeserialize_Message zero_message (Some (take (unat n) buf' @ zs)) (uint n) = Some (COAP_SUCCESS, m')"
    "msg_header m' = msg_header m" "msg_tok m' = msg_tok m" "msg_opts m' = opts" "msg_data m' = msg_data m"
    by auto
  have n: "n = of_nat (length ?w)" using t(1) message_length [OF built_msg_ok [OF built small]] by simp
  then have n': "unat n = length ?w" "uint n = int (length ?w)" using small by (simp_all add: unat_of_nat unsigned_of_nat take_bit_nat_eq_self)
  have "buf' = blit ?b 0 ?w"
    using t(2) serialize_message [OF built_msg_ok [OF built small], of n ?b] n' by simp
  then have "take (unat n) buf' = ?w" using n' by (simp add: blit_def)
  with t n' show ?thesis by auto
qed

lemma token_matches_eq:
  assumes "node_ok node" "length (msg_tok m) = unat (hd_tokenlen (msg_header m))"
  shows "token_matches m node = Some (sn_tokenlen node \<noteq> 0 \<and> sn_token node = msg_tok m)"
proof -
  have len: "length (sn_token node) = unat (sn_tokenlen node)" using assms(1) by (simp add: node_ok_def)
  have tk: "unat (hd_tokenlen (msg_header m)) \<le> length (msg_token m)" using assms(2) by (simp add: msg_tok_def)
  have eq: "sn_tokenlen node = ucast (hd_tokenlen (msg_header m)) \<longleftrightarrow> length (sn_token node) = length (msg_tok m)"
    by (simp add: len assms(2) word_unat_eq_iff unat_tokenlen)
  show ?thesis
    using eq len tk assms(2) by (auto simp: token_matches_def load_bytes_def msg_tok_def)
qed

lemma take_by_token_eq:
  assumes "\<forall>n \<in> set (pre @ [node]). node_ok n" "length (msg_tok m) = unat (hd_tokenlen (msg_header m))"
    and "\<forall>n \<in> set pre. sn_token n \<noteq> msg_tok m" "sn_token node = msg_tok m" "sn_tokenlen node \<noteq> 0"
  shows "take_by_token m (pre @ node # suf) = Some (Some node, pre @ suf)"
  using assms by (induction pre) (simp_all add: token_matches_eq)

text \<open>The acknowledgement of the message with id \<open>i\<close>: four bytes, that are sent and not queued.\<close>

definition ack_wire :: "u16 \<Rightarrow> byte list" where
  "ack_wire i = [0x60, 0, ucast (drop_bit 8 (i AND 0xFF00)), ucast (i AND 0x00FF)]"

lemma ack_sent:
  assumes inv: "ctx_inv c"
  shows "\<exists>rc b. Cloud_CoAPAckMessage_send c i = Some (rc, c\<lparr>ctx_sendbuf := b, ctx_udp := (ctx_udp c)\<lparr>udp_tick := udp_tick (ctx_udp c) + 1,
    udp_sent := udp_sent (ctx_udp c) @ (if udp_accept (ctx_udp c) (udp_tick (ctx_udp c)) (ack_wire i) = -1 then [] else [ack_wire i])\<rparr>\<rparr>)"
proof -
  define m where "m = snd (CoAPMessageId_set (snd (CoAPMessage_init zero_message)) i)"
  have built: "msg_built m []" unfolding m_def by (rule built_id [OF built_init]) (simp_all add: prod_eq_iff)
  have w: "msg_wire m = ack_wire i"
    by (simp add: m_def CoAPMessageId_set_def CoAPMessage_init_def msg_wire_def coap_wire_def header_wire_def ack_wire_def msg_tok_def
        msg_opts_def msg_data_def payload_wire_def COAP_CUR_VERSION_def COAP_MESSAGE_TYPE_ACK_def COAP_MSG_CODE_DEF_def)
  have hdr: "\<not> Cloud_CoAPReqMsg (msg_header m)" "\<not> Cloud_CoAPCONRespMsg (msg_header m)"
    by (simp_all add: m_def CoAPMessageId_set_def CoAPMessage_init_def Cloud_CoAPReqMsg_def Cloud_CoAPCONRespMsg_def COAP_MSG_CODE_DEF_def)
  let ?w = "msg_wire m" and ?z = "replicate COAP_MSG_MAX_PDU_LEN 0 :: byte list"
  have len: "length ?w = 4" by (simp add: w ack_wire_def)
  then have small: "length ?w < 65536" "length ?w \<le> COAP_MSG_MAX_PDU_LEN" by (simp_all add: COAP_MSG_MAX_PDU_LEN_def)
  note ok = built_msg_ok [OF built small(1)]
  have pdu: "unat (of_nat COAP_MSG_MAX_PDU_LEN :: u16) = COAP_MSG_MAX_PDU_LEN" by (simp add: COAP_MSG_MAX_PDU_LEN_def)
  have "length (ctx_sendbuf c) = COAP_MSG_MAX_PDU_LEN" using inv by (simp add: ctx_inv_def)
  then have z: "store_bytes (ctx_sendbuf c) 0 ?z = Some ?z" by (simp add: store_bytes_def blit_def)
  have ser: "CoAPSerialize_Message m (Some ?z) (of_nat COAP_MSG_MAX_PDU_LEN) = Some (int (length ?w), Some (blit ?z 0 ?w))"
    by (rule serialize_message [OF ok]) (use small pdu in simp_all)
  have ld: "load_bytes (blit ?z 0 ?w) 0 4 = Some ?w" using len small by (simp add: load_bytes_def blit_def)
  show ?thesis
    using message_length [OF ok] z ser ld hdr len
    unfolding Cloud_CoAPAckMessage_send_def m_def [symmetric] w [symmetric]
    by (auto simp: Cloud_CoAPMessage_send_def Cloud_CoAPNetwork_write_def Let_def COAP_MSG_MAX_PDU_LEN_def)
qed

text \<open>What a response makes the client send: the acknowledgement of a confirmable one, if the network takes it.\<close>

definition response_acks :: "Cloud_CoAPContext \<Rightarrow> CoAPMessage \<Rightarrow> byte list list" where
  "response_acks c m =
     (if ucast (hd_type (msg_header m)) = COAP_MESSAGE_TYPE_CON \<and>
         udp_accept (ctx_udp c) (udp_tick (ctx_udp c) + 1) (ack_wire (hd_msgid (msg_header m))) \<noteq> -1
      then [ack_wire (hd_msgid (msg_header m))] else [])"

lemma resp_handled:
  assumes inv: "ctx_inv c" and tk: "take_by_token m' (ctx_sendlist c) = Some (Some node, rest)" and cb: "sn_resp node = Some cb"
    and c: "ctx_udp c = (ctx_udp c0)\<lparr>udp_tick := udp_tick (ctx_udp c0) + 1\<rparr>" and h: "msg_header m' = msg_header m"
  shows "\<exists>c'. Cloud_CoAPRespMessage_handle c m' = Some (COAP_SUCCESS, c') \<and>
     ctx_calls c' = ctx_calls c @ [(cb, sn_user node, m'\<lparr>msg_user := sn_user node\<rparr>)] \<and> ctx_sendlist c' = rest \<and>
     udp_sent (ctx_udp c') = udp_sent (ctx_udp c0) @ response_acks c0 m"
proof -
  obtain rc b where ack: "Cloud_CoAPAckMessage_send c (hd_msgid (msg_header m')) =
      Some (rc, c\<lparr>ctx_sendbuf := b, ctx_udp := (ctx_udp c)\<lparr>udp_tick := udp_tick (ctx_udp c) + 1,
        udp_sent := udp_sent (ctx_udp c) @ (if udp_accept (ctx_udp c) (udp_tick (ctx_udp c)) (ack_wire (hd_msgid (msg_header m'))) = -1
          then [] else [ack_wire (hd_msgid (msg_header m'))])\<rparr>\<rparr>)"
    using ack_sent [OF inv] by blast
  show ?thesis
    using tk cb ack c h by (auto simp: Cloud_CoAPRespMessage_handle_def response_acks_def Let_def)
qed

lemma recv_response:
  assumes inv: "ctx_inv c" and list: "ctx_sendlist c = pre @ node # suf"
    and token: "sn_tokenlen node \<noteq> 0" "sn_token node = msg_tok m" "\<forall>n \<in> set pre. sn_token n \<noteq> msg_tok m"
    and cb: "sn_resp node = Some cb"
    and built: "msg_built m opts" and len: "length (msg_wire m) < COAP_MSG_MAX_PDU_LEN"
    and ends: "msg_data m = [] \<longrightarrow> opts = [] \<or> snd (last opts) \<noteq> []"
    and resp: "Cloud_CoAPRespMsg (msg_header m)"
    and net: "udp_recv (ctx_udp c) (udp_tick (ctx_udp c)) COAP_MSG_MAX_PDU_LEN t = (int (length (msg_wire m)), msg_wire m)"
  shows "\<exists>c' m'. Cloud_CoAPMessage_recv c t 1 = Some (int (length (msg_wire m)), c') \<and>
     ctx_calls c' = ctx_calls c @ [(cb, sn_user node, m')] \<and> ctx_sendlist c' = pre @ suf \<and>
     udp_sent (ctx_udp c') = udp_sent (ctx_udp c) @ response_acks c m \<and>
     msg_header m' = msg_header m \<and> msg_tok m' = msg_tok m \<and> msg_opts m' = opts \<and> msg_data m' = msg_data m"
proof -
  let ?w = "msg_wire m" let ?zs = "replicate (COAP_MSG_MAX_PDU_LEN - length ?w) 0 :: byte list"
  have small: "length ?w < 65536" using len by (simp add: COAP_MSG_MAX_PDU_LEN_def)
  have "?zs \<noteq> [] \<and> hd ?zs \<noteq> 0xFF" using len by simp
  with built_received [OF built small, of ?zs] ends obtain m' where m':
    "CoAPDeserialize_Message zero_message (Some (?w @ ?zs)) (int (length ?w)) = Some (COAP_SUCCESS, m')"
    "msg_header m' = msg_header m" "msg_tok m' = msg_tok m" "msg_opts m' = opts" "msg_data m' = msg_data m" by blast
  have pos: "0 < int (length ?w)" by (simp add: msg_wire_def coap_wire_def header_wire_def)
  have u: "uint (word_of_int (int (length ?w)) :: u16) = int (length ?w)"
    using small by (simp add: unsigned_of_nat take_bit_nat_eq_self)
  have rd: "Cloud_CoAPNetwork_read (ctx_udp c) (ctx_recvbuf c) COAP_MSG_MAX_PDU_LEN t =
      Some (int (length ?w), ?w @ ?zs, (ctx_udp c)\<lparr>udp_tick := udp_tick (ctx_udp c) + 1\<rparr>)"
    using inv net len by (simp add: Cloud_CoAPNetwork_read_def ctx_inv_def store_bytes_def blit_def)
  let ?c = "c\<lparr>ctx_recvbuf := ?w @ ?zs, ctx_udp := (ctx_udp c)\<lparr>udp_tick := udp_tick (ctx_udp c) + 1\<rparr>\<rparr>"
  have "ctx_inv ?c" using inv len by (simp add: ctx_inv_def)
  moreover have "take_by_token m' (pre @ node # suf) = Some (Some node, pre @ suf)"
    using inv list token built_msg_ok [OF built small] m' by (intro take_by_token_eq) (auto simp: ctx_inv_def msg_ok_def)
  ultimately obtain c' where c': "Cloud_CoAPRespMessage_handle ?c m' = Some (COAP_SUCCESS, c')"
    "ctx_calls c' = ctx_calls c @ [(cb, sn_user node, m'\<lparr>msg_user := sn_user node\<rparr>)]" "ctx_sendlist c' = pre @ suf"
    "udp_sent (ctx_udp c') = udp_sent (ctx_udp c) @ response_acks c m"
    using resp_handled [of ?c m' node "pre @ suf" cb c m] list cb m'(2) by auto
  have "\<not> COAPAckMsg (msg_header m)" using resp by (auto simp: COAPAckMsg_def Cloud_CoAPRespMsg_def COAP_MSG_CODE_DEF_def)
  then have "Cloud_CoAPMessage_recv c t 1 = Some (int (length ?w), c')"
    unfolding Cloud_CoAPMessage_recv_def recv_loop.simps [of c]
    using rd pos u m'(1,2) resp c'(1) by (simp add: Cloud_CoAPMessage_handle_def Let_def)
  with c' m' show ?thesis by (auto simp: msg_tok_def msg_opts_def msg_data_def)
qed

subsection \<open>Acknowledged requests\<close>





subsection \<open>Message ids\<close>

fun gen_ids :: "nat \<Rightarrow> Cloud_CoAPContext \<Rightarrow> u16 list" where
  "gen_ids 0 c = []"
| "gen_ids (Suc n) c = (case Cloud_CoAPMessageId_gen c of (i, c) \<Rightarrow> i # gen_ids n c)"

lemma map_upt_Suc_split: "map f [0..<Suc n] = f 0 # map (\<lambda>i. f (Suc i)) [0..<n]"
  by (simp add: upt_conv_Cons map_Suc_upt [symmetric] del: upt_Suc)

lemma gen_ids_eq:
  "gen_ids n c = map (\<lambda>i. if unat (ctx_message_id c) + i < 65535 then ctx_message_id c + of_nat i else 1) [0..<n]"
proof (induction n arbitrary: c)
  case (Suc n)
  show ?case
  proof (cases "ctx_message_id c = 65535")
    case True
    then show ?thesis using Suc.IH [of c]
      by (simp add: Cloud_CoAPMessageId_gen_def COAP_MAX_MESSAGE_ID_def map_upt_Suc_split del: upt_Suc)
  next
    case False
    then have ne: "unat (ctx_message_id c) \<noteq> 65535" by (simp add: word_unat_eq_iff)
    with unat_u16_lt [of "ctx_message_id c"] have lt: "unat (ctx_message_id c) < 65535" by linarith
    then have "unat (ctx_message_id c + 1) = Suc (unat (ctx_message_id c))"
      by (simp add: unat_word_ariths)
    with False lt Suc.IH [of "c\<lparr>ctx_message_id := ctx_message_id c + 1\<rparr>"] show ?thesis
      by (simp add: Cloud_CoAPMessageId_gen_def COAP_MAX_MESSAGE_ID_def map_upt_Suc_split algebra_simps del: upt_Suc)
  qed
qed simp

subsection \<open>Addresses\<close>

definition uri_prefix :: "coap_endpoint_type \<Rightarrow> cstr" where
  "uri_prefix ep = str_coap @ (case ep of COAP_ENDPOINT_NOSEC \<Rightarrow> [] | COAP_ENDPOINT_DTLS \<Rightarrow> [0x73] | COAP_ENDPOINT_PSK \<Rightarrow> 0x2D # str_psk) @ str_sep"

lemma dec_digits_isdigit: "c \<in> set (dec_digits n) \<Longrightarrow> c_isdigit c"
proof (induction n rule: dec_digits.induct)
  case (1 n)
  have "c_isdigit (of_nat k + 0x30)" if "k < 10" for k
  proof -
    have "unat (of_nat k + 0x30 :: byte) = k + 48" using that by (simp add: unat_word_ariths unat_of_nat)
    then show ?thesis using that by (simp add: c_isdigit_def word_le_nat_alt)
  qed
  with 1 show ?case by (subst (asm) dec_digits.simps) (auto split: if_splits)
qed

lemma dec_digits_nonempty: "dec_digits n \<noteq> []"
  by (subst dec_digits.simps) simp

lemma tolower_values: "tolower 0x63 = 0x63" "tolower 0x6F = 0x6F" "tolower 0x61 = 0x61" "tolower 0x70 = 0x70" "tolower 0x73 = 0x73"
  "tolower 0x6B = 0x6B" "tolower 0x3A = 0x3A" "tolower 0x2F = 0x2F" "tolower 0x2D = 0x2D"
  by (simp_all add: tolower_def)

lemma uri_parse_prefix:
  "Cloud_CoAPUri_parse (Some (uri_prefix ep @ p)) =
     (let host = takeWhile (\<lambda>c. c \<noteq> 0x3A) p; rest = dropWhile (\<lambda>c. c \<noteq> 0x3A) p;
          port = (if ep = COAP_ENDPOINT_DTLS then COAPS_DEFAULT_PORT else COAP_DEFAULT_PORT)
      in if host = [] \<or> COAP_DEFAULT_HOST_LEN - 1 < length host then Some (COAP_ERROR_INVALID_URI, None)
         else let digits = takeWhile c_isdigit (drop 1 rest) in
           if rest = [] \<or> digits = [] then Some (COAP_SUCCESS, Some (ep, host, port))
           else do {
             uri_port \<leftarrow> str2int_digits digits 0;
             if uri_port > 65535 then Some (COAP_ERROR_INVALID_URI, None)
             else Some (COAP_SUCCESS, Some (ep, host, word_of_int uri_port))
           })"
  by (induct ep) (simp_all add: Cloud_CoAPUri_parse_def uri_prefix_def uri_scheme_def str_coap_def str_sep_def str_psk_def tolower_values Let_def)

lemma uri_parse_host_port:
  assumes "host \<noteq> []" "0x3A \<notin> set host" "length host < 128"
  shows "Cloud_CoAPUri_parse (Some (uri_prefix ep @ host @ 0x3A # dec_digits (unat port))) = Some (COAP_SUCCESS, Some (ep, host, port))"
proof -
  have tw: "takeWhile (\<lambda>c. c \<noteq> 0x3A) (host @ 0x3A # ds) = host" "dropWhile (\<lambda>c. c \<noteq> 0x3A) (host @ 0x3A # ds) = 0x3A # ds" for ds
    using assms(2) by (auto simp: takeWhile_append dropWhile_append)
  have dg: "takeWhile c_isdigit (dec_digits (unat port)) = dec_digits (unat port)"
    by (simp add: takeWhile_eq_all_conv dec_digits_isdigit)
  have "str2int_digits (dec_digits (unat port)) 0 = Some (int (unat port))"
    using str2int_dec_digits [of "unat port" "[]"] unat_u16_lt [of port] by simp
  moreover have "\<not> 65535 < uint port" using unat_u16_lt [of port] unfolding uint_nat by linarith
  ultimately show ?thesis
    using assms by (simp add: uri_parse_prefix tw dg dec_digits_nonempty Let_def COAP_DEFAULT_HOST_LEN_def)
qed

subsection \<open>Properties\<close>

text \<open>
  For the witnesses: a confirmable request with a token and a handler, an acknowledgement and a confirmable
  response to it; a network that accepts every datagram and delivers one of these on the second
  call or nothing at all; a new context on such a network and the context after sending the request.
\<close>

definition sample_con :: CoAPMessage where
  "sample_con = snd (the (CoAPMessageToken_set (snd (CoAPMessageType_set (snd (Cloud_CoAPMessageHandler_set sample_request (Some 1)))
     COAP_MESSAGE_TYPE_CON)) (Some [1, 2, 3, 4]) 4))"

definition sample_confirmable :: CoAPMessage where
  "sample_confirmable = snd (CoAPMessageCode_set (snd (CoAPMessageId_set sample_con 0x1234)) (COAP_MSG_CODE_DEF 205))"

definition sample_udp :: "byte list \<Rightarrow> udp" where
  "sample_udp bs = \<lparr>udp_tick = 0, udp_recv = (\<lambda>k _ _. if k = 1 then (int (length bs), bs) else (0, [])), udp_accept = (\<lambda>_ _. 0), udp_sent = []\<rparr>"

definition sample_ctx :: "byte list \<Rightarrow> Cloud_CoAPContext" where
  "sample_ctx bs = the (the (Cloud_CoAPContext_create None 8 0 65533 (\<lambda>_ _. Some (sample_udp bs)) (sample_udp bs) (hal_at (\<lambda>_. 0))))"

definition sample_waiting :: "byte list \<Rightarrow> Cloud_CoAPContext" where
  "sample_waiting bs = snd (the (Cloud_CoAPMessage_send (sample_ctx bs) sample_con))"


lemma sample_con_built: "msg_built sample_con [(11, [0x61, 0x62]), (12, [50])]"
proof -
  define m1 where "m1 = snd (Cloud_CoAPMessageHandler_set sample_request (Some 1))"
  define m2 where "m2 = snd (CoAPMessageType_set m1 COAP_MESSAGE_TYPE_CON)"
  have b1: "msg_built m1 [(11, [0x61, 0x62]), (12, [50])]" by (rule built_resp [OF sample_request_built]) (simp add: m1_def prod_eq_iff)
  have b2: "msg_built m2 [(11, [0x61, 0x62]), (12, [50])]" by (rule built_type [OF b1]) (simp add: m2_def prod_eq_iff)
  have "length (msg_token m2) = COAP_MSG_MAX_TOKEN_LEN" using built_invariant [OF b2] by (simp add: built_inv_def)
  moreover have "sample_con = snd (the (CoAPMessageToken_set m2 (Some [1, 2, 3, 4]) 4))" by (simp add: sample_con_def m2_def m1_def)
  ultimately have "CoAPMessageToken_set m2 (Some [1, 2, 3, 4]) 4 = Some (COAP_SUCCESS, sample_con)"
    by (simp add: CoAPMessageToken_set_def load_bytes_def store_bytes_def COAP_MSG_MAX_TOKEN_LEN_def)
  then show ?thesis by (rule built_token [OF b2])
qed

lemma sample_confirmable_built: "msg_built sample_confirmable [(11, [0x61, 0x62]), (12, [50])]"
proof -
  have "msg_built (snd (CoAPMessageId_set sample_con 0x1234)) [(11, [0x61, 0x62]), (12, [50])]"
    by (rule built_id [OF sample_con_built]) (simp add: prod_eq_iff)
  then show ?thesis unfolding sample_confirmable_def by (rule built_code) (simp add: prod_eq_iff)
qed

lemma sample_con_wire:
  "length (msg_wire sample_con) = 16" "Cloud_CoAPReqMsg (msg_header sample_con)" "ucast (hd_type (msg_header sample_con)) = COAP_MESSAGE_TYPE_CON"
  "msg_tok sample_con = [1, 2, 3, 4]" "msg_resp sample_con = Some 1"
  by code_simp+

lemma sample_confirmable_wire:
  "length (msg_wire sample_confirmable) = 16" "Cloud_CoAPRespMsg (msg_header sample_confirmable)"
  "ucast (hd_type (msg_header sample_confirmable)) = COAP_MESSAGE_TYPE_CON" "msg_tok sample_confirmable = [1, 2, 3, 4]"
  "hd_msgid (msg_header sample_confirmable) = 0x1234"
  by code_simp+

lemma sample_ctx_created:
  "Cloud_CoAPContext_create None 8 0 65533 (\<lambda>_ _. Some (sample_udp bs)) (sample_udp bs) (hal_at (\<lambda>_. 0)) = Some (Some (sample_ctx bs))"
  "ctx_udp (sample_ctx bs) = sample_udp bs" "malloc_ok (ctx_hal (sample_ctx bs)) k n" "ctx_sendlist (sample_ctx bs) = []"
  by (simp_all add: sample_ctx_def Cloud_CoAPContext_create_def HAL_Malloc_def hal_at_def next_tick_def)

lemma sample_ctx_reachable: "reachable ctx_init ctx_step (sample_ctx bs)"
  using sample_ctx_created(1) by (intro reach_init) (simp add: ctx_init_def, blast)

lemma sample_waiting_sent:
  "reachable ctx_init ctx_step (sample_waiting bs)"
  "ctx_udp (sample_waiting bs) = (sample_udp bs)\<lparr>udp_tick := 1, udp_sent := [msg_wire sample_con]\<rparr>"
  "\<exists>node. ctx_sendlist (sample_waiting bs) = [node] \<and> sn_message node = Some (msg_wire sample_con) \<and> sn_acked node = 0 \<and>
     sn_token node = [1, 2, 3, 4] \<and> sn_resp node = Some 1 \<and> node_ok node"
proof -
  have len: "length (msg_wire sample_con) \<le> COAP_MSG_MAX_PDU_LEN" by (simp add: sample_con_wire COAP_MSG_MAX_PDU_LEN_def)
  have net: "udp_accept (ctx_udp (sample_ctx bs)) (udp_tick (ctx_udp (sample_ctx bs))) (msg_wire sample_con) \<noteq> -1"
    by (simp add: sample_ctx_created sample_udp_def)
  obtain c' node where c': "Cloud_CoAPMessage_send (sample_ctx bs) sample_con = Some (COAP_SUCCESS, c')"
    "ctx_udp c' = (sample_udp bs)\<lparr>udp_tick := 1, udp_sent := [msg_wire sample_con]\<rparr>" "ctx_sendlist c' = [node]"
    "sn_message node = Some (msg_wire sample_con) \<and> sn_acked node = 0 \<and> sn_token node = [1, 2, 3, 4] \<and> sn_resp node = Some 1 \<and> node_ok node"
    using send_request [OF coap.reachable_inv [OF sample_ctx_reachable] sample_con_built len sample_con_wire(2) net sample_ctx_created(3)]
    by (auto simp: sample_ctx_created sample_con_wire sample_udp_def)
  have w: "sample_waiting bs = c'" by (simp add: sample_waiting_def c'(1))
  show "reachable ctx_init ctx_step (sample_waiting bs)"
    unfolding w by (rule reach_step [OF sample_ctx_reachable step_send [OF c'(1)]])
  show "ctx_udp (sample_waiting bs) = (sample_udp bs)\<lparr>udp_tick := 1, udp_sent := [msg_wire sample_con]\<rparr>" unfolding w by (rule c'(2))
  show "\<exists>node. ctx_sendlist (sample_waiting bs) = [node] \<and> sn_message node = Some (msg_wire sample_con) \<and> sn_acked node = 0 \<and>
     sn_token node = [1, 2, 3, 4] \<and> sn_resp node = Some 1 \<and> node_ok node" unfolding w using c'(3,4) by blast
qed







text \<open>
  C26: In every state that the CoAP client can reach, the counter of the list of sent messages is the
  length of the list modulo 256, every entry is on the retransmission schedule (waiting at most 2,
  4, 8 cycles after so many transmissions, or 10 cycles when it is not confirmable) and holds a copy
  of the datagram of its recorded length, and both packet buffers have 1280 bytes.
\<close>

theorem coap_reachable: "reachable ctx_init ctx_step c \<Longrightarrow> ctx_inv c"
  by (rule coap.reachable_inv)

theorem coap_reachable_witness: "ctx_inv (sample_ctx [])"
  by (rule coap_reachable [OF sample_ctx_reachable])

text \<open>
  C31: Sending a request: whenever the datagram is accepted and memory is available,
  \<open>Cloud_CoAPMessage_send\<close> succeeds for every message built by the library that fits into the
  buffer. It writes exactly one datagram, the encoding of the message, and appends one entry to the
  list of sent messages, with a copy of the datagram, the message id, the token and the handler; a
  confirmable request starts with two cycles to wait and no retransmission made.
\<close>

theorem coap_request:
  assumes "reachable ctx_init ctx_step c" "msg_built m opts" "length (msg_wire m) \<le> COAP_MSG_MAX_PDU_LEN"
    and "Cloud_CoAPReqMsg (msg_header m)" "udp_accept (ctx_udp c) (udp_tick (ctx_udp c)) (msg_wire m) \<noteq> -1"
    and "\<And>k n. malloc_ok (ctx_hal c) k n"
  shows "\<exists>c' node. Cloud_CoAPMessage_send c m = Some (COAP_SUCCESS, c') \<and>
     ctx_udp c' = (ctx_udp c)\<lparr>udp_tick := udp_tick (ctx_udp c) + 1, udp_sent := udp_sent (ctx_udp c) @ [msg_wire m]\<rparr> \<and>
     ctx_sendlist c' = ctx_sendlist c @ [node] \<and>
     sn_message node = Some (msg_wire m) \<and> sn_msgid node = hd_msgid (msg_header m) \<and> sn_token node = msg_tok m \<and>
     sn_resp node = msg_resp m \<and> sn_user node = msg_user m \<and> sn_acked node = 0 \<and> node_ok node \<and>
     sn_retrans_count node = (if ucast (hd_type (msg_header m)) = COAP_MESSAGE_TYPE_CON then 0 else 4) \<and>
     sn_timeout node = (if ucast (hd_type (msg_header m)) = COAP_MESSAGE_TYPE_CON then 2 else 10)"
  by (rule send_request [OF coap.reachable_inv [OF assms(1)] assms(2-6)])

theorem coap_request_witness:
  "\<exists>c' node. Cloud_CoAPMessage_send (sample_ctx []) sample_con = Some (COAP_SUCCESS, c') \<and>
     udp_sent (ctx_udp c') = [msg_wire sample_con] \<and> ctx_sendlist c' = [node] \<and> sn_token node = [1, 2, 3, 4] \<and> sn_timeout node = 2"
  using coap_request [OF sample_ctx_reachable [of "[]"] sample_con_built] sample_con_wire
  by (auto simp: sample_ctx_created sample_udp_def COAP_MSG_MAX_PDU_LEN_def)

text \<open>
  C29: Retransmission terminates. From every reachable state in which no waiting message was
  acknowledged, on a network that accepts datagrams and delivers none, seventeen calls of
  \<open>Cloud_CoAPMessage_cycle\<close> return and leave an empty list; meanwhile exactly the datagrams owed were
  sent: three more copies of a confirmable message that was just sent, fewer for one that was
  retransmitted before, none of a message that is not confirmable.
\<close>

theorem coap_drains:
  assumes "reachable ctx_init ctx_step c" "udp_silent (ctx_udp c)" "udp_open (ctx_udp c)"
    and "\<forall>node \<in> set (ctx_sendlist c). node_waiting node"
  shows "\<exists>c'. cycle_n 17 c = Some c' \<and> ctx_sendlist c' = [] \<and> ctx_count c' = 0 \<and>
     mset (udp_sent (ctx_udp c')) = mset (udp_sent (ctx_udp c)) + \<Sum>\<^sub># (mset (map node_pending (ctx_sendlist c)))"
proof -
  have inv: "ctx_inv c" by (rule coap.reachable_inv [OF assms(1)])
  then have "\<forall>node \<in> set (ctx_sendlist c). node_waiting node \<and> node_life node \<le> 17"
    using assms(4) by (auto simp: ctx_inv_def intro: node_life_le)
  from cycles_drain [OF inv assms(2,3) this] show ?thesis by (auto simp: ctx_inv_def)
qed

theorem coap_drains_witness:
  "\<exists>c'. cycle_n 17 (sample_waiting []) = Some c' \<and> ctx_sendlist c' = [] \<and> ctx_count c' = 0 \<and>
     mset (udp_sent (ctx_udp c')) =
       mset (udp_sent (ctx_udp (sample_waiting []))) + \<Sum>\<^sub># (mset (map node_pending (ctx_sendlist (sample_waiting []))))"
proof (rule coap_drains [OF sample_waiting_sent(1)])
  show "udp_silent (ctx_udp (sample_waiting []))" "udp_open (ctx_udp (sample_waiting []))"
    by (simp_all add: sample_waiting_sent(2) sample_udp_def udp_silent_def udp_open_def)
  show "\<forall>node \<in> set (ctx_sendlist (sample_waiting [])). node_waiting node"
    using sample_waiting_sent(3) [of "[]"] by (auto simp: node_waiting_def)
qed

text \<open>
  C30: A response finds its request. When a datagram shorter than the receive buffer arrives that is the encoding of a
  response (confirmable or not) with the token of a waiting request, \<open>Cloud_CoAPMessage_recv\<close> calls the handler of the
  first such request once, with its user data and with a message that has the header, the options
  and the payload that the peer put into the response, and removes this request from the list. A
  confirmable response is acknowledged: the four bytes of an ACK with its message id are sent, if the
  network takes them, and not queued; otherwise nothing is sent. A response without payload must end in an option with a value.
\<close>

theorem coap_response:
  assumes "reachable ctx_init ctx_step c" "ctx_sendlist c = pre @ node # suf"
    and "sn_tokenlen node \<noteq> 0" "sn_token node = msg_tok m" "\<forall>n \<in> set pre. sn_token n \<noteq> msg_tok m" "sn_resp node = Some cb"
    and "msg_built m opts" "length (msg_wire m) < COAP_MSG_MAX_PDU_LEN"
    and "msg_data m = [] \<longrightarrow> opts = [] \<or> snd (last opts) \<noteq> []"
    and "Cloud_CoAPRespMsg (msg_header m)"
    and "udp_recv (ctx_udp c) (udp_tick (ctx_udp c)) COAP_MSG_MAX_PDU_LEN t = (int (length (msg_wire m)), msg_wire m)"
  shows "\<exists>c' m'. Cloud_CoAPMessage_recv c t 1 = Some (int (length (msg_wire m)), c') \<and>
     ctx_calls c' = ctx_calls c @ [(cb, sn_user node, m')] \<and> ctx_sendlist c' = pre @ suf \<and>
     udp_sent (ctx_udp c') = udp_sent (ctx_udp c) @
       (if ucast (hd_type (msg_header m)) = COAP_MESSAGE_TYPE_CON \<and>
           udp_accept (ctx_udp c) (udp_tick (ctx_udp c) + 1) (ack_wire (hd_msgid (msg_header m))) \<noteq> -1
        then [ack_wire (hd_msgid (msg_header m))] else []) \<and>
     msg_header m' = msg_header m \<and> msg_tok m' = msg_tok m \<and> msg_opts m' = opts \<and> msg_data m' = msg_data m"
  using recv_response [OF coap.reachable_inv [OF assms(1)] assms(2-11)] unfolding response_acks_def .

theorem coap_response_witness:
  "\<exists>c' m' u. Cloud_CoAPMessage_recv (sample_waiting (msg_wire sample_confirmable)) 0 1 = Some (16, c') \<and>
     ctx_calls c' = ctx_calls (sample_waiting (msg_wire sample_confirmable)) @ [(1, u, m')] \<and> ctx_sendlist c' = [] \<and>
     msg_opts m' = [(11, [0x61, 0x62]), (12, [50])] \<and>
     udp_sent (ctx_udp c') = udp_sent (ctx_udp (sample_waiting (msg_wire sample_confirmable))) @ [[0x60, 0, 0x12, 0x34]]"
proof -
  let ?c = "sample_waiting (msg_wire sample_confirmable)"
  obtain node where node: "ctx_sendlist ?c = [] @ node # []" "sn_token node = [1, 2, 3, 4]" "sn_resp node = Some 1" "node_ok node"
    using sample_waiting_sent(3) [of "msg_wire sample_confirmable"] by auto
  then have "sn_tokenlen node \<noteq> 0" by (auto simp: node_ok_def)
  then show ?thesis
    using coap_response [OF sample_waiting_sent(1) node(1), of sample_confirmable 1, OF _ _ _ node(3) sample_confirmable_built, of 0] node(2) sample_confirmable_wire
    by (auto simp: sample_waiting_sent(2) sample_udp_def COAP_MSG_MAX_PDU_LEN_def ack_wire_def)
qed



text \<open>
  The message ids that \<open>Cloud_CoAPMessageId_gen\<close> gives count up from the random start; at 65535
  the counter is stuck, and every further message gets the id 1.
\<close>

lemma coap_ids:
  "gen_ids n c = map (\<lambda>i. if unat (ctx_message_id c) + i < 65535 then ctx_message_id c + of_nat i else 1) [0..<n]"
  by (rule gen_ids_eq)

text \<open>
  Addresses are read back as they were written: for every scheme (\<open>coap\<close>, \<open>coaps\<close>,
  \<open>coap-psk\<close>), every host of 1 to 127 characters without a colon and every port in decimal,
  \<open>Cloud_CoAPUri_parse\<close> gives this endpoint type, host and port.
\<close>

lemma coap_uri_roundtrip:
  assumes "host \<noteq> []" "0x3A \<notin> set host" "length host < 128"
  shows "Cloud_CoAPUri_parse (Some (uri_prefix ep @ host @ 0x3A # dec_digits (unat port))) = Some (COAP_SUCCESS, Some (ep, host, port))"
  by (rule uri_parse_host_port [OF assms])

end
