(* ===== verification/DM_Ipc.thy ===== *)
theory DM_Ipc
  imports C_Strings Infra_Timer
begin

text \<open>
  The message queue of the device model, \<open>src/src/dev_model/dm_ipc.c\<close>, and the functions of
  \<open>dm_message.c\<close> that put a message for the user into it. The queue promises its clients a bounded
  FIFO: the locale \<open>bounded_fifo\<close>.
\<close>

subsection \<open>The interface of a bounded queue\<close>

datatype 'm queue_op = Put 'm | Get

text \<open>A run of the queue: the messages it accepted and the messages it handed out, in order.\<close>

fun run_ops :: "('m \<Rightarrow> 'q \<Rightarrow> int \<times> 'q) \<Rightarrow> ('q \<Rightarrow> int \<times> 'm option \<times> 'q) \<Rightarrow> 'm queue_op list \<Rightarrow> 'q \<Rightarrow> 'm list \<times> 'm list \<times> 'q" where
  "run_ops p g [] q = ([], [], q)"
| "run_ops p g (Put x # ops) q =
     (case p x q of (rc, q) \<Rightarrow> case run_ops p g ops q of (ins, outs, q) \<Rightarrow> ((if rc = 0 then x # ins else ins), outs, q))"
| "run_ops p g (Get # ops) q =
     (case g q of (rc, out, q) \<Rightarrow> case run_ops p g ops q of (ins, outs, q) \<Rightarrow> (ins, (if rc = 0 then the out # outs else outs), q))"

locale bounded_fifo =
  fixes put_op :: "'m \<Rightarrow> 'q \<Rightarrow> int \<times> 'q"
    and get_op :: "'q \<Rightarrow> int \<times> 'm option \<times> 'q"
    and items :: "'q \<Rightarrow> 'm list"
    and capacity :: "'q \<Rightarrow> nat"
    and ok :: "'q \<Rightarrow> bool"
  assumes put_ok: "ok q \<Longrightarrow> put_op x q = (rc, q') \<Longrightarrow> ok q' \<and> capacity q' = capacity q"
    and put_done: "ok q \<Longrightarrow> put_op x q = (0, q') \<Longrightarrow> items q' = items q @ [x] \<and> length (items q) < capacity q"
    and put_refused: "ok q \<Longrightarrow> put_op x q = (rc, q') \<Longrightarrow> rc \<noteq> 0 \<Longrightarrow> items q' = items q"
    and get_ok: "ok q \<Longrightarrow> get_op q = (rc, out, q') \<Longrightarrow> ok q' \<and> capacity q' = capacity q"
    and get_done: "ok q \<Longrightarrow> get_op q = (0, out, q') \<Longrightarrow> \<exists>x. out = Some x \<and> items q = x # items q'"
    and get_refused: "ok q \<Longrightarrow> get_op q = (rc, out, q') \<Longrightarrow> rc \<noteq> 0 \<Longrightarrow> out = None \<and> items q = [] \<and> items q' = []"
begin

lemma step_keeps:
  assumes "ok q" "run_ops put_op get_op (x # ops) q = (ins, outs, q')"
  obtains q1 ins0 outs0 ins1 outs1 where "ok q1" "capacity q1 = capacity q" "run_ops put_op get_op ops q1 = (ins1, outs1, q')"
    "ins = ins0 @ ins1" "outs = outs0 @ outs1" "outs0 @ items q1 = items q @ ins0"
    "length (items q) \<le> capacity q \<Longrightarrow> length (items q1) \<le> capacity q"
proof (cases x)
  case (Put m)
  obtain rc q1 where p: "put_op m q = (rc, q1)" by fastforce
  obtain ins1 where r: "run_ops put_op get_op ops q1 = (ins1, outs, q')" "ins = (if rc = 0 then [m] else []) @ ins1"
    using assms(2) p Put by (auto split: prod.splits if_splits)
  show thesis
    by (rule that [of q1 ins1 outs "if rc = 0 then [m] else []" "[]"])
       (use put_ok [OF assms(1) p] put_done [OF assms(1), of m] put_refused [OF assms(1) p] p r in \<open>auto split: if_splits\<close>)
next
  case Get
  obtain rc out q1 where p: "get_op q = (rc, out, q1)" by (metis prod_cases3)
  obtain outs1 where r: "run_ops put_op get_op ops q1 = (ins, outs1, q')" "outs = (if rc = 0 then [the out] else []) @ outs1"
    using assms(2) p Get by (auto split: prod.splits if_splits)
  show thesis
    by (rule that [of q1 ins outs1 "[]" "if rc = 0 then [the out] else []"])
       (use get_ok [OF assms(1) p] get_done [OF assms(1)] get_refused [OF assms(1) p] p r in \<open>fastforce split: if_splits\<close>)+
qed

lemma run_conserves:
  "ok q \<Longrightarrow> run_ops put_op get_op ops q = (ins, outs, q') \<Longrightarrow>
     ok q' \<and> capacity q' = capacity q \<and> outs @ items q' = items q @ ins \<and> (length (items q) \<le> capacity q \<longrightarrow> length (items q') \<le> capacity q)"
proof (induction ops arbitrary: q ins outs)
  case (Cons x ops)
  show ?case
  proof (rule step_keeps [OF Cons.prems])
    fix q1 ins0 outs0 ins1 outs1
    assume s: "ok q1" "capacity q1 = capacity q" "run_ops put_op get_op ops q1 = (ins1, outs1, q')"
      "ins = ins0 @ ins1" "outs = outs0 @ outs1" "outs0 @ items q1 = items q @ ins0"
      "length (items q) \<le> capacity q \<Longrightarrow> length (items q1) \<le> capacity q"
    have "outs @ items q' = outs0 @ items q1 @ ins1" using Cons.IH [OF s(1,3)] s(5) by simp
    also have "\<dots> = items q @ ins" using s(4,6) by (metis append_assoc)
    finally show ?thesis using Cons.IH [OF s(1,3)] s(2,7) by auto
  qed
qed simp

end

subsection \<open>The queue\<close>

definition DM_INVALID_PARAMETER :: int where "DM_INVALID_PARAMETER = -2"
definition DM_MEMORY_NOT_ENOUGH :: int where "DM_MEMORY_NOT_ENOUGH = -3"
definition CONFIG_DISPATCH_QUEUE_MAXLEN :: int where "CONFIG_DISPATCH_QUEUE_MAXLEN = 50"

lemmas dm_error_defs = DM_INVALID_PARAMETER_def DM_MEMORY_NOT_ENOUGH_def return_code_defs

text \<open>The type of an event is its number in \<open>iotx_dm_event_types_t\<close>.\<close>

record dm_ipc_msg_t =
  ipc_type :: nat
  ipc_data :: "cstr option"

record dm_ipc_t =
  ipc_mutex :: bool
  ipc_max_size :: int
  ipc_size :: int
  ipc_message_list :: "dm_ipc_msg_t list"

definition sizeof_dm_ipc_msg_node_t :: nat where "sizeof_dm_ipc_msg_node_t = 24"
definition sizeof_dm_ipc_msg_t :: nat where "sizeof_dm_ipc_msg_t = 16"

text \<open>\<open>mutex\<close>: whether \<open>HAL_MutexCreate\<close> gave a mutex. The fields are cleared in any case.\<close>

definition dm_ipc_init :: "int \<Rightarrow> bool \<Rightarrow> int \<times> dm_ipc_t" where
  "dm_ipc_init max_size mutex =
     (if \<not> mutex then (DM_INVALID_PARAMETER, \<lparr>ipc_mutex = False, ipc_max_size = 0, ipc_size = 0, ipc_message_list = []\<rparr>)
      else (SUCCESS_RETURN, \<lparr>ipc_mutex = True, ipc_max_size = max_size, ipc_size = 0, ipc_message_list = []\<rparr>))"

text \<open>Only the list is taken down; \<open>size\<close> stays as it is until the next \<open>dm_ipc_init\<close>.\<close>

definition dm_ipc_deinit :: "dm_ipc_t \<Rightarrow> dm_ipc_t" where
  "dm_ipc_deinit ctx = ctx\<lparr>ipc_message_list := []\<rparr>"

definition dm_ipc_msg_insert :: "dm_ipc_msg_t option \<Rightarrow> dm_ipc_t \<Rightarrow> hal \<Rightarrow> int \<times> dm_ipc_t \<times> hal" where
  "dm_ipc_msg_insert data ctx h =
     (case data of
        None \<Rightarrow> (DM_INVALID_PARAMETER, ctx, h)
      | Some msg \<Rightarrow>
          if ipc_size ctx \<ge> ipc_max_size ctx then (FAIL_RETURN, ctx, h)
          else case HAL_Malloc sizeof_dm_ipc_msg_node_t h of
              (None, h) \<Rightarrow> (DM_MEMORY_NOT_ENOUGH, ctx, h)
            | (Some _, h) \<Rightarrow>
                (SUCCESS_RETURN, ctx\<lparr>ipc_size := ipc_size ctx + 1, ipc_message_list := ipc_message_list ctx @ [msg]\<rparr>, h))"

text \<open>\<open>data\<close> is the pointer \<open>void **data\<close> and what it points to.\<close>

definition dm_ipc_msg_next :: "dm_ipc_msg_t option option \<Rightarrow> dm_ipc_t \<Rightarrow> int \<times> dm_ipc_msg_t option option \<times> dm_ipc_t" where
  "dm_ipc_msg_next data ctx =
     (if data \<noteq> Some None then (DM_INVALID_PARAMETER, data, ctx)
      else case ipc_message_list ctx of
          [] \<Rightarrow> (FAIL_RETURN, data, ctx)
        | msg # rest \<Rightarrow> (SUCCESS_RETURN, Some (Some msg), ctx\<lparr>ipc_size := ipc_size ctx - 1, ipc_message_list := rest\<rparr>))"

subsection \<open>Messages for the user\<close>

definition IOTX_DM_ERR_CODE_TIMEOUT :: int where "IOTX_DM_ERR_CODE_TIMEOUT = 100000"

text \<open>\<open>{"id":%d,"code":%d,"devid":%d}\<close>\<close>

definition DM_MSG_SEND_MSG_TIMEOUT_FMT :: "int \<Rightarrow> int \<Rightarrow> int \<Rightarrow> cstr" where
  "DM_MSG_SEND_MSG_TIMEOUT_FMT a b c =
     [0x7B, 0x22, 0x69, 0x64, 0x22, 0x3A] @ print_int a @ [0x2C, 0x22, 0x63, 0x6F, 0x64, 0x65, 0x22, 0x3A] @ print_int b @
     [0x2C, 0x22, 0x64, 0x65, 0x76, 0x69, 0x64, 0x22, 0x3A] @ print_int c @ [0x7D]"

definition DM_UTILS_UINT32_STRLEN :: nat where "DM_UTILS_UINT32_STRLEN = 10"

definition timeout_message_len :: nat where
  "timeout_message_len = 30 + DM_UTILS_UINT32_STRLEN * 3 + 1"

definition dm_msg_send_to_user :: "nat \<Rightarrow> cstr \<Rightarrow> dm_ipc_t \<Rightarrow> hal \<Rightarrow> int \<times> dm_ipc_t \<times> hal" where
  "dm_msg_send_to_user t message ctx h =
     (case HAL_Malloc sizeof_dm_ipc_msg_t h of
        (None, h) \<Rightarrow> (DM_MEMORY_NOT_ENOUGH, ctx, h)
      | (Some _, h) \<Rightarrow>
          case dm_ipc_msg_insert (Some \<lparr>ipc_type = t, ipc_data = Some message\<rparr>) ctx h of
            (res, ctx, h) \<Rightarrow> (if res \<noteq> SUCCESS_RETURN then FAIL_RETURN else SUCCESS_RETURN, ctx, h))"

definition dm_msg_send_msg_timeout_to_user :: "int \<Rightarrow> int \<Rightarrow> nat \<Rightarrow> dm_ipc_t \<Rightarrow> hal \<Rightarrow> int \<times> dm_ipc_t \<times> hal" where
  "dm_msg_send_msg_timeout_to_user msg_id devid t ctx h =
     (case HAL_Malloc (timeout_message_len + 1) h of
        (None, h) \<Rightarrow> (DM_MEMORY_NOT_ENOUGH, ctx, h)
      | (Some _, h) \<Rightarrow>
          let message = take (timeout_message_len - 1) (DM_MSG_SEND_MSG_TIMEOUT_FMT msg_id IOTX_DM_ERR_CODE_TIMEOUT devid) in
          case dm_msg_send_to_user t message ctx h of
            (res, ctx, h) \<Rightarrow> (if res \<noteq> SUCCESS_RETURN then FAIL_RETURN else SUCCESS_RETURN, ctx, h))"

subsection \<open>The queue is a bounded FIFO\<close>

definition ipc_inv :: "dm_ipc_t \<Rightarrow> bool" where
  "ipc_inv ctx \<longleftrightarrow> ipc_size ctx = int (length (ipc_message_list ctx))"

text \<open>The calls as operations on the queue and the platform.\<close>

definition ipc_put :: "dm_ipc_msg_t \<Rightarrow> dm_ipc_t \<times> hal \<Rightarrow> int \<times> dm_ipc_t \<times> hal" where
  "ipc_put msg q = (case q of (ctx, h) \<Rightarrow> dm_ipc_msg_insert (Some msg) ctx h)"

definition ipc_get :: "dm_ipc_t \<times> hal \<Rightarrow> int \<times> dm_ipc_msg_t option \<times> dm_ipc_t \<times> hal" where
  "ipc_get q = (case q of (ctx, h) \<Rightarrow> case dm_ipc_msg_next (Some None) ctx of (rc, data, ctx) \<Rightarrow> (rc, Option.bind data (\<lambda>x. x), ctx, h))"

interpretation ipc: bounded_fifo ipc_put ipc_get "\<lambda>(ctx, h). ipc_message_list ctx" "\<lambda>(ctx, h). nat (ipc_max_size ctx)" "\<lambda>(ctx, h). ipc_inv ctx"
  by unfold_locales
    (auto simp: ipc_put_def ipc_get_def dm_ipc_msg_insert_def dm_ipc_msg_next_def ipc_inv_def dm_error_defs
       split: prod.splits option.splits if_splits list.splits)

subsection \<open>Properties\<close>

text \<open>
  C33: The message queue refines a bounded FIFO. Over every sequence of \<open>dm_ipc_msg_insert\<close> and
  \<open>dm_ipc_msg_next\<close>, whatever the allocator does, what was handed out followed by what is still
  queued is what was queued before followed by what was accepted: no accepted message is lost,
  duplicated or overtaken. The queue never exceeds its limit.
\<close>

theorem dm_ipc_fifo:
  assumes "ipc_inv ctx" "run_ops ipc_put ipc_get ops (ctx, h) = (ins, outs, ctx', h')"
  shows "ipc_inv ctx' \<and> outs @ ipc_message_list ctx' = ipc_message_list ctx @ ins \<and>
     (length (ipc_message_list ctx) \<le> nat (ipc_max_size ctx) \<longrightarrow> length (ipc_message_list ctx') \<le> nat (ipc_max_size ctx))"
  using ipc.run_conserves [of "(ctx, h)" ops ins outs "(ctx', h')"] assms by simp

theorem dm_ipc_fifo_witness:
  "let m = (\<lambda>t. \<lparr>ipc_type = t, ipc_data = None\<rparr>);
       r = run_ops ipc_put ipc_get [Put (m 1), Put (m 2), Put (m 3), Get, Put (m 4), Get] (snd (dm_ipc_init 2 True), hal_at (\<lambda>_. 0))
   in fst r = [m 1, m 2, m 4] \<and> fst (snd r) @ ipc_message_list (fst (snd (snd r))) = fst r"
proof -
  define m where "m = (\<lambda>t. \<lparr>ipc_type = t, ipc_data = None\<rparr>)"
  obtain ins outs ctx' h' where
    r: "run_ops ipc_put ipc_get [Put (m 1), Put (m 2), Put (m 3), Get, Put (m 4), Get] (snd (dm_ipc_init 2 True), hal_at (\<lambda>_. 0)) = (ins, outs, ctx', h')"
    by (metis prod_cases4)
  have "ipc_inv (snd (dm_ipc_init 2 True))" by (simp add: ipc_inv_def dm_ipc_init_def)
  from dm_ipc_fifo [OF this r] have "outs @ ipc_message_list ctx' = ins" by (simp add: dm_ipc_init_def)
  moreover have "fst (run_ops ipc_put ipc_get [Put (m 1), Put (m 2), Put (m 3), Get, Put (m 4), Get] (snd (dm_ipc_init 2 True), hal_at (\<lambda>_. 0))) =
      [m 1, m 2, m 4]"
    unfolding m_def by code_simp
  ultimately show ?thesis unfolding m_def [symmetric] Let_def r by simp
qed

end
