(* ===== verification/DM_Cache.thy ===== *)
theory DM_Cache
  imports DM_Ipc
begin

text \<open>
  The cache of requests that wait for their answer, \<open>src/src/dev_model/dm_message_cache.c\<close>. Its
  clients rely on it as a store of nodes by message id (locale \<open>keyed_store\<close>); requests that get no
  answer in ten seconds are reported through the queue of \<open>DM_Ipc\<close>.
\<close>

subsection \<open>The interface of a store\<close>

datatype ('k, 'v) store_op = Add 'k 'v | Del 'k

fun op_key :: "('k, 'v) store_op \<Rightarrow> 'k" where
  "op_key (Add k v) = k"
| "op_key (Del k) = k"

fun run_op :: "('k \<Rightarrow> 'v \<Rightarrow> 's \<Rightarrow> 's) \<Rightarrow> ('k \<Rightarrow> 's \<Rightarrow> 's) \<Rightarrow> ('k, 'v) store_op \<Rightarrow> 's \<Rightarrow> 's" where
  "run_op add del (Add k v) s = add k v s"
| "run_op add del (Del k) s = del k s"

text \<open>A run in which every key that is added is new.\<close>

fun fresh_run :: "('k \<Rightarrow> 'v \<Rightarrow> 's \<Rightarrow> 's) \<Rightarrow> ('k \<Rightarrow> 's \<Rightarrow> 's) \<Rightarrow> ('s \<Rightarrow> 'k \<Rightarrow> 'v option) \<Rightarrow> ('k, 'v) store_op list \<Rightarrow> 's \<Rightarrow> bool" where
  "fresh_run add del lookup [] s = True"
| "fresh_run add del lookup (Add k v # ops) s = (lookup s k = None \<and> fresh_run add del lookup ops (add k v s))"
| "fresh_run add del lookup (Del k # ops) s = fresh_run add del lookup ops (del k s)"

locale keyed_store =
  fixes add :: "'k \<Rightarrow> 'v \<Rightarrow> 's \<Rightarrow> 's"
    and del :: "'k \<Rightarrow> 's \<Rightarrow> 's"
    and lookup :: "'s \<Rightarrow> 'k \<Rightarrow> 'v option"
    and ok :: "'s \<Rightarrow> bool"
  assumes add_ok: "ok s \<Longrightarrow> lookup s k = None \<Longrightarrow> ok (add k v s)"
    and add_lookup: "ok s \<Longrightarrow> lookup s k = None \<Longrightarrow> lookup (add k v s) \<in> {(lookup s)(k \<mapsto> v), lookup s}"
    and del_ok: "ok s \<Longrightarrow> ok (del k s)"
    and del_lookup: "ok s \<Longrightarrow> lookup (del k s) = (lookup s)(k := None)"
begin

text \<open>An entry that is not removed stays, whatever happens to entries with other keys.\<close>

lemma entry_stays:
  assumes "ok s" "lookup s k = Some v" "fresh_run add del lookup ops s" "k \<notin> op_key ` set ops"
  shows "lookup (fold (run_op add del) ops s) k = Some v"
  using assms
proof (induction ops arbitrary: s)
  case (Cons x ops)
  show ?case
  proof (cases x)
    case (Add k' v')
    then have "lookup s k' = None" "k' \<noteq> k" using Cons.prems(3,4) by auto
    with Add Cons show ?thesis using add_ok [OF Cons.prems(1), of k' v'] add_lookup [OF Cons.prems(1), of k' v'] by auto
  next
    case (Del k')
    with Cons show ?thesis using del_ok [OF Cons.prems(1), of k'] del_lookup [OF Cons.prems(1), of k'] by auto
  qed
qed simp

end

subsection \<open>The cache\<close>

definition CONFIG_MSGCACHE_QUEUE_MAXLEN :: int where "CONFIG_MSGCACHE_QUEUE_MAXLEN = 50"
definition DM_MSG_CACHE_TIMEOUT_MS_DEFAULT :: u64 where "DM_MSG_CACHE_TIMEOUT_MS_DEFAULT = 10000"

record dm_msg_cache_node_t =
  cn_msgid :: int
  cn_devid :: int
  cn_response_type :: nat
  cn_data :: "cstr option"
  cn_ctime :: u64

record dm_msg_cache_ctx_t =
  dmc_mutex :: bool
  dmc_list_size :: int
  dmc_list :: "dm_msg_cache_node_t list"

definition sizeof_dm_msg_cache_node_t :: nat where "sizeof_dm_msg_cache_node_t = 48"

text \<open>Without a mutex the function returns before the head of the list is set up: there is no context to go on with.\<close>

definition dm_msg_cache_init :: "bool \<Rightarrow> int \<times> dm_msg_cache_ctx_t option" where
  "dm_msg_cache_init mutex =
     (if \<not> mutex then (DM_MEMORY_NOT_ENOUGH, None)
      else (SUCCESS_RETURN, Some \<lparr>dmc_mutex = True, dmc_list_size = 0, dmc_list = []\<rparr>))"

text \<open>The nodes are freed; \<open>dmc_list_size\<close> is not reset.\<close>

definition dm_msg_cache_deinit :: "dm_msg_cache_ctx_t \<Rightarrow> int \<times> dm_msg_cache_ctx_t" where
  "dm_msg_cache_deinit ctx = (SUCCESS_RETURN, ctx\<lparr>dmc_list := []\<rparr>)"

definition dm_msg_cache_insert ::
  "int \<Rightarrow> int \<Rightarrow> nat \<Rightarrow> cstr option \<Rightarrow> dm_msg_cache_ctx_t \<Rightarrow> hal \<Rightarrow> int \<times> dm_msg_cache_ctx_t \<times> hal" where
  "dm_msg_cache_insert msgid devid t data ctx h =
     (if dmc_list_size ctx \<ge> CONFIG_MSGCACHE_QUEUE_MAXLEN then (FAIL_RETURN, ctx, h)
      else case HAL_Malloc sizeof_dm_msg_cache_node_t h of
          (None, h) \<Rightarrow> (DM_MEMORY_NOT_ENOUGH, ctx, h)
        | (Some _, h) \<Rightarrow>
            let (now, h) = HAL_UptimeMs h;
                node = \<lparr>cn_msgid = msgid, cn_devid = devid, cn_response_type = t, cn_data = data, cn_ctime = now\<rparr>
            in (SUCCESS_RETURN, ctx\<lparr>dmc_list := dmc_list ctx @ [node], dmc_list_size := dmc_list_size ctx + 1\<rparr>, h))"

text \<open>\<open>node\<close> is the out parameter: the pointer and what it points to.\<close>

definition dm_msg_cache_search :: "int \<Rightarrow> dm_msg_cache_node_t option option \<Rightarrow> dm_msg_cache_ctx_t \<Rightarrow> int \<times> dm_msg_cache_node_t option option" where
  "dm_msg_cache_search msgid node ctx =
     (if msgid \<le> 0 \<or> node \<noteq> Some None then (DM_INVALID_PARAMETER, node)
      else case find (\<lambda>n. cn_msgid n = msgid) (dmc_list ctx) of
          None \<Rightarrow> (FAIL_RETURN, node)
        | Some n \<Rightarrow> (SUCCESS_RETURN, Some (Some n)))"

fun remove_node :: "int \<Rightarrow> dm_msg_cache_node_t list \<Rightarrow> dm_msg_cache_node_t list option" where
  "remove_node msgid [] = None"
| "remove_node msgid (node # rest) = (if cn_msgid node = msgid then Some rest else map_option ((#) node) (remove_node msgid rest))"

definition dm_msg_cache_remove :: "int \<Rightarrow> dm_msg_cache_ctx_t \<Rightarrow> int \<times> dm_msg_cache_ctx_t" where
  "dm_msg_cache_remove msgid ctx =
     (case remove_node msgid (dmc_list ctx) of
        None \<Rightarrow> (FAIL_RETURN, ctx)
      | Some nodes \<Rightarrow> (SUCCESS_RETURN, ctx\<lparr>dmc_list := nodes, dmc_list_size := dmc_list_size ctx - 1\<rparr>))"

text \<open>The loop of \<open>dm_msg_cache_tick\<close>: the nodes that stay, the counter, and the queue to the user.\<close>

fun tick_loop :: "u64 \<Rightarrow> dm_msg_cache_node_t list \<Rightarrow> int \<Rightarrow> dm_ipc_t \<Rightarrow> hal \<Rightarrow> dm_msg_cache_node_t list \<times> int \<times> dm_ipc_t \<times> hal" where
  "tick_loop now [] n ipc h = ([], n, ipc, h)"
| "tick_loop now (node # rest) n ipc h =
     (let node = (if now < cn_ctime node then node\<lparr>cn_ctime := now\<rparr> else node) in
      if now - cn_ctime node \<ge> DM_MSG_CACHE_TIMEOUT_MS_DEFAULT
      then (case dm_msg_send_msg_timeout_to_user (cn_msgid node) (cn_devid node) (cn_response_type node) ipc h of
              (_, ipc, h) \<Rightarrow> tick_loop now rest (n - 1) ipc h)
      else (case tick_loop now rest n ipc h of (rest, n, ipc, h) \<Rightarrow> (node # rest, n, ipc, h)))"

definition dm_msg_cache_tick :: "dm_msg_cache_ctx_t \<Rightarrow> dm_ipc_t \<Rightarrow> hal \<Rightarrow> dm_msg_cache_ctx_t \<times> dm_ipc_t \<times> hal" where
  "dm_msg_cache_tick ctx ipc h =
     (let (now, h) = HAL_UptimeMs h in
      case tick_loop now (dmc_list ctx) (dmc_list_size ctx) ipc h of
        (nodes, n, ipc, h) \<Rightarrow> (ctx\<lparr>dmc_list := nodes, dmc_list_size := n\<rparr>, ipc, h))"

subsection \<open>The cache is a store of nodes by id\<close>

definition cache_lookup :: "dm_msg_cache_ctx_t \<Rightarrow> int \<Rightarrow> (int \<times> nat \<times> cstr option) option" where
  "cache_lookup ctx msgid = map_option (\<lambda>n. (cn_devid n, cn_response_type n, cn_data n)) (find (\<lambda>n. cn_msgid n = msgid) (dmc_list ctx))"

definition cache_inv :: "dm_msg_cache_ctx_t \<Rightarrow> bool" where
  "cache_inv ctx \<longleftrightarrow> dmc_list_size ctx = int (length (dmc_list ctx)) \<and> dmc_list_size ctx \<le> CONFIG_MSGCACHE_QUEUE_MAXLEN"

definition cache_ok :: "dm_msg_cache_ctx_t \<Rightarrow> bool" where
  "cache_ok ctx \<longleftrightarrow> cache_inv ctx \<and> distinct (map cn_msgid (dmc_list ctx))"

definition cache_add :: "int \<Rightarrow> int \<times> nat \<times> cstr option \<Rightarrow> dm_msg_cache_ctx_t \<times> hal \<Rightarrow> dm_msg_cache_ctx_t \<times> hal" where
  "cache_add msgid v s = (case (v, s) of ((devid, t, data), ctx, h) \<Rightarrow> snd (dm_msg_cache_insert msgid devid t data ctx h))"

definition cache_del :: "int \<Rightarrow> dm_msg_cache_ctx_t \<times> hal \<Rightarrow> dm_msg_cache_ctx_t \<times> hal" where
  "cache_del msgid s = (case s of (ctx, h) \<Rightarrow> (snd (dm_msg_cache_remove msgid ctx), h))"

lemma find_None_ids: "find (\<lambda>n. cn_msgid n = i) ns = None \<longleftrightarrow> i \<notin> cn_msgid ` set ns"
  by (auto simp: find_None_iff)

lemma find_append: "find P (xs @ ys) = (case find P xs of None \<Rightarrow> find P ys | Some x \<Rightarrow> Some x)"
  by (induction xs) auto

lemma remove_node_Some: "remove_node i ns = Some rest \<Longrightarrow> \<exists>pre node suf. ns = pre @ node # suf \<and> rest = pre @ suf \<and> cn_msgid node = i \<and> i \<notin> cn_msgid ` set pre"
proof (induction ns arbitrary: rest)
  case (Cons n ns)
  show ?case
  proof (cases "cn_msgid n = i")
    case True
    with Cons.prems show ?thesis by (metis append_Nil empty_iff image_empty list.set(1) option.inject remove_node.simps(2))
  next
    case False
    with Cons.prems obtain rest' where "remove_node i ns = Some rest'" "rest = n # rest'" by auto
    with Cons.IH obtain pre node suf where "n # ns = (n # pre) @ node # suf" "rest = (n # pre) @ suf" "cn_msgid node = i" "i \<notin> cn_msgid ` set (n # pre)"
      using False by fastforce
    then show ?thesis by blast
  qed
qed simp

lemma remove_node_None: "remove_node i ns = None \<longleftrightarrow> i \<notin> cn_msgid ` set ns"
  by (induction ns) auto

lemma insert_cases:
  assumes "dm_msg_cache_insert msgid devid t data ctx h = (rc, ctx', h')"
  shows "rc \<noteq> SUCCESS_RETURN \<and> ctx' = ctx \<or>
     rc = SUCCESS_RETURN \<and> dmc_list_size ctx < CONFIG_MSGCACHE_QUEUE_MAXLEN \<and>
     (\<exists>now. ctx' = ctx\<lparr>dmc_list := dmc_list ctx @ [\<lparr>cn_msgid = msgid, cn_devid = devid, cn_response_type = t, cn_data = data, cn_ctime = now\<rparr>],
        dmc_list_size := dmc_list_size ctx + 1\<rparr>)"
  using assms by (auto simp: dm_msg_cache_insert_def dm_error_defs Let_def split: if_splits prod.splits option.splits)

lemma insert_inv: "cache_inv ctx \<Longrightarrow> dm_msg_cache_insert i d t x ctx h = (rc, ctx', h') \<Longrightarrow> cache_inv ctx'"
  by (drule insert_cases) (auto simp: cache_inv_def)

lemma remove_inv: "cache_inv ctx \<Longrightarrow> cache_inv (snd (dm_msg_cache_remove i ctx))"
  by (auto simp: dm_msg_cache_remove_def cache_inv_def split: option.split dest!: remove_node_Some)

lemma tick_loop_size:
  "tick_loop now ns n ipc h = (ns', n', ipc', h') \<Longrightarrow> n' + int (length ns) = n + int (length ns') \<and> length ns' \<le> length ns"
  by (induction now ns n ipc h arbitrary: ns' n' ipc' h' rule: tick_loop.induct)
     (fastforce simp: Let_def split: prod.splits if_splits)+

lemma tick_inv: "cache_inv ctx \<Longrightarrow> dm_msg_cache_tick ctx ipc h = (ctx', ipc', h') \<Longrightarrow> cache_inv ctx'"
  by (auto simp: dm_msg_cache_tick_def cache_inv_def Let_def split: prod.splits dest!: tick_loop_size)

interpretation cache: keyed_store cache_add cache_del "\<lambda>(ctx, h). cache_lookup ctx" "\<lambda>(ctx, h). cache_ok ctx"
proof unfold_locales
  fix s :: "dm_msg_cache_ctx_t \<times> hal" and k :: int and v :: "int \<times> nat \<times> cstr option"
  obtain ctx h where s: "s = (ctx, h)" by (cases s)
  obtain devid t data where v: "v = (devid, t, data)" by (cases v)
  obtain rc ctx' h' where i: "dm_msg_cache_insert k devid t data ctx h = (rc, ctx', h')" by (metis prod_cases3)
  assume ok: "case s of (ctx, h) \<Rightarrow> cache_ok ctx" and new: "(case s of (ctx, h) \<Rightarrow> cache_lookup ctx) k = None"
  have fresh: "find (\<lambda>n. cn_msgid n = k) (dmc_list ctx) = None" using new s by (simp add: cache_lookup_def)
  show "case cache_add k v s of (ctx, h) \<Rightarrow> cache_ok ctx"
    using ok fresh insert_cases [OF i] insert_inv [OF _ i] by (auto simp: s v cache_add_def i cache_ok_def find_None_ids)
  have "cache_lookup ctx' \<in> {(cache_lookup ctx)(k \<mapsto> v), cache_lookup ctx}"
    using insert_cases [OF i] fresh by (auto simp: v cache_lookup_def find_append fun_eq_iff split: option.splits)
  then show "(case cache_add k v s of (ctx, h) \<Rightarrow> cache_lookup ctx) \<in> {(case s of (ctx, h) \<Rightarrow> cache_lookup ctx)(k \<mapsto> v), case s of (ctx, h) \<Rightarrow> cache_lookup ctx}"
    by (simp add: s v cache_add_def i)
next
  fix s :: "dm_msg_cache_ctx_t \<times> hal" and k :: int
  obtain ctx h where s: "s = (ctx, h)" by (cases s)
  assume ok: "case s of (ctx, h) \<Rightarrow> cache_ok ctx"
  show "case cache_del k s of (ctx, h) \<Rightarrow> cache_ok ctx"
    using ok remove_inv [of ctx k]
    by (auto simp: s cache_del_def cache_ok_def dm_msg_cache_remove_def split: option.split dest!: remove_node_Some)
  show "(case cache_del k s of (ctx, h) \<Rightarrow> cache_lookup ctx) = (case s of (ctx, h) \<Rightarrow> cache_lookup ctx)(k := None)"
  proof (cases "remove_node k (dmc_list ctx)")
    case None
    then have "cache_lookup ctx k = None" by (simp add: remove_node_None find_None_ids cache_lookup_def)
    then have "(cache_lookup ctx)(k := None) = cache_lookup ctx" by (simp add: fun_upd_idem)
    with None show ?thesis by (simp add: s cache_del_def dm_msg_cache_remove_def)
  next
    case (Some rest)
    obtain pre node suf where l: "dmc_list ctx = pre @ node # suf" "rest = pre @ suf" "cn_msgid node = k" "k \<notin> cn_msgid ` set pre"
      using remove_node_Some [OF Some] by blast
    then have "k \<notin> cn_msgid ` set (pre @ suf)" using ok by (auto simp: s cache_ok_def)
    then have none: "find (\<lambda>n. cn_msgid n = k) (pre @ suf) = None" using find_None_ids by blast
    have "find (\<lambda>n. cn_msgid n = i) (pre @ suf) = find (\<lambda>n. cn_msgid n = i) (dmc_list ctx)" if "i \<noteq> k" for i
      using that l(1,3) by (simp add: find_append split: option.split)
    with none have "cache_lookup (ctx\<lparr>dmc_list := pre @ suf, dmc_list_size := dmc_list_size ctx - 1\<rparr>) i = ((cache_lookup ctx)(k := None)) i" for i
      by (simp add: cache_lookup_def)
    with Some l(2) show ?thesis by (auto simp: s cache_del_def dm_msg_cache_remove_def)
  qed
qed

subsection \<open>Timeouts\<close>

definition node_expired :: "u64 \<Rightarrow> dm_msg_cache_node_t \<Rightarrow> bool" where
  "node_expired now node \<longleftrightarrow> cn_ctime node \<le> now \<and> now - cn_ctime node \<ge> DM_MSG_CACHE_TIMEOUT_MS_DEFAULT"

text \<open>A node whose time stamp lies in the future gets the present time.\<close>

definition node_adjust :: "u64 \<Rightarrow> dm_msg_cache_node_t \<Rightarrow> dm_msg_cache_node_t" where
  "node_adjust now node = (if now < cn_ctime node then node\<lparr>cn_ctime := now\<rparr> else node)"

definition timeout_message :: "dm_msg_cache_node_t \<Rightarrow> dm_ipc_msg_t" where
  "timeout_message node =
     \<lparr>ipc_type = cn_response_type node, ipc_data = Some (DM_MSG_SEND_MSG_TIMEOUT_FMT (cn_msgid node) IOTX_DM_ERR_CODE_TIMEOUT (cn_devid node))\<rparr>"

definition int32 :: "int \<Rightarrow> bool" where
  "int32 n \<longleftrightarrow> - 2147483648 \<le> n \<and> n \<le> 2147483647"

lemma length_print_int: "int32 n \<Longrightarrow> length (print_int n) \<le> 11"
proof -
  assume "int32 n"
  then have "nat n < 10 ^ 10" "nat (- n) < 10 ^ 10" by (auto simp: int32_def)
  then show ?thesis using length_dec_digits [of "nat n" 10] length_dec_digits [of "nat (- n)" 10] by (simp add: print_int_def)
qed

lemma timeout_text_fits:
  assumes "int32 a" "int32 c"
  shows "take (timeout_message_len - 1) (DM_MSG_SEND_MSG_TIMEOUT_FMT a IOTX_DM_ERR_CODE_TIMEOUT c) = DM_MSG_SEND_MSG_TIMEOUT_FMT a IOTX_DM_ERR_CODE_TIMEOUT c"
proof (rule take_all)
  have "length (dec_digits 100000) \<le> 6" using length_dec_digits [of 100000 6] by simp
  then show "length (DM_MSG_SEND_MSG_TIMEOUT_FMT a IOTX_DM_ERR_CODE_TIMEOUT c) \<le> timeout_message_len - 1"
    using length_print_int [OF assms(1)] length_print_int [OF assms(2)]
    by (simp add: DM_MSG_SEND_MSG_TIMEOUT_FMT_def timeout_message_len_def DM_UTILS_UINT32_STRLEN_def IOTX_DM_ERR_CODE_TIMEOUT_def print_int_def)
qed

lemma send_timeout:
  assumes "\<And>k n. malloc_ok h k n" "ipc_inv ipc" "length (ipc_message_list ipc) < nat (ipc_max_size ipc)"
    and "int32 (cn_msgid node)" "int32 (cn_devid node)"
  shows "\<exists>h'. dm_msg_send_msg_timeout_to_user (cn_msgid node) (cn_devid node) (cn_response_type node) ipc h =
     (SUCCESS_RETURN, ipc\<lparr>ipc_size := ipc_size ipc + 1, ipc_message_list := ipc_message_list ipc @ [timeout_message node]\<rparr>, h') \<and>
     (\<forall>k n. malloc_ok h' k n)"
proof -
  have room: "\<not> ipc_max_size ipc \<le> int (length (ipc_message_list ipc))" using assms(3) by linarith
  have "malloc_ok h = (\<lambda>_ _. True)" by (intro ext) (simp add: assms(1))
  then show ?thesis
    using assms(2) timeout_text_fits [OF assms(4,5)] room
    by (simp add: dm_msg_send_msg_timeout_to_user_def dm_msg_send_to_user_def dm_ipc_msg_insert_def HAL_Malloc_def next_tick_def Let_def
      timeout_message_def ipc_inv_def dm_error_defs)
qed

lemma node_adjust_expired: "now - cn_ctime (node_adjust now node) \<ge> DM_MSG_CACHE_TIMEOUT_MS_DEFAULT \<longleftrightarrow> node_expired now node"
  by (auto simp: node_adjust_def node_expired_def DM_MSG_CACHE_TIMEOUT_MS_DEFAULT_def not_less)

lemma tick_loop_nodes: "fst (tick_loop now ns n ipc h) = map (node_adjust now) (filter (\<lambda>node. \<not> node_expired now node) ns)"
proof (induction ns arbitrary: n ipc h)
  case (Cons node ns)
  then show ?case
    using node_adjust_expired [of now node] by (simp add: Let_def node_adjust_def [symmetric] split: prod.splits) (metis fst_conv)
qed simp

lemma tick_loop_reports:
  assumes "\<And>k n. malloc_ok h k n" "ipc_inv ipc" "\<forall>node \<in> set ns. int32 (cn_msgid node) \<and> int32 (cn_devid node)"
    and "length (ipc_message_list ipc) + length (filter (node_expired now) ns) \<le> nat (ipc_max_size ipc)"
  shows "\<exists>ns' n' ipc' h'. tick_loop now ns n ipc h = (ns', n', ipc', h') \<and> ipc_inv ipc' \<and>
     ipc_message_list ipc' = ipc_message_list ipc @ map timeout_message (filter (node_expired now) ns)"
  using assms
proof (induction ns arbitrary: n ipc h)
  case (Cons node ns)
  show ?case
  proof (cases "node_expired now node")
    case True
    let ?ipc = "ipc\<lparr>ipc_size := ipc_size ipc + 1, ipc_message_list := ipc_message_list ipc @ [timeout_message node]\<rparr>"
    have adj: "node_adjust now node = node" using True by (auto simp: node_expired_def node_adjust_def not_less)
    obtain h' where s: "dm_msg_send_msg_timeout_to_user (cn_msgid node) (cn_devid node) (cn_response_type node) ipc h = (SUCCESS_RETURN, ?ipc, h')"
      "\<And>k n. malloc_ok h' k n"
      using send_timeout [OF Cons.prems(1,2), of node] Cons.prems(3,4) True by auto
    have "ipc_inv ?ipc" using Cons.prems(2) by (simp add: ipc_inv_def)
    from Cons.IH [OF s(2) this, of "n - 1"] Cons.prems(3,4) True show ?thesis
      using node_adjust_expired [of now node] s(1) by (auto simp: Let_def adj node_adjust_def [symmetric])
  next
    case False
    have "\<not> now - cn_ctime (node_adjust now node) \<ge> DM_MSG_CACHE_TIMEOUT_MS_DEFAULT" using False node_adjust_expired by blast
    with Cons.IH [OF Cons.prems(1,2), of n] Cons.prems(3,4) False show ?thesis
      by (auto simp: Let_def node_adjust_def [symmetric] split: prod.splits)
  qed
qed simp

subsection \<open>Reachable caches\<close>

definition cache_init :: "dm_msg_cache_ctx_t \<Rightarrow> bool" where
  "cache_init ctx \<longleftrightarrow> (\<exists>mutex rc. dm_msg_cache_init mutex = (rc, Some ctx))"

inductive cache_step :: "dm_msg_cache_ctx_t \<Rightarrow> dm_msg_cache_ctx_t \<Rightarrow> bool" where
  cache_insert: "dm_msg_cache_insert msgid devid t data ctx h = (rc, ctx', h') \<Longrightarrow> cache_step ctx ctx'"
| cache_remove: "dm_msg_cache_remove msgid ctx = (rc, ctx') \<Longrightarrow> cache_step ctx ctx'"
| cache_tick: "dm_msg_cache_tick ctx ipc h = (ctx', ipc', h') \<Longrightarrow> cache_step ctx ctx'"

interpretation cache_states: invariant_system cache_init cache_step cache_inv
proof unfold_locales
  show "cache_init ctx \<Longrightarrow> cache_inv ctx" for ctx
    by (auto simp: cache_init_def dm_msg_cache_init_def cache_inv_def CONFIG_MSGCACHE_QUEUE_MAXLEN_def split: if_splits)
  show "cache_inv ctx \<Longrightarrow> cache_step ctx ctx' \<Longrightarrow> cache_inv ctx'" for ctx ctx'
    by (erule cache_step.cases) (auto intro: insert_inv tick_inv, metis remove_inv snd_conv)
qed

subsection \<open>Properties\<close>

definition sample_cache :: dm_msg_cache_ctx_t where
  "sample_cache = fst (snd (dm_msg_cache_insert 7 0 3 None (the (snd (dm_msg_cache_init True))) (hal_at (\<lambda>_. 0))))"

text \<open>
  In every state that inserting, removing and ticking can reach, the counter of the cache of
  waiting requests is the length of its list and at most 50.
\<close>

lemma dm_cache_reachable: "reachable cache_init cache_step ctx \<Longrightarrow> cache_inv ctx"
  by (rule cache_states.reachable_inv)

text \<open>
  A waiting request is found until it is answered: while \<open>dm_msg_cache_insert\<close> is called with new
  message ids only and \<open>dm_msg_cache_remove\<close> with other ids, \<open>dm_msg_cache_search\<close> finds the request,
  with the device, the type and the data it was inserted with.
\<close>

lemma dm_cache_finds:
  assumes "cache_ok ctx" "0 < k" "cache_lookup ctx k = Some v"
    and "fresh_run cache_add cache_del (\<lambda>(ctx, h). cache_lookup ctx) ops (ctx, h)" "k \<notin> op_key ` set ops"
  shows "\<exists>node. dm_msg_cache_search k (Some None) (fst (fold (run_op cache_add cache_del) ops (ctx, h))) = (SUCCESS_RETURN, Some (Some node)) \<and> cn_msgid node = k \<and>
     (cn_devid node, cn_response_type node, cn_data node) = v"
proof -
  let ?ctx = "fst (fold (run_op cache_add cache_del) ops (ctx, h))"
  have "(case fold (run_op cache_add cache_del) ops (ctx, h) of (ctx, h) \<Rightarrow> cache_lookup ctx) k = Some v"
    by (rule cache.entry_stays) (use assms in simp_all)
  then have "cache_lookup ?ctx k = Some v" by (simp split: prod.splits)
  then obtain node where node: "find (\<lambda>n. cn_msgid n = k) (dmc_list ?ctx) = Some node" "(cn_devid node, cn_response_type node, cn_data node) = v"
    by (auto simp: cache_lookup_def)
  moreover have "cn_msgid node = k" using node(1) by (auto simp: find_Some_iff)
  ultimately show ?thesis using assms(2) by (simp add: dm_msg_cache_search_def)
qed

text \<open>
  C34: A tick takes exactly the requests out of the cache that wait for ten seconds or longer and
  keeps the others in order (a time stamp from the future becomes the present); when the queue to
  the user has room for them and memory is available, it appends one timeout message for each of
  the expired requests, in their order, with the id, the error code 100000 and the device.
\<close>

theorem dm_cache_times_out:
  assumes "\<And>k n. malloc_ok h k n" "ipc_inv ipc" "\<forall>node \<in> set (dmc_list ctx). int32 (cn_msgid node) \<and> int32 (cn_devid node)"
    and "length (ipc_message_list ipc) + length (filter (node_expired (clock h (tick h))) (dmc_list ctx)) \<le> nat (ipc_max_size ipc)"
  shows "\<exists>ctx' ipc' h'. dm_msg_cache_tick ctx ipc h = (ctx', ipc', h') \<and>
     dmc_list ctx' = map (node_adjust (clock h (tick h))) (filter (\<lambda>node. \<not> node_expired (clock h (tick h)) node) (dmc_list ctx)) \<and>
     ipc_message_list ipc' = ipc_message_list ipc @ map timeout_message (filter (node_expired (clock h (tick h))) (dmc_list ctx))"
proof -
  let ?now = "clock h (tick h)"
  have "\<And>k n. malloc_ok (next_tick h) k n" using assms(1) by (simp add: next_tick_def)
  from tick_loop_reports [OF this assms(2-4)] obtain ns' n' ipc' h' where
    "tick_loop ?now (dmc_list ctx) (dmc_list_size ctx) ipc (next_tick h) = (ns', n', ipc', h')"
    "ipc_message_list ipc' = ipc_message_list ipc @ map timeout_message (filter (node_expired ?now) (dmc_list ctx))"
    by blast
  moreover from this have "ns' = map (node_adjust ?now) (filter (\<lambda>node. \<not> node_expired ?now node) (dmc_list ctx))"
    using tick_loop_nodes [of ?now "dmc_list ctx" "dmc_list_size ctx" ipc "next_tick h"] by simp
  ultimately show ?thesis by (simp add: dm_msg_cache_tick_def HAL_UptimeMs_def)
qed

theorem dm_cache_times_out_witness:
  "\<exists>ctx' ipc' h'. dm_msg_cache_tick sample_cache (snd (dm_ipc_init 50 True)) (hal_at (\<lambda>_. 12000)) = (ctx', ipc', h') \<and>
     dmc_list ctx' = [] \<and> ipc_message_list ipc' = map timeout_message (dmc_list sample_cache) \<and> dmc_list sample_cache \<noteq> []"
proof -
  have nodes: "dmc_list sample_cache = [\<lparr>cn_msgid = 7, cn_devid = 0, cn_response_type = 3, cn_data = None, cn_ctime = 0\<rparr>]"
    by (simp add: sample_cache_def dm_msg_cache_insert_def dm_msg_cache_init_def HAL_Malloc_def HAL_UptimeMs_def hal_at_def next_tick_def
        CONFIG_MSGCACHE_QUEUE_MAXLEN_def)
  show ?thesis
    using dm_cache_times_out [of "hal_at (\<lambda>_. 12000)" "snd (dm_ipc_init 50 True)" sample_cache]
    by (simp add: nodes hal_at_def ipc_inv_def dm_ipc_init_def int32_def node_expired_def DM_MSG_CACHE_TIMEOUT_MS_DEFAULT_def)
qed

end
