(* ===== verification/Infra_SHA1.thy ===== *)
theory Infra_SHA1
  imports Infra_Digest
begin

text \<open>
  SHA-1 and its HMAC, \<open>src/src/infra/infra_sha1.c\<close>, against FIPS 180-4. The code keeps the last sixteen
  words of the message schedule in a ring and renames the registers instead of moving them.
\<close>

subsection \<open>The code\<close>

definition utils_sha1_init :: digest_ctx where
  "utils_sha1_init = \<lparr>dg_total0 = 0, dg_total1 = 0, dg_state = replicate 5 0, dg_buffer = replicate 64 0\<rparr>"

definition utils_sha1_free :: "digest_ctx \<Rightarrow> digest_ctx" where
  "utils_sha1_free ctx = utils_sha1_init"

definition utils_sha1_clone :: "digest_ctx \<Rightarrow> digest_ctx \<Rightarrow> digest_ctx" where
  "utils_sha1_clone dst src = src"

definition sha1_iv :: "u32 list" where
  "sha1_iv = [0x67452301, 0xEFCDAB89, 0x98BADCFE, 0x10325476, 0xC3D2E1F0]"

definition utils_sha1_starts :: "digest_ctx \<Rightarrow> digest_ctx" where
  "utils_sha1_starts ctx = ctx\<lparr>dg_total0 := 0, dg_total1 := 0, dg_state := sha1_iv\<rparr>"

text \<open>The macro \<open>R(t)\<close>: the new word and the ring with it.\<close>

definition sha1_R :: "nat \<Rightarrow> u32 list \<Rightarrow> u32 \<times> u32 list" where
  "sha1_R t W =
     (let temp = W ! ((t - 3) AND 0x0F) XOR W ! ((t - 8) AND 0x0F) XOR W ! ((t - 14) AND 0x0F) XOR W ! (t AND 0x0F);
          w = ROTL temp 1
      in (w, W[t AND 0x0F := w]))"

text \<open>The four definitions of the macros \<open>F\<close> and \<open>K\<close>.\<close>

definition sha1_F :: "nat \<Rightarrow> u32 \<Rightarrow> u32 \<Rightarrow> u32 \<Rightarrow> u32" where
  "sha1_F t x y z =
     (if t < 20 then z XOR (x AND (y XOR z))
      else if t < 40 then x XOR y XOR z
      else if t < 60 then (x AND y) OR (z AND (x OR y))
      else x XOR y XOR z)"

definition sha1_K :: "nat \<Rightarrow> u32" where
  "sha1_K t = (if t < 20 then 0x5A827999 else if t < 40 then 0x6ED9EBA1 else if t < 60 then 0x8F1BBCDC else 0xCA62C1D6)"

type_synonym sha1_regs = "u32 \<times> u32 \<times> u32 \<times> u32 \<times> u32"

text \<open>
  Line \<open>t\<close> of the eighty calls of \<open>P\<close>. The registers are listed in the order in which the call
  names them; the next call names the last one first.
\<close>

definition sha1_P :: "nat \<Rightarrow> u32 list \<times> sha1_regs \<Rightarrow> u32 list \<times> sha1_regs" where
  "sha1_P t = (\<lambda>(W, a, b, c, d, e).
     let (x, W) = (if t < 16 then (W ! t, W) else sha1_R t W);
         e = e + (ROTL a 5 + sha1_F t b c d + sha1_K t + x);
         b = ROTL b 30
     in (W, e, a, b, c, d))"

definition utils_sha1_process :: "'a digest_ctx_scheme \<Rightarrow> byte list \<Rightarrow> 'a digest_ctx_scheme option" where
  "utils_sha1_process ctx data =
     (case dg_state ctx of
        [s0, s1, s2, s3, s4] \<Rightarrow>
          if length data < 64 then None
          else let W = map (\<lambda>i. GET_UINT32_BE data (4 * i)) [0..<16] in
            (case fold sha1_P [0..<80] (W, s0, s1, s2, s3, s4) of
               (W, a, b, c, d, e) \<Rightarrow> Some (ctx\<lparr>dg_state := [s0 + a, s1 + b, s2 + c, s3 + d, s4 + e]\<rparr>))
      | _ \<Rightarrow> None)"

definition utils_sha1_update :: "digest_ctx \<Rightarrow> byte list \<Rightarrow> u32 \<Rightarrow> digest_ctx option" where
  "utils_sha1_update = digest_update utils_sha1_process"

definition utils_sha1_finish :: "digest_ctx \<Rightarrow> (byte list \<times> digest_ctx) option" where
  "utils_sha1_finish ctx = do {
     ctx \<leftarrow> digest_finish utils_sha1_process (\<lambda>high low. PUT_UINT32_BE high @ PUT_UINT32_BE low) ctx;
     Some (concat (map PUT_UINT32_BE (dg_state ctx)), ctx)
   }"

definition utils_sha1 :: "byte list \<Rightarrow> u32 \<Rightarrow> byte list option" where
  "utils_sha1 input ilen = do {
     ctx \<leftarrow> utils_sha1_update (utils_sha1_starts utils_sha1_init) input ilen;
     (output, _) \<leftarrow> utils_sha1_finish ctx;
     Some output
   }"

definition SHA1_KEY_IOPAD_SIZE :: int where "SHA1_KEY_IOPAD_SIZE = 64"
definition SHA1_DIGEST_SIZE :: u32 where "SHA1_DIGEST_SIZE = 20"

text \<open>
  The result is the caller's buffer \<open>digest\<close> after the call. A negative \<open>key_len\<close> makes \<open>memcpy\<close>
  run outside of every buffer.
\<close>

definition utils_hmac_sha1 :: "byte list option \<Rightarrow> int \<Rightarrow> byte list option \<Rightarrow> byte list option \<Rightarrow> int \<Rightarrow> byte list option option" where
  "utils_hmac_sha1 msg msg_len digest key key_len =
     (case (msg, digest, key) of
        (Some m, Some d, Some k) \<Rightarrow>
          if key_len > SHA1_KEY_IOPAD_SIZE then Some digest
          else if key_len < 0 then None
          else do {
            out \<leftarrow> digest_hmac (utils_sha1_starts utils_sha1_init) utils_sha1_update utils_sha1_finish SHA1_DIGEST_SIZE m (word_of_int msg_len) k (nat key_len);
            d \<leftarrow> store_bytes d 0 (digest_hex out);
            Some (Some d)
          }
      | _ \<Rightarrow> Some digest)"

definition utils_hmac_sha1_hex :: "byte list option \<Rightarrow> int \<Rightarrow> byte list option \<Rightarrow> byte list option \<Rightarrow> int \<Rightarrow> byte list option option" where
  "utils_hmac_sha1_hex msg msg_len digest key key_len =
     (case (msg, digest, key) of
        (Some m, Some d, Some k) \<Rightarrow>
          if key_len > SHA1_KEY_IOPAD_SIZE then Some digest
          else if key_len < 0 then None
          else do {
            out \<leftarrow> digest_hmac (utils_sha1_starts utils_sha1_init) utils_sha1_update utils_sha1_finish SHA1_DIGEST_SIZE m (word_of_int msg_len) k (nat key_len);
            d \<leftarrow> store_bytes d 0 out;
            Some (Some d)
          }
      | _ \<Rightarrow> Some digest)"

subsection \<open>FIPS 180-4\<close>

fun sha1_W :: "byte list \<Rightarrow> nat \<Rightarrow> u32" where
  "sha1_W data t =
     (if t < 16 then GET_UINT32_BE data (4 * t)
      else word_rotl 1 (sha1_W data (t - 3) XOR sha1_W data (t - 8) XOR sha1_W data (t - 14) XOR sha1_W data (t - 16)))"

declare sha1_W.simps [simp del]

definition sha1_f :: "nat \<Rightarrow> u32 \<Rightarrow> u32 \<Rightarrow> u32 \<Rightarrow> u32" where
  "sha1_f t x y z =
     (if t < 20 then (x AND y) XOR (NOT x AND z)
      else if 40 \<le> t \<and> t < 60 then (x AND y) XOR (x AND z) XOR (y AND z)
      else x XOR y XOR z)"

definition fips_step :: "byte list \<Rightarrow> nat \<Rightarrow> sha1_regs \<Rightarrow> sha1_regs" where
  "fips_step data t = (\<lambda>(a, b, c, d, e).
     (word_rotl 5 a + sha1_f t b c d + e + sha1_K t + sha1_W data t, a, word_rotl 30 b, c, d))"

definition sha1_compress :: "u32 list \<Rightarrow> byte list \<Rightarrow> u32 list" where
  "sha1_compress st data =
     (case fold (fips_step data) [0..<80] (st ! 0, st ! 1, st ! 2, st ! 3, st ! 4) of
        (a, b, c, d, e) \<Rightarrow> map2 (+) st [a, b, c, d, e])"

definition sha1 :: "byte list \<Rightarrow> byte list" where
  "sha1 msg = concat (map PUT_UINT32_BE (md_state sha1_compress sha1_iv (\<lambda>high low. PUT_UINT32_BE high @ PUT_UINT32_BE low) msg))"

subsection \<open>One block\<close>

text \<open>The ring holds the sixteen words before \<open>n\<close>, or the first sixteen at the beginning.\<close>

definition ring_ok :: "byte list \<Rightarrow> nat \<Rightarrow> u32 list \<Rightarrow> bool" where
  "ring_ok data n W \<longleftrightarrow> length W = 16 \<and> (\<forall>s. s < max n 16 \<and> max n 16 \<le> s + 16 \<longrightarrow> W ! (s mod 16) = sha1_W data s)"

lemma and_0F: "(t :: nat) AND 0x0F = t mod 16"
proof -
  have "t AND 0x0F = take_bit 4 t" by (simp add: take_bit_eq_mask mask_eq_exp_minus_1)
  then show ?thesis by (simp add: take_bit_eq_mod)
qed

lemma sha1_F_eq: "sha1_F t x y z = sha1_f t x y z"
proof -
  have "z XOR (x AND (y XOR z)) = (x AND y) XOR (NOT x AND z)" "(x AND y) OR (z AND (x OR y)) = (x AND y) XOR (x AND z) XOR (y AND z)"
    by (rule bit_word_eqI; auto simp: bit_simps)+
  then show ?thesis by (simp add: sha1_F_def sha1_f_def)
qed

lemma ring_next:
  assumes "ring_ok data n W" "16 \<le> n"
  shows "sha1_R n W = (sha1_W data n, W[n mod 16 := sha1_W data n]) \<and> ring_ok data (Suc n) (W[n mod 16 := sha1_W data n])"
proof -
  have W: "W ! (s mod 16) = sha1_W data s" if "s < n" "n \<le> s + 16" for s using assms that by (simp add: ring_ok_def)
  have "W ! ((n - 3) mod 16) = sha1_W data (n - 3)" "W ! ((n - 8) mod 16) = sha1_W data (n - 8)" "W ! ((n - 14) mod 16) = sha1_W data (n - 14)"
    using assms(2) by (simp_all add: W)
  moreover have "W ! (n mod 16) = sha1_W data (n - 16)" using W [of "n - 16"] assms(2) by (simp add: le_mod_geq)
  ultimately have "sha1_R n W = (sha1_W data n, W[n mod 16 := sha1_W data n])"
    using assms(2) by (simp add: sha1_R_def and_0F ROTL_eq sha1_W.simps [of data n] Let_def)
  moreover have other: "n mod 16 \<noteq> s mod 16" if "s < n" "n \<le> 15 + s" for s
  proof
    assume "n mod 16 = s mod 16"
    then have "16 dvd n - s" using that mod_eq_dvd_iff_nat [of s n 16] by simp
    with that show False by (auto dest: dvd_imp_le)
  qed
  have "ring_ok data (Suc n) (W[n mod 16 := sha1_W data n])"
    using assms W by (auto simp: ring_ok_def nth_list_update max_def less_Suc_eq dest: other)
  ultimately show ?thesis by blast
qed

lemma sha1_rounds:
  "\<exists>W'. fold sha1_P [0..<n] (map (\<lambda>i. GET_UINT32_BE data (4 * i)) [0..<16], regs) = (W', fold (fips_step data) [0..<n] regs) \<and> ring_ok data n W'"
proof (induction n)
  case 0
  show ?case by (auto simp: ring_ok_def sha1_W.simps [of data])
next
  case (Suc n)
  then obtain W' where IH: "fold sha1_P [0..<n] (map (\<lambda>i. GET_UINT32_BE data (4 * i)) [0..<16], regs) = (W', fold (fips_step data) [0..<n] regs)"
    "ring_ok data n W'" by blast
  obtain a b c d e where r: "fold (fips_step data) [0..<n] regs = (a, b, c, d, e)" by (metis prod_cases5)
  have step: "\<exists>W''. sha1_P n (W', a, b, c, d, e) = (W'', fips_step data n (a, b, c, d, e)) \<and> ring_ok data (Suc n) W''"
  proof (cases "n < 16")
    case True
    then have "W' ! n = sha1_W data n" using IH(2) by (auto simp: ring_ok_def max_def)
    moreover have "ring_ok data (Suc n) W'" using IH(2) True by (simp add: ring_ok_def max_def split: if_splits)
    ultimately show ?thesis
      using True by (simp add: sha1_P_def fips_step_def sha1_F_eq ROTL_eq add_ac)
  next
    case False
    with ring_next [OF IH(2)] show ?thesis
      by (simp add: sha1_P_def fips_step_def sha1_F_eq ROTL_eq add_ac)
  qed
  then show ?case using IH(1) r by simp
qed

interpretation sha1_digest: block_digest utils_sha1_process sha1_compress 5
proof unfold_locales
  fix c :: "'a digest_ctx_scheme" and data :: "byte list"
  assume a: "length (dg_state c) = 5" "length data = 64"
  then obtain s0 s1 s2 s3 s4 where st: "dg_state c = [s0, s1, s2, s3, s4]"
    by (auto simp: length_Suc_conv numeral_eq_Suc)
  obtain W' where "fold sha1_P [0..<80] (map (\<lambda>i. GET_UINT32_BE data (4 * i)) [0..<16], s0, s1, s2, s3, s4) =
      (W', fold (fips_step data) [0..<80] (s0, s1, s2, s3, s4))"
    using sha1_rounds [of 80 data "(s0, s1, s2, s3, s4)"] by blast
  with a st show "utils_sha1_process c data = Some (c\<lparr>dg_state := sha1_compress (dg_state c) data\<rparr>)"
    by (simp add: utils_sha1_process_def sha1_compress_def Let_def del: upt_rec_numeral split: prod.split)
next
  fix st :: "u32 list" and data :: "byte list"
  assume "length st = 5"
  then show "length (sha1_compress st data) = 5" by (simp add: sha1_compress_def split: prod.split)
qed

interpretation sha1_alg: digest_algorithm "utils_sha1_starts utils_sha1_init" utils_sha1_update utils_sha1_finish
  "absorbed sha1_compress sha1_iv" sha1 SHA1_DIGEST_SIZE
proof unfold_locales
  have iv: "length sha1_iv = 5" by (simp add: sha1_iv_def)
  show "absorbed sha1_compress sha1_iv [] (utils_sha1_starts utils_sha1_init)"
    by (simp add: absorbed_def utils_sha1_starts_def utils_sha1_init_def)
  show "\<exists>c'. utils_sha1_update c input ilen = Some c' \<and> absorbed sha1_compress sha1_iv (msg @ take (unat ilen) input) c'"
    if "absorbed sha1_compress sha1_iv msg c" "unat ilen \<le> length input" for msg c ilen input
    using sha1_digest.update_absorbs [OF that(1) iv that(2)] by (auto simp: utils_sha1_update_def)
  show "\<exists>c'. utils_sha1_finish c = Some (sha1 msg, c')" if "absorbed sha1_compress sha1_iv msg c" for msg c
    using sha1_digest.finish_state [OF that iv, of "\<lambda>high low. PUT_UINT32_BE high @ PUT_UINT32_BE low"]
    by (auto simp: utils_sha1_finish_def sha1_def)
  show "length (sha1 msg) = unat SHA1_DIGEST_SIZE" for msg
    unfolding sha1_def length_concat_BE md_state_def SHA1_DIGEST_SIZE_def
    using sha1_digest.length_fold [OF iv] in_blocks by simp
qed

subsection \<open>Properties\<close>

text \<open>
  SHA-1 as FIPS 180-4 defines it: however a message is split over calls of \<open>utils_sha1_update\<close>,
  \<open>utils_sha1_finish\<close> gives the hash of the whole message. In particular the ring of sixteen words and
  the renamed registers of \<open>utils_sha1_process\<close> compute the eighty steps of the standard with its
  schedule of eighty words.
\<close>

lemma sha1_correct:
  assumes "\<forall>x \<in> set xs. length x < 4294967296"
  shows "\<exists>c c'. digest_updates utils_sha1_update (utils_sha1_starts utils_sha1_init) xs = Some c \<and>
     utils_sha1_finish c = Some (sha1 (concat xs), c')"
  by (rule sha1_alg.stream [OF assms])

text \<open>
  \<open>utils_hmac_sha1\<close> writes the 40 hexadecimal digits of the HMAC of RFC 2104 over SHA-1 for keys of
  up to 64 bytes, and nothing for a longer key.
\<close>

lemma hmac_sha1_correct:
  assumes "0 \<le> msg_len" "msg_len < 4294967296" "nat msg_len \<le> length msg" "0 \<le> key_len" "nat key_len \<le> length key" "40 \<le> length digest"
  shows "utils_hmac_sha1 (Some msg) msg_len (Some digest) (Some key) key_len =
     Some (Some (if key_len \<le> 64 then blit digest 0 (digest_hex (hmac sha1 (take (nat key_len) key) (take (nat msg_len) msg))) else digest))"
proof (cases "key_len \<le> 64")
  case True
  have m: "unat (word_of_int msg_len :: u32) = nat msg_len"
    using assms(1,2) by (simp add: unsigned_of_int take_bit_int_eq_self)
  have h: "length (hmac sha1 k x) = 20" for k x
    using sha1_alg.length_H by (simp add: hmac_def Let_def SHA1_DIGEST_SIZE_def)
  have "digest_hmac (utils_sha1_starts utils_sha1_init) utils_sha1_update utils_sha1_finish SHA1_DIGEST_SIZE msg (word_of_int msg_len) key (nat key_len) =
      Some (hmac sha1 (take (nat key_len) key) (take (nat msg_len) msg))"
    using sha1_alg.hmac_correct [of "word_of_int msg_len" msg "nat key_len" key] assms True by (simp add: m)
  then show ?thesis
    using True assms by (simp add: utils_hmac_sha1_def SHA1_KEY_IOPAD_SIZE_def store_bytes_def length_digest_hex h)
qed (simp add: utils_hmac_sha1_def SHA1_KEY_IOPAD_SIZE_def)

end
