(* ===== verification/Infra_MD5.thy ===== *)
theory Infra_MD5
  imports Infra_Digest
begin

text \<open>
  MD5 and its HMAC, \<open>src/src/infra/infra_md5.c\<close>, against RFC 1321. The sixty-four calls of the macro
  \<open>P\<close> are a table of their word indices, rotations and constants.
\<close>

subsection \<open>The code\<close>

definition utils_md5_init :: digest_ctx where
  "utils_md5_init = \<lparr>dg_total0 = 0, dg_total1 = 0, dg_state = replicate 4 0, dg_buffer = replicate 64 0\<rparr>"

definition utils_md5_free :: "digest_ctx \<Rightarrow> digest_ctx" where
  "utils_md5_free ctx = utils_md5_init"

definition utils_md5_clone :: "digest_ctx \<Rightarrow> digest_ctx \<Rightarrow> digest_ctx" where
  "utils_md5_clone dst src = src"

definition md5_iv :: "u32 list" where
  "md5_iv = [0x67452301, 0xEFCDAB89, 0x98BADCFE, 0x10325476]"

definition utils_md5_starts :: "digest_ctx \<Rightarrow> digest_ctx" where
  "utils_md5_starts ctx = ctx\<lparr>dg_total0 := 0, dg_total1 := 0, dg_state := md5_iv\<rparr>"

text \<open>The arguments \<open>k\<close>, \<open>s\<close> and \<open>t\<close> of the calls of \<open>P\<close>, in their order.\<close>

definition md5_table :: "(nat \<times> nat \<times> u32) list" where
  "md5_table = [
    (0, 7, 0xD76AA478), (1, 12, 0xE8C7B756), (2, 17, 0x242070DB), (3, 22, 0xC1BDCEEE),
    (4, 7, 0xF57C0FAF), (5, 12, 0x4787C62A), (6, 17, 0xA8304613), (7, 22, 0xFD469501),
    (8, 7, 0x698098D8), (9, 12, 0x8B44F7AF), (10, 17, 0xFFFF5BB1), (11, 22, 0x895CD7BE),
    (12, 7, 0x6B901122), (13, 12, 0xFD987193), (14, 17, 0xA679438E), (15, 22, 0x49B40821),
    (1, 5, 0xF61E2562), (6, 9, 0xC040B340), (11, 14, 0x265E5A51), (0, 20, 0xE9B6C7AA),
    (5, 5, 0xD62F105D), (10, 9, 0x02441453), (15, 14, 0xD8A1E681), (4, 20, 0xE7D3FBC8),
    (9, 5, 0x21E1CDE6), (14, 9, 0xC33707D6), (3, 14, 0xF4D50D87), (8, 20, 0x455A14ED),
    (13, 5, 0xA9E3E905), (2, 9, 0xFCEFA3F8), (7, 14, 0x676F02D9), (12, 20, 0x8D2A4C8A),
    (5, 4, 0xFFFA3942), (8, 11, 0x8771F681), (11, 16, 0x6D9D6122), (14, 23, 0xFDE5380C),
    (1, 4, 0xA4BEEA44), (4, 11, 0x4BDECFA9), (7, 16, 0xF6BB4B60), (10, 23, 0xBEBFBC70),
    (13, 4, 0x289B7EC6), (0, 11, 0xEAA127FA), (3, 16, 0xD4EF3085), (6, 23, 0x04881D05),
    (9, 4, 0xD9D4D039), (12, 11, 0xE6DB99E5), (15, 16, 0x1FA27CF8), (2, 23, 0xC4AC5665),
    (0, 6, 0xF4292244), (7, 10, 0x432AFF97), (14, 15, 0xAB9423A7), (5, 21, 0xFC93A039),
    (12, 6, 0x655B59C3), (3, 10, 0x8F0CCC92), (10, 15, 0xFFEFF47D), (1, 21, 0x85845DD1),
    (8, 6, 0x6FA87E4F), (15, 10, 0xFE2CE6E0), (6, 15, 0xA3014314), (13, 21, 0x4E0811A1),
    (4, 6, 0xF7537E82), (11, 10, 0xBD3AF235), (2, 15, 0x2AD7D2BB), (9, 21, 0xEB86D391)]"

text \<open>The four definitions of the macro \<open>F\<close>.\<close>

definition md5_F :: "nat \<Rightarrow> u32 \<Rightarrow> u32 \<Rightarrow> u32 \<Rightarrow> u32" where
  "md5_F i x y z =
     (if i < 16 then z XOR (x AND (y XOR z))
      else if i < 32 then y XOR (z AND (x XOR y))
      else if i < 48 then x XOR y XOR z
      else y XOR (x OR NOT z))"

type_synonym md5_regs = "u32 \<times> u32 \<times> u32 \<times> u32"

text \<open>Call \<open>i\<close> of \<open>P\<close>; the registers in the order in which it names them.\<close>

definition md5_P :: "u32 list \<Rightarrow> nat \<Rightarrow> md5_regs \<Rightarrow> md5_regs" where
  "md5_P X i = (\<lambda>(a, b, c, d).
     case md5_table ! i of (k, s, t) \<Rightarrow>
       let a = a + (md5_F i b c d + X ! k + t);
           a = ROTL a s + b
       in (d, a, b, c))"

definition utils_md5_process :: "'a digest_ctx_scheme \<Rightarrow> byte list \<Rightarrow> 'a digest_ctx_scheme option" where
  "utils_md5_process ctx data =
     (case dg_state ctx of
        [s0, s1, s2, s3] \<Rightarrow>
          if length data < 64 then None
          else let X = map (\<lambda>i. GET_UINT32_LE data (4 * i)) [0..<16] in
            (case fold (md5_P X) [0..<64] (s0, s1, s2, s3) of
               (a, b, c, d) \<Rightarrow> Some (ctx\<lparr>dg_state := [s0 + a, s1 + b, s2 + c, s3 + d]\<rparr>))
      | _ \<Rightarrow> None)"

definition utils_md5_update :: "digest_ctx \<Rightarrow> byte list \<Rightarrow> u32 \<Rightarrow> digest_ctx option" where
  "utils_md5_update = digest_update utils_md5_process"

definition utils_md5_finish :: "digest_ctx \<Rightarrow> (byte list \<times> digest_ctx) option" where
  "utils_md5_finish ctx = do {
     ctx \<leftarrow> digest_finish utils_md5_process (\<lambda>high low. PUT_UINT32_LE low @ PUT_UINT32_LE high) ctx;
     Some (concat (map PUT_UINT32_LE (dg_state ctx)), ctx)
   }"

definition utils_md5 :: "byte list \<Rightarrow> u32 \<Rightarrow> byte list option" where
  "utils_md5 input ilen = do {
     ctx \<leftarrow> utils_md5_update (utils_md5_starts utils_md5_init) input ilen;
     (output, _) \<leftarrow> utils_md5_finish ctx;
     Some output
   }"

definition MD5_KEY_IOPAD_SIZE :: int where "MD5_KEY_IOPAD_SIZE = 64"
definition MD5_DIGEST_SIZE :: u32 where "MD5_DIGEST_SIZE = 16"

definition utils_hmac_md5 :: "byte list option \<Rightarrow> int \<Rightarrow> byte list option \<Rightarrow> byte list option \<Rightarrow> int \<Rightarrow> byte list option option" where
  "utils_hmac_md5 msg msg_len digest key key_len =
     (case (msg, digest, key) of
        (Some m, Some d, Some k) \<Rightarrow>
          if key_len > MD5_KEY_IOPAD_SIZE then Some digest
          else if key_len < 0 then None
          else do {
            out \<leftarrow> digest_hmac (utils_md5_starts utils_md5_init) utils_md5_update utils_md5_finish MD5_DIGEST_SIZE m (word_of_int msg_len) k (nat key_len);
            d \<leftarrow> store_bytes d 0 (digest_hex out);
            Some (Some d)
          }
      | _ \<Rightarrow> Some digest)"

subsection \<open>RFC 1321\<close>

definition rfc_fun :: "nat \<Rightarrow> u32 \<Rightarrow> u32 \<Rightarrow> u32 \<Rightarrow> u32" where
  "rfc_fun i x y z =
     (if i < 16 then (x AND y) OR (NOT x AND z)
      else if i < 32 then (x AND z) OR (y AND NOT z)
      else if i < 48 then x XOR y XOR z
      else y XOR (x OR NOT z))"

text \<open>Step \<open>i\<close> uses word \<open>rfc_index i\<close> of the block and rotates by \<open>rfc_shift i\<close>.\<close>

definition rfc_index :: "nat \<Rightarrow> nat" where
  "rfc_index i = (if i < 16 then i else if i < 32 then (5 * i + 1) mod 16 else if i < 48 then (3 * i + 5) mod 16 else (7 * i) mod 16)"

definition rfc_shift :: "nat \<Rightarrow> nat" where
  "rfc_shift i = (if i < 16 then [7, 12, 17, 22] else if i < 32 then [5, 9, 14, 20] else if i < 48 then [4, 11, 16, 23] else [6, 10, 15, 21]) ! (i mod 4)"

definition rfc_step :: "byte list \<Rightarrow> nat \<Rightarrow> md5_regs \<Rightarrow> md5_regs" where
  "rfc_step data i = (\<lambda>(a, b, c, d).
     (d, b + word_rotl (rfc_shift i) (a + rfc_fun i b c d + GET_UINT32_LE data (4 * rfc_index i) + snd (snd (md5_table ! i))), b, c))"

definition md5_compress :: "u32 list \<Rightarrow> byte list \<Rightarrow> u32 list" where
  "md5_compress st data =
     (case fold (rfc_step data) [0..<64] (st ! 0, st ! 1, st ! 2, st ! 3) of (a, b, c, d) \<Rightarrow> map2 (+) st [a, b, c, d])"

definition md5 :: "byte list \<Rightarrow> byte list" where
  "md5 msg = concat (map PUT_UINT32_LE (md_state md5_compress md5_iv (\<lambda>high low. PUT_UINT32_LE low @ PUT_UINT32_LE high) msg))"

subsection \<open>One block\<close>

lemma md5_table_rfc:
  assumes "i < 64"
  shows "fst (md5_table ! i) = rfc_index i" "fst (snd (md5_table ! i)) = rfc_shift i" "rfc_index i < 16" "0 < rfc_shift i" "rfc_shift i < 32"
proof -
  have "list_all (\<lambda>i. fst (md5_table ! i) = rfc_index i \<and> fst (snd (md5_table ! i)) = rfc_shift i \<and> rfc_index i < 16 \<and> 0 < rfc_shift i \<and> rfc_shift i < 32) [0..<64]"
    by code_simp
  with assms show "fst (md5_table ! i) = rfc_index i" "fst (snd (md5_table ! i)) = rfc_shift i" "rfc_index i < 16" "0 < rfc_shift i" "rfc_shift i < 32"
    by (auto simp: list_all_iff)
qed

lemma md5_F_eq: "md5_F i x y z = rfc_fun i x y z"
proof -
  have "z XOR (x AND (y XOR z)) = (x AND y) OR (NOT x AND z)" "y XOR (z AND (x XOR y)) = (x AND z) OR (y AND NOT z)"
    by (rule bit_word_eqI; auto simp: bit_simps)+
  then show ?thesis by (simp add: md5_F_def rfc_fun_def)
qed

lemma md5_step_eq:
  assumes "i < 64"
  shows "md5_P (map (\<lambda>i. GET_UINT32_LE data (4 * i)) [0..<16]) i regs = rfc_step data i regs"
proof -
  obtain a b c d where r: "regs = (a, b, c, d)" by (metis prod_cases4)
  obtain t where t: "md5_table ! i = (rfc_index i, rfc_shift i, t)" using md5_table_rfc(1,2) [OF assms] by (cases "md5_table ! i") auto
  have "map (\<lambda>i. GET_UINT32_LE data (4 * i)) [0..<16] ! rfc_index i = GET_UINT32_LE data (4 * rfc_index i)"
    using md5_table_rfc(3) [OF assms] by (simp add: nth_map)
  then show ?thesis
    using md5_table_rfc(4,5) [OF assms] by (simp add: r t md5_P_def rfc_step_def md5_F_eq ROTL_eq add_ac del: upt_rec_numeral)
qed

lemma md5_rounds: "n \<le> 64 \<Longrightarrow> fold (md5_P (map (\<lambda>i. GET_UINT32_LE data (4 * i)) [0..<16])) [0..<n] regs = fold (rfc_step data) [0..<n] regs"
  by (induction n) (simp_all add: md5_step_eq del: upt_rec_numeral)

interpretation md5_digest: block_digest utils_md5_process md5_compress 4
proof unfold_locales
  fix c :: "'a digest_ctx_scheme" and data :: "byte list"
  assume a: "length (dg_state c) = 4" "length data = 64"
  then obtain s0 s1 s2 s3 where st: "dg_state c = [s0, s1, s2, s3]"
    by (auto simp: length_Suc_conv numeral_eq_Suc)
  have "fold (md5_P (map (\<lambda>i. GET_UINT32_LE data (4 * i)) [0..<16])) [0..<64] (s0, s1, s2, s3) = fold (rfc_step data) [0..<64] (s0, s1, s2, s3)"
    by (rule md5_rounds) simp
  with a st show "utils_md5_process c data = Some (c\<lparr>dg_state := md5_compress (dg_state c) data\<rparr>)"
    by (simp add: utils_md5_process_def md5_compress_def Let_def del: upt_rec_numeral split: prod.split)
next
  fix st :: "u32 list" and data :: "byte list"
  assume "length st = 4"
  then show "length (md5_compress st data) = 4" by (simp add: md5_compress_def split: prod.split)
qed

interpretation md5_alg: digest_algorithm "utils_md5_starts utils_md5_init" utils_md5_update utils_md5_finish
  "absorbed md5_compress md5_iv" md5 MD5_DIGEST_SIZE
proof unfold_locales
  have iv: "length md5_iv = 4" by (simp add: md5_iv_def)
  show "absorbed md5_compress md5_iv [] (utils_md5_starts utils_md5_init)"
    by (simp add: absorbed_def utils_md5_starts_def utils_md5_init_def)
  show "\<exists>c'. utils_md5_update c input ilen = Some c' \<and> absorbed md5_compress md5_iv (msg @ take (unat ilen) input) c'"
    if "absorbed md5_compress md5_iv msg c" "unat ilen \<le> length input" for msg c ilen input
    using md5_digest.update_absorbs [OF that(1) iv that(2)] by (auto simp: utils_md5_update_def)
  show "\<exists>c'. utils_md5_finish c = Some (md5 msg, c')" if "absorbed md5_compress md5_iv msg c" for msg c
    using md5_digest.finish_state [OF that iv, of "\<lambda>high low. PUT_UINT32_LE low @ PUT_UINT32_LE high"]
    by (auto simp: utils_md5_finish_def md5_def)
  show "length (md5 msg) = unat MD5_DIGEST_SIZE" for msg
    unfolding md5_def length_concat_LE md_state_def MD5_DIGEST_SIZE_def
    using md5_digest.length_fold [OF iv] in_blocks by simp
qed

subsection \<open>Properties\<close>

text \<open>
  MD5 as RFC 1321 defines it: however a message is split over calls of \<open>utils_md5_update\<close>,
  \<open>utils_md5_finish\<close> gives the digest of the whole message, and the sixty-four unrolled calls use
  the words, rotations and functions of the RFC.
\<close>

lemma md5_correct:
  assumes "\<forall>x \<in> set xs. length x < 4294967296"
  shows "\<exists>c c'. digest_updates utils_md5_update (utils_md5_starts utils_md5_init) xs = Some c \<and>
     utils_md5_finish c = Some (md5 (concat xs), c')"
  by (rule md5_alg.stream [OF assms])

end
