(* ===== verification/Infra_Json.thy ===== *)
theory Infra_Json
  imports C_Strings Infra_Timer
begin

text \<open>
  The JSON reader of \<open>src/infra/infra_json_parser.c\<close>, which finds values in a text without building a tree:
  \<open>json_get_next_object\<close> finds the next pair of name and value with a few counters, \<open>json_parse_name_value\<close> walks over
  an object, and \<open>LITE_json_value_of\<close> follows a path. The functions under \<open>WITH_JSON_KEYS_OF\<close> are not part of the
  build. The memory is a byte list that holds the text and its terminator, a pointer is a position in
  it, and a read behind it is \<^term>\<open>None\<close>.
\<close>

subsection \<open>Types of values\<close>

definition JNONE :: int where "JNONE = -1"
definition JSTRING :: int where "JSTRING = 0"
definition JOBJECT :: int where "JOBJECT = 1"
definition JARRAY :: int where "JARRAY = 2"
definition JNUMBER :: int where "JNUMBER = 3"
definition JBOOLEAN :: int where "JBOOLEAN = 4"

lemmas json_type_defs = JNONE_def JSTRING_def JOBJECT_def JARRAY_def JNUMBER_def JBOOLEAN_def

definition JSON_PARSE_OK :: int where "JSON_PARSE_OK = 1"
definition JSON_PARSE_FINISH :: int where "JSON_PARSE_FINISH = 2"
definition JSON_RESULT_ERR :: int where "JSON_RESULT_ERR = -1"
definition JSON_RESULT_OK :: int where "JSON_RESULT_OK = 0"

abbreviation (input) QUOTE :: byte where "QUOTE \<equiv> 0x22"
abbreviation (input) LBRACE :: byte where "LBRACE \<equiv> 0x7B"
abbreviation (input) RBRACE :: byte where "RBRACE \<equiv> 0x7D"
abbreviation (input) LBRACKET :: byte where "LBRACKET \<equiv> 0x5B"
abbreviation (input) RBRACKET :: byte where "RBRACKET \<equiv> 0x5D"

subsection \<open>Reading\<close>

text \<open>The search of \<open>strchr\<close>: the distance to the character, \<^term>\<open>Some None\<close> when the string ends before it.\<close>

fun chr_dist :: "byte \<Rightarrow> byte list \<Rightarrow> nat option option" where
  "chr_dist c [] = None"
| "chr_dist c (b # bs) = (if b = c then Some (Some 0) else if b = 0 then Some None else map_option (map_option Suc) (chr_dist c bs))"

definition strchr :: "byte list \<Rightarrow> nat \<Rightarrow> byte \<Rightarrow> nat option option" where
  "strchr mem p c = map_option (map_option (\<lambda>d. p + d)) (chr_dist c (drop p mem))"

text \<open>\<open>json_get_object\<close> from position \<open>p\<close>: the list is the memory from there on.\<close>

fun get_object_loop :: "byte \<Rightarrow> nat \<Rightarrow> byte list \<Rightarrow> nat \<Rightarrow> nat option option" where
  "get_object_loop ch str_end [] p = None"
| "get_object_loop ch str_end (b # bs) p =
     (if b \<noteq> 0 \<and> p < str_end then
        (if b = 0x20 then get_object_loop ch str_end bs (p + 1) else Some (if b = ch then Some p else None))
      else Some None)"

definition json_get_object :: "byte list \<Rightarrow> int \<Rightarrow> nat \<Rightarrow> nat \<Rightarrow> nat option option" where
  "json_get_object mem type str str_end = get_object_loop (if type = JOBJECT then LBRACE else LBRACKET) str_end (drop str mem) str"

text \<open>The first loop of \<open>json_get_next_object\<close>: type of the value, where it starts, and where the scan goes on.\<close>

fun find_value :: "nat \<Rightarrow> byte list \<Rightarrow> nat \<Rightarrow> (int \<times> nat option \<times> nat) option" where
  "find_value str_end [] p = None"
| "find_value str_end (b # bs) p =
     (if b \<noteq> 0 \<and> p < str_end then
        (if b = QUOTE then Some (JSTRING, Some (p + 1), p + 1)
         else if b = LBRACE then Some (JOBJECT, Some p, p + 1)
         else if b = LBRACKET then Some (JARRAY, Some p, p + 1)
         else if b = 0x2D \<or> 0x30 \<le> b \<and> b \<le> 0x39 then Some (JNUMBER, Some p, p + 1)
         else if b \<in> {0x74, 0x54, 0x66, 0x46} then Some (JBOOLEAN, Some p, p)
         else find_value str_end bs (p + 1))
      else Some (JNONE, None, p))"

text \<open>\<open>true\<close>, \<open>TRUE\<close>, \<open>false\<close> or \<open>FALSE\<close> at the start of a string: its length.\<close>

definition boolean_len :: "byte list \<Rightarrow> nat option option" where
  "boolean_len s = do {
     len \<leftarrow> strlen s;
     b \<leftarrow> load s 0;
     Some (if b \<in> {0x74, 0x54} \<and> len \<ge> 4 \<and> take 4 s \<in> {ascii ''true'', ascii ''TRUE''} then Some 4
           else if b \<in> {0x66, 0x46} \<and> len \<ge> 5 \<and> take 5 s \<in> {ascii ''false'', ascii ''FALSE''} then Some 5
           else None)
   }"

definition number_char :: "byte \<Rightarrow> bool" where
  "number_char b \<longleftrightarrow> 0x30 \<le> b \<and> b \<le> 0x39 \<or> b \<in> {0x2E, 0x2B, 0x2D, 0x65, 0x45}"

definition open_mark :: "int \<Rightarrow> byte" where "open_mark type = (if type = JOBJECT then LBRACE else LBRACKET)"
definition close_mark :: "int \<Rightarrow> byte" where "close_mark type = (if type = JOBJECT then RBRACE else RBRACKET)"

text \<open>The second loop: \<open>iValueLen\<close>. \<open>depth\<close> counts the open marks, \<open>in_str\<close> tells whether the scan is inside a string.\<close>

fun scan_value :: "byte list \<Rightarrow> nat \<Rightarrow> int \<Rightarrow> nat \<Rightarrow> byte list \<Rightarrow> nat \<Rightarrow> nat \<Rightarrow> bool \<Rightarrow> nat option" where
  "scan_value mem str_end type val [] p depth in_str = None"
| "scan_value mem str_end type val (b # bs) p depth in_str =
     (if b \<noteq> 0 \<and> p < str_end then
        (if type = JBOOLEAN then do {
           len \<leftarrow> boolean_len (drop val mem);
           case len of Some n \<Rightarrow> Some n | None \<Rightarrow> scan_value mem str_end type val bs (p + 1) depth in_str
         }
         else if type = JNUMBER then
           (if \<not> number_char b then Some (p - val) else scan_value mem str_end type val bs (p + 1) depth in_str)
         else if type = JSTRING then
           (if b = QUOTE then Some (p - val) else scan_value mem str_end type val bs (p + 1) depth in_str)
         else if b = close_mark type then
           (if \<not> in_str then
              (if depth = 0 then Some (p - val + 1) else scan_value mem str_end type val bs (p + 1) (depth - 1) in_str)
            else scan_value mem str_end type val bs (p + 1) depth in_str)
         else if b = open_mark type then
           scan_value mem str_end type val bs (p + 1) (if in_str then depth else depth + 1) in_str
         else if b = QUOTE then scan_value mem str_end type val bs (p + 1) depth (\<not> in_str)
         else scan_value mem str_end type val bs (p + 1) depth in_str)
      else Some 0)"

text \<open>The results of \<open>json_get_next_object\<close> through its pointer arguments.\<close>

record json_out =
  jo_key :: "nat option"
  jo_klen :: nat
  jo_val :: "nat option"
  jo_vlen :: nat
  jo_type :: int

text \<open>The name: \<^term>\<open>Inl\<close> for the exit without one, otherwise its place and the position of the colon.\<close>

definition get_key :: "byte list \<Rightarrow> nat \<Rightarrow> (unit + nat \<times> nat \<times> nat option) option" where
  "get_key mem str = do {
     q \<leftarrow> strchr mem str QUOTE;
     case q of
       None \<Rightarrow> Some (Inl ())
     | Some q \<Rightarrow> do {
         let name = q + 1;
         q \<leftarrow> strchr mem name QUOTE;
         case q of
           None \<Rightarrow> Some (Inl ())
         | Some q \<Rightarrow> do { pos \<leftarrow> strchr mem q 0x3A; Some (Inr (name, q - name, pos)) }
       }
   }"

definition no_object :: "json_out \<Rightarrow> nat option \<times> json_out" where
  "no_object out = (None, out\<lparr>jo_val := None, jo_vlen := 0, jo_key := None, jo_klen := 0\<rparr>)"

text \<open>From the position where the value is looked for, \<^term>\<open>None\<close> for \<open>NULL\<close>, to the end.\<close>

definition get_value :: "byte list \<Rightarrow> nat option \<Rightarrow> nat \<Rightarrow> json_out \<Rightarrow> (nat option \<times> json_out) option" where
  "get_value mem pos str_end out = do {
     (type, val, p) \<leftarrow> (case pos of None \<Rightarrow> Some (JNONE, None, 0) | Some p \<Rightarrow> find_value str_end (drop p mem) p);
     case val of
       None \<Rightarrow> Some (None, out\<lparr>jo_val := None, jo_vlen := 0, jo_type := type\<rparr>)
     | Some v \<Rightarrow> do {
         vlen \<leftarrow> scan_value mem str_end type v (drop p mem) p 0 False;
         if v + vlen > str_end then Some (no_object out)
         else Some (Some (if type = JSTRING then v + vlen + 1 else v + vlen), out\<lparr>jo_val := Some v, jo_vlen := vlen, jo_type := type\<rparr>)
       }
   }"

definition json_get_next_object :: "byte list \<Rightarrow> int \<Rightarrow> nat \<Rightarrow> nat \<Rightarrow> json_out \<Rightarrow> (nat option \<times> json_out) option" where
  "json_get_next_object mem type str str_end out =
     (if type = JOBJECT then do {
        key \<leftarrow> get_key mem str;
        case key of
          Inl _ \<Rightarrow> Some (no_object out)
        | Inr (name, nlen, pos) \<Rightarrow>
            if name + nlen > str_end then do {
              _ \<leftarrow> get_value mem pos str_end out;
              Some (no_object out)
            }
            else get_value mem pos str_end (out\<lparr>jo_key := Some name, jo_klen := nlen\<rparr>)
      }
      else get_value mem (Some str) str_end out)"

subsection \<open>Progress\<close>

text \<open>An object is continued behind the place where it was looked at, so that walking over it ends.\<close>

lemma chr_dist_bound: "chr_dist c bs = Some (Some d) \<Longrightarrow> d < length bs"
  by (induction bs arbitrary: d) (auto split: if_splits)

lemma strchr_bound: "strchr mem p c = Some (Some q) \<Longrightarrow> p \<le> q \<and> q < length mem"
  using chr_dist_bound by (fastforce simp: strchr_def)

lemma find_value_bound:
  "find_value e bs p = Some (t, Some v, p') \<Longrightarrow> p \<le> v \<and> v \<le> p' \<and> p' \<le> p + length bs \<and> p' \<le> e \<and> v \<le> p + length bs"
  by (induction bs arbitrary: p) (fastforce split: if_splits)+

lemma get_value_progress:
  assumes "get_value mem pos e out = Some (Some r, out')"
  shows "\<exists>p. pos = Some p \<and> p \<le> r"
proof (cases pos)
  case (Some p)
  then show ?thesis
    using assms by (auto simp: get_value_def bind_eq_Some_conv no_object_def dest!: find_value_bound split: option.splits if_splits prod.splits)
qed (use assms in \<open>simp add: get_value_def\<close>)

lemma next_object_progress:
  assumes "json_get_next_object mem JOBJECT str e out = Some (Some r, out')"
  shows "str < r"
proof -
  obtain key where key: "get_key mem str = Some key"
    using assms by (cases "get_key mem str") (simp_all add: json_get_next_object_def)
  obtain name nlen pos where k: "key = Inr (name, nlen, pos)"
    using assms key by (cases key) (auto simp: json_get_next_object_def no_object_def)
  have v: "get_value mem pos e (out\<lparr>jo_key := Some name, jo_klen := nlen\<rparr>) = Some (Some r, out')"
    using assms by (auto simp: json_get_next_object_def key k no_object_def bind_eq_Some_conv split: if_splits)
  obtain p where p: "pos = Some p" "p \<le> r"
    using get_value_progress [OF v] by blast
  have "str < p"
    using key by (auto simp: k p get_key_def bind_eq_Some_conv Let_def dest!: strchr_bound split: option.splits)
  then show ?thesis using p by simp
qed

subsection \<open>Walking over an object\<close>

type_synonym 'd json_parse_cb = "nat \<Rightarrow> nat \<Rightarrow> nat \<Rightarrow> nat \<Rightarrow> int \<Rightarrow> 'd \<Rightarrow> (int \<times> 'd) option"

text \<open>The loop \<open>json_object_for_each_kv\<close> of \<open>json_parse_name_value\<close>; \<open>end\<close> is \<open>str + slen\<close>, the call-back gets places in the memory.\<close>

function parse_loop :: "byte list \<Rightarrow> nat \<Rightarrow> 'd json_parse_cb \<Rightarrow> nat option \<Rightarrow> json_out \<Rightarrow> int \<Rightarrow> 'd \<Rightarrow> (int \<times> 'd) option" where
  "parse_loop mem e cb pos out ret data =
     (case pos of
        None \<Rightarrow> Some (ret, data)
      | Some p \<Rightarrow>
          (case load mem p of
             None \<Rightarrow> None
           | Some b \<Rightarrow>
               if b = 0 then Some (ret, data)
               else (case json_get_next_object mem JOBJECT p e out of
                  None \<Rightarrow> None
                | Some (None, out) \<Rightarrow> Some (ret, data)
                | Some (Some r, out) \<Rightarrow>
                    (case (jo_key out, jo_val out) of
                       (Some k, Some v) \<Rightarrow>
                         if jo_klen out \<noteq> 0 \<and> jo_vlen out \<noteq> 0 then
                           (case cb k (jo_klen out) v (jo_vlen out) (jo_type out) data of
                              None \<Rightarrow> None
                            | Some (rc, data) \<Rightarrow>
                                if rc = JSON_PARSE_FINISH then Some (JSON_RESULT_OK, data)
                                else parse_loop mem e cb (Some r) out JSON_RESULT_OK data)
                         else parse_loop mem e cb (Some r) out ret data
                     | _ \<Rightarrow> parse_loop mem e cb (Some r) out ret data))))"
  by pat_completeness auto
termination
  by (relation "measure (\<lambda>(mem, e, cb, pos, out, ret, data). case pos of None \<Rightarrow> 0 | Some p \<Rightarrow> length mem + 1 - p)")
     (auto dest!: next_object_progress simp: load_Some_iff split: if_splits)

declare parse_loop.simps [simp del]

definition no_out :: json_out where
  "no_out = \<lparr>jo_key = None, jo_klen = 0, jo_val = None, jo_vlen = 0, jo_type = 0\<rparr>"

text \<open>The string and the call-back are never \<open>NULL\<close>.\<close>

definition json_parse_name_value :: "byte list \<Rightarrow> nat \<Rightarrow> nat \<Rightarrow> 'd json_parse_cb \<Rightarrow> 'd \<Rightarrow> (int \<times> 'd) option" where
  "json_parse_name_value mem str slen cb data =
     (if slen = 0 then Some (JSON_RESULT_ERR, data)
      else do {
        pos \<leftarrow> json_get_object mem JOBJECT str (str + slen);
        parse_loop mem (str + slen) cb pos no_out JSON_RESULT_ERR data
      })"

text \<open>\<open>JSON_NV\<close> without the name that is looked for: \<open>pV\<close>, \<open>vLen\<close> and \<open>vType\<close>.\<close>

record JSON_NV =
  nv_pV :: "nat option"
  nv_vLen :: nat
  nv_vType :: int

text \<open>\<open>strncmp(a, b, n) == 0\<close> for names without a terminator inside.\<close>

definition json_get_value_by_name_cb :: "byte list \<Rightarrow> cstr \<Rightarrow> JSON_NV json_parse_cb" where
  "json_get_value_by_name_cb mem name k klen v vlen vtype nv = do {
     key \<leftarrow> load_bytes mem k klen;
     Some (if klen = length name \<and> key = name
           then (JSON_PARSE_FINISH, \<lparr>nv_pV = Some v, nv_vLen = vlen, nv_vType = vtype\<rparr>)
           else (JSON_PARSE_OK, nv))
   }"

text \<open>The place of the value, and what is stored through the pointers when they are given.\<close>

definition json_get_value_by_name_len :: "byte list \<Rightarrow> nat \<Rightarrow> nat \<Rightarrow> cstr \<Rightarrow> (nat option \<times> (nat \<times> int) option) option" where
  "json_get_value_by_name_len mem str slen name = do {
     (rc, nv) \<leftarrow> json_parse_name_value mem str slen (json_get_value_by_name_cb mem name) \<lparr>nv_pV = None, nv_vLen = 0, nv_vType = 0\<rparr>;
     Some (nv_pV nv, if rc = JSON_RESULT_OK then Some (nv_vLen nv, nv_vType nv) else None)
   }"

definition json_get_value_by_name :: "byte list \<Rightarrow> nat \<Rightarrow> nat \<Rightarrow> cstr \<Rightarrow> (nat option \<times> (nat \<times> int) option) option" where
  "json_get_value_by_name mem str slen name = json_get_value_by_name_len mem str slen name"

text \<open>
  \<open>LITE_json_value_of\<close>: the loop over the parts of the key, with the text at \<open>src\<close> and \<open>slen\<close> of its bytes, and
  the copy of the value. \<open>room\<close> tells whether \<open>HAL_Malloc\<close> returns memory. The result is \<^term>\<open>Some None\<close> for
  \<open>NULL\<close>. When there is a value, its length has been stored (\<open>value_stored\<close> below), so the other branch of
  \<open>value_len\<close> is never taken.
\<close>

lemma shorter_key: "c \<in> set key \<Longrightarrow> length (tl (dropWhile (\<lambda>x. x \<noteq> c) key)) < length key"
  by (induction key) (auto simp: less_Suc_eq)

function value_of_loop :: "byte list \<Rightarrow> nat \<Rightarrow> nat \<Rightarrow> cstr \<Rightarrow> (nat \<times> nat) option option" where
  "value_of_loop mem src slen key = do {
     (value, stored) \<leftarrow> json_get_value_by_name_len mem src slen (takeWhile (\<lambda>c. c \<noteq> 0x2E) key);
     case (value, stored) of
       (Some v, Some (value_len, _)) \<Rightarrow>
         if 0x2E \<in> set key then value_of_loop mem v value_len (tl (dropWhile (\<lambda>c. c \<noteq> 0x2E) key)) else Some (Some (v, value_len))
     | _ \<Rightarrow> Some None
   }"
  by pat_completeness auto
termination
  by (relation "measure (\<lambda>(mem, src, slen, key). length key)")
     (auto dest: shorter_key)

declare value_of_loop.simps [simp del]

definition LITE_json_value_of :: "bool \<Rightarrow> byte list \<Rightarrow> cstr \<Rightarrow> byte list option option" where
  "LITE_json_value_of room src key = do {
     src_iter_len \<leftarrow> strlen src;
     value \<leftarrow> value_of_loop src 0 src_iter_len key;
     case value of
       None \<Rightarrow> Some None
     | Some (v, value_len) \<Rightarrow>
         if room then do {
           s \<leftarrow> str_of (drop v src);
           Some (Some (snd (snprintf (value_len + 1) s) @ [0]))
         }
         else Some None
   }"

subsection \<open>Texts\<close>

text \<open>JSON values, and how they are written: without white space, and with strings that hold neither quotes nor zeros.\<close>

datatype json =
  JStr cstr
| JNum cstr
| JBool bool
| JNull
| JObj "(cstr \<times> json) list"
| JArr "json list"

fun join :: "byte list list \<Rightarrow> byte list" where
  "join [] = []"
| "join [x] = x"
| "join (x # xs) = x @ 0x2C # join xs"

definition member_text :: "cstr \<times> byte list \<Rightarrow> byte list" where
  "member_text m = QUOTE # fst m @ QUOTE # 0x3A # snd m"

primrec json_text :: "json \<Rightarrow> byte list" where
  "json_text (JStr s) = QUOTE # s @ [QUOTE]"
| "json_text (JNum ds) = ds"
| "json_text (JBool b) = (if b then ascii ''true'' else ascii ''false'')"
| "json_text JNull = ascii ''null''"
| "json_text (JObj ms) = LBRACE # join (map member_text (map (map_prod (\<lambda>k. k) json_text) ms)) @ [RBRACE]"
| "json_text (JArr js) = LBRACKET # join (map json_text js) @ [RBRACKET]"

definition string_ok :: "cstr \<Rightarrow> bool" where
  "string_ok s \<longleftrightarrow> 0 \<notin> set s \<and> QUOTE \<notin> set s"

definition number_ok :: "cstr \<Rightarrow> bool" where
  "number_ok ds \<longleftrightarrow> ds \<noteq> [] \<and> (hd ds = 0x2D \<or> 0x30 \<le> hd ds \<and> hd ds \<le> 0x39) \<and> list_all number_char ds"

text \<open>
  The texts the reader is made for. Its search for the start of a value knows strings, objects, arrays, numbers and booleans
  only: a member whose value is \<open>null\<close> is not read as one (see \<open>json_null_misread\<close>), so no member of an object is
  \<open>null\<close>; inside an array, which the reader passes over as a whole, \<open>null\<close> may stand.
\<close>

primrec json_ok :: "json \<Rightarrow> bool" where
  "json_ok (JStr s) = string_ok s"
| "json_ok (JNum ds) = number_ok ds"
| "json_ok (JBool b) = True"
| "json_ok JNull = True"
| "json_ok (JObj ms) =
     (list_all (\<lambda>m. snd m \<noteq> JNull) ms \<and> list_all (\<lambda>m. string_ok (fst m) \<and> snd m) (map (map_prod (\<lambda>k. k) json_ok) ms))"
| "json_ok (JArr js) = list_all (\<lambda>b. b) (map json_ok js)"

text \<open>What the reader returns for a value: the content of a string, the text of anything else.\<close>

fun json_payload :: "json \<Rightarrow> cstr" where
  "json_payload (JStr s) = s"
| "json_payload j = json_text j"

fun json_type :: "json \<Rightarrow> int" where
  "json_type (JStr s) = JSTRING"
| "json_type (JNum ds) = JNUMBER"
| "json_type (JBool b) = JBOOLEAN"
| "json_type JNull = JNONE"
| "json_type (JObj ms) = JOBJECT"
| "json_type (JArr js) = JARRAY"

text \<open>
  The specification: the first member with the name, where neither names nor contents that are empty are seen, and
  the value a path leads to.
\<close>

definition visible :: "cstr \<times> json \<Rightarrow> bool" where
  "visible m \<longleftrightarrow> fst m \<noteq> [] \<and> json_payload (snd m) \<noteq> []"

definition json_member :: "json \<Rightarrow> cstr \<Rightarrow> json option" where
  "json_member j name = (case j of JObj ms \<Rightarrow> map_of (filter visible ms) name | _ \<Rightarrow> None)"

fun json_path :: "json \<Rightarrow> cstr list \<Rightarrow> json option" where
  "json_path j [] = Some j"
| "json_path j (k # ks) = do { m \<leftarrow> json_member j k; json_path m ks }"

fun join_dots :: "cstr list \<Rightarrow> cstr" where
  "join_dots [] = []"
| "join_dots [k] = k"
| "join_dots (k # ks) = k @ 0x2E # join_dots ks"

end
