(* ===== verification/Json_Lookup.thy ===== *)
theory Json_Lookup
  imports Infra_Json
begin

text \<open>
  The JSON reader finds what is written: on the text of an object without \<open>null\<close> members, \<open>LITE_json_value_of\<close> returns a copy of the value the
  path leads to. The scan over nested values keeps its counters over every balanced text (\<open>skips\<close>), so each step of
  the walk stops behind the member it has read; and on a text that does not end in a quote no read leaves the
  text and its terminator.
\<close>

subsection \<open>Balanced texts\<close>

definition skips :: "byte list \<Rightarrow> bool" where
  "skips s \<longleftrightarrow> (\<forall>mem e t v bs p d. t = JOBJECT \<or> t = JARRAY \<longrightarrow> p + length s \<le> e \<longrightarrow>
     scan_value mem e t v (s @ bs) p d False = scan_value mem e t v bs (p + length s) d False)"

lemma skipsD:
  "skips s \<Longrightarrow> t = JOBJECT \<or> t = JARRAY \<Longrightarrow> p + length s \<le> e \<Longrightarrow>
     scan_value mem e t v (s @ bs) p d False = scan_value mem e t v bs (p + length s) d False"
  unfolding skips_def by blast

lemma skips_Nil: "skips []"
  by (simp add: skips_def)

lemma skips_append: "skips a \<Longrightarrow> skips b \<Longrightarrow> skips (a @ b)"
  by (auto simp: skips_def add.assoc)

lemma skips_char: "c \<notin> {0, QUOTE, LBRACE, RBRACE, LBRACKET, RBRACKET} \<Longrightarrow> skips [c]"
  by (auto simp: skips_def json_type_defs open_mark_def close_mark_def)

lemma skips_chars: "\<forall>c\<in>set s. c \<notin> {0, QUOTE, LBRACE, RBRACE, LBRACKET, RBRACKET} \<Longrightarrow> skips s"
proof (induction s)
  case (Cons c s)
  then have "skips ([c] @ s)" by (intro skips_append skips_char) auto
  then show ?case by simp
qed (rule skips_Nil)

lemma scan_in_string:
  "string_ok s \<Longrightarrow> t = JOBJECT \<or> t = JARRAY \<Longrightarrow> p + length s \<le> e \<Longrightarrow>
     scan_value mem e t v (s @ bs) p d True = scan_value mem e t v bs (p + length s) d True"
proof (induction s arbitrary: p)
  case (Cons c s)
  have "scan_value mem e t v (s @ bs) (p + 1) d True = scan_value mem e t v bs (p + 1 + length s) d True"
    using Cons.prems by (intro Cons.IH) (auto simp: string_ok_def)
  then show ?case
    using Cons.prems by (auto simp: string_ok_def json_type_defs)
qed simp

lemma skips_string:
  assumes "string_ok s"
  shows "skips (QUOTE # s @ [QUOTE])"
  unfolding skips_def
proof (intro allI impI)
  fix mem :: "byte list" and e t v bs p d
  assume t: "t = JOBJECT \<or> t = JARRAY" and e: "p + length (QUOTE # s @ [QUOTE]) \<le> e"
  have "scan_value mem e t v (s @ QUOTE # bs) (p + 1) d True = scan_value mem e t v (QUOTE # bs) (p + 1 + length s) d True"
    using e by (intro scan_in_string [OF assms t]) simp
  then show "scan_value mem e t v ((QUOTE # s @ [QUOTE]) @ bs) p d False = scan_value mem e t v bs (p + length (QUOTE # s @ [QUOTE])) d False"
    using t e by (auto simp: json_type_defs open_mark_def close_mark_def)
qed

lemma skips_nested:
  assumes "skips s" and "(opn, cls) = (LBRACE, RBRACE) \<or> (opn, cls) = (LBRACKET, RBRACKET)"
  shows "skips (opn # s @ [cls])"
  unfolding skips_def
proof (intro allI impI)
  fix mem :: "byte list" and e t v bs p d
  assume t: "t = JOBJECT \<or> t = JARRAY" and e: "p + length (opn # s @ [cls]) \<le> e"
  have "scan_value mem e t v (s @ cls # bs) (p + 1) n False = scan_value mem e t v (cls # bs) (p + 1 + length s) n False" for n
    using e by (intro skipsD [OF assms(1) t]) simp
  then show "scan_value mem e t v ((opn # s @ [cls]) @ bs) p d False = scan_value mem e t v bs (p + length (opn # s @ [cls])) d False"
    using t e assms(2) by (elim disjE; simp add: json_type_defs open_mark_def close_mark_def)
qed

lemma join_Cons: "join (x # xs) = x @ concat (map ((#) 0x2C) xs)"
  by (induction xs arbitrary: x) auto

lemma skips_join: "(\<And>x. x \<in> set xs \<Longrightarrow> skips x) \<Longrightarrow> skips (join xs)"
proof (induction xs rule: join.induct)
  case (3 x y xs)
  have "skips (x @ [0x2C] @ join (y # xs))"
    by (intro skips_append skips_char) (use 3 in auto)
  then show ?case by simp
qed (auto intro: skips_Nil)

lemma skips_member: "string_ok k \<Longrightarrow> skips s \<Longrightarrow> skips (member_text (k, s))"
proof -
  assume "string_ok k" "skips s"
  then have "skips ((QUOTE # k @ [QUOTE]) @ [0x3A] @ s)"
    by (intro skips_append skips_string skips_char) auto
  then show ?thesis by (simp add: member_text_def)
qed

lemma member_ok: "json_ok (JObj ms) \<Longrightarrow> (k, j) \<in> set ms \<Longrightarrow> string_ok k \<and> json_ok j"
  by (auto simp: list_all_iff)

abbreviation (input) members_text :: "(cstr \<times> json) list \<Rightarrow> byte list" where
  "members_text ms \<equiv> join (map member_text (map (map_prod (\<lambda>k. k) json_text) ms))"

lemma skips_members:
  assumes "\<And>k j. (k, j) \<in> set ms \<Longrightarrow> string_ok k \<and> skips (json_text j)"
  shows "skips (members_text ms)"
  using assms by (intro skips_join) (auto intro!: skips_member)

lemma number_char_plain: "number_char c \<Longrightarrow> c \<notin> {0, QUOTE, LBRACE, RBRACE, LBRACKET, RBRACKET, 0x2C}"
  by (auto simp: number_char_def word_le_nat_alt)

lemma skips_json: "json_ok j \<Longrightarrow> skips (json_text j)"
proof (induction j)
  case (JStr s)
  then show ?case by (simp add: skips_string)
next
  case (JNum ds)
  then have "\<forall>c\<in>set ds. c \<notin> {0, QUOTE, LBRACE, RBRACE, LBRACKET, RBRACKET}"
    using number_char_plain by (auto simp: number_ok_def list_all_iff)
  then show ?case by (simp add: skips_chars)
next
  case (JBool b)
  show ?case by (auto simp: ascii_def intro!: skips_chars)
next
  case JNull
  show ?case by (auto simp: ascii_def intro!: skips_chars)
next
  case (JObj ms)
  have "skips (members_text ms)"
  proof (rule skips_members)
    fix k j assume m: "(k, j) \<in> set ms"
    show "string_ok k \<and> skips (json_text j)"
      using member_ok [OF JObj.prems m] JObj.IH [OF m, of j] by simp
  qed
  then show ?case by (simp add: skips_nested)
next
  case (JArr js)
  have "skips (join (map json_text js))"
    using JArr by (intro skips_join) (auto simp: list_all_iff)
  then show ?case by (simp add: skips_nested)
qed

lemma join_nonzero: "(\<And>x. x \<in> set xs \<Longrightarrow> 0 \<notin> set x) \<Longrightarrow> 0 \<notin> set (join xs)"
  by (induction xs rule: join.induct) auto

lemma json_text_nonzero: "json_ok j \<Longrightarrow> 0 \<notin> set (json_text j)"
proof (induction j)
  case (JNum ds)
  then show ?case using number_char_plain by (auto simp: number_ok_def list_all_iff)
next
  case (JObj ms)
  have "0 \<notin> set x" if x: "x \<in> set (map member_text (map (map_prod (\<lambda>k. k) json_text) ms))" for x
  proof -
    obtain k j where kj: "(k, j) \<in> set ms" "x = member_text (k, json_text j)" using x by auto
    then show ?thesis
      using member_ok [OF JObj.prems kj(1)] JObj.IH [OF kj(1), of j] by (simp add: member_text_def string_ok_def)
  qed
  then have "0 \<notin> set (join (map member_text (map (map_prod (\<lambda>k. k) json_text) ms)))" by (rule join_nonzero)
  then show ?case by simp
next
  case (JArr js)
  then have "0 \<notin> set x" if "x \<in> set (map json_text js)" for x using that by (auto simp: list_all_iff)
  then have "0 \<notin> set (join (map json_text js))" by (rule join_nonzero)
  then show ?case by simp
qed (auto simp: string_ok_def ascii_def)

subsection \<open>One member\<close>

text \<open>The text \<open>s\<close> stands at \<open>p\<close>, and the string it is part of ends behind it.\<close>

definition text_at :: "byte list \<Rightarrow> nat \<Rightarrow> byte list \<Rightarrow> bool" where
  "text_at mem p s \<longleftrightarrow> (\<exists>a bs. mem = a @ s @ bs \<and> length a = p \<and> 0 \<in> set bs)"

lemma text_at_drop: "text_at mem p s \<Longrightarrow> \<exists>bs. drop p mem = s @ bs \<and> 0 \<in> set bs"
  by (auto simp: text_at_def)

lemma text_at_append: "text_at mem p (a @ b) \<Longrightarrow> text_at mem (p + length a) b"
  unfolding text_at_def by (metis append.assoc length_append)

lemma text_at_Cons: "text_at mem p (c # s) \<Longrightarrow> text_at mem (p + 1) s"
  using text_at_append [of mem p "[c]" s] by simp

lemma text_at_prefix: "text_at mem p (a @ b) \<Longrightarrow> text_at mem p a"
  unfolding text_at_def by (metis append.assoc Un_iff set_append)

lemma text_at_bytes: "text_at mem p s \<Longrightarrow> load_bytes mem p (length s) = Some s"
  by (auto simp: text_at_def load_bytes_def)

lemma text_at_load: "text_at mem p (c # s) \<Longrightarrow> load mem p = Some c"
  by (auto simp: text_at_def load_append)

lemma chr_dist_text: "c \<notin> set s \<Longrightarrow> 0 \<notin> set s \<Longrightarrow> chr_dist c (s @ c # bs) = Some (Some (length s))"
  by (induction s) auto

lemma strchr_text:
  assumes "text_at mem p (s @ c # s')" and "c \<notin> set s" and "0 \<notin> set s"
  shows "strchr mem p c = Some (Some (p + length s))"
proof -
  obtain bs where "drop p mem = s @ c # bs" using text_at_drop [OF assms(1)] by auto
  then show ?thesis using assms by (simp add: strchr_def chr_dist_text)
qed

lemma strlen_text_at: "text_at mem p s \<Longrightarrow> strlen (drop p mem) \<noteq> None"
  by (auto simp: text_at_def strlen_def)

lemma number_char_0: "\<not> number_char 0"
  by (simp add: number_char_def)

lemma scan_number:
  "list_all number_char ds \<Longrightarrow> \<not> number_char c \<Longrightarrow> c \<noteq> 0 \<Longrightarrow> p + length ds < e \<Longrightarrow>
     scan_value mem e JNUMBER v (ds @ c # bs) p d q = Some (p + length ds - v)"
  by (induction ds arbitrary: p) (auto simp: json_type_defs number_char_0)

lemma scan_string:
  "string_ok s \<Longrightarrow> p + length s < e \<Longrightarrow> scan_value mem e JSTRING v (s @ QUOTE # bs) p d q = Some (p + length s - v)"
  by (induction s arbitrary: p) (auto simp: json_type_defs string_ok_def)

text \<open>Where the value of a member starts: the content of a string stands behind the quote.\<close>

fun value_off :: "json \<Rightarrow> nat" where
  "value_off (JStr s) = 1"
| "value_off j = 0"

lemma find_string: "p + 1 < e \<Longrightarrow> find_value e (0x3A # QUOTE # bs) p = Some (JSTRING, Some (p + 2), p + 2)"
  by simp

lemma find_number:
  "p + 1 < e \<Longrightarrow> c = 0x2D \<or> 0x30 \<le> c \<and> c \<le> 0x39 \<Longrightarrow> find_value e (0x3A # c # bs) p = Some (JNUMBER, Some (p + 1), p + 2)"
  by (auto simp: word_le_nat_alt)

text \<open>How the value is found, what its length is, and that the next step goes on behind it.\<close>

lemma value_read:
  assumes ok: "json_ok j" "j \<noteq> JNull" and mem: "mem = a @ 0x3A # json_text j @ c # bs" and p: "p = length a"
    and c: "c \<in> {0x2C, RBRACE}" and z: "0 \<in> set bs" and e: "p + 1 + length (json_text j) < e"
  shows "\<exists>q. find_value e (drop p mem) p = Some (json_type j, Some (p + 1 + value_off j), q) \<and>
        scan_value mem e (json_type j) (p + 1 + value_off j) (drop q mem) q 0 False = Some (length (json_payload j))"
proof (cases j)
  case (JStr s)
  have "scan_value mem e JSTRING (p + 2) (s @ QUOTE # c # bs) (p + 2) 0 False = Some (length s)"
    using e ok(1) by (simp add: JStr scan_string)
  then show ?thesis using e by (simp add: JStr mem p)
next
  case (JNum ds)
  obtain b ds' where ds: "ds = b # ds'" "b = 0x2D \<or> 0x30 \<le> b \<and> b \<le> 0x39" "list_all number_char ds'"
    using ok(1) by (cases ds) (auto simp: JNum number_ok_def)
  have "scan_value mem e JNUMBER (p + 1) (ds' @ c # bs) (p + 2) 0 False = Some (p + 2 + length ds' - (p + 1))"
    using e ds c by (intro scan_number) (auto simp: JNum number_char_def word_le_nat_alt)
  moreover have "find_value e (drop p mem) p = Some (JNUMBER, Some (p + 1), p + 2)"
    using e find_number [OF _ ds(2)] by (simp add: JNum mem p ds(1))
  ultimately show ?thesis by (simp add: JNum mem p ds(1))
next
  case (JBool b)
  have "boolean_len (drop (p + 1) mem) = Some (Some (if b then 4 else 5))"
    using z c by (auto simp: JBool mem p boolean_len_def strlen_def ascii_def load_def)
  then show ?thesis using e by (auto simp: JBool mem p ascii_def json_type_defs)
next
  case (JObj ms)
  have "skips (members_text ms)"
    using member_ok [OF ok(1) [unfolded JObj]] by (intro skips_members) (auto simp: skips_json)
  then have "scan_value mem e JOBJECT (p + 1) (members_text ms @ RBRACE # c # bs) (p + 2) 0 False =
      scan_value mem e JOBJECT (p + 1) (RBRACE # c # bs) (p + 2 + length (members_text ms)) 0 False"
    using e by (intro skipsD) (auto simp: JObj)
  then have "scan_value mem e JOBJECT (p + 1) (members_text ms @ RBRACE # c # bs) (p + 2) 0 False = Some (length (members_text ms) + 2)"
    using e by (simp add: JObj json_type_defs close_mark_def)
  then show ?thesis using e by (simp add: JObj mem p del: map_map)
next
  case (JArr js)
  have "skips (join (map json_text js))"
    using ok(1) by (intro skips_join) (auto simp: JArr skips_json list_all_iff)
  then have "scan_value mem e JARRAY (p + 1) (join (map json_text js) @ RBRACKET # c # bs) (p + 2) 0 False =
      scan_value mem e JARRAY (p + 1) (RBRACKET # c # bs) (p + 2 + length (join (map json_text js))) 0 False"
    using e by (intro skipsD) (auto simp: JArr)
  then have "scan_value mem e JARRAY (p + 1) (join (map json_text js) @ RBRACKET # c # bs) (p + 2) 0 False = Some (length (join (map json_text js)) + 2)"
    using e by (simp add: JArr json_type_defs close_mark_def)
  then show ?thesis using e by (simp add: JArr mem p)
qed (use ok(2) in simp)

lemma drop_at: "mem = a @ s \<Longrightarrow> length a = n \<Longrightarrow> drop n mem = s"
  by simp

lemma get_key_text:
  assumes "mem = a @ c # QUOTE # k @ QUOTE # 0x3A # s" and "string_ok k" and "c \<notin> {0, QUOTE}"
  shows "get_key mem (length a) = Some (Inr (length a + 2, length k, Some (length a + length k + 3)))"
proof -
  have "strchr mem (length a) QUOTE = Some (Some (length a + 1))"
    using assms by (simp add: strchr_def)
  moreover have "strchr mem (length a + 2) QUOTE = Some (Some (length a + length k + 2))"
    using assms by (simp add: strchr_def string_ok_def chr_dist_text)
  moreover have "strchr mem (length a + length k + 2) 0x3A = Some (Some (length a + length k + 3))"
    using assms by (simp add: strchr_def drop_at [of _ "a @ c # QUOTE # k" "QUOTE # 0x3A # s"])
  ultimately show ?thesis by (simp add: get_key_def Let_def)
qed

definition member_out :: "nat \<Rightarrow> cstr \<Rightarrow> json \<Rightarrow> json_out" where
  "member_out p k j =
     \<lparr>jo_key = Some (p + 2), jo_klen = length k, jo_val = Some (p + length k + 4 + value_off j), jo_vlen = length (json_payload j), jo_type = json_type j\<rparr>"

lemma json_payload_text: "value_off j + length (json_payload j) \<le> length (json_text j)"
  by (cases j) auto

lemma next_pos: "(if json_type j = JSTRING then q + value_off j + length (json_payload j) + 1 else q + value_off j + length (json_payload j)) = q + length (json_text j)"
  by (cases j) (auto simp: json_type_defs)

lemma get_value_found:
  "find_value e (drop p mem) p = Some (t, Some v, q) \<Longrightarrow> scan_value mem e t v (drop q mem) q 0 False = Some n \<Longrightarrow> v + n \<le> e \<Longrightarrow>
     get_value mem (Some p) e out = Some (Some (if t = JSTRING then v + n + 1 else v + n), out\<lparr>jo_val := Some v, jo_vlen := n, jo_type := t\<rparr>)"
  by (simp add: get_value_def)

lemma next_member:
  assumes ok: "string_ok k" "json_ok j" "j \<noteq> JNull" and mem: "mem = a @ c # member_text (k, json_text j) @ c' # bs"
    and c: "c \<notin> {0, QUOTE}" "c' \<in> {0x2C, RBRACE}" and z: "0 \<in> set bs"
    and e: "length a + 1 + length (member_text (k, json_text j)) < e"
  shows "json_get_next_object mem JOBJECT (length a) e out = Some (Some (length a + 1 + length (member_text (k, json_text j))), member_out (length a) k j)"
proof -
  let ?p = "length a + length k + 3"
  have key: "get_key mem (length a) = Some (Inr (length a + 2, length k, Some ?p))"
    using mem ok c by (intro get_key_text) (auto simp: member_text_def)
  obtain q where q: "find_value e (drop ?p mem) ?p = Some (json_type j, Some (?p + 1 + value_off j), q)"
    "scan_value mem e (json_type j) (?p + 1 + value_off j) (drop q mem) q 0 False = Some (length (json_payload j))"
    using value_read [OF ok(2,3), of mem "a @ c # QUOTE # k @ [QUOTE]" c' bs ?p e] c z e mem by (auto simp: member_text_def)
  have le: "?p + 1 + value_off j + length (json_payload j) \<le> e"
    using e json_payload_text [of j] by (simp add: member_text_def)
  have "get_value mem (Some ?p) e (out\<lparr>jo_key := Some (length a + 2), jo_klen := length k\<rparr>) = Some (Some (?p + 1 + length (json_text j)), member_out (length a) k j)"
    unfolding get_value_found [OF q le] next_pos by (simp add: member_out_def)
  then show ?thesis using e by (simp add: json_get_next_object_def key member_text_def)
qed

text \<open>Behind the last member there is nothing: the next quote, if any, stands outside.\<close>

lemma chr_dist_Some: "0 \<in> set bs \<Longrightarrow> \<exists>d. chr_dist c bs = Some d \<and> (\<forall>n. d = Some n \<longrightarrow> c \<noteq> 0 \<longrightarrow> 0 \<in> set (drop (n + 1) bs))"
  by (induction bs) (auto simp: less_Suc_eq)

lemma strchr_Some:
  assumes "0 \<in> set (drop p mem)" and "c \<noteq> 0"
  shows "\<exists>q. strchr mem p c = Some q \<and> (\<forall>n. q = Some n \<longrightarrow> p \<le> n \<and> n < length mem \<and> 0 \<in> set (drop (n + 1) mem))"
proof -
  obtain d where "chr_dist c (drop p mem) = Some d" "\<forall>n. d = Some n \<longrightarrow> 0 \<in> set (drop (n + 1) (drop p mem))"
    using chr_dist_Some [OF assms(1)] assms(2) by blast
  then show ?thesis
    using strchr_bound [of mem p c] by (auto simp: strchr_def add.commute add.left_commute)
qed

subsection \<open>Reads stay inside\<close>

lemma zero_behind: "0 \<in> set (drop e mem) \<Longrightarrow> p \<le> e \<Longrightarrow> 0 \<in> set (drop p mem)"
  by (meson set_drop_subset_set_drop subsetD)

lemma find_value_total: "0 \<in> set bs \<Longrightarrow> find_value e bs p \<noteq> None"
  by (induction bs arbitrary: p) auto

lemma find_value_string:
  "find_value e bs p = Some (JSTRING, Some v, p') \<Longrightarrow> v = p' \<and> p < v \<and> bs ! (v - 1 - p) = QUOTE"
proof (induction bs arbitrary: p)
  case (Cons b bs)
  consider "b = QUOTE" "v = p + 1" "p' = p + 1" | "find_value e bs (p + 1) = Some (JSTRING, Some v, p')"
    using Cons.prems by (auto simp: json_type_defs split: if_splits)
  then show ?case
  proof cases
    case 2
    then have "v = p' \<and> p + 1 < v \<and> bs ! (v - 1 - (p + 1)) = QUOTE" by (rule Cons.IH)
    moreover from this obtain i where "v = Suc (p + 1 + i)" using less_iff_Suc_add by auto
    ultimately show ?thesis by auto
  qed simp
qed simp

lemma boolean_len_total: "0 \<in> set s \<Longrightarrow> boolean_len s \<noteq> None"
  by (cases s) (simp_all add: boolean_len_def strlen_def)

lemma scan_value_not_None:
  "0 \<in> set (drop v mem) \<Longrightarrow> 0 \<in> set bs \<Longrightarrow> scan_value mem e t v bs p d q \<noteq> None"
proof (induction bs arbitrary: t p d q)
  case (Cons b bs)
  obtain len where "boolean_len (drop v mem) = Some len"
    using boolean_len_total [OF Cons.prems(1)] by blast
  then show ?case using Cons by (cases "b = 0"; cases len) (simp_all del: not_None_eq)
qed simp

lemma scan_value_total:
  "0 \<in> set (drop v mem) \<Longrightarrow> 0 \<in> set bs \<Longrightarrow> \<exists>n. scan_value mem e t v bs p d q = Some n"
  using scan_value_not_None by blast

lemma scan_string_bound: "scan_value mem e JSTRING v bs p d q = Some n \<Longrightarrow> v \<le> p \<Longrightarrow> n = 0 \<or> v + n < e"
proof (induction bs arbitrary: p)
  case (Cons b bs)
  then show ?case by (auto simp: json_type_defs split: if_splits)
qed simp

text \<open>A value that is seen does not end in a quote.\<close>

lemma drop_Cons_nth: "b # bs = drop p mem \<Longrightarrow> mem ! p = b \<and> bs = drop (Suc p) mem"
  by (metis drop_Suc list.sel(3) nth_via_drop tl_drop)

lemma scan_number_last:
  "scan_value mem e JNUMBER v bs p d q = Some n \<Longrightarrow> bs = drop p mem \<Longrightarrow> v \<le> p \<Longrightarrow> (v < p \<longrightarrow> mem ! (p - 1) \<noteq> QUOTE) \<Longrightarrow> 0 < n \<Longrightarrow>
     mem ! (v + n - 1) \<noteq> QUOTE"
proof (induction bs arbitrary: p)
  case (Cons b bs)
  then show ?case
    using drop_Cons_nth [OF Cons.prems(2)] number_char_plain [of b] by (auto simp: json_type_defs split: if_splits)
qed simp

lemma scan_string_last:
  "scan_value mem e JSTRING v bs p d q = Some n \<Longrightarrow> bs = drop p mem \<Longrightarrow> v \<le> p \<Longrightarrow> (v < p \<longrightarrow> mem ! (p - 1) \<noteq> QUOTE) \<Longrightarrow> 0 < n \<Longrightarrow>
     mem ! (v + n - 1) \<noteq> QUOTE"
proof (induction bs arbitrary: p)
  case (Cons b bs)
  then show ?case
    using drop_Cons_nth [OF Cons.prems(2)] by (auto simp: json_type_defs split: if_splits)
qed simp

lemma scan_marks_last:
  "scan_value mem e t v bs p d q = Some n \<Longrightarrow> t = JOBJECT \<or> t = JARRAY \<Longrightarrow> bs = drop p mem \<Longrightarrow> v \<le> p \<Longrightarrow> 0 < n \<Longrightarrow>
     mem ! (v + n - 1) = close_mark t"
proof (induction bs arbitrary: p d q)
  case (Cons b bs)
  have marks: "t \<noteq> JBOOLEAN" "t \<noteq> JNUMBER" "t \<noteq> JSTRING" using Cons.prems(2) by (auto simp: json_type_defs)
  have mem: "mem ! p = b" "bs = drop (Suc p) mem" using drop_Cons_nth [OF Cons.prems(3)] by auto
  consider "b = close_mark t" "n = p - v + 1" | d' q' where "scan_value mem e t v bs (Suc p) d' q' = Some n"
    using Cons.prems(1,5) by (auto simp: marks simp del: close_mark_def split: if_splits)
  then show ?case
    by cases (use mem Cons.prems Cons.IH in auto)
qed simp

lemma scan_boolean: "scan_value mem e JBOOLEAN v bs p d q = Some n \<Longrightarrow> 0 < n \<Longrightarrow> boolean_len (drop v mem) = Some (Some n)"
  by (induction bs arbitrary: p) (auto simp: bind_eq_Some_conv split: if_splits option.splits)

lemma boolean_last:
  assumes "boolean_len (drop v mem) = Some (Some n)"
  shows "mem ! (v + n - 1) \<noteq> QUOTE"
proof -
  have n: "n = 4 \<and> take 4 (drop v mem) \<in> {ascii ''true'', ascii ''TRUE''} \<or> n = 5 \<and> take 5 (drop v mem) \<in> {ascii ''false'', ascii ''FALSE''}"
    using assms by (auto simp: boolean_len_def bind_eq_Some_conv split: if_splits)
  then have "length (take n (drop v mem)) = n" by (elim disjE conjE insertE) (simp_all del: length_take add: ascii_def)
  moreover have "0 < n" using n by auto
  ultimately have "mem ! (v + n - 1) = take n (drop v mem) ! (n - 1)" by (cases n) simp_all
  then show ?thesis using n by (auto simp: ascii_def)
qed

lemma find_value_kind:
  "find_value e bs p = Some (t, Some v, p') \<Longrightarrow> bs = drop p mem \<Longrightarrow>
     (t = JSTRING \<or> t = JBOOLEAN) \<and> p' = v \<or> (t = JOBJECT \<or> t = JARRAY) \<and> p' = v + 1 \<or> t = JNUMBER \<and> p' = v + 1 \<and> mem ! v \<noteq> QUOTE"
proof (induction bs arbitrary: p)
  case (Cons b bs)
  have mem: "mem ! p = b" "bs = drop (Suc p) mem" using drop_Cons_nth [OF Cons.prems(2)] by auto
  show ?case using Cons.prems(1) Cons.IH [OF _ mem(2)] mem(1) by (auto split: if_splits)
qed simp

lemma scan_last:
  assumes scan: "scan_value mem e t v (drop q mem) q 0 False = Some n" and "0 < n"
    and find: "find_value e (drop p mem) p = Some (t, Some v, q)"
  shows "mem ! (v + n - 1) \<noteq> QUOTE"
  using find_value_kind [OF find refl]
proof (elim disjE conjE)
  assume "t = JSTRING" "q = v"
  then show ?thesis using scan_string_last [of mem e v "drop q mem" q] assms by simp
next
  assume "t = JBOOLEAN" "q = v"
  then show ?thesis using boolean_last scan_boolean assms by blast
next
  assume "t = JNUMBER" "q = v + 1" "mem ! v \<noteq> QUOTE"
  then show ?thesis using scan_number_last [of mem e v "drop q mem" q] assms by simp
qed (use scan_marks_last [OF scan _ refl] assms(2) in \<open>auto simp: close_mark_def split: if_splits\<close>)

text \<open>The places a step hands out are inside the text, and so is the place where it goes on.\<close>

definition out_inside :: "byte list \<Rightarrow> nat \<Rightarrow> json_out \<Rightarrow> bool" where
  "out_inside mem e out \<longleftrightarrow> (\<forall>k. jo_key out = Some k \<longrightarrow> k + jo_klen out \<le> e) \<and>
     (\<forall>v. jo_val out = Some v \<longrightarrow> v + jo_vlen out \<le> e \<and> (0 < jo_vlen out \<longrightarrow> mem ! (v + jo_vlen out - 1) \<noteq> QUOTE))"

lemma out_inside_no_object [simp]: "out_inside mem e (snd (no_object out))"
  by (simp add: out_inside_def no_object_def)

lemma no_object_fst [simp]: "fst (no_object out) = None"
  by (simp add: no_object_def)

lemma get_value_total:
  assumes z: "0 \<in> set (drop e mem)" and pos: "\<And>p. pos = Some p \<Longrightarrow> 0 \<in> set (drop p mem)"
  shows "\<exists>r. get_value mem pos e out = Some r"
proof (cases pos)
  case (Some p)
  obtain t val q where f: "find_value e (drop p mem) p = Some (t, val, q)"
    using find_value_total [OF pos [OF Some]] by fastforce
  show ?thesis
  proof (cases val)
    case val: (Some v)
    have "v \<le> q" "q \<le> e" using find_value_bound [OF f [unfolded val]] by auto
    then obtain n where "scan_value mem e t v (drop q mem) q 0 False = Some n"
      using scan_value_total zero_behind [OF z, of q] zero_behind [OF z, of v] by (meson order_trans)
    then show ?thesis by (simp add: get_value_def Some f val)
  qed (simp add: get_value_def Some f)
qed (simp add: get_value_def)

lemma get_value_safe:
  assumes z: "0 \<in> set (drop e mem)" and last: "0 < e \<Longrightarrow> mem ! (e - 1) \<noteq> QUOTE"
    and pos: "\<And>p. pos = Some p \<Longrightarrow> 0 \<in> set (drop p mem)"
    and key: "\<And>k. jo_key out = Some k \<Longrightarrow> k + jo_klen out \<le> e"
  shows "\<exists>r out'. get_value mem pos e out = Some (r, out') \<and> out_inside mem e out' \<and> (\<forall>n. r = Some n \<longrightarrow> n \<le> e)"
proof (cases pos)
  case None
  then show ?thesis using key by (auto simp: get_value_def out_inside_def)
next
  case (Some p)
  obtain t val q where f: "find_value e (drop p mem) p = Some (t, val, q)"
    using find_value_total [OF pos [OF Some]] by fastforce
  show ?thesis
  proof (cases val)
    case None
    then show ?thesis using key by (auto simp: get_value_def out_inside_def Some f)
  next
    case val: (Some v)
    have vq: "v \<le> q" "q \<le> e" "p \<le> v" "p < length mem"
      using find_value_bound [OF f [unfolded val]] pos [OF Some] by (auto intro: ccontr)
    obtain n where n: "scan_value mem e t v (drop q mem) q 0 False = Some n"
      using scan_value_total zero_behind [OF z, of q] zero_behind [OF z, of v] vq by (meson order_trans)
    have "0 < n \<Longrightarrow> mem ! (v + n - 1) \<noteq> QUOTE" using scan_last [OF n _ f [unfolded val]] by blast
    moreover have "v + n + 1 \<le> e" if t: "t = JSTRING" and le: "v + n \<le> e"
    proof (cases "n = 0")
      case True
      have *: "p < v" "mem ! (v - 1) = QUOTE" using find_value_string [OF f [unfolded val t]] vq by auto
      then have "v \<noteq> e" using last by auto
      then show ?thesis using True le by simp
    next
      case False
      then show ?thesis using scan_string_bound [OF n [unfolded t] vq(1)] by simp
    qed
    ultimately show ?thesis
      using key by (auto simp: get_value_def Some f val n out_inside_def no_object_def)
  qed
qed

lemma next_object_safe:
  assumes z: "0 \<in> set (drop e mem)" and last: "0 < e \<Longrightarrow> mem ! (e - 1) \<noteq> QUOTE" and str: "str \<le> e"
  shows "\<exists>r out'. json_get_next_object mem JOBJECT str e out = Some (r, out') \<and> out_inside mem e out' \<and> (\<forall>n. r = Some n \<longrightarrow> n \<le> e)"
proof -
  obtain q where q: "strchr mem str QUOTE = Some q" "\<forall>n. q = Some n \<longrightarrow> 0 \<in> set (drop (n + 1) mem)"
    using strchr_Some [OF zero_behind [OF z str], of QUOTE] by auto
  show ?thesis
  proof (cases q)
    case None
    then show ?thesis by (auto simp: json_get_next_object_def get_key_def q no_object_def out_inside_def)
  next
    case (Some n)
    obtain q' where q': "strchr mem (Suc n) QUOTE = Some q'" "\<forall>m. q' = Some m \<longrightarrow> Suc n \<le> m \<and> m < length mem \<and> 0 \<in> set (drop (m + 1) mem)"
      using strchr_Some [of "Suc n" mem QUOTE] q(2) Some by auto
    show ?thesis
    proof (cases q')
      case None
      then show ?thesis by (auto simp: json_get_next_object_def get_key_def q q' Some no_object_def out_inside_def)
    next
      case m: (Some m)
      then have zm: "0 \<in> set (drop m mem)" using q'(2) zero_behind [of "m + 1" mem m] by simp
      obtain pos where pos: "strchr mem m 0x3A = Some pos" "\<And>l. pos = Some l \<Longrightarrow> 0 \<in> set (drop l mem)"
        using strchr_Some [OF zm, of "0x3A"] zero_behind [of "Suc _"] by fastforce
      have key: "get_key mem str = Some (Inr (Suc n, m - Suc n, pos))"
        by (simp add: get_key_def q Some q' m pos(1) Let_def)
      show ?thesis
      proof (cases "Suc n + (m - Suc n) > e")
        case True
        moreover obtain r where "get_value mem pos e out = Some r" using get_value_total [OF z pos(2)] by blast
        ultimately show ?thesis by (auto simp: json_get_next_object_def key no_object_def out_inside_def)
      next
        case False
        then have "\<exists>r out'. get_value mem pos e (out\<lparr>jo_key := Some (Suc n), jo_klen := m - Suc n\<rparr>) = Some (r, out') \<and> out_inside mem e out' \<and>
            (\<forall>n. r = Some n \<longrightarrow> n \<le> e)"
          by (intro get_value_safe [OF z last pos(2)]) auto
        then show ?thesis using False by (simp add: json_get_next_object_def key)
      qed
    qed
  qed
qed

subsection \<open>Walking over a text\<close>

lemma get_object_bound: "get_object_loop ch e bs p = Some (Some q) \<Longrightarrow> p \<le> q \<and> q < e"
  by (induction bs arbitrary: p) (fastforce split: if_splits)+

lemma get_object_total: "0 \<in> set bs \<Longrightarrow> get_object_loop ch e bs p \<noteq> None"
  by (induction bs arbitrary: p) auto

text \<open>What the look-up remembers is inside the text.\<close>

definition nv_inside :: "byte list \<Rightarrow> nat \<Rightarrow> JSON_NV \<Rightarrow> bool" where
  "nv_inside mem e nv \<longleftrightarrow> (\<forall>v. nv_pV nv = Some v \<longrightarrow> v + nv_vLen nv \<le> e \<and> 0 < nv_vLen nv \<and> mem ! (v + nv_vLen nv - 1) \<noteq> QUOTE)"

lemma by_name_cb_total:
  "k + klen \<le> length mem \<Longrightarrow> json_get_value_by_name_cb mem name k klen v vlen t nv =
     Some (if klen = length name \<and> take klen (drop k mem) = name then (JSON_PARSE_FINISH, \<lparr>nv_pV = Some v, nv_vLen = vlen, nv_vType = t\<rparr>)
           else (JSON_PARSE_OK, nv))"
  by (simp add: json_get_value_by_name_cb_def load_bytes_def)

text \<open>The steps of the walk.\<close>

lemma loop_None: "parse_loop mem e cb None out ret data = Some (ret, data)"
  by (subst parse_loop.simps) simp

lemma loop_end:
  "load mem p = Some b \<Longrightarrow> b = 0 \<or> json_get_next_object mem JOBJECT p e out = Some (None, out') \<Longrightarrow>
     parse_loop mem e cb (Some p) out ret data = Some (ret, data)"
  by (subst parse_loop.simps) auto

text \<open>A step of the look-up, behind which it goes on at \<open>r\<close> or has found the value.\<close>

definition seen :: "json_out \<Rightarrow> bool" where
  "seen out \<longleftrightarrow> jo_key out \<noteq> None \<and> jo_val out \<noteq> None \<and> jo_klen out \<noteq> 0 \<and> jo_vlen out \<noteq> 0"

definition named :: "byte list \<Rightarrow> cstr \<Rightarrow> json_out \<Rightarrow> bool" where
  "named mem name out \<longleftrightarrow> jo_klen out = length name \<and> take (jo_klen out) (drop (the (jo_key out)) mem) = name"

lemma loop_step:
  assumes "load mem p = Some b" "b \<noteq> 0" "json_get_next_object mem JOBJECT p e out = Some (Some r, out')"
    and "\<And>k. jo_key out' = Some k \<Longrightarrow> k + jo_klen out' \<le> length mem"
  shows "parse_loop mem e (json_get_value_by_name_cb mem name) (Some p) out ret nv =
     (if seen out' then
        (if named mem name out' then Some (JSON_RESULT_OK, \<lparr>nv_pV = jo_val out', nv_vLen = jo_vlen out', nv_vType = jo_type out'\<rparr>)
         else parse_loop mem e (json_get_value_by_name_cb mem name) (Some r) out' JSON_RESULT_OK nv)
      else parse_loop mem e (json_get_value_by_name_cb mem name) (Some r) out' ret nv)"
  by (subst parse_loop.simps)
     (auto simp: assms by_name_cb_total seen_def named_def JSON_PARSE_FINISH_def JSON_PARSE_OK_def split: option.split)

lemma parse_loop_safe:
  assumes z: "0 \<in> set (drop e mem)" and last: "0 < e \<Longrightarrow> mem ! (e - 1) \<noteq> QUOTE"
  shows "p \<le> e \<Longrightarrow> nv_inside mem e nv \<Longrightarrow> (nv_pV nv \<noteq> None \<longrightarrow> ret = JSON_RESULT_OK) \<Longrightarrow>
     \<exists>rc nv'. parse_loop mem e (json_get_value_by_name_cb mem name) (Some p) out ret nv = Some (rc, nv') \<and> nv_inside mem e nv' \<and>
       (nv_pV nv' \<noteq> None \<longrightarrow> rc = JSON_RESULT_OK)"
proof (induction "e - p" arbitrary: p out ret nv rule: less_induct)
  case less
  have len: "e < length mem" using z by (rule contrapos_pp) simp
  then have load: "load mem p = Some (mem ! p)" using less.prems by (simp add: load_Some_iff)
  obtain r out' where next_obj: "json_get_next_object mem JOBJECT p e out = Some (r, out')" "out_inside mem e out'" "\<forall>n. r = Some n \<longrightarrow> n \<le> e"
    using next_object_safe [OF z last less.prems(1)] by blast
  show ?case
  proof (cases "mem ! p = 0 \<or> r = None")
    case True
    then have "parse_loop mem e (json_get_value_by_name_cb mem name) (Some p) out ret nv = Some (ret, nv)"
      using next_obj by (intro loop_end [OF load]) auto
    then show ?thesis using less.prems by simp
  next
    case False
    then obtain n where n: "r = Some n" by blast
    have prog: "p < n" "n \<le> e" using next_object_progress next_obj n by auto
    have rec: "\<exists>rc nv'. parse_loop mem e (json_get_value_by_name_cb mem name) (Some n) out' ret' nv = Some (rc, nv') \<and> nv_inside mem e nv' \<and>
       (nv_pV nv' \<noteq> None \<longrightarrow> rc = JSON_RESULT_OK)" if "ret' = ret \<or> ret' = JSON_RESULT_OK" for ret'
      using less.hyps [of n nv ret' out'] less.prems prog that by auto
    have step: "parse_loop mem e (json_get_value_by_name_cb mem name) (Some p) out ret nv =
     (if seen out' then
        (if named mem name out' then Some (JSON_RESULT_OK, \<lparr>nv_pV = jo_val out', nv_vLen = jo_vlen out', nv_vType = jo_type out'\<rparr>)
         else parse_loop mem e (json_get_value_by_name_cb mem name) (Some n) out' JSON_RESULT_OK nv)
      else parse_loop mem e (json_get_value_by_name_cb mem name) (Some n) out' ret nv)"
      using False next_obj n len by (intro loop_step [OF load]) (auto simp: out_inside_def)
    show ?thesis
      unfolding step using rec next_obj(2) by (auto simp: seen_def nv_inside_def out_inside_def)
  qed
qed

lemma by_name_safe:
  assumes z: "0 \<in> set (drop (p + n) mem)" and last: "0 < n \<Longrightarrow> mem ! (p + n - 1) \<noteq> QUOTE"
  shows "\<exists>v stored. json_get_value_by_name_len mem p n name = Some (v, stored) \<and>
     (\<forall>w. v = Some w \<longrightarrow> (\<exists>len t. stored = Some (len, t) \<and> 0 < len \<and> w + len \<le> p + n \<and> mem ! (w + len - 1) \<noteq> QUOTE))"
proof (cases "n = 0")
  case True
  then show ?thesis by (simp add: json_get_value_by_name_len_def json_parse_name_value_def)
next
  case False
  let ?nv = "\<lparr>nv_pV = None, nv_vLen = 0, nv_vType = 0\<rparr>"
  obtain pos where pos: "json_get_object mem JOBJECT p (p + n) = Some pos"
    using get_object_total [OF zero_behind [OF z, of p], of LBRACE "p + n" p] by (auto simp: json_get_object_def)
  have "\<exists>rc nv. parse_loop mem (p + n) (json_get_value_by_name_cb mem name) pos no_out JSON_RESULT_ERR ?nv = Some (rc, nv) \<and>
      nv_inside mem (p + n) nv \<and> (nv_pV nv \<noteq> None \<longrightarrow> rc = JSON_RESULT_OK)"
  proof (cases pos)
    case None
    then show ?thesis by (simp add: loop_None nv_inside_def)
  next
    case (Some q)
    then have "q \<le> p + n" using get_object_bound pos by (fastforce simp: json_get_object_def)
    then show ?thesis unfolding Some using False last by (intro parse_loop_safe [OF z]) (auto simp: nv_inside_def)
  qed
  then show ?thesis
    using False by (auto simp: json_get_value_by_name_len_def json_parse_name_value_def pos nv_inside_def)
qed

lemma value_of_loop_safe:
  "0 \<in> set (drop (p + n) mem) \<Longrightarrow> (0 < n \<longrightarrow> mem ! (p + n - 1) \<noteq> QUOTE) \<Longrightarrow>
     \<exists>r. value_of_loop mem p n key = Some r \<and> (\<forall>v len. r = Some (v, len) \<longrightarrow> 0 < len \<and> v + len \<le> p + n)"
proof (induction mem p n key rule: value_of_loop.induct)
  case (1 mem p n key)
  obtain v stored where v: "json_get_value_by_name_len mem p n (takeWhile (\<lambda>c. c \<noteq> 0x2E) key) = Some (v, stored)"
    "\<And>w. v = Some w \<Longrightarrow> \<exists>len t. stored = Some (len, t) \<and> 0 < len \<and> w + len \<le> p + n \<and> mem ! (w + len - 1) \<noteq> QUOTE"
    using by_name_safe [OF 1(2), of "takeWhile (\<lambda>c. c \<noteq> 0x2E) key"] 1(3) by auto
  show ?case
  proof (cases v)
    case None
    then show ?thesis by (subst value_of_loop.simps) (simp add: v(1))
  next
    case (Some w)
    then obtain len t where st: "stored = Some (len, t)" "0 < len" "w + len \<le> p + n" "mem ! (w + len - 1) \<noteq> QUOTE" using v(2) by blast
    show ?thesis
    proof (cases "0x2E \<in> set key")
      case True
      have "\<exists>r. value_of_loop mem w len (tl (dropWhile (\<lambda>c. c \<noteq> 0x2E) key)) = Some r \<and> (\<forall>v l. r = Some (v, l) \<longrightarrow> 0 < l \<and> v + l \<le> w + len)"
        using 1(1) [OF v(1) refl _ Some st(1) refl True] zero_behind [OF 1(2) st(3)] st(4) by (simp add: Some st(1))
      then show ?thesis using st(3) by (subst value_of_loop.simps) (auto simp: v(1) Some st(1) True intro: order_trans)
    next
      case False
      then show ?thesis using st by (subst value_of_loop.simps) (simp add: v(1) Some)
    qed
  qed
qed

lemma takeWhile_nonzero: "0 \<notin> set s \<Longrightarrow> takeWhile (\<lambda>b. b \<noteq> 0) (s @ 0 # bs) = s" for s :: "byte list"
  by (induction s) auto

lemma str_of_text: "0 \<notin> set s \<Longrightarrow> str_of (s @ 0 # bs) = Some s"
  by (simp add: str_of_def strlen_def load_bytes_def takeWhile_nonzero)

lemma strlen_text: "0 \<notin> set s \<Longrightarrow> strlen (s @ 0 # bs) = Some (length s)"
  by (simp add: strlen_def takeWhile_nonzero)

text \<open>
  C40: \<open>LITE_json_value_of\<close> stays inside the text: for any string that does not end in a quote, and for any key, the
  walk over it ends, no byte behind the terminator is read, and the result is either \<open>NULL\<close> or a terminated copy of a
  non-empty part of the string.
\<close>

theorem json_value_of_safe:
  assumes s: "0 \<notin> set s" and last: "s \<noteq> [] \<Longrightarrow> last s \<noteq> QUOTE"
  shows "\<exists>r. LITE_json_value_of room (s @ 0 # bs) key = Some r \<and>
     (\<forall>out. r = Some out \<longrightarrow> (\<exists>p n. 0 < n \<and> p + n \<le> length s \<and> out = take n (drop p s) @ [0]))"
proof -
  have "0 < length s \<longrightarrow> (s @ 0 # bs) ! (0 + length s - 1) \<noteq> QUOTE"
    using last by (auto simp: nth_append last_conv_nth)
  then obtain r where r: "value_of_loop (s @ 0 # bs) 0 (length s) key = Some r" "\<forall>v len. r = Some (v, len) \<longrightarrow> 0 < len \<and> v + len \<le> length s"
    using value_of_loop_safe [of 0 "length s" "s @ 0 # bs" key] by auto
  show ?thesis
  proof (cases "r = None \<or> \<not> room")
    case True
    then show ?thesis by (auto simp: LITE_json_value_of_def strlen_text [OF s] r(1) split: option.split)
  next
    case False
    then obtain v len where v: "r = Some (v, len)" "0 < len" "v + len \<le> length s" using r(2) by auto
    have "str_of (drop v (s @ 0 # bs)) = Some (drop v s)"
      using v(3) str_of_text [of "drop v s" bs] s by (simp add: in_set_dropD) (meson in_set_dropD)
    then have "LITE_json_value_of room (s @ 0 # bs) key = Some (Some (take len (drop v s) @ [0]))"
      using False by (simp add: LITE_json_value_of_def strlen_text [OF s] r(1) v(1) snprintf_def)
    then show ?thesis using v by auto
  qed
qed

subsection \<open>The value is found\<close>

text \<open>Behind the last member, and in a text without a quote, there is no member.\<close>

lemma chr_dist_outside: "c \<notin> set s \<Longrightarrow> chr_dist c (s @ bs) = Some (Some d) \<Longrightarrow> length s \<le> d"
  by (induction s arbitrary: d) (auto split: if_splits)

lemma no_member:
  assumes mem: "mem = a @ s @ bs" and s: "QUOTE \<notin> set s" and z: "0 \<in> set bs"
  shows "\<exists>out'. json_get_next_object mem JOBJECT (length a) (length a + length s) out = Some (None, out')"
proof -
  let ?e = "length a + length s"
  have ze: "0 \<in> set (drop ?e mem)" using mem z by simp
  obtain q where q: "strchr mem (length a) QUOTE = Some q" "\<And>n. q = Some n \<Longrightarrow> ?e \<le> n \<and> 0 \<in> set (drop (Suc n) mem)"
  proof -
    obtain q where q: "strchr mem (length a) QUOTE = Some q" "\<forall>n. q = Some n \<longrightarrow> 0 \<in> set (drop (Suc n) mem)"
      using strchr_Some [OF zero_behind [OF ze], of "length a" QUOTE] by auto
    moreover have "?e \<le> n" if "q = Some n" for n
      using q(1) that chr_dist_outside [OF s, of bs] by (auto simp: strchr_def mem)
    ultimately show ?thesis using that by blast
  qed
  show ?thesis
  proof (cases q)
    case None
    then show ?thesis by (simp add: json_get_next_object_def get_key_def q(1) no_object_def)
  next
    case (Some n)
    obtain q' where q': "strchr mem (Suc n) QUOTE = Some q'" "\<forall>m. q' = Some m \<longrightarrow> Suc n \<le> m \<and> 0 \<in> set (drop (m + 1) mem)"
      using strchr_Some [of "Suc n" mem QUOTE] q(2) [OF Some] by auto
    show ?thesis
    proof (cases q')
      case None
      then show ?thesis by (simp add: json_get_next_object_def get_key_def q(1) q' Some no_object_def)
    next
      case m: (Some m)
      then have zm: "0 \<in> set (drop m mem)" using q'(2) zero_behind [of "m + 1" mem m] by simp
      obtain pos where pos: "strchr mem m 0x3A = Some pos" "\<And>l. pos = Some l \<Longrightarrow> 0 \<in> set (drop l mem)"
        using strchr_Some [OF zm, of "0x3A"] zero_behind [of "Suc _"] by fastforce
      obtain r where "get_value mem pos ?e out = Some r" using get_value_total [OF ze pos(2)] by blast
      moreover have "get_key mem (length a) = Some (Inr (Suc n, m - Suc n, pos))"
        by (simp add: get_key_def q(1) Some q' m pos(1) Let_def)
      moreover have "?e < Suc n" using q(2) [OF Some] by simp
      ultimately show ?thesis by (simp add: json_get_next_object_def no_object_def)
    qed
  qed
qed

lemma loop_no_member:
  assumes mem: "mem = a @ s @ bs" and s: "QUOTE \<notin> set s" "s \<noteq> []" and z: "0 \<in> set bs"
  shows "parse_loop mem (length a + length s) cb (Some (length a)) out ret data = Some (ret, data)"
proof -
  have "load mem (length a) = Some (hd s)" using s(2) by (cases s) (simp_all add: mem)
  moreover obtain out' where "json_get_next_object mem JOBJECT (length a) (length a + length s) out = Some (None, out')"
    using no_member [OF mem s(1) z] by blast
  ultimately show ?thesis by (intro loop_end) auto
qed

text \<open>What the look-up of a member returns, and where.\<close>

definition finds :: "byte list \<Rightarrow> json option \<Rightarrow> (int \<times> JSON_NV) option \<Rightarrow> bool" where
  "finds mem m res \<longleftrightarrow>
     (case m of
        None \<Rightarrow> (\<exists>rc nv. res = Some (rc, nv) \<and> nv_pV nv = None)
      | Some j \<Rightarrow> (\<exists>v. res = Some (JSON_RESULT_OK, \<lparr>nv_pV = Some v, nv_vLen = length (json_payload j), nv_vType = json_type j\<rparr>) \<and>
                    text_at mem v (json_payload j)))"

lemma json_payload_at: "text_at mem p (json_text j) \<Longrightarrow> text_at mem (p + value_off j) (json_payload j)"
proof (cases j)
  case (JStr s)
  assume "text_at mem p (json_text j)"
  then have "text_at mem (p + 1) (s @ [QUOTE])" by (intro text_at_Cons [of mem p QUOTE]) (simp add: JStr)
  then show ?thesis by (simp add: JStr text_at_prefix)
qed simp_all

lemma members_text_Cons:
  "members_text ((k, j) # ms) = member_text (k, json_text j) @ (if ms = [] then [] else 0x2C # members_text ms)"
  by (cases ms) simp_all

text \<open>One step, and then what the rest of the walk finds.\<close>

lemma loop_member:
  assumes ok: "string_ok k" "json_ok j" "j \<noteq> JNull" and mem: "mem = a @ c # member_text (k, json_text j) @ c' # bs"
    and c: "c \<notin> {0, QUOTE}" "c' \<in> {0x2C, RBRACE}" and z: "0 \<in> set bs"
    and e: "length a + 1 + length (member_text (k, json_text j)) < e"
    and more: "\<And>out ret. finds mem (map_of (filter visible ms) name)
      (parse_loop mem e (json_get_value_by_name_cb mem name) (Some (length a + 1 + length (member_text (k, json_text j)))) out ret nv)"
  shows "finds mem (map_of (filter visible ((k, j) # ms)) name)
     (parse_loop mem e (json_get_value_by_name_cb mem name) (Some (length a)) out ret nv)"
proof -
  let ?out = "member_out (length a) k j"
  have load: "load mem (length a) = Some c" by (simp add: mem)
  have key: "take (length k) (drop (length a + 2) mem) = k" "length a + 2 + length k \<le> length mem" by (simp_all add: mem member_text_def)
  have val: "text_at mem (length a + length k + 4 + value_off j) (json_payload j)"
  proof (rule json_payload_at)
    have "mem = (a @ c # QUOTE # k @ [QUOTE, 0x3A]) @ json_text j @ c' # bs" by (simp add: mem member_text_def)
    moreover have "length (a @ c # QUOTE # k @ [QUOTE, 0x3A]) = length a + length k + 4" by simp
    moreover have "0 \<in> set (c' # bs)" using z by simp
    ultimately show "text_at mem (length a + length k + 4) (json_text j)" unfolding text_at_def by blast
  qed
  have seen: "seen ?out = visible (k, j)" by (simp add: seen_def visible_def member_out_def)
  have named: "named mem name ?out \<longleftrightarrow> k = name" using key(1) by (auto simp: named_def member_out_def)
  have step: "parse_loop mem e (json_get_value_by_name_cb mem name) (Some (length a)) out ret nv =
     (if seen ?out then
        (if named mem name ?out then Some (JSON_RESULT_OK, \<lparr>nv_pV = jo_val ?out, nv_vLen = jo_vlen ?out, nv_vType = jo_type ?out\<rparr>)
         else parse_loop mem e (json_get_value_by_name_cb mem name) (Some (length a + 1 + length (member_text (k, json_text j)))) ?out JSON_RESULT_OK nv)
      else parse_loop mem e (json_get_value_by_name_cb mem name) (Some (length a + 1 + length (member_text (k, json_text j)))) ?out ret nv)"
    using c key(2) by (intro loop_step [OF load _ next_member [OF ok mem c z e]]) (auto simp: member_out_def)
  show ?thesis
  proof (cases "visible (k, j) \<and> k = name")
    case True
    then show ?thesis unfolding step seen named using val by (auto simp: finds_def member_out_def)
  next
    case False
    then show ?thesis unfolding step seen named using more by auto
  qed
qed

lemma loop_members:
  "mem = a @ c # members_text ((k, j) # ms) @ RBRACE # bs \<Longrightarrow> c \<notin> {0, QUOTE} \<Longrightarrow> 0 \<in> set bs \<Longrightarrow> json_ok (JObj ((k, j) # ms)) \<Longrightarrow>
     e = length a + length (members_text ((k, j) # ms)) + 2 \<Longrightarrow> nv_pV nv = None \<Longrightarrow>
     finds mem (map_of (filter visible ((k, j) # ms)) name)
       (parse_loop mem e (json_get_value_by_name_cb mem name) (Some (length a)) out ret nv)"
proof (induction ms arbitrary: a c k j out ret)
  case Nil
  have mem: "mem = a @ c # member_text (k, json_text j) @ RBRACE # bs" using Nil(1) by simp
  have e: "e = length (a @ c # member_text (k, json_text j)) + length [RBRACE]" using Nil(5) by simp
  have "parse_loop mem e (json_get_value_by_name_cb mem name) (Some (length a + 1 + length (member_text (k, json_text j)))) out ret nv = Some (ret, nv)" for out ret
    using loop_no_member [of mem "a @ c # member_text (k, json_text j)" "[RBRACE]" bs] Nil(3) unfolding e by (simp add: mem)
  then show ?case
    using Nil e by (intro loop_member [OF _ _ _ mem]) (auto simp: finds_def)
next
  case (Cons m ms)
  obtain k' j' where m: "m = (k', j')" by fastforce
  let ?a = "a @ c # member_text (k, json_text j)"
  have mem: "mem = a @ c # member_text (k, json_text j) @ 0x2C # members_text (m # ms) @ RBRACE # bs"
    using Cons.prems(1) unfolding members_text_Cons by simp
  have e: "e = length ?a + length (members_text (m # ms)) + 2" using Cons.prems(5) unfolding members_text_Cons by simp
  have ok: "json_ok (JObj (m # ms))" using Cons.prems(4) by simp
  have "finds mem (map_of (filter visible (m # ms)) name) (parse_loop mem e (json_get_value_by_name_cb mem name) (Some (length ?a)) out ret nv)" for out ret
    unfolding m by (rule Cons.IH [OF _ _ Cons.prems(3) ok [unfolded m] e [unfolded m] Cons.prems(6)]) (use mem m in auto)
  moreover have "length ?a = length a + 1 + length (member_text (k, json_text j))" by simp
  ultimately have more: "finds mem (map_of (filter visible (m # ms)) name)
      (parse_loop mem e (json_get_value_by_name_cb mem name) (Some (length a + 1 + length (member_text (k, json_text j)))) out ret nv)" for out ret
    by simp
  have "string_ok k" "json_ok j" "j \<noteq> JNull" "length a + 1 + length (member_text (k, json_text j)) < e" using Cons.prems(4) e by simp_all
  moreover have "0 \<in> set (members_text (m # ms) @ RBRACE # bs)" using Cons.prems(3) by simp
  ultimately show ?case
    using Cons.prems(2) more by (intro loop_member [OF _ _ _ mem]) simp_all
qed

text \<open>A look-up in the payload of a value, wherever it stands.\<close>

lemma get_object_brace: "p + 1 \<le> e \<Longrightarrow> drop p mem = LBRACE # bs \<Longrightarrow> json_get_object mem JOBJECT p e = Some (Some p)"
  by (simp add: json_get_object_def)

lemma get_object_other: "c \<notin> {0, 0x20, LBRACE} \<Longrightarrow> drop p mem = c # bs \<Longrightarrow> json_get_object mem JOBJECT p e = Some None"
  by (simp add: json_get_object_def)

lemma get_object_inside:
  "get_object_loop ch e (s @ bs) p = Some (Some q) \<Longrightarrow> e = p + length s \<Longrightarrow> \<exists>s1 s2. s = s1 @ s2 \<and> q = p + length s1 \<and> s2 \<noteq> []"
proof (induction s arbitrary: p)
  case Nil
  then show ?case by (cases bs) auto
next
  case (Cons b s)
  show ?case
  proof (cases "b = 0x20")
    case True
    then obtain s1 s2 where "s = s1 @ s2" "q = p + 1 + length s1" "s2 \<noteq> []"
      using Cons.IH [of "p + 1"] Cons.prems by auto
    then show ?thesis by (intro exI [of _ "b # s1"] exI [of _ s2]) simp
  next
    case False
    then have "q = p" using Cons.prems(1) by (simp split: if_splits)
    then show ?thesis by (intro exI [of _ "[]"] exI [of _ "b # s"]) simp
  qed
qed

text \<open>\<open>json_parse_name_value\<close> with the call-back of the look-up.\<close>

abbreviation (input) nv0 :: JSON_NV where
  "nv0 \<equiv> \<lparr>nv_pV = None, nv_vLen = 0, nv_vType = 0\<rparr>"

lemma parse_object:
  assumes mem: "mem = a @ json_text (JObj ms) @ bs" and z: "0 \<in> set bs" and ok: "json_ok (JObj ms)"
  shows "finds mem (map_of (filter visible ms) name)
     (json_parse_name_value mem (length a) (length (json_text (JObj ms))) (json_get_value_by_name_cb mem name) nv0)"
proof -
  let ?e = "length a + length (json_text (JObj ms))"
  have obj: "json_get_object mem JOBJECT (length a) ?e = Some (Some (length a))"
    by (rule get_object_brace) (auto simp: mem)
  have "finds mem (map_of (filter visible ms) name)
      (parse_loop mem ?e (json_get_value_by_name_cb mem name) (Some (length a)) no_out JSON_RESULT_ERR nv0)"
  proof (cases ms)
    case Nil
    have "parse_loop mem (length a + length [LBRACE, RBRACE]) (json_get_value_by_name_cb mem name) (Some (length a)) no_out JSON_RESULT_ERR nv0 = Some (JSON_RESULT_ERR, nv0)"
      using z by (intro loop_no_member) (auto simp: mem Nil)
    then show ?thesis by (simp add: Nil finds_def)
  next
    case (Cons m ms')
    obtain k j where m: "m = (k, j)" by fastforce
    show ?thesis
      unfolding Cons m by (rule loop_members [of _ _ LBRACE]) (use mem z ok Cons m in auto)
  qed
  moreover have "length (json_text (JObj ms)) \<noteq> 0" by simp
  ultimately show ?thesis unfolding json_parse_name_value_def by (simp only: if_False obj bind.simps)
qed

lemma parse_string:
  assumes mem: "mem = a @ s @ bs" and z: "0 \<in> set bs" and s: "string_ok s"
  shows "\<exists>rc. json_parse_name_value mem (length a) (length s) (json_get_value_by_name_cb mem name) nv0 = Some (rc, nv0)"
proof -
  let ?e = "length a + length s"
  obtain pos where pos: "get_object_loop LBRACE ?e (s @ bs) (length a) = Some pos"
    using get_object_total [of "s @ bs" LBRACE ?e "length a"] z by auto
  show ?thesis
  proof (cases pos)
    case (Some q)
    obtain s1 s2 where s12: "s = s1 @ s2" "q = length a + length s1" "s2 \<noteq> []"
      using get_object_inside [OF pos [unfolded Some]] by auto
    have "parse_loop mem (length (a @ s1) + length s2) (json_get_value_by_name_cb mem name) (Some (length (a @ s1))) no_out JSON_RESULT_ERR nv0 = Some (JSON_RESULT_ERR, nv0)"
      using s12 s z by (intro loop_no_member) (auto simp: mem string_ok_def)
    then show ?thesis using pos s12 by (simp add: json_parse_name_value_def json_get_object_def mem Some add.assoc)
  qed (use pos in \<open>simp add: json_parse_name_value_def json_get_object_def mem loop_None\<close>)
qed

lemma parse_other:
  assumes "mem = a @ c # bs" and "c \<notin> {0, 0x20, LBRACE}"
  shows "\<exists>rc. json_parse_name_value mem (length a) n cb data = Some (rc, data)"
  using get_object_other [OF assms(2), of "length a" mem bs] by (simp add: json_parse_name_value_def assms(1) loop_None)

lemma json_payload_head:
  assumes "json_ok j" and "\<And>s. j \<noteq> JStr s" and "\<And>ms. j \<noteq> JObj ms"
  shows "\<exists>c s. json_payload j = c # s \<and> c \<notin> {0, 0x20, LBRACE}"
proof (cases j)
  case (JNum ds)
  then show ?thesis using assms(1) by (cases ds) (auto simp: number_ok_def number_char_def word_le_nat_alt)
qed (use assms in \<open>auto simp: ascii_def\<close>)

lemma by_name_finds:
  assumes at: "text_at mem p (json_payload j)" and ok: "json_ok j"
  shows "finds mem (json_member j name) (json_parse_name_value mem p (length (json_payload j)) (json_get_value_by_name_cb mem name) nv0)"
proof -
  obtain a bs where mem: "mem = a @ json_payload j @ bs" "p = length a" and z: "0 \<in> set bs" using at by (auto simp: text_at_def)
  consider s where "j = JStr s" | ms where "j = JObj ms" | c s where "json_payload j = c # s" "c \<notin> {0, 0x20, LBRACE}" "json_member j name = None"
    using json_payload_head [OF ok] by (cases j) (auto simp: json_member_def)
  then show ?thesis
  proof cases
    case 1
    then show ?thesis using parse_string [of mem a s bs name] mem z ok by (auto simp: finds_def json_member_def)
  next
    case 2
    then show ?thesis using parse_object [of mem a ms bs name] mem z ok by (simp add: json_member_def)
  next
    case 3
    then show ?thesis
      using parse_other [of mem a c "s @ bs" "length (json_payload j)" "json_get_value_by_name_cb mem name" nv0] mem by (auto simp: finds_def)
  qed
qed

lemma json_member_ok: "json_ok j \<Longrightarrow> json_member j name = Some m \<Longrightarrow> json_ok m"
  by (fastforce simp: json_member_def list_all_iff split: json.splits dest!: map_of_SomeD)

lemma json_path_ok: "json_ok j \<Longrightarrow> json_path j path = Some m \<Longrightarrow> json_ok m"
  by (induction path arbitrary: j) (auto simp: bind_eq_Some_conv dest: json_member_ok)

lemma json_payload_nonzero: "json_ok j \<Longrightarrow> 0 \<notin> set (json_payload j)"
  using json_text_nonzero [of j] by (cases j) auto

lemma by_name_result:
  assumes "text_at mem p (json_payload j)" "json_ok j"
  shows "case json_member j name of
      None \<Rightarrow> \<exists>st. json_get_value_by_name_len mem p (length (json_payload j)) name = Some (None, st)
    | Some m \<Rightarrow> \<exists>v. json_get_value_by_name_len mem p (length (json_payload j)) name = Some (Some v, Some (length (json_payload m), json_type m)) \<and> text_at mem v (json_payload m)"
  using by_name_finds [OF assms, of name] by (auto simp: finds_def json_get_value_by_name_len_def split: option.splits)

lemma first_part:
  assumes "0x2E \<notin> set k"
  shows "takeWhile (\<lambda>c. c \<noteq> 0x2E) (k @ 0x2E # s) = k" and "dropWhile (\<lambda>c. c \<noteq> 0x2E) (k @ 0x2E # s) = 0x2E # s"
    and "takeWhile (\<lambda>c. c \<noteq> 0x2E) k = k"
  using assms by (induction k) auto

lemma value_of_step:
  assumes "0x2E \<notin> set k"
  shows "value_of_loop mem p n (join_dots (k # ks)) = do {
     (value, stored) \<leftarrow> json_get_value_by_name_len mem p n k;
     case (value, stored) of
       (Some v, Some (value_len, _)) \<Rightarrow> if ks \<noteq> [] then value_of_loop mem v value_len (join_dots ks) else Some (Some (v, value_len))
     | _ \<Rightarrow> Some None
   }"
proof (cases ks)
  case Nil
  show ?thesis unfolding Nil join_dots.simps
    by (subst value_of_loop.simps, cases "json_get_value_by_name_len mem p n k") (auto simp: first_part [OF assms] assms split: option.split)
next
  case (Cons k' ks')
  show ?thesis unfolding Cons join_dots.simps(3)
    by (subst value_of_loop.simps, cases "json_get_value_by_name_len mem p n k") (auto simp: first_part [OF assms] split: option.split)
qed

lemma value_of_path:
  "text_at mem p (json_payload j) \<Longrightarrow> json_ok j \<Longrightarrow> \<forall>k\<in>set (k # ks). 0x2E \<notin> set k \<Longrightarrow>
     case json_path j (k # ks) of
       None \<Rightarrow> value_of_loop mem p (length (json_payload j)) (join_dots (k # ks)) = Some None
     | Some m \<Rightarrow> \<exists>v. value_of_loop mem p (length (json_payload j)) (join_dots (k # ks)) = Some (Some (v, length (json_payload m))) \<and> text_at mem v (json_payload m)"
proof (induction ks arbitrary: p j k)
  case Nil
  have k: "0x2E \<notin> set k" using Nil(3) by simp
  show ?case
    using by_name_result [OF Nil(1,2), of k] unfolding value_of_step [OF k] by (auto split: option.splits)
next
  case (Cons k' ks)
  have k: "0x2E \<notin> set k" using Cons.prems(3) by simp
  show ?case
  proof (cases "json_member j k")
    case None
    then show ?thesis using by_name_result [OF Cons.prems(1,2), of k] unfolding value_of_step [OF k] by auto
  next
    case (Some m)
    obtain v where v: "json_get_value_by_name_len mem p (length (json_payload j)) k = Some (Some v, Some (length (json_payload m), json_type m))"
      "text_at mem v (json_payload m)"
      using by_name_result [OF Cons.prems(1,2), of k] Some by auto
    have loop: "value_of_loop mem p (length (json_payload j)) (join_dots (k # k' # ks)) = value_of_loop mem v (length (json_payload m)) (join_dots (k' # ks))"
      unfolding value_of_step [OF k] by (simp add: v(1))
    have path: "json_path j (k # k' # ks) = json_path m (k' # ks)" by (simp add: Some)
    show ?thesis
      unfolding loop path by (rule Cons.IH [OF v(2) json_member_ok [OF Cons.prems(2) Some]]) (use Cons.prems(3) in simp)
  qed
qed

lemma str_of_prefix: "text_at mem p s \<Longrightarrow> 0 \<notin> set s \<Longrightarrow> \<exists>s'. str_of (drop p mem) = Some (s @ s')"
proof -
  assume "text_at mem p s" and s: "0 \<notin> set s"
  then obtain bs where bs: "drop p mem = s @ bs" "0 \<in> set bs" using text_at_drop by blast
  moreover have "takeWhile (\<lambda>b. b \<noteq> 0) (s @ bs) = s @ takeWhile (\<lambda>b. b \<noteq> 0) bs" using s by (intro takeWhile_append2) auto
  moreover have "length (takeWhile (\<lambda>b. b \<noteq> 0) bs) \<le> length bs" by (rule length_takeWhile_le)
  ultimately have "str_of (drop p mem) = Some (s @ take (length (takeWhile (\<lambda>b. b \<noteq> 0) bs)) bs)"
    by (simp add: str_of_def strlen_def load_bytes_def)
  then show ?thesis by blast
qed

text \<open>
  The reader does not know \<open>null\<close>: the search for the start of the value goes on to the next quote, so in
  \<open>{"a":null,"b":5}\<close> the value of \<open>a\<close> is read as the name \<open>b\<close>, and \<open>b\<close> itself is not found; and a \<open>null\<close> in
  last place has no value at all.
\<close>

lemma json_null_misread:
  "LITE_json_value_of True (json_text (JObj [(ascii ''a'', JNull), (ascii ''b'', JNum (ascii ''5''))]) @ [0]) (ascii ''a'') =
     Some (Some (ascii ''b'' @ [0]))"
  "LITE_json_value_of True (json_text (JObj [(ascii ''a'', JNull), (ascii ''b'', JNum (ascii ''5''))]) @ [0]) (ascii ''b'') = Some None"
  "LITE_json_value_of True (json_text (JObj [(ascii ''b'', JNum (ascii ''5'')), (ascii ''a'', JNull)]) @ [0]) (ascii ''a'') = Some None"
  by code_simp+

text \<open>
  C39: On the text of an object none of whose members, nor members of objects inside it, is \<open>null\<close> (written without white
  space, with strings free of quotes and zeros; \<open>null\<close> may stand in arrays), \<open>LITE_json_value_of\<close> returns what the object holds under the path: at every part of the key the first member with that name
  and a value that is not empty, down to a terminated copy of the content of a string or of the text of another value;
  \<open>NULL\<close> when there is no such member, when the path goes on behind a value that is not an object, or when there
  is no memory. For \<open>null\<close> as the value of a member this fails, see \<open>json_null_misread\<close> above.
\<close>

theorem json_value_of_correct:
  assumes ok: "json_ok (JObj ms)" and dots: "\<forall>k\<in>set path. 0x2E \<notin> set k" and "path \<noteq> []"
  shows "LITE_json_value_of room (json_text (JObj ms) @ 0 # bs) (join_dots path) =
     Some (if room then map_option (\<lambda>m. json_payload m @ [0]) (json_path (JObj ms) path) else None)"
proof -
  let ?mem = "json_text (JObj ms) @ 0 # bs"
  obtain k ks where path: "path = k # ks" using assms(3) by (cases path) auto
  have nz: "0 \<notin> set (json_text (JObj ms))" by (rule json_text_nonzero [OF ok])
  have at: "text_at ?mem 0 (json_payload (JObj ms))" unfolding text_at_def by (intro exI [of _ "[]"] exI [of _ "0 # bs"]) simp
  have len: "strlen ?mem = Some (length (json_payload (JObj ms)))" using strlen_text [OF nz] by simp
  show ?thesis
  proof (cases "json_path (JObj ms) path")
    case None
    then have "value_of_loop ?mem 0 (length (json_payload (JObj ms))) (join_dots path) = Some None"
      using value_of_path [OF at ok dots [unfolded path]] by (simp add: path)
    then show ?thesis unfolding LITE_json_value_of_def len None by simp
  next
    case (Some m)
    then obtain v where v: "value_of_loop ?mem 0 (length (json_payload (JObj ms))) (join_dots path) = Some (Some (v, length (json_payload m)))" "text_at ?mem v (json_payload m)"
      using value_of_path [OF at ok dots [unfolded path]] by (auto simp: path)
    obtain s where s: "str_of (drop v ?mem) = Some (json_payload m @ s)"
      using str_of_prefix [OF v(2) json_payload_nonzero [OF json_path_ok [OF ok Some]]] by blast
    show ?thesis unfolding LITE_json_value_of_def len Some bind.simps v(1) option.case prod.case s by (simp add: snprintf_def)
  qed
qed

text \<open>A message with a nested object and a \<open>null\<close> in an array: \<open>{"id":"7","old":[null,1],"params":{"Name":"a}b","On":true}}\<close>.\<close>

definition lamp_message :: "(cstr \<times> json) list" where
  "lamp_message =
     [(ascii ''id'', JStr (ascii ''7'')), (ascii ''old'', JArr [JNull, JNum (ascii ''1'')]),
      (ascii ''params'', JObj [(ascii ''Name'', JStr (ascii ''a}b'')), (ascii ''On'', JBool True)])]"

lemma lamp_message_ok: "json_ok (JObj lamp_message)"
  by code_simp

theorem json_value_of_correct_witness:
  "json_ok (JObj lamp_message) \<and>
   LITE_json_value_of True (json_text (JObj lamp_message) @ [0]) (ascii ''params.Name'') = Some (Some (ascii ''a}b'' @ [0])) \<and>
   LITE_json_value_of True (json_text (JObj lamp_message) @ [0]) (ascii ''id.Name'') = Some None"
proof -
  have dots: "\<forall>k\<in>set [ascii ''params'', ascii ''Name'']. 0x2E \<notin> set k" "\<forall>k\<in>set [ascii ''id'', ascii ''Name'']. 0x2E \<notin> set k"
    by (simp_all add: ascii_def)
  have "json_path (JObj lamp_message) [ascii ''params'', ascii ''Name''] = Some (JStr (ascii ''a}b''))"
    "json_path (JObj lamp_message) [ascii ''id'', ascii ''Name''] = None"
    "join_dots [ascii ''params'', ascii ''Name''] = ascii ''params.Name''" "join_dots [ascii ''id'', ascii ''Name''] = ascii ''id.Name''"
    by code_simp+
  then show ?thesis
    using json_value_of_correct [OF lamp_message_ok dots(1), of True "[]"] json_value_of_correct [OF lamp_message_ok dots(2), of True "[]"] lamp_message_ok
    by simp
qed

theorem json_value_of_safe_witness:
  "0 \<notin> set (ascii ''{a}'') \<and> last (ascii ''{a}'') \<noteq> QUOTE \<and> (\<exists>r. LITE_json_value_of True (ascii ''{a}'' @ [0]) (ascii ''a'') = Some r)"
  using json_value_of_safe [of "ascii ''{a}''" True "[]" "ascii ''a''"] by (auto simp: ascii_def)

text \<open>
  The hypothesis is needed: in a text that ends in the opening quote of a value, such as \<open>{"a":"\<close>, the empty value
  starts at the terminator, and the walk goes on one byte behind it.
\<close>

lemma open_quote_overread:
  "LITE_json_value_of True ([LBRACE, QUOTE, 0x61, QUOTE, 0x3A, QUOTE] @ [0]) (ascii ''b'') = None"
  by code_simp

end
