(* ===== verification/OTA.thy ===== *)
theory OTA
  imports MQTT_Api Infra_MD5 Infra_Json
begin

text \<open>
  Updates over the air, \<open>src/ota\<close>: the library \<open>ota_lib.c\<close>, the signal channel over MQTT \<open>ota_mqtt.c\<close> (the default
  \<open>OTA_SIGNAL_CHANNEL\<close>), the fetch channel \<open>ota_fetch.c\<close> and the interface \<open>iotx_ota.c\<close>. A message of the cloud announces
  a file; the application fetches it piece by piece with \<open>IOT_OTA_FetchYield\<close>, which feeds the digests, and compares
  the digest with the announced one. What the HTTP client answers to a request is an argument of the
  functions that fetch. Calls of the application's callbacks are recorded.
\<close>

subsection \<open>Types\<close>

definition IOT_OTAE_INVALID_PARAM :: int where "IOT_OTAE_INVALID_PARAM = -2"
definition IOT_OTAE_INVALID_STATE :: int where "IOT_OTAE_INVALID_STATE = -3"
definition IOT_OTAE_STR_TOO_LONG :: int where "IOT_OTAE_STR_TOO_LONG = -4"
definition IOT_OTAE_FETCH_FAILED :: int where "IOT_OTAE_FETCH_FAILED = -5"
definition IOT_OTAE_NOMEM :: int where "IOT_OTAE_NOMEM = -6"
definition IOT_OTAE_OSC_FAILED :: int where "IOT_OTAE_OSC_FAILED = -7"

lemmas ota_errors = IOT_OTAE_INVALID_PARAM_def IOT_OTAE_INVALID_STATE_def IOT_OTAE_STR_TOO_LONG_def
  IOT_OTAE_FETCH_FAILED_def IOT_OTAE_NOMEM_def IOT_OTAE_OSC_FAILED_def

datatype IOT_OTA_State_t = IOT_OTAS_UNINITED | IOT_OTAS_INITED | IOT_OTAS_FETCHING | IOT_OTAS_FETCHED

text \<open>The states are compared by their numbers.\<close>

fun ota_state_number :: "IOT_OTA_State_t \<Rightarrow> nat" where
  "ota_state_number IOT_OTAS_UNINITED = 0"
| "ota_state_number IOT_OTAS_INITED = 1"
| "ota_state_number IOT_OTAS_FETCHING = 2"
| "ota_state_number IOT_OTAS_FETCHED = 3"

instantiation IOT_OTA_State_t :: linorder
begin
definition less_eq_IOT_OTA_State_t :: "IOT_OTA_State_t \<Rightarrow> IOT_OTA_State_t \<Rightarrow> bool" where
  "less_eq_IOT_OTA_State_t a b \<longleftrightarrow> ota_state_number a \<le> ota_state_number b"
definition less_IOT_OTA_State_t :: "IOT_OTA_State_t \<Rightarrow> IOT_OTA_State_t \<Rightarrow> bool" where
  "less_IOT_OTA_State_t a b \<longleftrightarrow> ota_state_number a < ota_state_number b"
instance
proof
  fix a b :: IOT_OTA_State_t
  assume "a \<le> b" "b \<le> a"
  then show "a = b" by (cases a; cases b) (simp_all add: less_eq_IOT_OTA_State_t_def)
qed (auto simp: less_eq_IOT_OTA_State_t_def less_IOT_OTA_State_t_def)
end

datatype IOT_OTA_Type_t = IOT_OTAT_NONE | IOT_OTAT_COTA | IOT_OTAT_FOTA

fun ota_type_number :: "IOT_OTA_Type_t \<Rightarrow> u32" where
  "ota_type_number IOT_OTAT_NONE = 0"
| "ota_type_number IOT_OTAT_COTA = 1"
| "ota_type_number IOT_OTAT_FOTA = 2"

definition IOT_OTAP_BURN_FAILED :: int where "IOT_OTAP_BURN_FAILED = -4"
definition IOT_OTAP_CHECK_FALIED :: int where "IOT_OTAP_CHECK_FALIED = -3"
definition IOT_OTAP_FETCH_PERCENTAGE_MIN :: int where "IOT_OTAP_FETCH_PERCENTAGE_MIN = 0"
definition IOT_OTAP_FETCH_PERCENTAGE_MAX :: int where "IOT_OTAP_FETCH_PERCENTAGE_MAX = 100"

text \<open>\<open>IOT_OTAG_other\<close> stands for the numbers without a name.\<close>

datatype IOT_OTA_CmdType_t =
  IOT_OTAG_COTA_CONFIG_ID | IOT_OTAG_COTA_CONFIG_SIZE | IOT_OTAG_COTA_SIGN | IOT_OTAG_COTA_SIGN_METHOD
| IOT_OTAG_COTA_URL | IOT_OTAG_COTA_GETTYPE | IOT_OTAG_OTA_TYPE | IOT_OTAG_FETCHED_SIZE | IOT_OTAG_FILE_SIZE
| IOT_OTAG_MD5SUM | IOT_OTAG_VERSION | IOT_OTAG_CHECK_FIRMWARE | IOT_OTAG_CHECK_CONFIG | IOT_OTAG_RESET_FETCHED_SIZE
| IOT_OTAG_other

datatype iotx_ota_topic_types_t =
  IOTX_OTA_TOPIC_TYPE_DEVICE_REQUEST | IOTX_OTA_TOPIC_TYPE_DEVICE_UPGRATE | IOTX_OTA_TOPIC_TYPE_CONFIG_GET
| IOTX_OTA_TOPIC_TYPE_CONFIG_PUSH | IOTX_OTA_TOPIC_TYPE_MAX

text \<open>The signal channel: \<open>cb\<close> is always \<open>ota_callback\<close> and \<open>context\<close> the structure that owns the channel.\<close>

record otamqtt_Struct_t =
  osc_mqtt :: "nat option"
  osc_product_key :: cstr
  osc_device_name :: cstr
  topic_upgrade :: cstr
  topic_request :: cstr
  topic_config_get :: cstr
  topic_config_push :: cstr

text \<open>The fetch channel: of the HTTP client the two counters of \<open>httpclient_data_t\<close> that are used, and what a request does to them
  and to the buffer.\<close>

record otahttp_Struct_t =
  odc_url :: cstr
  response_content_len :: int
  retrieve_len :: int

record http_reply =
  hr_rc :: int
  hr_content_len :: int
  hr_retrieve_len :: int
  hr_buf :: "byte list"

record OTA_Struct_t =
  ota_product_key :: cstr
  ota_device_name :: cstr
  ota_id :: u32
  ota_state :: IOT_OTA_State_t
  ota_type :: IOT_OTA_Type_t
  size_last_fetched :: u32
  size_fetched :: u32
  size_file :: u32
  purl :: "cstr option"
  ota_version :: "cstr option"
  md5sum :: "byte list"
  ota_md5 :: "digest_ctx option"
  ota_sha256 :: "sha256_ctx option"
  ch_signal :: "otamqtt_Struct_t option"
  ch_fetch :: "otahttp_Struct_t option"
  configId :: "cstr option"
  configSize :: u32
  ota_sign :: "cstr option"
  signMethod :: "cstr option"
  cota_url :: "cstr option"
  getType :: "cstr option"
  ota_err :: int
  fetch_cb :: "nat option"
  ota_user_data :: nat
  fetch_cota_cb :: "nat option"
  cota_user_data :: nat

text \<open>Calls of the callbacks with their arguments.\<close>

datatype ota_call =
  Fetch_Call nat nat int u32 "cstr option" "cstr option"
| Cota_Call nat nat int "cstr option" u32 "cstr option" "cstr option" "cstr option" "cstr option"

text \<open>
  The world of the module: its flag, the structure at its address, the platform it allocates from, the
  MQTT interface, and the calls of the callbacks. Allocations of the module and of the MQTT client are
  answered independently of each other.
\<close>

record ota_world =
  g_ota_is_initialized :: bool
  ota_at :: "(nat \<times> OTA_Struct_t) option"
  ota_next :: nat
  ota_hal :: hal
  ota_mqtt :: mqtt_api
  ota_calls :: "ota_call list"

type_synonym 'a ota_run = "('a \<times> OTA_Struct_t \<times> ota_world) option"

definition ota_alloc :: "nat \<Rightarrow> ota_world \<Rightarrow> bool \<times> ota_world" where
  "ota_alloc n w = (case HAL_Malloc n (ota_hal w) of (p, h) \<Rightarrow> (p \<noteq> None, w\<lparr>ota_hal := h\<rparr>))"

definition record_call :: "ota_call \<Rightarrow> ota_world \<Rightarrow> ota_world" where
  "record_call e w = w\<lparr>ota_calls := ota_calls w @ [e]\<rparr>"

definition sizeof_md5_context :: nat where "sizeof_md5_context = 88"
definition sizeof_sha256_context :: nat where "sizeof_sha256_context = 108"
definition sizeof_otamqtt_Struct_t :: nat where "sizeof_otamqtt_Struct_t = 552"
definition sizeof_otahttp_Struct_t :: nat where "sizeof_otahttp_Struct_t = 328"
definition sizeof_OTA_Struct_t :: nat where "sizeof_OTA_Struct_t = 240"

subsection \<open>The library\<close>

definition otalib_JsonValueOf :: "byte list \<Rightarrow> nat \<Rightarrow> nat \<Rightarrow> string \<Rightarrow> (nat \<times> nat) option option" where
  "otalib_JsonValueOf mem json json_len key = do {
     (val, stored) \<leftarrow> json_get_value_by_name mem json json_len (ascii key);
     Some (case (val, stored) of (Some v, Some (len, _)) \<Rightarrow> Some (v, len) | _ \<Rightarrow> None)
   }"

definition otalib_MD5Init :: "ota_world \<Rightarrow> digest_ctx option \<times> ota_world" where
  "otalib_MD5Init w = (case ota_alloc sizeof_md5_context w of (ok, w) \<Rightarrow> (if ok then Some (utils_md5_starts utils_md5_init) else None, w))"

definition otalib_MD5Update :: "digest_ctx option \<Rightarrow> byte list \<Rightarrow> u32 \<Rightarrow> digest_ctx option option" where
  "otalib_MD5Update ctx buf n = do { c \<leftarrow> ctx; c \<leftarrow> utils_md5_update c buf n; Some (Some c) }"

text \<open>The text of a digest: two digits for every byte.\<close>

definition hex_text :: "byte list \<Rightarrow> cstr" where
  "hex_text bs = concat (map (\<lambda>b. [infra_hex2char (drop_bit 4 b), infra_hex2char b]) bs)"

definition otalib_MD5Finalize :: "digest_ctx option \<Rightarrow> (cstr \<times> digest_ctx option) option" where
  "otalib_MD5Finalize ctx = do { c \<leftarrow> ctx; (out, c) \<leftarrow> utils_md5_finish c; Some (hex_text out, Some c) }"

definition otalib_Sha256Init :: "ota_world \<Rightarrow> sha256_ctx option \<times> ota_world" where
  "otalib_Sha256Init w =
     (case ota_alloc sizeof_sha256_context w of (ok, w) \<Rightarrow> (if ok then Some (utils_sha256_starts utils_sha256_init) else None, w))"

definition otalib_Sha256Update :: "sha256_ctx option \<Rightarrow> byte list \<Rightarrow> u32 \<Rightarrow> sha256_ctx option option" where
  "otalib_Sha256Update ctx buf n = do { c \<leftarrow> ctx; c \<leftarrow> utils_sha256_update c buf n; Some (Some c) }"

definition otalib_Sha256Finalize :: "sha256_ctx option \<Rightarrow> (cstr \<times> sha256_ctx option) option" where
  "otalib_Sha256Finalize ctx = do { c \<leftarrow> ctx; (out, c) \<leftarrow> utils_sha256_finish c; Some (hex_text out, Some c) }"

definition otalib_GetFirmwareFixlenPara :: "byte list \<Rightarrow> nat \<Rightarrow> nat \<Rightarrow> string \<Rightarrow> byte list \<Rightarrow> nat \<Rightarrow> (int \<times> byte list) option" where
  "otalib_GetFirmwareFixlenPara mem json_doc json_doc_len key dest dest_len = do {
     pvalue \<leftarrow> otalib_JsonValueOf mem json_doc json_doc_len key;
     case pvalue of
       None \<Rightarrow> Some (-1, dest)
     | Some (v, val_len) \<Rightarrow>
         if val_len > dest_len then Some (-1, dest)
         else do { bs \<leftarrow> load_bytes mem v val_len; dest \<leftarrow> store_bytes dest 0 bs; Some (0, dest) }
   }"

definition otalib_GetFirmwareVarlenPara ::
  "byte list \<Rightarrow> nat \<Rightarrow> nat \<Rightarrow> string \<Rightarrow> cstr option \<Rightarrow> ota_world \<Rightarrow> (int \<times> cstr option \<times> ota_world) option" where
  "otalib_GetFirmwareVarlenPara mem json_doc json_doc_len key dest w = do {
     pvalue \<leftarrow> otalib_JsonValueOf mem json_doc json_doc_len key;
     case pvalue of
       None \<Rightarrow> Some (-1, dest, w)
     | Some (v, val_len) \<Rightarrow> do {
         let (ok, w) = ota_alloc (val_len + 1) w;
         if \<not> ok then Some (-1, None, w)
         else do { bs \<leftarrow> load_bytes mem v val_len; Some (0, Some (takeWhile (\<lambda>b. b \<noteq> 0) bs), w) }
       }
   }"

definition OTA_FILESIZE_STR_LEN :: nat where "OTA_FILESIZE_STR_LEN = 16"

text \<open>The last steps of the two functions: the array of the size is terminated and read. \<open>otalib_GetParams\<close> clears it before,
  \<open>otalib_GetConfigParams\<close> starts with what is on the stack.\<close>

definition read_size :: "byte list \<Rightarrow> u32 option" where
  "read_size file_size_str = do {
     a \<leftarrow> store file_size_str OTA_FILESIZE_STR_LEN 0;
     s \<leftarrow> str_of a;
     Some (word_of_int (atoi s))
   }"

definition otalib_GetParams :: "byte list \<Rightarrow> nat \<Rightarrow> nat \<Rightarrow> OTA_Struct_t \<Rightarrow> ota_world \<Rightarrow> int ota_run" where
  "otalib_GetParams mem json_doc json_len h w = do {
     (rc, v, w) \<leftarrow> otalib_GetFirmwareVarlenPara mem json_doc json_len ''version'' (ota_version h) w;
     let h = h\<lparr>ota_version := v\<rparr>;
     if rc \<noteq> 0 then Some (-1, h, w)
     else do {
       (rc, v, w) \<leftarrow> otalib_GetFirmwareVarlenPara mem json_doc json_len ''url'' (purl h) w;
       let h = h\<lparr>purl := v\<rparr>;
       if rc \<noteq> 0 then Some (-1, h, w)
       else do {
         (rc, a) \<leftarrow> otalib_GetFirmwareFixlenPara mem json_doc json_len ''md5'' (md5sum h) 32;
         let h = h\<lparr>md5sum := a\<rparr>;
         if rc \<noteq> 0 then Some (-1, h, w)
         else do {
           (rc, a) \<leftarrow> otalib_GetFirmwareFixlenPara mem json_doc json_len ''size'' (replicate (OTA_FILESIZE_STR_LEN + 1) 0) OTA_FILESIZE_STR_LEN;
           if rc \<noteq> 0 then Some (-1, h, w)
           else do { n \<leftarrow> read_size a; Some (0, h\<lparr>size_file := n\<rparr>, w) }
         }
       }
     }
   }"

text \<open>The bytes on the stack where the array \<open>file_size_str\<close> of \<open>otalib_GetConfigParams\<close> lies.\<close>

definition stack_junk :: "ota_world \<Rightarrow> byte list" where
  "stack_junk w = map (\<lambda>i. ucast (junk (ota_hal w) (tick (ota_hal w) + i))) [0..<OTA_FILESIZE_STR_LEN + 1]"

definition otalib_GetConfigParams :: "byte list \<Rightarrow> nat \<Rightarrow> nat \<Rightarrow> OTA_Struct_t \<Rightarrow> ota_world \<Rightarrow> int ota_run" where
  "otalib_GetConfigParams mem json_doc json_len h w = do {
     let file_size_str = stack_junk w;
     (rc, v, w) \<leftarrow> otalib_GetFirmwareVarlenPara mem json_doc json_len ''configId'' (configId h) w;
     let h = h\<lparr>configId := v\<rparr>;
     if rc \<noteq> 0 then Some (-1, h, w)
     else do {
       (rc, a) \<leftarrow> otalib_GetFirmwareFixlenPara mem json_doc json_len ''configSize'' file_size_str OTA_FILESIZE_STR_LEN;
       if rc \<noteq> 0 then Some (-1, h, w)
       else do {
         n \<leftarrow> read_size a;
         let h = h\<lparr>configSize := n\<rparr>;
         (rc, v, w) \<leftarrow> otalib_GetFirmwareVarlenPara mem json_doc json_len ''sign'' (ota_sign h) w;
         let h = h\<lparr>ota_sign := v\<rparr>;
         if rc \<noteq> 0 then Some (-1, h, w)
         else do {
           (rc, v, w) \<leftarrow> otalib_GetFirmwareVarlenPara mem json_doc json_len ''signMethod'' (signMethod h) w;
           let h = h\<lparr>signMethod := v\<rparr>;
           if rc \<noteq> 0 then Some (-1, h, w)
           else do {
             (rc, v, w) \<leftarrow> otalib_GetFirmwareVarlenPara mem json_doc json_len ''url'' (cota_url h) w;
             let h = h\<lparr>cota_url := v\<rparr>;
             if rc \<noteq> 0 then Some (-1, h, w)
             else do {
               (rc, v, w) \<leftarrow> otalib_GetFirmwareVarlenPara mem json_doc json_len ''getType'' (getType h) w;
               Some (if rc \<noteq> 0 then -1 else 0, h\<lparr>getType := v\<rparr>, w)
             }
           }
         }
       }
     }
   }"

definition INFO_FMT :: string where
  \<open>INFO_FMT = ''{"id":%d,"params":{"version":"%s"}}''\<close>

definition otalib_GenInfoMsg :: "nat \<Rightarrow> u32 \<Rightarrow> cstr \<Rightarrow> int \<times> cstr" where
  "otalib_GenInfoMsg buf_len ident version =
     (let (ret, buf) = snprintf buf_len (format_args INFO_FMT [print_int (sint ident), version])
      in (if ret < 0 then -1 else 0, buf))"

definition REPORT_FMT :: string where
  \<open>REPORT_FMT = ''{"id":%d,"params":{"step":"%d","desc":"%s"}}''\<close>

definition REPORT_EMPTY_FMT :: string where
  \<open>REPORT_EMPTY_FMT = ''{"id":%d,"params":{"step":"%d","desc":""}}''\<close>

definition otalib_GenReportMsg :: "nat \<Rightarrow> u32 \<Rightarrow> int \<Rightarrow> cstr option \<Rightarrow> int \<times> cstr" where
  "otalib_GenReportMsg buf_len ident progress msg_detail =
     (let (ret, buf) = snprintf buf_len
            (case msg_detail of
               None \<Rightarrow> format_args REPORT_EMPTY_FMT [print_int (sint ident), print_int progress]
             | Some d \<Rightarrow> format_args REPORT_FMT [print_int (sint ident), print_int progress, d])
      in (if ret < 0 then -1 else if ret \<ge> int buf_len then IOT_OTAE_STR_TOO_LONG else 0, buf))"

subsection \<open>The fetch channel\<close>

definition ofc_Init :: "cstr \<Rightarrow> ota_world \<Rightarrow> otahttp_Struct_t option \<times> ota_world" where
  "ofc_Init url w =
     (case ota_alloc sizeof_otahttp_Struct_t w of
        (ok, w) \<Rightarrow> (if ok then Some \<lparr>odc_url = url, response_content_len = 0, retrieve_len = 0\<rparr> else None, w))"

definition ofc_Fetch :: "otahttp_Struct_t \<Rightarrow> http_reply \<Rightarrow> int \<times> otahttp_Struct_t" where
  "ofc_Fetch h_odc reply =
     (let diff = response_content_len h_odc - retrieve_len h_odc;
          h_odc = h_odc\<lparr>response_content_len := hr_content_len reply, retrieve_len := hr_retrieve_len reply\<rparr>
      in if hr_rc reply \<noteq> 0 then (-1, h_odc)
         else (response_content_len h_odc - retrieve_len h_odc - diff, h_odc))"

subsection \<open>The signal channel\<close>

definition OTA_MQTT_TOPIC_LEN :: nat where "OTA_MQTT_TOPIC_LEN = 128"

definition otamqtt_GenTopicName :: "nat \<Rightarrow> cstr \<Rightarrow> cstr \<Rightarrow> cstr \<Rightarrow> int \<times> cstr" where
  "otamqtt_GenTopicName buf_len ota_topic_type pk dn =
     (let (ret, buf) = snprintf buf_len (format_args ''/ota/device/%s/%s/%s'' [ota_topic_type, pk, dn])
      in (if ret \<ge> int buf_len \<or> ret < 0 then -1 else 0, buf))"

text \<open>A message with nothing but a QoS and a payload.\<close>

definition plain_topic_info :: "u8 \<Rightarrow> cstr \<Rightarrow> iotx_mqtt_topic_info_t" where
  "plain_topic_info qos msg =
     \<lparr>ti_packet_id = 0, ti_qos = qos, ti_dup = 0, ti_retain = 0, ti_topic_len = 0, ti_payload_len = of_nat (length msg),
      ti_ptopic = None, ti_payload = None\<rparr>"

definition otamqtt_Publish :: "otamqtt_Struct_t \<Rightarrow> cstr \<Rightarrow> int \<Rightarrow> cstr \<Rightarrow> ota_world \<Rightarrow> (int \<times> ota_world) option" where
  "otamqtt_Publish hdl topic_type qos msg w = do {
     let topic_info = plain_topic_info (if qos = 0 then 0 else 1) msg;
     let (ret, topic_name) = otamqtt_GenTopicName OTA_MQTT_TOPIC_LEN topic_type (osc_product_key hdl) (osc_device_name hdl);
     if ret < 0 then Some (-1, w)
     else do {
       (ret, m) \<leftarrow> IOT_MQTT_Publish (osc_mqtt hdl) (Some topic_name) topic_info (Some msg) (ota_mqtt w);
       Some (if ret < 0 then IOT_OTAE_OSC_FAILED else 0, w\<lparr>ota_mqtt := m\<rparr>)
     }
   }"

definition otamqtt_publish_full_topic :: "otamqtt_Struct_t \<Rightarrow> cstr \<Rightarrow> cstr \<Rightarrow> ota_world \<Rightarrow> (int \<times> ota_world) option" where
  "otamqtt_publish_full_topic hdl topic_name msg w = do {
     (ret, m) \<leftarrow> IOT_MQTT_Publish (osc_mqtt hdl) (Some topic_name) (plain_topic_info 0 msg) (Some msg) (ota_mqtt w);
     Some (if ret < 0 then IOT_OTAE_OSC_FAILED else 0, w\<lparr>ota_mqtt := m\<rparr>)
   }"

definition osc_ReportProgress :: "otamqtt_Struct_t option \<Rightarrow> cstr \<Rightarrow> ota_world \<Rightarrow> (int \<times> ota_world) option" where
  "osc_ReportProgress hdl msg w = do { c \<leftarrow> hdl; otamqtt_Publish c (ascii ''progress'') 0 msg w }"

definition osc_ReportVersion :: "otamqtt_Struct_t option \<Rightarrow> cstr \<Rightarrow> ota_world \<Rightarrow> (int \<times> ota_world) option" where
  "osc_ReportVersion hdl msg w = do { c \<leftarrow> hdl; otamqtt_Publish c (ascii ''inform'') 1 msg w }"

definition osc_RequestImage :: "otamqtt_Struct_t option \<Rightarrow> cstr \<Rightarrow> ota_world \<Rightarrow> (int \<times> ota_world) option" where
  "osc_RequestImage hdl msg w = do { c \<leftarrow> hdl; otamqtt_Publish c (ascii ''request'') 1 msg w }"

definition osc_RequestConfig :: "otamqtt_Struct_t option \<Rightarrow> cstr \<Rightarrow> cstr \<Rightarrow> ota_world \<Rightarrow> (int \<times> ota_world) option" where
  "osc_RequestConfig hdl topic_name msg w = do { c \<leftarrow> hdl; otamqtt_publish_full_topic c topic_name msg w }"

text \<open>The number that stands for the address of \<open>otamqtt_UpgrageCb\<close>.\<close>

definition otamqtt_UpgrageCb_ptr :: nat where "otamqtt_UpgrageCb_ptr = 4096"

text \<open>One subscription of \<open>osc_Init\<close>: its result, and the interface afterwards.\<close>

definition osc_subscribe :: "nat option \<Rightarrow> cstr \<Rightarrow> int \<Rightarrow> nat \<Rightarrow> ota_world \<Rightarrow> (int \<times> ota_world) option" where
  "osc_subscribe mqtt topic qos context w = do {
     (ret, m) \<leftarrow> IOT_MQTT_Subscribe mqtt (Some topic) qos (Some otamqtt_UpgrageCb_ptr) context (ota_mqtt w);
     Some (ret, w\<lparr>ota_mqtt := m\<rparr>)
   }"

definition osc_Init :: "cstr \<Rightarrow> cstr \<Rightarrow> nat option \<Rightarrow> ota_world \<Rightarrow> (otamqtt_Struct_t option \<times> ota_world) option" where
  "osc_Init pk dn mqtt w = do {
     let (ok, w) = ota_alloc sizeof_otamqtt_Struct_t w;
     if \<not> ok then Some (None, w)
     else do {
       let h_osc = ota_next w;
       let w = w\<lparr>ota_next := ota_next w + 1\<rparr>;
       let (ret, t_request) = otamqtt_GenTopicName OTA_MQTT_TOPIC_LEN (ascii ''request'') pk dn;
       if ret < 0 then Some (None, w)
       else do {
         (ret, w) \<leftarrow> osc_subscribe mqtt t_request 1 h_osc w;
         if ret < 0 then Some (None, w)
         else do {
           let (ret, t_upgrade) = otamqtt_GenTopicName OTA_MQTT_TOPIC_LEN (ascii ''upgrade'') pk dn;
           if ret < 0 then Some (None, w)
           else do {
             (ret, w) \<leftarrow> osc_subscribe mqtt t_upgrade 1 h_osc w;
             if ret < 0 then Some (None, w)
             else do {
               let (_, t_get) = snprintf OTA_MQTT_TOPIC_LEN (format_args ''/sys/%s/%s/thing/config/get_reply'' [pk, dn]);
               (ret, w) \<leftarrow> osc_subscribe mqtt t_get 0 h_osc w;
               if ret < 0 then Some (None, w)
               else do {
                 let (_, t_push) = snprintf OTA_MQTT_TOPIC_LEN (format_args ''/sys/%s/%s/thing/config/push'' [pk, dn]);
                 (ret, w) \<leftarrow> osc_subscribe mqtt t_push 0 h_osc w;
                 if ret < 0 then Some (None, w)
                 else Some (Some \<lparr>osc_mqtt = mqtt, osc_product_key = pk, osc_device_name = dn,
                       topic_upgrade = t_upgrade, topic_request = t_request, topic_config_get = t_get, topic_config_push = t_push\<rparr>, w)
               }
             }
           }
         }
       }
     }
   }"

subsection \<open>The interface: messages of the cloud\<close>

definition ota_check_progress :: "int \<Rightarrow> bool" where
  "ota_check_progress progress \<longleftrightarrow> IOT_OTAP_BURN_FAILED \<le> progress \<and> progress \<le> IOT_OTAP_FETCH_PERCENTAGE_MAX"

definition iotx_ota_set_fetch_callback :: "OTA_Struct_t option \<Rightarrow> nat option \<Rightarrow> nat \<Rightarrow> int \<times> OTA_Struct_t option" where
  "iotx_ota_set_fetch_callback pt cb user_data =
     (case (pt, cb) of
        (Some h, Some f) \<Rightarrow> (0, Some (h\<lparr>fetch_cb := Some f, ota_user_data := user_data\<rparr>))
      | _ \<Rightarrow> (-1, pt))"

definition iotx_ota_set_cota_fetch_callback :: "OTA_Struct_t option \<Rightarrow> nat option \<Rightarrow> nat \<Rightarrow> int \<times> OTA_Struct_t option" where
  "iotx_ota_set_cota_fetch_callback pt cb user_data =
     (case (pt, cb) of
        (Some h, Some f) \<Rightarrow> (0, Some (h\<lparr>fetch_cota_cb := Some f, cota_user_data := user_data\<rparr>))
      | _ \<Rightarrow> (-1, pt))"

definition call_fetch_cb :: "int \<Rightarrow> OTA_Struct_t \<Rightarrow> ota_world \<Rightarrow> ota_world" where
  "call_fetch_cb is_fetch h w =
     (case fetch_cb h of
        None \<Rightarrow> w
      | Some f \<Rightarrow> record_call (Fetch_Call f (ota_user_data h) is_fetch (size_file h) (purl h) (ota_version h)) w)"

definition call_cota_cb :: "int \<Rightarrow> OTA_Struct_t \<Rightarrow> ota_world \<Rightarrow> ota_world" where
  "call_cota_cb is_fetch h w =
     (case fetch_cota_cb h of
        None \<Rightarrow> w
      | Some f \<Rightarrow> record_call (Cota_Call f (ota_user_data h) is_fetch (configId h) (configSize h) (ota_sign h) (signMethod h) (cota_url h) (getType h)) w)"

text \<open>The value of a key is the given text.\<close>

definition value_is :: "byte list \<Rightarrow> nat \<times> nat \<Rightarrow> string \<Rightarrow> bool option" where
  "value_is mem pv s = (if snd pv = length s then do { bs \<leftarrow> load_bytes mem (fst pv) (snd pv); Some (bs = ascii s) } else Some False)"

text \<open>The firmware message of \<open>ota_callback\<close> from its \<open>data\<close> on, and the part that its two cases for configurations share.\<close>

definition start_firmware :: "byte list \<Rightarrow> nat \<times> nat \<Rightarrow> OTA_Struct_t \<Rightarrow> ota_world \<Rightarrow> int ota_run" where
  "start_firmware mem pv h w = do {
     (rc, h, w) \<leftarrow> otalib_GetParams mem (fst pv) (snd pv) h w;
     if rc \<noteq> 0 then Some (-1, h, w)
     else do {
       url \<leftarrow> purl h;
       let (ch, w) = ofc_Init url w;
       let h = h\<lparr>ch_fetch := ch\<rparr>;
       if ch = None then Some (-1, h, w)
       else do {
         let h = h\<lparr>ota_type := IOT_OTAT_FOTA, ota_state := IOT_OTAS_FETCHING\<rparr>;
         Some (0, h, call_fetch_cb 0 h w)
       }
     }
   }"

definition start_config :: "byte list \<Rightarrow> nat \<times> nat \<Rightarrow> OTA_Struct_t \<Rightarrow> ota_world \<Rightarrow> int ota_run" where
  "start_config mem pv h w = do {
     (rc, h, w) \<leftarrow> otalib_GetConfigParams mem (fst pv) (snd pv) h w;
     if rc \<noteq> 0 then Some (-1, h, w)
     else do {
       let h = h\<lparr>size_file := configSize h, size_fetched := 0\<rparr>;
       let (c, w) = otalib_MD5Init w;
       let (s, w) = otalib_Sha256Init w;
       let h = h\<lparr>ota_md5 := c, ota_sha256 := s\<rparr>;
       url \<leftarrow> cota_url h;
       let (ch, w) = ofc_Init url w;
       let h = h\<lparr>ch_fetch := ch\<rparr>;
       if ch = None then Some (-1, h, w)
       else do {
         let h = h\<lparr>ota_type := IOT_OTAT_COTA, ota_state := IOT_OTAS_FETCHING\<rparr>;
         Some (0, h, call_cota_cb 0 h w)
       }
     }
   }"

definition ota_callback :: "byte list \<Rightarrow> nat \<Rightarrow> nat \<Rightarrow> iotx_ota_topic_types_t \<Rightarrow> OTA_Struct_t \<Rightarrow> ota_world \<Rightarrow> int ota_run" where
  "ota_callback mem msg msg_len type h w =
     (if ota_state h = IOT_OTAS_FETCHING then Some (-1, h, w)
      else if type = IOTX_OTA_TOPIC_TYPE_DEVICE_REQUEST \<or> type = IOTX_OTA_TOPIC_TYPE_DEVICE_UPGRATE then do {
        pvalue \<leftarrow> otalib_JsonValueOf mem msg msg_len ''message'';
        case pvalue of
          None \<Rightarrow> Some (-1, h, w)
        | Some pv \<Rightarrow> do {
            good \<leftarrow> value_is mem pv ''success'';
            if \<not> good then Some (-1, h, w)
            else do {
              pvalue \<leftarrow> otalib_JsonValueOf mem msg msg_len ''data'';
              case pvalue of None \<Rightarrow> Some (-1, h, w) | Some pv \<Rightarrow> start_firmware mem pv h w
            }
          }
      }
      else if type = IOTX_OTA_TOPIC_TYPE_CONFIG_GET then do {
        pvalue \<leftarrow> otalib_JsonValueOf mem msg msg_len ''code'';
        case pvalue of
          None \<Rightarrow> Some (-1, h, w)
        | Some pv \<Rightarrow> do {
            good \<leftarrow> value_is mem pv ''200'';
            if \<not> good then Some (-1, h, w)
            else do {
              pvalue \<leftarrow> otalib_JsonValueOf mem msg msg_len ''data'';
              case pvalue of None \<Rightarrow> Some (-1, h, w) | Some pv \<Rightarrow> start_config mem pv h w
            }
          }
      }
      else if type = IOTX_OTA_TOPIC_TYPE_CONFIG_PUSH then do {
        pvalue \<leftarrow> otalib_JsonValueOf mem msg msg_len ''params'';
        case pvalue of None \<Rightarrow> Some (-1, h, w) | Some pv \<Rightarrow> start_config mem pv h w
      }
      else Some (-1, h, w))"

text \<open>
  A message of the MQTT client: \<open>om_mem\<close> is its read buffer from the topic on, \<open>om_payload\<close> the place of the payload in it. The
  topic is not terminated, so \<open>strstr\<close> looks for a text in everything up to the next zero.
\<close>

record ota_message =
  om_received :: bool
  om_mem :: "byte list"
  om_payload :: nat
  om_payload_len :: nat

definition strstr_at :: "byte list \<Rightarrow> nat \<Rightarrow> string \<Rightarrow> bool option" where
  "strstr_at mem p pat = do { s \<leftarrow> str_of (drop p mem); Some (has_substring (ascii pat) s) }"

definition PUSH_REPLY_FMT :: string where
  \<open>PUSH_REPLY_FMT = ''"id":%s,"code":"%d","data":{}''\<close>

text \<open>The answer to a configuration that was not taken; without an \<open>id\<close> in the message the code prints from a \<open>NULL\<close> pointer.\<close>

definition push_failed :: "ota_message \<Rightarrow> otamqtt_Struct_t \<Rightarrow> ota_world \<Rightarrow> ota_world option" where
  "push_failed m hdl w = do {
     pvalue \<leftarrow> otalib_JsonValueOf (om_mem m) (om_payload m) (om_payload_len m) ''id'';
     pv \<leftarrow> pvalue;
     let (_, topic) = snprintf OTA_MQTT_TOPIC_LEN (format_args ''/sys/%s/%s/thing/config/push_reply'' [osc_product_key hdl, osc_device_name hdl]);
     ident \<leftarrow> load_bytes (om_mem m) (fst pv) (snd pv);
     let (_, msg) = snprintf OTA_MQTT_TOPIC_LEN (format_args PUSH_REPLY_FMT [takeWhile (\<lambda>b. b \<noteq> 0) ident, print_int 400]);
     (_, mq) \<leftarrow> IOT_MQTT_Publish (osc_mqtt hdl) (Some topic) (plain_topic_info 0 msg) (Some msg) (ota_mqtt w);
     Some (w\<lparr>ota_mqtt := mq\<rparr>)
   }"

definition otamqtt_UpgrageCb :: "ota_message \<Rightarrow> OTA_Struct_t \<Rightarrow> ota_world \<Rightarrow> unit ota_run" where
  "otamqtt_UpgrageCb m h w =
     (if \<not> om_received m then Some ((), h, w)
      else do {
        let callback = (\<lambda>type. do { (_, h, w) \<leftarrow> ota_callback (om_mem m) (om_payload m) (om_payload_len m) type h w; Some ((), h, w) });
        request \<leftarrow> strstr_at (om_mem m) 0 ''/ota/device/request'';
        if request then do {
          url \<leftarrow> strstr_at (om_mem m) (om_payload m) ''url'';
          if url then callback IOTX_OTA_TOPIC_TYPE_DEVICE_REQUEST else Some ((), h, w)
        }
        else do {
          upgrade \<leftarrow> strstr_at (om_mem m) 0 ''/ota/device/upgrade'';
          if upgrade then callback IOTX_OTA_TOPIC_TYPE_DEVICE_UPGRATE
          else do {
            get_reply \<leftarrow> strstr_at (om_mem m) 0 ''/thing/config/get_reply'';
            if get_reply then callback IOTX_OTA_TOPIC_TYPE_CONFIG_GET
            else do {
              push \<leftarrow> strstr_at (om_mem m) 0 ''/thing/config/push'';
              if push then do {
                (rc, h, w) \<leftarrow> ota_callback (om_mem m) (om_payload m) (om_payload_len m) IOTX_OTA_TOPIC_TYPE_CONFIG_PUSH h w;
                if rc \<noteq> 0 then do { hdl \<leftarrow> ch_signal h; w \<leftarrow> push_failed m hdl w; Some ((), h, w) }
                else Some ((), h, w)
              }
              else Some ((), h, w)
            }
          }
        }
      })"

subsection \<open>The interface: calls of the application\<close>

definition zero_ota :: OTA_Struct_t where
  "zero_ota =
     \<lparr>ota_product_key = [], ota_device_name = [], ota_id = 0, ota_state = IOT_OTAS_UNINITED, ota_type = IOT_OTAT_NONE,
      size_last_fetched = 0, size_fetched = 0, size_file = 0, purl = None, ota_version = None, md5sum = replicate 33 0,
      ota_md5 = None, ota_sha256 = None, ch_signal = None, ch_fetch = None, configId = None, configSize = 0, ota_sign = None,
      signMethod = None, cota_url = None, getType = None, ota_err = 0, fetch_cb = None, ota_user_data = 0,
      fetch_cota_cb = None, cota_user_data = 0\<rparr>"

definition IOT_OTA_Init :: "cstr option \<Rightarrow> cstr option \<Rightarrow> nat option \<Rightarrow> ota_world \<Rightarrow> (nat option \<times> ota_world) option" where
  "IOT_OTA_Init product device mqtt w =
     (if g_ota_is_initialized w then Some (None, w)
      else case (product, device) of
        (Some pk, Some dn) \<Rightarrow> do {
          let (ok, w) = ota_alloc sizeof_OTA_Struct_t w;
          if \<not> ok then Some (None, w)
          else do {
            let p = ota_next w;
            let w = w\<lparr>ota_next := ota_next w + 1\<rparr>;
            (osc, w) \<leftarrow> osc_Init pk dn mqtt w;
            if osc = None then Some (None, w)
            else do {
              let (c, w) = otalib_MD5Init w;
              if c = None then Some (None, w)
              else do {
                let (s, w) = otalib_Sha256Init w;
                if s = None then Some (None, w)
                else Some (Some p, w\<lparr>g_ota_is_initialized := True,
                       ota_at := Some (p, zero_ota\<lparr>ch_signal := osc, ota_md5 := c, ota_sha256 := s, ota_product_key := pk,
                                           ota_device_name := dn, ota_state := IOT_OTAS_INITED\<rparr>)\<rparr>)
              }
            }
          }
        }
      | _ \<Rightarrow> Some (None, w))"

text \<open>A call with a handle: undefined when nothing is allocated there.\<close>

definition on_ota :: "nat \<Rightarrow> (OTA_Struct_t \<Rightarrow> ota_world \<Rightarrow> 'a ota_run) \<Rightarrow> ota_world \<Rightarrow> ('a \<times> ota_world) option" where
  "on_ota p f w =
     (case ota_at w of
        None \<Rightarrow> None
      | Some (q, h) \<Rightarrow> if p = q then do { (rc, h, w) \<leftarrow> f h w; Some (rc, w\<lparr>ota_at := Some (q, h)\<rparr>) } else None)"

definition IOT_OTA_Deinit :: "nat option \<Rightarrow> ota_world \<Rightarrow> (int \<times> ota_world) option" where
  "IOT_OTA_Deinit hdl w =
     (case hdl of
        None \<Rightarrow> Some (IOT_OTAE_INVALID_PARAM, w)
      | Some p \<Rightarrow>
          (case ota_at w of
             None \<Rightarrow> None
           | Some (q, h) \<Rightarrow>
               if p \<noteq> q then None
               else if ota_state h = IOT_OTAS_UNINITED then Some (-1, w\<lparr>ota_at := Some (q, h\<lparr>ota_err := IOT_OTAE_INVALID_STATE\<rparr>)\<rparr>)
               else Some (0, w\<lparr>g_ota_is_initialized := False, ota_at := None\<rparr>)))"

definition OTA_VERSION_STR_LEN_MIN :: nat where "OTA_VERSION_STR_LEN_MIN = 1"
definition OTA_VERSION_STR_LEN_MAX :: nat where "OTA_VERSION_STR_LEN_MAX = 32"
definition MSG_INFORM_LEN :: nat where "MSG_INFORM_LEN = 128"
definition MSG_REQUEST_LEN :: nat where "MSG_REQUEST_LEN = 128"
definition MSG_REPORT_LEN :: nat where "MSG_REPORT_LEN = 256"

definition report_version :: "cstr \<Rightarrow> OTA_Struct_t \<Rightarrow> ota_world \<Rightarrow> int ota_run" where
  "report_version version h w =
     (if length version < OTA_VERSION_STR_LEN_MIN \<or> length version > OTA_VERSION_STR_LEN_MAX
      then Some (-1, h\<lparr>ota_err := IOT_OTAE_INVALID_PARAM\<rparr>, w)
      else if ota_state h = IOT_OTAS_UNINITED then Some (-1, h\<lparr>ota_err := IOT_OTAE_INVALID_STATE\<rparr>, w)
      else do {
        let (ok, w) = ota_alloc MSG_INFORM_LEN w;
        if \<not> ok then Some (-1, h\<lparr>ota_err := IOT_OTAE_NOMEM\<rparr>, w)
        else do {
          let (ret, msg) = otalib_GenInfoMsg MSG_INFORM_LEN (ota_id h) version;
          if ret \<noteq> 0 then Some (-1, h\<lparr>ota_err := ret\<rparr>, w)
          else do {
            (ret, w) \<leftarrow> osc_ReportVersion (ch_signal h) msg w;
            Some (if ret \<noteq> 0 then (-1, h\<lparr>ota_err := ret\<rparr>, w) else (0, h, w))
          }
        }
      })"

definition IOT_OTA_ReportVersion :: "nat option \<Rightarrow> cstr option \<Rightarrow> ota_world \<Rightarrow> (int \<times> ota_world) option" where
  "IOT_OTA_ReportVersion hdl version w =
     (case (hdl, version) of
        (Some p, Some v) \<Rightarrow> on_ota p (report_version v) w
      | _ \<Rightarrow> Some (IOT_OTAE_INVALID_PARAM, w))"

definition req_image :: "cstr \<Rightarrow> OTA_Struct_t \<Rightarrow> ota_world \<Rightarrow> int ota_run" where
  "req_image version h w =
     (if length version < OTA_VERSION_STR_LEN_MIN \<or> length version > OTA_VERSION_STR_LEN_MAX
      then Some (-1, h\<lparr>ota_err := IOT_OTAE_INVALID_PARAM\<rparr>, w)
      else if ota_state h = IOT_OTAS_UNINITED then Some (-1, h\<lparr>ota_err := IOT_OTAE_INVALID_STATE\<rparr>, w)
      else if ota_state h = IOT_OTAS_FETCHING then Some (-1, h\<lparr>ota_err := IOT_OTAE_INVALID_STATE\<rparr>, w)
      else do {
        let (ok, w) = ota_alloc MSG_REQUEST_LEN w;
        if \<not> ok then Some (-1, h\<lparr>ota_err := IOT_OTAE_NOMEM\<rparr>, w)
        else do {
          let (ret, msg) = otalib_GenInfoMsg MSG_REQUEST_LEN (ota_id h) version;
          if ret \<noteq> 0 then Some (-1, h\<lparr>ota_err := ret\<rparr>, w)
          else do {
            (ret, w) \<leftarrow> osc_RequestImage (ch_signal h) msg w;
            Some (if ret \<noteq> 0 then (-1, h\<lparr>ota_err := ret\<rparr>, w) else (0, h, w))
          }
        }
      })"

definition iotx_req_image :: "nat option \<Rightarrow> cstr option \<Rightarrow> ota_world \<Rightarrow> (int \<times> ota_world) option" where
  "iotx_req_image hdl version w =
     (case (hdl, version) of
        (Some p, Some v) \<Rightarrow> on_ota p (req_image v) w
      | _ \<Rightarrow> Some (IOT_OTAE_INVALID_PARAM, w))"

definition report_progress :: "int \<Rightarrow> cstr option \<Rightarrow> OTA_Struct_t \<Rightarrow> ota_world \<Rightarrow> int ota_run" where
  "report_progress progress msg h w =
     (if ota_state h = IOT_OTAS_UNINITED then Some (-1, h\<lparr>ota_err := IOT_OTAE_INVALID_STATE\<rparr>, w)
      else if \<not> ota_check_progress progress then Some (-1, h\<lparr>ota_err := IOT_OTAE_INVALID_PARAM\<rparr>, w)
      else do {
        let (ok, w) = ota_alloc MSG_REPORT_LEN w;
        if \<not> ok then Some (-1, h\<lparr>ota_err := IOT_OTAE_NOMEM\<rparr>, w)
        else do {
          let (ret, reported) = otalib_GenReportMsg MSG_REPORT_LEN (ota_id h) progress msg;
          if ret \<noteq> 0 then Some (ret, h\<lparr>ota_err := ret\<rparr>, w)
          else do {
            (ret, w) \<leftarrow> osc_ReportProgress (ch_signal h) reported w;
            Some (if ret \<noteq> 0 then (ret, h\<lparr>ota_err := ret\<rparr>, w) else (0, h, w))
          }
        }
      })"

definition IOT_OTA_ReportProgress :: "nat option \<Rightarrow> int \<Rightarrow> cstr option \<Rightarrow> ota_world \<Rightarrow> (int \<times> ota_world) option" where
  "IOT_OTA_ReportProgress hdl progress msg w =
     (case hdl of None \<Rightarrow> Some (IOT_OTAE_INVALID_PARAM, w) | Some p \<Rightarrow> on_ota p (report_progress progress msg) w)"

definition CONFIG_GET_FMT :: string where
  \<open>CONFIG_GET_FMT = ''{"id" : %d,"version":"1.0","params":{"configScope":"%s","getType":"%s","attributeKeys":"%s"},"method":"thing.config.get"}''\<close>

definition get_config :: "cstr \<Rightarrow> cstr \<Rightarrow> cstr \<Rightarrow> OTA_Struct_t \<Rightarrow> ota_world \<Rightarrow> int ota_run" where
  "get_config configScope get_type attributeKeys h w =
     (if ota_state h = IOT_OTAS_UNINITED then Some (-1, h\<lparr>ota_err := IOT_OTAE_INVALID_STATE\<rparr>, w)
      else if ota_state h = IOT_OTAS_FETCHING then Some (-1, h\<lparr>ota_err := IOT_OTAE_INVALID_STATE\<rparr>, w)
      else do {
        let (ok, w) = ota_alloc MSG_REPORT_LEN w;
        if \<not> ok then Some (-1, h\<lparr>ota_err := IOT_OTAE_NOMEM\<rparr>, w)
        else do {
          let (n, topic) = snprintf OTA_MQTT_TOPIC_LEN (format_args ''/sys/%s/%s/thing/config/get'' [ota_product_key h, ota_device_name h]);
          if n < 0 then Some (-1, h, w)
          else do {
            let (n, msg) = snprintf MSG_REPORT_LEN (format_args CONFIG_GET_FMT [print_int (sint (ota_id h)), configScope, get_type, attributeKeys]);
            if n < 0 then Some (-1, h, w)
            else do {
              (ret, w) \<leftarrow> osc_RequestConfig (ch_signal h) topic msg w;
              Some (if ret < 0 then IOT_OTAE_OSC_FAILED else 0, h, w)
            }
          }
        }
      })"

definition iotx_ota_get_config :: "nat option \<Rightarrow> cstr \<Rightarrow> cstr \<Rightarrow> cstr \<Rightarrow> ota_world \<Rightarrow> (int \<times> ota_world) option" where
  "iotx_ota_get_config hdl configScope get_type attributeKeys w =
     (case hdl of None \<Rightarrow> Some (IOT_OTAE_INVALID_PARAM, w) | Some p \<Rightarrow> on_ota p (get_config configScope get_type attributeKeys) w)"

definition state_is :: "IOT_OTA_State_t \<Rightarrow> OTA_Struct_t \<Rightarrow> ota_world \<Rightarrow> int ota_run" where
  "state_is s h w =
     (if ota_state h = IOT_OTAS_UNINITED then Some (0, h\<lparr>ota_err := IOT_OTAE_INVALID_STATE\<rparr>, w)
      else Some (if ota_state h = s then 1 else 0, h, w))"

definition IOT_OTA_IsFetching :: "nat option \<Rightarrow> ota_world \<Rightarrow> (int \<times> ota_world) option" where
  "IOT_OTA_IsFetching hdl w = (case hdl of None \<Rightarrow> Some (0, w) | Some p \<Rightarrow> on_ota p (state_is IOT_OTAS_FETCHING) w)"

definition IOT_OTA_IsFetchFinish :: "nat option \<Rightarrow> ota_world \<Rightarrow> (int \<times> ota_world) option" where
  "IOT_OTA_IsFetchFinish hdl w = (case hdl of None \<Rightarrow> Some (0, w) | Some p \<Rightarrow> on_ota p (state_is IOT_OTAS_FETCHED) w)"

definition IOT_OTA_GetLastError :: "nat option \<Rightarrow> ota_world \<Rightarrow> (int \<times> ota_world) option" where
  "IOT_OTA_GetLastError hdl w =
     (case hdl of None \<Rightarrow> Some (IOT_OTAE_INVALID_PARAM, w) | Some p \<Rightarrow> on_ota p (\<lambda>h w. Some (ota_err h, h, w)) w)"

text \<open>The end of a download: the callback is told, and the URL is dropped.\<close>

definition fetch_end :: "OTA_Struct_t \<Rightarrow> ota_world \<Rightarrow> OTA_Struct_t \<times> ota_world" where
  "fetch_end h w =
     (if fetch_cb h \<noteq> None \<and> purl h \<noteq> None then (h\<lparr>purl := None\<rparr>, call_fetch_cb 1 h w)
      else if fetch_cota_cb h \<noteq> None \<and> cota_url h \<noteq> None then (h\<lparr>cota_url := None\<rparr>, call_cota_cb 1 h w)
      else (h, w))"

text \<open>The first piece of a download: new digests and a report; \<^term>\<open>True\<close> when the download goes on.\<close>

definition fetch_begin :: "OTA_Struct_t \<Rightarrow> ota_world \<Rightarrow> bool ota_run" where
  "fetch_begin h w = do {
     let (c, w) = otalib_MD5Init w;
     let h = h\<lparr>ota_md5 := c\<rparr>;
     if c = None then Some (False, h, w)
     else do {
       let (s, w) = otalib_Sha256Init w;
       let h = h\<lparr>ota_sha256 := s\<rparr>;
       if s = None then Some (False, h, w)
       else do {
         (_, h, w) \<leftarrow> report_progress IOT_OTAP_FETCH_PERCENTAGE_MIN (Some (ascii ''Enter in downloading state'')) h w;
         Some (True, h, w)
       }
     }
   }"

text \<open>What is done with a piece of \<open>n\<close> bytes.\<close>

definition fetch_piece :: "byte list \<Rightarrow> int \<Rightarrow> OTA_Struct_t \<Rightarrow> ota_world \<Rightarrow> int ota_run" where
  "fetch_piece buf n h w = do {
     c \<leftarrow> otalib_MD5Update (ota_md5 h) buf (word_of_int n);
     s \<leftarrow> otalib_Sha256Update (ota_sha256 h) buf (word_of_int n);
     let h = h\<lparr>ota_md5 := c, ota_sha256 := s, size_last_fetched := word_of_int n, size_fetched := size_fetched h + word_of_int n\<rparr>;
     let (h, w) = (if size_fetched h \<ge> size_file h
                   then fetch_end (h\<lparr>ota_type := IOT_OTAT_NONE, ota_state := IOT_OTAS_FETCHED\<rparr>) w else (h, w));
     Some (n, h, w)
   }"

definition fetch_yield :: "http_reply \<Rightarrow> OTA_Struct_t \<Rightarrow> ota_world \<Rightarrow> int ota_run" where
  "fetch_yield reply h w =
     (if ota_state h \<noteq> IOT_OTAS_FETCHING
      then Some (IOT_OTAE_INVALID_STATE, h\<lparr>ota_err := IOT_OTAE_INVALID_STATE\<rparr>, w)
      else do {
        ch \<leftarrow> ch_fetch h;
        let (ret, ch) = ofc_Fetch ch reply;
        let h = h\<lparr>ch_fetch := Some ch\<rparr>;
        if ret < 0 then do {
          let (h, w) = fetch_end (h\<lparr>ota_state := IOT_OTAS_FETCHED, ota_type := IOT_OTAT_NONE, ota_err := IOT_OTAE_FETCH_FAILED\<rparr>) w;
          Some (-1, h\<lparr>size_fetched := 0\<rparr>, w)
        }
        else do {
          (go, h, w) \<leftarrow> (if size_fetched h = 0 then fetch_begin h w else Some (True, h, w));
          if \<not> go then Some (-1, h, w) else fetch_piece (hr_buf reply) ret h w
        }
      })"

text \<open>\<open>buf\<close> and \<open>buf_len\<close> are those of the request that is answered by \<open>reply\<close>.\<close>

definition IOT_OTA_FetchYield :: "nat option \<Rightarrow> bool \<Rightarrow> u32 \<Rightarrow> http_reply \<Rightarrow> ota_world \<Rightarrow> (int \<times> ota_world) option" where
  "IOT_OTA_FetchYield hdl buf buf_len reply w =
     (case hdl of
        Some p \<Rightarrow> if \<not> buf \<or> buf_len = 0 then Some (IOT_OTAE_INVALID_PARAM, w) else on_ota p (fetch_yield reply) w
      | None \<Rightarrow> Some (IOT_OTAE_INVALID_PARAM, w))"

subsection \<open>The interface: options\<close>

text \<open>What \<open>buf\<close> points to: a string pointer, or bytes at an address that is a multiple of four or not.\<close>

datatype ota_buf = Str_Ptr "cstr option" | Mem bool "byte list"

type_synonym ota_answer = "(int \<times> ota_buf) ota_run"

definition param_error :: "ota_buf \<Rightarrow> OTA_Struct_t \<Rightarrow> ota_world \<Rightarrow> ota_answer" where
  "param_error buf h w = Some ((-1, buf), h\<lparr>ota_err := IOT_OTAE_INVALID_PARAM\<rparr>, w)"

text \<open>The cases that hand out a copy of a string.\<close>

definition ioctl_string :: "cstr option \<Rightarrow> ota_buf \<Rightarrow> OTA_Struct_t \<Rightarrow> ota_world \<Rightarrow> ota_answer" where
  "ioctl_string field buf h w =
     (case buf of
        Mem _ _ \<Rightarrow> None
      | Str_Ptr value \<Rightarrow>
          (case field of
             None \<Rightarrow> param_error buf h w
           | Some s \<Rightarrow>
               if value \<noteq> None then param_error buf h w
               else (case ota_alloc (length s + 1) w of
                       (ok, w) \<Rightarrow> if ok then Some ((0, Str_Ptr (Some s)), h, w) else param_error buf h w)))"

text \<open>The cases that want a buffer of four bytes, and what they write there.\<close>

definition word_buffer :: "int \<Rightarrow> ota_buf \<Rightarrow> bool option" where
  "word_buffer buf_len buf = (case buf of Mem aligned bs \<Rightarrow> Some (buf_len = 4 \<and> aligned) | Str_Ptr _ \<Rightarrow> None)"

definition put_word :: "u32 \<Rightarrow> ota_buf \<Rightarrow> ota_buf option" where
  "put_word x buf =
     (case buf of Mem aligned bs \<Rightarrow> map_option (Mem aligned) (store_bytes bs 0 (PUT_UINT32_LE x)) | Str_Ptr _ \<Rightarrow> None)"

definition ioctl_word :: "int \<Rightarrow> u32 \<Rightarrow> ota_buf \<Rightarrow> OTA_Struct_t \<Rightarrow> ota_world \<Rightarrow> ota_answer" where
  "ioctl_word buf_len x buf h w = do {
     good \<leftarrow> word_buffer buf_len buf;
     if \<not> good then param_error buf h w else do { buf \<leftarrow> put_word x buf; Some ((0, buf), h, w) }
   }"

text \<open>\<open>strncpy\<close> and the terminator behind it.\<close>

definition ioctl_text :: "int \<Rightarrow> cstr \<Rightarrow> ota_buf \<Rightarrow> OTA_Struct_t \<Rightarrow> ota_world \<Rightarrow> ota_answer" where
  "ioctl_text buf_len s buf h w =
     (case buf of
        Str_Ptr _ \<Rightarrow> None
      | Mem aligned bs \<Rightarrow>
          if buf_len < 0 then None
          else do {
            bs \<leftarrow> store_bytes bs 0 (take (nat buf_len) (s @ replicate (nat buf_len) 0));
            bs \<leftarrow> store bs (nat buf_len - 1) 0;
            Some ((0, Mem aligned bs), h, w)
          })"

text \<open>\<open>strncmp(a, b, strlen(a)) == 0\<close>\<close>

definition begins :: "cstr \<Rightarrow> string \<Rightarrow> bool" where
  "begins a b \<longleftrightarrow> take (length a) (ascii b) = a"

definition check_firmware :: "int \<Rightarrow> ota_buf \<Rightarrow> OTA_Struct_t \<Rightarrow> ota_world \<Rightarrow> ota_answer" where
  "check_firmware buf_len buf h w = do {
     good \<leftarrow> word_buffer buf_len buf;
     if \<not> good then param_error buf h w
     else if ota_state h \<noteq> IOT_OTAS_FETCHED then Some ((-1, buf), h\<lparr>ota_err := IOT_OTAE_INVALID_STATE\<rparr>, w)
     else do {
       (md5_str, c) \<leftarrow> otalib_MD5Finalize (ota_md5 h);
       let h = h\<lparr>ota_md5 := c\<rparr>;
       s \<leftarrow> str_of (md5sum h);
       if s = md5_str then do { buf \<leftarrow> put_word 1 buf; Some ((0, buf), h, w) }
       else do {
         buf \<leftarrow> put_word 0 buf;
         (_, h, w) \<leftarrow> report_progress IOT_OTAP_CHECK_FALIED None h w;
         Some ((0, buf), h, w)
       }
     }
   }"

definition check_config :: "int \<Rightarrow> ota_buf \<Rightarrow> OTA_Struct_t \<Rightarrow> ota_world \<Rightarrow> ota_answer" where
  "check_config buf_len buf h w = do {
     good \<leftarrow> word_buffer buf_len buf;
     if \<not> good then param_error buf h w
     else if ota_state h \<noteq> IOT_OTAS_FETCHED then Some ((-1, buf), h\<lparr>ota_err := IOT_OTAE_INVALID_STATE\<rparr>, w)
     else do {
       m \<leftarrow> signMethod h;
       (buf, h) \<leftarrow> (if begins m ''Md5'' then do {
                    (md5_str, c) \<leftarrow> otalib_MD5Finalize (ota_md5 h);
                    s \<leftarrow> ota_sign h;
                    buf \<leftarrow> put_word (if s = md5_str then 1 else 0) buf;
                    Some (buf, h\<lparr>ota_md5 := c\<rparr>)
                  } else Some (buf, h));
       (buf, h) \<leftarrow> (if begins m ''Sha256'' then do {
                    (sha256_str, c) \<leftarrow> otalib_Sha256Finalize (ota_sha256 h);
                    s \<leftarrow> ota_sign h;
                    buf \<leftarrow> put_word (if s = sha256_str then 1 else 0) buf;
                    Some (buf, h\<lparr>ota_sha256 := c\<rparr>)
                  } else Some (buf, h));
       Some ((0, buf), h, w)
     }
   }"

definition ota_ioctl :: "IOT_OTA_CmdType_t \<Rightarrow> ota_buf \<Rightarrow> int \<Rightarrow> OTA_Struct_t \<Rightarrow> ota_world \<Rightarrow> ota_answer" where
  "ota_ioctl type buf buf_len h w =
     (if ota_state h < IOT_OTAS_FETCHING
      then Some ((IOT_OTAE_INVALID_STATE, buf), h\<lparr>ota_err := IOT_OTAE_INVALID_STATE\<rparr>, w)
      else case type of
        IOT_OTAG_COTA_CONFIG_ID \<Rightarrow> ioctl_string (configId h) buf h w
      | IOT_OTAG_COTA_CONFIG_SIZE \<Rightarrow> ioctl_word buf_len (configSize h) buf h w
      | IOT_OTAG_COTA_SIGN \<Rightarrow> ioctl_string (ota_sign h) buf h w
      | IOT_OTAG_COTA_SIGN_METHOD \<Rightarrow> ioctl_string (signMethod h) buf h w
      | IOT_OTAG_COTA_URL \<Rightarrow> ioctl_string (cota_url h) buf h w
      | IOT_OTAG_COTA_GETTYPE \<Rightarrow> ioctl_string (getType h) buf h w
      | IOT_OTAG_OTA_TYPE \<Rightarrow> ioctl_word buf_len (ota_type_number (ota_type h)) buf h w
      | IOT_OTAG_FETCHED_SIZE \<Rightarrow> ioctl_word buf_len (size_fetched h) buf h w
      | IOT_OTAG_FILE_SIZE \<Rightarrow> ioctl_word buf_len (size_file h) buf h w
      | IOT_OTAG_VERSION \<Rightarrow> do { s \<leftarrow> ota_version h; ioctl_text buf_len s buf h w }
      | IOT_OTAG_MD5SUM \<Rightarrow> do { s \<leftarrow> str_of (md5sum h); ioctl_text buf_len s buf h w }
      | IOT_OTAG_CHECK_FIRMWARE \<Rightarrow> check_firmware buf_len buf h w
      | IOT_OTAG_CHECK_CONFIG \<Rightarrow> check_config buf_len buf h w
      | IOT_OTAG_RESET_FETCHED_SIZE \<Rightarrow> Some ((0, buf), h\<lparr>size_fetched := 0\<rparr>, w)
      | IOT_OTAG_other \<Rightarrow> param_error buf h w)"

definition IOT_OTA_Ioctl ::
  "nat option \<Rightarrow> IOT_OTA_CmdType_t \<Rightarrow> ota_buf option \<Rightarrow> int \<Rightarrow> ota_world \<Rightarrow> ((int \<times> ota_buf option) \<times> ota_world) option" where
  "IOT_OTA_Ioctl hdl type buf buf_len w =
     (case (hdl, buf) of
        (Some p, Some b) \<Rightarrow>
          if buf_len = 0 then Some ((IOT_OTAE_INVALID_PARAM, buf), w)
          else do {
            (r, w) \<leftarrow> on_ota p (ota_ioctl type b buf_len) w;
            Some ((fst r, Some (snd r)), w)
          }
      | _ \<Rightarrow> Some ((IOT_OTAE_INVALID_PARAM, buf), w))"

end
