(* ===== verification/MQTT_Total.thy ===== *)
theory MQTT_Total
  imports MQTT_Api
begin

text \<open>
  Publishing returns. On a platform whose clock passes every deadline and whose network accepts at most
  what it is given, \<open>IOT_MQTT_Publish\<close> comes back with a result on every path, and the platform is as good as
  before. The other components call it for their reports.
\<close>

definition clock_runs :: "hal \<Rightarrow> bool" where
  "clock_runs h \<longleftrightarrow> (\<forall>timer n. \<exists>m \<ge> n. \<forall>t \<in> {m .. m + 3}. expired_at h timer t)"

definition platform_live :: "hal \<Rightarrow> bool" where
  "platform_live h \<longleftrightarrow> write_bounded (net_write h) \<and> clock_runs h"

text \<open>Platform calls move on in time; the behaviour of the platform stays.\<close>

definition same_platform :: "hal \<Rightarrow> hal \<Rightarrow> bool" where
  "same_platform h h' \<longleftrightarrow> clock h' = clock h \<and> net_write h' = net_write h"

lemma same_platform_refl [simp]: "same_platform h h"
  by (simp add: same_platform_def)

lemma same_platform_next [simp]: "same_platform h (next_tick h') = same_platform h h'"
  by (simp add: same_platform_def)

lemma same_platform_live: "same_platform h h' \<Longrightarrow> platform_live h \<Longrightarrow> platform_live h'"
  by (simp add: same_platform_def platform_live_def clock_runs_def expired_at_def)

lemma same_platform_trans: "same_platform a b \<Longrightarrow> same_platform b c \<Longrightarrow> same_platform a c"
  by (simp add: same_platform_def)

lemma live_deadline: "platform_live h \<Longrightarrow> deadline_seen h timer"
  by (simp add: platform_live_def clock_runs_def deadline_seen_def)

lemma send_loop_platform: "send_loop buf len timer sent h = Some r \<Longrightarrow> same_platform h (snd r)"
proof (induction rule: send_loop.raw_induct [rotated, consumes 1, case_names step])
  case (step loop buf len timer sent h r)
  have time: "same_platform h (snd (utils_time_is_expired timer h))" "same_platform h (snd (time_left_nz timer h))" for h
    using time_left_nz_eq [of timer h] by (auto simp: is_expired_eq)
  have wr: "same_platform h (snd (ipstack_write d t h))" for d t h
    by (simp add: ipstack_write_eq same_platform_def Let_def)
  obtain ex h1 where e: "utils_time_is_expired timer h = (ex, h1)" "same_platform h h1" using time(1) [of h] by (metis prod.collapse)
  obtain lt h2 where l: "time_left_nz timer h1 = (lt, h2)" "same_platform h1 h2" using time(2) [of h1] by (metis prod.collapse)
  show ?case
  proof (cases "sent < len \<and> \<not> ex")
    case False
    then show ?thesis using step(2) e by (auto split: if_splits)
  next
    case True
    then obtain d where d: "load_bytes buf (nat sent) (nat (len - sent)) = Some d"
      using step(2) e(1) l(1) by (auto simp: bind_eq_Some_conv)
    obtain rc h3 where w: "ipstack_write d lt h2 = (rc, h3)" "same_platform h2 h3" using wr [of h2 d lt] by (metis prod.collapse)
    have "same_platform h h3" using e(2) l(2) w(2) same_platform_trans by blast
    then show ?thesis
      using step(1) [of buf len timer "sent + rc" h3 r] step(2) True e(1) l(1) d w(1)
      by (auto intro: same_platform_trans split: if_splits)
  qed
qed

lemma send_packet_live:
  assumes "platform_live (env c)" "0 \<le> len" "len \<le> int (length buf)"
  shows "\<exists>rc h. iotx_mc_send_packet c (Some buf) len timer = Some (rc, c\<lparr>env := h\<rparr>) \<and> same_platform (env c) h"
proof -
  obtain rc c' where r: "iotx_mc_send_packet c (Some buf) len timer = Some (rc, c')"
    using send_packet_returns [OF _ assms(2,3) live_deadline [OF assms(1)], of timer] assms(1) by (auto simp: platform_live_def)
  then obtain h where "c' = c\<lparr>env := h\<rparr>" "same_platform (env c) h"
    by (auto simp: iotx_mc_send_packet_def bind_eq_Some_conv dest!: send_loop_platform)
  then show ?thesis using r by blast
qed

subsection \<open>Publishing\<close>

text \<open>A run on a client that returns and leaves the platform as it is.\<close>

definition runs_on :: "hal \<Rightarrow> (int \<times> iotx_mc_client_t) option \<Rightarrow> bool" where
  "runs_on h r \<longleftrightarrow> returns r (\<lambda>(_, c'). same_platform h (env c'))"

lemma runs_onI: "r = Some (rc, c') \<Longrightarrow> same_platform h (env c') \<Longrightarrow> runs_on h r"
  by (simp add: runs_on_def)

lemma runs_onE:
  assumes "runs_on h r"
  obtains rc c' where "r = Some (rc, c')" "same_platform h (env c')"
  using assms by (auto simp: runs_on_def returns_def)

lemma runs_on_bind:
  assumes "runs_on h r" "\<And>rc c'. r = Some (rc, c') \<Longrightarrow> same_platform h (env c') \<Longrightarrow> runs_on h (f rc c')"
  shows "runs_on h (r \<bind> (\<lambda>(rc, c'). f rc c'))"
  using assms(1) by (rule runs_onE) (simp add: assms(2))

lemma push_live:
  assumes "buf_send c = Some b" "0 \<le> len" "nat len \<le> length b"
  shows "\<exists>rc h ack. iotx_mc_push_pubInfo_to c len i = Some (rc, c\<lparr>env := h, list_pub_wait_ack := ack\<rparr>) \<and> same_platform (env c) h"
proof (cases "len < 0 \<or> len > uint (buf_size_send c) \<or> length (list_pub_wait_ack c) \<ge> IOTX_MC_REPUB_NUM_MAX")
  case True
  then have "iotx_mc_push_pubInfo_to c len i = Some (FAIL_RETURN, c\<lparr>env := env c, list_pub_wait_ack := list_pub_wait_ack c\<rparr>)"
    by (auto simp: iotx_mc_push_pubInfo_to_def)
  then show ?thesis using same_platform_refl by blast
next
  case False
  show ?thesis
  proof (cases "malloc_ok (env c) (tick (env c)) (sizeof_pub_info + nat len)")
    case True
    have "iotx_mc_push_pubInfo_to c len i = Some (SUCCESS_RETURN, c\<lparr>env := next_tick (next_tick (env c)),
        list_pub_wait_ack := list_pub_wait_ack c @ [\<lparr>pub_start_time = ucast (clock (env c) (tick (env c) + 1)),
          node_state = IOTX_MC_NODE_STATE_NORMANL, msg_id = i, pub_len = word_of_int len, pub_buf = take (nat len) b\<rparr>]\<rparr>)"
      using assms False True
      by (simp add: iotx_mc_push_pubInfo_to_def hal_run_def HAL_Malloc_def iotx_time_start_def HAL_UptimeMs_def load_bytes_def)
    then show ?thesis by (metis same_platform_next same_platform_refl)
  next
    case no: False
    then have "iotx_mc_push_pubInfo_to c len i = Some (FAIL_RETURN, c\<lparr>env := next_tick (env c), list_pub_wait_ack := list_pub_wait_ack c\<rparr>)"
      using False by (simp add: iotx_mc_push_pubInfo_to_def hal_run_def HAL_Malloc_def)
    then show ?thesis by (metis same_platform_next same_platform_refl)
  qed
qed

lemma reset_send_buffer_platform [simp]: "env (reset_send_buffer c) = env c"
  by (simp add: reset_send_buffer_def)

lemma countdown_platform: "hal_run (utils_time_countdown_ms ms) c = (t, c') \<Longrightarrow> \<exists>h. c' = c\<lparr>env := h\<rparr> \<and> same_platform (env c) h"
  by (auto simp: hal_run_def utils_time_countdown_ms_def HAL_UptimeMs_def)

lemma alloc_send_platform: "alloc_send_buffer c n = (rc, c') \<Longrightarrow> same_platform (env c) (env c')"
  by (auto simp: alloc_send_buffer_def hal_run_def HAL_Malloc_def Let_def split: if_splits option.splits)

lemma publish_send_live:
  assumes "same_platform h (env c)" "platform_live h" "buf_send c = Some b" "0 \<le> len" "len \<le> int (length b)"
  shows "runs_on h (iotx_mc_send_packet c (buf_send c) len timer \<bind> (\<lambda>(rc, c). if rc \<noteq> SUCCESS_RETURN
     then Some (MQTT_NETWORK_ERROR, reset_send_buffer (if q then c\<lparr>list_pub_wait_ack := butlast (list_pub_wait_ack c)\<rparr> else c))
     else Some (SUCCESS_RETURN, reset_send_buffer c)))"
proof -
  obtain rc h' where "iotx_mc_send_packet c (Some b) len timer = Some (rc, c\<lparr>env := h'\<rparr>)" "same_platform (env c) h'"
    using send_packet_live [OF same_platform_live [OF assms(1,2)] assms(4,5)] by blast
  moreover then have "same_platform h h'" using assms(1) same_platform_trans by blast
  ultimately show ?thesis unfolding assms(3) by (auto simp: runs_on_def)
qed

lemma publish_push_live:
  assumes "same_platform h (env c)" "platform_live h" "buf_send c = Some b" "0 \<le> len" "len \<le> int (length b)"
  shows "runs_on h ((if q then iotx_mc_push_pubInfo_to c len i else Some (SUCCESS_RETURN, c)) \<bind> (\<lambda>(rc, c).
     if rc \<noteq> SUCCESS_RETURN then Some (MQTT_PUSH_TO_LIST_ERROR, reset_send_buffer c)
     else iotx_mc_send_packet c (buf_send c) len timer \<bind> (\<lambda>(rc, c). if rc \<noteq> SUCCESS_RETURN
       then Some (MQTT_NETWORK_ERROR, reset_send_buffer (if q then c\<lparr>list_pub_wait_ack := butlast (list_pub_wait_ack c)\<rparr> else c))
       else Some (SUCCESS_RETURN, reset_send_buffer c))))"
proof (cases q)
  case False
  then show ?thesis using publish_send_live [OF assms, where q = q] by simp
next
  case True
  have "nat len \<le> length b" using assms(5) by simp
  then obtain rc h' ack where p: "iotx_mc_push_pubInfo_to c len i = Some (rc, c\<lparr>env := h', list_pub_wait_ack := ack\<rparr>)"
      "same_platform (env c) h'"
    using push_live [OF assms(3,4)] by blast
  have "same_platform h h'" using assms(1) p(2) same_platform_trans by blast
  then show ?thesis
    using True p(1) publish_send_live [where q = q and c = "c\<lparr>env := h', list_pub_wait_ack := ack\<rparr>", OF _ assms(2) _ assms(4,5)] assms(3)
    by (auto intro: runs_onI)
qed

lemma MQTTPublish_live:
  assumes live: "platform_live (env c)"
    and pl: "unat (ti_payload_len m) = length payload" and small: "length name + length payload < 268435000"
  shows "runs_on (env c) (MQTTPublish c name m payload)"
proof -
  let ?h = "publish_header 0 (uint (ti_qos m)) (ti_retain m)"
  let ?body = "publish_body (uint (ti_qos m)) name (ti_packet_id m) payload"
  let ?pkt = "fixed_packet ?h ?body"
  let ?topic = "MQTTString_initializer\<lparr>cstring := Some name\<rparr>"
  have topic: "mqttstr_ok ?topic" "mqttstr ?topic = name"
    by (simp_all add: mqttstr_ok_def mqttstr_def MQTTString_initializer_def)
  have lb: "length ?body < 268435456" using small by (simp add: publish_body_def)
  have sp: "sint (ti_payload_len m) = int (length payload)"
    using sint_small [of "ti_payload_len m"] pl small by simp
  obtain timer c1 where c1: "hal_run (utils_time_countdown_ms (request_timeout_ms c)) c = (timer, c1)" by fastforce
  obtain h1 where h1: "c1 = c\<lparr>env := h1\<rparr>" "same_platform (env c) h1" using countdown_platform [OF c1] by blast
  obtain rc2 c2 where c2: "alloc_send_buffer c1 (int (length name) + uint (ti_payload_len m)) = (rc2, c2)" by fastforce
  have p2: "same_platform (env c) (env c2)"
    using alloc_send_platform [OF c2] h1 by (auto intro: same_platform_trans)
  show ?thesis
  proof (cases rule: alloc_send_cases [OF c2])
    case (1 h)
    then show ?thesis using c1 c2 p2 by (intro runs_onI [of _ FAIL_RETURN c2]) (simp_all add: MQTTPublish_def mqtt_error_defs)
  next
    case (2 h b w)
    have bl: "buf_send c2 = Some b" "uint (buf_size_send c2) = int (length b)" using 2 by simp_all
    have ser: "serialize_into c2 (\<lambda>buf size. MQTTSerialize_publish buf size 0 (uint (ti_qos m)) (ti_retain m)
        (ti_packet_id m) ?topic payload (sint (ti_payload_len m))) =
      (serialize_outcome b (int (length b)) ?h ?body \<bind> (\<lambda>(len, buf'). Some (len, c2\<lparr>buf_send := Some buf'\<rparr>)))"
      using publish_serializes [OF topic(1) order_refl, of "uint (ti_qos m)" "ti_packet_id m" payload b 0 "ti_retain m"] lb
      by (simp add: serialize_into_def bl sp topic(2))
    have run: "MQTTPublish c name m payload = (serialize_outcome b (int (length b)) ?h ?body \<bind> (\<lambda>(len, buf'). Some (len, c2\<lparr>buf_send := Some buf'\<rparr>)))
        \<bind> (\<lambda>(len, c). if len \<le> 0 then Some (MQTT_PUBLISH_PACKET_ERROR, reset_send_buffer c)
        else (if ti_qos m > 0 then iotx_mc_push_pubInfo_to c len (ti_packet_id m) else Some (SUCCESS_RETURN, c)) \<bind> (\<lambda>(rc, c).
     if rc \<noteq> SUCCESS_RETURN then Some (MQTT_PUSH_TO_LIST_ERROR, reset_send_buffer c)
     else iotx_mc_send_packet c (buf_send c) len timer \<bind> (\<lambda>(rc, c). if rc \<noteq> SUCCESS_RETURN
       then Some (MQTT_NETWORK_ERROR, reset_send_buffer (if ti_qos m > 0 then c\<lparr>list_pub_wait_ack := butlast (list_pub_wait_ack c)\<rparr> else c))
       else Some (SUCCESS_RETURN, reset_send_buffer c))))"
      unfolding MQTTPublish_def Let_def c1 c2 prod.case ser using 2(1) by (simp add: mqtt_error_defs split del: if_split)
    show ?thesis
    proof (cases "MQTTPacket_len (int (length ?body)) > int (length b)")
      case True
      then show ?thesis
        unfolding run serialize_outcome_def using p2
        by (intro runs_onI [of _ MQTT_PUBLISH_PACKET_ERROR "reset_send_buffer (c2\<lparr>buf_send := Some b\<rparr>)"])
          (simp_all add: MQTTPACKET_BUFFER_TOO_SHORT_def)
    next
      case False
      define c3 where "c3 = c2\<lparr>buf_send := Some (blit b 0 ?pkt)\<rparr>"
      have fit: "length ?pkt \<le> length b" using MQTTPacket_len_covers [OF lb] False by simp
      have c3: "same_platform (env c) (env c3)" "buf_send c3 = Some (blit b 0 ?pkt)" using p2 by (simp_all add: c3_def)
      have ne: "\<not> int (length ?pkt) \<le> 0" by (simp add: fixed_packet_def)
      have le: "int (length ?pkt) \<le> int (length (blit b 0 ?pkt))" using fit by (simp del: length_fixed_packet)
      have out: "serialize_outcome b (int (length b)) ?h ?body \<bind> (\<lambda>(len, buf'). Some (len, c2\<lparr>buf_send := Some buf'\<rparr>)) = Some (int (length ?pkt), c3)"
        using False by (simp add: serialize_outcome_def c3_def del: length_fixed_packet)
      show ?thesis
        unfolding run out Option.bind.simps prod.case if_not_P [OF ne]
        by (rule publish_push_live [OF c3(1) live c3(2) of_nat_0_le_iff le])
    qed
  qed
qed


lemma wrapper_publish_live:
  assumes "platform_live (env c)" "length name + length payload < 268435000" "unat (ti_payload_len m) = length payload" "text_ok name"
  shows "runs_on (env c) (wrapper_mqtt_publish c (Some name) m (Some payload))"
proof -
  obtain ok where ok: "iotx_mc_check_topic (Some name) TOPIC_NAME_TYPE = Some ok"
    using iotx_mc_check_topic_iff [of name] assms(4) unfolding text_ok_def by blast
  define ids where "ids = (if ti_qos m = 1 \<or> ti_qos m = 2 then let (pid, c) = iotx_mc_get_next_packetid c
      in (ucast pid, m\<lparr>ti_packet_id := ucast pid\<rparr>, c) else (0 :: u16, m, c))"
  obtain i m' c' where i: "ids = (i, m', c')" by (cases ids)
  then have same: "env c' = env c" "ti_payload_len m' = ti_payload_len m"
    by (auto simp: ids_def iotx_mc_get_next_packetid_def Let_def split: if_splits)
  have pub: "runs_on (env c) (MQTTPublish c' name m' payload)"
    using MQTTPublish_live [of c' m' payload name] assms(1-3) unfolding same by simp
  have run: "wrapper_mqtt_publish c (Some name) m (Some payload) =
      (if ok \<noteq> 0 then Some (MQTT_TOPIC_FORMAT_ERROR, c) else if \<not> wrapper_mqtt_check_state c then Some (MQTT_STATE_ERROR, c)
       else if ti_qos m' = 2 then Some (MQTT_PUBLISH_QOS_ERROR, c')
       else MQTTPublish c' name m' payload \<bind> (\<lambda>(rc, c). if rc \<noteq> SUCCESS_RETURN
         then Some (rc, if rc = MQTT_NETWORK_ERROR then iotx_mc_set_client_state c IOTX_MC_STATE_DISCONNECTED else c)
         else Some (uint i, c)))"
    unfolding wrapper_mqtt_publish_def prod.case option.case ok Option.bind.simps i [unfolded ids_def] by (simp add: Let_def)
  show ?thesis
    unfolding run
    by (auto simp: runs_on_def same iotx_mc_set_client_state_def intro!: runs_on_bind [OF pub, unfolded runs_on_def])
qed

text \<open>What the callers of the interface rely on: the client that a handle means, if any, runs on a live platform.\<close>

definition mqtt_up :: "nat option \<Rightarrow> mqtt_api \<Rightarrow> bool" where
  "mqtt_up hdl st \<longleftrightarrow>
     (case pick hdl st of None \<Rightarrow> True | Some p \<Rightarrow> (\<exists>c. api_client st = Some (p, c) \<and> platform_live (env c)))"

lemma interface_publish_live:
  assumes "mqtt_up hdl st" "length name + length payload < 268435000" "unat (ti_payload_len m) = length payload" "text_ok name"
  shows "\<exists>rc st'. IOT_MQTT_Publish hdl (Some name) m (Some payload) st = Some (rc, st') \<and> mqtt_up hdl st'"
proof (cases "pick hdl st")
  case None
  then show ?thesis using assms(1) by (simp add: IOT_MQTT_Publish_def)
next
  case (Some p)
  then obtain c where c: "api_client st = Some (p, c)" "platform_live (env c)" using assms(1) by (auto simp: mqtt_up_def)
  obtain rc c' where r: "wrapper_mqtt_publish c (Some name) m (Some payload) = Some (rc, c')" "same_platform (env c) (env c')"
    using wrapper_publish_live [OF c(2) assms(2-4)] by (rule runs_onE)
  have pick: "pick hdl (st\<lparr>api_client := x\<rparr>) = Some p" for x using Some by (simp add: pick_def split: if_splits)
  have "mqtt_up hdl (st\<lparr>api_client := Some (p, c')\<rparr>)"
    using pick same_platform_live [OF r(2) c(2)] by (simp add: mqtt_up_def)
  then show ?thesis using Some c(1) r(1) assms(1) by (auto simp: IOT_MQTT_Publish_def on_client_def)
qed

end
