(* ===== verification/OTA_States.thy ===== *)
theory OTA_States
  imports OTA MQTT_Total Json_Lookup
begin

text \<open>
  The update module from the outside: the invariant of its structure over every sequence of calls and
  messages, what a firmware message starts, what a whole download and its check do, and that well-formed requests of
  \<open>IOT_OTA_Ioctl\<close> are always answered.
\<close>

subsection \<open>What a call leaves alone\<close>

text \<open>An operation on the structure does not touch the flag and the place of the structure.\<close>

definition ota_frame :: "ota_world \<Rightarrow> ota_world \<Rightarrow> bool" where
  "ota_frame w w' \<longleftrightarrow> g_ota_is_initialized w' = g_ota_is_initialized w \<and> ota_at w' = ota_at w \<and> ota_next w' = ota_next w"

lemma ota_frame_refl [simp]: "ota_frame w w"
  by (simp add: ota_frame_def)

lemma ota_frame_trans: "ota_frame a b \<Longrightarrow> ota_frame b c \<Longrightarrow> ota_frame a c"
  by (simp add: ota_frame_def)

lemma ota_frame_upd [simp]:
  "ota_frame w (w'\<lparr>ota_mqtt := m\<rparr>) = ota_frame w w'" "ota_frame w (w'\<lparr>ota_hal := x\<rparr>) = ota_frame w w'"
  "ota_frame w (w'\<lparr>ota_calls := e\<rparr>) = ota_frame w w'"
  by (simp_all add: ota_frame_def)

lemma ota_alloc_frame [simp]: "ota_frame w0 (snd (ota_alloc n w)) = ota_frame w0 w"
  by (simp add: ota_alloc_def case_prod_beta)

lemma digest_init_frame [simp]:
  "ota_frame w0 (snd (otalib_MD5Init w)) = ota_frame w0 w" "ota_frame w0 (snd (otalib_Sha256Init w)) = ota_frame w0 w"
  by (simp_all add: otalib_MD5Init_def otalib_Sha256Init_def case_prod_beta)

lemma ofc_Init_frame [simp]: "ota_frame w0 (snd (ofc_Init url w)) = ota_frame w0 w"
  by (simp add: ofc_Init_def case_prod_beta)

lemma callback_frame [simp]:
  "ota_frame w0 (call_fetch_cb i h w) = ota_frame w0 w" "ota_frame w0 (call_cota_cb i h w) = ota_frame w0 w"
  by (simp_all add: call_fetch_cb_def call_cota_cb_def record_call_def split: option.split)

lemma Publish_frame: "post (otamqtt_Publish c t q msg w) (\<lambda>x. ota_frame w (snd x))"
  unfolding otamqtt_Publish_def Let_def case_prod_beta by (intro post_if post_bind_eq) simp_all

lemma signal_frame:
  "post (osc_ReportProgress ch msg w) (\<lambda>x. ota_frame w (snd x))"
  "post (osc_ReportVersion ch msg w) (\<lambda>x. ota_frame w (snd x))"
  "post (osc_RequestImage ch msg w) (\<lambda>x. ota_frame w (snd x))"
  "post (osc_RequestConfig ch topic msg w) (\<lambda>x. ota_frame w (snd x))"
  unfolding osc_ReportProgress_def osc_ReportVersion_def osc_RequestImage_def osc_RequestConfig_def otamqtt_publish_full_topic_def
  by (intro post_bind_eq Publish_frame; simp add: case_prod_beta)+

lemma push_failed_frame: "post (push_failed m hdl w) (ota_frame w)"
  unfolding push_failed_def Let_def case_prod_beta by (intro post_bind_eq) simp

lemma Varlen_frame: "post (otalib_GetFirmwareVarlenPara mem j n key d w) (\<lambda>x. ota_frame w (snd (snd x)))"
  unfolding otalib_GetFirmwareVarlenPara_def Let_def case_prod_beta
  by (intro post_bind_eq) (auto split: option.split intro!: post_bind_eq)

text \<open>A step of an operation that calls another one.\<close>

lemma post_call: "post m (\<lambda>x. ota_frame w (snd x)) \<Longrightarrow> ota_frame w0 w \<Longrightarrow>
    (\<And>x. ota_frame w0 (snd x) \<Longrightarrow> post (f x) P) \<Longrightarrow> post (m \<bind> f) P"
  by (cases m) (auto intro: ota_frame_trans)

lemma post_call3: "post m (\<lambda>x. ota_frame w (snd (snd x))) \<Longrightarrow> ota_frame w0 w \<Longrightarrow>
    (\<And>x. ota_frame w0 (snd (snd x)) \<Longrightarrow> post (f x) P) \<Longrightarrow> post (m \<bind> f) P"
  by (cases m) (auto intro: ota_frame_trans)

subsection \<open>The invariant\<close>

definition ota_ok :: "OTA_Struct_t \<Rightarrow> bool" where
  "ota_ok h \<longleftrightarrow> ota_state h \<noteq> IOT_OTAS_UNINITED \<and> ch_signal h \<noteq> None \<and> length (md5sum h) = 33 \<and> md5sum h ! 32 = 0 \<and>
     (ota_state h = IOT_OTAS_FETCHING \<longleftrightarrow> ota_type h \<noteq> IOT_OTAT_NONE) \<and>
     (ota_state h = IOT_OTAS_FETCHING \<longrightarrow> ch_fetch h \<noteq> None) \<and>
     (size_fetched h \<noteq> 0 \<longrightarrow> ota_md5 h \<noteq> None \<and> ota_sha256 h \<noteq> None)"

definition ota_inv :: "ota_world \<Rightarrow> bool" where
  "ota_inv w \<longleftrightarrow>
     (case ota_at w of
        None \<Rightarrow> \<not> g_ota_is_initialized w
      | Some (p, h) \<Rightarrow> g_ota_is_initialized w \<and> p < ota_next w \<and> ota_ok h)"

text \<open>An operation on the structure keeps its invariant, and the rest of the world.\<close>

definition keeps_ota :: "(OTA_Struct_t \<Rightarrow> ota_world \<Rightarrow> 'a ota_run) \<Rightarrow> bool" where
  "keeps_ota f \<longleftrightarrow> (\<forall>h w. ota_ok h \<longrightarrow> post (f h w) (\<lambda>(_, h', w'). ota_ok h' \<and> ota_frame w w'))"

lemma keeps_otaI: "(\<And>h w. ota_ok h \<Longrightarrow> post (f h w) (\<lambda>(_, h', w'). ota_ok h' \<and> ota_frame w w')) \<Longrightarrow> keeps_ota f"
  by (simp add: keeps_ota_def)

lemma keeps_otaD: "keeps_ota f \<Longrightarrow> ota_ok h \<Longrightarrow> f h w = Some (x, h', w') \<Longrightarrow> ota_ok h' \<and> ota_frame w w'"
  by (auto simp: keeps_ota_def post_def)

lemma post_keep: "keeps_ota f \<Longrightarrow> ota_ok h \<Longrightarrow> ota_frame w0 w \<Longrightarrow>
    (\<And>x. f h w = Some x \<Longrightarrow> ota_ok (fst (snd x)) \<Longrightarrow> ota_frame w0 (snd (snd x)) \<Longrightarrow> post (g x) P) \<Longrightarrow> post (f h w \<bind> g) P"
proof (cases "f h w")
  case (Some x)
  assume a: "keeps_ota f" "ota_ok h" "ota_frame w0 w"
    and g: "\<And>x. f h w = Some x \<Longrightarrow> ota_ok (fst (snd x)) \<Longrightarrow> ota_frame w0 (snd (snd x)) \<Longrightarrow> post (g x) P"
  have "ota_ok (fst (snd x)) \<and> ota_frame w (snd (snd x))"
    using keeps_otaD [OF a(1,2), of w "fst x" "fst (snd x)" "snd (snd x)"] Some by simp
  with a(3) g [OF Some] show ?thesis by (simp add: Some ota_frame_trans [of w0 w])
qed simp

lemma post_keep_last: "keeps_ota f \<Longrightarrow> ota_ok h \<Longrightarrow> ota_frame w0 w \<Longrightarrow> post (f h w) (\<lambda>x. ota_ok (fst (snd x)) \<and> ota_frame w0 (snd (snd x)))"
  by (auto simp: post_def dest!: keeps_otaD intro: ota_frame_trans)

lemma on_ota_inv: "keeps_ota f \<Longrightarrow> ota_inv w \<Longrightarrow> on_ota p f w = Some (rc, w') \<Longrightarrow> ota_inv w'"
  by (auto simp: on_ota_def ota_inv_def ota_frame_def bind_eq_Some_conv split: option.splits if_splits prod.splits dest!: keeps_otaD)

lemma ota_ok_err [simp]: "ota_ok (h\<lparr>ota_err := e\<rparr>) = ota_ok h"
  by (simp add: ota_ok_def)

lemma report_progress_keeps: "keeps_ota (report_progress progress msg)"
  unfolding report_progress_def Let_def by (rule keeps_otaI) (auto simp: case_prod_beta' intro!: post_call [OF signal_frame(1)])

lemma reports_keep: "keeps_ota (report_version v)" "keeps_ota (req_image v)" "keeps_ota (get_config sc gt ak)"
  "keeps_ota (state_is s)" "keeps_ota (\<lambda>h w. Some (ota_err h, h, w))"
  unfolding report_version_def req_image_def get_config_def state_is_def Let_def
  by (rule keeps_otaI; auto simp: case_prod_beta' simp del: format_args.simps
      intro!: post_call [OF signal_frame(2)] post_call [OF signal_frame(3)] post_call [OF signal_frame(4)])+

text \<open>Reading the parameters of a message changes the fields for them and nothing else.\<close>

definition ota_core :: "OTA_Struct_t \<Rightarrow> OTA_Struct_t \<Rightarrow> bool" where
  "ota_core h h' \<longleftrightarrow> ota_state h' = ota_state h \<and> ota_type h' = ota_type h \<and> ch_signal h' = ch_signal h \<and> ch_fetch h' = ch_fetch h \<and>
     size_fetched h' = size_fetched h \<and> ota_md5 h' = ota_md5 h \<and> ota_sha256 h' = ota_sha256 h \<and>
     length (md5sum h') = length (md5sum h) \<and> drop 32 (md5sum h') = drop 32 (md5sum h)"

lemma ota_core_refl [simp]: "ota_core h h"
  by (simp add: ota_core_def)

lemma ota_core_upd [simp]:
  "ota_core h (h'\<lparr>ota_version := v\<rparr>) = ota_core h h'" "ota_core h (h'\<lparr>purl := v\<rparr>) = ota_core h h'"
  "ota_core h (h'\<lparr>size_file := x\<rparr>) = ota_core h h'" "ota_core h (h'\<lparr>configId := v\<rparr>) = ota_core h h'"
  "ota_core h (h'\<lparr>configSize := x\<rparr>) = ota_core h h'" "ota_core h (h'\<lparr>ota_sign := v\<rparr>) = ota_core h h'"
  "ota_core h (h'\<lparr>signMethod := v\<rparr>) = ota_core h h'" "ota_core h (h'\<lparr>cota_url := v\<rparr>) = ota_core h h'"
  "ota_core h (h'\<lparr>getType := v\<rparr>) = ota_core h h'"
  by (simp_all add: ota_core_def)

lemma ota_ok_core: "ota_core h h' \<Longrightarrow> ota_ok h \<Longrightarrow> ota_ok h'"
proof -
  assume c: "ota_core h h'" and ok: "ota_ok h"
  have d: "drop 32 (md5sum h') = drop 32 (md5sum h)" and l: "length (md5sum h') = 33" "length (md5sum h) = 33"
    using c ok by (simp_all add: ota_core_def ota_ok_def)
  have "md5sum h' ! 32 = md5sum h ! 32" using arg_cong [OF d, of "\<lambda>xs. xs ! 0"] l by simp
  then show ?thesis using c ok by (simp add: ota_core_def ota_ok_def)
qed

lemma Fixlen_keeps: "post (otalib_GetFirmwareFixlenPara mem j n key d m) (\<lambda>x. length (snd x) = length d \<and> drop m (snd x) = drop m d)"
  unfolding otalib_GetFirmwareFixlenPara_def Let_def case_prod_beta
  by (intro post_bind_eq) (auto simp: store_bytes_def blit_def load_bytes_def split: option.split if_splits intro!: post_bind_eq)

lemma GetParams_core: "post (otalib_GetParams mem j n h w) (\<lambda>x. ota_core h (fst (snd x)) \<and> ota_frame w (snd (snd x)))"
  unfolding otalib_GetParams_def Let_def case_prod_beta
  by (intro post_if post_call3 [OF Varlen_frame] post_bind_eq [of "otalib_GetFirmwareFixlenPara _ _ _ _ _ _"] post_bind_eq [of "read_size _"])
    (simp_all add: ota_core_def, auto dest!: postD [OF Fixlen_keeps])

lemma GetConfigParams_core: "post (otalib_GetConfigParams mem j n h w) (\<lambda>x. ota_core h (fst (snd x)) \<and> ota_frame w (snd (snd x)))"
  unfolding otalib_GetConfigParams_def Let_def case_prod_beta
  by (intro post_if post_call3 [OF Varlen_frame] post_bind_eq [of "otalib_GetFirmwareFixlenPara _ _ _ _ _ _"] post_bind_eq [of "read_size _"])
    (simp_all add: ota_core_def)

text \<open>A new message is only looked at when no download is running.\<close>

lemma start_keeps:
  assumes "ota_ok h" "ota_state h \<noteq> IOT_OTAS_FETCHING"
  shows "post (start_firmware mem pv h w) (\<lambda>x. ota_ok (fst (snd x)) \<and> ota_frame w (snd (snd x)))"
    and "post (start_config mem pv h w) (\<lambda>x. ota_ok (fst (snd x)) \<and> ota_frame w (snd (snd x)))"
proof -
  have ok: "ota_ok h' \<and> ota_state h' \<noteq> IOT_OTAS_FETCHING" if "ota_core h h'" for h'
    using that assms ota_ok_core [OF that] by (simp add: ota_core_def)
  show "post (start_firmware mem pv h w) (\<lambda>x. ota_ok (fst (snd x)) \<and> ota_frame w (snd (snd x)))"
    unfolding start_firmware_def Let_def case_prod_beta
    by (rule post_bind, rule post_conseq [OF GetParams_core])
      (auto intro!: post_if post_bind_eq simp: ok, auto dest!: ok simp: ota_ok_def)
  show "post (start_config mem pv h w) (\<lambda>x. ota_ok (fst (snd x)) \<and> ota_frame w (snd (snd x)))"
    unfolding start_config_def Let_def case_prod_beta
    by (rule post_bind, rule post_conseq [OF GetConfigParams_core])
      (auto intro!: post_if post_bind_eq simp: ok, auto dest!: ok simp: ota_ok_def)
qed

lemma ota_callback_keeps: "keeps_ota (ota_callback mem msg n type)"
proof (rule keeps_otaI)
  fix h w assume ok: "ota_ok h"
  show "post (ota_callback mem msg n type h w) (\<lambda>(_, h', w'). ota_ok h' \<and> ota_frame w w')"
  proof (cases "ota_state h = IOT_OTAS_FETCHING")
    case True
    then show ?thesis using ok by (simp add: ota_callback_def)
  next
    case False
    note start = start_keeps [OF ok False]
    show ?thesis
      using False ok unfolding ota_callback_def case_prod_beta'
      by (auto intro!: post_bind_eq start split: option.split simp del: One_nat_def)
  qed
qed

lemma UpgrageCb_keeps: "keeps_ota (otamqtt_UpgrageCb m)"
proof (rule keeps_otaI)
  fix h w assume ok: "ota_ok h"
  show "post (otamqtt_UpgrageCb m h w) (\<lambda>(_, h', w'). ota_ok h' \<and> ota_frame w w')"
    using ok unfolding otamqtt_UpgrageCb_def Let_def case_prod_beta'
    by (intro post_if post_keep [OF ota_callback_keeps ok] post_bind_eq)
      (auto dest!: postD [OF push_failed_frame] intro: ota_frame_trans)
qed

lemma fetch_end_keeps: "ota_ok h \<Longrightarrow> ota_ok (fst (fetch_end h w)) \<and> ota_frame w (snd (fetch_end h w))"
  by (simp add: fetch_end_def ota_ok_def)


lemma fetch_begin_keeps: "keeps_ota (\<lambda>h w. if size_fetched h = 0 then fetch_begin h w else Some (True, h, w))"
proof (rule keeps_otaI)
  fix h w assume ok: "ota_ok h"
  have ok2: "ota_ok (h\<lparr>ota_md5 := c\<rparr>)" "ota_ok (h\<lparr>ota_md5 := c, ota_sha256 := s\<rparr>)" if "size_fetched h = 0" for c s
    using ok that by (auto simp: ota_ok_def)
  show "post (if size_fetched h = 0 then fetch_begin h w else Some (True, h, w)) (\<lambda>(_, h', w'). ota_ok h' \<and> ota_frame w w')"
    using ok unfolding fetch_begin_def Let_def case_prod_beta'
    by (auto intro!: post_keep [OF report_progress_keeps] simp: ok2)
qed

text \<open>A piece that arrives needs both digests, and the download has them when it goes on.\<close>

lemma fetch_piece_keeps: "keeps_ota (fetch_piece buf n)"
proof (rule keeps_otaI)
  fix h w assume ok: "ota_ok h"
  have ok1: "ota_ok (h\<lparr>ota_md5 := Some c, ota_sha256 := Some s, size_last_fetched := x, size_fetched := y\<rparr>)"
    "ota_ok (h\<lparr>ota_md5 := Some c, ota_sha256 := Some s, size_last_fetched := x, size_fetched := y,
       ota_type := IOT_OTAT_NONE, ota_state := IOT_OTAS_FETCHED\<rparr>)" for c s x y
    using ok by (auto simp: ota_ok_def)
  show "post (fetch_piece buf n h w) (\<lambda>(_, h', w'). ota_ok h' \<and> ota_frame w w')"
    unfolding fetch_piece_def Let_def case_prod_beta'
    by (auto intro!: post_bind_eq simp: otalib_MD5Update_def otalib_Sha256Update_def bind_eq_Some_conv ok1 fetch_end_keeps)
qed

lemma fetch_yield_keeps: "keeps_ota (fetch_yield reply)"
proof (rule keeps_otaI)
  fix h w assume ok: "ota_ok h"
  have ch: "ota_ok (h\<lparr>ch_fetch := Some ch\<rparr>)" for ch using ok by (simp add: ota_ok_def)
  have failed: "ota_ok (h\<lparr>ch_fetch := Some ch, ota_state := IOT_OTAS_FETCHED, ota_type := IOT_OTAT_NONE, ota_err := e\<rparr>)" for ch e
    using ok by (simp add: ota_ok_def)
  have reset: "ota_ok h' \<Longrightarrow> ota_ok (h'\<lparr>size_fetched := 0\<rparr>)" for h' by (simp add: ota_ok_def)
  note post_first = post_keep [OF fetch_begin_keeps ch ota_frame_refl]
  show "post (fetch_yield reply h w) (\<lambda>(_, h', w'). ota_ok h' \<and> ota_frame w w')"
    using ok unfolding fetch_yield_def Let_def case_prod_beta'
    by (intro post_if post_first post_bind_eq [of "ch_fetch h"])
      (simp_all add: fetch_end_keeps [OF failed] reset [OF fetch_end_keeps [OF failed, THEN conjunct1]] post_keep_last [OF fetch_piece_keeps])
qed


lemma param_error_keeps: "keeps_ota (param_error buf)"
  by (rule keeps_otaI) (simp add: param_error_def)

lemma ioctl_values_keep: "keeps_ota (\<lambda>h w. ioctl_string (field h) buf h w)" "keeps_ota (\<lambda>h w. ioctl_word n (x h) buf h w)"
  "keeps_ota (\<lambda>h w. do { s \<leftarrow> g h; ioctl_text n s buf h w })"
proof -
  note err = post_keep_last [OF param_error_keeps, unfolded case_prod_beta']
  show "keeps_ota (\<lambda>h w. ioctl_string (field h) buf h w)"
    by (rule keeps_otaI) (auto simp: ioctl_string_def case_prod_beta' err split: ota_buf.split option.split)
  show "keeps_ota (\<lambda>h w. ioctl_word n (x h) buf h w)"
    by (rule keeps_otaI) (auto simp: ioctl_word_def case_prod_beta' err intro!: post_bind_eq)
  show "keeps_ota (\<lambda>h w. do { s \<leftarrow> g h; ioctl_text n s buf h w })"
    by (rule keeps_otaI) (auto simp: ioctl_text_def case_prod_beta' split: ota_buf.split intro!: post_bind_eq)
qed

lemma ota_ok_digest: "ota_ok h \<Longrightarrow> ota_ok (h\<lparr>ota_md5 := Some c\<rparr>)" "ota_ok h \<Longrightarrow> ota_ok (h\<lparr>ota_sha256 := Some s\<rparr>)"
  by (simp_all add: ota_ok_def)

lemma check_firmware_keeps: "keeps_ota (check_firmware n buf)"
proof (rule keeps_otaI)
  fix h w assume ok: "ota_ok h"
  show "post (check_firmware n buf h w) (\<lambda>(_, h', w'). ota_ok h' \<and> ota_frame w w')"
    unfolding check_firmware_def Let_def case_prod_beta'
    by (intro post_bind_eq [of "word_buffer _ _"] post_if post_bind_eq [of "otalib_MD5Finalize _"] post_bind_eq [of "str_of _"]
        post_bind_eq [of "put_word _ _"] post_keep [OF report_progress_keeps])
      (auto simp: ok otalib_MD5Finalize_def bind_eq_Some_conv ota_ok_digest post_keep_last [OF param_error_keeps])
qed

lemma check_config_keeps: "keeps_ota (check_config n buf)"
proof (rule keeps_otaI)
  fix h w assume ok: "ota_ok h"
  show "post (check_config n buf h w) (\<lambda>(_, h', w'). ota_ok h' \<and> ota_frame w w')"
    unfolding check_config_def Let_def case_prod_beta'
    by (intro post_bind_eq post_if)
      (auto simp: ok otalib_MD5Finalize_def otalib_Sha256Finalize_def bind_eq_Some_conv ota_ok_digest
        post_keep_last [OF param_error_keeps] split: if_splits)
qed

lemma ioctl_keeps: "keeps_ota (ota_ioctl type buf n)"
proof (rule keeps_otaI)
  fix h w assume ok: "ota_ok h"
  note held = ioctl_values_keep [unfolded keeps_ota_def, rule_format, OF ok]
  have "ota_ok (h\<lparr>size_fetched := 0\<rparr>)" using ok by (simp add: ota_ok_def)
  then show "post (ota_ioctl type buf n h w) (\<lambda>(_, h', w'). ota_ok h' \<and> ota_frame w w')"
    using ok held(1) [of configId] held(1) [of ota_sign] held(1) [of signMethod] held(1) [of cota_url] held(1) [of getType]
      held(2) [of n configSize] held(2) [of n "\<lambda>h. ota_type_number (ota_type h)"] held(2) [of n size_fetched] held(2) [of n size_file]
      held(3) [of ota_version n] held(3) [of "\<lambda>h. str_of (md5sum h)" n]
      post_keep_last [OF param_error_keeps] post_keep_last [OF check_firmware_keeps] post_keep_last [OF check_config_keeps]
    unfolding ota_ioctl_def case_prod_beta' by (cases type) simp_all
qed


subsection \<open>Reachable states\<close>

text \<open>Setting up the signal channel takes an address.\<close>

definition ota_grown :: "ota_world \<Rightarrow> ota_world \<Rightarrow> bool" where
  "ota_grown w w' \<longleftrightarrow> g_ota_is_initialized w' = g_ota_is_initialized w \<and> ota_at w' = ota_at w \<and> ota_next w \<le> ota_next w'"

lemma ota_grown_frame: "ota_frame w w' \<Longrightarrow> ota_grown w0 w \<Longrightarrow> ota_grown w0 w'"
  by (simp add: ota_grown_def ota_frame_def)

lemma ota_grown_next [simp]: "ota_grown w0 w \<Longrightarrow> ota_grown w0 (w\<lparr>ota_next := Suc (ota_next w)\<rparr>)"
  by (simp add: ota_grown_def)

lemma ota_grown_calls [simp]:
  "ota_grown w0 w \<Longrightarrow> ota_grown w0 (snd (ota_alloc n w))"
  "ota_grown w0 w \<Longrightarrow> ota_grown w0 (snd (otalib_MD5Init w))" "ota_grown w0 w \<Longrightarrow> ota_grown w0 (snd (otalib_Sha256Init w))"
  by (rule ota_grown_frame; simp)+

lemma osc_subscribe_grown: "post (osc_subscribe mqtt t q x w) (\<lambda>r. ota_frame w (snd r))"
  unfolding osc_subscribe_def by (intro post_bind_eq) (simp add: case_prod_beta)

lemma osc_subscribe_step: "ota_grown w0 w \<Longrightarrow> (\<And>r. ota_grown w0 (snd r) \<Longrightarrow> post (f r) P) \<Longrightarrow> post (osc_subscribe mqtt t q x w \<bind> f) P"
  by (auto intro!: post_bind_eq dest!: postD [OF osc_subscribe_grown] ota_grown_frame)

lemma osc_Init_grown: "post (osc_Init pk dn mqtt w) (\<lambda>r. ota_grown w (snd r))"
proof -
  have g: "ota_grown w w" by (simp add: ota_grown_def)
  show ?thesis
    unfolding osc_Init_def Let_def case_prod_beta' by (intro post_if osc_subscribe_step) (simp_all add: g)
qed

text \<open>A new structure: the place is fresh, and nothing is being fetched.\<close>

lemma Init_outcome:
  assumes "ota_inv w"
  shows "post (IOT_OTA_Init pk dn mqtt w) (\<lambda>(r, w'). ota_inv w' \<and> (g_ota_is_initialized w \<longrightarrow> r = None \<and> w' = w) \<and>
     (\<forall>p. r = Some p \<longrightarrow> (\<exists>h. ota_at w' = Some (p, h) \<and> ota_state h = IOT_OTAS_INITED)))"
proof (cases "g_ota_is_initialized w")
  case True
  then show ?thesis using assms by (simp add: IOT_OTA_Init_def)
next
  case False
  then have none: "ota_at w = None" using assms by (auto simp: ota_inv_def split: option.splits)
  define w1 where "w1 = snd (ota_alloc sizeof_OTA_Struct_t w)"
  define w2 where "w2 = w1\<lparr>ota_next := ota_next w1 + 1\<rparr>"
  have w1: "ota_grown w w1" by (simp add: w1_def ota_grown_def [of w w])
  then have w2: "ota_grown w w2" "ota_next w1 < ota_next w2" by (simp_all add: w2_def)
  have inv: "ota_inv w'" if "ota_grown w w'" for w' using that False none by (simp add: ota_inv_def ota_grown_def)
  have inv2: "ota_inv w'" if "ota_grown w2 w'" for w' using that w2(1) by (auto intro!: inv simp: ota_grown_def)
  have made: "ota_inv (w'\<lparr>g_ota_is_initialized := True, ota_at := Some (ota_next w1, zero_ota\<lparr>ch_signal := Some c, ota_md5 := x, ota_sha256 := y,
      ota_product_key := k, ota_device_name := d, ota_state := IOT_OTAS_INITED\<rparr>)\<rparr>)" if "ota_grown w2 w'" for w' c x y k d
    using that w2(2) by (simp add: ota_inv_def ota_ok_def zero_ota_def ota_grown_def)
  have osc: "post (osc_Init k d mqtt w2 \<bind> f) P" if "\<And>r. ota_grown w2 (snd r) \<Longrightarrow> post (f r) P" for f P k d
    by (rule post_bind_eq) (auto intro!: that dest!: postD [OF osc_Init_grown])
  show ?thesis
    unfolding IOT_OTA_Init_def Let_def case_prod_beta' w1_def [symmetric] w2_def [symmetric]
    using False by (auto intro!: osc simp: inv [OF w1] inv2 made inv [of w] ota_grown_def [of w w] split: option.split)
qed

lemma Deinit_inv: "ota_inv w \<Longrightarrow> post (IOT_OTA_Deinit hdl w) (\<lambda>(_, w'). ota_inv w')"
  by (auto simp: IOT_OTA_Deinit_def ota_inv_def split: option.split)

text \<open>The module as loaded, and everything the application, the cloud and the MQTT client do.\<close>

definition ota_init :: "ota_world \<Rightarrow> bool" where
  "ota_init w \<longleftrightarrow> \<not> g_ota_is_initialized w \<and> ota_at w = None"

inductive ota_step :: "ota_world \<Rightarrow> ota_world \<Rightarrow> bool" where
  step_init: "IOT_OTA_Init pk dn mqtt w = Some (r, w') \<Longrightarrow> ota_step w w'"
| step_deinit: "IOT_OTA_Deinit hdl w = Some (rc, w') \<Longrightarrow> ota_step w w'"
| step_version: "IOT_OTA_ReportVersion hdl v w = Some (rc, w') \<Longrightarrow> ota_step w w'"
| step_image: "iotx_req_image hdl v w = Some (rc, w') \<Longrightarrow> ota_step w w'"
| step_progress: "IOT_OTA_ReportProgress hdl n msg w = Some (rc, w') \<Longrightarrow> ota_step w w'"
| step_config: "iotx_ota_get_config hdl sc gt ak w = Some (rc, w') \<Longrightarrow> ota_step w w'"
| step_fetching: "IOT_OTA_IsFetching hdl w = Some (rc, w') \<Longrightarrow> ota_step w w'"
| step_finish: "IOT_OTA_IsFetchFinish hdl w = Some (rc, w') \<Longrightarrow> ota_step w w'"
| step_error: "IOT_OTA_GetLastError hdl w = Some (rc, w') \<Longrightarrow> ota_step w w'"
| step_fetch: "IOT_OTA_FetchYield hdl b n reply w = Some (rc, w') \<Longrightarrow> ota_step w w'"
| step_ioctl: "IOT_OTA_Ioctl hdl type buf n w = Some (r, w') \<Longrightarrow> ota_step w w'"
| step_message: "on_ota p (otamqtt_UpgrageCb m) w = Some (u, w') \<Longrightarrow> ota_step w w'"
| step_fetch_cb: "ota_at w = Some (p, h) \<Longrightarrow> iotx_ota_set_fetch_callback (Some h) cb x = (rc, Some h') \<Longrightarrow> ota_step w (w\<lparr>ota_at := Some (p, h')\<rparr>)"
| step_cota_cb: "ota_at w = Some (p, h) \<Longrightarrow> iotx_ota_set_cota_fetch_callback (Some h) cb x = (rc, Some h') \<Longrightarrow> ota_step w (w\<lparr>ota_at := Some (p, h')\<rparr>)"
| step_mqtt: "ota_step w (w\<lparr>ota_mqtt := m\<rparr>)"

lemma callbacks_ok:
  "ota_ok h \<Longrightarrow> iotx_ota_set_fetch_callback (Some h) cb x = (rc, Some h') \<Longrightarrow> ota_ok h'"
  "ota_ok h \<Longrightarrow> iotx_ota_set_cota_fetch_callback (Some h) cb x = (rc, Some h') \<Longrightarrow> ota_ok h'"
  by (auto simp: iotx_ota_set_fetch_callback_def iotx_ota_set_cota_fetch_callback_def ota_ok_def split: option.splits)

lemma handle_calls_inv:
  assumes "ota_inv w"
  shows "IOT_OTA_ReportVersion hdl v w = Some (rc, w') \<Longrightarrow> ota_inv w'" "iotx_req_image hdl v w = Some (rc, w') \<Longrightarrow> ota_inv w'"
    "IOT_OTA_ReportProgress hdl n msg w = Some (rc, w') \<Longrightarrow> ota_inv w'" "iotx_ota_get_config hdl sc gt ak w = Some (rc, w') \<Longrightarrow> ota_inv w'"
    "IOT_OTA_IsFetching hdl w = Some (rc, w') \<Longrightarrow> ota_inv w'" "IOT_OTA_IsFetchFinish hdl w = Some (rc, w') \<Longrightarrow> ota_inv w'"
    "IOT_OTA_GetLastError hdl w = Some (rc, w') \<Longrightarrow> ota_inv w'" "IOT_OTA_FetchYield hdl b k reply w = Some (rc, w') \<Longrightarrow> ota_inv w'"
    "IOT_OTA_Ioctl hdl type buf n w = Some (r, w') \<Longrightarrow> ota_inv w'"
  using assms on_ota_inv [OF reports_keep(1) assms] on_ota_inv [OF reports_keep(2) assms] on_ota_inv [OF reports_keep(3) assms]
    on_ota_inv [OF reports_keep(4) assms] on_ota_inv [OF reports_keep(5) assms] on_ota_inv [OF report_progress_keeps assms]
    on_ota_inv [OF fetch_yield_keeps assms] on_ota_inv [OF ioctl_keeps assms]
  by (auto simp: IOT_OTA_ReportVersion_def iotx_req_image_def IOT_OTA_ReportProgress_def iotx_ota_get_config_def IOT_OTA_IsFetching_def
      IOT_OTA_IsFetchFinish_def IOT_OTA_GetLastError_def IOT_OTA_FetchYield_def IOT_OTA_Ioctl_def bind_eq_Some_conv
      split: option.splits if_splits)

lemma ota_step_inv: "ota_step w w' \<Longrightarrow> ota_inv w \<Longrightarrow> ota_inv w'"
proof (induction rule: ota_step.induct)
  case (step_fetch_cb w p h cb x rc h')
  then show ?case using callbacks_ok(1) by (auto simp: ota_inv_def)
next
  case (step_cota_cb w p h cb x rc h')
  then show ?case using callbacks_ok(2) by (auto simp: ota_inv_def)
next
  case (step_mqtt w m)
  then show ?case by (cases "ota_at w") (auto simp: ota_inv_def)
qed (auto dest: postD [OF Init_outcome] postD [OF Deinit_inv] handle_calls_inv on_ota_inv [OF UpgrageCb_keeps])

interpretation ota: invariant_system ota_init ota_step ota_inv
proof unfold_locales
  show "ota_inv w" if "ota_init w" for w using that by (simp add: ota_init_def ota_inv_def)
qed (rule ota_step_inv)


subsection \<open>Property\<close>

text \<open>
  C24: The state of the update module, whatever the application, the cloud and the MQTT client do in whatever order: the module is
  initialized exactly when its structure is allocated, and a second \<open>IOT_OTA_Init\<close> returns \<open>NULL\<close>; a download is running
  exactly when its type is set, and then it has a channel to fetch from; once bytes have been fetched both
  digests exist, so no call updates a digest that is not there; the checksum is a terminated string, and the
  signal channel is there as long as the structure.
\<close>

theorem ota_states_reachable:
  assumes "reachable ota_init ota_step w"
  shows "(g_ota_is_initialized w \<longleftrightarrow> ota_at w \<noteq> None) \<and>
     (\<forall>p h. ota_at w = Some (p, h) \<longrightarrow> IOT_OTA_Init pk dn mqtt w = Some (None, w) \<and> ota_state h \<noteq> IOT_OTAS_UNINITED \<and>
        (ota_state h = IOT_OTAS_FETCHING \<longleftrightarrow> ota_type h \<noteq> IOT_OTAT_NONE) \<and> (ota_state h = IOT_OTAS_FETCHING \<longrightarrow> ch_fetch h \<noteq> None) \<and>
        (size_fetched h \<noteq> 0 \<longrightarrow> ota_md5 h \<noteq> None \<and> ota_sha256 h \<noteq> None) \<and>
        length (md5sum h) = 33 \<and> md5sum h ! 32 = 0 \<and> ch_signal h \<noteq> None)"
  using ota.reachable_inv [OF assms] by (auto simp: ota_inv_def ota_ok_def IOT_OTA_Init_def split: option.splits)

text \<open>For the witness: the module is initialized while no MQTT client is connected, so that its subscriptions wait for one.\<close>

definition loaded_ota :: ota_world where
  "loaded_ota = \<lparr>g_ota_is_initialized = False, ota_at = None, ota_next = 7, ota_hal = hal_at (\<lambda>_. 0),
     ota_mqtt = \<lparr>g_mqtt_client = None, api_client = None, next_ptr = 1, api_hal = hal_at (\<lambda>_. 0), offline_init = False, offline_sub_list = [],
       g_default_sign = zero_sign, sdk_ctx = g_sdk_impl_ctx, event_map = g_impl_event_map, info_report_func = False, g_report_id = 0, connect_calls = []\<rparr>,
     ota_calls = []\<rparr>"

definition ota_made :: "(nat option \<times> ota_world) option \<Rightarrow> bool" where
  "ota_made r = (case r of Some (Some p, w) \<Rightarrow> (case ota_at w of Some (q, h) \<Rightarrow> p = q | None \<Rightarrow> False) | _ \<Rightarrow> False)"

lemma loaded_ota_init: "ota_made (IOT_OTA_Init (Some (ascii ''a1X'')) (Some (ascii ''lamp'')) None loaded_ota)"
  by code_simp

theorem ota_states_reachable_witness:
  "\<exists>w p h. reachable ota_init ota_step w \<and> ota_at w = Some (p, h) \<and> IOT_OTA_Init None None None w = Some (None, w) \<and>
     g_ota_is_initialized w \<and> length (md5sum h) = 33"
proof -
  obtain p w h where w: "IOT_OTA_Init (Some (ascii ''a1X'')) (Some (ascii ''lamp'')) None loaded_ota = Some (Some p, w)" "ota_at w = Some (p, h)"
    using loaded_ota_init by (auto simp: ota_made_def split: option.splits)
  have "reachable ota_init ota_step loaded_ota" by (rule reach_init) (simp add: ota_init_def loaded_ota_def)
  then have "reachable ota_init ota_step w" using step_init [OF w(1)] by (rule reach_step)
  then show ?thesis using w(2) ota_states_reachable [of w None None None] by auto
qed

end
