(* ===== verification/OTA_Download.thy ===== *)
theory OTA_Download
  imports OTA_States MQTT_Api_States
begin

text \<open>
  A whole download: the pieces that the HTTP client delivers go through both digests, the module notices
  the end of the file, and the check compares the announced checksum with the MD5 of exactly the bytes delivered.
\<close>

subsection \<open>Reports on a live client\<close>

text \<open>What a download needs around it: a signal channel whose client runs on a live platform, and memory.\<close>

definition signal_ok :: "OTA_Struct_t \<Rightarrow> ota_world \<Rightarrow> bool" where
  "signal_ok h w \<longleftrightarrow> (\<exists>c. ch_signal h = Some c \<and> text_ok (osc_product_key c) \<and> text_ok (osc_device_name c) \<and> mqtt_up (osc_mqtt c) (ota_mqtt w))"

definition memory_ok :: "ota_world \<Rightarrow> bool" where
  "memory_ok w \<longleftrightarrow> (\<forall>t n. malloc_ok (ota_hal w) t n)"

lemma ota_alloc_memory:
  assumes "memory_ok w"
  obtains w' where "ota_alloc n w = (True, w')" "memory_ok w'" "ota_mqtt w' = ota_mqtt w" "ota_at w' = ota_at w"
  using assms by (auto simp: ota_alloc_def HAL_Malloc_def memory_ok_def next_tick_def)

lemma text_ok_take: "text_ok s \<Longrightarrow> text_ok (take n s)"
  by (auto simp: text_ok_def dest: in_set_takeD)

lemma GenTopicName_text:
  assumes "text_ok (osc_product_key c)" "text_ok (osc_device_name c)" "text_ok ty"
  shows "text_ok (snd (otamqtt_GenTopicName n ty (osc_product_key c) (osc_device_name c)))"
  using assms by (simp add: otamqtt_GenTopicName_def snprintf_def text_ok_take)

lemma length_GenTopicName: "length (snd (otamqtt_GenTopicName n ty k d)) \<le> n - 1"
  by (simp add: otamqtt_GenTopicName_def snprintf_def Let_def)

lemma Publish_returns:
  assumes "text_ok (osc_product_key c)" "text_ok (osc_device_name c)" "mqtt_up (osc_mqtt c) (ota_mqtt w)" "text_ok ty" "length msg < 65536"
  shows "\<exists>rc m. otamqtt_Publish c ty q msg w = Some (rc, w\<lparr>ota_mqtt := m\<rparr>) \<and> mqtt_up (osc_mqtt c) m"
proof -
  obtain ret topic where g: "otamqtt_GenTopicName OTA_MQTT_TOPIC_LEN ty (osc_product_key c) (osc_device_name c) = (ret, topic)" by fastforce
  have t: "text_ok topic" "length topic \<le> 127"
    using GenTopicName_text [OF assms(1,2,4), of OTA_MQTT_TOPIC_LEN] length_GenTopicName [of OTA_MQTT_TOPIC_LEN ty "osc_product_key c" "osc_device_name c"]
    unfolding g snd_conv by (simp_all add: OTA_MQTT_TOPIC_LEN_def)
  have "unat (ti_payload_len (plain_topic_info x msg)) = length msg" for x
    using assms(5) by (simp add: plain_topic_info_def unat_of_nat_u32)
  then obtain rc m where "IOT_MQTT_Publish (osc_mqtt c) (Some topic) (plain_topic_info (if q = 0 then 0 else 1) msg) (Some msg) (ota_mqtt w) = Some (rc, m)"
      "mqtt_up (osc_mqtt c) m"
    using interface_publish_live [OF assms(3) _ _ t(1), of msg] t(2) assms(5) by fastforce
  then show ?thesis
    using assms(3) by (auto simp: otamqtt_Publish_def g Let_def intro: exI [of _ "ota_mqtt w"])
qed

lemma report_progress_returns:
  assumes "signal_ok h w" "memory_ok w"
  shows "\<exists>rc e w'. report_progress n msg h w = Some (rc, h\<lparr>ota_err := e\<rparr>, w') \<and> signal_ok h w' \<and> memory_ok w' \<and> ota_at w' = ota_at w"
proof -
  obtain c where c: "ch_signal h = Some c" "text_ok (osc_product_key c)" "text_ok (osc_device_name c)" "mqtt_up (osc_mqtt c) (ota_mqtt w)"
    using assms(1) by (auto simp: signal_ok_def)
  obtain w1 where w1: "ota_alloc MSG_REPORT_LEN w = (True, w1)" "memory_ok w1" "ota_mqtt w1 = ota_mqtt w" "ota_at w1 = ota_at w"
    using ota_alloc_memory [OF assms(2)] by blast
  obtain ret text' where g: "otalib_GenReportMsg MSG_REPORT_LEN (ota_id h) n msg = (ret, text')" by fastforce
  then have len: "length text' < 65536"
    by (auto simp: otalib_GenReportMsg_def snprintf_def Let_def MSG_REPORT_LEN_def split: option.splits)
  have ty: "text_ok (ascii ''progress'')" by (simp add: text_ok_ascii)
  obtain rc m where p: "otamqtt_Publish c (ascii ''progress'') 0 text' w1 = Some (rc, w1\<lparr>ota_mqtt := m\<rparr>)" "mqtt_up (osc_mqtt c) m"
    using Publish_returns [OF c(2,3) _ ty len, of w1 0] c(4) w1(3) by metis
  have sig: "signal_ok h (w1\<lparr>ota_mqtt := m\<rparr>)" "signal_ok h w1" using c p(2) w1(3) by (auto simp: signal_ok_def)
  have mem: "memory_ok (w1\<lparr>ota_mqtt := m\<rparr>)" using w1(2) by (simp add: memory_ok_def)
  show ?thesis
    unfolding report_progress_def Let_def w1(1) g prod.case osc_ReportProgress_def c(1) Option.bind.simps p(1)
    using assms sig mem w1 by auto (rule exI [of _ "ota_err h"], simp)
qed


subsection \<open>Pieces\<close>

text \<open>
  The calls of a download. A reply delivers the next piece when it succeeds, brings bytes, and the client's counters say that
  the received part of the content has grown by the piece.
\<close>

primrec fetch_all :: "nat option \<Rightarrow> http_reply list \<Rightarrow> ota_world \<Rightarrow> (int list \<times> ota_world) option" where
  "fetch_all hdl [] w = Some ([], w)"
| "fetch_all hdl (r # rs) w = do {
     (rc, w) \<leftarrow> IOT_OTA_FetchYield hdl True (of_nat (length (hr_buf r))) r w;
     (rcs, w) \<leftarrow> fetch_all hdl rs w;
     Some (rc # rcs, w)
   }"

definition delivers :: "int \<Rightarrow> http_reply \<Rightarrow> byte list \<Rightarrow> bool" where
  "delivers got r d \<longleftrightarrow> hr_rc r = 0 \<and> d \<noteq> [] \<and> hr_content_len r - hr_retrieve_len r = got + int (length d) \<and>
     take (length d) (hr_buf r) = d \<and> length (hr_buf r) < 4294967296"

fun delivers_all :: "int \<Rightarrow> http_reply list \<Rightarrow> byte list list \<Rightarrow> bool" where
  "delivers_all got [] [] \<longleftrightarrow> True"
| "delivers_all got (r # rs) (d # ds) \<longleftrightarrow> delivers got r d \<and> delivers_all (got + int (length d)) rs ds"
| "delivers_all got _ _ \<longleftrightarrow> False"

text \<open>The digests have absorbed the bytes \<open>got\<close>.\<close>

definition digests_of :: "byte list \<Rightarrow> OTA_Struct_t \<Rightarrow> bool" where
  "digests_of got h \<longleftrightarrow> (\<exists>c s. ota_md5 h = Some c \<and> absorbed md5_compress md5_iv got c \<and> ota_sha256 h = Some s \<and>
     absorbed sha256_compress sha256_iv got s \<and> dg_is224 s = 0)"

text \<open>The state of a download of which the bytes \<open>got\<close> have arrived.\<close>

definition downloading :: "byte list \<Rightarrow> OTA_Struct_t \<Rightarrow> bool" where
  "downloading got h \<longleftrightarrow> ota_state h = IOT_OTAS_FETCHING \<and> size_fetched h = of_nat (length got) \<and>
     (\<exists>ch. ch_fetch h = Some ch \<and> response_content_len ch - retrieve_len ch = int (length got)) \<and> (got = [] \<or> digests_of got h)"

text \<open>What is left when the file is there: the digest of its bytes and the announced checksum.\<close>

definition downloaded :: "byte list \<Rightarrow> OTA_Struct_t \<Rightarrow> bool" where
  "downloaded got h \<longleftrightarrow> ota_state h = IOT_OTAS_FETCHED \<and> size_fetched h = of_nat (length got) \<and>
     (\<exists>c. ota_md5 h = Some c \<and> absorbed md5_compress md5_iv got c)"

lemma fetch_begin_returns:
  assumes "signal_ok h w" "memory_ok w"
  shows "\<exists>e w'. fetch_begin h w = Some (True, h\<lparr>ota_md5 := Some (utils_md5_starts utils_md5_init),
       ota_sha256 := Some (utils_sha256_starts utils_sha256_init), ota_err := e\<rparr>, w') \<and> signal_ok h w' \<and> memory_ok w' \<and> ota_at w' = ota_at w"
proof -
  obtain w1 where w1: "ota_alloc sizeof_md5_context w = (True, w1)" "memory_ok w1" "ota_mqtt w1 = ota_mqtt w" "ota_at w1 = ota_at w"
    using ota_alloc_memory [OF assms(2)] by blast
  obtain w2 where w2: "ota_alloc sizeof_sha256_context w1 = (True, w2)" "memory_ok w2" "ota_mqtt w2 = ota_mqtt w1" "ota_at w2 = ota_at w1"
    using ota_alloc_memory [OF w1(2)] by blast
  let ?h = "h\<lparr>ota_md5 := Some (utils_md5_starts utils_md5_init), ota_sha256 := Some (utils_sha256_starts utils_sha256_init)\<rparr>"
  have sig: "signal_ok ?h w2" using assms(1) w1 w2 by (simp add: signal_ok_def)
  have "signal_ok ?h = signal_ok h" by (simp add: signal_ok_def fun_eq_iff)
  then show ?thesis
    using report_progress_returns [OF sig w2(2), of IOT_OTAP_FETCH_PERCENTAGE_MIN "Some (ascii ''Enter in downloading state'')"] w1(4) w2(4)
    by (auto simp: fetch_begin_def otalib_MD5Init_def otalib_Sha256Init_def w1(1) w2(1) Let_def)
qed


text \<open>What of the structure a piece leaves alone.\<close>

definition same_file :: "OTA_Struct_t \<Rightarrow> OTA_Struct_t \<Rightarrow> bool" where
  "same_file h h' \<longleftrightarrow> size_file h' = size_file h \<and> md5sum h' = md5sum h \<and> ch_signal h' = ch_signal h"

lemma same_file_trans: "same_file a b \<Longrightarrow> same_file b c \<Longrightarrow> same_file a c"
  by (simp add: same_file_def)

lemma fetch_end_same:
  "same_file h (fst (fetch_end h w))" "ota_state (fst (fetch_end h w)) = ota_state h" "size_fetched (fst (fetch_end h w)) = size_fetched h"
  "ota_md5 (fst (fetch_end h w)) = ota_md5 h"
  "ota_mqtt (snd (fetch_end h w)) = ota_mqtt w" "ota_hal (snd (fetch_end h w)) = ota_hal w" "ota_at (snd (fetch_end h w)) = ota_at w"
  by (simp_all add: fetch_end_def same_file_def call_fetch_cb_def call_cota_cb_def record_call_def split: option.split)

lemma fetch_piece_absorbs:
  assumes dig: "digests_of got h"
    and st: "ota_state h = IOT_OTAS_FETCHING" "size_fetched h = of_nat (length got)" "ch_fetch h = Some ch"
      "response_content_len ch - retrieve_len ch = int (length (got @ d))"
    and d: "take (length d) buf = d" "length (got @ d) < 4294967296"
  shows "\<exists>h' w'. fetch_piece buf (int (length d)) h w = Some (int (length d), h', w') \<and> same_file h h' \<and>
     ota_mqtt w' = ota_mqtt w \<and> ota_hal w' = ota_hal w \<and> ota_at w' = ota_at w \<and>
     (if length (got @ d) < unat (size_file h) then downloading (got @ d) h' else downloaded (got @ d) h')"
proof -
  obtain c s where md5: "ota_md5 h = Some c" "absorbed md5_compress md5_iv got c"
    and sha: "ota_sha256 h = Some s" "absorbed sha256_compress sha256_iv got s" "dg_is224 s = 0"
    using dig by (auto simp: digests_of_def)
  have n: "unat (of_nat (length d) :: u32) = length d" using d(2) by (simp add: unat_of_nat_u32)
  have le: "length d \<le> length buf" using arg_cong [OF d(1), of length] by simp
  obtain c' where c': "utils_md5_update c buf (of_nat (length d)) = Some c'" "absorbed md5_compress md5_iv (got @ d) c'"
    using md5_alg.update_absorbs [OF md5(2), of "of_nat (length d)" buf] le d(1) by (auto simp: n)
  obtain s' where s': "utils_sha256_update s buf (of_nat (length d)) = Some s'" "absorbed sha256_compress sha256_iv (got @ d) s'" "dg_is224 s' = 0"
    using sha256_alg.update_absorbs [of got s "of_nat (length d)" buf] sha(2,3) le d(1) by (auto simp: n)
  define h1 where "h1 = h\<lparr>ota_md5 := Some c', ota_sha256 := Some s', size_last_fetched := of_nat (length d), size_fetched := of_nat (length (got @ d))\<rparr>"
  define h2 where "h2 = h1\<lparr>ota_type := IOT_OTAT_NONE, ota_state := IOT_OTAS_FETCHED\<rparr>"
  have full: "size_file h \<le> of_nat (length (got @ d)) \<longleftrightarrow> \<not> length (got @ d) < unat (size_file h)"
    unfolding word_le_nat_alt unat_of_nat_u32 [OF d(2)] by auto
  have run: "fetch_piece buf (int (length d)) h w = Some (int (length d), if size_file h \<le> of_nat (length (got @ d)) then fetch_end h2 w else (h1, w))"
    unfolding fetch_piece_def
    by (simp add: otalib_MD5Update_def otalib_Sha256Update_def md5(1) sha(1) c'(1) s'(1) st(2) h1_def h2_def Let_def case_prod_beta del: of_nat_le_iff)
  show ?thesis
  proof (cases "length (got @ d) < unat (size_file h)")
    case True
    have "downloading (got @ d) h1"
      unfolding downloading_def digests_of_def h1_def using st c'(2) s'(2,3) by simp
    moreover have "same_file h h1" by (simp add: same_file_def h1_def)
    ultimately show ?thesis using True full run by auto
  next
    case False
    have "downloaded (got @ d) (fst (fetch_end h2 w))"
      unfolding downloaded_def fetch_end_same h2_def h1_def using c'(2) by simp
    moreover have "same_file h h2" by (simp add: same_file_def h1_def h2_def)
    ultimately show ?thesis
      using False full run fetch_end_same [of h2 w] same_file_trans by (cases "fetch_end h2 w") auto
  qed
qed

text \<open>Before a piece is taken the digests have absorbed what came before it: they are new, or those of the download.\<close>

lemma digests_ready:
  assumes "size_fetched h = of_nat (length got)" "got = [] \<or> digests_of got h" "signal_ok h w" "memory_ok w" "length got < 4294967296"
  shows "\<exists>h' w'. (if size_fetched h = 0 then fetch_begin h w else Some (True, h, w)) = Some (True, h', w') \<and> same_file h h' \<and>
     digests_of got h' \<and> ota_state h' = ota_state h \<and> size_fetched h' = size_fetched h \<and> ch_fetch h' = ch_fetch h \<and>
     signal_ok h' w' \<and> memory_ok w' \<and> ota_at w' = ota_at w"
proof (cases "got = []")
  case True
  then have "size_fetched h = 0" using assms(1) by simp
  moreover obtain e w' where "fetch_begin h w = Some (True, h\<lparr>ota_md5 := Some (utils_md5_starts utils_md5_init),
      ota_sha256 := Some (utils_sha256_starts utils_sha256_init), ota_err := e\<rparr>, w')" "signal_ok h w'" "memory_ok w'" "ota_at w' = ota_at w"
    using fetch_begin_returns [OF assms(3,4)] by blast
  ultimately show ?thesis
    using True md5_alg.start_absorbs sha256_alg.start_absorbs by (simp add: same_file_def signal_ok_def digests_of_def)
next
  case False
  then have "size_fetched h \<noteq> 0" using assms(1) unat_of_nat_u32 [OF assms(5)] by (auto simp: unat_eq_zero [symmetric])
  then show ?thesis using assms False by (simp add: same_file_def)
qed

lemma FetchYield_piece:
  assumes down: "downloading got h" and around: "signal_ok h w" "memory_ok w" "ota_at w = Some (p, h)"
    and d: "delivers (int (length got)) r d" "length (got @ d) < 4294967296"
  shows "\<exists>h' w'. IOT_OTA_FetchYield (Some p) True (of_nat (length (hr_buf r))) r w = Some (int (length d), w') \<and>
     ota_at w' = Some (p, h') \<and> signal_ok h' w' \<and> memory_ok w' \<and> same_file h h' \<and>
     (if length (got @ d) < unat (size_file h) then downloading (got @ d) h' else downloaded (got @ d) h')"
proof -
  obtain ch where ch: "ch_fetch h = Some ch" "response_content_len ch - retrieve_len ch = int (length got)"
    using down by (auto simp: downloading_def)
  have r: "hr_rc r = 0" "d \<noteq> []" "take (length d) (hr_buf r) = d" "length (hr_buf r) < 4294967296"
    "hr_content_len r - hr_retrieve_len r = int (length got) + int (length d)" using d(1) by (simp_all add: delivers_def)
  define ch' where "ch' = ch\<lparr>response_content_len := hr_content_len r, retrieve_len := hr_retrieve_len r\<rparr>"
  have fetch: "ofc_Fetch ch r = (int (length d), ch')" using r(1,5) ch(2) by (simp add: ofc_Fetch_def ch'_def Let_def)
  define h1 where "h1 = h\<lparr>ch_fetch := Some ch'\<rparr>"
  have h1: "size_fetched h1 = of_nat (length got)" "got = [] \<or> digests_of got h1" "signal_ok h1 w"
    using down around(1) by (auto simp: downloading_def digests_of_def signal_ok_def h1_def)
  have small: "length got < 4294967296" using d(2) by simp
  obtain h2 w2 where h2: "(if size_fetched h1 = 0 then fetch_begin h1 w else Some (True, h1, w)) = Some (True, h2, w2)" "same_file h1 h2"
      "digests_of got h2" "ota_state h2 = ota_state h1" "size_fetched h2 = size_fetched h1" "ch_fetch h2 = ch_fetch h1"
      "signal_ok h2 w2" "memory_ok w2" "ota_at w2 = ota_at w"
    using digests_ready [OF h1 around(2) small] by blast
  have st2: "ota_state h2 = IOT_OTAS_FETCHING" "size_fetched h2 = of_nat (length got)" "ch_fetch h2 = Some ch'"
    "response_content_len ch' - retrieve_len ch' = int (length (got @ d))"
    using h2(4-6) h1(1) down r(5) by (simp_all add: h1_def ch'_def downloading_def)
  obtain h3 w3 where h3: "fetch_piece (hr_buf r) (int (length d)) h2 w2 = Some (int (length d), h3, w3)" "same_file h2 h3"
      "ota_mqtt w3 = ota_mqtt w2" "ota_hal w3 = ota_hal w2" "ota_at w3 = ota_at w2"
      "if length (got @ d) < unat (size_file h2) then downloading (got @ d) h3 else downloaded (got @ d) h3"
    using fetch_piece_absorbs [OF h2(3) st2 r(3) d(2), of w2] by blast
  have y: "fetch_yield r h w = Some (int (length d), h3, w3)"
    unfolding fetch_yield_def ch(1) Option.bind.simps Let_def fetch prod.case h1_def [symmetric] h2(1)
    using down h3(1) by (simp add: downloading_def)
  have "of_nat (length (hr_buf r)) \<noteq> (0 :: u32)"
    using r(2,3) unat_of_nat_u32 [OF r(4)] by (auto simp: unat_eq_zero [symmetric])
  then have run: "IOT_OTA_FetchYield (Some p) True (of_nat (length (hr_buf r))) r w = Some (int (length d), w3\<lparr>ota_at := Some (p, h3)\<rparr>)"
    using y around(3) by (simp add: IOT_OTA_FetchYield_def on_ota_def)
  have "same_file h h3" using h2(2) h3(2) by (simp add: same_file_def h1_def)
  moreover have "signal_ok h3 (w3\<lparr>ota_at := Some (p, h3)\<rparr>)" "memory_ok (w3\<lparr>ota_at := Some (p, h3)\<rparr>)"
    using h2(7,8) h3(2-4) by (simp_all add: signal_ok_def memory_ok_def same_file_def)
  moreover have "size_file h2 = size_file h" using h2(2) by (simp add: same_file_def h1_def)
  ultimately show ?thesis using run h3(6) by fastforce
qed


lemma fetch_all_pieces:
  assumes "downloading got h" "signal_ok h w" "memory_ok w" "ota_at w = Some (p, h)" "delivers_all (int (length got)) rs ds" "ds \<noteq> []"
    "length (got @ concat ds) < 4294967296" "length (got @ concat (butlast ds)) < unat (size_file h)"
    "unat (size_file h) \<le> length (got @ concat ds)"
  shows "\<exists>h' w'. fetch_all (Some p) rs w = Some (map (\<lambda>d. int (length d)) ds, w') \<and> ota_at w' = Some (p, h') \<and> signal_ok h' w' \<and>
     memory_ok w' \<and> same_file h h' \<and> downloaded (got @ concat ds) h'"
  using assms
proof (induction rs arbitrary: got h w ds)
  case Nil
  then show ?case by (cases ds) simp_all
next
  case (Cons r rs)
  then obtain d ds' where ds: "ds = d # ds'" "delivers (int (length got)) r d" "delivers_all (int (length (got @ d))) rs ds'" by (cases ds) auto
  obtain h1 w1 where h1: "IOT_OTA_FetchYield (Some p) True (of_nat (length (hr_buf r))) r w = Some (int (length d), w1)"
      "ota_at w1 = Some (p, h1)" "signal_ok h1 w1" "memory_ok w1" "same_file h h1"
      "if length (got @ d) < unat (size_file h) then downloading (got @ d) h1 else downloaded (got @ d) h1"
    using FetchYield_piece [OF Cons.prems(1-4) ds(2)] Cons.prems(7) ds(1) by auto
  show ?case
  proof (cases "ds' = []")
    case True
    then have "rs = []" using ds(3) by (cases rs) simp_all
    then show ?thesis using h1 True ds(1) Cons.prems(9) by simp
  next
    case False
    then have "downloading (got @ d) h1" using h1(6) Cons.prems(8) ds(1) by (auto split: if_splits)
    from Cons.IH [OF this h1(3,4,2) ds(3) False] False Cons.prems(7-9) h1(5) ds(1) obtain h' w' where
      "fetch_all (Some p) rs w1 = Some (map (\<lambda>d. int (length d)) ds', w')" "ota_at w' = Some (p, h')" "signal_ok h' w'"
      "memory_ok w'" "same_file h1 h'" "downloaded (got @ concat ds) h'"
      by (auto simp: same_file_def add.assoc)
    then show ?thesis using h1(1,5) ds(1) same_file_trans by fastforce
  qed
qed

subsection \<open>The check\<close>

lemma check_firmware_answer:
  assumes "downloaded got h" "signal_ok h w" "memory_ok w" "str_of (md5sum h) = Some announced" "length bs = 4"
  shows "\<exists>h' w'. check_firmware 4 (Mem True bs) h w =
     Some ((0, Mem True (PUT_UINT32_LE (if announced = hex_text (md5 got) then 1 else 0))), h', w')"
proof -
  obtain c c' where c: "ota_md5 h = Some c" "utils_md5_finish c = Some (md5 got, c')"
    using assms(1) md5_alg.finish_digest unfolding downloaded_def by metis
  let ?h = "h\<lparr>ota_md5 := Some c'\<rparr>"
  have sig: "signal_ok ?h w" using assms(2) by (simp add: signal_ok_def)
  obtain rc e w' where "report_progress IOT_OTAP_CHECK_FALIED None ?h w = Some (rc, ?h\<lparr>ota_err := e\<rparr>, w')"
    using report_progress_returns [OF sig assms(3)] by blast
  moreover have "put_word x (Mem True bs) = Some (Mem True (PUT_UINT32_LE x))" for x
    using assms(5) by (simp add: put_word_def store_bytes_def blit_def PUT_UINT32_LE_def)
  ultimately show ?thesis
    using assms(1,4) c by (auto simp: check_firmware_def word_buffer_def otalib_MD5Finalize_def downloaded_def Let_def)
qed


text \<open>The structure right after a message has started a download, in a world where it can run.\<close>

definition download_ready :: "nat \<Rightarrow> OTA_Struct_t \<Rightarrow> ota_world \<Rightarrow> bool" where
  "download_ready p h w \<longleftrightarrow> ota_at w = Some (p, h) \<and> downloading [] h \<and> signal_ok h w \<and> memory_ok w"

text \<open>
  A firmware download from replies that deliver its pieces in order: every call of \<open>IOT_OTA_FetchYield\<close> returns the length of its
  piece, the end is reported as soon as the announced size is reached, and the check of the firmware compares the announced
  checksum with the MD5 (RFC 1321) of all bytes delivered. All calls return, the report of the progress over MQTT included,
  also when the network fails.
\<close>

lemma download_checked:
  assumes "download_ready p h w" "delivers_all 0 replies pieces" "pieces \<noteq> []" "str_of (md5sum h) = Some announced" "length bs = 4"
    and size: "length (concat (butlast pieces)) < unat (size_file h)" "unat (size_file h) \<le> length (concat pieces)" "length (concat pieces) < 4294967296"
  shows "\<exists>w1 w2. fetch_all (Some p) replies w = Some (map (\<lambda>d. int (length d)) pieces, w1) \<and>
     IOT_OTA_IsFetchFinish (Some p) w1 = Some (1, w1) \<and>
     IOT_OTA_Ioctl (Some p) IOT_OTAG_CHECK_FIRMWARE (Some (Mem True bs)) 4 w1 =
       Some ((0, Some (Mem True (PUT_UINT32_LE (if announced = hex_text (md5 (concat pieces)) then 1 else 0)))), w2)"
proof -
  have r: "downloading [] h" "signal_ok h w" "memory_ok w" "ota_at w = Some (p, h)" using assms(1) by (simp_all add: download_ready_def)
  obtain h1 w1 where h1: "fetch_all (Some p) replies w = Some (map (\<lambda>d. int (length d)) pieces, w1)" "ota_at w1 = Some (p, h1)" "signal_ok h1 w1"
      "memory_ok w1" "same_file h h1" "downloaded (concat pieces) h1"
    using fetch_all_pieces [OF r, of replies pieces] assms(2,3) size by auto
  have "str_of (md5sum h1) = Some announced" using h1(5) assms(4) by (simp add: same_file_def)
  from check_firmware_answer [OF h1(6,3,4) this assms(5)] obtain h2 w2 where c: "check_firmware 4 (Mem True bs) h1 w1 =
      Some ((0, Mem True (PUT_UINT32_LE (if announced = hex_text (md5 (concat pieces)) then 1 else 0))), h2, w2)" by blast
  have st: "ota_state h1 = IOT_OTAS_FETCHED" using h1(6) by (simp add: downloaded_def)
  have "IOT_OTA_IsFetchFinish (Some p) w1 = Some (1, w1)"
    using h1(2) st by (simp add: IOT_OTA_IsFetchFinish_def on_ota_def state_is_def)
  moreover have "IOT_OTA_Ioctl (Some p) IOT_OTAG_CHECK_FIRMWARE (Some (Mem True bs)) 4 w1 =
      Some ((0, Some (Mem True (PUT_UINT32_LE (if announced = hex_text (md5 (concat pieces)) then 1 else 0)))), w2\<lparr>ota_at := Some (p, h2)\<rparr>)"
    using h1(2) st c by (simp add: IOT_OTA_Ioctl_def on_ota_def ota_ioctl_def less_IOT_OTA_State_t_def)
  ultimately show ?thesis using h1(1) by blast
qed


text \<open>For the witnesses: a connected client on a platform with a running clock, and a download of 40 bytes that has just been announced.\<close>

definition live_hal :: hal where
  "live_hal = hal_at (\<lambda>t. of_nat (t div 4))"

definition live_client :: iotx_mc_client_t where
  "live_client = (the (fst (wrapper_mqtt_init (Some (lamp_params (ascii ''host'') (ascii ''pw''))) (hal_at (\<lambda>_. 0)))))
     \<lparr>client_state := IOTX_MC_STATE_CONNECTED, env := live_hal\<rparr>"

definition lamp_signal :: otamqtt_Struct_t where
  "lamp_signal = \<lparr>osc_mqtt = Some 1, osc_product_key = ascii ''a1X'', osc_device_name = ascii ''lamp'', topic_upgrade = [], topic_request = [],
     topic_config_get = [], topic_config_push = []\<rparr>"

definition lamp_ota :: "cstr \<Rightarrow> OTA_Struct_t" where
  "lamp_ota announced = zero_ota\<lparr>ch_signal := Some lamp_signal, ota_state := IOT_OTAS_FETCHING, ota_type := IOT_OTAT_FOTA, size_file := 40,
     purl := Some (ascii ''http://u/f''), ch_fetch := Some \<lparr>odc_url = ascii ''http://u/f'', response_content_len = 0, retrieve_len = 0\<rparr>,
     md5sum := holding 33 announced\<rparr>"

definition lamp_world :: "OTA_Struct_t \<Rightarrow> ota_world" where
  "lamp_world h = \<lparr>g_ota_is_initialized = True, ota_at = Some (7, h), ota_next = 9, ota_hal = live_hal,
     ota_mqtt = (loaded_api zero_sign)\<lparr>g_mqtt_client := Some 1, api_client := Some (1, live_client)\<rparr>, ota_calls = []\<rparr>"

lemma live_hal_live: "platform_live live_hal"
proof -
  have "\<exists>m \<ge> n. \<forall>t \<in> {m .. m + 3}. expired_at live_hal timer t" for timer :: u32 and n
  proof (rule exI [of _ "4 * (unat timer + n * 4294967296)"], intro conjI ballI)
    fix t assume "t \<in> {4 * (unat timer + n * 4294967296) .. 4 * (unat timer + n * 4294967296) + 3}"
    then have t: "t div 4 = unat timer + n * 4294967296" by auto
    have u: "(ucast (of_nat k :: u64) :: u32) = of_nat k" for k :: nat
      by (rule bit_word_eqI) (auto simp: bit_ucast_iff bit_of_nat_iff)
    have z: "(4294967296 :: u32) = 0" by code_simp
    have "ucast (clock live_hal t) = timer" unfolding live_hal_def hal_at_def hal.simps t u by (simp add: z)
    then show "expired_at live_hal timer t" by (simp add: expired_at_def)
  qed simp
  then show ?thesis by (simp add: platform_live_def clock_runs_def write_bounded_def live_hal_def hal_at_def)
qed

lemma hex_text_ok: "text_ok (hex_text bs)" "length (hex_text bs) = 2 * length bs"
proof -
  have "infra_hex2char b \<noteq> 0" for b :: byte
  proof -
    have "b AND 15 \<le> 15" by (simp add: word_and_le1)
    then show ?thesis
      unfolding infra_hex2char_def Let_def by (simp add: word_le_nat_alt word_less_nat_alt unat_arith_simps split: if_splits)
  qed
  then show "text_ok (hex_text bs)" by (auto simp: hex_text_def text_ok_def)
  show "length (hex_text bs) = 2 * length bs" by (induction bs) (simp_all add: hex_text_def)
qed

lemma lamp_world_ready: "download_ready 7 (lamp_ota announced) (lamp_world (lamp_ota announced))"
proof -
  have "mqtt_up (Some 1) (ota_mqtt (lamp_world h))" for h
    using live_hal_live by (simp add: mqtt_up_def pick_def lamp_world_def live_client_def)
  then show ?thesis
    by (simp add: download_ready_def downloading_def signal_ok_def memory_ok_def lamp_ota_def lamp_signal_def zero_ota_def text_ok_ascii
        lamp_world_def live_hal_def hal_at_def)
qed

end
