(* ===== verification/OTA_Message.thy ===== *)
theory OTA_Message
  imports OTA_Download
begin

text \<open>
  The message that announces a firmware, from its JSON text to the started download, on top of the correctness
  of the JSON reader.
\<close>

subsection \<open>Members of the message\<close>

lemma JsonValueOf_found:
  assumes "text_at mem p (json_payload j)" "json_ok j" "json_member j (ascii key) = Some m"
  obtains v where "otalib_JsonValueOf mem p (length (json_payload j)) key = Some (Some (v, length (json_payload m)))" "text_at mem v (json_payload m)"
  using by_name_result [OF assms(1,2), of "ascii key"] assms(3)
  by (auto simp: otalib_JsonValueOf_def json_get_value_by_name_def)

lemma load_text_at: "text_at mem p s \<Longrightarrow> load_bytes mem p (length s) = Some s"
  by (auto simp: text_at_def load_bytes_def)

lemma text_takeWhile: "0 \<notin> set s \<Longrightarrow> takeWhile (\<lambda>b. b \<noteq> (0 :: byte)) s = s"
  by (auto simp: takeWhile_eq_all_conv)

lemma Varlen_found:
  assumes "text_at mem p (json_payload j)" "json_ok j" "json_member j (ascii key) = Some m" "memory_ok w"
  obtains w' where "otalib_GetFirmwareVarlenPara mem p (length (json_payload j)) key d w = Some (0, Some (json_payload m), w')"
    "memory_ok w'" "ota_mqtt w' = ota_mqtt w" "ota_at w' = ota_at w" "ota_calls w' = ota_calls w"
proof -
  obtain v where v: "otalib_JsonValueOf mem p (length (json_payload j)) key = Some (Some (v, length (json_payload m)))" "text_at mem v (json_payload m)"
    using JsonValueOf_found [OF assms(1-3)] by blast
  have "takeWhile (\<lambda>b. b \<noteq> 0) (json_payload m) = json_payload m"
    using json_payload_nonzero [OF json_member_ok [OF assms(2,3)]] by (rule text_takeWhile)
  then show ?thesis
    using assms(4) that [of "snd (ota_alloc (length (json_payload m) + 1) w)"]
    by (simp add: otalib_GetFirmwareVarlenPara_def v load_text_at [OF v(2)] ota_alloc_def HAL_Malloc_def memory_ok_def next_tick_def Let_def)
qed

lemma Fixlen_found:
  assumes "text_at mem p (json_payload j)" "json_ok j" "json_member j (ascii key) = Some m" "length (json_payload m) \<le> n" "n \<le> length d"
  shows "otalib_GetFirmwareFixlenPara mem p (length (json_payload j)) key d n = Some (0, json_payload m @ drop (length (json_payload m)) d)"
proof -
  obtain v where v: "otalib_JsonValueOf mem p (length (json_payload j)) key = Some (Some (v, length (json_payload m)))" "text_at mem v (json_payload m)"
    using JsonValueOf_found [OF assms(1-3)] by blast
  then show ?thesis
    using assms(4,5) by (simp add: otalib_GetFirmwareFixlenPara_def load_text_at [OF v(2)] store_bytes_def blit_def)
qed

lemma read_size_text:
  assumes "0 \<notin> set s" "length s \<le> 16"
  shows "read_size (s @ drop (length s) (replicate 17 0)) = Some (word_of_int (atoi s))"
proof -
  have "(replicate n x)[i := x] = replicate n x" for n i and x :: byte 
    by (cases "i < n") (simp_all add: list_eq_iff_nth_eq nth_list_update)
  then have "store (s @ drop (length s) (replicate 17 0)) 16 0 = Some (holding 17 s)"
    using assms(2) by (simp add: store_def holding_def list_update_append)
  then show ?thesis
    using assms by (simp add: read_size_def OTA_FILESIZE_STR_LEN_def text_ok_def)
qed


subsection \<open>The message\<close>

text \<open>
  A message that announces a firmware, by its content: \<open>message\<close> is \<open>success\<close>, and \<open>data\<close> has the version, the
  URL, the checksum and the size (as text); the last two fit into the arrays for them.
\<close>

definition announces :: "json \<Rightarrow> cstr \<Rightarrow> cstr \<Rightarrow> cstr \<Rightarrow> cstr \<Rightarrow> bool" where
  "announces j version url checksum size_text \<longleftrightarrow> json_ok j \<and>
     map_option json_payload (json_path j [ascii ''message'']) = Some (ascii ''success'') \<and>
     map_option json_payload (json_path j [ascii ''data'', ascii ''version'']) = Some version \<and>
     map_option json_payload (json_path j [ascii ''data'', ascii ''url'']) = Some url \<and>
     map_option json_payload (json_path j [ascii ''data'', ascii ''md5'']) = Some checksum \<and> length checksum = 32 \<and>
     map_option json_payload (json_path j [ascii ''data'', ascii ''size'']) = Some size_text \<and> length size_text \<le> 16"

lemma GetParams_found:
  assumes at: "text_at mem p (json_payload d)" and ok: "json_ok d"
    and mem: "json_member d (ascii ''version'') = Some v" "json_member d (ascii ''url'') = Some u"
      "json_member d (ascii ''md5'') = Some c" "json_member d (ascii ''size'') = Some z"
    and len: "length (json_payload c) = 32" "length (json_payload z) \<le> 16" "length (md5sum h) = 33"
    and w: "memory_ok w"
  shows "\<exists>w'. otalib_GetParams mem p (length (json_payload d)) h w =
     Some (0, h\<lparr>ota_version := Some (json_payload v), purl := Some (json_payload u), md5sum := json_payload c @ drop 32 (md5sum h),
       size_file := word_of_int (atoi (json_payload z))\<rparr>, w') \<and> memory_ok w' \<and> ota_mqtt w' = ota_mqtt w \<and> ota_at w' = ota_at w \<and> ota_calls w' = ota_calls w"
proof -
  obtain w1 where w1: "otalib_GetFirmwareVarlenPara mem p (length (json_payload d)) ''version'' (ota_version h) w = Some (0, Some (json_payload v), w1)"
    "memory_ok w1" "ota_mqtt w1 = ota_mqtt w" "ota_at w1 = ota_at w" "ota_calls w1 = ota_calls w"
    using Varlen_found [OF at ok mem(1) w] by blast
  obtain w2 where w2: "otalib_GetFirmwareVarlenPara mem p (length (json_payload d)) ''url'' (purl h) w1 = Some (0, Some (json_payload u), w2)"
    "memory_ok w2" "ota_mqtt w2 = ota_mqtt w1" "ota_at w2 = ota_at w1" "ota_calls w2 = ota_calls w1"
    using Varlen_found [OF at ok mem(2) w1(2)] by blast
  have c: "otalib_GetFirmwareFixlenPara mem p (length (json_payload d)) ''md5'' (md5sum h) 32 = Some (0, json_payload c @ drop 32 (md5sum h))"
    using Fixlen_found [OF at ok mem(3), of 32 "md5sum h"] len by simp
  have z: "otalib_GetFirmwareFixlenPara mem p (length (json_payload d)) ''size'' (replicate 17 0) 16 =
      Some (0, json_payload z @ drop (length (json_payload z)) (replicate 17 0))"
    using Fixlen_found [OF at ok mem(4), of 16 "replicate 17 0"] len(2) by (simp del: drop_replicate)
  have n: "read_size (json_payload z @ drop (length (json_payload z)) (replicate 17 0)) = Some (word_of_int (atoi (json_payload z)))"
    using json_payload_nonzero [OF json_member_ok [OF ok mem(4)]] len(2) by (rule read_size_text)
  have numbers: "OTA_FILESIZE_STR_LEN = 16" "16 + 1 = (17 :: nat)" by (simp_all add: OTA_FILESIZE_STR_LEN_def)
  have "otalib_GetParams mem p (length (json_payload d)) h w =
     Some (0, h\<lparr>ota_version := Some (json_payload v), purl := Some (json_payload u), md5sum := json_payload c @ drop 32 (md5sum h),
       size_file := word_of_int (atoi (json_payload z))\<rparr>, w2)"
    unfolding otalib_GetParams_def numbers using w1(1) w2(1) c z n by (simp add: Let_def del: drop_replicate)
  then show ?thesis using w1 w2 by auto
qed

text \<open>
  C23: A message that announces a firmware starts the download: in a state in which nothing is being fetched, \<open>ota_callback\<close>
  reads the text of the message and leaves the structure in the state \<open>FETCHING\<close> with the version, the URL, the
  checksum and the size of the message, a fresh HTTP channel for the URL, and everything else as it was; the application's
  callback is called once, with these values. When the counter of fetched bytes is zero, the download is ready to run.
\<close>

theorem firmware_message_starts:
  assumes "text_at mem p (json_payload j)" "announces j version url checksum size_text"
    and h: "ota_at w = Some (q, h)" "ota_ok h" "ota_state h \<noteq> IOT_OTAS_FETCHING" "memory_ok w" "signal_ok h w"
    and type: "type = IOTX_OTA_TOPIC_TYPE_DEVICE_REQUEST \<or> type = IOTX_OTA_TOPIC_TYPE_DEVICE_UPGRATE"
  shows "\<exists>h' w'. ota_callback mem p (length (json_payload j)) type h w = Some (0, h', w') \<and>
     h' = h\<lparr>ota_version := Some version, purl := Some url, md5sum := checksum @ [0], size_file := word_of_int (atoi size_text),
       ch_fetch := Some \<lparr>odc_url = url, response_content_len = 0, retrieve_len = 0\<rparr>, ota_type := IOT_OTAT_FOTA, ota_state := IOT_OTAS_FETCHING\<rparr> \<and>
     ota_calls w' = ota_calls w @ (case fetch_cb h of None \<Rightarrow> []
       | Some f \<Rightarrow> [Fetch_Call f (ota_user_data h) 0 (word_of_int (atoi size_text)) (Some url) (Some version)]) \<and>
     (size_fetched h = 0 \<longrightarrow> download_ready q h' (w'\<lparr>ota_at := Some (q, h')\<rparr>))"
proof -
  obtain m d v u c z where j: "json_ok j" "json_member j (ascii ''message'') = Some m" "json_payload m = ascii ''success''"
      "json_member j (ascii ''data'') = Some d" "json_member d (ascii ''version'') = Some v" "json_member d (ascii ''url'') = Some u"
      "json_member d (ascii ''md5'') = Some c" "json_member d (ascii ''size'') = Some z"
      and pay: "json_payload v = version" "json_payload u = url" "json_payload c = checksum" "length checksum = 32" "json_payload z = size_text" "length size_text \<le> 16"
    using assms(2) by (auto simp: announces_def bind_eq_Some_conv)
  obtain pm where pm: "otalib_JsonValueOf mem p (length (json_payload j)) ''message'' = Some (Some (pm, length (ascii ''success'')))"
      "text_at mem pm (ascii ''success'')"
    using JsonValueOf_found [OF assms(1) j(1,2), unfolded j(3)] by blast
  obtain pd where pd: "otalib_JsonValueOf mem p (length (json_payload j)) ''data'' = Some (Some (pd, length (json_payload d)))" "text_at mem pd (json_payload d)"
    using JsonValueOf_found [OF assms(1) j(1,4)] by blast
  have good: "value_is mem (pm, length (ascii ''success'')) ''success'' = Some True"
    unfolding value_is_def fst_conv snd_conv load_text_at [OF pm(2)] by (simp only: length_ascii refl if_True Option.bind.simps)
  have sum: "drop 32 (md5sum h) = [0]"
    using Cons_nth_drop_Suc [of 32 "md5sum h"] h(2) by (simp add: ota_ok_def)
  obtain w1 where w1: "otalib_GetParams mem pd (length (json_payload d)) h w =
     Some (0, h\<lparr>ota_version := Some version, purl := Some url, md5sum := checksum @ [0], size_file := word_of_int (atoi size_text)\<rparr>, w1)"
     "memory_ok w1" "ota_mqtt w1 = ota_mqtt w" "ota_at w1 = ota_at w" "ota_calls w1 = ota_calls w"
    using GetParams_found [OF pd(2) json_member_ok [OF j(1,4)] j(5-8) _ _ _ h(4), of h] pay h(2) sum by (auto simp: ota_ok_def)
  have run: "ota_callback mem p (length (json_payload j)) type h w = start_firmware mem (pd, length (json_payload d)) h w"
    unfolding ota_callback_def pm(1) pd(1) Option.bind.simps option.case good using h(3) type by auto
  show ?thesis
    unfolding run start_firmware_def fst_conv snd_conv w1(1) Option.bind.simps prod.case
    using w1(2-5) h(5)
    by (auto simp: ofc_Init_def ota_alloc_def HAL_Malloc_def memory_ok_def Let_def call_fetch_cb_def record_call_def download_ready_def downloading_def
        signal_ok_def next_tick_def split: option.split)
qed


text \<open>The message \<open>{"message":"success","data":{"version":"1.1","url":"http://u","md5":"00..0","size":"5"}}\<close>, and a module that waits for one.\<close>

definition lamp_firmware :: json where
  "lamp_firmware = JObj [(ascii ''message'', JStr (ascii ''success'')),
     (ascii ''data'', JObj [(ascii ''version'', JStr (ascii ''1.1'')), (ascii ''url'', JStr (ascii ''http://u'')),
        (ascii ''md5'', JStr (replicate 32 0x30)), (ascii ''size'', JStr (ascii ''5''))])]"

definition lamp_idle :: OTA_Struct_t where
  "lamp_idle = zero_ota\<lparr>ch_signal := Some lamp_signal, ota_state := IOT_OTAS_INITED, fetch_cb := Some 3\<rparr>"

lemma lamp_firmware_announces: "announces lamp_firmware (ascii ''1.1'') (ascii ''http://u'') (replicate 32 0x30) (ascii ''5'')"
  by code_simp

lemma lamp_idle_ready: "ota_ok lamp_idle" "signal_ok lamp_idle (lamp_world lamp_idle)" "memory_ok (lamp_world lamp_idle)"
proof -
  show "ota_ok lamp_idle" by (simp add: ota_ok_def lamp_idle_def zero_ota_def)
  show "memory_ok (lamp_world lamp_idle)" by (simp add: memory_ok_def lamp_world_def live_hal_def hal_at_def)
  show "signal_ok lamp_idle (lamp_world lamp_idle)"
    using live_hal_live by (simp add: signal_ok_def lamp_idle_def lamp_signal_def text_ok_ascii mqtt_up_def pick_def lamp_world_def live_client_def)
qed

theorem firmware_message_starts_witness:
  "\<exists>h' w'. ota_callback (json_payload lamp_firmware @ [0]) 0 (length (json_payload lamp_firmware)) IOTX_OTA_TOPIC_TYPE_DEVICE_UPGRATE
       lamp_idle (lamp_world lamp_idle) = Some (0, h', w') \<and>
     ota_state h' = IOT_OTAS_FETCHING \<and> size_file h' = 5 \<and> purl h' = Some (ascii ''http://u'') \<and>
     ota_calls w' = [Fetch_Call 3 0 0 5 (Some (ascii ''http://u'')) (Some (ascii ''1.1''))] \<and> download_ready 7 h' (w'\<lparr>ota_at := Some (7, h')\<rparr>)"
proof -
  have at: "text_at (json_payload lamp_firmware @ [0]) 0 (json_payload lamp_firmware)"
    unfolding text_at_def by (intro exI [of _ "[]"] exI [of _ "[0]"]) simp
  have five: "(word_of_int (atoi (ascii ''5'')) :: u32) = 5" by code_simp
  have idle: "ota_at (lamp_world lamp_idle) = Some (7, lamp_idle)" "ota_state lamp_idle \<noteq> IOT_OTAS_FETCHING" "ota_calls (lamp_world lamp_idle) = []"
    "fetch_cb lamp_idle = Some 3" "ota_user_data lamp_idle = 0" "size_fetched lamp_idle = 0"
    by (simp_all add: lamp_world_def lamp_idle_def zero_ota_def)
  show ?thesis
    using firmware_message_starts [OF at lamp_firmware_announces idle(1) lamp_idle_ready(1) idle(2) lamp_idle_ready(3,2), of IOTX_OTA_TOPIC_TYPE_DEVICE_UPGRATE]
    unfolding five idle(3-6) by auto
qed

end
