(* ===== verification/OTA_Requests.thy ===== *)
theory OTA_Requests
  imports OTA_Download
begin

text \<open>
  The requests of \<open>IOT_OTA_Ioctl\<close>. The function takes a \<open>void *\<close> and reads it at a type that depends on the
  command; the types of the commands are written down here, with the requests that respect them and dereference \<open>NULL\<close>
  all the same: every other one is answered.
\<close>

subsection \<open>Well-typed requests\<close>

definition string_cmds :: "IOT_OTA_CmdType_t set" where
  "string_cmds = {IOT_OTAG_COTA_CONFIG_ID, IOT_OTAG_COTA_SIGN, IOT_OTAG_COTA_SIGN_METHOD, IOT_OTAG_COTA_URL, IOT_OTAG_COTA_GETTYPE}"

definition word_cmds :: "IOT_OTA_CmdType_t set" where
  "word_cmds = {IOT_OTAG_COTA_CONFIG_SIZE, IOT_OTAG_OTA_TYPE, IOT_OTAG_FETCHED_SIZE, IOT_OTAG_FILE_SIZE, IOT_OTAG_CHECK_FIRMWARE, IOT_OTAG_CHECK_CONFIG}"

definition text_cmds :: "IOT_OTA_CmdType_t set" where
  "text_cmds = {IOT_OTAG_VERSION, IOT_OTAG_MD5SUM}"

text \<open>
  The type of the buffer for a command: a string pointer, four bytes, or \<open>buf_len\<close> bytes.
\<close>

definition request_typed :: "IOT_OTA_CmdType_t \<Rightarrow> int \<Rightarrow> ota_buf \<Rightarrow> bool" where
  "request_typed type buf_len buf \<longleftrightarrow> buf_len \<noteq> 0 \<and>
     (case buf of
        Str_Ptr _ \<Rightarrow> type \<notin> word_cmds \<union> text_cmds
      | Mem aligned bs \<Rightarrow> type \<notin> string_cmds \<and> (type \<in> word_cmds \<longrightarrow> 4 \<le> length bs) \<and>
          (type \<in> text_cmds \<longrightarrow> 0 < buf_len \<and> buf_len \<le> int (length bs)))"

text \<open>
  Where a request with a buffer of the right type still dereferences \<open>NULL\<close>, once a download has begun: the version when none
  was announced, and the check of a finished download when a digest context was never allocated or, for a configuration, when
  the signature or its method was not announced.
\<close>

definition check_wanted :: "int \<Rightarrow> ota_buf \<Rightarrow> OTA_Struct_t \<Rightarrow> bool" where
  "check_wanted n b h \<longleftrightarrow> n = 4 \<and> (case b of Mem aligned bs \<Rightarrow> aligned | Str_Ptr _ \<Rightarrow> False) \<and> ota_state h = IOT_OTAS_FETCHED"

definition request_crashes :: "IOT_OTA_CmdType_t \<Rightarrow> int \<Rightarrow> ota_buf \<Rightarrow> OTA_Struct_t \<Rightarrow> bool" where
  "request_crashes type n b h \<longleftrightarrow> \<not> ota_state h < IOT_OTAS_FETCHING \<and>
     (case type of
        IOT_OTAG_VERSION \<Rightarrow> ota_version h = None
      | IOT_OTAG_CHECK_FIRMWARE \<Rightarrow> check_wanted n b h \<and> ota_md5 h = None
      | IOT_OTAG_CHECK_CONFIG \<Rightarrow> check_wanted n b h \<and>
          (case signMethod h of
             None \<Rightarrow> True
           | Some m \<Rightarrow> begins m ''Md5'' \<and> (ota_md5 h = None \<or> ota_sign h = None) \<or>
               begins m ''Sha256'' \<and> (ota_sha256 h = None \<or> ota_sign h = None))
      | _ \<Rightarrow> False)"

text \<open>The arrays in the digest contexts have their declared lengths.\<close>

definition digests_typed :: "OTA_Struct_t \<Rightarrow> bool" where
  "digests_typed h \<longleftrightarrow> (\<forall>c. ota_md5 h = Some c \<longrightarrow> ctx_shape 4 c) \<and> (\<forall>c. ota_sha256 h = Some c \<longrightarrow> ctx_shape 8 c)"

definition same_type :: "ota_buf \<Rightarrow> ota_buf \<Rightarrow> bool" where
  "same_type b b' \<longleftrightarrow> (case (b, b') of (Str_Ptr _, Str_Ptr _) \<Rightarrow> True | (Mem a bs, Mem a' bs') \<Rightarrow> a = a' \<and> length bs = length bs' | _ \<Rightarrow> False)"

lemma same_type_simps [simp]: "same_type b b" "same_type (Str_Ptr x) (Str_Ptr y)" "same_type (Mem a bs) (Mem a' bs') \<longleftrightarrow> a = a' \<and> length bs = length bs'"
  by (auto simp: same_type_def split: ota_buf.split)

lemma md5_finish_returns: "ctx_shape 4 c \<Longrightarrow> returns (utils_md5_finish c) (\<lambda>(out, c'). ctx_shape 4 c')"
  unfolding utils_md5_finish_def
  by (rule returns_bind, rule returns_conseq [OF md5_digest.finish_shape]) simp_all

lemma sha256_finish_returns: "ctx_shape 8 c \<Longrightarrow> returns (utils_sha256_finish c) (\<lambda>(out, c'). ctx_shape 8 c')"
  unfolding utils_sha256_finish_def
  by (rule returns_bind, rule returns_conseq [OF sha256_digest.finish_shape]) simp_all

text \<open>
  An answer: the command returns, the buffer is still of its type, and the digest contexts are; or, where \<open>crash\<close> holds, it
  does not return.
\<close>

definition answers :: "bool \<Rightarrow> ota_buf \<Rightarrow> ota_answer \<Rightarrow> bool" where
  "answers crash b r \<longleftrightarrow> (if crash then r = None else returns r (\<lambda>((rc, b'), h', w'). same_type b b' \<and> digests_typed h'))"

lemma answers_simps [simp]: "answers False b (Some ((rc, b'), h', w')) \<longleftrightarrow> same_type b b' \<and> digests_typed h'" "answers True b r \<longleftrightarrow> r = None"
  by (simp_all add: answers_def)

lemma param_error_answers [simp]: "digests_typed h \<Longrightarrow> answers False b (param_error b h w)"
  by (simp add: param_error_def digests_typed_def)

lemma ioctl_string_answers: "digests_typed h \<Longrightarrow> answers False (Str_Ptr s) (ioctl_string field (Str_Ptr s) h w)"
  by (simp add: ioctl_string_def case_prod_beta split: option.split)

lemma put_word_type:
  assumes "4 \<le> length bs"
  obtains bs' where "put_word x (Mem a bs) = Some (Mem a bs')" "length bs' = length bs"
  using assms by (auto simp: put_word_def store_bytes_def PUT_UINT32_LE_def)

lemma ioctl_word_answers: "4 \<le> length bs \<Longrightarrow> digests_typed h \<Longrightarrow> answers False (Mem a bs) (ioctl_word n x (Mem a bs) h w)"
  by (rule put_word_type [of bs x a]) (auto simp: ioctl_word_def word_buffer_def)

lemma ioctl_text_answers:
  "0 < n \<Longrightarrow> n \<le> int (length bs) \<Longrightarrow> digests_typed h \<Longrightarrow> answers False (Mem a bs) (ioctl_text n s (Mem a bs) h w)"
  by (auto simp: ioctl_text_def store_bytes_def store_def nat_le_iff min_def)

lemma MD5Finalize_returns:
  assumes "digests_typed h"
  shows "ota_md5 h = None \<Longrightarrow> otalib_MD5Finalize (ota_md5 h) = None"
    and "ota_md5 h \<noteq> None \<Longrightarrow> \<exists>out c. otalib_MD5Finalize (ota_md5 h) = Some (out, Some c) \<and> ctx_shape 4 c"
  using assms md5_finish_returns by (fastforce simp: otalib_MD5Finalize_def digests_typed_def returns_def)+

lemma Sha256Finalize_returns:
  assumes "digests_typed h"
  shows "ota_sha256 h = None \<Longrightarrow> otalib_Sha256Finalize (ota_sha256 h) = None"
    and "ota_sha256 h \<noteq> None \<Longrightarrow> \<exists>out c. otalib_Sha256Finalize (ota_sha256 h) = Some (out, Some c) \<and> ctx_shape 8 c"
  using assms sha256_finish_returns by (fastforce simp: otalib_Sha256Finalize_def digests_typed_def returns_def)+

lemma check_firmware_answers:
  assumes "4 \<le> length bs" "digests_typed h" "str_of (md5sum h) \<noteq> None" "signal_ok h w" "memory_ok w"
  shows "answers (check_wanted n (Mem a bs) h \<and> ota_md5 h = None) (Mem a bs) (check_firmware n (Mem a bs) h w)"
proof (cases "check_wanted n (Mem a bs) h \<and> ota_md5 h \<noteq> None")
  case False
  have t: "digests_typed (h\<lparr>ota_err := e\<rparr>)" for e using assms(2) by (simp add: digests_typed_def)
  show ?thesis
    using False assms(2) t MD5Finalize_returns(1) [OF assms(2)] by (auto simp: check_wanted_def check_firmware_def word_buffer_def)
next
  case True
  then have wanted: "n = 4" "a" "ota_state h = IOT_OTAS_FETCHED" by (simp_all add: check_wanted_def)
  obtain out c' s where c: "otalib_MD5Finalize (ota_md5 h) = Some (out, Some c')" "ctx_shape 4 c'" "str_of (md5sum h) = Some s"
    using True MD5Finalize_returns(2) [OF assms(2)] assms(3) by blast
  let ?h = "h\<lparr>ota_md5 := Some c'\<rparr>"
  have sig: "signal_ok ?h w" using assms(4) by (simp add: signal_ok_def)
  obtain rc e w' where r: "report_progress IOT_OTAP_CHECK_FALIED None ?h w = Some (rc, ?h\<lparr>ota_err := e\<rparr>, w')"
    using report_progress_returns [OF sig assms(5)] by blast
  obtain b0 b1 where b: "put_word 0 (Mem a bs) = Some (Mem a b0)" "length b0 = length bs" "put_word 1 (Mem a bs) = Some (Mem a b1)" "length b1 = length bs"
    using put_word_type [OF assms(1)] by metis
  have "digests_typed ?h" "digests_typed (?h\<lparr>ota_err := e\<rparr>)" using assms(2) c(2) by (simp_all add: digests_typed_def)
  then show ?thesis
    using True wanted b r c by (auto simp: check_firmware_def word_buffer_def Let_def)
qed

text \<open>The two parts of the check of a configuration, one per digest.\<close>

lemma check_part:
  assumes "4 \<le> length bs" "fin = None \<longleftrightarrow> ctx = None" "\<And>out c. fin = Some (out, c) \<Longrightarrow> P c"
  shows "if ctx = None \<or> sign = None then (do { (str, c) \<leftarrow> fin; s \<leftarrow> sign; buf \<leftarrow> put_word (if s = str then 1 else 0) (Mem a bs); Some (buf, f c) }) = None
    else \<exists>bs' c. (do { (str, c) \<leftarrow> fin; s \<leftarrow> sign; buf \<leftarrow> put_word (if s = str then 1 else 0) (Mem a bs); Some (buf, f c) }) =
      Some (Mem a bs', f c) \<and> length bs' = length bs \<and> P c"
proof (cases "ctx = None \<or> sign = None")
  case True
  then show ?thesis using assms(2) by (auto split: prod.split)
next
  case False
  then obtain out c s where f: "fin = Some (out, c)" "sign = Some s" "P c" using assms(2,3) by (cases fin) auto
  obtain bs' where "put_word (if s = out then 1 else 0) (Mem a bs) = Some (Mem a bs')" "length bs' = length bs"
    using put_word_type [OF assms(1)] by metis
  then show ?thesis using False f by auto
qed

lemma check_config_answers:
  assumes "4 \<le> length bs" "digests_typed h"
  shows "answers (check_wanted n (Mem a bs) h \<and> (case signMethod h of
      None \<Rightarrow> True
    | Some m \<Rightarrow> begins m ''Md5'' \<and> (ota_md5 h = None \<or> ota_sign h = None) \<or> begins m ''Sha256'' \<and> (ota_sha256 h = None \<or> ota_sign h = None)))
    (Mem a bs) (check_config n (Mem a bs) h w)"
proof (cases "check_wanted n (Mem a bs) h \<and> signMethod h \<noteq> None")
  case False
  have t: "digests_typed (h\<lparr>ota_err := e\<rparr>)" for e using assms(2) by (simp add: digests_typed_def)
  show ?thesis using False assms(2) t by (auto simp: check_wanted_def check_config_def word_buffer_def)
next
  case True
  then obtain m where m: "n = 4" "a" "ota_state h = IOT_OTAS_FETCHED" "signMethod h = Some m" by (auto simp: check_wanted_def)
  define md where "md buf h = (if begins m ''Md5'' then do {
      (str, c) \<leftarrow> otalib_MD5Finalize (ota_md5 h); s \<leftarrow> ota_sign h; buf \<leftarrow> put_word (if s = str then 1 else 0) buf;
      Some (buf, h\<lparr>ota_md5 := c\<rparr>) } else Some (buf, h))" for buf and h :: OTA_Struct_t
  define sh where "sh buf h = (if begins m ''Sha256'' then do {
      (str, c) \<leftarrow> otalib_Sha256Finalize (ota_sha256 h); s \<leftarrow> ota_sign h; buf \<leftarrow> put_word (if s = str then 1 else 0) buf;
      Some (buf, h\<lparr>ota_sha256 := c\<rparr>) } else Some (buf, h))" for buf and h :: OTA_Struct_t
  have md: "if begins m ''Md5'' \<and> (ota_md5 h = None \<or> ota_sign h = None) then md (Mem a bs) h = None
      else \<exists>bs' c. md (Mem a bs) h = Some (Mem a bs', h\<lparr>ota_md5 := c\<rparr>) \<and> length bs' = length bs \<and> digests_typed (h\<lparr>ota_md5 := c\<rparr>)"
  proof (cases "begins m ''Md5''")
    case True
    have fin: "otalib_MD5Finalize (ota_md5 h) = None \<longleftrightarrow> ota_md5 h = None"
      using MD5Finalize_returns [OF assms(2)] by (cases "ota_md5 h = None") auto
    have typed: "digests_typed (h\<lparr>ota_md5 := c\<rparr>)" if "otalib_MD5Finalize (ota_md5 h) = Some (out, c)" for out c
      using MD5Finalize_returns [OF assms(2)] assms(2) that by (cases "ota_md5 h = None") (auto simp: digests_typed_def)
    show ?thesis
      using check_part [OF assms(1) fin, of "\<lambda>c. digests_typed (h\<lparr>ota_md5 := c\<rparr>)" "ota_sign h" a "\<lambda>c. h\<lparr>ota_md5 := c\<rparr>", OF typed] True
      unfolding md_def by simp
  next
    case False
    then show ?thesis using assms(2) by (auto simp: md_def intro!: exI [of _ bs] exI [of _ "ota_md5 h"])
  qed
  have sh: "if begins m ''Sha256'' \<and> (ota_sha256 h = None \<or> ota_sign h = None) then sh (Mem a bs) h = None
      else \<exists>bs' c. sh (Mem a bs) h = Some (Mem a bs', h\<lparr>ota_sha256 := c\<rparr>) \<and> length bs' = length bs \<and> digests_typed (h\<lparr>ota_sha256 := c\<rparr>)"
    if "4 \<le> length bs" "digests_typed h" for bs h
  proof (cases "begins m ''Sha256''")
    case True
    have fin: "otalib_Sha256Finalize (ota_sha256 h) = None \<longleftrightarrow> ota_sha256 h = None"
      using Sha256Finalize_returns [OF that(2)] by (cases "ota_sha256 h = None") auto
    have typed: "digests_typed (h\<lparr>ota_sha256 := c\<rparr>)" if "otalib_Sha256Finalize (ota_sha256 h) = Some (out, c)" for out c
      using Sha256Finalize_returns [OF \<open>digests_typed h\<close>] \<open>digests_typed h\<close> that by (cases "ota_sha256 h = None") (auto simp: digests_typed_def)
    show ?thesis
      using check_part [OF that(1) fin, of "\<lambda>c. digests_typed (h\<lparr>ota_sha256 := c\<rparr>)" "ota_sign h" a "\<lambda>c. h\<lparr>ota_sha256 := c\<rparr>", OF typed] True
      unfolding sh_def by simp
  next
    case False
    then show ?thesis using that(2) by (auto simp: sh_def intro!: exI [of _ bs] exI [of _ "ota_sha256 h"])
  qed
  have cfg: "check_config n (Mem a bs) h w = md (Mem a bs) h \<bind> (\<lambda>(b, h). sh b h \<bind> (\<lambda>(b, h). Some ((0, b), h, w)))"
    using m by (simp add: check_config_def word_buffer_def md_def sh_def)
  show ?thesis
  proof (cases "begins m ''Md5'' \<and> (ota_md5 h = None \<or> ota_sign h = None)")
    case True
    then have "md (Mem a bs) h = None" using md by simp
    then show ?thesis unfolding cfg using True m by (simp add: check_wanted_def)
  next
    case False
    then obtain bs1 c where h1: "md (Mem a bs) h = Some (Mem a bs1, h\<lparr>ota_md5 := c\<rparr>)" "length bs1 = length bs" "digests_typed (h\<lparr>ota_md5 := c\<rparr>)"
      using md by (auto simp only: if_False)
    show ?thesis
      unfolding cfg h1(1) using False m sh [of bs1, OF _ h1(3)] h1(2) assms(1) by (auto simp: check_wanted_def split: if_splits)
  qed
qed

subsection \<open>Type safety\<close>

lemma md5sum_text: "ota_ok h \<Longrightarrow> str_of (md5sum h) \<noteq> None"
proof -
  assume "ota_ok h"
  then have "0 \<in> set (md5sum h)" by (auto simp: ota_ok_def in_set_conv_nth intro!: exI [of _ 32])
  then show ?thesis by (auto simp: str_of_def strlen_def load_bytes_def length_takeWhile_le)
qed

lemma ota_ioctl_answers:
  assumes "request_typed type n b" "digests_typed h" "ota_ok h" "signal_ok h w" "memory_ok w"
  shows "answers (request_crashes type n b h) b (ota_ioctl type b n h w)"
proof (cases "ota_state h < IOT_OTAS_FETCHING")
  case True
  then show ?thesis using assms(2) by (simp add: ota_ioctl_def request_crashes_def digests_typed_def)
next
  case False
  show ?thesis
  proof (cases b)
    case (Str_Ptr s)
    then show ?thesis
      using False assms(1,2)
      by (cases type) (simp_all add: ota_ioctl_def ioctl_string_answers request_typed_def request_crashes_def word_cmds_def text_cmds_def
          check_wanted_def digests_typed_def)
  next
    case (Mem a bs)
    obtain s where s: "str_of (md5sum h) = Some s" using md5sum_text [OF assms(3)] by blast
    have typed: "type \<notin> string_cmds" "type \<in> word_cmds \<Longrightarrow> 4 \<le> length bs" "type \<in> text_cmds \<Longrightarrow> 0 < n \<and> n \<le> int (length bs)"
      using assms(1) Mem by (simp_all add: request_typed_def)
    have reset: "digests_typed (h\<lparr>size_fetched := 0\<rparr>)" using assms(2) by (simp add: digests_typed_def)
    show ?thesis
      using False typed assms(2,4,5) s Mem reset check_firmware_answers [of bs h w n a] check_config_answers [of bs h n a w]
      by (cases type; cases "ota_version h")
         (auto simp: ota_ioctl_def ioctl_word_answers ioctl_text_answers string_cmds_def word_cmds_def text_cmds_def request_crashes_def)
  qed
qed

text \<open>
  C25: Type safety of \<open>IOT_OTA_Ioctl\<close>, for a buffer of the type of the command (a string pointer, four bytes, or \<open>buf_len\<close> bytes), on a
  platform with memory and with an MQTT client to report to: the request either is one of those that dereference \<open>NULL\<close>, which are
  exactly the ones that do not return (\<^const>\<open>request_crashes\<close>: the version when none was announced; the check of a finished
  download without a digest context, or of a configuration without signature or signature method); or it
  returns, what the pointer designates is of the same type and size, and the module satisfies its invariant with digest
  contexts of their types, so that the same request, a second check included, can be made again.
\<close>

theorem ota_ioctl_type_safe:
  assumes "request_typed type n b" "digests_typed h" "ota_inv w" "ota_at w = Some (p, h)" "signal_ok h w" "memory_ok w"
  shows "if request_crashes type n b h then IOT_OTA_Ioctl (Some p) type (Some b) n w = None
    else \<exists>rc b' h' w'. IOT_OTA_Ioctl (Some p) type (Some b) n w = Some ((rc, Some b'), w') \<and> same_type b b' \<and>
      ota_inv w' \<and> ota_at w' = Some (p, h') \<and> digests_typed h'"
proof -
  have ok: "ota_ok h" using assms(3,4) by (simp add: ota_inv_def)
  have n: "n \<noteq> 0" using assms(1) by (simp add: request_typed_def)
  have run: "IOT_OTA_Ioctl (Some p) type (Some b) n w = ota_ioctl type b n h w \<bind> (\<lambda>(r, h', w1).
      Some ((fst r, Some (snd r)), w1\<lparr>ota_at := Some (p, h')\<rparr>))"
    using n assms(4) by (cases "ota_ioctl type b n h w") (auto simp: IOT_OTA_Ioctl_def on_ota_def)
  note ans = ota_ioctl_answers [OF assms(1,2) ok assms(5,6)]
  show ?thesis
  proof (cases "request_crashes type n b h")
    case True
    then show ?thesis using ans unfolding run by simp
  next
    case False
    then obtain rc b' h' w1 where r: "ota_ioctl type b n h w = Some ((rc, b'), h', w1)" "same_type b b'" "digests_typed h'"
      using ans by (auto simp: answers_def returns_def)
    then have io: "IOT_OTA_Ioctl (Some p) type (Some b) n w = Some ((rc, Some b'), w1\<lparr>ota_at := Some (p, h')\<rparr>)" unfolding run by simp
    from handle_calls_inv(9) [OF assms(3) this] have "ota_inv (w1\<lparr>ota_at := Some (p, h')\<rparr>)" .
    with False io r(2,3) show ?thesis by auto
  qed
qed

theorem ota_ioctl_type_safe_witness:
  "(\<exists>rc b' w'. IOT_OTA_Ioctl (Some 7) IOT_OTAG_MD5SUM (Some (Mem False (replicate 40 1))) 33 (lamp_world (lamp_ota (ascii ''ab''))) = Some ((rc, Some b'), w') \<and>
     same_type (Mem False (replicate 40 1)) b' \<and> ota_inv w') \<and>
   IOT_OTA_Ioctl (Some 7) IOT_OTAG_VERSION (Some (Mem False (replicate 40 1))) 33 (lamp_world (lamp_ota (ascii ''ab''))) = None"
proof -
  let ?w = "lamp_world (lamp_ota (ascii ''ab''))" let ?h = "lamp_ota (ascii ''ab'')" let ?b = "Mem False (replicate 40 1)"
  have t: "request_typed IOT_OTAG_MD5SUM 33 ?b" "request_typed IOT_OTAG_VERSION 33 ?b"
    by (simp_all add: request_typed_def string_cmds_def word_cmds_def)
  have h: "digests_typed ?h" by (simp add: digests_typed_def lamp_ota_def zero_ota_def)
  have w: "ota_at ?w = Some (7, ?h)" "signal_ok ?h ?w" "memory_ok ?w"
    using lamp_world_ready by (simp_all add: download_ready_def)
  have inv: "ota_inv ?w"
    by (simp add: ota_inv_def lamp_world_def ota_ok_def lamp_ota_def zero_ota_def holding_def nth_append)
  have "\<not> request_crashes IOT_OTAG_MD5SUM 33 ?b ?h" "request_crashes IOT_OTAG_VERSION 33 ?b ?h"
    by (simp_all add: request_crashes_def lamp_ota_def zero_ota_def)
  with ota_ioctl_type_safe [OF t(1) h inv w] ota_ioctl_type_safe [OF t(2) h inv w] show ?thesis by auto
qed

end
