(* ===== verification/Infra_Httpc.thy ===== *)
theory Infra_Httpc
  imports C_Strings Infra_Timer
begin

text \<open>
  The HTTP client, \<open>src/src/infra/infra_httpc.c\<close>: a request is sent in one buffer, the header of the response is
  read in small steps into an array of 1024 bytes, and its body in pieces into the buffer of the caller,
  who asks again while there is more. Builds without TLS.
\<close>

subsection \<open>Types\<close>

definition ERROR_HTTP_CONN :: int where "ERROR_HTTP_CONN = -8"
definition ERROR_HTTP_PARSE :: int where "ERROR_HTTP_PARSE = -7"
definition ERROR_HTTP_UNRESOLVED_DNS :: int where "ERROR_HTTP_UNRESOLVED_DNS = -6"
definition ERROR_HTTP :: int where "ERROR_HTTP = -4"
definition ERROR_HTTP_CLOSED :: int where "ERROR_HTTP_CLOSED = -3"
definition HTTP_RETRIEVE_MORE_DATA :: int where "HTTP_RETRIEVE_MORE_DATA = 1"

lemmas http_errors = ERROR_HTTP_CONN_def ERROR_HTTP_PARSE_def ERROR_HTTP_UNRESOLVED_DNS_def ERROR_HTTP_def ERROR_HTTP_CLOSED_def
  HTTP_RETRIEVE_MORE_DATA_def

definition HTTPCLIENT_READ_BUF_SIZE :: nat where "HTTPCLIENT_READ_BUF_SIZE = 1024"
definition HTTPCLIENT_RAED_HEAD_SIZE :: nat where "HTTPCLIENT_RAED_HEAD_SIZE = 32"
definition HTTPCLIENT_SEND_BUF_SIZE :: nat where "HTTPCLIENT_SEND_BUF_SIZE = 1024"
definition HTTPCLIENT_MAX_URL_LEN :: nat where "HTTPCLIENT_MAX_URL_LEN = 256"
definition HTTPCLIENT_CHUNK_SIZE :: nat where "HTTPCLIENT_CHUNK_SIZE = 1024"
definition MIN_TIMEOUT :: u32 where "MIN_TIMEOUT = 100"
definition MAX_RETRY_COUNT :: u32 where "MAX_RETRY_COUNT = 600"

lemmas http_sizes = HTTPCLIENT_READ_BUF_SIZE_def HTTPCLIENT_RAED_HEAD_SIZE_def HTTPCLIENT_SEND_BUF_SIZE_def HTTPCLIENT_CHUNK_SIZE_def

datatype HTTPCLIENT_REQUEST_TYPE = HTTPCLIENT_GET | HTTPCLIENT_POST | HTTPCLIENT_PUT | HTTPCLIENT_DELETE | HTTPCLIENT_HEAD

text \<open>Of the network structure in the client the handle: 0 before the connection, \<open>-1\<close> when there is none.\<close>

record httpclient_t =
  http_handle :: int
  response_code :: int
  http_header :: "cstr option"

record httpclient_data_t =
  is_more :: bool
  is_chunked :: bool
  http_retrieve_len :: int
  http_content_len :: int
  response_received_len :: int
  post_buf_len :: int
  response_buf_len :: int
  post_content_type :: "cstr option"
  post_buf :: "byte list option"
  response_buf :: "byte list option"

text \<open>
  The network below the client: the platform for the clock, for connecting and for writing, and on the side of reading a byte stream, of which
  each read takes at most so many bytes as \<open>tcp_take\<close> says for its number, \<open>tcp_reads\<close> counting the reads so far; nothing for zero (a timeout), and
  a negative number is an error. When the stream has no more bytes a read times out.
\<close>

record http_net =
  net_hal :: hal
  tcp_in :: "byte list"
  tcp_take :: "nat \<Rightarrow> int"
  tcp_reads :: nat

definition on_hal :: "(hal \<Rightarrow> 'a \<times> hal) \<Rightarrow> http_net \<Rightarrow> 'a \<times> http_net" where
  "on_hal f e = (case f (net_hal e) of (x, h) \<Rightarrow> (x, e\<lparr>net_hal := h\<rparr>))"

definition http_net_read :: "httpclient_t \<Rightarrow> nat \<Rightarrow> u32 \<Rightarrow> http_net \<Rightarrow> int \<times> byte list \<times> http_net" where
  "http_net_read c len timeout e =
     (let k = tcp_take e (tcp_reads e); e = e\<lparr>net_hal := next_tick (net_hal e), tcp_reads := tcp_reads e + 1\<rparr>
      in if http_handle c = -1 then (-1, [], e)
         else if k \<le> 0 then (k, [], e)
         else let bs = take (min len (nat k)) (tcp_in e) in (int (length bs), bs, e\<lparr>tcp_in := drop (length bs) (tcp_in e)\<rparr>))"

definition http_net_write :: "httpclient_t \<Rightarrow> byte list \<Rightarrow> u32 \<Rightarrow> http_net \<Rightarrow> int \<times> http_net" where
  "http_net_write c data timeout e =
     (if http_handle c = -1 then (-1, e\<lparr>net_hal := next_tick (net_hal e)\<rparr>) else on_hal (ipstack_write data timeout) e)"

definition http_net_connect :: "httpclient_t \<Rightarrow> http_net \<Rightarrow> int \<times> httpclient_t \<times> http_net" where
  "http_net_connect c e =
     (case on_hal ipstack_connect e of (rc, e) \<Rightarrow> if rc = 0 then (0, c\<lparr>http_handle := 1\<rparr>, e) else (-1, c\<lparr>http_handle := -1\<rparr>, e))"

definition http_net_disconnect :: "httpclient_t \<Rightarrow> http_net \<Rightarrow> httpclient_t \<times> http_net" where
  "http_net_disconnect c e =
     (if http_handle c = -1 then (c, e) else (c\<lparr>http_handle := -1\<rparr>, e\<lparr>net_hal := ipstack_disconnect (net_hal e)\<rparr>))"

subsection \<open>The request\<close>

text \<open>\<open>strstr\<close> and \<open>strchr\<close> on the text of a string: the position of the first occurrence.\<close>

fun find_text :: "cstr \<Rightarrow> cstr \<Rightarrow> nat option" where
  "find_text p [] = (if p = [] then Some 0 else None)"
| "find_text p (c # s) = (if take (length p) (c # s) = p then Some 0 else map_option Suc (find_text p s))"

text \<open>The arrays are those of the caller, cleared before.\<close>

definition utils_parse_url :: "cstr \<Rightarrow> (int \<times> cstr \<times> cstr) option" where
  "utils_parse_url url =
     (case find_text (ascii ''://'') url of
        None \<Rightarrow> Some (-1, [], [])
      | Some i \<Rightarrow>
          let host_ptr = drop (i + 3) url in
          (case find_text [0x2F] host_ptr of
             None \<Rightarrow> Some (-2, [], [])
           | Some host_len \<Rightarrow> do {
               host \<leftarrow> store_bytes (replicate HTTPCLIENT_MAX_URL_LEN 0) 0 (take host_len host_ptr @ [0]);
               path_len \<leftarrow> (case find_text [0x23] host_ptr of
                              None \<Rightarrow> Some (length (drop host_len host_ptr))
                            | Some f \<Rightarrow> if f < host_len then None else Some (f - host_len));
               path \<leftarrow> store_bytes (replicate HTTPCLIENT_MAX_URL_LEN 0) 0 (take path_len (drop host_len host_ptr) @ [0]);
               host \<leftarrow> str_of host;
               path \<leftarrow> str_of path;
               Some (SUCCESS_RETURN, host, path)
             }))"

text \<open>
  \<open>_utils_fill_tx_buffer\<close>, with the text \<open>s\<close> of \<open>buf\<close>. When the array is full it is written, and the result of
  the write, also that of a successful one, ends the function.
\<close>

partial_function (option) fill_tx_loop ::
  "httpclient_t \<Rightarrow> cstr \<Rightarrow> byte list \<Rightarrow> nat \<Rightarrow> nat \<Rightarrow> http_net \<Rightarrow> (int \<times> byte list \<times> nat \<times> http_net) option" where
  "fill_tx_loop c s send_buf idx len e = do {
     let cp_len = (if HTTPCLIENT_SEND_BUF_SIZE - idx \<ge> len then len else HTTPCLIENT_SEND_BUF_SIZE - idx);
     bs \<leftarrow> load_bytes s 0 cp_len;
     send_buf \<leftarrow> store_bytes send_buf idx bs;
     let idx = idx + cp_len;
     let len = len - cp_len;
     if idx = HTTPCLIENT_SEND_BUF_SIZE then do {
       let (ret, e) = http_net_write c send_buf 5000 e;
       if ret \<noteq> 0 then Some (ret, send_buf, idx, e)
       else if len \<noteq> 0 then fill_tx_loop c s send_buf idx len e else Some (SUCCESS_RETURN, send_buf, idx, e)
     }
     else if len \<noteq> 0 then fill_tx_loop c s send_buf idx len e else Some (SUCCESS_RETURN, send_buf, idx, e)
   }"

declare fill_tx_loop.simps [code]

definition utils_fill_tx_buffer :: "httpclient_t \<Rightarrow> cstr \<Rightarrow> byte list \<Rightarrow> nat \<Rightarrow> http_net \<Rightarrow> (int \<times> byte list \<times> nat \<times> http_net) option" where
  "utils_fill_tx_buffer c s send_buf send_idx e = do {
     (ret, send_buf, idx, e) \<leftarrow> fill_tx_loop c s send_buf send_idx (length s) e;
     Some (ret, send_buf, if ret \<noteq> 0 then send_idx else idx, e)
   }"

definition CRLF :: cstr where "CRLF = [0x0D, 0x0A]"

fun method_text :: "HTTPCLIENT_REQUEST_TYPE \<Rightarrow> cstr" where
  "method_text HTTPCLIENT_GET = ascii ''GET''"
| "method_text HTTPCLIENT_POST = ascii ''POST''"
| "method_text HTTPCLIENT_PUT = ascii ''PUT''"
| "method_text HTTPCLIENT_DELETE = ascii ''DELETE''"
| "method_text HTTPCLIENT_HEAD = ascii ''HEAD''"

definition http_send_header ::
  "httpclient_t \<Rightarrow> cstr \<Rightarrow> cstr \<Rightarrow> HTTPCLIENT_REQUEST_TYPE \<Rightarrow> httpclient_data_t \<Rightarrow> http_net \<Rightarrow> (int \<times> http_net) option" where
  "http_send_header c host path method d e = do {
     let request = method_text method @ ascii '' '' @ path @ ascii '' HTTP/1.1'' @ CRLF @ ascii ''Host: '' @ host @ CRLF;
     let buf = snd (snprintf HTTPCLIENT_SEND_BUF_SIZE request);
     (ret, send_buf, len, e) \<leftarrow> utils_fill_tx_buffer c buf (replicate HTTPCLIENT_SEND_BUF_SIZE 0) 0 e;
     if ret \<noteq> 0 then Some (ERROR_HTTP_CONN, e)
     else do {
       (_, send_buf, len, e) \<leftarrow> (case http_header c of None \<Rightarrow> Some (0, send_buf, len, e) | Some s \<Rightarrow> utils_fill_tx_buffer c s send_buf len e);
       (_, send_buf, len, e) \<leftarrow>
         (if post_buf d = None then Some (0, send_buf, len, e)
          else do {
            let buf = snd (snprintf HTTPCLIENT_SEND_BUF_SIZE (ascii ''Content-Length: '' @ print_int (post_buf_len d) @ CRLF));
            (_, send_buf, len, e) \<leftarrow> utils_fill_tx_buffer c buf send_buf len e;
            case post_content_type d of
              None \<Rightarrow> Some (0, send_buf, len, e)
            | Some t \<Rightarrow> utils_fill_tx_buffer c (snd (snprintf HTTPCLIENT_SEND_BUF_SIZE (ascii ''Content-Type: '' @ t @ CRLF))) send_buf len e
          });
       (_, send_buf, len, e) \<leftarrow> utils_fill_tx_buffer c CRLF send_buf len e;
       let (ret, e) = http_net_write c (take len send_buf) 5000 e;
       Some (if ret \<le> 0 then if ret = 0 then ERROR_HTTP_CLOSED else ERROR_HTTP_CONN else SUCCESS_RETURN, e)
     }
   }"

definition http_send_userdata :: "httpclient_t \<Rightarrow> httpclient_data_t \<Rightarrow> http_net \<Rightarrow> (int \<times> http_net) option" where
  "http_send_userdata c d e =
     (case post_buf d of
        None \<Rightarrow> Some (SUCCESS_RETURN, e)
      | Some b \<Rightarrow>
          if post_buf_len d = 0 then Some (SUCCESS_RETURN, e)
          else if post_buf_len d < 0 then None
          else do {
            bs \<leftarrow> load_bytes b 0 (nat (post_buf_len d));
            let (ret, e) = http_net_write c bs 5000 e;
            Some (if ret \<le> 0 then if ret = 0 then ERROR_HTTP_CLOSED else ERROR_HTTP_CONN else SUCCESS_RETURN, e)
          })"

definition http_send_request ::
  "httpclient_t \<Rightarrow> cstr \<Rightarrow> cstr \<Rightarrow> HTTPCLIENT_REQUEST_TYPE \<Rightarrow> httpclient_data_t \<Rightarrow> http_net \<Rightarrow> (int \<times> http_net) option" where
  "http_send_request c host path method d e =
     (if http_handle c = 0 then Some (-1, e)
      else do {
        (ret, e) \<leftarrow> http_send_header c host path method d e;
        if ret \<noteq> 0 then Some (-2, e)
        else if method = HTTPCLIENT_POST \<or> method = HTTPCLIENT_PUT then do {
          (ret, e) \<leftarrow> http_send_userdata c d e;
          Some (if ret < 0 then -3 else ret, e)
        }
        else Some (ret, e)
      })"

text \<open>Three attempts; the result is 0 also when all of them fail.\<close>

fun connect_loop :: "nat \<Rightarrow> httpclient_t \<Rightarrow> http_net \<Rightarrow> httpclient_t \<times> http_net" where
  "connect_loop 0 c e = (c, e)"
| "connect_loop (Suc n) c e =
     (case http_net_connect (c\<lparr>http_handle := 0\<rparr>) e of
        (rc, c, e) \<Rightarrow>
          if rc \<noteq> 0 then
            let (c, e) = http_net_disconnect c e in connect_loop n c (e\<lparr>net_hal := HAL_SleepMs 1000 (net_hal e)\<rparr>)
          else (c, e))"

definition httpclient_connect :: "httpclient_t \<Rightarrow> http_net \<Rightarrow> int \<times> httpclient_t \<times> http_net" where
  "httpclient_connect c e = (SUCCESS_RETURN, connect_loop 3 c e)"

definition httpclient_close :: "httpclient_t \<Rightarrow> http_net \<Rightarrow> httpclient_t \<times> http_net" where
  "httpclient_close c e =
     (let (c, e) = (if http_handle c \<noteq> 0 then http_net_disconnect c e else (c, e)) in (c\<lparr>http_handle := 0\<rparr>, e))"

text \<open>\<open>iotx_net_init\<close> notes the host and the port and clears the handle; the certificate is \<open>NULL\<close> in this build.\<close>

definition http_send ::
  "httpclient_t \<Rightarrow> cstr \<Rightarrow> HTTPCLIENT_REQUEST_TYPE \<Rightarrow> httpclient_data_t \<Rightarrow> http_net \<Rightarrow> (int \<times> httpclient_t \<times> http_net) option" where
  "http_send c url method d e = do {
     (ret, host, path) \<leftarrow> utils_parse_url url;
     if ret \<noteq> SUCCESS_RETURN then Some (ret, c, e)
     else if http_handle c \<noteq> 0 then Some (SUCCESS_RETURN, c, e)
     else do {
       let (ret, c, e) = httpclient_connect (c\<lparr>http_handle := 0\<rparr>) e;
       if ret \<noteq> 0 then (case httpclient_close c e of (c, e) \<Rightarrow> Some (ret, c, e))
       else do {
         (ret, e) \<leftarrow> http_send_request c host path method d e;
         if ret \<noteq> 0 then (case httpclient_close c e of (c, e) \<Rightarrow> Some (ret, c, e)) else Some (SUCCESS_RETURN, c, e)
       }
     }
   }"

subsection \<open>The response\<close>

definition http_recv :: "httpclient_t \<Rightarrow> nat \<Rightarrow> u32 \<Rightarrow> http_net \<Rightarrow> int \<times> byte list \<times> http_net" where
  "http_recv c max_len timeout_ms e =
     (let (timer, e) = on_hal (utils_time_countdown_ms timeout_ms) e;
          (left, e) = on_hal (iotx_time_left timer) e;
          (ret, bs, e) = http_net_read c max_len left e
      in if ret > 0 then (0, bs, e) else if ret = 0 then (FAIL_RETURN, [], e) else (ERROR_HTTP_CONN, [], e))"

text \<open>The timer may be set anew; the two counters are those of the loop that calls.\<close>

definition utils_check_deadloop ::
  "nat \<Rightarrow> iotx_time_t \<Rightarrow> int \<Rightarrow> u32 \<Rightarrow> u32 \<Rightarrow> http_net \<Rightarrow> int \<times> iotx_time_t \<times> u32 \<times> u32 \<times> http_net" where
  "utils_check_deadloop len timer ret dry_runs extended e =
     (let (left, e) = on_hal (iotx_time_left timer) e;
          (timer, extended, e) = (if left < MIN_TIMEOUT then (case on_hal (utils_time_countdown_ms MIN_TIMEOUT) e of (t, e) \<Rightarrow> (t, extended + 1, e))
                                else (timer, extended, e));
          (dry, e) = (if len = 0 then (case on_hal (iotx_time_left timer) e of (left, e) \<Rightarrow> (left = 0 \<and> ret = FAIL_RETURN, e)) else (False, e));
          dry_runs = (if dry then dry_runs + 1 else 0)
      in if dry \<and> dry_runs > MAX_RETRY_COUNT then (ERROR_HTTP_CONN, timer, dry_runs, extended, e)
         else if len = 0 \<and> extended > 2 * MAX_RETRY_COUNT \<and> ret = FAIL_RETURN then (ERROR_HTTP_CONN, timer, dry_runs, extended, e)
         else (SUCCESS_RETURN, timer, dry_runs, extended, e))"

text \<open>\<open>data\<close> is the temporary buffer of the caller; a negative count is an overrun.\<close>

definition utils_fill_rx_buf :: "nat \<Rightarrow> int \<Rightarrow> httpclient_data_t \<Rightarrow> byte list \<Rightarrow> (int \<times> nat \<times> httpclient_data_t) option" where
  "utils_fill_rx_buf cnt n d data = do {
     b \<leftarrow> response_buf d;
     if int cnt + n < response_buf_len d - 1 then
       (if n < 0 then None
        else do {
          bs \<leftarrow> load_bytes data 0 (nat n);
          b \<leftarrow> store_bytes b cnt bs;
          b \<leftarrow> store b (cnt + nat n) 0;
          Some (SUCCESS_RETURN, cnt + nat n, d\<lparr>response_buf := Some b, http_retrieve_len := http_retrieve_len d - n\<rparr>)
        })
     else
       (let m = response_buf_len d - 1 - int cnt in
        if m < 0 then None
        else do {
          bs \<leftarrow> load_bytes data 0 (nat m);
          b \<leftarrow> store_bytes b cnt bs;
          b \<leftarrow> store b (nat (response_buf_len d - 1)) 0;
          Some (HTTP_RETRIEVE_MORE_DATA, cnt, d\<lparr>response_buf := Some b, http_retrieve_len := http_retrieve_len d - m\<rparr>)
        })
   }"

text \<open>The loop of \<open>_http_get_response_body\<close>; \<open>got\<close> counts the bytes in \<open>data\<close>.\<close>

partial_function (option) body_loop ::
  "httpclient_t \<Rightarrow> byte list \<Rightarrow> int \<Rightarrow> nat \<Rightarrow> iotx_time_t \<Rightarrow> u32 \<Rightarrow> u32 \<Rightarrow> httpclient_data_t \<Rightarrow> http_net \<Rightarrow> (int \<times> httpclient_data_t \<times> http_net) option" where
  "body_loop c data got written timer dry_runs extended d e = do {
     (res, written, d) \<leftarrow> utils_fill_rx_buf written (min got (http_retrieve_len d)) d data;
     if res = HTTP_RETRIEVE_MORE_DATA then Some (HTTP_RETRIEVE_MORE_DATA, d, e)
     else if http_retrieve_len d = 0 then Some (SUCCESS_RETURN, d\<lparr>is_more := False\<rparr>, e)
     else do {
       let max_len = min (min (int HTTPCLIENT_CHUNK_SIZE - 1) (response_buf_len d - 1 - int written)) (http_retrieve_len d);
       let (left, e) = on_hal (iotx_time_left timer) e;
       if max_len < 0 then None
       else do {
         let (ret, bs, e) = http_recv c (nat max_len) left e;
         if ret = ERROR_HTTP_CONN then Some (ret, d, e)
         else do {
           data \<leftarrow> store_bytes data 0 bs;
           let (ret, timer, dry_runs, extended, e) = utils_check_deadloop (length bs) timer ret dry_runs extended e;
           if ret = ERROR_HTTP_CONN then Some (ret, d, e) else body_loop c data (int (length bs)) written timer dry_runs extended d e
         }
       }
     }
   }"

declare body_loop.simps [code]

definition http_get_response_body ::
  "httpclient_t \<Rightarrow> byte list \<Rightarrow> int \<Rightarrow> u32 \<Rightarrow> httpclient_data_t \<Rightarrow> http_net \<Rightarrow> (int \<times> httpclient_data_t \<times> http_net) option" where
  "http_get_response_body c data got timeout_ms d e = do {
     let (timer, e) = on_hal (utils_time_countdown_ms timeout_ms) e;
     let d = d\<lparr>is_more := True\<rparr>;
     if http_content_len d = -1 \<and> \<not> is_chunked d then Some (ERROR_HTTP_CONN, d, e)
     else body_loop c data got 0 timer 0 0 d e
   }"

text \<open>Reading the rest of the header. A timeout is not an error here: the loop goes on.\<close>

partial_function (option) header_loop ::
  "httpclient_t \<Rightarrow> byte list \<Rightarrow> nat \<Rightarrow> iotx_time_t \<Rightarrow> http_net \<Rightarrow> ((int + nat \<times> byte list \<times> nat) \<times> http_net) option" where
  "header_loop c data len timer e = do {
     s \<leftarrow> str_of data;
     case find_text (CRLF @ CRLF) s of
       Some i \<Rightarrow> Some (Inr (i, data, len), e)
     | None \<Rightarrow> do {
         if HTTPCLIENT_READ_BUF_SIZE \<le> len + 1 then Some (Inl ERROR_HTTP_PARSE, e)
         else do {
           let max_remain_len = min HTTPCLIENT_RAED_HEAD_SIZE (HTTPCLIENT_READ_BUF_SIZE - len - 1);
           let (left, e) = on_hal (iotx_time_left timer) e;
           let (ret, bs, e) = http_recv c max_remain_len left e;
           if ret = ERROR_HTTP_CONN then Some (Inl ret, e)
           else do {
             data \<leftarrow> store_bytes data len bs;
             data \<leftarrow> store data (len + length bs) 0;
             header_loop c data (len + length bs) timer e
           }
         }
       }
   }"

declare header_loop.simps [code]

text \<open>\<open>memmove(data, data + from, n)\<close>\<close>

definition move_down :: "byte list \<Rightarrow> nat \<Rightarrow> int \<Rightarrow> byte list option" where
  "move_down data from n = (if n < 0 then None else do { bs \<leftarrow> load_bytes data from (nat n); store_bytes data 0 bs })"

definition http_parse_response_header ::
  "httpclient_t \<Rightarrow> byte list \<Rightarrow> nat \<Rightarrow> u32 \<Rightarrow> httpclient_data_t \<Rightarrow> http_net \<Rightarrow> (int \<times> httpclient_t \<times> httpclient_data_t \<times> http_net) option" where
  "http_parse_response_header c data len timeout_ms d e = do {
     let (timer, e) = on_hal (utils_time_countdown_ms timeout_ms) e;
     let d = d\<lparr>http_content_len := -1\<rparr>;
     s \<leftarrow> str_of data;
     case find_text CRLF s of
       None \<Rightarrow> Some (ERROR_HTTP_UNRESOLVED_DNS, c, d, e)
     | Some crlf_pos \<Rightarrow> do {
         data \<leftarrow> store data crlf_pos 0;
         code \<leftarrow> str_of (drop 9 data);
         let c = c\<lparr>response_code := atoi code\<rparr>;
         data \<leftarrow> move_down data (crlf_pos + 2) (int len - (int crlf_pos + 2) + 1);
         let len = len - (crlf_pos + 2);
         let d = d\<lparr>is_chunked := False\<rparr>;
         (r, e) \<leftarrow> header_loop c data len timer e;
         case r of
           Inl err \<Rightarrow> Some (err, c, d, e)
         | Inr (body_end, data, len) \<Rightarrow> do {
             s \<leftarrow> str_of data;
             case find_text (ascii ''Content-Length'') s of
               None \<Rightarrow> Some (ERROR_HTTP, c, d, e)
             | Some i \<Rightarrow> do {
                 digits \<leftarrow> (if i + 16 < length data then str_of (drop (i + 16) data) else None);
                 let d = d\<lparr>http_content_len := atoi digits, http_retrieve_len := atoi digits\<rparr>;
                 let len = int len - (int body_end + 4);
                 data \<leftarrow> move_down data (body_end + 4) (len + 1);
                 let d = d\<lparr>response_received_len := response_received_len d + len\<rparr>;
                 let (left, e) = on_hal (iotx_time_left timer) e;
                 (ret, d, e) \<leftarrow> http_get_response_body c data len left d e;
                 Some (ret, c, d, e)
               }
           }
       }
   }"

definition httpclient_recv_response ::
  "httpclient_t \<Rightarrow> u32 \<Rightarrow> httpclient_data_t \<Rightarrow> http_net \<Rightarrow> (int \<times> httpclient_t \<times> httpclient_data_t \<times> http_net) option" where
  "httpclient_recv_response c timeout_ms d e = do {
     let (timer, e) = on_hal (utils_time_countdown_ms timeout_ms) e;
     let buf = replicate HTTPCLIENT_READ_BUF_SIZE 0;
     if http_handle c = 0 then Some (ERROR_HTTP_CONN, c, d, e)
     else if is_more d then do {
       b \<leftarrow> response_buf d;
       b \<leftarrow> store b 0 0;
       let (left, e) = on_hal (iotx_time_left timer) e;
       (ret, d, e) \<leftarrow> http_get_response_body c buf 0 left (d\<lparr>response_buf := Some b\<rparr>) e;
       Some (ret, c, d, e)
     }
     else do {
       let d = d\<lparr>is_more := True\<rparr>;
       let (left, e) = on_hal (iotx_time_left timer) e;
       let (ret, bs, e) = http_recv c HTTPCLIENT_RAED_HEAD_SIZE left e;
       if ret \<noteq> 0 then Some (ret, c, d, e)
       else do {
         buf \<leftarrow> store_bytes buf 0 bs;
         buf \<leftarrow> store buf (length bs) 0;
         if bs \<noteq> [] then do {
           let (left, e) = on_hal (iotx_time_left timer) e;
           http_parse_response_header c buf (length bs) left d e
         }
         else Some (ret, c, d, e)
       }
     }
   }"

definition httpclient_common ::
  "httpclient_t \<Rightarrow> cstr \<Rightarrow> HTTPCLIENT_REQUEST_TYPE \<Rightarrow> u32 \<Rightarrow> httpclient_data_t \<Rightarrow> http_net \<Rightarrow>
     (int \<times> httpclient_t \<times> httpclient_data_t \<times> http_net) option" where
  "httpclient_common c url method timeout_ms d e = do {
     (ret, c, e) \<leftarrow> http_send c url method d e;
     if ret \<noteq> SUCCESS_RETURN then Some (ret, c, d, e)
     else do {
       let (timer, e) = on_hal (utils_time_countdown_ms timeout_ms) e;
       (ret, c, d, e) \<leftarrow>
         (if response_buf d \<noteq> None \<and> response_buf_len d \<noteq> 0 then do {
            let (left, e) = on_hal (iotx_time_left timer) e;
            httpclient_recv_response c left d e
          }
          else Some (ret, c, d, e));
       if ret < 0 then (case httpclient_close c e of (c, e) \<Rightarrow> Some (ret, c, d, e))
       else if \<not> is_more d then (case httpclient_close c e of (c, e) \<Rightarrow> Some (0, c, d, e))
       else Some (0, c, d, e)
     }
   }"

definition iotx_post :: "httpclient_t \<Rightarrow> cstr \<Rightarrow> httpclient_data_t \<Rightarrow> http_net \<Rightarrow> (int \<times> httpclient_t \<times> http_net) option" where
  "iotx_post c url d e = http_send c url HTTPCLIENT_POST d e"

end
