(* ===== verification/Httpc_Stream.thy ===== *)
theory Httpc_Stream
  imports Infra_Httpc
begin

text \<open>
  What the HTTP client does with a byte stream: the request it sends, and how it finds the header and
  the length in a response and hands its content on in pieces. The stream may be cut into reads in any way as long as the first
  read brings the whole status line and no read times out.
\<close>

subsection \<open>Searching\<close>

lemma take_fits:
  assumes "take n xs = p" "n = length p"
  shows "length p \<le> length xs"
proof -
  have "min (length xs) n = length p" using arg_cong [OF assms(1), of length] by (simp only: length_take)
  then show ?thesis using assms(2) by linarith
qed

lemma find_text_bound: "find_text p s = Some i \<Longrightarrow> i + length p \<le> length s \<and> take (length p) (drop i s) = p"
proof (induction s arbitrary: i)
  case Nil
  then show ?case by (simp split: if_splits)
next
  case (Cons c s)
  show ?case
  proof (cases "take (length p) (c # s) = p")
    case True
    with Cons.prems take_fits [OF True] show ?thesis by simp
  next
    case False
    with Cons show ?thesis by auto
  qed
qed

lemma find_text_append: "find_text p s = Some i \<Longrightarrow> find_text p (s @ x) = Some i"
proof (induction s arbitrary: i)
  case Nil
  then show ?case by (cases x) (auto split: if_splits)
next
  case (Cons c s)
  have "length p \<le> length (c # s)" using find_text_bound [OF Cons.prems] by simp
  then have "take (length p) ((c # s) @ x) = take (length p) (c # s)" unfolding take_append by simp
  with Cons show ?case by (auto split: if_splits)
qed

lemma find_text_take: "find_text p s = Some i \<Longrightarrow> n < i + length p \<Longrightarrow> find_text p (take n s) = None"
proof (induction s arbitrary: i n)
  case Nil
  then show ?case by (simp split: if_splits)
next
  case (Cons c s)
  show ?case
  proof (cases n)
    case 0
    then have "p \<noteq> []" using Cons.prems by (auto split: if_splits)
    with 0 show ?thesis by simp
  next
    case (Suc m)
    show ?thesis
    proof (cases "take (length p) (c # s) = p")
      case True
      then have "i = 0" using Cons.prems(1) by simp
      then have "length (take (length p) (take n (c # s))) < length p" using Cons.prems(2) by simp
      then have "take (length p) (take n (c # s)) \<noteq> p" by (metis less_irrefl)
      moreover have "find_text p (take m s) = None" if "m < length p" for m :: nat
        using that find_text_bound [of p "take m s"] by (cases "find_text p (take m s)") fastforce+
      ultimately show ?thesis using \<open>i = 0\<close> Cons.prems(2) Suc by simp
    next
      case False
      then obtain j where j: "i = Suc j" "find_text p s = Some j" using Cons.prems(1) by auto
      have "take (length p) (take n (c # s)) \<noteq> p"
      proof
        assume a: "take (length p) (take n (c # s)) = p"
        then have "length p \<le> n" using take_fits [OF a] by simp
        then have "take (length p) (take n (c # s)) = take (length p) (c # s)" by (simp add: min_def)
        with a False show False by simp
      qed
      then show ?thesis using Cons.IH [OF j(2), of m] Cons.prems(2) j(1) Suc by simp
    qed
  qed
qed

text \<open>An array with the bytes \<open>s\<close> and a terminator behind them.\<close>

lemma str_of_terminated: "str_of (s @ 0 # z) = Some (takeWhile (\<lambda>b. b \<noteq> 0) s)"
proof -
  have "takeWhile (\<lambda>b. b \<noteq> 0) (s @ 0 # z) = takeWhile (\<lambda>b. b \<noteq> 0) s"
    by (induction s) auto
  moreover have "take (length (takeWhile (\<lambda>b. b \<noteq> 0) s)) (s @ 0 # z) = takeWhile (\<lambda>b. b \<noteq> 0) s"
    by (induction s) auto
  moreover have "length (takeWhile (\<lambda>b. b \<noteq> 0) s) \<le> length s" by (rule length_takeWhile_le)
  ultimately show ?thesis by (simp add: str_of_def strlen_def load_bytes_def)
qed

lemma takeWhile_text_prefix: "text_ok s \<Longrightarrow> takeWhile (\<lambda>b. b \<noteq> 0) (s @ x) = s @ takeWhile (\<lambda>b. b \<noteq> 0) x"
  by (induction s) auto

subsection \<open>Reading\<close>

text \<open>Platform calls for the time leave the stream alone.\<close>

definition same_stream :: "http_net \<Rightarrow> http_net \<Rightarrow> bool" where
  "same_stream e e' \<longleftrightarrow> tcp_in e' = tcp_in e \<and> tcp_take e' = tcp_take e \<and> tcp_reads e' = tcp_reads e"

lemma on_hal_stream [simp]: "tcp_in (snd (on_hal f e)) = tcp_in e" "tcp_take (snd (on_hal f e)) = tcp_take e"
  "tcp_reads (snd (on_hal f e)) = tcp_reads e"
  by (simp_all add: on_hal_def split: prod.split)

lemma take_length_take: "take (length (take k xs)) xs = take k xs"
  by (cases "k \<le> length xs") (simp_all add: min_absorb1 min_absorb2)

lemma http_recv_some:
  assumes "http_handle c \<noteq> -1" "\<forall>t. 0 < tcp_take e t" "0 < n" "tcp_in e \<noteq> []"
  obtains bs e' where "http_recv c n timeout e = (0, bs, e')" "take (length bs) (tcp_in e) = bs" "bs \<noteq> []" "length bs \<le> n"
    "tcp_in e' = drop (length bs) (tcp_in e)" "tcp_take e' = tcp_take e" "int m \<le> tcp_take e (tcp_reads e) \<longrightarrow> min (min n m) (length (tcp_in e)) \<le> length bs"
proof -
  obtain timer e1 where e1: "on_hal (utils_time_countdown_ms timeout) e = (timer, e1)" by fastforce
  obtain left e2 where e2: "on_hal (iotx_time_left timer) e1 = (left, e2)" by fastforce
  have s: "tcp_in e2 = tcp_in e" "tcp_take e2 = tcp_take e" "tcp_reads e2 = tcp_reads e"
    using on_hal_stream [of "utils_time_countdown_ms timeout" e] on_hal_stream [of "iotx_time_left timer" e1] by (simp_all add: e1 e2)
  define k where "k = tcp_take e (tcp_reads e)"
  have k: "0 < k" using assms(2) by (simp add: k_def)
  define bs where "bs = take (min n (nat k)) (tcp_in e)"
  define e3 where "e3 = e2\<lparr>net_hal := next_tick (net_hal e2), tcp_reads := tcp_reads e + 1, tcp_in := drop (length bs) (tcp_in e)\<rparr>"
  have bs: "bs \<noteq> []" using assms(3,4) k by (simp add: bs_def)
  have "http_recv c n timeout e = (0, bs, e3)"
    using bs k assms(1) by (simp add: http_recv_def e1 e2 http_net_read_def s k_def [symmetric] Let_def bs_def [symmetric] e3_def)
  moreover have "take (length bs) (tcp_in e) = bs" unfolding bs_def by (rule take_length_take)
  moreover have "min (min n m) (length (tcp_in e)) \<le> length bs" if "int m \<le> tcp_take e (tcp_reads e)"
  proof -
    have "int m \<le> k" using that by (simp add: k_def)
    then have "m \<le> nat k" by linarith
    then show ?thesis unfolding bs_def length_take by linarith
  qed
  ultimately show ?thesis using that [of bs e3] bs by (simp add: e3_def s bs_def)
qed

lemma check_deadloop_some:
  assumes "0 < n"
  obtains timer' dry' ext' e' where "utils_check_deadloop n timer ret dry ext e = (SUCCESS_RETURN, timer', dry', ext', e')" "same_stream e e'"
proof -
  obtain left e1 where e1: "on_hal (iotx_time_left timer) e = (left, e1)" by fastforce
  obtain t e2 where e2: "on_hal (utils_time_countdown_ms MIN_TIMEOUT) e1 = (t, e2)" by fastforce
  have "same_stream e e1" "same_stream e e2"
    using on_hal_stream [of "iotx_time_left timer" e] on_hal_stream [of "utils_time_countdown_ms MIN_TIMEOUT" e1]
    by (simp_all add: e1 e2 same_stream_def)
  then show ?thesis
    using assms that [of t 0 "ext + 1" e2] that [of timer 0 ext e1] by (cases "left < MIN_TIMEOUT") (simp_all add: utils_check_deadloop_def e1 e2)
qed

text \<open>The data without what the loop changes.\<close>

definition same_setup :: "httpclient_data_t \<Rightarrow> httpclient_data_t \<Rightarrow> bool" where
  "same_setup d d' \<longleftrightarrow> http_content_len d' = http_content_len d \<and> is_chunked d' = is_chunked d \<and> response_buf_len d' = response_buf_len d"

lemma same_setup_simps [simp]: "same_setup d d" "same_setup d (d'\<lparr>http_retrieve_len := x\<rparr>) = same_setup d d'"
  "same_setup d (d'\<lparr>response_buf := y\<rparr>) = same_setup d d'" "same_setup d (d'\<lparr>is_more := z\<rparr>) = same_setup d d'"
  by (simp_all add: same_setup_def)

lemma same_setup_trans: "same_setup a b \<Longrightarrow> same_setup b c \<Longrightarrow> same_setup a c"
  by (simp add: same_setup_def)

lemma fill_rx_fits:
  assumes "response_buf d = Some b" "length b = B + 1" "response_buf_len d = int B + 1" "length x \<le> length data" "take (length x) data = x"
    "cnt + length x \<le> B"
  shows "utils_fill_rx_buf cnt (int (length x)) d data =
     Some (if cnt + length x < B then SUCCESS_RETURN else HTTP_RETRIEVE_MORE_DATA, if cnt + length x < B then cnt + length x else cnt,
       d\<lparr>response_buf := Some ((blit b cnt x)[cnt + length x := 0]), http_retrieve_len := http_retrieve_len d - int (length x)\<rparr>)"
proof (cases "cnt + length x < B")
  case True
  then show ?thesis using assms by (simp add: utils_fill_rx_buf_def load_bytes_def store_bytes_def store_def)
next
  case False
  then have eq: "B = cnt + length x" using assms(6) by simp
  have "nat (int B + 1 - 1 - int cnt) = length x" "nat (int B + 1 - 1) = cnt + length x" using eq by simp_all
  then show ?thesis
    using assms eq by (simp add: utils_fill_rx_buf_def load_bytes_def store_bytes_def store_def)
qed


text \<open>A round of the loop over the body that asks the network for more.\<close>

lemma body_round:
  assumes c: "http_handle c \<noteq> -1" and e: "\<forall>t. 0 < tcp_take e t" "tcp_in e = rest @ tail" "rest \<noteq> []"
    and fill: "utils_fill_rx_buf written (min got (http_retrieve_len d)) d data = Some (SUCCESS_RETURN, w, d1)"
    and d1: "w < B" "response_buf_len d1 = int B + 1" "http_retrieve_len d1 = int (length rest)" "length data = 1024"
  obtains bs t' y z e' where "body_loop c data got written timer dry ext d e = body_loop c (blit data 0 bs) (int (length bs)) w t' y z d1 e'"
    "take (length bs) rest = bs" "bs \<noteq> []" "length bs \<le> 1023" "length bs \<le> B - w" "length bs \<le> length rest"
    "tcp_in e' = drop (length bs) rest @ tail" "tcp_take e' = tcp_take e"
proof -
  let ?max = "min (min (int HTTPCLIENT_CHUNK_SIZE - 1) (response_buf_len d1 - 1 - int w)) (http_retrieve_len d1)"
  obtain left e1 where e1: "on_hal (iotx_time_left timer) e = (left, e1)" by fastforce
  have s1: "tcp_in e1 = rest @ tail" "tcp_take e1 = tcp_take e"
    using on_hal_stream [of "iotx_time_left timer" e] e(2) by (simp_all add: e1)
  have max: "0 < nat ?max" "nat ?max \<le> 1023" "nat ?max \<le> B - w" "nat ?max \<le> length rest" "\<not> ?max < 0"
    using d1 e(3) by (simp_all add: HTTPCLIENT_CHUNK_SIZE_def nat_le_iff)
  have pre: "\<forall>t. 0 < tcp_take e1 t" "tcp_in e1 \<noteq> []" using s1 e by simp_all
  obtain bs e2 where r: "http_recv c (nat ?max) left e1 = (0, bs, e2)" "take (length bs) (tcp_in e1) = bs" "bs \<noteq> []" "length bs \<le> nat ?max"
      "tcp_in e2 = drop (length bs) (tcp_in e1)" "tcp_take e2 = tcp_take e1"
    by (rule http_recv_some [OF c pre(1) max(1) pre(2)])
  have lens: "length bs \<le> 1023" "length bs \<le> B - w" "length bs \<le> length rest" using r(4) max(2-4) le_trans by blast+
  have bs: "take (length bs) rest = bs" using r(2) lens(3) by (simp add: s1(1))
  obtain t' y z e3 where dl: "utils_check_deadloop (length bs) timer 0 dry ext e2 = (SUCCESS_RETURN, t', y, z, e3)" "same_stream e2 e3"
    using check_deadloop_some [of "length bs"] r(3) by (metis length_greater_0_conv)
  have "http_retrieve_len d1 \<noteq> 0" using d1(3) e(3) by simp
  then have "body_loop c data got written timer dry ext d e = body_loop c (blit data 0 bs) (int (length bs)) w t' y z d1 e3"
    unfolding body_loop.simps [of c data got written] fill Option.bind.simps prod.case using max(5) r(1) dl(1) e1 d1(4) lens(1)
    by (simp add: Let_def store_bytes_def http_errors return_code_defs)
  then show ?thesis
    using that [OF _ bs r(3) lens] dl(2) r(5,6) s1 lens(3) by (simp add: same_stream_def)
qed

text \<open>
  The loop over the body: \<open>x\<close> is what has been read and not yet copied, \<open>rest\<close> what is still in the stream. It ends when the
  buffer is full or the content complete, with the next bytes of the content in the buffer.
\<close>

lemma body_loop_delivers:
  assumes c: "http_handle c \<noteq> -1" and e: "\<forall>t. 0 < tcp_take e t" "tcp_in e = rest @ tail"
    and d: "response_buf d = Some b" "length b = B + 1" "response_buf_len d = int B + 1" "http_retrieve_len d = int (length (x @ rest))"
    and x: "length data = 1024" "take (length x) data = x" "length x \<le> 1024" "written + length x \<le> B" "written < B"
  shows "\<exists>ret d' e' b'. body_loop c data (int (length x)) written timer dry ext d e = Some (ret, d', e') \<and> 0 \<le> ret \<and>
     response_buf d' = Some b' \<and> length b' = B + 1 \<and>
     take (written + min (B - written) (length (x @ rest))) b' = take written b @ take (B - written) (x @ rest) \<and>
     http_retrieve_len d' = int (length (x @ rest) - (B - written)) \<and>
     tcp_in e' = drop (B - written - length x) rest @ tail \<and> tcp_take e' = tcp_take e \<and> same_setup d d' \<and>
     (is_more d' \<longleftrightarrow> is_more d \<and> B \<le> written + length (x @ rest))"
  using assms
proof (induction rest arbitrary: e d b x data written timer dry ext rule: measure_induct_rule [of length])
  case (less rest)
  define b1 where "b1 = (blit b written x)[written + length x := 0]"
  define d1 where "d1 = d\<lparr>response_buf := Some b1, http_retrieve_len := int (length rest)\<rparr>"
  have le: "length x \<le> length data" using less.prems(8,10) by simp
  have fill: "utils_fill_rx_buf written (min (int (length x)) (http_retrieve_len d)) d data =
      Some (if written + length x < B then SUCCESS_RETURN else HTTP_RETRIEVE_MORE_DATA, if written + length x < B then written + length x else written, d1)"
    using fill_rx_fits [OF less.prems(4-6) le less.prems(9,11)] less.prems(7) by (simp add: d1_def b1_def min_def)
  have b1: "length b1 = B + 1" "take (written + length x) b1 = take written b @ x"
    using less.prems(5,11) by (simp_all add: b1_def blit_def)
  note step = body_loop.simps [of c data "int (length x)" written timer dry ext d e, unfolded fill Option.bind.simps prod.case]
  show ?case
  proof (cases "written + length x < B")
    case False
    then have eq: "B = written + length x" using less.prems(11) by simp
    have "body_loop c data (int (length x)) written timer dry ext d e = Some (HTTP_RETRIEVE_MORE_DATA, d1, e)"
      unfolding step using False by simp
    then show ?thesis
      using b1 less.prems(3) eq by (simp add: d1_def HTTP_RETRIEVE_MORE_DATA_def)
  next
    case more: True
    show ?thesis
    proof (cases "rest = []")
      case True
      have "body_loop c data (int (length x)) written timer dry ext d e = Some (SUCCESS_RETURN, d1\<lparr>is_more := False\<rparr>, e)"
        unfolding step using more True by (simp add: d1_def SUCCESS_RETURN_def HTTP_RETRIEVE_MORE_DATA_def)
      then show ?thesis
        using b1 less.prems(3) more True by (simp add: d1_def SUCCESS_RETURN_def)
    next
      case False
      let ?w = "written + length x"
      have fill': "utils_fill_rx_buf written (min (int (length x)) (http_retrieve_len d)) d data = Some (SUCCESS_RETURN, ?w, d1)"
        using fill more by simp
      have len1: "response_buf_len d1 = int B + 1" "http_retrieve_len d1 = int (length rest)" using less.prems(6) by (simp_all add: d1_def)
      obtain bs t' y z e3 where run: "body_loop c data (int (length x)) written timer dry ext d e =
          body_loop c (blit data 0 bs) (int (length bs)) ?w t' y z d1 e3"
        and bs: "take (length bs) rest = bs" "bs \<noteq> []" "length bs \<le> 1023" "length bs \<le> B - ?w" "length bs \<le> length rest"
        and in3: "tcp_in e3 = drop (length bs) rest @ tail" "tcp_take e3 = tcp_take e"
        by (rule body_round [OF less.prems(1-3) False fill' more len1 less.prems(8)])
      have e3: "\<forall>t. 0 < tcp_take e3 t" using in3 less.prems(2) by simp
      have d1: "response_buf d1 = Some b1" "response_buf_len d1 = int B + 1" "http_retrieve_len d1 = int (length (bs @ drop (length bs) rest))"
        using less.prems(6) bs(5) by (simp_all add: d1_def)
      have w: "length (blit data 0 bs) = 1024" "take (length bs) (blit data 0 bs) = bs" "length bs \<le> 1024" "?w + length bs \<le> B" "?w < B"
        using less.prems(8) bs(3,4) more by (simp_all add: blit_def)
      have shorter: "length (drop (length bs) rest) < length rest" using bs(2) False by simp
      have all: "bs @ drop (length bs) rest = rest" using bs(1) by (metis append_take_drop_id)
      obtain ret d' e' b' where ih: "body_loop c (blit data 0 bs) (int (length bs)) ?w t' y z d1 e3 = Some (ret, d', e')" "0 \<le> ret"
          "response_buf d' = Some b'" "length b' = B + 1" "take (?w + min (B - ?w) (length rest)) b' = take ?w b1 @ take (B - ?w) rest"
          "http_retrieve_len d' = int (length rest - (B - ?w))" "tcp_in e' = drop (B - ?w - length bs) (drop (length bs) rest) @ tail"
          "tcp_take e' = tcp_take e3" "same_setup d1 d'" "is_more d' \<longleftrightarrow> is_more d1 \<and> B \<le> ?w + length rest"
        using less.IH [OF shorter less.prems(1) e3 in3(1) d1(1) b1(1) d1(2,3) w] unfolding all by blast
      have "written + min (B - written) (length (x @ rest)) = ?w + min (B - ?w) (length rest)" "length (x @ rest) - (B - written) = length rest - (B - ?w)"
        "B - ?w - length bs + length bs = B - written - length x" using more w(4) by auto
      moreover have "take (B - written) (x @ rest) = x @ take (B - ?w) rest" using more by simp
      moreover have "same_setup d d'" using ih(9) by (simp add: d1_def same_setup_def)
      moreover have "is_more d1 = is_more d" by (simp add: d1_def)
      ultimately show ?thesis
        unfolding run using ih b1(2) in3(2) by (simp add: add.assoc)
    qed
  qed
qed

subsection \<open>The header\<close>

lemma digit_byte: "m < 10 \<Longrightarrow> digit_char (of_nat m + 0x30)" "m < 10 \<Longrightarrow> uint (of_nat m + 0x30 :: byte) = int m + 48"
proof -
  assume "m < 10"
  then have "m \<in> {0, 1, 2, 3, 4, 5, 6, 7, 8, 9}" by auto
  then show "digit_char (of_nat m + 0x30)" "uint (of_nat m + 0x30 :: byte) = int m + 48" by (auto simp: digit_char_def)
qed

lemma digits_value_dec: "digits_value 0 (dec_digits n @ s) = digits_value (int n) s"
proof (induction n arbitrary: s rule: dec_digits.induct)
  case (1 n)
  show ?case
  proof (cases "n < 10")
    case True
    then show ?thesis by (simp add: dec_digits.simps [of n] digit_byte)
  next
    case False
    have "int (n div 10) * 10 + int (n mod 10) = int n" by presburger
    then show ?thesis using False 1 [of "(of_nat (n mod 10) + 0x30) # s"] by (simp add: dec_digits.simps [of n] digit_byte)
  qed
qed

lemma atoi_dec: "s = [] \<or> \<not> digit_char (hd s) \<Longrightarrow> atoi (dec_digits n @ s) = int n"
proof -
  assume s: "s = [] \<or> \<not> digit_char (hd s)"
  obtain m cs where m: "m < 10" "dec_digits n = (of_nat m + 0x30) # cs" using dec_digits_head by blast
  have "b \<noteq> 0x2D \<and> b \<noteq> 0x2B \<and> \<not> space_char b" if "digit_char b" for b
    using that by (auto simp: digit_char_def space_char_def word_le_nat_alt)
  from this [OF digit_byte(1) [OF m(1)]] have "\<not> space_char (of_nat m + 0x30)" "(of_nat m + 0x30 :: byte) \<noteq> 0x2D" "(of_nat m + 0x30 :: byte) \<noteq> 0x2B"
    by blast+
  then have "atoi (dec_digits n @ s) = digits_value 0 (dec_digits n @ s)" by (simp add: atoi_def m(2))
  also have "\<dots> = int n" unfolding digits_value_dec using s by (cases s) auto
  finally show ?thesis .
qed

lemma text_ok_dec: "text_ok (dec_digits n)"
proof (induction n rule: dec_digits.induct)
  case (1 n)
  have z: "(of_nat m + 0x30 :: byte) \<noteq> 0" if "m < 10" for m using digit_byte(1) [OF that] by (auto simp: digit_char_def)
  show ?case using 1 z [of n] z [of "n mod 10"] by (auto simp: dec_digits.simps [of n] text_ok_def)
qed

text \<open>
  Reading the header: the array holds the first \<open>len\<close> bytes of the stream, of which the header \<open>H\<close> is the part before an empty line.
\<close>

definition array_with :: "byte list \<Rightarrow> byte list \<Rightarrow> bool" where
  "array_with data s \<longleftrightarrow> length data = 1024 \<and> (\<exists>z. data = s @ 0 # z)"

lemma array_with_str: "array_with data s \<Longrightarrow> str_of data = Some (takeWhile (\<lambda>b. b \<noteq> 0) s)"
  by (auto simp: array_with_def str_of_terminated)

lemma array_with_extend:
  assumes "array_with data s" "length s + length bs < 1024"
  shows "\<exists>data'. store_bytes data (length s) bs = Some data' \<and> length data' = 1024 \<and>
    store data' (length s + length bs) 0 = Some (data'[length s + length bs := 0]) \<and> array_with (data'[length s + length bs := 0]) (s @ bs)"
proof -
  have l: "length data = 1024" and s: "take (length s) data = s" using assms(1) by (auto simp: array_with_def)
  let ?d = "blit data (length s) bs"
  have d: "length ?d = 1024" "take (length s + length bs) ?d = s @ bs" using assms(2) l s by (simp_all add: blit_def)
  have "?d[length s + length bs := 0] = (s @ bs) @ 0 # drop (Suc (length s + length bs)) ?d"
    unfolding upd_conv_take_nth_drop [of "length s + length bs" ?d 0, unfolded d(1), OF assms(2)] d(2) ..
  then show ?thesis using d assms(2) l by (auto simp: array_with_def store_bytes_def store_def)
qed

lemma find_end:
  assumes "find_text p (H @ p) = Some (length H)" "text_ok (H @ p)"
  shows "find_text p (takeWhile (\<lambda>b. b \<noteq> 0) (take len (H @ p @ content))) = (if length H + length p \<le> len then Some (length H) else None)"
proof (cases "length H + length p \<le> len")
  case True
  then have "take len (H @ p @ content) = (H @ p) @ take (len - length (H @ p)) content" by simp
  then show ?thesis using True takeWhile_text_prefix [OF assms(2)] find_text_append [OF assms(1)] by simp
next
  case False
  then have t: "take len (H @ p @ content) = take len (H @ p)" by simp
  have w: "takeWhile (\<lambda>b. b \<noteq> 0) (take len (H @ p)) = take len (H @ p)"
    using assms(2) by (auto simp: text_ok_def takeWhile_eq_all_conv dest: in_set_takeD)
  show ?thesis using False find_text_take [OF assms(1), of len] unfolding t w by simp
qed

lemma header_loop_reads:
  assumes c: "http_handle c \<noteq> -1" and e: "\<forall>t. 0 < tcp_take e t" "tcp_in e = drop len T"
    and T: "T = H @ (CRLF @ CRLF) @ content" "find_text (CRLF @ CRLF) (H @ CRLF @ CRLF) = Some (length H)" "text_ok H" "length H + 4 \<le> 1023"
    and d: "array_with data (take len T)" "len \<le> length T" "len \<le> length H + 36"
  shows "\<exists>data' len' e'. header_loop c data len timer e = Some (Inr (length H, data', len'), e') \<and> array_with data' (take len' T) \<and>
     length H + 4 \<le> len' \<and> len' \<le> length H + 36 \<and> len' \<le> length T \<and> tcp_in e' = drop len' T \<and> tcp_take e' = tcp_take e"
  using e d
proof (induction "length T - len" arbitrary: len data e rule: less_induct)
  case less
  let ?p = "CRLF @ CRLF"
  have p: "length ?p = 4" "text_ok (H @ ?p)" using T(3) by (simp_all add: CRLF_def text_ok_def)
  have s: "str_of data = Some (takeWhile (\<lambda>b. b \<noteq> 0) (take len T))" by (rule array_with_str [OF less.prems(3)])
  note found = find_end [OF T(2) p(2), of len content, folded T(1), unfolded p(1)]
  show ?case
  proof (cases "length H + 4 \<le> len")
    case True
    then have "header_loop c data len timer e = Some (Inr (length H, data, len), e)"
      by (subst header_loop.simps) (simp add: s found)
    then show ?thesis using True less.prems by blast
  next
    case False
    let ?max = "min HTTPCLIENT_RAED_HEAD_SIZE (HTTPCLIENT_READ_BUF_SIZE - len - 1)"
    obtain left e1 where e1: "on_hal (iotx_time_left timer) e = (left, e1)" by fastforce
    have s1: "tcp_in e1 = drop len T" "tcp_take e1 = tcp_take e"
      using on_hal_stream [of "iotx_time_left timer" e] less.prems(2) by (simp_all add: e1)
    have lT: "length T = length H + 4 + length content" using T(1) by (simp add: CRLF_def)
    have max: "0 < ?max" "?max \<le> 32" "?max \<le> 1023 - len" using False T(4) by (simp_all add: http_sizes)
    have pre: "\<forall>t. 0 < tcp_take e1 t" "tcp_in e1 \<noteq> []" using s1 less.prems(1) False lT by simp_all
    obtain bs e2 where r: "http_recv c ?max left e1 = (0, bs, e2)" "take (length bs) (tcp_in e1) = bs" "bs \<noteq> []" "length bs \<le> ?max"
        "tcp_in e2 = drop (length bs) (tcp_in e1)" "tcp_take e2 = tcp_take e1"
      by (rule http_recv_some [OF c pre(1) max(1) pre(2)])
    have "length bs \<le> length (drop len T)" using r(2) s1(1) by (metis take_fits)
    then have l: "length bs \<le> 32" "len + length bs < 1024" "length (take len T) = len" "len + length bs \<le> length T"
      using r(4) max False T(4) less.prems(4) by auto
    have cat: "take len T @ bs = take (len + length bs) T" using r(2) unfolding s1(1) take_add by simp
    obtain data' where data': "store_bytes data len bs = Some data'" "store data' (len + length bs) 0 = Some (data'[len + length bs := 0])"
        "array_with (data'[len + length bs := 0]) (take (len + length bs) T)"
      using array_with_extend [OF less.prems(3), of bs] l(2) unfolding l(3) cat by blast
    have dec: "length T - (len + length bs) < length T - len" using r(3) l(4) False lT by (cases bs) auto
    have in2: "tcp_in e2 = drop (len + length bs) T" "\<forall>t. 0 < tcp_take e2 t" using r(5,6) s1 less.prems(1) by (simp_all add: add.commute)
    have "header_loop c data len timer e = header_loop c (data'[len + length bs := 0]) (len + length bs) timer e2"
      using False T(4) r(1) data' e1 by (subst header_loop.simps) (simp add: s found http_sizes http_errors)
    moreover have "len + length bs \<le> length H + 36" using l(1) False by simp
    ultimately show ?thesis using less.hyps [OF dec in2(2,1) data'(3) l(4)] r(6) s1(2) by simp
  qed
qed

subsection \<open>A response\<close>

text \<open>
  The bytes of a response the client can take: a status line of at most 30 characters, a header of at most 1019 bytes whose first line
  with \<open>Content-Length\<close> tells the length of the content in the usual form, an empty line, and the content.
\<close>

definition http_response :: "cstr \<Rightarrow> cstr \<Rightarrow> byte list \<Rightarrow> bool" where
  "http_response status header content \<longleftrightarrow>
     text_ok status \<and> 9 \<le> length status \<and> length status \<le> 30 \<and> find_text CRLF (status @ CRLF) = Some (length status) \<and>
     text_ok header \<and> length header \<le> 1019 \<and> find_text (CRLF @ CRLF) (header @ CRLF @ CRLF) = Some (length header) \<and>
     (\<exists>H1 H2. header = H1 @ ascii ''Content-Length: '' @ dec_digits (length content) @ H2 \<and> (H2 = [] \<or> \<not> digit_char (hd H2)) \<and>
        find_text (ascii ''Content-Length'') (H1 @ ascii ''Content-Length'') = Some (length H1))"

definition response_bytes :: "cstr \<Rightarrow> cstr \<Rightarrow> byte list \<Rightarrow> byte list" where
  "response_bytes status header content = status @ CRLF @ header @ (CRLF @ CRLF) @ content"

text \<open>The client's buffer and counters when the bytes \<open>rest\<close> of the content were still to come and a call has brought the next of them.\<close>

definition delivered :: "nat \<Rightarrow> nat \<Rightarrow> byte list \<Rightarrow> httpclient_data_t \<Rightarrow> http_net \<Rightarrow> bool" where
  "delivered B N rest d e \<longleftrightarrow> (\<exists>b. response_buf d = Some b \<and> length b = B + 1 \<and> take (min B (length rest)) b = take B rest) \<and>
     http_content_len d = int N \<and> http_retrieve_len d = int (length rest - B) \<and> response_buf_len d = int B + 1 \<and>
     tcp_in e = drop B rest \<and> (is_more d \<longleftrightarrow> B \<le> length rest)"

definition buffer_of :: "nat \<Rightarrow> httpclient_data_t \<Rightarrow> bool" where
  "buffer_of B d \<longleftrightarrow> (\<exists>b. response_buf d = Some b \<and> length b = B + 1) \<and> response_buf_len d = int B + 1"

lemma body_delivers:
  assumes c: "http_handle c \<noteq> -1" and e: "\<forall>t. 0 < tcp_take e t" "tcp_in e = drop (length x) rest"
    and d: "buffer_of B d" "http_retrieve_len d = int (length rest)" "http_content_len d = int N" "0 < B"
    and x: "length data = 1024" "take (length x) data = x" "length x \<le> 1024" "length x \<le> B" "take (length x) rest = x"
  shows "\<exists>ret d' e'. http_get_response_body c data (int (length x)) timeout d e = Some (ret, d', e') \<and> 0 \<le> ret \<and>
     delivered B N rest d' e' \<and> tcp_take e' = tcp_take e"
proof -
  obtain b where b: "response_buf d = Some b" "length b = B + 1" "response_buf_len d = int B + 1" using d(1) by (auto simp: buffer_of_def)
  obtain timer e1 where e1: "on_hal (utils_time_countdown_ms timeout) e = (timer, e1)" by fastforce
  have s1: "tcp_in e1 = drop (length x) rest @ []" "tcp_take e1 = tcp_take e"
    using on_hal_stream [of "utils_time_countdown_ms timeout" e] e(2) by (simp_all add: e1)
  let ?d = "d\<lparr>is_more := True\<rparr>"
  have all: "x @ drop (length x) rest = rest" using x(5) by (metis append_take_drop_id)
  have "\<forall>t. 0 < tcp_take e1 t" using e(1) s1(2) by simp
  moreover have "http_retrieve_len ?d = int (length (x @ drop (length x) rest))" unfolding all using d(2) by simp
  moreover have "response_buf ?d = Some b" "response_buf_len ?d = int B + 1" "0 + length x \<le> B" using b x(4) by simp_all
  ultimately obtain ret d' e' b' where r: "body_loop c data (int (length x)) 0 timer 0 0 ?d e1 = Some (ret, d', e')" "0 \<le> ret"
      "response_buf d' = Some b'" "length b' = B + 1" "take (0 + min (B - 0) (length rest)) b' = take 0 b @ take (B - 0) rest"
      "http_retrieve_len d' = int (length rest - (B - 0))" "tcp_in e' = drop (B - 0 - length x) (drop (length x) rest) @ []" "tcp_take e' = tcp_take e1"
      "same_setup ?d d'" "is_more d' \<longleftrightarrow> is_more ?d \<and> B \<le> 0 + length rest"
    using body_loop_delivers [OF c _ s1(1) _ b(2) _ _ x(1-3), where d = ?d and written = 0 and timer = timer and dry = 0 and ext = 0] d(4) unfolding all by blast
  have "http_get_response_body c data (int (length x)) timeout d e = Some (ret, d', e')"
    using r(1) e1 d(3) by (simp add: http_get_response_body_def)
  moreover have "delivered B N rest d' e'" using r x(4) d(3) b(3) by (auto simp: delivered_def same_setup_def)
  ultimately show ?thesis using r(2,8) s1(2) by auto
qed

lemma move_down_array:
  assumes "array_with data (s @ x)"
  shows "\<exists>data'. move_down data (length s) (int (length x) + 1) = Some data' \<and> array_with data' x"
proof -
  obtain z where z: "data = s @ (x @ [0]) @ z" "length data = 1024" using assms by (auto simp: array_with_def)
  have n: "nat (int (length x) + 1) = length (x @ [0])" by simp
  have "load_bytes data (length s) (length (x @ [0])) = Some (x @ [0])" using z by (simp add: load_bytes_def)
  moreover have "store_bytes data 0 (x @ [0]) = Some (x @ 0 # drop (Suc (length x)) data)" using z by (simp add: store_bytes_def blit_def)
  moreover have "array_with (x @ 0 # drop (Suc (length x)) data) x" using z by (simp add: array_with_def)
  ultimately show ?thesis unfolding move_down_def n by simp
qed

lemma header_number:
  assumes "http_response status header content" "array_with data (header @ CRLF @ x)"
  shows "\<exists>s i digits. str_of data = Some s \<and> find_text (ascii ''Content-Length'') s = Some i \<and> i + 16 < length data \<and>
     str_of (drop (i + 16) data) = Some digits \<and> atoi digits = int (length content)"
proof -
  let ?cl = "ascii ''Content-Length''"
  obtain H1 H2 where h: "header = H1 @ ascii ''Content-Length: '' @ dec_digits (length content) @ H2" "H2 = [] \<or> \<not> digit_char (hd H2)"
      "find_text ?cl (H1 @ ?cl) = Some (length H1)" "text_ok header"
    using assms(1) unfolding http_response_def by blast
  obtain z where z: "data = (header @ CRLF @ x) @ 0 # z" "length data = 1024" using assms(2) by (auto simp: array_with_def)
  have "ascii ''Content-Length: '' = ?cl @ ascii '': ''" by (simp add: ascii_def)
  then have "takeWhile (\<lambda>b. b \<noteq> 0) (header @ CRLF @ x) = (H1 @ ?cl) @ (ascii '': '' @ dec_digits (length content) @ H2) @ takeWhile (\<lambda>b. b \<noteq> 0) (CRLF @ x)"
    using takeWhile_text_prefix [OF h(4), of "CRLF @ x"] h(1) by simp
  then have str: "str_of data = Some ((H1 @ ?cl) @ (ascii '': '' @ dec_digits (length content) @ H2) @ takeWhile (\<lambda>b. b \<noteq> 0) (CRLF @ x))"
    using array_with_str [OF assms(2)] by simp
  let ?t = "takeWhile (\<lambda>b. b \<noteq> 0) (H2 @ CRLF @ x)"
  have "drop (length H1 + 16) data = (dec_digits (length content) @ H2 @ CRLF @ x) @ 0 # z" using z h(1) by simp
  then have "str_of (drop (length H1 + 16) data) = Some (dec_digits (length content) @ ?t)"
    by (simp only: str_of_terminated takeWhile_text_prefix [OF text_ok_dec])
  moreover have "\<not> digit_char (hd ?t)" using h(1,2,4) by (cases H2) (auto simp: CRLF_def digit_char_def text_ok_def)
  then have "atoi (dec_digits (length content) @ ?t) = int (length content)" by (intro atoi_dec) simp
  moreover have "length H1 + 16 < length data" using z(1) h(1) by simp
  ultimately show ?thesis using str find_text_append [OF h(3)] by blast
qed

text \<open>What the first read has brought: the status line is taken off.\<close>

lemma status_line:
  assumes r: "http_response status header content" and T: "T = response_bytes status header content" "len \<le> length T"
    and d: "array_with data (take len T)" "length status + 2 \<le> len"
    and U: "U = header @ (CRLF @ CRLF) @ content"
  obtains s data0 data1 where "str_of data = Some s" "find_text CRLF s = Some (length status)" "store data (length status) 0 = Some data0"
    "str_of (drop 9 data0) = Some (drop 9 status)" "move_down data0 (length status + 2) (int len - (int (length status) + 2) + 1) = Some data1"
    "array_with data1 (take (len - (length status + 2)) U)" "drop len T = drop (len - (length status + 2)) U" "len - (length status + 2) \<le> length U"
proof -
  let ?n = "length status + 2"
  let ?u = "take (len - ?n) U"
  have st: "text_ok status" "9 \<le> length status" "find_text CRLF (status @ CRLF) = Some (length status)" using r by (simp_all add: http_response_def)
  have TU: "T = (status @ CRLF) @ U" "length (status @ CRLF) = ?n" using T(1) U by (simp_all add: response_bytes_def CRLF_def)
  have dr: "drop len T = drop (len - ?n) U" and tk: "take len T = status @ CRLF @ ?u"
    unfolding TU(1) drop_append take_append TU(2) using d(2) TU(2) by simp_all
  have lU: "len - ?n \<le> length U" "int (length ?u) = int len - (int (length status) + 2)"
    using T(2) d(2) TU(2) unfolding TU(1) length_append by auto
  have "takeWhile (\<lambda>b. b \<noteq> 0) (status @ CRLF @ ?u) = (status @ CRLF) @ takeWhile (\<lambda>b. b \<noteq> 0) ?u"
    using takeWhile_text_prefix [of "status @ CRLF"] st(1) by (simp add: text_ok_def CRLF_def)
  then obtain s where s: "str_of data = Some s" "find_text CRLF s = Some (length status)"
    using array_with_str [OF d(1)] find_text_append [OF st(3)] unfolding tk by auto
  obtain z where z: "data = status @ CRLF @ ?u @ 0 # z" "length data = 1024" using d(1) unfolding tk by (auto simp: array_with_def)
  define data0 where "data0 = status @ 0 # 0x0A # ?u @ 0 # z"
  have st0: "store data (length status) 0 = Some data0" using z by (simp add: data0_def store_def CRLF_def list_update_append)
  have "takeWhile (\<lambda>b. b \<noteq> 0) (drop 9 status) = drop 9 status"
    using st(1) by (auto simp: takeWhile_eq_all_conv text_ok_def dest: in_set_dropD)
  then have code: "str_of (drop 9 data0) = Some (drop 9 status)" using str_of_terminated [of "drop 9 status"] st(2) by (simp add: data0_def)
  have "array_with data0 ((status @ [0, 0x0A]) @ ?u)" using z by (auto simp: data0_def array_with_def CRLF_def)
  from move_down_array [OF this, unfolded lU(2)] obtain data1 where
    "move_down data0 ?n (int len - (int (length status) + 2) + 1) = Some data1" "array_with data1 ?u" by auto
  with that s st0 code dr lU(1) show ?thesis by blast
qed

text \<open>When the header is complete: the length is read, and the header is taken off.\<close>

lemma header_end:
  assumes r: "http_response status header content" and U: "U = header @ (CRLF @ CRLF) @ content"
    and h: "array_with data (take len U)" "length header + 4 \<le> len" "len \<le> length header + 36" "len \<le> length U"
  obtains s i digits data' x where "str_of data = Some s" "find_text (ascii ''Content-Length'') s = Some i" "i + 16 < length data"
    "str_of (drop (i + 16) data) = Some digits" "atoi digits = int (length content)"
    "int len - (int (length header) + 4) = int (length x)" "move_down data (length header + 4) (int (length x) + 1) = Some data'"
    "length data' = 1024" "take (length x) data' = x" "length x \<le> 32" "take (length x) content = x" "drop len U = drop (length x) content"
proof -
  let ?n = "length header + 4"
  define x where "x = take (len - ?n) content"
  have UH: "U = (header @ CRLF @ CRLF) @ content" "length (header @ CRLF @ CRLF) = ?n" by (simp_all add: U CRLF_def)
  have tk: "take len U = (header @ CRLF @ CRLF) @ x" and dr: "drop len U = drop (len - ?n) content"
    unfolding UH(1) drop_append take_append UH(2) x_def using h(2) UH(2) by simp_all
  have lx: "length x = len - ?n" using h(4) UH(2) unfolding UH(1) length_append by (simp add: x_def)
  then have x: "int len - (int (length header) + 4) = int (length x)" "length x \<le> 32" "take (length x) content = x" "drop len U = drop (length x) content"
    using h(2,3) dr by (simp_all add: x_def)
  have a: "array_with data ((header @ CRLF @ CRLF) @ x)" using h(1) unfolding tk .
  from move_down_array [OF this] obtain data' where data': "move_down data ?n (int (length x) + 1) = Some data'" "array_with data' x"
    unfolding UH(2) by blast
  have "length data' = 1024" "take (length x) data' = x" using data'(2) by (auto simp: array_with_def)
  with that header_number [OF r, of data "CRLF @ x"] a x data'(1) show ?thesis by auto
qed

lemma parse_header_delivers:
  assumes r: "http_response status header content" and c: "http_handle c \<noteq> -1" and e: "\<forall>t. 0 < tcp_take e t"
    and T: "T = response_bytes status header content" "len \<le> length T" "tcp_in e = drop len T"
    and d: "array_with data (take len T)" "length status + 2 \<le> len" "len \<le> 32" "buffer_of B d" "32 \<le> B"
  shows "\<exists>ret d' e'. http_parse_response_header c data len timeout d e =
       Some (ret, c\<lparr>response_code := atoi (drop 9 status)\<rparr>, d', e') \<and> 0 \<le> ret \<and>
     delivered B (length content) content d' e' \<and> tcp_take e' = tcp_take e"
proof -
  let ?c = "c\<lparr>response_code := atoi (drop 9 status)\<rparr>" and ?n = "length status + 2"
  define U where "U = header @ (CRLF @ CRLF) @ content"
  obtain timer e1 where e1: "on_hal (utils_time_countdown_ms timeout) e = (timer, e1)" by fastforce
  obtain s data0 data1 where s: "str_of data = Some s" "find_text CRLF s = Some (length status)" "store data (length status) 0 = Some data0"
    "str_of (drop 9 data0) = Some (drop 9 status)" "move_down data0 ?n (int len - (int (length status) + 2) + 1) = Some data1"
    "array_with data1 (take (len - ?n) U)" "drop len T = drop (len - ?n) U" "len - ?n \<le> length U"
    by (rule status_line [OF r T(1,2) d(1,2) U_def])
  have s1: "tcp_in e1 = drop (len - ?n) U" "tcp_take e1 = tcp_take e"
    using on_hal_stream [of "utils_time_countdown_ms timeout" e] T(3) s(7) by (simp_all add: e1)
  have hdr: "text_ok header" "length header + 4 \<le> 1023" "find_text (CRLF @ CRLF) (header @ CRLF @ CRLF) = Some (length header)"
    using r by (simp_all add: http_response_def)
  have "http_handle ?c \<noteq> -1" "\<forall>t. 0 < tcp_take e1 t" "len - ?n \<le> length header + 36" using c e s1 d(3) by simp_all
  from header_loop_reads [OF this(1,2) s1(1) U_def hdr(3,1,2) s(6,8) this(3), where timer = timer] obtain data2 len2 e2 where
    h: "header_loop ?c data1 (len - ?n) timer e1 = Some (Inr (length header, data2, len2), e2)" "array_with data2 (take len2 U)"
      "length header + 4 \<le> len2" "len2 \<le> length header + 36" "len2 \<le> length U" "tcp_in e2 = drop len2 U" "tcp_take e2 = tcp_take e1" by blast
  obtain s2 i digits data3 x where n: "str_of data2 = Some s2" "find_text (ascii ''Content-Length'') s2 = Some i" "i + 16 < length data2"
    "str_of (drop (i + 16) data2) = Some digits" "atoi digits = int (length content)"
    "int len2 - (int (length header) + 4) = int (length x)" "move_down data2 (length header + 4) (int (length x) + 1) = Some data3"
    "length data3 = 1024" "take (length x) data3 = x" "length x \<le> 32" "take (length x) content = x" "drop len2 U = drop (length x) content"
    by (rule header_end [OF r U_def h(2-5)])
  define d3 where "d3 = d\<lparr>is_chunked := False, http_content_len := int (length content), http_retrieve_len := int (length content),
      response_received_len := response_received_len d + int (length x)\<rparr>"
  obtain left e3 where e3: "on_hal (iotx_time_left timer) e2 = (left, e3)" by fastforce
  have s3: "tcp_in e3 = drop (length x) content" "tcp_take e3 = tcp_take e"
    using on_hal_stream [of "iotx_time_left timer" e2] n(12) h(6,7) s1(2) by (simp_all add: e3)
  have "buffer_of B d3" "http_retrieve_len d3 = int (length content)" "http_content_len d3 = int (length content)"
    using d(4) by (simp_all add: d3_def buffer_of_def)
  then obtain ret d' e' where b: "http_get_response_body ?c data3 (int (length x)) left d3 e3 = Some (ret, d', e')" "0 \<le> ret"
      "delivered B (length content) content d' e'" "tcp_take e' = tcp_take e3"
    using body_delivers [of ?c e3 x content B d3 "length content" data3 left] c e s3 d(5) n(8-11) by auto
  have n': "length status + 2 = Suc (Suc (length status))" "int len2 - int (length header) - 3 = int (length x) + 1" using n(6) by simp_all
  have "http_parse_response_header c data len timeout d e = Some (ret, ?c, d', e')"
    using s(1-5) h(1) n(1-5,7) b(1) e1 e3 unfolding d3_def http_parse_response_header_def Let_def n'(1) by (simp add: n(6) n'(2))
  then show ?thesis using b(2-4) s3(2) by auto
qed

subsection \<open>The request\<close>

text \<open>The text of a \<open>GET\<close> request.\<close>

definition get_request :: "cstr \<Rightarrow> cstr \<Rightarrow> cstr \<Rightarrow> cstr" where
  "get_request host_name path hdrs = ascii ''GET '' @ path @ ascii '' HTTP/1.1'' @ CRLF @ ascii ''Host: '' @ host_name @ CRLF @ hdrs @ CRLF"

definition tx_holds :: "byte list \<Rightarrow> cstr \<Rightarrow> bool" where
  "tx_holds buf s \<longleftrightarrow> length buf = 1024 \<and> take (length s) buf = s"

lemma fill_tx_appends:
  assumes "tx_holds buf p" "length p + length s < 1024"
  shows "\<exists>buf'. utils_fill_tx_buffer c s buf (length p) e = Some (0, buf', length (p @ s), e) \<and> tx_holds buf' (p @ s)"
proof -
  have "length buf = 1024" "take (length p) buf = p" using assms(1) by (simp_all add: tx_holds_def)
  then have "store_bytes buf (length p) s = Some (p @ s @ drop (length p + length s) buf)" using assms(2) by (simp add: store_bytes_def blit_def)
  then show ?thesis using assms(2) \<open>length buf = 1024\<close>
    by (simp add: utils_fill_tx_buffer_def fill_tx_loop.simps [of c s] load_bytes_def Let_def http_sizes SUCCESS_RETURN_def tx_holds_def)
qed

text \<open>A network that connects and takes all that is written.\<close>

definition net_takes :: "hal \<Rightarrow> bool" where
  "net_takes h \<longleftrightarrow> (\<forall>t. net_connect h t = 0) \<and> (\<forall>t data w. net_write h t data w = int (length data))"

lemma send_header_get:
  assumes c: "http_handle c \<noteq> -1" "http_header c = Some hdrs" and n: "net_takes (net_hal e)" "post_buf d = None"
    and l: "length (get_request host_name path hdrs) < 1024"
  shows "\<exists>e'. http_send_header c host_name path HTTPCLIENT_GET d e = Some (SUCCESS_RETURN, e') \<and>
     net_sent (net_hal e') = net_sent (net_hal e) @ get_request host_name path hdrs \<and> same_stream e e'"
proof -
  define start where "start = method_text HTTPCLIENT_GET @ ascii '' '' @ path @ ascii '' HTTP/1.1'' @ CRLF @ ascii ''Host: '' @ host_name @ CRLF"
  have all: "(start @ hdrs) @ CRLF = get_request host_name path hdrs" by (simp add: start_def get_request_def ascii_def)
  then have len: "length ((start @ hdrs) @ CRLF) < 1024" using l by simp
  then have len1: "length ([] :: cstr) + length start < 1024" "length start + length hdrs < 1024" "length (start @ hdrs) + length CRLF < 1024"
    unfolding length_append by simp_all
  have pr: "snd (snprintf HTTPCLIENT_SEND_BUF_SIZE start) = start" using len1(1) by (simp add: snprintf_def http_sizes)
  have "tx_holds (replicate HTTPCLIENT_SEND_BUF_SIZE 0) []" by (simp add: tx_holds_def http_sizes)
  from fill_tx_appends [OF this len1(1), of c e] obtain b1 where b1: "utils_fill_tx_buffer c start (replicate HTTPCLIENT_SEND_BUF_SIZE 0) 0 e =
      Some (0, b1, length start, e)" "tx_holds b1 start" by auto
  obtain b2 where b2: "utils_fill_tx_buffer c hdrs b1 (length start) e = Some (0, b2, length (start @ hdrs), e)" "tx_holds b2 (start @ hdrs)"
    using fill_tx_appends [OF b1(2) len1(2)] by blast
  obtain b3 where b3: "utils_fill_tx_buffer c CRLF b2 (length (start @ hdrs)) e = Some (0, b3, length ((start @ hdrs) @ CRLF), e)"
      "tx_holds b3 ((start @ hdrs) @ CRLF)"
    using fill_tx_appends [OF b2(2) len1(3)] by blast
  let ?req = "get_request host_name path hdrs"
  have tk: "take (length ?req) b3 = ?req" using b3(2) unfolding all by (simp add: tx_holds_def)
  obtain ret e' where w: "http_net_write c ?req 5000 e = (ret, e')" by fastforce
  have ret: "ret = int (length ?req)" and out: "net_sent (net_hal e') = net_sent (net_hal e) @ ?req" "same_stream e e'"
    using w c(1) n(1) by (auto simp: http_net_write_def on_hal_def ipstack_write_def Let_def net_takes_def same_stream_def next_tick_def)
  have "0 < ret" unfolding ret by (simp add: get_request_def ascii_def)
  moreover have "http_send_header c host_name path HTTPCLIENT_GET d e =
      Some (if ret \<le> 0 then if ret = 0 then ERROR_HTTP_CLOSED else ERROR_HTTP_CONN else SUCCESS_RETURN, e')"
    unfolding http_send_header_def Let_def start_def [symmetric] pr using b1(1) b2(1) b3(1) c(2) n(2) tk w unfolding all by (simp del: length_append)
  ultimately show ?thesis using out by auto
qed

lemma http_send_get:
  assumes u: "utils_parse_url url = Some (SUCCESS_RETURN, host_name, path)" and c: "http_handle c = 0" "http_header c = Some hdrs"
    and n: "net_takes (net_hal e)" "post_buf d = None" and l: "length (get_request host_name path hdrs) < 1024"
  shows "\<exists>e'. http_send c url HTTPCLIENT_GET d e = Some (SUCCESS_RETURN, c\<lparr>http_handle := 1\<rparr>, e') \<and>
     net_sent (net_hal e') = net_sent (net_hal e) @ get_request host_name path hdrs \<and> same_stream e e'"
proof -
  let ?e = "e\<lparr>net_hal := next_tick (net_hal e)\<rparr>" and ?c = "c\<lparr>http_handle := 1\<rparr>"
  have "httpclient_connect (c\<lparr>http_handle := 0\<rparr>) e = (SUCCESS_RETURN, ?c, ?e)"
    using n(1) by (simp add: httpclient_connect_def numeral_3_eq_3 http_net_connect_def on_hal_def ipstack_connect_def net_takes_def)
  moreover have "net_takes (net_hal ?e)" using n(1) by (simp add: net_takes_def next_tick_def)
  ultimately show ?thesis
    using send_header_get [of ?c hdrs ?e d host_name path] u c n(2) l
    by (auto simp: http_send_def http_send_request_def SUCCESS_RETURN_def same_stream_def next_tick_def)
qed

subsection \<open>A call of the client\<close>

lemma recv_response_first:
  assumes r: "http_response status header content" and c: "http_handle c \<noteq> -1" "http_handle c \<noteq> 0"
    and e: "int (length status + 2) \<le> tcp_take e (tcp_reads e)" "\<forall>t. 0 < tcp_take e t" "tcp_in e = response_bytes status header content"
    and d: "\<not> is_more d" "buffer_of B d" "32 \<le> B"
  shows "\<exists>ret d' e'. httpclient_recv_response c timeout d e = Some (ret, c\<lparr>response_code := atoi (drop 9 status)\<rparr>, d', e') \<and> 0 \<le> ret \<and>
     delivered B (length content) content d' e' \<and> tcp_take e' = tcp_take e"
proof -
  define T where "T = response_bytes status header content"
  obtain timer e1 where e1: "on_hal (utils_time_countdown_ms timeout) e = (timer, e1)" by fastforce
  obtain left e2 where e2: "on_hal (iotx_time_left timer) e1 = (left, e2)" by fastforce
  have s2: "tcp_in e2 = T" "tcp_take e2 = tcp_take e" "tcp_reads e2 = tcp_reads e"
    using on_hal_stream [of "utils_time_countdown_ms timeout" e] on_hal_stream [of "iotx_time_left timer" e1] e(3) by (simp_all add: e1 e2 T_def)
  have T: "T \<noteq> []" "length status + 2 \<le> length T" "length status + 2 \<le> 32" using r by (simp_all add: T_def response_bytes_def CRLF_def http_response_def)
  have pre: "\<forall>t. 0 < tcp_take e2 t" "0 < HTTPCLIENT_RAED_HEAD_SIZE" "tcp_in e2 \<noteq> []" using s2 e(2) T(1) by (simp_all add: http_sizes)
  obtain bs e3 where b: "http_recv c HTTPCLIENT_RAED_HEAD_SIZE left e2 = (0, bs, e3)" "take (length bs) (tcp_in e2) = bs" "bs \<noteq> []"
      "length bs \<le> HTTPCLIENT_RAED_HEAD_SIZE" "tcp_in e3 = drop (length bs) (tcp_in e2)" "tcp_take e3 = tcp_take e2"
      "int (length status + 2) \<le> tcp_take e2 (tcp_reads e2) \<longrightarrow> min (min HTTPCLIENT_RAED_HEAD_SIZE (length status + 2)) (length (tcp_in e2)) \<le> length bs"
    by (rule http_recv_some [OF c(1) pre, where m = "length status + 2"])
  have lb: "length status + 2 \<le> length bs" "length bs \<le> 32" "length bs \<le> length T"
    using b(2,4,7) e(1) T(2,3) s2 take_fits [OF b(2)] by (simp_all add: http_sizes)
  have "array_with (replicate HTTPCLIENT_READ_BUF_SIZE 0) []" 
    unfolding array_with_def http_sizes using replicate_Suc [of 1023 "0 :: byte"] by auto
  from array_with_extend [OF this, of bs] obtain data where data: "store_bytes (replicate HTTPCLIENT_READ_BUF_SIZE 0) 0 bs = Some data"
      "store data (length bs) 0 = Some (data[length bs := 0])" "array_with (data[length bs := 0]) (take (length bs) T)"
    using lb(2) b(2) s2(1) by auto
  obtain left2 e4 where e4: "on_hal (iotx_time_left timer) e3 = (left2, e4)" by fastforce
  have s4: "tcp_in e4 = drop (length bs) T" "tcp_take e4 = tcp_take e"
    using on_hal_stream [of "iotx_time_left timer" e3] b(5,6) s2 by (simp_all add: e4)
  have "\<forall>t. 0 < tcp_take e4 t" "buffer_of B (d\<lparr>is_more := True\<rparr>)" using e(2) s4 d(2) by (simp_all add: buffer_of_def)
  from parse_header_delivers [OF r c(1) this(1) T_def lb(3) s4(1) data(3) lb(1,2) this(2) d(3), of left2]
  show ?thesis using b(1,3) data(1,2) e1 e2 e4 c(2) d(1) s4(2) by (auto simp: httpclient_recv_response_def)
qed

lemma recv_response_next:
  assumes c: "http_handle c \<noteq> -1" "http_handle c \<noteq> 0" and e: "\<forall>t. 0 < tcp_take e t" "tcp_in e = rest"
    and d: "is_more d" "buffer_of B d" "0 < B" "http_retrieve_len d = int (length rest)" "http_content_len d = int N"
  shows "\<exists>ret d' e'. httpclient_recv_response c timeout d e = Some (ret, c, d', e') \<and> 0 \<le> ret \<and> delivered B N rest d' e' \<and> tcp_take e' = tcp_take e"
proof -
  obtain timer e1 where e1: "on_hal (utils_time_countdown_ms timeout) e = (timer, e1)" by fastforce
  obtain left e2 where e2: "on_hal (iotx_time_left timer) e1 = (left, e2)" by fastforce
  have s2: "tcp_in e2 = rest" "tcp_take e2 = tcp_take e"
    using on_hal_stream [of "utils_time_countdown_ms timeout" e] on_hal_stream [of "iotx_time_left timer" e1] e(2) by (simp_all add: e1 e2)
  obtain b where b: "response_buf d = Some b" "length b = B + 1" using d(2) by (auto simp: buffer_of_def)
  let ?d = "d\<lparr>response_buf := Some (b[0 := 0])\<rparr>"
  have "buffer_of B ?d" using d(2) b by (simp add: buffer_of_def)
  then obtain ret d' e' where "http_get_response_body c (replicate 1024 0) (int (length ([] :: byte list))) left ?d e2 = Some (ret, d', e')" "0 \<le> ret"
      "delivered B N rest d' e'" "tcp_take e' = tcp_take e2"
    using body_delivers [of c e2 "[]" rest B ?d N "replicate 1024 0" left] c(1) e(1) s2 d(3-5) by auto
  then show ?thesis using e1 e2 b c(2) d(1) s2(2) by (auto simp: httpclient_recv_response_def store_def http_sizes)
qed

text \<open>The state between two calls while bytes of the content, \<open>rest\<close>, are to come.\<close>

definition between :: "nat \<Rightarrow> byte list \<Rightarrow> httpclient_t \<Rightarrow> httpclient_data_t \<Rightarrow> http_net \<Rightarrow> bool" where
  "between N rest c d e \<longleftrightarrow> http_handle c = 1 \<and> is_more d \<and> http_retrieve_len d = int (length rest) \<and> http_content_len d = int N \<and>
     tcp_in e = rest \<and> (\<forall>t. 0 < tcp_take e t)"

lemma common_finish:
  assumes "http_send c url method d e = Some (SUCCESS_RETURN, c1, e1)" "buffer_of B d"
    and "\<And>left e2. same_stream e1 e2 \<Longrightarrow> \<exists>ret d' e'. httpclient_recv_response c1 left d e2 = Some (ret, c2, d', e') \<and> 0 \<le> ret \<and>
      delivered B N rest d' e' \<and> tcp_take e' = tcp_take e"
    and "http_handle c2 = 1" "\<forall>t. 0 < tcp_take e t"
  shows "\<exists>c' d' e'. httpclient_common c url method timeout d e = Some (0, c', d', e') \<and>
     (\<exists>b. response_buf d' = Some b \<and> length b = B + 1 \<and> take (min B (length rest)) b = take B rest) \<and>
     http_content_len d' = int N \<and> http_retrieve_len d' = int (length rest - B) \<and> (B \<le> length rest \<longrightarrow> between N (drop B rest) c' d' e')"
proof -
  obtain timer e2 where e2: "on_hal (utils_time_countdown_ms timeout) e1 = (timer, e2)" by fastforce
  obtain left e3 where e3: "on_hal (iotx_time_left timer) e2 = (left, e3)" by fastforce
  have "same_stream e1 e3"
    using on_hal_stream [of "utils_time_countdown_ms timeout" e1] on_hal_stream [of "iotx_time_left timer" e2] by (simp add: e2 e3 same_stream_def)
  from assms(3) [OF this, of left] obtain ret d' e' where r: "httpclient_recv_response c1 left d e3 = Some (ret, c2, d', e')" "0 \<le> ret"
      "delivered B N rest d' e'" "tcp_take e' = tcp_take e" by blast
  obtain c' e'' where cl: "httpclient_close c2 e' = (c', e'')" by fastforce
  have "httpclient_common c url method timeout d e = Some (if is_more d' then (0, c2, d', e') else (0, c', d', e''))"
    using assms(1,2) e2 e3 r(1,2) cl by (auto simp: httpclient_common_def buffer_of_def)
  moreover have "is_more d' \<longleftrightarrow> B \<le> length rest" using r(3) by (simp add: delivered_def)
  moreover have "between N (drop B rest) c2 d' e'" if "B \<le> length rest" using that r(3,4) assms(4,5) by (simp add: between_def delivered_def)
  ultimately show ?thesis using r(3) by (cases "is_more d'") (auto simp: delivered_def)
qed

lemma common_first:
  assumes r: "http_response status header content" and c: "http_handle c = 0" "http_header c = Some hdrs"
    and u: "utils_parse_url url = Some (SUCCESS_RETURN, host_name, path)" "length (get_request host_name path hdrs) < 1024"
    and e: "net_takes (net_hal e)" "int (length status + 2) \<le> tcp_take e (tcp_reads e)" "\<forall>t. 0 < tcp_take e t" "tcp_in e = response_bytes status header content"
    and d: "\<not> is_more d" "buffer_of B d" "32 \<le> B" "post_buf d = None"
  shows "\<exists>c' d' e'. httpclient_common c url HTTPCLIENT_GET timeout d e = Some (0, c', d', e') \<and>
     (\<exists>b. response_buf d' = Some b \<and> length b = B + 1 \<and> take (min B (length content)) b = take B content) \<and>
     http_content_len d' = int (length content) \<and> http_retrieve_len d' = int (length content - B) \<and>
     (B \<le> length content \<longrightarrow> between (length content) (drop B content) c' d' e')"
proof -
  obtain e1 where s: "http_send c url HTTPCLIENT_GET d e = Some (SUCCESS_RETURN, c\<lparr>http_handle := 1\<rparr>, e1)" "same_stream e e1"
    using http_send_get [OF u(1) c e(1) d(4) u(2)] by blast
  show ?thesis
  proof (rule common_finish [OF s(1) d(2)])
    fix left e2 assume "same_stream e1 e2"
    then show "\<exists>ret d' e'. httpclient_recv_response (c\<lparr>http_handle := 1\<rparr>) left d e2 =
        Some (ret, c\<lparr>http_handle := 1, response_code := atoi (drop 9 status)\<rparr>, d', e') \<and> 0 \<le> ret \<and>
        delivered B (length content) content d' e' \<and> tcp_take e' = tcp_take e"
      using recv_response_first [OF r _ _ _ _ _ d(1-3), of "c\<lparr>http_handle := 1\<rparr>" e2 left] e(2-4) s(2) by (simp add: same_stream_def)
  qed (use e(3) in simp_all)
qed

lemma common_next:
  assumes u: "utils_parse_url url = Some (SUCCESS_RETURN, host_name, path)" and b: "between N rest c d e" "buffer_of B d" "0 < B"
  shows "\<exists>c' d' e'. httpclient_common c url HTTPCLIENT_GET timeout d e = Some (0, c', d', e') \<and>
     (\<exists>b. response_buf d' = Some b \<and> length b = B + 1 \<and> take (min B (length rest)) b = take B rest) \<and>
     http_content_len d' = int N \<and> http_retrieve_len d' = int (length rest - B) \<and> (B \<le> length rest \<longrightarrow> between N (drop B rest) c' d' e')"
proof -
  have s: "http_send c url HTTPCLIENT_GET d e = Some (SUCCESS_RETURN, c, e)" using u b(1) by (simp add: http_send_def between_def)
  show ?thesis
  proof (rule common_finish [OF s b(2)])
    fix left e2 assume "same_stream e e2"
    then show "\<exists>ret d' e'. httpclient_recv_response c left d e2 = Some (ret, c, d', e') \<and> 0 \<le> ret \<and> delivered B N rest d' e' \<and> tcp_take e' = tcp_take e"
      using recv_response_next [of c e2 rest d B N left] b by (simp add: same_stream_def between_def)
  qed (use b(1) in \<open>simp_all add: between_def\<close>)
qed

subsection \<open>Where the client gives up\<close>

text \<open>A text that fills the send buffer to its end is reported as an error, although all of the buffer was written.\<close>

lemma fill_tx_full:
  assumes "length buf = 1024" "idx + length s = 1024" "http_handle c \<noteq> -1" "net_takes (net_hal e)"
  shows "\<exists>buf' e'. utils_fill_tx_buffer c s buf idx e = Some (1024, buf', idx, e') \<and> net_sent (net_hal e') = net_sent (net_hal e) @ blit buf idx s"
proof -
  have l: "length (blit buf idx s) = 1024" using assms(1,2) by (simp add: blit_def)
  have "http_net_write c (blit buf idx s) 5000 e = (1024, e\<lparr>net_hal := (next_tick (net_hal e))\<lparr>net_sent := net_sent (net_hal e) @ blit buf idx s\<rparr>\<rparr>)"
    using assms(3,4) l by (simp add: http_net_write_def on_hal_def ipstack_write_def Let_def net_takes_def)
  moreover have "store_bytes buf idx s = Some (blit buf idx s)" using assms(1,2) by (simp add: store_bytes_def)
  moreover have "1024 - idx = length s" using assms(2) by simp
  ultimately show ?thesis
    using assms(2) by (simp add: utils_fill_tx_buffer_def fill_tx_loop.simps [of c s] load_bytes_def Let_def http_sizes)
qed

text \<open>A response whose first read does not bring the whole status line is given up, though the rest would come.\<close>

lemma short_status_line:
  assumes "array_with data (take len (status @ CRLF @ x))" "find_text CRLF (status @ CRLF) = Some (length status)" "text_ok status" "len < length status + 2"
  shows "\<exists>d' e'. http_parse_response_header c data len timeout d e = Some (ERROR_HTTP_UNRESOLVED_DNS, c, d', e')"
proof -
  have "text_ok (status @ CRLF)" "\<not> length status + length CRLF \<le> len" using assms(3,4) by (simp_all add: text_ok_def CRLF_def)
  with find_end [OF assms(2) this(1), of len x] array_with_str [OF assms(1)] show ?thesis
    by (auto simp: http_parse_response_header_def split: prod.split)
qed

end
