(* ===== verification/OTA_Http.thy ===== *)
theory OTA_Http
  imports OTA_Download Httpc_Stream
begin

text \<open>
  The download over the HTTP client: the module for updates and \<open>infra_httpc.c\<close> together. The replies that the fetch channel
  works on are those of the client on a byte stream.
\<close>

subsection \<open>Replies of the client\<close>

text \<open>
  What \<open>ofc_Fetch\<close> does with the client: the buffer of the caller becomes the response buffer, \<open>httpclient_common\<close> is called
  with the time in milliseconds, and the reply is its result with the two counters and the buffer. The exchange runs on the
  network of the client with a clock of its own; its reply is then what \<open>IOT_OTA_FetchYield\<close> is given.
\<close>

type_synonym fetch_client = "httpclient_t \<times> httpclient_data_t \<times> http_net"

definition fetch_request :: "cstr \<Rightarrow> byte list \<Rightarrow> u32 \<Rightarrow> fetch_client \<Rightarrow> (http_reply \<times> fetch_client) option" where
  "fetch_request url buf timeout_s s = do {
     let (c, d, e) = s;
     let d = d\<lparr>response_buf := Some buf, response_buf_len := int (length buf)\<rparr>;
     (rc, c, d, e) \<leftarrow> httpclient_common c url HTTPCLIENT_GET (timeout_s * 1000) d e;
     b \<leftarrow> response_buf d;
     Some (\<lparr>hr_rc = rc, hr_content_len = http_content_len d, hr_retrieve_len = http_retrieve_len d, hr_buf = b\<rparr>, c, d, e)
   }"

primrec fetch_requests :: "cstr \<Rightarrow> byte list \<Rightarrow> u32 \<Rightarrow> nat \<Rightarrow> fetch_client \<Rightarrow> (http_reply list \<times> fetch_client) option" where
  "fetch_requests url buf timeout_s 0 s = Some ([], s)"
| "fetch_requests url buf timeout_s (Suc n) s = do {
     (r, s) \<leftarrow> fetch_request url buf timeout_s s;
     (rs, s) \<leftarrow> fetch_requests url buf timeout_s n s;
     Some (r # rs, s)
   }"

text \<open>The client right after \<open>ofc_Init\<close>: cleared, but for the lines for the request.\<close>

definition ACCEPT_HEADER :: cstr where
  "ACCEPT_HEADER = ascii ''Accept: text/html,application/xhtml+xml,application/xml;q=0.9,*/*;q=0.8'' @ CRLF"

definition new_http :: httpclient_t where
  "new_http = \<lparr>http_handle = 0, response_code = 0, http_header = Some ACCEPT_HEADER\<rparr>"

definition new_http_data :: httpclient_data_t where
  "new_http_data = \<lparr>is_more = False, is_chunked = False, http_retrieve_len = 0, http_content_len = 0, response_received_len = 0, post_buf_len = 0,
     response_buf_len = 0, post_content_type = None, post_buf = None, response_buf = None\<rparr>"

text \<open>A file in pieces of \<open>B\<close> bytes, the last one shorter.\<close>

function pieces_of :: "nat \<Rightarrow> byte list \<Rightarrow> byte list list" where
  "pieces_of B s = (if s = [] \<or> B = 0 then [] else take B s # pieces_of B (drop B s))"
  by auto
termination by (relation "measure (\<lambda>(B, s). length s)") auto

declare pieces_of.simps [simp del]

lemma pieces_of_empty [simp]: "pieces_of B [] = []"
  by (simp add: pieces_of.simps)

lemma concat_pieces: "0 < B \<Longrightarrow> concat (pieces_of B s) = s"
  by (induction B s rule: pieces_of.induct) (subst pieces_of.simps, auto)

lemma butlast_pieces: "0 < B \<Longrightarrow> s \<noteq> [] \<Longrightarrow> length (concat (butlast (pieces_of B s))) < length s"
proof (induction B s rule: pieces_of.induct)
  case (1 B s)
  show ?case
  proof (cases "drop B s = []")
    case True
    then show ?thesis using 1(2,3) by (simp add: pieces_of.simps [of B s])
  next
    case False
    then have "pieces_of B (drop B s) \<noteq> []" using 1(2) by (simp add: pieces_of.simps [of B "drop B s"])
    then show ?thesis using 1 False by (simp add: pieces_of.simps [of B s] less_diff_conv)
  qed
qed

text \<open>From what a call of the client does to the reply, and on to the calls that follow it.\<close>

lemma request_reply:
  assumes "\<exists>c' d' e'. httpclient_common c url HTTPCLIENT_GET (timeout * 1000) (d\<lparr>response_buf := Some buf, response_buf_len := int (length buf)\<rparr>) e =
       Some (0, c', d', e') \<and> (\<exists>b. response_buf d' = Some b \<and> length b = B + 1 \<and> take (min B (length rest)) b = take B rest) \<and>
     http_content_len d' = int N \<and> http_retrieve_len d' = int (length rest - B) \<and> (B \<le> length rest \<longrightarrow> between N (drop B rest) c' d' e')"
    and "rest \<noteq> []" "length rest \<le> N" "0 < B" "B < 2147483647"
  obtains r c' d' e' where "fetch_request url buf timeout (c, d, e) = Some (r, c', d', e')" "delivers (int N - int (length rest)) r (take B rest)"
    "B \<le> length rest \<longrightarrow> between N (drop B rest) c' d' e'"
proof -
  from assms(1) obtain c' d' e' b where r:
    "httpclient_common c url HTTPCLIENT_GET (timeout * 1000) (d\<lparr>response_buf := Some buf, response_buf_len := int (length buf)\<rparr>) e = Some (0, c', d', e')"
    "response_buf d' = Some b" "length b = B + 1" "take (min B (length rest)) b = take B rest" "http_content_len d' = int N"
    "http_retrieve_len d' = int (length rest - B)" "B \<le> length rest \<longrightarrow> between N (drop B rest) c' d' e'" by blast
  let ?r = "\<lparr>hr_rc = 0, hr_content_len = int N, hr_retrieve_len = int (length rest - B), hr_buf = b\<rparr>"
  have "fetch_request url buf timeout (c, d, e) = Some (?r, c', d', e')" using r(1,2,5,6) by (simp add: fetch_request_def)
  moreover have "delivers (int N - int (length rest)) ?r (take B rest)" using r(3,4) assms(2-5) by (auto simp: delivers_def min.commute)
  ultimately show ?thesis using that r(7) by blast
qed

lemma requests_cons:
  assumes "fetch_request url buf timeout s = Some (r, s1)" "delivers got r (take B rest)" "rest \<noteq> []" "0 < B"
    "\<exists>rs s2. fetch_requests url buf timeout (length (pieces_of B (drop B rest))) s1 = Some (rs, s2) \<and>
       delivers_all (got + int (length (take B rest))) rs (pieces_of B (drop B rest))"
  shows "\<exists>rs s2. fetch_requests url buf timeout (length (pieces_of B rest)) s = Some (rs, s2) \<and> delivers_all got rs (pieces_of B rest)"
proof -
  obtain rs s2 where r: "fetch_requests url buf timeout (length (pieces_of B (drop B rest))) s1 = Some (rs, s2)"
      "delivers_all (got + int (length (take B rest))) rs (pieces_of B (drop B rest))" using assms(5) by blast
  have "pieces_of B rest = take B rest # pieces_of B (drop B rest)" using assms(3,4) by (simp add: pieces_of.simps [of B rest])
  then show ?thesis using assms(1,2) r by (intro exI [of _ "r # rs"] exI [of _ s2]) simp
qed

lemma requests_deliver:
  assumes u: "utils_parse_url url = Some (SUCCESS_RETURN, host_name, path)" and b: "length buf = B + 1" "0 < B" "B < 2147483647"
    and "length rest \<le> N" "B \<le> m \<longrightarrow> between N rest c d e" "m < B \<longrightarrow> rest = []"
  shows "\<exists>rs s. fetch_requests url buf timeout (length (pieces_of B rest)) (c, d, e) = Some (rs, s) \<and>
     delivers_all (int N - int (length rest)) rs (pieces_of B rest)"
  using assms(5-7)
proof (induction rest arbitrary: m c d e rule: measure_induct_rule [of length])
  case (less rest)
  show ?case
  proof (cases "rest = []")
    case False
    let ?d = "d\<lparr>response_buf := Some buf, response_buf_len := int (length buf)\<rparr>"
    have "between N rest c ?d e" "buffer_of B ?d" using less.prems(2,3) False b(1) by (auto simp: between_def buffer_of_def)
    from request_reply [OF common_next [OF u this b(2)] False less.prems(1) b(2,3)] obtain r c' d' e' where
      r: "fetch_request url buf timeout (c, d, e) = Some (r, c', d', e')" "delivers (int N - int (length rest)) r (take B rest)"
        "B \<le> length rest \<longrightarrow> between N (drop B rest) c' d' e'" by blast
    have "length (drop B rest) < length rest" "length (drop B rest) \<le> N" "length rest < B \<longrightarrow> drop B rest = []" using False b(2) less.prems(1) by simp_all
    note rest = less.IH [OF this(1,2) r(3) this(3)]
    have "int N - int (length (drop B rest)) = int N - int (length rest) + int (length (take B rest))" by auto
    from requests_cons [OF r(1,2) False b(2) rest [unfolded this]] show ?thesis .
  qed simp
qed

subsection \<open>The download\<close>

text \<open>
  The network of a server that answers the request with this content. The first read must bring the status line, because the client
  gives up otherwise (see \<open>short_status_line\<close>); every later read may be as short as one byte, but none times out or fails.
\<close>

definition served :: "cstr \<Rightarrow> byte list \<Rightarrow> http_net \<Rightarrow> bool" where
  "served url content e \<longleftrightarrow> net_takes (net_hal e) \<and>
     (\<exists>host_name path. utils_parse_url url = Some (SUCCESS_RETURN, host_name, path) \<and> length (get_request host_name path ACCEPT_HEADER) < 1024) \<and>
     (\<exists>status header. http_response status header content \<and> int (length status + 2) \<le> tcp_take e (tcp_reads e) \<and> (\<forall>t. 0 < tcp_take e t) \<and>
        tcp_in e = response_bytes status header content)"

lemma served_delivers:
  assumes "served url content e" "content \<noteq> []" "length buf = B + 1" "32 \<le> B" "B < 2147483647"
  shows "\<exists>rs s. fetch_requests url buf timeout (length (pieces_of B content)) (new_http, new_http_data, e) = Some (rs, s) \<and>
     delivers_all 0 rs (pieces_of B content)"
proof -
  obtain host_name path status header where s: "net_takes (net_hal e)" "utils_parse_url url = Some (SUCCESS_RETURN, host_name, path)"
      "length (get_request host_name path ACCEPT_HEADER) < 1024" "http_response status header content"
      "int (length status + 2) \<le> tcp_take e (tcp_reads e)" "\<forall>t. 0 < tcp_take e t" "tcp_in e = response_bytes status header content"
    using assms(1) unfolding served_def by blast
  have B: "0 < B" using assms(4) by simp
  let ?d = "new_http_data\<lparr>response_buf := Some buf, response_buf_len := int (length buf)\<rparr>"
  have d: "http_handle new_http = 0" "http_header new_http = Some ACCEPT_HEADER" "\<not> is_more ?d" "buffer_of B ?d" "post_buf ?d = None"
    using assms(3) by (simp_all add: new_http_def new_http_data_def buffer_of_def)
  obtain r c' d' e' where r: "fetch_request url buf timeout (new_http, new_http_data, e) = Some (r, c', d', e')"
      "delivers (int (length content) - int (length content)) r (take B content)"
      "B \<le> length content \<longrightarrow> between (length content) (drop B content) c' d' e'"
    by (rule request_reply [OF common_first [OF s(4) d(1,2) s(2,3,1,5,6,7) d(3,4) assms(4) d(5)] assms(2) le_refl B assms(5)])
  have "int (length content) - int (length (drop B content)) = 0 + int (length (take B content))" by auto
  with requests_deliver [OF s(2) assms(3) B assms(5) _ r(3), of timeout] have
    "\<exists>rs s2. fetch_requests url buf timeout (length (pieces_of B (drop B content))) (c', d', e') = Some (rs, s2) \<and>
       delivers_all (0 + int (length (take B content))) rs (pieces_of B (drop B content))" by simp
  with requests_cons [OF r(1) _ assms(2) B, of 0] r(2) show ?thesis by simp
qed

text \<open>
  What the application has in its buffer after each call, up to the number the call returned, one piece behind the other.
\<close>

definition fetched_bytes :: "http_reply list \<Rightarrow> int list \<Rightarrow> byte list" where
  "fetched_bytes replies rcs = concat (map2 (\<lambda>r n. take (nat n) (hr_buf r)) replies rcs)"

lemma delivers_fetched: "delivers_all got rs ds \<Longrightarrow> fetched_bytes rs (map (\<lambda>d. int (length d)) ds) = concat ds"
  by (induction got rs ds rule: delivers_all.induct) (simp_all add: fetched_bytes_def delivers_def)

text \<open>
  C22: A firmware download over HTTP, from the connection to the check. A module to which a download has just been announced fetches
  from a server that answers the request for the URL with a status line of 9 to 30 characters, a header of at most 1019 bytes with the
  length of the content, and the content. The first read of the connection brings at least the status line; after that the stream may be
  cut into reads in any way, down to single bytes, as long as no read times out or fails. Then for any buffer of at least 33 bytes each call of
  \<open>IOT_OTA_FetchYield\<close> returns the length of the next piece (a buffer less one, the last piece shorter); the bytes the application finds
  in the buffer, call after call, are the content, complete and in order; after the last one the download is finished; and
  \<open>IOT_OTAG_CHECK_FIRMWARE\<close> answers 1 exactly when the announced checksum is the text of the MD5 (RFC 1321) of the content. All calls
  return. The exchanges of the client (\<open>fetch_requests\<close>) run on its own network and clock, and their replies are what the calls
  of \<open>IOT_OTA_FetchYield\<close> (\<open>fetch_all\<close>) work on.
\<close>

theorem ota_over_http:
  assumes "download_ready p h w" "map_option odc_url (ch_fetch h) = Some url" "served url content e" "content \<noteq> []" "length content \<le> 2147483647"
    and "size_file h = of_nat (length content)" "str_of (md5sum h) = Some announced" "length bs = 4"
    and "length buf = B + 1" "32 \<le> B" "B < 2147483647"
  shows "\<exists>replies s w1 w2. fetch_requests url buf timeout (length (pieces_of B content)) (new_http, new_http_data, e) = Some (replies, s) \<and>
     fetch_all (Some p) replies w = Some (map (\<lambda>d. int (length d)) (pieces_of B content), w1) \<and>
     fetched_bytes replies (map (\<lambda>d. int (length d)) (pieces_of B content)) = content \<and>
     IOT_OTA_IsFetchFinish (Some p) w1 = Some (1, w1) \<and>
     IOT_OTA_Ioctl (Some p) IOT_OTAG_CHECK_FIRMWARE (Some (Mem True bs)) 4 w1 =
       Some ((0, Some (Mem True (PUT_UINT32_LE (if announced = hex_text (md5 content) then 1 else 0)))), w2)"
proof -
  have B: "0 < B" using assms(10) by simp
  obtain rs s where r: "fetch_requests url buf timeout (length (pieces_of B content)) (new_http, new_http_data, e) = Some (rs, s)"
      "delivers_all 0 rs (pieces_of B content)"
    using served_delivers [OF assms(3,4,9-11)] by blast
  have "pieces_of B content \<noteq> []" using assms(4) B by (simp add: pieces_of.simps [of B content])
  moreover have "unat (size_file h) = length content" using assms(5,6) by (simp add: unat_of_nat take_bit_nat_eq_self)
  ultimately have "\<exists>w1 w2. fetch_all (Some p) rs w = Some (map (\<lambda>d. int (length d)) (pieces_of B content), w1) \<and>
     IOT_OTA_IsFetchFinish (Some p) w1 = Some (1, w1) \<and>
     IOT_OTA_Ioctl (Some p) IOT_OTAG_CHECK_FIRMWARE (Some (Mem True bs)) 4 w1 =
       Some ((0, Some (Mem True (PUT_UINT32_LE (if announced = hex_text (md5 content) then 1 else 0)))), w2)"
    using download_checked [OF assms(1) r(2) _ assms(7,8)] butlast_pieces [OF B assms(4)] assms(5) unfolding concat_pieces [OF B] by simp
  with r(1) delivers_fetched [OF r(2), unfolded concat_pieces [OF B]] show ?thesis by blast
qed

text \<open>A server with a file of 40 bytes, which brings 17 bytes at first, and one byte at a time after that.\<close>

definition file_server :: http_net where
  "file_server = \<lparr>net_hal = live_hal\<lparr>net_connect := (\<lambda>_. 0), net_write := (\<lambda>t data w. int (length data))\<rparr>,
     tcp_in = response_bytes (ascii ''HTTP/1.1 200 OK'') (ascii ''Content-Length: 40'') (replicate 40 7),
     tcp_take = (\<lambda>n. if n = 0 then 17 else 1), tcp_reads = 0\<rparr>"

lemma file_server_serves: "served (ascii ''http://u/f'') (replicate 40 7) file_server"
proof -
  have "utils_parse_url (ascii ''http://u/f'') = Some (SUCCESS_RETURN, ascii ''u'', ascii ''/f'')"
    "length (get_request (ascii ''u'') (ascii ''/f'') ACCEPT_HEADER) < 1024" by code_simp+
  moreover have "http_response (ascii ''HTTP/1.1 200 OK'') (ascii ''Content-Length: 40'') (replicate 40 7)"
  proof -
    have cl: "ascii ''Content-Length: 40'' = [] @ ascii ''Content-Length: '' @ dec_digits (length (replicate 40 (7 :: byte))) @ []"
      "find_text (ascii ''Content-Length'') ([] @ ascii ''Content-Length'') = Some (length ([] :: cstr))" by code_simp+
    have "find_text CRLF (ascii ''HTTP/1.1 200 OK'' @ CRLF) = Some (length (ascii ''HTTP/1.1 200 OK''))"
      "find_text (CRLF @ CRLF) (ascii ''Content-Length: 40'' @ CRLF @ CRLF) = Some (length (ascii ''Content-Length: 40''))" by code_simp+
    moreover have "\<exists>H1 H2. ascii ''Content-Length: 40'' = H1 @ ascii ''Content-Length: '' @ dec_digits (length (replicate 40 (7 :: byte))) @ H2 \<and>
        (H2 = [] \<or> \<not> digit_char (hd H2)) \<and> find_text (ascii ''Content-Length'') (H1 @ ascii ''Content-Length'') = Some (length H1)"
      using cl by blast
    moreover have "text_ok (ascii ''HTTP/1.1 200 OK'')" "text_ok (ascii ''Content-Length: 40'')" by (simp_all add: text_ok_ascii)
    ultimately show ?thesis unfolding http_response_def by simp
  qed
  moreover have "int (length (ascii ''HTTP/1.1 200 OK'') + 2) \<le> tcp_take file_server (tcp_reads file_server)" "\<forall>t. 0 < tcp_take file_server t" "net_takes (net_hal file_server)"
    "tcp_in file_server = response_bytes (ascii ''HTTP/1.1 200 OK'') (ascii ''Content-Length: 40'') (replicate 40 7)"
    by (simp_all add: file_server_def net_takes_def)
  ultimately show ?thesis unfolding served_def by blast
qed

theorem ota_over_http_witness:
  "\<exists>replies s w1 w2. fetch_requests (ascii ''http://u/f'') (replicate 34 0) 3 (length (pieces_of 33 (replicate 40 7))) (new_http, new_http_data, file_server) =
       Some (replies, s) \<and>
     fetch_all (Some 7) replies (lamp_world (lamp_ota (hex_text (md5 (replicate 40 7))))) = Some ([33, 7], w1) \<and>
     fetched_bytes replies [33, 7] = replicate 40 7 \<and>
     IOT_OTA_IsFetchFinish (Some 7) w1 = Some (1, w1) \<and>
     IOT_OTA_Ioctl (Some 7) IOT_OTAG_CHECK_FIRMWARE (Some (Mem True [9, 9, 9, 9])) 4 w1 = Some ((0, Some (Mem True [1, 0, 0, 0])), w2)"
proof -
  let ?h = "lamp_ota (hex_text (md5 (replicate 40 7)))"
  have "length (md5 (replicate 40 7)) = 16" using md5_alg.length_H by (simp add: MD5_DIGEST_SIZE_def)
  then have md5: "str_of (md5sum ?h) = Some (hex_text (md5 (replicate 40 7)))" by (simp add: lamp_ota_def hex_text_ok)
  have word: "PUT_UINT32_LE 1 = [1, 0, 0, 0]" by code_simp
  have pieces: "map (\<lambda>d. int (length d)) (pieces_of 33 (replicate 40 (7 :: byte))) = [33, 7]" by code_simp
  have "map_option odc_url (ch_fetch ?h) = Some (ascii ''http://u/f'')" "size_file ?h = of_nat (length (replicate 40 (7 :: byte)))"
    "replicate 40 (7 :: byte) \<noteq> []" "length (replicate 40 (7 :: byte)) \<le> 2147483647" by (simp_all add: lamp_ota_def)
  from ota_over_http [OF lamp_world_ready this(1) file_server_serves this(3,4,2) md5, of "[9, 9, 9, 9]" "replicate 34 0" 33 3]
  show ?thesis by (simp add: pieces word)
qed

end
