(* ===== verification/Infra_AES.thy ===== *)
theory Infra_AES
  imports Infra_Digest
begin

text \<open>
  The block cipher AES, \<open>src/src/infra/infra_aes.c\<close>, with its modes CBC and CFB, and its user
  \<open>src/src/wifi_provision/frameworks/utils/awss_aes_wrapper.c\<close>. A build makes the tables at run time (the configuration as it
  is) or has them in ROM (\<open>INFRA_AES_ROM_TABLES\<close>); both are modelled. No hardware support, no CTR mode.
\<close>

subsection \<open>Tables in ROM\<close>

type_synonym V = "byte \<times> byte \<times> byte \<times> byte"

text \<open>The four readings of an entry of \<open>FT\<close> and \<open>RT\<close> as a number.\<close>

fun V0 :: "V \<Rightarrow> u32" where
  "V0 (a, b, c, d) = push_bit 24 (ucast a) OR push_bit 16 (ucast b) OR push_bit 8 (ucast c) OR ucast d"

fun V1 :: "V \<Rightarrow> u32" where
  "V1 (a, b, c, d) = push_bit 24 (ucast b) OR push_bit 16 (ucast c) OR push_bit 8 (ucast d) OR ucast a"

fun V2 :: "V \<Rightarrow> u32" where
  "V2 (a, b, c, d) = push_bit 24 (ucast c) OR push_bit 16 (ucast d) OR push_bit 8 (ucast a) OR ucast b"

fun V3 :: "V \<Rightarrow> u32" where
  "V3 (a, b, c, d) = push_bit 24 (ucast d) OR push_bit 16 (ucast a) OR push_bit 8 (ucast b) OR ucast c"

definition FSb_rom :: "byte list" where
  "FSb_rom =
    [0x63, 0x7C, 0x77, 0x7B, 0xF2, 0x6B, 0x6F, 0xC5, 0x30, 0x01, 0x67, 0x2B, 0xFE, 0xD7, 0xAB, 0x76,
     0xCA, 0x82, 0xC9, 0x7D, 0xFA, 0x59, 0x47, 0xF0, 0xAD, 0xD4, 0xA2, 0xAF, 0x9C, 0xA4, 0x72, 0xC0,
     0xB7, 0xFD, 0x93, 0x26, 0x36, 0x3F, 0xF7, 0xCC, 0x34, 0xA5, 0xE5, 0xF1, 0x71, 0xD8, 0x31, 0x15,
     0x04, 0xC7, 0x23, 0xC3, 0x18, 0x96, 0x05, 0x9A, 0x07, 0x12, 0x80, 0xE2, 0xEB, 0x27, 0xB2, 0x75,
     0x09, 0x83, 0x2C, 0x1A, 0x1B, 0x6E, 0x5A, 0xA0, 0x52, 0x3B, 0xD6, 0xB3, 0x29, 0xE3, 0x2F, 0x84,
     0x53, 0xD1, 0x00, 0xED, 0x20, 0xFC, 0xB1, 0x5B, 0x6A, 0xCB, 0xBE, 0x39, 0x4A, 0x4C, 0x58, 0xCF,
     0xD0, 0xEF, 0xAA, 0xFB, 0x43, 0x4D, 0x33, 0x85, 0x45, 0xF9, 0x02, 0x7F, 0x50, 0x3C, 0x9F, 0xA8,
     0x51, 0xA3, 0x40, 0x8F, 0x92, 0x9D, 0x38, 0xF5, 0xBC, 0xB6, 0xDA, 0x21, 0x10, 0xFF, 0xF3, 0xD2,
     0xCD, 0x0C, 0x13, 0xEC, 0x5F, 0x97, 0x44, 0x17, 0xC4, 0xA7, 0x7E, 0x3D, 0x64, 0x5D, 0x19, 0x73,
     0x60, 0x81, 0x4F, 0xDC, 0x22, 0x2A, 0x90, 0x88, 0x46, 0xEE, 0xB8, 0x14, 0xDE, 0x5E, 0x0B, 0xDB,
     0xE0, 0x32, 0x3A, 0x0A, 0x49, 0x06, 0x24, 0x5C, 0xC2, 0xD3, 0xAC, 0x62, 0x91, 0x95, 0xE4, 0x79,
     0xE7, 0xC8, 0x37, 0x6D, 0x8D, 0xD5, 0x4E, 0xA9, 0x6C, 0x56, 0xF4, 0xEA, 0x65, 0x7A, 0xAE, 0x08,
     0xBA, 0x78, 0x25, 0x2E, 0x1C, 0xA6, 0xB4, 0xC6, 0xE8, 0xDD, 0x74, 0x1F, 0x4B, 0xBD, 0x8B, 0x8A,
     0x70, 0x3E, 0xB5, 0x66, 0x48, 0x03, 0xF6, 0x0E, 0x61, 0x35, 0x57, 0xB9, 0x86, 0xC1, 0x1D, 0x9E,
     0xE1, 0xF8, 0x98, 0x11, 0x69, 0xD9, 0x8E, 0x94, 0x9B, 0x1E, 0x87, 0xE9, 0xCE, 0x55, 0x28, 0xDF,
     0x8C, 0xA1, 0x89, 0x0D, 0xBF, 0xE6, 0x42, 0x68, 0x41, 0x99, 0x2D, 0x0F, 0xB0, 0x54, 0xBB, 0x16]"

definition FT_rom :: "V list" where
  "FT_rom =
    [(0xA5, 0x63, 0x63, 0xC6), (0x84, 0x7C, 0x7C, 0xF8), (0x99, 0x77, 0x77, 0xEE), (0x8D, 0x7B, 0x7B, 0xF6),
     (0x0D, 0xF2, 0xF2, 0xFF), (0xBD, 0x6B, 0x6B, 0xD6), (0xB1, 0x6F, 0x6F, 0xDE), (0x54, 0xC5, 0xC5, 0x91),
     (0x50, 0x30, 0x30, 0x60), (0x03, 0x01, 0x01, 0x02), (0xA9, 0x67, 0x67, 0xCE), (0x7D, 0x2B, 0x2B, 0x56),
     (0x19, 0xFE, 0xFE, 0xE7), (0x62, 0xD7, 0xD7, 0xB5), (0xE6, 0xAB, 0xAB, 0x4D), (0x9A, 0x76, 0x76, 0xEC),
     (0x45, 0xCA, 0xCA, 0x8F), (0x9D, 0x82, 0x82, 0x1F), (0x40, 0xC9, 0xC9, 0x89), (0x87, 0x7D, 0x7D, 0xFA),
     (0x15, 0xFA, 0xFA, 0xEF), (0xEB, 0x59, 0x59, 0xB2), (0xC9, 0x47, 0x47, 0x8E), (0x0B, 0xF0, 0xF0, 0xFB),
     (0xEC, 0xAD, 0xAD, 0x41), (0x67, 0xD4, 0xD4, 0xB3), (0xFD, 0xA2, 0xA2, 0x5F), (0xEA, 0xAF, 0xAF, 0x45),
     (0xBF, 0x9C, 0x9C, 0x23), (0xF7, 0xA4, 0xA4, 0x53), (0x96, 0x72, 0x72, 0xE4), (0x5B, 0xC0, 0xC0, 0x9B),
     (0xC2, 0xB7, 0xB7, 0x75), (0x1C, 0xFD, 0xFD, 0xE1), (0xAE, 0x93, 0x93, 0x3D), (0x6A, 0x26, 0x26, 0x4C),
     (0x5A, 0x36, 0x36, 0x6C), (0x41, 0x3F, 0x3F, 0x7E), (0x02, 0xF7, 0xF7, 0xF5), (0x4F, 0xCC, 0xCC, 0x83),
     (0x5C, 0x34, 0x34, 0x68), (0xF4, 0xA5, 0xA5, 0x51), (0x34, 0xE5, 0xE5, 0xD1), (0x08, 0xF1, 0xF1, 0xF9),
     (0x93, 0x71, 0x71, 0xE2), (0x73, 0xD8, 0xD8, 0xAB), (0x53, 0x31, 0x31, 0x62), (0x3F, 0x15, 0x15, 0x2A),
     (0x0C, 0x04, 0x04, 0x08), (0x52, 0xC7, 0xC7, 0x95), (0x65, 0x23, 0x23, 0x46), (0x5E, 0xC3, 0xC3, 0x9D),
     (0x28, 0x18, 0x18, 0x30), (0xA1, 0x96, 0x96, 0x37), (0x0F, 0x05, 0x05, 0x0A), (0xB5, 0x9A, 0x9A, 0x2F),
     (0x09, 0x07, 0x07, 0x0E), (0x36, 0x12, 0x12, 0x24), (0x9B, 0x80, 0x80, 0x1B), (0x3D, 0xE2, 0xE2, 0xDF),
     (0x26, 0xEB, 0xEB, 0xCD), (0x69, 0x27, 0x27, 0x4E), (0xCD, 0xB2, 0xB2, 0x7F), (0x9F, 0x75, 0x75, 0xEA),
     (0x1B, 0x09, 0x09, 0x12), (0x9E, 0x83, 0x83, 0x1D), (0x74, 0x2C, 0x2C, 0x58), (0x2E, 0x1A, 0x1A, 0x34),
     (0x2D, 0x1B, 0x1B, 0x36), (0xB2, 0x6E, 0x6E, 0xDC), (0xEE, 0x5A, 0x5A, 0xB4), (0xFB, 0xA0, 0xA0, 0x5B),
     (0xF6, 0x52, 0x52, 0xA4), (0x4D, 0x3B, 0x3B, 0x76), (0x61, 0xD6, 0xD6, 0xB7), (0xCE, 0xB3, 0xB3, 0x7D),
     (0x7B, 0x29, 0x29, 0x52), (0x3E, 0xE3, 0xE3, 0xDD), (0x71, 0x2F, 0x2F, 0x5E), (0x97, 0x84, 0x84, 0x13),
     (0xF5, 0x53, 0x53, 0xA6), (0x68, 0xD1, 0xD1, 0xB9), (0x00, 0x00, 0x00, 0x00), (0x2C, 0xED, 0xED, 0xC1),
     (0x60, 0x20, 0x20, 0x40), (0x1F, 0xFC, 0xFC, 0xE3), (0xC8, 0xB1, 0xB1, 0x79), (0xED, 0x5B, 0x5B, 0xB6),
     (0xBE, 0x6A, 0x6A, 0xD4), (0x46, 0xCB, 0xCB, 0x8D), (0xD9, 0xBE, 0xBE, 0x67), (0x4B, 0x39, 0x39, 0x72),
     (0xDE, 0x4A, 0x4A, 0x94), (0xD4, 0x4C, 0x4C, 0x98), (0xE8, 0x58, 0x58, 0xB0), (0x4A, 0xCF, 0xCF, 0x85),
     (0x6B, 0xD0, 0xD0, 0xBB), (0x2A, 0xEF, 0xEF, 0xC5), (0xE5, 0xAA, 0xAA, 0x4F), (0x16, 0xFB, 0xFB, 0xED),
     (0xC5, 0x43, 0x43, 0x86), (0xD7, 0x4D, 0x4D, 0x9A), (0x55, 0x33, 0x33, 0x66), (0x94, 0x85, 0x85, 0x11),
     (0xCF, 0x45, 0x45, 0x8A), (0x10, 0xF9, 0xF9, 0xE9), (0x06, 0x02, 0x02, 0x04), (0x81, 0x7F, 0x7F, 0xFE),
     (0xF0, 0x50, 0x50, 0xA0), (0x44, 0x3C, 0x3C, 0x78), (0xBA, 0x9F, 0x9F, 0x25), (0xE3, 0xA8, 0xA8, 0x4B),
     (0xF3, 0x51, 0x51, 0xA2), (0xFE, 0xA3, 0xA3, 0x5D), (0xC0, 0x40, 0x40, 0x80), (0x8A, 0x8F, 0x8F, 0x05),
     (0xAD, 0x92, 0x92, 0x3F), (0xBC, 0x9D, 0x9D, 0x21), (0x48, 0x38, 0x38, 0x70), (0x04, 0xF5, 0xF5, 0xF1),
     (0xDF, 0xBC, 0xBC, 0x63), (0xC1, 0xB6, 0xB6, 0x77), (0x75, 0xDA, 0xDA, 0xAF), (0x63, 0x21, 0x21, 0x42),
     (0x30, 0x10, 0x10, 0x20), (0x1A, 0xFF, 0xFF, 0xE5), (0x0E, 0xF3, 0xF3, 0xFD), (0x6D, 0xD2, 0xD2, 0xBF),
     (0x4C, 0xCD, 0xCD, 0x81), (0x14, 0x0C, 0x0C, 0x18), (0x35, 0x13, 0x13, 0x26), (0x2F, 0xEC, 0xEC, 0xC3),
     (0xE1, 0x5F, 0x5F, 0xBE), (0xA2, 0x97, 0x97, 0x35), (0xCC, 0x44, 0x44, 0x88), (0x39, 0x17, 0x17, 0x2E),
     (0x57, 0xC4, 0xC4, 0x93), (0xF2, 0xA7, 0xA7, 0x55), (0x82, 0x7E, 0x7E, 0xFC), (0x47, 0x3D, 0x3D, 0x7A),
     (0xAC, 0x64, 0x64, 0xC8), (0xE7, 0x5D, 0x5D, 0xBA), (0x2B, 0x19, 0x19, 0x32), (0x95, 0x73, 0x73, 0xE6),
     (0xA0, 0x60, 0x60, 0xC0), (0x98, 0x81, 0x81, 0x19), (0xD1, 0x4F, 0x4F, 0x9E), (0x7F, 0xDC, 0xDC, 0xA3),
     (0x66, 0x22, 0x22, 0x44), (0x7E, 0x2A, 0x2A, 0x54), (0xAB, 0x90, 0x90, 0x3B), (0x83, 0x88, 0x88, 0x0B),
     (0xCA, 0x46, 0x46, 0x8C), (0x29, 0xEE, 0xEE, 0xC7), (0xD3, 0xB8, 0xB8, 0x6B), (0x3C, 0x14, 0x14, 0x28),
     (0x79, 0xDE, 0xDE, 0xA7), (0xE2, 0x5E, 0x5E, 0xBC), (0x1D, 0x0B, 0x0B, 0x16), (0x76, 0xDB, 0xDB, 0xAD),
     (0x3B, 0xE0, 0xE0, 0xDB), (0x56, 0x32, 0x32, 0x64), (0x4E, 0x3A, 0x3A, 0x74), (0x1E, 0x0A, 0x0A, 0x14),
     (0xDB, 0x49, 0x49, 0x92), (0x0A, 0x06, 0x06, 0x0C), (0x6C, 0x24, 0x24, 0x48), (0xE4, 0x5C, 0x5C, 0xB8),
     (0x5D, 0xC2, 0xC2, 0x9F), (0x6E, 0xD3, 0xD3, 0xBD), (0xEF, 0xAC, 0xAC, 0x43), (0xA6, 0x62, 0x62, 0xC4),
     (0xA8, 0x91, 0x91, 0x39), (0xA4, 0x95, 0x95, 0x31), (0x37, 0xE4, 0xE4, 0xD3), (0x8B, 0x79, 0x79, 0xF2),
     (0x32, 0xE7, 0xE7, 0xD5), (0x43, 0xC8, 0xC8, 0x8B), (0x59, 0x37, 0x37, 0x6E), (0xB7, 0x6D, 0x6D, 0xDA),
     (0x8C, 0x8D, 0x8D, 0x01), (0x64, 0xD5, 0xD5, 0xB1), (0xD2, 0x4E, 0x4E, 0x9C), (0xE0, 0xA9, 0xA9, 0x49),
     (0xB4, 0x6C, 0x6C, 0xD8), (0xFA, 0x56, 0x56, 0xAC), (0x07, 0xF4, 0xF4, 0xF3), (0x25, 0xEA, 0xEA, 0xCF),
     (0xAF, 0x65, 0x65, 0xCA), (0x8E, 0x7A, 0x7A, 0xF4), (0xE9, 0xAE, 0xAE, 0x47), (0x18, 0x08, 0x08, 0x10),
     (0xD5, 0xBA, 0xBA, 0x6F), (0x88, 0x78, 0x78, 0xF0), (0x6F, 0x25, 0x25, 0x4A), (0x72, 0x2E, 0x2E, 0x5C),
     (0x24, 0x1C, 0x1C, 0x38), (0xF1, 0xA6, 0xA6, 0x57), (0xC7, 0xB4, 0xB4, 0x73), (0x51, 0xC6, 0xC6, 0x97),
     (0x23, 0xE8, 0xE8, 0xCB), (0x7C, 0xDD, 0xDD, 0xA1), (0x9C, 0x74, 0x74, 0xE8), (0x21, 0x1F, 0x1F, 0x3E),
     (0xDD, 0x4B, 0x4B, 0x96), (0xDC, 0xBD, 0xBD, 0x61), (0x86, 0x8B, 0x8B, 0x0D), (0x85, 0x8A, 0x8A, 0x0F),
     (0x90, 0x70, 0x70, 0xE0), (0x42, 0x3E, 0x3E, 0x7C), (0xC4, 0xB5, 0xB5, 0x71), (0xAA, 0x66, 0x66, 0xCC),
     (0xD8, 0x48, 0x48, 0x90), (0x05, 0x03, 0x03, 0x06), (0x01, 0xF6, 0xF6, 0xF7), (0x12, 0x0E, 0x0E, 0x1C),
     (0xA3, 0x61, 0x61, 0xC2), (0x5F, 0x35, 0x35, 0x6A), (0xF9, 0x57, 0x57, 0xAE), (0xD0, 0xB9, 0xB9, 0x69),
     (0x91, 0x86, 0x86, 0x17), (0x58, 0xC1, 0xC1, 0x99), (0x27, 0x1D, 0x1D, 0x3A), (0xB9, 0x9E, 0x9E, 0x27),
     (0x38, 0xE1, 0xE1, 0xD9), (0x13, 0xF8, 0xF8, 0xEB), (0xB3, 0x98, 0x98, 0x2B), (0x33, 0x11, 0x11, 0x22),
     (0xBB, 0x69, 0x69, 0xD2), (0x70, 0xD9, 0xD9, 0xA9), (0x89, 0x8E, 0x8E, 0x07), (0xA7, 0x94, 0x94, 0x33),
     (0xB6, 0x9B, 0x9B, 0x2D), (0x22, 0x1E, 0x1E, 0x3C), (0x92, 0x87, 0x87, 0x15), (0x20, 0xE9, 0xE9, 0xC9),
     (0x49, 0xCE, 0xCE, 0x87), (0xFF, 0x55, 0x55, 0xAA), (0x78, 0x28, 0x28, 0x50), (0x7A, 0xDF, 0xDF, 0xA5),
     (0x8F, 0x8C, 0x8C, 0x03), (0xF8, 0xA1, 0xA1, 0x59), (0x80, 0x89, 0x89, 0x09), (0x17, 0x0D, 0x0D, 0x1A),
     (0xDA, 0xBF, 0xBF, 0x65), (0x31, 0xE6, 0xE6, 0xD7), (0xC6, 0x42, 0x42, 0x84), (0xB8, 0x68, 0x68, 0xD0),
     (0xC3, 0x41, 0x41, 0x82), (0xB0, 0x99, 0x99, 0x29), (0x77, 0x2D, 0x2D, 0x5A), (0x11, 0x0F, 0x0F, 0x1E),
     (0xCB, 0xB0, 0xB0, 0x7B), (0xFC, 0x54, 0x54, 0xA8), (0xD6, 0xBB, 0xBB, 0x6D), (0x3A, 0x16, 0x16, 0x2C)]"

definition RSb_rom :: "byte list" where
  "RSb_rom =
    [0x52, 0x09, 0x6A, 0xD5, 0x30, 0x36, 0xA5, 0x38, 0xBF, 0x40, 0xA3, 0x9E, 0x81, 0xF3, 0xD7, 0xFB,
     0x7C, 0xE3, 0x39, 0x82, 0x9B, 0x2F, 0xFF, 0x87, 0x34, 0x8E, 0x43, 0x44, 0xC4, 0xDE, 0xE9, 0xCB,
     0x54, 0x7B, 0x94, 0x32, 0xA6, 0xC2, 0x23, 0x3D, 0xEE, 0x4C, 0x95, 0x0B, 0x42, 0xFA, 0xC3, 0x4E,
     0x08, 0x2E, 0xA1, 0x66, 0x28, 0xD9, 0x24, 0xB2, 0x76, 0x5B, 0xA2, 0x49, 0x6D, 0x8B, 0xD1, 0x25,
     0x72, 0xF8, 0xF6, 0x64, 0x86, 0x68, 0x98, 0x16, 0xD4, 0xA4, 0x5C, 0xCC, 0x5D, 0x65, 0xB6, 0x92,
     0x6C, 0x70, 0x48, 0x50, 0xFD, 0xED, 0xB9, 0xDA, 0x5E, 0x15, 0x46, 0x57, 0xA7, 0x8D, 0x9D, 0x84,
     0x90, 0xD8, 0xAB, 0x00, 0x8C, 0xBC, 0xD3, 0x0A, 0xF7, 0xE4, 0x58, 0x05, 0xB8, 0xB3, 0x45, 0x06,
     0xD0, 0x2C, 0x1E, 0x8F, 0xCA, 0x3F, 0x0F, 0x02, 0xC1, 0xAF, 0xBD, 0x03, 0x01, 0x13, 0x8A, 0x6B,
     0x3A, 0x91, 0x11, 0x41, 0x4F, 0x67, 0xDC, 0xEA, 0x97, 0xF2, 0xCF, 0xCE, 0xF0, 0xB4, 0xE6, 0x73,
     0x96, 0xAC, 0x74, 0x22, 0xE7, 0xAD, 0x35, 0x85, 0xE2, 0xF9, 0x37, 0xE8, 0x1C, 0x75, 0xDF, 0x6E,
     0x47, 0xF1, 0x1A, 0x71, 0x1D, 0x29, 0xC5, 0x89, 0x6F, 0xB7, 0x62, 0x0E, 0xAA, 0x18, 0xBE, 0x1B,
     0xFC, 0x56, 0x3E, 0x4B, 0xC6, 0xD2, 0x79, 0x20, 0x9A, 0xDB, 0xC0, 0xFE, 0x78, 0xCD, 0x5A, 0xF4,
     0x1F, 0xDD, 0xA8, 0x33, 0x88, 0x07, 0xC7, 0x31, 0xB1, 0x12, 0x10, 0x59, 0x27, 0x80, 0xEC, 0x5F,
     0x60, 0x51, 0x7F, 0xA9, 0x19, 0xB5, 0x4A, 0x0D, 0x2D, 0xE5, 0x7A, 0x9F, 0x93, 0xC9, 0x9C, 0xEF,
     0xA0, 0xE0, 0x3B, 0x4D, 0xAE, 0x2A, 0xF5, 0xB0, 0xC8, 0xEB, 0xBB, 0x3C, 0x83, 0x53, 0x99, 0x61,
     0x17, 0x2B, 0x04, 0x7E, 0xBA, 0x77, 0xD6, 0x26, 0xE1, 0x69, 0x14, 0x63, 0x55, 0x21, 0x0C, 0x7D]"

definition RT_rom :: "V list" where
  "RT_rom =
    [(0x50, 0xA7, 0xF4, 0x51), (0x53, 0x65, 0x41, 0x7E), (0xC3, 0xA4, 0x17, 0x1A), (0x96, 0x5E, 0x27, 0x3A),
     (0xCB, 0x6B, 0xAB, 0x3B), (0xF1, 0x45, 0x9D, 0x1F), (0xAB, 0x58, 0xFA, 0xAC), (0x93, 0x03, 0xE3, 0x4B),
     (0x55, 0xFA, 0x30, 0x20), (0xF6, 0x6D, 0x76, 0xAD), (0x91, 0x76, 0xCC, 0x88), (0x25, 0x4C, 0x02, 0xF5),
     (0xFC, 0xD7, 0xE5, 0x4F), (0xD7, 0xCB, 0x2A, 0xC5), (0x80, 0x44, 0x35, 0x26), (0x8F, 0xA3, 0x62, 0xB5),
     (0x49, 0x5A, 0xB1, 0xDE), (0x67, 0x1B, 0xBA, 0x25), (0x98, 0x0E, 0xEA, 0x45), (0xE1, 0xC0, 0xFE, 0x5D),
     (0x02, 0x75, 0x2F, 0xC3), (0x12, 0xF0, 0x4C, 0x81), (0xA3, 0x97, 0x46, 0x8D), (0xC6, 0xF9, 0xD3, 0x6B),
     (0xE7, 0x5F, 0x8F, 0x03), (0x95, 0x9C, 0x92, 0x15), (0xEB, 0x7A, 0x6D, 0xBF), (0xDA, 0x59, 0x52, 0x95),
     (0x2D, 0x83, 0xBE, 0xD4), (0xD3, 0x21, 0x74, 0x58), (0x29, 0x69, 0xE0, 0x49), (0x44, 0xC8, 0xC9, 0x8E),
     (0x6A, 0x89, 0xC2, 0x75), (0x78, 0x79, 0x8E, 0xF4), (0x6B, 0x3E, 0x58, 0x99), (0xDD, 0x71, 0xB9, 0x27),
     (0xB6, 0x4F, 0xE1, 0xBE), (0x17, 0xAD, 0x88, 0xF0), (0x66, 0xAC, 0x20, 0xC9), (0xB4, 0x3A, 0xCE, 0x7D),
     (0x18, 0x4A, 0xDF, 0x63), (0x82, 0x31, 0x1A, 0xE5), (0x60, 0x33, 0x51, 0x97), (0x45, 0x7F, 0x53, 0x62),
     (0xE0, 0x77, 0x64, 0xB1), (0x84, 0xAE, 0x6B, 0xBB), (0x1C, 0xA0, 0x81, 0xFE), (0x94, 0x2B, 0x08, 0xF9),
     (0x58, 0x68, 0x48, 0x70), (0x19, 0xFD, 0x45, 0x8F), (0x87, 0x6C, 0xDE, 0x94), (0xB7, 0xF8, 0x7B, 0x52),
     (0x23, 0xD3, 0x73, 0xAB), (0xE2, 0x02, 0x4B, 0x72), (0x57, 0x8F, 0x1F, 0xE3), (0x2A, 0xAB, 0x55, 0x66),
     (0x07, 0x28, 0xEB, 0xB2), (0x03, 0xC2, 0xB5, 0x2F), (0x9A, 0x7B, 0xC5, 0x86), (0xA5, 0x08, 0x37, 0xD3),
     (0xF2, 0x87, 0x28, 0x30), (0xB2, 0xA5, 0xBF, 0x23), (0xBA, 0x6A, 0x03, 0x02), (0x5C, 0x82, 0x16, 0xED),
     (0x2B, 0x1C, 0xCF, 0x8A), (0x92, 0xB4, 0x79, 0xA7), (0xF0, 0xF2, 0x07, 0xF3), (0xA1, 0xE2, 0x69, 0x4E),
     (0xCD, 0xF4, 0xDA, 0x65), (0xD5, 0xBE, 0x05, 0x06), (0x1F, 0x62, 0x34, 0xD1), (0x8A, 0xFE, 0xA6, 0xC4),
     (0x9D, 0x53, 0x2E, 0x34), (0xA0, 0x55, 0xF3, 0xA2), (0x32, 0xE1, 0x8A, 0x05), (0x75, 0xEB, 0xF6, 0xA4),
     (0x39, 0xEC, 0x83, 0x0B), (0xAA, 0xEF, 0x60, 0x40), (0x06, 0x9F, 0x71, 0x5E), (0x51, 0x10, 0x6E, 0xBD),
     (0xF9, 0x8A, 0x21, 0x3E), (0x3D, 0x06, 0xDD, 0x96), (0xAE, 0x05, 0x3E, 0xDD), (0x46, 0xBD, 0xE6, 0x4D),
     (0xB5, 0x8D, 0x54, 0x91), (0x05, 0x5D, 0xC4, 0x71), (0x6F, 0xD4, 0x06, 0x04), (0xFF, 0x15, 0x50, 0x60),
     (0x24, 0xFB, 0x98, 0x19), (0x97, 0xE9, 0xBD, 0xD6), (0xCC, 0x43, 0x40, 0x89), (0x77, 0x9E, 0xD9, 0x67),
     (0xBD, 0x42, 0xE8, 0xB0), (0x88, 0x8B, 0x89, 0x07), (0x38, 0x5B, 0x19, 0xE7), (0xDB, 0xEE, 0xC8, 0x79),
     (0x47, 0x0A, 0x7C, 0xA1), (0xE9, 0x0F, 0x42, 0x7C), (0xC9, 0x1E, 0x84, 0xF8), (0x00, 0x00, 0x00, 0x00),
     (0x83, 0x86, 0x80, 0x09), (0x48, 0xED, 0x2B, 0x32), (0xAC, 0x70, 0x11, 0x1E), (0x4E, 0x72, 0x5A, 0x6C),
     (0xFB, 0xFF, 0x0E, 0xFD), (0x56, 0x38, 0x85, 0x0F), (0x1E, 0xD5, 0xAE, 0x3D), (0x27, 0x39, 0x2D, 0x36),
     (0x64, 0xD9, 0x0F, 0x0A), (0x21, 0xA6, 0x5C, 0x68), (0xD1, 0x54, 0x5B, 0x9B), (0x3A, 0x2E, 0x36, 0x24),
     (0xB1, 0x67, 0x0A, 0x0C), (0x0F, 0xE7, 0x57, 0x93), (0xD2, 0x96, 0xEE, 0xB4), (0x9E, 0x91, 0x9B, 0x1B),
     (0x4F, 0xC5, 0xC0, 0x80), (0xA2, 0x20, 0xDC, 0x61), (0x69, 0x4B, 0x77, 0x5A), (0x16, 0x1A, 0x12, 0x1C),
     (0x0A, 0xBA, 0x93, 0xE2), (0xE5, 0x2A, 0xA0, 0xC0), (0x43, 0xE0, 0x22, 0x3C), (0x1D, 0x17, 0x1B, 0x12),
     (0x0B, 0x0D, 0x09, 0x0E), (0xAD, 0xC7, 0x8B, 0xF2), (0xB9, 0xA8, 0xB6, 0x2D), (0xC8, 0xA9, 0x1E, 0x14),
     (0x85, 0x19, 0xF1, 0x57), (0x4C, 0x07, 0x75, 0xAF), (0xBB, 0xDD, 0x99, 0xEE), (0xFD, 0x60, 0x7F, 0xA3),
     (0x9F, 0x26, 0x01, 0xF7), (0xBC, 0xF5, 0x72, 0x5C), (0xC5, 0x3B, 0x66, 0x44), (0x34, 0x7E, 0xFB, 0x5B),
     (0x76, 0x29, 0x43, 0x8B), (0xDC, 0xC6, 0x23, 0xCB), (0x68, 0xFC, 0xED, 0xB6), (0x63, 0xF1, 0xE4, 0xB8),
     (0xCA, 0xDC, 0x31, 0xD7), (0x10, 0x85, 0x63, 0x42), (0x40, 0x22, 0x97, 0x13), (0x20, 0x11, 0xC6, 0x84),
     (0x7D, 0x24, 0x4A, 0x85), (0xF8, 0x3D, 0xBB, 0xD2), (0x11, 0x32, 0xF9, 0xAE), (0x6D, 0xA1, 0x29, 0xC7),
     (0x4B, 0x2F, 0x9E, 0x1D), (0xF3, 0x30, 0xB2, 0xDC), (0xEC, 0x52, 0x86, 0x0D), (0xD0, 0xE3, 0xC1, 0x77),
     (0x6C, 0x16, 0xB3, 0x2B), (0x99, 0xB9, 0x70, 0xA9), (0xFA, 0x48, 0x94, 0x11), (0x22, 0x64, 0xE9, 0x47),
     (0xC4, 0x8C, 0xFC, 0xA8), (0x1A, 0x3F, 0xF0, 0xA0), (0xD8, 0x2C, 0x7D, 0x56), (0xEF, 0x90, 0x33, 0x22),
     (0xC7, 0x4E, 0x49, 0x87), (0xC1, 0xD1, 0x38, 0xD9), (0xFE, 0xA2, 0xCA, 0x8C), (0x36, 0x0B, 0xD4, 0x98),
     (0xCF, 0x81, 0xF5, 0xA6), (0x28, 0xDE, 0x7A, 0xA5), (0x26, 0x8E, 0xB7, 0xDA), (0xA4, 0xBF, 0xAD, 0x3F),
     (0xE4, 0x9D, 0x3A, 0x2C), (0x0D, 0x92, 0x78, 0x50), (0x9B, 0xCC, 0x5F, 0x6A), (0x62, 0x46, 0x7E, 0x54),
     (0xC2, 0x13, 0x8D, 0xF6), (0xE8, 0xB8, 0xD8, 0x90), (0x5E, 0xF7, 0x39, 0x2E), (0xF5, 0xAF, 0xC3, 0x82),
     (0xBE, 0x80, 0x5D, 0x9F), (0x7C, 0x93, 0xD0, 0x69), (0xA9, 0x2D, 0xD5, 0x6F), (0xB3, 0x12, 0x25, 0xCF),
     (0x3B, 0x99, 0xAC, 0xC8), (0xA7, 0x7D, 0x18, 0x10), (0x6E, 0x63, 0x9C, 0xE8), (0x7B, 0xBB, 0x3B, 0xDB),
     (0x09, 0x78, 0x26, 0xCD), (0xF4, 0x18, 0x59, 0x6E), (0x01, 0xB7, 0x9A, 0xEC), (0xA8, 0x9A, 0x4F, 0x83),
     (0x65, 0x6E, 0x95, 0xE6), (0x7E, 0xE6, 0xFF, 0xAA), (0x08, 0xCF, 0xBC, 0x21), (0xE6, 0xE8, 0x15, 0xEF),
     (0xD9, 0x9B, 0xE7, 0xBA), (0xCE, 0x36, 0x6F, 0x4A), (0xD4, 0x09, 0x9F, 0xEA), (0xD6, 0x7C, 0xB0, 0x29),
     (0xAF, 0xB2, 0xA4, 0x31), (0x31, 0x23, 0x3F, 0x2A), (0x30, 0x94, 0xA5, 0xC6), (0xC0, 0x66, 0xA2, 0x35),
     (0x37, 0xBC, 0x4E, 0x74), (0xA6, 0xCA, 0x82, 0xFC), (0xB0, 0xD0, 0x90, 0xE0), (0x15, 0xD8, 0xA7, 0x33),
     (0x4A, 0x98, 0x04, 0xF1), (0xF7, 0xDA, 0xEC, 0x41), (0x0E, 0x50, 0xCD, 0x7F), (0x2F, 0xF6, 0x91, 0x17),
     (0x8D, 0xD6, 0x4D, 0x76), (0x4D, 0xB0, 0xEF, 0x43), (0x54, 0x4D, 0xAA, 0xCC), (0xDF, 0x04, 0x96, 0xE4),
     (0xE3, 0xB5, 0xD1, 0x9E), (0x1B, 0x88, 0x6A, 0x4C), (0xB8, 0x1F, 0x2C, 0xC1), (0x7F, 0x51, 0x65, 0x46),
     (0x04, 0xEA, 0x5E, 0x9D), (0x5D, 0x35, 0x8C, 0x01), (0x73, 0x74, 0x87, 0xFA), (0x2E, 0x41, 0x0B, 0xFB),
     (0x5A, 0x1D, 0x67, 0xB3), (0x52, 0xD2, 0xDB, 0x92), (0x33, 0x56, 0x10, 0xE9), (0x13, 0x47, 0xD6, 0x6D),
     (0x8C, 0x61, 0xD7, 0x9A), (0x7A, 0x0C, 0xA1, 0x37), (0x8E, 0x14, 0xF8, 0x59), (0x89, 0x3C, 0x13, 0xEB),
     (0xEE, 0x27, 0xA9, 0xCE), (0x35, 0xC9, 0x61, 0xB7), (0xED, 0xE5, 0x1C, 0xE1), (0x3C, 0xB1, 0x47, 0x7A),
     (0x59, 0xDF, 0xD2, 0x9C), (0x3F, 0x73, 0xF2, 0x55), (0x79, 0xCE, 0x14, 0x18), (0xBF, 0x37, 0xC7, 0x73),
     (0xEA, 0xCD, 0xF7, 0x53), (0x5B, 0xAA, 0xFD, 0x5F), (0x14, 0x6F, 0x3D, 0xDF), (0x86, 0xDB, 0x44, 0x78),
     (0x81, 0xF3, 0xAF, 0xCA), (0x3E, 0xC4, 0x68, 0xB9), (0x2C, 0x34, 0x24, 0x38), (0x5F, 0x40, 0xA3, 0xC2),
     (0x72, 0xC3, 0x1D, 0x16), (0x0C, 0x25, 0xE2, 0xBC), (0x8B, 0x49, 0x3C, 0x28), (0x41, 0x95, 0x0D, 0xFF),
     (0x71, 0x01, 0xA8, 0x39), (0xDE, 0xB3, 0x0C, 0x08), (0x9C, 0xE4, 0xB4, 0xD8), (0x90, 0xC1, 0x56, 0x64),
     (0x61, 0x84, 0xCB, 0x7B), (0x70, 0xB6, 0x32, 0xD5), (0x74, 0x5C, 0x6C, 0x48), (0x42, 0x57, 0xB8, 0xD0)]"

definition RCON_rom :: "u32 list" where
  "RCON_rom = [0x01, 0x02, 0x04, 0x08, 0x10, 0x20, 0x40, 0x80, 0x1B, 0x36]"

record aes_tables =
  FSb :: "byte list"
  FT0 :: "u32 list"
  FT1 :: "u32 list"
  FT2 :: "u32 list"
  FT3 :: "u32 list"
  RSb :: "byte list"
  RT0 :: "u32 list"
  RT1 :: "u32 list"
  RT2 :: "u32 list"
  RT3 :: "u32 list"
  RCON :: "u32 list"

definition rom_tables :: aes_tables where
  "rom_tables = \<lparr>FSb = FSb_rom, FT0 = map V0 FT_rom, FT1 = map V1 FT_rom, FT2 = map V2 FT_rom, FT3 = map V3 FT_rom,
     RSb = RSb_rom, RT0 = map V0 RT_rom, RT1 = map V1 RT_rom, RT2 = map V2 RT_rom, RT3 = map V3 RT_rom, RCON = RCON_rom\<rparr>"

subsection \<open>Tables made at run time\<close>

text \<open>The variables \<open>i\<close>, \<open>x\<close>, \<open>y\<close>, \<open>z\<close> and the entries of \<open>pow\<close> and \<open>log\<close> are of type \<open>int\<close>.\<close>

definition XTIME :: "int \<Rightarrow> int" where
  "XTIME x = push_bit 1 x XOR (if x AND 0x80 \<noteq> 0 then 0x1B else 0)"

definition ROTL8 :: "u32 \<Rightarrow> u32" where
  "ROTL8 x = (push_bit 8 x AND 0xFFFFFFFF) OR drop_bit 24 x"

definition MUL :: "int list \<Rightarrow> int list \<Rightarrow> int \<Rightarrow> int \<Rightarrow> int" where
  "MUL pow log x y = (if x \<noteq> 0 \<and> y \<noteq> 0 then pow ! nat ((log ! nat x + log ! nat y) mod 255) else 0)"

fun pow_loop :: "nat \<Rightarrow> nat \<Rightarrow> int \<Rightarrow> int list \<Rightarrow> int list \<Rightarrow> int list \<times> int list" where
  "pow_loop 0 i x pow log = (pow, log)"
| "pow_loop (Suc n) i x pow log = pow_loop n (i + 1) ((x XOR XTIME x) AND 0xFF) (pow[i := x]) (log[nat x := int i])"

text \<open>The arrays are on the stack; of their entries only \<open>log[0]\<close> is not set, and it is not read.\<close>

definition pow_log :: "int list \<times> int list" where
  "pow_log = pow_loop 256 0 1 (replicate 256 0) (replicate 256 0)"

fun rcon_loop :: "nat \<Rightarrow> int \<Rightarrow> u32 list" where
  "rcon_loop 0 x = []"
| "rcon_loop (Suc n) x = word_of_int x # rcon_loop n (XTIME x AND 0xFF)"

definition rotl_byte :: "int \<Rightarrow> int" where
  "rotl_byte y = (push_bit 1 y OR drop_bit 7 y) AND 0xFF"

definition sbox_entry :: "int \<Rightarrow> int" where
  "sbox_entry x =
     (let y = rotl_byte x; x = x XOR y;
          y = rotl_byte y; x = x XOR y;
          y = rotl_byte y; x = x XOR y;
          y = rotl_byte y
      in x XOR (y XOR 0x63))"

fun sbox_loop :: "nat \<Rightarrow> nat \<Rightarrow> int list \<Rightarrow> int list \<Rightarrow> byte list \<Rightarrow> byte list \<Rightarrow> byte list \<times> byte list" where
  "sbox_loop 0 i pow log fsb rsb = (fsb, rsb)"
| "sbox_loop (Suc n) i pow log fsb rsb =
     (let x = sbox_entry (pow ! nat (255 - log ! i))
      in sbox_loop n (i + 1) pow log (fsb[i := word_of_int x]) (rsb[nat x := of_nat i]))"

definition ft_entry :: "byte \<Rightarrow> u32" where
  "ft_entry s =
     (let x = uint s; y = XTIME x AND 0xFF; z = (y XOR x) AND 0xFF
      in word_of_int y XOR push_bit 8 (word_of_int x) XOR push_bit 16 (word_of_int x) XOR push_bit 24 (word_of_int z))"

definition rt_entry :: "int list \<Rightarrow> int list \<Rightarrow> byte \<Rightarrow> u32" where
  "rt_entry pow log s =
     (let x = uint s
      in word_of_int (MUL pow log 0x0E x) XOR push_bit 8 (word_of_int (MUL pow log 0x09 x)) XOR
         push_bit 16 (word_of_int (MUL pow log 0x0D x)) XOR push_bit 24 (word_of_int (MUL pow log 0x0B x)))"

definition sboxes :: "byte list \<times> byte list" where
  "sboxes = sbox_loop 255 1 (fst pow_log) (snd pow_log) ((replicate 256 0)[0 := 0x63]) ((replicate 256 0)[0x63 := 0])"

definition aes_gen_tables :: aes_tables where
  "aes_gen_tables =
     (let (pow, log) = pow_log; (fsb, rsb) = sboxes;
          ft0 = map ft_entry fsb; ft1 = map ROTL8 ft0; ft2 = map ROTL8 ft1; ft3 = map ROTL8 ft2;
          rt0 = map (rt_entry pow log) rsb; rt1 = map ROTL8 rt0; rt2 = map ROTL8 rt1; rt3 = map ROTL8 rt2
      in \<lparr>FSb = fsb, FT0 = ft0, FT1 = ft1, FT2 = ft2, FT3 = ft3, RSb = rsb, RT0 = rt0, RT1 = rt1, RT2 = rt2, RT3 = rt3, RCON = rcon_loop 10 1\<rparr>)"

subsection \<open>Keys\<close>

definition INFRA_AES_ENCRYPT :: int where "INFRA_AES_ENCRYPT = 1"
definition INFRA_AES_DECRYPT :: int where "INFRA_AES_DECRYPT = 0"
definition INFRA_ERR_AES_INVALID_KEY_LENGTH :: int where "INFRA_ERR_AES_INVALID_KEY_LENGTH = -0x20"
definition INFRA_ERR_AES_INVALID_INPUT_LENGTH :: int where "INFRA_ERR_AES_INVALID_INPUT_LENGTH = -0x22"

lemmas aes_codes = INFRA_AES_ENCRYPT_def INFRA_AES_DECRYPT_def INFRA_ERR_AES_INVALID_KEY_LENGTH_def INFRA_ERR_AES_INVALID_INPUT_LENGTH_def

text \<open>The pointer \<open>rk\<close> is \<open>NULL\<close> or points to \<open>buf\<close>, which has 68 words.\<close>

record infra_aes_context =
  aes_nr :: int
  aes_rk :: bool
  aes_buf :: "u32 list"

text \<open>The static variables: the tables, and whether they have been made.\<close>

record aes_static =
  aes_init_done :: bool
  aes_tab :: aes_tables

definition infra_aes_init :: infra_aes_context where
  "infra_aes_init = \<lparr>aes_nr = 0, aes_rk = False, aes_buf = replicate 68 0\<rparr>"

definition infra_aes_free :: infra_aes_context where
  "infra_aes_free = \<lparr>aes_nr = 0, aes_rk = False, aes_buf = replicate 68 0\<rparr>"

definition make_tables :: "aes_static \<Rightarrow> aes_static" where
  "make_tables st = (if aes_init_done st then st else st\<lparr>aes_tab := aes_gen_tables, aes_init_done := True\<rparr>)"

text \<open>The part of a word at a shift, as an index.\<close>

definition at8 :: "u32 \<Rightarrow> nat \<Rightarrow> nat" where
  "at8 w n = unat (drop_bit n w AND 0xFF)"

definition sub_rot_word :: "aes_tables \<Rightarrow> u32 \<Rightarrow> u32" where
  "sub_rot_word t w = ucast (FSb t ! at8 w 8) XOR push_bit 8 (ucast (FSb t ! at8 w 16)) XOR
     push_bit 16 (ucast (FSb t ! at8 w 24)) XOR push_bit 24 (ucast (FSb t ! at8 w 0))"

definition sub_word :: "aes_tables \<Rightarrow> u32 \<Rightarrow> u32" where
  "sub_word t w = ucast (FSb t ! at8 w 0) XOR push_bit 8 (ucast (FSb t ! at8 w 8)) XOR
     push_bit 16 (ucast (FSb t ! at8 w 16)) XOR push_bit 24 (ucast (FSb t ! at8 w 24))"

text \<open>\<open>RK[d] = RK[a] ^ RK[b]\<close> and its relatives, with \<open>RK\<close> at position \<open>p\<close> of the array.\<close>

definition rk_xor :: "nat \<Rightarrow> nat \<Rightarrow> nat \<Rightarrow> nat \<Rightarrow> u32 list \<Rightarrow> u32 list" where
  "rk_xor p d a b rk = rk[p + d := rk ! (p + a) XOR rk ! (p + b)]"

definition rk_core :: "aes_tables \<Rightarrow> nat \<Rightarrow> nat \<Rightarrow> nat \<Rightarrow> u32 list \<Rightarrow> u32 list" where
  "rk_core t i p n rk = rk[p + n := rk ! p XOR RCON t ! i XOR sub_rot_word t (rk ! (p + n - 1))]"

fun expand_10 :: "aes_tables \<Rightarrow> nat \<Rightarrow> nat \<Rightarrow> nat \<Rightarrow> u32 list \<Rightarrow> u32 list" where
  "expand_10 t 0 i p rk = rk"
| "expand_10 t (Suc n) i p rk =
     expand_10 t n (i + 1) (p + 4) (rk_xor p 7 3 6 (rk_xor p 6 2 5 (rk_xor p 5 1 4 (rk_core t i p 4 rk))))"

fun expand_12 :: "aes_tables \<Rightarrow> nat \<Rightarrow> nat \<Rightarrow> nat \<Rightarrow> u32 list \<Rightarrow> u32 list" where
  "expand_12 t 0 i p rk = rk"
| "expand_12 t (Suc n) i p rk =
     expand_12 t n (i + 1) (p + 6)
       (rk_xor p 11 5 10 (rk_xor p 10 4 9 (rk_xor p 9 3 8 (rk_xor p 8 2 7 (rk_xor p 7 1 6 (rk_core t i p 6 rk))))))"

definition rk_mid :: "aes_tables \<Rightarrow> nat \<Rightarrow> u32 list \<Rightarrow> u32 list" where
  "rk_mid t p rk = rk[p + 12 := rk ! (p + 4) XOR sub_word t (rk ! (p + 11))]"

fun expand_14 :: "aes_tables \<Rightarrow> nat \<Rightarrow> nat \<Rightarrow> nat \<Rightarrow> u32 list \<Rightarrow> u32 list" where
  "expand_14 t 0 i p rk = rk"
| "expand_14 t (Suc n) i p rk =
     expand_14 t n (i + 1) (p + 8)
       (rk_xor p 15 7 14 (rk_xor p 14 6 13 (rk_xor p 13 5 12 (rk_mid t p
         (rk_xor p 11 3 10 (rk_xor p 10 2 9 (rk_xor p 9 1 8 (rk_core t i p 8 rk))))))))"

definition load_key :: "byte list \<Rightarrow> nat \<Rightarrow> u32 list \<Rightarrow> u32 list" where
  "load_key key n rk = map (\<lambda>i. GET_UINT32_LE key (4 * i)) [0..<n] @ drop n rk"

definition aes_rounds :: "nat \<Rightarrow> int option" where
  "aes_rounds keybits = (if keybits = 128 then Some 10 else if keybits = 192 then Some 12 else if keybits = 256 then Some 14 else None)"

definition infra_aes_setkey_enc ::
  "infra_aes_context \<Rightarrow> byte list \<Rightarrow> nat \<Rightarrow> aes_static \<Rightarrow> (int \<times> infra_aes_context \<times> aes_static) option" where
  "infra_aes_setkey_enc ctx key keybits st =
     (let st = make_tables st; t = aes_tab st in
      case aes_rounds keybits of
        None \<Rightarrow> Some (INFRA_ERR_AES_INVALID_KEY_LENGTH, ctx, st)
      | Some nr \<Rightarrow>
          if length key < 4 * (keybits div 32) then None
          else
            let rk = load_key key (keybits div 32) (aes_buf ctx);
                rk = (if nr = 10 then expand_10 t 10 0 0 rk else if nr = 12 then expand_12 t 8 0 0 rk else expand_14 t 7 0 0 rk)
            in Some (0, ctx\<lparr>aes_nr := nr, aes_rk := True, aes_buf := rk\<rparr>, st))"

text \<open>
  The schedule for decryption: the round keys in reverse order, those between the first and the last through the tables.
\<close>

definition inv_key_word :: "aes_tables \<Rightarrow> u32 \<Rightarrow> u32" where
  "inv_key_word t w = RT0 t ! unat (FSb t ! at8 w 0) XOR RT1 t ! unat (FSb t ! at8 w 8) XOR
     RT2 t ! unat (FSb t ! at8 w 16) XOR RT3 t ! unat (FSb t ! at8 w 24)"

fun inv_keys :: "aes_tables \<Rightarrow> nat \<Rightarrow> u32 list \<Rightarrow> u32 list" where
  "inv_keys t 0 sk = []"
| "inv_keys t (Suc i) sk = map (inv_key_word t) (take 4 (drop (4 * Suc i) sk)) @ inv_keys t i sk"

definition infra_aes_setkey_dec ::
  "infra_aes_context \<Rightarrow> byte list \<Rightarrow> nat \<Rightarrow> aes_static \<Rightarrow> (int \<times> infra_aes_context \<times> aes_static) option" where
  "infra_aes_setkey_dec ctx key keybits st = do {
     (ret, cty, st) \<leftarrow> infra_aes_setkey_enc infra_aes_init key keybits st;
     let ctx = ctx\<lparr>aes_rk := True\<rparr>;
     if ret \<noteq> 0 then Some (ret, ctx, st)
     else do {
       let sk = aes_buf cty;
       let nr = nat (aes_nr cty);
       let rk = take 4 (drop (4 * nr) sk) @ inv_keys (aes_tab st) (nr - 1) sk @ take 4 sk;
       Some (0, ctx\<lparr>aes_nr := aes_nr cty, aes_buf := rk @ drop (length rk) (aes_buf ctx)\<rparr>, st)
     }
   }"

subsection \<open>One block\<close>

type_synonym block = "u32 \<times> u32 \<times> u32 \<times> u32"

text \<open>Four words of the round keys; reading behind the array is a failure.\<close>

definition rk4 :: "u32 list \<Rightarrow> nat \<Rightarrow> block option" where
  "rk4 rk p = (if p + 4 \<le> length rk then Some (rk ! p, rk ! (p + 1), rk ! (p + 2), rk ! (p + 3)) else None)"

fun AES_FROUND :: "aes_tables \<Rightarrow> block \<Rightarrow> block \<Rightarrow> block" where
  "AES_FROUND t (k0, k1, k2, k3) (Y0, Y1, Y2, Y3) =
     (k0 XOR FT0 t ! at8 Y0 0 XOR FT1 t ! at8 Y1 8 XOR FT2 t ! at8 Y2 16 XOR FT3 t ! at8 Y3 24,
      k1 XOR FT0 t ! at8 Y1 0 XOR FT1 t ! at8 Y2 8 XOR FT2 t ! at8 Y3 16 XOR FT3 t ! at8 Y0 24,
      k2 XOR FT0 t ! at8 Y2 0 XOR FT1 t ! at8 Y3 8 XOR FT2 t ! at8 Y0 16 XOR FT3 t ! at8 Y1 24,
      k3 XOR FT0 t ! at8 Y3 0 XOR FT1 t ! at8 Y0 8 XOR FT2 t ! at8 Y1 16 XOR FT3 t ! at8 Y2 24)"

fun AES_RROUND :: "aes_tables \<Rightarrow> block \<Rightarrow> block \<Rightarrow> block" where
  "AES_RROUND t (k0, k1, k2, k3) (Y0, Y1, Y2, Y3) =
     (k0 XOR RT0 t ! at8 Y0 0 XOR RT1 t ! at8 Y3 8 XOR RT2 t ! at8 Y2 16 XOR RT3 t ! at8 Y1 24,
      k1 XOR RT0 t ! at8 Y1 0 XOR RT1 t ! at8 Y0 8 XOR RT2 t ! at8 Y3 16 XOR RT3 t ! at8 Y2 24,
      k2 XOR RT0 t ! at8 Y2 0 XOR RT1 t ! at8 Y1 8 XOR RT2 t ! at8 Y0 16 XOR RT3 t ! at8 Y3 24,
      k3 XOR RT0 t ! at8 Y3 0 XOR RT1 t ! at8 Y2 8 XOR RT2 t ! at8 Y1 16 XOR RT3 t ! at8 Y0 24)"

text \<open>The last round, with the S-box \<open>sb\<close> in the place of the tables.\<close>

definition sb_word :: "byte list \<Rightarrow> u32 \<Rightarrow> u32 \<Rightarrow> u32 \<Rightarrow> u32 \<Rightarrow> u32" where
  "sb_word sb a b c d = ucast (sb ! at8 a 0) XOR push_bit 8 (ucast (sb ! at8 b 8)) XOR
     push_bit 16 (ucast (sb ! at8 c 16)) XOR push_bit 24 (ucast (sb ! at8 d 24))"

fun last_fround :: "aes_tables \<Rightarrow> block \<Rightarrow> block \<Rightarrow> block" where
  "last_fround t (k0, k1, k2, k3) (Y0, Y1, Y2, Y3) =
     (k0 XOR sb_word (FSb t) Y0 Y1 Y2 Y3, k1 XOR sb_word (FSb t) Y1 Y2 Y3 Y0,
      k2 XOR sb_word (FSb t) Y2 Y3 Y0 Y1, k3 XOR sb_word (FSb t) Y3 Y0 Y1 Y2)"

fun last_rround :: "aes_tables \<Rightarrow> block \<Rightarrow> block \<Rightarrow> block" where
  "last_rround t (k0, k1, k2, k3) (Y0, Y1, Y2, Y3) =
     (k0 XOR sb_word (RSb t) Y0 Y3 Y2 Y1, k1 XOR sb_word (RSb t) Y1 Y0 Y3 Y2,
      k2 XOR sb_word (RSb t) Y2 Y1 Y0 Y3, k3 XOR sb_word (RSb t) Y3 Y2 Y1 Y0)"

fun first_xor :: "block \<Rightarrow> byte list \<Rightarrow> block" where
  "first_xor (k0, k1, k2, k3) input =
     (GET_UINT32_LE input 0 XOR k0, GET_UINT32_LE input 4 XOR k1, GET_UINT32_LE input 8 XOR k2, GET_UINT32_LE input 12 XOR k3)"

fun put_block :: "block \<Rightarrow> byte list" where
  "put_block (X0, X1, X2, X3) = PUT_UINT32_LE X0 @ PUT_UINT32_LE X1 @ PUT_UINT32_LE X2 @ PUT_UINT32_LE X3"

text \<open>The loop of \<open>(nr >> 1) - 1\<close> turns of two rounds each; \<open>p\<close> is the position of the round keys.\<close>

fun two_rounds :: "(block \<Rightarrow> block \<Rightarrow> block) \<Rightarrow> u32 list \<Rightarrow> nat \<Rightarrow> nat \<Rightarrow> block \<Rightarrow> block option" where
  "two_rounds f rk 0 p X = Some X"
| "two_rounds f rk (Suc n) p X = do {
     k \<leftarrow> rk4 rk p;
     let Y = f k X;
     k \<leftarrow> rk4 rk (p + 4);
     two_rounds f rk n (p + 8) (f k Y)
   }"

definition aes_block :: "(block \<Rightarrow> block \<Rightarrow> block) \<Rightarrow> (block \<Rightarrow> block \<Rightarrow> block) \<Rightarrow> infra_aes_context \<Rightarrow> byte list \<Rightarrow> byte list option" where
  "aes_block f g ctx input = do {
     let rk = aes_buf ctx;
     let n = nat (aes_nr ctx div 2 - 1);
     if \<not> aes_rk ctx \<or> length input < 16 then None
     else do {
       k \<leftarrow> rk4 rk 0;
       X \<leftarrow> two_rounds f rk n 4 (first_xor k input);
       k \<leftarrow> rk4 rk (4 + 8 * n);
       let Y = f k X;
       k \<leftarrow> rk4 rk (8 + 8 * n);
       Some (put_block (g k Y))
     }
   }"

definition infra_aes_internal_aes_encrypt :: "aes_tables \<Rightarrow> infra_aes_context \<Rightarrow> byte list \<Rightarrow> byte list option" where
  "infra_aes_internal_aes_encrypt t ctx input = aes_block (AES_FROUND t) (last_fround t) ctx input"

definition infra_aes_internal_aes_decrypt :: "aes_tables \<Rightarrow> infra_aes_context \<Rightarrow> byte list \<Rightarrow> byte list option" where
  "infra_aes_internal_aes_decrypt t ctx input = aes_block (AES_RROUND t) (last_rround t) ctx input"

definition infra_aes_crypt_ecb :: "aes_tables \<Rightarrow> infra_aes_context \<Rightarrow> int \<Rightarrow> byte list \<Rightarrow> byte list option" where
  "infra_aes_crypt_ecb t ctx mode input =
     (if mode = INFRA_AES_ENCRYPT then infra_aes_internal_aes_encrypt t ctx input else infra_aes_internal_aes_decrypt t ctx input)"

subsection \<open>Modes\<close>

text \<open>The bytes written to \<open>output\<close> are returned; \<open>input\<close> and \<open>output\<close> may be the same array, since a block is read before it is written.\<close>

definition xor_bytes :: "byte list \<Rightarrow> byte list \<Rightarrow> byte list" where
  "xor_bytes a b = map2 (\<lambda>x y. x XOR y) a b"

fun cbc_decrypt_loop :: "aes_tables \<Rightarrow> infra_aes_context \<Rightarrow> int \<Rightarrow> nat \<Rightarrow> byte list \<Rightarrow> byte list \<Rightarrow> (byte list \<times> byte list) option" where
  "cbc_decrypt_loop t ctx mode 0 iv input = Some (iv, [])"
| "cbc_decrypt_loop t ctx mode (Suc n) iv input = do {
     temp \<leftarrow> load_bytes input 0 16;
     out \<leftarrow> infra_aes_crypt_ecb t ctx mode temp;
     (iv', rest) \<leftarrow> cbc_decrypt_loop t ctx mode n temp (drop 16 input);
     Some (iv', xor_bytes out iv @ rest)
   }"

fun cbc_encrypt_loop :: "aes_tables \<Rightarrow> infra_aes_context \<Rightarrow> int \<Rightarrow> nat \<Rightarrow> byte list \<Rightarrow> byte list \<Rightarrow> (byte list \<times> byte list) option" where
  "cbc_encrypt_loop t ctx mode 0 iv input = Some (iv, [])"
| "cbc_encrypt_loop t ctx mode (Suc n) iv input = do {
     bs \<leftarrow> load_bytes input 0 16;
     out \<leftarrow> infra_aes_crypt_ecb t ctx mode (xor_bytes bs iv);
     (iv', rest) \<leftarrow> cbc_encrypt_loop t ctx mode n out (drop 16 input);
     Some (iv', out @ rest)
   }"

definition infra_aes_crypt_cbc ::
  "aes_tables \<Rightarrow> infra_aes_context \<Rightarrow> int \<Rightarrow> nat \<Rightarrow> byte list \<Rightarrow> byte list \<Rightarrow> (int \<times> byte list \<times> byte list) option" where
  "infra_aes_crypt_cbc t ctx mode len iv input =
     (if len mod 16 \<noteq> 0 then Some (INFRA_ERR_AES_INVALID_INPUT_LENGTH, iv, [])
      else if length iv < 16 then None
      else do {
        (iv, out) \<leftarrow> (if mode = INFRA_AES_DECRYPT then cbc_decrypt_loop t ctx mode (len div 16) iv input
                       else cbc_encrypt_loop t ctx mode (len div 16) iv input);
        Some (0, iv, out)
      })"

text \<open>CFB with 128 bits: \<open>n\<close> is the position in the vector, which is encrypted when it is 0.\<close>

fun cfb128_loop :: "aes_tables \<Rightarrow> infra_aes_context \<Rightarrow> int \<Rightarrow> nat \<Rightarrow> nat \<Rightarrow> byte list \<Rightarrow> byte list \<Rightarrow> (nat \<times> byte list \<times> byte list) option" where
  "cfb128_loop t ctx mode 0 n iv input = Some (n, iv, [])"
| "cfb128_loop t ctx mode (Suc k) n iv input =
     (case input of
        [] \<Rightarrow> None
      | c # cs \<Rightarrow> do {
          iv \<leftarrow> (if n = 0 then infra_aes_crypt_ecb t ctx INFRA_AES_ENCRYPT iv else Some iv);
          if n < length iv then do {
            let out = c XOR iv ! n;
            (n', iv', rest) \<leftarrow> cfb128_loop t ctx mode k ((n + 1) mod 16) (iv[n := if mode = INFRA_AES_DECRYPT then c else out]) cs;
            Some (n', iv', out # rest)
          }
          else None
        })"

definition infra_aes_crypt_cfb128 ::
  "aes_tables \<Rightarrow> infra_aes_context \<Rightarrow> int \<Rightarrow> nat \<Rightarrow> nat \<Rightarrow> byte list \<Rightarrow> byte list \<Rightarrow> (int \<times> nat \<times> byte list \<times> byte list) option" where
  "infra_aes_crypt_cfb128 t ctx mode len iv_off iv input = do {
     (n, iv, out) \<leftarrow> cfb128_loop t ctx mode len iv_off iv input;
     Some (0, n, iv, out)
   }"

text \<open>CFB with 8 bits: with another mode than the two, a byte that was not set would enter the vector.\<close>

fun cfb8_loop :: "aes_tables \<Rightarrow> infra_aes_context \<Rightarrow> int \<Rightarrow> nat \<Rightarrow> byte list \<Rightarrow> byte list \<Rightarrow> (byte list \<times> byte list) option" where
  "cfb8_loop t ctx mode 0 iv input = Some (iv, [])"
| "cfb8_loop t ctx mode (Suc k) iv input =
     (case input of
        [] \<Rightarrow> None
      | b # bs \<Rightarrow> do {
          ov \<leftarrow> load_bytes iv 0 16;
          iv \<leftarrow> infra_aes_crypt_ecb t ctx INFRA_AES_ENCRYPT iv;
          let c = iv ! 0 XOR b;
          x \<leftarrow> (if mode = INFRA_AES_DECRYPT then Some b else if mode = INFRA_AES_ENCRYPT then Some c else None);
          (iv', rest) \<leftarrow> cfb8_loop t ctx mode k (drop 1 (ov @ [x])) bs;
          Some (iv', c # rest)
        })"

definition infra_aes_crypt_cfb8 ::
  "aes_tables \<Rightarrow> infra_aes_context \<Rightarrow> int \<Rightarrow> nat \<Rightarrow> byte list \<Rightarrow> byte list \<Rightarrow> (int \<times> byte list \<times> byte list) option" where
  "infra_aes_crypt_cfb8 t ctx mode len iv input = do {
     (iv, out) \<leftarrow> cfb8_loop t ctx mode len iv input;
     Some (0, iv, out)
   }"

subsection \<open>The user: provisioning\<close>

text \<open>\<open>awss_aes_wrapper.c\<close> in the build with \<open>INFRA_AES\<close>; the answer of \<open>calloc\<close> is an argument.\<close>

record platform_aes_t =
  pa_ctx :: infra_aes_context
  pa_iv :: "byte list"
  pa_key :: "byte list"

definition awss_Aes128_Init ::
  "byte list option \<Rightarrow> byte list option \<Rightarrow> bool \<Rightarrow> aes_static \<Rightarrow> (platform_aes_t option \<times> aes_static) option" where
  "awss_Aes128_Init key iv calloc_ok st =
     (case (key, iv) of
        (Some k, Some v) \<Rightarrow>
          if \<not> calloc_ok then Some (None, st)
          else do {
            (ret, ctx, st) \<leftarrow> infra_aes_setkey_dec infra_aes_init k 128 st;
            if ret = 0 then do {
              v \<leftarrow> load_bytes v 0 16;
              k \<leftarrow> load_bytes k 0 16;
              Some (Some \<lparr>pa_ctx = ctx, pa_iv = v, pa_key = k\<rparr>, st)
            }
            else Some (None, st)
          }
      | _ \<Rightarrow> Some (None, st))"

definition awss_Aes128_Destroy :: "platform_aes_t option \<Rightarrow> int" where
  "awss_Aes128_Destroy aes = (if aes = None then -1 else 0)"

fun cbc_blocks :: "aes_tables \<Rightarrow> nat \<Rightarrow> int \<Rightarrow> platform_aes_t \<Rightarrow> byte list \<Rightarrow> (int \<times> platform_aes_t \<times> byte list) option" where
  "cbc_blocks t 0 ret p src = Some (ret, p, [])"
| "cbc_blocks t (Suc n) ret p src = do {
     (ret, iv, out) \<leftarrow> infra_aes_crypt_cbc t (pa_ctx p) INFRA_AES_DECRYPT 16 (pa_iv p) src;
     (ret, p, rest) \<leftarrow> cbc_blocks t n ret (p\<lparr>pa_iv := iv\<rparr>) (drop 16 src);
     Some (ret, p, out @ rest)
   }"

definition awss_Aes128_Cbc_Decrypt ::
  "platform_aes_t option \<Rightarrow> byte list option \<Rightarrow> nat \<Rightarrow> bool \<Rightarrow> aes_static \<Rightarrow> (int \<times> platform_aes_t option \<times> byte list) option" where
  "awss_Aes128_Cbc_Decrypt aes src blockNum dst st =
     (case (aes, src) of
        (Some p, Some s) \<Rightarrow>
          if \<not> dst then Some (-1, aes, [])
          else do { (ret, p, out) \<leftarrow> cbc_blocks (aes_tab st) blockNum (-1) p s; Some (ret, Some p, out) }
      | _ \<Rightarrow> Some (-1, aes, []))"

definition awss_Aes128_Cfb_Decrypt ::
  "platform_aes_t option \<Rightarrow> byte list option \<Rightarrow> nat \<Rightarrow> bool \<Rightarrow> aes_static \<Rightarrow>
     (int \<times> platform_aes_t option \<times> byte list \<times> aes_static) option" where
  "awss_Aes128_Cfb_Decrypt aes src len dst st =
     (case (aes, src) of
        (Some p, Some s) \<Rightarrow>
          if \<not> dst then Some (-1, aes, [], st)
          else do {
            (_, ctx, st) \<leftarrow> infra_aes_setkey_enc (pa_ctx p) (pa_key p) 128 st;
            (ret, _, iv, out) \<leftarrow> infra_aes_crypt_cfb128 (aes_tab st) ctx INFRA_AES_DECRYPT len 0 (pa_iv p) s;
            Some (ret, Some (p\<lparr>pa_ctx := ctx, pa_iv := iv\<rparr>), out, st)
          }
      | _ \<Rightarrow> Some (-1, aes, [], st))"

end
