(* ===== verification/AES_Tables.thy ===== *)
theory AES_Tables
  imports Infra_AES
begin

text \<open>
  The tables of AES: the ones made at run time are those in ROM, and their entries are products in the field of 256
  elements with entries of the S-box.
\<close>

subsection \<open>Products with constants in the field\<close>

definition xtime :: "byte \<Rightarrow> byte" where
  "xtime b = push_bit 1 b XOR (if bit b 7 then 0x1B else 0)"

definition gmul3 :: "byte \<Rightarrow> byte" where "gmul3 b = xtime b XOR b"
definition gmul9 :: "byte \<Rightarrow> byte" where "gmul9 b = xtime (xtime (xtime b)) XOR b"
definition gmul11 :: "byte \<Rightarrow> byte" where "gmul11 b = xtime (xtime (xtime b)) XOR xtime b XOR b"
definition gmul13 :: "byte \<Rightarrow> byte" where "gmul13 b = xtime (xtime (xtime b)) XOR xtime (xtime b) XOR b"
definition gmul14 :: "byte \<Rightarrow> byte" where "gmul14 b = xtime (xtime (xtime b)) XOR xtime (xtime b) XOR xtime b"

lemmas gmul_defs = gmul3_def gmul9_def gmul11_def gmul13_def gmul14_def

lemma xtime_xor: "xtime (a XOR b) = xtime a XOR xtime b"
  by (rule bit_word_eqI) (auto simp: xtime_def bit_simps split: if_splits)

lemma xtime_0 [simp]: "xtime 0 = 0"
  by (simp add: xtime_def)

lemmas xor_ac = xor.assoc xor.commute xor.left_commute

lemma and_255: "(x :: int) AND 0xFF = take_bit 8 x"
proof -
  have "mask 8 = (0xFF :: int)" by code_simp
  then show ?thesis by (simp add: take_bit_eq_mask)
qed

lemma byte_bit_out: "8 \<le> n \<Longrightarrow> \<not> bit (b :: byte) n"
  using bit_imp_le_length [of b n] by auto

lemma XTIME_uint: "XTIME (uint s) AND 0xFF = uint (xtime s)"
proof -
  have "(uint s AND 0x80 \<noteq> 0) = bit s 7"
    by (simp add: and_exp_eq_0_iff_not_bit [of _ 7, simplified] bit_uint_iff)
  then show ?thesis
    by (simp add: and_255 XTIME_def xtime_def take_bit_xor unsigned_xor_eq uint_word_arith_bintrs)
qed

subsection \<open>Entries\<close>

lemma FT_rom_entries: "FT_rom = map (\<lambda>s. (gmul3 s, s, s, xtime s)) FSb_rom"
  by code_simp

lemma RT_rom_entries: "RT_rom = map (\<lambda>s. (gmul11 s, gmul13 s, gmul9 s, gmul14 s)) RSb_rom"
  by code_simp

lemma pow_log_eval:
  "pow_log =
    ([1, 3, 5, 15, 17, 51, 85, 255, 26, 46, 114, 150, 161, 248, 19, 53, 95, 225, 56, 72, 216, 115, 149, 164,
     247, 2, 6, 10, 30, 34, 102, 170, 229, 52, 92, 228, 55, 89, 235, 38, 106, 190, 217, 112, 144, 171, 230, 49,
     83, 245, 4, 12, 20, 60, 68, 204, 79, 209, 104, 184, 211, 110, 178, 205, 76, 212, 103, 169, 224, 59, 77, 215,
     98, 166, 241, 8, 24, 40, 120, 136, 131, 158, 185, 208, 107, 189, 220, 127, 129, 152, 179, 206, 73, 219, 118, 154,
     181, 196, 87, 249, 16, 48, 80, 240, 11, 29, 39, 105, 187, 214, 97, 163, 254, 25, 43, 125, 135, 146, 173, 236,
     47, 113, 147, 174, 233, 32, 96, 160, 251, 22, 58, 78, 210, 109, 183, 194, 93, 231, 50, 86, 250, 21, 63, 65,
     195, 94, 226, 61, 71, 201, 64, 192, 91, 237, 44, 116, 156, 191, 218, 117, 159, 186, 213, 100, 172, 239, 42, 126,
     130, 157, 188, 223, 122, 142, 137, 128, 155, 182, 193, 88, 232, 35, 101, 175, 234, 37, 111, 177, 200, 67, 197, 84,
     252, 31, 33, 99, 165, 244, 7, 9, 27, 45, 119, 153, 176, 203, 70, 202, 69, 207, 74, 222, 121, 139, 134, 145,
     168, 227, 62, 66, 198, 81, 243, 14, 18, 54, 90, 238, 41, 123, 141, 140, 143, 138, 133, 148, 167, 242, 13, 23,
     57, 75, 221, 124, 132, 151, 162, 253, 28, 36, 108, 180, 199, 82, 246, 1],
     [0, 255, 25, 1, 50, 2, 26, 198, 75, 199, 27, 104, 51, 238, 223, 3, 100, 4, 224, 14, 52, 141, 129, 239,
     76, 113, 8, 200, 248, 105, 28, 193, 125, 194, 29, 181, 249, 185, 39, 106, 77, 228, 166, 114, 154, 201, 9, 120,
     101, 47, 138, 5, 33, 15, 225, 36, 18, 240, 130, 69, 53, 147, 218, 142, 150, 143, 219, 189, 54, 208, 206, 148,
     19, 92, 210, 241, 64, 70, 131, 56, 102, 221, 253, 48, 191, 6, 139, 98, 179, 37, 226, 152, 34, 136, 145, 16,
     126, 110, 72, 195, 163, 182, 30, 66, 58, 107, 40, 84, 250, 133, 61, 186, 43, 121, 10, 21, 155, 159, 94, 202,
     78, 212, 172, 229, 243, 115, 167, 87, 175, 88, 168, 80, 244, 234, 214, 116, 79, 174, 233, 213, 231, 230, 173, 232,
     44, 215, 117, 122, 235, 22, 11, 245, 89, 203, 95, 176, 156, 169, 81, 160, 127, 12, 246, 111, 23, 196, 73, 236,
     216, 67, 31, 45, 164, 118, 123, 183, 204, 187, 62, 90, 251, 96, 177, 134, 59, 82, 161, 108, 170, 85, 41, 157,
     151, 178, 135, 144, 97, 190, 220, 252, 188, 149, 207, 205, 55, 63, 91, 209, 83, 57, 132, 60, 65, 162, 109, 71,
     20, 42, 158, 93, 86, 242, 211, 171, 68, 17, 146, 217, 35, 32, 46, 137, 180, 124, 184, 38, 119, 153, 227, 165,
     103, 74, 237, 222, 197, 49, 254, 24, 13, 99, 140, 128, 192, 247, 112, 7])"
  by code_simp

lemma sboxes_eval: "sboxes = (FSb_rom, RSb_rom)"
  unfolding sboxes_def pow_log_eval fst_conv snd_conv by code_simp

lemma MUL_9: "map (MUL (fst pow_log) (snd pow_log) 9) (map int [0..<256]) = map (\<lambda>i. uint (gmul9 (of_nat i))) [0..<256]"
  unfolding pow_log_eval fst_conv snd_conv by code_simp

lemma MUL_11: "map (MUL (fst pow_log) (snd pow_log) 11) (map int [0..<256]) = map (\<lambda>i. uint (gmul11 (of_nat i))) [0..<256]"
  unfolding pow_log_eval fst_conv snd_conv by code_simp

lemma MUL_13: "map (MUL (fst pow_log) (snd pow_log) 13) (map int [0..<256]) = map (\<lambda>i. uint (gmul13 (of_nat i))) [0..<256]"
  unfolding pow_log_eval fst_conv snd_conv by code_simp

lemma MUL_14: "map (MUL (fst pow_log) (snd pow_log) 14) (map int [0..<256]) = map (\<lambda>i. uint (gmul14 (of_nat i))) [0..<256]"
  unfolding pow_log_eval fst_conv snd_conv by code_simp

lemma MUL_table:
  assumes "map f (map int [0..<256]) = map (\<lambda>i. uint (g (of_nat i))) [0..<256]"
  shows "f (uint s) = uint (g (s :: byte))"
proof -
  have "unat s < 256" using unsigned_less [of s, where 'a = nat] by simp
  moreover from assms have "\<forall>i<256. f (int i) = uint (g (of_nat i))" by (simp add: list_eq_iff_nth_eq)
  ultimately have "f (int (unat s)) = uint (g (of_nat (unat s)))" by blast
  then show ?thesis by simp
qed

lemmas MUL_uint = MUL_table [OF MUL_9] MUL_table [OF MUL_11] MUL_table [OF MUL_13] MUL_table [OF MUL_14]

subsection \<open>Words\<close>

lemma bit_V0:
  assumes "i < 32"
  shows "bit (V0 (a, b, c, d)) i = (if i < 8 then bit d i else if i < 16 then bit c (i - 8) else if i < 24 then bit b (i - 16) else bit a (i - 24))"
proof -
  consider "i < 8" | "8 \<le> i" "i < 16" | "16 \<le> i" "i < 24" | "24 \<le> i" by linarith
  then show ?thesis using assms by cases (auto simp: bit_simps byte_bit_out)
qed

lemma V_rotated: "V1 (a, b, c, d) = V0 (b, c, d, a)" "V2 (a, b, c, d) = V0 (c, d, a, b)" "V3 (a, b, c, d) = V0 (d, a, b, c)"
  by simp_all

lemma bytes_disjoint:
  "ucast d XOR push_bit 8 (ucast c) XOR push_bit 16 (ucast b) XOR push_bit 24 (ucast a) = V0 ((a :: byte), b, c, d)"
proof (rule bit_word_eqI)
  fix i assume i: "i < LENGTH(32)"
  consider "i < 8" | "8 \<le> i" "i < 16" | "16 \<le> i" "i < 24" | "24 \<le> i" by linarith
  then show "bit (ucast d XOR push_bit 8 (ucast c) XOR push_bit 16 (ucast b) XOR push_bit 24 (ucast a) :: u32) i = bit (V0 (a, b, c, d)) i"
    using i by cases (auto simp: bit_simps byte_bit_out bit_V0 simp del: V0.simps)
qed

lemma ft_entry_eq: "ft_entry s = V0 (gmul3 s, s, s, xtime s)"
proof -
  have z: "(uint (xtime s) XOR uint s) AND 0xFF = uint (gmul3 s)"
    unfolding and_255 gmul3_def by (rule bit_eqI) (auto simp: bit_simps byte_bit_out not_le [symmetric])
  show ?thesis
    unfolding bytes_disjoint [symmetric] by (simp add: ft_entry_def Let_def XTIME_uint z unsigned_ucast_eq)
qed

lemma rt_entry_eq: "rt_entry (fst pow_log) (snd pow_log) s = V0 (gmul11 s, gmul13 s, gmul9 s, gmul14 s)"
  unfolding bytes_disjoint [symmetric] by (simp add: rt_entry_def Let_def MUL_uint)

lemma ROTL8_V0: "ROTL8 (V0 (a, b, c, d)) = V0 (b, c, d, a)"
proof (rule bit_word_eqI)
  fix i assume i: "i < LENGTH(32)"
  have rot: "bit (ROTL8 x) i = (if 8 \<le> i then bit x (i - 8) else bit x (i + 24))" for x
    using i bit_imp_le_length [of x "i + 24"] unfolding ROTL8_def and_mask_32 by (auto simp: bit_simps add.commute)
  consider "i < 8" | "8 \<le> i" "i < 16" | "16 \<le> i" "i < 24" | "24 \<le> i" by linarith
  then show "bit (ROTL8 (V0 (a, b, c, d))) i = bit (V0 (b, c, d, a)) i"
    unfolding rot using i by cases (simp_all add: bit_V0 less_diff_conv2 del: V0.simps)
qed

lemma ROTL8_V: "ROTL8 (V0 v) = V1 v" "ROTL8 (V1 v) = V2 v" "ROTL8 (V2 v) = V3 v"
  by (cases v; simp add: V_rotated ROTL8_V0 del: V0.simps V1.simps V2.simps V3.simps)+

lemma gen_tables_rom: "aes_gen_tables = rom_tables"
proof -
  have "map (rt_entry (fst pow_log) (snd pow_log)) RSb_rom = map V0 RT_rom" unfolding RT_rom_entries by (simp add: rt_entry_eq)
  moreover have "map ft_entry FSb_rom = map V0 FT_rom" unfolding FT_rom_entries by (simp add: ft_entry_eq)
  moreover have "rcon_loop 10 1 = RCON_rom" by code_simp
  moreover have "map ROTL8 (map V0 xs) = map V1 xs" "map ROTL8 (map V1 xs) = map V2 xs" "map ROTL8 (map V2 xs) = map V3 xs" for xs
    by (simp_all add: ROTL8_V)
  ultimately show ?thesis by (simp add: aes_gen_tables_def rom_tables_def sboxes_eval case_prod_beta Let_def del: map_map)
qed

subsection \<open>The S-box of the standard\<close>

text \<open>Multiplication in the field, bit by bit of the second factor, and the affine map.\<close>

fun gf_mul_loop :: "nat \<Rightarrow> byte \<Rightarrow> byte \<Rightarrow> byte" where
  "gf_mul_loop 0 a b = 0"
| "gf_mul_loop (Suc n) a b = (if bit b 0 then a else 0) XOR gf_mul_loop n (xtime a) (drop_bit 1 b)"

definition gf_mul :: "byte \<Rightarrow> byte \<Rightarrow> byte" where
  "gf_mul a b = gf_mul_loop 8 a b"

definition rotl1 :: "byte \<Rightarrow> byte" where
  "rotl1 b = push_bit 1 b OR drop_bit 7 b"

definition affine :: "byte \<Rightarrow> byte" where
  "affine b = b XOR rotl1 b XOR rotl1 (rotl1 b) XOR rotl1 (rotl1 (rotl1 b)) XOR rotl1 (rotl1 (rotl1 (rotl1 b))) XOR 0x63"

definition field_inverses :: "byte list" where
  "field_inverses = map (\<lambda>i. word_of_int (fst pow_log ! nat (255 - snd pow_log ! i))) [1..<256]"

lemma field_inverses_ok: "map2 gf_mul (map of_nat [1..<256]) field_inverses = replicate 255 1"
  unfolding field_inverses_def pow_log_eval fst_conv snd_conv by code_simp

lemma sbox_affine: "FSb_rom = map affine (0 # field_inverses)"
  unfolding field_inverses_def pow_log_eval fst_conv snd_conv by code_simp

text \<open>
  C36: The tables of AES that \<open>aes_gen_tables\<close> makes at run time, by powers and logarithms over a generator of the field, are the
  tables of a build with \<open>INFRA_AES_ROM_TABLES\<close>, all eleven of them, entry by entry; and the S-box among them is the one
  FIPS 197 defines: the affine map after the inverse in the field of 256 elements, with 0 as its own inverse.
\<close>

theorem aes_tables_agree:
  "aes_gen_tables = rom_tables \<and>
   (\<exists>inverses. map2 gf_mul (map of_nat [1..<256]) inverses = replicate 255 1 \<and> FSb aes_gen_tables = map affine (0 # inverses))"
proof (intro conjI exI [of _ field_inverses])
  show "aes_gen_tables = rom_tables" by (rule gen_tables_rom)
  show "map2 gf_mul (map of_nat [1..<256]) field_inverses = replicate 255 1" by (rule field_inverses_ok)
  show "FSb aes_gen_tables = map affine (0 # field_inverses)" unfolding gen_tables_rom sbox_affine [symmetric] by (simp add: rom_tables_def)
qed

end
