(* ===== verification/AES_Cipher.thy ===== *)
theory AES_Cipher
  imports AES_Tables
begin

text \<open>
  The cipher of FIPS 197 on lists of 16 bytes, and the code of \<open>infra_aes.c\<close> on four words with tables: key
  expansion, encryption of a block, decryption of a block.
\<close>

subsection \<open>The standard\<close>

text \<open>The S-box is figure 7 of the standard. The byte in row \<open>r\<close> and column \<open>c\<close> of the state is at \<open>r + 4 * c\<close>.\<close>

definition sbox :: "byte \<Rightarrow> byte" where "sbox b = FSb_rom ! unat b"
definition inv_sbox :: "byte \<Rightarrow> byte" where "inv_sbox b = RSb_rom ! unat b"

definition SubBytes :: "byte list \<Rightarrow> byte list" where "SubBytes s = map sbox s"
definition InvSubBytes :: "byte list \<Rightarrow> byte list" where "InvSubBytes s = map inv_sbox s"

definition ShiftRows :: "byte list \<Rightarrow> byte list" where
  "ShiftRows s = map (\<lambda>i. s ! ((i + 4 * (i mod 4)) mod 16)) [0..<16]"

definition InvShiftRows :: "byte list \<Rightarrow> byte list" where
  "InvShiftRows s = map (\<lambda>i. s ! ((i + 16 - 4 * (i mod 4)) mod 16)) [0..<16]"

definition mix_column :: "byte \<Rightarrow> byte \<Rightarrow> byte \<Rightarrow> byte \<Rightarrow> byte list" where
  "mix_column a b c d =
     [xtime a XOR gmul3 b XOR c XOR d, a XOR xtime b XOR gmul3 c XOR d, a XOR b XOR xtime c XOR gmul3 d, gmul3 a XOR b XOR c XOR xtime d]"

definition inv_mix_column :: "byte \<Rightarrow> byte \<Rightarrow> byte \<Rightarrow> byte \<Rightarrow> byte list" where
  "inv_mix_column a b c d =
     [gmul14 a XOR gmul11 b XOR gmul13 c XOR gmul9 d, gmul9 a XOR gmul14 b XOR gmul11 c XOR gmul13 d,
      gmul13 a XOR gmul9 b XOR gmul14 c XOR gmul11 d, gmul11 a XOR gmul13 b XOR gmul9 c XOR gmul14 d]"

definition on_columns :: "(byte \<Rightarrow> byte \<Rightarrow> byte \<Rightarrow> byte \<Rightarrow> byte list) \<Rightarrow> byte list \<Rightarrow> byte list" where
  "on_columns f s = f (s ! 0) (s ! 1) (s ! 2) (s ! 3) @ f (s ! 4) (s ! 5) (s ! 6) (s ! 7) @
     f (s ! 8) (s ! 9) (s ! 10) (s ! 11) @ f (s ! 12) (s ! 13) (s ! 14) (s ! 15)"

definition MixColumns :: "byte list \<Rightarrow> byte list" where "MixColumns = on_columns mix_column"
definition InvMixColumns :: "byte list \<Rightarrow> byte list" where "InvMixColumns = on_columns inv_mix_column"

text \<open>Adding a round key is \<^const>\<open>xor_bytes\<close>. The round keys are given as a function of the round.\<close>

definition Cipher :: "nat \<Rightarrow> (nat \<Rightarrow> byte list) \<Rightarrow> byte list \<Rightarrow> byte list" where
  "Cipher nr k input =
     xor_bytes (k nr) (ShiftRows (SubBytes
       (fold (\<lambda>r s. xor_bytes (k r) (MixColumns (ShiftRows (SubBytes s)))) [1..<nr] (xor_bytes (k 0) input))))"

definition InvCipher :: "nat \<Rightarrow> (nat \<Rightarrow> byte list) \<Rightarrow> byte list \<Rightarrow> byte list" where
  "InvCipher nr k input =
     xor_bytes (k 0) (InvSubBytes (InvShiftRows
       (fold (\<lambda>r s. InvMixColumns (xor_bytes (k r) (InvSubBytes (InvShiftRows s)))) (rev [1..<nr]) (xor_bytes (k nr) input))))"

definition SubWord :: "byte list \<Rightarrow> byte list" where "SubWord w = map sbox w"
definition RotWord :: "byte list \<Rightarrow> byte list" where "RotWord w = rotate1 w"
definition Rcon :: "nat \<Rightarrow> byte list" where "Rcon j = [(xtime ^^ (j - 1)) 1, 0, 0, 0]"

text \<open>The words of the key expansion for a key of \<open>nk\<close> words.\<close>

function key_word :: "byte list \<Rightarrow> nat \<Rightarrow> nat \<Rightarrow> byte list" where
  "key_word key nk i =
     (if i < nk \<or> nk = 0 then take 4 (drop (4 * i) key)
      else let temp = key_word key nk (i - 1)
           in xor_bytes (key_word key nk (i - nk))
                (if i mod nk = 0 then xor_bytes (SubWord (RotWord temp)) (Rcon (i div nk))
                 else if 6 < nk \<and> i mod nk = 4 then SubWord temp
                 else temp))"
  by auto
termination by (relation "measure (\<lambda>(key, nk, i). i)") auto

declare key_word.simps [simp del]

definition round_key :: "byte list \<Rightarrow> nat \<Rightarrow> nat \<Rightarrow> byte list" where
  "round_key key nk r = key_word key nk (4 * r) @ key_word key nk (4 * r + 1) @ key_word key nk (4 * r + 2) @ key_word key nk (4 * r + 3)"

subsection \<open>Words and bytes\<close>

definition byte_at :: "u32 \<Rightarrow> nat \<Rightarrow> byte" where
  "byte_at w n = ucast (drop_bit n w)"

lemma and_byte: "drop_bit n w AND 0xFF = (ucast (byte_at w n) :: u32)"
proof -
  have "mask 8 = (0xFF :: u32)" by code_simp
  then have "drop_bit n w AND 0xFF = take_bit 8 (drop_bit n w)" by (simp add: take_bit_eq_mask)
  also have "\<dots> = ucast (byte_at w n)" by (rule bit_word_eqI) (auto simp: byte_at_def bit_simps)
  finally show ?thesis .
qed

lemma ucast_byte [simp]: "ucast (ucast (b :: byte) :: u32) = b" "unat (ucast (b :: byte) :: u32) = unat b"
proof -
  show "ucast (ucast (b :: byte) :: u32) = b" by (rule bit_word_eqI) (auto simp: bit_simps)
  have "unat b < 2 ^ 32" using unsigned_less [of b, where 'a = nat] by simp
  then show "unat (ucast (b :: byte) :: u32) = unat b" by (simp add: unsigned_ucast_eq take_bit_nat_eq_self)
qed

lemma PUT_bytes: "PUT_UINT32_LE w = [byte_at w 0, byte_at w 8, byte_at w 16, byte_at w 24]"
  using and_byte [of 0 w] by (simp add: PUT_UINT32_LE_def and_byte)

lemma at8_byte: "at8 w n = unat (byte_at w n)"
  by (simp add: at8_def and_byte)

lemma byte_at_xor: "byte_at (a XOR b) n = byte_at a n XOR byte_at b n"
  by (rule bit_word_eqI) (simp add: byte_at_def bit_simps)

lemma byte_at_V0:
  "byte_at (V0 (a, b, c, d)) 0 = d" "byte_at (V0 (a, b, c, d)) 8 = c" "byte_at (V0 (a, b, c, d)) 16 = b" "byte_at (V0 (a, b, c, d)) 24 = a"
proof -
  have "bit (byte_at w n) i = bit w (n + i)" if "i < 8" for w n i using that by (simp add: byte_at_def bit_simps)
  then show "byte_at (V0 (a, b, c, d)) 0 = d" "byte_at (V0 (a, b, c, d)) 8 = c" "byte_at (V0 (a, b, c, d)) 16 = b" "byte_at (V0 (a, b, c, d)) 24 = a"
    by (intro bit_word_eqI; simp add: bit_V0 del: V0.simps)+
qed

lemma PUT_V0: "PUT_UINT32_LE (V0 (a, b, c, d)) = [d, c, b, a]"
  by (simp only: PUT_bytes byte_at_V0)

lemma PUT_xor: "PUT_UINT32_LE (a XOR b) = xor_bytes (PUT_UINT32_LE a) (PUT_UINT32_LE b)"
  by (simp add: PUT_bytes byte_at_xor xor_bytes_def)

subsection \<open>Rounds\<close>

lemma table_lengths: "length FSb_rom = 256" "length RSb_rom = 256"
  by (simp_all add: FSb_rom_def RSb_rom_def)

lemma unat_byte: "unat (b :: byte) < 256"
  using unsigned_less [of b, where 'a = nat] by simp

lemma PUT_FT:
  "PUT_UINT32_LE (FT0 rom_tables ! at8 w n) = (let s = sbox (byte_at w n) in [xtime s, s, s, gmul3 s])"
  "PUT_UINT32_LE (FT1 rom_tables ! at8 w n) = (let s = sbox (byte_at w n) in [gmul3 s, xtime s, s, s])"
  "PUT_UINT32_LE (FT2 rom_tables ! at8 w n) = (let s = sbox (byte_at w n) in [s, gmul3 s, xtime s, s])"
  "PUT_UINT32_LE (FT3 rom_tables ! at8 w n) = (let s = sbox (byte_at w n) in [s, s, gmul3 s, xtime s])"
  using unat_byte [of "byte_at w n"]
  by (simp_all add: rom_tables_def FT_rom_entries table_lengths at8_byte V_rotated PUT_V0 sbox_def Let_def del: V0.simps V1.simps V2.simps V3.simps)

lemma PUT_RT:
  "PUT_UINT32_LE (RT0 rom_tables ! unat b) = (let s = inv_sbox b in [gmul14 s, gmul9 s, gmul13 s, gmul11 s])"
  "PUT_UINT32_LE (RT1 rom_tables ! unat b) = (let s = inv_sbox b in [gmul11 s, gmul14 s, gmul9 s, gmul13 s])"
  "PUT_UINT32_LE (RT2 rom_tables ! unat b) = (let s = inv_sbox b in [gmul13 s, gmul11 s, gmul14 s, gmul9 s])"
  "PUT_UINT32_LE (RT3 rom_tables ! unat b) = (let s = inv_sbox b in [gmul9 s, gmul13 s, gmul11 s, gmul14 s])"
  using unat_byte [of b]
  by (simp_all add: rom_tables_def RT_rom_entries table_lengths V_rotated PUT_V0 inv_sbox_def Let_def del: V0.simps V1.simps V2.simps V3.simps)

lemma PUT_sb_word: "PUT_UINT32_LE (sb_word sb a b c d) =
  [sb ! unat (byte_at a 0), sb ! unat (byte_at b 8), sb ! unat (byte_at c 16), sb ! unat (byte_at d 24)]"
  unfolding sb_word_def bytes_disjoint PUT_V0 at8_byte ..

lemma upt_16: "[0..<16] = [0, 1, 2, 3, 4, 5, 6, 7, 8, 9, 10, 11, 12, 13, 14, 15]"
  by code_simp

lemmas round_defs = PUT_xor PUT_bytes xor_bytes_def SubBytes_def ShiftRows_def MixColumns_def on_columns_def mix_column_def upt_16
  InvSubBytes_def InvShiftRows_def InvMixColumns_def inv_mix_column_def

lemma FROUND_bytes:
  "put_block (AES_FROUND rom_tables k Y) = xor_bytes (put_block k) (MixColumns (ShiftRows (SubBytes (put_block Y))))"
proof -
  obtain k0 k1 k2 k3 Y0 Y1 Y2 Y3 where "k = (k0, k1, k2, k3)" "Y = (Y0, Y1, Y2, Y3)" by (metis prod.exhaust)
  then show ?thesis by (simp add: PUT_xor PUT_FT Let_def) (simp add: round_defs xor_ac)
qed

lemma RROUND_bytes:
  "put_block (AES_RROUND rom_tables k Y) = xor_bytes (put_block k) (InvMixColumns (InvSubBytes (InvShiftRows (put_block Y))))"
proof -
  obtain k0 k1 k2 k3 Y0 Y1 Y2 Y3 where "k = (k0, k1, k2, k3)" "Y = (Y0, Y1, Y2, Y3)" by (metis prod.exhaust)
  then show ?thesis by (simp add: PUT_xor at8_byte PUT_RT Let_def) (simp add: round_defs xor_ac)
qed

lemma last_round_bytes:
  "put_block (last_fround rom_tables k Y) = xor_bytes (put_block k) (ShiftRows (SubBytes (put_block Y)))"
  "put_block (last_rround rom_tables k Y) = xor_bytes (put_block k) (InvSubBytes (InvShiftRows (put_block Y)))"
proof -
  obtain k0 k1 k2 k3 Y0 Y1 Y2 Y3 where kY: "k = (k0, k1, k2, k3)" "Y = (Y0, Y1, Y2, Y3)" by (metis prod.exhaust)
  have rom: "FSb rom_tables = FSb_rom" "RSb rom_tables = RSb_rom" by (simp_all add: rom_tables_def)
  show "put_block (last_fround rom_tables k Y) = xor_bytes (put_block k) (ShiftRows (SubBytes (put_block Y)))"
    using kY by (simp add: PUT_xor PUT_sb_word rom) (simp add: round_defs sbox_def)
  show "put_block (last_rround rom_tables k Y) = xor_bytes (put_block k) (InvSubBytes (InvShiftRows (put_block Y)))"
    using kY by (simp add: PUT_xor PUT_sb_word rom) (simp add: round_defs inv_sbox_def)
qed

lemma GET_V0: "GET_UINT32_LE b i = V0 (b ! (i + 3), b ! (i + 2), b ! (i + 1), b ! i)"
  by (simp add: GET_UINT32_LE_def or.commute or.left_commute or.assoc)

lemma PUT_GET: "i + 4 \<le> length b \<Longrightarrow> PUT_UINT32_LE (GET_UINT32_LE b i) = take 4 (drop i b)"
  unfolding GET_V0 PUT_V0 by (rule nth_equalityI) (auto simp: less_Suc_eq numeral_eq_Suc)

lemma take_16: "16 \<le> length b \<Longrightarrow> take 16 b = take 4 b @ take 4 (drop 4 b) @ take 4 (drop 8 b) @ take 4 (drop 12 b)"
  using take_add [of 4 12 b] take_add [of 4 8 "drop 4 b"] take_add [of 4 4 "drop 8 b"] by simp

lemma xor_bytes_append: "length a = length c \<Longrightarrow> xor_bytes (a @ b) (c @ d) = xor_bytes a c @ xor_bytes b d"
  by (simp add: xor_bytes_def)

lemma xor_bytes_commute: "xor_bytes a b = xor_bytes b a"
  unfolding xor_bytes_def by (rule nth_equalityI) (auto simp: xor.commute)

lemma first_xor_bytes:
  assumes "16 \<le> length input"
  shows "put_block (first_xor k input) = xor_bytes (put_block k) (take 16 input)"
proof -
  obtain k0 k1 k2 k3 where k: "k = (k0, k1, k2, k3)" by (metis prod.exhaust)
  have "PUT_UINT32_LE (GET_UINT32_LE input i) = take 4 (drop i input)" if "i \<le> 12" for i using that assms by (intro PUT_GET) simp
  then have "put_block (first_xor k input) = xor_bytes (take 4 input) (PUT_UINT32_LE k0) @ xor_bytes (take 4 (drop 4 input)) (PUT_UINT32_LE k1) @
      xor_bytes (take 4 (drop 8 input)) (PUT_UINT32_LE k2) @ xor_bytes (take 4 (drop 12 input)) (PUT_UINT32_LE k3)"
    using k by (simp add: PUT_xor)
  then show ?thesis
    using assms unfolding take_16 [OF assms] xor_bytes_commute [of "put_block k"] by (simp add: k xor_bytes_append)
qed

subsection \<open>Inverses\<close>

text \<open>The S-boxes are inverse to each other: 256 cases.\<close>

lemma inv_sbox_table: "map (\<lambda>s. RSb_rom ! unat s) FSb_rom = map of_nat [0..<256]"
  by code_simp

lemma inv_sbox_sbox: "inv_sbox (sbox b) = b"
proof -
  have "\<forall>i<256. RSb_rom ! unat (FSb_rom ! i) = of_nat i" using inv_sbox_table by (simp add: list_eq_iff_nth_eq table_lengths)
  from this [rule_format, OF unat_byte [of b]] show ?thesis by (simp add: sbox_def inv_sbox_def)
qed

lemma list_16: "length s = 16 \<Longrightarrow> s = map (\<lambda>i. s ! i) [0..<16]"
  using map_nth [of s] by simp

lemma inv_shift_shift: "length s = 16 \<Longrightarrow> InvShiftRows (ShiftRows s) = s"
  by (subst (2) list_16) (simp_all add: InvShiftRows_def ShiftRows_def upt_16)

lemma inv_sub_sub: "InvSubBytes (InvShiftRows (ShiftRows (SubBytes s))) = s" if "length s = 16"
  using that by (simp add: inv_shift_shift SubBytes_def InvSubBytes_def inv_sbox_sbox map_idI)

lemma xor_self: "(a :: byte) XOR (a XOR b) = b"
  by (simp add: xor.assoc [symmetric])

lemma inv_mix_mix_column:
  "on_columns inv_mix_column (on_columns mix_column s) = map (\<lambda>i. s ! i) [0..<16]"
  by (simp add: on_columns_def upt_16) (simp add: inv_mix_column_def mix_column_def gmul_defs xtime_xor xor_ac xor_self)

lemma inv_mix_mix: "length s = 16 \<Longrightarrow> InvMixColumns (MixColumns s) = s"
  using list_16 [of s] by (simp add: InvMixColumns_def MixColumns_def inv_mix_mix_column)

lemma inv_mix_xor:
  "length a = 16 \<Longrightarrow> length b = 16 \<Longrightarrow> InvMixColumns (xor_bytes a b) = xor_bytes (InvMixColumns a) (InvMixColumns b)"
  by (simp add: InvMixColumns_def on_columns_def xor_bytes_def) (simp add: inv_mix_column_def gmul_defs xtime_xor xor_ac)

lemma state_lengths [simp]: "length (SubBytes s) = length s" "length (InvSubBytes s) = length s" "length (ShiftRows s) = 16" "length (InvShiftRows s) = 16"
  "length (MixColumns s) = 16" "length (InvMixColumns s) = 16" "length (xor_bytes a b) = min (length a) (length b)"
  by (simp_all add: SubBytes_def InvSubBytes_def ShiftRows_def InvShiftRows_def MixColumns_def InvMixColumns_def on_columns_def mix_column_def
      inv_mix_column_def xor_bytes_def)

lemma length_put_block [simp]: "length (put_block X) = 16"
  by (cases X) simp

lemma xor_bytes_cancel: "length a = length b \<Longrightarrow> xor_bytes a (xor_bytes a b) = b"
  unfolding xor_bytes_def by (rule nth_equalityI) (auto simp: xor_self)

text \<open>
  Decryption undoes the rounds one by one: after the rounds from \<open>m\<close> on, the state is that before round \<open>m\<close>, substituted and shifted.
\<close>

definition enc_state :: "(nat \<Rightarrow> byte list) \<Rightarrow> byte list \<Rightarrow> nat \<Rightarrow> byte list" where
  "enc_state k s m = fold (\<lambda>r s. xor_bytes (k r) (MixColumns (ShiftRows (SubBytes s)))) [1..<Suc m] s"

lemma enc_state_Suc: "enc_state k s (Suc m) = xor_bytes (k (Suc m)) (MixColumns (ShiftRows (SubBytes (enc_state k s m))))"
  by (simp add: enc_state_def)

lemma enc_state_0: "enc_state k s 0 = s"
  by (simp add: enc_state_def)

lemma length_enc_state: "length s = 16 \<Longrightarrow> (\<And>r. r \<le> m \<Longrightarrow> length (k r) = 16) \<Longrightarrow> length (enc_state k s m) = 16"
  by (cases m) (simp_all add: enc_state_0 enc_state_Suc)

lemma dec_rounds:
  assumes "length s = 16" "\<And>r. r \<le> m \<Longrightarrow> length (k r) = 16"
  shows "fold (\<lambda>r s. InvMixColumns (xor_bytes (k r) (InvSubBytes (InvShiftRows s)))) (rev [1..<Suc m]) (ShiftRows (SubBytes (enc_state k s m))) =
    ShiftRows (SubBytes s)"
  using assms(2)
proof (induction m)
  case 0
  then show ?case by (simp add: enc_state_0)
next
  case (Suc m)
  have "length (enc_state k s (Suc m)) = 16" using Suc.prems assms(1) by (intro length_enc_state) auto
  then have "InvMixColumns (xor_bytes (k (Suc m)) (InvSubBytes (InvShiftRows (ShiftRows (SubBytes (enc_state k s (Suc m))))))) =
      ShiftRows (SubBytes (enc_state k s m))"
    using Suc.prems [of "Suc m"] by (simp add: inv_sub_sub) (simp add: enc_state_Suc xor_bytes_cancel inv_mix_mix)
  then show ?case using Suc by simp
qed

lemma InvCipher_Cipher:
  assumes "length s = 16" "\<And>r. r \<le> nr \<Longrightarrow> length (k r) = 16" "0 < nr"
  shows "InvCipher nr k (Cipher nr k s) = s"
proof -
  obtain m where m: "nr = Suc m" using assms(3) by (cases nr) auto
  have k: "length (k nr) = 16" "length (k 0) = 16" "\<And>r. r \<le> m \<Longrightarrow> length (k r) = 16" using assms(2) m by auto
  have "Cipher nr k s = xor_bytes (k nr) (ShiftRows (SubBytes (enc_state k (xor_bytes (k 0) s) m)))" by (simp add: Cipher_def enc_state_def m)
  then have "xor_bytes (k nr) (Cipher nr k s) = ShiftRows (SubBytes (enc_state k (xor_bytes (k 0) s) m))" using k by (simp add: xor_bytes_cancel)
  moreover have "length (xor_bytes (k 0) s) = 16" using k assms(1) by simp
  ultimately show ?thesis
    using dec_rounds [of "xor_bytes (k 0) s" m k] k assms(1) by (simp add: InvCipher_def m inv_sub_sub xor_bytes_cancel del: upt_Suc)
qed

subsection \<open>The code on a block\<close>

text \<open>The round key \<open>r\<close> in the array.\<close>

definition rkey :: "u32 list \<Rightarrow> nat \<Rightarrow> byte list" where
  "rkey rk r = put_block (rk ! (4 * r), rk ! (4 * r + 1), rk ! (4 * r + 2), rk ! (4 * r + 3))"

lemma two_rounds_fold:
  assumes F: "\<And>k X. put_block (f k X) = F (put_block k) (put_block X)" and "4 * (r + 2 * n) \<le> length rk"
  shows "\<exists>X'. two_rounds f rk n (4 * r) X = Some X' \<and> put_block X' = fold (\<lambda>r. F (rkey rk r)) [r..<r + 2 * n] (put_block X)"
  using assms(2)
proof (induction n arbitrary: r X)
  case (Suc n)
  define K where "K r = (rk ! (4 * r), rk ! (4 * r + 1), rk ! (4 * r + 2), rk ! (4 * r + 3))" for r
  have K: "rkey rk r = put_block (K r)" for r by (simp only: rkey_def K_def)
  have "rk4 rk (4 * r) = Some (K r)" "rk4 rk (4 * r + 4) = Some (K (r + 1))" using Suc.prems by (simp_all add: rk4_def K_def add.commute)
  then have run: "two_rounds f rk (Suc n) (4 * r) X = two_rounds f rk n (4 * (r + 2)) (f (K (r + 1)) (f (K r) X))" by (simp add: add.commute)
  have "[r..<r + 2 * Suc n] = r # (r + 1) # [r + 2..<(r + 2) + 2 * n]" by (simp add: upt_conv_Cons)
  then have "fold (\<lambda>r. F (rkey rk r)) [r..<r + 2 * Suc n] (put_block X) =
      fold (\<lambda>r. F (rkey rk r)) [r + 2..<(r + 2) + 2 * n] (put_block (f (K (r + 1)) (f (K r) X)))" by (simp only: fold_simps F K)
  moreover have "4 * (r + 2 + 2 * n) \<le> length rk" using Suc.prems by simp
  ultimately show ?case using Suc.IH [of "r + 2" "f (K (r + 1)) (f (K r) X)"] unfolding run by simp
qed simp

lemma aes_block_fold:
  assumes F: "\<And>k X. put_block (f k X) = F (put_block k) (put_block X)" and G: "\<And>k X. put_block (g k X) = G (put_block k) (put_block X)"
    and ctx: "aes_rk ctx" "aes_nr ctx = 2 * (int n + 1)" "8 * n + 12 \<le> length (aes_buf ctx)" and "16 \<le> length input"
  shows "aes_block f g ctx input = Some (G (rkey (aes_buf ctx) (2 * (n + 1)))
    (fold (\<lambda>r. F (rkey (aes_buf ctx) r)) [1..<2 * (n + 1)] (xor_bytes (rkey (aes_buf ctx) 0) (take 16 input))))"
proof -
  let ?rk = "aes_buf ctx"
  define K where "K r = (?rk ! (4 * r), ?rk ! (4 * r + 1), ?rk ! (4 * r + 2), ?rk ! (4 * r + 3))" for r
  have K: "rkey ?rk r = put_block (K r)" for r by (simp only: rkey_def K_def)
  obtain X where X: "two_rounds f ?rk n (4 * 1) (first_xor (K 0) input) = Some X"
      "put_block X = fold (\<lambda>r. F (rkey ?rk r)) [1..<1 + 2 * n] (put_block (first_xor (K 0) input))"
    using two_rounds_fold [of f F 1 n ?rk "first_xor (K 0) input", OF F] ctx(3) by auto
  have "rk4 ?rk 0 = Some (K 0)" "rk4 ?rk (4 + 8 * n) = Some (K (1 + 2 * n))" "rk4 ?rk (8 + 8 * n) = Some (K (2 * (n + 1)))"
    using ctx(3) by (simp_all add: rk4_def K_def add_ac)
  moreover have "nat (aes_nr ctx div 2 - 1) = n" using ctx(2) by simp
  ultimately have "aes_block f g ctx input = Some (put_block (g (K (2 * (n + 1))) (f (K (1 + 2 * n)) X)))"
    using X(1) ctx(1) assms(6) by (simp add: aes_block_def Let_def)
  moreover have "[1..<2 * (n + 1)] = [1..<1 + 2 * n] @ [1 + 2 * n]" by simp
  ultimately show ?thesis
    using X(2) first_xor_bytes [OF assms(6), of "K 0"] by (simp only: F G K fold_append comp_apply fold_simps)
qed

lemma encrypt_block:
  assumes "aes_rk ctx" "aes_nr ctx = int nr" "even nr" "2 \<le> nr" "4 * nr + 4 \<le> length (aes_buf ctx)" "16 \<le> length input"
  shows "infra_aes_internal_aes_encrypt rom_tables ctx input = Some (Cipher nr (rkey (aes_buf ctx)) (take 16 input))"
proof -
  from assms(3,4) obtain n where n: "nr = 2 * (n + 1)" by (metis Suc_eq_plus1 add_is_0 dvdE mult_2 not_numeral_le_zero old.nat.exhaust)
  show ?thesis
    unfolding infra_aes_internal_aes_encrypt_def Cipher_def n
    by (rule aes_block_fold [where F = "\<lambda>k s. xor_bytes k (MixColumns (ShiftRows (SubBytes s)))" and G = "\<lambda>k s. xor_bytes k (ShiftRows (SubBytes s))",
          OF FROUND_bytes last_round_bytes(1)]) (use assms n in auto)
qed

lemma decrypt_block:
  assumes "aes_rk ctx" "aes_nr ctx = int nr" "even nr" "2 \<le> nr" "4 * nr + 4 \<le> length (aes_buf ctx)" "length input = 16"
    and k: "rkey (aes_buf ctx) 0 = k nr" "rkey (aes_buf ctx) nr = k 0" "\<And>r. 0 < r \<Longrightarrow> r < nr \<Longrightarrow> rkey (aes_buf ctx) r = InvMixColumns (k (nr - r))"
      "\<And>r. r \<le> nr \<Longrightarrow> length (k r) = 16"
  shows "infra_aes_internal_aes_decrypt rom_tables ctx input = Some (InvCipher nr k input)"
proof -
  from assms(3,4) obtain n where n: "nr = 2 * (n + 1)" by (metis Suc_eq_plus1 add_is_0 dvdE mult_2 not_numeral_le_zero old.nat.exhaust)
  let ?G = "\<lambda>k s. xor_bytes k (InvSubBytes (InvShiftRows s))"
  have "infra_aes_internal_aes_decrypt rom_tables ctx input =
      Some (?G (rkey (aes_buf ctx) nr) (fold (\<lambda>r s. xor_bytes (rkey (aes_buf ctx) r) (InvMixColumns (InvSubBytes (InvShiftRows s)))) [1..<nr]
        (xor_bytes (rkey (aes_buf ctx) 0) (take 16 input))))"
    unfolding infra_aes_internal_aes_decrypt_def n
    by (rule aes_block_fold [where F = "\<lambda>k s. xor_bytes k (InvMixColumns (InvSubBytes (InvShiftRows s)))" and G = ?G,
          OF RROUND_bytes last_round_bytes(2)]) (use assms n in auto)
  moreover have "fold (\<lambda>r s. xor_bytes (rkey (aes_buf ctx) r) (InvMixColumns (InvSubBytes (InvShiftRows s)))) [1..<nr] s =
      fold (\<lambda>r s. InvMixColumns (xor_bytes (k r) (InvSubBytes (InvShiftRows s)))) (rev [1..<nr]) s" for s
  proof -
    have rv: "rev [1..<nr] = map (\<lambda>r. nr - r) [1..<nr]" by (rule nth_equalityI) (auto simp: rev_nth)
    show ?thesis
      unfolding rv fold_map by (intro fold_cong) (auto simp: k inv_mix_xor fun_eq_iff)
  qed
  ultimately show ?thesis using k(1,2) assms(6) by (simp add: InvCipher_def)
qed

subsection \<open>Keys\<close>

text \<open>The first \<open>m\<close> words of the array are those of the key expansion.\<close>

definition words_ok :: "byte list \<Rightarrow> nat \<Rightarrow> nat \<Rightarrow> u32 list \<Rightarrow> bool" where
  "words_ok key nk m rk \<longleftrightarrow> length rk = 68 \<and> (\<forall>j<m. PUT_UINT32_LE (rk ! j) = key_word key nk j)"

lemma words_ok_step:
  assumes "words_ok key nk m rk" "m < 68" "PUT_UINT32_LE w = key_word key nk m"
  shows "words_ok key nk (Suc m) (rk[m := w])"
  using assms by (auto simp: words_ok_def nth_list_update less_Suc_eq)

lemma PUT_sub_rot: "PUT_UINT32_LE (sub_rot_word rom_tables w) = SubWord (RotWord (PUT_UINT32_LE w))"
proof -
  have "sub_rot_word rom_tables w = V0 (sbox (byte_at w 0), sbox (byte_at w 24), sbox (byte_at w 16), sbox (byte_at w 8))"
    unfolding bytes_disjoint [symmetric] by (simp add: sub_rot_word_def at8_byte rom_tables_def sbox_def)
  then show ?thesis unfolding PUT_bytes [of w] by (simp only: PUT_V0 SubWord_def RotWord_def rotate1.simps append.simps list.map)
qed

lemma PUT_sub: "PUT_UINT32_LE (sub_word rom_tables w) = SubWord (PUT_UINT32_LE w)"
proof -
  have "sub_word rom_tables w = V0 (sbox (byte_at w 24), sbox (byte_at w 16), sbox (byte_at w 8), sbox (byte_at w 0))"
    unfolding bytes_disjoint [symmetric] by (simp add: sub_word_def at8_byte rom_tables_def sbox_def)
  then show ?thesis unfolding PUT_bytes [of w] by (simp only: PUT_V0 SubWord_def list.map)
qed

lemma PUT_RCON: "i < 10 \<Longrightarrow> PUT_UINT32_LE (RCON rom_tables ! i) = Rcon (Suc i)"
proof -
  have "list_all (\<lambda>i. PUT_UINT32_LE (RCON_rom ! i) = Rcon (Suc i)) [0..<10]" by code_simp
  then show "i < 10 \<Longrightarrow> PUT_UINT32_LE (RCON rom_tables ! i) = Rcon (Suc i)" by (simp add: list_all_iff rom_tables_def)
qed

lemma words_ok_core:
  assumes "words_ok key nk (nk * i + nk) rk" "i < 10" "0 < nk" "nk * i + nk < 68" "m = Suc (nk * i + nk)"
  shows "words_ok key nk m (rk_core rom_tables i (nk * i) nk rk)"
proof -
  have w: "PUT_UINT32_LE (rk ! j) = key_word key nk j" if "j < nk * i + nk" for j using assms(1) that by (simp add: words_ok_def)
  have m: "(nk * i + nk) mod nk = 0" "(nk * i + nk) div nk = Suc i" using assms(3) by simp_all
  have "key_word key nk (nk * i + nk) = xor_bytes (key_word key nk (nk * i))
      (xor_bytes (SubWord (RotWord (key_word key nk (nk * i + nk - 1)))) (Rcon (Suc i)))"
    using assms(3) by (subst key_word.simps) (simp add: m Let_def)
  also have "\<dots> = PUT_UINT32_LE (rk ! (nk * i) XOR RCON rom_tables ! i XOR sub_rot_word rom_tables (rk ! (nk * i + nk - 1)))"
    using w [of "nk * i"] w [of "nk * i + nk - 1"] assms(2,3) by (simp add: PUT_xor PUT_sub_rot PUT_RCON xor_bytes_commute [of _ "Rcon (Suc i)"])
  finally show ?thesis unfolding rk_core_def assms(5) using words_ok_step [OF assms(1,4)] by simp
qed

lemma words_ok_xor:
  assumes "words_ok key nk (nk * i + d) rk" "0 < nk" "nk \<le> d" "d mod nk \<noteq> 0" "6 < nk \<longrightarrow> d mod nk \<noteq> 4" "nk * i + d < 68" "a = d - nk" "b = d - 1" "m = Suc (nk * i + d)"
  shows "words_ok key nk m (rk_xor (nk * i) d a b rk)"
proof -
  have w: "PUT_UINT32_LE (rk ! j) = key_word key nk j" if "j < nk * i + d" for j using assms(1) that by (simp add: words_ok_def)
  have "key_word key nk (nk * i + d) = xor_bytes (key_word key nk (nk * i + a)) (key_word key nk (nk * i + b))"
    using assms(2-5,7,8) by (subst key_word.simps) (auto simp: Let_def)
  also have "\<dots> = PUT_UINT32_LE (rk ! (nk * i + a) XOR rk ! (nk * i + b))"
    using w [of "nk * i + a"] w [of "nk * i + b"] assms(2,3,7,8) by (simp add: PUT_xor)
  finally show ?thesis unfolding rk_xor_def assms(9) using words_ok_step [OF assms(1,6)] by simp
qed

lemma words_ok_mid:
  assumes "words_ok key 8 (8 * i + 12) rk" "8 * i + 12 < 68" "m = Suc (8 * i + 12)"
  shows "words_ok key 8 m (rk_mid rom_tables (8 * i) rk)"
proof -
  have w: "PUT_UINT32_LE (rk ! j) = key_word key 8 j" if "j < 8 * i + 12" for j using assms(1) that by (simp add: words_ok_def)
  have "key_word key 8 (8 * i + 12) = xor_bytes (key_word key 8 (8 * i + 4)) (SubWord (key_word key 8 (8 * i + 11)))"
    by (subst key_word.simps) (simp add: Let_def add.commute)
  also have "\<dots> = PUT_UINT32_LE (rk ! (8 * i + 4) XOR sub_word rom_tables (rk ! (8 * i + 11)))"
    using w [of "8 * i + 4"] w [of "8 * i + 11"] by (simp add: PUT_xor PUT_sub)
  finally show ?thesis unfolding rk_mid_def assms(3) using words_ok_step [OF assms(1,2)] by simp
qed

lemma expand_10_ok:
  "words_ok key 4 (4 * i + 4) rk \<Longrightarrow> i + n \<le> 10 \<Longrightarrow> words_ok key 4 (4 * (i + n) + 4) (expand_10 rom_tables n i (4 * i) rk)"
proof (induction n arbitrary: i rk)
  case (Suc n)
  have "words_ok key 4 (4 * (i + 1) + 4) (rk_xor (4 * i) 7 3 6 (rk_xor (4 * i) 6 2 5 (rk_xor (4 * i) 5 1 4 (rk_core rom_tables i (4 * i) 4 rk))))"
    by (intro words_ok_xor words_ok_mid words_ok_core Suc.prems(1)) (use Suc.prems(2) in simp_all)
  from Suc.IH [OF this] Suc.prems(2) show ?case by (simp add: add.commute)
qed simp

lemma expand_12_ok:
  "words_ok key 6 (6 * i + 6) rk \<Longrightarrow> i + n \<le> 8 \<Longrightarrow> words_ok key 6 (6 * (i + n) + 6) (expand_12 rom_tables n i (6 * i) rk)"
proof (induction n arbitrary: i rk)
  case (Suc n)
  have "words_ok key 6 (6 * (i + 1) + 6) (rk_xor (6 * i) 11 5 10 (rk_xor (6 * i) 10 4 9 (rk_xor (6 * i) 9 3 8 (rk_xor (6 * i) 8 2 7
      (rk_xor (6 * i) 7 1 6 (rk_core rom_tables i (6 * i) 6 rk))))))"
    by (intro words_ok_xor words_ok_mid words_ok_core Suc.prems(1)) (use Suc.prems(2) in simp_all)
  from Suc.IH [OF this] Suc.prems(2) show ?case by (simp add: add.commute)
qed simp

lemma expand_14_ok:
  "words_ok key 8 (8 * i + 8) rk \<Longrightarrow> i + n \<le> 7 \<Longrightarrow> words_ok key 8 (8 * (i + n) + 8) (expand_14 rom_tables n i (8 * i) rk)"
proof (induction n arbitrary: i rk)
  case (Suc n)
  have "words_ok key 8 (8 * (i + 1) + 8) (rk_xor (8 * i) 15 7 14 (rk_xor (8 * i) 14 6 13 (rk_xor (8 * i) 13 5 12 (rk_mid rom_tables (8 * i)
      (rk_xor (8 * i) 11 3 10 (rk_xor (8 * i) 10 2 9 (rk_xor (8 * i) 9 1 8 (rk_core rom_tables i (8 * i) 8 rk))))))))"
    by (intro words_ok_xor words_ok_mid words_ok_core Suc.prems(1)) (use Suc.prems(2) in simp_all)
  from Suc.IH [OF this] Suc.prems(2) show ?case by (simp add: add.commute)
qed simp

lemma load_key_ok: "4 * nk \<le> length key \<Longrightarrow> nk \<le> 68 \<Longrightarrow> length rk = 68 \<Longrightarrow> words_ok key nk nk (load_key key nk rk)"
  by (auto simp: words_ok_def load_key_def nth_append PUT_GET key_word.simps [of key nk])

text \<open>A key that has been set for encryption.\<close>

definition key_size :: "nat \<Rightarrow> nat \<Rightarrow> bool" where
  "key_size keybits nr \<longleftrightarrow> (keybits, nr) \<in> {(128, 10), (192, 12), (256, 14)}"

definition tables_ok :: "aes_static \<Rightarrow> bool" where
  "tables_ok st \<longleftrightarrow> (aes_init_done st \<longrightarrow> aes_tab st = aes_gen_tables)"

definition enc_key :: "byte list \<Rightarrow> nat \<Rightarrow> nat \<Rightarrow> infra_aes_context \<Rightarrow> bool" where
  "enc_key key keybits nr ctx \<longleftrightarrow> aes_rk ctx \<and> aes_nr ctx = int nr \<and> words_ok key (keybits div 32) (4 * nr + 4) (aes_buf ctx)"

lemma setkey_enc_ok:
  assumes "key_size keybits nr" "4 * (keybits div 32) \<le> length key" "length (aes_buf ctx) = 68" "tables_ok st"
  shows "\<exists>ctx' st'. infra_aes_setkey_enc ctx key keybits st = Some (0, ctx', st') \<and> enc_key key keybits nr ctx' \<and>
     aes_tab st' = rom_tables \<and> tables_ok st'"
proof -
  have t: "aes_tab (make_tables st) = rom_tables" "tables_ok (make_tables st)"
    using assms(4) gen_tables_rom by (simp_all add: make_tables_def tables_ok_def)
  have less: "words_ok key nk m rk \<Longrightarrow> m' \<le> m \<Longrightarrow> words_ok key nk m' rk" for nk m m' rk by (simp add: words_ok_def)
  consider "keybits = 128" "nr = 10" | "keybits = 192" "nr = 12" | "keybits = 256" "nr = 14" using assms(1) by (auto simp: key_size_def)
  then show ?thesis
  proof cases
    case 1
    with expand_10_ok [of key 0 "load_key key 4 (aes_buf ctx)" 10] load_key_ok [of 4 key "aes_buf ctx"] assms(2,3) t show ?thesis
      by (simp add: infra_aes_setkey_enc_def aes_rounds_def enc_key_def Let_def)
  next
    case 2
    with expand_12_ok [of key 0 "load_key key 6 (aes_buf ctx)" 8] load_key_ok [of 6 key "aes_buf ctx"] assms(2,3) t show ?thesis
      by (simp add: infra_aes_setkey_enc_def aes_rounds_def enc_key_def Let_def less)
  next
    case 3
    with expand_14_ok [of key 0 "load_key key 8 (aes_buf ctx)" 7] load_key_ok [of 8 key "aes_buf ctx"] assms(2,3) t show ?thesis
      by (simp add: infra_aes_setkey_enc_def aes_rounds_def enc_key_def Let_def less)
  qed
qed

lemma enc_key_rkey: "enc_key key keybits nr ctx \<Longrightarrow> r \<le> nr \<Longrightarrow> rkey (aes_buf ctx) r = round_key key (keybits div 32) r"
  by (simp add: enc_key_def words_ok_def rkey_def round_key_def)

end
