(* ===== verification/AES_Modes.thy ===== *)
theory AES_Modes
  imports AES_Cipher
begin

text \<open>
  Contexts with a key: encryption of a block is the cipher of FIPS 197 and decryption its inverse; the modes CBC and CFB with
  their round trips, and what provisioning makes of them.
\<close>

subsection \<open>A key for decryption\<close>

definition dec_key :: "byte list \<Rightarrow> nat \<Rightarrow> nat \<Rightarrow> infra_aes_context \<Rightarrow> bool" where
  "dec_key key keybits nr ctx \<longleftrightarrow> aes_rk ctx \<and> aes_nr ctx = int nr \<and> 4 * nr + 4 \<le> length (aes_buf ctx) \<and>
     rkey (aes_buf ctx) 0 = round_key key (keybits div 32) nr \<and> rkey (aes_buf ctx) nr = round_key key (keybits div 32) 0 \<and>
     (\<forall>r. 0 < r \<longrightarrow> r < nr \<longrightarrow> rkey (aes_buf ctx) r = InvMixColumns (round_key key (keybits div 32) (nr - r)))"

lemma inv_key_words: "put_block (inv_key_word rom_tables w0, inv_key_word rom_tables w1, inv_key_word rom_tables w2, inv_key_word rom_tables w3) =
  InvMixColumns (put_block (w0, w1, w2, w3))"
proof -
  have "PUT_UINT32_LE (inv_key_word rom_tables w) = inv_mix_column (byte_at w 0) (byte_at w 8) (byte_at w 16) (byte_at w 24)" for w
  proof -
    have "FSb rom_tables ! at8 w n = sbox (byte_at w n)" for n by (simp add: rom_tables_def sbox_def at8_byte)
    then show ?thesis
      by (simp add: inv_key_word_def PUT_xor PUT_RT Let_def inv_sbox_sbox) (simp add: xor_bytes_def inv_mix_column_def xor_ac)
  qed
  then show ?thesis by (simp add: InvMixColumns_def on_columns_def PUT_bytes)
qed

lemma length_inv_keys: "4 * m + 4 \<le> length sk \<Longrightarrow> length (inv_keys t m sk) = 4 * m"
  by (induction m) auto

lemma inv_keys_nth: "4 * m + 4 \<le> length sk \<Longrightarrow> i < m \<Longrightarrow> j < 4 \<Longrightarrow> inv_keys t m sk ! (4 * i + j) = inv_key_word t (sk ! (4 * (m - i) + j))"
proof (induction m arbitrary: i)
  case (Suc m)
  let ?first = "map (inv_key_word t) (take 4 (drop (4 * Suc m) sk))"
  have l: "length ?first = 4" using Suc.prems(1) by simp
  show ?case
  proof (cases i)
    case 0
    then show ?thesis using Suc.prems l by (simp add: nth_append)
  next
    case (Suc i')
    then show ?thesis using Suc.prems Suc.IH [of i'] l by (simp add: nth_append)
  qed
qed simp

text \<open>The words of the array for decryption.\<close>

lemma dec_schedule_nth:
  assumes "2 \<le> nr" "4 * nr + 4 \<le> length sk" "r \<le> nr" "j < 4"
  shows "(take 4 (drop (4 * nr) sk) @ inv_keys t (nr - 1) sk @ take 4 sk @ rest) ! (4 * r + j) =
    (if r = 0 then sk ! (4 * nr + j) else if r < nr then inv_key_word t (sk ! (4 * (nr - r) + j)) else sk ! j)"
proof -
  let ?a = "take 4 (drop (4 * nr) sk)" and ?b = "inv_keys t (nr - 1) sk" and ?c = "take 4 sk @ rest"
  have la: "length ?a = 4" using assms(2) by simp
  have li: "length ?b = 4 * (nr - 1)" using assms(1,2) by (intro length_inv_keys) simp
  consider "r = 0" | i where "r = Suc i" "i < nr - 1" | "r = nr"
    using assms(3) by (cases r) (auto simp: less_Suc_eq_le dest: le_neq_implies_less)
  then show ?thesis
  proof cases
    case 1
    have "(?a @ ?b @ ?c) ! j = ?a ! j" unfolding nth_append la using assms(4) by simp
    then show ?thesis using 1 assms(2,4) by simp
  next
    case (2 i)
    have idx: "4 * r + j = length ?a + (4 * i + j)" and lt: "4 * i + j < length ?b" using 2 la li assms(4) by linarith+
    have "(?a @ ?b @ ?c) ! (4 * r + j) = (?b @ ?c) ! (4 * i + j)" unfolding idx by (rule nth_append_length_plus)
    also have "\<dots> = ?b ! (4 * i + j)" using lt by (simp add: nth_append)
    also have "\<dots> = inv_key_word t (sk ! (4 * (nr - 1 - i) + j))" using assms 2 by (intro inv_keys_nth) linarith+
    finally show ?thesis using 2 by auto
  next
    case 3
    have idx: "4 * r + j = length ?a + (length ?b + j)" using 3 la li assms(1) by linarith
    have "(?a @ ?b @ ?c) ! (4 * r + j) = ?c ! j" unfolding idx by (simp only: nth_append_length_plus)
    then show ?thesis using 3 assms by (simp add: nth_append)
  qed
qed

lemma setkey_dec_ok:
  assumes "key_size keybits nr" "4 * (keybits div 32) \<le> length key" "length (aes_buf ctx) = 68" "tables_ok st"
  shows "\<exists>ctx' st'. infra_aes_setkey_dec ctx key keybits st = Some (0, ctx', st') \<and> dec_key key keybits nr ctx' \<and>
     aes_tab st' = rom_tables \<and> tables_ok st'"
proof -
  have nr: "2 \<le> nr" "nr \<le> 14" using assms(1) by (auto simp: key_size_def)
  have "length (aes_buf infra_aes_init) = 68" by (simp add: infra_aes_init_def)
  from setkey_enc_ok [OF assms(1,2) this assms(4)] obtain cty st' where
    enc: "infra_aes_setkey_enc infra_aes_init key keybits st = Some (0, cty, st')" "enc_key key keybits nr cty" "aes_tab st' = rom_tables" "tables_ok st'"
    by blast
  define sk where "sk = aes_buf cty"
  have sk: "4 * nr + 4 \<le> length sk" "aes_nr cty = int nr" using enc(2) nr by (simp_all add: enc_key_def words_ok_def sk_def)
  define rk where "rk = take 4 (drop (4 * nr) sk) @ inv_keys rom_tables (nr - 1) sk @ take 4 sk"
  define buf where "buf = rk @ drop (length rk) (aes_buf ctx)"
  have lb: "4 * nr + 4 \<le> length buf" using nr sk length_inv_keys [of "nr - 1" sk rom_tables] by (simp add: buf_def rk_def)
  have key: "rkey sk r = round_key key (keybits div 32) r" if "r \<le> nr" for r using enc_key_rkey [OF enc(2) that] by (simp add: sk_def)
  have at: "buf ! (4 * r + j) = (if r = 0 then sk ! (4 * nr + j) else if r < nr then inv_key_word rom_tables (sk ! (4 * (nr - r) + j)) else sk ! j)"
    if "r \<le> nr" "j < 4" for r j
    using dec_schedule_nth [OF nr(1) sk(1) that, of rom_tables "drop (length rk) (aes_buf ctx)"] by (simp add: buf_def rk_def)
  have four: "rkey rks r = put_block (g 0, g 1, g 2, g 3)" if "\<And>j. j < 4 \<Longrightarrow> rks ! (4 * r + j) = g j" for rks r g
    using that [of 0] that [of 1] that [of 2] that [of 3] by (simp add: rkey_def del: put_block.simps)
  have "rkey buf 0 = rkey sk nr" using four [of buf 0 "\<lambda>j. sk ! (4 * nr + j)"] four [of sk nr "\<lambda>j. sk ! (4 * nr + j)"] at [of 0] by simp
  moreover have "rkey buf nr = rkey sk 0" using four [of buf nr "\<lambda>j. sk ! j"] four [of sk 0 "\<lambda>j. sk ! j"] at [of nr] nr by simp
  moreover have "rkey buf r = InvMixColumns (rkey sk (nr - r))" if "0 < r" "r < nr" for r
    using four [of buf r "\<lambda>j. inv_key_word rom_tables (sk ! (4 * (nr - r) + j))"] four [of sk "nr - r" "\<lambda>j. sk ! (4 * (nr - r) + j)"]
      at [of r] that inv_key_words by simp
  ultimately have "dec_key key keybits nr (ctx\<lparr>aes_rk := True, aes_nr := aes_nr cty, aes_buf := buf\<rparr>)"
    using key lb sk(2) by (simp add: dec_key_def)
  then show ?thesis using enc sk(2) by (simp add: infra_aes_setkey_dec_def Let_def buf_def rk_def sk_def)
qed

subsection \<open>Blocks\<close>

lemma length_round_key: "enc_key key keybits nr ctx \<Longrightarrow> r \<le> nr \<Longrightarrow> length (round_key key (keybits div 32) r) = 16"
  using enc_key_rkey [of key keybits nr ctx r] by (metis length_put_block rkey_def)

lemma Cipher_cong: "(\<And>r. r \<le> nr \<Longrightarrow> k r = k' r) \<Longrightarrow> Cipher nr k s = Cipher nr k' s"
proof -
  assume k: "\<And>r. r \<le> nr \<Longrightarrow> k r = k' r"
  have "fold (\<lambda>r s. xor_bytes (k r) (MixColumns (ShiftRows (SubBytes s)))) [1..<nr] x =
      fold (\<lambda>r s. xor_bytes (k' r) (MixColumns (ShiftRows (SubBytes s)))) [1..<nr] x" for x
    by (intro fold_cong) (auto simp: k)
  then show ?thesis by (simp add: Cipher_def k)
qed

lemma key_size_rounds: "key_size keybits nr \<Longrightarrow> even nr \<and> 2 \<le> nr \<and> 4 * nr + 4 \<le> 68"
  by (auto simp: key_size_def)

lemma ecb_encrypt:
  assumes "key_size keybits nr" "enc_key key keybits nr ctx" "length b = 16"
  shows "infra_aes_crypt_ecb rom_tables ctx INFRA_AES_ENCRYPT b = Some (Cipher nr (round_key key (keybits div 32)) b)"
proof -
  have "infra_aes_internal_aes_encrypt rom_tables ctx b = Some (Cipher nr (rkey (aes_buf ctx)) (take 16 b))"
    using key_size_rounds [OF assms(1)] assms(2,3) by (intro encrypt_block) (simp_all add: enc_key_def words_ok_def)
  then show ?thesis using Cipher_cong [OF enc_key_rkey [OF assms(2)]] assms(3) by (simp add: infra_aes_crypt_ecb_def)
qed

lemma ecb_decrypt:
  assumes "key_size keybits nr" "dec_key key keybits nr ctx" "length b = 16" "\<And>r. r \<le> nr \<Longrightarrow> length (round_key key (keybits div 32) r) = 16"
  shows "infra_aes_crypt_ecb rom_tables ctx INFRA_AES_DECRYPT b = Some (InvCipher nr (round_key key (keybits div 32)) b)"
  using key_size_rounds [OF assms(1)] assms(2-4) decrypt_block [of ctx nr b "round_key key (keybits div 32)"]
  by (simp add: infra_aes_crypt_ecb_def dec_key_def aes_codes)

text \<open>The context for encryption and the context for decryption of one key; \<open>C\<close> is the cipher with it.\<close>

definition key_pair :: "(byte list \<Rightarrow> byte list) \<Rightarrow> infra_aes_context \<Rightarrow> infra_aes_context \<Rightarrow> bool" where
  "key_pair C c d \<longleftrightarrow> (\<forall>b. length b = 16 \<longrightarrow> length (C b) = 16 \<and> infra_aes_crypt_ecb rom_tables c INFRA_AES_ENCRYPT b = Some (C b) \<and>
     infra_aes_crypt_ecb rom_tables d INFRA_AES_DECRYPT (C b) = Some b)"

lemma length_Cipher: "length (k nr) = 16 \<Longrightarrow> length (Cipher nr k b) = 16"
  by (simp add: Cipher_def)

lemma key_pairI:
  assumes "key_size keybits nr" "enc_key key keybits nr c" "dec_key key keybits nr d"
  shows "key_pair (Cipher nr (round_key key (keybits div 32))) c d"
proof -
  note k = length_round_key [OF assms(2)]
  have nr: "0 < nr" using key_size_rounds [OF assms(1)] by simp
  show ?thesis
    unfolding key_pair_def using ecb_encrypt [OF assms(1,2)] ecb_decrypt [OF assms(1,3) _ k] InvCipher_Cipher [OF _ k nr]
    by (simp add: length_Cipher k)
qed

lemma setkey_pair:
  assumes "key_size keybits nr" "keybits div 8 \<le> length key" "length (aes_buf c0) = 68" "length (aes_buf d0) = 68" "tables_ok st"
  obtains c d st1 st2 where "infra_aes_setkey_enc c0 key keybits st = Some (0, c, st1)" "infra_aes_setkey_dec d0 key keybits st1 = Some (0, d, st2)"
    "enc_key key keybits nr c" "dec_key key keybits nr d" "aes_tab st1 = rom_tables" "aes_tab st2 = rom_tables"
proof -
  have l: "4 * (keybits div 32) \<le> length key" using assms(1,2) by (auto simp: key_size_def)
  obtain c st1 where c: "infra_aes_setkey_enc c0 key keybits st = Some (0, c, st1)" "enc_key key keybits nr c" "aes_tab st1 = rom_tables" "tables_ok st1"
    using setkey_enc_ok [OF assms(1) l assms(3,5)] by blast
  obtain d st2 where "infra_aes_setkey_dec d0 key keybits st1 = Some (0, d, st2)" "dec_key key keybits nr d" "aes_tab st2 = rom_tables"
    using setkey_dec_ok [OF assms(1) l assms(4) c(4)] by blast
  with c that show ?thesis by blast
qed

subsection \<open>Modes\<close>

lemma cbc_loops:
  assumes "key_pair C c d" "length iv = 16" "16 * n \<le> length input"
  shows "\<exists>iv' out. cbc_encrypt_loop rom_tables c INFRA_AES_ENCRYPT n iv input = Some (iv', out) \<and> length out = 16 * n \<and>
     cbc_decrypt_loop rom_tables d INFRA_AES_DECRYPT n iv out = Some (iv', take (16 * n) input)"
  using assms(2,3)
proof (induction n arbitrary: iv input)
  case (Suc n)
  let ?b = "take 16 input"
  have b: "length (xor_bytes ?b iv) = 16" using Suc.prems by simp
  define x where "x = C (xor_bytes ?b iv)"
  have x: "length x = 16" "infra_aes_crypt_ecb rom_tables c INFRA_AES_ENCRYPT (xor_bytes ?b iv) = Some x"
      "infra_aes_crypt_ecb rom_tables d INFRA_AES_DECRYPT x = Some (xor_bytes ?b iv)"
    using assms(1) b by (simp_all add: key_pair_def x_def)
  have "16 * n \<le> length (drop 16 input)" using Suc.prems(2) by simp
  from Suc.IH [OF x(1) this] obtain iv' out where
    r: "cbc_encrypt_loop rom_tables c INFRA_AES_ENCRYPT n x (drop 16 input) = Some (iv', out)" "length out = 16 * n"
      "cbc_decrypt_loop rom_tables d INFRA_AES_DECRYPT n x out = Some (iv', take (16 * n) (drop 16 input))" by blast
  have "xor_bytes (xor_bytes ?b iv) iv = ?b"
    using xor_bytes_cancel [of iv ?b] Suc.prems by (simp add: xor_bytes_commute)
  moreover have "take (16 * Suc n) input = ?b @ take (16 * n) (drop 16 input)" using take_add [of 16 "16 * n" input] by simp
  ultimately show ?case using r x Suc.prems(2) by (simp add: load_bytes_def)
qed simp

lemma cfb128_loops:
  assumes "key_pair C c d" "length iv = 16" "n < 16" "k \<le> length input"
  shows "\<exists>n' iv' out. cfb128_loop rom_tables c INFRA_AES_ENCRYPT k n iv input = Some (n', iv', out) \<and> length out = k \<and>
     cfb128_loop rom_tables c INFRA_AES_DECRYPT k n iv out = Some (n', iv', take k input)"
  using assms(2-4)
proof (induction k arbitrary: iv n input)
  case (Suc k)
  then obtain b bs where input: "input = b # bs" by (cases input) auto
  define v where "v = (if n = 0 then C iv else iv)"
  have v: "length v = 16" "(if n = 0 then infra_aes_crypt_ecb rom_tables c INFRA_AES_ENCRYPT iv else Some iv) = Some v"
    using assms(1) Suc.prems(1) by (simp_all add: key_pair_def v_def)
  define o1 where "o1 = b XOR v ! n"
  have undo: "o1 XOR v ! n = b" by (simp add: o1_def xor.assoc)
  have "length (v[n := o1]) = 16" "(n + 1) mod 16 < 16" "k \<le> length bs" using v(1) Suc.prems(3) input by simp_all
  from Suc.IH [OF this] obtain n' iv' out where
    r: "cfb128_loop rom_tables c INFRA_AES_ENCRYPT k ((n + 1) mod 16) (v[n := o1]) bs = Some (n', iv', out)" "length out = k"
      "cfb128_loop rom_tables c INFRA_AES_DECRYPT k ((n + 1) mod 16) (v[n := o1]) out = Some (n', iv', take k bs)" by blast
  have "cfb128_loop rom_tables c INFRA_AES_ENCRYPT (Suc k) n iv input = Some (n', iv', o1 # out)"
    using r(1) v Suc.prems(2) input by (simp add: o1_def aes_codes Let_def)
  moreover have "cfb128_loop rom_tables c INFRA_AES_DECRYPT (Suc k) n iv (o1 # out) = Some (n', iv', b # take k bs)"
    using r(3) v Suc.prems(2) undo by (simp add: aes_codes Let_def)
  ultimately show ?case using r(2) input by simp
qed simp

lemma cfb8_loops:
  assumes "key_pair C c d" "length iv = 16" "k \<le> length input"
  shows "\<exists>iv' out. cfb8_loop rom_tables c INFRA_AES_ENCRYPT k iv input = Some (iv', out) \<and> length out = k \<and>
     cfb8_loop rom_tables c INFRA_AES_DECRYPT k iv out = Some (iv', take k input)"
  using assms(2,3)
proof (induction k arbitrary: iv input)
  case (Suc k)
  then obtain b bs where input: "input = b # bs" by (cases input) auto
  have v: "infra_aes_crypt_ecb rom_tables c INFRA_AES_ENCRYPT iv = Some (C iv)" using assms(1) Suc.prems(1) by (simp add: key_pair_def)
  define o1 where "o1 = C iv ! 0 XOR b"
  have undo: "C iv ! 0 XOR o1 = b" by (simp add: o1_def xor_self)
  have "length (drop 1 (iv @ [o1])) = 16" "k \<le> length bs" using Suc.prems input by simp_all
  from Suc.IH [OF this] obtain iv' out where
    r: "cfb8_loop rom_tables c INFRA_AES_ENCRYPT k (drop 1 (iv @ [o1])) bs = Some (iv', out)" "length out = k"
      "cfb8_loop rom_tables c INFRA_AES_DECRYPT k (drop 1 (iv @ [o1])) out = Some (iv', take k bs)" by blast
  have "cfb8_loop rom_tables c INFRA_AES_ENCRYPT (Suc k) iv input = Some (iv', o1 # out)"
    using r(1) v Suc.prems(1) input by (simp add: o1_def aes_codes Let_def load_bytes_def)
  moreover have "cfb8_loop rom_tables c INFRA_AES_DECRYPT (Suc k) iv (o1 # out) = Some (iv', b # take k bs)"
    using r(3) v Suc.prems(1) undo by (simp add: aes_codes Let_def load_bytes_def)
  ultimately show ?case using r(2) input by simp
qed simp

lemma setkey_rejects:
  assumes "aes_rounds keybits = None"
  shows "infra_aes_setkey_enc ctx key keybits st = Some (INFRA_ERR_AES_INVALID_KEY_LENGTH, ctx, make_tables st)"
    and "infra_aes_setkey_dec ctx key keybits st = Some (INFRA_ERR_AES_INVALID_KEY_LENGTH, ctx\<lparr>aes_rk := True\<rparr>, make_tables st)"
  using assms by (simp_all add: infra_aes_setkey_enc_def infra_aes_setkey_dec_def aes_codes Let_def)

subsection \<open>Provisioning\<close>

text \<open>Decrypting block by block, with the vector kept in the handle, is decrypting at once.\<close>

lemma cbc_blocks_loop:
  "cbc_decrypt_loop t (pa_ctx p) INFRA_AES_DECRYPT n (pa_iv p) src = Some (iv', out) \<Longrightarrow> length (pa_iv p) = 16 \<Longrightarrow>
    cbc_blocks t n ret p src = Some (if n = 0 then ret else 0, p\<lparr>pa_iv := iv'\<rparr>, out)"
proof (induction n arbitrary: p src iv' out ret)
  case (Suc n)
  then obtain temp o1 rest where s: "load_bytes src 0 16 = Some temp" "infra_aes_crypt_ecb t (pa_ctx p) INFRA_AES_DECRYPT temp = Some o1"
      "cbc_decrypt_loop t (pa_ctx p) INFRA_AES_DECRYPT n temp (drop 16 src) = Some (iv', rest)" "out = xor_bytes o1 (pa_iv p) @ rest"
    by (auto simp: bind_eq_Some_conv split: prod.splits)
  have "infra_aes_crypt_cbc t (pa_ctx p) INFRA_AES_DECRYPT 16 (pa_iv p) src = Some (0, temp, xor_bytes o1 (pa_iv p))"
    using s(1,2) Suc.prems(2) by (simp add: infra_aes_crypt_cbc_def)
  moreover have "length temp = 16" using load_bytes_length [OF s(1)] .
  ultimately show ?case using Suc.IH [of "p\<lparr>pa_iv := temp\<rparr>" "drop 16 src" iv' rest 0] s(3,4) by simp
qed auto

text \<open>What a peer has encrypted with AES-128 in CBC mode, provisioning decrypts.\<close>

lemma awss_cbc_decrypts:
  assumes "tables_ok st" "length key = 16" "length iv = 16" "length data = 16 * n" "0 < n"
    and "infra_aes_setkey_enc infra_aes_init key 128 st = Some (0, c, st1)"
    and "infra_aes_crypt_cbc (aes_tab st1) c INFRA_AES_ENCRYPT (length data) iv data = Some (0, iv1, secret)"
  shows "\<exists>h st2 h'. awss_Aes128_Init (Some key) (Some iv) True st = Some (Some h, st2) \<and>
    awss_Aes128_Cbc_Decrypt (Some h) (Some secret) n True st2 = Some (0, Some h', data)"
proof -
  have k: "key_size 128 10" by (simp add: key_size_def)
  have l: "4 * (128 div 32) \<le> length key" "length (aes_buf infra_aes_init) = 68" using assms(2) by (simp_all add: infra_aes_init_def)
  obtain d st2 where d: "infra_aes_setkey_dec infra_aes_init key 128 st = Some (0, d, st2)" "dec_key key 128 10 d" "aes_tab st2 = rom_tables"
    using setkey_dec_ok [OF k l assms(1)] by blast
  have c: "enc_key key 128 10 c" "aes_tab st1 = rom_tables" using setkey_enc_ok [OF k l assms(1)] assms(6) by auto
  define h where "h = \<lparr>pa_ctx = d, pa_iv = iv, pa_key = key\<rparr>"
  have "awss_Aes128_Init (Some key) (Some iv) True st = Some (Some h, st2)"
    using d(1) assms(2,3) by (simp add: awss_Aes128_Init_def load_bytes_def h_def)
  moreover have "cbc_decrypt_loop rom_tables d INFRA_AES_DECRYPT n iv secret = Some (iv1, data)"
    using cbc_loops [OF key_pairI [OF k c(1) d(2)] assms(3), of n data] assms(3,4,7) c(2) by (auto simp: infra_aes_crypt_cbc_def aes_codes split: prod.splits)
  ultimately show ?thesis
    using cbc_blocks_loop [of rom_tables h n secret iv1 data "-1"] assms(3,5) d(3) by (simp add: h_def awss_Aes128_Cbc_Decrypt_def)
qed

text \<open>
  C37: AES on a block. After \<open>infra_aes_setkey_enc\<close> and \<open>infra_aes_setkey_dec\<close> with a key of 128, 192 or 256 bits, \<open>infra_aes_crypt_ecb\<close>,
  with its tables that merge the steps of a round and with its schedule of transformed round keys for decryption, computes the cipher and the
  inverse cipher of FIPS 197 with the key expansion of the standard (10, 12 or 14 rounds), for every key and every
  block, also on the first use, when the tables have not been made yet.
\<close>

theorem aes_block_correct:
  assumes "key_size keybits nr" "keybits div 8 \<le> length key" "length (aes_buf c0) = 68" "length (aes_buf d0) = 68" "tables_ok st"
    and "length b = 16"
  shows "\<exists>c d st1 st2. infra_aes_setkey_enc c0 key keybits st = Some (0, c, st1) \<and> infra_aes_setkey_dec d0 key keybits st1 = Some (0, d, st2) \<and>
     infra_aes_crypt_ecb (aes_tab st1) c INFRA_AES_ENCRYPT b = Some (Cipher nr (round_key key (keybits div 32)) b) \<and>
     infra_aes_crypt_ecb (aes_tab st2) d INFRA_AES_DECRYPT b = Some (InvCipher nr (round_key key (keybits div 32)) b)"
proof -
  obtain c d st1 st2 where s: "infra_aes_setkey_enc c0 key keybits st = Some (0, c, st1)" "infra_aes_setkey_dec d0 key keybits st1 = Some (0, d, st2)"
      "enc_key key keybits nr c" "dec_key key keybits nr d" "aes_tab st1 = rom_tables" "aes_tab st2 = rom_tables"
    by (rule setkey_pair [OF assms(1-5)])
  then show ?thesis
    using ecb_encrypt [OF assms(1) s(3) assms(6)] ecb_decrypt [OF assms(1) s(4) assms(6) length_round_key [OF s(3)]] by auto
qed

text \<open>Static variables before the first use, and a key.\<close>

definition aes_fresh :: aes_static where
  "aes_fresh = \<lparr>aes_init_done = False, aes_tab = \<lparr>FSb = [], FT0 = [], FT1 = [], FT2 = [], FT3 = [], RSb = [], RT0 = [], RT1 = [], RT2 = [], RT3 = [],
     RCON = []\<rparr>\<rparr>"

definition sample_key :: "byte list" where
  "sample_key = [0, 1, 2, 3, 4, 5, 6, 7, 8, 9, 10, 11, 12, 13, 14, 15]"

lemma sample_key_fits: "key_size 128 10" "128 div 8 \<le> length sample_key" "length (aes_buf infra_aes_init) = 68" "tables_ok aes_fresh"
  by (simp_all add: key_size_def sample_key_def infra_aes_init_def tables_ok_def aes_fresh_def)

theorem aes_block_correct_witness:
  "\<exists>c d st1 st2. infra_aes_setkey_enc infra_aes_init sample_key 128 aes_fresh = Some (0, c, st1) \<and>
     infra_aes_setkey_dec infra_aes_init sample_key 128 st1 = Some (0, d, st2) \<and>
     infra_aes_crypt_ecb (aes_tab st1) c INFRA_AES_ENCRYPT (replicate 16 7) = Some (Cipher 10 (round_key sample_key 4) (replicate 16 7)) \<and>
     infra_aes_crypt_ecb (aes_tab st2) d INFRA_AES_DECRYPT (replicate 16 7) = Some (InvCipher 10 (round_key sample_key 4) (replicate 16 7))"
  using aes_block_correct [OF sample_key_fits(1-3,3,4), of "replicate 16 7"] by simp

text \<open>
  C38: The modes of AES are undone. For every key of 128, 192 or 256 bits and every vector, what \<open>infra_aes_crypt_cbc\<close> encrypts (a number of
  whole blocks), it decrypts with the key set for decryption; what \<open>infra_aes_crypt_cfb128\<close> encrypts from any position in the
  vector, and what \<open>infra_aes_crypt_cfb8\<close> encrypts (any number of bytes), they decrypt with the key set for encryption. Both
  sides end with the same vector and position, so that a stream can be continued. All calls return.
\<close>

theorem aes_modes_roundtrip:
  assumes "key_size keybits nr" "keybits div 8 \<le> length key" "length (aes_buf c0) = 68" "length (aes_buf d0) = 68" "tables_ok st"
    and "length iv = 16" "n < 16" "length plain mod 16 = 0"
  shows "\<exists>c d st1 st2. infra_aes_setkey_enc c0 key keybits st = Some (0, c, st1) \<and> infra_aes_setkey_dec d0 key keybits st1 = Some (0, d, st2) \<and>
     (\<exists>iv' out. infra_aes_crypt_cbc (aes_tab st1) c INFRA_AES_ENCRYPT (length plain) iv plain = Some (0, iv', out) \<and>
        infra_aes_crypt_cbc (aes_tab st2) d INFRA_AES_DECRYPT (length out) iv out = Some (0, iv', plain)) \<and>
     (\<exists>n' iv' out. infra_aes_crypt_cfb128 (aes_tab st1) c INFRA_AES_ENCRYPT (length data) n iv data = Some (0, n', iv', out) \<and>
        infra_aes_crypt_cfb128 (aes_tab st1) c INFRA_AES_DECRYPT (length out) n iv out = Some (0, n', iv', data)) \<and>
     (\<exists>iv' out. infra_aes_crypt_cfb8 (aes_tab st1) c INFRA_AES_ENCRYPT (length data) iv data = Some (0, iv', out) \<and>
        infra_aes_crypt_cfb8 (aes_tab st1) c INFRA_AES_DECRYPT (length out) iv out = Some (0, iv', data))"
proof -
  obtain c d st1 st2 where s: "infra_aes_setkey_enc c0 key keybits st = Some (0, c, st1)" "infra_aes_setkey_dec d0 key keybits st1 = Some (0, d, st2)"
      "enc_key key keybits nr c" "dec_key key keybits nr d" "aes_tab st1 = rom_tables" "aes_tab st2 = rom_tables"
    by (rule setkey_pair [OF assms(1-5)])
  note pair = key_pairI [OF assms(1) s(3,4)]
  have l: "16 * (length plain div 16) = length plain" using assms(8) by auto
  have "\<exists>iv' out. infra_aes_crypt_cbc rom_tables c INFRA_AES_ENCRYPT (length plain) iv plain = Some (0, iv', out) \<and>
      infra_aes_crypt_cbc rom_tables d INFRA_AES_DECRYPT (length out) iv out = Some (0, iv', plain)"
  proof -
    obtain iv' out where "cbc_encrypt_loop rom_tables c INFRA_AES_ENCRYPT (length plain div 16) iv plain = Some (iv', out)" "length out = length plain"
        "cbc_decrypt_loop rom_tables d INFRA_AES_DECRYPT (length plain div 16) iv out = Some (iv', plain)"
      using cbc_loops [OF pair assms(6), of "length plain div 16" plain] unfolding l by auto
    then show ?thesis
      using assms(6,8) by (intro exI [of _ iv'] exI [of _ out]) (simp add: infra_aes_crypt_cbc_def aes_codes)
  qed
  moreover have "\<exists>n' iv' out. infra_aes_crypt_cfb128 rom_tables c INFRA_AES_ENCRYPT (length data) n iv data = Some (0, n', iv', out) \<and>
      infra_aes_crypt_cfb128 rom_tables c INFRA_AES_DECRYPT (length out) n iv out = Some (0, n', iv', data)"
    using cfb128_loops [OF pair assms(6,7), of "length data" data] by (auto simp: infra_aes_crypt_cfb128_def)
  moreover have "\<exists>iv' out. infra_aes_crypt_cfb8 rom_tables c INFRA_AES_ENCRYPT (length data) iv data = Some (0, iv', out) \<and>
      infra_aes_crypt_cfb8 rom_tables c INFRA_AES_DECRYPT (length out) iv out = Some (0, iv', data)"
    using cfb8_loops [OF pair assms(6), of "length data" data] by (auto simp: infra_aes_crypt_cfb8_def)
  ultimately show ?thesis using s by auto
qed

theorem aes_modes_roundtrip_witness:
  "\<exists>c d st1 st2. infra_aes_setkey_enc infra_aes_init sample_key 128 aes_fresh = Some (0, c, st1) \<and>
     infra_aes_setkey_dec infra_aes_init sample_key 128 st1 = Some (0, d, st2) \<and>
     (\<exists>iv' out. infra_aes_crypt_cbc (aes_tab st1) c INFRA_AES_ENCRYPT 32 (replicate 16 1) (replicate 32 5) = Some (0, iv', out) \<and>
        infra_aes_crypt_cbc (aes_tab st2) d INFRA_AES_DECRYPT (length out) (replicate 16 1) out = Some (0, iv', replicate 32 5)) \<and>
     (\<exists>n' iv' out. infra_aes_crypt_cfb128 (aes_tab st1) c INFRA_AES_ENCRYPT 3 5 (replicate 16 1) (replicate 3 9) = Some (0, n', iv', out) \<and>
        infra_aes_crypt_cfb128 (aes_tab st1) c INFRA_AES_DECRYPT (length out) 5 (replicate 16 1) out = Some (0, n', iv', (replicate 3 9))) \<and>
     (\<exists>iv' out. infra_aes_crypt_cfb8 (aes_tab st1) c INFRA_AES_ENCRYPT 3 (replicate 16 1) (replicate 3 9) = Some (0, iv', out) \<and>
        infra_aes_crypt_cfb8 (aes_tab st1) c INFRA_AES_DECRYPT (length out) (replicate 16 1) out = Some (0, iv', (replicate 3 9)))"
  using aes_modes_roundtrip [OF sample_key_fits(1-3,3,4), of "replicate 16 1" 5 "replicate 32 5" "replicate 3 9"] by (simp del: replicate.simps)

end
