(* ===== verification/Spec2Isabelle.thy ===== *)
theory Spec2Isabelle
  imports MQTT_Api_States MQTT_Handshake CoAP_Behaviour DM_Cache Infra_SHA1 Infra_MD5 Json_Lookup OTA_Message OTA_Requests OTA_Http AES_Modes
begin

text \<open>
  A verification of iotkit-embedded, the C SDK of a device that talks to a cloud platform: its MQTT
  client with the interface above it, its updates over the air, its CoAP client, the message queues of its
  device model, and the signature and the digests of its credentials.

  \<^bold>\<open>The program.\<close> An application calls the \<open>IOT_MQTT_*\<close> functions of \<open>src/src/mqtt/mqtt_api.c\<close>. They sign the identity of
  the device (\<open>src/src/dev_sign\<close>), make one default client and call the \<open>wrapper_mqtt_*\<close> functions of
  \<open>src/src/mqtt/impl/iotx_mqtt_client.c\<close>, which keep one record per client (connection state,
  packet buffers, subscription handlers, publications that wait for their acknowledgement, keep-alive
  and reconnect timers), build and parse packets with the functions of \<open>MQTTPacket.c\<close> and its
  neighbours, measure time with \<open>src/src/infra/infra_timer.c\<close> and split topics with
  \<open>src/src/infra/infra_string.c\<close>. Below them is the platform: a clock, an allocator and a network,
  which a port of the SDK supplies.
  The CoAP client (\<open>src/src/coap/client\<close>, over the packet functions of \<open>src/src/coap/CoAPPacket\<close>) is the other way
  to the cloud: it sends a request as a datagram, keeps a copy until the response comes and sends it
  again with growing timeouts. The device model (\<open>src/src/dev_model\<close>) hands its messages to the
  application through a bounded queue (\<open>dm_ipc.c\<close>) and keeps the requests without an answer in a cache
  (\<open>dm_message_cache.c\<close>), whose timeouts go through that queue. The credentials of a device are signed
  with the digests \<open>infra_sha256.c\<close>, \<open>infra_sha1.c\<close> and \<open>infra_md5.c\<close> of \<open>src/src/infra\<close>; its block cipher \<open>infra_aes.c\<close> serves
  the Wi-Fi provisioning. Updates (\<open>src/src/ota\<close>) are
  announced by JSON messages over MQTT, fetched piece by piece with the HTTP client \<open>src/src/infra/infra_httpc.c\<close>, and compared with
  the announced digest.

  \<^bold>\<open>The model.\<close> Each C function is one Isabelle function with the same name (a leading underscore
  is dropped), or one function for it and one for each of its loops and long branches.
  \<^item> Integers keep their width as words where they wrap; lengths and results are \<^typ>\<open>int\<close>.
  \<^item> A buffer is a byte list, and an access outside of it is the value \<^term>\<open>None\<close>. So is a loop that does
    not end. A theorem that a function returns thus also says that it stays inside its buffers.
  \<^item> A C string is the list of its bytes before the terminator; a pointer that may be NULL is an option.
  \<^item> The platform is the record \<^typ>\<open>hal\<close> of \<open>Infra_Timer\<close>: functions that give the clock, the answer of the
    allocator and what the network reads, writes and accepts at every point of the run, and a log of
    the bytes sent. The theorems hold for all of them; \<open>write_bounded\<close> is the one assumption on the network
    (a write accepts at most what it was given), \<open>deadline_seen\<close> (or \<open>clock_runs\<close>, for every
    deadline) the one on the clock.
  \<^item> A callback of the application is an entry in the client's list of events.

  \<^bold>\<open>The theories\<close>, from the bottom up:
  \<^item> \<open>Iot_Prelude\<close>: words, buffers, cursors, the calculi \<open>post\<close> (partial) and \<open>returns\<close> (total) for
    functions with an option result, reachable states and the locale of invariants.
  \<^item> \<open>Infra_Timer\<close> (\<open>infra_timer.c\<close>): timers on a 32-bit clock, right across its wrap-around.
  \<^item> \<open>Infra_String\<close> (\<open>infra_string.c\<close>): hex and decimal conversion with round trips; the tokenizer refines
    a function on strings.
  \<^item> \<open>MQTT_Packet\<close> (\<open>MQTTPacket.c\<close>): the remaining-length code (locale \<open>length_code\<close>), integers and strings.
  \<^item> \<open>MQTT_Serialize\<close> (\<open>MQTTConnectClient.c\<close>, \<open>MQTTSerializePublish.c\<close>, \<open>MQTTDeserializePublish.c\<close>,
    \<open>MQTTSubscribeClient.c\<close>, \<open>MQTTUnsubscribeClient.c\<close>): every packet against its wire format, and back.
  \<^item> \<open>MQTT_Topic\<close>: topic matching against the matching of MQTT 3.1.1 (\<open>mqtt_match\<close>), of which the code misses the names with an
    empty or absent level under a wildcard (\<open>topic_match_misses\<close>), and the topic check.
  \<^item> \<open>MQTT_Client\<close>, \<open>MQTT_Session\<close> (\<open>iotx_mqtt_client.c\<close>): the client record and all its operations.
  \<^item> \<open>MQTT_Invariant\<close>, \<open>MQTT_Reachable\<close>: what each operation leaves alone, the invariant
    \<^const>\<open>client_inv\<close>, the step relation \<^const>\<open>mc_step\<close> of the API and its reachable states. The synchronous
    subscription is treated in the locale \<open>sync_client\<close> for any property that subscribing and yielding keep.
  \<^item> \<open>MQTT_Behaviour\<close>, \<open>MQTT_Effects\<close>, \<open>MQTT_Read\<close>, \<open>MQTT_Receive\<close>, \<open>MQTT_States\<close>, \<open>MQTT_Requests\<close>: what goes
    over the network, what a read leaves in the buffer, who is told of a packet, how the state moves
    and what a successful request has done; \<open>MQTT_Handshake\<close>: the exchange of CONNECT and CONNACK behind a connection.
  \<^item> \<open>C_Strings\<close>: texts in fixed arrays; \<open>Dev_Sign\<close> (\<open>dev_sign_mqtt.c\<close>): what the arrays of a signature hold;
    \<open>Infra_Compat\<close> (\<open>infra_compat.c\<close>): options and callbacks.
  \<^item> \<open>MQTT_Api\<close>, \<open>MQTT_Api_States\<close> (\<open>mqtt_api.c\<close>, \<open>infra_report.c\<close>): the interface with its default client and its
    offline subscriptions, the invariant of all its reachable states, and the credentials of a
    client constructed with or without parameters.
  \<^item> \<open>CoAP_Packet\<close>, \<open>CoAP_Wire\<close>, \<open>CoAP_Decode\<close>, \<open>CoAP_Message\<close> (\<open>CoAPMessage_common.c\<close>, \<open>CoAPSerialize_common.c\<close>,
    \<open>CoAPDeserialize_common.c\<close>): building, encoding and decoding a message, the wire format as a function
    on byte lists, memory safety of decoding any datagram that leaves a byte of the buffer free (\<open>coap_decode_overread\<close> shows a
    datagram without that byte), and the round trip.
  \<^item> \<open>CoAP_Client\<close>, \<open>CoAP_Session\<close>, \<open>CoAP_Behaviour\<close> (\<open>client/CoAPMessage.c\<close>, \<open>CoAPNetwork.c\<close>, \<open>CoAPExport.c\<close>): the context, its
    list of sent messages, the invariant of all reachable contexts, what a request, an
    acknowledgement, a response and the silence of the network do to the list.
  \<^item> \<open>DM_Ipc\<close> (\<open>dm_ipc.c\<close>): the queue, an instance of the locale \<open>bounded_fifo\<close>.
  \<^item> \<open>DM_Cache\<close> (\<open>dm_message_cache.c\<close>): the cache, an instance of the locale \<open>keyed_store\<close>, and its timeouts.
  \<^item> \<open>Infra_Digest\<close>: the buffering, padding and HMAC that the three digests share, proved once in the
    locales \<open>block_digest\<close> and \<open>digest_algorithm\<close>; \<open>Infra_SHA256\<close>, \<open>Infra_SHA1\<close>, \<open>Infra_MD5\<close>: the compression functions
    against FIPS 180-4 and RFC 1321.
  \<^item> \<open>Infra_AES\<close> (\<open>infra_aes.c\<close>, \<open>awss_aes_wrapper.c\<close>): AES; \<open>AES_Tables\<close>: the tables made at run time, those in ROM and the field;
    \<open>AES_Cipher\<close>: FIPS 197 on lists of bytes, and the code of a round and of the key expansion against it; \<open>AES_Modes\<close>: the cipher of a
    context with a key, and the round trips of CBC and CFB.
  \<^item> \<open>Infra_Json\<close>, \<open>Json_Lookup\<close> (\<open>infra_json_parser.c\<close>): the JSON reader that works on the text; what it finds in the text
    of an object without \<open>null\<close> members (which it misreads, \<open>json_null_misread\<close>), and that it stays inside any text that does not end in a quote.
  \<^item> \<open>MQTT_Total\<close>: publishing through the interface returns on a platform whose clock runs (\<open>platform_live\<close>).
  \<^item> \<open>OTA\<close> (\<open>iotx_ota.c\<close>, \<open>ota_lib.c\<close>, \<open>ota_mqtt.c\<close>, \<open>ota_fetch.c\<close>): the update module over the models of the MQTT interface, the
    JSON reader and the digests; \<open>OTA_States\<close>: its invariant over all sequences of calls and messages; \<open>OTA_Message\<close>: from
    the text of a message to a started download; \<open>OTA_Download\<close>: from the pieces to the answer of the check;
    \<open>OTA_Requests\<close>: type safety of \<open>IOT_OTA_Ioctl\<close>, with the requests that dereference \<open>NULL\<close> told apart (\<open>request_crashes\<close>).
  \<^item> \<open>Infra_Httpc\<close>, \<open>Httpc_Stream\<close> (\<open>infra_httpc.c\<close>): the HTTP client on a byte stream, the request it sends, and how the content of a
    response reaches the buffer of the caller when the first read brings the status line and no read times out; \<open>OTA_Http\<close>: the download with
    this client.

  This theory states the properties of the whole MQTT client; those of the other components stand at
  the end of their theories.

  \<^bold>\<open>Configuration.\<close> \<open>PLATFORM_HAS_DYNMEM\<close> and the defaults of \<open>iotx_mqtt_config.h\<close>: dynamic packet buffers, QoS
  0 and 1, no zipped topics, no flow control, no asynchronous protocol stack, no persistent
  subscriptions; CoAP without DTLS, \<open>INFRA_SHA256_SMALLER\<close>, \<open>OTA_SIGNAL_CHANNEL\<close> 1; a little-endian machine. One thread uses the client, so the locks are left out; a
  callback does not call back into the client. Tests for a NULL client are in \<open>MQTT_Api\<close>.

  \<^bold>\<open>Fuel and bounds.\<close> There is no fuel: loops with a bound are total functions, loops that wait for the
  clock or the network are partial functions in the option monad, and \<open>send_packet_terminates\<close> and
  \<open>read_packet_safe\<close> show that they return.

  \<^bold>\<open>Not modelled.\<close> Dynamic registration, the CoAP server and the authentication of the CoAP
  client, the JSON messages of the device model, provisioning but for its AES, the clients above \<open>infra_httpc.c\<close>
  (\<open>src/src/http\<close>, \<open>src/src/http2\<close>), HTTP over TLS, updates over CoAP (\<open>ota_coap.c\<close>) and the AT module; DTLS;
  the platform ports under \<open>src/wrappers\<close>, which are the parameter \<^typ>\<open>hal\<close>; the vendored libraries.
\<close>

section \<open>A sample client\<close>

text \<open>
  For the witnesses: the client that \<open>wrapper_mqtt_init\<close> makes from ordinary parameters on a
  platform that answers every call, and the same client once it is connected.
\<close>

definition sample_params :: iotx_mqtt_param_t where
  "sample_params =
     \<lparr>host = Some [0x68], client_id = Some [0x64], user = Some [0x75], passwd = Some [0x70], clean_session = 1,
      req_timeout_ms = 2000, keepalive_interval_ms = 60000, write_buf_size = 1024, read_buf_size = 1024,
      init_handle_event = \<lparr>h_fp = Some 1, pcontext = 0\<rparr>\<rparr>"

definition sample_client :: iotx_mc_client_t where
  "sample_client = the (fst (wrapper_mqtt_init (Some sample_params) (hal_at (\<lambda>_. 0))))"

definition sample_connected :: iotx_mc_client_t where
  "sample_connected = sample_client
     \<lparr>client_state := IOTX_MC_STATE_CONNECTED, env := hal_at (\<lambda>t. if t < 9 then 0 else 1000000),
      list_sub_handle := [\<lparr>handle = \<lparr>h_fp = Some 2, pcontext = 0\<rparr>, topic_filter = [SLASH, 0x61, SLASH, PLUS]\<rparr>]\<rparr>"

definition sample_receiving :: iotx_mc_client_t where
  "sample_receiving = sample_connected\<lparr>buf_read := Some (publish_packet 0 1 0 [SLASH, 0x61, SLASH, 0x62] 9 [1, 2] @ [0]), buf_size_read := 13\<rparr>"

definition sample_pending :: iotx_mc_client_t where
  "sample_pending = sample_connected\<lparr>list_pub_wait_ack := [pub_node 4 [0x32, 0] 0, (pub_node 5 [0x32, 0] 0)\<lparr>node_state := IOTX_MC_NODE_STATE_INVALID\<rparr>]\<rparr>"

definition sample_msg :: iotx_mqtt_topic_info_t where
  "sample_msg = \<lparr>ti_packet_id = 0, ti_qos = 1, ti_dup = 0, ti_retain = 0, ti_topic_len = 0, ti_payload_len = 2,
     ti_ptopic = None, ti_payload = None\<rparr>"

lemmas sample_init_defs = wrapper_mqtt_init_def iotx_mc_init_def sample_params_def HAL_Malloc_def hal_at_def zero_client_def
  iotx_mc_set_connect_params_def iotx_mc_set_client_state_def iotx_net_init_def mqtt_error_defs mqtt_config_defs
  MQTTPacket_connectData_initializer_def next_tick_def iotx_time_init_def

lemma sample_init: "\<exists>h. wrapper_mqtt_init (Some sample_params) (hal_at (\<lambda>_. 0)) = (Some sample_client, h)"
  by (simp add: sample_client_def sample_init_defs)

lemma sample_reachable: "reachable mc_init mc_step sample_client"
  using sample_init by (intro reach_init) (auto simp: mc_init_def)

lemma sample_sel:
  "client_state sample_client = IOTX_MC_STATE_INITIALIZED" "buf_send sample_client = None" "buf_read sample_client = None"
  "buf_size_send_max sample_client = 1024" "buf_size_read_max sample_client = 1024" "packet_id sample_client = 0"
  "keepalive_probes sample_client = 0" "list_sub_handle sample_client = []" "list_pub_wait_ack sample_client = []"
  "handle_event sample_client = \<lparr>h_fp = Some 1, pcontext = 0\<rparr>" "request_timeout_ms sample_client = 2000"
  "events sample_client = []" "in_yield_cb sample_client = False" "reconnect_time_interval_ms sample_client = 1000"
  "keepAliveInterval (connect_data sample_client) = 60" "MQTTVersion (connect_data sample_client) = 4"
  by (simp_all add: sample_client_def sample_init_defs)

lemma sample_write: "write_bounded (net_write (hal_at f))" "write_bounded (net_write (env sample_connected))"
  by (simp_all add: write_bounded_def hal_at_def sample_connected_def)

lemma sample_connected_inv: "client_inv sample_connected"
  by (simp add: client_inv_def base_inv_def idle_def sample_connected_def sample_sel)

lemma runs: "\<not> Option.is_none r \<Longrightarrow> \<exists>x y. r = Some (x, y)"
  by (auto simp: Option.is_none_def)

section \<open>Properties\<close>

text \<open>
  C1: Whatever the network, the clock and the allocator do, and in whatever order the application
  connects, yields, subscribes, unsubscribes and publishes, every reachable client satisfies the
  invariant \<^const>\<open>client_inv\<close> (counters and timeouts in range, at most 20 publications waiting,
  distinct subscription handlers that all have a callback, no packet buffer left allocated) and is
  initialized, connected, disconnected or reconnecting.
\<close>

theorem reachable_client:
  assumes "reachable mc_init mc_step c"
  shows "client_inv c \<and> client_state c \<in> {IOTX_MC_STATE_INITIALIZED, IOTX_MC_STATE_CONNECTED,
     IOTX_MC_STATE_DISCONNECTED, IOTX_MC_STATE_DISCONNECTED_RECONNECTING}"
  using mqtt_live.reachable_inv [OF assms] by (simp add: live_def)

theorem reachable_client_witness:
  "client_inv sample_client \<and> client_state sample_client \<in> {IOTX_MC_STATE_INITIALIZED, IOTX_MC_STATE_CONNECTED,
     IOTX_MC_STATE_DISCONNECTED, IOTX_MC_STATE_DISCONNECTED_RECONNECTING}"
  by (rule reachable_client [OF sample_reachable])

text \<open>
  \<open>wrapper_mqtt_init\<close> makes a client exactly when the allocation succeeds and parameters, both
  buffer sizes and the host are given; the client is initialized, with request timeout and
  keep-alive interval brought into their ranges and nothing pending.
\<close>

lemma init_result:
  "(fst (wrapper_mqtt_init params h) \<noteq> None \<longleftrightarrow> malloc_ok h (tick h) sizeof_client \<and>
     (\<exists>p. params = Some p \<and> write_buf_size p \<noteq> 0 \<and> read_buf_size p \<noteq> 0 \<and> host p \<noteq> None)) \<and>
   (\<forall>p c. params = Some p \<and> fst (wrapper_mqtt_init params h) = Some c \<longrightarrow>
     client_state c = IOTX_MC_STATE_INITIALIZED \<and> 500 \<le> request_timeout_ms c \<and> request_timeout_ms c \<le> 5000 \<and>
     30 \<le> keepAliveInterval (connect_data c) \<and> keepAliveInterval (connect_data c) \<le> 1200 \<and>
     buf_size_send_max c = write_buf_size p \<and> buf_size_read_max c = read_buf_size p \<and>
     list_sub_handle c = [] \<and> list_pub_wait_ack c = [] \<and> handle_event c = init_handle_event p)"
  by (cases params)
     (auto simp: wrapper_mqtt_init_def HAL_Malloc_def iotx_mc_init_def iotx_mc_set_connect_params_def iotx_net_init_def
       iotx_mc_set_client_state_def mqtt_error_defs mqtt_config_defs Let_def not_less)

text \<open>
  C7: \<open>iotx_mc_send_packet\<close> hands a prefix of the packet to the network, in order and without gaps
  however the network splits its writes, and reports success exactly when that is the whole packet.
\<close>

theorem send_packet_prefix:
  assumes "write_bounded (net_write (env c))" "0 \<le> len" "len \<le> int (length buf)"
    and "iotx_mc_send_packet c (Some buf) len timer = Some (rc, c')"
  shows "\<exists>n \<le> nat len. net_sent (env c') = net_sent (env c) @ take n buf \<and>
     (if n = nat len then rc = SUCCESS_RETURN else rc = MQTT_NETWORK_ERROR)"
  by (rule send_packet_bytes [OF assms])

theorem send_packet_prefix_witness:
  "\<exists>rc c'. iotx_mc_send_packet sample_connected (Some [0xC0, 0]) 2 1000 = Some (rc, c') \<and>
     (\<exists>n \<le> nat 2. net_sent (env c') = net_sent (env sample_connected) @ take n [0xC0, 0] \<and>
       (if n = nat 2 then rc = SUCCESS_RETURN else rc = MQTT_NETWORK_ERROR))"
proof -
  have "\<not> Option.is_none (iotx_mc_send_packet sample_connected (Some [0xC0, 0]) 2 1000)" by code_simp
  then obtain rc c' where r: "iotx_mc_send_packet sample_connected (Some [0xC0, 0]) 2 1000 = Some (rc, c')" using runs by blast
  from send_packet_prefix [OF sample_write(2) _ _ r] r show ?thesis by auto
qed

text \<open>
  C8: The send loop ends: if the clock shows the deadline as passed for long enough to be seen,
  \<open>iotx_mc_send_packet\<close> returns, even when the network accepts nothing.
\<close>

theorem send_packet_terminates:
  assumes "write_bounded (net_write (env c))" "0 \<le> len" "len \<le> int (length buf)" "deadline_seen (env c) timer"
  shows "\<exists>rc c'. iotx_mc_send_packet c (Some buf) len timer = Some (rc, c')"
  by (rule send_packet_returns [OF assms])

theorem send_packet_terminates_witness:
  "\<exists>rc c'. iotx_mc_send_packet sample_connected (Some [0xC0, 0]) 2 1000 = Some (rc, c')"
proof (rule send_packet_terminates)
  show "deadline_seen (env sample_connected) 1000"
    unfolding deadline_seen_def by (rule exI [of _ 9]) (simp add: expired_at_def sample_connected_def hal_at_def)
qed (simp_all add: sample_write)

text \<open>
  C3: A publication that the application is told has succeeded was made on a connected client to a
  topic that passed the check; exactly one PUBLISH packet for that topic and payload was sent, and
  with QoS 1 that packet, under the packet id returned, waits for its acknowledgement.
\<close>

theorem publish_succeeds:
  assumes "wrapper_mqtt_publish c (Some name) m (Some payload) = Some (rc, c')" "0 \<le> rc"
    and "ti_qos m \<in> {0, 1}" "write_bounded (net_write (env c))"
    and "unat (ti_payload_len m) = length payload" "length name + length payload < 268435000"
  shows "client_state c = IOTX_MC_STATE_CONNECTED \<and> iotx_mc_check_topic (Some name) TOPIC_NAME_TYPE = Some SUCCESS_RETURN \<and>
     (let packet = publish_packet 0 (uint (ti_qos m)) (ti_retain m) name (word_of_int rc) payload
      in net_sent (env c') = net_sent (env c) @ packet \<and>
         (\<exists>t. list_pub_wait_ack c' = list_pub_wait_ack c @ (if ti_qos m = 1 then [pub_node (word_of_int rc) packet t] else [])))"
  using publish_success_effect [OF assms] by simp

theorem publish_succeeds_witness:
  "\<exists>rc c'. wrapper_mqtt_publish sample_connected (Some [SLASH, 0x61]) sample_msg (Some [1, 2]) = Some (rc, c') \<and>
     client_state sample_connected = IOTX_MC_STATE_CONNECTED \<and> iotx_mc_check_topic (Some [SLASH, 0x61]) TOPIC_NAME_TYPE = Some SUCCESS_RETURN \<and>
     (let packet = publish_packet 0 (uint (ti_qos sample_msg)) (ti_retain sample_msg) [SLASH, 0x61] (word_of_int rc) [1, 2]
      in net_sent (env c') = net_sent (env sample_connected) @ packet \<and>
         (\<exists>t. list_pub_wait_ack c' = list_pub_wait_ack sample_connected @ (if ti_qos sample_msg = 1 then [pub_node (word_of_int rc) packet t] else [])))"
proof -
  have "case wrapper_mqtt_publish sample_connected (Some [SLASH, 0x61]) sample_msg (Some [1, 2]) of
      Some (rc, c') \<Rightarrow> 0 \<le> rc | None \<Rightarrow> False" by code_simp
  then obtain rc c' where r: "wrapper_mqtt_publish sample_connected (Some [SLASH, 0x61]) sample_msg (Some [1, 2]) = Some (rc, c')" "0 \<le> rc"
    by (auto split: option.splits)
  from publish_succeeds [OF r _ sample_write(2)] r(1) show ?thesis by (simp add: sample_msg_def)
qed

text \<open>
  C16: A subscription that succeeds was made on a connected client with a filter that passed the
  check; exactly the SUBSCRIBE packet for it was sent, and its handler is registered.
\<close>

theorem subscribe_succeeds:
  assumes "wrapper_mqtt_subscribe c (Some flt) q (Some fp) x = Some (rc, c')" "0 \<le> rc" "write_bounded (net_write (env c))"
  shows "client_state c = IOTX_MC_STATE_CONNECTED \<and> iotx_mc_check_topic (Some flt) TOPIC_FILTER_TYPE = Some SUCCESS_RETURN \<and>
     net_sent (env c') = net_sent (env c) @ fixed_packet (sub_header SUBSCRIBE 0) (subscribe_body (word_of_int rc) [(topic_string flt, q)]) \<and>
     \<lparr>handle = \<lparr>h_fp = Some fp, pcontext = x\<rparr>, topic_filter = flt\<rparr> \<in> set (list_sub_handle c')"
  by (rule subscribe_success_effect [OF assms])

theorem subscribe_succeeds_witness:
  "\<exists>rc c'. wrapper_mqtt_subscribe sample_connected (Some [SLASH, 0x61]) 1 (Some 3) 4 = Some (rc, c') \<and>
     client_state sample_connected = IOTX_MC_STATE_CONNECTED \<and> iotx_mc_check_topic (Some [SLASH, 0x61]) TOPIC_FILTER_TYPE = Some SUCCESS_RETURN \<and>
     net_sent (env c') = net_sent (env sample_connected) @
       fixed_packet (sub_header SUBSCRIBE 0) (subscribe_body (word_of_int rc) [(topic_string [SLASH, 0x61], 1)]) \<and>
     \<lparr>handle = \<lparr>h_fp = Some 3, pcontext = 4\<rparr>, topic_filter = [SLASH, 0x61]\<rparr> \<in> set (list_sub_handle c')"
proof -
  have "case wrapper_mqtt_subscribe sample_connected (Some [SLASH, 0x61]) 1 (Some 3) 4 of
      Some (rc, c') \<Rightarrow> 0 \<le> rc | None \<Rightarrow> False" by code_simp
  then obtain rc c' where r: "wrapper_mqtt_subscribe sample_connected (Some [SLASH, 0x61]) 1 (Some 3) 4 = Some (rc, c')" "0 \<le> rc"
    by (auto split: option.splits)
  from subscribe_succeeds [OF r sample_write(2)] r(1) show ?thesis by blast
qed

text \<open>
  \<open>MQTTConnect\<close> sends exactly the CONNECT packet of the client's connection data, or a prefix
  of it when it reports an error.
\<close>

lemma connect_sends:
  assumes "MQTTConnect c = Some (rc, c')" "write_bounded (net_write (env c))" "connectData_ok (connect_data c)"
    and "length (connect_body (connect_data c)) < 268435456"
  shows "if rc = SUCCESS_RETURN
     then net_sent (env c') = net_sent (env c) @ fixed_packet 0x10 (connect_body (connect_data c))
     else \<exists>n. net_sent (env c') = net_sent (env c) @ take n (fixed_packet 0x10 (connect_body (connect_data c)))"
  using postD [OF Connect_sends [OF assms(2-4)] assms(1)]
  by (auto simp: sent_packet_def MQTT_HEADER_SET_TYPE_def)

text \<open>
  C6: Packet identifiers are never zero and do not repeat within 65535 requests, across the wrap
  from 65535 to 1.
\<close>

theorem packet_ids_unique:
  assumes "client_inv c" "n \<le> 65535"
  shows "distinct (packet_ids n c) \<and> set (packet_ids n c) \<subseteq> {1..65535}"
proof -
  have "packet_id c \<le> 65535" using assms(1) by (simp add: client_inv_def base_inv_def)
  then show ?thesis using packet_ids_distinct assms(2) by blast
qed

theorem packet_ids_unique_witness: "distinct (packet_ids 100 sample_connected) \<and> set (packet_ids 100 sample_connected) \<subseteq> {1..65535}"
  by (rule packet_ids_unique [OF sample_connected_inv]) simp

text \<open>
  C4: A received PUBLISH with QoS 0 or 1 is delivered exactly once to each matching handler, in the
  order of subscription, or to the client's own handler when none matches, with topic, payload and
  flags of the packet; with QoS 1 the PUBACK for its packet id is sent, with QoS 0 nothing.
\<close>

theorem publish_received:
  assumes "buf_read c = Some (publish_packet dup qos retain topic packetid payload @ rest)"
    and "dup < 2" "retain < 2" "qos \<in> {0, 1}" "topic \<noteq> []" "length topic < 65536"
    and "length (publish_body qos topic packetid payload) < 268435456"
    and "write_bounded (net_write (env c))" "buf_send c = None"
    and "iotx_mc_handle_recv_PUBLISH c = Some (rc, c')"
  shows "events c' = events c @ map (\<lambda>h. received h (MsgTopic (received_msg dup qos retain topic packetid payload)
       (publish_packet dup qos retain topic packetid payload @ rest))) (receivers c topic) \<and>
     (if qos = 0 then rc = SUCCESS_RETURN \<and> net_sent (env c') = net_sent (env c)
      else sent_packet c (fixed_packet (ack_header (cpt PUBACK) 0) (int_bytes (unat packetid))) rc c')"
  using postD [OF PUBLISH_received [OF assms(1-9)] assms(10)] unfolding prod.case .

theorem publish_received_witness:
  "\<exists>rc c'. iotx_mc_handle_recv_PUBLISH sample_receiving = Some (rc, c') \<and>
     events c' = events sample_receiving @ map (\<lambda>h. received h (MsgTopic (received_msg 0 1 0 [SLASH, 0x61, SLASH, 0x62] 9 [1, 2])
       (publish_packet 0 1 0 [SLASH, 0x61, SLASH, 0x62] 9 [1, 2] @ [0]))) (receivers sample_receiving [SLASH, 0x61, SLASH, 0x62]) \<and>
     sent_packet sample_receiving (fixed_packet (ack_header (cpt PUBACK) 0) (int_bytes (unat (9 :: u16)))) rc c'"
proof -
  have "\<not> Option.is_none (iotx_mc_handle_recv_PUBLISH sample_receiving)" by code_simp
  then obtain rc c' where r: "iotx_mc_handle_recv_PUBLISH sample_receiving = Some (rc, c')" using runs by blast
  have "buf_read sample_receiving = Some (publish_packet 0 1 0 [SLASH, 0x61, SLASH, 0x62] 9 [1, 2] @ [0])"
    "buf_send sample_receiving = None" "write_bounded (net_write (env sample_receiving))"
    using sample_write(2) by (simp_all add: sample_receiving_def sample_connected_def sample_sel)
  from publish_received [OF this(1) _ _ _ _ _ _ this(3,2) r] r show ?thesis by (simp add: publish_body_def)
qed

text \<open>
  The handlers that a message goes to: a handler whose filter has its wildcards as whole levels
  is called exactly when its filter is the topic, or matches it as MQTT says with a non-empty level
  under every wildcard.
\<close>

lemma receivers_levels:
  assumes "filter_ok (topic_filter n)"
  shows "handle_matches (name_string topic) n \<longleftrightarrow>
     topic_filter n = topic \<or> mqtt_match (topic_levels (topic_filter n)) (topic_levels topic) \<and>
       wildcards_filled (topic_levels (topic_filter n)) (topic_levels topic)"
  by (rule handle_matches_levels [OF assms])

text \<open>
  C14: A PUBACK ends the wait of exactly the publications with its packet id, and the application
  is told once.
\<close>

theorem puback_acknowledges:
  assumes "buf_read c = Some (fixed_packet (ack_header (cpt PUBACK) 0) (int_bytes (unat i)) @ rest)"
  shows "\<exists>c'. iotx_mc_handle_recv_PUBACK c = Some (SUCCESS_RETURN, c') \<and>
     waiting (list_pub_wait_ack c') = filter (\<lambda>(j, b). j \<noteq> i) (waiting (list_pub_wait_ack c)) \<and>
     events c' = events c @ (if h_fp (handle_event c) \<noteq> None
        then [\<lparr>ev_handle = handle_event c, ev_type = IOTX_MQTT_EVENT_PUBLISH_SUCCESS, ev_msg = MsgId i\<rparr>] else [])"
  by (rule PUBACK_waiting [OF assms])

theorem puback_acknowledges_witness:
  "\<exists>c'. iotx_mc_handle_recv_PUBACK (sample_connected\<lparr>buf_read := Some (fixed_packet (ack_header (cpt PUBACK) 0) (int_bytes (unat (5 :: u16))) @ [])\<rparr>) = Some (SUCCESS_RETURN, c') \<and>
     waiting (list_pub_wait_ack c') = filter (\<lambda>(j, b). j \<noteq> 5) (waiting (list_pub_wait_ack
       (sample_connected\<lparr>buf_read := Some (fixed_packet (ack_header (cpt PUBACK) 0) (int_bytes (unat (5 :: u16))) @ [])\<rparr>)))"
  using puback_acknowledges [of "sample_connected\<lparr>buf_read := Some (fixed_packet (ack_header (cpt PUBACK) 0) (int_bytes (unat (5 :: u16))) @ [])\<rparr>" 5 "[]"]
  by auto

text \<open>
  C13: No publication is lost by the retransmission pass: \<open>MQTTPubInfoProc\<close> removes only
  acknowledged entries, and keeps every waiting publication with its packet, in order.
\<close>

theorem retransmission_keeps:
  assumes "MQTTPubInfoProc c = Some (rc, c')"
  shows "waiting (list_pub_wait_ack c') = waiting (list_pub_wait_ack c)"
  using postD [OF PubInfoProc_waiting assms] by simp

theorem retransmission_keeps_witness:
  "\<exists>rc c'. MQTTPubInfoProc sample_pending = Some (rc, c') \<and>
     waiting (list_pub_wait_ack c') = waiting (list_pub_wait_ack sample_pending) \<and> waiting (list_pub_wait_ack sample_pending) = [(4, [0x32, 0])]"
proof -
  have "\<not> Option.is_none (MQTTPubInfoProc sample_pending)" by code_simp
  then obtain rc c' where "MQTTPubInfoProc sample_pending = Some (rc, c')" using runs by blast
  with retransmission_keeps [OF this] show ?thesis by (auto simp: sample_pending_def waiting_def pub_node_def)
qed

text \<open>
  C2: Reading a packet is memory safe for every behaviour of the network, with a read buffer of at
  least five bytes: \<open>iotx_mc_read_packet\<close> returns, never leaves the buffer, and when it reports a
  packet type the buffer starts with a complete packet of that type.
\<close>

theorem read_packet_safe:
  assumes "5 \<le> buf_size_read_max c"
  shows "\<exists>rc type c'. iotx_mc_read_packet c timer 0 = Some (rc, type, c') \<and>
     (rc = SUCCESS_RETURN \<longrightarrow> type = cpt MQTT_CPT_RESERVED \<or> frame_in c' type)"
  using returns_exists [OF returns_read_packet [OF assms, of timer 0]] by (auto simp: read_result_def)

theorem read_packet_safe_witness:
  "\<exists>rc type c'. iotx_mc_read_packet sample_connected 0 0 = Some (rc, type, c') \<and>
     (rc = SUCCESS_RETURN \<longrightarrow> type = cpt MQTT_CPT_RESERVED \<or> frame_in c' type)"
  by (rule read_packet_safe) (simp add: sample_connected_def sample_sel)

text \<open>
  C11: The connection states form a state machine: a call of \<open>wrapper_mqtt_yield\<close> changes them only
  along the edges of \<^const>\<open>yield_may\<close>, and a disconnected client starts reconnecting.
\<close>

theorem yield_transitions:
  assumes "client_inv c" "wrapper_mqtt_yield c timeout_ms = Some (rc, c')"
  shows "yield_may (client_state c) (client_state c') \<and>
     (0 \<le> timeout_ms \<and> client_state c = IOTX_MC_STATE_DISCONNECTED \<longrightarrow> client_state c' = IOTX_MC_STATE_DISCONNECTED_RECONNECTING)"
  using postD [OF yield_state [OF assms(1)] assms(2)] by simp

theorem yield_transitions_witness:
  "\<exists>rc c'. wrapper_mqtt_yield sample_connected 100 = Some (rc, c') \<and> yield_may (client_state sample_connected) (client_state c') \<and>
     (0 \<le> (100 :: int) \<and> client_state sample_connected = IOTX_MC_STATE_DISCONNECTED \<longrightarrow> client_state c' = IOTX_MC_STATE_DISCONNECTED_RECONNECTING)"
proof -
  have "\<not> Option.is_none (wrapper_mqtt_yield sample_connected 100)" by code_simp
  then obtain rc c' where r: "wrapper_mqtt_yield sample_connected 100 = Some (rc, c')" using runs by blast
  from yield_transitions [OF sample_connected_inv r] r show ?thesis by blast
qed

text \<open>
  C12: A connection on which more than two pings stayed unanswered is given up: the next receive
  cycle leaves the client disconnected, whatever it reads.
\<close>

theorem unanswered_pings_disconnect:
  assumes "client_inv (c\<lparr>keepalive_probes := 0\<rparr>)" "client_state c = IOTX_MC_STATE_CONNECTED" "2 < keepalive_probes c"
    and "iotx_mc_cycle c timer = Some (rc, c')"
  shows "client_state c' = IOTX_MC_STATE_DISCONNECTED"
proof -
  have "buf_send c = None" using assms(1) by (simp add: client_inv_def idle_def)
  from postD [OF cycle_state [OF this] assms(4)] assms(2,3) show ?thesis by simp
qed

theorem unanswered_pings_disconnect_witness:
  "\<exists>rc c'. iotx_mc_cycle (sample_connected\<lparr>keepalive_probes := 3\<rparr>) 0 = Some (rc, c') \<and> client_state c' = IOTX_MC_STATE_DISCONNECTED"
proof -
  have "\<not> Option.is_none (iotx_mc_cycle (sample_connected\<lparr>keepalive_probes := 3\<rparr>) 0)" by code_simp
  then obtain rc c' where r: "iotx_mc_cycle (sample_connected\<lparr>keepalive_probes := 3\<rparr>) 0 = Some (rc, c')" using runs by blast
  have "client_inv (sample_connected\<lparr>keepalive_probes := 3\<rparr>\<lparr>keepalive_probes := 0\<rparr>)"
    using sample_connected_inv by (simp add: client_inv_def base_inv_def idle_def)
  from unanswered_pings_disconnect [OF this _ _ r] r show ?thesis by (simp add: sample_connected_def)
qed

text \<open>
  C17: Without a connection, subscribing, unsubscribing and publishing fail with an error and change
  nothing but the packet id counter: in particular nothing is sent.
\<close>

theorem offline_requests_fail:
  assumes "client_inv c" "client_state c \<noteq> IOTX_MC_STATE_CONNECTED"
    and "wrapper_mqtt_subscribe c flt q fp x = Some (rc, c') \<or> wrapper_mqtt_unsubscribe c flt = Some (rc, c') \<or>
      wrapper_mqtt_publish c name m d = Some (rc, c')"
  shows "rc < 0 \<and> c' = c\<lparr>packet_id := packet_id c'\<rparr>"
proof -
  have "buf_send c = None" using assms(1) by (rule idle_buf)
  with assms(3) have "needs_connection c rc c'"
    by (auto dest: postD [OF subscribe_state] postD [OF unsubscribe_state] postD [OF publish_state])
  with assms(2) show ?thesis by (simp add: needs_connection_def)
qed

theorem offline_requests_fail_witness:
  "\<exists>rc c'. wrapper_mqtt_subscribe sample_client (Some [SLASH, 0x61]) 1 (Some 3) 4 = Some (rc, c') \<and>
     rc < 0 \<and> c' = sample_client\<lparr>packet_id := packet_id c'\<rparr>"
proof -
  have "\<not> Option.is_none (wrapper_mqtt_subscribe sample_client (Some [SLASH, 0x61]) 1 (Some 3) 4)" by code_simp
  then obtain rc c' where r: "wrapper_mqtt_subscribe sample_client (Some [SLASH, 0x61]) 1 (Some 3) 4 = Some (rc, c')" using runs by blast
  have "client_inv sample_client" using mqtt.reachable_inv [OF sample_reachable] .
  from offline_requests_fail [OF this _ disjI1, OF _ r] r show ?thesis by (auto simp: sample_sel)
qed

text \<open>
  C15: \<open>wrapper_mqtt_connect\<close> succeeds only on an accepting broker: when it reports success, it has sent
  one to eight CONNECT packets with the client's data (the first with the doubled keep-alive
  interval), the last packet it read, after the last CONNECT, is a CONNACK with return code 0,
  and the client is connected with its ping counter reset. When it reports a failure, state and
  ping counter are those before the call. And the answer to the first CONNECT decides: if the
  first packet read is a CONNACK with return code 0, the call returns and succeeds; with a return code from 1 to
  5 (a refusal) it returns and fails with \<open>MQTT_CONNECT_ERROR\<close>.
\<close>

theorem connect_result:
  assumes "client_inv c" "5 \<le> buf_size_read_max c" "write_bounded (net_write (env c))"
    and "connectData_ok (connect_data c)" "length (connect_body (connect_data c)) < 268435456"
  shows "(\<forall>rc c'. wrapper_mqtt_connect c = Some (rc, c') \<longrightarrow> client_inv c' \<and>
    (if rc = SUCCESS_RETURN
     then client_state c' = IOTX_MC_STATE_CONNECTED \<and> keepalive_probes c' = 0 \<and>
       (\<exists>n < 8. \<exists>c1 t p c2. net_sent (env c1) = net_sent (env c) @
           connect_packet ((connect_data c)\<lparr>keepAliveInterval := connect_interval (keepAliveInterval (connect_data c))\<rparr>) @
           concat (replicate n (connect_packet (connect_data c))) \<and>
         iotx_mc_read_packet c1 t p = Some (SUCCESS_RETURN, cpt CONNACK, c2) \<and> connack c2 0 \<and>
         env c' = next_tick (env c2) \<and> net_sent (env c') = net_sent (env c1))
     else client_state c' = client_state c \<and> keepalive_probes c' = keepalive_probes c)) \<and>
    (first_answer c 0 \<longrightarrow> (\<exists>c'. wrapper_mqtt_connect c = Some (SUCCESS_RETURN, c'))) \<and>
    (\<forall>k \<in> {1, 2, 3, 4, 5}. first_answer c k \<longrightarrow> (\<exists>c'. wrapper_mqtt_connect c = Some (MQTT_CONNECT_ERROR, c')))"
proof (intro conjI allI impI ballI)
  fix rc c' assume run: "wrapper_mqtt_connect c = Some (rc, c')"
  have "base_inv c" "idle c" using assms(1) by (simp_all add: client_inv_def)
  note inv = postD [OF wrapper_mqtt_connect_inv [OF this] run] postD [OF connect_inv [OF assms(1)] run]
  show "client_inv c'" using inv by simp
  show "if rc = SUCCESS_RETURN
     then client_state c' = IOTX_MC_STATE_CONNECTED \<and> keepalive_probes c' = 0 \<and>
       (\<exists>n < 8. \<exists>c1 t p c2. net_sent (env c1) = net_sent (env c) @
           connect_packet ((connect_data c)\<lparr>keepAliveInterval := connect_interval (keepAliveInterval (connect_data c))\<rparr>) @
           concat (replicate n (connect_packet (connect_data c))) \<and>
         iotx_mc_read_packet c1 t p = Some (SUCCESS_RETURN, cpt CONNACK, c2) \<and> connack c2 0 \<and>
         env c' = next_tick (env c2) \<and> net_sent (env c') = net_sent (env c1))
     else client_state c' = client_state c \<and> keepalive_probes c' = keepalive_probes c"
    using inv connect_wire [OF assms(4,5,2,3)] run by (cases "rc = SUCCESS_RETURN") auto
qed (use first_answer_decides in auto)

text \<open>
  A run with a broker that answers the CONNECT with the CONNACK \<open>20 02 00 k\<close>: it connects for
  \<open>k = 0\<close> and fails for \<open>k = 5\<close>.
\<close>

definition answering :: "byte \<Rightarrow> iotx_mc_client_t" where
  "answering k = sample_client\<lparr>env := (hal_at (\<lambda>_. 0))
     \<lparr>net_read := \<lambda>t n _. (int n, \<lambda>i. if n = 1 then (if t < 12 then 0x20 else 2) else if i = 1 then k else 0)\<rparr>\<rparr>"

lemma answering_ok:
  "client_inv (answering k)" "5 \<le> buf_size_read_max (answering k)" "write_bounded (net_write (env (answering k)))"
  by (simp_all add: client_inv_def base_inv_def idle_def answering_def sample_sel write_bounded_def hal_at_def)

lemma answering_data:
  "connectData_ok (connect_data (answering k))" "length (connect_body (connect_data (answering k))) < 268435456"
proof -
  have "connectData_ok (connect_data sample_client)"
    by (simp add: sample_client_def sample_init_defs connectData_ok_def mqttstr_ok_def MQTTString_initializer_def)
  moreover have "length (connect_body (connect_data sample_client)) = 19" by code_simp
  ultimately show "connectData_ok (connect_data (answering k))" "length (connect_body (connect_data (answering k))) < 268435456"
    by (simp_all add: answering_def)
qed

lemma answering_answers: "first_answer (answering 0) 0" "first_answer (answering 5) 5"
  by (rule first_answer_test [where flags = 0], code_simp)+

theorem connect_result_witness:
  "first_answer (answering 0) 0 \<and> first_answer (answering 5) 5 \<and>
   (\<exists>c'. wrapper_mqtt_connect (answering 0) = Some (SUCCESS_RETURN, c') \<and> client_state c' = IOTX_MC_STATE_CONNECTED \<and>
     (\<exists>c2. connack c2 0 \<and> env c' = next_tick (env c2))) \<and>
   (\<exists>c'. wrapper_mqtt_connect (answering 5) = Some (MQTT_CONNECT_ERROR, c') \<and> client_state c' = IOTX_MC_STATE_INITIALIZED)"
proof -
  note result = connect_result [OF answering_ok answering_data]
  obtain c0 c5 where r: "wrapper_mqtt_connect (answering 0) = Some (SUCCESS_RETURN, c0)"
    "wrapper_mqtt_connect (answering 5) = Some (MQTT_CONNECT_ERROR, c5)"
    using result [of 0] result [of 5] answering_answers by blast
  have "client_state (answering 5) = IOTX_MC_STATE_INITIALIZED" "MQTT_CONNECT_ERROR \<noteq> SUCCESS_RETURN"
    by (simp_all add: answering_def sample_sel mqtt_error_defs)
  moreover have "\<exists>c2. connack c2 0 \<and> env c0 = next_tick (env c2)" "client_state c0 = IOTX_MC_STATE_CONNECTED"
    using conjunct1 [OF result [of 0], rule_format, OF r(1)] by auto
  moreover have "client_state c5 = client_state (answering 5)"
    using conjunct1 [OF result [of 5], rule_format, OF r(2)] calculation(2) by auto
  ultimately show ?thesis using answering_answers r by auto
qed

text \<open>
  \<open>MQTTUnsubscribe\<close> does not remove the handlers of a topic without wildcards: it compares them
  with a string that is one character too long, so they stay registered even when the broker was
  told.
\<close>

lemma unsubscribe_leaves_handlers:
  assumes "MQTTUnsubscribe c flt i = Some (rc, c')" "PLUS \<notin> set flt" "HASH \<notin> set flt"
    and "n \<in> set (list_sub_handle c)" "topic_filter n = flt"
  shows "n \<in> set (list_sub_handle c')"
  by (rule unsubscribe_keeps_exact [OF assms])

text \<open>
  A SUBACK counts as a refusal only when its last granted QoS is the failure code: a refusal of
  an earlier filter is overwritten.
\<close>

lemma suback_last_decides:
  "suback_fail_flag (qs @ [q]) = (if (word_of_int q :: u8) = 0x80 then 1 else 0)"
  by (simp add: suback_fail_flag_def)

end
